(* ===== verification/Prelude.thy ===== *)
theory Prelude
  imports Main "HOL-Library.Word" "HOL-Library.Char_ord" "HOL-Library.List_Lexorder"
    "HOL-Library.Product_Lexorder"
begin

text \<open>
  Shared vocabulary of the development: machine integers, time stamps, Rust strings as UTF-8
  byte lists, the parts of Rust's standard library the sources call on options and lists, keyed
  tables (the SQL tables of the broker and the hub), and the two interfaces every component
  reuses: \<open>keyed_store\<close> for the tables and \<open>text_enum\<close> for enums with a text form.
\<close>

named_theorems frame_simps \<open>fields an operation leaves alone\<close>
named_theorems step_defs \<open>definitions the component proofs unfold together\<close>

section \<open>Machine integers and time\<close>

type_synonym u8 = "8 word"
type_synonym u16 = "16 word"
type_synonym u32 = "32 word"
type_synonym u64 = "64 word"
type_synonym i32 = "32 word"

text \<open>Nanoseconds since the epoch: the resolution of \<^verbatim>\<open>chrono::DateTime<Utc>\<close>.\<close>

type_synonym timestamp = int

definition seconds :: "int \<Rightarrow> int" where
  "seconds n = n * 1000000000"

definition minutes :: "int \<Rightarrow> int" where
  "minutes n = seconds (n * 60)"

definition days :: "int \<Rightarrow> int" where
  "days n = seconds (n * 86400)"

text \<open>\<^verbatim>\<open>u64::saturating_add\<close>.\<close>

definition saturating_add :: "u64 \<Rightarrow> u64 \<Rightarrow> u64" where
  "saturating_add a b = (if unat a + unat b < 2 ^ 64 then a + b else - 1)"

lemma unat_saturating_add: "unat (saturating_add a b) = min (unat a + unat b) (2 ^ 64 - 1)"
proof (cases "unat a + unat b < 2 ^ 64")
  case True
  then have "unat (a + b) = unat a + unat b"
    by (simp add: unat_word_ariths)
  with True show ?thesis by (simp add: saturating_add_def)
next
  case False
  have "unat (- 1 :: u64) = 2 ^ 64 - 1"
    by (simp add: unsigned_minus_1_eq_mask mask_eq_exp_minus_1)
  with False show ?thesis by (simp add: saturating_add_def)
qed

lemma saturating_add_ge: "a \<le> saturating_add a b"
proof -
  have "unat a \<le> 2 ^ 64 - 1"
    using unsigned_less [of a, where ?'a = nat] by simp
  then show ?thesis by (simp add: word_le_nat_alt unat_saturating_add)
qed

section \<open>Rust options and results\<close>

text \<open>A fallible operation returns \<open>'e + 'a\<close>, \<open>Inl\<close> for the error.\<close>

definition is_some_and :: "('a \<Rightarrow> bool) \<Rightarrow> 'a option \<Rightarrow> bool" where
  "is_some_and p x = (case x of None \<Rightarrow> False | Some v \<Rightarrow> p v)"

definition is_none_or :: "('a \<Rightarrow> bool) \<Rightarrow> 'a option \<Rightarrow> bool" where
  "is_none_or p x = (case x of None \<Rightarrow> True | Some v \<Rightarrow> p v)"

definition or_else :: "'a option \<Rightarrow> 'a option \<Rightarrow> 'a option" where
  "or_else x y = (case x of None \<Rightarrow> y | Some _ \<Rightarrow> x)"

definition unwrap_or :: "'a option \<Rightarrow> 'a \<Rightarrow> 'a" where
  "unwrap_or x d = (case x of None \<Rightarrow> d | Some v \<Rightarrow> v)"

lemma is_some_and_simps [simp]:
  "is_some_and p None = False" "is_some_and p (Some v) = p v"
  by (simp_all add: is_some_and_def)

lemma is_none_or_simps [simp]:
  "is_none_or p None = True" "is_none_or p (Some v) = p v"
  by (simp_all add: is_none_or_def)

lemma or_else_simps [simp]:
  "or_else None y = y" "or_else (Some v) y = Some v" "or_else x None = x"
  by (simp_all add: or_else_def split: option.split)

lemma unwrap_or_simps [simp]:
  "unwrap_or None d = d" "unwrap_or (Some v) d = v"
  by (simp_all add: unwrap_or_def)

lemma is_some_and_iff: "is_some_and p x \<longleftrightarrow> (\<exists>v. x = Some v \<and> p v)"
  by (cases x) auto

lemma is_none_or_iff: "is_none_or p x \<longleftrightarrow> (\<forall>v. x = Some v \<longrightarrow> p v)"
  by (cases x) auto

definition result_bind :: "'e + 'a \<Rightarrow> ('a \<Rightarrow> 'e + 'b) \<Rightarrow> 'e + 'b" where
  "result_bind r f = (case r of Inl e \<Rightarrow> Inl e | Inr v \<Rightarrow> f v)"

lemma result_bind_simps [simp]:
  "result_bind (Inl e) f = Inl e" "result_bind (Inr v) f = f v"
  by (simp_all add: result_bind_def)

lemma result_bind_Inr: "result_bind r f = Inr w \<longleftrightarrow> (\<exists>v. r = Inr v \<and> f v = Inr w)"
  by (cases r) auto

section \<open>Rust strings\<close>

text \<open>
  A Rust \<open>String\<close> is its UTF-8 byte list, an HOL \<^typ>\<open>string\<close>: \<open>len\<close> is the length
  of the list and the derived order is the byte-wise lexicographic order of
  \<open>List_Lexorder\<close>. \<open>chars\<close> decodes the bytes into Unicode scalar values.
\<close>

definition byte :: "char \<Rightarrow> nat" where
  "byte c = (of_char c :: nat)"

definition low6 :: "char \<Rightarrow> nat" where
  "low6 c = byte c mod 64"

definition char_width :: "char \<Rightarrow> nat" where
  "char_width a = (if byte a < 128 then 1 else if byte a < 224 then 2
     else if byte a < 240 then 3 else 4)"

definition lead_bits :: "char \<Rightarrow> nat" where
  "lead_bits a = (if byte a < 128 then byte a else if byte a < 224 then byte a mod 32
     else if byte a < 240 then byte a mod 16 else byte a mod 8)"

function chars :: "string \<Rightarrow> nat list" where
  "chars [] = []"
| "chars (a # bs) =
    foldl (\<lambda>acc b. acc * 64 + low6 b) (lead_bits a) (take (char_width a - 1) bs)
      # chars (drop (char_width a - 1) bs)"
  by pat_completeness auto
termination
  by (relation "measure length") auto

text \<open>\<^verbatim>\<open>char::is_control\<close>: general category Cc.\<close>

definition is_control :: "nat \<Rightarrow> bool" where
  "is_control c \<longleftrightarrow> c < 32 \<or> 127 \<le> c \<and> c < 160"

definition has_control :: "string \<Rightarrow> bool" where
  "has_control s = list_ex is_control (chars s)"

text \<open>The recurring check of the sources: non-empty, at most \<open>m\<close> characters, no control.\<close>

definition normalized_text :: "nat \<Rightarrow> string \<Rightarrow> bool" where
  "normalized_text m s \<longleftrightarrow> s \<noteq> [] \<and> length (chars s) \<le> m \<and> \<not> has_control s"

lemma char_width_bounds: "1 \<le> char_width a" "char_width a \<le> 4"
  by (simp_all add: char_width_def)

lemma length_chars_le: "length (chars s) \<le> length s"
proof (induction s rule: chars.induct)
  case (2 a bs)
  have "length (chars (a # bs)) = Suc (length (chars (drop (char_width a - 1) bs)))"
    by simp
  also have "\<dots> \<le> Suc (length (drop (char_width a - 1) bs))"
    using "2.IH" by simp
  finally show ?case by simp
qed simp

lemma length_le_chars: "length s \<le> 4 * length (chars s)"
proof (induction s rule: chars.induct)
  case (2 a bs)
  have "length (a # bs) \<le> 4 + length (drop (char_width a - 1) bs)"
    using char_width_bounds [of a] by simp
  also have "\<dots> \<le> 4 + 4 * length (chars (drop (char_width a - 1) bs))"
    using "2.IH" by simp
  finally show ?case by simp
qed simp

lemma chars_eq_Nil_iff [simp]: "chars s = [] \<longleftrightarrow> s = []"
  by (cases s) auto

section \<open>UTF-8 encoding\<close>

definition encode_utf8 :: "nat \<Rightarrow> string" where
  "encode_utf8 c =
    (if c < 128 then [char_of c]
     else if c < 2048 then [char_of (192 + c div 64), char_of (128 + c mod 64)]
     else if c < 65536 then
       [char_of (224 + c div 4096), char_of (128 + c div 64 mod 64), char_of (128 + c mod 64)]
     else
       [char_of (240 + c div 262144), char_of (128 + c div 4096 mod 64),
        char_of (128 + c div 64 mod 64), char_of (128 + c mod 64)])"

definition utf8 :: "nat list \<Rightarrow> string" where
  "utf8 cs = concat (map encode_utf8 cs)"

text \<open>The values a Rust \<open>char\<close> can have (surrogates included, which changes nothing here).\<close>

definition scalar :: "nat \<Rightarrow> bool" where
  "scalar c \<longleftrightarrow> c < 1114112"

lemma byte_char_of: "n < 256 \<Longrightarrow> byte (char_of n) = n"
  by (simp add: byte_def of_char_of)

lemma offset_mod: "n < k \<Longrightarrow> (a * k + n) mod k = (n::nat)"
  by simp

lemma low6_char_of: "n < 64 \<Longrightarrow> low6 (char_of (128 + n)) = n"
  using offset_mod [of n 64 2] by (simp add: low6_def byte_char_of)

lemma base64_two: "(c div 4096 * 64 + c div 64 mod 64) * 64 + c mod 64 = (c::nat)"
proof -
  have "c div 4096 = c div 64 div 64" by (simp flip: div_mult2_eq)
  then show ?thesis by (simp add: div_mult_mod_eq)
qed

lemma base64_three:
  "((c div 262144 * 64 + c div 4096 mod 64) * 64 + c div 64 mod 64) * 64 + c mod 64 = (c::nat)"
proof -
  have "c div 262144 = c div 4096 div 64" by (simp flip: div_mult2_eq)
  then have "c div 262144 * 64 + c div 4096 mod 64 = c div 4096" by (simp add: div_mult_mod_eq)
  then show ?thesis using base64_two [of c] by presburger
qed

lemma chars_encode: "scalar c \<Longrightarrow> chars (encode_utf8 c @ s) = c # chars s"
proof -
  assume c: "scalar c"
  consider "c < 128" | "128 \<le> c" "c < 2048" | "2048 \<le> c" "c < 65536" | "65536 \<le> c"
    by linarith
  then show ?thesis
  proof cases
    case 1
    then show ?thesis
      by (simp add: encode_utf8_def char_width_def lead_bits_def byte_char_of)
  next
    case 2
    let ?h = "c div 64"
    have h: "?h < 32" using 2 by simp
    have "(192 + ?h) mod 32 = ?h" using offset_mod [OF h, of 6] by simp
    then show ?thesis using 2 h
      by (simp add: encode_utf8_def char_width_def lead_bits_def byte_char_of low6_char_of)
  next
    case 3
    let ?h = "c div 4096"
    have h: "?h < 16" using 3 by simp
    have "(224 + ?h) mod 16 = ?h" using offset_mod [OF h, of 14] by simp
    with base64_two [of c] show ?thesis using 3 h
      by (simp add: encode_utf8_def char_width_def lead_bits_def byte_char_of low6_char_of
          numeral_2_eq_2)
  next
    case 4
    let ?h = "c div 262144"
    have h: "?h < 8" using c by (simp add: scalar_def)
    have "(240 + ?h) mod 8 = ?h" using offset_mod [OF h, of 30] by simp
    with base64_three [of c] show ?thesis using 4 h
      by (simp add: encode_utf8_def char_width_def lead_bits_def byte_char_of low6_char_of
          numeral_3_eq_3)
  qed
qed

lemma chars_utf8: "list_all scalar cs \<Longrightarrow> chars (utf8 cs) = cs"
  by (induction cs) (simp_all add: utf8_def chars_encode)

definition ascii :: "string \<Rightarrow> bool" where
  "ascii s = list_all (\<lambda>c. byte c < 128) s"

text \<open>The invariant of a Rust \<open>String\<close>: its bytes are the encoding of its characters.\<close>

definition valid_utf8 :: "string \<Rightarrow> bool" where
  "valid_utf8 s \<longleftrightarrow> utf8 (chars s) = s \<and> list_all scalar (chars s)"

lemma chars_ascii_append: "ascii p \<Longrightarrow> chars (p @ r) = map byte p @ chars r"
  by (induction p) (auto simp: ascii_def char_width_def lead_bits_def)

lemma chars_ascii: "ascii s \<Longrightarrow> chars s = map byte s"
  using chars_ascii_append [of s "[]"] by simp

lemma encode_utf8_ascii: "byte c < 128 \<Longrightarrow> encode_utf8 (byte c) = [c]"
  by (simp add: encode_utf8_def byte_def)

lemma utf8_append: "utf8 (xs @ ys) = utf8 xs @ utf8 ys"
  by (simp add: utf8_def)

lemma utf8_ascii: "ascii s \<Longrightarrow> utf8 (map byte s) = s"
  by (induction s) (auto simp: utf8_def ascii_def encode_utf8_ascii)

lemma valid_utf8_suffix: "ascii p \<Longrightarrow> valid_utf8 (p @ r) \<Longrightarrow> valid_utf8 r"
  by (simp add: valid_utf8_def chars_ascii_append utf8_append utf8_ascii)

lemma valid_utf8_ascii: "ascii s \<Longrightarrow> valid_utf8 s"
  by (auto simp: valid_utf8_def chars_ascii utf8_ascii ascii_def scalar_def list_all_iff)

text \<open>\<^verbatim>\<open>str::strip_prefix\<close>.\<close>

definition strip_prefix :: "string \<Rightarrow> string \<Rightarrow> string option" where
  "strip_prefix p s = (if take (length p) s = p then Some (drop (length p) s) else None)"

lemma strip_prefix_append [simp]: "strip_prefix p (p @ s) = Some s"
  by (simp add: strip_prefix_def)

lemma strip_prefix_Some: "strip_prefix p s = Some r \<longleftrightarrow> s = p @ r"
  by (auto simp: strip_prefix_def) (metis append_take_drop_id)

section \<open>Decimal text\<close>

fun show_nat :: "nat \<Rightarrow> string" where
  "show_nat n = (if n < 10 then [char_of (48 + n)] else show_nat (n div 10) @ [char_of (48 + n mod 10)])"

declare show_nat.simps [simp del]

lemma show_nat_inject [simp]: "show_nat m = show_nat n \<longleftrightarrow> m = n"
proof
  have digit: "a = b" if "a < 10" "b < 10" "(char_of (48 + a) :: char) = char_of (48 + b)" for a b :: nat
    using arg_cong [OF that(3), of "of_char :: char \<Rightarrow> nat"] that(1,2) by simp
  show "m = n" if "show_nat m = show_nat n"
    using that
  proof (induction m arbitrary: n rule: show_nat.induct)
    case (1 m)
    have len: "length (show_nat k) = 1 \<longleftrightarrow> k < 10" for k
      by (subst show_nat.simps) (auto simp: show_nat.simps [of "k div 10"])
    show ?case
    proof (cases "m < 10")
      case True
      then have "n < 10" using 1(2) len by metis
      with True 1(2) digit [of m n] show ?thesis by (simp add: show_nat.simps)
    next
      case False
      then have n: "\<not> n < 10" using 1(2) len by metis
      have "show_nat (m div 10) = show_nat (n div 10)"
          "(char_of (48 + m mod 10) :: char) = char_of (48 + n mod 10)"
        using 1(2) False n by (simp_all add: show_nat.simps [of m] show_nat.simps [of n])
      then have "m div 10 = n div 10" "m mod 10 = n mod 10"
        using 1(1) [OF False] digit [of "m mod 10" "n mod 10"] by simp_all
      then show ?thesis by (metis div_mult_mod_eq)
    qed
  qed
qed simp

end
