(* ===== verification/Tables.thy ===== *)
theory Tables
  imports Prelude
begin

text \<open>
  Keyed tables. A SQL table with a primary key is the list of its rows in rowid order; an upsert
  (\<open>INSERT ... ON CONFLICT(key) DO UPDATE\<close>) replaces the row in place or appends it, a
  delete filters. The locale \<open>keyed_store\<close> is the contract the broker and the hub rely on;
  the row lists are interpreted as an instance of it for every key function.
\<close>

section \<open>Row lists\<close>

definition tbl_lookup :: "('r \<Rightarrow> 'k) \<Rightarrow> 'k \<Rightarrow> 'r list \<Rightarrow> 'r option" where
  "tbl_lookup key k rows = List.find (\<lambda>r. key r = k) rows"

fun tbl_put :: "('r \<Rightarrow> 'k) \<Rightarrow> 'r \<Rightarrow> 'r list \<Rightarrow> 'r list" where
  "tbl_put key r [] = [r]"
| "tbl_put key r (x # xs) = (if key x = key r then r # xs else x # tbl_put key r xs)"

definition tbl_delete :: "('r \<Rightarrow> 'k) \<Rightarrow> 'k \<Rightarrow> 'r list \<Rightarrow> 'r list" where
  "tbl_delete key k rows = filter (\<lambda>r. key r \<noteq> k) rows"

abbreviation tbl_wf :: "('r \<Rightarrow> 'k) \<Rightarrow> 'r list \<Rightarrow> bool" where
  "tbl_wf key rows \<equiv> distinct (map key rows)"

lemma tbl_lookup_Nil [simp]: "tbl_lookup key k [] = None"
  by (simp add: tbl_lookup_def)

lemma tbl_lookup_Cons [simp]:
  "tbl_lookup key k (r # rs) = (if key r = k then Some r else tbl_lookup key k rs)"
  by (simp add: tbl_lookup_def)

lemma tbl_lookup_SomeD:
  "tbl_lookup key k rows = Some r \<Longrightarrow> r \<in> set rows \<and> key r = k"
  by (induction rows) (auto split: if_splits)

lemma tbl_lookup_None_iff: "tbl_lookup key k rows = None \<longleftrightarrow> k \<notin> key ` set rows"
  by (induction rows) auto

lemma tbl_lookup_in: "tbl_wf key rows \<Longrightarrow> r \<in> set rows \<Longrightarrow> tbl_lookup key (key r) rows = Some r"
  by (induction rows) (auto simp: image_iff)

lemma tbl_put_keys: "key ` set (tbl_put key r rows) = insert (key r) (key ` set rows)"
  by (induction rows) auto

lemma tbl_put_wf: "tbl_wf key rows \<Longrightarrow> tbl_wf key (tbl_put key r rows)"
proof (induction rows)
  case (Cons x xs)
  have "key x \<noteq> key r \<Longrightarrow> key x \<notin> key ` set (tbl_put key r xs)"
    using Cons.prems by (simp add: tbl_put_keys)
  with Cons show ?case by auto
qed simp

lemma tbl_lookup_put:
  "tbl_lookup key k (tbl_put key r rows) = (if k = key r then Some r else tbl_lookup key k rows)"
  by (induction rows) auto

lemma tbl_lookup_delete:
  "tbl_lookup key k (tbl_delete key j rows) = (if k = j then None else tbl_lookup key k rows)"
  by (induction rows) (auto simp: tbl_delete_def)

lemma tbl_lookup_filter:
  "tbl_wf key rows \<Longrightarrow>
   tbl_lookup key k (filter P rows) =
     (case tbl_lookup key k rows of None \<Rightarrow> None | Some r \<Rightarrow> if P r then Some r else None)"
proof (induction rows)
  case (Cons x xs)
  have "key x = k \<Longrightarrow> tbl_lookup key k (filter P xs) = None"
    using Cons.prems by (auto simp: tbl_lookup_None_iff)
  with Cons show ?case by auto
qed simp

lemma tbl_delete_wf: "tbl_wf key rows \<Longrightarrow> tbl_wf key (tbl_delete key k rows)"
  by (simp add: tbl_delete_def distinct_map_filter)

lemma tbl_filter_wf: "tbl_wf key rows \<Longrightarrow> tbl_wf key (filter P rows)"
  by (simp add: distinct_map_filter)

lemma tbl_put_set: "tbl_wf key rows \<Longrightarrow>
  set (tbl_put key r rows) = insert r {x \<in> set rows. key x \<noteq> key r}"
  by (induction rows) (auto simp: image_iff)

section \<open>The contract of a keyed store\<close>

locale keyed_store =
  fixes lookup :: "'k \<Rightarrow> 't \<Rightarrow> 'r option"
    and put :: "'r \<Rightarrow> 't \<Rightarrow> 't"
    and remove :: "'k \<Rightarrow> 't \<Rightarrow> 't"
    and key :: "'r \<Rightarrow> 'k"
    and wf :: "'t \<Rightarrow> bool"
  assumes lookup_put: "wf t \<Longrightarrow> lookup k (put r t) = (if k = key r then Some r else lookup k t)"
    and lookup_remove: "wf t \<Longrightarrow> lookup k (remove j t) = (if k = j then None else lookup k t)"
    and lookup_key: "wf t \<Longrightarrow> lookup k t = Some r \<Longrightarrow> key r = k"
    and wf_put: "wf t \<Longrightarrow> wf (put r t)"
    and wf_remove: "wf t \<Longrightarrow> wf (remove k t)"
begin

text \<open>Loading a batch of rows with distinct keys, as a snapshot import does.\<close>

lemma wf_fold_put: "wf t \<Longrightarrow> wf (fold put rs t)"
  by (induction rs arbitrary: t) (auto intro: wf_put)

lemma lookup_fold_put_other:
  "wf t \<Longrightarrow> k \<notin> key ` set rs \<Longrightarrow> lookup k (fold put rs t) = lookup k t"
proof (induction rs arbitrary: t)
  case (Cons r rs)
  then have "lookup k (fold put rs (put r t)) = lookup k (put r t)"
    by (auto intro: wf_put)
  with Cons.prems show ?case by (auto simp: lookup_put)
qed simp

lemma lookup_fold_put:
  "wf t \<Longrightarrow> distinct (map key rs) \<Longrightarrow> r \<in> set rs \<Longrightarrow> lookup (key r) (fold put rs t) = Some r"
proof (induction rs arbitrary: t)
  case (Cons x rs)
  show ?case
  proof (cases "r \<in> set rs")
    case True
    with Cons show ?thesis by (auto intro: wf_put)
  next
    case False
    with Cons.prems have "x = r" "key r \<notin> key ` set rs" by auto
    with Cons.prems(1) show ?thesis
      by (simp add: lookup_fold_put_other [OF wf_put] lookup_put)
  qed
qed simp

lemma remove_put_same: "wf t \<Longrightarrow> lookup k (remove (key r) (put r t)) = lookup k (remove (key r) t)"
  by (simp add: lookup_remove lookup_put wf_put)

end

interpretation tbl: keyed_store "tbl_lookup key" "tbl_put key" "tbl_delete key" key "tbl_wf key"
  for key :: "'r \<Rightarrow> 'k"
proof unfold_locales
  show "tbl_wf key t \<Longrightarrow> tbl_lookup key k (tbl_put key r t) =
      (if k = key r then Some r else tbl_lookup key k t)" for t k r
    by (simp add: tbl_lookup_put)
  show "tbl_wf key t \<Longrightarrow> tbl_lookup key k (tbl_delete key j t) =
      (if k = j then None else tbl_lookup key k t)" for t k j
    by (simp add: tbl_lookup_delete)
  show "tbl_wf key t \<Longrightarrow> tbl_lookup key k t = Some r \<Longrightarrow> key r = k" for t k r
    by (blast dest: tbl_lookup_SomeD)
  show "tbl_wf key t \<Longrightarrow> tbl_wf key (tbl_put key r t)" for t r
    by (rule tbl_put_wf)
  show "tbl_wf key t \<Longrightarrow> tbl_wf key (tbl_delete key k t)" for t k
    by (rule tbl_delete_wf)
qed

section \<open>Enums with a text form\<close>

text \<open>
  Several enums of the sources list their values in a constant \<open>ALL\<close>, print one with
  \<open>as_str\<close>, and parse by searching \<open>ALL\<close> for the printed name. What makes this a round
  trip is that the names are pairwise different.
\<close>

locale text_enum =
  fixes all_values :: "'a list" and as_str :: "'a \<Rightarrow> string"
  assumes distinct_names: "distinct (map as_str all_values)"
begin

lemma parse_as_str:
  "x \<in> set all_values \<Longrightarrow> List.find (\<lambda>y. as_str y = as_str x) all_values = Some x"
  using tbl_lookup_in [OF distinct_names] by (simp add: tbl_lookup_def)

lemma as_str_parse:
  "List.find (\<lambda>y. as_str y = s) all_values = Some x \<Longrightarrow> as_str x = s \<and> x \<in> set all_values"
  using tbl_lookup_SomeD [of as_str s all_values x] by (simp add: tbl_lookup_def)

lemma parse_None:
  "List.find (\<lambda>y. as_str y = s) all_values = None \<longleftrightarrow> s \<notin> as_str ` set all_values"
  using tbl_lookup_None_iff [of as_str s all_values] by (simp add: tbl_lookup_def)

lemma parse_iff:
  "List.find (\<lambda>y. as_str y = s) all_values = Some x \<longleftrightarrow> x \<in> set all_values \<and> as_str x = s"
  using parse_as_str as_str_parse by blast

end

end
