(* ===== verification/Provider.thy ===== *)
theory Provider
  imports Tables
begin

text \<open>
  Built-in adapter identities: \<^verbatim>\<open>sessiontap-core/src/provider.rs\<close>. The text form is an
  instance of \<open>text_enum\<close>.
\<close>

datatype ProviderId = Claude | Codex | Qwen | Pi | Agy

definition ProviderId_ALL :: "ProviderId list" where
  "ProviderId_ALL = [Claude, Codex, Pi, Qwen, Agy]"

fun ProviderId_as_str :: "ProviderId \<Rightarrow> string" where
  "ProviderId_as_str Claude = ''claude''"
| "ProviderId_as_str Codex = ''codex''"
| "ProviderId_as_str Qwen = ''qwen''"
| "ProviderId_as_str Pi = ''pi''"
| "ProviderId_as_str Agy = ''agy''"

text \<open>\<^verbatim>\<open>[T]::join\<close>.\<close>

fun join :: "'a list \<Rightarrow> 'a list list \<Rightarrow> 'a list" where
  "join sep [] = []"
| "join sep [x] = x"
| "join sep (x # y # ys) = x @ sep @ join sep (y # ys)"

definition ProviderId_joined :: "string \<Rightarrow> string" where
  "ProviderId_joined separator = join separator (map ProviderId_as_str ProviderId_ALL)"

datatype UnknownProvider = UnknownProvider string

definition UnknownProvider_fmt :: "UnknownProvider \<Rightarrow> string" where
  "UnknownProvider_fmt e = (case e of UnknownProvider v \<Rightarrow>
     ''unknown provider '' @ [CHR 0x27] @ v @ [CHR 0x27] @ ''; expected one of '' @
     ProviderId_joined '', '')"

definition ProviderId_from_str :: "string \<Rightarrow> UnknownProvider + ProviderId" where
  "ProviderId_from_str value =
     (case List.find (\<lambda>p. ProviderId_as_str p = value) ProviderId_ALL of
        None \<Rightarrow> Inl (UnknownProvider value)
      | Some p \<Rightarrow> Inr p)"

interpretation provider_names: text_enum ProviderId_ALL ProviderId_as_str
  by unfold_locales (simp add: ProviderId_ALL_def)

lemma ProviderId_ALL_complete: "x \<in> set ProviderId_ALL"
  by (cases x) (simp_all add: ProviderId_ALL_def)

lemma ProviderId_from_str_Inr:
  "ProviderId_from_str s = Inr p \<longleftrightarrow> ProviderId_as_str p = s"
  using provider_names.parse_iff [of s p] ProviderId_ALL_complete [of p]
  by (auto simp: ProviderId_from_str_def split: option.split)

lemma ProviderId_from_str_Inl:
  "ProviderId_from_str s = Inl e \<longleftrightarrow> e = UnknownProvider s \<and> s \<notin> range ProviderId_as_str"
proof -
  have "set ProviderId_ALL = UNIV" using ProviderId_ALL_complete by blast
  then show ?thesis
    using provider_names.parse_None [of s]
    by (auto simp: ProviderId_from_str_def split: option.split)
qed

end
