(* ===== verification/Terminal.thy ===== *)
theory Terminal
  imports Tables
begin

text \<open>
  The live terminal contract: \<^verbatim>\<open>sessiontap-core/src/terminal.rs\<close>. Frames, input requests,
  the key syntax \<open>[ctrl+][alt+]<base>\<close> with its parser and printer, and the provider
  terminal policy.
\<close>

section \<open>Error codes, cursor, input state, frames\<close>

definition NOT_FOUND :: string where "NOT_FOUND = ''not_found''"
definition TERMINAL_UNAVAILABLE :: string where "TERMINAL_UNAVAILABLE = ''terminal_unavailable''"
definition NOT_FOREGROUND :: string where "NOT_FOREGROUND = ''not_foreground''"
definition PANE_IN_MODE :: string where "PANE_IN_MODE = ''pane_in_mode''"
definition TERMINAL_ENDED :: string where "TERMINAL_ENDED = ''terminal_ended''"
definition UNSUPPORTED_BACKEND :: string where "UNSUPPORTED_BACKEND = ''unsupported_backend''"
definition BAD_REQUEST :: string where "BAD_REQUEST = ''bad_request''"
definition SOURCE_UNAVAILABLE :: string where "SOURCE_UNAVAILABLE = ''source_unavailable''"
definition SOURCE_DISALLOWS_CONTROL :: string where
  "SOURCE_DISALLOWS_CONTROL = ''source_disallows_control''"

record Cursor =
  cur_x :: u16
  cur_y :: u16
  cur_visible :: bool

datatype InputUnavailable = NotForeground | PaneInMode

fun InputUnavailable_code :: "InputUnavailable \<Rightarrow> string" where
  "InputUnavailable_code NotForeground = NOT_FOREGROUND"
| "InputUnavailable_code PaneInMode = PANE_IN_MODE"

record InputState =
  ins_available :: bool
  ins_reason :: "InputUnavailable option"

definition from_guard :: "InputUnavailable option \<Rightarrow> InputState" where
  "from_guard blocked = \<lparr>ins_available = (blocked = None), ins_reason = blocked\<rparr>"

datatype EndReason = AgentExited | PaneClosed | SessionClosed | MultiplexerStopped
  | IdentityChanged | SourceUnavailable | SourceDisallowsControl | Closed

datatype TerminalFrame =
    FrameSnapshot u64 u16 u16 Cursor bool "u8 list" InputState
  | FrameOutput u64 "u8 list"
  | FrameInput InputState
  | FrameEnded EndReason

section \<open>Keys\<close>

datatype NamedKey = Up | Down | Left | Right | Escape | Tab | BackTab | Enter | Space | Backspace
  | CtrlC | Home | End | PageUp | PageDown | Delete | F u8

definition NamedKey_ALL :: "NamedKey list" where
  "NamedKey_ALL = [Up, Down, Left, Right, Escape, Tab, BackTab, Enter, Space, Backspace, CtrlC,
     Home, End, PageUp, PageDown, Delete,
     F 1, F 2, F 3, F 4, F 5, F 6, F 7, F 8, F 9, F 10, F 11, F 12]"

definition F_names :: "string list" where
  "F_names = [''f1'', ''f2'', ''f3'', ''f4'', ''f5'', ''f6'', ''f7'', ''f8'', ''f9'', ''f10'',
     ''f11'', ''f12'']"

fun NamedKey_as_str :: "NamedKey \<Rightarrow> string" where
  "NamedKey_as_str Up = ''up''"
| "NamedKey_as_str Down = ''down''"
| "NamedKey_as_str Left = ''left''"
| "NamedKey_as_str Right = ''right''"
| "NamedKey_as_str Escape = ''escape''"
| "NamedKey_as_str Tab = ''tab''"
| "NamedKey_as_str BackTab = ''back_tab''"
| "NamedKey_as_str Enter = ''enter''"
| "NamedKey_as_str Space = ''space''"
| "NamedKey_as_str Backspace = ''backspace''"
| "NamedKey_as_str CtrlC = ''ctrl_c''"
| "NamedKey_as_str Home = ''home''"
| "NamedKey_as_str End = ''end''"
| "NamedKey_as_str PageUp = ''page_up''"
| "NamedKey_as_str PageDown = ''page_down''"
| "NamedKey_as_str Delete = ''delete''"
| "NamedKey_as_str (F n) = F_names ! ((unat n - 1) mod 12)"

record Mods =
  mod_ctrl :: bool
  mod_alt :: bool

definition Mods_default :: Mods where
  "Mods_default = \<lparr>mod_ctrl = False, mod_alt = False\<rparr>"

text \<open>A Rust \<open>char\<close> is its Unicode scalar value.\<close>

datatype KeyBase = Named NamedKey | Char nat

record Key =
  key_mods :: Mods
  key_base :: KeyBase

definition Key_named :: "NamedKey \<Rightarrow> Key" where
  "Key_named k = \<lparr>key_mods = Mods_default, key_base = Named k\<rparr>"

definition Key_char :: "nat \<Rightarrow> Key" where
  "Key_char c = \<lparr>key_mods = Mods_default, key_base = Char c\<rparr>"

definition Key_with :: "Key \<Rightarrow> Mods \<Rightarrow> Key" where
  "Key_with k m = k\<lparr>key_mods := m\<rparr>"

definition parse_base :: "string \<Rightarrow> KeyBase option" where
  "parse_base value =
     (case List.find (\<lambda>key. NamedKey_as_str key = value) NamedKey_ALL of
        Some named \<Rightarrow> Some (Named named)
      | None \<Rightarrow>
          (case chars value of
             [c] \<Rightarrow> if \<not> is_control c then Some (Char c) else None
           | _ \<Rightarrow> None))"

definition parse_nonempty :: "string \<Rightarrow> string option" where
  "parse_nonempty rest = (if rest \<noteq> [] then Some rest else None)"

definition unknown_key :: "string \<Rightarrow> string" where
  "unknown_key value = ''unknown key '' @ [CHR 0x27] @ value @ [CHR 0x27]"

text \<open>One modifier prefix: the flag and what is left of the text.\<close>

definition strip_mod :: "string \<Rightarrow> string \<Rightarrow> bool \<times> string" where
  "strip_mod prefix rest =
     (case Option.bind (strip_prefix prefix rest) parse_nonempty of
        Some base \<Rightarrow> (True, base)
      | None \<Rightarrow> (False, rest))"

definition Key_from_str :: "string \<Rightarrow> string + Key" where
  "Key_from_str value =
     (let (ctrl, rest1) = strip_mod ''ctrl+'' value;
          (alt, rest2) = strip_mod ''alt+'' rest1
      in case parse_base rest2 of
           None \<Rightarrow> Inl (unknown_key value)
         | Some base \<Rightarrow>
             Inr \<lparr>key_mods = \<lparr>mod_ctrl = ctrl, mod_alt = alt\<rparr>, key_base = base\<rparr>)"

fun KeyBase_fmt :: "KeyBase \<Rightarrow> string" where
  "KeyBase_fmt (Named key) = NamedKey_as_str key"
| "KeyBase_fmt (Char c) = encode_utf8 c"

definition Key_fmt :: "Key \<Rightarrow> string" where
  "Key_fmt k =
     (if mod_ctrl (key_mods k) then ''ctrl+'' else []) @
     (if mod_alt (key_mods k) then ''alt+'' else []) @
     KeyBase_fmt (key_base k)"

section \<open>Input requests and policy\<close>

datatype TerminalInput = Keys "Key list" | Paste string bool

definition TerminalInput_validate :: "TerminalInput \<Rightarrow> string + unit" where
  "TerminalInput_validate i =
     (case i of
        Keys keys \<Rightarrow> if keys = [] then Inl ''empty key sequence'' else Inr ()
      | Paste text enter \<Rightarrow> if text = [] then Inl ''empty paste text'' else Inr ())"

datatype RawTerminalInput = RawKeys "Key list" | RawPaste string bool

definition TerminalInput_try_from :: "RawTerminalInput \<Rightarrow> string + TerminalInput" where
  "TerminalInput_try_from raw =
     (let input = (case raw of RawKeys keys \<Rightarrow> Keys keys | RawPaste text enter \<Rightarrow> Paste text enter)
      in result_bind (TerminalInput_validate input) (\<lambda>_. Inr input))"

datatype QuickPick = Digits | NoQuickPick

record TerminalPolicy =
  tp_quick_pick :: QuickPick

definition TerminalPolicy_default :: TerminalPolicy where
  "TerminalPolicy_default = \<lparr>tp_quick_pick = NoQuickPick\<rparr>"

definition TerminalPolicy_is_default :: "TerminalPolicy \<Rightarrow> bool" where
  "TerminalPolicy_is_default p = (p = TerminalPolicy_default)"

record TerminalDescriptor =
  td_quick_pick :: QuickPick

section \<open>Named keys round trip\<close>

interpretation key_names: text_enum NamedKey_ALL NamedKey_as_str
  by unfold_locales (simp add: NamedKey_ALL_def F_names_def)

text \<open>The keys the parser can produce: a listed named key or one printable character.\<close>

definition wf_base :: "KeyBase \<Rightarrow> bool" where
  "wf_base b = (case b of Named k \<Rightarrow> k \<in> set NamedKey_ALL | Char c \<Rightarrow> scalar c \<and> \<not> is_control c)"

lemma named_str_shape:
  assumes "k \<in> set NamedKey_ALL"
  shows "2 \<le> length (NamedKey_as_str k)" and "ascii (NamedKey_as_str k)"
    and "CHR ''+'' \<notin> set (NamedKey_as_str k)"
  using assms by (auto simp: NamedKey_ALL_def F_names_def ascii_def byte_def)

lemma ascii_prefixes: "ascii ''ctrl+''" "ascii ''alt+''"
  by (simp_all add: ascii_def byte_def)

lemma named_not_single: "k \<in> set NamedKey_ALL \<Longrightarrow> chars (NamedKey_as_str k) \<noteq> [c]"
  using named_str_shape [of k] by (auto simp: chars_ascii)

lemma find_named_single: "chars s = [c] \<Longrightarrow> List.find (\<lambda>k. NamedKey_as_str k = s) NamedKey_ALL = None"
  using key_names.parse_None [of s] named_not_single by auto

lemma chars_encode_single: "scalar c \<Longrightarrow> chars (encode_utf8 c) = [c]"
  using chars_encode [of c "[]"] by simp

lemma parse_base_fmt: "wf_base b \<Longrightarrow> parse_base (KeyBase_fmt b) = Some b"
  by (cases b) (auto simp: wf_base_def parse_base_def key_names.parse_as_str
      find_named_single chars_encode_single)

lemma parse_base_Some:
  assumes "valid_utf8 s" and "parse_base s = Some b"
  shows "wf_base b \<and> KeyBase_fmt b = s"
proof (cases "List.find (\<lambda>k. NamedKey_as_str k = s) NamedKey_ALL")
  case (Some k)
  then show ?thesis
    using assms(2) key_names.as_str_parse [OF Some] by (auto simp: parse_base_def wf_base_def)
next
  case None
  then obtain c where "chars s = [c]" "\<not> is_control c" "b = Char c"
    using assms(2) by (auto simp: parse_base_def split: list.splits if_splits)
  with assms(1) show ?thesis by (auto simp: wf_base_def valid_utf8_def utf8_def)
qed

lemma base_no_prefix:
  assumes "wf_base b" and "p = ''ctrl+'' \<or> p = ''alt+''"
  shows "strip_prefix p (KeyBase_fmt b) = None"
proof (rule ccontr)
  assume "strip_prefix p (KeyBase_fmt b) \<noteq> None"
  then obtain r where r: "KeyBase_fmt b = p @ r" by (auto simp: strip_prefix_Some)
  show False
  proof (cases b)
    case (Named k)
    with r assms named_str_shape(3) [of k] show False by (auto simp: wf_base_def)
  next
    case (Char c)
    with assms(1) r have "chars (p @ r) = [c]"
      using chars_encode_single [of c] by (simp add: wf_base_def)
    moreover have "chars (p @ r) = map byte p @ chars r"
      using assms(2) ascii_prefixes chars_ascii_append by blast
    ultimately show False using assms(2) by auto
  qed
qed

lemma base_fmt_nonempty: "wf_base b \<Longrightarrow> KeyBase_fmt b \<noteq> []"
  by (cases b) (auto simp: wf_base_def encode_utf8_def dest!: named_str_shape(1))

lemma strip_mod_hit [simp]: "r \<noteq> [] \<Longrightarrow> strip_mod p (p @ r) = (True, r)"
  by (simp add: strip_mod_def parse_nonempty_def)

lemma strip_mod_miss: "strip_prefix p s = None \<Longrightarrow> strip_mod p s = (False, s)"
  by (simp add: strip_mod_def)

lemma strip_mod_text: "strip_mod p s = (m, r) \<Longrightarrow> s = (if m then p else []) @ r"
  by (auto simp: strip_mod_def parse_nonempty_def strip_prefix_Some bind_eq_Some_conv
      split: option.splits if_splits)

lemma Key_from_str_fmt:
  assumes "wf_base (key_base k)"
  shows "Key_from_str (Key_fmt k) = Inr k"
proof -
  let ?t = "KeyBase_fmt (key_base k)"
  let ?a = "(if mod_alt (key_mods k) then ''alt+'' else []) @ ?t"
  note none = base_no_prefix [OF assms]
  have ctrl: "strip_mod ''ctrl+'' (Key_fmt k) = (mod_ctrl (key_mods k), ?a)"
  proof (cases "mod_ctrl (key_mods k)")
    case True
    then have "Key_fmt k = ''ctrl+'' @ ?a" by (simp add: Key_fmt_def)
    moreover have "?a \<noteq> []" using base_fmt_nonempty [OF assms] by simp
    ultimately show ?thesis using True strip_mod_hit [of ?a "''ctrl+''"] by simp
  next
    case False
    have "strip_prefix ''ctrl+'' ?a = None"
      using none [of "''ctrl+''"] by (cases "mod_alt (key_mods k)") (auto simp: strip_prefix_def)
    with False show ?thesis by (simp add: Key_fmt_def strip_mod_miss)
  qed
  have alt: "strip_mod ''alt+'' ?a = (mod_alt (key_mods k), ?t)"
    using base_fmt_nonempty [OF assms] strip_mod_hit [of ?t "''alt+''"] none
    by (auto simp: strip_mod_miss)
  show ?thesis
    by (simp add: Key_from_str_def ctrl alt parse_base_fmt [OF assms])
qed

lemma Key_fmt_from_str:
  assumes "valid_utf8 s" and "Key_from_str s = Inr k"
  shows "wf_base (key_base k) \<and> Key_fmt k = s"
proof -
  obtain c r1 a r2 where m: "strip_mod ''ctrl+'' s = (c, r1)" "strip_mod ''alt+'' r1 = (a, r2)"
    by (metis surj_pair)
  have s: "s = (if c then ''ctrl+'' else []) @ r1" "r1 = (if a then ''alt+'' else []) @ r2"
    using m strip_mod_text by blast+
  have "valid_utf8 r1"
    using assms(1) s(1) valid_utf8_suffix [OF ascii_prefixes(1)] by (cases c) auto
  then have "valid_utf8 r2"
    using s(2) valid_utf8_suffix [OF ascii_prefixes(2)] by (cases a) auto
  moreover obtain b where "parse_base r2 = Some b"
    "k = \<lparr>key_mods = \<lparr>mod_ctrl = c, mod_alt = a\<rparr>, key_base = b\<rparr>"
    using assms(2) m by (auto simp: Key_from_str_def split: option.splits)
  ultimately show ?thesis
    using parse_base_Some [of r2 b] s by (auto simp: Key_fmt_def)
qed

end
