(* ===== verification/Domain.thy ===== *)
theory Domain
  imports Provider Terminal
begin

text \<open>
  The data model of \<^verbatim>\<open>sessiontap-core/src/domain.rs\<close>: invocation snapshots, normalized
  events and the observer-facing projection. A struct is a record whose fields carry a prefix
  for the struct (\<open>sn_\<close> snapshot, \<open>ev_\<close> event, \<open>pv_\<close> public view, ...), an enum is a
  datatype with the source's constructors. An \<open>InvocationId\<close> is the text its \<open>Display\<close>
  writes, which is what every table, envelope and event id holds. A \<open>BTreeSet\<close> is a set.
\<close>

section \<open>Enums and constants\<close>

type_synonym InvocationId = string

datatype Lifecycle = Starting | Alive | Exited | Lost

datatype Activity = Unknown | Idle | Working | WaitingInput | WaitingApproval | Stopped

datatype EvidenceChannel = ManagedHook | SideChannel | ProcessObservation | ProviderArtifact

datatype EvidenceTrust = AuthenticatedInvocation | LocalObservation

definition COLLECTOR_INSTANCE_ID_MAX_CHARS :: nat where "COLLECTOR_INSTANCE_ID_MAX_CHARS = 128"
definition SOURCE_ORDER_CURSOR_MAX :: nat where "SOURCE_ORDER_CURSOR_MAX = 32"
definition TOOL_CORRELATION_ID_MAX_CHARS :: nat where "TOOL_CORRELATION_ID_MAX_CHARS = 128"
definition TOOL_LABEL_MAX_CHARS :: nat where "TOOL_LABEL_MAX_CHARS = 64"
definition TOOL_DETAIL_MAX_CHARS :: nat where "TOOL_DETAIL_MAX_CHARS = 160"
definition CHILD_AGENTS_MAX :: nat where "CHILD_AGENTS_MAX = 32"
definition CHILD_AGENT_ID_MAX_CHARS :: nat where
  "CHILD_AGENT_ID_MAX_CHARS = TOOL_CORRELATION_ID_MAX_CHARS"
definition CHILD_AGENT_TYPE_MAX_CHARS :: nat where
  "CHILD_AGENT_TYPE_MAX_CHARS = TOOL_LABEL_MAX_CHARS"
definition STATUS_REASON_MAX_CHARS :: nat where "STATUS_REASON_MAX_CHARS = 128"
definition STATUS_REASON_MAX_BYTES :: nat where "STATUS_REASON_MAX_BYTES = 512"

record EventEvidence =
  ee_channel :: EvidenceChannel
  ee_trust :: EvidenceTrust
  ee_collector_revision :: "u64 option"
  ee_collector_instance_id :: "string option"
  ee_source_sequence :: "u64 option"

record SourceOrderCursor =
  so_channel :: EvidenceChannel
  so_collector_revision :: "u64 option"
  so_collector_instance_id :: "string option"
  so_sequence :: u64

definition EventEvidence_managed_hook :: "u64 \<Rightarrow> EventEvidence" where
  "EventEvidence_managed_hook n =
     \<lparr>ee_channel = ManagedHook, ee_trust = AuthenticatedInvocation,
      ee_collector_revision = Some n, ee_collector_instance_id = None,
      ee_source_sequence = None\<rparr>"

definition EventEvidence_local :: "EvidenceChannel \<Rightarrow> EventEvidence" where
  "EventEvidence_local channel =
     \<lparr>ee_channel = channel, ee_trust = LocalObservation, ee_collector_revision = None,
      ee_collector_instance_id = None, ee_source_sequence = None\<rparr>"

datatype ActivityConfirmation = Live | RestoredUnconfirmed

datatype ToolActivityPhase = Start | Progress | Finish | Failure | Attention

record ToolActivityUpdate =
  tu_phase :: ToolActivityPhase
  tu_label :: string
  tu_correlation_id :: "string option"
  tu_detail :: "string option"

record CurrentToolActivity =
  ct_label :: string
  ct_correlation_id :: "string option"
  ct_detail :: "string option"
  ct_started_at :: timestamp
  ct_last_observed_at :: timestamp

datatype PublicStatus = StatusRunning | StatusIdle | StatusBlocked | StatusStopped

fun PublicStatus_as_str :: "PublicStatus \<Rightarrow> string" where
  "PublicStatus_as_str StatusRunning = ''running''"
| "PublicStatus_as_str StatusIdle = ''idle''"
| "PublicStatus_as_str StatusBlocked = ''blocked''"
| "PublicStatus_as_str StatusStopped = ''stopped''"

datatype PublicReasonKind = ReasonInput | ReasonApproval | ReasonCompleted | ReasonFailed

fun PublicReasonKind_as_str :: "PublicReasonKind \<Rightarrow> string" where
  "PublicReasonKind_as_str ReasonInput = ''input''"
| "PublicReasonKind_as_str ReasonApproval = ''approval''"
| "PublicReasonKind_as_str ReasonCompleted = ''completed''"
| "PublicReasonKind_as_str ReasonFailed = ''failed''"

record PublicStatusReason =
  pr_kind :: PublicReasonKind
  pr_summary :: string

record PublicChildAgentReason =
  cr_kind :: "PublicReasonKind option"
  cr_summary :: "string option"

record PublicChildAgentView =
  cv_agent_id :: string
  cv_agent_type :: string
  cv_status :: PublicStatus
  cv_reason :: "PublicChildAgentReason option"
  cv_started_at :: timestamp
  cv_updated_at :: timestamp

record PublicProviderSession =
  pps_id :: string
  pps_name :: "string option"
  pps_start_reason :: "string option"

record ProviderSession =
  ps_id :: string
  ps_name :: "string option"
  ps_generation :: u64
  ps_start_reason :: "string option"

record ProviderMetadata =
  pm_model :: "string option"
  pm_model_label :: "string option"
  pm_effort :: "string option"
  pm_permission_mode :: "string option"
  pm_current_turn_id :: "string option"

definition ProviderMetadata_default :: ProviderMetadata where
  "ProviderMetadata_default =
     \<lparr>pm_model = None, pm_model_label = None, pm_effort = None, pm_permission_mode = None,
      pm_current_turn_id = None\<rparr>"

record Usage =
  us_input_tokens :: "u64 option"
  us_output_tokens :: "u64 option"
  us_context_tokens :: "u64 option"
  us_context_window_percent :: "u8 option"

record ArtifactCollectionContext =
  ac_adapter_identity :: ProviderId
  ac_provider_session_id :: string
  ac_locator :: string

record Repository =
  rp_root :: string
  rp_branch :: "string option"
  rp_head :: "string option"
  rp_dirty :: "bool option"

record ProcessMetadata =
  pc_wrapper_pid :: u32
  pc_child_pid :: "u32 option"
  pc_start_identity :: "string option"
  pc_exit_code :: "i32 option"
  pc_signal :: "i32 option"

datatype MultiplexerBackend = Tmux

fun MultiplexerBackend_as_str :: "MultiplexerBackend \<Rightarrow> string" where
  "MultiplexerBackend_as_str Tmux = ''tmux''"

record MultiplexerMetadata =
  mx_backend :: MultiplexerBackend
  mx_socket :: string
  mx_server_pid :: "u32 option"
  mx_session_id :: "string option"
  mx_session_name :: "string option"
  mx_window_id :: "string option"
  mx_window_index :: "u32 option"
  mx_pane_id :: string
  mx_pane_tty :: "string option"
  mx_pane_pid :: "u32 option"

record Capabilities =
  cp_capture :: bool
  cp_send_input :: bool
  cp_usage :: bool
  cp_terminal :: bool
  cp_terminal_policy :: TerminalPolicy

record ChildAgentRef =
  ar_agent_id :: string
  ar_agent_type :: string

datatype ChildActivity = ChildRunning | ChildBlocked | ChildStopped

fun ChildActivity_public_status :: "ChildActivity \<Rightarrow> PublicStatus" where
  "ChildActivity_public_status ChildRunning = StatusRunning"
| "ChildActivity_public_status ChildBlocked = StatusBlocked"
| "ChildActivity_public_status ChildStopped = StatusStopped"

record ChildAgentState =
  ca_agent_id :: string
  ca_agent_type :: string
  ca_activity :: ChildActivity
  ca_reason :: "PublicChildAgentReason option"
  ca_started_at :: timestamp
  ca_updated_at :: timestamp

section \<open>Invocations and events\<close>

record InvocationSnapshot =
  sn_schema_version :: u32
  sn_revision :: nat
  sn_invocation_id :: InvocationId
  sn_provider :: string
  sn_executable :: string
  sn_args :: "string list"
  sn_cwd :: string
  sn_process :: ProcessMetadata
  sn_created_at :: timestamp
  sn_updated_at :: timestamp
  sn_lifecycle :: Lifecycle
  sn_activity :: Activity
  sn_state_started_at :: timestamp
  sn_last_state_asserted_at :: "timestamp option"
  sn_activity_confirmation :: ActivityConfirmation
  sn_last_evidence :: "EventEvidence option"
  sn_source_ordering :: "SourceOrderCursor list"
  sn_current_tool_activity :: "CurrentToolActivity option"
  sn_status :: PublicStatus
  sn_provider_session :: "ProviderSession option"
  sn_provider_metadata :: "ProviderMetadata option"
  sn_usage :: "Usage option"
  sn_repository :: "Repository option"
  sn_multiplexer :: "MultiplexerMetadata option"
  sn_capabilities :: Capabilities
  sn_children :: "ChildAgentState list"
  sn_turn_generation :: u64
  sn_completed_generation :: "u64 option"

datatype EventKind = KNewTurn | KWorking | KIdle | KWaitingInput | KWaitingApproval | KCompleted
  | KFailed | KInterrupted | KProviderSessionStarted | KProviderSessionEnded | KSessionEnded
  | KEnrichment

datatype StatusReasonSource = Description | ToolSummary | Command | Question | ToolName
  | GenericInput | AssistantMessage | FailureCategory

record StatusReasonContext =
  sc_summary :: string
  sc_source :: StatusReasonSource

record CurrentStatusReason =
  rs_kind :: EventKind
  rs_context :: StatusReasonContext

record LiveEventMetadata =
  le_kind :: EventKind
  le_status_reason :: "StatusReasonContext option"
  le_turn_id :: "string option"

record NormalizedEvent =
  ev_schema_version :: u32
  ev_event_id :: string
  ev_invocation_id :: InvocationId
  ev_provider_event_id :: "string option"
  ev_provider :: string
  ev_observed_at :: timestamp
  ev_received_at :: timestamp
  ev_evidence :: EventEvidence
  ev_kind :: EventKind
  ev_provider_session_id :: "string option"
  ev_provider_session_name :: "string option"
  ev_provider_session_start_reason :: "string option"
  ev_provider_metadata :: "ProviderMetadata option"
  ev_usage :: "Usage option"
  ev_turn_id :: "string option"
  ev_tool_activity :: "ToolActivityUpdate option"
  ev_child_agent :: "ChildAgentRef option"

record NormalizedAdapterEvent =
  na_event :: NormalizedEvent
  na_status_reason :: "StatusReasonContext option"
  na_collection_context :: "ArtifactCollectionContext option"

datatype AdapterOutcome = OutcomeEvent NormalizedAdapterEvent | OutcomeIgnored

fun AdapterOutcome_into_event :: "AdapterOutcome \<Rightarrow> NormalizedAdapterEvent option" where
  "AdapterOutcome_into_event (OutcomeEvent e) = Some e"
| "AdapterOutcome_into_event OutcomeIgnored = None"

text \<open>Exited and lost invocations, the guard most of the sources spell \<open>matches!(...)\<close>.\<close>

definition ended :: "Lifecycle \<Rightarrow> bool" where
  "ended l = (l = Exited \<or> l = Lost)"

definition terminal_live :: "InvocationSnapshot \<Rightarrow> bool" where
  "terminal_live s \<longleftrightarrow>
     cp_terminal (sn_capabilities s) \<and> sn_multiplexer s \<noteq> None
     \<and> pc_child_pid (sn_process s) \<noteq> None
     \<and> (sn_lifecycle s = Alive \<or> sn_lifecycle s = Starting)"

section \<open>The public projection\<close>

record PublicAgentView =
  pv_invocation_id :: InvocationId
  pv_provider :: string
  pv_status :: PublicStatus
  pv_reason :: "PublicStatusReason option"
  pv_cwd :: string
  pv_created_at :: timestamp
  pv_updated_at :: timestamp
  pv_session :: "PublicProviderSession option"
  pv_metadata :: "ProviderMetadata option"
  pv_usage :: "Usage option"
  pv_repository :: "Repository option"
  pv_children :: "PublicChildAgentView list option"
  pv_terminal :: "TerminalDescriptor option"

datatype PublicField = FInvocationId | FProvider | FStatus | FReason | FCwd | FCreatedAt
  | FUpdatedAt | FSession | FMetadata | FUsage | FRepository | FChildren | FTerminal

fun PublicField_as_str :: "PublicField \<Rightarrow> string" where
  "PublicField_as_str FInvocationId = ''invocation_id''"
| "PublicField_as_str FProvider = ''provider''"
| "PublicField_as_str FStatus = ''status''"
| "PublicField_as_str FReason = ''reason''"
| "PublicField_as_str FCwd = ''cwd''"
| "PublicField_as_str FCreatedAt = ''created_at''"
| "PublicField_as_str FUpdatedAt = ''updated_at''"
| "PublicField_as_str FSession = ''session''"
| "PublicField_as_str FMetadata = ''metadata''"
| "PublicField_as_str FUsage = ''usage''"
| "PublicField_as_str FRepository = ''repository''"
| "PublicField_as_str FChildren = ''children''"
| "PublicField_as_str FTerminal = ''terminal''"

text \<open>The derived order of \<open>PublicField\<close> is the order of declaration.\<close>

fun PublicField_rank :: "PublicField \<Rightarrow> nat" where
  "PublicField_rank FInvocationId = 0"
| "PublicField_rank FProvider = 1"
| "PublicField_rank FStatus = 2"
| "PublicField_rank FReason = 3"
| "PublicField_rank FCwd = 4"
| "PublicField_rank FCreatedAt = 5"
| "PublicField_rank FUpdatedAt = 6"
| "PublicField_rank FSession = 7"
| "PublicField_rank FMetadata = 8"
| "PublicField_rank FUsage = 9"
| "PublicField_rank FRepository = 10"
| "PublicField_rank FChildren = 11"
| "PublicField_rank FTerminal = 12"

lemma PublicField_rank_inject: "PublicField_rank x = PublicField_rank y \<longleftrightarrow> x = y"
  by (cases x; cases y) simp_all

instantiation PublicField :: linorder
begin

definition less_eq_PublicField :: "PublicField \<Rightarrow> PublicField \<Rightarrow> bool" where
  "less_eq_PublicField x y = (PublicField_rank x \<le> PublicField_rank y)"

definition less_PublicField :: "PublicField \<Rightarrow> PublicField \<Rightarrow> bool" where
  "less_PublicField x y = (PublicField_rank x < PublicField_rank y)"

instance
  by standard (auto simp: less_eq_PublicField_def less_PublicField_def PublicField_rank_inject)

end

fun derive_status :: "Lifecycle \<Rightarrow> Activity \<Rightarrow> PublicStatus" where
  "derive_status Exited a = StatusStopped"
| "derive_status Lost a = StatusStopped"
| "derive_status Starting a = StatusIdle"
| "derive_status Alive a =
     (case a of
        WaitingInput \<Rightarrow> StatusBlocked
      | WaitingApproval \<Rightarrow> StatusBlocked
      | Stopped \<Rightarrow> StatusStopped
      | Working \<Rightarrow> StatusRunning
      | Unknown \<Rightarrow> StatusIdle
      | Idle \<Rightarrow> StatusIdle)"

text \<open>The reason kind the projection shows for a status, if the two are compatible.\<close>

fun public_reason_kind :: "PublicStatus \<Rightarrow> EventKind \<Rightarrow> PublicReasonKind option" where
  "public_reason_kind StatusBlocked KWaitingInput = Some ReasonInput"
| "public_reason_kind StatusBlocked KWaitingApproval = Some ReasonApproval"
| "public_reason_kind StatusStopped KCompleted = Some ReasonCompleted"
| "public_reason_kind StatusStopped KFailed = Some ReasonFailed"
| "public_reason_kind _ _ = None"

definition child_view :: "ChildAgentState \<Rightarrow> PublicChildAgentView" where
  "child_view c =
     \<lparr>cv_agent_id = ca_agent_id c, cv_agent_type = ca_agent_type c,
      cv_status = ChildActivity_public_status (ca_activity c), cv_reason = ca_reason c,
      cv_started_at = ca_started_at c, cv_updated_at = ca_updated_at c\<rparr>"

text \<open>\<open>sort_by\<close> is stable, as \<open>sort_key\<close> is.\<close>

definition project_children :: "ChildAgentState list \<Rightarrow> PublicChildAgentView list option" where
  "project_children cs =
     (if cs = [] then None
      else Some (sort_key (\<lambda>v. (cv_started_at v, cv_agent_id v)) (map child_view cs)))"

definition project_public ::
    "InvocationSnapshot \<Rightarrow> CurrentStatusReason option \<Rightarrow> PublicAgentView" where
  "project_public s current_reason =
     (let status = derive_status (sn_lifecycle s) (sn_activity s)
      in \<lparr>pv_invocation_id = sn_invocation_id s,
          pv_provider = sn_provider s,
          pv_status = status,
          pv_reason = Option.bind current_reason (\<lambda>r.
             map_option (\<lambda>k. \<lparr>pr_kind = k, pr_summary = sc_summary (rs_context r)\<rparr>)
               (public_reason_kind status (rs_kind r))),
          pv_cwd = sn_cwd s,
          pv_created_at = sn_created_at s,
          pv_updated_at = sn_updated_at s,
          pv_session = map_option (\<lambda>p. \<lparr>pps_id = ps_id p, pps_name = ps_name p,
             pps_start_reason = ps_start_reason p\<rparr>) (sn_provider_session s),
          pv_metadata = sn_provider_metadata s,
          pv_usage = sn_usage s,
          pv_repository = sn_repository s,
          pv_children = project_children (sn_children s),
          pv_terminal = (if terminal_live s
             then Some \<lparr>td_quick_pick = tp_quick_pick (cp_terminal_policy (sn_capabilities s))\<rparr>
             else None)\<rparr>)"

definition field_if :: "bool \<Rightarrow> PublicField \<Rightarrow> PublicField set" where
  "field_if c f = (if c then {f} else {})"

definition changed_public_fields ::
    "PublicAgentView option \<Rightarrow> PublicAgentView \<Rightarrow> PublicField set" where
  "changed_public_fields previous current =
     (case previous of
        None \<Rightarrow> {FInvocationId, FProvider, FStatus, FReason, FCwd, FCreatedAt, FUpdatedAt,
                 FSession, FMetadata, FUsage, FRepository, FChildren, FTerminal}
      | Some p \<Rightarrow>
          field_if (pv_invocation_id p \<noteq> pv_invocation_id current) FInvocationId
        \<union> field_if (pv_provider p \<noteq> pv_provider current) FProvider
        \<union> field_if (pv_status p \<noteq> pv_status current) FStatus
        \<union> field_if (pv_reason p \<noteq> pv_reason current) FReason
        \<union> field_if (pv_cwd p \<noteq> pv_cwd current) FCwd
        \<union> field_if (pv_created_at p \<noteq> pv_created_at current) FCreatedAt
        \<union> field_if (pv_updated_at p \<noteq> pv_updated_at current) FUpdatedAt
        \<union> field_if (pv_session p \<noteq> pv_session current) FSession
        \<union> field_if (pv_metadata p \<noteq> pv_metadata current) FMetadata
        \<union> field_if (pv_usage p \<noteq> pv_usage current) FUsage
        \<union> field_if (pv_repository p \<noteq> pv_repository current) FRepository
        \<union> field_if (pv_children p \<noteq> pv_children current) FChildren
        \<union> field_if (pv_terminal p \<noteq> pv_terminal current) FTerminal)"

section \<open>Properties of the projection\<close>

lemma field_if_empty [simp]: "field_if c f = {} \<longleftrightarrow> \<not> c"
  by (simp add: field_if_def)

lemma field_if_member [simp]: "g \<in> field_if c f \<longleftrightarrow> c \<and> g = f"
  by (simp add: field_if_def)

lemma changed_Some_empty_iff: "changed_public_fields (Some p) c = {} \<longleftrightarrow> p = c"
proof
  assume "changed_public_fields (Some p) c = {}"
  then show "p = c"
    by (simp add: changed_public_fields_def PublicAgentView.equality)
qed (simp add: changed_public_fields_def)

lemma changed_None_nonempty [simp]: "changed_public_fields None c \<noteq> {}"
  by (simp add: changed_public_fields_def)

lemma changed_nonempty_iff: "changed_public_fields prior c \<noteq> {} \<longleftrightarrow> prior \<noteq> Some c"
  by (cases prior) (simp_all add: changed_Some_empty_iff)

lemma project_children_eq_None [simp]: "project_children cs = None \<longleftrightarrow> cs = []"
  by (simp add: project_children_def)

lemma project_public_simps [simp]:
  "pv_invocation_id (project_public s r) = sn_invocation_id s"
  "pv_provider (project_public s r) = sn_provider s"
  "pv_status (project_public s r) = derive_status (sn_lifecycle s) (sn_activity s)"
  "pv_cwd (project_public s r) = sn_cwd s"
  "pv_created_at (project_public s r) = sn_created_at s"
  "pv_updated_at (project_public s r) = sn_updated_at s"
  "pv_usage (project_public s r) = sn_usage s"
  "pv_children (project_public s r) = project_children (sn_children s)"
  by (simp_all add: project_public_def Let_def)

lemma project_public_reason:
  "pv_reason (project_public s r) = Option.bind r (\<lambda>r.
     map_option (\<lambda>k. \<lparr>pr_kind = k, pr_summary = sc_summary (rs_context r)\<rparr>)
       (public_reason_kind (derive_status (sn_lifecycle s) (sn_activity s)) (rs_kind r)))"
  by (simp add: project_public_def Let_def)

end
