(* ===== verification/Reducer.thy ===== *)
theory Reducer
  imports Domain
begin

text \<open>
  The invocation state machine: \<^verbatim>\<open>sessiontap-core/src/reducer.rs\<close>. Every function that
  mutates a snapshot in place returns the new snapshot. \<open>reduce\<close> is the composition of the
  stages of the source function, in the order of its statements.
\<close>

section \<open>Transitions\<close>

definition STALE_WORKING_MINUTES :: int where "STALE_WORKING_MINUTES = 30"

record Prior =
  pri_snapshot :: InvocationSnapshot
  pri_reason :: "CurrentStatusReason option"

datatype ReasonEffect = Keep | Clear | SetReason CurrentStatusReason

fun ReasonEffect_resolve ::
    "ReasonEffect \<Rightarrow> CurrentStatusReason option \<Rightarrow> CurrentStatusReason option" where
  "ReasonEffect_resolve Keep prior = prior"
| "ReasonEffect_resolve Clear prior = None"
| "ReasonEffect_resolve (SetReason r) prior = Some r"

record Transition =
  tr_snapshot :: InvocationSnapshot
  tr_reason :: ReasonEffect
  tr_suppressed :: bool

datatype ReducerError = InconsistentEvidence | UnboundedCollectorInstance | UnboundedToolActivity
  | UnboundedChildAgent | UnboundedStatusReason

section \<open>Validation\<close>

definition trusted_evidence :: "EventEvidence \<Rightarrow> bool" where
  "trusted_evidence e =
     (case (ee_channel e, ee_trust e) of
        (ManagedHook, AuthenticatedInvocation) \<Rightarrow> True
      | (SideChannel, LocalObservation) \<Rightarrow> True
      | (ProcessObservation, LocalObservation) \<Rightarrow> True
      | (ProviderArtifact, LocalObservation) \<Rightarrow> True
      | _ \<Rightarrow> False)"

definition validate_evidence :: "EventEvidence \<Rightarrow> ReducerError + unit" where
  "validate_evidence e =
     (if \<not> trusted_evidence e then Inl InconsistentEvidence
      else if is_some_and (\<lambda>v. v = [] \<or> length (chars v) > COLLECTOR_INSTANCE_ID_MAX_CHARS
                             \<or> has_control v) (ee_collector_instance_id e)
      then Inl UnboundedCollectorInstance
      else Inr ())"

definition validate_child_agent :: "NormalizedEvent \<Rightarrow> ReducerError + unit" where
  "validate_child_agent e =
     (if is_some_and (\<lambda>c. \<not> normalized_text CHILD_AGENT_ID_MAX_CHARS (ar_agent_id c)
                         \<or> \<not> normalized_text CHILD_AGENT_TYPE_MAX_CHARS (ar_agent_type c))
           (ev_child_agent e)
      then Inl UnboundedChildAgent
      else Inr ())"

definition validate_tool_activity :: "NormalizedEvent \<Rightarrow> ReducerError + unit" where
  "validate_tool_activity e =
     (if is_some_and (\<lambda>t.
           tu_label t = []
           \<or> length (chars (tu_label t)) > TOOL_LABEL_MAX_CHARS
           \<or> has_control (tu_label t)
           \<or> is_some_and (\<lambda>v. v = [] \<or> length (chars v) > TOOL_CORRELATION_ID_MAX_CHARS
                              \<or> has_control v) (tu_correlation_id t)
           \<or> is_some_and (\<lambda>v. v = [] \<or> length (chars v) > TOOL_DETAIL_MAX_CHARS
                              \<or> has_control v) (tu_detail t))
           (ev_tool_activity e)
      then Inl UnboundedToolActivity
      else Inr ())"

definition validate_event ::
    "NormalizedEvent \<Rightarrow> StatusReasonContext option \<Rightarrow> ReducerError + unit" where
  "validate_event e status_reason =
     result_bind (validate_evidence (ev_evidence e)) (\<lambda>_.
     result_bind (validate_tool_activity e) (\<lambda>_.
     result_bind (validate_child_agent e) (\<lambda>_.
       if is_some_and (\<lambda>c. sc_summary c = []
              \<or> length (sc_summary c) > STATUS_REASON_MAX_BYTES
              \<or> length (chars (sc_summary c)) > STATUS_REASON_MAX_CHARS
              \<or> has_control (sc_summary c)) status_reason
       then Inl UnboundedStatusReason
       else Inr ())))"

section \<open>Channel authority and source order\<close>

definition event_with_channel_authority :: "NormalizedEvent \<Rightarrow> NormalizedEvent" where
  "event_with_channel_authority e =
     (case ee_channel (ev_evidence e) of
        ManagedHook \<Rightarrow> e
      | SideChannel \<Rightarrow> e
      | ProcessObservation \<Rightarrow>
          e\<lparr>ev_kind := (if ev_kind e \<noteq> KSessionEnded then KEnrichment else ev_kind e),
            ev_provider_session_id := None,
            ev_provider_session_name := None,
            ev_provider_session_start_reason := None,
            ev_provider_metadata := None,
            ev_usage := None,
            ev_turn_id := None,
            ev_tool_activity := None\<rparr>
      | ProviderArtifact \<Rightarrow>
          e\<lparr>ev_kind := KEnrichment,
            ev_provider_session_start_reason := None,
            ev_turn_id := None,
            ev_tool_activity := None,
            ev_provider_metadata := map_option
              (\<lambda>m. m\<lparr>pm_permission_mode := None, pm_current_turn_id := None\<rparr>)
              (ev_provider_metadata e)\<rparr>)"

definition same_source :: "EventEvidence \<Rightarrow> SourceOrderCursor \<Rightarrow> bool" where
  "same_source e c \<longleftrightarrow> so_channel c = ee_channel e
     \<and> so_collector_revision c = ee_collector_revision e
     \<and> so_collector_instance_id c = ee_collector_instance_id e"

definition is_stale_source_order :: "SourceOrderCursor list \<Rightarrow> EventEvidence \<Rightarrow> bool" where
  "is_stale_source_order previous current =
     (case ee_source_sequence current of
        None \<Rightarrow> False
      | Some sequence \<Rightarrow>
          list_ex (\<lambda>c. same_source current c \<and> sequence \<le> so_sequence c) previous)"

text \<open>\<open>iter_mut().find(p)\<close> followed by an assignment: change the first match.\<close>

fun update_first :: "('a \<Rightarrow> bool) \<Rightarrow> ('a \<Rightarrow> 'a) \<Rightarrow> 'a list \<Rightarrow> 'a list" where
  "update_first p f [] = []"
| "update_first p f (x # xs) = (if p x then f x # xs else x # update_first p f xs)"

definition record_cursor :: "SourceOrderCursor list \<Rightarrow> EventEvidence \<Rightarrow> SourceOrderCursor list" where
  "record_cursor cursors e =
     (case ee_source_sequence e of
        None \<Rightarrow> cursors
      | Some sequence \<Rightarrow>
          if list_ex (same_source e) cursors
          then update_first (same_source e) (\<lambda>c. c\<lparr>so_sequence := sequence\<rparr>) cursors
          else (if length cursors = SOURCE_ORDER_CURSOR_MAX then tl cursors else cursors) @
               [\<lparr>so_channel = ee_channel e, so_collector_revision = ee_collector_revision e,
                 so_collector_instance_id = ee_collector_instance_id e,
                 so_sequence = sequence\<rparr>])"

definition record_source_order :: "InvocationSnapshot \<Rightarrow> EventEvidence \<Rightarrow> InvocationSnapshot" where
  "record_source_order s e = s\<lparr>sn_source_ordering := record_cursor (sn_source_ordering s) e\<rparr>"

definition authoritative_activity :: "EventKind \<Rightarrow> EvidenceChannel \<Rightarrow> bool" where
  "authoritative_activity kind channel \<longleftrightarrow>
     channel \<in> {ManagedHook, SideChannel}
     \<and> kind \<in> {KNewTurn, KWorking, KIdle, KWaitingInput, KWaitingApproval, KCompleted, KFailed,
                KInterrupted, KProviderSessionStarted}"

section \<open>Tool activity\<close>

definition matching_tool :: "CurrentToolActivity \<Rightarrow> ToolActivityUpdate \<Rightarrow> bool \<Rightarrow> bool" where
  "matching_tool current u allow_label_fallback =
     (case (ct_correlation_id current, tu_correlation_id u) of
        (Some a, Some b) \<Rightarrow> a = b
      | (None, None) \<Rightarrow> ct_label current = tu_label u
      | _ \<Rightarrow> allow_label_fallback \<and> ct_label current = tu_label u)"

definition observe_tool :: "CurrentToolActivity \<Rightarrow> ToolActivityUpdate \<Rightarrow> timestamp \<Rightarrow> CurrentToolActivity" where
  "observe_tool current u now =
     current\<lparr>ct_last_observed_at := now,
             ct_detail := (if tu_detail u \<noteq> None then tu_detail u else ct_detail current)\<rparr>"

definition tool_boundary :: "InvocationSnapshot \<Rightarrow> NormalizedEvent \<Rightarrow> bool" where
  "tool_boundary s e \<longleftrightarrow>
     is_some_and (\<lambda>i. is_none_or (\<lambda>p. ps_id p \<noteq> i) (sn_provider_session s))
       (ev_provider_session_id e)
     \<or> ev_kind e \<in> {KNewTurn, KIdle, KCompleted, KFailed, KInterrupted, KProviderSessionStarted,
                    KProviderSessionEnded, KSessionEnded}"

definition update_tool ::
    "CurrentToolActivity option \<Rightarrow> ToolActivityUpdate \<Rightarrow> timestamp \<Rightarrow> CurrentToolActivity option" where
  "update_tool current u now =
     (case tu_phase u of
        Start \<Rightarrow>
          (case current of
             Some c \<Rightarrow>
               if matching_tool c u False then Some (observe_tool c u now)
               else Some \<lparr>ct_label = tu_label u, ct_correlation_id = tu_correlation_id u,
                          ct_detail = tu_detail u, ct_started_at = now, ct_last_observed_at = now\<rparr>
           | None \<Rightarrow>
               Some \<lparr>ct_label = tu_label u, ct_correlation_id = tu_correlation_id u,
                     ct_detail = tu_detail u, ct_started_at = now, ct_last_observed_at = now\<rparr>)
      | Progress \<Rightarrow>
          map_option (\<lambda>c. if matching_tool c u True then observe_tool c u now else c) current
      | Attention \<Rightarrow>
          map_option (\<lambda>c. if matching_tool c u True then observe_tool c u now else c) current
      | Finish \<Rightarrow> if is_some_and (\<lambda>c. matching_tool c u False) current then None else current
      | Failure \<Rightarrow> if is_some_and (\<lambda>c. matching_tool c u False) current then None else current)"

definition reduce_tool_activity :: "InvocationSnapshot \<Rightarrow> NormalizedEvent \<Rightarrow> InvocationSnapshot" where
  "reduce_tool_activity s e =
     (let current = (if tool_boundary s e then None else sn_current_tool_activity s)
      in s\<lparr>sn_current_tool_activity :=
             (case ev_tool_activity e of
                None \<Rightarrow> current
              | Some u \<Rightarrow> update_tool current u (ev_received_at e))\<rparr>)"

section \<open>The root reducer\<close>

definition turn_open :: "InvocationSnapshot \<Rightarrow> bool" where
  "turn_open s \<longleftrightarrow> sn_completed_generation s \<noteq> Some (sn_turn_generation s)"

definition reduce_kind :: "InvocationSnapshot \<Rightarrow> EventKind \<Rightarrow> InvocationSnapshot" where
  "reduce_kind s kind =
     (case kind of
        KNewTurn \<Rightarrow> s\<lparr>sn_turn_generation := sn_turn_generation s + 1,
                      sn_completed_generation := None,
                      sn_activity := Working,
                      sn_children := []\<rparr>
      | KWorking \<Rightarrow> if turn_open s then s\<lparr>sn_activity := Working\<rparr> else s
      | KIdle \<Rightarrow> s\<lparr>sn_activity := Idle\<rparr>
      | KWaitingInput \<Rightarrow> if turn_open s then s\<lparr>sn_activity := WaitingInput\<rparr> else s
      | KWaitingApproval \<Rightarrow> if turn_open s then s\<lparr>sn_activity := WaitingApproval\<rparr> else s
      | KCompleted \<Rightarrow> s\<lparr>sn_activity := Stopped,
                        sn_completed_generation := Some (sn_turn_generation s)\<rparr>
      | KFailed \<Rightarrow> s\<lparr>sn_activity := Stopped,
                     sn_completed_generation := Some (sn_turn_generation s)\<rparr>
      | KInterrupted \<Rightarrow> s\<lparr>sn_activity := Stopped,
                          sn_completed_generation := Some (sn_turn_generation s)\<rparr>
      | KProviderSessionStarted \<Rightarrow> s\<lparr>sn_activity := Idle\<rparr>
      | KProviderSessionEnded \<Rightarrow> s
      | KSessionEnded \<Rightarrow> s\<lparr>sn_lifecycle := Exited, sn_children := []\<rparr>
      | KEnrichment \<Rightarrow> s)"

definition assert_state ::
    "Activity \<Rightarrow> InvocationSnapshot \<Rightarrow> NormalizedEvent \<Rightarrow> InvocationSnapshot" where
  "assert_state prior_activity s e =
     (if authoritative_activity (ev_kind e) (ee_channel (ev_evidence e))
      then s\<lparr>sn_state_started_at := (if sn_activity s \<noteq> prior_activity then ev_received_at e
                                     else sn_state_started_at s),
             sn_last_state_asserted_at := Some (ev_received_at e),
             sn_activity_confirmation := Live\<rparr>
      else s)"

definition next_session :: "ProviderSession option \<Rightarrow> string \<Rightarrow> NormalizedEvent \<Rightarrow> ProviderSession" where
  "next_session prior i e =
     (let is_new = is_none_or (\<lambda>p. ps_id p \<noteq> i) prior;
          same = (case prior of Some p \<Rightarrow> if ps_id p = i then Some p else None | None \<Rightarrow> None)
      in \<lparr>ps_id = i,
          ps_name = or_else (ev_provider_session_name e) (Option.bind same ps_name),
          ps_generation =
            (if is_new
             then (case prior of None \<Rightarrow> 1 | Some p \<Rightarrow> saturating_add (ps_generation p) 1)
             else (case prior of None \<Rightarrow> 1 | Some p \<Rightarrow> ps_generation p)),
          ps_start_reason =
            or_else (ev_provider_session_start_reason e) (Option.bind same ps_start_reason)\<rparr>)"

definition reduce_session :: "InvocationSnapshot \<Rightarrow> NormalizedEvent \<Rightarrow> InvocationSnapshot" where
  "reduce_session s e =
     (case ev_provider_session_id e of
        None \<Rightarrow> s
      | Some i \<Rightarrow>
          let is_new = is_none_or (\<lambda>p. ps_id p \<noteq> i) (sn_provider_session s)
          in s\<lparr>sn_usage := (if is_new then None else sn_usage s),
               sn_children := (if is_new then [] else sn_children s),
               sn_provider_session := Some (next_session (sn_provider_session s) i e)\<rparr>)"

definition merge_metadata :: "bool \<Rightarrow> ProviderMetadata \<Rightarrow> ProviderMetadata \<Rightarrow> ProviderMetadata" where
  "merge_metadata fills_only current m =
     (let takes_model = (pm_model m \<noteq> None \<and> \<not> (fills_only \<and> pm_model current \<noteq> None))
      in \<lparr>pm_model = (if takes_model then pm_model m else pm_model current),
          pm_model_label = (if takes_model then pm_model_label m else pm_model_label current),
          pm_effort = or_else (pm_effort m) (pm_effort current),
          pm_permission_mode = or_else (pm_permission_mode m) (pm_permission_mode current),
          pm_current_turn_id = or_else (pm_current_turn_id m) (pm_current_turn_id current)\<rparr>)"

definition reduce_metadata :: "InvocationSnapshot \<Rightarrow> NormalizedEvent \<Rightarrow> InvocationSnapshot" where
  "reduce_metadata s e =
     (case ev_provider_metadata e of
        None \<Rightarrow> s
      | Some m \<Rightarrow>
          s\<lparr>sn_provider_metadata :=
              Some (merge_metadata (ee_channel (ev_evidence e) = ProviderArtifact)
                (unwrap_or (sn_provider_metadata s) ProviderMetadata_default) m)\<rparr>)"

definition reduce_turn_id :: "InvocationSnapshot \<Rightarrow> NormalizedEvent \<Rightarrow> InvocationSnapshot" where
  "reduce_turn_id s e =
     (case ev_turn_id e of
        None \<Rightarrow> s
      | Some t \<Rightarrow>
          s\<lparr>sn_provider_metadata :=
              Some ((unwrap_or (sn_provider_metadata s) ProviderMetadata_default)
                \<lparr>pm_current_turn_id := Some t\<rparr>)\<rparr>)"

definition reduce_usage :: "InvocationSnapshot \<Rightarrow> NormalizedEvent \<Rightarrow> InvocationSnapshot" where
  "reduce_usage s e = (if ev_usage e \<noteq> None then s\<lparr>sn_usage := ev_usage e\<rparr> else s)"

definition reduce :: "InvocationSnapshot \<Rightarrow> NormalizedEvent \<Rightarrow> InvocationSnapshot" where
  "reduce s e =
     (let prior_activity = sn_activity s;
          s1 = reduce_tool_activity s e;
          s2 = reduce_kind s1 (ev_kind e);
          s3 = assert_state prior_activity s2 e;
          s4 = reduce_session s3 e;
          s5 = reduce_metadata s4 e;
          s6 = reduce_turn_id s5 e;
          s7 = reduce_usage s6 e;
          s8 = record_source_order s7 (ev_evidence e)
      in s8\<lparr>sn_last_evidence := Some (ev_evidence e)\<rparr>)"

section \<open>Child agents\<close>

definition child_outcome :: "EventKind \<Rightarrow> (ChildActivity \<times> PublicReasonKind option) option" where
  "child_outcome kind =
     (case kind of
        KNewTurn \<Rightarrow> Some (ChildRunning, None)
      | KWorking \<Rightarrow> Some (ChildRunning, None)
      | KWaitingInput \<Rightarrow> Some (ChildBlocked, Some ReasonInput)
      | KWaitingApproval \<Rightarrow> Some (ChildBlocked, Some ReasonApproval)
      | KCompleted \<Rightarrow> Some (ChildStopped, Some ReasonCompleted)
      | KFailed \<Rightarrow> Some (ChildStopped, Some ReasonFailed)
      | KInterrupted \<Rightarrow> Some (ChildStopped, Some ReasonFailed)
      | KIdle \<Rightarrow> None
      | KProviderSessionStarted \<Rightarrow> None
      | KProviderSessionEnded \<Rightarrow> None
      | KSessionEnded \<Rightarrow> None
      | KEnrichment \<Rightarrow> None)"

text \<open>\<open>Iterator::min_by\<close>: the first of the least elements.\<close>

fun min_by :: "('a \<Rightarrow> 'a \<Rightarrow> bool) \<Rightarrow> 'a list \<Rightarrow> 'a option" where
  "min_by lt [] = None"
| "min_by lt (x # xs) =
     (case min_by lt xs of None \<Rightarrow> Some x | Some y \<Rightarrow> if lt y x then Some y else Some x)"

definition older_child :: "ChildAgentState \<Rightarrow> ChildAgentState \<Rightarrow> bool" where
  "older_child a b \<longleftrightarrow> ca_started_at a < ca_started_at b
     \<or> ca_started_at a = ca_started_at b \<and> ca_agent_id a < ca_agent_id b"

definition oldest_stopped :: "ChildAgentState list \<Rightarrow> nat option" where
  "oldest_stopped cs =
     map_option fst (min_by (\<lambda>(_, a) (_, b). older_child a b)
       (filter (\<lambda>(_, c). ca_activity c = ChildStopped) (List.enumerate 0 cs)))"

text \<open>\<open>Vec::remove\<close> at an index.\<close>

definition remove_at :: "nat \<Rightarrow> 'a list \<Rightarrow> 'a list" where
  "remove_at i xs = take i xs @ drop (Suc i) xs"

text \<open>\<open>Iterator::position\<close>.\<close>

fun position :: "('a \<Rightarrow> bool) \<Rightarrow> 'a list \<Rightarrow> nat option" where
  "position p [] = None"
| "position p (x # xs) = (if p x then Some 0 else map_option Suc (position p xs))"

definition new_child :: "ChildAgentRef \<Rightarrow> ChildActivity \<Rightarrow> timestamp \<Rightarrow> ChildAgentState" where
  "new_child child activity now =
     \<lparr>ca_agent_id = ar_agent_id child, ca_agent_type = ar_agent_type child,
      ca_activity = activity, ca_reason = None, ca_started_at = now, ca_updated_at = now\<rparr>"

text \<open>The list with the addressed child present and its index, or nothing when it is full.\<close>

definition place_child ::
    "ChildAgentState list \<Rightarrow> ChildAgentRef \<Rightarrow> ChildActivity \<Rightarrow> timestamp
     \<Rightarrow> (ChildAgentState list \<times> nat) option" where
  "place_child cs child activity now =
     (case position (\<lambda>c. ca_agent_id c = ar_agent_id child) cs of
        Some i \<Rightarrow> Some (cs, i)
      | None \<Rightarrow>
          if length cs \<ge> CHILD_AGENTS_MAX then
            (case oldest_stopped cs of
               None \<Rightarrow> None
             | Some i \<Rightarrow>
                 let cs' = remove_at i cs @ [new_child child activity now]
                 in Some (cs', length cs' - 1))
          else
            let cs' = cs @ [new_child child activity now]
            in Some (cs', length cs' - 1))"

definition update_child ::
    "ChildAgentState \<Rightarrow> ChildAgentRef \<Rightarrow> ChildActivity \<Rightarrow> PublicReasonKind option
     \<Rightarrow> string option \<Rightarrow> timestamp \<Rightarrow> ChildAgentState" where
  "update_child state child activity kind label now =
     (let summary = (if activity = ChildStopped then label
                     else or_else label (Option.bind (ca_reason state) cr_summary))
      in state\<lparr>ca_agent_type := ar_agent_type child,
               ca_activity := activity,
               ca_reason := (if kind \<noteq> None \<or> summary \<noteq> None
                             then Some \<lparr>cr_kind = kind, cr_summary = summary\<rparr> else None),
               ca_updated_at := now\<rparr>)"

definition reduce_children ::
    "ChildAgentState list \<Rightarrow> NormalizedEvent \<Rightarrow> ChildAgentRef \<Rightarrow> ChildAgentState list" where
  "reduce_children cs e child =
     (case child_outcome (ev_kind e) of
        None \<Rightarrow> cs
      | Some (activity, kind) \<Rightarrow>
          let label = map_option tu_label (ev_tool_activity e);
              now = ev_received_at e
          in case place_child cs child activity now of
               None \<Rightarrow> cs
             | Some (cs', i) \<Rightarrow> cs'[i := update_child (cs' ! i) child activity kind label now])"

definition reduce_child ::
    "InvocationSnapshot \<Rightarrow> NormalizedEvent \<Rightarrow> ChildAgentRef \<Rightarrow> InvocationSnapshot" where
  "reduce_child s e child = s\<lparr>sn_children := reduce_children (sn_children s) e child\<rparr>"

section \<open>Events\<close>

definition clear_unless :: "CurrentStatusReason option \<Rightarrow> EventKind list \<Rightarrow> ReasonEffect" where
  "clear_unless reason retained =
     (if is_some_and (\<lambda>r. rs_kind r \<notin> set retained) reason then Clear else Keep)"

definition other_session :: "InvocationSnapshot \<Rightarrow> NormalizedEvent \<Rightarrow> bool" where
  "other_session s e =
     is_some_and (\<lambda>i. is_some_and (\<lambda>p. ps_id p \<noteq> i) (sn_provider_session s))
       (ev_provider_session_id e)"

definition other_turn :: "InvocationSnapshot \<Rightarrow> NormalizedEvent \<Rightarrow> bool" where
  "other_turn s e =
     is_some_and (\<lambda>i. is_some_and (\<lambda>t. t \<noteq> i)
         (Option.bind (sn_provider_metadata s) pm_current_turn_id))
       (ev_turn_id e)"

definition apply_child_event :: "Prior \<Rightarrow> NormalizedEvent \<Rightarrow> ChildAgentRef \<Rightarrow> Transition" where
  "apply_child_event prior e child =
     (let s = pri_snapshot prior;
          effective = event_with_channel_authority e;
          suppressed = (is_stale_source_order (sn_source_ordering s) (ev_evidence e)
                        \<or> other_session s effective);
          s' = (if suppressed then s
                else record_source_order
                  (if \<not> ended (sn_lifecycle s) then reduce_child s effective child else s)
                  (ev_evidence e))
      in \<lparr>tr_snapshot = s', tr_reason = Keep, tr_suppressed = suppressed\<rparr>)"

text \<open>The event a root transition acts on: channel authority, then what the lifecycle leaves of it.\<close>

definition effective_event :: "InvocationSnapshot \<Rightarrow> NormalizedEvent \<Rightarrow> NormalizedEvent" where
  "effective_event s e =
     (let eff = event_with_channel_authority e;
          eff1 = (if ended (sn_lifecycle s) then
                    eff\<lparr>ev_tool_activity := None,
                        ev_kind := (if authoritative_activity (ev_kind eff) (ee_channel (ev_evidence eff))
                                    then KEnrichment else ev_kind eff)\<rparr>
                  else eff)
      in if \<not> turn_open s then eff1\<lparr>ev_tool_activity := None\<rparr> else eff1)"

definition root_suppressed :: "InvocationSnapshot \<Rightarrow> NormalizedEvent \<Rightarrow> NormalizedEvent \<Rightarrow> bool" where
  "root_suppressed s e effective \<longleftrightarrow>
     is_stale_source_order (sn_source_ordering s) (ev_evidence e)
     \<or> other_session s effective \<and> ev_kind effective \<noteq> KProviderSessionStarted
     \<or> other_turn s effective \<and> ev_kind effective \<noteq> KNewTurn
     \<or> \<not> turn_open s \<and> ev_kind effective \<in>
         {KWorking, KWaitingInput, KWaitingApproval, KCompleted, KFailed, KInterrupted}"

definition reason_effect ::
    "Prior \<Rightarrow> EventKind \<Rightarrow> StatusReasonContext option \<Rightarrow> ReasonEffect" where
  "reason_effect prior kind status_reason =
     (if kind \<in> {KWaitingApproval, KWaitingInput, KCompleted, KFailed, KInterrupted} then
        (case status_reason of
           None \<Rightarrow> Clear
         | Some c \<Rightarrow> SetReason \<lparr>rs_kind = kind, rs_context = c\<rparr>)
      else if kind \<in> {KNewTurn, KWorking, KIdle, KProviderSessionStarted} then Clear
      else if kind = KSessionEnded then clear_unless (pri_reason prior) [KCompleted, KFailed]
      else Keep)"

definition apply_event ::
    "Prior \<Rightarrow> NormalizedEvent \<Rightarrow> StatusReasonContext option \<Rightarrow> ReducerError + Transition" where
  "apply_event prior e status_reason =
     result_bind (validate_event e status_reason) (\<lambda>_.
       case ev_child_agent e of
         Some child \<Rightarrow> Inr (apply_child_event prior e child)
       | None \<Rightarrow>
           let s = pri_snapshot prior;
               effective = effective_event s e;
               suppressed = root_suppressed s e effective;
               s1 = (if suppressed then s else reduce s effective);
               s2 = s1\<lparr>sn_status := derive_status (sn_lifecycle s1) (sn_activity s1)\<rparr>;
               kind = (if suppressed then KEnrichment else ev_kind effective)
           in Inr \<lparr>tr_snapshot = s2, tr_reason = reason_effect prior kind status_reason,
                   tr_suppressed = suppressed\<rparr>)"

section \<open>Local observations\<close>

definition mark_lost :: "Prior \<Rightarrow> Transition" where
  "mark_lost prior =
     (let s = pri_snapshot prior
      in \<lparr>tr_snapshot = s\<lparr>sn_lifecycle := Lost, sn_current_tool_activity := None,
                         sn_children := [],
                         sn_last_evidence := Some (EventEvidence_local ProcessObservation),
                         sn_status := derive_status Lost (sn_activity s)\<rparr>,
          tr_reason = clear_unless (pri_reason prior) [KCompleted, KFailed],
          tr_suppressed = False\<rparr>)"

definition is_stale_child :: "ChildAgentState \<Rightarrow> timestamp \<Rightarrow> bool" where
  "is_stale_child c now \<longleftrightarrow>
     ca_activity c = ChildRunning \<and> now - ca_updated_at c \<ge> minutes STALE_WORKING_MINUTES"

definition has_stale_children :: "InvocationSnapshot \<Rightarrow> timestamp \<Rightarrow> bool" where
  "has_stale_children s now = list_ex (\<lambda>c. is_stale_child c now) (sn_children s)"

definition is_stale_working :: "InvocationSnapshot \<Rightarrow> timestamp \<Rightarrow> bool" where
  "is_stale_working s now =
     (let last_asserted = unwrap_or (sn_last_state_asserted_at s) (sn_state_started_at s)
      in sn_lifecycle s = Alive \<and> sn_activity s = Working
         \<and> now - last_asserted \<ge> minutes STALE_WORKING_MINUTES)"

definition is_stale :: "InvocationSnapshot \<Rightarrow> timestamp \<Rightarrow> bool" where
  "is_stale s now \<longleftrightarrow> is_stale_working s now \<or> has_stale_children s now"

definition expire_stale_working :: "Prior \<Rightarrow> timestamp \<Rightarrow> Transition option" where
  "expire_stale_working prior now =
     (let s = pri_snapshot prior;
          root_stale = is_stale_working s now
      in if \<not> root_stale \<and> \<not> has_stale_children s now then None
         else
           let s1 = s\<lparr>sn_children := filter (\<lambda>c. \<not> is_stale_child c now) (sn_children s)\<rparr>;
               s2 = (if root_stale
                     then s1\<lparr>sn_activity := Unknown, sn_state_started_at := now,
                             sn_current_tool_activity := None,
                             sn_status := derive_status (sn_lifecycle s1) Unknown\<rparr>
                     else s1)
           in Some \<lparr>tr_snapshot = s2, tr_reason = (if root_stale then Clear else Keep),
                    tr_suppressed = False\<rparr>)"

definition local_mutation ::
    "Prior \<Rightarrow> bool \<Rightarrow> (InvocationSnapshot \<Rightarrow> InvocationSnapshot) \<Rightarrow> Transition" where
  "local_mutation prior clear_incompatible_reason f =
     (let s1 = (f (pri_snapshot prior))
            \<lparr>sn_last_evidence := Some (EventEvidence_local ProcessObservation)\<rparr>;
          s2 = (if clear_incompatible_reason then s1\<lparr>sn_current_tool_activity := None\<rparr> else s1);
          s3 = (if ended (sn_lifecycle s2) then s2\<lparr>sn_children := []\<rparr> else s2);
          s4 = s3\<lparr>sn_status := derive_status (sn_lifecycle s3) (sn_activity s3)\<rparr>
      in \<lparr>tr_snapshot = s4,
          tr_reason = (if clear_incompatible_reason
                       then clear_unless (pri_reason prior) [KCompleted, KFailed, KInterrupted]
                       else Keep),
          tr_suppressed = False\<rparr>)"

definition finalize ::
    "PublicAgentView \<Rightarrow> InvocationSnapshot \<Rightarrow> CurrentStatusReason option \<Rightarrow> timestamp
     \<Rightarrow> InvocationSnapshot \<times> PublicAgentView \<times> PublicField set" where
  "finalize prior_view s reason now =
     (let provisional = project_public s reason;
          s' = (if changed_public_fields (Some prior_view) provisional \<noteq> {}
                then s\<lparr>sn_updated_at := now\<rparr> else s);
          view = project_public s' reason
      in (s', view, changed_public_fields (Some prior_view) view))"

end
