(* ===== verification/Reducer_Lemmas.thy ===== *)
theory Reducer_Lemmas
  imports Reducer
begin

text \<open>
  Lemma library of the reducer. Each stage of \<open>reduce\<close> is brought into the form of one
  unconditional record update, so that every field of \<open>reduce s e\<close> is an equation and the
  component proofs are rewriting.
\<close>

section \<open>Stages as record updates\<close>

text \<open>The activity a root event of some kind leaves behind.\<close>

fun kind_activity :: "InvocationSnapshot \<Rightarrow> EventKind \<Rightarrow> Activity" where
  "kind_activity s KNewTurn = Working"
| "kind_activity s KWorking = (if turn_open s then Working else sn_activity s)"
| "kind_activity s KIdle = Idle"
| "kind_activity s KWaitingInput = (if turn_open s then WaitingInput else sn_activity s)"
| "kind_activity s KWaitingApproval = (if turn_open s then WaitingApproval else sn_activity s)"
| "kind_activity s KCompleted = Stopped"
| "kind_activity s KFailed = Stopped"
| "kind_activity s KInterrupted = Stopped"
| "kind_activity s KProviderSessionStarted = Idle"
| "kind_activity s KProviderSessionEnded = sn_activity s"
| "kind_activity s KSessionEnded = sn_activity s"
| "kind_activity s KEnrichment = sn_activity s"

definition new_session :: "InvocationSnapshot \<Rightarrow> NormalizedEvent \<Rightarrow> bool" where
  "new_session s e =
     is_some_and (\<lambda>i. is_none_or (\<lambda>p. ps_id p \<noteq> i) (sn_provider_session s))
       (ev_provider_session_id e)"

lemma reduce_tool_activity_upd:
  "reduce_tool_activity s e = s\<lparr>sn_current_tool_activity :=
     (case ev_tool_activity e of
        None \<Rightarrow> if tool_boundary s e then None else sn_current_tool_activity s
      | Some u \<Rightarrow> update_tool (if tool_boundary s e then None else sn_current_tool_activity s) u
                   (ev_received_at e))\<rparr>"
  by (simp add: reduce_tool_activity_def Let_def)

lemma reduce_kind_upd:
  "reduce_kind s k = s
     \<lparr>sn_lifecycle := (if k = KSessionEnded then Exited else sn_lifecycle s),
      sn_activity := kind_activity s k,
      sn_children := (if k \<in> {KNewTurn, KSessionEnded} then [] else sn_children s),
      sn_turn_generation := (if k = KNewTurn then sn_turn_generation s + 1 else sn_turn_generation s),
      sn_completed_generation :=
        (if k = KNewTurn then None
         else if k \<in> {KCompleted, KFailed, KInterrupted} then Some (sn_turn_generation s)
         else sn_completed_generation s)\<rparr>"
  by (cases k; cases s) (simp_all add: reduce_kind_def)

lemma assert_state_upd:
  "assert_state a s e =
     (let auth = authoritative_activity (ev_kind e) (ee_channel (ev_evidence e))
      in s\<lparr>sn_state_started_at := (if auth \<and> sn_activity s \<noteq> a then ev_received_at e
                                    else sn_state_started_at s),
           sn_last_state_asserted_at := (if auth then Some (ev_received_at e)
                                         else sn_last_state_asserted_at s),
           sn_activity_confirmation := (if auth then Live else sn_activity_confirmation s)\<rparr>)"
  by (cases s) (simp add: assert_state_def Let_def)

lemma reduce_session_upd:
  "reduce_session s e = s
     \<lparr>sn_usage := (if new_session s e then None else sn_usage s),
      sn_children := (if new_session s e then [] else sn_children s),
      sn_provider_session :=
        (case ev_provider_session_id e of
           None \<Rightarrow> sn_provider_session s
         | Some i \<Rightarrow> Some (next_session (sn_provider_session s) i e))\<rparr>"
  by (cases s) (simp add: reduce_session_def new_session_def Let_def split: option.split)

lemma reduce_metadata_upd:
  "reduce_metadata s e = s\<lparr>sn_provider_metadata :=
     (case ev_provider_metadata e of
        None \<Rightarrow> sn_provider_metadata s
      | Some m \<Rightarrow> Some (merge_metadata (ee_channel (ev_evidence e) = ProviderArtifact)
                   (unwrap_or (sn_provider_metadata s) ProviderMetadata_default) m))\<rparr>"
  by (cases s) (simp add: reduce_metadata_def split: option.split)

lemma reduce_turn_id_upd:
  "reduce_turn_id s e = s\<lparr>sn_provider_metadata :=
     (case ev_turn_id e of
        None \<Rightarrow> sn_provider_metadata s
      | Some t \<Rightarrow> Some ((unwrap_or (sn_provider_metadata s) ProviderMetadata_default)
                   \<lparr>pm_current_turn_id := Some t\<rparr>))\<rparr>"
  by (cases s) (simp add: reduce_turn_id_def split: option.split)

lemma reduce_usage_upd:
  "reduce_usage s e = s\<lparr>sn_usage := or_else (ev_usage e) (sn_usage s)\<rparr>"
  by (cases s; cases "ev_usage e") (simp_all add: reduce_usage_def)

text \<open>What no event may touch: the identity of an invocation, its process and its placement.\<close>

definition snapshot_identity where
  "snapshot_identity s =
     (sn_schema_version s, sn_revision s, sn_invocation_id s, sn_provider s, sn_executable s,
      sn_args s, sn_cwd s, sn_process s, sn_created_at s, sn_updated_at s, sn_status s,
      sn_repository s, sn_multiplexer s, sn_capabilities s)"

lemma tool_frame [frame_simps]:
  "snapshot_identity (reduce_tool_activity s e) = snapshot_identity s"
  "sn_lifecycle (reduce_tool_activity s e) = sn_lifecycle s"
  "sn_activity (reduce_tool_activity s e) = sn_activity s"
  "sn_state_started_at (reduce_tool_activity s e) = sn_state_started_at s"
  "sn_last_state_asserted_at (reduce_tool_activity s e) = sn_last_state_asserted_at s"
  "sn_activity_confirmation (reduce_tool_activity s e) = sn_activity_confirmation s"
  "sn_last_evidence (reduce_tool_activity s e) = sn_last_evidence s"
  "sn_source_ordering (reduce_tool_activity s e) = sn_source_ordering s"
  "sn_provider_session (reduce_tool_activity s e) = sn_provider_session s"
  "sn_provider_metadata (reduce_tool_activity s e) = sn_provider_metadata s"
  "sn_usage (reduce_tool_activity s e) = sn_usage s"
  "sn_children (reduce_tool_activity s e) = sn_children s"
  "sn_turn_generation (reduce_tool_activity s e) = sn_turn_generation s"
  "sn_completed_generation (reduce_tool_activity s e) = sn_completed_generation s"
  by (simp_all add: reduce_tool_activity_upd snapshot_identity_def)

lemma kind_frame [frame_simps]:
  "snapshot_identity (reduce_kind s k) = snapshot_identity s"
  "sn_state_started_at (reduce_kind s k) = sn_state_started_at s"
  "sn_last_state_asserted_at (reduce_kind s k) = sn_last_state_asserted_at s"
  "sn_activity_confirmation (reduce_kind s k) = sn_activity_confirmation s"
  "sn_last_evidence (reduce_kind s k) = sn_last_evidence s"
  "sn_source_ordering (reduce_kind s k) = sn_source_ordering s"
  "sn_current_tool_activity (reduce_kind s k) = sn_current_tool_activity s"
  "sn_provider_session (reduce_kind s k) = sn_provider_session s"
  "sn_provider_metadata (reduce_kind s k) = sn_provider_metadata s"
  "sn_usage (reduce_kind s k) = sn_usage s"
  by (simp_all add: reduce_kind_upd snapshot_identity_def)

lemma assert_frame [frame_simps]:
  "snapshot_identity (assert_state a s e) = snapshot_identity s"
  "sn_lifecycle (assert_state a s e) = sn_lifecycle s"
  "sn_activity (assert_state a s e) = sn_activity s"
  "sn_last_evidence (assert_state a s e) = sn_last_evidence s"
  "sn_source_ordering (assert_state a s e) = sn_source_ordering s"
  "sn_current_tool_activity (assert_state a s e) = sn_current_tool_activity s"
  "sn_provider_session (assert_state a s e) = sn_provider_session s"
  "sn_provider_metadata (assert_state a s e) = sn_provider_metadata s"
  "sn_usage (assert_state a s e) = sn_usage s"
  "sn_children (assert_state a s e) = sn_children s"
  "sn_turn_generation (assert_state a s e) = sn_turn_generation s"
  "sn_completed_generation (assert_state a s e) = sn_completed_generation s"
  by (simp_all add: assert_state_upd Let_def snapshot_identity_def)

lemma session_frame [frame_simps]:
  "snapshot_identity (reduce_session s e) = snapshot_identity s"
  "sn_lifecycle (reduce_session s e) = sn_lifecycle s"
  "sn_activity (reduce_session s e) = sn_activity s"
  "sn_state_started_at (reduce_session s e) = sn_state_started_at s"
  "sn_last_state_asserted_at (reduce_session s e) = sn_last_state_asserted_at s"
  "sn_activity_confirmation (reduce_session s e) = sn_activity_confirmation s"
  "sn_last_evidence (reduce_session s e) = sn_last_evidence s"
  "sn_source_ordering (reduce_session s e) = sn_source_ordering s"
  "sn_current_tool_activity (reduce_session s e) = sn_current_tool_activity s"
  "sn_provider_metadata (reduce_session s e) = sn_provider_metadata s"
  "sn_turn_generation (reduce_session s e) = sn_turn_generation s"
  "sn_completed_generation (reduce_session s e) = sn_completed_generation s"
  by (simp_all add: reduce_session_upd snapshot_identity_def)

lemma metadata_frame [frame_simps]:
  "snapshot_identity (reduce_metadata s e) = snapshot_identity s"
  "sn_lifecycle (reduce_metadata s e) = sn_lifecycle s"
  "sn_activity (reduce_metadata s e) = sn_activity s"
  "sn_state_started_at (reduce_metadata s e) = sn_state_started_at s"
  "sn_last_state_asserted_at (reduce_metadata s e) = sn_last_state_asserted_at s"
  "sn_activity_confirmation (reduce_metadata s e) = sn_activity_confirmation s"
  "sn_last_evidence (reduce_metadata s e) = sn_last_evidence s"
  "sn_source_ordering (reduce_metadata s e) = sn_source_ordering s"
  "sn_current_tool_activity (reduce_metadata s e) = sn_current_tool_activity s"
  "sn_provider_session (reduce_metadata s e) = sn_provider_session s"
  "sn_usage (reduce_metadata s e) = sn_usage s"
  "sn_children (reduce_metadata s e) = sn_children s"
  "sn_turn_generation (reduce_metadata s e) = sn_turn_generation s"
  "sn_completed_generation (reduce_metadata s e) = sn_completed_generation s"
  by (simp_all add: reduce_metadata_upd snapshot_identity_def)

lemma turn_id_frame [frame_simps]:
  "snapshot_identity (reduce_turn_id s e) = snapshot_identity s"
  "sn_lifecycle (reduce_turn_id s e) = sn_lifecycle s"
  "sn_activity (reduce_turn_id s e) = sn_activity s"
  "sn_state_started_at (reduce_turn_id s e) = sn_state_started_at s"
  "sn_last_state_asserted_at (reduce_turn_id s e) = sn_last_state_asserted_at s"
  "sn_activity_confirmation (reduce_turn_id s e) = sn_activity_confirmation s"
  "sn_last_evidence (reduce_turn_id s e) = sn_last_evidence s"
  "sn_source_ordering (reduce_turn_id s e) = sn_source_ordering s"
  "sn_current_tool_activity (reduce_turn_id s e) = sn_current_tool_activity s"
  "sn_provider_session (reduce_turn_id s e) = sn_provider_session s"
  "sn_usage (reduce_turn_id s e) = sn_usage s"
  "sn_children (reduce_turn_id s e) = sn_children s"
  "sn_turn_generation (reduce_turn_id s e) = sn_turn_generation s"
  "sn_completed_generation (reduce_turn_id s e) = sn_completed_generation s"
  by (simp_all add: reduce_turn_id_upd snapshot_identity_def)

lemma usage_frame [frame_simps]:
  "snapshot_identity (reduce_usage s e) = snapshot_identity s"
  "sn_lifecycle (reduce_usage s e) = sn_lifecycle s"
  "sn_activity (reduce_usage s e) = sn_activity s"
  "sn_state_started_at (reduce_usage s e) = sn_state_started_at s"
  "sn_last_state_asserted_at (reduce_usage s e) = sn_last_state_asserted_at s"
  "sn_activity_confirmation (reduce_usage s e) = sn_activity_confirmation s"
  "sn_last_evidence (reduce_usage s e) = sn_last_evidence s"
  "sn_source_ordering (reduce_usage s e) = sn_source_ordering s"
  "sn_current_tool_activity (reduce_usage s e) = sn_current_tool_activity s"
  "sn_provider_session (reduce_usage s e) = sn_provider_session s"
  "sn_provider_metadata (reduce_usage s e) = sn_provider_metadata s"
  "sn_children (reduce_usage s e) = sn_children s"
  "sn_turn_generation (reduce_usage s e) = sn_turn_generation s"
  "sn_completed_generation (reduce_usage s e) = sn_completed_generation s"
  by (simp_all add: reduce_usage_upd snapshot_identity_def)

lemma order_frame [frame_simps]:
  "snapshot_identity (record_source_order s v) = snapshot_identity s"
  "sn_lifecycle (record_source_order s v) = sn_lifecycle s"
  "sn_activity (record_source_order s v) = sn_activity s"
  "sn_state_started_at (record_source_order s v) = sn_state_started_at s"
  "sn_last_state_asserted_at (record_source_order s v) = sn_last_state_asserted_at s"
  "sn_activity_confirmation (record_source_order s v) = sn_activity_confirmation s"
  "sn_last_evidence (record_source_order s v) = sn_last_evidence s"
  "sn_current_tool_activity (record_source_order s v) = sn_current_tool_activity s"
  "sn_provider_session (record_source_order s v) = sn_provider_session s"
  "sn_provider_metadata (record_source_order s v) = sn_provider_metadata s"
  "sn_usage (record_source_order s v) = sn_usage s"
  "sn_children (record_source_order s v) = sn_children s"
  "sn_turn_generation (record_source_order s v) = sn_turn_generation s"
  "sn_completed_generation (record_source_order s v) = sn_completed_generation s"
  by (simp_all add: record_source_order_def snapshot_identity_def)

lemma stage_values [frame_simps]:
  "sn_lifecycle (reduce_kind s k) = (if k = KSessionEnded then Exited else sn_lifecycle s)"
  "sn_activity (reduce_kind s k) = kind_activity s k"
  "sn_children (reduce_kind s k) = (if k \<in> {KNewTurn, KSessionEnded} then [] else sn_children s)"
  "sn_turn_generation (reduce_kind s k) =
     (if k = KNewTurn then sn_turn_generation s + 1 else sn_turn_generation s)"
  "sn_completed_generation (reduce_kind s k) =
     (if k = KNewTurn then None
      else if k \<in> {KCompleted, KFailed, KInterrupted} then Some (sn_turn_generation s)
      else sn_completed_generation s)"
  "sn_usage (reduce_session s e) = (if new_session s e then None else sn_usage s)"
  "sn_children (reduce_session s e) = (if new_session s e then [] else sn_children s)"
  "sn_usage (reduce_usage s e) = or_else (ev_usage e) (sn_usage s)"
  "sn_source_ordering (record_source_order s v) = record_cursor (sn_source_ordering s) v"
  by (simp_all add: reduce_kind_upd reduce_session_upd reduce_usage_upd record_source_order_def)

section \<open>The fields of a reduced snapshot\<close>

lemma kind_activity_tool [frame_simps]:
  "kind_activity (reduce_tool_activity s e) k = kind_activity s k"
  by (cases k) (simp_all add: turn_open_def frame_simps)

lemma new_session_frame [frame_simps]:
  "new_session (reduce_tool_activity s e') e = new_session s e"
  "new_session (reduce_kind s k) e = new_session s e"
  "new_session (assert_state a s e') e = new_session s e"
  by (simp_all add: new_session_def frame_simps)

text \<open>The nested stages, with every intermediate snapshot named.\<close>

lemma reduce_unfold:
  "reduce s e = (record_source_order (reduce_usage (reduce_turn_id (reduce_metadata (reduce_session
     (assert_state (sn_activity s) (reduce_kind (reduce_tool_activity s e) (ev_kind e)) e) e) e) e) e)
     (ev_evidence e))\<lparr>sn_last_evidence := Some (ev_evidence e)\<rparr>"
  by (simp add: reduce_def Let_def)

lemma snapshot_identity_evidence [frame_simps]:
  "snapshot_identity (s\<lparr>sn_last_evidence := v\<rparr>) = snapshot_identity s"
  by (simp add: snapshot_identity_def)

lemma reduce_identity [simp]: "snapshot_identity (reduce s e) = snapshot_identity s"
  by (simp add: reduce_unfold frame_simps)

lemma reduce_lifecycle [simp]:
  "sn_lifecycle (reduce s e) = (if ev_kind e = KSessionEnded then Exited else sn_lifecycle s)"
  by (simp add: reduce_unfold frame_simps)

lemma reduce_activity [simp]: "sn_activity (reduce s e) = kind_activity s (ev_kind e)"
  by (simp add: reduce_unfold frame_simps)

lemma reduce_children_field:
  "sn_children (reduce s e) =
     (if ev_kind e \<in> {KNewTurn, KSessionEnded} \<or> new_session s e then [] else sn_children s)"
  by (simp add: reduce_unfold frame_simps)

lemma reduce_ordering [simp]:
  "sn_source_ordering (reduce s e) = record_cursor (sn_source_ordering s) (ev_evidence e)"
  by (simp add: reduce_unfold frame_simps)

lemma reduce_turn_generation:
  "sn_turn_generation (reduce s e) =
     (if ev_kind e = KNewTurn then sn_turn_generation s + 1 else sn_turn_generation s)"
  by (simp add: reduce_unfold frame_simps)

lemma reduce_completed_generation:
  "sn_completed_generation (reduce s e) =
     (if ev_kind e = KNewTurn then None
      else if ev_kind e \<in> {KCompleted, KFailed, KInterrupted} then Some (sn_turn_generation s)
      else sn_completed_generation s)"
  by (simp add: reduce_unfold frame_simps)

lemma reduce_tool:
  "sn_current_tool_activity (reduce s e) =
     (case ev_tool_activity e of
        None \<Rightarrow> if tool_boundary s e then None else sn_current_tool_activity s
      | Some u \<Rightarrow> update_tool (if tool_boundary s e then None else sn_current_tool_activity s) u
                   (ev_received_at e))"
  by (simp add: reduce_unfold frame_simps reduce_tool_activity_upd)

lemma reduce_session_field:
  "sn_provider_session (reduce s e) =
     (case ev_provider_session_id e of
        None \<Rightarrow> sn_provider_session s
      | Some i \<Rightarrow> Some (next_session (sn_provider_session s) i e))"
  by (cases "ev_provider_session_id e")
    (simp_all add: reduce_unfold frame_simps reduce_session_upd)

lemma reduce_usage_field:
  "sn_usage (reduce s e) = or_else (ev_usage e) (if new_session s e then None else sn_usage s)"
  by (simp add: reduce_unfold frame_simps)

lemma reduce_metadata_field:
  "sn_provider_metadata (reduce s e) =
     sn_provider_metadata (reduce_turn_id (reduce_metadata s e) e)"
  by (cases "ev_turn_id e"; cases "ev_provider_metadata e")
    (simp_all add: reduce_unfold frame_simps reduce_metadata_upd reduce_turn_id_upd)

lemma reduce_asserted:
  "sn_last_state_asserted_at (reduce s e) =
     (if authoritative_activity (ev_kind e) (ee_channel (ev_evidence e))
      then Some (ev_received_at e) else sn_last_state_asserted_at s)"
  "sn_activity_confirmation (reduce s e) =
     (if authoritative_activity (ev_kind e) (ee_channel (ev_evidence e))
      then Live else sn_activity_confirmation s)"
  "sn_state_started_at (reduce s e) =
     (if authoritative_activity (ev_kind e) (ee_channel (ev_evidence e))
        \<and> kind_activity s (ev_kind e) \<noteq> sn_activity s
      then ev_received_at e else sn_state_started_at s)"
  by (simp_all add: reduce_unfold frame_simps assert_state_upd Let_def)

lemma reduce_last_evidence [simp]: "sn_last_evidence (reduce s e) = Some (ev_evidence e)"
  by (simp add: reduce_unfold)

section \<open>Source-order cursors\<close>

definition cursor_key where
  "cursor_key c = (so_channel c, so_collector_revision c, so_collector_instance_id c)"

definition evidence_key where
  "evidence_key e = (ee_channel e, ee_collector_revision e, ee_collector_instance_id e)"

definition wf_cursors :: "SourceOrderCursor list \<Rightarrow> bool" where
  "wf_cursors cs \<longleftrightarrow> length cs \<le> SOURCE_ORDER_CURSOR_MAX \<and> distinct (map cursor_key cs)"

lemma same_source_iff: "same_source e c \<longleftrightarrow> cursor_key c = evidence_key e"
  by (auto simp: same_source_def cursor_key_def evidence_key_def)

lemma cursor_key_sequence [simp]: "cursor_key (c\<lparr>so_sequence := n\<rparr>) = cursor_key c"
  by (simp add: cursor_key_def)

lemma length_update_first [simp]: "length (update_first p f xs) = length xs"
  by (induction xs) auto

lemma map_update_first: "(\<And>x. k (f x) = k x) \<Longrightarrow> map k (update_first p f xs) = map k xs"
  by (induction xs) auto

lemma lookup_update_first:
  "(\<And>x. key (f x) = key x) \<Longrightarrow>
   tbl_lookup key k (update_first (\<lambda>x. key x = j) f xs) =
     (if k = j then map_option f (tbl_lookup key k xs) else tbl_lookup key k xs)"
  by (induction xs) auto

lemma update_first_same_source:
  "update_first (same_source e) f cs = update_first (\<lambda>c. cursor_key c = evidence_key e) f cs"
  by (simp add: same_source_iff [abs_def])

lemma list_ex_lookup: "list_ex (same_source e) cs \<longleftrightarrow> tbl_lookup cursor_key (evidence_key e) cs \<noteq> None"
  by (auto simp: list_ex_iff same_source_iff tbl_lookup_None_iff intro: rev_image_eqI)

lemma tbl_lookup_append:
  "tbl_lookup key k (xs @ ys) =
     (case tbl_lookup key k xs of None \<Rightarrow> tbl_lookup key k ys | Some r \<Rightarrow> Some r)"
  by (induction xs) auto

lemma lookup_tl_mono: "tbl_wf key xs \<Longrightarrow> tbl_lookup key k (tl xs) = Some r \<Longrightarrow> tbl_lookup key k xs = Some r"
  by (cases xs) (auto dest!: tbl_lookup_SomeD)

lemma wf_record_cursor:
  assumes "wf_cursors cs"
  shows "wf_cursors (record_cursor cs e)"
proof (cases "ee_source_sequence e")
  case None
  with assms show ?thesis by (simp add: record_cursor_def)
next
  case (Some n)
  show ?thesis
  proof (cases "list_ex (same_source e) cs")
    case True
    with Some assms show ?thesis
      by (simp add: record_cursor_def wf_cursors_def map_update_first)
  next
    case False
    then have "evidence_key e \<notin> cursor_key ` set cs"
      by (auto simp: list_ex_iff same_source_iff)
    then have "evidence_key e \<notin> cursor_key ` set (tl cs)"
      by (cases cs) auto
    with Some False assms \<open>evidence_key e \<notin> cursor_key ` set cs\<close> show ?thesis
      by (auto simp: record_cursor_def wf_cursors_def cursor_key_def evidence_key_def
          SOURCE_ORDER_CURSOR_MAX_def map_tl distinct_tl)
  qed
qed

lemma record_cursor_own:
  "ee_source_sequence e = Some n \<Longrightarrow>
   \<exists>c. tbl_lookup cursor_key (evidence_key e) (record_cursor cs e) = Some c \<and> so_sequence c = n"
proof (cases "list_ex (same_source e) cs")
  case True
  moreover assume "ee_source_sequence e = Some n"
  ultimately show ?thesis
    by (auto simp: record_cursor_def update_first_same_source lookup_update_first list_ex_lookup)
next
  case False
  assume n: "ee_source_sequence e = Some n"
  have "tbl_lookup cursor_key (evidence_key e) (tl cs) = None"
    using False by (cases cs) (auto simp: list_ex_iff same_source_iff tbl_lookup_None_iff)
  with n False show ?thesis
    by (auto simp: record_cursor_def list_ex_lookup tbl_lookup_append cursor_key_def evidence_key_def)
qed

lemma is_stale_source_orderI:
  assumes "tbl_lookup cursor_key (evidence_key e) cs = Some c"
    and "ee_source_sequence e = Some m" and "m \<le> so_sequence c"
  shows "is_stale_source_order cs e"
  using tbl_lookup_SomeD [OF assms(1)] assms(2,3)
  by (auto simp: is_stale_source_order_def list_ex_iff same_source_iff)

lemma record_cursor_replay_stale:
  assumes "ee_source_sequence e = Some n" and "evidence_key e' = evidence_key e"
    and "ee_source_sequence e' = Some m" and "m \<le> n"
  shows "is_stale_source_order (record_cursor cs e) e'"
  using record_cursor_own [OF assms(1), of cs] is_stale_source_orderI [of e' _ _ m] assms(2-4)
  by auto

text \<open>Recording an accepted event never lowers a cursor that is still tracked.\<close>

lemma record_cursor_mono:
  assumes wf: "wf_cursors cs" and fresh: "\<not> is_stale_source_order cs e"
    and old: "tbl_lookup cursor_key k cs = Some c"
    and new: "tbl_lookup cursor_key k (record_cursor cs e) = Some c'"
  shows "so_sequence c \<le> so_sequence c'"
proof (cases "ee_source_sequence e")
  case None
  with old new show ?thesis by (simp add: record_cursor_def)
next
  case (Some n)
  show ?thesis
  proof (cases "list_ex (same_source e) cs")
    case True
    have "k = evidence_key e \<Longrightarrow> so_sequence c < n"
      using fresh Some tbl_lookup_SomeD [OF old]
      by (auto simp: is_stale_source_order_def list_ex_iff same_source_iff not_le)
    with True Some old new show ?thesis
      by (auto simp: record_cursor_def update_first_same_source lookup_update_first split: if_splits)
  next
    case False
    then have "k \<noteq> evidence_key e"
      using old by (auto simp: list_ex_lookup)
    then have "tbl_lookup cursor_key k cs = Some c'"
      using new Some False wf lookup_tl_mono [of cursor_key cs k c']
      by (auto simp: record_cursor_def tbl_lookup_append cursor_key_def evidence_key_def
          wf_cursors_def split: option.splits if_splits)
    with old show ?thesis by simp
  qed
qed

section \<open>Child lists\<close>

definition wf_children :: "ChildAgentState list \<Rightarrow> bool" where
  "wf_children cs \<longleftrightarrow> length cs \<le> CHILD_AGENTS_MAX \<and> distinct (map ca_agent_id cs)"

lemma position_Some: "position p xs = Some i \<Longrightarrow> i < length xs \<and> p (xs ! i)"
  by (induction xs arbitrary: i) (auto split: if_splits)

lemma position_None: "position p xs = None \<longleftrightarrow> (\<forall>x\<in>set xs. \<not> p x)"
  by (induction xs) auto

lemma min_by_None [simp]: "min_by lt xs = None \<longleftrightarrow> xs = []"
  by (cases xs) (auto split: option.splits)

lemma min_by_mem: "min_by lt xs = Some x \<Longrightarrow> x \<in> set xs"
  by (induction xs arbitrary: x) (auto split: option.splits if_splits)

lemma min_by_least:
  assumes irrefl: "\<And>a. \<not> lt a a" and trans: "\<And>a b c. \<not> lt b a \<Longrightarrow> \<not> lt c b \<Longrightarrow> \<not> lt c a"
    and asym: "\<And>a b. lt a b \<Longrightarrow> \<not> lt b a"
  shows "min_by lt xs = Some x \<Longrightarrow> y \<in> set xs \<Longrightarrow> \<not> lt y x"
proof (induction xs arbitrary: x y)
  case (Cons z zs)
  then show ?case
    by (auto split: option.splits if_splits intro: irrefl dest: asym) (metis trans asym)+
qed simp

lemma length_remove_at: "i < length xs \<Longrightarrow> length (remove_at i xs) = length xs - 1"
  by (simp add: remove_at_def)

lemma set_remove_at_subset: "set (remove_at i xs) \<subseteq> set xs"
  by (auto simp: remove_at_def dest: in_set_takeD in_set_dropD)

lemma map_remove_at: "map f (remove_at i xs) = remove_at i (map f xs)"
  by (simp add: remove_at_def take_map drop_map)

lemma remove_at_split: "i < length xs \<Longrightarrow> xs = take i xs @ xs ! i # drop (Suc i) xs"
  by (rule id_take_nth_drop)

lemma distinct_remove_at: "distinct xs \<Longrightarrow> distinct (remove_at i xs)"
proof (cases "i < length xs")
  case True
  moreover assume "distinct xs"
  ultimately show ?thesis
    using remove_at_split [OF True] distinct_append [of "take i xs" "xs ! i # drop (Suc i) xs"]
    by (auto simp: remove_at_def)
next
  case False
  moreover assume "distinct xs"
  ultimately show ?thesis by (simp add: remove_at_def)
qed

lemma in_set_remove_at: "x \<in> set xs \<Longrightarrow> i < length xs \<Longrightarrow> x \<noteq> xs ! i \<Longrightarrow> x \<in> set (remove_at i xs)"
  using remove_at_split [of i xs] unfolding remove_at_def
  by (metis Un_iff set_ConsD set_append)

lemma older_child_order:
  "\<not> older_child a a"
  "\<not> older_child b a \<Longrightarrow> \<not> older_child c b \<Longrightarrow> \<not> older_child c a"
  "older_child a b \<Longrightarrow> \<not> older_child b a"
  unfolding older_child_def by auto

lemma oldest_stopped_Some:
  assumes "oldest_stopped cs = Some i"
  shows "i < length cs" and "ca_activity (cs ! i) = ChildStopped"
    and "\<And>c. c \<in> set cs \<Longrightarrow> ca_activity c = ChildStopped \<Longrightarrow> \<not> older_child c (cs ! i)"
proof -
  let ?lt = "\<lambda>(_::nat, a) (_::nat, b). older_child a b"
  let ?xs = "filter (\<lambda>(_, c). ca_activity c = ChildStopped) (List.enumerate 0 cs)"
  from assms obtain x where m: "min_by ?lt ?xs = Some (i, x)"
    by (auto simp: oldest_stopped_def)
  then have x: "i < length cs" "cs ! i = x" "ca_activity x = ChildStopped"
    using min_by_mem [OF m] by (auto simp: in_set_enumerate_eq)
  show "i < length cs" "ca_activity (cs ! i) = ChildStopped" using x by simp_all
  fix c assume c: "c \<in> set cs" "ca_activity c = ChildStopped"
  then obtain j where "j < length cs" "cs ! j = c" by (auto simp: in_set_conv_nth)
  then have "(j, c) \<in> set ?xs" using c by (auto simp: in_set_enumerate_eq)
  then have "\<not> ?lt (j, c) (i, x)"
    by (intro min_by_least [OF _ _ _ m]) (auto simp: older_child_def)
  then show "\<not> older_child c (cs ! i)" using x by simp
qed

lemma oldest_stopped_None:
  "oldest_stopped cs = None \<longleftrightarrow> (\<forall>c\<in>set cs. ca_activity c \<noteq> ChildStopped)"
proof -
  have "oldest_stopped cs = None \<longleftrightarrow>
      (\<forall>p\<in>set (List.enumerate 0 cs). ca_activity (snd p) \<noteq> ChildStopped)"
    by (simp add: oldest_stopped_def filter_empty_conv case_prod_beta)
  also have "\<dots> \<longleftrightarrow> (\<forall>c\<in>snd ` set (List.enumerate 0 cs). ca_activity c \<noteq> ChildStopped)"
    by simp
  also have "snd ` set (List.enumerate 0 cs) = set cs"
    by (metis map_snd_enumerate set_map)
  finally show ?thesis .
qed

text \<open>What the list looks like once the addressed child has a place in it.\<close>

lemma place_child_cases:
  assumes "place_child cs child act now = Some (cs', i)"
  obtains (present) "position (\<lambda>c. ca_agent_id c = ar_agent_id child) cs = Some i" "cs' = cs"
    | (evict) j where "position (\<lambda>c. ca_agent_id c = ar_agent_id child) cs = None"
        "length cs \<ge> CHILD_AGENTS_MAX" "oldest_stopped cs = Some j"
        "cs' = remove_at j cs @ [new_child child act now]" "i = length (remove_at j cs)"
    | (fresh) "position (\<lambda>c. ca_agent_id c = ar_agent_id child) cs = None"
        "length cs < CHILD_AGENTS_MAX" "cs' = cs @ [new_child child act now]" "i = length cs"
  using assms by (auto simp: place_child_def Let_def split: option.splits if_splits)

lemma place_child_Some:
  assumes wf: "wf_children cs" and p: "place_child cs child act now = Some (cs', i)"
  shows "wf_children cs'" and "i < length cs'" and "ca_agent_id (cs' ! i) = ar_agent_id child"
proof -
  let ?n = "new_child child act now"
  have id: "ca_agent_id ?n = ar_agent_id child" by (simp add: new_child_def)
  from p have "wf_children cs' \<and> i < length cs' \<and> ca_agent_id (cs' ! i) = ar_agent_id child"
  proof (cases rule: place_child_cases)
    case present
    with wf position_Some [OF present(1)] show ?thesis by simp
  next
    case (evict j)
    have j: "j < length cs" using oldest_stopped_Some(1) [OF evict(3)] .
    have "ar_agent_id child \<notin> ca_agent_id ` set cs"
      using evict(1) by (auto simp: position_None)
    moreover have "distinct (map ca_agent_id (remove_at j cs))"
      using wf by (simp add: wf_children_def map_remove_at distinct_remove_at)
    ultimately show ?thesis
      using wf evict j id set_remove_at_subset [of j cs]
      by (auto simp: wf_children_def length_remove_at nth_append)
  next
    case fresh
    then show ?thesis
      using wf id by (auto simp: wf_children_def position_None nth_append)
  qed
  then show "wf_children cs'" "i < length cs'" "ca_agent_id (cs' ! i) = ar_agent_id child" by auto
qed

lemma update_child_id [simp]: "ca_agent_id (update_child c child a k l now) = ca_agent_id c"
  by (simp add: update_child_def Let_def)

lemma wf_children_list_update:
  "wf_children cs \<Longrightarrow> i < length cs \<Longrightarrow> ca_agent_id c = ca_agent_id (cs ! i) \<Longrightarrow> wf_children (cs[i := c])"
  by (simp add: wf_children_def map_update) (metis list_update_id length_map nth_map)

lemma wf_reduce_children: "wf_children cs \<Longrightarrow> wf_children (reduce_children cs e child)"
  by (auto simp: reduce_children_def Let_def split: option.splits
      intro!: wf_children_list_update dest: place_child_Some)

lemma wf_children_Nil [simp]: "wf_children []"
  by (simp add: wf_children_def)

lemma wf_children_filter: "wf_children cs \<Longrightarrow> wf_children (filter p cs)"
  using length_filter_le [of p cs]
  by (simp add: wf_children_def distinct_map_filter del: length_filter_le)

text \<open>
  A child other than the addressed one keeps its state; the only exception is the oldest stopped
  child of a full list.
\<close>

lemma place_child_keeps:
  assumes p: "place_child cs child act now = Some (cs', i)" and c: "c \<in> set cs"
    and gone: "c \<notin> set cs'"
  shows "length cs \<ge> CHILD_AGENTS_MAX" and "ca_activity c = ChildStopped"
    and "\<forall>d\<in>set cs. ca_activity d = ChildStopped \<longrightarrow> \<not> older_child d c"
proof -
  obtain j where j: "length cs \<ge> CHILD_AGENTS_MAX" "oldest_stopped cs = Some j"
      "cs' = remove_at j cs @ [new_child child act now]"
    using p by (cases rule: place_child_cases) (use c gone in auto)
  have "c \<notin> set (remove_at j cs)"
    using gone unfolding j(3) by simp
  then have "c = cs ! j"
    using in_set_remove_at [OF c oldest_stopped_Some(1) [OF j(2)]] by blast
  then show "length cs \<ge> CHILD_AGENTS_MAX" "ca_activity c = ChildStopped"
    "\<forall>d\<in>set cs. ca_activity d = ChildStopped \<longrightarrow> \<not> older_child d c"
    using j oldest_stopped_Some [OF j(2)] by auto
qed

lemma in_set_list_update_other: "x \<in> set xs \<Longrightarrow> x \<noteq> xs ! i \<Longrightarrow> x \<in> set (xs[i := y])"
  by (metis in_set_conv_nth length_list_update nth_list_update_neq)

lemma reduce_children_keeps:
  assumes wf: "wf_children cs" and c: "c \<in> set cs" and other: "ca_agent_id c \<noteq> ar_agent_id child"
    and gone: "c \<notin> set (reduce_children cs e child)"
  shows "length cs = CHILD_AGENTS_MAX \<and> ca_activity c = ChildStopped
    \<and> (\<forall>d\<in>set cs. ca_activity d = ChildStopped \<longrightarrow> \<not> older_child d c)"
proof -
  obtain act k cs' i where o: "child_outcome (ev_kind e) = Some (act, k)"
      and p: "place_child cs child act (ev_received_at e) = Some (cs', i)"
      and r: "reduce_children cs e child =
        cs'[i := update_child (cs' ! i) child act k (map_option tu_label (ev_tool_activity e))
               (ev_received_at e)]"
  proof (cases "child_outcome (ev_kind e)")
    case None
    with c gone show ?thesis by (simp add: reduce_children_def)
  next
    case (Some o')
    with c gone that show ?thesis
      by (cases o'; cases "place_child cs child (fst o') (ev_received_at e)")
        (auto simp: reduce_children_def Let_def)
  qed
  have "c \<notin> set cs'"
    using gone other in_set_list_update_other [of c cs' i] place_child_Some(3) [OF wf p]
    unfolding r by metis
  from place_child_keeps [OF p c this] wf show ?thesis
    by (auto simp: wf_children_def)
qed

text \<open>The addressed child ends up in the list with the outcome of the event.\<close>

lemma reduce_children_addressed:
  assumes wf: "wf_children cs" and o: "child_outcome (ev_kind e) = Some (act, k)"
    and room: "place_child cs child act (ev_received_at e) \<noteq> None"
  shows "\<exists>c. tbl_lookup ca_agent_id (ar_agent_id child) (reduce_children cs e child) = Some c
           \<and> ca_activity c = act \<and> ca_agent_type c = ar_agent_type child
           \<and> ca_updated_at c = ev_received_at e \<and> Option.bind (ca_reason c) cr_kind = k"
proof -
  obtain cs' i where p: "place_child cs child act (ev_received_at e) = Some (cs', i)"
    using room by auto
  let ?c = "update_child (cs' ! i) child act k (map_option tu_label (ev_tool_activity e))
      (ev_received_at e)"
  have r: "reduce_children cs e child = cs'[i := ?c]"
    using o p by (simp add: reduce_children_def Let_def)
  have "?c \<in> set (reduce_children cs e child)"
    unfolding r using place_child_Some(2) [OF wf p] by (rule set_update_memI)
  moreover have "ca_agent_id ?c = ar_agent_id child"
    using place_child_Some(3) [OF wf p] by simp
  moreover have "tbl_wf ca_agent_id (reduce_children cs e child)"
    using wf_reduce_children [OF wf] by (simp add: wf_children_def)
  ultimately have "tbl_lookup ca_agent_id (ar_agent_id child) (reduce_children cs e child) = Some ?c"
    by (metis tbl_lookup_in)
  then show ?thesis
    by (auto simp: update_child_def Let_def)
qed

end
