(* ===== verification/Samples.thy ===== *)
theory Samples
  imports Domain
begin

text \<open>
  Concrete inputs for the witnesses: a registered invocation, a root event and a child event.
\<close>

definition sample_capabilities :: Capabilities where
  "sample_capabilities =
     \<lparr>cp_capture = True, cp_send_input = True, cp_usage = True, cp_terminal = False,
      cp_terminal_policy = TerminalPolicy_default\<rparr>"

definition sample_process :: ProcessMetadata where
  "sample_process = \<lparr>pc_wrapper_pid = 10, pc_child_pid = Some 11, pc_start_identity = Some ''boot:11'',
     pc_exit_code = None, pc_signal = None\<rparr>"

definition sample_snapshot :: InvocationSnapshot where
  "sample_snapshot =
     \<lparr>sn_schema_version = 1, sn_revision = 0, sn_invocation_id = ''inv-1'', sn_provider = ''claude'',
      sn_executable = ''claude'', sn_args = [], sn_cwd = ''/work'', sn_process = sample_process,
      sn_created_at = 0, sn_updated_at = 0, sn_lifecycle = Alive, sn_activity = Unknown,
      sn_state_started_at = 0, sn_last_state_asserted_at = None, sn_activity_confirmation = Live,
      sn_last_evidence = None, sn_source_ordering = [], sn_current_tool_activity = None,
      sn_status = StatusIdle, sn_provider_session = None, sn_provider_metadata = None,
      sn_usage = None, sn_repository = None, sn_multiplexer = None,
      sn_capabilities = sample_capabilities, sn_children = [], sn_turn_generation = 0,
      sn_completed_generation = None\<rparr>"

definition sample_event :: "string \<Rightarrow> EventKind \<Rightarrow> NormalizedEvent" where
  "sample_event i k =
     \<lparr>ev_schema_version = 1, ev_event_id = i, ev_invocation_id = ''inv-1'',
      ev_provider_event_id = None, ev_provider = ''claude'', ev_observed_at = 5, ev_received_at = 5,
      ev_evidence = EventEvidence_managed_hook 1, ev_kind = k, ev_provider_session_id = None,
      ev_provider_session_name = None, ev_provider_session_start_reason = None,
      ev_provider_metadata = None, ev_usage = None, ev_turn_id = None, ev_tool_activity = None,
      ev_child_agent = None\<rparr>"

definition sample_child_event :: "string \<Rightarrow> EventKind \<Rightarrow> string \<Rightarrow> NormalizedEvent" where
  "sample_child_event i k child =
     (sample_event i k)\<lparr>ev_child_agent := Some \<lparr>ar_agent_id = child, ar_agent_type = ''worker''\<rparr>\<rparr>"

definition sample_reason :: StatusReasonContext where
  "sample_reason = \<lparr>sc_summary = ''run tests'', sc_source = Command\<rparr>"

lemmas sample_defs = sample_capabilities_def sample_process_def sample_snapshot_def
  sample_event_def sample_child_event_def sample_reason_def EventEvidence_managed_hook_def

end
