(* ===== verification/Reducer_Props.thy ===== *)
theory Reducer_Props
  imports Reducer_Lemmas Samples "HOL-Library.Multiset"
begin

text \<open>
  What the reducer promises: the invariant of a snapshot, the outcome of root and child events on
  every branch, expiry, and how a transition reaches the public view.
\<close>

section \<open>The snapshot invariant\<close>

definition wf_snapshot :: "InvocationSnapshot \<Rightarrow> bool" where
  "wf_snapshot s \<longleftrightarrow>
     sn_status s = derive_status (sn_lifecycle s) (sn_activity s)
     \<and> wf_children (sn_children s) \<and> wf_cursors (sn_source_ordering s)
     \<and> (ended (sn_lifecycle s) \<longrightarrow> sn_children s = [])"

lemma wf_snapshotD:
  assumes "wf_snapshot s"
  shows "sn_status s = derive_status (sn_lifecycle s) (sn_activity s)"
    and "wf_children (sn_children s)" and "wf_cursors (sn_source_ordering s)"
    and "ended (sn_lifecycle s) \<Longrightarrow> sn_children s = []"
  using assms by (auto simp: wf_snapshot_def)

lemma ended_simps [simp]: "ended Exited" "ended Lost" "\<not> ended Alive" "\<not> ended Starting"
  by (simp_all add: ended_def)

lemma derive_status_ended: "ended l \<Longrightarrow> derive_status l a = StatusStopped"
  by (auto simp: ended_def)

lemma restore_status: "wf_snapshot s \<Longrightarrow>
    s\<lparr>sn_status := derive_status (sn_lifecycle s) (sn_activity s)\<rparr> = s"
  by (simp add: wf_snapshot_def)

lemma evidence_authority [simp]: "ev_evidence (event_with_channel_authority e) = ev_evidence e"
  by (simp add: event_with_channel_authority_def split: EvidenceChannel.split)

lemma evidence_effective [simp]: "ev_evidence (effective_event s e) = ev_evidence e"
  by (simp add: effective_event_def Let_def)

text \<open>Root and child events, with the validation out of the way.\<close>

definition root_result :: "Prior \<Rightarrow> NormalizedEvent \<Rightarrow> StatusReasonContext option \<Rightarrow> Transition" where
  "root_result p e r =
     (let s = pri_snapshot p; eff = effective_event s e; sup = root_suppressed s e eff;
          s1 = (if sup then s else reduce s eff)
      in \<lparr>tr_snapshot = s1\<lparr>sn_status := derive_status (sn_lifecycle s1) (sn_activity s1)\<rparr>,
          tr_reason = reason_effect p (if sup then KEnrichment else ev_kind eff) r,
          tr_suppressed = sup\<rparr>)"

lemma apply_event_Inr_iff:
  "apply_event p e r = Inr t \<longleftrightarrow>
     validate_event e r = Inr () \<and>
     t = (case ev_child_agent e of Some c \<Rightarrow> apply_child_event p e c | None \<Rightarrow> root_result p e r)"
  by (cases "validate_event e r"; cases "ev_child_agent e")
    (auto simp: apply_event_def root_result_def Let_def)

lemma apply_event_rootE:
  assumes "apply_event p e r = Inr t" and "ev_child_agent e = None"
  obtains "t = root_result p e r" "validate_event e r = Inr ()"
  using assms by (simp add: apply_event_Inr_iff)

lemma apply_event_childE:
  assumes "apply_event p e r = Inr t" and "ev_child_agent e = Some c"
  obtains "t = apply_child_event p e c" "validate_event e r = Inr ()"
  using assms by (simp add: apply_event_Inr_iff)

lemma wf_reduce:
  assumes "wf_snapshot s"
  shows "wf_children (sn_children (reduce s e))" and "wf_cursors (sn_source_ordering (reduce s e))"
    and "ended (sn_lifecycle (reduce s e)) \<Longrightarrow> sn_children (reduce s e) = []"
  using wf_snapshotD [OF assms] by (auto simp: reduce_children_field intro: wf_record_cursor)

lemma wf_root_result:
  assumes "wf_snapshot (pri_snapshot p)"
  shows "wf_snapshot (tr_snapshot (root_result p e r))"
  using wf_reduce [OF assms] wf_snapshotD [OF assms]
  by (auto simp: root_result_def Let_def wf_snapshot_def)

lemma child_event_snapshot:
  "tr_snapshot (apply_child_event p e c) =
     (if tr_suppressed (apply_child_event p e c) then pri_snapshot p
      else (pri_snapshot p)
        \<lparr>sn_children := (if ended (sn_lifecycle (pri_snapshot p)) then sn_children (pri_snapshot p)
           else reduce_children (sn_children (pri_snapshot p)) (event_with_channel_authority e) c),
         sn_source_ordering := record_cursor (sn_source_ordering (pri_snapshot p)) (ev_evidence e)\<rparr>)"
  by (simp add: apply_child_event_def Let_def reduce_child_def record_source_order_def)

lemma wf_child_result:
  assumes "wf_snapshot (pri_snapshot p)"
  shows "wf_snapshot (tr_snapshot (apply_child_event p e c))"
  using wf_snapshotD [OF assms] assms
  by (auto simp: child_event_snapshot wf_snapshot_def intro: wf_reduce_children wf_record_cursor)

lemma wf_apply_event:
  "wf_snapshot (pri_snapshot p) \<Longrightarrow> apply_event p e r = Inr t \<Longrightarrow> wf_snapshot (tr_snapshot t)"
  by (auto simp: apply_event_Inr_iff wf_root_result wf_child_result split: option.splits)

lemma wf_mark_lost: "wf_snapshot (pri_snapshot p) \<Longrightarrow> wf_snapshot (tr_snapshot (mark_lost p))"
  by (simp add: mark_lost_def Let_def wf_snapshot_def)

lemma wf_expire:
  assumes "wf_snapshot (pri_snapshot p)" and "expire_stale_working p now = Some t"
  shows "wf_snapshot (tr_snapshot t)"
  using assms
  by (auto simp: expire_stale_working_def Let_def wf_snapshot_def wf_children_filter split: if_splits)

lemma wf_local_mutation:
  assumes "wf_snapshot (pri_snapshot p)"
    and "\<And>s. sn_children (f s) = sn_children s" and "\<And>s. sn_source_ordering (f s) = sn_source_ordering s"
  shows "wf_snapshot (tr_snapshot (local_mutation p c f))"
  using assms by (auto simp: local_mutation_def Let_def wf_snapshot_def)

section \<open>Helper lemmas on root events\<close>

lemma kind_authority: "ev_kind (event_with_channel_authority e) \<in> {ev_kind e, KEnrichment}"
  by (simp add: event_with_channel_authority_def split: EvidenceChannel.split)

lemma kind_effective: "ev_kind (effective_event s e) \<in> {ev_kind e, KEnrichment}"
  using kind_authority [of e] by (auto simp: effective_event_def Let_def)

lemma root_result_simps:
  "sn_activity (tr_snapshot (root_result p e r)) =
     (if tr_suppressed (root_result p e r) then sn_activity (pri_snapshot p)
      else kind_activity (pri_snapshot p) (ev_kind (effective_event (pri_snapshot p) e)))"
  "sn_lifecycle (tr_snapshot (root_result p e r)) =
     (if \<not> tr_suppressed (root_result p e r) \<and> ev_kind (effective_event (pri_snapshot p) e) = KSessionEnded
      then Exited else sn_lifecycle (pri_snapshot p))"
  "tr_suppressed (root_result p e r) =
     root_suppressed (pri_snapshot p) e (effective_event (pri_snapshot p) e)"
  "tr_reason (root_result p e r) =
     reason_effect p (if tr_suppressed (root_result p e r) then KEnrichment
        else ev_kind (effective_event (pri_snapshot p) e)) r"
  by (simp_all add: root_result_def Let_def)

lemma root_result_turn:
  "\<not> tr_suppressed (root_result p e r) \<Longrightarrow>
   sn_turn_generation (tr_snapshot (root_result p e r)) =
     sn_turn_generation (reduce (pri_snapshot p) (effective_event (pri_snapshot p) e))"
  "\<not> tr_suppressed (root_result p e r) \<Longrightarrow>
   sn_completed_generation (tr_snapshot (root_result p e r)) =
     sn_completed_generation (reduce (pri_snapshot p) (effective_event (pri_snapshot p) e))"
  by (simp_all add: root_result_def Let_def)

lemma suppressed_root_result:
  assumes "wf_snapshot (pri_snapshot p)" "tr_suppressed (root_result p e r)"
  shows "tr_snapshot (root_result p e r) = pri_snapshot p" and "tr_reason (root_result p e r) = Keep"
  using assms by (auto simp: root_result_def Let_def reason_effect_def restore_status)

lemma live_effective:
  assumes "\<not> ended (sn_lifecycle s)" and "ee_channel (ev_evidence e) \<in> {ManagedHook, SideChannel}"
  shows "ev_kind (effective_event s e) = ev_kind e"
  using assms by (auto simp: effective_event_def event_with_channel_authority_def Let_def)

text \<open>The definitions a concrete event is evaluated with.\<close>

lemmas event_eval = sample_defs validate_event_def validate_evidence_def trusted_evidence_def
  validate_tool_activity_def validate_child_agent_def root_result_simps root_suppressed_def
  effective_event_def event_with_channel_authority_def is_stale_source_order_def other_session_def
  other_turn_def turn_open_def authoritative_activity_def

text \<open>Applying a sequence of events as the store does: an error leaves the state as it was.\<close>

definition advance :: "Prior \<Rightarrow> NormalizedEvent \<times> StatusReasonContext option \<Rightarrow> Prior" where
  "advance p x =
     (case apply_event p (fst x) (snd x) of
        Inl _ \<Rightarrow> p
      | Inr t \<Rightarrow> \<lparr>pri_snapshot = tr_snapshot t,
                 pri_reason = ReasonEffect_resolve (tr_reason t) (pri_reason p)\<rparr>)"

definition apply_events ::
    "Prior \<Rightarrow> (NormalizedEvent \<times> StatusReasonContext option) list \<Rightarrow> Prior" where
  "apply_events p es = fold (\<lambda>x p. advance p x) es p"

lemma apply_events_invariant:
  assumes "I p" and "\<And>p x. x \<in> set es \<Longrightarrow> I p \<Longrightarrow> I (advance p x)"
  shows "I (apply_events p es)"
  using assms by (induction es arbitrary: p) (auto simp: apply_events_def)

text \<open>A turn that is over: completed, and neither running nor blocked.\<close>

definition turn_over :: "Prior \<Rightarrow> bool" where
  "turn_over p \<longleftrightarrow> \<not> turn_open (pri_snapshot p) \<and> sn_activity (pri_snapshot p) \<in> {Stopped, Idle}"

lemma turn_over_kind:
  assumes "\<not> turn_open s" "sn_activity s \<in> {Stopped, Idle}" "k \<noteq> KNewTurn"
  shows "kind_activity s k \<in> {Stopped, Idle}"
  using assms by (cases k) auto

lemma turn_over_root:
  assumes over: "turn_over p" and k: "ev_kind e \<noteq> KNewTurn"
  shows "turn_over p' \<or> pri_snapshot p' \<noteq> tr_snapshot (root_result p e r)"
proof (cases "tr_suppressed (root_result p e r)")
  case True
  with over show ?thesis
    by (auto simp: turn_over_def turn_open_def root_result_def Let_def)
next
  case False
  let ?k = "ev_kind (effective_event (pri_snapshot p) e)"
  have k': "?k \<noteq> KNewTurn" using k kind_effective [of "pri_snapshot p" e] by auto
  with over have "kind_activity (pri_snapshot p) ?k \<in> {Stopped, Idle}"
    unfolding turn_over_def by (intro turn_over_kind) auto
  moreover have "\<not> turn_open (tr_snapshot (root_result p e r))"
    using over k' root_result_turn [OF False]
    by (simp add: turn_over_def turn_open_def reduce_turn_generation reduce_completed_generation)
  ultimately show ?thesis
    using False by (auto simp: turn_over_def root_result_simps(1))
qed

lemma turn_over_advance:
  assumes "turn_over p" and "ev_kind (fst x) \<noteq> KNewTurn"
  shows "turn_over (advance p x)"
proof (cases "apply_event p (fst x) (snd x)")
  case (Inl a)
  with assms show ?thesis by (simp add: advance_def)
next
  case (Inr t)
  show ?thesis
  proof (cases "ev_child_agent (fst x)")
    case None
    with Inr have "t = root_result p (fst x) (snd x)" by (simp add: apply_event_Inr_iff)
    then show ?thesis
      using turn_over_root [OF assms, of "advance p x" "snd x"] Inr by (simp add: advance_def)
  next
    case (Some c)
    with Inr have "t = apply_child_event p (fst x) c" by (simp add: apply_event_Inr_iff)
    then show ?thesis
      using assms(1) Inr by (simp add: advance_def child_event_snapshot turn_over_def turn_open_def)
  qed
qed

section \<open>Properties\<close>

text \<open>
  (C9) Every accepted event keeps the snapshot invariant: the stored status is the one derived
  from lifecycle and activity, at most 32 children with distinct ids, at most 32 source cursors
  with distinct keys, and no children on an ended invocation. It holds after any sequence of
  events, rejected ones included.
\<close>

theorem events_keep_snapshot_invariant:
  assumes "wf_snapshot (pri_snapshot p)"
  shows "wf_snapshot (pri_snapshot (apply_events p es))"
  by (rule apply_events_invariant [where I = "\<lambda>p. wf_snapshot (pri_snapshot p)"])
    (use assms in \<open>auto simp: advance_def wf_apply_event split: sum.splits\<close>)

theorem events_keep_snapshot_invariant_witness:
  "wf_snapshot (pri_snapshot (apply_events \<lparr>pri_snapshot = sample_snapshot, pri_reason = None\<rparr>
     [(sample_event ''a'' KNewTurn, None), (sample_child_event ''b'' KWorking ''kid'', None)]))"
  by (rule events_keep_snapshot_invariant) code_simp




definition sequenced :: "u64 \<Rightarrow> NormalizedEvent \<Rightarrow> NormalizedEvent" where
  "sequenced n e = e\<lparr>ev_evidence := (ev_evidence e)\<lparr>ee_source_sequence := Some n\<rparr>\<rparr>"


text \<open>
  Channel authority: an accepted event of a provider artifact changes neither lifecycle,
  activity, turn bookkeeping, state timestamps nor the activity confirmation, and one of the
  process channel changes at most the lifecycle, to exited, and the children that end with it.
\<close>

theorem passive_channels_have_no_authority:
  assumes "ee_channel (ev_evidence e) \<in> {ProviderArtifact, ProcessObservation}"
    and "ev_child_agent e = None" and "apply_event p e r = Inr t"
  shows "sn_activity (tr_snapshot t) = sn_activity (pri_snapshot p)
    \<and> sn_turn_generation (tr_snapshot t) = sn_turn_generation (pri_snapshot p)
    \<and> sn_completed_generation (tr_snapshot t) = sn_completed_generation (pri_snapshot p)
    \<and> sn_state_started_at (tr_snapshot t) = sn_state_started_at (pri_snapshot p)
    \<and> sn_last_state_asserted_at (tr_snapshot t) = sn_last_state_asserted_at (pri_snapshot p)
    \<and> sn_activity_confirmation (tr_snapshot t) = sn_activity_confirmation (pri_snapshot p)
    \<and> (sn_lifecycle (tr_snapshot t) = sn_lifecycle (pri_snapshot p)
       \<or> ee_channel (ev_evidence e) = ProcessObservation \<and> ev_kind e = KSessionEnded
         \<and> sn_lifecycle (tr_snapshot t) = Exited)"
proof -
  let ?k = "ev_kind (effective_event (pri_snapshot p) e)"
  have t: "t = root_result p e r" using assms by (simp add: apply_event_Inr_iff)
  have k: "?k = KEnrichment
      \<or> ?k = KSessionEnded \<and> ev_kind e = KSessionEnded \<and> ee_channel (ev_evidence e) = ProcessObservation"
    using assms(1) by (auto simp: effective_event_def event_with_channel_authority_def Let_def)
  have na: "\<not> authoritative_activity ?k (ee_channel (ev_evidence e))"
    using assms(1) by (auto simp: authoritative_activity_def)
  show ?thesis
  proof (cases "tr_suppressed t")
    case True
    then show ?thesis unfolding t by (simp add: root_result_def Let_def)
  next
    case False
    then show ?thesis
      using k na unfolding t
      by (auto simp: root_result_def Let_def reduce_asserted reduce_turn_generation
          reduce_completed_generation)
  qed
qed

theorem passive_channels_have_no_authority_witness:
  "let e = (sample_event ''a'' KWorking)\<lparr>ev_evidence := EventEvidence_local ProviderArtifact\<rparr>
   in sn_activity (tr_snapshot (root_result \<lparr>pri_snapshot = sample_snapshot, pri_reason = None\<rparr> e None))
      = sn_activity sample_snapshot"
  using passive_channels_have_no_authority [of "(sample_event ''a'' KWorking)
      \<lparr>ev_evidence := EventEvidence_local ProviderArtifact\<rparr>"
      "\<lparr>pri_snapshot = sample_snapshot, pri_reason = None\<rparr>" None
      "root_result \<lparr>pri_snapshot = sample_snapshot, pri_reason = None\<rparr> ((sample_event ''a'' KWorking)
      \<lparr>ev_evidence := EventEvidence_local ProviderArtifact\<rparr>) None"]
  by (simp add: apply_event_Inr_iff validate_event_def validate_evidence_def trusted_evidence_def
      validate_tool_activity_def validate_child_agent_def sample_event_def EventEvidence_local_def)

text \<open>
  (C15) An ended invocation is final for events: whatever arrives, it stays ended, its activity,
  its empty child list and its current tool are never revived, and its status stays stopped.
\<close>

theorem ended_invocation_is_final:
  assumes wf: "wf_snapshot (pri_snapshot p)" and e: "ended (sn_lifecycle (pri_snapshot p))"
    and ok: "apply_event p e r = Inr t"
  shows "ended (sn_lifecycle (tr_snapshot t))
    \<and> sn_activity (tr_snapshot t) = sn_activity (pri_snapshot p)
    \<and> sn_children (tr_snapshot t) = [] \<and> sn_status (tr_snapshot t) = StatusStopped
    \<and> (sn_current_tool_activity (tr_snapshot t) = sn_current_tool_activity (pri_snapshot p)
       \<or> sn_current_tool_activity (tr_snapshot t) = None)"
proof (cases "ev_child_agent e")
  case (Some c)
  with ok wf_snapshotD [OF wf] e show ?thesis
    by (auto simp: apply_event_Inr_iff child_event_snapshot derive_status_ended)
next
  case None
  let ?eff = "effective_event (pri_snapshot p) e"
  have t: "t = root_result p e r" using ok None by (simp add: apply_event_Inr_iff)
  have tool: "ev_tool_activity ?eff = None"
    using e by (simp add: effective_event_def Let_def)
  have "ev_kind ?eff \<in> {KEnrichment, KProviderSessionEnded, KSessionEnded}"
  proof -
    have "authoritative_activity k ch \<or> k \<in> {KEnrichment, KProviderSessionEnded, KSessionEnded}"
      if "ch \<in> {ManagedHook, SideChannel}" for k ch
      using that by (cases k) (auto simp: authoritative_activity_def)
    then show ?thesis
      using e by (cases "ee_channel (ev_evidence e)")
        (auto simp: effective_event_def event_with_channel_authority_def Let_def)
  qed
  with e tool wf_snapshotD [OF wf] show ?thesis
    unfolding t by (auto simp: root_result_def Let_def reduce_children_field reduce_tool
        derive_status_ended)
qed

theorem ended_invocation_is_final_witness:
  "let s = sample_snapshot\<lparr>sn_lifecycle := Lost, sn_status := StatusStopped\<rparr>;
       t = root_result \<lparr>pri_snapshot = s, pri_reason = None\<rparr> (sample_event ''a'' KNewTurn) None
   in ended (sn_lifecycle (tr_snapshot t)) \<and> sn_status (tr_snapshot t) = StatusStopped"
  using ended_invocation_is_final [of "\<lparr>pri_snapshot = sample_snapshot\<lparr>sn_lifecycle := Lost,
      sn_status := StatusStopped\<rparr>, pri_reason = None\<rparr>" "sample_event ''a'' KNewTurn" None
      "root_result \<lparr>pri_snapshot = sample_snapshot\<lparr>sn_lifecycle := Lost,
      sn_status := StatusStopped\<rparr>, pri_reason = None\<rparr> (sample_event ''a'' KNewTurn) None"]
  by (simp add: apply_event_Inr_iff event_eval wf_snapshot_def wf_cursors_def Let_def)

text \<open>
  A child event is confined: it changes nothing of the invocation but its child list and its
  source cursors, and it never touches the status reason.
\<close>

theorem child_event_confined:
  assumes "ev_child_agent e = Some c" and "apply_event p e r = Inr t"
  shows "\<exists>cs os. tr_snapshot t = (pri_snapshot p)\<lparr>sn_children := cs, sn_source_ordering := os\<rparr>
    \<and> tr_reason t = Keep"
proof -
  have t: "t = apply_child_event p e c" using assms by (simp add: apply_event_Inr_iff)
  have "tr_snapshot t = (pri_snapshot p)
      \<lparr>sn_children := sn_children (tr_snapshot t), sn_source_ordering := sn_source_ordering (tr_snapshot t)\<rparr>"
    unfolding t by (simp add: child_event_snapshot)
  moreover have "tr_reason t = Keep"
    unfolding t by (simp add: apply_child_event_def Let_def)
  ultimately show ?thesis by blast
qed

theorem child_event_confined_witness:
  "\<exists>cs os. tr_snapshot (apply_child_event \<lparr>pri_snapshot = sample_snapshot, pri_reason = None\<rparr>
       (sample_child_event ''a'' KCompleted ''kid'') \<lparr>ar_agent_id = ''kid'', ar_agent_type = ''worker''\<rparr>)
     = sample_snapshot\<lparr>sn_children := cs, sn_source_ordering := os\<rparr>"
proof -
  let ?p = "\<lparr>pri_snapshot = sample_snapshot, pri_reason = None\<rparr>"
  let ?c = "\<lparr>ar_agent_id = ''kid'', ar_agent_type = ''worker''\<rparr>"
  have v: "validate_event (sample_child_event ''a'' KCompleted ''kid'') None = Inr ()" by code_simp
  have c: "ev_child_agent (sample_child_event ''a'' KCompleted ''kid'') = Some ?c"
    by (simp add: sample_defs)
  have ok: "apply_event ?p (sample_child_event ''a'' KCompleted ''kid'') None =
      Inr (apply_child_event ?p (sample_child_event ''a'' KCompleted ''kid'') ?c)"
    using v c by (simp add: apply_event_Inr_iff)
  show ?thesis using child_event_confined [OF c ok] by auto
qed

text \<open>
  Eviction is safe: when an event for one child removes the state of another, the list was
  full, the removed child had stopped, and no stopped child was older.
\<close>

theorem only_oldest_stopped_child_evicted:
  assumes wf: "wf_snapshot (pri_snapshot p)" and ok: "apply_event p e r = Inr t"
    and a: "ev_child_agent e = Some child"
    and c: "c \<in> set (sn_children (pri_snapshot p))" "c \<notin> set (sn_children (tr_snapshot t))"
    and other: "ca_agent_id c \<noteq> ar_agent_id child"
  shows "length (sn_children (pri_snapshot p)) = CHILD_AGENTS_MAX \<and> ca_activity c = ChildStopped
    \<and> (\<forall>d\<in>set (sn_children (pri_snapshot p)).
          ca_activity d = ChildStopped \<longrightarrow> \<not> older_child d c)"
proof -
  have t: "t = apply_child_event p e child" using ok a by (simp add: apply_event_Inr_iff)
  have "c \<notin> set (reduce_children (sn_children (pri_snapshot p)) (event_with_channel_authority e) child)"
    using c unfolding t by (auto simp: child_event_snapshot split: if_splits)
  from reduce_children_keeps [OF wf_snapshotD(2) [OF wf] c(1) other this] show ?thesis .
qed

definition full_children :: "ChildAgentState list" where
  "full_children = map (\<lambda>i. \<lparr>ca_agent_id = [char_of (65 + i)], ca_agent_type = ''worker'',
     ca_activity = (if i = 3 \<or> i = 5 then ChildStopped else ChildRunning), ca_reason = None,
     ca_started_at = int i, ca_updated_at = int i\<rparr>) [0..<32]"

theorem only_oldest_stopped_child_evicted_witness:
  "ca_activity (full_children ! 3) = ChildStopped
   \<and> \<not> older_child (full_children ! 5) (full_children ! 3)"
proof -
  let ?p = "\<lparr>pri_snapshot = sample_snapshot\<lparr>sn_children := full_children\<rparr>, pri_reason = None\<rparr>"
  let ?e = "sample_child_event ''a'' KWorking ''new''"
  let ?c = "\<lparr>ar_agent_id = ''new'', ar_agent_type = ''worker''\<rparr>"
  have c: "ev_child_agent ?e = Some ?c" by (simp add: sample_defs)
  have "validate_event ?e None = Inr ()" by code_simp
  with c have ok: "apply_event ?p ?e None = Inr (apply_child_event ?p ?e ?c)"
    by (simp add: apply_event_Inr_iff)
  have kids: "wf_children full_children" "full_children ! 3 \<in> set full_children"
      "full_children ! 3 \<notin> set (reduce_children full_children ?e ?c)"
      "ca_agent_id (full_children ! 3) \<noteq> ''new''" "full_children ! 5 \<in> set full_children"
      "ca_activity (full_children ! 5) = ChildStopped"
    by code_simp+
  have wf: "wf_snapshot (pri_snapshot ?p)"
    using kids(1) by (simp add: wf_snapshot_def sample_defs wf_cursors_def)
  have "\<not> tr_suppressed (apply_child_event ?p ?e ?c)" "event_with_channel_authority ?e = ?e"
      "\<not> ended (sn_lifecycle (pri_snapshot ?p))"
    by (simp_all add: apply_child_event_def Let_def event_eval)
  with kids(3) have "full_children ! 3 \<notin> set (sn_children (tr_snapshot (apply_child_event ?p ?e ?c)))"
    by (simp add: child_event_snapshot)
  with only_oldest_stopped_child_evicted [OF wf ok c] kids show ?thesis by simp
qed

text \<open>
  A blocked agent says why: an approval or input request with a context, accepted from an
  authoritative channel on a live invocation, makes the public status blocked and shows the
  reason of that kind with the given summary.
\<close>

theorem waiting_event_shows_reason:
  assumes alive: "sn_lifecycle (pri_snapshot p) = Alive" and opn: "turn_open (pri_snapshot p)"
    and ok: "apply_event p e (Some c) = Inr t" and acc: "\<not> tr_suppressed t"
    and root: "ev_child_agent e = None"
    and k: "ev_kind e = KWaitingApproval \<and> kind = ReasonApproval \<or> ev_kind e = KWaitingInput \<and> kind = ReasonInput"
    and chan: "ee_channel (ev_evidence e) \<in> {ManagedHook, SideChannel}"
  shows "let v = project_public (tr_snapshot t) (ReasonEffect_resolve (tr_reason t) (pri_reason p))
    in pv_status v = StatusBlocked \<and> pv_reason v = Some \<lparr>pr_kind = kind, pr_summary = sc_summary c\<rparr>"
proof -
  have t: "t = root_result p e (Some c)" using ok root by (simp add: apply_event_Inr_iff)
  have "ev_kind (effective_event (pri_snapshot p) e) = ev_kind e"
    by (rule live_effective) (use alive chan in auto)
  with acc k alive opn show ?thesis
    unfolding t by (auto simp: root_result_simps Let_def project_public_reason reason_effect_def)
qed

theorem waiting_event_shows_reason_witness:
  "let t = root_result \<lparr>pri_snapshot = sample_snapshot, pri_reason = None\<rparr>
         (sample_event ''a'' KWaitingApproval) (Some sample_reason)
   in pv_status (project_public (tr_snapshot t) (ReasonEffect_resolve (tr_reason t) None)) = StatusBlocked"
proof -
  let ?p = "\<lparr>pri_snapshot = sample_snapshot, pri_reason = None\<rparr>"
  have "validate_event (sample_event ''a'' KWaitingApproval) (Some sample_reason) = Inr ()" by code_simp
  then have ok: "apply_event ?p (sample_event ''a'' KWaitingApproval) (Some sample_reason) =
      Inr (root_result ?p (sample_event ''a'' KWaitingApproval) (Some sample_reason))"
    by (simp add: apply_event_Inr_iff sample_event_def)
  show ?thesis
    using waiting_event_shows_reason [OF _ _ ok, of ReasonApproval]
    by (simp add: event_eval Let_def)
qed

text \<open>
  A reason never contradicts the status: whatever reason is stored, the projection shows an
  input or approval reason only on a blocked agent and a completed or failed one only on a
  stopped agent.
\<close>

theorem public_reason_matches_status:
  "case pv_reason (project_public s r) of
     None \<Rightarrow> True
   | Some x \<Rightarrow> pv_status (project_public s r) =
       (if pr_kind x \<in> {ReasonInput, ReasonApproval} then StatusBlocked else StatusStopped)"
proof (cases r)
  case (Some x)
  then show ?thesis
    by (cases "derive_status (sn_lifecycle s) (sn_activity s)"; cases "rs_kind x")
      (simp_all add: project_public_reason)
qed (simp add: project_public_reason)

text \<open>
  What the reducer accepts: an event is valid exactly when its channel and trust agree and
  every free text it carries is bounded and free of control characters. The
  separate limit of 512 bytes on a reason adds nothing to its limit of 128 characters.
\<close>

theorem validate_event_accepts_iff:
  "validate_event e r = Inr () \<longleftrightarrow>
    trusted_evidence (ev_evidence e)
    \<and> is_none_or (normalized_text COLLECTOR_INSTANCE_ID_MAX_CHARS) (ee_collector_instance_id (ev_evidence e))
    \<and> is_none_or (\<lambda>u. normalized_text TOOL_LABEL_MAX_CHARS (tu_label u)
        \<and> is_none_or (normalized_text TOOL_CORRELATION_ID_MAX_CHARS) (tu_correlation_id u)
        \<and> is_none_or (normalized_text TOOL_DETAIL_MAX_CHARS) (tu_detail u)) (ev_tool_activity e)
    \<and> is_none_or (\<lambda>c. normalized_text CHILD_AGENT_ID_MAX_CHARS (ar_agent_id c)
        \<and> normalized_text CHILD_AGENT_TYPE_MAX_CHARS (ar_agent_type c)) (ev_child_agent e)
    \<and> is_none_or (\<lambda>c. normalized_text STATUS_REASON_MAX_CHARS (sc_summary c)) r"
proof -
  have bytes: "is_none_or (\<lambda>c. normalized_text STATUS_REASON_MAX_CHARS (sc_summary c)) r \<longleftrightarrow>
      \<not> is_some_and (\<lambda>c. sc_summary c = [] \<or> length (sc_summary c) > STATUS_REASON_MAX_BYTES
        \<or> length (chars (sc_summary c)) > STATUS_REASON_MAX_CHARS \<or> has_control (sc_summary c)) r"
  proof (cases r)
    case (Some c)
    then show ?thesis
      using length_le_chars [of "sc_summary c"]
      by (auto simp: normalized_text_def STATUS_REASON_MAX_CHARS_def STATUS_REASON_MAX_BYTES_def)
  qed simp
  have evidence: "validate_evidence v = Inr () \<longleftrightarrow> trusted_evidence v
      \<and> is_none_or (normalized_text COLLECTOR_INSTANCE_ID_MAX_CHARS) (ee_collector_instance_id v)" for v
    by (cases "ee_collector_instance_id v") (auto simp: validate_evidence_def normalized_text_def)
  have tool: "validate_tool_activity e = Inr () \<longleftrightarrow>
      is_none_or (\<lambda>u. normalized_text TOOL_LABEL_MAX_CHARS (tu_label u)
        \<and> is_none_or (normalized_text TOOL_CORRELATION_ID_MAX_CHARS) (tu_correlation_id u)
        \<and> is_none_or (normalized_text TOOL_DETAIL_MAX_CHARS) (tu_detail u)) (ev_tool_activity e)"
  proof (cases "ev_tool_activity e")
    case (Some u)
    then show ?thesis
      by (cases "tu_correlation_id u"; cases "tu_detail u")
        (auto simp: validate_tool_activity_def normalized_text_def)
  qed (simp add: validate_tool_activity_def)
  have child: "validate_child_agent e = Inr () \<longleftrightarrow>
      is_none_or (\<lambda>c. normalized_text CHILD_AGENT_ID_MAX_CHARS (ar_agent_id c)
        \<and> normalized_text CHILD_AGENT_TYPE_MAX_CHARS (ar_agent_type c)) (ev_child_agent e)"
    by (cases "ev_child_agent e") (auto simp: validate_child_agent_def)
  show ?thesis
    by (simp add: validate_event_def result_bind_Inr flip: tool child) (simp add: bytes evidence)
qed

text \<open>
  Every visible change is announced and nothing else is: the finalized transition reports
  the empty set of changed fields exactly when the public view is the prior one, it reports the
  fields in which the two views differ, and it moves the update time only when something changed.
\<close>

theorem finalize_reports_changes:
  assumes "finalize prior s reason now = (s', view, changed)"
  shows "(changed = {} \<longleftrightarrow> view = prior) \<and> view = project_public s' reason
    \<and> changed = changed_public_fields (Some prior) view
    \<and> (if project_public s reason = prior then s' = s else s' = s\<lparr>sn_updated_at := now\<rparr>)"
proof -
  have "changed = changed_public_fields (Some prior) view" "view = project_public s' reason"
      "if project_public s reason = prior then s' = s else s' = s\<lparr>sn_updated_at := now\<rparr>"
    using assms by (auto simp: finalize_def Let_def changed_Some_empty_iff split: if_splits)
  then show ?thesis by (simp add: changed_Some_empty_iff) auto
qed

theorem finalize_reports_changes_witness:
  "let (s', view, changed) = finalize (project_public sample_snapshot None)
         (sample_snapshot\<lparr>sn_activity := Working\<rparr>) None 9
   in changed \<noteq> {} \<and> sn_updated_at s' = 9"
proof -
  let ?s = "sample_snapshot\<lparr>sn_activity := Working\<rparr>"
  obtain s' view changed where f: "finalize (project_public sample_snapshot None) ?s None 9 = (s', view, changed)"
    by (cases "finalize (project_public sample_snapshot None) ?s None 9") auto
  have ne: "project_public ?s None \<noteq> project_public sample_snapshot None"
    by (simp add: project_public_def sample_defs Let_def)
  have "pv_status view = StatusRunning"
    using finalize_reports_changes [OF f] ne by (simp add: sample_defs)
  then have "view \<noteq> project_public sample_snapshot None"
    by (auto simp: sample_defs)
  then have "changed \<noteq> {}" "s' = ?s\<lparr>sn_updated_at := 9\<rparr>"
    using finalize_reports_changes [OF f] ne by auto
  with f show ?thesis by simp
qed

text \<open>
  Expiry: it acts exactly when the invocation or one of its running children has shown no
  sign of work for thirty minutes, and it leaves nothing stale behind. An expired invocation is
  idle with no reason and no current tool, and children that are not stale are untouched.
\<close>

theorem expire_clears_staleness:
  "case expire_stale_working p now of
     None \<Rightarrow> \<not> is_stale (pri_snapshot p) now
   | Some t \<Rightarrow> is_stale (pri_snapshot p) now \<and> \<not> is_stale (tr_snapshot t) now
       \<and> sn_children (tr_snapshot t) = filter (\<lambda>c. \<not> is_stale_child c now) (sn_children (pri_snapshot p))
       \<and> (if is_stale_working (pri_snapshot p) now
          then sn_status (tr_snapshot t) = StatusIdle \<and> tr_reason t = Clear
               \<and> sn_current_tool_activity (tr_snapshot t) = None
          else tr_snapshot t = (pri_snapshot p)\<lparr>sn_children := sn_children (tr_snapshot t)\<rparr>
               \<and> tr_reason t = Keep)"
  by (auto simp: expire_stale_working_def Let_def is_stale_def has_stale_children_def
      is_stale_working_def list_ex_iff)

text \<open>
  Provider sessions: an accepted root event that names a session leaves exactly that session
  on the snapshot. A different session drops the children and the usage of the old one and raises
  the generation by one, up to the largest 64-bit value; the same session keeps its generation.
\<close>

theorem session_switch:
  assumes ok: "apply_event p e r = Inr t" and acc: "\<not> tr_suppressed t"
    and root: "ev_child_agent e = None"
    and i: "ev_provider_session_id (effective_event (pri_snapshot p) e) = Some i"
    and prior: "sn_provider_session (pri_snapshot p) = Some q"
  shows "\<exists>q'. sn_provider_session (tr_snapshot t) = Some q' \<and> ps_id q' = i
    \<and> unat (ps_generation q') =
        (if ps_id q = i then unat (ps_generation q) else min (unat (ps_generation q) + 1) (2 ^ 64 - 1))
    \<and> (ps_id q \<noteq> i \<longrightarrow> sn_children (tr_snapshot t) = [] \<and> sn_usage (tr_snapshot t) =
         ev_usage (effective_event (pri_snapshot p) e))"
proof -
  let ?eff = "effective_event (pri_snapshot p) e"
  have t: "t = root_result p e r" using ok root by (simp add: apply_event_Inr_iff)
  have new: "new_session (pri_snapshot p) ?eff \<longleftrightarrow> ps_id q \<noteq> i"
    using i prior by (simp add: new_session_def)
  have session: "sn_provider_session (tr_snapshot t) = Some (next_session (Some q) i ?eff)"
    and kids: "sn_children (tr_snapshot t) = sn_children (reduce (pri_snapshot p) ?eff)"
    and usage: "sn_usage (tr_snapshot t) = sn_usage (reduce (pri_snapshot p) ?eff)"
    using acc i prior unfolding t by (auto simp: root_result_def Let_def reduce_session_field)
  show ?thesis
    using new session kids usage
    by (auto simp: next_session_def Let_def reduce_children_field reduce_usage_field
        unat_saturating_add)
qed

theorem session_switch_witness:
  "let s = sample_snapshot\<lparr>sn_provider_session := Some \<lparr>ps_id = ''old'', ps_name = None,
         ps_generation = 4, ps_start_reason = None\<rparr>\<rparr>;
       e = (sample_event ''a'' KProviderSessionStarted)\<lparr>ev_provider_session_id := Some ''new''\<rparr>;
       t = root_result \<lparr>pri_snapshot = s, pri_reason = None\<rparr> e None
   in \<exists>q. sn_provider_session (tr_snapshot t) = Some q \<and> ps_id q = ''new'' \<and> unat (ps_generation q) = 5"
proof -
  let ?q = "\<lparr>ps_id = ''old'', ps_name = None, ps_generation = 4, ps_start_reason = None\<rparr>"
  let ?p = "\<lparr>pri_snapshot = sample_snapshot\<lparr>sn_provider_session := Some ?q\<rparr>, pri_reason = None\<rparr>"
  let ?e = "(sample_event ''a'' KProviderSessionStarted)\<lparr>ev_provider_session_id := Some ''new''\<rparr>"
  have ok: "apply_event ?p ?e None = Inr (root_result ?p ?e None)"
    and acc: "\<not> tr_suppressed (root_result ?p ?e None)" and root: "ev_child_agent ?e = None"
    and i: "ev_provider_session_id (effective_event (pri_snapshot ?p) ?e) = Some ''new''"
    by (simp_all add: apply_event_Inr_iff event_eval)
  show ?thesis using session_switch [OF ok acc root i, of ?q] by auto
qed

text \<open>
  The public child list is the child list: sorted by start time and id, with every child
  once, and absent exactly when there is no child.
\<close>

theorem project_children_sorted:
  "case project_children cs of
     None \<Rightarrow> cs = []
   | Some vs \<Rightarrow> vs \<noteq> [] \<and> mset vs = mset (map child_view cs)
       \<and> sorted (map (\<lambda>v. (cv_started_at v, cv_agent_id v)) vs)"
proof -
  have "sort_key f xs = [] \<longleftrightarrow> xs = []" for f :: "PublicChildAgentView \<Rightarrow> int \<times> string" and xs
    by (metis length_0_conv length_sort)
  then show ?thesis by (simp add: project_children_def)
qed

end
