(* ===== verification/Protocol.thy ===== *)
theory Protocol
  imports Domain
begin

text \<open>
  Wire types of \<^verbatim>\<open>sessiontap-core/src/protocol.rs\<close> and the token comparison of
  \<^verbatim>\<open>sessiontap-infra/src/token.rs\<close>. An envelope is the value both sides of the wire
  agree on; its JSON text is the work of serde.
\<close>

definition HUB_SCHEMA_VERSION :: u32 where "HUB_SCHEMA_VERSION = 1"

record SourceIdentity =
  si_id :: string
  si_display_name :: "string option"

record SourceSnapshot =
  ss_schema_version :: u32
  ss_source :: SourceIdentity
  ss_revision :: nat
  ss_views :: "PublicAgentView list"

record SourceUpdate =
  su_schema_version :: u32
  su_source_id :: string
  su_delivery_id :: string
  su_revision :: nat
  su_changed :: "PublicField set"
  su_view :: PublicAgentView

datatype SourceEnvelope = SourceEnvelopeSnapshot SourceSnapshot | SourceEnvelopeUpdate SourceUpdate

datatype Request =
    ReqHealth
  | ReqRegister InvocationSnapshot string
  | ReqBindChild InvocationId string u32 "string option"
  | ReqLifecycleExit InvocationId string "i32 option" "i32 option"
  | ReqHookIngest string InvocationId string NormalizedEvent "StatusReasonContext option"
      "ArtifactCollectionContext option"
  | ReqStatus
  | ReqListen
  | ReqCapture InvocationId
  | ReqTerminalWatch InvocationId
  | ReqTerminalInput InvocationId TerminalInput

record ErrorEnvelope =
  er_code :: string
  er_message :: string

datatype Response =
    RespOk
  | RespHealth u32
  | RespStatus nat "PublicAgentView list"
  | RespCaptured string
  | RespError ErrorEnvelope

datatype StreamEnvelope =
    StreamSnapshot u32 nat "PublicAgentView list"
  | StreamUpdate u32 nat string "PublicField set" PublicAgentView

definition RELAY_PROTOCOL_VERSION :: u32 where "RELAY_PROTOCOL_VERSION = 1"

datatype RelayRequest =
    RelayOpen u64 u64 string
  | RelayInput u64 u64 TerminalInput
  | RelayClose u64
  | RelayResync u64

datatype RelayMessage =
    RelayHello string u32
  | RelayOpened u64 u64
  | RelayError u64 string string
  | RelayInputResult u64 "string option"
  | RelayFrame u64 TerminalFrame

section \<open>Token comparison\<close>

unbundle bit_operations_syntax

definition constant_time_eq :: "u8 list \<Rightarrow> u8 list \<Rightarrow> bool" where
  "constant_time_eq a b \<longleftrightarrow>
     (if length a \<noteq> length b then False
      else fold (\<lambda>(x, y) acc. acc OR (x XOR y)) (zip a b) 0 = 0)"

definition as_bytes :: "string \<Rightarrow> u8 list" where
  "as_bytes s = map (\<lambda>c. of_nat (byte c)) s"

lemma or_zero_iff: "x OR y = 0 \<longleftrightarrow> x = 0 \<and> y = 0" for x y :: u8
  by (auto simp: bit_eq_iff bit_or_iff)

lemma fold_or_zero:
  "fold (\<lambda>(x, y) acc. acc OR (x XOR y)) ps acc = 0 \<longleftrightarrow> acc = 0 \<and> (\<forall>(x, y)\<in>set ps. x = y)"
  for acc :: u8
proof (induction ps arbitrary: acc)
  case (Cons p ps)
  have "x XOR y = 0 \<longleftrightarrow> x = y" for x y :: u8
    by (auto simp: bit_eq_iff bit_xor_iff)
  with Cons show ?case by (cases p) (auto simp: or_zero_iff)
qed simp

lemma constant_time_eq_iff: "constant_time_eq a b \<longleftrightarrow> a = b"
proof (cases "length a = length b")
  case True
  then show ?thesis
    by (auto simp: constant_time_eq_def fold_or_zero list_eq_iff_zip_eq)
next
  case False
  then show ?thesis by (auto simp: constant_time_eq_def)
qed

lemma as_bytes_inject [simp]: "as_bytes s = as_bytes t \<longleftrightarrow> s = t"
proof -
  have "unat (of_nat (byte c) :: u8) = byte c" for c
    by (simp add: byte_def unsigned_of_nat take_bit_nat_eq_self)
  then have "inj (\<lambda>c. of_nat (byte c) :: u8)"
    by (intro injI) (metis byte_def of_char_eq_iff)
  then show ?thesis by (simp add: as_bytes_def inj_map_eq_map)
qed

text \<open>
  Comparing tokens without an early exit is comparing them: the accumulated difference is
  zero exactly for equal byte strings.
\<close>

theorem constant_time_eq_correct:
  "constant_time_eq (as_bytes s) (as_bytes t) \<longleftrightarrow> s = t"
  by (simp add: constant_time_eq_iff)

end
