(* ===== verification/Config.thy ===== *)
theory Config
  imports Protocol
begin

text \<open>
  The part of \<^verbatim>\<open>sessiontap-core/src/config.rs\<close> that the broker acts on: daemon tuning and
  sinks. Durations are in nanoseconds, as timestamps are.
\<close>

section \<open>Daemon tuning\<close>

record DaemonConfig =
  dc_collection_workers :: nat
  dc_sink_poll_ms :: nat
  dc_outbox_batch :: nat
  dc_stale_sweep_secs :: nat
  dc_update_buffer :: nat
  dc_max_rejected_attempts :: nat

definition DaemonConfig_default :: DaemonConfig where
  "DaemonConfig_default =
     \<lparr>dc_collection_workers = 4, dc_sink_poll_ms = 250, dc_outbox_batch = 100,
      dc_stale_sweep_secs = 60, dc_update_buffer = 1024, dc_max_rejected_attempts = 16\<rparr>"

definition sink_poll :: "DaemonConfig \<Rightarrow> int" where
  "sink_poll c = int (dc_sink_poll_ms c) * 1000000"

definition stale_sweep :: "DaemonConfig \<Rightarrow> int" where
  "stale_sweep c = seconds (int (dc_stale_sweep_secs c))"

fun first_zero :: "(string \<times> nat) list \<Rightarrow> string option" where
  "first_zero [] = None"
| "first_zero ((key, v) # rest) = (if v = 0 then Some key else first_zero rest)"

definition DaemonConfig_validate :: "DaemonConfig \<Rightarrow> string + unit" where
  "DaemonConfig_validate c =
     (case first_zero
         [(''collection_workers'', dc_collection_workers c),
          (''sink_poll_ms'', dc_sink_poll_ms c),
          (''outbox_batch'', dc_outbox_batch c),
          (''stale_sweep_secs'', dc_stale_sweep_secs c),
          (''update_buffer'', dc_update_buffer c),
          (''max_rejected_attempts'', dc_max_rejected_attempts c)] of
        Some key \<Rightarrow> Inl (''daemon.'' @ key @ '' must be at least 1'')
      | None \<Rightarrow>
          if dc_sink_poll_ms c > 60000 then Inl ''daemon.sink_poll_ms must be at most 60000''
          else Inr ())"

section \<open>Sinks\<close>

record CustomAdapter =
  cu_executable :: string
  cu_inherits :: string

record StdoutSink =
  ks_enabled :: bool
  ks_fields :: "string list"
  ks_control :: "bool option"

record HttpSink =
  kh_enabled :: bool
  kh_url :: string
  kh_token_env :: "string option"
  kh_token_file :: "string option"
  kh_timeout_ms :: nat
  kh_max_payload_bytes :: nat
  kh_fields :: "string list"
  kh_control :: "bool option"

record HubSink =
  kb_enabled :: bool
  kb_url :: string
  kb_token_env :: "string option"
  kb_token_file :: "string option"
  kb_timeout_ms :: nat
  kb_max_payload_bytes :: nat
  kb_trusted_addresses :: "string list"
  kb_control :: bool
  kb_fields :: "string list"

datatype SinkConfig = SinkStdout StdoutSink | SinkHttp HttpSink | SinkHub HubSink

definition default_timeout_ms :: nat where "default_timeout_ms = 3000"
definition default_payload_limit :: nat where "default_payload_limit = 256 * 1024"

fun SinkConfig_enabled :: "SinkConfig \<Rightarrow> bool" where
  "SinkConfig_enabled (SinkStdout s) = ks_enabled s"
| "SinkConfig_enabled (SinkHttp s) = kh_enabled s"
| "SinkConfig_enabled (SinkHub s) = kb_enabled s"

fun SinkConfig_timeout :: "SinkConfig \<Rightarrow> int" where
  "SinkConfig_timeout (SinkHttp s) = int (kh_timeout_ms s) * 1000000"
| "SinkConfig_timeout (SinkHub s) = int (kb_timeout_ms s) * 1000000"
| "SinkConfig_timeout (SinkStdout s) = 0"

fun SinkConfig_fields :: "SinkConfig \<Rightarrow> string list" where
  "SinkConfig_fields (SinkStdout s) = ks_fields s"
| "SinkConfig_fields (SinkHttp s) = kh_fields s"
| "SinkConfig_fields (SinkHub s) = []"

definition PublicField_ALL :: "PublicField list" where
  "PublicField_ALL = [FInvocationId, FProvider, FStatus, FReason, FCwd, FCreatedAt, FUpdatedAt,
     FSession, FMetadata, FUsage, FRepository, FChildren, FTerminal]"

fun collect_fields :: "string list \<Rightarrow> string + PublicField set" where
  "collect_fields [] = Inr {}"
| "collect_fields (name # names) =
     (case List.find (\<lambda>f. PublicField_as_str f = name) PublicField_ALL of
        None \<Rightarrow> Inl (''unknown public field '' @ [CHR 0x27] @ name @ [CHR 0x27])
      | Some f \<Rightarrow> result_bind (collect_fields names) (\<lambda>fs. Inr (insert f fs)))"

definition SinkConfig_public_fields :: "SinkConfig \<Rightarrow> string + PublicField set" where
  "SinkConfig_public_fields c = collect_fields (SinkConfig_fields c)"

fun controls_terminals :: "SinkConfig \<Rightarrow> bool" where
  "controls_terminals (SinkHub s) = (kb_enabled s \<and> kb_control s)"
| "controls_terminals _ = False"

fun is_hub :: "SinkConfig \<Rightarrow> bool" where
  "is_hub (SinkHub s) = True"
| "is_hub _ = False"

fun SinkConfig_max_payload_bytes :: "SinkConfig \<Rightarrow> nat" where
  "SinkConfig_max_payload_bytes (SinkHttp s) = kh_max_payload_bytes s"
| "SinkConfig_max_payload_bytes (SinkHub s) = kb_max_payload_bytes s"
| "SinkConfig_max_payload_bytes (SinkStdout s) = default_payload_limit"

interpretation field_names: text_enum PublicField_ALL PublicField_as_str
  by unfold_locales code_simp

lemma daemon_validate_ok_iff:
  "DaemonConfig_validate c = Inr () \<longleftrightarrow>
     dc_collection_workers c > 0 \<and> 0 < dc_sink_poll_ms c \<and> dc_sink_poll_ms c \<le> 60000
     \<and> dc_outbox_batch c > 0 \<and> dc_stale_sweep_secs c > 0 \<and> dc_update_buffer c > 0
     \<and> dc_max_rejected_attempts c > 0"
  by (auto simp: DaemonConfig_validate_def)

lemma in_PublicField_ALL: "f \<in> set PublicField_ALL"
  by (cases f) (simp_all add: PublicField_ALL_def)

text \<open>A field selection resolves exactly when every name is known, to the fields named.\<close>

lemma collect_fields_Inr_iff:
  "collect_fields names = Inr fs \<longleftrightarrow>
     set names \<subseteq> range PublicField_as_str \<and> fs = {f. PublicField_as_str f \<in> set names}"
proof (induction names arbitrary: fs)
  case (Cons n ns)
  show ?case
  proof (cases "List.find (\<lambda>f. PublicField_as_str f = n) PublicField_ALL")
    case None
    then have "n \<notin> range PublicField_as_str"
      using in_PublicField_ALL by (auto simp: field_names.parse_None)
    with None show ?thesis by auto
  next
    case (Some f)
    then have f: "PublicField_as_str f = n"
      by (simp add: field_names.parse_iff)
    then have "n \<in> range PublicField_as_str" by auto
    moreover have "PublicField_as_str g = n \<longleftrightarrow> g = f" for g
      using Some f in_PublicField_ALL [of g] by (metis field_names.parse_iff option.inject)
    ultimately show ?thesis
      using Some f Cons.IH by (auto simp: result_bind_Inr)
  qed
qed auto

end
