(* ===== verification/Storage.thy ===== *)
theory Storage
  imports Reducer Config
begin

text \<open>
  The broker's store, \<^verbatim>\<open>sessiontap-storage/src/lib.rs\<close>. A table is the list of its rows in
  \<open>rowid\<close> order with its primary key as a projection (see \<open>Tables\<close>), and the database
  is a record of tables. A function that runs in one transaction returns an error or the database
  it commits with its result; an error rolls the transaction back, so the caller goes on with the
  database it had. A column that holds JSON text is modelled by the value the text decodes to, or
  \<open>None\<close> for text that does not decode. Text timestamps in RFC 3339 form with a common
  offset compare as the instants they denote, so the columns hold instants. Integer columns are
  63 bits wide (the sign excluded): a revision or generation outside that range is an error, as it is in the driver.

  Two encoders belong to serde and are parameters: \<open>cd_envelope\<close> is the payload of a source
  envelope, and \<open>cd_reason\<close> the text of a reason, whose length the table checks (the \<open>kind\<close> column of a reason
  row repeats the kind inside that text and is left out). Readings of
  the clock are arguments: \<open>now\<close> where the source passes a time on, \<open>wall\<close> for the
  readings a transaction takes itself.
\<close>

section \<open>Tables\<close>

record InvocationRow =
  ir_invocation_id :: string
  ir_provider :: string
  ir_credential :: string
  ir_snapshot_json :: "InvocationSnapshot option"
  ir_stopped_at :: "timestamp option"
  ir_turn_generation :: u64
  ir_completed_generation :: "u64 option"

record NormalizedEventRow =
  nr_event_id :: string
  nr_invocation_id :: string
  nr_revision :: nat
  nr_received_at :: timestamp
  nr_event :: NormalizedEvent

record DedupRow =
  dd_event_id :: string
  dd_committed_at :: timestamp

record OutboxRow =
  ob_sink_name :: string
  ob_event_id :: string
  ob_revision :: nat
  ob_payload :: "u8 list"
  ob_attempts :: nat
  ob_next_attempt_at :: timestamp

record ReasonRow =
  rr_invocation_id :: string
  rr_reason :: "CurrentStatusReason option"
  rr_updated_at :: timestamp

record HubSinkRow =
  hs_sink_name :: string
  hs_snapshot_revision :: "nat option"

record Db =
  db_revision :: nat
  db_invocations :: "InvocationRow list"
  db_events :: "NormalizedEventRow list"
  db_dedup :: "DedupRow list"
  db_outbox :: "OutboxRow list"
  db_reasons :: "ReasonRow list"
  db_hub_sinks :: "HubSinkRow list"

definition Db_empty :: Db where
  "Db_empty = \<lparr>db_revision = 0, db_invocations = [], db_events = [], db_dedup = [],
     db_outbox = [], db_reasons = [], db_hub_sinks = []\<rparr>"

definition MAX_OUTBOX_RECORDS_PER_SINK :: nat where "MAX_OUTBOX_RECORDS_PER_SINK = 1024"

definition outbox_key :: "OutboxRow \<Rightarrow> string \<times> string" where
  "outbox_key r = (ob_sink_name r, ob_event_id r)"

datatype StorageError = UnknownInvocation | InvalidCredential | IncompatibleState | BadReasonJson
  | RevisionOverflow | GenerationOverflow | ReasonTooLong | DuplicateEvent | Rejected ReducerError
  | TimeOutOfRange | NoSnapshot

record Codec =
  cd_envelope :: "SourceEnvelope \<Rightarrow> u8 list"
  cd_reason :: "CurrentStatusReason \<Rightarrow> string"

record Publish =
  pb_sinks :: "(string \<times> SinkConfig) list"
  pb_source_id :: string
  pb_source_name :: "string option"

record OutboxRecord =
  or_sink_name :: string
  or_event_id :: string
  or_payload :: "u8 list"
  or_attempts :: nat

record AppliedUpdate =
  au_revision :: nat
  au_delivery_id :: string
  au_view :: PublicAgentView
  au_changed :: "PublicField set"

datatype Delivery = DeliveryEvent string | DeliverySynthetic string

record Committed =
  cm_revision :: nat
  cm_update :: "AppliedUpdate option"

section \<open>Inside a transaction\<close>

definition synthetic_event_id :: "string \<Rightarrow> InvocationId \<Rightarrow> nat \<Rightarrow> string" where
  "synthetic_event_id label i revision =
     ''synthetic:'' @ label @ '':'' @ i @ '':'' @ show_nat revision"

definition next_revision :: "Db \<Rightarrow> StorageError + Db \<times> nat" where
  "next_revision db =
     (if db_revision db + 1 < 2 ^ 63
      then Inr (db\<lparr>db_revision := db_revision db + 1\<rparr>, db_revision db + 1)
      else Inl RevisionOverflow)"

text \<open>The two generations are \<open>#[serde(skip)]\<close> and live in columns of their own.\<close>

definition encode_snapshot :: "InvocationSnapshot \<Rightarrow> InvocationSnapshot option" where
  "encode_snapshot s = Some (s\<lparr>sn_turn_generation := 0, sn_completed_generation := None\<rparr>)"

definition decode_snapshot :: "InvocationSnapshot option \<Rightarrow> StorageError + InvocationSnapshot" where
  "decode_snapshot raw = (case raw of None \<Rightarrow> Inl IncompatibleState | Some s \<Rightarrow> Inr s)"

definition load_row :: "InvocationRow \<Rightarrow> StorageError + InvocationSnapshot" where
  "load_row r =
     result_bind (decode_snapshot (ir_snapshot_json r)) (\<lambda>s.
       Inr (s\<lparr>sn_turn_generation := ir_turn_generation r,
              sn_completed_generation := ir_completed_generation r\<rparr>))"

definition fits_integer :: "u64 \<Rightarrow> bool" where
  "fits_integer n \<longleftrightarrow> unat n < 2 ^ 63"

definition snapshot_row :: "InvocationSnapshot \<Rightarrow> string \<Rightarrow> InvocationRow" where
  "snapshot_row s credential =
     \<lparr>ir_invocation_id = sn_invocation_id s, ir_provider = sn_provider s,
      ir_credential = credential, ir_snapshot_json = encode_snapshot s,
      ir_stopped_at = (if ended (sn_lifecycle s) then Some (sn_updated_at s) else None),
      ir_turn_generation = sn_turn_generation s,
      ir_completed_generation = sn_completed_generation s\<rparr>"

definition persist_snapshot :: "Db \<Rightarrow> InvocationSnapshot \<Rightarrow> string \<Rightarrow> StorageError + Db" where
  "persist_snapshot db s credential =
     (if fits_integer (sn_turn_generation s) \<and> is_none_or fits_integer (sn_completed_generation s)
      then Inr (db\<lparr>db_invocations :=
             tbl_put ir_invocation_id (snapshot_row s credential) (db_invocations db)\<rparr>)
      else Inl GenerationOverflow)"

definition current_status_reason ::
    "Db \<Rightarrow> InvocationId \<Rightarrow> StorageError + CurrentStatusReason option" where
  "current_status_reason db i =
     (case tbl_lookup rr_invocation_id i (db_reasons db) of
        None \<Rightarrow> Inr None
      | Some r \<Rightarrow> (case rr_reason r of None \<Rightarrow> Inl BadReasonJson | Some x \<Rightarrow> Inr (Some x)))"

definition clear_status_reason_row :: "Db \<Rightarrow> InvocationId \<Rightarrow> Db" where
  "clear_status_reason_row db i = db\<lparr>db_reasons := tbl_delete rr_invocation_id i (db_reasons db)\<rparr>"

definition write_reason ::
    "Codec \<Rightarrow> Db \<Rightarrow> InvocationId \<Rightarrow> ReasonEffect \<Rightarrow> timestamp \<Rightarrow> StorageError + Db" where
  "write_reason cd db i effect wall =
     (case effect of
        Keep \<Rightarrow> Inr db
      | Clear \<Rightarrow> Inr (clear_status_reason_row db i)
      | SetReason r \<Rightarrow>
          if length (chars (cd_reason cd r)) \<le> 2048
          then Inr (db\<lparr>db_reasons := tbl_put rr_invocation_id
                 \<lparr>rr_invocation_id = i, rr_reason = Some r, rr_updated_at = wall\<rparr> (db_reasons db)\<rparr>)
          else Inl ReasonTooLong)"

text \<open>The envelope every sink receives, and one conditional insert into the outbox.\<close>

definition update_envelope ::
    "Publish \<Rightarrow> PublicAgentView \<Rightarrow> string \<Rightarrow> nat \<Rightarrow> PublicField set \<Rightarrow> SourceEnvelope" where
  "update_envelope p view delivery_id revision changed =
     SourceEnvelopeUpdate
       \<lparr>su_schema_version = HUB_SCHEMA_VERSION,
        su_source_id = (if pb_source_id p = [] then ''local'' else pb_source_id p),
        su_delivery_id = delivery_id, su_revision = revision, su_changed = changed,
        su_view = view\<rparr>"

definition insert_outbox :: "OutboxRow list \<Rightarrow> OutboxRow \<Rightarrow> OutboxRow list" where
  "insert_outbox rows r =
     (if length (filter (\<lambda>x. ob_sink_name x = ob_sink_name r) rows) < MAX_OUTBOX_RECORDS_PER_SINK
        \<and> outbox_key r \<notin> outbox_key ` set rows
      then rows @ [r] else rows)"

definition enqueue_sink ::
    "Codec \<Rightarrow> Publish \<Rightarrow> PublicAgentView \<Rightarrow> string \<Rightarrow> nat \<Rightarrow> PublicField set \<Rightarrow> timestamp
     \<Rightarrow> string \<times> SinkConfig \<Rightarrow> OutboxRow list \<Rightarrow> OutboxRow list" where
  "enqueue_sink cd p view delivery_id revision changed wall sink rows =
     (if \<not> SinkConfig_enabled (snd sink) then rows
      else if pb_source_id p = [] \<and> is_hub (snd sink) then rows
      else
        let payload = cd_envelope cd (update_envelope p view delivery_id revision changed)
        in if length payload \<le> SinkConfig_max_payload_bytes (snd sink)
           then insert_outbox rows
             \<lparr>ob_sink_name = fst sink, ob_event_id = delivery_id, ob_revision = revision,
              ob_payload = payload, ob_attempts = 0, ob_next_attempt_at = wall\<rparr>
           else rows)"

definition enqueue_transition ::
    "Codec \<Rightarrow> Db \<Rightarrow> Publish option \<Rightarrow> PublicAgentView \<Rightarrow> string \<Rightarrow> nat \<Rightarrow> PublicField set
     \<Rightarrow> timestamp \<Rightarrow> Db" where
  "enqueue_transition cd db publish view delivery_id revision changed wall =
     (case publish of
        None \<Rightarrow> db
      | Some p \<Rightarrow> db\<lparr>db_outbox :=
          fold (enqueue_sink cd p view delivery_id revision changed wall) (pb_sinks p) (db_outbox db)\<rparr>)"

definition delivery_id_of :: "Delivery \<Rightarrow> InvocationId \<Rightarrow> nat \<Rightarrow> string" where
  "delivery_id_of delivery i revision =
     (case delivery of
        DeliveryEvent event_id \<Rightarrow> event_id
      | DeliverySynthetic label \<Rightarrow> synthetic_event_id label i revision)"

text \<open>The second half of a transition, once \<open>f\<close> has decided it.\<close>

definition commit_transition ::
    "Codec \<Rightarrow> Db \<Rightarrow> InvocationId \<Rightarrow> string \<Rightarrow> Delivery \<Rightarrow> Publish option \<Rightarrow> timestamp \<Rightarrow> timestamp
     \<Rightarrow> PublicAgentView \<Rightarrow> Transition \<Rightarrow> StorageError + Db \<times> Committed" where
  "commit_transition cd db i credential delivery publish now wall prior_view t =
     result_bind (write_reason cd db i (tr_reason t) wall) (\<lambda>db1.
     result_bind (next_revision db1) (\<lambda>(db2, revision).
     result_bind (current_status_reason db2 i) (\<lambda>reason.
       let (s, view, changed) =
             finalize prior_view ((tr_snapshot t)\<lparr>sn_revision := revision\<rparr>) reason now
       in result_bind (persist_snapshot db2 s credential) (\<lambda>db3.
            if changed = {} then Inr (db3, \<lparr>cm_revision = revision, cm_update = None\<rparr>)
            else
              let delivery_id = delivery_id_of delivery i revision
              in Inr (enqueue_transition cd db3 publish view delivery_id revision changed wall,
                      \<lparr>cm_revision = revision,
                       cm_update = Some \<lparr>au_revision = revision, au_delivery_id = delivery_id,
                                         au_view = view, au_changed = changed\<rparr>\<rparr>)))))"

definition apply_transition ::
    "Codec \<Rightarrow> Db \<Rightarrow> InvocationId \<Rightarrow> string option \<Rightarrow> Delivery \<Rightarrow> Publish option \<Rightarrow> timestamp
     \<Rightarrow> timestamp \<Rightarrow> (Prior \<Rightarrow> StorageError + Transition option)
     \<Rightarrow> StorageError + Db \<times> Committed option" where
  "apply_transition cd db i expected_credential delivery publish now wall f =
     (case tbl_lookup ir_invocation_id i (db_invocations db) of
        None \<Rightarrow> Inl UnknownInvocation
      | Some row \<Rightarrow>
          if is_some_and (\<lambda>expected.
               \<not> constant_time_eq (as_bytes (ir_credential row)) (as_bytes expected)) expected_credential
          then Inl InvalidCredential
          else
            result_bind (load_row row) (\<lambda>prior.
            result_bind (current_status_reason db i) (\<lambda>prior_reason.
            result_bind (f \<lparr>pri_snapshot = prior, pri_reason = prior_reason\<rparr>) (\<lambda>decision.
              case decision of
                None \<Rightarrow> Inr (db, None)
              | Some t \<Rightarrow>
                  result_bind (commit_transition cd db i (ir_credential row) delivery publish now wall
                      (project_public prior prior_reason) t)
                    (\<lambda>(db', c). Inr (db', Some c))))))"

section \<open>Operations\<close>

definition Storage_revision :: "Db \<Rightarrow> nat" where
  "Storage_revision db = db_revision db"

definition register ::
    "Codec \<Rightarrow> Db \<Rightarrow> InvocationSnapshot \<Rightarrow> string \<Rightarrow> Publish option \<Rightarrow> timestamp
     \<Rightarrow> StorageError + Db \<times> nat" where
  "register cd db snapshot credential publish wall =
     result_bind (next_revision db) (\<lambda>(db1, revision).
       let v = snapshot\<lparr>sn_revision := revision\<rparr>
       in result_bind (persist_snapshot db1 v credential) (\<lambda>db2.
            let event_id = synthetic_event_id ''register'' (sn_invocation_id v) revision;
                view = project_public v None;
                changed = changed_public_fields None view
            in Inr (enqueue_transition cd db2 publish view event_id revision changed wall, revision)))"

definition credential_matches :: "Db \<Rightarrow> InvocationId \<Rightarrow> string \<Rightarrow> string \<Rightarrow> bool" where
  "credential_matches db i provider credential =
     is_some_and (\<lambda>r. constant_time_eq (as_bytes (ir_provider r)) (as_bytes provider)
         \<and> constant_time_eq (as_bytes (ir_credential r)) (as_bytes credential))
       (tbl_lookup ir_invocation_id i (db_invocations db))"

definition transition ::
    "Codec \<Rightarrow> Db \<Rightarrow> InvocationId \<Rightarrow> string option \<Rightarrow> Delivery \<Rightarrow> Publish option \<Rightarrow> timestamp
     \<Rightarrow> timestamp \<Rightarrow> (Prior \<Rightarrow> StorageError + Transition option)
     \<Rightarrow> StorageError + Db \<times> Committed option" where
  "transition cd db i expected_credential delivery publish now wall f =
     result_bind (apply_transition cd db i expected_credential delivery publish now wall f)
       (\<lambda>(db', committed). Inr (if committed \<noteq> None then db' else db, committed))"

definition mutate_authenticated ::
    "Codec \<Rightarrow> Db \<Rightarrow> InvocationId \<Rightarrow> string \<Rightarrow> bool \<Rightarrow> (InvocationSnapshot \<Rightarrow> InvocationSnapshot)
     \<Rightarrow> string \<Rightarrow> Publish option \<Rightarrow> timestamp \<Rightarrow> StorageError + Db \<times> AppliedUpdate option" where
  "mutate_authenticated cd db i credential clear_incompatible_reason f synthetic_label publish wall =
     result_bind (transition cd db i (Some credential) (DeliverySynthetic synthetic_label) publish
         wall wall (\<lambda>prior. Inr (Some (local_mutation prior clear_incompatible_reason f))))
       (\<lambda>(db', committed). Inr (db', Option.bind committed cm_update))"

definition bind_child_update :: "u32 \<Rightarrow> string option \<Rightarrow> InvocationSnapshot \<Rightarrow> InvocationSnapshot" where
  "bind_child_update pid identity s =
     s\<lparr>sn_process := (sn_process s)\<lparr>pc_child_pid := Some pid, pc_start_identity := identity\<rparr>,
       sn_lifecycle := Alive\<rparr>"

definition bind_child ::
    "Codec \<Rightarrow> Db \<Rightarrow> InvocationId \<Rightarrow> string \<Rightarrow> u32 \<Rightarrow> string option \<Rightarrow> Publish option \<Rightarrow> timestamp
     \<Rightarrow> StorageError + Db \<times> AppliedUpdate option" where
  "bind_child cd db i credential pid identity publish wall =
     mutate_authenticated cd db i credential False (bind_child_update pid identity) ''bind_child''
       publish wall"

definition mark_exit_update :: "i32 option \<Rightarrow> i32 option \<Rightarrow> InvocationSnapshot \<Rightarrow> InvocationSnapshot" where
  "mark_exit_update code signal s =
     s\<lparr>sn_process := (sn_process s)\<lparr>pc_exit_code := code, pc_signal := signal\<rparr>,
       sn_lifecycle := Exited\<rparr>"

definition mark_exit ::
    "Codec \<Rightarrow> Db \<Rightarrow> InvocationId \<Rightarrow> string \<Rightarrow> i32 option \<Rightarrow> i32 option \<Rightarrow> Publish option \<Rightarrow> timestamp
     \<Rightarrow> StorageError + Db \<times> AppliedUpdate option" where
  "mark_exit cd db i credential code signal publish wall =
     mutate_authenticated cd db i credential True (mark_exit_update code signal) ''lifecycle_exit''
       publish wall"

definition reject :: "ReducerError + 'a \<Rightarrow> StorageError + 'a" where
  "reject r = (case r of Inl e \<Rightarrow> Inl (Rejected e) | Inr v \<Rightarrow> Inr v)"

definition event_decision ::
    "NormalizedEvent \<Rightarrow> StatusReasonContext option \<Rightarrow> Prior \<Rightarrow> StorageError + Transition option" where
  "event_decision e status_reason prior =
     reject (map_sum (\<lambda>x. x) Some (apply_event prior e status_reason))"

definition apply_event_with_context ::
    "Codec \<Rightarrow> Db \<Rightarrow> NormalizedEvent \<Rightarrow> StatusReasonContext option \<Rightarrow> Publish option \<Rightarrow> timestamp
     \<Rightarrow> StorageError + Db \<times> AppliedUpdate option" where
  "apply_event_with_context cd db e status_reason publish wall =
     result_bind (reject (validate_event e status_reason)) (\<lambda>_.
       if tbl_lookup dd_event_id (ev_event_id e) (db_dedup db) \<noteq> None then Inr (db, None)
       else
         result_bind (apply_transition cd db (ev_invocation_id e) None (DeliveryEvent (ev_event_id e))
             publish wall wall (event_decision e status_reason))
           (\<lambda>(db1, committed).
             case committed of
               None \<Rightarrow> Inl NoSnapshot
             | Some c \<Rightarrow>
                 if tbl_lookup nr_event_id (ev_event_id e) (db_events db1) \<noteq> None
                 then Inl DuplicateEvent
                 else Inr (db1\<lparr>db_dedup := db_dedup db1 @
                        [\<lparr>dd_event_id = ev_event_id e, dd_committed_at = wall\<rparr>],
                      db_events := db_events db1 @
                        [\<lparr>nr_event_id = ev_event_id e, nr_invocation_id = ev_invocation_id e,
                          nr_revision = cm_revision c, nr_received_at = ev_received_at e,
                          nr_event = e\<rparr>]\<rparr>, cm_update c)))"

text \<open>
  \<open>NoSnapshot\<close> is the panic of the \<open>expect\<close> that follows the transition.
\<close>

section \<open>Reads\<close>

fun collect :: "('a \<Rightarrow> 'e + 'b) \<Rightarrow> 'a list \<Rightarrow> 'e + 'b list" where
  "collect f [] = Inr []"
| "collect f (x # xs) = result_bind (f x) (\<lambda>y. result_bind (collect f xs) (\<lambda>ys. Inr (y # ys)))"

definition snapshot :: "Db \<Rightarrow> StorageError + nat \<times> InvocationSnapshot list" where
  "snapshot db =
     result_bind (collect load_row (db_invocations db)) (\<lambda>values. Inr (db_revision db, values))"

definition reason_entry :: "ReasonRow \<Rightarrow> StorageError + InvocationId \<times> CurrentStatusReason" where
  "reason_entry r =
     (case rr_reason r of None \<Rightarrow> Inl BadReasonJson | Some x \<Rightarrow> Inr (rr_invocation_id r, x))"

definition snapshot_with_reasons ::
    "Db \<Rightarrow> StorageError + nat \<times> InvocationSnapshot list \<times> (InvocationId \<rightharpoonup> CurrentStatusReason)" where
  "snapshot_with_reasons db =
     result_bind (collect load_row (db_invocations db)) (\<lambda>snapshots.
     result_bind (collect reason_entry (db_reasons db)) (\<lambda>reasons.
       Inr (db_revision db, snapshots, map_of (rev reasons))))"

definition public_snapshot :: "Db \<Rightarrow> StorageError + nat \<times> PublicAgentView list" where
  "public_snapshot db =
     result_bind (snapshot_with_reasons db) (\<lambda>(revision, snapshots, reasons).
       Inr (revision, map (\<lambda>s. project_public s (reasons (sn_invocation_id s))) snapshots))"

definition snapshot_envelope ::
    "string \<Rightarrow> string option \<Rightarrow> nat \<Rightarrow> PublicAgentView list \<Rightarrow> SourceEnvelope" where
  "snapshot_envelope source_id source_name revision views =
     SourceEnvelopeSnapshot
       \<lparr>ss_schema_version = HUB_SCHEMA_VERSION,
        ss_source = \<lparr>si_id = source_id, si_display_name = source_name\<rparr>,
        ss_revision = revision, ss_views = views\<rparr>"

definition hub_source_snapshot ::
    "Codec \<Rightarrow> Db \<Rightarrow> string \<Rightarrow> string option \<Rightarrow> StorageError + nat \<times> u8 list" where
  "hub_source_snapshot cd db source_id source_name =
     result_bind (public_snapshot db) (\<lambda>(revision, views).
       Inr (revision, cd_envelope cd (snapshot_envelope source_id source_name revision views)))"

definition invocation :: "Db \<Rightarrow> InvocationId \<Rightarrow> StorageError + InvocationSnapshot" where
  "invocation db i =
     (case tbl_lookup ir_invocation_id i (db_invocations db) of
        None \<Rightarrow> Inl UnknownInvocation
      | Some r \<Rightarrow> load_row r)"

definition Storage_apply_event ::
    "Codec \<Rightarrow> Db \<Rightarrow> NormalizedEvent \<Rightarrow> Publish option \<Rightarrow> timestamp
     \<Rightarrow> StorageError + Db \<times> InvocationSnapshot option" where
  "Storage_apply_event cd db e publish wall =
     result_bind (apply_event_with_context cd db e None publish wall) (\<lambda>(db', update).
       case update of
         None \<Rightarrow> Inr (db', None)
       | Some _ \<Rightarrow> result_bind (invocation db' (ev_invocation_id e)) (\<lambda>s. Inr (db', Some s)))"

section \<open>Sinks and the outbox\<close>

definition hub_snapshot_due :: "Db \<Rightarrow> string \<Rightarrow> Db \<times> bool" where
  "hub_snapshot_due db sink =
     (case tbl_lookup hs_sink_name sink (db_hub_sinks db) of
        None \<Rightarrow> (db\<lparr>db_hub_sinks := db_hub_sinks db @
                  [\<lparr>hs_sink_name = sink, hs_snapshot_revision = None\<rparr>]\<rparr>, True)
      | Some r \<Rightarrow> (db, hs_snapshot_revision r = None))"

definition hub_snapshot_delivered :: "Db \<Rightarrow> string \<Rightarrow> nat \<Rightarrow> Db" where
  "hub_snapshot_delivered db sink revision =
     db\<lparr>db_hub_sinks := tbl_put hs_sink_name
          \<lparr>hs_sink_name = sink, hs_snapshot_revision = Some revision\<rparr> (db_hub_sinks db),
        db_outbox := filter (\<lambda>r. \<not> (ob_sink_name r = sink \<and> ob_revision r \<le> revision)) (db_outbox db)\<rparr>"

definition hub_reset_snapshot :: "Db \<Rightarrow> string \<Rightarrow> Db" where
  "hub_reset_snapshot db sink =
     db\<lparr>db_hub_sinks := tbl_put hs_sink_name
          \<lparr>hs_sink_name = sink, hs_snapshot_revision = None\<rparr> (db_hub_sinks db)\<rparr>"

definition due_outbox :: "Db \<Rightarrow> nat \<Rightarrow> timestamp \<Rightarrow> OutboxRecord list" where
  "due_outbox db limit wall =
     map (\<lambda>r. \<lparr>or_sink_name = ob_sink_name r, or_event_id = ob_event_id r,
               or_payload = ob_payload r, or_attempts = ob_attempts r\<rparr>)
       (take limit (sort_key ob_revision (filter (\<lambda>r. ob_next_attempt_at r \<le> wall) (db_outbox db))))"

definition acknowledge :: "Db \<Rightarrow> string \<Rightarrow> string \<Rightarrow> Db" where
  "acknowledge db sink event = db\<lparr>db_outbox := tbl_delete outbox_key (sink, event) (db_outbox db)\<rparr>"

definition retry_delay :: "nat \<Rightarrow> int" where
  "retry_delay attempts = min (2 ^ min attempts 10) 300"

definition retry :: "Db \<Rightarrow> string \<Rightarrow> string \<Rightarrow> nat \<Rightarrow> timestamp \<Rightarrow> Db" where
  "retry db sink event attempts wall =
     db\<lparr>db_outbox := map (\<lambda>r. if outbox_key r = (sink, event)
          then r\<lparr>ob_attempts := ob_attempts r + 1,
                 ob_next_attempt_at := wall + seconds (retry_delay attempts)\<rparr>
          else r) (db_outbox db)\<rparr>"

section \<open>Sweeps\<close>

text \<open>
  A sweep runs one transaction per invocation: what an earlier one committed stays when a later
  one fails. \<open>commit\<close> is the database after a transaction, whatever its outcome.
\<close>

definition commit :: "Db \<Rightarrow> StorageError + Db \<times> 'a \<Rightarrow> Db \<times> (StorageError + 'a)" where
  "commit db r = (case r of Inl e \<Rightarrow> (db, Inl e) | Inr (db', v) \<Rightarrow> (db', Inr v))"

fun expire_loop ::
    "Codec \<Rightarrow> Publish option \<Rightarrow> timestamp \<Rightarrow> timestamp \<Rightarrow> Db \<Rightarrow> InvocationSnapshot list
     \<Rightarrow> AppliedUpdate list \<Rightarrow> Db \<times> (StorageError + AppliedUpdate list)" where
  "expire_loop cd publish now wall db [] updates = (db, Inr updates)"
| "expire_loop cd publish now wall db (s # rest) updates =
     (if \<not> is_stale s now then expire_loop cd publish now wall db rest updates
      else
        case commit db (transition cd db (sn_invocation_id s) None (DeliverySynthetic ''stale_working'')
            publish now wall (\<lambda>prior. Inr (expire_stale_working prior now))) of
          (db', Inl e) \<Rightarrow> (db', Inl e)
        | (db', Inr committed) \<Rightarrow>
            expire_loop cd publish now wall db' rest
              (case Option.bind committed cm_update of None \<Rightarrow> updates | Some u \<Rightarrow> updates @ [u]))"

definition expire_stale_working_at ::
    "Codec \<Rightarrow> Db \<Rightarrow> timestamp \<Rightarrow> timestamp \<Rightarrow> Publish option
     \<Rightarrow> Db \<times> (StorageError + AppliedUpdate list)" where
  "expire_stale_working_at cd db now wall publish =
     (case snapshot db of
        Inl e \<Rightarrow> (db, Inl e)
      | Inr (_, snapshots) \<Rightarrow> expire_loop cd publish now wall db snapshots [])"

definition live :: "Lifecycle \<Rightarrow> bool" where
  "live l \<longleftrightarrow> l = Alive \<or> l = Starting"

definition process_is_alive :: "(u32 \<Rightarrow> string option \<Rightarrow> bool) \<Rightarrow> InvocationSnapshot \<Rightarrow> bool" where
  "process_is_alive is_alive s =
     is_some_and (\<lambda>pid. is_alive pid (pc_start_identity (sn_process s))) (pc_child_pid (sn_process s))"

definition restore_unconfirmed :: "Db \<Rightarrow> InvocationSnapshot \<Rightarrow> StorageError + Db \<times> unit" where
  "restore_unconfirmed db s =
     result_bind (next_revision db) (\<lambda>(db1, revision).
       case tbl_lookup ir_invocation_id (sn_invocation_id s) (db_invocations db1) of
         None \<Rightarrow> Inl UnknownInvocation
       | Some row \<Rightarrow>
           result_bind (persist_snapshot db1
               (s\<lparr>sn_activity_confirmation := RestoredUnconfirmed, sn_revision := revision\<rparr>)
               (ir_credential row)) (\<lambda>db2. Inr (db2, ())))"

definition lose_if_dead ::
    "(u32 \<Rightarrow> string option \<Rightarrow> bool) \<Rightarrow> Prior \<Rightarrow> StorageError + Transition option" where
  "lose_if_dead is_alive prior =
     Inr (if live (sn_lifecycle (pri_snapshot prior)) \<and> \<not> process_is_alive is_alive (pri_snapshot prior)
          then Some (mark_lost prior) else None)"

fun reconcile_loop ::
    "Codec \<Rightarrow> (u32 \<Rightarrow> string option \<Rightarrow> bool) \<Rightarrow> Publish option \<Rightarrow> timestamp \<Rightarrow> Db
     \<Rightarrow> InvocationSnapshot list \<Rightarrow> nat \<Rightarrow> Db \<times> (StorageError + nat)" where
  "reconcile_loop cd is_alive publish wall db [] changed = (db, Inr changed)"
| "reconcile_loop cd is_alive publish wall db (s # rest) changed =
     (if live (sn_lifecycle s) \<and> process_is_alive is_alive s
         \<and> sn_activity s \<in> {Working, WaitingInput, WaitingApproval}
         \<and> sn_activity_confirmation s \<noteq> RestoredUnconfirmed
      then
        case commit db (restore_unconfirmed db s) of
          (db', Inl e) \<Rightarrow> (db', Inl e)
        | (db', Inr _) \<Rightarrow> reconcile_loop cd is_alive publish wall db' rest (changed + 1)
      else if live (sn_lifecycle s) \<and> \<not> process_is_alive is_alive s
      then
        case commit db (transition cd db (sn_invocation_id s) None (DeliverySynthetic ''reconcile_lost'')
            publish wall wall (lose_if_dead is_alive)) of
          (db', Inl e) \<Rightarrow> (db', Inl e)
        | (db', Inr lost) \<Rightarrow>
            reconcile_loop cd is_alive publish wall db' rest
              (if lost \<noteq> None then changed + 1 else changed)
      else reconcile_loop cd is_alive publish wall db rest changed)"

text \<open>Foreign keys are on: deleting an invocation deletes its reason.\<close>

definition prune_stopped :: "Db \<Rightarrow> timestamp \<Rightarrow> Db" where
  "prune_stopped db cutoff =
     (let gone = filter (\<lambda>r. is_some_and (\<lambda>t. t < cutoff) (ir_stopped_at r)) (db_invocations db)
      in db\<lparr>db_invocations := filter (\<lambda>r. \<not> is_some_and (\<lambda>t. t < cutoff) (ir_stopped_at r)) (db_invocations db),
            db_reasons := filter (\<lambda>r. rr_invocation_id r \<notin> ir_invocation_id ` set gone) (db_reasons db)\<rparr>)"

text \<open>
  \<open>sub_days\<close> is the calendar subtraction of chrono; \<open>None\<close> is its panic on a result out
  of range.
\<close>

definition reconcile ::
    "Codec \<Rightarrow> (timestamp \<Rightarrow> u64 \<Rightarrow> timestamp option) \<Rightarrow> Db \<Rightarrow> (u32 \<Rightarrow> string option \<Rightarrow> bool) \<Rightarrow> u64
     \<Rightarrow> Publish option \<Rightarrow> timestamp \<Rightarrow> Db \<times> (StorageError + nat)" where
  "reconcile cd sub_days db is_alive retention_days publish wall =
     (case snapshot db of
        Inl e \<Rightarrow> (db, Inl e)
      | Inr (_, snapshots) \<Rightarrow>
          case reconcile_loop cd is_alive publish wall db snapshots 0 of
            (db1, Inl e) \<Rightarrow> (db1, Inl e)
          | (db1, Inr changed) \<Rightarrow>
              case expire_stale_working_at cd db1 wall wall publish of
                (db2, Inl e) \<Rightarrow> (db2, Inl e)
              | (db2, Inr updates) \<Rightarrow>
                  case sub_days wall retention_days of
                    None \<Rightarrow> (db2, Inl TimeOutOfRange)
                  | Some cutoff \<Rightarrow> (prune_stopped db2 cutoff, Inr (changed + length updates)))"

end
