(* ===== verification/Storage_Lemmas.thy ===== *)
theory Storage_Lemmas
  imports Storage Reducer_Props
begin

text \<open>
  Lemma library of the store: loading inverts persisting, the parts of a transition as equations
  on the tables, the invariant of the database, and the contract under which a transition keeps
  it. The decisions the broker uses are instances of that contract.
\<close>

section \<open>Rows\<close>

lemma load_snapshot_row [simp]: "load_row (snapshot_row s c) = Inr s"
  by (simp add: load_row_def snapshot_row_def encode_snapshot_def decode_snapshot_def)

lemma snapshot_row_simps [simp]:
  "ir_invocation_id (snapshot_row s c) = sn_invocation_id s"
  "ir_provider (snapshot_row s c) = sn_provider s"
  "ir_credential (snapshot_row s c) = c"
  "ir_stopped_at (snapshot_row s c) = (if ended (sn_lifecycle s) then Some (sn_updated_at s) else None)"
  by (simp_all add: snapshot_row_def)

lemma next_revision_Inr:
  "next_revision db = Inr (db', n) \<longleftrightarrow>
     n = db_revision db + 1 \<and> n < 2 ^ 63 \<and> db' = db\<lparr>db_revision := n\<rparr>"
  by (auto simp: next_revision_def)

lemma persist_snapshot_Inr:
  "persist_snapshot db s c = Inr db' \<longleftrightarrow>
     fits_integer (sn_turn_generation s) \<and> is_none_or fits_integer (sn_completed_generation s)
     \<and> db' = db\<lparr>db_invocations := tbl_put ir_invocation_id (snapshot_row s c) (db_invocations db)\<rparr>"
  by (auto simp: persist_snapshot_def)

text \<open>The reason table after a write, and what the next read of it returns.\<close>

definition reasons_after ::
    "InvocationId \<Rightarrow> ReasonEffect \<Rightarrow> timestamp \<Rightarrow> ReasonRow list \<Rightarrow> ReasonRow list" where
  "reasons_after i eff wall rows =
     (case eff of
        Keep \<Rightarrow> rows
      | Clear \<Rightarrow> tbl_delete rr_invocation_id i rows
      | SetReason r \<Rightarrow> tbl_put rr_invocation_id
          \<lparr>rr_invocation_id = i, rr_reason = Some r, rr_updated_at = wall\<rparr> rows)"

lemma write_reason_Inr:
  "write_reason cd db i eff wall = Inr db' \<longleftrightarrow>
     (\<forall>r. eff = SetReason r \<longrightarrow> length (chars (cd_reason cd r)) \<le> 2048)
     \<and> db' = db\<lparr>db_reasons := reasons_after i eff wall (db_reasons db)\<rparr>"
  by (cases eff) (auto simp: write_reason_def reasons_after_def clear_status_reason_row_def)

definition reason_of :: "ReasonRow list \<Rightarrow> InvocationId \<Rightarrow> CurrentStatusReason option" where
  "reason_of rows i = Option.bind (tbl_lookup rr_invocation_id i rows) rr_reason"

lemma current_status_reason_Inr:
  "current_status_reason db i = Inr x \<longleftrightarrow>
     x = reason_of (db_reasons db) i \<and>
     (\<forall>r. tbl_lookup rr_invocation_id i (db_reasons db) = Some r \<longrightarrow> rr_reason r \<noteq> None)"
  by (auto simp: current_status_reason_def reason_of_def split: option.splits)

lemma reason_of_after:
  assumes "tbl_wf rr_invocation_id rows"
  shows "reason_of (reasons_after i eff wall rows) j =
    (if j = i then ReasonEffect_resolve eff (reason_of rows i) else reason_of rows j)"
  using assms by (cases eff)
    (auto simp: reason_of_def reasons_after_def tbl_lookup_put tbl_lookup_delete)

section \<open>Transitions as equations\<close>

text \<open>The snapshot a transition stores: numbered, then finalized.\<close>

definition stored_snapshot ::
    "PublicAgentView \<Rightarrow> Transition \<Rightarrow> CurrentStatusReason option \<Rightarrow> nat \<Rightarrow> timestamp \<Rightarrow> InvocationSnapshot" where
  "stored_snapshot prior_view t reason revision now =
     fst (finalize prior_view ((tr_snapshot t)\<lparr>sn_revision := revision\<rparr>) reason now)"

lemma project_public_revision [simp]:
  "project_public (s\<lparr>sn_revision := n\<rparr>) r = project_public s r"
  by (simp add: project_public_def terminal_live_def Let_def)

lemma stored_snapshot_cases:
  "stored_snapshot pv t r n now \<in>
     {(tr_snapshot t)\<lparr>sn_revision := n\<rparr>, (tr_snapshot t)\<lparr>sn_revision := n, sn_updated_at := now\<rparr>}"
  by (simp add: stored_snapshot_def finalize_def Let_def)

lemma stored_snapshot_simps [simp]:
  "sn_invocation_id (stored_snapshot pv t r n now) = sn_invocation_id (tr_snapshot t)"
  "sn_provider (stored_snapshot pv t r n now) = sn_provider (tr_snapshot t)"
  "sn_revision (stored_snapshot pv t r n now) = n"
  "sn_lifecycle (stored_snapshot pv t r n now) = sn_lifecycle (tr_snapshot t)"
  "sn_activity (stored_snapshot pv t r n now) = sn_activity (tr_snapshot t)"
  "sn_process (stored_snapshot pv t r n now) = sn_process (tr_snapshot t)"
  "sn_children (stored_snapshot pv t r n now) = sn_children (tr_snapshot t)"
  "wf_snapshot (stored_snapshot pv t r n now) = wf_snapshot (tr_snapshot t)"
  using stored_snapshot_cases [of pv t r n now] by (auto simp: wf_snapshot_def)

definition outbox_after ::
    "Codec \<Rightarrow> Publish option \<Rightarrow> AppliedUpdate \<Rightarrow> timestamp \<Rightarrow> OutboxRow list \<Rightarrow> OutboxRow list" where
  "outbox_after cd publish u wall rows =
     (case publish of None \<Rightarrow> rows
      | Some p \<Rightarrow> fold (enqueue_sink cd p (au_view u) (au_delivery_id u) (au_revision u)
                          (au_changed u) wall) (pb_sinks p) rows)"

lemma enqueue_transition_outbox:
  "enqueue_transition cd db publish view d n ch wall =
     db\<lparr>db_outbox := outbox_after cd publish \<lparr>au_revision = n, au_delivery_id = d, au_view = view,
       au_changed = ch\<rparr> wall (db_outbox db)\<rparr>"
  by (cases publish) (simp_all add: enqueue_transition_def outbox_after_def)

lemma commit_transitionD:
  assumes "commit_transition cd db i cred delivery publish now wall pv t = Inr (db', c)"
    and wf: "tbl_wf rr_invocation_id (db_reasons db)"
  defines "n \<equiv> db_revision db + 1"
    and "reason \<equiv> ReasonEffect_resolve (tr_reason t) (reason_of (db_reasons db) i)"
  defines "s \<equiv> stored_snapshot pv t reason n now"
  shows "db_revision db' = n" and "cm_revision c = n" and "n < 2 ^ 63"
    and "db_invocations db' = tbl_put ir_invocation_id (snapshot_row s cred) (db_invocations db)"
    and "db_reasons db' = reasons_after i (tr_reason t) wall (db_reasons db)"
    and "db_events db' = db_events db" and "db_dedup db' = db_dedup db"
    and "db_hub_sinks db' = db_hub_sinks db"
    and "cm_update c = (if project_public s reason = pv then None
           else Some \<lparr>au_revision = n, au_delivery_id = delivery_id_of delivery i n,
                      au_view = project_public s reason,
                      au_changed = changed_public_fields (Some pv) (project_public s reason)\<rparr>)"
    and "db_outbox db' = (case cm_update c of None \<Rightarrow> db_outbox db
           | Some u \<Rightarrow> outbox_after cd publish u wall (db_outbox db))"
proof -
  let ?db1 = "db\<lparr>db_reasons := reasons_after i (tr_reason t) wall (db_reasons db)\<rparr>"
  let ?db2 = "?db1\<lparr>db_revision := n\<rparr>"
  have w: "write_reason cd db i (tr_reason t) wall = Inr ?db1"
    using assms(1) by (auto simp: commit_transition_def result_bind_Inr write_reason_Inr)
  have n: "n < 2 ^ 63" and v: "next_revision ?db1 = Inr (?db2, n)"
    using assms(1) w by (auto simp: commit_transition_def next_revision_def n_def split: if_splits)
  obtain r where r: "current_status_reason ?db2 i = Inr r"
    using assms(1) w v by (cases "current_status_reason ?db2 i") (simp_all add: commit_transition_def)
  obtain s' view ch where fin: "finalize pv ((tr_snapshot t)\<lparr>sn_revision := n\<rparr>) r now = (s', view, ch)"
    by (metis prod_cases3)
  let ?db3 = "?db2\<lparr>db_invocations := tbl_put ir_invocation_id (snapshot_row s' cred) (db_invocations db)\<rparr>"
  have per: "persist_snapshot ?db2 s' cred = Inr ?db3"
    using assms(1) w v r fin by (auto simp: commit_transition_def result_bind_Inr persist_snapshot_Inr)
  have out: "(db', c) = (if ch = {} then (?db3, \<lparr>cm_revision = n, cm_update = None\<rparr>)
      else (enqueue_transition cd ?db3 publish view (delivery_id_of delivery i n) n ch wall,
        \<lparr>cm_revision = n, cm_update = Some \<lparr>au_revision = n, au_delivery_id = delivery_id_of delivery i n,
          au_view = view, au_changed = ch\<rparr>\<rparr>))"
    using assms(1) w v r fin per by (auto simp: commit_transition_def Let_def split: if_splits)
  have rr: "r = reason"
    using r wf by (simp add: current_status_reason_Inr reason_of_after reason_def)
  have s': "s' = s" using fin rr by (simp add: s_def stored_snapshot_def)
  have view: "view = project_public s reason" and ch: "ch = changed_public_fields (Some pv) view"
    using fin rr s' by (auto simp: finalize_def Let_def)
  have e: "ch = {} \<longleftrightarrow> project_public s reason = pv"
    unfolding ch view by (auto simp: changed_Some_empty_iff)
  show "db_revision db' = n" "cm_revision c = n" "n < 2 ^ 63"
    "db_invocations db' = tbl_put ir_invocation_id (snapshot_row s cred) (db_invocations db)"
    "db_reasons db' = reasons_after i (tr_reason t) wall (db_reasons db)"
    "db_events db' = db_events db" "db_dedup db' = db_dedup db" "db_hub_sinks db' = db_hub_sinks db"
    using out n s' by (auto simp: Let_def enqueue_transition_outbox split: if_splits)
  show "cm_update c = (if project_public s reason = pv then None
      else Some \<lparr>au_revision = n, au_delivery_id = delivery_id_of delivery i n,
                 au_view = project_public s reason,
                 au_changed = changed_public_fields (Some pv) (project_public s reason)\<rparr>)"
    "db_outbox db' = (case cm_update c of None \<Rightarrow> db_outbox db
           | Some u \<Rightarrow> outbox_after cd publish u wall (db_outbox db))"
    using out e view ch by (auto simp: Let_def enqueue_transition_outbox split: if_splits)
qed

lemma apply_transition_Some:
  "apply_transition cd db i ec delivery publish now wall f = Inr (db', Some c) \<longleftrightarrow>
     (\<exists>row prior t. tbl_lookup ir_invocation_id i (db_invocations db) = Some row
       \<and> is_none_or (\<lambda>x. ir_credential row = x) ec \<and> load_row row = Inr prior
       \<and> current_status_reason db i = Inr (reason_of (db_reasons db) i)
       \<and> f \<lparr>pri_snapshot = prior, pri_reason = reason_of (db_reasons db) i\<rparr> = Inr (Some t)
       \<and> commit_transition cd db i (ir_credential row) delivery publish now wall
           (project_public prior (reason_of (db_reasons db) i)) t = Inr (db', c))"
  by (cases ec) (auto simp: apply_transition_def result_bind_Inr current_status_reason_Inr
      constant_time_eq_iff split: option.splits)

lemma apply_transition_None:
  "apply_transition cd db i ec delivery publish now wall f = Inr (db', None) \<Longrightarrow> db' = db"
  by (auto simp: apply_transition_def result_bind_Inr split: option.splits if_splits)

lemma transition_Inr:
  "transition cd db i ec delivery publish now wall f = Inr (db', c) \<longleftrightarrow>
     apply_transition cd db i ec delivery publish now wall f = Inr (db', c)"
  using apply_transition_None [of cd db i ec delivery publish now wall f]
  by (auto simp: transition_def result_bind_Inr split: if_splits)

section \<open>The invariant of the database\<close>

text \<open>A row holds a well-formed snapshot under its own key, numbered by a revision of the past.\<close>

definition wf_row :: "nat \<Rightarrow> InvocationRow \<Rightarrow> bool" where
  "wf_row n r \<longleftrightarrow>
     (case load_row r of
        Inl _ \<Rightarrow> False
      | Inr s \<Rightarrow> wf_snapshot s \<and> sn_invocation_id s = ir_invocation_id r \<and> sn_provider s = ir_provider r
          \<and> sn_revision s \<le> n
          \<and> ir_stopped_at r = (if ended (sn_lifecycle s) then Some (sn_updated_at s) else None))"

definition sink_load :: "OutboxRow list \<Rightarrow> string \<Rightarrow> nat" where
  "sink_load rows sink = length (filter (\<lambda>r. ob_sink_name r = sink) rows)"

definition wf_outbox :: "nat \<Rightarrow> OutboxRow list \<Rightarrow> bool" where
  "wf_outbox n rows \<longleftrightarrow> tbl_wf outbox_key rows \<and> (\<forall>r\<in>set rows. ob_revision r \<le> n)
     \<and> (\<forall>sink. sink_load rows sink \<le> MAX_OUTBOX_RECORDS_PER_SINK)"

definition wf_reasons :: "InvocationRow list \<Rightarrow> ReasonRow list \<Rightarrow> bool" where
  "wf_reasons invs rows \<longleftrightarrow> tbl_wf rr_invocation_id rows
     \<and> (\<forall>r\<in>set rows. rr_reason r \<noteq> None \<and> rr_invocation_id r \<in> ir_invocation_id ` set invs)"

definition wf_db :: "Db \<Rightarrow> bool" where
  "wf_db db \<longleftrightarrow>
     tbl_wf ir_invocation_id (db_invocations db) \<and> (\<forall>r\<in>set (db_invocations db). wf_row (db_revision db) r)
     \<and> wf_reasons (db_invocations db) (db_reasons db)
     \<and> wf_outbox (db_revision db) (db_outbox db)
     \<and> tbl_wf dd_event_id (db_dedup db) \<and> map dd_event_id (db_dedup db) = map nr_event_id (db_events db)
     \<and> (\<forall>r\<in>set (db_events db). nr_revision r \<le> db_revision db)
     \<and> tbl_wf hs_sink_name (db_hub_sinks db)"

lemma wf_dbD:
  assumes "wf_db db"
  shows "tbl_wf ir_invocation_id (db_invocations db)"
    and "\<And>r. r \<in> set (db_invocations db) \<Longrightarrow> wf_row (db_revision db) r"
    and "wf_reasons (db_invocations db) (db_reasons db)"
    and "tbl_wf rr_invocation_id (db_reasons db)"
    and "wf_outbox (db_revision db) (db_outbox db)"
  using assms by (auto simp: wf_db_def wf_reasons_def)

lemma wf_rowE:
  assumes "wf_row n r"
  obtains s where "load_row r = Inr s" "wf_snapshot s" "sn_invocation_id s = ir_invocation_id r"
    "sn_provider s = ir_provider r" "sn_revision s \<le> n"
    "ir_stopped_at r = (if ended (sn_lifecycle s) then Some (sn_updated_at s) else None)"
  using assms by (auto simp: wf_row_def split: sum.splits)

lemma wf_row_mono: "wf_row n r \<Longrightarrow> n \<le> m \<Longrightarrow> wf_row m r"
  by (auto simp: wf_row_def split: sum.splits)

lemma wf_snapshot_row: "wf_snapshot s \<Longrightarrow> sn_revision s \<le> n \<Longrightarrow> wf_row n (snapshot_row s c)"
  by (simp add: wf_row_def)

lemma wf_reasons_after:
  assumes "wf_reasons invs rows" and "i \<in> ir_invocation_id ` set invs"
  shows "wf_reasons invs (reasons_after i eff wall rows)"
  using assms tbl_delete_wf [of rr_invocation_id rows i]
  by (cases eff)
    (auto simp: wf_reasons_def reasons_after_def tbl_put_wf tbl_put_set tbl_delete_def)

lemma wf_reasons_mono:
  "wf_reasons invs rows \<Longrightarrow> ir_invocation_id ` set invs \<subseteq> ir_invocation_id ` set invs' \<Longrightarrow>
   wf_reasons invs' rows"
  by (auto simp: wf_reasons_def)

subsection \<open>The outbox\<close>

lemma insert_outbox_wf:
  assumes "wf_outbox n rows" and "ob_revision r \<le> n"
  shows "wf_outbox n (insert_outbox rows r)"
  using assms by (auto simp: wf_outbox_def insert_outbox_def sink_load_def)

lemma enqueue_sink_wf:
  "wf_outbox n rows \<Longrightarrow> m \<le> n \<Longrightarrow> wf_outbox n (enqueue_sink cd p v d m ch wall sink rows)"
  by (simp add: enqueue_sink_def Let_def insert_outbox_wf)

lemma outbox_after_wf:
  assumes "wf_outbox n rows" and "au_revision u \<le> n"
  shows "wf_outbox n (outbox_after cd publish u wall rows)"
proof (cases publish)
  case (Some p)
  have "wf_outbox n (fold (enqueue_sink cd p (au_view u) (au_delivery_id u) (au_revision u)
      (au_changed u) wall) sinks rows)" for sinks
    using assms(1)
  proof (induction sinks arbitrary: rows)
    case (Cons x xs)
    show ?case using Cons.IH [OF enqueue_sink_wf [OF Cons.prems assms(2)]] by simp
  qed simp
  with Some show ?thesis by (simp add: outbox_after_def)
qed (simp add: outbox_after_def assms)

lemma wf_outbox_mono: "wf_outbox n rows \<Longrightarrow> n \<le> m \<Longrightarrow> wf_outbox m rows"
  by (auto simp: wf_outbox_def)

lemma wf_outbox_filter: "wf_outbox n rows \<Longrightarrow> wf_outbox n (filter p rows)"
proof -
  assume a: "wf_outbox n rows"
  have "sink_load (filter p rows) sink \<le> sink_load rows sink" for sink
    by (induction rows) (auto simp: sink_load_def)
  with a show ?thesis
    by (auto simp: wf_outbox_def distinct_map_filter intro: le_trans)
qed

text \<open>What a reader sees of one invocation, and the update a change of it produces.\<close>

definition view_of :: "Db \<Rightarrow> InvocationId \<Rightarrow> PublicAgentView option" where
  "view_of db i =
     (case invocation db i of Inl _ \<Rightarrow> None | Inr s \<Rightarrow> Some (project_public s (reason_of (db_reasons db) i)))"

definition credential_of :: "Db \<Rightarrow> InvocationId \<Rightarrow> string \<Rightarrow> bool" where
  "credential_of db i c =
     is_some_and (\<lambda>r. ir_credential r = c) (tbl_lookup ir_invocation_id i (db_invocations db))"

definition update_of ::
    "Delivery \<Rightarrow> InvocationId \<Rightarrow> nat \<Rightarrow> PublicAgentView option \<Rightarrow> PublicAgentView option
     \<Rightarrow> AppliedUpdate option" where
  "update_of delivery i n old new =
     (case new of
        None \<Rightarrow> None
      | Some v \<Rightarrow>
          if old = Some v then None
          else Some \<lparr>au_revision = n, au_delivery_id = delivery_id_of delivery i n, au_view = v,
                     au_changed = changed_public_fields old v\<rparr>)"

lemma view_of_eqI:
  "invocation a i = invocation b i \<Longrightarrow> reason_of (db_reasons a) i = reason_of (db_reasons b) i \<Longrightarrow>
   view_of a i = view_of b i"
  by (cases "invocation b i") (simp_all add: view_of_def)

lemma view_of_cong:
  "db_invocations a = db_invocations b \<Longrightarrow> db_reasons a = db_reasons b \<Longrightarrow> view_of a i = view_of b i"
  by (rule view_of_eqI) (simp_all add: invocation_def)

lemma map_key_put:
  "key r \<in> key ` set rows \<Longrightarrow> map key (tbl_put key r rows) = map key rows"
  by (induction rows) auto

section \<open>The contract of a transition\<close>

text \<open>
  What the store asks of the function that decides a transition: it names the same invocation and
  provider and returns a well-formed snapshot. Under this contract a committed transition keeps
  the invariant, whatever the decision is.
\<close>

locale transition_contract =
  fixes f :: "Prior \<Rightarrow> StorageError + Transition option"
  assumes keeps_identity: "f p = Inr (Some t) \<Longrightarrow>
      sn_invocation_id (tr_snapshot t) = sn_invocation_id (pri_snapshot p)
      \<and> sn_provider (tr_snapshot t) = sn_provider (pri_snapshot p)"
    and keeps_wf: "f p = Inr (Some t) \<Longrightarrow> wf_snapshot (pri_snapshot p) \<Longrightarrow> wf_snapshot (tr_snapshot t)"
begin

lemma transition_wf:
  assumes wf: "wf_db db"
    and tr: "apply_transition cd db i ec delivery publish now wall f = Inr (db', Some c)"
  shows "wf_db db'"
proof -
  let ?r = "reason_of (db_reasons db) i"
  obtain row prior t where row: "tbl_lookup ir_invocation_id i (db_invocations db) = Some row"
    and load: "load_row row = Inr prior" and f: "f \<lparr>pri_snapshot = prior, pri_reason = ?r\<rparr> = Inr (Some t)"
    and commit: "commit_transition cd db i (ir_credential row) delivery publish now wall
        (project_public prior ?r) t = Inr (db', c)"
    using tr by (auto simp: apply_transition_Some)
  note d = commit_transitionD [OF commit wf_dbD(4) [OF wf]]
  have r: "row \<in> set (db_invocations db)" "ir_invocation_id row = i"
    using tbl_lookup_SomeD [OF row] by auto
  have prior: "wf_snapshot prior" "sn_invocation_id prior = i"
    using wf_dbD(2) [OF wf r(1)] load r(2) by (auto elim!: wf_rowE)
  have t: "wf_snapshot (tr_snapshot t)" "sn_invocation_id (tr_snapshot t) = i"
    using keeps_wf [OF f] keeps_identity [OF f] prior by auto
  let ?new = "snapshot_row (stored_snapshot (project_public prior ?r) t
      (ReasonEffect_resolve (tr_reason t) ?r) (db_revision db + 1) now) (ir_credential row)"
  have invs: "tbl_wf ir_invocation_id (db_invocations db')"
    using wf_dbD(1) [OF wf] by (simp add: d(4) tbl_put_wf)
  have rows: "wf_row (db_revision db') x" if "x \<in> set (db_invocations db')" for x
  proof -
    from that have "x = ?new \<or> x \<in> set (db_invocations db)"
      using tbl_put_set [OF wf_dbD(1) [OF wf], of ?new] by (auto simp: d(4))
    moreover have "wf_row (db_revision db') ?new"
      using t(1) d(1) by (intro wf_snapshot_row) simp_all
    ultimately show ?thesis
      using wf_row_mono [OF wf_dbD(2) [OF wf]] d(1) by auto
  qed
  have ids: "ir_invocation_id ` set (db_invocations db') = insert i (ir_invocation_id ` set (db_invocations db))"
    unfolding d(4) tbl_put_keys using t(2) by simp
  have reasons: "wf_reasons (db_invocations db') (db_reasons db')"
    unfolding d(5) using wf_dbD(3) [OF wf] ids
    by (intro wf_reasons_after) (auto elim: wf_reasons_mono)
  have "wf_outbox (db_revision db') (db_outbox db)"
    using wf_outbox_mono [OF wf_dbD(5) [OF wf]] d(1) by simp
  then have "wf_outbox (db_revision db') (db_outbox db')"
    unfolding d(10) using d(1) d(9) by (auto intro!: outbox_after_wf split: option.splits if_splits)
  with invs rows reasons wf show ?thesis
    by (auto simp: wf_db_def d(1,6,7,8))
qed

lemma transition_effect:
  assumes wf: "wf_db db"
    and tr: "apply_transition cd db i ec delivery publish now wall f = Inr (db', Some c)"
  obtains prior t where "invocation db i = Inr prior" and "wf_snapshot prior"
    and "is_none_or (credential_of db i) ec"
    and "f \<lparr>pri_snapshot = prior, pri_reason = reason_of (db_reasons db) i\<rparr> = Inr (Some t)"
    and "cm_revision c = db_revision db + 1" and "db_revision db' = db_revision db + 1"
    and "reason_of (db_reasons db') i = ReasonEffect_resolve (tr_reason t) (reason_of (db_reasons db) i)"
    and "invocation db' i = Inr (stored_snapshot (project_public prior (reason_of (db_reasons db) i)) t
           (reason_of (db_reasons db') i) (db_revision db + 1) now)"
    and "\<And>j. j \<noteq> i \<Longrightarrow> invocation db' j = invocation db j"
    and "\<And>j. j \<noteq> i \<Longrightarrow> reason_of (db_reasons db') j = reason_of (db_reasons db) j"
    and "map ir_invocation_id (db_invocations db') = map ir_invocation_id (db_invocations db)"
    and "cm_update c = update_of delivery i (db_revision db + 1) (view_of db i) (view_of db' i)"
    and "db_outbox db' = (case cm_update c of None \<Rightarrow> db_outbox db
           | Some u \<Rightarrow> outbox_after cd publish u wall (db_outbox db))"
    and "db_dedup db' = db_dedup db" and "db_events db' = db_events db"
    and "db_hub_sinks db' = db_hub_sinks db" and "db_revision db + 1 < 2 ^ 63"
proof -
  let ?r = "reason_of (db_reasons db) i"
  obtain row prior t where row: "tbl_lookup ir_invocation_id i (db_invocations db) = Some row"
    and cred: "is_none_or (\<lambda>x. ir_credential row = x) ec"
    and load: "load_row row = Inr prior" and f: "f \<lparr>pri_snapshot = prior, pri_reason = ?r\<rparr> = Inr (Some t)"
    and commit: "commit_transition cd db i (ir_credential row) delivery publish now wall
        (project_public prior ?r) t = Inr (db', c)"
    using tr unfolding apply_transition_Some by blast
  note d = commit_transitionD [OF commit wf_dbD(4) [OF wf]]
  have r: "row \<in> set (db_invocations db)" "ir_invocation_id row = i"
    using tbl_lookup_SomeD [OF row] by auto
  have prior: "wf_snapshot prior" "sn_invocation_id prior = i"
    using wf_dbD(2) [OF wf r(1)] load r(2) by (auto elim!: wf_rowE)
  have id: "sn_invocation_id (tr_snapshot t) = i"
    using keeps_identity [OF f] prior by auto
  have reasons: "reason_of (db_reasons db') j = (if j = i then ReasonEffect_resolve (tr_reason t) ?r
      else reason_of (db_reasons db) j)" for j
    unfolding d(5) by (rule reason_of_after [OF wf_dbD(4) [OF wf]])
  have own: "invocation db' i = Inr (stored_snapshot (project_public prior ?r) t
      (reason_of (db_reasons db') i) (db_revision db + 1) now)"
    using id by (simp add: invocation_def d(4) tbl_lookup_put reasons)
  have views: "view_of db i = Some (project_public prior ?r)"
      "view_of db' i = Some (project_public (stored_snapshot (project_public prior ?r) t
        (reason_of (db_reasons db') i) (db_revision db + 1) now) (reason_of (db_reasons db') i))"
    using row load own by (simp_all add: view_of_def invocation_def)
  show thesis
  proof (rule that)
    show "invocation db i = Inr prior" using row load by (simp add: invocation_def)
    show "is_none_or (credential_of db i) ec"
      using row cred by (cases ec) (simp_all add: credential_of_def)
    show "invocation db' j = invocation db j" if "j \<noteq> i" for j
      using that id by (simp add: invocation_def d(4) tbl_lookup_put)
    show "map ir_invocation_id (db_invocations db') = map ir_invocation_id (db_invocations db)"
      unfolding d(4) using r id by (intro map_key_put) auto
    show "cm_update c = update_of delivery i (db_revision db + 1) (view_of db i) (view_of db' i)"
      unfolding views using d(9) by (auto simp: update_of_def reasons)
  qed (use prior f d own reasons in auto)
qed

lemma transition_views:
  assumes wf: "wf_db db"
    and tr: "apply_transition cd db i ec delivery publish now wall f = Inr (db', Some c)"
  obtains v w where "view_of db i = Some v" "view_of db' i = Some w"
    "cm_update c = update_of delivery i (db_revision db') (Some v) (Some w)"
    "db_revision db' = db_revision db + 1" "db_revision db' < 2 ^ 63"
    "\<And>j. j \<noteq> i \<Longrightarrow> view_of db' j = view_of db j"
proof (rule transition_effect [OF wf tr], goal_cases)
  case (1 prior t)
  obtain v w where "view_of db i = Some v" "view_of db' i = Some w"
    using 1(2,9) by (simp add: view_of_def)
  with 1 show ?case by (intro 1(1) [of v w]) (auto intro: view_of_eqI)
qed

lemma transition_keeps_wf:
  assumes "wf_db db" and "transition cd db i ec delivery publish now wall f = Inr (db', c)"
  shows "wf_db db'"
  using assms transition_wf [OF assms(1)] apply_transition_None [of cd db i ec delivery publish now wall f db']
  by (cases c) (auto simp: transition_Inr)

end

text \<open>The decisions of the broker satisfy the contract.\<close>

lemma snapshot_identityD:
  "snapshot_identity a = snapshot_identity b \<Longrightarrow>
   sn_invocation_id a = sn_invocation_id b \<and> sn_provider a = sn_provider b"
  by (simp add: snapshot_identity_def)

lemma apply_event_identity:
  assumes "apply_event p e r = Inr t"
  shows "sn_invocation_id (tr_snapshot t) = sn_invocation_id (pri_snapshot p)
    \<and> sn_provider (tr_snapshot t) = sn_provider (pri_snapshot p)"
  using assms snapshot_identityD [OF reduce_identity [of "pri_snapshot p" "effective_event (pri_snapshot p) e"]]
  by (auto simp: apply_event_Inr_iff root_result_def child_event_snapshot Let_def split: option.splits)

lemma event_decision_Inr:
  "event_decision e r p = Inr d \<longleftrightarrow> (\<exists>t. apply_event p e r = Inr t \<and> d = Some t)"
  by (cases "apply_event p e r") (auto simp: event_decision_def reject_def)

interpretation event: transition_contract "event_decision e r" for e r
proof
  show "sn_invocation_id (tr_snapshot t) = sn_invocation_id (pri_snapshot p)
      \<and> sn_provider (tr_snapshot t) = sn_provider (pri_snapshot p)"
    if "event_decision e r p = Inr (Some t)" for p t
    using that by (auto simp: event_decision_Inr apply_event_identity)
  show "wf_snapshot (tr_snapshot t)"
    if "event_decision e r p = Inr (Some t)" "wf_snapshot (pri_snapshot p)" for p t
    using that by (auto simp: event_decision_Inr wf_apply_event)
qed

lemma local_mutation_simps [simp]:
  "sn_invocation_id (tr_snapshot (local_mutation p c f)) = sn_invocation_id (f (pri_snapshot p))"
  "sn_provider (tr_snapshot (local_mutation p c f)) = sn_provider (f (pri_snapshot p))"
  "sn_lifecycle (tr_snapshot (local_mutation p c f)) = sn_lifecycle (f (pri_snapshot p))"
  by (simp_all add: local_mutation_def Let_def)

interpretation bind: transition_contract
    "\<lambda>prior. Inr (Some (local_mutation prior False (bind_child_update pid identity)))" for pid identity
  by unfold_locales (auto simp: bind_child_update_def intro: wf_local_mutation)

interpretation exit: transition_contract
    "\<lambda>prior. Inr (Some (local_mutation prior True (mark_exit_update code signal)))" for code signal
  by unfold_locales (auto simp: mark_exit_update_def intro: wf_local_mutation)

interpretation lose: transition_contract "lose_if_dead is_alive" for is_alive
  by unfold_locales (auto simp: lose_if_dead_def mark_lost_def Let_def wf_snapshot_def split: if_splits)

interpretation expire: transition_contract "\<lambda>prior. Inr (expire_stale_working prior now)" for now
  by unfold_locales
    (auto simp: expire_stale_working_def Let_def wf_expire split: if_splits)

section \<open>Operations keep the invariant\<close>

lemma wf_put_row:
  assumes wf: "wf_db db" and s: "wf_snapshot s" "sn_revision s \<le> n" and n: "db_revision db \<le> n"
  shows "wf_db (db\<lparr>db_revision := n,
    db_invocations := tbl_put ir_invocation_id (snapshot_row s c) (db_invocations db)\<rparr>)"
proof -
  have "wf_row n x" if "x \<in> set (tbl_put ir_invocation_id (snapshot_row s c) (db_invocations db))" for x
    using that tbl_put_set [OF wf_dbD(1) [OF wf], of "snapshot_row s c"] wf_snapshot_row [OF s, of c]
      wf_row_mono [OF wf_dbD(2) [OF wf] n] by auto
  moreover have "wf_reasons (tbl_put ir_invocation_id (snapshot_row s c) (db_invocations db)) (db_reasons db)"
    using wf_dbD(3) [OF wf] by (rule wf_reasons_mono) (auto simp: tbl_put_keys)
  ultimately show ?thesis
    using wf wf_outbox_mono [OF wf_dbD(5) [OF wf] n] n
    by (force simp: wf_db_def tbl_put_wf)
qed

lemma register_Inr:
  "register cd db s cred publish wall = Inr (db', n) \<Longrightarrow>
   n = db_revision db + 1 \<and> n < 2 ^ 63 \<and>
   db' = db\<lparr>db_revision := n,
     db_invocations := tbl_put ir_invocation_id (snapshot_row (s\<lparr>sn_revision := n\<rparr>) cred) (db_invocations db),
     db_outbox := outbox_after cd publish
       \<lparr>au_revision = n, au_delivery_id = synthetic_event_id ''register'' (sn_invocation_id s) n,
        au_view = project_public s None, au_changed = changed_public_fields None (project_public s None)\<rparr>
       wall (db_outbox db)\<rparr>"
  by (auto simp: register_def result_bind_Inr next_revision_Inr Let_def persist_snapshot_Inr
      enqueue_transition_outbox)

lemma wf_outbox_update: "wf_db db \<Longrightarrow> wf_outbox (db_revision db) rows \<Longrightarrow> wf_db (db\<lparr>db_outbox := rows\<rparr>)"
  by (auto simp: wf_db_def)

lemma register_wf:
  assumes "wf_db db" and "wf_snapshot s" and "register cd db s cred publish wall = Inr (db', n)"
  shows "wf_db db'"
proof -
  note d = register_Inr [OF assms(3)]
  have "wf_db (db\<lparr>db_revision := n, db_invocations :=
      tbl_put ir_invocation_id (snapshot_row (s\<lparr>sn_revision := n\<rparr>) cred) (db_invocations db)\<rparr>)"
    using assms(1,2) d by (intro wf_put_row) (auto simp: wf_snapshot_def)
  moreover have "wf_outbox n (outbox_after cd publish u wall (db_outbox db))" if "au_revision u = n" for u
    using that wf_outbox_mono [OF wf_dbD(5) [OF assms(1)], of n] d by (intro outbox_after_wf) auto
  ultimately show ?thesis
    using d wf_outbox_update by fastforce
qed

lemma mutate_wf:
  assumes "transition_contract (\<lambda>prior. Inr (Some (local_mutation prior c f)))" and "wf_db db"
    and "mutate_authenticated cd db i cred c f label publish wall = Inr (db', u)"
  shows "wf_db db'"
  using assms(3) transition_contract.transition_keeps_wf [OF assms(1,2)]
  by (auto simp: mutate_authenticated_def result_bind_Inr)

lemma bind_child_wf:
  "wf_db db \<Longrightarrow> bind_child cd db i cred pid identity publish wall = Inr (db', u) \<Longrightarrow> wf_db db'"
  unfolding bind_child_def by (rule mutate_wf [OF bind.transition_contract_axioms])

lemma mark_exit_wf:
  "wf_db db \<Longrightarrow> mark_exit cd db i cred code sig publish wall = Inr (db', u) \<Longrightarrow> wf_db db'"
  unfolding mark_exit_def by (rule mutate_wf [OF exit.transition_contract_axioms])

text \<open>An event is committed once, with its history row; a known event changes nothing.\<close>

lemma apply_event_with_context_cases:
  assumes "apply_event_with_context cd db e r publish wall = Inr (db', u)"
  obtains (duplicate) "ev_event_id e \<in> dd_event_id ` set (db_dedup db)" "db' = db" "u = None"
  | (fresh) db1 c where "ev_event_id e \<notin> dd_event_id ` set (db_dedup db)"
      "ev_event_id e \<notin> nr_event_id ` set (db_events db1)"
      "apply_transition cd db (ev_invocation_id e) None (DeliveryEvent (ev_event_id e)) publish
         wall wall (event_decision e r) = Inr (db1, Some c)"
      "u = cm_update c"
      "db' = db1\<lparr>db_dedup := db_dedup db1 @ [\<lparr>dd_event_id = ev_event_id e, dd_committed_at = wall\<rparr>],
         db_events := db_events db1 @ [\<lparr>nr_event_id = ev_event_id e, nr_invocation_id = ev_invocation_id e,
           nr_revision = cm_revision c, nr_received_at = ev_received_at e, nr_event = e\<rparr>]\<rparr>"
  using assms
  by (auto simp: apply_event_with_context_def result_bind_Inr tbl_lookup_None_iff
      split: option.splits if_splits)

lemma event_wf:
  assumes wf: "wf_db db" and ok: "apply_event_with_context cd db e r publish wall = Inr (db', u)"
  shows "wf_db db'"
  using ok
proof (cases rule: apply_event_with_context_cases)
  case duplicate
  with wf show ?thesis by simp
next
  case (fresh db1 c)
  have wf1: "wf_db db1" using event.transition_wf [OF wf fresh(3)] .
  obtain pv t cred where "commit_transition cd db (ev_invocation_id e) cred
      (DeliveryEvent (ev_event_id e)) publish wall wall pv t = Inr (db1, c)"
    using fresh(3) unfolding apply_transition_Some by blast
  note d = commit_transitionD [OF this wf_dbD(4) [OF wf]]
  show ?thesis
    using wf1 fresh(1,2) d(1,2,7) unfolding fresh(5) by (auto simp: wf_db_def)
qed

lemma commit_cases: "commit db r = (db', v) \<longleftrightarrow>
    (\<exists>e. r = Inl e \<and> db' = db \<and> v = Inl e) \<or> (\<exists>x. r = Inr (db', x) \<and> v = Inr x)"
  by (auto simp: commit_def split: sum.splits)

lemma expire_loop_wf:
  "wf_db db \<Longrightarrow> expire_loop cd publish now wall db ss us = (db', r) \<Longrightarrow> wf_db db'"
proof (induction ss arbitrary: db us)
  case (Cons s ss)
  show ?case
  proof (cases "is_stale s now")
    case True
    obtain db1 v where c: "commit db (transition cd db (sn_invocation_id s) None
        (DeliverySynthetic ''stale_working'') publish now wall
        (\<lambda>prior. Inr (expire_stale_working prior now))) = (db1, v)" by fastforce
    then have "wf_db db1"
      using Cons.prems(1) by (auto simp: commit_cases intro: expire.transition_keeps_wf)
    then show ?thesis
      using Cons True c by (auto split: sum.splits)
  qed (use Cons in auto)
qed simp

lemma expire_sweep_wf:
  "wf_db db \<Longrightarrow> expire_stale_working_at cd db now wall publish = (db', r) \<Longrightarrow> wf_db db'"
  by (auto simp: expire_stale_working_at_def expire_loop_wf split: sum.splits)

text \<open>Reads of a well-formed database never fail.\<close>

lemma collect_Inr_iff:
  "collect f xs = Inr ys \<longleftrightarrow> list_all2 (\<lambda>x y. f x = Inr y) xs ys"
  by (induction xs arbitrary: ys) (auto simp: result_bind_Inr list_all2_Cons1)

lemma collect_total: "(\<And>x. x \<in> set xs \<Longrightarrow> f x = Inr (g x)) \<Longrightarrow> collect f xs = Inr (map g xs)"
  by (induction xs) auto

definition loaded :: "InvocationRow \<Rightarrow> InvocationSnapshot" where
  "loaded r = (case load_row r of Inr s \<Rightarrow> s | Inl _ \<Rightarrow> undefined)"

lemma load_row_loaded: "wf_row n r \<Longrightarrow> load_row r = Inr (loaded r)"
  by (erule wf_rowE) (simp add: loaded_def)

lemma snapshot_total: "wf_db db \<Longrightarrow> snapshot db = Inr (db_revision db, map loaded (db_invocations db))"
  unfolding snapshot_def
  by (subst collect_total [where g = loaded]) (auto intro: load_row_loaded wf_dbD(2))

lemma loaded_facts:
  assumes "wf_db db" and "r \<in> set (db_invocations db)"
  shows "wf_snapshot (loaded r)" and "sn_invocation_id (loaded r) = ir_invocation_id r"
    and "invocation db (ir_invocation_id r) = Inr (loaded r)"
    and "sn_revision (loaded r) \<le> db_revision db"
proof -
  from wf_dbD(2) [OF assms] show "wf_snapshot (loaded r)" "sn_invocation_id (loaded r) = ir_invocation_id r"
    "sn_revision (loaded r) \<le> db_revision db"
    by (auto elim!: wf_rowE simp: loaded_def)
  show "invocation db (ir_invocation_id r) = Inr (loaded r)"
    using tbl_lookup_in [OF wf_dbD(1) [OF assms(1)] assms(2)] load_row_loaded [OF wf_dbD(2) [OF assms]]
    by (simp add: invocation_def)
qed

lemma invocation_InrE:
  assumes "invocation db i = Inr s" and "wf_db db"
  obtains r where "r \<in> set (db_invocations db)" "ir_invocation_id r = i" "loaded r = s"
  using assms by (auto simp: invocation_def loaded_def split: option.splits dest: tbl_lookup_SomeD)

section \<open>Reconciliation\<close>

lemma restore_unconfirmed_Inr:
  "restore_unconfirmed db s = Inr (db', x) \<Longrightarrow>
   \<exists>c. db' = db\<lparr>db_revision := db_revision db + 1,
     db_invocations := tbl_put ir_invocation_id (snapshot_row
       (s\<lparr>sn_activity_confirmation := RestoredUnconfirmed, sn_revision := db_revision db + 1\<rparr>) c)
       (db_invocations db)\<rparr>"
  by (auto simp: restore_unconfirmed_def result_bind_Inr next_revision_Inr persist_snapshot_Inr
      split: option.splits)

lemma restore_unconfirmed_wf:
  assumes "wf_db db" "wf_snapshot s" "restore_unconfirmed db s = Inr (db', x)"
  shows "wf_db db'"
  using restore_unconfirmed_Inr [OF assms(3)] assms(1,2)
  by (auto intro!: wf_put_row simp: wf_snapshot_def)

text \<open>
  One round of the loop for a snapshot \<open>s\<close>: it fails or goes on with a database in which only
  the row of \<open>s\<close> may differ.
\<close>

definition reconcile_one ::
    "Codec \<Rightarrow> (u32 \<Rightarrow> string option \<Rightarrow> bool) \<Rightarrow> Publish option \<Rightarrow> timestamp \<Rightarrow> Db
     \<Rightarrow> InvocationSnapshot \<Rightarrow> Db \<times> (StorageError + nat)" where
  "reconcile_one cd is_alive publish wall db s =
     (if live (sn_lifecycle s) \<and> process_is_alive is_alive s
         \<and> sn_activity s \<in> {Working, WaitingInput, WaitingApproval}
         \<and> sn_activity_confirmation s \<noteq> RestoredUnconfirmed
      then commit db (result_bind (restore_unconfirmed db s) (\<lambda>(db', _). Inr (db', 1)))
      else if live (sn_lifecycle s) \<and> \<not> process_is_alive is_alive s
      then commit db (result_bind (transition cd db (sn_invocation_id s) None
             (DeliverySynthetic ''reconcile_lost'') publish wall wall (lose_if_dead is_alive))
             (\<lambda>(db', lost). Inr (db', if lost \<noteq> None then 1 else 0)))
      else (db, Inr 0))"

lemma reconcile_loop_Cons:
  "reconcile_loop cd is_alive publish wall db (s # rest) k =
     (case reconcile_one cd is_alive publish wall db s of
        (db', Inl e) \<Rightarrow> (db', Inl e)
      | (db', Inr m) \<Rightarrow> reconcile_loop cd is_alive publish wall db' rest (k + m))"
  by (auto simp: reconcile_one_def commit_def result_bind_def split: sum.splits prod.splits)

lemma reconcile_one_wf:
  assumes "wf_db db" "wf_snapshot s" "reconcile_one cd is_alive publish wall db s = (db', r)"
  shows "wf_db db'"
  using assms
  by (auto simp: reconcile_one_def commit_cases result_bind_Inr split: if_splits
      intro: restore_unconfirmed_wf lose.transition_keeps_wf)

lemma reconcile_loop_wf:
  "wf_db db \<Longrightarrow> \<forall>s\<in>set ss. wf_snapshot s \<Longrightarrow>
   reconcile_loop cd is_alive publish wall db ss k = (db', r) \<Longrightarrow> wf_db db'"
proof (induction ss arbitrary: db k)
  case (Cons s ss)
  obtain db1 r1 where one: "reconcile_one cd is_alive publish wall db s = (db1, r1)" by fastforce
  then have "wf_db db1" using reconcile_one_wf [OF Cons.prems(1) _ one] Cons.prems(2) by simp
  with one Cons show ?case
    by (cases r1) (auto simp: reconcile_loop_Cons simp del: reconcile_loop.simps(2))
qed simp

lemma prune_stopped_wf: "wf_db db \<Longrightarrow> wf_db (prune_stopped db cutoff)"
proof -
  assume wf: "wf_db db"
  let ?gone = "\<lambda>r. is_some_and (\<lambda>t. t < cutoff) (ir_stopped_at r)"
  have "wf_reasons (filter (\<lambda>r. \<not> ?gone r) (db_invocations db))
      (filter (\<lambda>r. rr_invocation_id r \<notin> ir_invocation_id ` set (filter ?gone (db_invocations db))) (db_reasons db))"
    using wf_dbD(3) [OF wf] by (fastforce simp: wf_reasons_def distinct_map_filter)
  with wf show ?thesis
    by (auto simp: prune_stopped_def Let_def wf_db_def tbl_filter_wf)
qed

lemma reconcile_cases:
  assumes "reconcile cd sub_days db is_alive d publish wall = (db', Inr n)" and "wf_db db"
  obtains db1 db2 k us cutoff where
    "reconcile_loop cd is_alive publish wall db (map loaded (db_invocations db)) 0 = (db1, Inr k)"
    "expire_stale_working_at cd db1 wall wall publish = (db2, Inr us)" "db' = prune_stopped db2 cutoff"
  using assms by (auto simp: reconcile_def snapshot_total split: prod.splits sum.splits option.splits)

lemma reconcile_wf:
  assumes wf: "wf_db db" and r: "reconcile cd sub_days db is_alive d publish wall = (db', r)"
  shows "wf_db db'"
proof -
  obtain db1 r1 where one: "reconcile_loop cd is_alive publish wall db (map loaded (db_invocations db)) 0
      = (db1, r1)" by fastforce
  have wf1: "wf_db db1"
    using reconcile_loop_wf [OF wf _ one] loaded_facts(1) [OF wf] by auto
  obtain db2 r2 where two: "expire_stale_working_at cd db1 wall wall publish = (db2, r2)" by fastforce
  have "wf_db db2" using expire_sweep_wf [OF wf1 two] .
  with r one two wf1 show ?thesis
    by (auto simp: reconcile_def snapshot_total [OF wf] prune_stopped_wf
        split: sum.splits option.splits)
qed

end
