(* ===== verification/Storage_Sweeps.thy ===== *)
theory Storage_Sweeps
  imports Storage_Lemmas
begin

text \<open>
  The two sweeps of the store, reconciliation at start-up and the expiry of silent work. Both run
  one transaction per invocation read at the beginning. The contract of such a round is stated
  once: it settles its own invocation and leaves the others alone; a sweep then settles all.
\<close>

fun sweep_all ::
    "(Db \<Rightarrow> InvocationSnapshot \<Rightarrow> Db \<times> (StorageError + 'r)) \<Rightarrow> Db \<Rightarrow> InvocationSnapshot list
     \<Rightarrow> Db \<times> (StorageError + 'r list)" where
  "sweep_all one db [] = (db, Inr [])"
| "sweep_all one db (s # ss) =
     (case one db s of
        (db', Inl e) \<Rightarrow> (db', Inl e)
      | (db', Inr x) \<Rightarrow>
          (case sweep_all one db' ss of
             (db'', Inl e) \<Rightarrow> (db'', Inl e)
           | (db'', Inr xs) \<Rightarrow> (db'', Inr (x # xs))))"

lemma rest_unchanged:
  assumes "distinct (map sn_invocation_id (s # ss))"
    and "\<forall>u\<in>set (s # ss). invocation db (sn_invocation_id u) = Inr u"
    and "\<And>j. j \<noteq> sn_invocation_id s \<Longrightarrow> invocation db' j = invocation db j"
  shows "\<forall>u\<in>set ss. invocation db' (sn_invocation_id u) = Inr u"
proof
  fix u assume u: "u \<in> set ss"
  then have "sn_invocation_id u \<noteq> sn_invocation_id s" using assms(1) by (metis distinct.simps(2) image_eqI list.set_map list.simps(9))
  with u assms(2,3) show "invocation db' (sn_invocation_id u) = Inr u" by simp
qed

locale row_sweep =
  fixes one :: "Db \<Rightarrow> InvocationSnapshot \<Rightarrow> Db \<times> (StorageError + 'r)"
    and settled :: "InvocationSnapshot \<Rightarrow> bool"
  assumes one_wf: "wf_db db \<Longrightarrow> invocation db (sn_invocation_id s) = Inr s \<Longrightarrow>
        one db s = (db', r) \<Longrightarrow> wf_db db'"
    and one_other: "wf_db db \<Longrightarrow> invocation db (sn_invocation_id s) = Inr s \<Longrightarrow>
        one db s = (db', r) \<Longrightarrow> j \<noteq> sn_invocation_id s \<Longrightarrow> invocation db' j = invocation db j"
    and one_own: "wf_db db \<Longrightarrow> invocation db (sn_invocation_id s) = Inr s \<Longrightarrow>
        one db s = (db', Inr x) \<Longrightarrow> \<exists>s'. invocation db' (sn_invocation_id s) = Inr s' \<and> settled s'"
begin

lemma sweep_settles:
  assumes "wf_db db" and "distinct (map sn_invocation_id ss)"
    and "\<forall>s\<in>set ss. invocation db (sn_invocation_id s) = Inr s"
    and "sweep_all one db ss = (db', Inr xs)"
  shows "wf_db db' \<and> (\<forall>j. j \<notin> sn_invocation_id ` set ss \<longrightarrow> invocation db' j = invocation db j)
    \<and> (\<forall>j\<in>sn_invocation_id ` set ss. \<exists>s'. invocation db' j = Inr s' \<and> settled s')"
  using assms
proof (induction ss arbitrary: db xs)
  case (Cons s ss)
  obtain db1 x ys where one: "one db s = (db1, Inr x)" and rest: "sweep_all one db1 ss = (db', Inr ys)"
    using Cons.prems(4) by (auto split: prod.splits sum.splits)
  have s: "invocation db (sn_invocation_id s) = Inr s" using Cons.prems(3) by simp
  note other = one_other [OF Cons.prems(1) s one]
  have same: "\<forall>u\<in>set ss. invocation db1 (sn_invocation_id u) = Inr u"
    by (rule rest_unchanged [OF Cons.prems(2,3) other])
  have ih: "wf_db db' \<and> (\<forall>j. j \<notin> sn_invocation_id ` set ss \<longrightarrow> invocation db' j = invocation db1 j)
      \<and> (\<forall>j\<in>sn_invocation_id ` set ss. \<exists>s'. invocation db' j = Inr s' \<and> settled s')"
    using Cons.IH [OF one_wf [OF Cons.prems(1) s one] _ same rest] Cons.prems(2) by simp
  have "sn_invocation_id s \<notin> sn_invocation_id ` set ss" using Cons.prems(2) by simp
  then have "\<exists>s'. invocation db' (sn_invocation_id s) = Inr s' \<and> settled s'"
    using ih one_own [OF Cons.prems(1) s one] by metis
  with ih other show ?case by auto
qed simp

end

text \<open>A sweep over what a snapshot of the store returned covers every invocation.\<close>

lemma loaded_list:
  assumes "wf_db db"
  shows "distinct (map sn_invocation_id (map loaded (db_invocations db)))"
    and "\<forall>s\<in>set (map loaded (db_invocations db)). invocation db (sn_invocation_id s) = Inr s"
    and "invocation db j = Inr s \<Longrightarrow> j \<in> sn_invocation_id ` set (map loaded (db_invocations db))"
proof -
  have "map sn_invocation_id (map loaded (db_invocations db)) = map ir_invocation_id (db_invocations db)"
    using loaded_facts(2) [OF assms] by simp
  then show "distinct (map sn_invocation_id (map loaded (db_invocations db)))"
    using wf_dbD(1) [OF assms] by (simp only:)
  show "\<forall>s\<in>set (map loaded (db_invocations db)). invocation db (sn_invocation_id s) = Inr s"
    using loaded_facts(2,3) [OF assms] by auto
  show "j \<in> sn_invocation_id ` set (map loaded (db_invocations db))" if "invocation db j = Inr s"
    using invocation_InrE [OF that assms] loaded_facts(2) [OF assms]
    by (metis image_eqI list.set_map)
qed

lemma apply_transition_declined:
  assumes "apply_transition cd db i ec delivery publish now wall f = Inr (db', None)"
    and "invocation db i = Inr s"
  shows "f \<lparr>pri_snapshot = s, pri_reason = reason_of (db_reasons db) i\<rparr> = Inr None"
  using assms by (auto simp: apply_transition_def invocation_def result_bind_Inr
      current_status_reason_Inr split: option.splits if_splits)

section \<open>Reconciliation\<close>

definition dead :: "(u32 \<Rightarrow> string option \<Rightarrow> bool) \<Rightarrow> InvocationSnapshot \<Rightarrow> bool" where
  "dead is_alive s \<longleftrightarrow> live (sn_lifecycle s) \<and> \<not> process_is_alive is_alive s"

lemma dead_cong: "sn_lifecycle s' = sn_lifecycle s \<Longrightarrow> sn_process s' = sn_process s \<Longrightarrow>
    dead is_alive s' = dead is_alive s"
  by (simp add: dead_def process_is_alive_def)

lemma lose_transition:
  assumes wf: "wf_db db" and s: "invocation db i = Inr s" and d: "dead is_alive s"
    and tr: "transition cd db i None delivery publish now wall (lose_if_dead is_alive) = Inr (db', c)"
  shows "\<exists>s'. invocation db' i = Inr s' \<and> \<not> dead is_alive s'"
    and "j \<noteq> i \<Longrightarrow> invocation db' j = invocation db j"
proof -
  have "c \<noteq> None"
    using apply_transition_declined [of cd db i None delivery publish now wall "lose_if_dead is_alive" db' s]
      tr s d by (auto simp: transition_Inr lose_if_dead_def dead_def)
  then obtain c' where "apply_transition cd db i None delivery publish now wall (lose_if_dead is_alive)
      = Inr (db', Some c')" using tr by (auto simp: transition_Inr)
  note e = lose.transition_effect [OF wf this]
  show "\<exists>s'. invocation db' i = Inr s' \<and> \<not> dead is_alive s'"
    by (rule e) (auto simp: lose_if_dead_def dead_def live_def mark_lost_def Let_def split: if_splits)
  show "j \<noteq> i \<Longrightarrow> invocation db' j = invocation db j" by (rule e)
qed

lemma restore_keeps:
  assumes "invocation db (sn_invocation_id s) = Inr s" and "restore_unconfirmed db s = Inr (db', x)"
  shows "\<exists>s'. invocation db' (sn_invocation_id s) = Inr s' \<and> dead is_alive s' = dead is_alive s"
    and "j \<noteq> sn_invocation_id s \<Longrightarrow> invocation db' j = invocation db j"
  using restore_unconfirmed_Inr [OF assms(2)] assms(1)
  by (auto simp: invocation_def tbl_lookup_put dead_def process_is_alive_def)

interpretation reconciling: row_sweep "reconcile_one cd is_alive publish wall" "\<lambda>s. \<not> dead is_alive s"
  for cd is_alive publish wall
proof
  fix db s db' r j x
  assume wf: "wf_db db" and s: "invocation db (sn_invocation_id s) = Inr s"
  have ws: "wf_snapshot s" using invocation_InrE [OF s wf] loaded_facts(1) [OF wf] by metis
  show "wf_db db'" if "reconcile_one cd is_alive publish wall db s = (db', r)"
    using reconcile_one_wf [OF wf ws that] .
  show "invocation db' j = invocation db j"
    if "reconcile_one cd is_alive publish wall db s = (db', r)" "j \<noteq> sn_invocation_id s"
    using that restore_keeps(2) [OF s] lose_transition(2) [OF wf s]
    by (auto simp: reconcile_one_def commit_cases result_bind_Inr dead_def split: if_splits)
  show "\<exists>s'. invocation db' (sn_invocation_id s) = Inr s' \<and> \<not> dead is_alive s'"
    if one: "reconcile_one cd is_alive publish wall db s = (db', Inr x)"
  proof (cases "dead is_alive s")
    case True
    with one lose_transition(1) [OF wf s True] show ?thesis
      by (auto simp: reconcile_one_def commit_cases result_bind_Inr dead_def split: if_splits)
  next
    case False
    with one s restore_keeps(1) [OF s, of _ _ is_alive] show ?thesis
      by (auto simp: reconcile_one_def commit_cases result_bind_Inr dead_def split: if_splits)
  qed
qed

lemma reconcile_loop_sweep:
  "reconcile_loop cd is_alive publish wall db ss k = (db', Inr n) \<Longrightarrow>
   \<exists>xs. sweep_all (reconcile_one cd is_alive publish wall) db ss = (db', Inr xs) \<and> n = k + sum_list xs"
proof (induction ss arbitrary: db k)
  case (Cons s ss)
  then obtain db1 m where one: "reconcile_one cd is_alive publish wall db s = (db1, Inr m)"
    and rest: "reconcile_loop cd is_alive publish wall db1 ss (k + m) = (db', Inr n)"
    by (auto simp: reconcile_loop_Cons simp del: reconcile_loop.simps(2) split: prod.splits sum.splits)
  from Cons.IH [OF rest] one show ?case by auto
qed simp

section \<open>Expiry of silent work\<close>

definition expire_one ::
    "Codec \<Rightarrow> Publish option \<Rightarrow> timestamp \<Rightarrow> timestamp \<Rightarrow> Db \<Rightarrow> InvocationSnapshot
     \<Rightarrow> Db \<times> (StorageError + AppliedUpdate option)" where
  "expire_one cd publish now wall db s =
     (if \<not> is_stale s now then (db, Inr None)
      else commit db (result_bind (transition cd db (sn_invocation_id s) None
             (DeliverySynthetic ''stale_working'') publish now wall
             (\<lambda>prior. Inr (expire_stale_working prior now)))
             (\<lambda>(db', c). Inr (db', Option.bind c cm_update))))"

lemma expire_loop_sweep:
  "expire_loop cd publish now wall db ss us = (db', Inr vs) \<Longrightarrow>
   \<exists>xs. sweep_all (expire_one cd publish now wall) db ss = (db', Inr xs)
      \<and> vs = us @ List.map_filter (\<lambda>x. x) xs"
proof (induction ss arbitrary: db us)
  case (Cons s ss)
  obtain db1 m where one: "expire_one cd publish now wall db s = (db1, Inr m)"
    and rest: "expire_loop cd publish now wall db1 ss (case m of None \<Rightarrow> us | Some u \<Rightarrow> us @ [u]) = (db', Inr vs)"
    using Cons.prems
    by (auto simp: expire_one_def commit_def split: prod.splits sum.splits if_splits option.splits)
  from Cons.IH [OF rest] one show ?case
    by (cases m) (auto simp: map_filter_simps)
qed (simp add: map_filter_simps)

lemma is_stale_stored [simp]:
  "is_stale (stored_snapshot pv t r n now') now = is_stale (tr_snapshot t) now"
  using stored_snapshot_cases [of pv t r n now']
  by (auto simp: is_stale_def is_stale_working_def has_stale_children_def)

lemma expire_fresh:
  assumes "expire_stale_working p now = Some t"
  shows "\<not> is_stale (tr_snapshot t) now" and "sn_lifecycle (tr_snapshot t) = sn_lifecycle (pri_snapshot p)"
    and "sn_process (tr_snapshot t) = sn_process (pri_snapshot p)"
  using assms by (auto simp: expire_stale_working_def Let_def is_stale_def has_stale_children_def
      is_stale_working_def list_ex_iff split: if_splits)

lemma expire_stale_working_None: "expire_stale_working p now = None \<longleftrightarrow> \<not> is_stale (pri_snapshot p) now"
  by (simp add: expire_stale_working_def Let_def is_stale_def)

lemma expire_transition:
  assumes wf: "wf_db db" and s: "invocation db i = Inr s" and d: "is_stale s now"
    and tr: "transition cd db i None delivery publish now wall
      (\<lambda>prior. Inr (expire_stale_working prior now)) = Inr (db', c)"
  shows "\<exists>s'. invocation db' i = Inr s' \<and> \<not> is_stale s' now
      \<and> sn_lifecycle s' = sn_lifecycle s \<and> sn_process s' = sn_process s"
    and "j \<noteq> i \<Longrightarrow> invocation db' j = invocation db j"
proof -
  have "c \<noteq> None"
    using apply_transition_declined [of cd db i None delivery publish now wall
        "\<lambda>prior. Inr (expire_stale_working prior now)" db' s] tr s d
    by (auto simp: transition_Inr expire_stale_working_None)
  then obtain c' where "apply_transition cd db i None delivery publish now wall
      (\<lambda>prior. Inr (expire_stale_working prior now)) = Inr (db', Some c')"
    using tr by (auto simp: transition_Inr)
  note e = expire.transition_effect [OF wf this]
  show "\<exists>s'. invocation db' i = Inr s' \<and> \<not> is_stale s' now
      \<and> sn_lifecycle s' = sn_lifecycle s \<and> sn_process s' = sn_process s"
  proof (rule e)
    fix prior t
    assume p: "invocation db i = Inr prior"
      and f: "Inr (expire_stale_working \<lparr>pri_snapshot = prior, pri_reason = reason_of (db_reasons db) i\<rparr> now)
        = (Inr (Some t) :: StorageError + Transition option)"
      and inv: "invocation db' i = Inr (stored_snapshot (project_public prior (reason_of (db_reasons db) i)) t
           (reason_of (db_reasons db') i) (db_revision db + 1) now)"
    from f have "expire_stale_working \<lparr>pri_snapshot = prior, pri_reason = reason_of (db_reasons db) i\<rparr> now
      = Some t" by simp
    from expire_fresh [OF this] p inv s show ?thesis by simp
  qed
  show "j \<noteq> i \<Longrightarrow> invocation db' j = invocation db j" by (rule e)
qed

interpretation expiring: row_sweep "expire_one cd publish now wall" "\<lambda>s. \<not> is_stale s now"
  for cd publish now wall
proof
  fix db s db' r j x
  assume wf: "wf_db db" and s: "invocation db (sn_invocation_id s) = Inr s"
  show "wf_db db'" if "expire_one cd publish now wall db s = (db', r)"
    using that wf by (auto simp: expire_one_def commit_cases result_bind_Inr split: if_splits
        intro: expire.transition_keeps_wf)
  show "invocation db' j = invocation db j"
    if "expire_one cd publish now wall db s = (db', r)" "j \<noteq> sn_invocation_id s"
    using that expire_transition(2) [OF wf s]
    by (auto simp: expire_one_def commit_cases result_bind_Inr split: if_splits)
  show "\<exists>s'. invocation db' (sn_invocation_id s) = Inr s' \<and> \<not> is_stale s' now"
    if "expire_one cd publish now wall db s = (db', Inr x)"
    using that s expire_transition(1) [OF wf s]
    by (fastforce simp: expire_one_def commit_cases result_bind_Inr split: if_splits)
qed

text \<open>Expiry does not touch what reconciliation has established.\<close>

lemma expire_sweep_keeps:
  assumes "wf_db db" and "\<forall>s\<in>set ss. invocation db (sn_invocation_id s) = Inr s"
    and "distinct (map sn_invocation_id ss)"
    and "sweep_all (expire_one cd publish now wall) db ss = (db', Inr xs)"
    and "invocation db' j = Inr s'"
  shows "\<exists>s. invocation db j = Inr s \<and> sn_lifecycle s' = sn_lifecycle s \<and> sn_process s' = sn_process s"
  using assms
proof (induction ss arbitrary: db xs)
  case (Cons s ss)
  obtain db1 x ys where one: "expire_one cd publish now wall db s = (db1, Inr x)"
    and rest: "sweep_all (expire_one cd publish now wall) db1 ss = (db', Inr ys)"
    using Cons.prems(4) by (auto split: prod.splits sum.splits)
  have s: "invocation db (sn_invocation_id s) = Inr s" using Cons.prems(2) by simp
  note other = expiring.one_other [OF Cons.prems(1) s one]
  have "\<forall>u\<in>set ss. invocation db1 (sn_invocation_id u) = Inr u"
    by (rule rest_unchanged [OF Cons.prems(3,2) other])
  then obtain u where u: "invocation db1 j = Inr u" "sn_lifecycle s' = sn_lifecycle u"
      "sn_process s' = sn_process u"
    using Cons.IH [OF expiring.one_wf [OF Cons.prems(1) s one] _ _ rest Cons.prems(5)] Cons.prems(3) by auto
  show ?case
  proof (cases "j = sn_invocation_id s")
    case False
    with u other show ?thesis by auto
  next
    case True
    with u s one expire_transition(1) [OF Cons.prems(1) s] show ?thesis
      by (fastforce simp: expire_one_def commit_cases result_bind_Inr split: if_splits)
  qed
qed auto

end
