(* ===== verification/Storage_Props.thy ===== *)
theory Storage_Props
  imports Storage_Sweeps
begin

text \<open>
  What the store promises: its invariant in every reachable state, exactly-once application of
  events, updates that describe exactly the visible change, authentication, the bounded outbox and
  the outcome of the sweeps.
\<close>

section \<open>The broker as a transition system\<close>

text \<open>
  One step is one call of the store that commits, with any arguments the daemon may pass. A
  registered snapshot is well-formed: the wrapper that registers it builds it with no children and
  no source cursors, and derives its status.
\<close>

inductive broker_step :: "Codec \<Rightarrow> Db \<Rightarrow> Db \<Rightarrow> bool" for cd where
  step_register: "wf_snapshot s \<Longrightarrow> register cd db s cred publish wall = Inr (db', n) \<Longrightarrow> broker_step cd db db'"
| step_bind: "bind_child cd db i cred pid identity publish wall = Inr (db', u) \<Longrightarrow> broker_step cd db db'"
| step_exit: "mark_exit cd db i cred code sig publish wall = Inr (db', u) \<Longrightarrow> broker_step cd db db'"
| step_event: "apply_event_with_context cd db e r publish wall = Inr (db', u) \<Longrightarrow> broker_step cd db db'"
| step_expire: "expire_stale_working_at cd db now wall publish = (db', res) \<Longrightarrow> broker_step cd db db'"
| step_reconcile: "reconcile cd sub_days db is_alive d publish wall = (db', n) \<Longrightarrow> broker_step cd db db'"
| step_due: "hub_snapshot_due db sink = (db', b) \<Longrightarrow> broker_step cd db db'"
| step_delivered: "broker_step cd db (hub_snapshot_delivered db sink n)"
| step_reset: "broker_step cd db (hub_reset_snapshot db sink)"
| step_acknowledge: "broker_step cd db (acknowledge db sink event)"
| step_retry: "broker_step cd db (retry db sink event attempts wall)"

definition broker_reachable :: "Codec \<Rightarrow> Db \<Rightarrow> Db \<Rightarrow> bool" where
  "broker_reachable cd = (broker_step cd)\<^sup>*\<^sup>*"

lemma retry_wf: "wf_db db \<Longrightarrow> wf_db (retry db sink event attempts wall)"
proof -
  let ?f = "\<lambda>r. if outbox_key r = (sink, event)
      then r\<lparr>ob_attempts := ob_attempts r + 1, ob_next_attempt_at := wall + seconds (retry_delay attempts)\<rparr>
      else r"
  assume wf: "wf_db db"
  have key: "outbox_key (?f r) = outbox_key r" "ob_sink_name (?f r) = ob_sink_name r"
      "ob_revision (?f r) = ob_revision r" for r
    by (simp_all add: outbox_key_def)
  have "sink_load (map ?f rows) x = sink_load rows x" for rows x
    by (induction rows) (simp_all add: sink_load_def key)
  with wf_dbD(5) [OF wf] have "wf_outbox (db_revision db) (map ?f (db_outbox db))"
    unfolding wf_outbox_def by (simp add: comp_def key) auto
  with wf show ?thesis unfolding retry_def by (rule wf_outbox_update)
qed

lemma hub_sinks_wf: "wf_db db \<Longrightarrow> tbl_wf hs_sink_name rows \<Longrightarrow> wf_db (db\<lparr>db_hub_sinks := rows\<rparr>)"
  by (auto simp: wf_db_def)

lemma hub_snapshot_due_wf: "wf_db db \<Longrightarrow> hub_snapshot_due db sink = (db', b) \<Longrightarrow> wf_db db'"
  by (auto simp: hub_snapshot_due_def tbl_lookup_None_iff wf_db_def split: option.splits)

lemma hub_put_wf:
  "wf_db db \<Longrightarrow> wf_db (db\<lparr>db_hub_sinks := tbl_put hs_sink_name r (db_hub_sinks db)\<rparr>)"
  by (rule hub_sinks_wf) (auto simp: wf_db_def tbl_put_wf)

lemma broker_step_wf: "broker_step cd db db' \<Longrightarrow> wf_db db \<Longrightarrow> wf_db db'"
proof (induction rule: broker_step.induct)
  case (step_delivered db sink n)
  let ?db = "db\<lparr>db_hub_sinks := tbl_put hs_sink_name
      \<lparr>hs_sink_name = sink, hs_snapshot_revision = Some n\<rparr> (db_hub_sinks db)\<rparr>"
  have "wf_db ?db" using step_delivered by (rule hub_put_wf)
  then have "wf_db (?db\<lparr>db_outbox :=
      filter (\<lambda>r. \<not> (ob_sink_name r = sink \<and> ob_revision r \<le> n)) (db_outbox ?db)\<rparr>)"
    by (intro wf_outbox_update wf_outbox_filter wf_dbD(5))
  then show ?case by (simp add: hub_snapshot_delivered_def)
next
  case (step_acknowledge db sink event)
  then show ?case
    unfolding acknowledge_def tbl_delete_def by (intro wf_outbox_update wf_outbox_filter) (auto simp: wf_db_def)
qed (auto intro: register_wf bind_child_wf mark_exit_wf event_wf expire_sweep_wf reconcile_wf
    hub_snapshot_due_wf retry_wf simp: hub_reset_snapshot_def hub_put_wf)

lemma broker_reachable_wf: "broker_reachable cd db db' \<Longrightarrow> wf_db db \<Longrightarrow> wf_db db'"
  unfolding broker_reachable_def by (induction rule: rtranclp_induct) (auto intro: broker_step_wf)

lemma wf_Db_empty: "wf_db Db_empty"
  by (simp add: wf_db_def Db_empty_def wf_reasons_def wf_outbox_def sink_load_def)

section \<open>Revisions and the event history only grow\<close>

definition extends :: "Db \<Rightarrow> Db \<Rightarrow> bool" where
  "extends db db' \<longleftrightarrow> db_revision db \<le> db_revision db' \<and> set (db_dedup db) \<subseteq> set (db_dedup db')
     \<and> set (db_events db) \<subseteq> set (db_events db')"

lemma extends_refl [simp]: "extends db db" by (simp add: extends_def)

lemma extends_trans: "extends a b \<Longrightarrow> extends b c \<Longrightarrow> extends a c" by (auto simp: extends_def)

lemma commit_transition_extends:
  "commit_transition cd db i cred delivery publish now wall pv t = Inr (db', c) \<Longrightarrow> extends db db'"
  by (auto simp: commit_transition_def result_bind_Inr write_reason_Inr next_revision_Inr
      persist_snapshot_Inr enqueue_transition_outbox extends_def Let_def case_prod_beta
      split: if_splits)

lemma transition_extends:
  "transition cd db i ec delivery publish now wall f = Inr (db', c) \<Longrightarrow> extends db db'"
  using apply_transition_None [of cd db i ec delivery publish now wall f db']
  by (cases c) (auto simp: transition_Inr apply_transition_Some intro: commit_transition_extends)

lemma mutate_extends:
  "mutate_authenticated cd db i cred c f label publish wall = Inr (db', u) \<Longrightarrow> extends db db'"
  by (auto simp: mutate_authenticated_def result_bind_Inr intro: transition_extends)

lemma event_extends:
  assumes "apply_event_with_context cd db e r publish wall = Inr (db', u)"
  shows "extends db db'"
  using assms
proof (cases rule: apply_event_with_context_cases)
  case (fresh db1 c)
  have "extends db db1"
    using transition_extends [of cd db "ev_invocation_id e" None] fresh(3) by (auto simp: transition_Inr)
  then show ?thesis unfolding fresh(5) by (auto simp: extends_def)
qed simp

lemma expire_loop_extends:
  "expire_loop cd publish now wall db ss us = (db', r) \<Longrightarrow> extends db db'"
proof (induction ss arbitrary: db us)
  case (Cons s ss)
  show ?case
  proof (cases "is_stale s now")
    case True
    obtain db1 v where c: "commit db (transition cd db (sn_invocation_id s) None
        (DeliverySynthetic ''stale_working'') publish now wall
        (\<lambda>prior. Inr (expire_stale_working prior now))) = (db1, v)" by fastforce
    then have "extends db db1" by (auto simp: commit_cases intro: transition_extends)
    then show ?thesis
      using Cons True c by (auto split: sum.splits intro: extends_trans)
  qed (use Cons in auto)
qed simp

lemma expire_sweep_extends:
  "expire_stale_working_at cd db now wall publish = (db', r) \<Longrightarrow> extends db db'"
  by (auto simp: expire_stale_working_at_def expire_loop_extends split: sum.splits)

lemma reconcile_one_extends:
  "reconcile_one cd is_alive publish wall db s = (db', r) \<Longrightarrow> extends db db'"
  by (auto simp: reconcile_one_def commit_cases result_bind_Inr extends_def split: if_splits
      dest!: restore_unconfirmed_Inr transition_extends)

lemma reconcile_loop_extends:
  "reconcile_loop cd is_alive publish wall db ss k = (db', r) \<Longrightarrow> extends db db'"
proof (induction ss arbitrary: db k)
  case (Cons s ss)
  obtain db1 r1 where one: "reconcile_one cd is_alive publish wall db s = (db1, r1)" by fastforce
  with Cons reconcile_one_extends [OF one] show ?case
    by (cases r1) (auto simp: reconcile_loop_Cons simp del: reconcile_loop.simps(2) intro: extends_trans)
qed simp

lemma prune_stopped_extends [simp]: "extends db (prune_stopped db cutoff)"
  by (simp add: prune_stopped_def extends_def Let_def)

lemma reconcile_extends:
  "reconcile cd sub_days db is_alive d publish wall = (db', r) \<Longrightarrow> extends db db'"
  by (auto simp: reconcile_def split: sum.splits prod.splits option.splits
      dest!: reconcile_loop_extends expire_sweep_extends intro: extends_trans)

lemma broker_step_extends: "broker_step cd db db' \<Longrightarrow> extends db db'"
proof (induction rule: broker_step.induct)
  case (step_register s db cred publish wall db' n)
  then show ?case using register_Inr [OF step_register(2)] by (simp add: extends_def)
qed (auto simp: bind_child_def mark_exit_def extends_def hub_snapshot_due_def hub_snapshot_delivered_def
      hub_reset_snapshot_def acknowledge_def retry_def split: option.splits
    dest!: mutate_extends event_extends expire_sweep_extends reconcile_extends)

lemma broker_reachable_extends: "broker_reachable cd db db' \<Longrightarrow> extends db db'"
  unfolding broker_reachable_def
  by (induction rule: rtranclp_induct) (auto intro: extends_trans broker_step_extends)

section \<open>Transitions that cannot fail\<close>

lemma finalize_simps:
  "fst (finalize pv s r now) \<in> {s, s\<lparr>sn_updated_at := now\<rparr>}"
  by (simp add: finalize_def Let_def)

lemma commit_transition_total:
  assumes wf: "wf_reasons invs (db_reasons db)" and n: "db_revision db + 1 < 2 ^ 63"
    and short: "\<And>r. tr_reason t = SetReason r \<Longrightarrow> length (chars (cd_reason cd r)) \<le> 2048"
    and fits: "fits_integer (sn_turn_generation (tr_snapshot t))"
      "is_none_or fits_integer (sn_completed_generation (tr_snapshot t))"
  shows "\<exists>db' c. commit_transition cd db i cred delivery publish now wall pv t = Inr (db', c)"
proof -
  let ?db1 = "db\<lparr>db_reasons := reasons_after i (tr_reason t) wall (db_reasons db)\<rparr>"
  have w: "write_reason cd db i (tr_reason t) wall = Inr ?db1"
    using short by (simp add: write_reason_Inr)
  have "rr_reason r \<noteq> None" if "tbl_lookup rr_invocation_id i (db_reasons ?db1) = Some r" for r
    using that wf by (cases "tr_reason t")
      (auto simp: reasons_after_def tbl_lookup_put tbl_lookup_delete wf_reasons_def dest: tbl_lookup_SomeD)
  then have r: "current_status_reason (?db1\<lparr>db_revision := db_revision db + 1\<rparr>) i =
      Inr (reason_of (db_reasons ?db1) i)"
    by (simp add: current_status_reason_Inr)
  let ?s = "(tr_snapshot t)\<lparr>sn_revision := db_revision db + 1\<rparr>"
  have "fits_integer (sn_turn_generation (fst (finalize pv ?s r now)))
      \<and> is_none_or fits_integer (sn_completed_generation (fst (finalize pv ?s r now)))" for r
    using finalize_simps [of pv ?s r now] fits by auto
  with w r n show ?thesis
    by (auto simp: commit_transition_def next_revision_def persist_snapshot_def Let_def case_prod_beta)
qed

lemma apply_event_total:
  assumes "validate_event e r = Inr ()"
  shows "apply_event p e r = Inr (case ev_child_agent e of Some c \<Rightarrow> apply_child_event p e c
    | None \<Rightarrow> root_result p e r)"
  using assms by (simp add: apply_event_Inr_iff)

text \<open>The generations after an event, as far as they can move.\<close>

lemma apply_event_generations:
  assumes "apply_event p e r = Inr t"
  shows "sn_turn_generation (tr_snapshot t) \<in>
      {sn_turn_generation (pri_snapshot p), sn_turn_generation (pri_snapshot p) + 1}"
    and "sn_completed_generation (tr_snapshot t) \<in>
      {sn_completed_generation (pri_snapshot p), None, Some (sn_turn_generation (pri_snapshot p))}"
  using assms
  by (auto simp: apply_event_Inr_iff root_result_def child_event_snapshot Let_def
      reduce_turn_generation reduce_completed_generation split: option.splits)

lemma apply_event_reason:
  assumes "apply_event p e r = Inr t" and "tr_reason t = SetReason x"
  shows "r = Some (rs_context x)"
  using assms
  by (auto simp: apply_event_Inr_iff root_result_def apply_child_event_def Let_def reason_effect_def
      clear_unless_def split: option.splits if_splits)

lemma fits_Suc: "unat g + 1 < 2 ^ 63 \<Longrightarrow> fits_integer g \<and> fits_integer (g + 1)"
proof -
  assume g: "unat g + 1 < 2 ^ 63"
  then have "unat (g + 1) = unat g + 1" by (simp add: unat_word_ariths)
  with g show ?thesis by (simp add: fits_integer_def)
qed

lemma event_views:
  assumes wf: "wf_db db" and new: "ev_event_id e \<notin> dd_event_id ` set (db_dedup db)"
    and ok: "apply_event_with_context cd db e r publish wall = Inr (db', u)"
  obtains v w where "view_of db (ev_invocation_id e) = Some v" "view_of db' (ev_invocation_id e) = Some w"
    "u = update_of (DeliveryEvent (ev_event_id e)) (ev_invocation_id e) (db_revision db') (Some v) (Some w)"
    "db_revision db' = db_revision db + 1" "db_revision db' < 2 ^ 63"
    "\<And>j. j \<noteq> ev_invocation_id e \<Longrightarrow> view_of db' j = view_of db j"
  using ok
proof (cases rule: apply_event_with_context_cases)
  case duplicate
  with new show thesis by simp
next
  case (fresh db1 c)
  have same: "view_of db' j = view_of db1 j" "db_revision db' = db_revision db1" for j
    by (simp_all add: fresh(5) cong: view_of_cong)
  show thesis
    using that unfolding same fresh(4) by (rule event.transition_views [OF wf fresh(3)]) auto
qed

section \<open>Samples\<close>

definition sample_codec :: Codec where
  "sample_codec = \<lparr>cd_envelope = (\<lambda>_. [1, 2, 3]), cd_reason = (\<lambda>r. sc_summary (rs_context r))\<rparr>"

definition sample_db :: Db where
  "sample_db = Db_empty\<lparr>db_revision := 1,
     db_invocations := [snapshot_row (sample_snapshot\<lparr>sn_revision := 1\<rparr>) ''secret'']\<rparr>"

definition succeeded :: "'e + 'a \<Rightarrow> bool" where
  "succeeded r = (case r of Inl _ \<Rightarrow> False | Inr _ \<Rightarrow> True)"

lemma succeededE: "succeeded r \<Longrightarrow> (\<And>v. r = Inr v \<Longrightarrow> P) \<Longrightarrow> P"
  by (cases r) (auto simp: succeeded_def)

lemma wf_sample_snapshot: "wf_snapshot (sample_snapshot\<lparr>sn_revision := n\<rparr>)"
  by (simp add: wf_snapshot_def sample_defs wf_cursors_def)

lemma wf_sample_db: "wf_db sample_db"
  using wf_sample_snapshot [of 1]
  by (simp add: sample_db_def Db_empty_def wf_db_def wf_reasons_def wf_outbox_def sink_load_def wf_snapshot_row)

lemma sample_db_reachable: "broker_reachable sample_codec Db_empty sample_db"
proof -
  have "register sample_codec Db_empty sample_snapshot ''secret'' None 0 = Inr (sample_db, 1)"
    by (simp add: register_def next_revision_def persist_snapshot_def Db_empty_def sample_db_def
        enqueue_transition_def sample_snapshot_def fits_integer_def Let_def)
  then show ?thesis
    unfolding broker_reachable_def
    by (metis r_into_rtranclp step_register wf_sample_snapshot InvocationSnapshot.surjective
        InvocationSnapshot.update_convs(2))
qed

section \<open>Properties\<close>

text \<open>
  (C31) The invariant of the store holds in every reachable state: rows decode to well-formed
  snapshots under their own key, reasons belong to existing invocations, the history and the
  deduplication table agree, and no sink has more than 1024 queued records.
\<close>

theorem broker_invariant:
  assumes "broker_reachable cd Db_empty db"
  shows "wf_db db"
  using broker_reachable_wf [OF assms wf_Db_empty] .

theorem broker_invariant_witness: "wf_db sample_db"
  by (rule broker_invariant [OF sample_db_reachable])

lemma event_commits:
  assumes wf: "wf_db db" and ok: "validate_event e r = Inr ()"
    and s: "invocation db (ev_invocation_id e) = Inr s"
    and n: "db_revision db + 1 < 2 ^ 63" and g: "unat (sn_turn_generation s) + 1 < 2 ^ 63"
    and cg: "is_none_or fits_integer (sn_completed_generation s)"
    and short: "\<And>x. r = Some (rs_context x) \<Longrightarrow> length (chars (cd_reason cd x)) \<le> 2048"
  shows "\<exists>db' u. apply_event_with_context cd db e r publish wall = Inr (db', u)"
proof (cases "ev_event_id e \<in> dd_event_id ` set (db_dedup db)")
  case True
  then have "tbl_lookup dd_event_id (ev_event_id e) (db_dedup db) \<noteq> None"
    by (simp add: tbl_lookup_None_iff)
  with ok show ?thesis by (auto simp: apply_event_with_context_def reject_def)
next
  case False
  let ?i = "ev_invocation_id e"
  let ?p = "\<lparr>pri_snapshot = s, pri_reason = reason_of (db_reasons db) ?i\<rparr>"
  obtain row where row: "tbl_lookup ir_invocation_id ?i (db_invocations db) = Some row" "load_row row = Inr s"
    using s by (auto simp: invocation_def split: option.splits)
  obtain t where t: "apply_event ?p e r = Inr t" using apply_event_total [OF ok] by blast
  have reason: "current_status_reason db ?i = Inr (reason_of (db_reasons db) ?i)"
    using wf_dbD(3) [OF wf] by (auto simp: current_status_reason_Inr wf_reasons_def dest: tbl_lookup_SomeD)
  have fits: "fits_integer (sn_turn_generation (tr_snapshot t))"
      "is_none_or fits_integer (sn_completed_generation (tr_snapshot t))"
    using apply_event_generations [OF t] fits_Suc [OF g] cg by auto
  obtain db1 c where "commit_transition cd db ?i (ir_credential row) (DeliveryEvent (ev_event_id e)) publish
      wall wall (project_public s (reason_of (db_reasons db) ?i)) t = Inr (db1, c)"
    using commit_transition_total [OF wf_dbD(3) [OF wf] n _ fits] apply_event_reason [OF t] short by blast
  then have tr: "apply_transition cd db ?i None (DeliveryEvent (ev_event_id e)) publish wall wall
      (event_decision e r) = Inr (db1, Some c)"
    using row reason t by (auto simp: apply_transition_Some event_decision_Inr)
  have "db_events db1 = db_events db" by (rule event.transition_effect [OF wf tr])
  then have "ev_event_id e \<notin> nr_event_id ` set (db_events db1)"
    using False wf unfolding wf_db_def by (metis list.set_map)
  with ok False tr show ?thesis
    by (auto simp: apply_event_with_context_def reject_def tbl_lookup_None_iff)
qed

text \<open>
  (C33) A valid event of a known invocation is committed: no state the broker can reach makes the
  store refuse it, short of the 63-bit range of the counters and of a reason text beyond the
  limit of its column.
\<close>

theorem valid_event_commits:
  assumes "broker_reachable cd Db_empty db" and "validate_event e r = Inr ()"
    and "invocation db (ev_invocation_id e) = Inr s"
    and "db_revision db + 1 < 2 ^ 63" and "unat (sn_turn_generation s) + 1 < 2 ^ 63"
    and "is_none_or fits_integer (sn_completed_generation s)"
    and "\<forall>x. r = Some (rs_context x) \<longrightarrow> length (chars (cd_reason cd x)) \<le> 2048"
  shows "\<exists>db' u. apply_event_with_context cd db e r publish wall = Inr (db', u)"
  using event_commits [OF broker_reachable_wf [OF assms(1) wf_Db_empty] assms(2-6)] assms(7) by blast

lemma sample_invocation: "invocation sample_db ''inv-1'' = Inr (sample_snapshot\<lparr>sn_revision := 1\<rparr>)"
  by (simp add: invocation_def sample_db_def sample_snapshot_def)

lemma sample_event_facts:
  "validate_event (sample_event i k) None = Inr ()" "ev_invocation_id (sample_event i k) = ''inv-1''"
  "ev_event_id (sample_event i k) = i" "db_revision sample_db = 1" "db_dedup sample_db = []"
  by (simp_all add: event_eval sample_db_def Db_empty_def)

theorem valid_event_commits_witness:
  "\<exists>db' u. apply_event_with_context sample_codec sample_db (sample_event ''a'' KWorking) None None 5 = Inr (db', u)"
proof (rule valid_event_commits [OF sample_db_reachable])
  show "invocation sample_db (ev_invocation_id (sample_event ''a'' KWorking)) =
      Inr (sample_snapshot\<lparr>sn_revision := 1\<rparr>)"
    by (simp only: sample_event_facts sample_invocation)
qed (simp_all add: sample_event_facts, simp_all add: sample_snapshot_def)

text \<open>
  (C12) Exactly once: an event that has been applied is never applied again. Whatever the broker
  does in between, a second delivery under the same event id, even with other contents, changes
  nothing and announces nothing.
\<close>

theorem event_applied_once:
  assumes first: "apply_event_with_context cd db e r publish wall = Inr (db1, u)"
    and between: "broker_reachable cd db1 db2"
    and again: "ev_event_id e' = ev_event_id e" "validate_event e' r' = Inr ()"
  shows "apply_event_with_context cd db2 e' r' publish' wall' = Inr (db2, None)"
proof -
  have "ev_event_id e \<in> dd_event_id ` set (db_dedup db1)"
    using first by (cases rule: apply_event_with_context_cases) auto
  then have "ev_event_id e \<in> dd_event_id ` set (db_dedup db2)"
    using broker_reachable_extends [OF between] by (auto simp: extends_def)
  then show ?thesis
    using again by (simp add: apply_event_with_context_def reject_def tbl_lookup_None_iff)
qed

lemma sample_first: "\<exists>db' u. apply_event_with_context sample_codec sample_db (sample_event ''a'' KWorking)
    None None 5 = Inr (db', u)"
proof (rule event_commits [OF wf_sample_db])
  show "invocation sample_db (ev_invocation_id (sample_event ''a'' KWorking)) =
      Inr (sample_snapshot\<lparr>sn_revision := 1\<rparr>)"
    by (simp only: sample_event_facts sample_invocation)
qed (simp_all add: sample_event_facts, simp_all add: sample_snapshot_def)

theorem event_applied_once_witness:
  "\<exists>db1 u. apply_event_with_context sample_codec sample_db (sample_event ''a'' KWorking) None None 5 = Inr (db1, u)
     \<and> apply_event_with_context sample_codec db1 (sample_event ''a'' KFailed) None None 9 = Inr (db1, None)"
proof -
  obtain db1 u where first: "apply_event_with_context sample_codec sample_db (sample_event ''a'' KWorking)
      None None 5 = Inr (db1, u)" using sample_first by blast
  have "broker_reachable sample_codec db1 db1" by (simp add: broker_reachable_def)
  from event_applied_once [OF first this] first show ?thesis
    by (auto simp: sample_event_facts)
qed

text \<open>
  An update is the visible change: a fresh event takes the next revision, changes the view of
  no other invocation, and is announced exactly when its own view changed, with the new view and
  the fields that differ.
\<close>

theorem event_update_is_visible_change:
  assumes wf: "wf_db db" and fresh: "ev_event_id e \<notin> dd_event_id ` set (db_dedup db)"
    and ok: "apply_event_with_context cd db e r publish wall = Inr (db', u)"
  shows "db_revision db' = db_revision db + 1
    \<and> (\<forall>j. j \<noteq> ev_invocation_id e \<longrightarrow> view_of db' j = view_of db j)
    \<and> (case u of
         None \<Rightarrow> view_of db' (ev_invocation_id e) = view_of db (ev_invocation_id e)
       | Some up \<Rightarrow> view_of db' (ev_invocation_id e) = Some (au_view up)
           \<and> view_of db (ev_invocation_id e) \<noteq> Some (au_view up) \<and> au_revision up = db_revision db'
           \<and> au_delivery_id up = ev_event_id e
           \<and> au_changed up = changed_public_fields (view_of db (ev_invocation_id e)) (au_view up))"
  by (rule event_views [OF wf fresh ok]) (auto simp: update_of_def delivery_id_of_def)

theorem event_update_is_visible_change_witness:
  "\<exists>db' u. apply_event_with_context sample_codec sample_db (sample_event ''a'' KWorking) None None 5 = Inr (db', u)
     \<and> db_revision db' = 2"
proof -
  obtain db' u where ok: "apply_event_with_context sample_codec sample_db (sample_event ''a'' KWorking)
      None None 5 = Inr (db', u)" using sample_first by blast
  with event_update_is_visible_change [OF wf_sample_db _ ok] show ?thesis
    by (auto simp: sample_event_facts)
qed

text \<open>
  Only the holder of the credential may act for an invocation: with any other one, binding a
  process and reporting an exit are refused as an error, and so is a credential check.
\<close>

theorem wrong_credential_refused:
  assumes "tbl_lookup ir_invocation_id i (db_invocations db) = Some row" and "cred \<noteq> ir_credential row"
  shows "bind_child cd db i cred pid identity publish wall = Inl InvalidCredential
    \<and> mark_exit cd db i cred code sig publish wall = Inl InvalidCredential
    \<and> \<not> credential_matches db i provider cred"
  using assms
  by (auto simp: bind_child_def mark_exit_def mutate_authenticated_def transition_def
      apply_transition_def constant_time_eq_iff credential_matches_def)

theorem wrong_credential_refused_witness:
  "bind_child sample_codec sample_db ''inv-1'' ''guess'' 7 None None 5 = Inl InvalidCredential"
  using wrong_credential_refused [of "''inv-1''" sample_db "snapshot_row (sample_snapshot\<lparr>sn_revision := 1\<rparr>) ''secret''"
      "''guess''" sample_codec 7 None None 5 None None]
  by (simp add: sample_db_def sample_snapshot_def)

text \<open>
  Registration round trip: what is registered is what is read back, numbered by the revision
  it was assigned, and its credential is accepted.
\<close>

theorem register_then_read:
  assumes "register cd db s cred publish wall = Inr (db', n)"
  shows "invocation db' (sn_invocation_id s) = Inr (s\<lparr>sn_revision := n\<rparr>) \<and> n = db_revision db + 1
    \<and> credential_matches db' (sn_invocation_id s) (sn_provider s) cred
    \<and> (\<forall>j. j \<noteq> sn_invocation_id s \<longrightarrow> invocation db' j = invocation db j)"
  using register_Inr [OF assms]
  by (auto simp: invocation_def tbl_lookup_put credential_matches_def constant_time_eq_iff)

theorem register_then_read_witness:
  "invocation sample_db ''inv-1'' = Inr (sample_snapshot\<lparr>sn_revision := 1\<rparr>)"
proof -
  have "register sample_codec Db_empty sample_snapshot ''secret'' None 0 = Inr (sample_db, 1)"
    by (simp add: register_def next_revision_def persist_snapshot_def Db_empty_def sample_db_def
        enqueue_transition_def sample_snapshot_def fits_integer_def Let_def)
  from register_then_read [OF this] show ?thesis by (simp add: sample_snapshot_def)
qed

section \<open>The outbox\<close>

lemma enqueue_sink_cases:
  "enqueue_sink cd p v d n ch wall sink rows = rows \<or>
   (\<exists>r. ob_sink_name r = fst sink \<and> enqueue_sink cd p v d n ch wall sink rows = rows @ [r])"
  by (auto simp: enqueue_sink_def Let_def insert_outbox_def)

lemma enqueue_other_sinks:
  assumes "name \<notin> fst ` set sinks"
  shows "filter (\<lambda>r. ob_sink_name r = name) (fold (enqueue_sink cd p v d n ch wall) sinks rows) =
      filter (\<lambda>r. ob_sink_name r = name) rows"
  using assms
proof (induction sinks arbitrary: rows)
  case (Cons x xs)
  have "filter (\<lambda>r. ob_sink_name r = name) (enqueue_sink cd p v d n ch wall x rows) =
      filter (\<lambda>r. ob_sink_name r = name) rows"
    using enqueue_sink_cases [of cd p v d n ch wall x rows] Cons.prems by auto
  with Cons show ?case by simp
qed simp

lemma enqueue_own_sink:
  assumes "distinct (map fst sinks)" and "(name, c) \<in> set sinks"
  shows "filter (\<lambda>r. ob_sink_name r = name) (fold (enqueue_sink cd p v d n ch wall) sinks rows) =
      filter (\<lambda>r. ob_sink_name r = name) (enqueue_sink cd p v d n ch wall (name, c) rows)"
  using assms
proof (induction sinks arbitrary: rows)
  case (Cons x xs)
  show ?case
  proof (cases "x = (name, c)")
    case True
    with Cons.prems have "name \<notin> fst ` set xs" by auto
    with True show ?thesis by (simp add: enqueue_other_sinks)
  next
    case False
    then have c: "(name, c) \<in> set xs" using Cons.prems by auto
    then have "name \<in> fst ` set xs" by force
    then have x: "fst x \<noteq> name" using Cons.prems by auto
    have keep: "filter (\<lambda>r. ob_sink_name r = name) (enqueue_sink cd p v d n ch wall x rows) =
        filter (\<lambda>r. ob_sink_name r = name) rows"
      using enqueue_sink_cases [of cd p v d n ch wall x rows] x by auto
    have keys: "outbox_key r \<notin> outbox_key ` set rs \<longleftrightarrow>
        outbox_key r \<notin> outbox_key ` set (filter (\<lambda>y. ob_sink_name y = ob_sink_name r) rs)" for r :: OutboxRow and rs
      by (auto simp: outbox_key_def image_iff)
    have same: "filter (\<lambda>r. ob_sink_name r = name) (enqueue_sink cd p v d n ch wall (name, c) a) =
        filter (\<lambda>r. ob_sink_name r = name) (enqueue_sink cd p v d n ch wall (name, c) b)"
      if "filter (\<lambda>r. ob_sink_name r = name) a = filter (\<lambda>r. ob_sink_name r = name) b" for a b
      using that by (simp add: enqueue_sink_def Let_def insert_outbox_def keys)
    show ?thesis
      using Cons.IH [OF _ c] Cons.prems(1) same [OF keep] by simp
  qed
qed simp

text \<open>
  A visible change reaches every sink that can take it: for an enabled sink with room in its
  queue and a payload within its limit, the canonical envelope of the update is queued, due at
  once, under the delivery id of the update.
\<close>

theorem update_reaches_sink:
  assumes "distinct (map fst (pb_sinks p))" and "(name, c) \<in> set (pb_sinks p)"
    and "SinkConfig_enabled c" and "pb_source_id p \<noteq> []"
    and "length (cd_envelope cd (update_envelope p view d n ch)) \<le> SinkConfig_max_payload_bytes c"
    and "sink_load (db_outbox db) name < MAX_OUTBOX_RECORDS_PER_SINK"
    and "(name, d) \<notin> outbox_key ` set (db_outbox db)"
  shows "\<lparr>ob_sink_name = name, ob_event_id = d, ob_revision = n,
      ob_payload = cd_envelope cd (update_envelope p view d n ch), ob_attempts = 0,
      ob_next_attempt_at = wall\<rparr> \<in> set (db_outbox (enqueue_transition cd db (Some p) view d n ch wall))"
    (is "?r \<in> _")
proof -
  have "enqueue_sink cd p view d n ch wall (name, c) (db_outbox db) = db_outbox db @ [?r]"
    using assms(3-7) by (simp add: enqueue_sink_def insert_outbox_def sink_load_def outbox_key_def)
  then have "?r \<in> set (filter (\<lambda>r. ob_sink_name r = name)
      (fold (enqueue_sink cd p view d n ch wall) (pb_sinks p) (db_outbox db)))"
    using enqueue_own_sink [OF assms(1,2), of cd p view d n ch wall "db_outbox db"] by simp
  then show ?thesis by (simp add: enqueue_transition_def)
qed

theorem update_reaches_sink_witness:
  "let p = \<lparr>pb_sinks = [(''log'', SinkStdout \<lparr>ks_enabled = True, ks_fields = [], ks_control = None\<rparr>)],
       pb_source_id = ''host'', pb_source_name = None\<rparr>
   in (''log'', ''a'') \<in> outbox_key ` set (db_outbox (enqueue_transition sample_codec Db_empty (Some p)
        (project_public sample_snapshot None) ''a'' 1 {} 5))"
proof -
  let ?c = "SinkStdout \<lparr>ks_enabled = True, ks_fields = [], ks_control = None\<rparr>"
  let ?p = "\<lparr>pb_sinks = [(''log'', ?c)], pb_source_id = ''host'', pb_source_name = None\<rparr>"
  have "\<lparr>ob_sink_name = ''log'', ob_event_id = ''a'', ob_revision = 1,
      ob_payload = cd_envelope sample_codec (update_envelope ?p (project_public sample_snapshot None) ''a'' 1 {}),
      ob_attempts = 0, ob_next_attempt_at = 5\<rparr> \<in> set (db_outbox (enqueue_transition sample_codec Db_empty (Some ?p)
        (project_public sample_snapshot None) ''a'' 1 {} 5))"
    by (rule update_reaches_sink [where c = ?c])
      (simp_all add: sample_codec_def Db_empty_def sink_load_def default_payload_limit_def
        MAX_OUTBOX_RECORDS_PER_SINK_def)
  then show ?thesis unfolding Let_def by (rule rev_image_eqI) (simp add: outbox_key_def)
qed

text \<open>
  A delivered baseline subsumes the queue: after a snapshot of a reachable state has been
  delivered to a sink, nothing of what was queued for that sink is left, the queues of the other
  sinks are as they were, and no further baseline is due.
\<close>

theorem delivered_snapshot_subsumes_queue:
  assumes "broker_reachable cd Db_empty db"
  shows "let db' = hub_snapshot_delivered db sink (db_revision db)
    in sink_load (db_outbox db') sink = 0 \<and> \<not> snd (hub_snapshot_due db' sink)
       \<and> filter (\<lambda>r. ob_sink_name r \<noteq> sink) (db_outbox db') = filter (\<lambda>r. ob_sink_name r \<noteq> sink) (db_outbox db)"
proof -
  have le: "\<forall>r\<in>set (db_outbox db). ob_revision r \<le> db_revision db"
    using wf_dbD(5) [OF broker_reachable_wf [OF assms wf_Db_empty]] by (simp add: wf_outbox_def)
  have "filter (\<lambda>r. ob_sink_name r = sink) (filter (\<lambda>r. \<not> (ob_sink_name r = sink \<and> ob_revision r \<le> db_revision db))
      (db_outbox db)) = []"
    using le by (auto simp: filter_empty_conv)
  moreover have "filter (\<lambda>r. ob_sink_name r \<noteq> sink) (filter (\<lambda>r. \<not> (ob_sink_name r = sink \<and> ob_revision r \<le> db_revision db))
      (db_outbox db)) = filter (\<lambda>r. ob_sink_name r \<noteq> sink) (db_outbox db)"
    by (auto simp: filter_filter intro: filter_cong)
  ultimately show ?thesis
    unfolding Let_def
    by (simp add: hub_snapshot_delivered_def sink_load_def hub_snapshot_due_def tbl_lookup_put
        del: filter_filter)
qed

theorem delivered_snapshot_subsumes_queue_witness:
  "sink_load (db_outbox (hub_snapshot_delivered sample_db ''hub'' 1)) ''hub'' = 0"
  using delivered_snapshot_subsumes_queue [OF sample_db_reachable, of "''hub''"]
  by (simp add: sample_event_facts Let_def)

text \<open>
  Polling and backoff: a poll returns at most the asked number of records, oldest revision
  first, and every one of them is due. A retried record waits between one second and five
  minutes, never less than after an earlier attempt.
\<close>

theorem outbox_polling:
  "(let polled = take limit (sort_key ob_revision (filter (\<lambda>r. ob_next_attempt_at r \<le> wall) (db_outbox db)))
    in due_outbox db limit wall = map (\<lambda>r. \<lparr>or_sink_name = ob_sink_name r, or_event_id = ob_event_id r,
          or_payload = ob_payload r, or_attempts = ob_attempts r\<rparr>) polled
       \<and> length (due_outbox db limit wall) \<le> limit \<and> sorted (map ob_revision polled)
       \<and> set polled \<subseteq> {r \<in> set (db_outbox db). ob_next_attempt_at r \<le> wall})
   \<and> 1 \<le> retry_delay a \<and> retry_delay a \<le> 300 \<and> retry_delay a \<le> retry_delay (a + b)"
proof -
  have "retry_delay a \<le> retry_delay (a + b)"
    unfolding retry_delay_def by (intro min.mono power_increasing) auto
  moreover have "1 \<le> retry_delay a" "retry_delay a \<le> 300"
    by (simp_all add: retry_delay_def)
  ultimately show ?thesis
    by (auto simp: due_outbox_def Let_def take_map [symmetric] sorted_wrt_take dest: in_set_takeD)
qed

section \<open>Sweeps\<close>

text \<open>
  After the broker has reconciled with the running processes, no invocation is shown as live
  whose process is gone.
\<close>

theorem reconcile_leaves_no_dead:
  assumes wf: "wf_db db" and ok: "reconcile cd sub_days db is_alive d publish wall = (db', Inr n)"
    and s: "invocation db' i = Inr s"
  shows "\<not> (live (sn_lifecycle s) \<and> \<not> process_is_alive is_alive s)"
proof -
  obtain db1 db2 k us cutoff where
    one: "reconcile_loop cd is_alive publish wall db (map loaded (db_invocations db)) 0 = (db1, Inr k)"
    and two: "expire_stale_working_at cd db1 wall wall publish = (db2, Inr us)"
    and db': "db' = prune_stopped db2 cutoff"
    using reconcile_cases [OF ok wf] .
  obtain xs where "sweep_all (reconcile_one cd is_alive publish wall) db (map loaded (db_invocations db))
      = (db1, Inr xs)" using reconcile_loop_sweep [OF one] by blast
  note done1 = reconciling.sweep_settles [OF wf loaded_list(1,2) [OF wf] this]
  then have wf1: "wf_db db1" by blast
  have alive: "\<not> dead is_alive u" if "invocation db1 j = Inr u" for j u
    using done1 that loaded_list(3) [OF wf, of j] by (metis sum.inject(2))
  obtain ys where "sweep_all (expire_one cd publish wall wall) db1 (map loaded (db_invocations db1)) = (db2, Inr ys)"
    using two expire_loop_sweep [of cd publish wall wall db1 _ "[]" db2 us]
    by (auto simp: expire_stale_working_at_def snapshot_total [OF wf1])
  note keeps = expire_sweep_keeps [OF wf1 loaded_list(2,1) [OF wf1] this]
  have wf2: "wf_db db2" using expire_sweep_wf [OF wf1 two] .
  have "invocation db2 i = Inr s"
    using s wf_dbD(1) [OF wf2] unfolding db'
    by (auto simp: prune_stopped_def Let_def invocation_def tbl_lookup_filter split: option.splits if_splits)
  from keeps [OF this] alive show ?thesis by (metis dead_cong dead_def)
qed

text \<open>
  The expiry sweep is complete: when it succeeds, no invocation of the store shows stale work,
  at the root or in a child.
\<close>

theorem expire_sweep_complete:
  assumes wf: "wf_db db" and ok: "expire_stale_working_at cd db now wall publish = (db', Inr us)"
    and s: "invocation db' i = Inr s"
  shows "\<not> is_stale s now"
proof -
  obtain ys where sw: "sweep_all (expire_one cd publish now wall) db (map loaded (db_invocations db)) = (db', Inr ys)"
    using ok expire_loop_sweep [of cd publish now wall db _ "[]" db' us]
    by (auto simp: expire_stale_working_at_def snapshot_total [OF wf])
  note settled = expiring.sweep_settles [OF wf loaded_list(1,2) [OF wf] sw]
  obtain u where "invocation db i = Inr u"
    using expire_sweep_keeps [OF wf loaded_list(2,1) [OF wf] sw s] by blast
  with settled loaded_list(3) [OF wf] s show ?thesis by (metis sum.inject(2))
qed

lemma sample_nothing_stale:
  "expire_stale_working_at sample_codec sample_db 9 9 None = (sample_db, Inr [])"
  by (simp add: expire_stale_working_at_def snapshot_total [OF wf_sample_db])
    (simp add: sample_db_def loaded_def is_stale_def is_stale_working_def has_stale_children_def sample_snapshot_def)

theorem expire_sweep_complete_witness: "\<not> is_stale (sample_snapshot\<lparr>sn_revision := 1\<rparr>) 9"
  using expire_sweep_complete [OF wf_sample_db sample_nothing_stale sample_invocation] .

theorem reconcile_leaves_no_dead_witness:
  "\<not> (live (sn_lifecycle (sample_snapshot\<lparr>sn_revision := 1\<rparr>))
      \<and> \<not> process_is_alive (\<lambda>pid _. pid = 11) (sample_snapshot\<lparr>sn_revision := 1\<rparr>))"
proof -
  have "reconcile_loop sample_codec (\<lambda>pid _. pid = 11) None 9 sample_db (map loaded (db_invocations sample_db)) 0
      = (sample_db, Inr 0)"
    by (simp add: sample_db_def loaded_def sample_snapshot_def sample_process_def process_is_alive_def)
  moreover have "prune_stopped sample_db 0 = sample_db"
    by (simp add: sample_db_def prune_stopped_def Db_empty_def sample_snapshot_def)
  ultimately have "reconcile sample_codec (\<lambda>_ _. Some 0) sample_db (\<lambda>pid _. pid = 11) 7 None 9 = (sample_db, Inr 0)"
    by (simp add: reconcile_def snapshot_total [OF wf_sample_db] sample_nothing_stale)
  from reconcile_leaves_no_dead [OF wf_sample_db this sample_invocation] show ?thesis .
qed

end
