(* ===== verification/Text.thy ===== *)
theory Text
  imports Provider
begin

text \<open>
  The operations of \<^verbatim>\<open>str\<close> the adapters use, on the characters or the bytes of a string, and the
  two shapes in which they clean text: words separated by single spaces. \<open>words_of\<close> and
  \<open>join\<close> form the pair every lemma about sanitized text rests on.
\<close>

section \<open>Characters\<close>

definition is_ascii_digit :: "nat \<Rightarrow> bool" where
  "is_ascii_digit c \<longleftrightarrow> 48 \<le> c \<and> c \<le> 57"

definition is_ascii_alphabetic :: "nat \<Rightarrow> bool" where
  "is_ascii_alphabetic c \<longleftrightarrow> 65 \<le> c \<and> c \<le> 90 \<or> 97 \<le> c \<and> c \<le> 122"

definition is_ascii_alphanumeric :: "nat \<Rightarrow> bool" where
  "is_ascii_alphanumeric c \<longleftrightarrow> is_ascii_digit c \<or> is_ascii_alphabetic c"

definition lower_ascii :: "nat \<Rightarrow> nat" where
  "lower_ascii c = (if 65 \<le> c \<and> c \<le> 90 then c + 32 else c)"

text \<open>\<^verbatim>\<open>char::is_whitespace\<close>: the Unicode property White_Space.\<close>

definition is_whitespace :: "nat \<Rightarrow> bool" where
  "is_whitespace c \<longleftrightarrow> 9 \<le> c \<and> c \<le> 13 \<or> c = 32 \<or> c = 133 \<or> c = 160 \<or> c = 5760
     \<or> 8192 \<le> c \<and> c \<le> 8202 \<or> c = 8232 \<or> c = 8233 \<or> c = 8239 \<or> c = 8287 \<or> c = 12288"

lemma is_whitespace_space [simp]: "is_whitespace 32"
  by (simp add: is_whitespace_def)

lemma scalar_lower_ascii [simp]: "scalar (lower_ascii c) = scalar c"
  by (simp add: lower_ascii_def scalar_def)

section \<open>Strings\<close>

definition to_ascii_lowercase :: "string \<Rightarrow> string" where
  "to_ascii_lowercase s =
     map (\<lambda>c. if 65 \<le> byte c \<and> byte c \<le> 90 then char_of (byte c + 32) else c) s"

definition starts_with :: "'a list \<Rightarrow> 'a list \<Rightarrow> bool" where
  "starts_with s p \<longleftrightarrow> take (length p) s = p"

definition ends_with :: "'a list \<Rightarrow> 'a list \<Rightarrow> bool" where
  "ends_with s p \<longleftrightarrow> starts_with (rev s) (rev p)"

fun contains :: "string \<Rightarrow> string \<Rightarrow> bool" where
  "contains [] p = (p = [])"
| "contains (c # s) p = (starts_with (c # s) p \<or> contains s p)"

text \<open>\<^verbatim>\<open>split_once\<close> and \<^verbatim>\<open>rsplit_once\<close> at an ASCII character.\<close>

fun split_once :: "'a \<Rightarrow> 'a list \<Rightarrow> ('a list \<times> 'a list) option" where
  "split_once d [] = None"
| "split_once d (c # s) =
     (if c = d then Some ([], s) else map_option (\<lambda>(a, b). (c # a, b)) (split_once d s))"

definition rsplit_once :: "'a \<Rightarrow> 'a list \<Rightarrow> ('a list \<times> 'a list) option" where
  "rsplit_once d s = map_option (\<lambda>(a, b). (rev b, rev a)) (split_once d (rev s))"

definition trim_matches :: "('a \<Rightarrow> bool) \<Rightarrow> 'a list \<Rightarrow> 'a list" where
  "trim_matches p s = rev (dropWhile p (rev (dropWhile p s)))"

definition trim :: "string \<Rightarrow> string" where
  "trim s = utf8 (trim_matches is_whitespace (chars s))"

lemma set_trim_matches: "set (trim_matches p s) \<subseteq> set s"
  by (auto simp: trim_matches_def dest!: set_dropWhileD)

lemma length_trim_matches: "length (trim_matches p s) \<le> length s"
  unfolding trim_matches_def
  by (metis length_rev length_dropWhile_le le_trans)

lemma starts_with_iff: "starts_with s p \<longleftrightarrow> (\<exists>r. s = p @ r)"
  by (auto simp: starts_with_def) (metis append_take_drop_id)

lemma split_once_Some: "split_once d s = Some (a, b) \<Longrightarrow> s = a @ d # b \<and> d \<notin> set a"
  by (induction s arbitrary: a) (auto split: if_splits)

lemma split_once_append: "d \<notin> set a \<Longrightarrow> split_once d (a @ d # b) = Some (a, b)"
  by (induction a) auto

lemma split_once_None: "split_once d s = None \<longleftrightarrow> d \<notin> set s"
  by (induction s) auto

lemma rsplit_once_Some: "rsplit_once d s = Some (a, b) \<Longrightarrow> s = a @ d # b \<and> d \<notin> set b"
  by (auto simp: rsplit_once_def dest!: split_once_Some) (metis append.assoc append_Cons append_Nil rev.simps(2) rev_append rev_swap)

section \<open>Words\<close>

text \<open>\<^verbatim>\<open>split_whitespace\<close>: \<open>cur\<close> is the word being read.\<close>

fun words_from :: "nat list \<Rightarrow> nat list \<Rightarrow> nat list list" where
  "words_from cur [] = (if cur = [] then [] else [cur])"
| "words_from cur (c # cs) =
     (if is_whitespace c then (if cur = [] then [] else [cur]) @ words_from [] cs
      else words_from (cur @ [c]) cs)"

definition words_of :: "nat list \<Rightarrow> nat list list" where
  "words_of cs = words_from [] cs"

definition is_word :: "nat list \<Rightarrow> bool" where
  "is_word w \<longleftrightarrow> w \<noteq> [] \<and> list_all (\<lambda>c. \<not> is_whitespace c) w"

lemma words_from_words:
  "list_all (\<lambda>c. \<not> is_whitespace c) cur \<Longrightarrow> list_all is_word (words_from cur cs)"
  by (induction cs arbitrary: cur) (auto simp: is_word_def)

lemma words_of_words: "list_all is_word (words_of cs)"
  by (simp add: words_of_def words_from_words)

lemma words_from_set: "(\<Union>w \<in> set (words_from cur cs). set w) \<subseteq> set cur \<union> set cs"
  by (induction cs arbitrary: cur) (force split: if_splits)+

lemma words_of_set: "w \<in> set (words_of cs) \<Longrightarrow> c \<in> set w \<Longrightarrow> c \<in> set cs"
  using words_from_set [of "[]" cs] by (auto simp: words_of_def)

lemma words_from_append_word:
  "list_all (\<lambda>c. \<not> is_whitespace c) w \<Longrightarrow> words_from cur (w @ cs) = words_from (cur @ w) cs"
  by (induction w arbitrary: cur) auto

lemma set_join: "set (join sep ws) \<subseteq> set sep \<union> (\<Union>w \<in> set ws. set w)"
  by (induction sep ws rule: join.induct) auto

text \<open>Words joined by single spaces split into the same words.\<close>

lemma words_of_join: "list_all is_word ws \<Longrightarrow> words_of (join [32] ws) = ws"
proof (induction "[32::nat]" ws rule: join.induct)
  case (2 w)
  then show ?case
    using words_from_append_word [of w "[]" "[]"] by (auto simp: words_of_def is_word_def)
next
  case (3 w v vs)
  then have w: "w \<noteq> []" "list_all (\<lambda>c. \<not> is_whitespace c) w" and rest: "list_all is_word (v # vs)"
    by (auto simp: is_word_def)
  have "words_of (join [32] (w # v # vs)) = words_from w (32 # join [32] (v # vs))"
    using words_from_append_word [OF w(2), of "[]"] by (simp add: words_of_def)
  also have "\<dots> = w # words_of (join [32] (v # vs))"
    using w by (simp add: words_of_def)
  finally show ?case using 3(1) rest by simp
qed (simp add: words_of_def)

lemma join_eq_Nil: "list_all is_word ws \<Longrightarrow> join [32] ws = [] \<longleftrightarrow> ws = []"
  by (cases ws; cases "tl ws") (auto simp: is_word_def neq_Nil_conv)

end
