(* ===== verification/Paths.thy ===== *)
theory Paths
  imports Text
begin

text \<open>
  The part of \<^verbatim>\<open>std::path\<close> the adapters use on Unix paths: a path is its text, read through its
  components, and a \<open>PathBuf\<close> that is built with \<open>push\<close> and \<open>pop\<close> is a list of components.
\<close>

datatype Component = RootDir | CurDir | ParentDir | Normal string

text \<open>\<^verbatim>\<open>split\<close> at a character: the pieces between the separators, empty ones included.\<close>

fun split_on :: "'a \<Rightarrow> 'a list \<Rightarrow> 'a list list" where
  "split_on d [] = [[]]"
| "split_on d (c # s) =
     (if c = d then [] # split_on d s
      else (case split_on d s of [] \<Rightarrow> [[c]] | w # ws \<Rightarrow> (c # w) # ws))"

definition is_absolute :: "string \<Rightarrow> bool" where
  "is_absolute p = starts_with p ''/''"

definition component_of :: "string \<Rightarrow> Component" where
  "component_of s = (if s = ''..'' then ParentDir else Normal s)"

definition components :: "string \<Rightarrow> Component list" where
  "components p =
     (let segments = filter (\<lambda>s. s \<noteq> []) (split_on (CHR ''/'') p);
          named = map component_of (filter (\<lambda>s. s \<noteq> ''.'') segments)
      in if is_absolute p then RootDir # named
         else (if segments \<noteq> [] \<and> hd segments = ''.'' then [CurDir] else []) @ named)"

fun component_str :: "Component \<Rightarrow> string" where
  "component_str RootDir = ''/''"
| "component_str CurDir = ''.''"
| "component_str ParentDir = ''..''"
| "component_str (Normal s) = s"

fun path_of :: "Component list \<Rightarrow> string" where
  "path_of (RootDir # cs) = ''/'' @ join ''/'' (map component_str cs)"
| "path_of cs = join ''/'' (map component_str cs)"

definition path_join :: "string \<Rightarrow> string \<Rightarrow> string" where
  "path_join a b = (if is_absolute b then b
     else if a = [] \<or> ends_with a ''/'' then a @ b else a @ ''/'' @ b)"

definition path_parent :: "string \<Rightarrow> string option" where
  "path_parent p =
     (let cs = components p
      in if cs = [] \<or> last cs = RootDir then None else Some (path_of (butlast cs)))"

definition file_name :: "string \<Rightarrow> string option" where
  "file_name p =
     (let cs = components p
      in if cs = [] then None else (case last cs of Normal s \<Rightarrow> Some s | _ \<Rightarrow> None))"

text \<open>
  A file name splits at its last dot into stem and extension, unless the dot is the first
  character.
\<close>

definition file_stem :: "string \<Rightarrow> string option" where
  "file_stem p = map_option (\<lambda>n. case rsplit_once (CHR ''.'') n of
     None \<Rightarrow> n | Some (stem, _) \<Rightarrow> if stem = [] then n else stem) (file_name p)"

definition path_extension :: "string \<Rightarrow> string option" where
  "path_extension p = Option.bind (file_name p) (\<lambda>n. case rsplit_once (CHR ''.'') n of
     None \<Rightarrow> None | Some (stem, ext) \<Rightarrow> if stem = [] then None else Some ext)"

definition with_file_name :: "string \<Rightarrow> string \<Rightarrow> string" where
  "with_file_name p name =
     (case file_name p of
        None \<Rightarrow> path_join p name
      | Some _ \<Rightarrow> path_join (unwrap_or (path_parent p) []) name)"

text \<open>\<^verbatim>\<open>Path::starts_with\<close> and \<^verbatim>\<open>Path::strip_prefix\<close> compare whole components.\<close>

definition path_starts_with :: "string \<Rightarrow> string \<Rightarrow> bool" where
  "path_starts_with p base = starts_with (components p) (components base)"

definition path_strip_prefix :: "string \<Rightarrow> string \<Rightarrow> string option" where
  "path_strip_prefix p base =
     (if path_starts_with p base then Some (path_of (drop (length (components base)) (components p)))
      else None)"

text \<open>\<^verbatim>\<open>PathBuf::pop\<close> fails on the empty path and on the root.\<close>

definition pop :: "Component list \<Rightarrow> Component list option" where
  "pop cs = (if cs = [] \<or> last cs = RootDir then None else Some (butlast cs))"

section \<open>Lemmas\<close>

lemma split_on_nonempty [simp]: "split_on d s \<noteq> []"
  by (induction s) (auto split: list.splits)

lemma split_on_no_sep: "w \<in> set (split_on d s) \<Longrightarrow> d \<notin> set w"
  by (induction s arbitrary: w) (auto split: list.splits if_splits)

lemma split_on_word: "d \<notin> set w \<Longrightarrow> split_on d w = [w]"
  by (induction w) auto

lemma split_on_append: "d \<notin> set w \<Longrightarrow> split_on d (w @ d # s) = w # split_on d s"
  by (induction w) auto

lemma split_on_join:
  "ws \<noteq> [] \<Longrightarrow> \<forall>w \<in> set ws. d \<notin> set w \<Longrightarrow> split_on d (join [d] ws) = ws"
  by (induction "[d]" ws rule: join.induct) (auto simp: split_on_word split_on_append)

text \<open>A name a directory entry can have.\<close>

definition entry_name :: "string \<Rightarrow> bool" where
  "entry_name s \<longleftrightarrow> s \<noteq> [] \<and> s \<noteq> ''.'' \<and> s \<noteq> ''..'' \<and> CHR ''/'' \<notin> set s"

lemma components_join:
  assumes "\<forall>s \<in> set ns. entry_name s"
  shows "components (''/'' @ join ''/'' ns) = RootDir # map Normal ns"
proof -
  have split: "filter (\<lambda>s. s \<noteq> []) (split_on (CHR ''/'') (''/'' @ join ''/'' ns)) = ns"
  proof (cases "ns = []")
    case False
    then have "split_on (CHR ''/'') (join ''/'' ns) = ns"
      using assms by (intro split_on_join) (auto simp: entry_name_def)
    then show ?thesis using assms by (auto simp: entry_name_def intro!: filter_True)
  qed simp
  have "filter (\<lambda>s. s \<noteq> ''.'') ns = ns"
    using assms by (auto simp: entry_name_def intro!: filter_True)
  moreover have "map component_of ns = map Normal ns"
    using assms by (auto simp: component_of_def entry_name_def)
  ultimately show ?thesis
    by (simp only: components_def Let_def split is_absolute_def starts_with_def) simp
qed

end
