(* ===== verification/Hub_Scope.thy ===== *)
theory Hub_Scope
  imports Paths
begin

text \<open>
  Device scopes of the hub, \<^verbatim>\<open>sessiontap-hub/src/scope.rs\<close>: the fixed set, its canonical
  order, the implications between scopes and the two text forms, requests and stored text.
\<close>

datatype Scope = ScopeRead | ScopeManage | ScopeWatch | ScopeControl

fun Scope_rank :: "Scope \<Rightarrow> nat" where
  "Scope_rank ScopeRead = 0"
| "Scope_rank ScopeManage = 1"
| "Scope_rank ScopeWatch = 2"
| "Scope_rank ScopeControl = 3"

lemma Scope_rank_inject: "Scope_rank x = Scope_rank y \<longleftrightarrow> x = y"
  by (cases x; cases y) simp_all

instantiation Scope :: linorder
begin

definition less_eq_Scope :: "Scope \<Rightarrow> Scope \<Rightarrow> bool" where
  "less_eq_Scope x y = (Scope_rank x \<le> Scope_rank y)"

definition less_Scope :: "Scope \<Rightarrow> Scope \<Rightarrow> bool" where
  "less_Scope x y = (Scope_rank x < Scope_rank y)"

instance
  by standard (auto simp: less_eq_Scope_def less_Scope_def Scope_rank_inject)

end

definition Scope_ALL :: "Scope list" where
  "Scope_ALL = [ScopeRead, ScopeManage, ScopeWatch, ScopeControl]"

definition Scope_DEFAULT :: "Scope list" where
  "Scope_DEFAULT = [ScopeRead, ScopeManage]"

fun Scope_as_str :: "Scope \<Rightarrow> string" where
  "Scope_as_str ScopeRead = ''read''"
| "Scope_as_str ScopeManage = ''manage''"
| "Scope_as_str ScopeWatch = ''watch''"
| "Scope_as_str ScopeControl = ''control''"

definition Scope_parse :: "string \<Rightarrow> Scope option" where
  "Scope_parse name = List.find (\<lambda>scope. Scope_as_str scope = name) Scope_ALL"

definition is_terminal :: "Scope \<Rightarrow> bool" where
  "is_terminal s \<longleftrightarrow> s = ScopeWatch \<or> s = ScopeControl"

text \<open>\<open>Vec::dedup\<close> removes repeated neighbours.\<close>

fun dedup :: "'a list \<Rightarrow> 'a list" where
  "dedup [] = []"
| "dedup [x] = [x]"
| "dedup (x # y # xs) = (if x = y then dedup (y # xs) else x # dedup (y # xs))"

definition Scope_expand :: "Scope list \<Rightarrow> Scope list" where
  "Scope_expand scopes =
     (let out1 = (if ScopeControl \<in> set scopes then scopes @ [ScopeWatch] else scopes);
          out2 = (if ScopeWatch \<in> set out1 then out1 @ [ScopeRead] else out1)
      in dedup (sort out2))"

definition Scope_names :: "Scope list \<Rightarrow> string list" where
  "Scope_names scopes = map Scope_as_str scopes"

text \<open>\<open>split_last\<close> of the names, which are never empty.\<close>

definition Scope_valid_names :: string where
  "Scope_valid_names =
     (let names = map Scope_as_str Scope_ALL
      in join '', '' (butlast names) @ '', or '' @ last names)"

fun parse_scopes :: "string list \<Rightarrow> string + Scope list" where
  "parse_scopes [] = Inr []"
| "parse_scopes (name # names) =
     (case Scope_parse name of
        None \<Rightarrow> Inl (''unknown scope '' @ [CHR 0x27] @ name @ [CHR 0x27] @ '' (expected '' @
                     Scope_valid_names @ '')'')
      | Some scope \<Rightarrow> result_bind (parse_scopes names) (\<lambda>scopes. Inr (scope # scopes)))"

definition Scope_parse_request :: "string list \<Rightarrow> string + Scope list" where
  "Scope_parse_request requested =
     (if requested = [] then Inr Scope_DEFAULT
      else result_bind (parse_scopes requested) (\<lambda>scopes. Inr (Scope_expand scopes)))"

definition Scope_parse_stored :: "string \<Rightarrow> Scope list" where
  "Scope_parse_stored txt = dedup (sort (List.map_filter Scope_parse (split_on (CHR '','') txt)))"

section \<open>Lemmas\<close>

interpretation scope_names: text_enum Scope_ALL Scope_as_str
  by unfold_locales code_simp

lemma in_Scope_ALL [simp]: "s \<in> set Scope_ALL"
  by (cases s) (simp_all add: Scope_ALL_def)

lemma Scope_parse_iff: "Scope_parse name = Some s \<longleftrightarrow> Scope_as_str s = name"
  by (simp add: Scope_parse_def scope_names.parse_iff)

lemma Scope_parse_as_str [simp]: "Scope_parse (Scope_as_str s) = Some s"
  by (simp add: Scope_parse_iff)

lemma set_dedup [simp]: "set (dedup xs) = set xs"
  by (induction xs rule: dedup.induct) auto

lemma hd_dedup [simp]: "xs \<noteq> [] \<Longrightarrow> hd (dedup xs) = hd xs"
  by (induction xs rule: dedup.induct) auto

lemma strict_dedup: "sorted xs \<Longrightarrow> sorted_wrt (<) (dedup xs)" for xs :: "'a :: linorder list"
proof (induction xs rule: dedup.induct)
  case (3 x y xs)
  then show ?case by (auto simp: less_le)
qed auto

lemma dedup_strict: "sorted_wrt (<) xs \<Longrightarrow> dedup xs = xs" for xs :: "'a :: linorder list"
  by (induction xs rule: dedup.induct) auto

lemma sort_strict: "sorted_wrt (<) xs \<Longrightarrow> sort xs = xs" for xs :: "'a :: linorder list"
  by (intro sorted_sort_id strict_sorted_imp_sorted)

lemma strict_unique: "sorted_wrt (<) xs \<Longrightarrow> sorted_wrt (<) ys \<Longrightarrow> set xs = set ys \<Longrightarrow> xs = ys"
  for xs :: "'a :: linorder list"
  by (simp add: strict_sorted_equal)

lemma set_Scope_expand:
  "set (Scope_expand xs) = set xs \<union> (if ScopeControl \<in> set xs then {ScopeWatch, ScopeRead} else {})
     \<union> (if ScopeWatch \<in> set xs then {ScopeRead} else {})"
  by (auto simp: Scope_expand_def Let_def)

lemma strict_Scope_expand: "sorted_wrt (<) (Scope_expand xs)"
  by (simp add: Scope_expand_def Let_def strict_dedup)

lemma split_on_append_sep: "c \<notin> set p \<Longrightarrow> split_on c (p @ c # rest) = p # split_on c rest"
  by (induction p) auto

lemma split_on_single: "c \<notin> set p \<Longrightarrow> split_on c p = [p]"
  by (induction p) auto

lemma split_join: "xs \<noteq> [] \<Longrightarrow> \<forall>x\<in>set xs. c \<notin> set x \<Longrightarrow> split_on c (join [c] xs) = xs"
proof (induction xs)
  case (Cons x xs)
  then show ?case
    by (cases xs) (auto simp: split_on_append_sep split_on_single)
qed simp

lemma no_comma: "CHR '','' \<notin> set (Scope_as_str s)"
  by (cases s) simp_all

lemma map_filter_names: "List.map_filter Scope_parse (map Scope_as_str xs) = xs"
  by (induction xs) (simp_all add: map_filter_simps)

text \<open>
  Scopes in canonical form: expanding any request yields each scope once, in the canonical
  order, closed under the implications (control gives watch, watch gives read), adds nothing that
  is not implied, and expanding again changes nothing.
\<close>

theorem scope_expansion_canonical:
  "sorted_wrt (<) (Scope_expand xs) \<and> set xs \<subseteq> set (Scope_expand xs)
   \<and> (ScopeControl \<in> set (Scope_expand xs) \<longrightarrow> ScopeWatch \<in> set (Scope_expand xs))
   \<and> (ScopeWatch \<in> set (Scope_expand xs) \<longrightarrow> ScopeRead \<in> set (Scope_expand xs))
   \<and> set (Scope_expand xs) - set xs \<subseteq> {ScopeRead, ScopeWatch}
   \<and> Scope_expand (Scope_expand xs) = Scope_expand xs"
proof -
  have "Scope_expand (Scope_expand xs) = Scope_expand xs"
    by (rule strict_unique [OF strict_Scope_expand strict_Scope_expand]) (auto simp: set_Scope_expand)
  then show ?thesis
    by (auto simp: strict_Scope_expand set_Scope_expand split: if_splits)
qed

theorem scope_expansion_canonical_witness:
  "sorted_wrt (<) (Scope_expand [ScopeControl, ScopeManage]) \<and>
   Scope_expand [ScopeControl, ScopeManage] = [ScopeRead, ScopeManage, ScopeWatch, ScopeControl]"
proof
  show "sorted_wrt (<) (Scope_expand [ScopeControl, ScopeManage])"
    using scope_expansion_canonical [of "[ScopeControl, ScopeManage]"] by blast
qed code_simp

text \<open>
  Stored scopes survive: parsing the comma-joined names of a canonical scope list returns
  that list, so a device reads back exactly the scopes it was paired with.
\<close>

theorem stored_scopes_roundtrip:
  assumes "sorted_wrt (<) xs"
  shows "Scope_parse_stored (join '','' (Scope_names xs)) = xs"
proof (cases "xs = []")
  case True
  then show ?thesis by (simp add: Scope_parse_stored_def Scope_names_def) code_simp
next
  case False
  then have "split_on (CHR '','') (join '','' (Scope_names xs)) = Scope_names xs"
    by (intro split_join) (auto simp: Scope_names_def no_comma)
  then show ?thesis
    using assms by (simp add: Scope_parse_stored_def Scope_names_def map_filter_names sort_strict dedup_strict)
qed

theorem stored_scopes_roundtrip_witness:
  "Scope_parse_stored (join '','' (Scope_names [ScopeRead, ScopeWatch])) = [ScopeRead, ScopeWatch]"
  by (rule stored_scopes_roundtrip) (simp add: less_Scope_def)

end
