(* ===== verification/Hub_Store.thy ===== *)
theory Hub_Store
  imports Protocol Hub_Scope
begin

text \<open>
  The hub's store, \<^verbatim>\<open>sessiontap-hub/src/store.rs\<close>, in the same style as the broker's: a
  table is a list of rows with its primary key, a transaction returns an error or the database it
  commits. Failures of the database itself are wrapped in \<open>Malformed\<close> by the source; here
  they are \<open>MalformedStorage\<close> with the cause instead of the driver's message.
\<close>

section \<open>Tables\<close>

record SourceRow =
  sr_source_id :: string
  sr_display_name :: "string option"
  sr_source_revision :: nat
  sr_updated_at :: timestamp

record AgentRow =
  ag_source_id :: string
  ag_invocation_id :: string
  ag_view_json :: "PublicAgentView option"
  ag_updated_at :: timestamp
  ag_stopped_at :: "timestamp option"

record DeliveryRow =
  dr_source_id :: string
  dr_delivery_id :: string
  dr_accepted_at :: timestamp

record DeviceRow =
  dv_device_id :: string
  dv_spki_sha256 :: string
  dv_name :: string
  dv_scopes :: string
  dv_paired_at :: timestamp
  dv_last_seen_at :: "timestamp option"

record ForgottenRow =
  fg_source_id :: string
  fg_invocation_id :: string
  fg_forgotten_at :: timestamp

record HubDb =
  hd_revision :: nat
  hd_sources :: "SourceRow list"
  hd_agents :: "AgentRow list"
  hd_deliveries :: "DeliveryRow list"
  hd_devices :: "DeviceRow list"
  hd_forgotten :: "ForgottenRow list"

definition HubDb_empty :: HubDb where
  "HubDb_empty = \<lparr>hd_revision = 0, hd_sources = [], hd_agents = [], hd_deliveries = [],
     hd_devices = [], hd_forgotten = []\<rparr>"

definition agent_key :: "AgentRow \<Rightarrow> string \<times> string" where
  "agent_key r = (ag_source_id r, ag_invocation_id r)"

definition delivery_key :: "DeliveryRow \<Rightarrow> string \<times> string" where
  "delivery_key r = (dr_source_id r, dr_delivery_id r)"

definition forgotten_key :: "ForgottenRow \<Rightarrow> string \<times> string" where
  "forgotten_key r = (fg_source_id r, fg_invocation_id r)"

record SourceView =
  sv_source_id :: string
  sv_display_name :: "string option"
  sv_revision :: nat

record MergedAgent =
  ma_source_id :: string
  ma_view :: PublicAgentView

datatype HubError = IntegerRange | BadViewJson | DeviceIdTaken | HubTimeOutOfRange

datatype Reject = UnsupportedVersion u32 | Malformed string | MalformedStorage HubError
  | SnapshotRequired

datatype SnapshotAccept = SnapshotApplied nat | SnapshotStale

datatype UpdateAccept = UpdateApplied nat "PublicField set" bool | UpdateDuplicate | UpdateStale
  | UpdateSuppressed

record Device =
  de_device_id :: string
  de_spki_sha256 :: string
  de_name :: string
  de_scopes :: "string list"
  de_paired_at :: timestamp
  de_last_seen_at :: "timestamp option"

datatype DeviceLookup = DeviceFound Device | DeviceNotFound | DeviceAmbiguous "Device list"

datatype ForgetOutcome = Forgotten nat | ForgetNotFound | ForgetNotStopped

section \<open>Inside a transaction\<close>

definition validate_version :: "u32 \<Rightarrow> Reject + unit" where
  "validate_version version =
     (if version = HUB_SCHEMA_VERSION then Inr () else Inl (UnsupportedVersion version))"

fun compatible_reason :: "PublicStatus \<Rightarrow> PublicReasonKind \<Rightarrow> bool" where
  "compatible_reason StatusBlocked ReasonInput = True"
| "compatible_reason StatusBlocked ReasonApproval = True"
| "compatible_reason StatusStopped ReasonCompleted = True"
| "compatible_reason StatusStopped ReasonFailed = True"
| "compatible_reason _ _ = False"

definition valid_public_reason :: "PublicAgentView \<Rightarrow> bool" where
  "valid_public_reason view =
     (case pv_reason view of
        None \<Rightarrow> True
      | Some reason \<Rightarrow>
          if pr_summary reason = []
             \<or> length (pr_summary reason) > STATUS_REASON_MAX_BYTES
             \<or> length (chars (pr_summary reason)) > STATUS_REASON_MAX_CHARS
             \<or> has_control (pr_summary reason)
          then False
          else compatible_reason (pv_status view) (pr_kind reason))"

definition bump_revision :: "HubDb \<Rightarrow> HubError + HubDb \<times> nat" where
  "bump_revision db =
     (if hd_revision db + 1 < 2 ^ 63
      then Inr (db\<lparr>hd_revision := hd_revision db + 1\<rparr>, hd_revision db + 1)
      else Inl IntegerRange)"

definition view_row :: "string \<Rightarrow> PublicAgentView \<Rightarrow> timestamp \<Rightarrow> AgentRow" where
  "view_row source_id view now =
     \<lparr>ag_source_id = source_id, ag_invocation_id = pv_invocation_id view, ag_view_json = Some view,
      ag_updated_at = now,
      ag_stopped_at = (if pv_status view = StatusStopped then Some (pv_updated_at view) else None)\<rparr>"

definition persist_view :: "HubDb \<Rightarrow> string \<Rightarrow> PublicAgentView \<Rightarrow> timestamp \<Rightarrow> HubDb" where
  "persist_view db source_id view now =
     db\<lparr>hd_agents := tbl_put agent_key (view_row source_id view now) (hd_agents db)\<rparr>"

definition is_forgotten :: "HubDb \<Rightarrow> string \<Rightarrow> InvocationId \<Rightarrow> bool" where
  "is_forgotten db source_id i \<longleftrightarrow> tbl_lookup forgotten_key (source_id, i) (hd_forgotten db) \<noteq> None"

definition record_delivery ::
    "HubDb \<Rightarrow> string \<Rightarrow> string \<Rightarrow> nat \<Rightarrow> timestamp \<Rightarrow> HubError + HubDb" where
  "record_delivery db source_id delivery_id revision now =
     (if revision < 2 ^ 63
      then Inr (db\<lparr>hd_sources := map (\<lambda>r. if sr_source_id r = source_id
               then r\<lparr>sr_source_revision := revision, sr_updated_at := now\<rparr> else r) (hd_sources db),
             hd_deliveries := hd_deliveries db @
               [\<lparr>dr_source_id = source_id, dr_delivery_id = delivery_id, dr_accepted_at = now\<rparr>]\<rparr>)
      else Inl IntegerRange)"

definition prior :: "HubDb \<Rightarrow> string \<Rightarrow> InvocationId \<Rightarrow> HubError + PublicAgentView option" where
  "prior db source_id i =
     (case tbl_lookup agent_key (source_id, i) (hd_agents db) of
        None \<Rightarrow> Inr None
      | Some r \<Rightarrow> (case ag_view_json r of None \<Rightarrow> Inl BadViewJson | Some v \<Rightarrow> Inr (Some v)))"

definition malformed :: "HubError + 'a \<Rightarrow> Reject + 'a" where
  "malformed r = (case r of Inl e \<Rightarrow> Inl (MalformedStorage e) | Inr v \<Rightarrow> Inr v)"

section \<open>Ingestion\<close>

definition load_views ::
    "HubDb \<Rightarrow> string \<Rightarrow> PublicAgentView list \<Rightarrow> timestamp \<Rightarrow> HubDb" where
  "load_views db source_id views now =
     fold (\<lambda>view db. if is_forgotten db source_id (pv_invocation_id view) then db
                     else persist_view db source_id view now) views db"

definition ingest_snapshot ::
    "HubDb \<Rightarrow> SourceEnvelope \<Rightarrow> timestamp \<Rightarrow> Reject + HubDb \<times> SnapshotAccept" where
  "ingest_snapshot db envelope now =
     (case envelope of
        SourceEnvelopeUpdate _ \<Rightarrow> Inl (Malformed ''expected snapshot envelope'')
      | SourceEnvelopeSnapshot s \<Rightarrow>
          result_bind (validate_version (ss_schema_version s)) (\<lambda>_.
            let source_id = si_id (ss_source s)
            in if source_id = [] then Inl (Malformed ''empty source identity'')
               else if list_ex (\<lambda>view. \<not> valid_public_reason view) (ss_views s)
               then Inl (Malformed ''invalid or status-incompatible public reason'')
               else if \<not> distinct (map pv_invocation_id (ss_views s))
               then Inl (Malformed ''duplicate invocation in snapshot'')
               else if is_some_and (\<lambda>r. ss_revision s < sr_source_revision r)
                         (tbl_lookup sr_source_id source_id (hd_sources db))
               then Inr (db, SnapshotStale)
               else if \<not> ss_revision s < 2 ^ 63 then Inl (MalformedStorage IntegerRange)
               else
                 let db1 = db\<lparr>hd_sources := tbl_put sr_source_id
                             \<lparr>sr_source_id = source_id, sr_display_name = si_display_name (ss_source s),
                              sr_source_revision = ss_revision s, sr_updated_at = now\<rparr> (hd_sources db),
                             hd_agents := filter (\<lambda>r. ag_source_id r \<noteq> source_id) (hd_agents db)\<rparr>;
                     db2 = load_views db1 source_id (ss_views s) now
                 in result_bind (malformed (bump_revision db2)) (\<lambda>(db3, hub_revision).
                      Inr (db3, SnapshotApplied hub_revision))))"

definition ingest_update ::
    "HubDb \<Rightarrow> SourceEnvelope \<Rightarrow> timestamp \<Rightarrow> Reject + HubDb \<times> UpdateAccept" where
  "ingest_update db envelope now =
     (case envelope of
        SourceEnvelopeSnapshot _ \<Rightarrow> Inl (Malformed ''expected update envelope'')
      | SourceEnvelopeUpdate u \<Rightarrow>
          result_bind (validate_version (su_schema_version u)) (\<lambda>_.
            if su_source_id u = [] \<or> su_delivery_id u = [] \<or> su_changed u = {}
            then Inl (Malformed ''missing delivery identity or changed fields'')
            else if \<not> valid_public_reason (su_view u)
            then Inl (Malformed ''invalid or status-incompatible public reason'')
            else case tbl_lookup sr_source_id (su_source_id u) (hd_sources db) of
              None \<Rightarrow> Inl SnapshotRequired
            | Some source \<Rightarrow>
                if tbl_lookup delivery_key (su_source_id u, su_delivery_id u) (hd_deliveries db) \<noteq> None
                then Inr (db, UpdateDuplicate)
                else if su_revision u \<le> sr_source_revision source then Inr (db, UpdateStale)
                else if is_forgotten db (su_source_id u) (pv_invocation_id (su_view u))
                then
                  result_bind (malformed (record_delivery db (su_source_id u) (su_delivery_id u)
                      (su_revision u) now)) (\<lambda>db1. Inr (db1, UpdateSuppressed))
                else
                  result_bind (malformed (prior db (su_source_id u) (pv_invocation_id (su_view u)))) (\<lambda>prior.
                    let actual = changed_public_fields prior (su_view u)
                    in if actual = {}
                       then Inl (Malformed ''update does not change the public view'')
                       else
                         let db1 = persist_view db (su_source_id u) (su_view u) now
                         in result_bind (malformed (record_delivery db1 (su_source_id u)
                                (su_delivery_id u) (su_revision u) now)) (\<lambda>db2.
                            result_bind (malformed (bump_revision db2)) (\<lambda>(db3, hub_revision).
                              Inr (db3, UpdateApplied hub_revision actual (prior = None)))))))"

section \<open>Reads, forgetting and retention\<close>

definition agent_view :: "AgentRow \<Rightarrow> HubError + MergedAgent" where
  "agent_view r =
     (case ag_view_json r of
        None \<Rightarrow> Inl BadViewJson
      | Some v \<Rightarrow> Inr \<lparr>ma_source_id = ag_source_id r, ma_view = v\<rparr>)"

fun collect_agents :: "AgentRow list \<Rightarrow> HubError + MergedAgent list" where
  "collect_agents [] = Inr []"
| "collect_agents (r # rs) =
     result_bind (agent_view r) (\<lambda>a. result_bind (collect_agents rs) (\<lambda>as. Inr (a # as)))"

definition merged :: "HubDb \<Rightarrow> HubError + nat \<times> SourceView list \<times> MergedAgent list" where
  "merged db =
     result_bind (collect_agents (sort_key agent_key (hd_agents db))) (\<lambda>agents.
       Inr (hd_revision db,
            map (\<lambda>r. \<lparr>sv_source_id = sr_source_id r, sv_display_name = sr_display_name r,
                      sv_revision = sr_source_revision r\<rparr>) (sort_key sr_source_id (hd_sources db)),
            agents))"

definition forget :: "HubDb \<Rightarrow> string \<Rightarrow> string \<Rightarrow> timestamp \<Rightarrow> HubError + HubDb \<times> ForgetOutcome" where
  "forget db source_id i now =
     (case tbl_lookup agent_key (source_id, i) (hd_agents db) of
        None \<Rightarrow> Inr (db, ForgetNotFound)
      | Some r \<Rightarrow>
          (case ag_view_json r of
             None \<Rightarrow> Inl BadViewJson
           | Some view \<Rightarrow>
               if pv_status view \<noteq> StatusStopped then Inr (db, ForgetNotStopped)
               else
                 let db1 = db\<lparr>hd_agents := tbl_delete agent_key (source_id, i) (hd_agents db),
                             hd_forgotten := tbl_put forgotten_key
                               \<lparr>fg_source_id = source_id, fg_invocation_id = i, fg_forgotten_at = now\<rparr>
                               (hd_forgotten db)\<rparr>
                 in result_bind (bump_revision db1) (\<lambda>(db2, hub_revision).
                      Inr (db2, Forgotten hub_revision))))"

text \<open>\<open>retention_days.saturating_mul(2)\<close>.\<close>

definition saturating_double :: "u64 \<Rightarrow> u64" where
  "saturating_double n = (if unat n * 2 < 2 ^ 64 then n * 2 else - 1)"

text \<open>
  The statements of \<open>prune_retained\<close> are separate transactions: a panic of the second
  subtraction (\<open>sub_days\<close> of chrono, \<open>None\<close>) keeps the deletions before it.
\<close>

definition prune_retained ::
    "(timestamp \<Rightarrow> u64 \<Rightarrow> timestamp option) \<Rightarrow> HubDb \<Rightarrow> u64 \<Rightarrow> timestamp
     \<Rightarrow> HubDb \<times> (HubError + nat)" where
  "prune_retained sub_days db retention_days now =
     (case sub_days now retention_days of
        None \<Rightarrow> (db, Inl HubTimeOutOfRange)
      | Some cutoff \<Rightarrow>
          let old_agent = (\<lambda>r. is_some_and (\<lambda>t. t < cutoff) (ag_stopped_at r));
              agents = length (filter old_agent (hd_agents db));
              kept = filter (\<lambda>r. \<not> old_agent r) (hd_agents db);
              deliveries = length (filter (\<lambda>r. dr_accepted_at r < cutoff) (hd_deliveries db));
              db1 = db\<lparr>hd_agents := kept,
                      hd_deliveries := filter (\<lambda>r. \<not> dr_accepted_at r < cutoff) (hd_deliveries db),
                      hd_sources := filter (\<lambda>r. sr_source_id r \<in> ag_source_id ` set kept) (hd_sources db)\<rparr>
          in case sub_days now (saturating_double retention_days) of
               None \<Rightarrow> (db1, Inl HubTimeOutOfRange)
             | Some tombstone_cutoff \<Rightarrow>
                 (db1\<lparr>hd_forgotten := filter (\<lambda>r. \<not> fg_forgotten_at r < tombstone_cutoff) (hd_forgotten db)\<rparr>,
                  Inr (agents + deliveries +
                       length (filter (\<lambda>r. fg_forgotten_at r < tombstone_cutoff) (hd_forgotten db)))))"

definition has_agent :: "HubDb \<Rightarrow> string \<Rightarrow> string \<Rightarrow> bool" where
  "has_agent db source_id i \<longleftrightarrow> tbl_lookup agent_key (source_id, i) (hd_agents db) \<noteq> None"

definition has_source :: "HubDb \<Rightarrow> string \<Rightarrow> bool" where
  "has_source db source_id \<longleftrightarrow> tbl_lookup sr_source_id source_id (hd_sources db) \<noteq> None"

section \<open>Devices\<close>

definition device_row :: "DeviceRow \<Rightarrow> Device" where
  "device_row r =
     \<lparr>de_device_id = dv_device_id r, de_spki_sha256 = dv_spki_sha256 r, de_name = dv_name r,
      de_scopes = Scope_names (Scope_parse_stored (dv_scopes r)), de_paired_at = dv_paired_at r,
      de_last_seen_at = dv_last_seen_at r\<rparr>"

definition upsert_device ::
    "HubDb \<Rightarrow> string \<Rightarrow> string \<Rightarrow> string \<Rightarrow> string list \<Rightarrow> timestamp \<Rightarrow> HubError + HubDb \<times> Device" where
  "upsert_device db device_id spki name scopes now =
     (case tbl_lookup dv_spki_sha256 spki (hd_devices db) of
        Some r \<Rightarrow>
          let r' = r\<lparr>dv_name := name, dv_scopes := join '','' scopes, dv_paired_at := now\<rparr>
          in Inr (db\<lparr>hd_devices := tbl_put dv_spki_sha256 r' (hd_devices db)\<rparr>, device_row r')
      | None \<Rightarrow>
          if device_id \<in> dv_device_id ` set (hd_devices db) then Inl DeviceIdTaken
          else
            let r = \<lparr>dv_device_id = device_id, dv_spki_sha256 = spki, dv_name = name,
                     dv_scopes = join '','' scopes, dv_paired_at = now, dv_last_seen_at = None\<rparr>
            in Inr (db\<lparr>hd_devices := hd_devices db @ [r]\<rparr>, device_row r))"

definition devices :: "HubDb \<Rightarrow> Device list" where
  "devices db = map device_row (sort_key (\<lambda>r. (dv_paired_at r, dv_device_id r)) (hd_devices db))"

definition device_by_spki :: "HubDb \<Rightarrow> string \<Rightarrow> Device option" where
  "device_by_spki db spki = map_option device_row (tbl_lookup dv_spki_sha256 spki (hd_devices db))"

definition find_device :: "HubDb \<Rightarrow> string \<Rightarrow> DeviceLookup" where
  "find_device db prefix =
     (if prefix = [] then DeviceNotFound
      else
        let candidates = filter (\<lambda>d. starts_with (de_device_id d) prefix) (devices db)
        in case List.find (\<lambda>d. de_device_id d = prefix) candidates of
             Some d \<Rightarrow> DeviceFound d
           | None \<Rightarrow>
               (case candidates of
                  [] \<Rightarrow> DeviceNotFound
                | [d] \<Rightarrow> DeviceFound d
                | _ \<Rightarrow> DeviceAmbiguous candidates))"

definition delete_device :: "HubDb \<Rightarrow> string \<Rightarrow> HubDb \<times> DeviceLookup" where
  "delete_device db prefix =
     (let lookup = find_device db prefix
      in case lookup of
           DeviceFound d \<Rightarrow>
             (db\<lparr>hd_devices := tbl_delete dv_device_id (de_device_id d) (hd_devices db)\<rparr>, lookup)
         | _ \<Rightarrow> (db, lookup))"

definition touch_device :: "HubDb \<Rightarrow> string \<Rightarrow> timestamp \<Rightarrow> HubDb" where
  "touch_device db device_id now =
     db\<lparr>hd_devices := map (\<lambda>r. if dv_device_id r = device_id then r\<lparr>dv_last_seen_at := Some now\<rparr> else r)
          (hd_devices db)\<rparr>"

end
