(* ===== verification/Hub_Props.thy ===== *)
theory Hub_Props
  imports Hub_Store Samples
begin

text \<open>
  The hub's promises: the invariant of its store in every reachable state, tombstones that hold,
  snapshots that replace exactly one source, updates applied once, and devices.
\<close>

section \<open>The invariant of the hub\<close>

definition wf_agent :: "HubDb \<Rightarrow> AgentRow \<Rightarrow> bool" where
  "wf_agent db r \<longleftrightarrow>
     (\<exists>v. ag_view_json r = Some v \<and> pv_invocation_id v = ag_invocation_id r \<and> valid_public_reason v
        \<and> ag_stopped_at r = (if pv_status v = StatusStopped then Some (pv_updated_at v) else None))
     \<and> ag_source_id r \<in> sr_source_id ` set (hd_sources db)
     \<and> agent_key r \<notin> forgotten_key ` set (hd_forgotten db)"

definition wf_devices :: "DeviceRow list \<Rightarrow> bool" where
  "wf_devices rows \<longleftrightarrow> tbl_wf dv_spki_sha256 rows \<and> tbl_wf dv_device_id rows"

definition wf_hub :: "HubDb \<Rightarrow> bool" where
  "wf_hub db \<longleftrightarrow>
     tbl_wf sr_source_id (hd_sources db) \<and> tbl_wf agent_key (hd_agents db)
     \<and> (\<forall>r\<in>set (hd_agents db). wf_agent db r)
     \<and> tbl_wf delivery_key (hd_deliveries db) \<and> tbl_wf forgotten_key (hd_forgotten db)
     \<and> wf_devices (hd_devices db)"

text \<open>The agent of a source as the hub shows it.\<close>

definition hub_view :: "HubDb \<Rightarrow> string \<Rightarrow> InvocationId \<Rightarrow> PublicAgentView option" where
  "hub_view db source i = Option.bind (tbl_lookup agent_key (source, i) (hd_agents db)) ag_view_json"

definition source_revision :: "HubDb \<Rightarrow> string \<Rightarrow> nat option" where
  "source_revision db source =
     map_option sr_source_revision (tbl_lookup sr_source_id source (hd_sources db))"

lemma source_known: "source_revision db s = Some n \<Longrightarrow> s \<in> sr_source_id ` set (hd_sources db)"
  by (auto simp: source_revision_def dest!: tbl_lookup_SomeD intro: rev_image_eqI)

lemma view_row_key [simp]: "agent_key (view_row source v now) = (source, pv_invocation_id v)"
  by (simp add: agent_key_def view_row_def)

lemma view_row_simps [simp]:
  "ag_view_json (view_row source v now) = Some v" "ag_source_id (view_row source v now) = source"
  by (simp_all add: view_row_def)

lemma bump_revision_Inr:
  "bump_revision db = Inr (db', n) \<longleftrightarrow> n = hd_revision db + 1 \<and> n < 2 ^ 63 \<and> db' = db\<lparr>hd_revision := n\<rparr>"
  by (auto simp: bump_revision_def)

lemma malformed_Inr [simp]: "malformed r = Inr v \<longleftrightarrow> r = Inr v"
  by (cases r) (simp_all add: malformed_def)

lemma is_forgotten_iff: "is_forgotten db s i \<longleftrightarrow> (s, i) \<in> forgotten_key ` set (hd_forgotten db)"
  by (simp add: is_forgotten_def tbl_lookup_None_iff)

lemma hub_view_put:
  "hub_view (db\<lparr>hd_agents := tbl_put agent_key (view_row source v now) (hd_agents db)\<rparr>) s i =
     (if s = source \<and> i = pv_invocation_id v then Some v else hub_view db s i)"
  by (auto simp: hub_view_def tbl_lookup_put)

lemma wf_agent_cong:
  "hd_sources db' = hd_sources db \<Longrightarrow> hd_forgotten db' = hd_forgotten db \<Longrightarrow> wf_agent db' r = wf_agent db r"
  by (simp add: wf_agent_def)

lemma prior_hub_view: "wf_hub db \<Longrightarrow> prior db source i = Inr (hub_view db source i)"
  by (cases "tbl_lookup agent_key (source, i) (hd_agents db)")
    (auto simp: prior_def hub_view_def wf_hub_def wf_agent_def dest!: tbl_lookup_SomeD)

section \<open>Recording a delivery and storing a view\<close>

definition record_in ::
    "string \<Rightarrow> nat \<Rightarrow> timestamp \<Rightarrow> SourceRow list \<Rightarrow> SourceRow list" where
  "record_in source n now rows = map (\<lambda>r. if sr_source_id r = source
     then r\<lparr>sr_source_revision := n, sr_updated_at := now\<rparr> else r) rows"

lemma record_in_keys [simp]: "map sr_source_id (record_in source n now rows) = map sr_source_id rows"
  by (simp add: record_in_def)

lemma record_in_image [simp]: "sr_source_id ` set (record_in source n now rows) = sr_source_id ` set rows"
  by (metis list.set_map record_in_keys)

lemma lookup_record_in:
  "tbl_lookup sr_source_id s (record_in source n now rows) =
     (if s = source then map_option (\<lambda>r. r\<lparr>sr_source_revision := n, sr_updated_at := now\<rparr>) (tbl_lookup sr_source_id s rows)
      else tbl_lookup sr_source_id s rows)"
  by (induction rows) (auto simp: record_in_def)

lemma record_delivery_Inr:
  "record_delivery db source d n now = Inr db' \<longleftrightarrow> n < 2 ^ 63 \<and>
     db' = db\<lparr>hd_sources := record_in source n now (hd_sources db), hd_deliveries := hd_deliveries db @
       [\<lparr>dr_source_id = source, dr_delivery_id = d, dr_accepted_at = now\<rparr>]\<rparr>"
  by (auto simp: record_delivery_def record_in_def)

lemma wf_record:
  assumes "wf_hub db" and "(source, d) \<notin> delivery_key ` set (hd_deliveries db)"
  shows "wf_hub (db\<lparr>hd_sources := record_in source n now (hd_sources db), hd_deliveries := hd_deliveries db @
     [\<lparr>dr_source_id = source, dr_delivery_id = d, dr_accepted_at = now\<rparr>]\<rparr>)"
  using assms by (auto simp: wf_hub_def wf_agent_def delivery_key_def)

lemma wf_put_view:
  assumes wf: "wf_hub db" and v: "valid_public_reason v" and src: "source \<in> sr_source_id ` set (hd_sources db)"
    and alive: "\<not> is_forgotten db source (pv_invocation_id v)"
  shows "wf_hub (db\<lparr>hd_agents := tbl_put agent_key (view_row source v now) (hd_agents db)\<rparr>)"
proof -
  have "wf_agent db (view_row source v now)"
    using v src alive by (auto simp: wf_agent_def is_forgotten_iff view_row_def agent_key_def)
  then show ?thesis
    using wf tbl_put_set [of agent_key "hd_agents db" "view_row source v now"]
    by (auto simp: wf_hub_def tbl_put_wf wf_agent_def)
qed

section \<open>Updates\<close>

text \<open>Every way an update can be accepted, with what it leaves behind.\<close>

lemma ingest_update_cases:
  assumes "ingest_update db (SourceEnvelopeUpdate u) now = Inr (db', a)"
  obtains (duplicate) "a = UpdateDuplicate" "db' = db"
      "(su_source_id u, su_delivery_id u) \<in> delivery_key ` set (hd_deliveries db)"
  | (stale) n where "a = UpdateStale" "db' = db" "source_revision db (su_source_id u) = Some n" "su_revision u \<le> n"
  | (suppressed) n where "a = UpdateSuppressed" "source_revision db (su_source_id u) = Some n" "n < su_revision u"
      "(su_source_id u, su_delivery_id u) \<notin> delivery_key ` set (hd_deliveries db)"
      "is_forgotten db (su_source_id u) (pv_invocation_id (su_view u))"
      "db' = db\<lparr>hd_sources := record_in (su_source_id u) (su_revision u) now (hd_sources db),
         hd_deliveries := hd_deliveries db @
           [\<lparr>dr_source_id = su_source_id u, dr_delivery_id = su_delivery_id u, dr_accepted_at = now\<rparr>]\<rparr>"
  | (applied) n p where "prior db (su_source_id u) (pv_invocation_id (su_view u)) = Inr p"
      "a = UpdateApplied (hd_revision db + 1) (changed_public_fields p (su_view u)) (p = None)"
      "p \<noteq> Some (su_view u)" "source_revision db (su_source_id u) = Some n" "n < su_revision u"
      "(su_source_id u, su_delivery_id u) \<notin> delivery_key ` set (hd_deliveries db)"
      "\<not> is_forgotten db (su_source_id u) (pv_invocation_id (su_view u))" "valid_public_reason (su_view u)"
      "db' = db\<lparr>hd_agents := tbl_put agent_key (view_row (su_source_id u) (su_view u) now) (hd_agents db),
         hd_sources := record_in (su_source_id u) (su_revision u) now (hd_sources db),
         hd_deliveries := hd_deliveries db @
           [\<lparr>dr_source_id = su_source_id u, dr_delivery_id = su_delivery_id u, dr_accepted_at = now\<rparr>],
         hd_revision := hd_revision db + 1\<rparr>"
  using assms
  by (auto simp: ingest_update_def result_bind_Inr record_delivery_Inr bump_revision_Inr persist_view_def
      Let_def tbl_lookup_None_iff source_revision_def changed_nonempty_iff split: if_splits option.splits)

lemma ingest_update_wf:
  assumes wf: "wf_hub db" and ok: "ingest_update db e now = Inr (db', a)"
  shows "wf_hub db'"
proof (cases e)
  case (SourceEnvelopeSnapshot x1)
  with ok show ?thesis by (simp add: ingest_update_def)
next
  case (SourceEnvelopeUpdate u)
  from ok [unfolded this] show ?thesis
  proof (cases rule: ingest_update_cases)
    case suppressed
    then show ?thesis using wf_record [OF wf suppressed(4)] by simp
  next
    case (applied n p)
    let ?db = "db\<lparr>hd_agents := tbl_put agent_key (view_row (su_source_id u) (su_view u) now) (hd_agents db)\<rparr>"
    have "su_source_id u \<in> sr_source_id ` set (hd_sources db)"
      using source_known [OF applied(4)] .
    then have "wf_hub ?db" using wf_put_view [OF wf applied(8) _ applied(7)] by blast
    then have "wf_hub (?db\<lparr>hd_sources := record_in (su_source_id u) (su_revision u) now (hd_sources ?db),
        hd_deliveries := hd_deliveries ?db @
          [\<lparr>dr_source_id = su_source_id u, dr_delivery_id = su_delivery_id u, dr_accepted_at = now\<rparr>]\<rparr>)"
      using applied(6) by (intro wf_record) simp_all
    then show ?thesis unfolding applied(9) by (simp add: wf_hub_def wf_agent_def)
  qed (use wf in auto)
qed

section \<open>Snapshots\<close>

lemma load_views_frame:
  "hd_sources (load_views db source vs now) = hd_sources db"
  "hd_forgotten (load_views db source vs now) = hd_forgotten db"
  "hd_deliveries (load_views db source vs now) = hd_deliveries db"
  "hd_devices (load_views db source vs now) = hd_devices db"
  "hd_revision (load_views db source vs now) = hd_revision db"
  by (induction vs arbitrary: db) (simp_all add: load_views_def persist_view_def)

lemma load_views_Cons:
  "load_views db source (v # vs) now =
     load_views (if is_forgotten db source (pv_invocation_id v) then db else persist_view db source v now) source vs now"
  by (simp add: load_views_def)

lemma is_forgotten_persist [simp]: "is_forgotten (persist_view db s v now) s' i = is_forgotten db s' i"
  by (simp add: is_forgotten_def persist_view_def)

lemma load_views_wf:
  "wf_hub db \<Longrightarrow> source \<in> sr_source_id ` set (hd_sources db) \<Longrightarrow> \<forall>v\<in>set vs. valid_public_reason v \<Longrightarrow>
   wf_hub (load_views db source vs now)"
proof (induction vs arbitrary: db)
  case (Cons v vs)
  let ?db = "if is_forgotten db source (pv_invocation_id v) then db else persist_view db source v now"
  have "wf_hub ?db"
    using Cons.prems wf_put_view [of db v source now] by (simp add: persist_view_def)
  moreover have "hd_sources ?db = hd_sources db" by (simp add: persist_view_def)
  ultimately show ?case using Cons.IH [of ?db] Cons.prems by (simp add: load_views_Cons)
qed (simp add: load_views_def)

lemma load_views_other: "s \<noteq> source \<Longrightarrow> hub_view (load_views db source vs now) s i = hub_view db s i"
proof (induction vs arbitrary: db)
  case (Cons v vs)
  then show ?case by (simp add: load_views_Cons persist_view_def hub_view_put)
qed (simp add: load_views_def)

lemma load_views_view:
  "distinct (map pv_invocation_id vs) \<Longrightarrow> hub_view (load_views db source vs now) source i =
     (if is_forgotten db source i then hub_view db source i
      else case tbl_lookup pv_invocation_id i vs of None \<Rightarrow> hub_view db source i | Some v \<Rightarrow> Some v)"
proof (induction vs arbitrary: db)
  case (Cons v vs)
  let ?db = "if is_forgotten db source (pv_invocation_id v) then db else persist_view db source v now"
  have same: "is_forgotten ?db source i = is_forgotten db source i" by simp
  have "tbl_lookup pv_invocation_id (pv_invocation_id v) vs = None"
    using Cons.prems by (simp add: tbl_lookup_None_iff)
  moreover have "hub_view ?db source i =
      (if i = pv_invocation_id v \<and> \<not> is_forgotten db source i then Some v else hub_view db source i)"
    by (auto simp: persist_view_def hub_view_put)
  ultimately show ?case
    using Cons.IH [of ?db] Cons.prems same
    by (cases "tbl_lookup pv_invocation_id i vs") (auto simp: load_views_Cons)
qed (simp add: load_views_def)

text \<open>The state right before the views of a snapshot are loaded.\<close>

definition cleared :: "HubDb \<Rightarrow> SourceSnapshot \<Rightarrow> timestamp \<Rightarrow> HubDb" where
  "cleared db s now = db\<lparr>hd_sources := tbl_put sr_source_id
       \<lparr>sr_source_id = si_id (ss_source s), sr_display_name = si_display_name (ss_source s),
        sr_source_revision = ss_revision s, sr_updated_at = now\<rparr> (hd_sources db),
     hd_agents := filter (\<lambda>r. ag_source_id r \<noteq> si_id (ss_source s)) (hd_agents db)\<rparr>"

lemma ingest_snapshot_cases:
  assumes "ingest_snapshot db (SourceEnvelopeSnapshot s) now = Inr (db', a)"
  obtains (stale) n where "a = SnapshotStale" "db' = db" "source_revision db (si_id (ss_source s)) = Some n"
      "ss_revision s < n"
  | (applied) "a = SnapshotApplied (hd_revision db + 1)" "distinct (map pv_invocation_id (ss_views s))"
      "\<forall>v\<in>set (ss_views s). valid_public_reason v"
      "\<forall>n. source_revision db (si_id (ss_source s)) = Some n \<longrightarrow> n \<le> ss_revision s"
      "db' = (load_views (cleared db s now) (si_id (ss_source s)) (ss_views s) now)
         \<lparr>hd_revision := hd_revision db + 1\<rparr>"
proof (cases "tbl_lookup sr_source_id (si_id (ss_source s)) (hd_sources db)")
  case None
  with assms that show thesis
    by (auto simp: ingest_snapshot_def result_bind_Inr Let_def bump_revision_Inr source_revision_def
        load_views_frame cleared_def list_ex_iff split: if_splits)
next
  case (Some r)
  with assms that show thesis
    by (auto simp: ingest_snapshot_def result_bind_Inr Let_def bump_revision_Inr source_revision_def
        load_views_frame cleared_def list_ex_iff split: if_splits)
qed

lemma cleared_wf: "wf_hub db \<Longrightarrow> wf_hub (cleared db s now)"
  by (auto simp: wf_hub_def cleared_def wf_agent_def tbl_put_wf tbl_put_keys tbl_filter_wf)

lemma cleared_view:
  assumes "wf_hub db"
  shows "hub_view (cleared db s now) source i =
    (if source = si_id (ss_source s) then None else hub_view db source i)"
  using assms
  by (auto simp: hub_view_def cleared_def tbl_lookup_filter wf_hub_def agent_key_def
      split: option.splits dest!: tbl_lookup_SomeD)

lemma ingest_snapshot_wf:
  assumes wf: "wf_hub db" and ok: "ingest_snapshot db e now = Inr (db', a)"
  shows "wf_hub db'"
proof (cases e)
  case (SourceEnvelopeUpdate x1)
  with ok show ?thesis by (simp add: ingest_snapshot_def)
next
  case (SourceEnvelopeSnapshot s)
  from ok [unfolded this] show ?thesis
  proof (cases rule: ingest_snapshot_cases)
    case applied
    have "wf_hub (load_views (cleared db s now) (si_id (ss_source s)) (ss_views s) now)"
      using applied(3) by (intro load_views_wf cleared_wf wf) (simp_all add: cleared_def tbl_put_keys)
    then show ?thesis unfolding applied(5) by (simp add: wf_hub_def wf_agent_def)
  qed (use wf in auto)
qed

section \<open>Forgetting, retention, devices\<close>

lemma forgotten_keys_put:
  "forgotten_key ` set (tbl_put forgotten_key \<lparr>fg_source_id = source, fg_invocation_id = i,
      fg_forgotten_at = now\<rparr> rows) = insert (source, i) (forgotten_key ` set rows)"
  by (simp only: tbl_put_keys) (simp add: forgotten_key_def)

lemma forget_cases:
  assumes "forget db source i now = Inr (db', a)"
  obtains (unchanged) "db' = db" "a \<in> {ForgetNotFound, ForgetNotStopped}"
  | (forgotten) v where "hub_view db source i = Some v" "pv_status v = StatusStopped"
      "a = Forgotten (hd_revision db + 1)"
      "db' = db\<lparr>hd_agents := tbl_delete agent_key (source, i) (hd_agents db),
         hd_forgotten := tbl_put forgotten_key \<lparr>fg_source_id = source, fg_invocation_id = i,
           fg_forgotten_at = now\<rparr> (hd_forgotten db), hd_revision := hd_revision db + 1\<rparr>"
  using assms by (auto simp: forget_def hub_view_def result_bind_Inr bump_revision_Inr Let_def
      split: option.splits if_splits)

lemma forget_wf:
  assumes wf: "wf_hub db" and ok: "forget db source i now = Inr (db', a)"
  shows "wf_hub db'"
  using ok
proof (cases rule: forget_cases)
  case (forgotten v)
  have "r \<in> set (tbl_delete agent_key (source, i) (hd_agents db)) \<Longrightarrow>
      r \<in> set (hd_agents db) \<and> agent_key r \<noteq> (source, i)" for r
    by (simp add: tbl_delete_def)
  then show ?thesis
    using wf unfolding forgotten(4)
    by (auto simp: wf_hub_def wf_agent_def tbl_put_wf tbl_delete_wf forgotten_keys_put)
qed (use wf in simp)

lemma wf_agent_fewer:
  "wf_agent db r \<Longrightarrow> ag_source_id r \<in> sr_source_id ` set (hd_sources db') \<Longrightarrow>
   set (hd_forgotten db') \<subseteq> set (hd_forgotten db) \<Longrightarrow> wf_agent db' r"
  by (auto simp: wf_agent_def)

lemma prune_retained_wf:
  assumes wf: "wf_hub db" and ok: "prune_retained sub_days db d now = (db', r)"
  shows "wf_hub db'"
proof (cases "sub_days now d")
  case None
  with ok wf show ?thesis by (simp add: prune_retained_def)
next
  case (Some cutoff)
  let ?kept = "filter (\<lambda>r. \<not> is_some_and (\<lambda>t. t < cutoff) (ag_stopped_at r)) (hd_agents db)"
  let ?sources = "filter (\<lambda>r. sr_source_id r \<in> ag_source_id ` set ?kept) (hd_sources db)"
  obtain fs where db': "db' = db\<lparr>hd_agents := ?kept, hd_sources := ?sources, hd_forgotten := fs,
      hd_deliveries := filter (\<lambda>r. \<not> dr_accepted_at r < cutoff) (hd_deliveries db)\<rparr>"
    and fs: "set fs \<subseteq> set (hd_forgotten db)" "tbl_wf forgotten_key fs"
  proof (cases "sub_days now (saturating_double d)")
    case None
    with Some ok wf that [of "hd_forgotten db"] show thesis
      by (auto simp: prune_retained_def Let_def wf_hub_def)
  next
    case (Some tc)
    with \<open>sub_days now d = Some cutoff\<close> ok wf
      that [of "filter (\<lambda>r. \<not> fg_forgotten_at r < tc) (hd_forgotten db)"] show thesis
      by (auto simp: prune_retained_def Let_def wf_hub_def tbl_filter_wf)
  qed
  have "wf_agent db' x" if "x \<in> set ?kept" for x
  proof (rule wf_agent_fewer)
    show "wf_agent db x" using that wf by (simp add: wf_hub_def)
    then obtain y where "y \<in> set (hd_sources db)" "sr_source_id y = ag_source_id x"
      by (auto simp: wf_agent_def)
    with that show "ag_source_id x \<in> sr_source_id ` set (hd_sources db')"
      unfolding db' by (intro image_eqI [where x = y]) auto
  qed (use fs db' in simp)
  then show ?thesis
    using wf fs unfolding db' by (simp add: wf_hub_def tbl_filter_wf)
qed

lemma wf_hub_devices: "wf_hub db \<Longrightarrow> wf_devices rows \<Longrightarrow> wf_hub (db\<lparr>hd_devices := rows\<rparr>)"
  by (simp add: wf_hub_def wf_agent_def)

lemma map_put_device:
  "tbl_lookup dv_spki_sha256 k rows = Some r \<Longrightarrow> dv_spki_sha256 r' = dv_spki_sha256 r \<Longrightarrow>
   dv_device_id r' = dv_device_id r \<Longrightarrow>
   map dv_device_id (tbl_put dv_spki_sha256 r' rows) = map dv_device_id rows"
  by (induction rows) (auto split: if_splits dest: tbl_lookup_SomeD)

lemma upsert_device_wf:
  assumes wf: "wf_hub db" and ok: "upsert_device db i spki name scopes now = Inr (db', dev)"
  shows "wf_hub db'"
proof (cases "tbl_lookup dv_spki_sha256 spki (hd_devices db)")
  case None
  let ?r = "\<lparr>dv_device_id = i, dv_spki_sha256 = spki, dv_name = name,
      dv_scopes = join '','' scopes, dv_paired_at = now, dv_last_seen_at = None\<rparr>"
  have "i \<notin> dv_device_id ` set (hd_devices db)" and db': "db' = db\<lparr>hd_devices := hd_devices db @ [?r]\<rparr>"
    using None ok by (auto simp: upsert_device_def Let_def split: if_splits)
  then have "wf_devices (hd_devices db @ [?r])"
    using None wf by (simp add: wf_hub_def wf_devices_def tbl_lookup_None_iff)
  with wf show ?thesis unfolding db' by (rule wf_hub_devices)
next
  case (Some r)
  let ?r = "r\<lparr>dv_name := name, dv_scopes := join '','' scopes, dv_paired_at := now\<rparr>"
  have "wf_devices (tbl_put dv_spki_sha256 ?r (hd_devices db))"
    using wf map_put_device [OF Some, of ?r] by (simp add: wf_hub_def wf_devices_def tbl_put_wf)
  with Some ok wf show ?thesis
    by (auto simp: upsert_device_def Let_def intro: wf_hub_devices)
qed

lemma delete_device_wf:
  assumes wf: "wf_hub db" and "delete_device db prefix = (db', l)"
  shows "wf_hub db'"
proof -
  have "wf_devices (tbl_delete dv_device_id i (hd_devices db))" for i
    using wf by (simp add: wf_hub_def wf_devices_def tbl_delete_def tbl_filter_wf)
  then show ?thesis
    using assms wf_hub_devices [OF wf] by (auto simp: delete_device_def Let_def split: DeviceLookup.splits)
qed

lemma touch_device_wf:
  assumes wf: "wf_hub db"
  shows "wf_hub (touch_device db i now)"
  unfolding touch_device_def using wf
  by (intro wf_hub_devices [OF wf])
    (simp add: wf_hub_def wf_devices_def comp_def if_distrib cong: if_cong)

section \<open>The hub as a transition system\<close>

inductive hub_step :: "HubDb \<Rightarrow> HubDb \<Rightarrow> bool" where
  hub_snapshot: "ingest_snapshot db e now = Inr (db', a) \<Longrightarrow> hub_step db db'"
| hub_update: "ingest_update db e now = Inr (db', u) \<Longrightarrow> hub_step db db'"
| hub_forget: "forget db source i now = Inr (db', o') \<Longrightarrow> hub_step db db'"
| hub_pair: "upsert_device db i spki name scopes now = Inr (db', d) \<Longrightarrow> hub_step db db'"
| hub_revoke: "delete_device db prefix = (db', l) \<Longrightarrow> hub_step db db'"
| hub_touch: "hub_step db (touch_device db i now)"

text \<open>Retention is kept apart: it is the only step that drops tombstones and deliveries.\<close>

inductive hub_prune :: "HubDb \<Rightarrow> HubDb \<Rightarrow> bool" where
  "prune_retained sub_days db d now = (db', r) \<Longrightarrow> hub_prune db db'"

definition hub_reachable :: "HubDb \<Rightarrow> HubDb \<Rightarrow> bool" where
  "hub_reachable = (\<lambda>a b. hub_step a b \<or> hub_prune a b)\<^sup>*\<^sup>*"

definition hub_reachable_unpruned :: "HubDb \<Rightarrow> HubDb \<Rightarrow> bool" where
  "hub_reachable_unpruned = hub_step\<^sup>*\<^sup>*"

inductive_cases hub_pruneE: "hub_prune db db'"

lemma hub_step_wf: "hub_step db db' \<Longrightarrow> wf_hub db \<Longrightarrow> wf_hub db'"
  by (induction rule: hub_step.induct)
    (auto intro: ingest_snapshot_wf ingest_update_wf forget_wf upsert_device_wf delete_device_wf touch_device_wf)

lemma hub_reachable_wf: "hub_reachable db db' \<Longrightarrow> wf_hub db \<Longrightarrow> wf_hub db'"
  unfolding hub_reachable_def
  by (induction rule: rtranclp_induct) (auto elim: hub_pruneE intro: hub_step_wf prune_retained_wf)

lemma wf_HubDb_empty: "wf_hub HubDb_empty"
  by (simp add: wf_hub_def HubDb_empty_def wf_devices_def)

lemma ingest_frame:
  "ingest_snapshot db e now = Inr (db', a) \<Longrightarrow> hd_forgotten db' = hd_forgotten db"
  "ingest_update db e now = Inr (db', u) \<Longrightarrow> hd_forgotten db' = hd_forgotten db"
proof -
  show "hd_forgotten db' = hd_forgotten db" if "ingest_snapshot db e now = Inr (db', a)"
  proof (cases e)
    case (SourceEnvelopeSnapshot s)
    from that [unfolded this] show ?thesis
      by (cases rule: ingest_snapshot_cases) (simp_all add: load_views_frame cleared_def)
  qed (use that in \<open>simp add: ingest_snapshot_def\<close>)
  show "hd_forgotten db' = hd_forgotten db" if "ingest_update db e now = Inr (db', u)"
  proof (cases e)
    case (SourceEnvelopeUpdate x)
    from that [unfolded this] show ?thesis by (cases rule: ingest_update_cases) simp_all
  qed (use that in \<open>simp add: ingest_update_def\<close>)
qed

lemma hub_step_forgotten:
  "hub_step db db' \<Longrightarrow> forgotten_key ` set (hd_forgotten db) \<subseteq> forgotten_key ` set (hd_forgotten db')"
proof (induction rule: hub_step.induct)
  case (hub_forget db source i now db' o')
  then show ?case by (cases rule: forget_cases) (auto simp: tbl_put_keys)
qed (auto simp: upsert_device_def delete_device_def touch_device_def Let_def ingest_frame
    split: option.splits if_splits DeviceLookup.splits)

lemma hub_unpruned_forgotten:
  "hub_reachable_unpruned db db' \<Longrightarrow> forgotten_key ` set (hd_forgotten db) \<subseteq> forgotten_key ` set (hd_forgotten db')"
  unfolding hub_reachable_unpruned_def
  by (induction rule: rtranclp_induct) (use hub_step_forgotten in blast)+

lemma hub_unpruned_wf: "hub_reachable_unpruned db db' \<Longrightarrow> wf_hub db \<Longrightarrow> wf_hub db'"
  unfolding hub_reachable_unpruned_def by (induction rule: rtranclp_induct) (auto intro: hub_step_wf)

lemma forgotten_not_shown:
  assumes "wf_hub db" and "(source, i) \<in> forgotten_key ` set (hd_forgotten db)"
  shows "hub_view db source i = None" and "\<not> has_agent db source i"
proof -
  have "tbl_lookup agent_key (source, i) (hd_agents db) = None"
    using assms by (auto simp: tbl_lookup_None_iff wf_hub_def wf_agent_def)
  then show "hub_view db source i = None" "\<not> has_agent db source i"
    by (simp_all add: hub_view_def has_agent_def)
qed

section \<open>Samples\<close>

definition sample_view :: PublicAgentView where
  "sample_view = project_public (sample_snapshot\<lparr>sn_activity := Stopped\<rparr>) None"

definition sample_source_snapshot :: SourceSnapshot where
  "sample_source_snapshot = \<lparr>ss_schema_version = 1,
     ss_source = \<lparr>si_id = ''host'', si_display_name = None\<rparr>, ss_revision = 3, ss_views = [sample_view]\<rparr>"

definition sample_hub :: HubDb where
  "sample_hub = HubDb_empty\<lparr>hd_revision := 1,
     hd_sources := [\<lparr>sr_source_id = ''host'', sr_display_name = None, sr_source_revision = 3, sr_updated_at = 5\<rparr>],
     hd_agents := [view_row ''host'' sample_view 5]\<rparr>"

definition sample_update :: SourceUpdate where
  "sample_update = \<lparr>su_schema_version = 1, su_source_id = ''host'', su_delivery_id = ''d1'',
     su_revision = 4, su_changed = {FStatus}, su_view = sample_view\<lparr>pv_status := StatusRunning\<rparr>\<rparr>"

lemma sample_view_facts [simp]:
  "pv_invocation_id sample_view = ''inv-1''" "pv_status sample_view = StatusStopped" "pv_reason sample_view = None"
  by (simp_all add: sample_view_def sample_snapshot_def project_public_reason)

lemma sample_snapshot_applies:
  "ingest_snapshot HubDb_empty (SourceEnvelopeSnapshot sample_source_snapshot) 5 = Inr (sample_hub, SnapshotApplied 1)"
  by (simp add: ingest_snapshot_def sample_source_snapshot_def validate_version_def HUB_SCHEMA_VERSION_def
      valid_public_reason_def HubDb_empty_def load_views_def is_forgotten_def persist_view_def
      bump_revision_def malformed_def sample_hub_def Let_def)

lemma sample_hub_reachable: "hub_reachable HubDb_empty sample_hub"
  unfolding hub_reachable_def
  by (rule r_into_rtranclp) (blast intro: hub_snapshot [OF sample_snapshot_applies])

lemma wf_sample_hub: "wf_hub sample_hub"
  by (rule hub_reachable_wf [OF sample_hub_reachable wf_HubDb_empty])

lemma sample_forget: "\<exists>db. forget sample_hub ''host'' ''inv-1'' 6 = Inr (db, Forgotten 2)"
  by (simp add: forget_def sample_hub_def HubDb_empty_def bump_revision_def Let_def)

lemma sample_update_applies:
  "\<exists>db ch. ingest_update sample_hub (SourceEnvelopeUpdate sample_update) 6 = Inr (db, UpdateApplied 2 ch False)"
proof -
  have "sample_view \<noteq> sample_view\<lparr>pv_status := StatusRunning\<rparr>"
    by (metis PublicAgentView.select_convs(3) PublicAgentView.surjective PublicAgentView.update_convs(3)
        PublicStatus.distinct(5) sample_view_facts(2))
  then have "changed_public_fields (Some sample_view) (sample_view\<lparr>pv_status := StatusRunning\<rparr>) \<noteq> {}"
    by (simp add: changed_Some_empty_iff)
  then show ?thesis
    by (simp add: ingest_update_def sample_update_def validate_version_def HUB_SCHEMA_VERSION_def
        valid_public_reason_def sample_hub_def HubDb_empty_def is_forgotten_def prior_def persist_view_def
        record_delivery_def bump_revision_def malformed_def Let_def)
qed

section \<open>Properties\<close>

text \<open>
  (C32) The invariant of the hub holds in every reachable state, retention runs included: every
  agent belongs to a known source, carries a view of its own invocation with a reason that fits
  its status, and is not one that has been forgotten.
\<close>

theorem hub_invariant:
  assumes "hub_reachable HubDb_empty db"
  shows "wf_hub db"
  using hub_reachable_wf [OF assms wf_HubDb_empty] .

theorem hub_invariant_witness: "wf_hub sample_hub"
  by (rule hub_invariant [OF sample_hub_reachable])

text \<open>
  (C13) A forgotten agent stays forgotten: once forgetting has succeeded, no sequence of snapshots,
  updates, forgets and device changes shows the agent again, until retention drops the tombstone.
\<close>

theorem forgotten_agent_stays_forgotten:
  assumes "wf_hub db" and "forget db source i now = Inr (db1, Forgotten n)"
    and "hub_reachable_unpruned db1 db2"
  shows "hub_view db2 source i = None \<and> \<not> has_agent db2 source i"
proof -
  have "(source, i) \<in> forgotten_key ` set (hd_forgotten db1)"
    using assms(2) by (cases rule: forget_cases) (auto simp: forgotten_keys_put)
  then have "(source, i) \<in> forgotten_key ` set (hd_forgotten db2)"
    using hub_unpruned_forgotten [OF assms(3)] by blast
  moreover have "wf_hub db2"
    using hub_unpruned_wf [OF assms(3) forget_wf [OF assms(1,2)]] .
  ultimately show ?thesis using forgotten_not_shown by blast
qed

theorem forgotten_agent_stays_forgotten_witness:
  "\<exists>db1 db2 a. forget sample_hub ''host'' ''inv-1'' 6 = Inr (db1, Forgotten 2)
     \<and> ingest_snapshot db1 (SourceEnvelopeSnapshot sample_source_snapshot) 7 = Inr (db2, a)
     \<and> hub_view db2 ''host'' ''inv-1'' = None"
proof -
  obtain db1 where f: "forget sample_hub ''host'' ''inv-1'' 6 = Inr (db1, Forgotten 2)"
    using sample_forget by blast
  have "\<exists>db2 a. ingest_snapshot db1 (SourceEnvelopeSnapshot sample_source_snapshot) 7 = Inr (db2, a)"
    using f
    by (auto simp: forget_def sample_hub_def HubDb_empty_def bump_revision_def Let_def ingest_snapshot_def
        sample_source_snapshot_def validate_version_def HUB_SCHEMA_VERSION_def valid_public_reason_def
        load_views_def is_forgotten_def persist_view_def malformed_def forgotten_key_def)
  then obtain db2 a where s: "ingest_snapshot db1 (SourceEnvelopeSnapshot sample_source_snapshot) 7 = Inr (db2, a)"
    by blast
  then have "hub_reachable_unpruned db1 db2"
    unfolding hub_reachable_unpruned_def by (blast intro: hub_snapshot)
  from forgotten_agent_stays_forgotten [OF wf_sample_hub f this] f s show ?thesis by blast
qed

lemma applied_snapshot_views:
  assumes wf: "wf_hub db"
    and ok: "ingest_snapshot db (SourceEnvelopeSnapshot s) now = Inr (db', SnapshotApplied n)"
  shows "hub_view db' source i =
      (if source \<noteq> si_id (ss_source s) then hub_view db source i
       else if is_forgotten db source i then None else tbl_lookup pv_invocation_id i (ss_views s))"
    and "is_forgotten db' = is_forgotten db"
    and "source_revision db' (si_id (ss_source s)) = Some (ss_revision s)" and "n = hd_revision db + 1"
proof -
  have db': "db' = (load_views (cleared db s now) (si_id (ss_source s)) (ss_views s) now)
      \<lparr>hd_revision := hd_revision db + 1\<rparr>" and d: "distinct (map pv_invocation_id (ss_views s))"
    and n: "n = hd_revision db + 1"
    using ok by (cases rule: ingest_snapshot_cases; simp)+
  have view: "hub_view db' = hub_view (load_views (cleared db s now) (si_id (ss_source s)) (ss_views s) now)"
    unfolding db' by (simp add: hub_view_def fun_eq_iff)
  have f: "is_forgotten (cleared db s now) = is_forgotten db"
    by (simp add: is_forgotten_def cleared_def fun_eq_iff)
  then show "hub_view db' source i =
      (if source \<noteq> si_id (ss_source s) then hub_view db source i
       else if is_forgotten db source i then None else tbl_lookup pv_invocation_id i (ss_views s))"
    unfolding view using load_views_other [of source "si_id (ss_source s)" "cleared db s now"]
      load_views_view [OF d, of "cleared db s now" "si_id (ss_source s)" now i] cleared_view [OF wf]
    by (cases "tbl_lookup pv_invocation_id i (ss_views s)") auto
  show "is_forgotten db' = is_forgotten db"
    using f unfolding db' by (simp add: is_forgotten_def load_views_frame fun_eq_iff)
  show "source_revision db' (si_id (ss_source s)) = Some (ss_revision s)"
    unfolding db' by (simp add: source_revision_def load_views_frame cleared_def tbl_lookup_put)
qed (use ok in \<open>cases rule: ingest_snapshot_cases; simp\<close>)

text \<open>
  A snapshot replaces one source: when it is applied, the agents of its source are exactly
  its views less the forgotten ones, the source is at its revision, and every other source is
  untouched.
\<close>

theorem snapshot_replaces_source:
  assumes wf: "wf_hub db"
    and ok: "ingest_snapshot db (SourceEnvelopeSnapshot s) now = Inr (db', SnapshotApplied n)"
  shows "hub_view db' source i =
      (if source \<noteq> si_id (ss_source s) then hub_view db source i
       else if is_forgotten db source i then None else tbl_lookup pv_invocation_id i (ss_views s))
    \<and> source_revision db' (si_id (ss_source s)) = Some (ss_revision s) \<and> n = hd_revision db + 1"
  using applied_snapshot_views [OF wf ok] by simp

theorem snapshot_replaces_source_witness: "hub_view sample_hub ''host'' ''inv-1'' = Some sample_view"
  using snapshot_replaces_source [OF wf_HubDb_empty sample_snapshot_applies, of "''host''" "''inv-1''"]
  by (simp add: sample_source_snapshot_def is_forgotten_def HubDb_empty_def)

lemma applied_update_views:
  assumes wf: "wf_hub db"
    and ok: "ingest_update db (SourceEnvelopeUpdate u) now = Inr (db', UpdateApplied n ch fresh)"
  shows "hub_view db' source i =
      (if source = su_source_id u \<and> i = pv_invocation_id (su_view u) then Some (su_view u)
       else hub_view db source i)
    \<and> source_revision db' (su_source_id u) = Some (su_revision u) \<and> n = hd_revision db + 1
    \<and> ch = changed_public_fields (hub_view db (su_source_id u) (pv_invocation_id (su_view u))) (su_view u)
    \<and> ch \<noteq> {} \<and> (fresh \<longleftrightarrow> hub_view db (su_source_id u) (pv_invocation_id (su_view u)) = None)"
  using ok
proof (cases rule: ingest_update_cases)
  case (applied m p)
  let ?v = "hub_view db (su_source_id u) (pv_invocation_id (su_view u))"
  have p: "p = ?v" using applied(1) prior_hub_view [OF wf] by simp
  have "hub_view db' source i = hub_view (db\<lparr>hd_agents := tbl_put agent_key
      (view_row (su_source_id u) (su_view u) now) (hd_agents db)\<rparr>) source i"
    unfolding applied(9) by (simp add: hub_view_def)
  moreover have "source_revision db' (su_source_id u) = Some (su_revision u)"
    using applied(4) unfolding applied(9) by (auto simp: source_revision_def lookup_record_in)
  ultimately show ?thesis
    using applied(2,3) unfolding p by (auto simp: hub_view_put changed_nonempty_iff)
qed simp_all

text \<open>
  An update changes one agent: when it is applied, the hub shows its view for that agent and
  everything else as before, the source is at its revision, and the announced fields are the ones
  in which the view differs from the one shown before.
\<close>

theorem update_changes_one_agent:
  assumes wf: "wf_hub db"
    and ok: "ingest_update db (SourceEnvelopeUpdate u) now = Inr (db', UpdateApplied n ch fresh)"
  shows "hub_view db' source i =
      (if source = su_source_id u \<and> i = pv_invocation_id (su_view u) then Some (su_view u)
       else hub_view db source i)
    \<and> source_revision db' (su_source_id u) = Some (su_revision u) \<and> n = hd_revision db + 1
    \<and> ch = changed_public_fields (hub_view db (su_source_id u) (pv_invocation_id (su_view u))) (su_view u)
    \<and> ch \<noteq> {} \<and> (fresh \<longleftrightarrow> hub_view db (su_source_id u) (pv_invocation_id (su_view u)) = None)"
  using applied_update_views [OF assms] .

theorem update_changes_one_agent_witness:
  "\<exists>db ch. ingest_update sample_hub (SourceEnvelopeUpdate sample_update) 6 = Inr (db, UpdateApplied 2 ch False)
     \<and> source_revision db ''host'' = Some 4"
proof -
  obtain db ch where u: "ingest_update sample_hub (SourceEnvelopeUpdate sample_update) 6 =
      Inr (db, UpdateApplied 2 ch False)" using sample_update_applies by blast
  with update_changes_one_agent [OF wf_sample_hub u] show ?thesis by (auto simp: sample_update_def)
qed

text \<open>
  Updates are applied at most once: an update the hub has accepted is answered as a duplicate
  when it comes again, and one that is not newer than the source is answered as stale; neither
  changes anything.
\<close>

theorem update_redelivery_harmless:
  assumes ok: "ingest_update db (SourceEnvelopeUpdate u) now = Inr (db', a)"
    and acc: "a \<noteq> UpdateStale"
  shows "ingest_update db' (SourceEnvelopeUpdate u) now' = Inr (db', UpdateDuplicate)"
proof -
  have pre: "validate_version (su_schema_version u) = Inr ()"
      "\<not> (su_source_id u = [] \<or> su_delivery_id u = [] \<or> su_changed u = {})" "valid_public_reason (su_view u)"
      "tbl_lookup sr_source_id (su_source_id u) (hd_sources db) \<noteq> None"
    using ok by (auto simp: ingest_update_def result_bind_Inr split: if_splits option.splits)
  have "tbl_lookup sr_source_id (su_source_id u) (hd_sources db') \<noteq> None
      \<and> (su_source_id u, su_delivery_id u) \<in> delivery_key ` set (hd_deliveries db')"
    using ok by (cases rule: ingest_update_cases) (use acc pre(4) in \<open>auto simp: lookup_record_in delivery_key_def\<close>)
  with pre show ?thesis
    by (auto simp: ingest_update_def tbl_lookup_None_iff split: option.splits)
qed

theorem update_redelivery_harmless_witness:
  "\<exists>db a. ingest_update sample_hub (SourceEnvelopeUpdate sample_update) 6 = Inr (db, a)
     \<and> ingest_update db (SourceEnvelopeUpdate sample_update) 9 = Inr (db, UpdateDuplicate)"
proof -
  obtain db ch where u: "ingest_update sample_hub (SourceEnvelopeUpdate sample_update) 6 =
      Inr (db, UpdateApplied 2 ch False)" using sample_update_applies by blast
  with update_redelivery_harmless [OF u] show ?thesis by auto
qed

text \<open>
  Device lookup: a full id finds its device even when other ids extend it, a prefix finds a
  device only when no other id has it, and revoking a device leaves none under its id.
\<close>

theorem device_lookup:
  assumes prefix: "prefix \<noteq> []"
  shows "(case find_device db prefix of
      DeviceFound d \<Rightarrow> d \<in> set (devices db) \<and> starts_with (de_device_id d) prefix
        \<and> (\<forall>d'\<in>set (devices db). starts_with (de_device_id d') prefix \<longrightarrow> d' = d \<or> de_device_id d = prefix)
        \<and> de_device_id d \<notin> dv_device_id ` set (hd_devices (fst (delete_device db prefix)))
    | DeviceNotFound \<Rightarrow> \<forall>d\<in>set (devices db). \<not> starts_with (de_device_id d) prefix
    | DeviceAmbiguous ds \<Rightarrow> length ds \<ge> 2 \<and> set ds = {d \<in> set (devices db). starts_with (de_device_id d) prefix}
        \<and> (\<forall>d\<in>set ds. de_device_id d \<noteq> prefix))"
proof -
  let ?c = "filter (\<lambda>d. starts_with (de_device_id d) prefix) (devices db)"
  have gone: "find_device db prefix = DeviceFound d \<Longrightarrow>
      de_device_id d \<notin> dv_device_id ` set (hd_devices (fst (delete_device db prefix)))" for d
    by (auto simp: delete_device_def Let_def tbl_delete_def)
  show ?thesis
  proof (cases "List.find (\<lambda>d. de_device_id d = prefix) ?c")
    case (Some d)
    then have f: "find_device db prefix = DeviceFound d" using prefix by (simp add: find_device_def Let_def)
    have "d \<in> set ?c" "de_device_id d = prefix"
      using Some by (auto simp: find_Some_iff dest: nth_mem)
    with f gone show ?thesis by auto
  next
    case None
    then have n: "\<forall>d\<in>set ?c. de_device_id d \<noteq> prefix" by (auto simp: find_None_iff)
    show ?thesis
    proof (cases ?c)
      case Nil
      with None prefix show ?thesis by (auto simp: find_device_def Let_def filter_empty_conv)
    next
      case (Cons d ds)
      have members: "set (d # ds) = {d \<in> set (devices db). starts_with (de_device_id d) prefix}"
        by (simp only: Cons [symmetric] set_filter)
      show ?thesis
      proof (cases ds)
        case Nil
        then have "find_device db prefix = DeviceFound d"
          using None Cons prefix by (simp add: find_device_def Let_def)
        with members Nil gone show ?thesis by auto
      next
        case (Cons d2 ds2)
        then have "find_device db prefix = DeviceAmbiguous (d # ds)"
          using None \<open>?c = d # ds\<close> prefix by (simp add: find_device_def Let_def)
        with members n \<open>?c = d # ds\<close> Cons show ?thesis by auto
      qed
    qed
  qed
qed

definition sample_device :: "string \<Rightarrow> DeviceRow" where
  "sample_device i = \<lparr>dv_device_id = i, dv_spki_sha256 = i, dv_name = ''phone'', dv_scopes = ''read'',
     dv_paired_at = 1, dv_last_seen_at = None\<rparr>"

theorem device_lookup_witness:
  "find_device (HubDb_empty\<lparr>hd_devices := [sample_device ''ab'', sample_device ''abc'']\<rparr>) ''ab'' =
     DeviceFound (device_row (sample_device ''ab''))
   \<and> ''ab'' \<notin> dv_device_id ` set (hd_devices (fst (delete_device
        (HubDb_empty\<lparr>hd_devices := [sample_device ''ab'', sample_device ''abc'']\<rparr>) ''ab'')))"
proof -
  have f: "find_device (HubDb_empty\<lparr>hd_devices := [sample_device ''ab'', sample_device ''abc'']\<rparr>) ''ab'' =
      DeviceFound (device_row (sample_device ''ab''))"
    by (simp add: find_device_def devices_def sample_device_def HubDb_empty_def device_row_def starts_with_def
        Let_def)
  with device_lookup [of "''ab''" "HubDb_empty\<lparr>hd_devices := [sample_device ''ab'', sample_device ''abc'']\<rparr>"]
  show ?thesis by (simp add: device_row_def sample_device_def)
qed

end
