(* ===== verification/Sync.thy ===== *)
theory Sync
  imports Storage_Props Hub_Props
begin

text \<open>
  The broker and the hub together. The reasons a broker stores are the ones it validated, so its
  views pass the hub's validation; a snapshot brings the hub in step with the broker, and updates
  delivered in the order of their revisions keep it there.
\<close>

section \<open>Stored reasons are validated reasons\<close>

definition valid_reason :: "CurrentStatusReason \<Rightarrow> bool" where
  "valid_reason x \<longleftrightarrow> normalized_text STATUS_REASON_MAX_CHARS (sc_summary (rs_context x))"

definition valid_reasons :: "ReasonRow list \<Rightarrow> bool" where
  "valid_reasons rows \<longleftrightarrow> (\<forall>r\<in>set rows. is_none_or valid_reason (rr_reason r))"

lemma valid_reasons_after:
  assumes "valid_reasons rows" and "tbl_wf rr_invocation_id rows"
    and "\<And>x. eff = SetReason x \<Longrightarrow> valid_reason x"
  shows "valid_reasons (reasons_after i eff wall rows)"
  using assms
  by (cases eff) (auto simp: valid_reasons_def reasons_after_def tbl_put_set tbl_delete_def)

lemma transition_valid_reasons:
  assumes wf: "wf_db db" and v: "valid_reasons (db_reasons db)"
    and f: "\<And>p t x. f p = Inr (Some t) \<Longrightarrow> tr_reason t = SetReason x \<Longrightarrow> valid_reason x"
    and tr: "apply_transition cd db i ec delivery publish now wall f = Inr (db', c)"
  shows "valid_reasons (db_reasons db')"
proof (cases c)
  case None
  with tr v show ?thesis using apply_transition_None by metis
next
  case (Some c')
  obtain p t cred pv where ft: "f p = Inr (Some t)"
    and ct: "commit_transition cd db i cred delivery publish now wall pv t = Inr (db', c')"
    using tr unfolding Some apply_transition_Some by blast
  show ?thesis
    unfolding commit_transitionD(5) [OF ct wf_dbD(4) [OF wf]]
    by (rule valid_reasons_after [OF v wf_dbD(4) [OF wf] f [OF ft]])
qed

lemma validated_context: "validate_event e (Some c) = Inr () \<Longrightarrow> normalized_text STATUS_REASON_MAX_CHARS (sc_summary c)"
  by (auto simp: validate_event_def result_bind_Inr normalized_text_def split: if_splits)

lemma event_decision_reason:
  assumes "event_decision e r p = Inr (Some t)" and "tr_reason t = SetReason x"
  shows "valid_reason x"
proof -
  have a: "apply_event p e r = Inr t" using assms(1) by (simp add: event_decision_Inr)
  have "r = Some (rs_context x)" using apply_event_reason [OF a assms(2)] .
  moreover have "validate_event e r = Inr ()" using a by (simp add: apply_event_Inr_iff)
  ultimately show ?thesis using validated_context unfolding valid_reason_def by blast
qed

lemma no_new_reason:
  "tr_reason (local_mutation p c f) \<noteq> SetReason x"
  "lose_if_dead is_alive p = Inr (Some t) \<Longrightarrow> tr_reason t \<noteq> SetReason x"
  "expire_stale_working p now = Some t \<Longrightarrow> tr_reason t \<noteq> SetReason x"
  by (auto simp: local_mutation_def lose_if_dead_def mark_lost_def expire_stale_working_def clear_unless_def
      Let_def split: if_splits)

lemma expire_loop_reasons:
  "wf_db db \<Longrightarrow> valid_reasons (db_reasons db) \<Longrightarrow> expire_loop cd publish now wall db ss us = (db', r) \<Longrightarrow>
   valid_reasons (db_reasons db')"
proof (induction ss arbitrary: db us)
  case (Cons s ss)
  show ?case
  proof (cases "is_stale s now")
    case True
    let ?f = "\<lambda>prior. Inr (expire_stale_working prior now) :: StorageError + Transition option"
    obtain db1 v where c: "commit db (transition cd db (sn_invocation_id s) None
        (DeliverySynthetic ''stale_working'') publish now wall ?f) = (db1, v)" by fastforce
    have "wf_db db1" "valid_reasons (db_reasons db1)"
      using c Cons.prems(1,2) transition_valid_reasons [of db ?f, OF Cons.prems(1,2)] no_new_reason(3)
      by (auto simp: commit_cases transition_Inr intro: expire.transition_keeps_wf [unfolded transition_Inr])
    then show ?thesis
      using Cons.IH Cons.prems(3) True c by (auto split: sum.splits)
  qed (use Cons in auto)
qed simp

lemma reconcile_one_reasons:
  assumes "wf_db db" "valid_reasons (db_reasons db)" "reconcile_one cd is_alive publish wall db s = (db', r)"
  shows "valid_reasons (db_reasons db')"
  using assms transition_valid_reasons [of db "lose_if_dead is_alive", OF assms(1,2)] no_new_reason(2)
  by (auto simp: reconcile_one_def commit_cases result_bind_Inr transition_Inr split: if_splits
      dest!: restore_unconfirmed_Inr)

lemma reconcile_loop_reasons:
  "wf_db db \<Longrightarrow> \<forall>s\<in>set ss. wf_snapshot s \<Longrightarrow> valid_reasons (db_reasons db) \<Longrightarrow>
   reconcile_loop cd is_alive publish wall db ss k = (db', r) \<Longrightarrow> valid_reasons (db_reasons db')"
proof (induction ss arbitrary: db k)
  case (Cons s ss)
  obtain db1 r1 where one: "reconcile_one cd is_alive publish wall db s = (db1, r1)" by fastforce
  have "wf_db db1" "valid_reasons (db_reasons db1)"
    using reconcile_one_wf [OF Cons.prems(1) _ one] reconcile_one_reasons [OF Cons.prems(1,3) one] Cons.prems(2)
    by auto
  with one Cons show ?case
    by (cases r1) (auto simp: reconcile_loop_Cons simp del: reconcile_loop.simps(2))
qed simp

lemma reconcile_reasons:
  assumes wf: "wf_db db" and v: "valid_reasons (db_reasons db)"
    and r: "reconcile cd sub_days db is_alive d publish wall = (db', r)"
  shows "valid_reasons (db_reasons db')"
proof -
  obtain db1 r1 where one: "reconcile_loop cd is_alive publish wall db (map loaded (db_invocations db)) 0
      = (db1, r1)" by fastforce
  have l: "\<forall>s\<in>set (map loaded (db_invocations db)). wf_snapshot s" using loaded_facts(1) [OF wf] by auto
  have 1: "wf_db db1" "valid_reasons (db_reasons db1)"
    using reconcile_loop_wf [OF wf l one] reconcile_loop_reasons [OF wf l v one] .
  obtain db2 r2 where two: "expire_stale_working_at cd db1 wall wall publish = (db2, r2)" by fastforce
  have "valid_reasons (db_reasons db2)"
    using two expire_loop_reasons [OF 1] 1(2) by (auto simp: expire_stale_working_at_def split: sum.splits)
  with r one two 1 show ?thesis
    by (auto simp: reconcile_def snapshot_total [OF wf] prune_stopped_def valid_reasons_def Let_def
        split: sum.splits option.splits)
qed

lemma mutate_reasons:
  assumes "wf_db db" "valid_reasons (db_reasons db)"
    "mutate_authenticated cd db i cred c f label publish wall = Inr (db', u)"
  shows "valid_reasons (db_reasons db')"
proof -
  let ?f = "\<lambda>prior. Inr (Some (local_mutation prior c f)) :: StorageError + Transition option"
  obtain c' where "apply_transition cd db i (Some cred) (DeliverySynthetic label) publish wall wall ?f = Inr (db', c')"
    using assms(3) by (auto simp: mutate_authenticated_def result_bind_Inr transition_Inr)
  from transition_valid_reasons [OF assms(1,2) _ this] show ?thesis using no_new_reason(1) by blast
qed

lemma event_reasons:
  assumes "wf_db db" "valid_reasons (db_reasons db)" "apply_event_with_context cd db e r publish wall = Inr (db', u)"
  shows "valid_reasons (db_reasons db')"
  using assms(3)
proof (cases rule: apply_event_with_context_cases)
  case (fresh db1 c)
  have "valid_reasons (db_reasons db1)"
    by (rule transition_valid_reasons [OF assms(1,2) event_decision_reason fresh(3)])
  then show ?thesis by (simp add: fresh(5))
qed (use assms in simp)

lemma broker_step_reasons:
  "broker_step cd db db' \<Longrightarrow> wf_db db \<Longrightarrow> valid_reasons (db_reasons db) \<Longrightarrow> valid_reasons (db_reasons db')"
proof (induction rule: broker_step.induct)
  case (step_register s db cred publish wall db' n)
  then show ?case using register_Inr [OF step_register(2)] by simp
next
  case (step_expire db now wall publish db' res)
  then show ?case using expire_loop_reasons [OF step_expire(2,3)]
    by (auto simp: expire_stale_working_at_def split: sum.splits)
qed (auto simp: bind_child_def mark_exit_def hub_snapshot_due_def hub_snapshot_delivered_def hub_reset_snapshot_def
    acknowledge_def retry_def split: option.splits intro: mutate_reasons event_reasons reconcile_reasons)

lemma broker_reachable_reasons:
  "broker_reachable cd Db_empty db \<Longrightarrow> wf_db db \<and> valid_reasons (db_reasons db)"
  unfolding broker_reachable_def
proof (induction rule: rtranclp_induct)
  case base
  then show ?case by (simp add: wf_Db_empty) (simp add: Db_empty_def valid_reasons_def)
next
  case (step y z)
  then show ?case using broker_step_wf broker_step_reasons by blast
qed

section \<open>Views of a broker pass the hub's validation\<close>

lemma reason_of_valid: "valid_reasons rows \<Longrightarrow> reason_of rows i = Some x \<Longrightarrow> valid_reason x"
  by (auto simp: reason_of_def valid_reasons_def bind_eq_Some_conv dest!: tbl_lookup_SomeD)

lemma projected_reason_valid:
  assumes "\<And>x. r = Some x \<Longrightarrow> valid_reason x"
  shows "valid_public_reason (project_public s r)"
proof (cases r)
  case (Some x)
  then have "normalized_text STATUS_REASON_MAX_CHARS (sc_summary (rs_context x))"
    using assms by (simp add: valid_reason_def)
  moreover from this have "length (sc_summary (rs_context x)) \<le> STATUS_REASON_MAX_BYTES"
    using length_le_chars [of "sc_summary (rs_context x)"]
    by (simp add: normalized_text_def STATUS_REASON_MAX_CHARS_def STATUS_REASON_MAX_BYTES_def)
  ultimately show ?thesis
    using Some by (cases "derive_status (sn_lifecycle s) (sn_activity s)"; cases "rs_kind x")
      (auto simp: valid_public_reason_def project_public_reason normalized_text_def)
qed (simp add: valid_public_reason_def project_public_reason)

lemma view_of_valid: "valid_reasons (db_reasons db) \<Longrightarrow> view_of db i = Some v \<Longrightarrow> valid_public_reason v"
  by (auto simp: view_of_def split: sum.splits intro!: projected_reason_valid dest: reason_of_valid)

section \<open>The snapshot a broker sends\<close>

lemma reason_entry_total:
  assumes "wf_reasons invs rows"
  shows "collect reason_entry rows = Inr (map (\<lambda>r. (rr_invocation_id r, the (rr_reason r))) rows)"
  using assms by (intro collect_total) (auto simp: wf_reasons_def reason_entry_def)

lemma map_of_rev: "distinct (map fst xs) \<Longrightarrow> map_of (rev xs) = map_of xs"
  by (subst map_of_inject_set) (simp_all add: rev_map [symmetric])

lemma map_of_reasons:
  assumes "wf_reasons invs rows"
  shows "map_of (rev (map (\<lambda>r. (rr_invocation_id r, the (rr_reason r))) rows)) i = reason_of rows i"
proof -
  have "map_of (map (\<lambda>r. (rr_invocation_id r, the (rr_reason r))) rows) i = reason_of rows i"
    using assms
  proof (induction rows)
    case (Cons r rows)
    then show ?case by (auto simp: reason_of_def wf_reasons_def)
  qed (simp add: reason_of_def)
  moreover have "distinct (map fst (map (\<lambda>r. (rr_invocation_id r, the (rr_reason r))) rows))"
    using assms by (simp add: wf_reasons_def comp_def)
  ultimately show ?thesis using map_of_rev by metis
qed

lemma public_snapshot_views:
  assumes wf: "wf_db db"
  obtains vs where "public_snapshot db = Inr (db_revision db, vs)" "distinct (map pv_invocation_id vs)"
    "\<And>i. tbl_lookup pv_invocation_id i vs = view_of db i"
proof
  let ?view = "\<lambda>s. project_public s (reason_of (db_reasons db) (sn_invocation_id s))"
  let ?vs = "map ?view (map loaded (db_invocations db))"
  have load: "collect load_row (db_invocations db) = Inr (map loaded (db_invocations db))"
    using wf by (intro collect_total) (auto intro: load_row_loaded wf_dbD(2))
  show "public_snapshot db = Inr (db_revision db, ?vs)"
    by (simp add: public_snapshot_def snapshot_with_reasons_def load
        reason_entry_total [OF wf_dbD(3) [OF wf]] map_of_reasons [OF wf_dbD(3) [OF wf]])
  have ids: "map pv_invocation_id ?vs = map ir_invocation_id (db_invocations db)"
    using loaded_facts(2) [OF wf] by simp
  show d: "distinct (map pv_invocation_id ?vs)"
    unfolding ids using wf_dbD(1) [OF wf] .
  show "tbl_lookup pv_invocation_id i ?vs = view_of db i" for i
  proof (cases "invocation db i")
    case (Inl e)
    have "i \<notin> set (map ir_invocation_id (db_invocations db))"
    proof
      assume "i \<in> set (map ir_invocation_id (db_invocations db))"
      then obtain r where "r \<in> set (db_invocations db)" "ir_invocation_id r = i" by auto
      with loaded_facts(3) [OF wf] Inl show False by auto
    qed
    then have "i \<notin> pv_invocation_id ` set ?vs" by (metis ids list.set_map)
    then have "tbl_lookup pv_invocation_id i ?vs = None" by (metis tbl_lookup_None_iff)
    with Inl show ?thesis by (simp add: view_of_def)
  next
    case (Inr s)
    obtain r where r: "r \<in> set (db_invocations db)" "ir_invocation_id r = i" "loaded r = s"
      using invocation_InrE [OF Inr wf] .
    then have "?view s \<in> set ?vs" by auto
    from tbl_lookup_in [OF d this] show ?thesis
      using Inr r loaded_facts(2) [OF wf r(1)] by (simp add: view_of_def)
  qed
qed

section \<open>Agreement\<close>

text \<open>
  The hub agrees with a broker on a source: it knows the source at a revision of the broker's past,
  and shows of it exactly the broker's agents, less the ones forgotten on the hub.
\<close>

definition in_step :: "string \<Rightarrow> Db \<Rightarrow> HubDb \<Rightarrow> bool" where
  "in_step source db hub \<longleftrightarrow>
     (\<exists>n. source_revision hub source = Some n \<and> n \<le> db_revision db)
     \<and> (\<forall>i. hub_view hub source i = (if is_forgotten hub source i then None else view_of db i))"

lemma in_stepD:
  assumes "in_step source db hub"
  shows "\<exists>n. source_revision hub source = Some n \<and> n \<le> db_revision db"
    and "hub_view hub source i = (if is_forgotten hub source i then None else view_of db i)"
  using assms by (auto simp: in_step_def)

lemma view_of_id:
  assumes "wf_db db" "view_of db i = Some v"
  shows "pv_invocation_id v = i"
proof -
  obtain s where s: "invocation db i = Inr s" and v: "v = project_public s (reason_of (db_reasons db) i)"
    using assms(2) by (auto simp: view_of_def split: sum.splits)
  obtain r where r: "r \<in> set (db_invocations db)" "ir_invocation_id r = i" "loaded r = s"
    using invocation_InrE [OF s assms(1)] .
  with v loaded_facts(2) [OF assms(1) r(1)] show ?thesis by simp
qed

lemma baseline_in_step:
  assumes db: "wf_db db" "valid_reasons (db_reasons db)" and hub: "wf_hub hub" and src: "source \<noteq> []"
    and old: "\<And>n. source_revision hub source = Some n \<Longrightarrow> n \<le> db_revision db"
    and range: "db_revision db < 2 ^ 63" "hd_revision hub + 1 < 2 ^ 63"
  obtains vs hub' where "public_snapshot db = Inr (db_revision db, vs)"
    "ingest_snapshot hub (snapshot_envelope source name (db_revision db) vs) now =
       Inr (hub', SnapshotApplied (hd_revision hub + 1))"
    "in_step source db hub'"
proof -
  obtain vs where vs: "public_snapshot db = Inr (db_revision db, vs)" "distinct (map pv_invocation_id vs)"
      "\<And>i. tbl_lookup pv_invocation_id i vs = view_of db i"
    using public_snapshot_views [OF db(1)] by blast
  have valid: "valid_public_reason v" if "v \<in> set vs" for v
    using view_of_valid [OF db(2)] tbl_lookup_in [OF vs(2) that] vs(3) by metis
  let ?s = "\<lparr>ss_schema_version = HUB_SCHEMA_VERSION, ss_source = \<lparr>si_id = source, si_display_name = name\<rparr>,
      ss_revision = db_revision db, ss_views = vs\<rparr>"
  have "\<exists>hub'. ingest_snapshot hub (SourceEnvelopeSnapshot ?s) now = Inr (hub', SnapshotApplied (hd_revision hub + 1))"
    using src old range vs(2) valid
    by (cases "tbl_lookup sr_source_id source (hd_sources hub)")
      (auto simp: ingest_snapshot_def validate_version_def list_ex_iff Let_def bump_revision_def load_views_frame
        malformed_def source_revision_def)
  then obtain hub' where ok: "ingest_snapshot hub (SourceEnvelopeSnapshot ?s) now =
      Inr (hub', SnapshotApplied (hd_revision hub + 1))" by blast
  note eff = applied_snapshot_views [OF hub ok]
  have "in_step source db hub'"
    unfolding in_step_def using eff(1) [of source] eff(2,3) vs(3) by simp
  with vs(1) ok show thesis by (intro that) (simp_all add: snapshot_envelope_def)
qed

lemma unchanged_in_step:
  assumes "in_step source db hub" "\<And>i. view_of db' i = view_of db i" "db_revision db \<le> db_revision db'"
  shows "in_step source db' hub"
  using assms by (auto simp: in_step_def)

lemma recorded_source:
  assumes "source_revision hub source = Some n"
  shows "source_revision (h\<lparr>hd_sources := record_in source m now (hd_sources hub)\<rparr>) source = Some m"
  using assms by (auto simp: source_revision_def lookup_record_in)

text \<open>
  One change of one invocation: the hub takes the update of the next revision and stays in step.
\<close>

lemma update_in_step:
  assumes hub: "wf_hub hub" and step: "in_step source db hub"
    and views: "view_of db i = Some v" "view_of db' i = Some w" "v \<noteq> w"
      "\<And>j. j \<noteq> i \<Longrightarrow> view_of db' j = view_of db j"
    and w: "valid_public_reason w" "pv_invocation_id w = i"
    and rev: "db_revision db' = db_revision db + 1" "db_revision db' < 2 ^ 63" "hd_revision hub + 1 < 2 ^ 63"
    and ids: "source \<noteq> []" "delivery \<noteq> []" "(source, delivery) \<notin> delivery_key ` set (hd_deliveries hub)"
    and u: "u = \<lparr>su_schema_version = HUB_SCHEMA_VERSION, su_source_id = source, su_delivery_id = delivery,
      su_revision = db_revision db', su_changed = changed_public_fields (Some v) w, su_view = w\<rparr>"
  obtains hub' a where "ingest_update hub (SourceEnvelopeUpdate u) now = Inr (hub', a)"
    "a = (if is_forgotten hub source i then UpdateSuppressed
          else UpdateApplied (hd_revision hub + 1) (changed_public_fields (Some v) w) False)"
    "in_step source db' hub'"
proof -
  obtain n where n: "source_revision hub source = Some n" "n \<le> db_revision db" using in_stepD(1) [OF step] by blast
  have ch: "changed_public_fields (Some v) w \<noteq> {}" using views(3) by (simp add: changed_nonempty_iff)
  have ok: "\<exists>hub' a. ingest_update hub (SourceEnvelopeUpdate u) now = Inr (hub', a)
      \<and> a = (if is_forgotten hub source i then UpdateSuppressed
          else UpdateApplied (hd_revision hub + 1) (changed_public_fields (Some v) w) False)"
    using n source_known [OF n(1)] rev ids w ch views(1) in_stepD(2) [OF step, of i]
    by (auto simp: u ingest_update_def validate_version_def source_revision_def tbl_lookup_None_iff
        prior_hub_view [OF hub] record_delivery_def bump_revision_def malformed_def persist_view_def Let_def
        split: option.splits)
  then obtain hub' a where ok: "ingest_update hub (SourceEnvelopeUpdate u) now = Inr (hub', a)"
      and a: "a = (if is_forgotten hub source i then UpdateSuppressed
          else UpdateApplied (hd_revision hub + 1) (changed_public_fields (Some v) w) False)" by blast
  have old: "hub_view hub source j = (if is_forgotten hub source j then None else view_of db j)" for j
    using in_stepD(2) [OF step] .
  from ok have "in_step source db' hub'"
  proof (cases rule: ingest_update_cases)
    case (suppressed m)
    have "hub_view hub' = hub_view hub" "is_forgotten hub' = is_forgotten hub"
      unfolding suppressed(6) by (simp_all add: hub_view_def is_forgotten_def fun_eq_iff)
    moreover have "source_revision hub' source = Some (db_revision db')"
      unfolding suppressed(6) using recorded_source [OF n(1)] by (simp add: u source_revision_def)
    ultimately show ?thesis
      using old suppressed(5) views(4) w(2) by (simp add: in_step_def u) metis
  next
    case (applied m p)
    have "hub_view hub' source j = (if j = i then Some w else hub_view hub source j)" for j
      unfolding applied(9) using w(2) by (auto simp: u hub_view_def tbl_lookup_put)
    moreover have "is_forgotten hub' = is_forgotten hub"
      unfolding applied(9) by (simp add: is_forgotten_def fun_eq_iff)
    moreover have "source_revision hub' source = Some (db_revision db')"
      unfolding applied(9) using recorded_source [OF n(1)] by (simp add: u source_revision_def)
    ultimately show ?thesis
      using old applied(7) views(2,4) w(2) by (auto simp: in_step_def u)
  qed (use a in \<open>auto split: if_splits\<close>)
  with ok a show thesis by (rule that)
qed

end
