(* ===== verification/Validation.thy ===== *)
theory Validation
  imports Config
begin

text \<open>
  Validation of the broker's configuration, \<^verbatim>\<open>sessiontap-core/src/config.rs\<close>: adapter aliases, daemon
  tuning, and the network policy of sinks. Parsing a URL belongs to the url crate and parsing the
  text of an IP address is decoding; both are arguments (\<open>parse_url\<close> with the text of its error,
  \<open>parse_ip\<close>). Addresses are words in network byte order.
\<close>

section \<open>Sink URLs\<close>

datatype IpAddr = V4 "32 word" | V6 "128 word"

datatype Host = HostDomain string | HostIpv4 "32 word" | HostIpv6 "128 word"

record Url =
  ur_scheme :: string
  ur_host :: "Host option"

fun is_loopback :: "IpAddr \<Rightarrow> bool" where
  "is_loopback (V4 a) = (drop_bit 24 a = 127)"
| "is_loopback (V6 a) = (a = 1)"

definition cleartext_error :: "string \<Rightarrow> string" where
  "cleartext_error raw =
     ''HTTP sinks require HTTPS except for loopback or explicitly trusted local addresses: '' @ raw"

text \<open>The address of a host, when it has one; \<open>localhost\<close> needs none.\<close>

fun host_ip :: "Host option \<Rightarrow> IpAddr option" where
  "host_ip (Some (HostIpv4 a)) = Some (V4 a)"
| "host_ip (Some (HostIpv6 a)) = Some (V6 a)"
| "host_ip _ = None"

definition validate_sink_url ::
    "(string \<Rightarrow> string + Url) \<Rightarrow> (string \<Rightarrow> IpAddr option) \<Rightarrow> string \<Rightarrow> string list \<Rightarrow> string + unit" where
  "validate_sink_url parse_url parse_ip raw trusted_addresses =
     (case parse_url raw of
        Inl e \<Rightarrow> Inl (''invalid sink URL: '' @ e)
      | Inr url \<Rightarrow>
          if ur_scheme url = ''https'' then Inr ()
          else if ur_scheme url \<noteq> ''http'' then Inl (''unsupported sink URL scheme: '' @ ur_scheme url)
          else if ur_host url = Some (HostDomain ''localhost'') then Inr ()
          else case host_ip (ur_host url) of
            None \<Rightarrow> Inl (cleartext_error raw)
          | Some ip \<Rightarrow>
              if is_loopback ip then Inr ()
              else if list_ex (\<lambda>trusted. parse_ip trusted = Some ip) trusted_addresses then Inr ()
              else Inl (cleartext_error raw))"

definition is_cleartext_non_loopback :: "(string \<Rightarrow> string + Url) \<Rightarrow> string \<Rightarrow> bool" where
  "is_cleartext_non_loopback parse_url raw =
     (case parse_url raw of
        Inl _ \<Rightarrow> False
      | Inr url \<Rightarrow>
          if ur_scheme url \<noteq> ''http'' then False
          else if ur_host url = Some (HostDomain ''localhost'') then False
          else case host_ip (ur_host url) of None \<Rightarrow> True | Some ip \<Rightarrow> \<not> is_loopback ip)"

section \<open>Configuration\<close>

record Config =
  cf_version :: u32
  cf_retention_days :: u64
  cf_source_id :: "string option"
  cf_source_name :: "string option"
  cf_adapters :: "(string \<times> CustomAdapter) list"
  cf_sinks :: "(string \<times> SinkConfig) list"
  cf_daemon :: DaemonConfig

definition Config_default :: Config where
  "Config_default =
     \<lparr>cf_version = 1, cf_retention_days = 7, cf_source_id = None, cf_source_name = None,
      cf_adapters = [], cf_sinks = [], cf_daemon = DaemonConfig_default\<rparr>"

definition in_quotes :: "string \<Rightarrow> string" where
  "in_quotes s = [CHR 0x27] @ s @ [CHR 0x27]"

text \<open>\<open>from_toml\<close> after the TOML text has been decoded; \<open>Inl\<close> is the unsupported version.\<close>

definition Config_from_toml :: "Config \<Rightarrow> u32 + Config" where
  "Config_from_toml config = (if cf_version config \<noteq> 1 then Inl (cf_version config) else Inr config)"

fun validate_adapters :: "(string \<times> CustomAdapter) list \<Rightarrow> string + unit" where
  "validate_adapters [] = Inr ()"
| "validate_adapters ((name, adapter) # rest) =
     (case ProviderId_from_str (cu_inherits adapter) of
        Inl _ \<Rightarrow> Inl (''adapter '' @ in_quotes name @ '' inherits unknown provider '' @
                    in_quotes (cu_inherits adapter) @ ''; expected one of '' @ ProviderId_joined '', '')
      | Inr _ \<Rightarrow> validate_adapters rest)"

definition no_control :: "string \<Rightarrow> bool option \<Rightarrow> string + unit \<Rightarrow> string + unit" where
  "no_control name control rest =
     (if control \<noteq> None
      then Inl (''sink '' @ in_quotes name @ '' does not accept control; only hub sinks relay terminals'')
      else rest)"

definition validate_hub_sink ::
    "(string \<Rightarrow> string + Url) \<Rightarrow> (string \<Rightarrow> IpAddr option) \<Rightarrow> string option \<Rightarrow> string \<Rightarrow> HubSink
     \<Rightarrow> string + unit" where
  "validate_hub_sink parse_url parse_ip source_id name s =
     (if kb_fields s \<noteq> []
      then Inl (''sink '' @ in_quotes name @
             '' is a hub sink and does not accept fields; hub envelopes are always complete'')
      else result_bind (validate_sink_url parse_url parse_ip (kb_url s) (kb_trusted_addresses s)) (\<lambda>_.
        if kb_enabled s \<and> kb_token_env s = None \<and> kb_token_file s = None
             \<and> is_cleartext_non_loopback parse_url (kb_url s)
        then Inl (''sink '' @ in_quotes name @
               '' delivers cleartext to a non-loopback address and requires token_env or token_file'')
        else if kb_enabled s \<and> is_none_or (\<lambda>i. i = []) source_id
        then Inl (''sink '' @ in_quotes name @ '' is a hub sink and requires a non-empty source_id'')
        else Inr ()))"

definition validate_sink ::
    "(string \<Rightarrow> string + Url) \<Rightarrow> (string \<Rightarrow> IpAddr option) \<Rightarrow> string option \<Rightarrow> string \<Rightarrow> SinkConfig
     \<Rightarrow> string + unit" where
  "validate_sink parse_url parse_ip source_id name sink =
     (case SinkConfig_public_fields sink of
        Inl e \<Rightarrow> Inl (''sink '' @ in_quotes name @ '': '' @ e)
      | Inr _ \<Rightarrow>
          (case sink of
             SinkHttp s \<Rightarrow> no_control name (kh_control s) (validate_sink_url parse_url parse_ip (kh_url s) [])
           | SinkStdout s \<Rightarrow> no_control name (ks_control s) (Inr ())
           | SinkHub s \<Rightarrow> validate_hub_sink parse_url parse_ip source_id name s))"

fun validate_sinks ::
    "(string \<Rightarrow> string + Url) \<Rightarrow> (string \<Rightarrow> IpAddr option) \<Rightarrow> string option \<Rightarrow> (string \<times> SinkConfig) list
     \<Rightarrow> string + unit" where
  "validate_sinks parse_url parse_ip source_id [] = Inr ()"
| "validate_sinks parse_url parse_ip source_id ((name, sink) # rest) =
     result_bind (validate_sink parse_url parse_ip source_id name sink)
       (\<lambda>_. validate_sinks parse_url parse_ip source_id rest)"

definition Config_validate ::
    "(string \<Rightarrow> string + Url) \<Rightarrow> (string \<Rightarrow> IpAddr option) \<Rightarrow> Config \<Rightarrow> string + unit" where
  "Config_validate parse_url parse_ip c =
     result_bind (validate_adapters (cf_adapters c)) (\<lambda>_.
     result_bind (DaemonConfig_validate (cf_daemon c)) (\<lambda>_.
       validate_sinks parse_url parse_ip (cf_source_id c) (cf_sinks c)))"

section \<open>The policy\<close>

text \<open>
  Where a sink may send: \<open>confidential\<close> holds of a URL that is encrypted or stays on the machine,
  \<open>cleartext_to\<close> of plain HTTP to one address.
\<close>

definition confidential :: "(string \<Rightarrow> string + Url) \<Rightarrow> string \<Rightarrow> bool" where
  "confidential parse_url raw \<longleftrightarrow> (\<exists>url. parse_url raw = Inr url
     \<and> (ur_scheme url = ''https''
        \<or> ur_scheme url = ''http'' \<and> (ur_host url = Some (HostDomain ''localhost'')
             \<or> (\<exists>ip. host_ip (ur_host url) = Some ip \<and> is_loopback ip))))"

definition cleartext_to :: "(string \<Rightarrow> string + Url) \<Rightarrow> string \<Rightarrow> IpAddr \<Rightarrow> bool" where
  "cleartext_to parse_url raw ip \<longleftrightarrow> (\<exists>url. parse_url raw = Inr url \<and> ur_scheme url = ''http''
     \<and> host_ip (ur_host url) = Some ip)"

lemma validate_sink_url_ok_iff:
  "validate_sink_url parse_url parse_ip raw trusted = Inr () \<longleftrightarrow>
     confidential parse_url raw \<or> (\<exists>t\<in>set trusted. \<exists>ip. parse_ip t = Some ip \<and> cleartext_to parse_url raw ip)"
proof (cases "parse_url raw")
  case (Inr url)
  then show ?thesis
    by (cases "host_ip (ur_host url)")
      (auto simp: validate_sink_url_def confidential_def cleartext_to_def list_ex_iff)
qed (simp add: validate_sink_url_def confidential_def cleartext_to_def)

lemma cleartext_iff:
  assumes "parse_url raw = Inr url" "ur_scheme url \<in> {''http'', ''https''}"
  shows "is_cleartext_non_loopback parse_url raw \<longleftrightarrow> \<not> confidential parse_url raw"
  using assms by (cases "host_ip (ur_host url)") (auto simp: is_cleartext_non_loopback_def confidential_def)

lemma validate_sinks_Inr:
  "validate_sinks parse_url parse_ip source_id sinks = Inr () \<longleftrightarrow>
     (\<forall>(name, sink)\<in>set sinks. validate_sink parse_url parse_ip source_id name sink = Inr ())"
  by (induction sinks) (auto simp: result_bind_Inr)

lemma validate_adapters_Inr:
  "validate_adapters xs = Inr () \<longleftrightarrow> (\<forall>(name, a)\<in>set xs. cu_inherits a \<in> range ProviderId_as_str)"
proof (induction xs)
  case (Cons x xs)
  obtain name a where x: "x = (name, a)" by (cases x)
  show ?case
  proof (cases "ProviderId_from_str (cu_inherits a)")
    case (Inl e)
    then have "cu_inherits a \<notin> range ProviderId_as_str" by (simp add: ProviderId_from_str_Inl)
    with Inl x show ?thesis by simp
  next
    case (Inr p)
    then have "cu_inherits a \<in> range ProviderId_as_str" by (metis ProviderId_from_str_Inr rangeI)
    with Inr x Cons show ?thesis by simp
  qed
qed simp

lemma public_fields_ok: "SinkConfig_public_fields c = Inr fs \<Longrightarrow> set (SinkConfig_fields c) \<subseteq> range PublicField_as_str"
  by (simp add: SinkConfig_public_fields_def collect_fields_Inr_iff)

lemma validate_hub_sink_ok:
  assumes "validate_hub_sink parse_url parse_ip source_id name s = Inr ()"
  shows "kb_fields s = []"
    and "confidential parse_url (kb_url s)
      \<or> (\<exists>t\<in>set (kb_trusted_addresses s). \<exists>ip. parse_ip t = Some ip \<and> cleartext_to parse_url (kb_url s) ip)
        \<and> (kb_enabled s \<longrightarrow> kb_token_env s \<noteq> None \<or> kb_token_file s \<noteq> None)"
    and "kb_enabled s \<Longrightarrow> \<exists>i. source_id = Some i \<and> i \<noteq> []"
proof -
  have u: "validate_sink_url parse_url parse_ip (kb_url s) (kb_trusted_addresses s) = Inr ()"
    using assms by (auto simp: validate_hub_sink_def result_bind_Inr split: if_splits)
  have t: "kb_enabled s \<and> kb_token_env s = None \<and> kb_token_file s = None \<Longrightarrow>
      \<not> is_cleartext_non_loopback parse_url (kb_url s)"
    using assms by (auto simp: validate_hub_sink_def result_bind_Inr split: if_splits)
  show "confidential parse_url (kb_url s)
      \<or> (\<exists>t\<in>set (kb_trusted_addresses s). \<exists>ip. parse_ip t = Some ip \<and> cleartext_to parse_url (kb_url s) ip)
        \<and> (kb_enabled s \<longrightarrow> kb_token_env s \<noteq> None \<or> kb_token_file s \<noteq> None)"
    using u t cleartext_iff [of parse_url "kb_url s"] unfolding validate_sink_url_ok_iff
    by (cases "kb_token_env s"; cases "kb_token_file s") (auto simp: cleartext_to_def)
  show "kb_fields s = []" "kb_enabled s \<Longrightarrow> \<exists>i. source_id = Some i \<and> i \<noteq> []"
    using assms by (cases source_id; auto simp: validate_hub_sink_def result_bind_Inr split: if_splits)+
qed

section \<open>Samples\<close>

definition sample_url :: "string \<Rightarrow> string + Url" where
  "sample_url raw =
     (if raw = ''http://10.0.0.1/'' then Inr \<lparr>ur_scheme = ''http'', ur_host = Some (HostIpv4 0x0A000001)\<rparr>
      else Inl ''relative URL without a base'')"

definition sample_ip :: "string \<Rightarrow> IpAddr option" where
  "sample_ip s = (if s = ''10.0.0.1'' then Some (V4 0x0A000001) else None)"

definition sample_hub_sink :: HubSink where
  "sample_hub_sink = \<lparr>kb_enabled = True, kb_url = ''http://10.0.0.1/'', kb_token_env = Some ''TOKEN'',
     kb_token_file = None, kb_timeout_ms = 3000, kb_max_payload_bytes = 1000,
     kb_trusted_addresses = [''10.0.0.1''], kb_control = False, kb_fields = []\<rparr>"

definition sample_config :: Config where
  "sample_config = Config_default\<lparr>cf_source_id := Some ''host'', cf_sinks := [(''hub'', SinkHub sample_hub_sink)]\<rparr>"

lemma sample_config_valid: "Config_validate sample_url sample_ip sample_config = Inr ()"
  by (simp add: Config_validate_def sample_config_def Config_default_def DaemonConfig_validate_def
      DaemonConfig_default_def validate_sink_def SinkConfig_public_fields_def validate_hub_sink_def
      sample_hub_sink_def validate_sink_url_def sample_url_def sample_ip_def)

section \<open>Properties\<close>

text \<open>
  (C37) A validated configuration sends safely: every sink is encrypted or local, except that a hub
  sink may speak plain HTTP to an address listed as trusted, and then, when enabled, only with a
  token. Selected fields are public fields, only hub sinks relay terminals, and an enabled hub
  sink has a source identity.
\<close>

theorem validated_config_sends_safely:
  assumes ok: "Config_validate parse_url parse_ip c = Inr ()" and s: "(name, sink) \<in> set (cf_sinks c)"
  shows "set (SinkConfig_fields sink) \<subseteq> range PublicField_as_str
    \<and> (case sink of
         SinkStdout s \<Rightarrow> ks_control s = None
       | SinkHttp s \<Rightarrow> kh_control s = None \<and> confidential parse_url (kh_url s)
       | SinkHub s \<Rightarrow> kb_fields s = []
           \<and> (confidential parse_url (kb_url s)
              \<or> (\<exists>t\<in>set (kb_trusted_addresses s). \<exists>ip. parse_ip t = Some ip \<and> cleartext_to parse_url (kb_url s) ip)
                \<and> (kb_enabled s \<longrightarrow> kb_token_env s \<noteq> None \<or> kb_token_file s \<noteq> None))
           \<and> (kb_enabled s \<longrightarrow> (\<exists>i. cf_source_id c = Some i \<and> i \<noteq> [])))"
proof -
  have v: "validate_sink parse_url parse_ip (cf_source_id c) name sink = Inr ()"
    using ok s by (auto simp: Config_validate_def result_bind_Inr validate_sinks_Inr)
  then obtain fs where fs: "SinkConfig_public_fields sink = Inr fs"
    by (auto simp: validate_sink_def split: sum.splits)
  show ?thesis
  proof (cases sink)
    case (SinkHub s)
    then have "validate_hub_sink parse_url parse_ip (cf_source_id c) name s = Inr ()"
      using v fs by (simp add: validate_sink_def)
    from validate_hub_sink_ok [OF this] public_fields_ok [OF fs] SinkHub show ?thesis by simp
  qed (use v fs public_fields_ok [OF fs] in
      \<open>auto simp: validate_sink_def no_control_def validate_sink_url_ok_iff split: if_splits\<close>)
qed

theorem validated_config_sends_safely_witness:
  "confidential sample_url (kb_url sample_hub_sink)
   \<or> (\<exists>t ip. t \<in> set (kb_trusted_addresses sample_hub_sink) \<and> sample_ip t = Some ip
        \<and> cleartext_to sample_url (kb_url sample_hub_sink) ip)"
proof -
  have "(''hub'', SinkHub sample_hub_sink) \<in> set (cf_sinks sample_config)" by (simp add: sample_config_def)
  from validated_config_sends_safely [OF sample_config_valid this] show ?thesis by auto
qed

end
