(* ===== verification/Json.thy ===== *)
theory Json
  imports Prelude
begin

text \<open>
  JSON values as \<^verbatim>\<open>serde_json::Value\<close> has them, and the accessors the sources call. An object is
  the list of its members; a number is one of the three kinds serde keeps, a floating-point number
  by the text its \<open>Display\<close> writes. \<open>json_valid\<close> is the invariant of the type: the strings inside a
  value are UTF-8, a negative number is an \<open>i64\<close>, and the text of a floating-point number is the
  shortest one that reads back, ASCII and at most 24 characters.
\<close>

datatype Number = PosInt u64 | NegInt int | Float string

datatype Json = JNull | JBool bool | JNumber Number | JString string | JArray "Json list"
  | JObject "(string \<times> Json) list"

fun get :: "string \<Rightarrow> Json \<Rightarrow> Json option" where
  "get key (JObject members) = map_of members key"
| "get key _ = None"

fun as_str :: "Json \<Rightarrow> string option" where
  "as_str (JString s) = Some s"
| "as_str _ = None"

fun as_bool :: "Json \<Rightarrow> bool option" where
  "as_bool (JBool b) = Some b"
| "as_bool _ = None"

fun as_u64 :: "Json \<Rightarrow> u64 option" where
  "as_u64 (JNumber (PosInt n)) = Some n"
| "as_u64 _ = None"

fun as_array :: "Json \<Rightarrow> Json list option" where
  "as_array (JArray xs) = Some xs"
| "as_array _ = None"

fun as_object :: "Json \<Rightarrow> (string \<times> Json) list option" where
  "as_object (JObject members) = Some members"
| "as_object _ = None"

definition get_str :: "string \<Rightarrow> Json \<Rightarrow> string option" where
  "get_str key raw = Option.bind (get key raw) as_str"

fun number_valid :: "Number \<Rightarrow> bool" where
  "number_valid (PosInt n) = True"
| "number_valid (NegInt i) = (- (2 ^ 63) \<le> i \<and> i < 0)"
| "number_valid (Float text) = (ascii text \<and> normalized_text 24 text)"

fun json_valid :: "Json \<Rightarrow> bool" where
  "json_valid (JString s) = valid_utf8 s"
| "json_valid (JNumber n) = number_valid n"
| "json_valid (JArray xs) = list_all json_valid xs"
| "json_valid (JObject members) = list_all (\<lambda>(k, v). valid_utf8 k \<and> json_valid v) members"
| "json_valid _ = True"

lemma json_valid_get: "json_valid raw \<Longrightarrow> get key raw = Some v \<Longrightarrow> json_valid v"
  by (cases raw) (auto simp: list_all_iff dest!: map_of_SomeD)

lemma json_valid_str: "json_valid raw \<Longrightarrow> as_str raw = Some s \<Longrightarrow> valid_utf8 s"
  by (cases raw) auto

lemma json_valid_get_str: "json_valid raw \<Longrightarrow> get_str key raw = Some s \<Longrightarrow> valid_utf8 s"
  by (auto simp: get_str_def bind_eq_Some_conv dest: json_valid_get json_valid_str)

lemma json_valid_array: "json_valid raw \<Longrightarrow> as_array raw = Some xs \<Longrightarrow> x \<in> set xs \<Longrightarrow> json_valid x"
  by (cases raw) (auto simp: list_all_iff)

lemma json_valid_object:
  "json_valid raw \<Longrightarrow> as_object raw = Some m \<Longrightarrow> map_of m k = Some v \<Longrightarrow> json_valid v"
  by (cases raw) (auto simp: list_all_iff dest!: map_of_SomeD)

end
