(* ===== verification/Sinks.thy ===== *)
theory Sinks
  imports Validation Json
begin

text \<open>
  The sinks of the broker: \<^verbatim>\<open>sessiontapd/src/sinks/\<close>. What comes back from the network is data: a
  \<open>Reply\<close> is a failed request or an HTTP status with the error body, which is \<open>None\<close>
  when the body is not the hub's error envelope. A status is one of the classes the sources ask
  for. Decoding and encoding JSON text belong to serde and are the arguments \<open>from_slice\<close> and
  \<open>to_vec\<close>; an object is the list of its members.
\<close>

section \<open>Outcomes\<close>

datatype DeliveryOutcome = Ack | Retry | OutcomeSnapshotRequired | OutcomeReject "string option"

datatype StatusCode = StatusSuccess | StatusUnauthorized | StatusForbidden | StatusConflict
  | StatusOtherClientError | StatusOther

record HubErrorBody =
  he_error :: string
  he_detail :: "string option"

datatype Reply = RequestFailed | Reply StatusCode "HubErrorBody option"

fun is_client_error :: "StatusCode \<Rightarrow> bool" where
  "is_client_error StatusSuccess = False"
| "is_client_error StatusOther = False"
| "is_client_error _ = True"

fun HubSink_post :: "Reply \<Rightarrow> DeliveryOutcome" where
  "HubSink_post RequestFailed = Retry"
| "HubSink_post (Reply status body) =
     (if status = StatusSuccess then Ack
      else if status = StatusUnauthorized \<or> status = StatusForbidden then Retry
      else if is_client_error status then
        (case body of
           Some e \<Rightarrow> if status = StatusConflict \<and> he_error e = ''snapshot_required''
                     then OutcomeSnapshotRequired else OutcomeReject (he_detail e)
         | None \<Rightarrow> OutcomeReject None)
      else Retry)"

section \<open>Tokens\<close>

datatype TokenSource = TokenNone | TokenEnv string | TokenFile string

fun TokenSource_from_config :: "string option \<Rightarrow> string option \<Rightarrow> TokenSource" where
  "TokenSource_from_config _ (Some path) = TokenFile path"
| "TokenSource_from_config (Some name) None = TokenEnv name"
| "TokenSource_from_config None None = TokenNone"

text \<open>
  \<open>env\<close> reads an environment variable, \<open>read_private_token\<close> a token file; an error of the latter
  is its message.
\<close>

fun TokenSource_token ::
    "(string \<Rightarrow> string option) \<Rightarrow> (string \<Rightarrow> string + string) \<Rightarrow> TokenSource \<Rightarrow> string + string option" where
  "TokenSource_token env read_private_token TokenNone = Inr None"
| "TokenSource_token env read_private_token (TokenEnv name) = Inr (env name)"
| "TokenSource_token env read_private_token (TokenFile path) =
     (case read_private_token path of
        Inl e \<Rightarrow> Inl (''token file '' @ path @ '': '' @ e)
      | Inr t \<Rightarrow> Inr (Some t))"

section \<open>Field selection\<close>

definition set_member :: "string \<Rightarrow> Json \<Rightarrow> (string \<times> Json) list \<Rightarrow> (string \<times> Json) list" where
  "set_member key v = map (\<lambda>(k, x). if k = key then (k, v) else (k, x))"

definition project_fields ::
    "(u8 list \<Rightarrow> Json option) \<Rightarrow> (Json \<Rightarrow> u8 list) \<Rightarrow> u8 list \<Rightarrow> PublicField set \<Rightarrow> u8 list option" where
  "project_fields from_slice to_vec payload selection =
     (if selection = {} then Some payload
      else
        let selected = PublicField_as_str ` selection
        in case from_slice payload of
             Some (JObject object) \<Rightarrow>
               (case map_of object ''type'' of
                  Some (JString kind) \<Rightarrow>
                    if kind \<noteq> ''update'' then None
                    else (case map_of object ''view'' of
                       Some (JObject view) \<Rightarrow>
                         let object1 = set_member ''view''
                               (JObject (filter (\<lambda>(key, _). key = ''invocation_id'' \<or> key \<in> selected) view)) object
                         in (case map_of object1 ''changed'' of
                              Some (JArray changed) \<Rightarrow>
                                Some (to_vec (JObject (set_member ''changed''
                                  (JArray (filter (\<lambda>x. case x of JString name \<Rightarrow> name \<in> selected | _ \<Rightarrow> False)
                                    changed)) object1)))
                            | _ \<Rightarrow> None)
                     | _ \<Rightarrow> None)
                | _ \<Rightarrow> None)
           | _ \<Rightarrow> None)"

section \<open>Sinks\<close>

datatype Sink = StdoutSinkOf "PublicField set"
  | HttpSinkOf string TokenSource int "PublicField set"
  | HubSinkOf string TokenSource int

fun needs_baseline :: "Sink \<Rightarrow> bool" where
  "needs_baseline (HubSinkOf _ _ _) = True"
| "needs_baseline _ = False"

text \<open>
  One delivery, with the reply the request would get. Writing to standard output and posting are
  the only effects. The token is read before the request is sent, and a read that fails is a
  request that fails.
\<close>

definition StdoutSink_deliver ::
    "(u8 list \<Rightarrow> Json option) \<Rightarrow> (Json \<Rightarrow> u8 list) \<Rightarrow> PublicField set \<Rightarrow> u8 list \<Rightarrow> DeliveryOutcome" where
  "StdoutSink_deliver from_slice to_vec selection payload =
     (case project_fields from_slice to_vec payload selection of None \<Rightarrow> OutcomeReject None | Some _ \<Rightarrow> Ack)"

definition HttpSink_deliver ::
    "(u8 list \<Rightarrow> Json option) \<Rightarrow> (Json \<Rightarrow> u8 list) \<Rightarrow> PublicField set \<Rightarrow> u8 list \<Rightarrow> Reply \<Rightarrow> DeliveryOutcome" where
  "HttpSink_deliver from_slice to_vec selection payload reply =
     (case project_fields from_slice to_vec payload selection of
        None \<Rightarrow> OutcomeReject None
      | Some _ \<Rightarrow>
          (case reply of
             Reply status _ \<Rightarrow> if status = StatusSuccess then Ack else Retry
           | RequestFailed \<Rightarrow> Retry))"

fun deliver :: "(u8 list \<Rightarrow> Json option) \<Rightarrow> (Json \<Rightarrow> u8 list) \<Rightarrow> Sink \<Rightarrow> u8 list \<Rightarrow> Reply \<Rightarrow> DeliveryOutcome" where
  "deliver from_slice to_vec (StdoutSinkOf selection) payload reply =
     StdoutSink_deliver from_slice to_vec selection payload"
| "deliver from_slice to_vec (HttpSinkOf _ _ _ selection) payload reply =
     HttpSink_deliver from_slice to_vec selection payload reply"
| "deliver from_slice to_vec (HubSinkOf _ _ _) payload reply = HubSink_post reply"

fun deliver_snapshot :: "Sink \<Rightarrow> Reply \<Rightarrow> DeliveryOutcome" where
  "deliver_snapshot (HubSinkOf _ _ _) reply = HubSink_post reply"
| "deliver_snapshot _ reply = Ack"

definition sink_error :: "string \<Rightarrow> string + 'a \<Rightarrow> string + 'a" where
  "sink_error name r = (case r of Inl e \<Rightarrow> Inl (''sink '' @ in_quotes name @ '': '' @ e) | Inr v \<Rightarrow> Inr v)"

definition build_sink ::
    "(string \<Rightarrow> string + Url) \<Rightarrow> (string \<Rightarrow> IpAddr option) \<Rightarrow> string \<Rightarrow> SinkConfig \<Rightarrow> string + Sink" where
  "build_sink parse_url parse_ip name config =
     result_bind (sink_error name (SinkConfig_public_fields config)) (\<lambda>selection.
       case config of
         SinkStdout s \<Rightarrow> Inr (StdoutSinkOf selection)
       | SinkHttp s \<Rightarrow>
           result_bind (sink_error name (validate_sink_url parse_url parse_ip (kh_url s) [])) (\<lambda>_.
             Inr (HttpSinkOf (kh_url s) (TokenSource_from_config (kh_token_env s) (kh_token_file s))
               (SinkConfig_timeout config) selection))
       | SinkHub s \<Rightarrow>
           result_bind (sink_error name (validate_sink_url parse_url parse_ip (kb_url s) (kb_trusted_addresses s)))
             (\<lambda>_. Inr (HubSinkOf (kb_url s) (TokenSource_from_config (kb_token_env s) (kb_token_file s))
               (SinkConfig_timeout config))))"

fun build_sinks ::
    "(string \<Rightarrow> string + Url) \<Rightarrow> (string \<Rightarrow> IpAddr option) \<Rightarrow> (string \<times> SinkConfig) list
     \<Rightarrow> string + (string \<times> Sink) list" where
  "build_sinks parse_url parse_ip [] = Inr []"
| "build_sinks parse_url parse_ip ((name, config) # rest) =
     (if \<not> SinkConfig_enabled config then build_sinks parse_url parse_ip rest
      else result_bind (build_sink parse_url parse_ip name config) (\<lambda>sink.
        result_bind (build_sinks parse_url parse_ip rest) (\<lambda>sinks. Inr ((name, sink) # sinks))))"

section \<open>Lemmas\<close>

text \<open>A validated configuration always builds, and its hub sinks are the ones with a baseline.\<close>

lemma validated_sink_builds:
  assumes "validate_sink parse_url parse_ip source_id name config = Inr ()"
  shows "\<exists>sink. build_sink parse_url parse_ip name config = Inr sink \<and> needs_baseline sink = is_hub config"
  using assms
  by (cases config)
    (auto simp: validate_sink_def build_sink_def sink_error_def no_control_def validate_hub_sink_def result_bind_Inr
      split: sum.splits if_splits)

lemma validated_sinks_build:
  "validate_sinks parse_url parse_ip source_id configs = Inr () \<Longrightarrow>
   \<exists>sinks. build_sinks parse_url parse_ip configs = Inr sinks
     \<and> map (\<lambda>(n, s). (n, needs_baseline s)) sinks =
         map (\<lambda>(n, c). (n, is_hub c)) (filter (\<lambda>(n, c). SinkConfig_enabled c) configs)"
proof (induction configs)
  case (Cons x configs)
  obtain name c where x: "x = (name, c)" by (cases x)
  have v: "validate_sink parse_url parse_ip source_id name c = Inr ()"
      "validate_sinks parse_url parse_ip source_id configs = Inr ()"
    using Cons.prems x by (auto simp: result_bind_Inr)
  from Cons.IH [OF v(2)] validated_sink_builds [OF v(1)] x show ?case by auto
qed simp

lemma map_of_set_member:
  "map_of (set_member key v xs) k = (if k = key \<and> map_of xs key \<noteq> None then Some v else map_of xs k)"
  by (induction xs) (auto simp: set_member_def)

text \<open>
  What a field selection lets through: the payload is an update whose view keeps the identity and
  the selected members only, and whose change list names selected fields only.
\<close>

lemma project_fields_Some:
  assumes "project_fields from_slice to_vec payload selection = Some body" and "selection \<noteq> {}"
  obtains object view changed where "from_slice payload = Some (JObject object)"
    "map_of object ''type'' = Some (JString ''update'')" "map_of object ''view'' = Some (JObject view)"
    "map_of object ''changed'' = Some (JArray changed)"
    "body = to_vec (JObject (set_member ''changed''
       (JArray (filter (\<lambda>x. \<exists>f\<in>selection. x = JString (PublicField_as_str f)) changed))
       (set_member ''view'' (JObject (filter (\<lambda>(key, _). key = ''invocation_id'' \<or> key \<in> PublicField_as_str ` selection)
         view)) object)))"
proof -
  have eq: "(case x of JString name \<Rightarrow> name \<in> PublicField_as_str ` selection | _ \<Rightarrow> False) \<longleftrightarrow>
      (\<exists>f\<in>selection. x = JString (PublicField_as_str f))" for x
    by (cases x) auto
  from assms obtain object kind view changed where *: "from_slice payload = Some (JObject object)"
    "map_of object ''type'' = Some (JString kind)" "kind = ''update''" "map_of object ''view'' = Some (JObject view)"
    "map_of object ''changed'' = Some (JArray changed)"
    "body = to_vec (JObject (set_member ''changed''
       (JArray (filter (\<lambda>x. case x of JString name \<Rightarrow> name \<in> PublicField_as_str ` selection | _ \<Rightarrow> False) changed))
       (set_member ''view'' (JObject (filter (\<lambda>(key, _). key = ''invocation_id'' \<or> key \<in> PublicField_as_str ` selection)
         view)) object)))"
    by (auto simp: project_fields_def Let_def map_of_set_member split: option.splits Json.splits if_splits)
  then show thesis using that unfolding eq by blast
qed

end
