(* ===== verification/Workers.thy ===== *)
theory Workers
  imports Sinks Storage_Props
begin

text \<open>
  The delivery worker of the broker, \<^verbatim>\<open>sessiontapd/src/workers.rs\<close>: baselines for the sinks that
  need one, and batches of outbox records. The outcomes of the deliveries are arguments, as the
  replies of the network are, and so are the readings of the clock. The number of attempts is a
  natural number; the source keeps it in 32 bits.
\<close>

section \<open>The worker\<close>

record SinkWorker =
  wk_sinks :: "(string \<times> Sink) list"
  wk_source_id :: string
  wk_source_name :: "string option"
  wk_batch :: nat
  wk_max_rejected_attempts :: nat
  wk_snapshot_backoff :: "string \<rightharpoonup> timestamp \<times> int"

definition SNAPSHOT_BACKOFF_START :: int where "SNAPSHOT_BACKOFF_START = seconds 1"
definition SNAPSHOT_BACKOFF_MAX_SECS :: int where "SNAPSHOT_BACKOFF_MAX_SECS = 60"
definition SNAPSHOT_BACKOFF_MAX :: int where "SNAPSHOT_BACKOFF_MAX = seconds SNAPSHOT_BACKOFF_MAX_SECS"

definition SinkWorker_new :: "Publish \<Rightarrow> (string \<times> Sink) list \<Rightarrow> DaemonConfig \<Rightarrow> SinkWorker" where
  "SinkWorker_new publish sinks daemon =
     \<lparr>wk_sinks = sinks, wk_source_id = pb_source_id publish, wk_source_name = pb_source_name publish,
      wk_batch = dc_outbox_batch daemon, wk_max_rejected_attempts = dc_max_rejected_attempts daemon,
      wk_snapshot_backoff = Map.empty\<rparr>"

definition reset_baselines :: "SinkWorker \<Rightarrow> Db \<Rightarrow> Db" where
  "reset_baselines w db =
     fold (\<lambda>(name, sink) db. if needs_baseline sink then hub_reset_snapshot db name else db) (wk_sinks w) db"

section \<open>Baselines\<close>

text \<open>
  One baseline. \<open>attempt\<close> is the reading of the clock before the delivery, the reply, and the
  reading after it.
\<close>

definition next_delay :: "(string \<rightharpoonup> timestamp \<times> int) \<Rightarrow> string \<Rightarrow> int" where
  "next_delay backoff name =
     (case backoff name of
        None \<Rightarrow> SNAPSHOT_BACKOFF_START
      | Some (_, delay) \<Rightarrow> min (delay * 2) SNAPSHOT_BACKOFF_MAX)"

fun deliver_snapshots_loop ::
    "Codec \<Rightarrow> SinkWorker \<Rightarrow> (string \<Rightarrow> timestamp \<times> Reply \<times> timestamp) \<Rightarrow> Db
     \<Rightarrow> (string \<rightharpoonup> timestamp \<times> int) \<Rightarrow> (string \<times> Sink) list
     \<Rightarrow> Db \<times> (string \<rightharpoonup> timestamp \<times> int) \<times> (StorageError + unit)" where
  "deliver_snapshots_loop cd w attempt db backoff [] = (db, backoff, Inr ())"
| "deliver_snapshots_loop cd w attempt db backoff ((name, sink) # rest) =
     (if \<not> needs_baseline sink then deliver_snapshots_loop cd w attempt db backoff rest
      else
        let (db1, due) = hub_snapshot_due db name; (now, reply, later) = attempt name
        in if \<not> due then deliver_snapshots_loop cd w attempt db1 (backoff(name := None)) rest
           else if is_some_and (\<lambda>(next, _). now < next) (backoff name)
           then deliver_snapshots_loop cd w attempt db1 backoff rest
           else case hub_source_snapshot cd db1 (wk_source_id w) (wk_source_name w) of
             Inl e \<Rightarrow> (db1, backoff, Inl e)
           | Inr (revision, payload) \<Rightarrow>
               if deliver_snapshot sink reply = Ack
               then deliver_snapshots_loop cd w attempt (hub_snapshot_delivered db1 name revision)
                      (backoff(name := None)) rest
               else
                 let delay = next_delay backoff name
                 in deliver_snapshots_loop cd w attempt db1 (backoff(name \<mapsto> (later + delay, delay))) rest)"

definition deliver_snapshots ::
    "Codec \<Rightarrow> SinkWorker \<Rightarrow> (string \<Rightarrow> timestamp \<times> Reply \<times> timestamp) \<Rightarrow> Db
     \<Rightarrow> Db \<times> SinkWorker \<times> (StorageError + unit)" where
  "deliver_snapshots cd w attempt db =
     (if wk_source_id w = [] then (db, w, Inr ())
      else
        let (db', backoff, r) = deliver_snapshots_loop cd w attempt db (wk_snapshot_backoff w) (wk_sinks w)
        in (db', w\<lparr>wk_snapshot_backoff := backoff\<rparr>, r))"

section \<open>Outbox records\<close>

definition settle :: "SinkWorker \<Rightarrow> Sink \<Rightarrow> OutboxRecord \<Rightarrow> timestamp \<Rightarrow> DeliveryOutcome \<Rightarrow> Db \<Rightarrow> Db" where
  "settle w sink r wall outcome db =
     (let name = or_sink_name r; event = or_event_id r
      in case outcome of
           Ack \<Rightarrow> acknowledge db name event
         | Retry \<Rightarrow> retry db name event (or_attempts r) wall
         | OutcomeSnapshotRequired \<Rightarrow> retry (hub_reset_snapshot db name) name event (or_attempts r) wall
         | OutcomeReject detail \<Rightarrow>
             if or_attempts r + 1 \<ge> wk_max_rejected_attempts w
             then acknowledge (if needs_baseline sink then hub_reset_snapshot db name else db) name event
             else retry db name event (or_attempts r) wall)"

definition process_record ::
    "SinkWorker \<Rightarrow> (Sink \<Rightarrow> OutboxRecord \<Rightarrow> DeliveryOutcome) \<Rightarrow> (OutboxRecord \<Rightarrow> timestamp) \<Rightarrow> OutboxRecord
     \<Rightarrow> Db \<Rightarrow> Db" where
  "process_record w outcome clock r db =
     (case map_of (wk_sinks w) (or_sink_name r) of
        None \<Rightarrow> db
      | Some sink \<Rightarrow>
          if needs_baseline sink
          then
            let (db1, due) = hub_snapshot_due db (or_sink_name r)
            in if due then db1 else settle w sink r (clock r) (outcome sink r) db1
          else settle w sink r (clock r) (outcome sink r) db)"

definition process_outbox_once ::
    "(u8 list \<Rightarrow> Json option) \<Rightarrow> (Json \<Rightarrow> u8 list) \<Rightarrow> SinkWorker \<Rightarrow> (OutboxRecord \<Rightarrow> Reply)
     \<Rightarrow> (OutboxRecord \<Rightarrow> timestamp) \<Rightarrow> timestamp \<Rightarrow> Db \<Rightarrow> Db \<times> nat" where
  "process_outbox_once from_slice to_vec w reply clock wall db =
     (let records = due_outbox db (wk_batch w) wall
      in (fold (process_record w (\<lambda>sink r. deliver from_slice to_vec sink (or_payload r) (reply r)) clock) records db,
          length records))"

section \<open>Baselines that are due\<close>

definition baseline_due :: "Db \<Rightarrow> string \<Rightarrow> bool" where
  "baseline_due db name = snd (hub_snapshot_due db name)"

lemma baseline_due_iff:
  "baseline_due db name \<longleftrightarrow> is_none_or (\<lambda>r. hs_snapshot_revision r = None) (tbl_lookup hs_sink_name name (db_hub_sinks db))"
  by (cases "tbl_lookup hs_sink_name name (db_hub_sinks db)") (simp_all add: baseline_due_def hub_snapshot_due_def)

lemma due_after:
  "baseline_due (hub_reset_snapshot db n) name = (name = n \<or> baseline_due db name)"
  "baseline_due (fst (hub_snapshot_due db n)) name = baseline_due db name"
  "baseline_due (hub_snapshot_delivered db n m) name = (name \<noteq> n \<and> baseline_due db name)"
  "baseline_due (acknowledge db s e) name = baseline_due db name"
  "baseline_due (retry db s e k wall) name = baseline_due db name"
  by (auto simp: baseline_due_iff hub_reset_snapshot_def hub_snapshot_due_def hub_snapshot_delivered_def
      acknowledge_def retry_def tbl_lookup_put tbl_lookup_append split: option.splits)

lemma outbox_after_baseline [simp]:
  "db_outbox (hub_reset_snapshot db n) = db_outbox db"
  "db_outbox (fst (hub_snapshot_due db n)) = db_outbox db"
  by (auto simp: hub_reset_snapshot_def hub_snapshot_due_def split: option.splits)

text \<open>A record as one equation: held, or settled.\<close>

definition held :: "SinkWorker \<Rightarrow> Db \<Rightarrow> string \<Rightarrow> bool" where
  "held w db name = is_none_or (\<lambda>sink. needs_baseline sink \<and> baseline_due db name) (map_of (wk_sinks w) name)"

lemma process_record_cases:
  obtains (held) "held w db (or_sink_name r)"
      "process_record w outcome clock r db \<in> {db, fst (hub_snapshot_due db (or_sink_name r))}"
  | (settled) sink db1 where "map_of (wk_sinks w) (or_sink_name r) = Some sink" "\<not> held w db (or_sink_name r)"
      "db1 \<in> {db, fst (hub_snapshot_due db (or_sink_name r))}"
      "process_record w outcome clock r db = settle w sink r (clock r) (outcome sink r) db1"
proof (cases "map_of (wk_sinks w) (or_sink_name r)")
  case None
  then show thesis using that(1) by (simp add: process_record_def held_def)
next
  case (Some sink)
  obtain db1 due where "hub_snapshot_due db (or_sink_name r) = (db1, due)" by fastforce
  then show thesis
    using Some that(1) that(2) [OF Some]
    by (cases "needs_baseline sink"; cases due) (auto simp: process_record_def held_def baseline_due_def)
qed

section \<open>What one record does to the queue\<close>

lemma retry_keys: "map outbox_key (db_outbox (retry db s e k wall)) = map outbox_key (db_outbox db)"
  by (simp add: retry_def comp_def outbox_key_def if_distrib cong: if_cong)

lemma settle_keys:
  "outbox_key ` set (db_outbox (settle w sink r wall outcome db)) =
     (if outcome = Ack \<or> (\<exists>d. outcome = OutcomeReject d) \<and> or_attempts r + 1 \<ge> wk_max_rejected_attempts w
      then outbox_key ` set (db_outbox db) - {(or_sink_name r, or_event_id r)}
      else outbox_key ` set (db_outbox db))"
proof -
  have r: "outbox_key ` set (db_outbox (retry db s e k wall)) = outbox_key ` set (db_outbox db)" for db s e k wall
    by (metis list.set_map retry_keys)
  show ?thesis
    by (cases outcome) (auto simp: settle_def r acknowledge_def tbl_delete_def Let_def)
qed

lemma settle_due:
  "baseline_due (settle w sink r wall outcome db) name =
     (baseline_due db name \<or> name = or_sink_name r \<and>
        (outcome = OutcomeSnapshotRequired \<or> needs_baseline sink \<and> (\<exists>d. outcome = OutcomeReject d)
           \<and> or_attempts r + 1 \<ge> wk_max_rejected_attempts w))"
  by (cases outcome) (auto simp: settle_def due_after Let_def)

lemma process_record_due: "baseline_due db name \<Longrightarrow> baseline_due (process_record w outcome clock r db) name"
  by (cases rule: process_record_cases [of w db r outcome clock]) (auto simp: due_after settle_due)

lemma process_records_due: "baseline_due db name \<Longrightarrow> baseline_due (fold (process_record w outcome clock) rs db) name"
  by (induction rs arbitrary: db) (auto intro: process_record_due)

text \<open>How a record may leave the queue.\<close>

definition released :: "SinkWorker \<Rightarrow> (Sink \<Rightarrow> OutboxRecord \<Rightarrow> DeliveryOutcome) \<Rightarrow> Db \<Rightarrow> OutboxRecord \<Rightarrow> bool" where
  "released w outcome db r \<longleftrightarrow> (\<exists>sink. map_of (wk_sinks w) (or_sink_name r) = Some sink
     \<and> (outcome sink r = Ack
        \<or> (\<exists>d. outcome sink r = OutcomeReject d) \<and> or_attempts r + 1 \<ge> wk_max_rejected_attempts w
            \<and> (needs_baseline sink \<longrightarrow> baseline_due db (or_sink_name r))))"

lemma process_record_releases:
  assumes "k \<in> outbox_key ` set (db_outbox db)" "k \<notin> outbox_key ` set (db_outbox (process_record w outcome clock r db))"
  shows "k = (or_sink_name r, or_event_id r) \<and> released w outcome (process_record w outcome clock r db) r"
proof (cases rule: process_record_cases [of w db r outcome clock])
  case held
  with assms show ?thesis by auto
next
  case (settled sink db1)
  have "db_outbox db1 = db_outbox db" using settled(3) by auto
  with assms settled show ?thesis
    unfolding settled(4) by (auto simp: settle_keys released_def settle_due split: if_splits)
qed

lemma process_records_release:
  "k \<in> outbox_key ` set (db_outbox db) \<Longrightarrow> k \<notin> outbox_key ` set (db_outbox (fold (process_record w outcome clock) rs db)) \<Longrightarrow>
   \<exists>r\<in>set rs. k = (or_sink_name r, or_event_id r) \<and> released w outcome (fold (process_record w outcome clock) rs db) r"
proof (induction rs arbitrary: db)
  case (Cons r rs)
  let ?db = "process_record w outcome clock r db"
  show ?case
  proof (cases "k \<in> outbox_key ` set (db_outbox ?db)")
    case True
    with Cons.IH [of ?db] Cons.prems show ?thesis by auto
  next
    case False
    from process_record_releases [OF Cons.prems(1) this] process_records_due [of ?db "or_sink_name r" w outcome clock rs]
    show ?thesis by (auto simp: released_def)
  qed
qed simp

lemma due_outbox_record:
  assumes "r \<in> set (due_outbox db limit wall)"
  shows "(or_sink_name r, or_event_id r) \<in> outbox_key ` set (db_outbox db)"
  using assms by (auto simp: due_outbox_def outbox_key_def dest!: in_set_takeD)

section \<open>Draining\<close>

text \<open>When nothing is held and every delivery is acknowledged, a batch is taken off the queue.\<close>

definition due_rows :: "Db \<Rightarrow> timestamp \<Rightarrow> OutboxRow list" where
  "due_rows db wall = filter (\<lambda>r. ob_next_attempt_at r \<le> wall) (db_outbox db)"

definition flowing :: "SinkWorker \<Rightarrow> Db \<Rightarrow> bool" where
  "flowing w db \<longleftrightarrow> (\<forall>r\<in>set (db_outbox db). \<not> held w db (ob_sink_name r))"

lemma due_present: "\<not> baseline_due db name \<Longrightarrow> hub_snapshot_due db name = (db, False)"
  by (cases "tbl_lookup hs_sink_name name (db_hub_sinks db)") (auto simp: baseline_due_def hub_snapshot_due_def)

lemma process_record_ack:
  assumes "\<not> held w db (or_sink_name r)" "\<And>name sink. (name, sink) \<in> set (wk_sinks w) \<Longrightarrow> outcome sink r = Ack"
  shows "process_record w outcome clock r db = acknowledge db (or_sink_name r) (or_event_id r)"
proof -
  obtain sink where s: "map_of (wk_sinks w) (or_sink_name r) = Some sink"
      "needs_baseline sink \<Longrightarrow> \<not> baseline_due db (or_sink_name r)"
    using assms(1) by (cases "map_of (wk_sinks w) (or_sink_name r)") (auto simp: held_def)
  with assms(2) [OF map_of_SomeD [OF s(1)]] show ?thesis
    by (cases "needs_baseline sink") (simp_all add: process_record_def settle_def due_present)
qed

lemma held_acknowledge [simp]: "held w (acknowledge db s e) name = held w db name"
  by (simp add: held_def due_after)

lemma process_records_ack:
  "\<forall>r\<in>set rs. \<not> held w db (or_sink_name r) \<Longrightarrow> (\<And>name sink r. (name, sink) \<in> set (wk_sinks w) \<Longrightarrow> outcome sink r = Ack) \<Longrightarrow>
   fold (process_record w outcome clock) rs db = db\<lparr>db_outbox := filter (\<lambda>x. outbox_key x \<notin>
     (\<lambda>r. (or_sink_name r, or_event_id r)) ` set rs) (db_outbox db)\<rparr>"
proof (induction rs arbitrary: db)
  case (Cons r rs)
  have "process_record w outcome clock r db = acknowledge db (or_sink_name r) (or_event_id r)"
    using Cons.prems(1) by (intro process_record_ack Cons.prems(2)) simp_all
  moreover have "fold (process_record w outcome clock) rs (acknowledge db (or_sink_name r) (or_event_id r)) =
      (acknowledge db (or_sink_name r) (or_event_id r))\<lparr>db_outbox := filter (\<lambda>x. outbox_key x \<notin>
         (\<lambda>r. (or_sink_name r, or_event_id r)) ` set rs)
           (db_outbox (acknowledge db (or_sink_name r) (or_event_id r)))\<rparr>"
    using Cons.prems(1) by (intro Cons.IH Cons.prems(2)) simp_all
  ultimately show ?case
    by (simp add: acknowledge_def tbl_delete_def conj_commute)
qed simp

lemma filter_taken:
  assumes "distinct (map key xs)"
  shows "length (filter (\<lambda>x. key x \<notin> key ` set (take n (sort_key f xs))) xs) = length xs - n"
proof -
  let ?s = "sort_key f xs"
  have "mset (map key ?s) = mset (map key xs)" by simp
  then have "distinct (map key ?s)" using assms mset_eq_imp_distinct_iff by blast
  then have "distinct (map key (take n ?s @ drop n ?s))" by simp
  then have dis: "key ` set (take n ?s) \<inter> key ` set (drop n ?s) = {}"
    by (simp only: map_append distinct_append set_map)
  have "length (filter (\<lambda>x. key x \<notin> key ` set (take n ?s)) xs) = length (filter (\<lambda>x. key x \<notin> key ` set (take n ?s)) ?s)"
    by (metis mset_filter mset_sort size_mset)
  also have "\<dots> = length (filter (\<lambda>x. key x \<notin> key ` set (take n ?s)) (take n ?s @ drop n ?s))" by simp
  also have "\<dots> = length (drop n ?s)"
  proof -
    have "filter (\<lambda>x. key x \<notin> key ` set (take n ?s)) (take n ?s) = []" by (auto simp: filter_empty_conv)
    moreover have "filter (\<lambda>x. key x \<notin> key ` set (take n ?s)) (drop n ?s) = drop n ?s"
      using dis by (auto simp: filter_id_conv)
    ultimately show ?thesis by (metis append_Nil filter_append)
  qed
  finally show ?thesis by simp
qed

lemma process_outbox_ack:
  assumes flow: "flowing w db" and keys: "distinct (map outbox_key (db_outbox db))"
    and ack: "\<And>name sink r. (name, sink) \<in> set (wk_sinks w) \<Longrightarrow>
      deliver from_slice to_vec sink (or_payload r) (reply r) = Ack"
  shows "length (due_rows (fst (process_outbox_once from_slice to_vec w reply clock wall db)) wall) =
      length (due_rows db wall) - wk_batch w"
    and "flowing w (fst (process_outbox_once from_slice to_vec w reply clock wall db))"
    and "distinct (map outbox_key (db_outbox (fst (process_outbox_once from_slice to_vec w reply clock wall db))))"
proof -
  let ?rs = "due_outbox db (wk_batch w) wall"
  let ?taken = "take (wk_batch w) (sort_key ob_revision (due_rows db wall))"
  let ?db = "fst (process_outbox_once from_slice to_vec w reply clock wall db)"
  have k: "(\<lambda>r. (or_sink_name r, or_event_id r)) ` set ?rs = outbox_key ` set ?taken"
    by (auto simp: due_outbox_def due_rows_def outbox_key_def image_image)
  have unheld: "\<forall>r\<in>set ?rs. \<not> held w db (or_sink_name r)"
    using flow due_outbox_record [of _ db "wk_batch w" wall] unfolding flowing_def
    by (fastforce simp: outbox_key_def)
  have db: "?db = db\<lparr>db_outbox := filter (\<lambda>x. outbox_key x \<notin> outbox_key ` set ?taken) (db_outbox db)\<rparr>"
    unfolding process_outbox_once_def Let_def fst_conv k [symmetric]
    by (rule process_records_ack [OF unheld]) (rule ack)
  have "due_rows ?db wall = filter (\<lambda>x. outbox_key x \<notin> outbox_key ` set ?taken) (due_rows db wall)"
    unfolding db by (simp add: due_rows_def conj_commute)
  moreover have "distinct (map outbox_key (due_rows db wall))"
    using keys by (simp add: due_rows_def distinct_map_filter)
  ultimately show "length (due_rows ?db wall) = length (due_rows db wall) - wk_batch w"
    by (simp only: filter_taken)
  show "flowing w ?db" using flow unfolding db by (auto simp: flowing_def held_def baseline_due_iff)
  show "distinct (map outbox_key (db_outbox ?db))" using keys unfolding db by (simp add: distinct_map_filter)
qed

lemma rounds_drain:
  assumes flow: "flowing w db" and keys: "distinct (map outbox_key (db_outbox db))"
    and ack: "\<And>name sink r. (name, sink) \<in> set (wk_sinks w) \<Longrightarrow>
      deliver from_slice to_vec sink (or_payload r) (reply r) = Ack"
  shows "length (due_rows (((\<lambda>db. fst (process_outbox_once from_slice to_vec w reply clock wall db)) ^^ n) db) wall) =
      length (due_rows db wall) - n * wk_batch w"
  using flow keys
proof (induction n arbitrary: db)
  case (Suc n)
  let ?round = "\<lambda>db. fst (process_outbox_once from_slice to_vec w reply clock wall db)"
  have one: "length (due_rows (?round db) wall) = length (due_rows db wall) - wk_batch w"
      "flowing w (?round db)" "distinct (map outbox_key (db_outbox (?round db)))"
    by (rule process_outbox_ack [OF Suc.prems], rule ack, assumption)+
  show ?case
    unfolding funpow_Suc_right comp_def Suc.IH [OF one(2,3)] one(1) by simp
qed simp

section \<open>Backoff\<close>

text \<open>The delays the worker remembers stay between one second and one minute.\<close>

definition bounded_backoff :: "(string \<rightharpoonup> timestamp \<times> int) \<Rightarrow> bool" where
  "bounded_backoff b \<longleftrightarrow> (\<forall>name next delay. b name = Some (next, delay) \<longrightarrow>
     SNAPSHOT_BACKOFF_START \<le> delay \<and> delay \<le> SNAPSHOT_BACKOFF_MAX)"

lemma next_delay_bounded:
  "bounded_backoff b \<Longrightarrow> SNAPSHOT_BACKOFF_START \<le> next_delay b name \<and> next_delay b name \<le> SNAPSHOT_BACKOFF_MAX"
  by (cases "b name")
    (fastforce simp: next_delay_def bounded_backoff_def SNAPSHOT_BACKOFF_START_def SNAPSHOT_BACKOFF_MAX_def
      SNAPSHOT_BACKOFF_MAX_SECS_def seconds_def)+

lemma deliver_snapshots_loop_backoff:
  "bounded_backoff b \<Longrightarrow> bounded_backoff (fst (snd (deliver_snapshots_loop cd w attempt db b sinks)))"
proof (induction sinks arbitrary: db b)
  case (Cons x sinks)
  obtain name sink where x: "x = (name, sink)" by (cases x)
  obtain db1 due where due: "hub_snapshot_due db name = (db1, due)" by fastforce
  obtain now reply later where a: "attempt name = (now, reply, later)" by (metis prod_cases3)
  have upd: "bounded_backoff (b(name := None))" "bounded_backoff (b(name \<mapsto> (later + next_delay b name, next_delay b name)))"
    using Cons.prems next_delay_bounded [OF Cons.prems, of name] by (auto simp: bounded_backoff_def)
  have ih: "bounded_backoff (fst (snd (deliver_snapshots_loop cd w attempt d (b(name := None)) sinks)))"
      "bounded_backoff (fst (snd (deliver_snapshots_loop cd w attempt d
         (b(name \<mapsto> (later + next_delay b name, next_delay b name))) sinks)))"
      "bounded_backoff (fst (snd (deliver_snapshots_loop cd w attempt d b sinks)))" for d
    by (rule Cons.IH [OF upd(1)], rule Cons.IH [OF upd(2)], rule Cons.IH [OF Cons.prems])
  show ?case
    unfolding x deliver_snapshots_loop.simps(2) due a Let_def prod.case
    by (cases "hub_source_snapshot cd db1 (wk_source_id w) (wk_source_name w)")
      (auto simp: ih Cons.prems split: prod.split)
qed simp

end
