(* ===== verification/Workers_Props.thy ===== *)
theory Workers_Props
  imports Workers
begin

text \<open>
  The promises of delivery: how a record leaves the queue, that the queue drains, and what holds
  it up; the bounds of the backoff; and what a field selection lets through.
\<close>

section \<open>Samples\<close>

definition sample_row :: "string \<Rightarrow> string \<Rightarrow> nat \<Rightarrow> OutboxRow" where
  "sample_row sink event n = \<lparr>ob_sink_name = sink, ob_event_id = event, ob_revision = n, ob_payload = [1, 2, 3],
     ob_attempts = 0, ob_next_attempt_at = 5\<rparr>"

definition sample_worker :: SinkWorker where
  "sample_worker = \<lparr>wk_sinks = [(''hub'', HubSinkOf ''http://10.0.0.1/'' TokenNone 3), (''log'', StdoutSinkOf {})],
     wk_source_id = ''host'', wk_source_name = None, wk_batch = 1, wk_max_rejected_attempts = 2,
     wk_snapshot_backoff = Map.empty\<rparr>"

definition sample_queue :: "OutboxRow list \<Rightarrow> Db" where
  "sample_queue rows = Db_empty\<lparr>db_revision := 9, db_outbox := rows\<rparr>"

lemma stdout_acks [simp]: "StdoutSink_deliver from_slice to_vec {} payload = Ack"
  by (simp add: StdoutSink_deliver_def project_fields_def)

lemma held_batch_idle:
  assumes "\<And>r. r \<in> set rs \<Longrightarrow> held w db (or_sink_name r)"
  shows "db_outbox (fold (process_record w outcome clock) rs db) = db_outbox db
    \<and> (\<forall>name. baseline_due (fold (process_record w outcome clock) rs db) name = baseline_due db name)"
  using assms
proof (induction rs arbitrary: db)
  case (Cons r rs)
  let ?db = "process_record w outcome clock r db"
  have same: "db_outbox ?db = db_outbox db" "baseline_due ?db name = baseline_due db name" for name
    using Cons.prems by (cases rule: process_record_cases [of w db r outcome clock]; auto simp: due_after)+
  have "held w ?db (or_sink_name x)" if "x \<in> set rs" for x
    using Cons.prems [of x] that same by (simp add: held_def)
  from Cons.IH [OF this] same show ?case by simp
qed simp

lemma due_outbox_cong: "db_outbox a = db_outbox b \<Longrightarrow> due_outbox a limit wall = due_outbox b limit wall"
  by (simp add: due_outbox_def)

section \<open>Properties\<close>



text \<open>
  (C34) The queue drains: while no sink of a queued record is held and every delivery is
  acknowledged, each round takes a full batch off the queue, so that after enough rounds nothing
  that was due is left.
\<close>

theorem outbox_drains:
  assumes "wf_db db" and "\<forall>r\<in>set (db_outbox db). \<not> held w db (ob_sink_name r)"
    and "\<forall>(name, sink)\<in>set (wk_sinks w). \<forall>r. deliver from_slice to_vec sink (or_payload r) (reply r) = Ack"
    and "length (filter (\<lambda>r. ob_next_attempt_at r \<le> wall) (db_outbox db)) \<le> n * wk_batch w"
  shows "due_outbox (((\<lambda>db. fst (process_outbox_once from_slice to_vec w reply clock wall db)) ^^ n) db) limit wall = []"
proof -
  have "distinct (map outbox_key (db_outbox db))" using wf_dbD(5) [OF assms(1)] by (simp add: wf_outbox_def)
  then have "length (due_rows (((\<lambda>db. fst (process_outbox_once from_slice to_vec w reply clock wall db)) ^^ n) db) wall) = 0"
    using assms by (subst rounds_drain) (auto simp: flowing_def due_rows_def)
  then show ?thesis by (simp add: due_outbox_def due_rows_def)
qed

lemma sample_queue_wf: "wf_db (sample_queue [sample_row ''log'' ''a'' 3])"
  by (simp add: wf_db_def sample_queue_def sample_row_def Db_empty_def wf_outbox_def sink_load_def
      MAX_OUTBOX_RECORDS_PER_SINK_def wf_reasons_def)

theorem outbox_drains_witness:
  "due_outbox (((\<lambda>db. fst (process_outbox_once (\<lambda>_. None) (\<lambda>_. []) sample_worker (\<lambda>_. Reply StatusSuccess None) (\<lambda>_. 9) 9 db)) ^^ 1)
     (sample_queue [sample_row ''log'' ''a'' 3])) 100 9 = []"
proof (rule outbox_drains [OF sample_queue_wf])
  show "\<forall>r\<in>set (db_outbox (sample_queue [sample_row ''log'' ''a'' 3])).
      \<not> held sample_worker (sample_queue [sample_row ''log'' ''a'' 3]) (ob_sink_name r)"
    by (simp add: sample_queue_def sample_row_def sample_worker_def held_def)
qed (simp_all add: sample_queue_def sample_row_def sample_worker_def)

text \<open>
  A backlog of held records stops all delivery: when the oldest due records fill a batch and
  each belongs to a sink that is no longer configured or still waits for its baseline, rounds
  deliver nothing, to no sink, however often they are repeated.
\<close>

theorem held_backlog_blocks_every_sink:
  assumes "\<forall>r\<in>set (due_outbox db (wk_batch w) wall). held w db (or_sink_name r)"
  shows "db_outbox (((\<lambda>db. fst (process_outbox_once from_slice to_vec w reply clock wall db)) ^^ n) db) = db_outbox db"
proof -
  let ?round = "\<lambda>db. fst (process_outbox_once from_slice to_vec w reply clock wall db)"
  have "db_outbox ((?round ^^ n) db) = db_outbox db
      \<and> (\<forall>name. baseline_due ((?round ^^ n) db) name = baseline_due db name)"
  proof (induction n)
    case (Suc n)
    let ?db = "(?round ^^ n) db"
    have rs: "due_outbox ?db (wk_batch w) wall = due_outbox db (wk_batch w) wall"
      using Suc by (intro due_outbox_cong) simp
    have "held w ?db (or_sink_name r)" if "r \<in> set (due_outbox ?db (wk_batch w) wall)" for r
      using assms Suc that unfolding rs by (simp add: held_def)
    from held_batch_idle [OF this] Suc show ?case by (simp add: process_outbox_once_def Let_def)
  qed simp
  then show ?thesis by simp
qed

theorem held_backlog_blocks_every_sink_witness:
  "db_outbox (((\<lambda>db. fst (process_outbox_once (\<lambda>_. None) (\<lambda>_. []) sample_worker (\<lambda>_. RequestFailed) (\<lambda>_. 9) 9 db)) ^^ 7)
     (sample_queue [sample_row ''hub'' ''a'' 3, sample_row ''log'' ''b'' 4])) =
   [sample_row ''hub'' ''a'' 3, sample_row ''log'' ''b'' 4]"
proof (rule held_backlog_blocks_every_sink [THEN trans])
  show "\<forall>r\<in>set (due_outbox (sample_queue [sample_row ''hub'' ''a'' 3, sample_row ''log'' ''b'' 4])
      (wk_batch sample_worker) 9). held sample_worker (sample_queue [sample_row ''hub'' ''a'' 3, sample_row ''log'' ''b'' 4])
      (or_sink_name r)"
    by (simp add: due_outbox_def sample_queue_def sample_row_def sample_worker_def held_def baseline_due_iff
        Db_empty_def)
qed (simp add: sample_queue_def)

text \<open>
  The retry delay of a baseline stays between one second and one minute, whatever the replies.
\<close>

theorem snapshot_backoff_bounds:
  assumes "bounded_backoff (wk_snapshot_backoff w)"
  shows "bounded_backoff (wk_snapshot_backoff (fst (snd (deliver_snapshots cd w attempt db))))"
  using deliver_snapshots_loop_backoff [OF assms] assms
  by (auto simp: deliver_snapshots_def split: prod.splits) (metis fst_conv snd_conv)

theorem snapshot_backoff_bounds_witness:
  "bounded_backoff (wk_snapshot_backoff (fst (snd (deliver_snapshots sample_codec sample_worker
     (\<lambda>_. (5, RequestFailed, 6)) Db_empty))))"
  by (rule snapshot_backoff_bounds) (simp add: bounded_backoff_def sample_worker_def)

text \<open>
  A field selection confines what leaves: the body sent is an update whose view holds the
  invocation identity and selected fields only, and whose change list names selected fields only;
  anything that is not an update is not sent at all.
\<close>

theorem selection_confines_body:
  assumes "project_fields from_slice to_vec payload selection = Some body" and "selection \<noteq> {}"
  shows "\<exists>object view changed. body = to_vec (JObject object)
    \<and> map_of object ''type'' = Some (JString ''update'')
    \<and> map_of object ''view'' = Some (JObject view) \<and> map_of object ''changed'' = Some (JArray changed)
    \<and> fst ` set view \<subseteq> insert ''invocation_id'' (PublicField_as_str ` selection)
    \<and> set changed \<subseteq> JString ` PublicField_as_str ` selection"
proof (rule project_fields_Some [OF assms])
  fix object and view :: "(string \<times> Json) list" and changed
  let ?view = "filter (\<lambda>(key, _). key = ''invocation_id'' \<or> key \<in> PublicField_as_str ` selection) view"
  let ?changed = "filter (\<lambda>x. \<exists>f\<in>selection. x = JString (PublicField_as_str f)) changed"
  let ?object = "set_member ''changed'' (JArray ?changed) (set_member ''view'' (JObject ?view) object)"
  assume "map_of object ''type'' = Some (JString ''update'')" "map_of object ''view'' = Some (JObject view)"
    "map_of object ''changed'' = Some (JArray changed)" "body = to_vec (JObject ?object)"
  then have "body = to_vec (JObject ?object) \<and> map_of ?object ''type'' = Some (JString ''update'')
      \<and> map_of ?object ''view'' = Some (JObject ?view) \<and> map_of ?object ''changed'' = Some (JArray ?changed)"
    by (simp add: map_of_set_member)
  moreover have "fst ` set ?view \<subseteq> insert ''invocation_id'' (PublicField_as_str ` selection)"
      "set ?changed \<subseteq> JString ` PublicField_as_str ` selection" by auto
  ultimately show ?thesis by blast
qed

definition sample_json :: Json where
  "sample_json = JObject [(''type'', JString ''update''),
     (''view'', JObject [(''invocation_id'', JString ''i''), (''cwd'', JString ''/''), (''status'', JString ''idle'')]),
     (''changed'', JArray [JString ''cwd'', JString ''status''])]"

theorem selection_confines_body_witness:
  "\<exists>object view changed. project_fields (\<lambda>_. Some sample_json) (\<lambda>_. [7]) [1] {FStatus} = Some [7]
     \<and> map_of object ''view'' = Some (JObject view) \<and> map_of object ''changed'' = Some (JArray changed)
     \<and> fst ` set view \<subseteq> {''invocation_id'', ''status''} \<and> set changed \<subseteq> {JString ''status''}"
proof -
  have p: "project_fields (\<lambda>_. Some sample_json) (\<lambda>_. [7]) [1] {FStatus} = Some [7]"
    by (simp add: project_fields_def sample_json_def set_member_def)
  with selection_confines_body [OF p] show ?thesis
    unfolding image_insert image_empty PublicField_as_str.simps by blast
qed

text \<open>
  A configuration that passes validation starts: every enabled sink is built, no other is,
  and exactly the hub sinks work from a baseline.
\<close>

theorem validated_config_builds_sinks:
  assumes "Config_validate parse_url parse_ip c = Inr ()"
  shows "\<exists>sinks. build_sinks parse_url parse_ip (cf_sinks c) = Inr sinks
    \<and> map (\<lambda>(n, s). (n, needs_baseline s)) sinks =
        map (\<lambda>(n, s). (n, is_hub s)) (filter (\<lambda>(n, s). SinkConfig_enabled s) (cf_sinks c))"
  using assms validated_sinks_build by (auto simp: Config_validate_def result_bind_Inr)

theorem validated_config_builds_sinks_witness:
  "\<exists>sinks. build_sinks sample_url sample_ip (cf_sinks sample_config) = Inr sinks \<and> map fst sinks = [''hub'']"
  using validated_config_builds_sinks [OF sample_config_valid]
  by (auto simp: sample_config_def sample_hub_sink_def)

end
