(* ===== verification/Adapters.thy ===== *)
theory Adapters
  imports Paths Json Reducer
begin

text \<open>
  The shared functions of the adapters: \<^verbatim>\<open>sessiontap-adapters/src/lib.rs\<close>. What they ask of the
  platform is a record of functions: the Unicode table behind \<^verbatim>\<open>char::is_alphanumeric\<close>, the file
  system, chrono's RFC 3339 reader, serde's JSON reader and the floating-point conversion of a
  fraction to a percentage. \<open>platform_ok\<close> names what is relied on: a control character is not
  alphanumeric, a value that was read is a value, and a JSON string is shorter than its text,
  which has the quotes besides.
\<close>

record Platform =
  pf_is_alphanumeric :: "nat \<Rightarrow> bool"
  pf_canonicalize :: "string \<Rightarrow> string option"
  pf_exists :: "string \<Rightarrow> bool"
  pf_is_regular :: "string \<Rightarrow> bool"
  pf_read_bounded :: "string \<Rightarrow> string option"
  pf_from_str :: "string \<Rightarrow> Json option"
  pf_parse_rfc3339 :: "string \<Rightarrow> timestamp option"
  pf_fraction_percent :: "Number \<Rightarrow> u8 option"

definition platform_ok :: "Platform \<Rightarrow> bool" where
  "platform_ok pf \<longleftrightarrow>
     (\<forall>c. pf_is_alphanumeric pf c \<longrightarrow> \<not> is_control c)
     \<and> (\<forall>s v. pf_from_str pf s = Some v \<longrightarrow> json_valid v)
     \<and> (\<forall>s t. pf_from_str pf s = Some (JString t) \<longrightarrow> length t < length s)"

section \<open>Arguments\<close>

definition FLAGS :: "string list" where
  "FLAGS = [''--api-key'', ''--token'', ''--password'', ''--secret'', ''--authorization'', ''-p'']"

definition REDACTED :: string where
  "REDACTED = ''[REDACTED]''"

fun redact_from :: "bool \<Rightarrow> string list \<Rightarrow> string list" where
  "redact_from redact_next [] = []"
| "redact_from redact_next (arg # args) =
     (if redact_next then REDACTED # redact_from False args
      else let lower = to_ascii_lowercase arg
        in if lower \<in> set FLAGS then arg # redact_from True args
        else if list_ex (\<lambda>f. starts_with lower (f @ ''='')) FLAGS
        then (hd (split_on (CHR ''='') arg) @ ''=[REDACTED]'') # redact_from False args
        else if contains lower ''sk-'' \<or> contains lower ''bearer ''
        then REDACTED # redact_from False args
        else arg # redact_from False args)"

definition redact_args :: "string list \<Rightarrow> string list" where
  "redact_args args = redact_from False args"

section \<open>Text\<close>

text \<open>
  Terminal escape sequences are dropped up to their final letter and other control characters
  become spaces; \<open>escaped\<close> is the state of the closure.
\<close>

fun strip_escapes :: "bool \<Rightarrow> nat list \<Rightarrow> nat list" where
  "strip_escapes escaped [] = []"
| "strip_escapes escaped (c # cs) =
     (if c = 27 then strip_escapes True cs
      else if escaped then strip_escapes (\<not> is_ascii_alphabetic c) cs
      else (if is_control c then 32 else c) # strip_escapes False cs)"

definition sanitize_bounded :: "string \<Rightarrow> nat \<Rightarrow> string option" where
  "sanitize_bounded value max_chars =
     (let clean = join [32] (words_of (strip_escapes False (chars value)))
      in if clean \<noteq> [] \<and> length clean \<le> max_chars then Some (utf8 clean) else None)"

fun field :: "Json \<Rightarrow> string list \<Rightarrow> string option" where
  "field raw [] = None"
| "field raw (name # names) = or_else (get_str name raw) (field raw names)"

definition bounded_field :: "Json \<Rightarrow> string list \<Rightarrow> nat \<Rightarrow> string option" where
  "bounded_field raw names max_chars =
     Option.bind (field raw names) (\<lambda>value. sanitize_bounded value max_chars)"

definition STATUS_EXCERPT_MAX_CHARS :: nat where "STATUS_EXCERPT_MAX_CHARS = 100"

fun excerpt_from :: "bool \<Rightarrow> bool \<Rightarrow> nat list \<Rightarrow> nat list \<Rightarrow> nat list" where
  "excerpt_from escaped pending_space clean [] = clean"
| "excerpt_from escaped pending_space clean (ch # cs) =
     (if ch = 27 then excerpt_from True pending_space clean cs
      else if escaped then excerpt_from (\<not> is_ascii_alphabetic ch) pending_space clean cs
      else if is_control ch \<or> is_whitespace ch then excerpt_from False (clean \<noteq> []) clean cs
      else excerpt_from False False
        ((if pending_space \<and> \<not> ends_with clean [32] then clean @ [32] else clean) @ [ch]) cs)"

definition status_excerpt :: "string \<Rightarrow> string option" where
  "status_excerpt value =
     (let clean = excerpt_from False False [] (chars value);
          out = trim_matches is_whitespace (take STATUS_EXCERPT_MAX_CHARS clean)
      in if out = [] then None else Some (utf8 out))"

definition BoundedDiagnostic_new :: "string \<Rightarrow> string" where
  "BoundedDiagnostic_new message = utf8 (take 240 (filter (\<lambda>c. \<not> is_control c) (chars message)))"

section \<open>Tool activity\<close>

record ToolDetailPolicy =
  dp_described_tools :: "string list"
  dp_path_tools :: "string list"
  dp_path_fields :: "string list"

fun label_loop :: "nat list \<Rightarrow> nat list \<Rightarrow> nat list option" where
  "label_loop normalized [] = Some normalized"
| "label_loop normalized (ch # cs) =
     (if is_ascii_alphanumeric ch then label_loop (normalized @ [lower_ascii ch]) cs
      else if ch \<in> {95, 45, 32, 58, 46} \<and> \<not> ends_with normalized [95]
      then label_loop (normalized @ [95]) cs
      else None)"

definition tool_alias :: "string \<Rightarrow> string" where
  "tool_alias label =
     (if label \<in> {''bash'', ''shell'', ''shell_command'', ''run_shell_command''} then ''shell''
      else if label \<in> {''read'', ''read_file''} then ''read_file''
      else if label \<in> {''write'', ''write_file''} then ''write_file''
      else if label \<in> {''edit'', ''edit_file'', ''replace''} then ''edit_file''
      else label)"

definition normalized_tool_label :: "string \<Rightarrow> string option" where
  "normalized_tool_label value =
     Option.bind (sanitize_bounded value TOOL_LABEL_MAX_CHARS) (\<lambda>clean.
     Option.bind (label_loop [] (chars clean)) (\<lambda>normalized.
       let label = trim_matches (\<lambda>c. c = 95) normalized
       in if label = [] then None else Some (tool_alias (utf8 label))))"

definition safe_scalar_detail :: "string \<Rightarrow> string option" where
  "safe_scalar_detail value =
     Option.bind (sanitize_bounded value TOOL_DETAIL_MAX_CHARS) (\<lambda>value.
       let lower = to_ascii_lowercase value
       in if \<not> contains lower ''http://'' \<and> \<not> contains lower ''https://''
             \<and> \<not> contains lower ''token='' \<and> \<not> contains lower ''password=''
             \<and> \<not> contains lower ''authorization:'' \<and> \<not> contains lower ''sk-''
          then Some value else None)"

definition resolve_target :: "Platform \<Rightarrow> string \<Rightarrow> string option" where
  "resolve_target pf candidate =
     (if pf_exists pf candidate then pf_canonicalize pf candidate
      else Option.bind (path_parent candidate) (\<lambda>up.
           Option.bind (pf_canonicalize pf up) (\<lambda>parent.
             map_option (path_join parent) (file_name candidate))))"

text \<open>\<^verbatim>\<open>Path::to_str\<close>.\<close>

definition to_str :: "string \<Rightarrow> string option" where
  "to_str p = (if valid_utf8 p then Some p else None)"

definition workspace_relative_target :: "Platform \<Rightarrow> string \<Rightarrow> string \<Rightarrow> string option" where
  "workspace_relative_target pf workspace target =
     Option.bind (pf_canonicalize pf workspace) (\<lambda>workspace.
       let candidate = (if is_absolute target then target else path_join workspace target)
       in if ParentDir \<in> set (components candidate) then None
          else Option.bind (resolve_target pf candidate) (\<lambda>resolved.
               Option.bind (path_strip_prefix resolved workspace) (\<lambda>relative.
               Option.bind (to_str relative) safe_scalar_detail)))"

definition activity_detail ::
    "Platform \<Rightarrow> string \<Rightarrow> Json \<Rightarrow> ToolDetailPolicy \<Rightarrow> string option \<Rightarrow> string option" where
  "activity_detail pf tool input policy workspace =
     (let described = (if tool \<in> set (dp_described_tools policy)
            then Option.bind (get_str ''description'' input) safe_scalar_detail else None)
      in case described of
           Some value \<Rightarrow> Some value
         | None \<Rightarrow>
             if tool \<notin> set (dp_path_tools policy) then None
             else Option.bind (field input (dp_path_fields policy)) (\<lambda>target.
                  Option.bind workspace (\<lambda>workspace. workspace_relative_target pf workspace target)))"

definition tool_activity ::
    "Platform \<Rightarrow> ToolActivityPhase \<Rightarrow> string \<Rightarrow> string option \<Rightarrow> Json option \<Rightarrow> ToolDetailPolicy
     \<Rightarrow> string option \<Rightarrow> ToolActivityUpdate option" where
  "tool_activity pf phase raw_label correlation_id input policy workspace =
     map_option (\<lambda>label.
       \<lparr>tu_phase = phase, tu_label = label, tu_correlation_id = correlation_id,
        tu_detail = Option.bind input (\<lambda>input.
          if as_object input = None then None
          else activity_detail pf raw_label input policy workspace)\<rparr>)
       (normalized_tool_label raw_label)"

section \<open>Metadata\<close>

definition effort_level :: "string \<Rightarrow> string option" where
  "effort_level value =
     (if value \<in> {''off'', ''minimal'', ''low'', ''medium'', ''high'', ''max'', ''xhigh''}
      then Some value else None)"

definition filter_opt :: "('a \<Rightarrow> bool) \<Rightarrow> 'a option \<Rightarrow> 'a option" where
  "filter_opt p x = Option.bind x (\<lambda>v. if p v then Some v else None)"

definition provider_metadata :: "Json \<Rightarrow> string option \<Rightarrow> ProviderMetadata option" where
  "provider_metadata raw alternate_turn_field =
     (let metadata =
        \<lparr>pm_model = bounded_field raw [''model''] 160,
         pm_model_label = None,
         pm_effort = Option.bind (Option.bind (get ''effort'' raw)
             (\<lambda>v. as_str (unwrap_or (get ''level'' v) v))) effort_level,
         pm_permission_mode = filter_opt (\<lambda>v. v \<in> {''default'', ''acceptEdits'', ''auto'',
             ''auto_edit'', ''plan'', ''yolo'', ''dontAsk'', ''bypassPermissions''})
             (bounded_field raw [''permission_mode''] 32),
         pm_current_turn_id = Option.bind (Option.bind
             (or_else (get ''turn_id'' raw)
                (Option.bind alternate_turn_field (\<lambda>field. get field raw))) as_str)
             (\<lambda>v. sanitize_bounded v 128)\<rparr>
      in if metadata = ProviderMetadata_default then None else Some metadata)"

section \<open>Status reasons\<close>

definition COMMAND_ALIASES :: "string list" where
  "COMMAND_ALIASES = [''bash'', ''shell'', ''exec_command'', ''run_shell_command'', ''command'']"

fun tool_label_loop :: "(nat \<Rightarrow> bool) \<Rightarrow> bool \<Rightarrow> nat list \<Rightarrow> nat list \<Rightarrow> nat list" where
  "tool_label_loop alnum separator label [] = label"
| "tool_label_loop alnum separator label (ch # cs) =
     (let label' = (if alnum ch
            then (if separator \<and> label \<noteq> [] then label @ [45] else label) @ [ch] else label)
      in if 24 \<le> length label' then label' else tool_label_loop alnum (\<not> alnum ch) label' cs)"

definition tool_label :: "Platform \<Rightarrow> Json \<Rightarrow> string option" where
  "tool_label pf raw =
     Option.bind (field raw [''tool_name'', ''tool'', ''name'']) (\<lambda>raw.
       let lower = to_ascii_lowercase raw
       in if contains lower ''apply_patch'' \<or> contains lower ''applypatch'' \<or> lower = ''patch''
          then Some ''patch''
          else if list_ex (\<lambda>name. lower = name \<or> ends_with lower (''__'' @ name)) COMMAND_ALIASES
          then Some ''bash''
          else let label = trim_matches (\<lambda>c. c = 45)
                     (tool_label_loop (pf_is_alphanumeric pf) False [] (chars lower))
            in if label = [] then None else Some (utf8 label))"

definition reason :: "StatusReasonSource \<Rightarrow> string \<Rightarrow> StatusReasonContext" where
  "reason source summary = \<lparr>sc_summary = summary, sc_source = source\<rparr>"

definition first_question :: "Json \<Rightarrow> string option" where
  "first_question v = Option.bind (Option.bind (get ''questions'' v) as_array) (\<lambda>qs.
     case qs of [] \<Rightarrow> None | q # _ \<Rightarrow> get_str ''question'' q)"

definition status_reason_context :: "Platform \<Rightarrow> Json \<Rightarrow> bool \<Rightarrow> StatusReasonContext option" where
  "status_reason_context pf raw input =
     (let args = or_else (get ''tool_input'' raw)
                   (or_else (get ''arguments'' raw) (get ''input'' raw));
          of_args = (\<lambda>names. Option.bind args (\<lambda>v. field v names))
      in if input then
           let question = or_else (field raw [''question'']) (or_else (of_args [''question''])
                 (or_else (Option.bind args first_question)
                 (or_else (field raw [''prompt'']) (of_args [''prompt'']))))
           in case Option.bind question status_excerpt of
                Some summary \<Rightarrow> Some (reason Question summary)
              | None \<Rightarrow>
                 (case Option.bind (or_else (field raw [''message'']) (of_args [''message'']))
                         status_excerpt of
                    Some summary \<Rightarrow> Some (reason Question summary)
                  | None \<Rightarrow> Some (reason GenericInput ''Input requested''))
         else Option.bind (tool_label pf raw) (\<lambda>label.
           case Option.bind (or_else (field raw [''description'']) (of_args [''description'']))
                  status_excerpt of
             Some description \<Rightarrow> Some (reason Description (label @ '' '' @ description))
           | None \<Rightarrow>
              (case Option.bind (of_args [''command'', ''cmd'']) status_excerpt of
                 Some command \<Rightarrow> Some (reason Command (label @ '' '' @ command))
               | None \<Rightarrow> Some (reason ToolName label))))"

definition completed_reason_context :: "Json \<Rightarrow> StatusReasonContext option" where
  "completed_reason_context raw =
     map_option (reason AssistantMessage)
       (Option.bind (get_str ''last_assistant_message'' raw) status_excerpt)"

definition failed_reason_context :: "Json \<Rightarrow> StatusReasonContext option" where
  "failed_reason_context raw =
     (let category = to_ascii_lowercase
            (unwrap_or (field raw [''error_category'', ''failure_category'', ''reason'']) [])
      in map_option (reason FailureCategory)
          (if contains category ''auth'' then Some ''Authentication failed''
           else if contains category ''permission'' \<or> contains category ''denied''
           then Some ''Permission denied''
           else if contains category ''rate'' then Some ''Rate limited''
           else if contains category ''timeout'' then Some ''Timed out''
           else if contains category ''tool'' then Some ''Tool error''
           else None))"

end
