(* ===== verification/Adapters_Lemmas.thy ===== *)
theory Adapters_Lemmas
  imports Adapters
begin

text \<open>
  What the shared functions of the adapters produce: text that is valid UTF-8, non-empty, bounded
  and free of control characters (\<open>clean_text\<close>), and the normal form behind \<open>sanitize_bounded\<close>
  and \<open>status_excerpt\<close>: the words of the text joined by single spaces (\<open>squeezed\<close>).
\<close>

section \<open>Encoded text\<close>

definition clean_text :: "nat \<Rightarrow> string \<Rightarrow> bool" where
  "clean_text m s \<longleftrightarrow> valid_utf8 s \<and> normalized_text m s"

definition printable :: "nat \<Rightarrow> bool" where
  "printable c \<longleftrightarrow> scalar c \<and> \<not> is_control c"

named_theorems clean_intros \<open>results that are clean text\<close>

lemma valid_utf8_utf8: "list_all scalar cs \<Longrightarrow> valid_utf8 (utf8 cs)"
  by (simp add: valid_utf8_def chars_utf8)

lemma utf8_eq_Nil [simp]: "utf8 cs = [] \<longleftrightarrow> cs = []"
  by (cases cs) (auto simp: utf8_def encode_utf8_def)

lemma chars_utf8_append: "list_all scalar cs \<Longrightarrow> chars (utf8 cs @ s) = cs @ chars s"
  by (induction cs) (simp_all add: utf8_def chars_encode)

lemma chars_append: "valid_utf8 a \<Longrightarrow> chars (a @ b) = chars a @ chars b"
  using chars_utf8_append [of "chars a" b] by (simp add: valid_utf8_def)

lemma valid_utf8_append: "valid_utf8 a \<Longrightarrow> valid_utf8 b \<Longrightarrow> valid_utf8 (a @ b)"
  by (simp add: valid_utf8_def chars_append utf8_append)

lemma clean_text_utf8:
  "list_all printable cs \<Longrightarrow> cs \<noteq> [] \<Longrightarrow> length cs \<le> m \<Longrightarrow> clean_text m (utf8 cs)"
  by (auto simp: clean_text_def normalized_text_def printable_def has_control_def list_all_iff
      list_ex_iff chars_utf8 valid_utf8_utf8)

lemma clean_text_mono: "clean_text m s \<Longrightarrow> m \<le> n \<Longrightarrow> clean_text n s"
  by (auto simp: clean_text_def normalized_text_def)

lemma clean_text_valid: "clean_text m s \<Longrightarrow> valid_utf8 s"
  by (simp add: clean_text_def)

lemma clean_text_words:
  "clean_text m a \<Longrightarrow> clean_text n b \<Longrightarrow> clean_text (m + n + 1) (a @ '' '' @ b)"
proof -
  assume a: "clean_text m a" and b: "clean_text n b"
  have "chars ('' '' @ b) = 32 # chars b"
    using chars_ascii_append [of "'' ''" b] by (simp add: ascii_def byte_def)
  moreover have "valid_utf8 ('' '' @ b)"
    using b valid_utf8_append [of "'' ''" b] valid_utf8_ascii [of "'' ''"]
    by (simp add: ascii_def byte_def clean_text_def)
  moreover have "chars (a @ '' '' @ b) = chars a @ chars ('' '' @ b)"
    using a by (intro chars_append) (simp add: clean_text_def)
  ultimately show ?thesis
    using a b valid_utf8_append [of a "'' '' @ b"]
    by (auto simp: clean_text_def normalized_text_def has_control_def is_control_def)
qed

lemma chars_printable: "clean_text m s \<Longrightarrow> list_all printable (chars s)"
  by (auto simp: clean_text_def normalized_text_def has_control_def printable_def valid_utf8_def
      list_all_iff list_ex_iff)

section \<open>Lower case\<close>

lemma to_ascii_lowercase_append:
  "to_ascii_lowercase (a @ b) = to_ascii_lowercase a @ to_ascii_lowercase b"
  by (simp add: to_ascii_lowercase_def)

lemma to_ascii_lowercase_high: "\<forall>c \<in> set s. 128 \<le> byte c \<Longrightarrow> to_ascii_lowercase s = s"
  by (auto simp: to_ascii_lowercase_def intro!: map_idI)

lemma to_ascii_lowercase_encode:
  assumes "scalar c"
  shows "to_ascii_lowercase (encode_utf8 c) = encode_utf8 (lower_ascii c)"
proof (cases "c < 128")
  case True
  then show ?thesis
    by (auto simp: to_ascii_lowercase_def encode_utf8_def lower_ascii_def byte_char_of)
next
  case False
  have "\<forall>d \<in> set (encode_utf8 c). 128 \<le> byte d"
    using assms False by (auto simp: encode_utf8_def scalar_def byte_char_of)
  with False show ?thesis
    by (simp add: to_ascii_lowercase_high lower_ascii_def)
qed

lemma to_ascii_lowercase_utf8:
  "list_all scalar cs \<Longrightarrow> to_ascii_lowercase (utf8 cs) = utf8 (map lower_ascii cs)"
proof (induction cs)
  case Nil
  then show ?case by (simp add: to_ascii_lowercase_def utf8_def)
next
  case (Cons c cs)
  then show ?case
    by (simp add: utf8_def to_ascii_lowercase_append to_ascii_lowercase_encode)
qed

lemma chars_to_ascii_lowercase:
  "valid_utf8 s \<Longrightarrow> chars (to_ascii_lowercase s) = map lower_ascii (chars s)"
  using to_ascii_lowercase_utf8 [of "chars s"] chars_utf8 [of "map lower_ascii (chars s)"]
  by (simp add: valid_utf8_def list_all_iff)

text \<open>The rules that compute the text functions on literals.\<close>

lemmas text_eval = byte_def char_width_def lead_bits_def low6_def is_whitespace_def is_control_def
  is_ascii_alphanumeric_def is_ascii_digit_def is_ascii_alphabetic_def lower_ascii_def
  ends_with_def starts_with_def trim_matches_def utf8_def encode_utf8_def char_of_def words_of_def
  to_ascii_lowercase_def

section \<open>Squeezed text\<close>

definition squeezed :: "nat list \<Rightarrow> nat list" where
  "squeezed cs = join [32] (words_of (strip_escapes False cs))"

lemma strip_escapes_printable:
  "list_all scalar cs \<Longrightarrow> list_all printable (strip_escapes escaped cs)"
  by (induction escaped cs rule: strip_escapes.induct)
    (auto simp: printable_def is_control_def scalar_def)

lemma squeezed_printable: "list_all scalar cs \<Longrightarrow> list_all printable (squeezed cs)"
proof -
  assume "list_all scalar cs"
  then have "\<forall>c \<in> set (strip_escapes False cs). printable c"
    using strip_escapes_printable by (simp add: list_all_iff)
  moreover have "printable 32" by (simp add: printable_def scalar_def is_control_def)
  ultimately show ?thesis
    using set_join [of "[32]" "words_of (strip_escapes False cs)"] words_of_set
    by (fastforce simp: squeezed_def list_all_iff)
qed

lemma strip_escapes_id: "list_all printable cs \<Longrightarrow> strip_escapes False cs = cs"
  by (induction cs) (auto simp: printable_def is_control_def)

lemma squeezed_idem: "list_all scalar cs \<Longrightarrow> squeezed (squeezed cs) = squeezed cs"
  using strip_escapes_id [OF squeezed_printable] words_of_join [OF words_of_words]
  by (simp add: squeezed_def)

lemma sanitize_bounded_eq:
  "sanitize_bounded value m =
     (let clean = squeezed (chars value)
      in if clean \<noteq> [] \<and> length clean \<le> m then Some (utf8 clean) else None)"
  by (simp add: sanitize_bounded_def squeezed_def)

lemma sanitize_bounded_clean [clean_intros]:
  "valid_utf8 value \<Longrightarrow> sanitize_bounded value m = Some s \<Longrightarrow> clean_text m s"
  using clean_text_utf8 squeezed_printable
  by (auto simp: sanitize_bounded_eq Let_def valid_utf8_def split: if_splits)

lemma join_snoc: "join sep (ws @ [w]) = (if ws = [] then w else join sep ws @ sep @ w)"
  by (induction sep ws rule: join.induct) auto

lemma join_words_last:
  assumes "list_all is_word ws" "ws \<noteq> []"
  shows "\<not> ends_with (join [32] ws) [32]"
proof -
  obtain vs w where ws: "ws = vs @ [w]" using assms(2) by (metis rev_exhaust)
  with assms(1) obtain u c where "w = u @ [c]" "c \<noteq> 32"
    by (cases w rule: rev_cases) (auto simp: is_word_def is_whitespace_def)
  then show ?thesis
    by (auto simp: ws join_snoc ends_with_def starts_with_def)
qed

lemma squeezed_ends:
  assumes "squeezed cs \<noteq> []"
  shows "\<not> is_whitespace (hd (squeezed cs))" "\<not> is_whitespace (last (squeezed cs))"
proof -
  define ws where "ws = words_of (strip_escapes False cs)"
  have ws: "list_all is_word ws" "ws \<noteq> []"
    using assms words_of_words by (auto simp: squeezed_def ws_def)
  obtain v vs where v: "ws = v # vs" using ws(2) by (cases ws) auto
  have "hd (join [32] ws) = hd v" using ws(1) by (cases vs) (auto simp: v is_word_def)
  moreover obtain us u where u: "ws = us @ [u]" using ws(2) by (metis rev_exhaust)
  then have "last (join [32] ws) = last u" using ws(1) by (auto simp: join_snoc is_word_def)
  moreover have "is_word v" using ws(1) v by simp
  moreover have "is_word u" using ws(1) u by simp
  ultimately show "\<not> is_whitespace (hd (squeezed cs))" "\<not> is_whitespace (last (squeezed cs))"
    by (auto simp: squeezed_def is_word_def list_all_iff simp flip: ws_def)
qed

text \<open>
  The scan of \<open>status_excerpt\<close> builds the squeezed text: \<open>ws\<close> are the words already closed and
  \<open>cur\<close> the one being read.
\<close>

lemma excerpt_from_words:
  assumes "list_all is_word ws" "list_all (\<lambda>c. \<not> is_whitespace c) cur"
  shows "excerpt_from escaped (cur = [] \<and> ws \<noteq> []) (join [32] (ws @ (if cur = [] then [] else [cur]))) cs
    = join [32] (ws @ words_from cur (strip_escapes escaped cs))"
  using assms
proof (induction escaped cs arbitrary: ws cur rule: strip_escapes.induct)
  case (2 escaped c cs)
  show ?case
  proof (cases "c = 27 \<or> escaped")
    case True
    then show ?thesis using 2 by auto
  next
    case False
    define ws' where "ws' = ws @ (if cur = [] then [] else [cur])"
    have ws': "list_all is_word ws'"
      using 2(4,5) by (cases "cur = []") (simp_all add: ws'_def is_word_def [of cur])
    show ?thesis
    proof (cases "is_control c \<or> is_whitespace c")
      case True
      have "excerpt_from escaped (cur = [] \<and> ws \<noteq> []) (join [32] ws') (c # cs)
          = excerpt_from False (ws' \<noteq> []) (join [32] ws') cs"
        using True False join_eq_Nil [OF ws'] by simp
      also have "\<dots> = join [32] (ws' @ words_from [] (strip_escapes False cs))"
        using "2.IH"(3) [OF _ _ ws', of "[]"] False by simp
      finally show ?thesis using True False by (auto simp: ws'_def)
    next
      case ordinary: False
      have "excerpt_from escaped (cur = [] \<and> ws \<noteq> []) (join [32] ws') (c # cs)
          = excerpt_from False False (join [32] (ws @ [cur @ [c]])) cs"
        using False ordinary join_words_last [of ws] 2(4)
        by (cases "cur = []"; cases "ws = []") (auto simp: ws'_def join_snoc)
      also have "\<dots> = join [32] (ws @ words_from (cur @ [c]) (strip_escapes False cs))"
        using "2.IH"(3) [of ws "cur @ [c]"] 2(4,5) False ordinary by simp
      finally show ?thesis using ordinary False by (simp add: ws'_def)
    qed
  qed
qed auto

lemma excerpt_squeezed: "excerpt_from False False [] cs = squeezed cs"
  using excerpt_from_words [of "[]" "[]" False cs] by (simp add: squeezed_def words_of_def)

lemma status_excerpt_eq:
  "status_excerpt value =
     (let out = trim_matches is_whitespace (take STATUS_EXCERPT_MAX_CHARS (squeezed (chars value)))
      in if out = [] then None else Some (utf8 out))"
  by (simp add: status_excerpt_def excerpt_squeezed)

lemma status_excerpt_clean [clean_intros]:
  assumes "valid_utf8 value" "status_excerpt value = Some s"
  shows "clean_text 100 s"
proof -
  define out where "out = trim_matches is_whitespace (take STATUS_EXCERPT_MAX_CHARS (squeezed (chars value)))"
  have "list_all printable (squeezed (chars value))"
    using assms(1) squeezed_printable by (simp add: valid_utf8_def)
  then have "list_all printable out"
    using set_trim_matches [of is_whitespace "take STATUS_EXCERPT_MAX_CHARS (squeezed (chars value))"]
      set_take_subset [of STATUS_EXCERPT_MAX_CHARS "squeezed (chars value)"]
    by (auto simp: out_def list_all_iff)
  moreover have "length out \<le> 100"
    using length_trim_matches [of is_whitespace "take STATUS_EXCERPT_MAX_CHARS (squeezed (chars value))"]
    by (simp add: out_def STATUS_EXCERPT_MAX_CHARS_def)
  moreover have "out \<noteq> []" "s = utf8 out"
    using assms(2) by (simp_all add: status_excerpt_eq Let_def flip: out_def split: if_splits)
  ultimately show ?thesis using clean_text_utf8 by blast
qed

section \<open>Labels and details\<close>

lemma field_valid: "json_valid raw \<Longrightarrow> field raw names = Some s \<Longrightarrow> valid_utf8 s"
  by (induction names) (auto simp: or_else_def json_valid_get_str split: option.splits)

lemma bounded_field_clean [clean_intros]:
  "json_valid raw \<Longrightarrow> bounded_field raw names m = Some s \<Longrightarrow> clean_text m s"
  by (auto simp: bounded_field_def bind_eq_Some_conv dest: field_valid sanitize_bounded_clean)

lemma label_loop_chars:
  "label_loop acc cs = Some out \<Longrightarrow> list_all printable acc \<Longrightarrow>
     list_all printable out \<and> length out = length acc + length cs"
proof (induction acc cs rule: label_loop.induct)
  case (2 acc ch cs)
  have "printable 95" by (simp add: printable_def scalar_def is_control_def)
  moreover have "printable (lower_ascii ch)" if "is_ascii_alphanumeric ch"
    using that by (auto simp: printable_def scalar_def is_control_def lower_ascii_def
        is_ascii_alphanumeric_def is_ascii_digit_def is_ascii_alphabetic_def)
  ultimately show ?case using 2 by (auto split: if_splits)
qed simp

lemma clean_ascii:
  assumes "list_all (\<lambda>c. 32 \<le> byte c \<and> byte c < 127) s" "s \<noteq> []" "length s \<le> m"
  shows "clean_text m s"
proof -
  have "ascii s" using assms(1) by (auto simp: ascii_def list_all_iff)
  with assms show ?thesis
    by (auto simp: clean_text_def normalized_text_def valid_utf8_ascii chars_ascii has_control_def
        is_control_def list_all_iff list_ex_iff)
qed

lemma tool_alias_clean: "clean_text 64 label \<Longrightarrow> clean_text 64 (tool_alias label)"
  by (simp add: tool_alias_def clean_ascii byte_def)

lemma normalized_tool_label_clean [clean_intros]:
  assumes "valid_utf8 value" "normalized_tool_label value = Some label"
  shows "clean_text 64 label"
proof -
  obtain clean normalized where
      clean: "sanitize_bounded value 64 = Some clean"
    and loop: "label_loop [] (chars clean) = Some normalized"
    and label: "trim_matches (\<lambda>c. c = 95) normalized \<noteq> []"
      "label = tool_alias (utf8 (trim_matches (\<lambda>c. c = 95) normalized))"
    using assms(2) by (auto simp: normalized_tool_label_def bind_eq_Some_conv Let_def
        TOOL_LABEL_MAX_CHARS_def split: if_splits)
  have "length (chars clean) \<le> 64"
    using sanitize_bounded_clean [OF assms(1) clean] by (simp add: clean_text_def normalized_text_def)
  then have "list_all printable normalized" "length normalized \<le> 64"
    using label_loop_chars [OF loop] by simp_all
  then have "list_all printable (trim_matches (\<lambda>c. c = 95) normalized)"
      "length (trim_matches (\<lambda>c. c = 95) normalized) \<le> 64"
    using set_trim_matches [of "\<lambda>c. c = 95" normalized]
      length_trim_matches [of "\<lambda>c. c = 95" normalized] by (auto simp: list_all_iff)
  with label show ?thesis using tool_alias_clean clean_text_utf8 by simp
qed

lemma safe_scalar_detail_clean [clean_intros]:
  "valid_utf8 value \<Longrightarrow> safe_scalar_detail value = Some s \<Longrightarrow> clean_text 160 s"
  by (auto simp: safe_scalar_detail_def bind_eq_Some_conv Let_def TOOL_DETAIL_MAX_CHARS_def
      split: if_splits intro: clean_intros)

lemma workspace_relative_target_clean [clean_intros]:
  "workspace_relative_target pf workspace target = Some s \<Longrightarrow> clean_text 160 s"
  by (auto simp: workspace_relative_target_def bind_eq_Some_conv Let_def to_str_def
      split: if_splits intro: clean_intros)

lemma activity_detail_clean [clean_intros]:
  "json_valid input \<Longrightarrow> activity_detail pf tool input policy workspace = Some s \<Longrightarrow> clean_text 160 s"
  by (auto simp: activity_detail_def bind_eq_Some_conv Let_def
      split: if_splits option.splits intro: clean_intros json_valid_get_str)

lemmas tool_bounds = TOOL_LABEL_MAX_CHARS_def TOOL_CORRELATION_ID_MAX_CHARS_def
  TOOL_DETAIL_MAX_CHARS_def

text \<open>
  A label in normal form: lower-case letters and digits, single underscores between them. The
  flag says that an underscore may not follow.
\<close>

fun plain_from :: "bool \<Rightarrow> nat list \<Rightarrow> bool" where
  "plain_from closed [] = (\<not> closed)"
| "plain_from closed (c # cs) =
     (if c = 95 then \<not> closed \<and> plain_from True cs
      else is_ascii_alphanumeric c \<and> lower_ascii c = c \<and> plain_from False cs)"

lemma sanitize_bounded_word:
  assumes "list_all (\<lambda>c. 33 \<le> byte c \<and> byte c < 127) s" "s \<noteq> []"
  shows "sanitize_bounded s m = (if length s \<le> m then Some s else None)"
proof -
  have s: "ascii s" using assms(1) by (auto simp: ascii_def list_all_iff)
  then have "list_all printable (chars s)"
    using assms(1) by (auto simp: chars_ascii printable_def scalar_def is_control_def list_all_iff)
  then have "squeezed (chars s) = join [32] (words_of (chars s))"
    by (simp add: squeezed_def strip_escapes_id)
  moreover have "words_of (chars s) = [chars s]"
    using words_of_join [of "[chars s]"] assms s
    by (fastforce simp: is_word_def chars_ascii is_whitespace_def list_all_iff)
  ultimately show ?thesis
    using assms(2) by (simp add: sanitize_bounded_eq chars_ascii [OF s] utf8_ascii [OF s])
qed

lemma label_loop_plain:
  "plain_from closed cs \<Longrightarrow> (ends_with acc [95] \<longrightarrow> closed) \<Longrightarrow> label_loop acc cs = Some (acc @ cs)"
proof (induction closed cs arbitrary: acc rule: plain_from.induct)
  case (2 closed c cs)
  have "ends_with (acc @ [c]) [95] \<longleftrightarrow> c = 95" by (simp add: ends_with_def starts_with_def)
  moreover have "\<not> is_ascii_alphanumeric 95" by (simp add: text_eval)
  ultimately show ?case using 2 by (auto split: if_splits)
qed simp

lemma plain_ends: "plain_from True cs \<Longrightarrow> cs \<noteq> [] \<and> hd cs \<noteq> 95 \<and> last cs \<noteq> 95"
proof -
  have "cs \<noteq> [] \<longrightarrow> last cs \<noteq> 95" if "plain_from closed cs" for closed
    using that by (induction closed cs rule: plain_from.induct) (auto split: if_splits)
  then show "plain_from True cs \<Longrightarrow> ?thesis" by (cases cs) (auto split: if_splits)
qed

lemma trim_matches_id: "cs \<noteq> [] \<Longrightarrow> \<not> p (hd cs) \<Longrightarrow> \<not> p (last cs) \<Longrightarrow> trim_matches p cs = cs"
proof -
  assume "cs \<noteq> []" "\<not> p (hd cs)" "\<not> p (last cs)"
  then have "dropWhile p cs = cs" "dropWhile p (rev cs) = rev cs"
    by (simp_all add: dropWhile_eq_self_iff hd_rev)
  then show ?thesis by (simp add: trim_matches_def)
qed

lemma normalized_tool_label_plain:
  assumes "plain_from True (map byte s)" "length s \<le> 64"
  shows "normalized_tool_label s = Some (tool_alias s)"
proof -
  have "33 \<le> c \<and> c < 127" if "c \<in> set cs" "plain_from closed cs" for c closed cs
    using that by (induction closed cs rule: plain_from.induct)
      (auto simp: is_ascii_alphanumeric_def is_ascii_digit_def is_ascii_alphabetic_def split: if_splits)
  from this [OF _ assms(1)] have "list_all (\<lambda>c. 33 \<le> byte c \<and> byte c < 127) s"
    by (simp add: list_all_iff)
  moreover from this have "ascii s" by (auto simp: ascii_def list_all_iff)
  ultimately show ?thesis
    using assms plain_ends [OF assms(1)] label_loop_plain [OF assms(1), of "[]"]
    by (simp add: normalized_tool_label_def sanitize_bounded_word tool_bounds chars_ascii utf8_ascii
        trim_matches_id ends_with_def starts_with_def)
qed

text \<open>A tool activity the reducer accepts.\<close>

definition bounded_tool :: "ToolActivityUpdate \<Rightarrow> bool" where
  "bounded_tool t \<longleftrightarrow> normalized_text TOOL_LABEL_MAX_CHARS (tu_label t)
     \<and> is_none_or (normalized_text TOOL_CORRELATION_ID_MAX_CHARS) (tu_correlation_id t)
     \<and> is_none_or (normalized_text TOOL_DETAIL_MAX_CHARS) (tu_detail t)"

lemma clean_normalized: "clean_text m s \<Longrightarrow> normalized_text m s"
  by (simp add: clean_text_def)

lemma tool_activity_bounded:
  assumes "tool_activity pf phase name correlation input policy workspace = Some t"
    and "valid_utf8 name" and "\<And>c. correlation = Some c \<Longrightarrow> clean_text 128 c"
    and "\<And>v. input = Some v \<Longrightarrow> json_valid v"
  shows "bounded_tool t"
proof -
  obtain label where label: "normalized_tool_label name = Some label"
    and t: "t = \<lparr>tu_phase = phase, tu_label = label, tu_correlation_id = correlation,
        tu_detail = Option.bind input (\<lambda>input. if as_object input = None then None
          else activity_detail pf name input policy workspace)\<rparr>"
    using assms(1) by (auto simp: tool_activity_def)
  have "clean_text 160 d" if "tu_detail t = Some d" for d
    using that assms(4) activity_detail_clean by (auto simp: t bind_eq_Some_conv split: if_splits)
  then show ?thesis
    using assms(3) normalized_tool_label_clean [OF assms(2) label]
    by (auto simp: bounded_tool_def is_none_or_iff tool_bounds clean_normalized) (simp_all add: t clean_normalized)
qed

section \<open>Status reasons\<close>

text \<open>A reason the reducer accepts.\<close>

definition bounded_reason :: "StatusReasonContext \<Rightarrow> bool" where
  "bounded_reason r \<longleftrightarrow> clean_text STATUS_REASON_MAX_CHARS (sc_summary r)"

lemma reason_summary [simp]: "sc_summary (reason source summary) = summary"
  by (simp add: reason_def)

lemma bounded_reason_clean: "clean_text m summary \<Longrightarrow> m \<le> 128 \<Longrightarrow> bounded_reason (reason source summary)"
  by (auto simp: bounded_reason_def STATUS_REASON_MAX_CHARS_def intro: clean_text_mono)

lemma bounded_reason_bytes:
  assumes "bounded_reason r"
  shows "length (sc_summary r) \<le> STATUS_REASON_MAX_BYTES"
  using assms length_le_chars [of "sc_summary r"]
  by (simp add: bounded_reason_def clean_text_def normalized_text_def STATUS_REASON_MAX_CHARS_def
      STATUS_REASON_MAX_BYTES_def)

lemma tool_label_loop_chars:
  "list_all P cs \<Longrightarrow> length label < 24 \<Longrightarrow> list_all (\<lambda>c. c = 45 \<or> P c \<and> alnum c) label \<Longrightarrow>
     list_all (\<lambda>c. c = 45 \<or> P c \<and> alnum c) (tool_label_loop alnum separator label cs)
     \<and> length (tool_label_loop alnum separator label cs) \<le> 25"
  by (induction alnum separator label cs rule: tool_label_loop.induct) (auto simp: Let_def)

lemma tool_label_clean [clean_intros]:
  assumes pf: "platform_ok pf" and raw: "json_valid raw" and label: "tool_label pf raw = Some label"
  shows "clean_text 25 label"
proof -
  obtain name where name: "field raw [''tool_name'', ''tool'', ''name''] = Some name"
    using label by (auto simp: tool_label_def bind_eq_Some_conv)
  have valid: "valid_utf8 name" using field_valid [OF raw name] .
  let ?cs = "chars (to_ascii_lowercase name)"
  let ?loop = "tool_label_loop (pf_is_alphanumeric pf) False [] ?cs"
  have "list_all scalar ?cs"
    using valid by (simp add: chars_to_ascii_lowercase valid_utf8_def list_all_iff)
  then have "list_all (\<lambda>c. c = 45 \<or> scalar c \<and> pf_is_alphanumeric pf c) ?loop" "length ?loop \<le> 25"
    using tool_label_loop_chars [of scalar ?cs "[]"] by simp_all
  moreover have "printable 45" by (simp add: printable_def scalar_def is_control_def)
  ultimately have "list_all printable (trim_matches (\<lambda>c. c = 45) ?loop)"
      "length (trim_matches (\<lambda>c. c = 45) ?loop) \<le> 25"
    using pf set_trim_matches [of "\<lambda>c. c = 45" ?loop] length_trim_matches [of "\<lambda>c. c = 45" ?loop]
    by (fastforce simp: list_all_iff printable_def platform_ok_def)+
  then show ?thesis
    using label name by (auto simp: tool_label_def Let_def clean_text_utf8 clean_ascii byte_def
        split: if_splits)
qed

lemma json_valid_or_else:
  "json_valid_opt x \<Longrightarrow> json_valid_opt y \<Longrightarrow> json_valid_opt (or_else x y)"
  if "json_valid_opt = is_none_or json_valid"
  using that by (cases x) simp_all

lemma json_valid_get_opt: "json_valid raw \<Longrightarrow> is_none_or json_valid (get key raw)"
  by (auto simp: is_none_or_iff json_valid_get)

text \<open>Text taken from a valid value, through any of the ways the sources look for it.\<close>

definition valid_opt :: "string option \<Rightarrow> bool" where
  "valid_opt x = is_none_or valid_utf8 x"

lemma valid_opt_or_else: "valid_opt x \<Longrightarrow> valid_opt y \<Longrightarrow> valid_opt (or_else x y)"
  by (cases x) (simp_all add: valid_opt_def)

lemma valid_opt_field: "json_valid raw \<Longrightarrow> valid_opt (field raw names)"
  by (auto simp: valid_opt_def is_none_or_iff field_valid)

lemma valid_opt_get_str: "json_valid raw \<Longrightarrow> valid_opt (get_str key raw)"
  by (auto simp: valid_opt_def is_none_or_iff json_valid_get_str)

lemma valid_opt_bind:
  "is_none_or json_valid x \<Longrightarrow> (\<And>v. json_valid v \<Longrightarrow> valid_opt (f v)) \<Longrightarrow> valid_opt (Option.bind x f)"
  by (cases x) (simp_all add: valid_opt_def)

lemma valid_opt_first_question: "json_valid v \<Longrightarrow> valid_opt (first_question v)"
proof -
  assume v: "json_valid v"
  have "valid_utf8 s" if q: "first_question v = Some s" for s
  proof -
    obtain a where a: "get ''questions'' v = Some a" "as_array a \<noteq> None"
      using q by (auto simp: first_question_def bind_eq_Some_conv)
    then obtain x xs where "as_array a = Some (x # xs)" "get_str ''question'' x = Some s"
      using q by (auto simp: first_question_def split: list.splits)
    then show ?thesis
      using json_valid_get [OF v a(1)] json_valid_array [of a "x # xs" x] json_valid_get_str by auto
  qed
  then show ?thesis by (simp add: valid_opt_def is_none_or_iff)
qed

lemma excerpt_of_valid: "valid_opt x \<Longrightarrow> Option.bind x status_excerpt = Some s \<Longrightarrow> clean_text 100 s"
  by (cases x) (auto simp: valid_opt_def intro: clean_intros)

lemmas valid_opt_intros = valid_opt_or_else valid_opt_field valid_opt_get_str valid_opt_bind
  valid_opt_first_question json_valid_or_else [OF refl] json_valid_get_opt

lemma status_reason_context_bounded:
  assumes "platform_ok pf" "json_valid raw" "status_reason_context pf raw input = Some r"
  shows "bounded_reason r"
proof -
  define args where "args = or_else (get ''tool_input'' raw)
    (or_else (get ''arguments'' raw) (get ''input'' raw))"
  have args: "is_none_or json_valid args"
    unfolding args_def using assms(2) by (intro valid_opt_intros)
  have of_args: "valid_opt (Option.bind args (\<lambda>v. field v names))" for names
    using args by (intro valid_opt_intros)
  have question: "clean_text 100 s" if "Option.bind x status_excerpt = Some s" "valid_opt x" for x s
    using that excerpt_of_valid by blast
  show ?thesis
  proof (cases input)
    case True
    let ?q = "or_else (field raw [''question'']) (or_else (Option.bind args (\<lambda>v. field v [''question'']))
       (or_else (Option.bind args first_question)
       (or_else (field raw [''prompt'']) (Option.bind args (\<lambda>v. field v [''prompt''])))))"
    let ?m = "or_else (field raw [''message'']) (Option.bind args (\<lambda>v. field v [''message'']))"
    have "valid_opt ?q"
      using assms(2) args of_args by (intro valid_opt_intros; assumption?)
    moreover have "valid_opt ?m"
      using assms(2) args of_args by (intro valid_opt_intros; assumption?)
    moreover have "clean_text 15 ''Input requested''" by (simp add: clean_ascii byte_def)
    ultimately show ?thesis
      using True assms(3) question [of ?q] question [of ?m]
      by (auto simp: status_reason_context_def Let_def simp flip: args_def
          split: option.splits intro: bounded_reason_clean)
  next
    case False
    let ?d = "or_else (field raw [''description'']) (Option.bind args (\<lambda>v. field v [''description'']))"
    have d: "valid_opt ?d"
      using assms(2) args of_args by (intro valid_opt_intros; assumption?)
    obtain label where label: "tool_label pf raw = Some label"
      using False assms(3) by (auto simp: status_reason_context_def Let_def bind_eq_Some_conv)
    then have l: "clean_text 25 label" using assms(1,2) tool_label_clean by blast
    have words: "bounded_reason (reason source (label @ '' '' @ s))" if "clean_text 100 s" for source s
      using bounded_reason_clean [of 126 "label @ '' '' @ s"] clean_text_words [OF l that] by simp
    show ?thesis
      using False assms(3) label question [OF _ d] question [OF _ of_args] words
        bounded_reason_clean [OF l]
      by (auto simp: status_reason_context_def Let_def simp del: field.simps simp flip: args_def
          split: option.splits)
  qed
qed

lemma completed_reason_context_bounded:
  "json_valid raw \<Longrightarrow> completed_reason_context raw = Some r \<Longrightarrow> bounded_reason r"
  by (auto simp: completed_reason_context_def
      intro!: bounded_reason_clean dest!: excerpt_of_valid [rotated] intro: valid_opt_intros)

lemma failed_reason_context_bounded: "failed_reason_context raw = Some r \<Longrightarrow> bounded_reason r"
  by (auto simp: failed_reason_context_def Let_def split: if_splits
      intro!: bounded_reason_clean [of 128] clean_ascii simp: byte_def)

end
