(* ===== verification/Dialect.thy ===== *)
theory Dialect
  imports Adapters_Lemmas
begin

text \<open>
  The contract between a provider's hook payloads and the driver that assembles events:
  \<^verbatim>\<open>sessiontap-adapters/src/dialect.rs\<close> and \<^verbatim>\<open>driver.rs\<close>. The trait \<open>HookDialect\<close> is a record of
  its methods; a method with a default body has a definition \<open>default_\<dots>\<close>. The clock and the
  random identifier of the driver are arguments. The locale \<open>bounded_dialect\<close> states what a
  dialect must promise so that the reducer accepts every event the driver builds from it.
\<close>

section \<open>The trait\<close>

record NormalizeContext =
  nc_workspace :: "string option"

record HookDialect =
  hd_id :: ProviderId
  hd_terminal_policy :: TerminalPolicy
  hd_classify :: "Json \<Rightarrow> EventKind option"
  hd_child_agent :: "Json \<Rightarrow> ChildAgentRef option"
  hd_provider_event_id :: "Json \<Rightarrow> string option"
  hd_observed_at :: "Json \<Rightarrow> timestamp option"
  hd_provider_session_id :: "Json \<Rightarrow> string option"
  hd_session_name :: "Json \<Rightarrow> string option"
  hd_start_reason :: "Json \<Rightarrow> string option"
  hd_metadata :: "Json \<Rightarrow> ProviderMetadata option"
  hd_inline_usage :: "Json \<Rightarrow> Usage option"
  hd_turn_id :: "Json \<Rightarrow> string option"
  hd_approval_reason :: "Json \<Rightarrow> StatusReasonContext option"
  hd_input_reason :: "Json \<Rightarrow> StatusReasonContext option"
  hd_completed_reason :: "Json \<Rightarrow> StatusReasonContext option"
  hd_failure_reason :: "Json \<Rightarrow> StatusReasonContext option"
  hd_tool_activity :: "Json \<Rightarrow> NormalizeContext \<Rightarrow> ToolActivityUpdate option"
  hd_collection_context :: "Json \<Rightarrow> ArtifactCollectionContext option"

definition default_child_agent :: "Json \<Rightarrow> ChildAgentRef option" where
  "default_child_agent raw = None"

definition default_provider_event_id :: "Json \<Rightarrow> string option" where
  "default_provider_event_id raw = get_str ''event_id'' raw"

definition default_observed_at :: "Json \<Rightarrow> timestamp option" where
  "default_observed_at raw = None"

definition default_provider_session_id :: "Json \<Rightarrow> string option" where
  "default_provider_session_id raw = get_str ''session_id'' raw"

definition default_session_name :: "Json \<Rightarrow> string option" where
  "default_session_name raw = None"

definition default_inline_usage :: "Json \<Rightarrow> Usage option" where
  "default_inline_usage raw = None"

definition default_turn_id :: "Json \<Rightarrow> string option" where
  "default_turn_id raw = None"

definition default_approval_reason :: "Platform \<Rightarrow> Json \<Rightarrow> StatusReasonContext option" where
  "default_approval_reason pf raw = status_reason_context pf raw False"

definition default_input_reason :: "Platform \<Rightarrow> Json \<Rightarrow> StatusReasonContext option" where
  "default_input_reason pf raw = status_reason_context pf raw True"

definition default_completed_reason :: "Json \<Rightarrow> StatusReasonContext option" where
  "default_completed_reason raw = completed_reason_context raw"

definition default_failure_reason :: "Json \<Rightarrow> StatusReasonContext option" where
  "default_failure_reason raw = failed_reason_context raw"

definition default_collection_context :: "Json \<Rightarrow> ArtifactCollectionContext option" where
  "default_collection_context raw = None"

lemmas dialect_defaults = default_child_agent_def default_provider_event_id_def
  default_observed_at_def default_provider_session_id_def default_session_name_def
  default_inline_usage_def default_turn_id_def default_approval_reason_def
  default_input_reason_def default_completed_reason_def default_failure_reason_def
  default_collection_context_def

section \<open>The driver\<close>

definition SCHEMA_VERSION :: u32 where "SCHEMA_VERSION = 1"
definition ADAPTER_API_VERSION :: u64 where "ADAPTER_API_VERSION = 1"

definition only_root :: "bool \<Rightarrow> 'a option \<Rightarrow> 'a option" where
  "only_root root x = (if root then x else None)"

definition build ::
    "HookDialect \<Rightarrow> timestamp \<Rightarrow> string \<Rightarrow> InvocationId \<Rightarrow> Json \<Rightarrow> EventKind \<Rightarrow> EventEvidence
     \<Rightarrow> NormalizeContext \<Rightarrow> ChildAgentRef option \<Rightarrow> NormalizedAdapterEvent" where
  "build dialect now uuid invocation raw kind evidence ctx child_agent =
     (let root = (child_agent = None);
          provider_event_id = hd_provider_event_id dialect raw;
          status_reason =
            (if \<not> root then None
             else case kind of
               KWaitingApproval \<Rightarrow> hd_approval_reason dialect raw
             | KWaitingInput \<Rightarrow> hd_input_reason dialect raw
             | KCompleted \<Rightarrow> hd_completed_reason dialect raw
             | KFailed \<Rightarrow> hd_failure_reason dialect raw
             | _ \<Rightarrow> None)
      in \<lparr>na_event =
           \<lparr>ev_schema_version = SCHEMA_VERSION,
            ev_event_id = unwrap_or provider_event_id uuid,
            ev_invocation_id = invocation,
            ev_provider_event_id = provider_event_id,
            ev_provider = ProviderId_as_str (hd_id dialect),
            ev_observed_at = unwrap_or (hd_observed_at dialect raw) now,
            ev_received_at = now,
            ev_evidence = evidence,
            ev_kind = kind,
            ev_provider_session_id = hd_provider_session_id dialect raw,
            ev_provider_session_name = only_root root (hd_session_name dialect raw),
            ev_provider_session_start_reason =
              only_root (root \<and> kind = KProviderSessionStarted) (hd_start_reason dialect raw),
            ev_provider_metadata = only_root root (hd_metadata dialect raw),
            ev_usage = only_root root (hd_inline_usage dialect raw),
            ev_turn_id = hd_turn_id dialect raw,
            ev_tool_activity = hd_tool_activity dialect raw ctx,
            ev_child_agent = child_agent\<rparr>,
          na_status_reason = status_reason,
          na_collection_context = only_root root (hd_collection_context dialect raw)\<rparr>)"

definition normalize_with_evidence ::
    "HookDialect \<Rightarrow> timestamp \<Rightarrow> string \<Rightarrow> InvocationId \<Rightarrow> Json \<Rightarrow> EventEvidence \<Rightarrow> NormalizeContext
     \<Rightarrow> AdapterOutcome" where
  "normalize_with_evidence dialect now uuid invocation raw evidence ctx =
     (case hd_classify dialect raw of
        None \<Rightarrow> OutcomeIgnored
      | Some kind \<Rightarrow>
          OutcomeEvent (build dialect now uuid invocation raw kind evidence ctx (hd_child_agent dialect raw)))"

definition normalize :: "HookDialect \<Rightarrow> timestamp \<Rightarrow> string \<Rightarrow> InvocationId \<Rightarrow> Json \<Rightarrow> AdapterOutcome" where
  "normalize dialect now uuid invocation raw =
     normalize_with_evidence dialect now uuid invocation raw (EventEvidence_managed_hook ADAPTER_API_VERSION)
       \<lparr>nc_workspace = None\<rparr>"

section \<open>What the reducer accepts\<close>

definition bounded_child :: "ChildAgentRef \<Rightarrow> bool" where
  "bounded_child c \<longleftrightarrow> normalized_text CHILD_AGENT_ID_MAX_CHARS (ar_agent_id c)
     \<and> normalized_text CHILD_AGENT_TYPE_MAX_CHARS (ar_agent_type c)"

lemma validate_event_bounded:
  assumes "validate_evidence (ev_evidence e) = Inr ()"
    and "is_none_or bounded_tool (ev_tool_activity e)"
    and "is_none_or bounded_child (ev_child_agent e)"
    and "is_none_or bounded_reason status"
  shows "validate_event e status = Inr ()"
proof -
  have "validate_tool_activity e = Inr ()"
    using assms(2)
    by (auto simp: validate_tool_activity_def is_some_and_iff is_none_or_iff bounded_tool_def
        normalized_text_def)
  moreover have "validate_child_agent e = Inr ()"
    using assms(3)
    by (auto simp: validate_child_agent_def is_some_and_iff is_none_or_iff bounded_child_def)
  moreover have "\<not> is_some_and (\<lambda>c. sc_summary c = []
      \<or> length (sc_summary c) > STATUS_REASON_MAX_BYTES
      \<or> length (chars (sc_summary c)) > STATUS_REASON_MAX_CHARS
      \<or> has_control (sc_summary c)) status"
    using assms(4) bounded_reason_bytes
    by (force simp: is_some_and_iff is_none_or_iff bounded_reason_def clean_text_def
        normalized_text_def)
  ultimately show ?thesis using assms(1) by (simp add: validate_event_def)
qed

locale bounded_dialect =
  fixes dialect :: HookDialect and admissible :: "Json \<Rightarrow> bool"
  assumes child_bounded: "admissible raw \<Longrightarrow> hd_child_agent dialect raw = Some c \<Longrightarrow> bounded_child c"
    and tool_bounded: "admissible raw \<Longrightarrow> hd_tool_activity dialect raw ctx = Some t \<Longrightarrow> bounded_tool t"
    and approval_bounded: "admissible raw \<Longrightarrow> hd_classify dialect raw = Some KWaitingApproval \<Longrightarrow>
      hd_approval_reason dialect raw = Some r \<Longrightarrow> bounded_reason r"
    and input_bounded: "admissible raw \<Longrightarrow> hd_input_reason dialect raw = Some r \<Longrightarrow> bounded_reason r"
    and completed_bounded: "admissible raw \<Longrightarrow> hd_completed_reason dialect raw = Some r \<Longrightarrow> bounded_reason r"
    and failure_bounded: "admissible raw \<Longrightarrow> hd_failure_reason dialect raw = Some r \<Longrightarrow> bounded_reason r"
begin

lemma normalized_accepted:
  assumes "admissible raw" "validate_evidence evidence = Inr ()"
    and outcome: "normalize_with_evidence dialect now uuid invocation raw evidence ctx = OutcomeEvent e"
  shows "validate_event (na_event e) (na_status_reason e) = Inr ()"
proof -
  obtain kind where kind: "hd_classify dialect raw = Some kind"
    and e: "e = build dialect now uuid invocation raw kind evidence ctx (hd_child_agent dialect raw)"
    using outcome by (auto simp: normalize_with_evidence_def split: option.splits)
  have "is_none_or bounded_reason (na_status_reason e)"
    using assms(1) kind approval_bounded input_bounded completed_bounded failure_bounded
    by (auto simp: e build_def Let_def is_none_or_iff split: if_splits EventKind.splits)
  moreover have "is_none_or bounded_tool (ev_tool_activity (na_event e))"
    using tool_bounded [OF assms(1)] by (simp add: e build_def Let_def is_none_or_iff)
  moreover have "is_none_or bounded_child (ev_child_agent (na_event e))"
    using child_bounded [OF assms(1)] by (simp add: e build_def Let_def is_none_or_iff)
  moreover have "ev_evidence (na_event e) = evidence"
    by (simp add: e build_def Let_def)
  ultimately show ?thesis using validate_event_bounded assms(2) by simp
qed

end

end
