(* ===== verification/Dialects.thy ===== *)
theory Dialects
  imports Dialect
begin

text \<open>
  The hook dialects of four providers: \<^verbatim>\<open>claude.rs\<close>, \<^verbatim>\<open>codex.rs\<close>, \<^verbatim>\<open>qwen.rs\<close> and \<^verbatim>\<open>pi.rs\<close> of
  \<^verbatim>\<open>sessiontap-adapters/src\<close>. Each is a value of the trait's record, with the platform as argument
  where a method asks something of it.
\<close>

section \<open>What the three configuration-file dialects repeat\<close>

definition nonblank :: "string \<Rightarrow> bool" where
  "nonblank s \<longleftrightarrow> trim s \<noteq> []"

definition tool_phase :: "string \<Rightarrow> ToolActivityPhase option" where
  "tool_phase event =
     (if event = ''PreToolUse'' then Some Start
      else if event = ''ToolProgress'' then Some Progress
      else if event = ''PostToolUse'' then Some Finish
      else if event = ''PostToolUseFailure'' then Some Failure
      else if event = ''PermissionRequest'' then Some Attention
      else None)"

definition hook_tool_activity ::
    "Platform \<Rightarrow> string list \<Rightarrow> ToolDetailPolicy \<Rightarrow> Json \<Rightarrow> NormalizeContext \<Rightarrow> ToolActivityUpdate option" where
  "hook_tool_activity pf correlation_fields policy raw ctx =
     Option.bind (get_str ''hook_event_name'' raw) (\<lambda>event.
     Option.bind (tool_phase event) (\<lambda>phase.
     Option.bind (get_str ''tool_name'' raw) (\<lambda>name.
       tool_activity pf phase name
         (bounded_field raw correlation_fields TOOL_CORRELATION_ID_MAX_CHARS)
         (get ''tool_input'' raw) policy (nc_workspace ctx))))"

definition hook_start_reason :: "Json \<Rightarrow> string option" where
  "hook_start_reason raw =
     filter_opt (\<lambda>v. v \<in> {''startup'', ''clear'', ''resume'', ''compact''})
       (bounded_field raw [''source'', ''reason'', ''start_reason''] 32)"

definition hook_collection_context :: "ProviderId \<Rightarrow> Json \<Rightarrow> ArtifactCollectionContext option" where
  "hook_collection_context provider raw =
     filter_opt (\<lambda>c. ac_provider_session_id c \<noteq> [] \<and> ac_locator c \<noteq> [])
       (Option.bind (get_str ''session_id'' raw) (\<lambda>session.
        Option.bind (get_str ''transcript_path'' raw) (\<lambda>locator.
          Some \<lparr>ac_adapter_identity = provider, ac_provider_session_id = trim session,
                ac_locator = locator\<rparr>)))"

definition turn_id_of :: "Json option \<Rightarrow> string option" where
  "turn_id_of v = Option.bind (Option.bind v as_str) (\<lambda>v. sanitize_bounded v 128)"

definition notification_kind :: "Json \<Rightarrow> EventKind option" where
  "notification_kind raw =
     (let t = get_str ''notification_type'' raw
      in if t = Some ''permission_prompt'' then Some KWaitingApproval
         else if t = Some ''elicitation_dialog'' \<or> t = Some ''agent_needs_input'' then Some KWaitingInput
         else if t = Some ''idle_prompt'' then Some KIdle
         else None)"

definition interrupted :: "Json \<Rightarrow> bool" where
  "interrupted raw \<longleftrightarrow> Option.bind (get ''is_interrupt'' raw) as_bool = Some True"

definition asks_user :: "string list \<Rightarrow> Json \<Rightarrow> bool" where
  "asks_user tools raw = is_some_and (\<lambda>tool. tool \<in> set tools) (get_str ''tool_name'' raw)"

section \<open>Claude\<close>

definition Claude_HOOK_EVENTS :: "string list" where
  "Claude_HOOK_EVENTS = [''SessionStart'', ''UserPromptSubmit'', ''PreToolUse'', ''PostToolUse'',
     ''PostToolUseFailure'', ''PermissionRequest'', ''Elicitation'', ''Notification'',
     ''PreCompact'', ''PostCompact'', ''Stop'', ''StopFailure'', ''SessionEnd'', ''SubagentStart'',
     ''SubagentStop'', ''PostModelSwitch'']"

definition Claude_TOOL_DETAIL :: ToolDetailPolicy where
  "Claude_TOOL_DETAIL = \<lparr>dp_described_tools = [''Bash'', ''bash''],
     dp_path_tools = [''Read'', ''Write'', ''Edit''], dp_path_fields = [''file_path'']\<rparr>"

definition MODEL_MAX_CHARS :: nat where "MODEL_MAX_CHARS = 160"

definition all_digits :: "string \<Rightarrow> bool" where
  "all_digits s = list_all (\<lambda>c. is_ascii_digit (byte c)) s"

definition strip_date :: "string \<Rightarrow> string" where
  "strip_date base =
     (case rsplit_once (CHR ''-'') base of
        Some (head, date) \<Rightarrow> if length date = 8 \<and> all_digits date then head else base
      | None \<Rightarrow> base)"

definition dotted_version :: "string \<Rightarrow> string" where
  "dotted_version base =
     (case rsplit_once (CHR ''-'') base of
        None \<Rightarrow> base
      | Some (head, minor) \<Rightarrow>
         (case rsplit_once (CHR ''-'') head of
            None \<Rightarrow> base
          | Some (name, major) \<Rightarrow>
              if name \<noteq> [] \<and> list_all (\<lambda>part. part \<noteq> [] \<and> all_digits part) [major, minor]
              then name @ ''-'' @ major @ ''.'' @ minor else base))"

definition split_suffix :: "string \<Rightarrow> string \<times> string" where
  "split_suffix model =
     (case split_once (CHR ''['') model of
        Some (base, rest) \<Rightarrow> if ends_with model '']'' then (base, CHR ''['' # rest) else (model, [])
      | None \<Rightarrow> (model, []))"

definition Claude_model_label :: "string \<Rightarrow> string option" where
  "Claude_model_label model =
     (let (base, suffix) = split_suffix model;
          base = strip_date (unwrap_or (strip_prefix ''claude-'' base) base)
      in sanitize_bounded (dotted_version base @ suffix) MODEL_MAX_CHARS)"

definition Claude_is_subagent_payload :: "Json \<Rightarrow> bool" where
  "Claude_is_subagent_payload raw \<longleftrightarrow>
     is_some_and nonblank (get_str ''agent_id'' raw)
     \<or> is_some_and (\<lambda>name. name = ''SubagentStart'' \<or> name = ''SubagentStop'')
          (get_str ''hook_event_name'' raw)"

definition Claude_classify_root :: "Json \<Rightarrow> EventKind option" where
  "Claude_classify_root raw =
     Option.bind (get_str ''hook_event_name'' raw) (\<lambda>name.
       let ask_user = asks_user [''AskUserQuestion'', ''ask_user_question''] raw
       in if name = ''SessionStart'' then Some KProviderSessionStarted
          else if name = ''SessionEnd'' then Some KProviderSessionEnded
          else if name = ''UserPromptSubmit'' then Some KNewTurn
          else if name = ''PreToolUse'' \<and> ask_user then Some KWaitingInput
          else if name = ''PreToolUse'' \<or> name = ''PostToolUse'' \<or> name = ''PostToolUseFailure''
          then Some KWorking
          else if name = ''PermissionRequest'' \<and> ask_user then Some KWaitingInput
          else if name = ''PermissionRequest'' then Some KWaitingApproval
          else if name = ''Elicitation'' then Some KWaitingInput
          else if name = ''Notification'' then notification_kind raw
          else if name = ''PreCompact'' then Some KWorking
          else if name = ''PostCompact'' then Some KEnrichment
          else if name = ''Stop'' \<and> interrupted raw then Some KInterrupted
          else if name = ''Stop'' then Some KCompleted
          else if name = ''StopFailure'' then Some KFailed
          else if name = ''SubagentStart'' then Some KNewTurn
          else if name = ''SubagentStop'' then Some KCompleted
          else if name = ''PostModelSwitch'' then Some KEnrichment
          else None)"

definition Claude_child_agent :: "Json \<Rightarrow> ChildAgentRef option" where
  "Claude_child_agent raw =
     Option.bind (get_str ''agent_id'' raw) (\<lambda>agent_id.
       if \<not> nonblank agent_id then None
       else Option.bind (sanitize_bounded agent_id CHILD_AGENT_ID_MAX_CHARS) (\<lambda>agent_id.
            Option.bind (bounded_field raw [''agent_type''] CHILD_AGENT_TYPE_MAX_CHARS) (\<lambda>agent_type.
              Some \<lparr>ar_agent_id = agent_id, ar_agent_type = agent_type\<rparr>)))"

definition Claude_classify :: "Json \<Rightarrow> EventKind option" where
  "Claude_classify raw =
     (if Claude_child_agent raw = None \<and> Claude_is_subagent_payload raw then None
      else Claude_classify_root raw)"

definition Claude_metadata :: "Json \<Rightarrow> ProviderMetadata option" where
  "Claude_metadata raw =
     (let metadata = provider_metadata raw (Some ''prompt_id'');
          metadata = (case bounded_field raw [''to_model''] MODEL_MAX_CHARS of
            Some model \<Rightarrow> Some ((unwrap_or metadata ProviderMetadata_default)\<lparr>pm_model := Some model\<rparr>)
          | None \<Rightarrow> metadata)
      in map_option (\<lambda>m. m\<lparr>pm_model_label := Option.bind (pm_model m) Claude_model_label\<rparr>) metadata)"

definition Claude_turn_id :: "Json \<Rightarrow> string option" where
  "Claude_turn_id raw = turn_id_of (or_else (get ''turn_id'' raw) (get ''prompt_id'' raw))"

definition ClaudeDialect :: "Platform \<Rightarrow> HookDialect" where
  "ClaudeDialect pf =
     \<lparr>hd_id = Claude,
      hd_terminal_policy = \<lparr>tp_quick_pick = Digits\<rparr>,
      hd_classify = Claude_classify,
      hd_child_agent = Claude_child_agent,
      hd_provider_event_id = default_provider_event_id,
      hd_observed_at = default_observed_at,
      hd_provider_session_id = default_provider_session_id,
      hd_session_name = default_session_name,
      hd_start_reason = hook_start_reason,
      hd_metadata = Claude_metadata,
      hd_inline_usage = default_inline_usage,
      hd_turn_id = Claude_turn_id,
      hd_approval_reason = default_approval_reason pf,
      hd_input_reason = default_input_reason pf,
      hd_completed_reason = default_completed_reason,
      hd_failure_reason = default_failure_reason,
      hd_tool_activity = hook_tool_activity pf [''tool_use_id''] Claude_TOOL_DETAIL,
      hd_collection_context = hook_collection_context Claude\<rparr>"

section \<open>Codex\<close>

definition Codex_HOOK_EVENTS :: "string list" where
  "Codex_HOOK_EVENTS = [''SessionStart'', ''UserPromptSubmit'', ''PreToolUse'',
     ''PermissionRequest'', ''UserInputRequest'', ''PostToolUse'', ''PreCompact'', ''PostCompact'',
     ''Interrupt'', ''Stop'', ''SessionEnd'']"

definition Codex_TOOL_DETAIL :: ToolDetailPolicy where
  "Codex_TOOL_DETAIL = \<lparr>dp_described_tools = [''Bash'', ''bash''],
     dp_path_tools = [''Read'', ''Write'', ''Edit'', ''read_file'', ''write_file'', ''edit_file''],
     dp_path_fields = [''file_path'', ''path'']\<rparr>"

definition Codex_is_subagent_payload :: "Json \<Rightarrow> bool" where
  "Codex_is_subagent_payload raw = is_some_and nonblank (get_str ''agent_id'' raw)"

definition Codex_classify_root :: "Json \<Rightarrow> EventKind option" where
  "Codex_classify_root raw =
     Option.bind (get_str ''hook_event_name'' raw) (\<lambda>name.
       let request_input = asks_user [''request_user_input'', ''functions.request_user_input''] raw
       in if name = ''SessionStart'' then Some KProviderSessionStarted
          else if name = ''SessionEnd'' then Some KProviderSessionEnded
          else if name = ''UserPromptSubmit'' then Some KNewTurn
          else if name = ''PreToolUse'' \<and> request_input then Some KWaitingInput
          else if name = ''PreToolUse'' \<or> name = ''PostToolUse'' then Some KWorking
          else if name = ''PermissionRequest'' \<and> request_input then Some KWaitingInput
          else if name = ''PermissionRequest'' then Some KWaitingApproval
          else if name = ''UserInputRequest'' then Some KWaitingInput
          else if name = ''PreCompact'' then Some KWorking
          else if name = ''PostCompact'' then Some KEnrichment
          else if name = ''Interrupt'' then Some KInterrupted
          else if name = ''Stop'' then Some KCompleted
          else None)"

definition Codex_classify :: "Json \<Rightarrow> EventKind option" where
  "Codex_classify raw = (if Codex_is_subagent_payload raw then None else Codex_classify_root raw)"

definition Codex_metadata :: "Json \<Rightarrow> ProviderMetadata option" where
  "Codex_metadata raw = provider_metadata raw None"

definition Codex_turn_id :: "Json \<Rightarrow> string option" where
  "Codex_turn_id raw = turn_id_of (get ''turn_id'' raw)"

definition CodexDialect :: "Platform \<Rightarrow> HookDialect" where
  "CodexDialect pf =
     \<lparr>hd_id = Codex,
      hd_terminal_policy = TerminalPolicy_default,
      hd_classify = Codex_classify,
      hd_child_agent = default_child_agent,
      hd_provider_event_id = default_provider_event_id,
      hd_observed_at = default_observed_at,
      hd_provider_session_id = default_provider_session_id,
      hd_session_name = default_session_name,
      hd_start_reason = hook_start_reason,
      hd_metadata = Codex_metadata,
      hd_inline_usage = default_inline_usage,
      hd_turn_id = Codex_turn_id,
      hd_approval_reason = default_approval_reason pf,
      hd_input_reason = default_input_reason pf,
      hd_completed_reason = default_completed_reason,
      hd_failure_reason = default_failure_reason,
      hd_tool_activity = hook_tool_activity pf [''tool_use_id''] Codex_TOOL_DETAIL,
      hd_collection_context = hook_collection_context Codex\<rparr>"

section \<open>Qwen\<close>

definition Qwen_HOOK_EVENTS :: "string list" where
  "Qwen_HOOK_EVENTS = [''SessionStart'', ''UserPromptSubmit'', ''PreToolUse'', ''PostToolUse'',
     ''PostToolUseFailure'', ''PermissionRequest'', ''Notification'', ''Stop'', ''StopFailure'',
     ''SessionEnd'']"

definition Qwen_TOOL_DETAIL :: ToolDetailPolicy where
  "Qwen_TOOL_DETAIL = \<lparr>dp_described_tools = [''run_shell_command'', ''shell_command''],
     dp_path_tools = [''read_file'', ''write_file'', ''replace''],
     dp_path_fields = [''file_path'', ''path'']\<rparr>"

definition Qwen_is_subagent_payload :: "Json \<Rightarrow> bool" where
  "Qwen_is_subagent_payload raw = is_some_and nonblank (get_str ''agent_id'' raw)"

definition Qwen_classify_root :: "Json \<Rightarrow> EventKind option" where
  "Qwen_classify_root raw =
     Option.bind (get_str ''hook_event_name'' raw) (\<lambda>name.
       let ask_user = asks_user [''AskUserQuestion'', ''ask_user_question''] raw
       in if name = ''SessionStart'' then Some KProviderSessionStarted
          else if name = ''SessionEnd'' then Some KProviderSessionEnded
          else if name = ''UserPromptSubmit''
                  \<and> is_some_and (\<lambda>prompt. \<not> nonblank prompt) (get_str ''prompt'' raw)
          then Some KEnrichment
          else if name = ''UserPromptSubmit'' then Some KNewTurn
          else if name = ''PreToolUse'' \<and> ask_user then Some KWaitingInput
          else if name = ''PreToolUse'' \<or> name = ''PostToolUse'' \<or> name = ''PostToolUseFailure''
          then Some KWorking
          else if name = ''PermissionRequest'' \<and> ask_user then Some KWaitingInput
          else if name = ''PermissionRequest'' then Some KWaitingApproval
          else if name = ''Notification'' then notification_kind raw
          else if name = ''Stop'' \<and> interrupted raw then Some KInterrupted
          else if name = ''Stop'' then Some KCompleted
          else if name = ''StopFailure'' then Some KFailed
          else None)"

definition Qwen_classify :: "Json \<Rightarrow> EventKind option" where
  "Qwen_classify raw = (if Qwen_is_subagent_payload raw then None else Qwen_classify_root raw)"

definition Qwen_observed_at :: "Platform \<Rightarrow> Json \<Rightarrow> timestamp option" where
  "Qwen_observed_at pf raw = Option.bind (get_str ''timestamp'' raw) (pf_parse_rfc3339 pf)"

definition Usage_default :: Usage where
  "Usage_default = \<lparr>us_input_tokens = None, us_output_tokens = None, us_context_tokens = None,
     us_context_window_percent = None\<rparr>"

definition nonempty_usage :: "Usage \<Rightarrow> Usage option" where
  "nonempty_usage usage = (if usage = Usage_default then None else Some usage)"

definition get_u64 :: "string \<Rightarrow> Json \<Rightarrow> u64 option" where
  "get_u64 key raw = Option.bind (get key raw) as_u64"

definition Qwen_inline_usage :: "Platform \<Rightarrow> Json \<Rightarrow> Usage option" where
  "Qwen_inline_usage pf raw = nonempty_usage
     \<lparr>us_input_tokens = get_u64 ''input_tokens'' raw,
      us_output_tokens = get_u64 ''output_tokens'' raw,
      us_context_tokens = get_u64 ''context_tokens'' raw,
      us_context_window_percent = (case get ''context_usage'' raw of
        Some (JNumber n) \<Rightarrow> pf_fraction_percent pf n | _ \<Rightarrow> None)\<rparr>"

definition QwenDialect :: "Platform \<Rightarrow> HookDialect" where
  "QwenDialect pf =
     \<lparr>hd_id = Qwen,
      hd_terminal_policy = TerminalPolicy_default,
      hd_classify = Qwen_classify,
      hd_child_agent = default_child_agent,
      hd_provider_event_id = default_provider_event_id,
      hd_observed_at = Qwen_observed_at pf,
      hd_provider_session_id = default_provider_session_id,
      hd_session_name = default_session_name,
      hd_start_reason = hook_start_reason,
      hd_metadata = (\<lambda>raw. provider_metadata raw None),
      hd_inline_usage = Qwen_inline_usage pf,
      hd_turn_id = (\<lambda>raw. turn_id_of (get ''turn_id'' raw)),
      hd_approval_reason = default_approval_reason pf,
      hd_input_reason = default_input_reason pf,
      hd_completed_reason = default_completed_reason,
      hd_failure_reason = default_failure_reason,
      hd_tool_activity = hook_tool_activity pf [''tool_use_id'', ''tool_call_id''] Qwen_TOOL_DETAIL,
      hd_collection_context = hook_collection_context Qwen\<rparr>"

section \<open>Pi\<close>

definition Pi_model_label :: "string \<Rightarrow> string" where
  "Pi_model_label model = (case split_once (CHR ''/'') model of None \<Rightarrow> model | Some (_, name) \<Rightarrow> name)"

definition Pi_classify :: "Json \<Rightarrow> EventKind option" where
  "Pi_classify raw =
     Option.bind (get_str ''pi_event'' raw) (\<lambda>name.
       if name = ''session_start'' then Some KProviderSessionStarted
       else if name = ''session_shutdown'' then Some KProviderSessionEnded
       else if name = ''before_agent_start'' then Some KNewTurn
       else if name = ''turn_start'' then Some KWorking
       else if name = ''tool_execution_start'' \<or> name = ''tool_execution_end'' then Some KWorking
       else if name \<in> {''session_info_changed'', ''model_select'', ''thinking_level_select'', ''turn_end''}
       then Some KEnrichment
       else if name = ''agent_settled'' then
         (let status = get_str ''settled_status'' raw
          in if status = Some ''error'' then Some KFailed
             else if status = Some ''aborted'' then Some KInterrupted
             else Some KCompleted)
       else None)"

definition Pi_provider_event_id :: "Json \<Rightarrow> string option" where
  "Pi_provider_event_id raw = None"

definition Pi_session_name :: "Json \<Rightarrow> string option" where
  "Pi_session_name raw = bounded_field raw [''session_name''] 160"

definition Pi_start_reason :: "Json \<Rightarrow> string option" where
  "Pi_start_reason raw =
     filter_opt (\<lambda>v. v \<in> {''startup'', ''new'', ''resume'', ''fork'', ''reload''})
       (bounded_field raw [''reason''] 32)"

definition Pi_metadata :: "Json \<Rightarrow> ProviderMetadata option" where
  "Pi_metadata raw =
     (let model = or_else (bounded_field raw [''served_model''] MODEL_MAX_CHARS)
                    (bounded_field raw [''model''] MODEL_MAX_CHARS);
          metadata =
            \<lparr>pm_model = model,
             pm_model_label = map_option Pi_model_label model,
             pm_effort = Option.bind (bounded_field raw [''thinking_level''] 32) effort_level,
             pm_permission_mode = None,
             pm_current_turn_id = None\<rparr>
      in if metadata = ProviderMetadata_default then None else Some metadata)"

definition Pi_inline_usage :: "Json \<Rightarrow> Usage option" where
  "Pi_inline_usage raw = nonempty_usage
     \<lparr>us_input_tokens = get_u64 ''input_tokens'' raw,
      us_output_tokens = get_u64 ''output_tokens'' raw,
      us_context_tokens = get_u64 ''context_tokens'' raw,
      us_context_window_percent = map_option (\<lambda>v. ucast v :: u8)
        (filter_opt (\<lambda>v. v \<le> 100) (get_u64 ''context_window_percent'' raw))\<rparr>"

definition Pi_completed_reason :: "Json \<Rightarrow> StatusReasonContext option" where
  "Pi_completed_reason raw =
     map_option (reason AssistantMessage) (Option.bind (get_str ''excerpt'' raw) status_excerpt)"

definition Pi_tool_activity :: "Json \<Rightarrow> NormalizeContext \<Rightarrow> ToolActivityUpdate option" where
  "Pi_tool_activity raw ctx =
     Option.bind (get_str ''pi_event'' raw) (\<lambda>event.
     Option.bind (if event = ''tool_execution_start'' then Some Start
                  else if event = ''tool_execution_end'' then Some Finish else None) (\<lambda>phase.
     Option.bind (get_str ''tool_name'' raw) (\<lambda>name.
     Option.bind (normalized_tool_label name) (\<lambda>label.
       Some \<lparr>tu_phase = phase, tu_label = label,
             tu_correlation_id = bounded_field raw [''tool_call_id''] TOOL_CORRELATION_ID_MAX_CHARS,
             tu_detail = None\<rparr>))))"

definition PiDialect :: "Platform \<Rightarrow> HookDialect" where
  "PiDialect pf =
     \<lparr>hd_id = Pi,
      hd_terminal_policy = \<lparr>tp_quick_pick = Digits\<rparr>,
      hd_classify = Pi_classify,
      hd_child_agent = default_child_agent,
      hd_provider_event_id = Pi_provider_event_id,
      hd_observed_at = default_observed_at,
      hd_provider_session_id = default_provider_session_id,
      hd_session_name = Pi_session_name,
      hd_start_reason = Pi_start_reason,
      hd_metadata = Pi_metadata,
      hd_inline_usage = Pi_inline_usage,
      hd_turn_id = default_turn_id,
      hd_approval_reason = default_approval_reason pf,
      hd_input_reason = default_input_reason pf,
      hd_completed_reason = Pi_completed_reason,
      hd_failure_reason = default_failure_reason,
      hd_tool_activity = Pi_tool_activity,
      hd_collection_context = default_collection_context\<rparr>"

section \<open>The dialects keep the reducer's bounds\<close>

lemma hook_tool_activity_bounded:
  assumes "json_valid raw" "hook_tool_activity pf names policy raw ctx = Some t"
  shows "bounded_tool t"
proof -
  obtain phase name where name: "get_str ''tool_name'' raw = Some name"
    and t: "tool_activity pf phase name (bounded_field raw names TOOL_CORRELATION_ID_MAX_CHARS)
      (get ''tool_input'' raw) policy (nc_workspace ctx) = Some t"
    using assms(2) by (auto simp: hook_tool_activity_def bind_eq_Some_conv)
  show ?thesis
  proof (rule tool_activity_bounded [OF t])
    show "valid_utf8 name" using json_valid_get_str [OF assms(1) name] .
    show "clean_text 128 c" if "bounded_field raw names TOOL_CORRELATION_ID_MAX_CHARS = Some c" for c
      using bounded_field_clean [OF assms(1) that] by (simp add: tool_bounds)
    show "json_valid v" if "get ''tool_input'' raw = Some v" for v
      using json_valid_get [OF assms(1) that] .
  qed
qed

lemma Claude_child_bounded:
  "json_valid raw \<Longrightarrow> Claude_child_agent raw = Some c \<Longrightarrow> bounded_child c"
  by (auto simp: Claude_child_agent_def bind_eq_Some_conv bounded_child_def split: if_splits
      intro!: clean_normalized intro: sanitize_bounded_clean [OF json_valid_get_str] bounded_field_clean)

lemma Pi_tool_bounded:
  "json_valid raw \<Longrightarrow> Pi_tool_activity raw ctx = Some t \<Longrightarrow> bounded_tool t"
  by (auto simp: Pi_tool_activity_def bind_eq_Some_conv bounded_tool_def is_none_or_iff tool_bounds
      intro!: clean_normalized
      intro: normalized_tool_label_clean [OF json_valid_get_str] bounded_field_clean
      split: if_splits)

lemma Pi_completed_bounded:
  "json_valid raw \<Longrightarrow> Pi_completed_reason raw = Some r \<Longrightarrow> bounded_reason r"
  by (auto simp: Pi_completed_reason_def
      intro!: bounded_reason_clean dest!: excerpt_of_valid [rotated] intro: valid_opt_intros)

lemmas default_reasons_bounded = status_reason_context_bounded completed_reason_context_bounded
  failed_reason_context_bounded

text \<open>The payloads the driver receives: JSON values, read on a platform that keeps its promises.\<close>

definition payload_ok :: "Platform \<Rightarrow> Json \<Rightarrow> bool" where
  "payload_ok pf raw \<longleftrightarrow> platform_ok pf \<and> json_valid raw"

text \<open>A dialect whose reasons are the trait's defaults.\<close>

lemma bounded_dialectI:
  assumes "\<And>raw c. json_valid raw \<Longrightarrow> hd_child_agent d raw = Some c \<Longrightarrow> bounded_child c"
    and "\<And>raw ctx t. json_valid raw \<Longrightarrow> hd_tool_activity d raw ctx = Some t \<Longrightarrow> bounded_tool t"
    and "\<And>raw r. json_valid raw \<Longrightarrow> hd_completed_reason d raw = Some r \<Longrightarrow> bounded_reason r"
    and "hd_approval_reason d = default_approval_reason pf" "hd_input_reason d = default_input_reason pf"
      "hd_failure_reason d = default_failure_reason"
  shows "bounded_dialect d (payload_ok pf)"
  using assms default_reasons_bounded by unfold_locales (auto simp: dialect_defaults payload_ok_def)

interpretation claude: bounded_dialect "ClaudeDialect pf" "payload_ok pf" for pf
  by (rule bounded_dialectI)
    (auto simp: ClaudeDialect_def dialect_defaults Claude_child_bounded hook_tool_activity_bounded
      default_reasons_bounded)

interpretation codex: bounded_dialect "CodexDialect pf" "payload_ok pf" for pf
  by (rule bounded_dialectI)
    (auto simp: CodexDialect_def dialect_defaults hook_tool_activity_bounded default_reasons_bounded)

interpretation qwen: bounded_dialect "QwenDialect pf" "payload_ok pf" for pf
  by (rule bounded_dialectI)
    (auto simp: QwenDialect_def dialect_defaults hook_tool_activity_bounded default_reasons_bounded)

interpretation pi: bounded_dialect "PiDialect pf" "payload_ok pf" for pf
  by (rule bounded_dialectI)
    (auto simp: PiDialect_def dialect_defaults Pi_tool_bounded Pi_completed_bounded
      default_reasons_bounded)

end
