(* ===== verification/Antigravity.thy ===== *)
theory Antigravity
  imports Dialects
begin

text \<open>
  The Antigravity dialect: \<^verbatim>\<open>sessiontap-adapters/src/agy.rs\<close>. Tool arguments may be JSON text inside
  JSON strings; the recursion that opens them takes the length of the text as fuel, which is
  enough because a string is shorter than the text it was read from (\<open>tool_arg_fuel\<close>).
\<close>

section \<open>Labels and tool arguments\<close>

definition Agy_model_label :: "string \<Rightarrow> string" where
  "Agy_model_label model =
     unwrap_or (or_else (strip_prefix ''gemini-'' model) (strip_prefix ''claude-'' model)) model"

definition parse_tool_arg :: "Platform \<Rightarrow> Json \<Rightarrow> Json" where
  "parse_tool_arg pf v = (case v of JString raw \<Rightarrow> unwrap_or (pf_from_str pf raw) v | _ \<Rightarrow> v)"

text \<open>The value both \<open>tool_arg_bool\<close> and \<open>tool_arg_str\<close> look up, string layers opened.\<close>

fun tool_arg :: "Platform \<Rightarrow> nat \<Rightarrow> Json \<Rightarrow> string \<Rightarrow> Json option" where
  "tool_arg pf 0 (JString raw) key = None"
| "tool_arg pf (Suc fuel) (JString raw) key =
     (case pf_from_str pf raw of Some parsed \<Rightarrow> tool_arg pf fuel parsed key | None \<Rightarrow> None)"
| "tool_arg pf fuel args key = get key args"

fun arg_fuel :: "Json \<Rightarrow> nat" where
  "arg_fuel (JString raw) = Suc (length raw)"
| "arg_fuel _ = 0"

definition tool_arg_bool :: "Platform \<Rightarrow> Json option \<Rightarrow> string \<Rightarrow> bool option" where
  "tool_arg_bool pf args key =
     Option.bind args (\<lambda>args. Option.bind (tool_arg pf (arg_fuel args) args key) (\<lambda>v.
       as_bool (parse_tool_arg pf v)))"

definition tool_arg_str :: "Platform \<Rightarrow> Json option \<Rightarrow> string \<Rightarrow> string option" where
  "tool_arg_str pf args key =
     Option.bind args (\<lambda>args. Option.bind (tool_arg pf (arg_fuel args) args key) (\<lambda>v.
       as_str (parse_tool_arg pf v)))"

section \<open>Workspaces\<close>

fun normalize_components :: "bool \<Rightarrow> Component list \<Rightarrow> Component list \<Rightarrow> Component list" where
  "normalize_components absolute normalized [] = normalized"
| "normalize_components absolute normalized (CurDir # cs) = normalize_components absolute normalized cs"
| "normalize_components absolute normalized (ParentDir # cs) =
     normalize_components absolute
       (case pop normalized of
          Some shorter \<Rightarrow> shorter
        | None \<Rightarrow> if absolute then normalized else normalized @ [ParentDir]) cs"
| "normalize_components absolute normalized (c # cs) =
     normalize_components absolute (normalized @ [c]) cs"

definition normalize_path :: "Component list \<Rightarrow> Component list" where
  "normalize_path cs = normalize_components (starts_with cs [RootDir]) [] cs"

definition is_path_outside_workspaces :: "string \<Rightarrow> string list \<Rightarrow> bool" where
  "is_path_outside_workspaces target workspace_paths =
     (if workspace_paths = [] \<or> target = [] then False
      else let normalized_target = normalize_path (components target)
        in if \<not> starts_with normalized_target [RootDir] then
             (if ParentDir \<in> set normalized_target
              then \<not> list_ex (\<lambda>ws.
                     let ws_norm = normalize_path (components ws);
                         joined = normalize_path (ws_norm @ normalized_target)
                     in starts_with joined ws_norm) workspace_paths
              else False)
           else \<not> list_ex (\<lambda>ws. starts_with normalized_target (normalize_path (components ws)))
                  workspace_paths)"

definition extract_workspace_paths :: "Json \<Rightarrow> string option \<Rightarrow> string list" where
  "extract_workspace_paths raw trusted_workspace =
     (case trusted_workspace of Some trusted \<Rightarrow> [trusted] | None \<Rightarrow> []) @
     (case Option.bind (or_else (get ''workspacePaths'' raw) (get ''workspace_paths'' raw)) as_array of
        Some arr \<Rightarrow> List.map_filter as_str arr
      | None \<Rightarrow> [])"

definition extract_target_file_path :: "Platform \<Rightarrow> Json option \<Rightarrow> Json \<Rightarrow> string option" where
  "extract_target_file_path pf tool_call raw =
     (let args = or_else (Option.bind tool_call (get ''args''))
                   (or_else (get ''args'' raw) (get ''tool_input'' raw))
      in or_else (tool_arg_str pf args ''Path'')
          (or_else (tool_arg_str pf args ''path'') (tool_arg_str pf args ''file_path'')))"

definition Agy_tool_name :: "Json \<Rightarrow> string option" where
  "Agy_tool_name raw =
     Option.bind (or_else (Option.bind (get ''toolCall'' raw) (get ''name'')) (get ''tool_name'' raw)) as_str"

definition FILE_TOOLS :: "string list" where
  "FILE_TOOLS = [''read_file'', ''write_file'', ''edit_file'']"

definition file_tool_requests_approval :: "Platform \<Rightarrow> Json \<Rightarrow> string option \<Rightarrow> bool" where
  "file_tool_requests_approval pf raw trusted_workspace =
     (if \<not> is_some_and (\<lambda>name. name \<in> set FILE_TOOLS) (Agy_tool_name raw) then False
      else case extract_target_file_path pf (get ''toolCall'' raw) raw of
             None \<Rightarrow> False
           | Some target \<Rightarrow>
               is_path_outside_workspaces target (extract_workspace_paths raw trusted_workspace))"

definition run_command_requests_approval :: "Platform \<Rightarrow> Json option \<Rightarrow> bool" where
  "run_command_requests_approval pf tool_call \<longleftrightarrow>
     tool_arg_bool pf (Option.bind tool_call (get ''args'')) ''BypassSandbox'' \<noteq> Some False"

section \<open>The last assistant message of a transcript\<close>

definition newline :: char where "newline = CHR 0x0A"
definition MAX_LINE_BYTES :: nat where "MAX_LINE_BYTES = 1024 * 1024"

text \<open>The lines successive calls of \<^verbatim>\<open>read_until(b'\n')\<close> return, each with its newline.\<close>

function read_lines :: "string \<Rightarrow> string list" where
  "read_lines s =
     (if s = [] then []
      else case split_once newline s of
             None \<Rightarrow> [s]
           | Some (line, rest) \<Rightarrow> (line @ [newline]) # read_lines rest)"
  by pat_completeness auto
termination
  by (relation "measure length") (auto dest: split_once_Some)

declare read_lines.simps [simp del]

fun last_excerpt :: "Platform \<Rightarrow> string option \<Rightarrow> string list \<Rightarrow> string option" where
  "last_excerpt pf found [] = found"
| "last_excerpt pf found (line # rest) =
     (if MAX_LINE_BYTES < length line \<or> \<not> ends_with line [newline] then found
      else case pf_from_str pf line of
             None \<Rightarrow> last_excerpt pf found rest
           | Some record \<Rightarrow>
               if get_str ''type'' record \<noteq> Some ''PLANNER_RESPONSE'' then last_excerpt pf found rest
               else last_excerpt pf
                 (or_else (Option.bind (get_str ''content'' record) status_excerpt) found) rest)"

definition extract_last_assistant_excerpt :: "Platform \<Rightarrow> string \<Rightarrow> string option" where
  "extract_last_assistant_excerpt pf transcript_path =
     (if path_extension transcript_path \<noteq> Some ''jsonl'' then None
      else if file_stem transcript_path \<noteq> Some ''transcript''
              \<and> file_stem transcript_path \<noteq> Some ''transcript_full'' then None
      else
        let full = with_file_name transcript_path ''transcript_full.jsonl'';
            candidate =
              (if pf_is_regular pf transcript_path then Some transcript_path
               else if file_name transcript_path = Some ''transcript.jsonl'' \<and> pf_is_regular pf full
               then Some full else None)
        in Option.bind (Option.bind candidate (pf_read_bounded pf)) (\<lambda>content.
             last_excerpt pf None (read_lines content)))"

section \<open>The dialect\<close>

definition Agy_event :: "Json \<Rightarrow> string option" where
  "Agy_event raw =
     Option.bind (or_else (get ''hook_event_name'' raw) (or_else (get ''event_name'' raw) (get ''type'' raw)))
       as_str"

definition requests_approval :: "Platform \<Rightarrow> Json \<Rightarrow> string option \<Rightarrow> bool" where
  "requests_approval pf raw trusted_workspace \<longleftrightarrow>
     Agy_tool_name raw = Some ''ask_permission''
     \<or> (Agy_tool_name raw = Some ''run_command'' \<and> run_command_requests_approval pf (get ''toolCall'' raw))
     \<or> file_tool_requests_approval pf raw trusted_workspace"

definition Agy_classify :: "Platform \<Rightarrow> Json \<Rightarrow> EventKind option" where
  "Agy_classify pf raw =
     Option.bind (Agy_event raw) (\<lambda>name.
       if name = ''SessionStart'' then Some KProviderSessionStarted
       else if name = ''PreInvocation'' then Some KNewTurn
       else if name = ''PreToolUse'' then
         (if Agy_tool_name raw = Some ''ask_question'' then Some KWaitingInput
          else if requests_approval pf raw None then Some KWaitingApproval
          else Some KWorking)
       else if name = ''PostToolUse'' then Some KWorking
       else if name = ''PostInvocation'' then Some KEnrichment
       else if name = ''Stop'' then
         (let t = get_str ''terminationReason'' raw
          in if t = Some ''USER_CANCELED'' then Some KInterrupted
             else if t \<in> {Some ''ERROR'', Some ''MAX_INVOCATIONS'', Some ''MAX_FORCED_INVOCATIONS'',
                          Some ''MAX_TOKEN_BUDGET_EXCEEDED''} then Some KFailed
             else Some KCompleted)
       else None)"

definition Agy_provider_event_id :: "Json \<Rightarrow> string option" where
  "Agy_provider_event_id raw = Option.bind (or_else (get ''event_id'' raw) (get ''eventId'' raw)) as_str"

definition Agy_provider_session_id :: "Json \<Rightarrow> string option" where
  "Agy_provider_session_id raw =
     Option.bind (or_else (get ''conversationId'' raw) (get ''session_id'' raw)) as_str"

definition Agy_metadata :: "Json \<Rightarrow> ProviderMetadata option" where
  "Agy_metadata raw =
     (let model = filter_opt (\<lambda>m. m \<noteq> []) (Option.bind (Option.bind
            (or_else (get ''modelName'' raw) (get ''model'' raw)) as_str) (\<lambda>m. sanitize_bounded m 160));
          metadata = \<lparr>pm_model = model, pm_model_label = map_option Agy_model_label model,
            pm_effort = None, pm_permission_mode = None, pm_current_turn_id = None\<rparr>
      in if metadata = ProviderMetadata_default then None else Some metadata)"

fun Number_to_string :: "Number \<Rightarrow> string" where
  "Number_to_string (PosInt n) = show_nat (unat n)"
| "Number_to_string (NegInt i) = ''-'' @ show_nat (nat (- i))"
| "Number_to_string (Float text) = text"

text \<open>A number or a string as text, nothing for other values and for the empty string.\<close>

definition scalar_text :: "Json option \<Rightarrow> string option" where
  "scalar_text v = filter_opt (\<lambda>s. s \<noteq> []) (map_option (\<lambda>v. case v of
     JNumber n \<Rightarrow> Number_to_string n | JString s \<Rightarrow> s | _ \<Rightarrow> []) v)"

definition Agy_turn_id :: "Json \<Rightarrow> string option" where
  "Agy_turn_id raw = scalar_text (or_else (get ''invocationNum'' raw) (get ''turn_id'' raw))"

definition Agy_label :: "string \<Rightarrow> string option" where
  "Agy_label name = (if name = ''run_command'' then Some ''shell'' else normalized_tool_label name)"

definition Agy_approval_reason :: "Platform \<Rightarrow> Json \<Rightarrow> StatusReasonContext option" where
  "Agy_approval_reason pf raw =
     Option.bind (get ''toolCall'' raw) (\<lambda>tool_call.
     Option.bind (Option.bind (or_else (get ''name'' tool_call) (get ''tool_name'' raw)) as_str) (\<lambda>name.
     Option.bind (Agy_label name) (\<lambda>label.
       let args = get ''args'' tool_call;
           tool_summary = Option.bind (tool_arg_str pf args ''toolSummary'') status_excerpt;
           file_path = (if name \<in> set FILE_TOOLS
             then Option.bind (extract_target_file_path pf (Some tool_call) raw) status_excerpt else None);
           command_line = Option.bind (tool_arg_str pf args ''CommandLine'') status_excerpt;
           reason_arg = Option.bind (or_else (tool_arg_str pf args ''reason'')
             (tool_arg_str pf args ''message'')) status_excerpt;
           (summary, source) =
             (case tool_summary of Some desc \<Rightarrow> (Some desc, Description)
              | None \<Rightarrow> (case file_path of Some path \<Rightarrow> (Some path, Description)
              | None \<Rightarrow> (case command_line of Some cmd \<Rightarrow> (Some cmd, Command)
              | None \<Rightarrow> (case reason_arg of Some why \<Rightarrow> (Some why, Description)
              | None \<Rightarrow> (None, ToolName)))))
       in Some (reason source (case summary of Some desc \<Rightarrow> label @ '' '' @ desc | None \<Rightarrow> label)))))"

definition Agy_input_reason :: "Platform \<Rightarrow> Json \<Rightarrow> StatusReasonContext option" where
  "Agy_input_reason pf raw =
     (let questions_val = map_option (parse_tool_arg pf) (Option.bind (Option.bind
            (get ''toolCall'' raw) (get ''args'')) (get ''questions''));
          question = Option.bind (Option.bind (Option.bind questions_val as_array)
            (\<lambda>qs. case qs of [] \<Rightarrow> None | q # _ \<Rightarrow> get_str ''question'' q)) status_excerpt
      in case question of
           Some summary \<Rightarrow> Some (reason Question summary)
         | None \<Rightarrow> status_reason_context pf raw True)"

definition Agy_completed_reason :: "Platform \<Rightarrow> Json \<Rightarrow> StatusReasonContext option" where
  "Agy_completed_reason pf raw =
     (case Option.bind (Option.bind (or_else (get ''last_assistant_message'' raw) (get ''excerpt'' raw))
             as_str) status_excerpt of
        Some summary \<Rightarrow> Some (reason AssistantMessage summary)
      | None \<Rightarrow>
          map_option (reason AssistantMessage) (Option.bind (Option.bind
            (or_else (get ''transcriptPath'' raw) (get ''transcript_path'' raw)) as_str)
            (extract_last_assistant_excerpt pf)))"

definition Agy_failure_reason :: "Json \<Rightarrow> StatusReasonContext option" where
  "Agy_failure_reason raw =
     map_option (reason FailureCategory) (Option.bind (Option.bind
       (or_else (get ''terminationReason'' raw) (get ''error'' raw)) as_str) status_excerpt)"

definition Agy_tool_start :: "Platform \<Rightarrow> Json \<Rightarrow> NormalizeContext \<Rightarrow> ToolActivityUpdate option" where
  "Agy_tool_start pf raw ctx =
     Option.bind (Agy_tool_name raw) (\<lambda>name.
       if name = ''ask_question'' then None
       else Option.bind (Agy_label name) (\<lambda>label.
         let args = Option.bind (get ''toolCall'' raw) (get ''args'')
         in Some
          \<lparr>tu_phase = (if requests_approval pf raw (nc_workspace ctx) then Attention else Start),
           tu_label = label,
           tu_correlation_id = scalar_text (get ''stepIdx'' raw),
           tu_detail = Option.bind (or_else (tool_arg_str pf args ''toolSummary'')
             (or_else (if name \<in> set FILE_TOOLS
                       then extract_target_file_path pf (get ''toolCall'' raw) raw else None)
               (tool_arg_str pf args ''CommandLine''))) status_excerpt\<rparr>))"

definition Agy_tool_finish :: "Json \<Rightarrow> ToolActivityUpdate option" where
  "Agy_tool_finish raw =
     map_option (\<lambda>label.
       \<lparr>tu_phase = (if nonblank (unwrap_or (get_str ''error'' raw) []) then Failure else Finish),
        tu_label = label,
        tu_correlation_id = scalar_text (get ''stepIdx'' raw),
        tu_detail = None\<rparr>)
       (case Agy_tool_name raw of Some name \<Rightarrow> Agy_label name | None \<Rightarrow> Some ''tool'')"

definition Agy_tool_activity :: "Platform \<Rightarrow> Json \<Rightarrow> NormalizeContext \<Rightarrow> ToolActivityUpdate option" where
  "Agy_tool_activity pf raw ctx =
     Option.bind (Agy_event raw) (\<lambda>event.
       if event = ''PreToolUse'' then Agy_tool_start pf raw ctx
       else if event = ''PostToolUse'' then Agy_tool_finish raw
       else None)"

definition Agy_collection_context :: "Json \<Rightarrow> ArtifactCollectionContext option" where
  "Agy_collection_context raw =
     filter_opt (\<lambda>c. ac_provider_session_id c \<noteq> [] \<and> ac_locator c \<noteq> [])
       (Option.bind (Agy_provider_session_id raw) (\<lambda>conversation_id.
        Option.bind (Option.bind (or_else (get ''transcriptPath'' raw) (get ''transcript_path'' raw)) as_str)
          (\<lambda>locator. Some \<lparr>ac_adapter_identity = Agy, ac_provider_session_id = conversation_id,
                          ac_locator = locator\<rparr>)))"

definition AgyDialect :: "Platform \<Rightarrow> HookDialect" where
  "AgyDialect pf =
     \<lparr>hd_id = Agy,
      hd_terminal_policy = TerminalPolicy_default,
      hd_classify = Agy_classify pf,
      hd_child_agent = default_child_agent,
      hd_provider_event_id = Agy_provider_event_id,
      hd_observed_at = default_observed_at,
      hd_provider_session_id = Agy_provider_session_id,
      hd_session_name = default_session_name,
      hd_start_reason = hook_start_reason,
      hd_metadata = Agy_metadata,
      hd_inline_usage = default_inline_usage,
      hd_turn_id = Agy_turn_id,
      hd_approval_reason = Agy_approval_reason pf,
      hd_input_reason = Agy_input_reason pf,
      hd_completed_reason = Agy_completed_reason pf,
      hd_failure_reason = Agy_failure_reason,
      hd_tool_activity = Agy_tool_activity pf,
      hd_collection_context = Agy_collection_context\<rparr>"

end
