(* ===== verification/Collectors.thy ===== *)
theory Collectors
  imports Antigravity
begin

text \<open>
  The session collectors: \<^verbatim>\<open>artifact.rs\<close> and the \<open>scan\<close> functions of \<^verbatim>\<open>claude.rs\<close>, \<^verbatim>\<open>codex.rs\<close>,
  \<^verbatim>\<open>qwen.rs\<close> and \<^verbatim>\<open>agy.rs\<close>. The file system answers through a record of functions: an opened
  artifact is its metadata and its bytes, and \<open>fs_after\<close> is the metadata read when the scan is over.
  The cancellation flag is shared with another thread, so what the \<open>n\<close>th look at it returns is a
  function of \<open>n\<close>. An error is its innermost message.
\<close>

section \<open>Requests and artifacts\<close>

record FileMetadata =
  md_device :: u64
  md_inode :: u64
  md_len :: u64
  md_is_file :: bool

record ArtifactFs =
  fs_canonicalize :: "string \<Rightarrow> string option"
  fs_is_symlink :: "string \<Rightarrow> bool option"
  fs_is_regular :: "string \<Rightarrow> bool"
  fs_exists :: "string \<Rightarrow> bool"
  fs_open :: "string \<Rightarrow> (FileMetadata \<times> string) option"
  fs_after :: "string \<Rightarrow> FileMetadata option"

record ProviderSessionKey =
  sk_configured_provider :: string
  sk_adapter_identity :: ProviderId
  sk_provider_session_id :: string

record ArtifactCursor =
  cu_device :: u64
  cu_inode :: u64
  cu_stable_len :: u64

record CodexCursor =
  cc_rollout :: ArtifactCursor
  cc_index :: "ArtifactCursor option"

datatype OpaqueCursor = FileCursor ArtifactCursor | RolloutCursor CodexCursor

record CollectSessionDataRequest =
  rq_home :: string
  rq_key :: ProviderSessionKey
  rq_locator :: string
  rq_prior_cursor :: "OpaqueCursor option"
  rq_cancelled :: "nat \<Rightarrow> bool"

record SessionEnrichment =
  se_session_name :: "string option"
  se_usage :: "Usage option"
  se_model :: "string option"
  se_model_label :: "string option"

datatype Collected = Complete SessionEnrichment OpaqueCursor | Unchanged OpaqueCursor

datatype CollectError = CollectCancelled | CollectFailed string

definition ArtifactCursor_from :: "FileMetadata \<Rightarrow> ArtifactCursor" where
  "ArtifactCursor_from m = \<lparr>cu_device = md_device m, cu_inode = md_inode m, cu_stable_len = md_len m\<rparr>"

definition ensure_stable :: "ArtifactCursor \<Rightarrow> FileMetadata option \<Rightarrow> CollectError + unit" where
  "ensure_stable cursor after =
     (case after of
        None \<Rightarrow> Inl (CollectFailed ''metadata'')
      | Some m \<Rightarrow>
          if md_device m \<noteq> cu_device cursor \<or> md_inode m \<noteq> cu_inode cursor \<or> md_len m < cu_stable_len cursor
          then Inl (CollectFailed ''artifact changed identity during collection'')
          else Inr ())"

definition cursor_unchanged :: "OpaqueCursor option \<Rightarrow> ArtifactCursor \<Rightarrow> bool" where
  "cursor_unchanged prior current = (prior = Some (FileCursor current))"

definition check_cancelled :: "CollectSessionDataRequest \<Rightarrow> nat \<Rightarrow> CollectError + unit" where
  "check_cancelled request n = (if rq_cancelled request n then Inl CollectCancelled else Inr ())"

definition optional_u64 :: "Json \<Rightarrow> string \<Rightarrow> CollectError + u64 option" where
  "optional_u64 v name =
     (case get name v of
        None \<Rightarrow> Inr None
      | Some n \<Rightarrow> (case as_u64 n of
           Some w \<Rightarrow> Inr (Some w)
         | None \<Rightarrow> Inl (CollectFailed (''invalid numeric field '' @ name))))"

definition checked_add :: "string \<Rightarrow> u64 \<Rightarrow> u64 \<Rightarrow> CollectError + u64" where
  "checked_add message a b =
     (if unat a + unat b < 2 ^ 64 then Inr (a + b) else Inl (CollectFailed message))"

definition ok_or :: "CollectError \<Rightarrow> 'a option \<Rightarrow> CollectError + 'a" where
  "ok_or e x = (case x of None \<Rightarrow> Inl e | Some v \<Rightarrow> Inr v)"

definition ensure :: "bool \<Rightarrow> string \<Rightarrow> CollectError + unit" where
  "ensure c message = (if c then Inr () else Inl (CollectFailed message))"

definition validate_under_root ::
    "ArtifactFs \<Rightarrow> string \<Rightarrow> string \<Rightarrow> string option \<Rightarrow> string \<Rightarrow> CollectError + string" where
  "validate_under_root fs root locator expected_stem extension =
     result_bind (ok_or (CollectFailed ''artifact root is unavailable'') (fs_canonicalize fs root)) (\<lambda>root.
     let unresolved = (if is_absolute locator then locator else path_join root locator)
     in result_bind (ok_or (CollectFailed ''symlink_metadata'') (fs_is_symlink fs unresolved)) (\<lambda>symlink.
        result_bind (ensure (\<not> symlink) ''artifact must not be a symlink'') (\<lambda>_.
        result_bind (ok_or (CollectFailed ''canonicalize'') (fs_canonicalize fs unresolved)) (\<lambda>canonical.
        result_bind (ensure (path_starts_with canonical root) ''artifact escapes allowed root'') (\<lambda>_.
        result_bind (ensure (Option.bind (path_extension canonical) to_str = Some extension)
          ''artifact has an unexpected extension'') (\<lambda>_.
        result_bind (ensure (is_none_or (\<lambda>stem. Option.bind (file_stem canonical) to_str = Some stem)
          expected_stem) ''artifact identity mismatch'') (\<lambda>_. Inr canonical)))))))"

definition open_bounded_nofollow ::
    "ArtifactFs \<Rightarrow> string \<Rightarrow> u64 \<Rightarrow> CollectError + FileMetadata \<times> string" where
  "open_bounded_nofollow fs path max_bytes =
     result_bind (ok_or (CollectFailed ''open'') (fs_open fs path)) (\<lambda>(metadata, bytes).
       if \<not> md_is_file metadata \<or> max_bytes < md_len metadata
       then Inl (CollectFailed ''artifact is not a bounded regular file'')
       else Inr (metadata, bytes))"

definition MAX_SCAN_BYTES :: u64 where "MAX_SCAN_BYTES = 64 * 1024 * 1024"

text \<open>
  The loop the four collectors repeat: look at the flag, read a line, stop at the end or at a line
  that is not complete, refuse a line over the limit, read the record, and take the step of the
  collector. The second component of the result is the number of looks at the flag.
\<close>

fun scan_records ::
    "Platform \<Rightarrow> CollectSessionDataRequest \<Rightarrow> string \<Rightarrow> string \<Rightarrow> (Json \<Rightarrow> 's \<Rightarrow> CollectError + 's)
     \<Rightarrow> nat \<Rightarrow> 's \<Rightarrow> string list \<Rightarrow> CollectError + 's \<times> nat" where
  "scan_records pf request too_long malformed step n st [] =
     result_bind (check_cancelled request n) (\<lambda>_. Inr (st, n + 1))"
| "scan_records pf request too_long malformed step n st (line # rest) =
     result_bind (check_cancelled request n) (\<lambda>_.
       if MAX_LINE_BYTES < length line then Inl (CollectFailed too_long)
       else if \<not> ends_with line [newline] then Inr (st, n + 1)
       else result_bind (ok_or (CollectFailed malformed) (pf_from_str pf line)) (\<lambda>v.
            result_bind (step v st) (\<lambda>st'.
              scan_records pf request too_long malformed step (n + 1) st' rest)))"

section \<open>Claude\<close>

record ClaudeScan =
  cl_input :: u64
  cl_output :: u64
  cl_context :: "u64 option"
  cl_response_ids :: "string list"
  cl_usage_observed :: bool
  cl_session_name :: "string option"
  cl_model :: "string option"

definition ClaudeScan_init :: ClaudeScan where
  "ClaudeScan_init = \<lparr>cl_input = 0, cl_output = 0, cl_context = None, cl_response_ids = [],
     cl_usage_observed = False, cl_session_name = None, cl_model = None\<rparr>"

definition Claude_model_of :: "Json \<Rightarrow> string option" where
  "Claude_model_of v =
     (if get_str ''type'' v = Some ''assistant''
      then Option.bind (filter_opt (\<lambda>name. name \<noteq> ''<synthetic>'')
             (Option.bind (get ''message'' v) (get_str ''model'')))
             (\<lambda>name. sanitize_bounded name MODEL_MAX_CHARS)
      else None)"

text \<open>The row of a record that counts: its response and its usage.\<close>

definition Claude_row :: "Json \<Rightarrow> (string \<times> Json) option" where
  "Claude_row v =
     Option.bind (or_else (Option.bind (get ''message'' v) (get ''usage'')) (get ''usage'' v)) (\<lambda>usage.
     Option.bind (filter_opt nonblank
         (or_else (Option.bind (get ''message'' v) (get_str ''id'')) (get_str ''requestId'' v)))
       (\<lambda>response_id. Some (response_id, usage)))"

definition Claude_count :: "Json \<Rightarrow> ClaudeScan \<Rightarrow> CollectError + ClaudeScan" where
  "Claude_count usage st =
     result_bind (optional_u64 usage ''input_tokens'') (\<lambda>fresh.
     result_bind (optional_u64 usage ''cache_read_input_tokens'') (\<lambda>cache_read.
     result_bind (optional_u64 usage ''cache_creation_input_tokens'') (\<lambda>cache_create.
     result_bind (checked_add ''Claude input token overflow'' (unwrap_or fresh 0) (unwrap_or cache_read 0))
       (\<lambda>partial.
     result_bind (checked_add ''Claude input token overflow'' partial (unwrap_or cache_create 0)) (\<lambda>current.
     result_bind (checked_add ''Claude cumulative input overflow'' (cl_input st) current) (\<lambda>input.
     result_bind (optional_u64 usage ''output_tokens'') (\<lambda>row_output.
     result_bind (checked_add ''Claude cumulative output overflow'' (cl_output st) (unwrap_or row_output 0))
       (\<lambda>output.
       Inr (st\<lparr>cl_input := input, cl_output := output, cl_context := Some current\<rparr>)))))))))"

definition Claude_step :: "string \<Rightarrow> Json \<Rightarrow> ClaudeScan \<Rightarrow> CollectError + ClaudeScan" where
  "Claude_step session v st =
     result_bind (ensure (is_none_or (\<lambda>s. s = session)
         (Option.bind (or_else (get ''sessionId'' v) (get ''session_id'' v)) as_str))
       ''Claude artifact session mismatch'') (\<lambda>_.
     let title = Option.bind (field v [''customTitle'', ''aiTitle'']) (\<lambda>t. sanitize_bounded t 160);
         st = st\<lparr>cl_session_name := or_else title (cl_session_name st),
                 cl_model := or_else (Claude_model_of v) (cl_model st)\<rparr>
     in case Claude_row v of
          None \<Rightarrow> Inr st
        | Some (response_id, usage) \<Rightarrow>
            if response_id \<in> set (cl_response_ids st) then Inr st
            else Claude_count usage (st\<lparr>cl_response_ids := response_id # cl_response_ids st,
                                         cl_usage_observed := True\<rparr>))"

definition ClaudeScan_enrichment :: "ClaudeScan \<Rightarrow> SessionEnrichment" where
  "ClaudeScan_enrichment st =
     \<lparr>se_session_name = cl_session_name st,
      se_usage = (if cl_usage_observed st
        then Some \<lparr>us_input_tokens = Some (cl_input st), us_output_tokens = Some (cl_output st),
                   us_context_tokens = cl_context st, us_context_window_percent = None\<rparr>
        else None),
      se_model = cl_model st,
      se_model_label = Option.bind (cl_model st) Claude_model_label\<rparr>"

definition Claude_scan :: "Platform \<Rightarrow> ArtifactFs \<Rightarrow> CollectSessionDataRequest \<Rightarrow> CollectError + Collected" where
  "Claude_scan pf fs request =
     result_bind (check_cancelled request 0) (\<lambda>_.
     result_bind (validate_under_root fs (path_join (rq_home request) ''.claude/projects'')
       (rq_locator request) (Some (sk_provider_session_id (rq_key request))) ''jsonl'') (\<lambda>canonical.
     result_bind (check_cancelled request 1) (\<lambda>_.
     result_bind (open_bounded_nofollow fs canonical MAX_SCAN_BYTES) (\<lambda>(metadata, bytes).
     let cursor = ArtifactCursor_from metadata
     in if cursor_unchanged (rq_prior_cursor request) cursor then Inr (Unchanged (FileCursor cursor))
        else
          result_bind (scan_records pf request ''Claude artifact record exceeds limit''
            ''malformed Claude record'' (Claude_step (sk_provider_session_id (rq_key request))) 2
            ClaudeScan_init (read_lines bytes)) (\<lambda>(st, n).
          result_bind (check_cancelled request n) (\<lambda>_.
          result_bind (ensure_stable cursor (fs_after fs canonical)) (\<lambda>_.
            Inr (Complete (ClaudeScan_enrichment st) (FileCursor cursor)))))))))"

section \<open>Percentages\<close>

text \<open>
  \<open>percent\<close> of codex.rs and \<open>context_percent\<close> of qwen.rs: 128-bit arithmetic cannot overflow on
  64-bit inputs, and the result is at most 100, so both fallible steps succeed.
\<close>

definition percent :: "u64 \<Rightarrow> u64 \<Rightarrow> u8" where
  "percent v window = word_of_nat (min ((unat v * 100 + unat window div 2) div unat window) 100)"

definition percent_of :: "u64 \<Rightarrow> u64 option \<Rightarrow> u8 option" where
  "percent_of v window = Option.bind window (\<lambda>w. if 0 < w then Some (percent v w) else None)"

section \<open>Codex\<close>

record CodexScan =
  cx_session_bound :: bool
  cx_latest :: "Usage option"
  cx_session_name :: "string option"

definition Codex_usage :: "Json \<Rightarrow> CollectError + Usage option" where
  "Codex_usage payload =
     (case filter_opt (\<lambda>v. v \<noteq> JNull) (get ''info'' payload) of
        None \<Rightarrow> Inr None
      | Some info \<Rightarrow>
         (case (get ''total_token_usage'' info, get ''last_token_usage'' info) of
            (Some total_usage, Some last_usage) \<Rightarrow>
              result_bind (optional_u64 total_usage ''input_tokens'') (\<lambda>input.
              result_bind (optional_u64 total_usage ''output_tokens'') (\<lambda>output.
              result_bind (optional_u64 last_usage ''total_tokens'') (\<lambda>ctx.
                case (input, output, ctx) of
                  (Some i, Some o', Some c) \<Rightarrow>
                    result_bind (optional_u64 info ''model_context_window'') (\<lambda>window.
                      Inr (Some \<lparr>us_input_tokens = Some i, us_output_tokens = Some o',
                                 us_context_tokens = Some c,
                                 us_context_window_percent = percent_of c window\<rparr>))
                | _ \<Rightarrow> Inr None)))
          | _ \<Rightarrow> Inr None))"

definition Codex_step :: "string \<Rightarrow> Json \<Rightarrow> CodexScan \<Rightarrow> CollectError + CodexScan" where
  "Codex_step session v st =
     (case (get_str ''type'' v, get ''payload'' v) of
        (Some record_type, Some payload) \<Rightarrow>
          if record_type = ''session_meta'' then
            result_bind (ensure (list_ex (\<lambda>f. get_str f payload = Some session) [''session_id'', ''id''])
              ''Codex artifact session mismatch'') (\<lambda>_.
              Inr (st\<lparr>cx_session_bound := True,
                cx_session_name := Option.bind (field payload [''session_name'', ''title''])
                  (\<lambda>t. sanitize_bounded t 160)\<rparr>))
          else if record_type \<noteq> ''event_msg'' \<or> get_str ''type'' payload \<noteq> Some ''token_count'' then Inr st
          else result_bind (Codex_usage payload) (\<lambda>usage. Inr (st\<lparr>cx_latest := or_else usage (cx_latest st)\<rparr>))
      | _ \<Rightarrow> Inr st)"

text \<open>The index is optional: what fails on it is forgotten, except a cancellation.\<close>

definition open_index ::
    "ArtifactFs \<Rightarrow> CollectSessionDataRequest \<Rightarrow> nat \<Rightarrow> CollectError + FileMetadata \<times> string" where
  "open_index fs request n =
     result_bind (check_cancelled request n) (\<lambda>_.
     let path = path_join (rq_home request) ''.codex/session_index.jsonl''
     in result_bind (ok_or (CollectFailed ''symlink_metadata'') (fs_is_symlink fs path)) (\<lambda>symlink.
        result_bind (ensure (\<not> symlink) ''Codex session index must not be a symlink'') (\<lambda>_.
          open_bounded_nofollow fs path MAX_SCAN_BYTES)))"

fun scan_index_records ::
    "Platform \<Rightarrow> CollectSessionDataRequest \<Rightarrow> nat \<Rightarrow> nat \<Rightarrow> string option \<Rightarrow> string list
     \<Rightarrow> CollectError + string option \<times> nat" where
  "scan_index_records pf request n read latest [] =
     result_bind (check_cancelled request n) (\<lambda>_. Inr (latest, n + 1))"
| "scan_index_records pf request n read latest (line # rest) =
     result_bind (check_cancelled request n) (\<lambda>_.
       if 2 ^ 64 \<le> read + length line then Inl (CollectFailed ''Codex session index size overflow'')
       else if unat MAX_SCAN_BYTES < read + length line
       then Inl (CollectFailed ''Codex session index exceeds limit'')
       else if MAX_LINE_BYTES < length line
       then Inl (CollectFailed ''Codex session index record exceeds limit'')
       else if \<not> ends_with line [newline] then Inr (latest, n + 1)
       else
         let name = Option.bind (pf_from_str pf line) (\<lambda>v.
               if get_str ''id'' v \<noteq> Some (sk_provider_session_id (rq_key request)) then None
               else Option.bind (get_str ''thread_name'' v) (\<lambda>t. sanitize_bounded t 160))
         in scan_index_records pf request (n + 1) (read + length line) (or_else name latest) rest)"

definition scan_index ::
    "Platform \<Rightarrow> ArtifactFs \<Rightarrow> CollectSessionDataRequest \<Rightarrow> nat \<Rightarrow> ArtifactCursor \<Rightarrow> string
     \<Rightarrow> CollectError + string option" where
  "scan_index pf fs request n cursor bytes =
     result_bind (scan_index_records pf request n 0 None (read_lines bytes)) (\<lambda>(latest, n).
     result_bind (check_cancelled request n) (\<lambda>_.
     let after = fs_after fs (path_join (rq_home request) ''.codex/session_index.jsonl'')
     in result_bind (ensure_stable cursor after) (\<lambda>_.
        result_bind (ensure (is_some_and (\<lambda>m. md_len m \<le> MAX_SCAN_BYTES) after)
          ''Codex session index changed identity during collection'') (\<lambda>_. Inr latest))))"

definition Codex_names_session :: "string \<Rightarrow> string \<Rightarrow> bool" where
  "Codex_names_session session canonical =
     is_some_and (\<lambda>stem. ends_with stem session
         \<and> ends_with (take (length stem - length session) stem) ''-'')
       (Option.bind (file_stem canonical) to_str)"

definition Codex_scan :: "Platform \<Rightarrow> ArtifactFs \<Rightarrow> CollectSessionDataRequest \<Rightarrow> CollectError + Collected" where
  "Codex_scan pf fs request =
     (let session = sk_provider_session_id (rq_key request)
      in result_bind (check_cancelled request 0) (\<lambda>_.
     result_bind (validate_under_root fs (path_join (rq_home request) ''.codex/sessions'')
       (rq_locator request) None ''jsonl'') (\<lambda>canonical.
     result_bind (ensure (Codex_names_session session canonical) ''Codex artifact identity mismatch'') (\<lambda>_.
     result_bind (check_cancelled request 1) (\<lambda>_.
     result_bind (open_bounded_nofollow fs canonical MAX_SCAN_BYTES) (\<lambda>(metadata, bytes).
     result_bind (case open_index fs request 2 of
         Inr (m, b) \<Rightarrow> Inr (Some (ArtifactCursor_from m, b))
       | Inl _ \<Rightarrow> result_bind (check_cancelled request 3) (\<lambda>_. Inr None)) (\<lambda>index.
     let cursor = \<lparr>cc_rollout = ArtifactCursor_from metadata, cc_index = map_option fst index\<rparr>
     in if rq_prior_cursor request = Some (RolloutCursor cursor) then Inr (Unchanged (RolloutCursor cursor))
        else
          result_bind (scan_records pf request ''Codex artifact record exceeds limit''
            ''malformed Codex record'' (Codex_step session) 4
            \<lparr>cx_session_bound = False, cx_latest = None, cx_session_name = None\<rparr> (read_lines bytes)) (\<lambda>(st, n).
          result_bind (check_cancelled request n) (\<lambda>_.
          result_bind (ensure (cx_session_bound st) ''Codex artifact did not bind requested session'') (\<lambda>_.
          result_bind (ensure_stable (cc_rollout cursor) (fs_after fs canonical)) (\<lambda>_.
          result_bind (case index of
              None \<Rightarrow> Inr None
            | Some (index_cursor, b) \<Rightarrow>
               (case scan_index pf fs request (n + 1) index_cursor b of
                  Inr name \<Rightarrow> Inr name
                | Inl _ \<Rightarrow> result_bind (check_cancelled request (n + 3 + length (read_lines b))) (\<lambda>_. Inr None))) (\<lambda>index_name.
            Inr (Complete \<lparr>se_session_name = or_else index_name (cx_session_name st),
                           se_usage = cx_latest st, se_model = None, se_model_label = None\<rparr>
                  (RolloutCursor cursor))))))))))))))"

section \<open>Qwen\<close>

record QwenScan =
  qw_input :: u64
  qw_output :: u64
  qw_context :: "u64 option"
  qw_percent :: "u8 option"
  qw_usage_observed :: bool
  qw_session_name :: "string option"

definition QwenScan_init :: QwenScan where
  "QwenScan_init = \<lparr>qw_input = 0, qw_output = 0, qw_context = None, qw_percent = None,
     qw_usage_observed = False, qw_session_name = None\<rparr>"

definition Qwen_step :: "string \<Rightarrow> Json \<Rightarrow> QwenScan \<Rightarrow> CollectError + QwenScan" where
  "Qwen_step session v st =
     result_bind (ensure (is_none_or (\<lambda>s. s = session) (get_str ''sessionId'' v))
       ''Qwen artifact session mismatch'') (\<lambda>_.
     let name = Option.bind (field v [''sessionName'', ''title'']) (\<lambda>t. sanitize_bounded t 160);
         st = st\<lparr>qw_session_name := or_else name (qw_session_name st)\<rparr>
     in if get_str ''type'' v \<noteq> Some ''assistant'' then Inr st
        else case get ''usageMetadata'' v of
          None \<Rightarrow> Inr st
        | Some usage \<Rightarrow>
            result_bind (optional_u64 usage ''promptTokenCount'') (\<lambda>row_input.
            result_bind (optional_u64 usage ''candidatesTokenCount'') (\<lambda>row_output.
              case (row_input, row_output) of
                (Some i, Some o') \<Rightarrow>
                  result_bind (checked_add ''Qwen cumulative input overflow'' (qw_input st) i) (\<lambda>input.
                  result_bind (checked_add ''Qwen cumulative output overflow'' (qw_output st) o') (\<lambda>output.
                  result_bind (optional_u64 v ''contextWindowSize'') (\<lambda>window.
                    Inr (st\<lparr>qw_usage_observed := True, qw_input := input, qw_output := output,
                            qw_context := Some i, qw_percent := percent_of i window\<rparr>))))
              | _ \<Rightarrow> Inr st)))"

definition QwenScan_enrichment :: "QwenScan \<Rightarrow> SessionEnrichment" where
  "QwenScan_enrichment st =
     \<lparr>se_session_name = qw_session_name st,
      se_usage = (if qw_usage_observed st
        then Some \<lparr>us_input_tokens = Some (qw_input st), us_output_tokens = Some (qw_output st),
                   us_context_tokens = qw_context st, us_context_window_percent = qw_percent st\<rparr>
        else None),
      se_model = None, se_model_label = None\<rparr>"

definition Qwen_scan :: "Platform \<Rightarrow> ArtifactFs \<Rightarrow> CollectSessionDataRequest \<Rightarrow> CollectError + Collected" where
  "Qwen_scan pf fs request =
     result_bind (check_cancelled request 0) (\<lambda>_.
     result_bind (validate_under_root fs (path_join (rq_home request) ''.qwen/projects'')
       (rq_locator request) (Some (sk_provider_session_id (rq_key request))) ''jsonl'') (\<lambda>canonical.
     result_bind (check_cancelled request 1) (\<lambda>_.
     result_bind (open_bounded_nofollow fs canonical MAX_SCAN_BYTES) (\<lambda>(metadata, bytes).
     let cursor = ArtifactCursor_from metadata
     in if cursor_unchanged (rq_prior_cursor request) cursor then Inr (Unchanged (FileCursor cursor))
        else
          result_bind (scan_records pf request ''Qwen artifact record exceeds limit''
            ''malformed Qwen record'' (Qwen_step (sk_provider_session_id (rq_key request))) 2
            QwenScan_init (read_lines bytes)) (\<lambda>(st, n).
          result_bind (check_cancelled request n) (\<lambda>_.
          result_bind (ensure_stable cursor (fs_after fs canonical)) (\<lambda>_.
            Inr (Complete (QwenScan_enrichment st) (FileCursor cursor)))))))))"

section \<open>Antigravity\<close>

record AgyScan =
  ag_input :: u64
  ag_output :: u64
  ag_context :: "u64 option"
  ag_seen_steps :: "u64 list"
  ag_usage_observed :: bool
  ag_model :: "string option"

definition AgyScan_init :: AgyScan where
  "AgyScan_init = \<lparr>ag_input = 0, ag_output = 0, ag_context = None, ag_seen_steps = [],
     ag_usage_observed = False, ag_model = None\<rparr>"

text \<open>
  A count of the record itself, which must be a number if it is there, else of its \<open>usage\<close>
  object, where anything that is not a number counts as absent, else zero.
\<close>

definition Agy_count_field :: "Json \<Rightarrow> string \<Rightarrow> CollectError + u64" where
  "Agy_count_field v name =
     result_bind (optional_u64 v name) (\<lambda>own.
       Inr (unwrap_or (or_else own (Option.bind (get ''usage'' v) (get_u64 name))) 0))"

definition Agy_step :: "Json \<Rightarrow> AgyScan \<Rightarrow> CollectError + AgyScan" where
  "Agy_step v st =
     (let latest = Option.bind (Option.bind (or_else (get ''modelName'' v) (get ''model'' v)) as_str)
            (\<lambda>m. sanitize_bounded m 160);
          st = st\<lparr>ag_model := or_else latest (ag_model st)\<rparr>
      in if get_str ''type'' v \<noteq> Some ''PLANNER_RESPONSE'' then Inr st
         else result_bind (optional_u64 v ''step_index'') (\<lambda>step_index.
           case step_index of
             None \<Rightarrow> Inr st
           | Some i \<Rightarrow>
               if i \<in> set (ag_seen_steps st) then Inr st
               else
                 result_bind (Agy_count_field v ''input_tokens'') (\<lambda>row_input.
                 result_bind (Agy_count_field v ''cache_read_tokens'') (\<lambda>row_cache.
                 result_bind (Agy_count_field v ''output_tokens'') (\<lambda>row_output.
                 result_bind (checked_add ''Antigravity input token overflow'' row_input row_cache) (\<lambda>step_input.
                 result_bind (checked_add ''Antigravity cumulative input overflow'' (ag_input st) step_input) (\<lambda>input.
                 result_bind (checked_add ''Antigravity cumulative output overflow'' (ag_output st) row_output) (\<lambda>output.
                   Inr (st\<lparr>ag_seen_steps := i # ag_seen_steps st, ag_usage_observed := True,
                           ag_input := input, ag_output := output, ag_context := Some step_input\<rparr>)))))))))"

definition AgyScan_enrichment :: "AgyScan \<Rightarrow> SessionEnrichment" where
  "AgyScan_enrichment st =
     \<lparr>se_session_name = None,
      se_usage = (if ag_usage_observed st
        then Some \<lparr>us_input_tokens = Some (ag_input st), us_output_tokens = Some (ag_output st),
                   us_context_tokens = ag_context st, us_context_window_percent = None\<rparr>
        else None),
      se_model = ag_model st, se_model_label = map_option Agy_model_label (ag_model st)\<rparr>"

definition Agy_locator :: "ArtifactFs \<Rightarrow> string \<Rightarrow> string" where
  "Agy_locator fs locator =
     (let full = with_file_name locator ''transcript_full.jsonl''
      in if \<not> fs_exists fs locator \<and> file_name locator = Some ''transcript.jsonl'' \<and> fs_exists fs full
         then full else locator)"

definition Agy_target :: "ArtifactFs \<Rightarrow> string \<Rightarrow> string" where
  "Agy_target fs canonical =
     (let compact = with_file_name canonical ''transcript.jsonl''
      in if file_name canonical = Some ''transcript_full.jsonl'' \<and> fs_is_regular fs compact
         then compact else canonical)"

definition scan_in ::
    "Platform \<Rightarrow> ArtifactFs \<Rightarrow> CollectSessionDataRequest \<Rightarrow> string option \<Rightarrow> CollectError + Collected" where
  "scan_in pf fs request data_dir_env =
     (let brain_root = path_join (unwrap_or (filter_opt (\<lambda>d. d \<noteq> []) data_dir_env)
            (path_join (rq_home request) ''.gemini/antigravity-cli'')) ''brain''
      in result_bind (check_cancelled request 0) (\<lambda>_.
     result_bind (validate_under_root fs brain_root (Agy_locator fs (rq_locator request)) None ''jsonl'')
       (\<lambda>canonical.
     result_bind (ensure (file_stem canonical = Some ''transcript'' \<or> file_stem canonical = Some ''transcript_full'')
       ''artifact identity mismatch'') (\<lambda>_.
     result_bind (check_cancelled request 1) (\<lambda>_.
     result_bind (ok_or (CollectFailed ''canonicalize'') (fs_canonicalize fs brain_root)) (\<lambda>canonical_root.
     result_bind (ensure (path_starts_with canonical
         (path_join canonical_root (sk_provider_session_id (rq_key request))))
       ''transcript does not belong to the authenticated session'') (\<lambda>_.
     let target = Agy_target fs canonical
     in result_bind (open_bounded_nofollow fs target MAX_SCAN_BYTES) (\<lambda>(metadata, bytes).
     let cursor = ArtifactCursor_from metadata
     in if cursor_unchanged (rq_prior_cursor request) cursor then Inr (Unchanged (FileCursor cursor))
        else
          result_bind (scan_records pf request ''Antigravity transcript record exceeds limit''
            ''malformed Antigravity transcript record'' Agy_step 2 AgyScan_init (read_lines bytes)) (\<lambda>(st, n).
          result_bind (ensure_stable cursor (fs_after fs target)) (\<lambda>_.
            Inr (Complete (AgyScan_enrichment st) (FileCursor cursor))))))))))))"

section \<open>The driver\<close>

datatype CollectionOutcome = CollectionComplete SessionEnrichment OpaqueCursor
  | CollectionUnchanged OpaqueCursor | CollectionCancelled | CollectionUnsupported
  | CollectionFailed string

text \<open>
  \<open>None\<close> for a provider without collector, \<open>Inl\<close> for a collection task that did not return, with
  the message of the join error.
\<close>

definition collect_session_data ::
    "(string + (CollectError + Collected)) option \<Rightarrow> CollectionOutcome" where
  "collect_session_data collected =
     (case collected of
        None \<Rightarrow> CollectionUnsupported
      | Some (Inl error) \<Rightarrow> CollectionFailed (BoundedDiagnostic_new error)
      | Some (Inr (Inr (Complete e c))) \<Rightarrow> CollectionComplete e c
      | Some (Inr (Inr (Unchanged c))) \<Rightarrow> CollectionUnchanged c
      | Some (Inr (Inl CollectCancelled)) \<Rightarrow> CollectionCancelled
      | Some (Inr (Inl (CollectFailed e))) \<Rightarrow> CollectionFailed (BoundedDiagnostic_new e))"

end
