(* ===== verification/Antigravity_Lemmas.thy ===== *)
theory Antigravity_Lemmas
  imports Antigravity
begin

text \<open>
  The Antigravity dialect keeps the reducer's bounds for payloads whose \<open>stepIdx\<close>, where it is a
  string, is bounded itself; and the fuel of the argument lookup is enough.
\<close>

section \<open>Arguments\<close>

lemma tool_arg_fuel:
  assumes "platform_ok pf" "arg_fuel args \<le> m" "arg_fuel args \<le> n"
  shows "tool_arg pf m args key = tool_arg pf n args key"
  using assms(2,3)
proof (induction m arbitrary: n args)
  case (Suc m)
  show ?case
  proof (cases args)
    case (JString raw)
    then obtain k where n: "n = Suc k" "length raw \<le> k" "length raw \<le> m"
      using Suc.prems by (cases n) auto
    have "arg_fuel parsed \<le> length raw" if "pf_from_str pf raw = Some parsed" for parsed
      using assms(1) that by (cases parsed) (auto simp: platform_ok_def Suc_le_eq)
    then show ?thesis
      using Suc.IH [of _ k] n JString by (fastforce split: option.splits)
  qed simp_all
next
  case 0
  then show ?case by (cases args) simp_all
qed

lemma tool_arg_valid:
  "platform_ok pf \<Longrightarrow> json_valid args \<Longrightarrow> tool_arg pf fuel args key = Some v \<Longrightarrow> json_valid v"
proof (induction pf fuel args key rule: tool_arg.induct)
  case (2 pf fuel raw key)
  then show ?case by (auto simp: platform_ok_def split: option.splits)
qed (auto dest: json_valid_get split: option.splits simp: list_all_iff dest!: map_of_SomeD)

lemma parse_tool_arg_valid: "platform_ok pf \<Longrightarrow> json_valid v \<Longrightarrow> json_valid (parse_tool_arg pf v)"
  by (cases v) (auto simp: parse_tool_arg_def platform_ok_def unwrap_or_def split: option.splits)

lemma tool_arg_str_valid:
  "platform_ok pf \<Longrightarrow> is_none_or json_valid args \<Longrightarrow> valid_opt (tool_arg_str pf args key)"
proof -
  assume pf: "platform_ok pf" and args: "is_none_or json_valid args"
  have "valid_utf8 s" if s: "tool_arg_str pf args key = Some s" for s
  proof -
    obtain a v where a: "args = Some a" "tool_arg pf (arg_fuel a) a key = Some v"
        "as_str (parse_tool_arg pf v) = Some s"
      using s by (auto simp: tool_arg_str_def bind_eq_Some_conv)
    then have "json_valid v" using tool_arg_valid [OF pf] args by simp
    then show ?thesis using json_valid_str [OF parse_tool_arg_valid [OF pf] a(3)] by simp
  qed
  then show ?thesis by (simp add: valid_opt_def is_none_or_iff)
qed

lemma json_valid_bind_get: "is_none_or json_valid x \<Longrightarrow> is_none_or json_valid (Option.bind x (get key))"
  by (cases x) (auto simp: json_valid_get_opt)

lemma valid_opt_as_str: "is_none_or json_valid x \<Longrightarrow> valid_opt (Option.bind x as_str)"
  by (cases x) (auto simp: valid_opt_def is_none_or_iff json_valid_str)

lemmas agy_valid_intros = valid_opt_or_else json_valid_or_else [OF refl] json_valid_get_opt
  json_valid_bind_get valid_opt_as_str tool_arg_str_valid

lemma extract_target_valid:
  "platform_ok pf \<Longrightarrow> json_valid raw \<Longrightarrow> is_none_or json_valid tool_call \<Longrightarrow>
     valid_opt (extract_target_file_path pf tool_call raw)"
  unfolding extract_target_file_path_def Let_def by (intro agy_valid_intros)

lemma Agy_tool_name_valid: "json_valid raw \<Longrightarrow> valid_opt (Agy_tool_name raw)"
  unfolding Agy_tool_name_def by (intro agy_valid_intros)

section \<open>Numbers\<close>

lemma length_show_nat: "n < 10 ^ k \<Longrightarrow> 0 < k \<Longrightarrow> length (show_nat n) \<le> k"
proof (induction k arbitrary: n)
  case (Suc k)
  show ?case
  proof (cases "n < 10")
    case False
    then have "0 < k" "n div 10 < 10 ^ k" using Suc.prems by (cases k; simp; auto)+
    then have "length (show_nat (n div 10)) \<le> k" using Suc.IH by simp
    with False show ?thesis by (simp add: show_nat.simps [of n])
  qed (simp add: show_nat.simps)
qed simp

lemma show_nat_digits: "list_all (\<lambda>c. 48 \<le> byte c \<and> byte c < 58) (show_nat n)"
proof (induction n rule: show_nat.induct)
  case (1 n)
  have "n mod 10 < 10" by simp
  with 1 show ?case by (subst show_nat.simps) (auto simp: byte_char_of)
qed

lemma show_nat_nonempty: "show_nat n \<noteq> []"
  by (subst show_nat.simps) simp

lemma Number_to_string_clean: "number_valid n \<Longrightarrow> clean_text 128 (Number_to_string n)"
proof (cases n)
  case (PosInt w)
  have "length (show_nat (unat w)) \<le> 20"
    using unsigned_less [of w, where ?'a = nat] by (intro length_show_nat) simp_all
  then show ?thesis
    using show_nat_digits [of "unat w"] show_nat_nonempty [of "unat w"]
    by (force simp: PosInt list_all_iff intro!: clean_ascii)
next
  case (NegInt i)
  assume "number_valid n"
  then have "length (show_nat (nat (- i))) \<le> 20"
    using NegInt by (intro length_show_nat) auto
  then show ?thesis
    using show_nat_digits [of "nat (- i)"]
    by (fastforce simp: NegInt list_all_iff byte_def intro!: clean_ascii)
next
  case (Float digits)
  assume "number_valid n"
  then show ?thesis
    by (auto simp: Float clean_text_def normalized_text_def valid_utf8_ascii)
qed

section \<open>Bounds\<close>

text \<open>A \<open>stepIdx\<close> that is a string fits the correlation identifier.\<close>

definition step_ok :: "Json \<Rightarrow> bool" where
  "step_ok raw = (case get ''stepIdx'' raw of
     Some (JString s) \<Rightarrow> s = [] \<or> normalized_text TOOL_CORRELATION_ID_MAX_CHARS s | _ \<Rightarrow> True)"

lemma scalar_text_bounded:
  assumes "json_valid raw" "step_ok raw" "scalar_text (get ''stepIdx'' raw) = Some s"
  shows "normalized_text TOOL_CORRELATION_ID_MAX_CHARS s"
proof -
  obtain v where v: "get ''stepIdx'' raw = Some v" "s \<noteq> []"
      "s = (case v of JNumber n \<Rightarrow> Number_to_string n | JString s \<Rightarrow> s | _ \<Rightarrow> [])"
    using assms(3) by (auto simp: scalar_text_def filter_opt_def bind_eq_Some_conv split: if_splits)
  have "json_valid v" using json_valid_get [OF assms(1) v(1)] .
  then show ?thesis
    using v assms(2) Number_to_string_clean
    by (cases v) (auto simp: step_ok_def clean_text_def tool_bounds)
qed

lemma Agy_label_clean: "valid_utf8 name \<Longrightarrow> Agy_label name = Some label \<Longrightarrow> clean_text 64 label"
  by (auto simp: Agy_label_def clean_ascii byte_def split: if_splits intro: clean_intros)

lemma Agy_tool_bounded:
  assumes "platform_ok pf" "json_valid raw" "step_ok raw" "Agy_tool_activity pf raw ctx = Some t"
  shows "bounded_tool t"
proof -
  have call: "is_none_or json_valid (get ''toolCall'' raw)"
    using assms(2) by (rule json_valid_get_opt)
  have label: "clean_text 64 label" if "Agy_tool_name raw = Some name" "Agy_label name = Some label" for name label
    using that Agy_label_clean Agy_tool_name_valid [OF assms(2)] by (auto simp: valid_opt_def)
  let ?args = "Option.bind (get ''toolCall'' raw) (get ''args'')"
  have detail: "valid_opt (or_else (tool_arg_str pf ?args ''toolSummary'')
      (or_else (if b then extract_target_file_path pf (get ''toolCall'' raw) raw else None)
        (tool_arg_str pf ?args ''CommandLine'')))" for b
    using assms(1,2) call extract_target_valid
    by (intro agy_valid_intros; assumption?) (auto simp: valid_opt_def)
  have detail_clean: "normalized_text TOOL_DETAIL_MAX_CHARS d" if
    "Option.bind (or_else (tool_arg_str pf ?args ''toolSummary'')
      (or_else (if b then extract_target_file_path pf (get ''toolCall'' raw) raw else None)
        (tool_arg_str pf ?args ''CommandLine''))) status_excerpt = Some d" for b d
    using clean_text_mono [OF excerpt_of_valid [OF detail that], of 160]
    by (simp add: clean_text_def tool_bounds)
  have start: "bounded_tool t" if start: "Agy_tool_start pf raw ctx = Some t"
  proof -
    obtain name label where name: "Agy_tool_name raw = Some name" "Agy_label name = Some label"
      using start by (auto simp: Agy_tool_start_def bind_eq_Some_conv Let_def split: if_split_asm)
    have "tu_label t = label" "tu_correlation_id t = scalar_text (get ''stepIdx'' raw)"
        "tu_detail t = Option.bind (or_else (tool_arg_str pf ?args ''toolSummary'')
          (or_else (if name \<in> set FILE_TOOLS
              then extract_target_file_path pf (get ''toolCall'' raw) raw else None)
            (tool_arg_str pf ?args ''CommandLine''))) status_excerpt"
      using start name by (cases "name = ''ask_question''"; fastforce simp: Agy_tool_start_def Let_def)+
    then show ?thesis
      using scalar_text_bounded [OF assms(2,3)] detail_clean label [OF name]
      by (auto simp: bounded_tool_def is_none_or_iff clean_normalized TOOL_LABEL_MAX_CHARS_def)
  qed
  have finish: "bounded_tool t" if "Agy_tool_finish raw = Some t"
    using that scalar_text_bounded [OF assms(2,3)] label clean_ascii [of "''tool''" 64]
    by (auto simp: Agy_tool_finish_def bounded_tool_def is_none_or_iff byte_def
        split: option.splits) (auto simp: tool_bounds clean_normalized)
  show ?thesis
    using assms(4) start finish by (auto simp: Agy_tool_activity_def bind_eq_Some_conv split: if_splits)
qed

lemma approval_labels:
  "normalized_tool_label ''ask_permission'' = Some ''ask_permission''"
  "normalized_tool_label ''read_file'' = Some ''read_file''"
  "normalized_tool_label ''write_file'' = Some ''write_file''"
  "normalized_tool_label ''edit_file'' = Some ''edit_file''"
  by (simp_all add: normalized_tool_label_plain tool_alias_def byte_def is_ascii_alphanumeric_def
      is_ascii_digit_def is_ascii_alphabetic_def lower_ascii_def)

lemma approval_label_short:
  assumes "Agy_classify pf raw = Some KWaitingApproval" "Agy_tool_name raw = Some name"
    and "Agy_label name = Some label"
  shows "clean_text 14 label"
proof -
  have "name \<in> {''ask_permission'', ''run_command'', ''read_file'', ''write_file'', ''edit_file''}"
    using assms(1,2)
    by (auto simp: Agy_classify_def bind_eq_Some_conv requests_approval_def Let_def FILE_TOOLS_def
        file_tool_requests_approval_def split: if_splits)
  then show ?thesis
    using assms(3) by (auto simp: Agy_label_def approval_labels clean_ascii byte_def)
qed

lemma Agy_approval_bounded:
  assumes "platform_ok pf" "json_valid raw"
    and kind: "Agy_classify pf raw = Some KWaitingApproval"
    and r: "Agy_approval_reason pf raw = Some r"
  shows "bounded_reason r"
proof -
  obtain call v name label where call: "get ''toolCall'' raw = Some call"
    and name: "or_else (get ''name'' call) (get ''tool_name'' raw) = Some v" "as_str v = Some name"
    and label: "Agy_label name = Some label"
    using r by (auto simp: Agy_approval_reason_def bind_eq_Some_conv)
  have "Agy_tool_name raw = Some name" using call name by (simp add: Agy_tool_name_def)
  then have l: "clean_text 14 label" using approval_label_short [OF kind] label by blast
  have args: "is_none_or json_valid (get ''args'' call)"
    using json_valid_get_opt json_valid_get [OF assms(2) call] by blast
  have arg: "valid_opt (tool_arg_str pf (get ''args'' call) key)" for key
    using assms(1) args by (rule tool_arg_str_valid)
  have target: "valid_opt (extract_target_file_path pf (Some call) raw)"
    using extract_target_valid [OF assms(1,2), of "Some call"] json_valid_get [OF assms(2) call] by simp
  have words: "bounded_reason (reason source (label @ '' '' @ s))"
    if "Option.bind x status_excerpt = Some s" "valid_opt x" for x s source
    using bounded_reason_clean [of 115 "label @ '' '' @ s"]
      clean_text_words [OF l excerpt_of_valid [OF that(2,1)]] by simp
  define ts fp cl ra where "ts = Option.bind (tool_arg_str pf (get ''args'' call) ''toolSummary'') status_excerpt"
    and "fp = (if name \<in> set FILE_TOOLS
        then Option.bind (extract_target_file_path pf (Some call) raw) status_excerpt else None)"
    and "cl = Option.bind (tool_arg_str pf (get ''args'' call) ''CommandLine'') status_excerpt"
    and "ra = Option.bind (or_else (tool_arg_str pf (get ''args'' call) ''reason'')
        (tool_arg_str pf (get ''args'' call) ''message'')) status_excerpt"
  note excerpts = this
  have "bounded_reason (reason source (label @ '' '' @ s))" 
    if "ts = Some s \<or> fp = Some s \<or> cl = Some s \<or> ra = Some s" for s source
    using that words [OF _ arg] words [OF _ target] words [OF _ valid_opt_or_else [OF arg arg]]
    by (auto simp: excerpts split: if_splits)
  moreover have "bounded_reason (reason source label)" for source
    using bounded_reason_clean [OF l] by simp
  ultimately show ?thesis
    using r call name label
    by (cases ts; cases fp; cases cl; cases ra) (auto simp: Agy_approval_reason_def Let_def simp flip: excerpts)
qed

lemma valid_opt_question:
  assumes "is_none_or json_valid x"
  shows "valid_opt (Option.bind (Option.bind x as_array)
    (\<lambda>qs. case qs of [] \<Rightarrow> None | q # _ \<Rightarrow> get_str ''question'' q))"
proof (cases "Option.bind x as_array")
  case (Some qs)
  then obtain v where "json_valid v" "as_array v = Some qs"
    using assms by (auto simp: bind_eq_Some_conv)
  then show ?thesis
    using json_valid_array valid_opt_get_str
    by (cases qs) (auto simp: Some valid_opt_def [of None])
qed (simp add: valid_opt_def)

lemma Agy_input_bounded:
  assumes "platform_ok pf" "json_valid raw" "Agy_input_reason pf raw = Some r"
  shows "bounded_reason r"
proof -
  define qs where "qs = Option.bind (Option.bind (get ''toolCall'' raw) (get ''args'')) (get ''questions'')"
  have "is_none_or json_valid qs"
    unfolding qs_def using assms(2) by (intro agy_valid_intros)
  then have "is_none_or json_valid (map_option (parse_tool_arg pf) qs)"
    using parse_tool_arg_valid [OF assms(1)] by (cases qs) simp_all
  then have "valid_opt (Option.bind (Option.bind (map_option (parse_tool_arg pf) qs) as_array)
      (\<lambda>qs. case qs of [] \<Rightarrow> None | q # _ \<Rightarrow> get_str ''question'' q))"
    by (rule valid_opt_question)
  moreover define q where "q = Option.bind (Option.bind (map_option (parse_tool_arg pf) qs) as_array)
      (\<lambda>qs. case qs of [] \<Rightarrow> None | q # _ \<Rightarrow> get_str ''question'' q)"
  moreover have "(case Option.bind q status_excerpt of
        Some summary \<Rightarrow> Some (reason Question summary)
      | None \<Rightarrow> status_reason_context pf raw True) = Some r"
    using assms(3) unfolding Agy_input_reason_def Let_def q_def qs_def .
  ultimately show ?thesis
    using excerpt_of_valid [of q] status_reason_context_bounded [OF assms(1,2)]
    by (auto split: option.splits intro: bounded_reason_clean [of 100])
qed

lemma last_excerpt_clean:
  "platform_ok pf \<Longrightarrow> is_none_or (clean_text 100) found \<Longrightarrow>
     is_none_or (clean_text 100) (last_excerpt pf found lines)"
proof (induction pf found lines rule: last_excerpt.induct)
  case (2 pf found line rest)
  have "is_none_or (clean_text 100) (or_else (Option.bind (get_str ''content'' v) status_excerpt) found)"
    if "pf_from_str pf line = Some v" for v
  proof -
    have "json_valid v" using 2(4) that by (auto simp: platform_ok_def)
    then have "valid_opt (get_str ''content'' v)" by (rule valid_opt_get_str)
    then show ?thesis
      using excerpt_of_valid 2(5) by (auto simp: or_else_def is_none_or_iff split: option.splits)
  qed
  with 2 show ?case by (auto split: option.splits)
qed simp

lemma extract_last_clean:
  "platform_ok pf \<Longrightarrow> extract_last_assistant_excerpt pf path = Some s \<Longrightarrow> clean_text 100 s"
  using last_excerpt_clean [of pf None]
  by (fastforce simp: extract_last_assistant_excerpt_def Let_def bind_eq_Some_conv is_none_or_iff
      split: if_splits)

lemma Agy_completed_bounded:
  assumes "platform_ok pf" "json_valid raw" "Agy_completed_reason pf raw = Some r"
  shows "bounded_reason r"
proof -
  have "valid_opt (Option.bind (or_else (get ''last_assistant_message'' raw) (get ''excerpt'' raw)) as_str)"
    using assms(2) by (intro agy_valid_intros)
  then show ?thesis
    using assms(3) excerpt_of_valid extract_last_clean [OF assms(1)]
    by (auto simp: Agy_completed_reason_def bind_eq_Some_conv split: option.splits
        intro: bounded_reason_clean [of 100])
qed

lemma Agy_failure_bounded:
  assumes "json_valid raw" "Agy_failure_reason raw = Some r"
  shows "bounded_reason r"
proof -
  have "valid_opt (Option.bind (or_else (get ''terminationReason'' raw) (get ''error'' raw)) as_str)"
    using assms(1) by (intro agy_valid_intros)
  then show ?thesis
    using assms(2) excerpt_of_valid
    by (auto simp: Agy_failure_reason_def intro: bounded_reason_clean [of 100])
qed

interpretation agy: bounded_dialect "AgyDialect pf" "\<lambda>raw. payload_ok pf raw \<and> step_ok raw" for pf
  by unfold_locales
    (auto simp: AgyDialect_def dialect_defaults payload_ok_def Agy_tool_bounded Agy_input_bounded
      Agy_completed_bounded Agy_failure_bounded dest: Agy_approval_bounded)

end
