(* ===== verification/Collectors_Lemmas.thy ===== *)
theory Collectors_Lemmas
  imports Collectors Antigravity_Lemmas
begin

text \<open>
  The collectors as sums over records. \<open>run\<close> is the fold of a fallible step; the locale
  \<open>token_ledger\<close> is the contract of a counter that counts every key once, met by the input and
  output counters of Claude (keyed by response) and of Antigravity (keyed by step).
\<close>

section \<open>Folding a fallible step\<close>

fun run :: "('v \<Rightarrow> 's \<Rightarrow> 'e + 's) \<Rightarrow> 'v list \<Rightarrow> 's \<Rightarrow> 'e + 's" where
  "run step [] st = Inr st"
| "run step (v # vs) st = result_bind (step v st) (run step vs)"

text \<open>The records of an artifact: its complete lines, read; a line in the making ends them.\<close>

definition complete_records :: "Platform \<Rightarrow> string \<Rightarrow> Json list" where
  "complete_records pf bytes =
     List.map_filter (pf_from_str pf) (takeWhile (\<lambda>line. ends_with line [newline]) (read_lines bytes))"

lemma scan_records_run:
  "scan_records pf request too_long malformed step n st lines = Inr (st', n') \<Longrightarrow>
     run step (List.map_filter (pf_from_str pf) (takeWhile (\<lambda>line. ends_with line [newline]) lines)) st = Inr st'"
  by (induction pf request too_long malformed step n st lines rule: scan_records.induct)
    (auto simp: result_bind_Inr check_cancelled_def ok_or_def List.map_filter_simps
      split: if_splits option.splits)

lemma scan_records_cancelled:
  "scan_records pf request too_long malformed step n st lines = Inr (st', n') \<Longrightarrow>
     n < n' \<and> (\<forall>i. n \<le> i \<and> i < n' \<longrightarrow> \<not> rq_cancelled request i)"
proof (induction pf request too_long malformed step n st lines rule: scan_records.induct)
  case (1 pf request too_long malformed step n st)
  then show ?case by (auto simp: result_bind_Inr check_cancelled_def less_Suc_eq split: if_splits)
next
  case (2 pf request too_long malformed step n st line rest)
  have now: "\<not> rq_cancelled request n"
    using 2(2) by (auto simp: result_bind_Inr check_cancelled_def split: if_splits)
  show ?case
  proof (cases "ends_with line [newline]")
    case True
    then obtain v st'' where "step v st = Inr st''"
        "scan_records pf request too_long malformed step (n + 1) st'' rest = Inr (st', n')"
        "\<not> MAX_LINE_BYTES < length line" "ok_or (CollectFailed malformed) (pf_from_str pf line) = Inr v"
      using 2(2) by (auto simp: result_bind_Inr split: if_splits)
    then have "n + 1 < n' \<and> (\<forall>i. n + 1 \<le> i \<and> i < n' \<longrightarrow> \<not> rq_cancelled request i)"
      using "2.IH" True now by (simp add: check_cancelled_def)
    with now show ?thesis by (metis Suc_eq_plus1 Suc_lessD le_eq_less_or_eq Suc_leI)
  next
    case False
    then have "n' = n + 1"
      using 2(2) by (auto simp: result_bind_Inr split: if_splits)
    with now show ?thesis by (auto simp: less_Suc_eq)
  qed
qed

section \<open>Counting every key once\<close>

lemma sum_new_key:
  fixes f :: "'u \<Rightarrow> nat"
  assumes "k \<notin> fst ` set rows"
  shows "(\<Sum>i \<in> fst ` set (rows @ [(k, u)]). f (the (map_of (rows @ [(k, u)]) i)))
    = (\<Sum>i \<in> fst ` set rows. f (the (map_of rows i))) + f u"
proof -
  let ?m = "map_of (rows @ [(k, u)])"
  have none: "map_of rows k = None" using assms by (simp add: map_of_eq_None_iff)
  have old: "?m i = map_of rows i" if "i \<in> fst ` set rows" for i
    using that by (auto simp: map_add_def map_of_eq_None_iff split: option.splits)
  have new: "?m k = Some u" using none by (simp add: map_add_def)
  have "fst ` set (rows @ [(k, u)]) = insert k (fst ` set rows)" by auto
  then have "(\<Sum>i \<in> fst ` set (rows @ [(k, u)]). f (the (?m i)))
      = f (the (?m k)) + (\<Sum>i \<in> fst ` set rows. f (the (?m i)))"
    using assms by simp
  also have "(\<Sum>i \<in> fst ` set rows. f (the (?m i))) = (\<Sum>i \<in> fst ` set rows. f (the (map_of rows i)))"
    by (rule sum.cong) (simp_all only: old)
  finally show ?thesis using new by simp
qed

lemma sum_old_key:
  fixes f :: "'u \<Rightarrow> nat"
  assumes "k \<in> fst ` set rows"
  shows "(\<Sum>i \<in> fst ` set (rows @ [(k, u)]). f (the (map_of (rows @ [(k, u)]) i)))
    = (\<Sum>i \<in> fst ` set rows. f (the (map_of rows i)))"
proof (rule sum.cong)
  show "fst ` set (rows @ [(k, u)]) = fst ` set rows" using assms by auto
  show "f (the (map_of (rows @ [(k, u)]) i)) = f (the (map_of rows i))" if "i \<in> fst ` set rows" for i
    using that by (auto simp: map_add_def map_of_eq_None_iff split: option.splits)
qed

locale token_ledger =
  fixes row :: "'v \<Rightarrow> ('k \<times> 'u) option" and amount :: "'u \<Rightarrow> nat"
    and seen :: "'s \<Rightarrow> 'k list" and count :: "'s \<Rightarrow> nat" and step :: "'v \<Rightarrow> 's \<Rightarrow> 'e + 's"
  assumes skip: "step v st = Inr st' \<Longrightarrow> (\<And>k u. row v = Some (k, u) \<Longrightarrow> k \<in> set (seen st)) \<Longrightarrow>
      set (seen st') = set (seen st) \<and> count st' = count st"
    and take: "step v st = Inr st' \<Longrightarrow> row v = Some (k, u) \<Longrightarrow> k \<notin> set (seen st) \<Longrightarrow>
      set (seen st') = insert k (set (seen st)) \<and> count st' = count st + amount u"
begin

definition tally :: "('k \<times> 'u) list \<Rightarrow> nat" where
  "tally rows = (\<Sum>k \<in> fst ` set rows. amount (the (map_of rows k)))"

definition balanced :: "('k \<times> 'u) list \<Rightarrow> 's \<Rightarrow> bool" where
  "balanced rows st \<longleftrightarrow> set (seen st) = fst ` set rows \<and> count st = tally rows"

lemma step_balanced:
  assumes "step v st = Inr st'" "balanced rows st"
  shows "balanced (rows @ List.map_filter row [v]) st'"
proof (cases "row v")
  case None
  then show ?thesis using skip [OF assms(1)] assms(2) by (simp add: balanced_def List.map_filter_simps)
next
  case (Some r)
  obtain k u where r: "r = (k, u)" by (cases r)
  show ?thesis
  proof (cases "k \<in> set (seen st)")
    case True
    then show ?thesis
      using skip [OF assms(1)] assms(2) Some r sum_old_key [of k rows amount u]
      by (auto simp: balanced_def tally_def List.map_filter_simps insert_absorb)
  next
    case False
    then show ?thesis
      using take [OF assms(1)] assms(2) Some r sum_new_key [of k rows amount u]
      by (auto simp: balanced_def tally_def List.map_filter_simps)
  qed
qed

lemma run_balanced:
  "run step vs st = Inr st' \<Longrightarrow> balanced rows st \<Longrightarrow> balanced (rows @ List.map_filter row vs) st'"
proof (induction vs arbitrary: rows st)
  case (Cons v vs)
  then obtain st'' where "step v st = Inr st''" "run step vs st'' = Inr st'"
    by (auto simp: result_bind_Inr)
  then have "balanced ((rows @ List.map_filter row [v]) @ List.map_filter row vs) st'"
    using Cons step_balanced by blast
  then show ?case by (cases "row v") (simp_all add: List.map_filter_simps)
qed (simp add: List.map_filter_simps)

lemma run_tally:
  assumes "run step vs st = Inr st'" "seen st = []" "count st = 0"
  shows "set (seen st') = fst ` set (List.map_filter row vs)"
    and "count st' = (\<Sum>k \<in> fst ` set (List.map_filter row vs).
      amount (the (map_of (List.map_filter row vs) k)))"
  using run_balanced [OF assms(1), of "[]"] assms(2,3) by (simp_all add: balanced_def tally_def)

end

lemma checked_add_Inr: "checked_add message a b = Inr c \<Longrightarrow> unat c = unat a + unat b"
  by (auto simp: checked_add_def unat_word_ariths split: if_splits)

lemma ensure_Inr [simp]: "ensure c message = Inr x \<longleftrightarrow> c"
  by (simp add: ensure_def)

definition tokens :: "string \<Rightarrow> Json \<Rightarrow> nat" where
  "tokens name usage = (case get_u64 name usage of Some w \<Rightarrow> unat w | None \<Rightarrow> 0)"

lemma optional_u64_tokens: "optional_u64 v name = Inr x \<Longrightarrow> unat (unwrap_or x 0) = tokens name v"
  by (auto simp: optional_u64_def tokens_def get_u64_def split: option.splits)

text \<open>What a response adds to Claude's counters.\<close>

definition Claude_input :: "Json \<Rightarrow> nat" where
  "Claude_input usage = tokens ''input_tokens'' usage + tokens ''cache_read_input_tokens'' usage
     + tokens ''cache_creation_input_tokens'' usage"

lemma Claude_count_tokens:
  "Claude_count usage st = Inr st' \<Longrightarrow>
     unat (cl_input st') = unat (cl_input st) + Claude_input usage
     \<and> unat (cl_output st') = unat (cl_output st) + tokens ''output_tokens'' usage
     \<and> cl_response_ids st' = cl_response_ids st \<and> cl_usage_observed st' = cl_usage_observed st"
  by (auto simp: Claude_count_def result_bind_Inr Claude_input_def
      dest!: checked_add_Inr optional_u64_tokens)

lemma Claude_step_skip:
  assumes "Claude_step session v st = Inr st'"
    and "\<And>k u. Claude_row v = Some (k, u) \<Longrightarrow> k \<in> set (cl_response_ids st)"
  shows "cl_response_ids st' = cl_response_ids st \<and> cl_input st' = cl_input st
    \<and> cl_output st' = cl_output st \<and> cl_usage_observed st' = cl_usage_observed st"
  using assms by (cases "Claude_row v") (auto simp: Claude_step_def result_bind_Inr Let_def)

lemma Claude_step_take:
  assumes "Claude_step session v st = Inr st'"
    and "Claude_row v = Some (k, u)" "k \<notin> set (cl_response_ids st)"
  shows "cl_response_ids st' = k # cl_response_ids st
    \<and> unat (cl_input st') = unat (cl_input st) + Claude_input u
    \<and> unat (cl_output st') = unat (cl_output st) + tokens ''output_tokens'' u \<and> cl_usage_observed st'"
  using assms
  by (auto simp: Claude_step_def result_bind_Inr Let_def dest!: Claude_count_tokens)

interpretation claude_input: token_ledger Claude_row Claude_input cl_response_ids
  "\<lambda>st. unat (cl_input st)" "Claude_step session" for session
  using Claude_step_skip Claude_step_take by unfold_locales simp_all

interpretation claude_output: token_ledger Claude_row "tokens ''output_tokens''" cl_response_ids
  "\<lambda>st. unat (cl_output st)" "Claude_step session" for session
  using Claude_step_skip Claude_step_take by unfold_locales simp_all

text \<open>What a step adds to Antigravity's counters.\<close>

definition Agy_row :: "Json \<Rightarrow> (u64 \<times> Json) option" where
  "Agy_row v = (if get_str ''type'' v = Some ''PLANNER_RESPONSE''
     then map_option (\<lambda>i. (i, v)) (get_u64 ''step_index'' v) else None)"

definition Agy_tokens :: "string \<Rightarrow> Json \<Rightarrow> nat" where
  "Agy_tokens name v = (case or_else (get_u64 name v) (Option.bind (get ''usage'' v) (get_u64 name)) of
     Some w \<Rightarrow> unat w | None \<Rightarrow> 0)"

definition Agy_input :: "Json \<Rightarrow> nat" where
  "Agy_input v = Agy_tokens ''input_tokens'' v + Agy_tokens ''cache_read_tokens'' v"

lemma optional_u64_get: "optional_u64 v name = Inr x \<Longrightarrow> x = get_u64 name v"
  by (auto simp: optional_u64_def get_u64_def split: option.splits)

lemma Agy_count_field_tokens: "Agy_count_field v name = Inr w \<Longrightarrow> unat w = Agy_tokens name v"
  by (auto simp: Agy_count_field_def result_bind_Inr Agy_tokens_def dest!: optional_u64_get
      split: option.splits)

lemma Agy_step_skip:
  assumes step: "Agy_step v st = Inr st'"
    and old: "\<And>k u. Agy_row v = Some (k, u) \<Longrightarrow> k \<in> set (ag_seen_steps st)"
  shows "ag_seen_steps st' = ag_seen_steps st \<and> ag_input st' = ag_input st
    \<and> ag_output st' = ag_output st \<and> ag_usage_observed st' = ag_usage_observed st"
proof (cases "get_str ''type'' v = Some ''PLANNER_RESPONSE''")
  case False
  then show ?thesis using step by (auto simp: Agy_step_def Let_def)
next
  case True
  show ?thesis
  proof (cases "get_u64 ''step_index'' v")
    case None
    then show ?thesis
      using step True by (auto simp: Agy_step_def Let_def result_bind_Inr dest!: optional_u64_get)
  next
    case (Some i)
    then have "i \<in> set (ag_seen_steps st)" using old True by (simp add: Agy_row_def)
    then show ?thesis
      using step True Some by (auto simp: Agy_step_def Let_def result_bind_Inr dest!: optional_u64_get)
  qed
qed

lemma Agy_step_take:
  assumes "Agy_step v st = Inr st'" "Agy_row v = Some (k, u)" "k \<notin> set (ag_seen_steps st)"
  shows "ag_seen_steps st' = k # ag_seen_steps st
    \<and> unat (ag_input st') = unat (ag_input st) + Agy_input u
    \<and> unat (ag_output st') = unat (ag_output st) + Agy_tokens ''output_tokens'' u \<and> ag_usage_observed st'"
proof -
  have v: "u = v" "get_str ''type'' v = Some ''PLANNER_RESPONSE''" "get_u64 ''step_index'' v = Some k"
    using assms(2) by (auto simp: Agy_row_def split: if_splits)
  have "optional_u64 v ''step_index'' = Inr (Some k)"
    using assms(1) v(2,3) by (cases "optional_u64 v ''step_index''")
      (auto simp: Agy_step_def Let_def dest: optional_u64_get)
  with v assms(1,3) show ?thesis
    by (auto simp: Agy_step_def Let_def result_bind_Inr Agy_input_def
        dest!: Agy_count_field_tokens checked_add_Inr)
qed

interpretation agy_input: token_ledger Agy_row Agy_input ag_seen_steps
  "\<lambda>st. unat (ag_input st)" Agy_step
  using Agy_step_skip Agy_step_take by unfold_locales simp_all

interpretation agy_output: token_ledger Agy_row "Agy_tokens ''output_tokens''" ag_seen_steps
  "\<lambda>st. unat (ag_output st)" Agy_step
  using Agy_step_skip Agy_step_take by unfold_locales simp_all

end
