(* ===== verification/Adapters_Props.thy ===== *)
theory Adapters_Props
  imports Collectors_Lemmas
begin

text \<open>
  The properties of the adapters: what they normalize is what the reducer accepts, a subagent's
  payload never speaks for the session, what is shown has been cleaned and what is secret has been
  removed, and what is counted is counted once.
\<close>

section \<open>A platform for the witnesses\<close>

definition sample_platform :: Platform where
  "sample_platform =
     \<lparr>pf_is_alphanumeric = is_ascii_alphanumeric,
      pf_canonicalize = Some,
      pf_exists = (\<lambda>_. True),
      pf_is_regular = (\<lambda>_. True),
      pf_read_bounded = (\<lambda>_. None),
      pf_from_str = (\<lambda>_. None),
      pf_parse_rfc3339 = (\<lambda>_. None),
      pf_fraction_percent = (\<lambda>_. None)\<rparr>"

lemma sample_platform_ok: "platform_ok sample_platform"
  by (auto simp: platform_ok_def sample_platform_def is_ascii_alphanumeric_def is_ascii_digit_def
      is_ascii_alphabetic_def is_control_def)

definition sample_permission :: Json where
  "sample_permission = JObject
     [(''hook_event_name'', JString ''PermissionRequest''), (''session_id'', JString ''s1''),
      (''tool_name'', JString ''Bash''), (''tool_use_id'', JString ''call-1''),
      (''tool_input'', JObject [(''command'', JString ''ls'')])]"

definition sample_context :: NormalizeContext where
  "sample_context = \<lparr>nc_workspace = Some ''/w''\<rparr>"

section \<open>The reducer accepts what the adapters produce\<close>

definition built_in :: "Platform \<Rightarrow> HookDialect set" where
  "built_in pf = {ClaudeDialect pf, CodexDialect pf, QwenDialect pf, PiDialect pf}"

text \<open>
  (C10) Every event the Claude, Codex, Qwen and Pi adapters build from a payload, whatever the
  payload says, passes the reducer's validation when its evidence does: labels, identifiers,
  details and reasons are within the limits of the domain.
\<close>

theorem adapter_events_accepted:
  assumes "d \<in> built_in pf" "platform_ok pf" "json_valid raw" "validate_evidence evidence = Inr ()"
    and "normalize_with_evidence d now uuid invocation raw evidence ctx = OutcomeEvent e"
  shows "validate_event (na_event e) (na_status_reason e) = Inr ()"
proof -
  have ok: "payload_ok pf raw" using assms(2,3) by (simp add: payload_ok_def)
  show ?thesis
    using assms(1,4,5) claude.normalized_accepted [OF ok] codex.normalized_accepted [OF ok]
      qwen.normalized_accepted [OF ok] pi.normalized_accepted [OF ok]
    by (auto simp: built_in_def)
qed

lemma sample_permission_normalized:
  "\<exists>e. normalize_with_evidence (ClaudeDialect sample_platform) 0 ''u'' ''i'' sample_permission
     (EventEvidence_managed_hook 1) sample_context = OutcomeEvent e"
  by (simp add: normalize_with_evidence_def ClaudeDialect_def Claude_classify_def sample_permission_def
      Claude_is_subagent_payload_def Claude_classify_root_def asks_user_def get_str_def Let_def)

lemma managed_hook_accepted: "validate_evidence (EventEvidence_managed_hook n) = Inr ()"
  by (simp add: validate_evidence_def trusted_evidence_def EventEvidence_managed_hook_def)

lemma sample_permission_valid: "json_valid sample_permission"
  by (simp add: sample_permission_def valid_utf8_ascii ascii_def byte_def)

theorem adapter_events_accepted_witness:
  "\<exists>e. normalize_with_evidence (ClaudeDialect sample_platform) 0 ''u'' ''i'' sample_permission
     (EventEvidence_managed_hook 1) sample_context = OutcomeEvent e
   \<and> validate_event (na_event e) (na_status_reason e) = Inr ()"
  using sample_permission_normalized
    adapter_events_accepted [of "ClaudeDialect sample_platform" sample_platform sample_permission
      "EventEvidence_managed_hook 1" 0 "''u''" "''i''" sample_context]
  by (auto simp: built_in_def sample_platform_ok sample_permission_valid managed_hook_accepted)

text \<open>
  The same for Antigravity, where the payload's \<open>stepIdx\<close> is a number, or a string within the
  limits of a correlation identifier.
\<close>

theorem agy_events_accepted:
  assumes "platform_ok pf" "json_valid raw" "step_ok raw" "validate_evidence evidence = Inr ()"
    and "normalize_with_evidence (AgyDialect pf) now uuid invocation raw evidence ctx = OutcomeEvent e"
  shows "validate_event (na_event e) (na_status_reason e) = Inr ()"
  by (rule agy.normalized_accepted [OF _ assms(4,5)]) (simp add: payload_ok_def assms(1-3))

definition agy_payload :: "string \<Rightarrow> Json" where
  "agy_payload step = JObject
     [(''hook_event_name'', JString ''PostToolUse''), (''tool_name'', JString ''grep''),
      (''stepIdx'', JString step)]"

lemma agy_payload_normalized:
  "\<exists>e. normalize_with_evidence (AgyDialect pf) now uuid invocation (agy_payload step) evidence ctx = OutcomeEvent e"
  by (simp add: normalize_with_evidence_def AgyDialect_def Agy_classify_def Agy_event_def agy_payload_def)

theorem agy_events_accepted_witness:
  "\<exists>e. normalize_with_evidence (AgyDialect sample_platform) 0 ''u'' ''i'' (agy_payload ''7'')
     (EventEvidence_managed_hook 1) sample_context = OutcomeEvent e
   \<and> validate_event (na_event e) (na_status_reason e) = Inr ()"
proof -
  have "json_valid (agy_payload ''7'')"
    by (simp add: agy_payload_def valid_utf8_ascii ascii_def byte_def)
  moreover have "step_ok (agy_payload ''7'')"
    by (simp add: agy_payload_def step_ok_def normalized_text_def has_control_def text_eval
        tool_bounds)
  ultimately show ?thesis
    using agy_payload_normalized [of sample_platform 0 "''u''" "''i''" "''7''"
        "EventEvidence_managed_hook 1" sample_context]
      agy_events_accepted [of sample_platform "agy_payload ''7''" "EventEvidence_managed_hook 1" 0
        "''u''" "''i''" sample_context]
    by (auto simp: sample_platform_ok managed_hook_accepted)
qed

text \<open>
  Antigravity copies a textual \<open>stepIdx\<close> into the correlation identifier as it stands: with a
  longer one the reducer refuses the whole event, and the tool's end is lost with it.
\<close>

theorem agy_long_step_rejected:
  assumes "128 < length step" "ascii step"
  shows "\<exists>e. normalize_with_evidence (AgyDialect pf) now uuid invocation (agy_payload step)
      (EventEvidence_managed_hook 1) ctx = OutcomeEvent e
    \<and> validate_event (na_event e) (na_status_reason e) = Inl UnboundedToolActivity"
proof -
  obtain e where e: "normalize_with_evidence (AgyDialect pf) now uuid invocation (agy_payload step)
      (EventEvidence_managed_hook 1) ctx = OutcomeEvent e"
    using agy_payload_normalized by blast
  have label: "normalized_tool_label ''grep'' = Some ''grep''"
    by (simp add: normalized_tool_label_plain tool_alias_def byte_def is_ascii_alphanumeric_def
        is_ascii_digit_def is_ascii_alphabetic_def lower_ascii_def)
  have "Agy_tool_activity pf (agy_payload step) ctx =
      Some \<lparr>tu_phase = Finish, tu_label = ''grep'', tu_correlation_id = Some step, tu_detail = None\<rparr>"
    using assms(1) label
    by (auto simp: Agy_tool_activity_def Agy_event_def agy_payload_def Agy_tool_finish_def get_str_def
        Agy_tool_name_def Agy_label_def scalar_text_def filter_opt_def nonblank_def trim_def
        trim_matches_def utf8_def)
  then have "ev_tool_activity (na_event e) = Some \<lparr>tu_phase = Finish, tu_label = ''grep'',
      tu_correlation_id = Some step, tu_detail = None\<rparr>"
    and "ev_evidence (na_event e) = EventEvidence_managed_hook 1"
    using e by (auto simp: normalize_with_evidence_def AgyDialect_def build_def Let_def split: option.splits)
  then have "validate_event (na_event e) (na_status_reason e) = Inl UnboundedToolActivity"
    using assms
    by (simp add: validate_event_def validate_tool_activity_def managed_hook_accepted chars_ascii tool_bounds)
  with e show ?thesis by blast
qed

theorem agy_long_step_rejected_witness:
  "\<exists>e. normalize_with_evidence (AgyDialect sample_platform) 0 ''u'' ''i''
      (agy_payload (replicate 129 (CHR ''7''))) (EventEvidence_managed_hook 1) sample_context = OutcomeEvent e
    \<and> validate_event (na_event e) (na_status_reason e) = Inl UnboundedToolActivity"
  by (rule agy_long_step_rejected) (simp_all add: ascii_def byte_def list_all_iff)

section \<open>Subagents\<close>


lemma nonblank_word:
  assumes "list_all (\<lambda>c. 33 \<le> byte c \<and> byte c < 127) s" "s \<noteq> []"
  shows "nonblank s"
proof -
  have "ascii s" using assms(1) by (auto simp: ascii_def list_all_iff)
  moreover have "\<not> is_whitespace (byte c)" if "c \<in> set s" for c
    using assms(1) that by (auto simp: is_whitespace_def list_all_iff)
  then have "trim_matches is_whitespace (map byte s) = map byte s"
    using assms(2) by (intro trim_matches_id) (simp_all add: hd_map last_map)
  ultimately show ?thesis using assms(2) by (simp add: nonblank_def trim_def chars_ascii)
qed

definition sample_subagent :: Json where
  "sample_subagent = JObject
     [(''hook_event_name'', JString ''SubagentStart''), (''session_id'', JString ''s1''),
      (''agent_id'', JString ''a1''), (''agent_type'', JString ''explore'')]"

lemma sample_subagent_child:
  "Claude_child_agent sample_subagent = Some \<lparr>ar_agent_id = ''a1'', ar_agent_type = ''explore''\<rparr>"
  by (simp add: Claude_child_agent_def sample_subagent_def get_str_def bounded_field_def
      sanitize_bounded_word nonblank_word byte_def CHILD_AGENT_ID_MAX_CHARS_def CHILD_AGENT_TYPE_MAX_CHARS_def tool_bounds)

lemma sample_subagent_kind: "Claude_classify sample_subagent = Some KNewTurn"
proof -
  have "Claude_classify_root sample_subagent = Some KNewTurn"
    by (simp add: Claude_classify_root_def sample_subagent_def get_str_def Let_def)
  then show ?thesis by (simp add: Claude_classify_def sample_subagent_child)
qed


section \<open>Text\<close>

text \<open>
  \<open>status_excerpt\<close> and \<open>sanitize_bounded\<close> clean text the same way, one in a single pass and the
  other by splitting and joining: an excerpt is the sanitized text cut at its limit, and where the
  sanitized text fits, the two agree. Sanitized text is a fixed point of the sanitizer.
\<close>

theorem excerpt_is_truncated_sanitized:
  assumes "valid_utf8 v" "sanitize_bounded v m = Some s"
  shows "status_excerpt v = status_excerpt s
    \<and> (m \<le> STATUS_EXCERPT_MAX_CHARS \<longrightarrow> status_excerpt v = Some s)
    \<and> sanitize_bounded s m = Some s"
proof -
  have cs: "list_all scalar (chars v)" using assms(1) by (simp add: valid_utf8_def)
  define q where "q = squeezed (chars v)"
  have q: "q \<noteq> []" "length q \<le> m" "s = utf8 q" "list_all printable q"
    using assms(2) squeezed_printable [OF cs]
    by (auto simp: sanitize_bounded_eq Let_def q_def split: if_splits)
  then have chars: "chars s = q"
    using chars_utf8 [of q] by (auto simp: printable_def list_all_iff)
  have "squeezed q = q" using squeezed_idem [OF cs] by (simp add: q_def)
  with chars have "status_excerpt v = status_excerpt s" "sanitize_bounded s m = Some s"
    using q by (simp_all add: status_excerpt_eq sanitize_bounded_eq flip: q_def)
  moreover have "trim_matches is_whitespace q = q"
    using q(1) squeezed_ends [of "chars v"] by (intro trim_matches_id) (simp_all add: q_def)
  then have "m \<le> STATUS_EXCERPT_MAX_CHARS \<longrightarrow> status_excerpt v = Some s"
    using q by (simp add: status_excerpt_eq flip: q_def)
  ultimately show ?thesis by simp
qed

theorem excerpt_is_truncated_sanitized_witness:
  "status_excerpt ''ls'' = Some ''ls'' \<and> sanitize_bounded ''ls'' 9 = Some ''ls''"
  using excerpt_is_truncated_sanitized [of "''ls''" 9 "''ls''"]
  by (simp add: sanitize_bounded_word valid_utf8_ascii ascii_def byte_def STATUS_EXCERPT_MAX_CHARS_def)

lemma lowercase_equals:
  "(if 65 \<le> byte c \<and> byte c \<le> 90 then char_of (byte c + 32) else c) = CHR ''='' \<Longrightarrow> c = CHR ''=''"
proof (rule ccontr)
  assume lower: "(if 65 \<le> byte c \<and> byte c \<le> 90 then char_of (byte c + 32) else c) = CHR ''=''"
    and "c \<noteq> CHR ''=''"
  then have "65 \<le> byte c" "byte c \<le> 90" "char_of (byte c + 32) = CHR ''=''" by (auto split: if_splits)
  then have "byte c + 32 = byte (CHR ''='')" using byte_char_of [of "byte c + 32"] by simp
  then show False using \<open>65 \<le> byte c\<close> by (simp add: byte_def)
qed

definition shows_secret :: "string \<Rightarrow> bool" where
  "shows_secret a \<longleftrightarrow> contains (to_ascii_lowercase a) ''sk-'' \<or> contains (to_ascii_lowercase a) ''bearer ''"

lemma flag_value_hidden:
  assumes "f \<in> set FLAGS" "starts_with (to_ascii_lowercase arg) (f @ ''='')"
  shows "to_ascii_lowercase (hd (split_on (CHR ''='') arg)) = f"
proof -
  have no_eq: "CHR ''='' \<notin> set f" using assms(1) by (auto simp: FLAGS_def)
  obtain r where "to_ascii_lowercase arg = f @ CHR ''='' # r"
    using assms(2) by (auto simp: starts_with_iff)
  then obtain a c b where arg: "arg = a @ c # b" "to_ascii_lowercase a = f"
      "(if 65 \<le> byte c \<and> byte c \<le> 90 then char_of (byte c + 32) else c) = CHR ''=''"
    unfolding to_ascii_lowercase_def by (auto simp: map_eq_append_conv map_eq_Cons_conv)
  have "CHR ''='' \<notin> set a"
  proof
    assume "CHR ''='' \<in> set a"
    then have "CHR ''='' \<in> set (to_ascii_lowercase a)"
      by (force simp: to_ascii_lowercase_def byte_def)
    with arg(2) no_eq show False by simp
  qed
  with arg lowercase_equals [OF arg(3)] show ?thesis by (simp add: split_on_append)
qed

lemma flags_no_secret:
  "f \<in> set FLAGS \<Longrightarrow> to_ascii_lowercase a = f \<Longrightarrow> \<not> shows_secret a \<and> \<not> shows_secret (a @ ''=[REDACTED]'')"
  by (auto simp: FLAGS_def shows_secret_def to_ascii_lowercase_append starts_with_def)
    (simp_all add: to_ascii_lowercase_def starts_with_def byte_def char_of_def)

lemma redact_from_no_secret: "a \<in> set (redact_from redact_next args) \<Longrightarrow> \<not> shows_secret a"
proof (induction redact_next args rule: redact_from.induct)
  case (2 redact_next arg args)
  have "\<not> shows_secret REDACTED"
    by (simp add: shows_secret_def REDACTED_def to_ascii_lowercase_def starts_with_def byte_def char_of_def)
  then show ?case
    using 2 flags_no_secret flag_value_hidden
    by (auto simp: Let_def shows_secret_def list_ex_iff split: if_splits)
qed simp

lemma length_redact_from: "length (redact_from redact_next args) = length args"
  by (induction redact_next args rule: redact_from.induct) (auto simp: Let_def)

text \<open>
  Redaction keeps the number and the order of the arguments, hides the value after a secret
  flag whether it is the next argument or follows an equals sign, and leaves no argument that looks
  like a key or a bearer token.
\<close>

theorem redacted_arguments:
  assumes "f \<in> set FLAGS"
  shows "length (redact_args args) = length args
    \<and> (\<forall>a \<in> set (redact_args args).
        \<not> contains (to_ascii_lowercase a) ''sk-'' \<and> \<not> contains (to_ascii_lowercase a) ''bearer '')
    \<and> redact_args (f # secret # rest) = f # REDACTED # redact_args rest
    \<and> redact_args ((f @ ''='' @ secret) # rest) = (f @ ''=[REDACTED]'') # redact_args rest"
proof -
  have lower: "to_ascii_lowercase f = f"
    using assms by (auto simp: FLAGS_def to_ascii_lowercase_def byte_def)
  have eq: "CHR ''='' \<notin> set f" and others: "\<forall>g \<in> set FLAGS. CHR ''='' \<notin> set g"
    using assms by (auto simp: FLAGS_def)
  have joined: "to_ascii_lowercase (f @ ''='' @ secret) = f @ ''='' @ to_ascii_lowercase secret"
    using lower by (simp add: to_ascii_lowercase_append) (simp add: to_ascii_lowercase_def byte_def)
  then have "to_ascii_lowercase (f @ ''='' @ secret) \<notin> set FLAGS"
    using others by auto
  moreover have "list_ex (\<lambda>g. starts_with (to_ascii_lowercase (f @ ''='' @ secret)) (g @ ''='')) FLAGS"
    using assms joined by (force simp: list_ex_iff starts_with_iff)
  moreover have "hd (split_on (CHR ''='') (f @ ''='' @ secret)) = f"
    using split_on_append [OF eq, of secret] by simp
  ultimately have "redact_args ((f @ ''='' @ secret) # rest) = (f @ ''=[REDACTED]'') # redact_args rest"
    by (simp add: redact_args_def Let_def)
  moreover have "redact_args (f # secret # rest) = f # REDACTED # redact_args rest"
    using assms lower by (simp add: redact_args_def Let_def)
  ultimately show ?thesis
    using redact_from_no_secret length_redact_from by (auto simp: redact_args_def shows_secret_def)
qed

theorem redacted_arguments_witness:
  "redact_args [''--token'', ''abc'', ''run''] = [''--token'', REDACTED, ''run'']"
  using redacted_arguments [of "''--token''" "[]" "''abc''" "[''run'']"]
  by (simp add: FLAGS_def redact_args_def to_ascii_lowercase_def byte_def starts_with_def)

section \<open>Tokens\<close>

lemma run_observed:
  "run (Claude_step session) vs st = Inr st' \<Longrightarrow> (cl_usage_observed st \<longleftrightarrow> cl_response_ids st \<noteq> []) \<Longrightarrow>
     (cl_usage_observed st' \<longleftrightarrow> cl_response_ids st' \<noteq> [])"
proof (induction vs arbitrary: st)
  case (Cons v vs)
  then obtain st'' where step: "Claude_step session v st = Inr st''"
    and run: "run (Claude_step session) vs st'' = Inr st'"
    by (auto simp: result_bind_Inr)
  have "cl_usage_observed st'' \<longleftrightarrow> cl_response_ids st'' \<noteq> []"
  proof (cases "\<exists>k u. Claude_row v = Some (k, u) \<and> k \<notin> set (cl_response_ids st)")
    case True
    then show ?thesis using Claude_step_take [OF step] by auto
  next
    case False
    then have "k \<in> set (cl_response_ids st)" if "Claude_row v = Some (k, u)" for k u
      using that by blast
    then show ?thesis using Claude_step_skip [OF step] Cons.prems(2) by simp
  qed
  with Cons.IH [OF run] show ?case by simp
qed simp

lemma scan_opened:
  "open_bounded_nofollow fs path m = Inr (metadata, bytes) \<Longrightarrow> fs_open fs path = Some (metadata, bytes)"
  by (auto simp: open_bounded_nofollow_def result_bind_Inr ok_or_def split: option.splits if_splits)

lemma validated_path:
  assumes "validate_under_root fs root locator (Some session) extension = Inr path"
  shows "\<exists>base. fs_canonicalize fs root = Some base \<and> path_starts_with path base
    \<and> file_stem path = Some session"
  using assms
  by (auto simp: validate_under_root_def result_bind_Inr ok_or_def Let_def to_str_def bind_eq_Some_conv
      split: option.splits if_splits)

text \<open>
  The usage the Claude collector reports is that of a transcript named by the session below the
  projects directory, and in it every response is counted once, by the first record that reports
  it, over the complete records of the file; the sums are exact, without wrap-around. There is no
  usage exactly when no record has any.
\<close>

theorem claude_counts_responses_once:
  assumes "Claude_scan pf fs request = Inr (Complete e cursor)"
  shows "\<exists>base path metadata bytes rows.
     fs_canonicalize fs (path_join (rq_home request) ''.claude/projects'') = Some base
     \<and> path_starts_with path base \<and> file_stem path = Some (sk_provider_session_id (rq_key request))
     \<and> fs_open fs path = Some (metadata, bytes)
     \<and> rows = List.map_filter Claude_row (complete_records pf bytes)
     \<and> (case se_usage e of
          None \<Rightarrow> rows = []
        | Some u \<Rightarrow> rows \<noteq> []
          \<and> map_option unat (us_input_tokens u) = Some (\<Sum>k \<in> fst ` set rows. Claude_input (the (map_of rows k)))
          \<and> map_option unat (us_output_tokens u)
            = Some (\<Sum>k \<in> fst ` set rows. tokens ''output_tokens'' (the (map_of rows k))))"
proof -
  let ?session = "sk_provider_session_id (rq_key request)"
  obtain path metadata bytes st n where
      path: "validate_under_root fs (path_join (rq_home request) ''.claude/projects'') (rq_locator request)
        (Some ?session) ''jsonl'' = Inr path"
    and opened: "open_bounded_nofollow fs path MAX_SCAN_BYTES = Inr (metadata, bytes)"
    and scan: "scan_records pf request ''Claude artifact record exceeds limit'' ''malformed Claude record''
        (Claude_step ?session) 2 ClaudeScan_init (read_lines bytes) = Inr (st, n)"
    and e: "e = ClaudeScan_enrichment st"
    using assms by (auto simp: Claude_scan_def result_bind_Inr Let_def split: if_splits prod.splits)
  have run: "run (Claude_step ?session) (complete_records pf bytes) ClaudeScan_init = Inr st"
    using scan_records_run [OF scan] by (simp add: complete_records_def)
  have init: "cl_response_ids ClaudeScan_init = []" "unat (cl_input ClaudeScan_init) = 0"
      "unat (cl_output ClaudeScan_init) = 0"
    by (simp_all add: ClaudeScan_init_def)
  have "cl_usage_observed st \<longleftrightarrow> cl_response_ids st \<noteq> []"
    using run_observed [OF run] by (simp add: ClaudeScan_init_def)
  then have "cl_usage_observed st \<longleftrightarrow> List.map_filter Claude_row (complete_records pf bytes) \<noteq> []"
    using claude_input.run_tally(1) [OF run init(1,2)] by force
  then show ?thesis
    using validated_path [OF path] scan_opened [OF opened] claude_input.run_tally(2) [OF run init(1,2)]
      claude_output.run_tally(2) [OF run init(1,3)]
    by (auto simp: e ClaudeScan_enrichment_def)
qed

definition claude_record :: "string \<Rightarrow> u64 \<Rightarrow> Json" where
  "claude_record response n = JObject [(''requestId'', JString response),
     (''usage'', JObject [(''input_tokens'', JNumber (PosInt n)), (''output_tokens'', JNumber (PosInt 1))])]"

definition sample_reader :: Platform where
  "sample_reader = sample_platform\<lparr>pf_from_str := (\<lambda>s.
     if s = [CHR ''1'', newline] then Some (claude_record ''r1'' 5)
     else if s = [CHR ''2'', newline] then Some (claude_record ''r2'' 7) else None)\<rparr>"

definition sample_metadata :: FileMetadata where
  "sample_metadata = \<lparr>md_device = 1, md_inode = 2, md_len = 7, md_is_file = True\<rparr>"

definition sample_fs :: ArtifactFs where
  "sample_fs = \<lparr>fs_canonicalize = Some, fs_is_symlink = (\<lambda>_. Some False), fs_is_regular = (\<lambda>_. True),
     fs_exists = (\<lambda>_. True),
     fs_open = (\<lambda>_. Some (sample_metadata, [CHR ''1'', newline, CHR ''1'', newline, CHR ''2'', newline, CHR ''3''])),
     fs_after = (\<lambda>_. Some sample_metadata)\<rparr>"

definition sample_request :: "ProviderId \<Rightarrow> string \<Rightarrow> string \<Rightarrow> CollectSessionDataRequest" where
  "sample_request provider session locator =
     \<lparr>rq_home = ''/h'', rq_key = \<lparr>sk_configured_provider = ProviderId_as_str provider,
        sk_adapter_identity = provider, sk_provider_session_id = session\<rparr>,
      rq_locator = locator, rq_prior_cursor = None, rq_cancelled = (\<lambda>_. False)\<rparr>"

lemmas path_eval = path_starts_with_def components_def component_of_def is_absolute_def starts_with_def
  ends_with_def path_join_def file_name_def file_stem_def path_extension_def rsplit_once_def to_str_def
  valid_utf8_ascii ascii_def byte_def

lemma sample_claude_path:
  "validate_under_root sample_fs ''/h/.claude/projects'' ''/h/.claude/projects/s.jsonl'' (Some ''s'') ''jsonl''
     = Inr ''/h/.claude/projects/s.jsonl''"
  by (simp add: validate_under_root_def sample_fs_def ok_or_def ensure_def path_eval)

lemma sample_lines:
  "read_lines [CHR ''1'', newline, CHR ''1'', newline, CHR ''2'', newline, CHR ''3'']
     = [[CHR ''1'', newline], [CHR ''1'', newline], [CHR ''2'', newline], ''3'']"
  by (simp add: read_lines.simps newline_def)

lemma sample_claude_step:
  "Claude_step ''s'' (claude_record response n) st = (if response \<in> set (cl_response_ids st) then Inr st
     else Claude_count (JObject [(''input_tokens'', JNumber (PosInt n)), (''output_tokens'', JNumber (PosInt 1))])
       (st\<lparr>cl_response_ids := response # cl_response_ids st, cl_usage_observed := True\<rparr>))"
  if "nonblank response"
  using that by (simp add: Claude_step_def claude_record_def ensure_def get_str_def Claude_model_of_def
      Claude_row_def filter_opt_def)

definition sample_claude_first :: ClaudeScan where
  "sample_claude_first = \<lparr>cl_input = 5, cl_output = 1, cl_context = Some 5, cl_response_ids = [''r1''],
     cl_usage_observed = True, cl_session_name = None, cl_model = None\<rparr>"

definition sample_claude_last :: ClaudeScan where
  "sample_claude_last = \<lparr>cl_input = 12, cl_output = 2, cl_context = Some 7, cl_response_ids = [''r2'', ''r1''],
     cl_usage_observed = True, cl_session_name = None, cl_model = None\<rparr>"

lemma sample_claude_steps:
  "Claude_step ''s'' (claude_record ''r1'' 5) ClaudeScan_init = Inr sample_claude_first"
  "Claude_step ''s'' (claude_record ''r1'' 5) sample_claude_first = Inr sample_claude_first"
  "Claude_step ''s'' (claude_record ''r2'' 7) sample_claude_first = Inr sample_claude_last"
  by (simp_all add: sample_claude_step nonblank_word byte_def Claude_count_def optional_u64_def
      checked_add_def ClaudeScan_init_def sample_claude_first_def sample_claude_last_def)

lemma sample_not_cancelled: "check_cancelled (sample_request provider session locator) n = Inr ()"
  by (simp add: sample_request_def check_cancelled_def)

lemma sample_claude_records:
  "scan_records sample_reader (sample_request provider session locator) too_long malformed
     (Claude_step ''s'') n ClaudeScan_init
     [[CHR ''1'', newline], [CHR ''1'', newline], [CHR ''2'', newline], ''3''] = Inr (sample_claude_last, n + 4)"
proof -
  have "pf_from_str sample_reader [CHR ''1'', newline] = Some (claude_record ''r1'' 5)"
      "pf_from_str sample_reader [CHR ''2'', newline] = Some (claude_record ''r2'' 7)"
    by (simp_all add: sample_reader_def)
  then show ?thesis
    by (simp add: sample_not_cancelled MAX_LINE_BYTES_def ok_or_def ends_with_def starts_with_def
        newline_def sample_claude_steps)
qed

lemma sample_claude_scan:
  "\<exists>e cursor. Claude_scan sample_reader sample_fs (sample_request Claude ''s'' ''/h/.claude/projects/s.jsonl'')
     = Inr (Complete e cursor) \<and> se_usage e \<noteq> None"
proof -
  let ?r = "sample_request Claude ''s'' ''/h/.claude/projects/s.jsonl''"
  have r: "rq_home ?r = ''/h''" "rq_locator ?r = ''/h/.claude/projects/s.jsonl''"
      "sk_provider_session_id (rq_key ?r) = ''s''" "rq_prior_cursor ?r = None"
    by (simp_all add: sample_request_def)
  have root: "path_join ''/h'' ''.claude/projects'' = ''/h/.claude/projects''"
    by (simp add: path_join_def is_absolute_def starts_with_def ends_with_def)
  have opened: "open_bounded_nofollow sample_fs path MAX_SCAN_BYTES = Inr (sample_metadata,
      [CHR ''1'', newline, CHR ''1'', newline, CHR ''2'', newline, CHR ''3''])" for path
    by (simp add: open_bounded_nofollow_def ok_or_def sample_fs_def sample_metadata_def MAX_SCAN_BYTES_def)
  have stable: "ensure_stable (ArtifactCursor_from sample_metadata) (fs_after sample_fs path) = Inr ()" for path
    by (simp add: ensure_stable_def ArtifactCursor_from_def sample_fs_def)
  show ?thesis
    by (simp add: Claude_scan_def r root sample_claude_path opened sample_lines sample_claude_records
        stable cursor_unchanged_def Let_def sample_not_cancelled del: scan_records.simps)
      (simp add: ClaudeScan_enrichment_def sample_claude_last_def)
qed

theorem claude_counts_responses_once_witness:
  "\<exists>path metadata bytes. fs_open sample_fs path = Some (metadata, bytes)
     \<and> List.map_filter Claude_row (complete_records sample_reader bytes) \<noteq> []"
proof -
  obtain e cursor where scan: "Claude_scan sample_reader sample_fs
      (sample_request Claude ''s'' ''/h/.claude/projects/s.jsonl'') = Inr (Complete e cursor)" "se_usage e \<noteq> None"
    using sample_claude_scan by blast
  show ?thesis
    using claude_counts_responses_once [OF scan(1)] scan(2) by (auto split: option.splits)
qed

text \<open>
  The Antigravity collector counts every planner step once, by the first complete record with
  its index, and its sums are exact. A count missing in the record is taken from its usage object,
  and is zero if it is not there either.
\<close>

theorem agy_counts_steps_once:
  assumes "scan_in pf fs request data_dir = Inr (Complete e cursor)"
  shows "\<exists>path metadata bytes rows.
     fs_open fs path = Some (metadata, bytes)
     \<and> rows = List.map_filter Agy_row (complete_records pf bytes)
     \<and> (\<forall>u. se_usage e = Some u \<longrightarrow>
          map_option unat (us_input_tokens u) = Some (\<Sum>k \<in> fst ` set rows. Agy_input (the (map_of rows k)))
          \<and> map_option unat (us_output_tokens u)
            = Some (\<Sum>k \<in> fst ` set rows. Agy_tokens ''output_tokens'' (the (map_of rows k))))"
proof -
  obtain path metadata bytes st n where
      opened: "open_bounded_nofollow fs path MAX_SCAN_BYTES = Inr (metadata, bytes)"
    and scan: "scan_records pf request ''Antigravity transcript record exceeds limit''
        ''malformed Antigravity transcript record'' Agy_step 2 AgyScan_init (read_lines bytes) = Inr (st, n)"
    and e: "e = AgyScan_enrichment st"
    using assms by (auto simp: scan_in_def result_bind_Inr Let_def split: if_splits prod.splits)
  have run: "run Agy_step (complete_records pf bytes) AgyScan_init = Inr st"
    using scan_records_run [OF scan] by (simp add: complete_records_def)
  have init: "ag_seen_steps AgyScan_init = []" "unat (ag_input AgyScan_init) = 0"
      "unat (ag_output AgyScan_init) = 0"
    by (simp_all add: AgyScan_init_def)
  show ?thesis
    using scan_opened [OF opened] agy_input.run_tally(2) [OF run init(1,2)]
      agy_output.run_tally(2) [OF run init(1,3)]
    by (auto simp: e AgyScan_enrichment_def)
qed

definition agy_record :: Json where
  "agy_record = JObject [(''type'', JString ''PLANNER_RESPONSE''), (''step_index'', JNumber (PosInt 3)),
     (''input_tokens'', JNumber (PosInt 40))]"

definition agy_reader :: Platform where
  "agy_reader = sample_platform\<lparr>pf_from_str := (\<lambda>s. if s = [CHR ''1'', newline] then Some agy_record else None)\<rparr>"

definition agy_fs :: ArtifactFs where
  "agy_fs = sample_fs\<lparr>fs_open := (\<lambda>_. Some (sample_metadata, [CHR ''1'', newline]))\<rparr>"

definition agy_request :: "string \<Rightarrow> CollectSessionDataRequest" where
  "agy_request session = sample_request Agy session ''/h/.gemini/antigravity-cli/brain/b/transcript.jsonl''"

lemma agy_scan_records:
  "scan_records agy_reader (agy_request session) too_long malformed Agy_step 2 AgyScan_init
     (read_lines [CHR ''1'', newline]) = Inr (\<lparr>ag_input = 40, ag_output = 0, ag_context = Some 40,
       ag_seen_steps = [3], ag_usage_observed = True, ag_model = None\<rparr>, 4)"
proof -
  have "read_lines [CHR ''1'', newline] = [[CHR ''1'', newline]]"
    by (simp add: read_lines.simps newline_def)
  moreover have "Agy_step agy_record AgyScan_init = Inr \<lparr>ag_input = 40, ag_output = 0, ag_context = Some 40,
       ag_seen_steps = [3], ag_usage_observed = True, ag_model = None\<rparr>"
    by (simp add: Agy_step_def agy_record_def AgyScan_init_def get_str_def optional_u64_def
        Agy_count_field_def checked_add_def)
  moreover have "pf_from_str agy_reader [CHR ''1'', newline] = Some agy_record"
    by (simp add: agy_reader_def)
  ultimately show ?thesis
    by (simp add: agy_request_def sample_not_cancelled MAX_LINE_BYTES_def ok_or_def ends_with_def
        starts_with_def newline_def)
qed

lemma agy_path:
  "validate_under_root agy_fs ''/h/.gemini/antigravity-cli/brain''
     ''/h/.gemini/antigravity-cli/brain/b/transcript.jsonl'' None ''jsonl''
   = Inr ''/h/.gemini/antigravity-cli/brain/b/transcript.jsonl''"
  by (simp add: validate_under_root_def agy_fs_def sample_fs_def ok_or_def ensure_def path_eval)

lemma agy_scan_other_session:
  assumes "path_starts_with ''/h/.gemini/antigravity-cli/brain/b/transcript.jsonl''
    (path_join ''/h/.gemini/antigravity-cli/brain'' session)"
  shows "\<exists>e cursor. scan_in agy_reader agy_fs (agy_request session) None = Inr (Complete e cursor)
    \<and> map_option us_input_tokens (se_usage e) = Some (Some 40)"
proof -
  let ?p = "''/h/.gemini/antigravity-cli/brain/b/transcript.jsonl''"
  have names: "file_stem ?p = Some ''transcript''" "file_name ?p = Some ''transcript.jsonl''"
    by (simp_all add: path_eval)
  have paths: "path_join ''/h'' ''.gemini/antigravity-cli'' = ''/h/.gemini/antigravity-cli''"
      "path_join ''/h/.gemini/antigravity-cli'' ''brain'' = ''/h/.gemini/antigravity-cli/brain''"
    by (simp_all add: path_join_def is_absolute_def starts_with_def ends_with_def)
  have r: "rq_home (agy_request session) = ''/h''" "rq_locator (agy_request session) = ?p"
      "sk_provider_session_id (rq_key (agy_request session)) = session"
      "rq_prior_cursor (agy_request session) = None"
      "check_cancelled (agy_request session) n = Inr ()" for n
    by (simp_all add: agy_request_def sample_not_cancelled) (simp_all add: sample_request_def)
  have target: "Agy_locator agy_fs ?p = ?p" "Agy_target agy_fs ?p = ?p"
    by (simp_all add: Agy_locator_def Agy_target_def agy_fs_def sample_fs_def names)
  have opened: "open_bounded_nofollow agy_fs path MAX_SCAN_BYTES = Inr (sample_metadata, [CHR ''1'', newline])"
      "fs_canonicalize agy_fs path = Some path"
      "ensure_stable (ArtifactCursor_from sample_metadata) (fs_after agy_fs path) = Inr ()" for path
    by (simp_all add: open_bounded_nofollow_def ok_or_def agy_fs_def sample_fs_def sample_metadata_def
        MAX_SCAN_BYTES_def ensure_stable_def ArtifactCursor_from_def)
  show ?thesis
    using assms
    by (simp add: scan_in_def r paths filter_opt_def target agy_path names opened agy_scan_records
        cursor_unchanged_def Let_def ok_or_def ensure_def)
      (simp add: AgyScan_enrichment_def)
qed

theorem agy_counts_steps_once_witness:
  "\<exists>path metadata bytes e cursor. scan_in agy_reader agy_fs (agy_request ''b'') None = Inr (Complete e cursor)
     \<and> fs_open agy_fs path = Some (metadata, bytes)
     \<and> map_option us_input_tokens (se_usage e) = Some (Some 40)"
proof -
  have "path_starts_with ''/h/.gemini/antigravity-cli/brain/b/transcript.jsonl''
      (path_join ''/h/.gemini/antigravity-cli/brain'' ''b'')"
    by (simp add: path_eval)
  then obtain e cursor where "scan_in agy_reader agy_fs (agy_request ''b'') None = Inr (Complete e cursor)"
      "map_option us_input_tokens (se_usage e) = Some (Some 40)"
    using agy_scan_other_session by blast
  then show ?thesis using agy_counts_steps_once by blast
qed

text \<open>
  The check that a transcript belongs to the session joins the session's identifier, which the
  payload chooses, to the root: with the identifier \<open>/\<close> or \<open>.\<close> the check says yes to the transcript
  of every session, and the collector reports another session's usage.
\<close>

theorem agy_session_check_bypassed:
  "(\<exists>e cursor. scan_in agy_reader agy_fs (agy_request ''/'') None = Inr (Complete e cursor)
     \<and> map_option us_input_tokens (se_usage e) = Some (Some 40))
   \<and> (\<exists>e cursor. scan_in agy_reader agy_fs (agy_request ''.'') None = Inr (Complete e cursor)
     \<and> map_option us_input_tokens (se_usage e) = Some (Some 40))
   \<and> rq_locator (agy_request session) = ''/h/.gemini/antigravity-cli/brain/b/transcript.jsonl''"
proof -
  have "path_starts_with ''/h/.gemini/antigravity-cli/brain/b/transcript.jsonl''
      (path_join ''/h/.gemini/antigravity-cli/brain'' ''/'')"
    "path_starts_with ''/h/.gemini/antigravity-cli/brain/b/transcript.jsonl''
      (path_join ''/h/.gemini/antigravity-cli/brain'' ''.'')"
    by (simp_all add: path_eval)
  then show ?thesis
    using agy_scan_other_session by (auto simp: agy_request_def sample_request_def)
qed

text \<open>
  The context percentage is the nearest whole percentage, halves up, and never more than 100.
\<close>

lemma unat_percent: "unat (percent v window) = min ((unat v * 100 + unat window div 2) div unat window) 100"
  by (simp add: percent_def unsigned_of_nat take_bit_nat_eq_self)

theorem percent_rounds:
  assumes "0 < window"
  shows "percent v window \<le> 100
    \<and> (v \<le> window \<longrightarrow> 2 * (unat (percent v window) * unat window) \<le> 200 * unat v + unat window
          \<and> 200 * unat v + unat window < 2 * ((unat (percent v window) + 1) * unat window))
    \<and> (window \<le> v \<longrightarrow> percent v window = 100)"
proof -
  let ?n = "unat v" and ?w = "unat window"
  define q where "q = (?n * 100 + ?w div 2) div ?w"
  have w: "0 < ?w" using assms by (simp add: word_less_nat_alt)
  have p: "unat (percent v window) = min q 100" by (simp add: unat_percent q_def)
  have low: "q * ?w \<le> ?n * 100 + ?w div 2"
    unfolding q_def by simp
  have high: "?n * 100 + ?w div 2 < (q + 1) * ?w"
    using dividend_less_times_div [OF w, of "?n * 100 + ?w div 2"] by (simp add: q_def algebra_simps)
  have "q \<le> 100" if "?n \<le> ?w"
  proof -
    have "?n * 100 + ?w div 2 < 101 * ?w" using that w by linarith
    then show ?thesis using w by (simp add: q_def less_mult_imp_div_less Suc_leI flip: less_Suc_eq_le)
  qed
  moreover have "100 \<le> q" if "?w \<le> ?n"
    using that w by (simp add: q_def less_eq_div_iff_mult_less_eq)
  moreover have "percent v window \<le> 100" by (simp add: word_le_nat_alt p)
  moreover have "percent v window = 100" if "100 \<le> q"
    using that p by (simp add: word_unat_eq_iff)
  ultimately show ?thesis
    using low high p by (auto simp: word_le_nat_alt min_def algebra_simps)
qed

theorem percent_rounds_witness: "percent 1 3 = 33 \<and> percent 2 3 \<le> 100"
  using percent_rounds [of 3 2] by (simp add: percent_def)

section \<open>Workspaces\<close>

text \<open>
  Antigravity decides that a relative target stays in the workspace after removing \<open>..\<close> in
  pairs: the target \<open>../../x\<close> is not outside for it, although joined to the workspace it is.
\<close>

theorem agy_double_parent_inside:
  "\<not> is_path_outside_workspaces ''../../x'' [''/w/p'']
   \<and> is_path_outside_workspaces ''../x'' [''/w/p'']
   \<and> \<not> starts_with (normalize_path (components (path_join ''/w/p'' ''../../x''))) (components ''/w/p'')"
  by (simp add: is_path_outside_workspaces_def normalize_path_def pop_def path_eval)

end
