(* ===== verification/Hooks.thy ===== *)
theory Hooks
  imports Antigravity
begin

text \<open>
  Installing and removing the managed hooks: \<open>merge_hook_config\<close> of \<^verbatim>\<open>sessiontap-adapters/src/lib.rs\<close>,
  the \<open>setup\<close> functions of the providers, the managed extension of \<^verbatim>\<open>pi.rs\<close> and the managed plugin
  of \<^verbatim>\<open>agy.rs\<close>. The files are a map from paths to contents; reading and writing JSON text is
  serde's (\<open>parse\<close>, \<open>pretty\<close>). The lock that excludes other processes and the directories that are
  created on the way are not state of the model. serde keeps the members of an object sorted.
\<close>

datatype SetupAction = Ensure | Doctor | Remove

record SetupReport =
  rp_changed :: bool
  rp_healthy :: bool
  rp_message :: string

type_synonym files = "string \<Rightarrow> string option"

section \<open>Managed handlers\<close>

definition quote :: string where "quote = [CHR 0x27]"

text \<open>\<^verbatim>\<open>str::replace\<close> of one character.\<close>

definition replace_char :: "char \<Rightarrow> string \<Rightarrow> string \<Rightarrow> string" where
  "replace_char c with s = concat (map (\<lambda>d. if d = c then with else [d]) s)"

definition shell_quote :: "string \<Rightarrow> string" where
  "shell_quote v = quote @ replace_char (CHR 0x27) [CHR 0x27, CHR 0x22, CHR 0x27, CHR 0x22, CHR 0x27] v @ quote"

definition STATUS_MESSAGE :: string where "STATUS_MESSAGE = ''SessionTap observability''"

definition owned_handler :: "string \<Rightarrow> string \<Rightarrow> string + Json" where
  "owned_handler provider executable =
     (case to_str executable of
        None \<Rightarrow> Inl ''SessionTap executable path is not valid UTF-8''
      | Some executable \<Rightarrow> Inr (JObject
          [(''command'', JString (shell_quote executable @ '' hook emit '' @ shell_quote provider)),
           (''statusMessage'', JString STATUS_MESSAGE),
           (''timeout'', JNumber (PosInt 3)),
           (''type'', JString ''command'')]))"

definition is_owned_handler :: "Json \<Rightarrow> bool" where
  "is_owned_handler handler \<longleftrightarrow>
     get_str ''statusMessage'' handler = Some STATUS_MESSAGE
     \<and> is_some_and (\<lambda>command. contains command '' hook emit '') (get_str ''command'' handler)"

section \<open>The merge\<close>

text \<open>\<^verbatim>\<open>get_mut\<close>: change the member of an object.\<close>

fun update_member :: "string \<Rightarrow> (Json \<Rightarrow> Json) \<Rightarrow> Json \<Rightarrow> Json" where
  "update_member key f (JObject members) = JObject (map (\<lambda>(k, v). (k, if k = key then f v else v)) members)"
| "update_member key f v = v"

fun retain_foreign :: "Json \<Rightarrow> Json" where
  "retain_foreign (JArray handlers) = JArray (filter (\<lambda>h. \<not> is_owned_handler h) handlers)"
| "retain_foreign v = v"

definition group_handlers :: "Json \<Rightarrow> Json list option" where
  "group_handlers g = Option.bind (get ''hooks'' g) as_array"

definition strip_groups :: "Json list \<Rightarrow> Json list" where
  "strip_groups groups = filter (\<lambda>g. is_none_or (\<lambda>handlers. handlers \<noteq> []) (group_handlers g))
     (map (update_member ''hooks'' retain_foreign) groups)"

fun strip_hooks :: "(string \<times> Json) list \<Rightarrow> string + (string \<times> Json) list" where
  "strip_hooks [] = Inr []"
| "strip_hooks ((event, groups) # rest) =
     (case as_array groups of
        None \<Rightarrow> Inl ''hook event must be an array''
      | Some groups \<Rightarrow> result_bind (strip_hooks rest) (\<lambda>rest.
          Inr ((event, JArray (strip_groups groups)) # rest)))"

text \<open>Insertion into the sorted members of an object; a key that is there keeps its place.\<close>

definition obj_insert :: "string \<Rightarrow> Json \<Rightarrow> (string \<times> Json) list \<Rightarrow> (string \<times> Json) list" where
  "obj_insert key v members =
     (if map_of members key = None then insort_key fst (key, v) members
      else map (\<lambda>(k, w). (k, if k = key then v else w)) members)"

definition add_event ::
    "string + Json list \<Rightarrow> string \<Rightarrow> (string \<times> Json) list \<Rightarrow> string + (string \<times> Json) list" where
  "add_event added event hooks =
     (case as_array (unwrap_or (map_of hooks event) (JArray [])) of
        None \<Rightarrow> Inl ''hook event must be an array''
      | Some groups \<Rightarrow> result_bind added (\<lambda>added. Inr (obj_insert event (JArray (groups @ added)) hooks)))"

fun add_events ::
    "string + Json list \<Rightarrow> string list \<Rightarrow> (string \<times> Json) list \<Rightarrow> string + (string \<times> Json) list" where
  "add_events added [] hooks = Inr hooks"
| "add_events added (event # events) hooks =
     result_bind (add_event added event hooks) (add_events added events)"

text \<open>The groups a managed event gets: none when hooks are removed.\<close>

definition managed_groups :: "SetupAction \<Rightarrow> string \<Rightarrow> string \<Rightarrow> string + Json list" where
  "managed_groups action provider executable =
     (if action = Remove then Inr []
      else result_bind (owned_handler provider executable) (\<lambda>handler.
        Inr [JObject [(''hooks'', JArray [handler])]]))"

definition merge_root :: "string + Json list \<Rightarrow> string list \<Rightarrow> Json \<Rightarrow> string + Json" where
  "merge_root added events root =
     (case as_object root of
        None \<Rightarrow> Inl ''configuration root must be an object''
      | Some members \<Rightarrow>
         (case as_object (unwrap_or (map_of members ''hooks'') (JObject [])) of
            None \<Rightarrow> Inl ''hooks must be an object''
          | Some hooks \<Rightarrow>
              result_bind (strip_hooks hooks) (\<lambda>hooks.
              result_bind (add_events added events hooks) (\<lambda>hooks.
                Inr (JObject (obj_insert ''hooks'' (JObject hooks) members))))))"

definition resolve_config_link :: "(string \<Rightarrow> bool) \<Rightarrow> (string \<Rightarrow> string option) \<Rightarrow> string \<Rightarrow> string + string" where
  "resolve_config_link is_symlink canonicalize path =
     (if is_symlink path
      then (case canonicalize path of
              None \<Rightarrow> Inl ''configuration symlink points to a missing target''
            | Some target \<Rightarrow> Inr target)
      else Inr path)"

definition merge_hook_config ::
    "(string \<Rightarrow> Json option) \<Rightarrow> (Json \<Rightarrow> string) \<Rightarrow> (string \<Rightarrow> bool) \<Rightarrow> (string \<Rightarrow> string option) \<Rightarrow> files
     \<Rightarrow> string \<Rightarrow> string \<Rightarrow> string list \<Rightarrow> string \<Rightarrow> SetupAction \<Rightarrow> string + SetupReport \<times> files" where
  "merge_hook_config parse pretty is_symlink canonicalize files path provider events executable action =
     result_bind (resolve_config_link is_symlink canonicalize path) (\<lambda>path.
     let original = unwrap_or (files path) ''{}''
     in if \<not> valid_utf8 original then Inl ''stream did not contain valid UTF-8''
        else case parse original of
          None \<Rightarrow> Inl ''provider configuration is invalid; refusing to overwrite''
        | Some root \<Rightarrow>
            result_bind (merge_root (managed_groups action provider executable) events root) (\<lambda>root.
              let rendered = pretty root; changed = (rendered \<noteq> original)
              in if action = Doctor then
                   Inr (\<lparr>rp_changed = False, rp_healthy = \<not> changed,
                         rp_message = (if changed then ''managed hooks need refresh'' else ''managed hooks healthy'')\<rparr>,
                        files)
                 else
                   Inr (\<lparr>rp_changed = changed, rp_healthy = True,
                         rp_message = (if action = Remove then ''managed hooks removed''
                                       else ''managed hooks installed'')\<rparr>,
                        files(path \<mapsto> rendered))))"

definition Claude_setup where
  "Claude_setup parse pretty is_symlink canonicalize files home executable action =
     merge_hook_config parse pretty is_symlink canonicalize files
       (path_join home ''.claude/settings.json'') ''claude'' Claude_HOOK_EVENTS executable action"

definition Codex_setup where
  "Codex_setup parse pretty is_symlink canonicalize files home executable action =
     result_bind (merge_hook_config parse pretty is_symlink canonicalize files
       (path_join home ''.codex/hooks.json'') ''codex'' Codex_HOOK_EVENTS executable action) (\<lambda>(report, files).
       Inr (if action \<noteq> Remove
            then report\<lparr>rp_message := rp_message report @ ''; review or refresh trust with Codex /hooks''\<rparr>
            else report, files))"

definition Qwen_setup where
  "Qwen_setup parse pretty is_symlink canonicalize files home executable action =
     merge_hook_config parse pretty is_symlink canonicalize files
       (path_join home ''.qwen/settings.json'') ''qwen'' Qwen_HOOK_EVENTS executable action"

section \<open>Pi's managed extension\<close>

definition MANAGED_EXTENSION_FILE :: string where "MANAGED_EXTENSION_FILE = ''sessiontap.ts''"
definition OWNERSHIP_MARKER :: string where "OWNERSHIP_MARKER = ''// sessiontap-managed-extension v1''"

definition extension_path :: "string \<Rightarrow> string option \<Rightarrow> string" where
  "extension_path home agent_dir =
     path_join (path_join (unwrap_or (filter_opt (\<lambda>d. d \<noteq> []) agent_dir) (path_join home ''.pi/agent''))
       ''extensions'') MANAGED_EXTENSION_FILE"

definition is_owned :: "string \<Rightarrow> bool" where
  "is_owned content = contains content OWNERSHIP_MARKER"

definition EXECUTABLE_PLACEHOLDER :: string where
  "EXECUTABLE_PLACEHOLDER = [CHR 0x22] @ ''__SESSIONTAP_EXECUTABLE__'' @ [CHR 0x22]"

text \<open>
  \<^verbatim>\<open>str::replace\<close> from left to right: \<open>skip\<close> counts the characters of a match still to pass. The
  template is the asset file and \<open>to_json\<close> writes a string as JSON text.
\<close>

fun replace_from :: "nat \<Rightarrow> string \<Rightarrow> string \<Rightarrow> string \<Rightarrow> string" where
  "replace_from skip pattern with [] = []"
| "replace_from skip pattern with (c # s) =
     (if 0 < skip then replace_from (skip - 1) pattern with s
      else if starts_with (c # s) pattern then with @ replace_from (length pattern - 1) pattern with s
      else c # replace_from 0 pattern with s)"

definition render_extension :: "string \<Rightarrow> (string \<Rightarrow> string) \<Rightarrow> string \<Rightarrow> string" where
  "render_extension template to_json executable =
     replace_from 0 EXECUTABLE_PLACEHOLDER (to_json executable) template"

definition manage_extension_in ::
    "string \<Rightarrow> (string \<Rightarrow> string) \<Rightarrow> files \<Rightarrow> string \<Rightarrow> string option \<Rightarrow> string \<Rightarrow> SetupAction
     \<Rightarrow> string + SetupReport \<times> files" where
  "manage_extension_in template to_json files home agent_dir executable action =
     (case to_str executable of
        None \<Rightarrow> Inl ''SessionTap executable path is not valid UTF-8''
      | Some executable \<Rightarrow>
          let rendered = render_extension template to_json executable; path = extension_path home agent_dir;
              existing = Option.bind (files path) to_str
          in case action of
               Ensure \<Rightarrow>
                 if is_some_and (\<lambda>content. \<not> is_owned content) existing
                 then Inl (path @ '' is not SessionTap-owned; refusing to modify it'')
                 else if existing = Some rendered
                 then Inr (\<lparr>rp_changed = False, rp_healthy = True, rp_message = ''managed extension healthy''\<rparr>, files)
                 else Inr (\<lparr>rp_changed = True, rp_healthy = True, rp_message = ''managed extension installed''\<rparr>,
                           files(path \<mapsto> rendered))
             | Doctor \<Rightarrow>
                 let healthy = (existing = Some rendered)
                 in Inr (\<lparr>rp_changed = False, rp_healthy = healthy,
                          rp_message = (if healthy then ''managed extension healthy''
                                        else ''managed extension needs refresh'')\<rparr>, files)
             | Remove \<Rightarrow>
                 if is_some_and is_owned existing
                 then Inr (\<lparr>rp_changed = True, rp_healthy = True, rp_message = ''managed extension removed''\<rparr>,
                           files(path := None))
                 else Inr (\<lparr>rp_changed = False, rp_healthy = True, rp_message = ''managed extension absent''\<rparr>, files))"

section \<open>Antigravity's managed plugin\<close>

text \<open>The documents of the plugin; the text is serde's (\<open>pretty\<close>).\<close>

definition render_plugin_json :: Json where
  "render_plugin_json = JObject
     [(''description'', JString ''SessionTap lifecycle hooks for Antigravity CLI''),
      (''name'', JString ''sessiontap'')]"

definition plugin_handler :: "string \<Rightarrow> string \<Rightarrow> string \<Rightarrow> Json" where
  "plugin_handler quoted event stdout_json = JObject
     [(''command'', JString (quoted @ '' hook emit '' @ quote @ ''agy'' @ quote @ '' '' @ quote @ event @ quote
         @ '' >/dev/null 2>&1 || true; printf '' @ quote @ stdout_json @ [CHR 0x5C] @ ''n'' @ quote)),
      (''timeout'', JNumber (PosInt 3)),
      (''type'', JString ''command'')]"

definition flat_event :: "string \<Rightarrow> string \<Rightarrow> Json" where
  "flat_event quoted event = JArray [plugin_handler quoted event ''{}'']"

definition matcher_event :: "string \<Rightarrow> string \<Rightarrow> string \<Rightarrow> Json" where
  "matcher_event quoted event stdout_json = JArray [JObject
     [(''hooks'', JArray [plugin_handler quoted event stdout_json]), (''matcher'', JString ''*'')]]"

definition ALLOW :: string where
  "ALLOW = ''{'' @ [CHR 0x22] @ ''decision'' @ [CHR 0x22] @ '':'' @ [CHR 0x22] @ ''allow'' @ [CHR 0x22] @ ''}''"

definition render_hooks_json :: "string \<Rightarrow> Json" where
  "render_hooks_json executable =
     (let quoted = shell_quote executable
      in JObject [(''sessiontap'', JObject
        [(''PostInvocation'', flat_event quoted ''PostInvocation''),
         (''PostToolUse'', matcher_event quoted ''PostToolUse'' ''{}''),
         (''PreInvocation'', flat_event quoted ''PreInvocation''),
         (''PreToolUse'', matcher_event quoted ''PreToolUse'' ALLOW),
         (''SessionStart'', flat_event quoted ''SessionStart''),
         (''Stop'', flat_event quoted ''Stop'')])])"

definition is_plugin_disabled :: "(string \<Rightarrow> Json option) \<Rightarrow> files \<Rightarrow> string \<Rightarrow> bool" where
  "is_plugin_disabled parse files config_root \<longleftrightarrow>
     Option.bind (Option.bind (Option.bind (Option.bind (Option.bind (Option.bind
       (files (path_join config_root ''config.json'')) to_str) parse) (get ''plugins'')) (get ''sessiontap''))
       (get ''enabled'')) as_bool = Some False"

definition manage_plugin_in ::
    "(string \<Rightarrow> Json option) \<Rightarrow> (Json \<Rightarrow> string) \<Rightarrow> files \<Rightarrow> string \<Rightarrow> string option \<Rightarrow> string
     \<Rightarrow> SetupAction \<Rightarrow> string + SetupReport \<times> files" where
  "manage_plugin_in parse pretty files home config_dir_env executable action =
     (case to_str executable of
        None \<Rightarrow> Inl ''SessionTap executable path is not valid UTF-8''
      | Some executable \<Rightarrow>
          let config_dir = unwrap_or (filter_opt (\<lambda>d. d \<noteq> []) config_dir_env) (path_join home ''.gemini/config'');
              plugin_dir = path_join (path_join config_dir ''plugins'') ''sessiontap'';
              plugin_file = path_join plugin_dir ''plugin.json'';
              hooks_file = path_join plugin_dir ''hooks.json'';
              rendered_plugin = pretty render_plugin_json;
              rendered_hooks = pretty (render_hooks_json executable);
              matches = (Option.bind (files plugin_file) to_str = Some rendered_plugin
                         \<and> Option.bind (files hooks_file) to_str = Some rendered_hooks)
          in case action of
               Ensure \<Rightarrow>
                 if matches
                 then Inr (\<lparr>rp_changed = False, rp_healthy = True, rp_message = ''managed plugin healthy''\<rparr>, files)
                 else Inr (\<lparr>rp_changed = True, rp_healthy = True, rp_message = ''managed plugin installed''\<rparr>,
                           files(plugin_file \<mapsto> rendered_plugin, hooks_file \<mapsto> rendered_hooks))
             | Doctor \<Rightarrow>
                 if \<not> matches
                 then Inr (\<lparr>rp_changed = False, rp_healthy = False, rp_message = ''managed plugin needs refresh''\<rparr>, files)
                 else if is_plugin_disabled parse files config_dir
                 then Inr (\<lparr>rp_changed = False, rp_healthy = False,
                            rp_message = ''sessiontap plugin is disabled in config.json''\<rparr>, files)
                 else Inr (\<lparr>rp_changed = False, rp_healthy = True, rp_message = ''managed plugin healthy''\<rparr>, files)
             | Remove \<Rightarrow>
                 let changed = (files plugin_file \<noteq> None \<or> files hooks_file \<noteq> None)
                 in Inr (\<lparr>rp_changed = changed, rp_healthy = True,
                          rp_message = (if changed then ''managed plugin removed'' else ''managed plugin absent'')\<rparr>,
                         files(plugin_file := None, hooks_file := None)))"

end
