(* ===== verification/Hooks_Props.thy ===== *)
theory Hooks_Props
  imports Hooks Collectors_Lemmas
begin

text \<open>
  Managed hooks beside the user's own: the merge keeps every foreign handler in its place and order,
  leaves exactly one managed handler per managed event, removes them all, and is idempotent.
\<close>

section \<open>Groups\<close>

definition handlers_of :: "Json \<Rightarrow> Json list" where
  "handlers_of g = unwrap_or (group_handlers g) []"

definition foreign :: "Json list \<Rightarrow> Json list" where
  "foreign groups = filter (\<lambda>h. \<not> is_owned_handler h) (concat (map handlers_of groups))"

definition owned :: "Json list \<Rightarrow> Json list" where
  "owned groups = filter is_owned_handler (concat (map handlers_of groups))"

lemma map_of_update:
  "map_of (map (\<lambda>(k, v). (k, if k = key then f v else v)) ms) key = map_option f (map_of ms key)"
  by (induction ms) auto

lemma as_array_retain:
  "as_array (retain_foreign v) = map_option (filter (\<lambda>h. \<not> is_owned_handler h)) (as_array v)"
  by (cases v) simp_all

lemma group_handlers_retain:
  "group_handlers (update_member ''hooks'' retain_foreign g)
     = map_option (filter (\<lambda>h. \<not> is_owned_handler h)) (group_handlers g)"
proof (cases g)
  case (JObject ms)
  then show ?thesis
    by (cases "map_of ms ''hooks''") (simp_all add: group_handlers_def map_of_update as_array_retain)
qed (simp_all add: group_handlers_def)

lemma handlers_of_retain:
  "handlers_of (update_member ''hooks'' retain_foreign g) = filter (\<lambda>h. \<not> is_owned_handler h) (handlers_of g)"
  by (simp add: handlers_of_def group_handlers_retain unwrap_or_def split: option.splits)

lemma strip_groups_Cons:
  "strip_groups (g # gs) =
     (let g' = update_member ''hooks'' retain_foreign g
      in if is_none_or (\<lambda>hs. hs \<noteq> []) (group_handlers g') then g' # strip_groups gs else strip_groups gs)"
  by (simp add: strip_groups_def Let_def)

lemma strip_groups_handlers:
  "concat (map handlers_of (strip_groups gs)) = foreign gs"
proof (induction gs)
  case (Cons g gs)
  let ?g = "update_member ''hooks'' retain_foreign g"
  have "handlers_of ?g = []" if "\<not> is_none_or (\<lambda>hs. hs \<noteq> []) (group_handlers ?g)"
    using that by (auto simp: handlers_of_def is_none_or_iff)
  with Cons show ?case
    by (auto simp: strip_groups_Cons Let_def foreign_def handlers_of_retain)
qed (simp add: strip_groups_def foreign_def)

lemma foreign_strip [simp]: "foreign (strip_groups gs) = foreign gs"
  unfolding foreign_def [of "strip_groups gs"] strip_groups_handlers by (simp add: foreign_def)

lemma owned_strip [simp]: "owned (strip_groups gs) = []"
  unfolding owned_def strip_groups_handlers by (simp add: foreign_def)

lemma retain_idem: "retain_foreign (retain_foreign v) = retain_foreign v"
  by (cases v) simp_all

lemma update_retain_idem:
  "update_member ''hooks'' retain_foreign (update_member ''hooks'' retain_foreign g)
     = update_member ''hooks'' retain_foreign g"
  by (cases g) (auto simp: retain_idem)

lemma strip_groups_idem [simp]: "strip_groups (strip_groups gs) = strip_groups gs"
proof (induction gs)
  case (Cons g gs)
  then show ?case
    by (simp add: strip_groups_Cons Let_def update_retain_idem)
qed (simp add: strip_groups_def)

lemma strip_groups_append: "strip_groups (gs @ hs) = strip_groups gs @ strip_groups hs"
  by (simp add: strip_groups_def)

lemma contains_append: "contains (a @ p @ b) p"
proof (induction a)
  case Nil
  have "starts_with (p @ b) p" by (simp add: starts_with_iff)
  then show ?case by (cases "p @ b") (simp_all add: starts_with_def)
next
  case (Cons c a)
  then show ?case by simp
qed

lemma owned_handler_owned: "owned_handler provider executable = Inr h \<Longrightarrow> is_owned_handler h"
  using contains_append [of "shell_quote executable" "'' hook emit ''" "shell_quote provider"]
  by (auto simp: owned_handler_def is_owned_handler_def get_str_def to_str_def split: option.splits if_splits)

text \<open>The groups an action adds: all managed, so that the next merge takes them away again.\<close>

definition managed :: "Json list \<Rightarrow> bool" where
  "managed added \<longleftrightarrow> strip_groups added = [] \<and> foreign added = []"

lemma managed_groups_managed: "managed_groups action provider executable = Inr added \<Longrightarrow> managed added"
  by (auto simp: managed_groups_def result_bind_Inr managed_def strip_groups_def foreign_def
      handlers_of_def group_handlers_def dest: owned_handler_owned split: if_splits)

section \<open>Hooks\<close>

definition groups_of :: "(string \<times> Json) list \<Rightarrow> string \<Rightarrow> Json list" where
  "groups_of hooks event = unwrap_or (Option.bind (map_of hooks event) as_array) []"

definition arrays :: "(string \<times> Json) list \<Rightarrow> bool" where
  "arrays hooks = list_all (\<lambda>(e, v). as_array v \<noteq> None) hooks"

lemma strip_hooks_Inr:
  "strip_hooks hooks = Inr hooks' \<longleftrightarrow>
     arrays hooks \<and> hooks' = map (\<lambda>(e, v). (e, JArray (strip_groups (the (as_array v))))) hooks"
  by (induction hooks arbitrary: hooks')
    (auto simp: arrays_def result_bind_Inr split: option.splits)

lemma map_of_insort:
  "map_of m k = None \<Longrightarrow> map_of (insort_key fst (k, v) m) x = ((map_of m)(k \<mapsto> v)) x"
  by (induction m) (auto split: if_splits)

lemma map_of_obj_insert: "map_of (obj_insert k v m) x = ((map_of m)(k \<mapsto> v)) x"
proof (cases "map_of m k = None")
  case False
  have "map_of (map (\<lambda>(k', w). (k', if k' = k then v else w)) m) x
      = (if x = k then map_option (\<lambda>_. v) (map_of m x) else map_of m x)" for m
    by (induction m) auto
  with False show ?thesis by (auto simp: obj_insert_def)
qed (simp add: obj_insert_def map_of_insort)

lemma arrays_lookup: "arrays hooks \<Longrightarrow> map_of hooks e = Some v \<Longrightarrow> v = JArray (groups_of hooks e)"
proof -
  assume "arrays hooks" and v: "map_of hooks e = Some v"
  then have "as_array v \<noteq> None" by (auto simp: arrays_def list_all_iff dest: map_of_SomeD)
  then show ?thesis using v by (cases v) (simp_all add: groups_of_def)
qed

lemma arrays_obj_insert: "arrays hooks \<Longrightarrow> arrays (obj_insert k (JArray gs) hooks)"
  by (auto simp: arrays_def obj_insert_def list_all_iff set_insort_key split: if_splits)

lemma add_event_Inr:
  assumes "arrays hooks"
  shows "add_event (Inr added) e hooks = Inr (obj_insert e (JArray (groups_of hooks e @ added)) hooks)"
proof (cases "map_of hooks e")
  case (Some v)
  then show ?thesis using arrays_lookup [OF assms Some] by (simp add: add_event_def)
qed (simp add: add_event_def groups_of_def)

lemma add_events_Inr:
  assumes "arrays hooks" "distinct events"
  shows "\<exists>hooks'. add_events (Inr added) events hooks = Inr hooks' \<and> arrays hooks'
    \<and> (\<forall>e. map_of hooks' e =
        (if e \<in> set events then Some (JArray (groups_of hooks e @ added)) else map_of hooks e))"
  using assms
proof (induction events arbitrary: hooks)
  case (Cons e events)
  let ?h = "obj_insert e (JArray (groups_of hooks e @ added)) hooks"
  obtain hooks' where h: "add_events (Inr added) events ?h = Inr hooks'" "arrays hooks'"
      "\<forall>x. map_of hooks' x = (if x \<in> set events then Some (JArray (groups_of ?h x @ added)) else map_of ?h x)"
    using Cons arrays_obj_insert by fastforce
  have "groups_of ?h x = groups_of hooks x" if "x \<noteq> e" for x
    using that by (simp add: groups_of_def map_of_obj_insert)
  moreover have "x \<noteq> e" if "x \<in> set events" for x using that Cons.prems(2) by auto
  ultimately show ?case
    using h Cons.prems by (auto simp: add_event_Inr map_of_obj_insert)
qed simp

section \<open>The merge\<close>

definition hooks_of :: "Json \<Rightarrow> (string \<times> Json) list" where
  "hooks_of root = unwrap_or (Option.bind (get ''hooks'' root) as_object) []"

definition event_groups :: "Json \<Rightarrow> string \<Rightarrow> Json list" where
  "event_groups root event = groups_of (hooks_of root) event"

lemma merge_root_Inr:
  assumes "merge_root (Inr added) events root = Inr root'" "distinct events"
  obtains members hooks hooks' where "root = JObject members" "hooks_of root = hooks" "arrays hooks"
    "add_events (Inr added) events (map (\<lambda>(e, v). (e, JArray (strip_groups (the (as_array v))))) hooks) = Inr hooks'"
    "arrays hooks'" "root' = JObject (obj_insert ''hooks'' (JObject hooks') members)"
    "\<forall>e. map_of hooks' e = (if e \<in> set events then Some (JArray (strip_groups (event_groups root e) @ added))
      else map_option (\<lambda>_. JArray (strip_groups (event_groups root e))) (map_of hooks e))"
proof -
  obtain members hooks hooks' where r: "root = JObject members"
      "as_object (unwrap_or (map_of members ''hooks'') (JObject [])) = Some hooks"
      "arrays hooks"
      "add_events (Inr added) events (map (\<lambda>(e, v). (e, JArray (strip_groups (the (as_array v))))) hooks) = Inr hooks'"
      "root' = JObject (obj_insert ''hooks'' (JObject hooks') members)"
    using assms(1) by (cases root) (auto simp: merge_root_def result_bind_Inr strip_hooks_Inr split: option.splits)
  have hooks: "hooks_of root = hooks"
    using r(1,2) by (auto simp: hooks_of_def unwrap_or_def split: option.splits)
  let ?s = "map (\<lambda>(e, v). (e, JArray (strip_groups (the (as_array v))))) hooks"
  have s: "arrays ?s" by (auto simp: arrays_def list_all_iff)
  have "map_of ?s e = map_option (\<lambda>v. JArray (strip_groups (the (as_array v)))) (map_of hooks e)" for e
    by (induction hooks) auto
  then have look: "map_of ?s e = map_option (\<lambda>_. JArray (strip_groups (event_groups root e))) (map_of hooks e)" for e
    using arrays_lookup [OF r(3), of e] by (cases "map_of hooks e") (auto simp: event_groups_def hooks)
  have "groups_of ?s e = strip_groups (event_groups root e)" for e
    using look [of e] by (cases "map_of hooks e")
      (simp_all add: groups_of_def event_groups_def hooks strip_groups_def)
  with add_events_Inr [OF s assms(2), of added] r(4) look hooks that r show ?thesis
    by auto
qed

lemma hooks_of_insert: "hooks_of (JObject (obj_insert ''hooks'' (JObject hooks) members)) = hooks"
  by (simp add: hooks_of_def map_of_obj_insert)

lemma obj_insert_present:
  "map_of m k \<noteq> None \<Longrightarrow> obj_insert k v m = map (\<lambda>(x, w). (x, if x = k then v else w)) m"
  by (auto simp: obj_insert_def)

lemma obj_insert_twice: "obj_insert k v (obj_insert k v m) = obj_insert k v m"
proof -
  have same: "w = v" if "(k, w) \<in> set (obj_insert k v m)" for w
    using that by (auto simp: obj_insert_def set_insort_key map_of_eq_None_iff image_iff split: if_splits)
  have "map (\<lambda>(x, w). (x, if x = k then v else w)) (obj_insert k v m) = obj_insert k v m"
  proof (rule map_idI)
    fix p
    assume p: "p \<in> set (obj_insert k v m)"
    obtain x w where "p = (x, w)" by (cases p)
    with p same show "(case p of (x, w) \<Rightarrow> (x, if x = k then v else w)) = p" by auto
  qed
  then show ?thesis by (simp add: obj_insert_present map_of_obj_insert)
qed

lemma keys_obj_insert:
  assumes "distinct (map fst m)"
  shows "distinct (map fst (obj_insert k v m))"
proof (cases "map_of m k = None")
  case True
  then have "k \<notin> set (map fst m)" by (simp add: map_of_eq_None_iff)
  with assms have "distinct (map fst (insort_key fst (k, v) m))"
    by (induction m) (auto simp: set_insort_key)
  with True show ?thesis by (simp add: obj_insert_def)
next
  case False
  have "map fst (obj_insert k v m) = map fst m"
    by (simp add: obj_insert_present [OF False] comp_def case_prod_unfold)
  with assms show ?thesis by simp
qed

lemma keys_add_events:
  "arrays hooks \<Longrightarrow> distinct (map fst hooks) \<Longrightarrow> add_events (Inr added) events hooks = Inr hooks' \<Longrightarrow>
     distinct (map fst hooks')"
proof (induction events arbitrary: hooks)
  case (Cons e events)
  let ?h = "obj_insert e (JArray (groups_of hooks e @ added)) hooks"
  have "add_events (Inr added) events ?h = Inr hooks'"
    using Cons.prems by (simp add: add_event_Inr)
  then show ?case
    using Cons.IH [of ?h] arrays_obj_insert keys_obj_insert Cons.prems(1,2) by blast
qed simp

text \<open>Merging again puts back what stripping took away, event by event.\<close>

lemma restore_events:
  assumes keys: "distinct (map fst hooks)"
    and merged: "\<And>e. e \<in> set events \<Longrightarrow> \<exists>gs. map_of hooks e = Some (JArray (gs @ added)) \<and> strip_groups gs = gs"
    and "managed added" "distinct events" "set events \<inter> S = {}"
  shows "add_events (Inr added) events
      (map (\<lambda>(e, v). (e, if e \<in> S then v else JArray (strip_groups (the (as_array v))))) hooks)
    = Inr (map (\<lambda>(e, v). (e, if e \<in> S \<union> set events then v else JArray (strip_groups (the (as_array v))))) hooks)"
  using merged assms(4,5)
proof (induction events arbitrary: S)
  case (Cons e events)
  let ?view = "\<lambda>S. map (\<lambda>(e, v). (e, if e \<in> S then v else JArray (strip_groups (the (as_array v))))) hooks"
  obtain gs where gs: "map_of hooks e = Some (JArray (gs @ added))" "strip_groups gs = gs"
    using Cons.prems(1) [of e] by auto
  have "e \<notin> S" using Cons.prems(3) by simp
  have look: "map_of (?view S) x = map_option (\<lambda>v. if x \<in> S then v else JArray (strip_groups (the (as_array v))))
      (map_of hooks x)" for x
    by (induction hooks) auto
  have e: "map_of (?view S) e = Some (JArray gs)"
    using look [of e] gs \<open>e \<notin> S\<close> assms(3) by (simp add: strip_groups_append managed_def)
  have uniq: "v = JArray (gs @ added)" if "(e, v) \<in> set hooks" for v
    using map_of_is_SomeI [OF keys that] gs(1) by simp
  have "obj_insert e (JArray (gs @ added)) (?view S) = ?view (insert e S)"
    using uniq by (auto simp: obj_insert_present e)
  then have "add_event (Inr added) e (?view S) = Inr (?view (insert e S))"
    using e by (simp add: add_event_def)
  moreover have "add_events (Inr added) events (?view (insert e S)) = Inr (?view (insert e S \<union> set events))"
  proof (rule Cons.IH)
    show "\<exists>gs. map_of hooks x = Some (JArray (gs @ added)) \<and> strip_groups gs = gs" if "x \<in> set events" for x
      using Cons.prems(1) that by simp
    show "distinct events" "set events \<inter> insert e S = {}" using Cons.prems(2,3) by auto
  qed
  ultimately show ?case by simp
qed simp

lemma merge_root_idem:
  assumes merge: "merge_root (Inr added) events root = Inr root'" and "distinct events" "managed added"
    and keys: "distinct (map fst (hooks_of root))"
  shows "merge_root (Inr added) events root' = Inr root'"
proof -
  obtain members hooks hooks' where r: "root = JObject members" "hooks_of root = hooks" "arrays hooks"
      "add_events (Inr added) events (map (\<lambda>(e, v). (e, JArray (strip_groups (the (as_array v))))) hooks) = Inr hooks'"
      "arrays hooks'" "root' = JObject (obj_insert ''hooks'' (JObject hooks') members)"
    and look: "\<forall>e. map_of hooks' e = (if e \<in> set events then Some (JArray (strip_groups (event_groups root e) @ added))
      else map_option (\<lambda>_. JArray (strip_groups (event_groups root e))) (map_of hooks e))"
    using merge_root_Inr [OF merge assms(2)] by blast
  have keys': "distinct (map fst hooks')"
    using keys r(2,4) by (intro keys_add_events [OF _ _ r(4)])
      (auto simp: arrays_def list_all_iff comp_def case_prod_unfold)
  have stripped: "strip_hooks hooks' = Inr (map (\<lambda>(e, v). (e, JArray (strip_groups (the (as_array v))))) hooks')"
    using r(5) by (simp add: strip_hooks_Inr)
  have "add_events (Inr added) events (map (\<lambda>(e, v). (e, JArray (strip_groups (the (as_array v))))) hooks')
      = Inr (map (\<lambda>(e, v). (e, if e \<in> set events then v else JArray (strip_groups (the (as_array v))))) hooks')"
    using restore_events [OF keys', of events added "{}"] look assms(2,3) by auto
  also have "map (\<lambda>(e, v). (e, if e \<in> set events then v else JArray (strip_groups (the (as_array v))))) hooks' = hooks'"
  proof (rule map_idI)
    fix p
    assume p: "p \<in> set hooks'"
    obtain e v where ev: "p = (e, v)" by (cases p)
    then have "map_of hooks' e = Some v" using p keys' by simp
    then show "(case p of (e, v) \<Rightarrow> (e, if e \<in> set events then v else JArray (strip_groups (the (as_array v))))) = p"
      using look by (auto simp: ev split: if_splits)
  qed
  finally have add: "add_events (Inr added) events
      (map (\<lambda>(e, v). (e, JArray (strip_groups (the (as_array v))))) hooks') = Inr hooks'" .
  have "map_of (obj_insert ''hooks'' (JObject hooks') members) ''hooks'' = Some (JObject hooks')"
    by (simp add: map_of_obj_insert)
  then show ?thesis
    by (simp add: merge_root_def r(6) obj_insert_twice stripped add)
qed

lemma merge_root_effect:
  assumes "merge_root (Inr added) events root = Inr root'" "distinct events" "managed added"
  shows "foreign (event_groups root' e) = foreign (event_groups root e)"
    and "owned (event_groups root' e) = (if e \<in> set events then owned added else [])"
    and "k \<noteq> ''hooks'' \<Longrightarrow> get k root' = get k root"
proof -
  obtain members hooks hooks' where r: "root = JObject members" "hooks_of root = hooks" "arrays hooks"
      "add_events (Inr added) events (map (\<lambda>(e, v). (e, JArray (strip_groups (the (as_array v))))) hooks) = Inr hooks'"
      "arrays hooks'" "root' = JObject (obj_insert ''hooks'' (JObject hooks') members)"
    and look: "\<forall>e. map_of hooks' e = (if e \<in> set events then Some (JArray (strip_groups (event_groups root e) @ added))
      else map_option (\<lambda>_. JArray (strip_groups (event_groups root e))) (map_of hooks e))"
    using merge_root_Inr [OF assms(1,2)] by blast
  have "event_groups root' e = groups_of hooks' e"
    by (simp add: event_groups_def r(6) hooks_of_insert)
  moreover have "event_groups root e = []" if "map_of hooks e = None"
    using that by (simp add: event_groups_def r(2) groups_of_def)
  ultimately have "event_groups root' e = strip_groups (event_groups root e) @ (if e \<in> set events then added else [])"
    using look by (cases "map_of hooks e") (simp_all add: groups_of_def strip_groups_def [of "[]"])
  moreover have "foreign (gs @ hs) = foreign gs @ foreign hs" "owned (gs @ hs) = owned gs @ owned hs"
      "foreign [] = []" "owned [] = []" for gs hs
    by (simp_all add: foreign_def owned_def)
  ultimately show "foreign (event_groups root' e) = foreign (event_groups root e)"
      "owned (event_groups root' e) = (if e \<in> set events then owned added else [])"
    using assms(3) by (simp_all add: managed_def)
  show "k \<noteq> ''hooks'' \<Longrightarrow> get k root' = get k root"
    by (simp add: r map_of_obj_insert)
qed

section \<open>Installing and removing\<close>

lemma managed_groups_Inr:
  assumes "valid_utf8 executable"
  obtains h where "owned_handler provider executable = Inr h" "is_owned_handler h"
    "managed_groups action provider executable =
       Inr (if action = Remove then [] else [JObject [(''hooks'', JArray [h])]])"
    "owned (if action = Remove then [] else [JObject [(''hooks'', JArray [h])]]) = (if action = Remove then [] else [h])"
proof -
  obtain h where h: "owned_handler provider executable = Inr h"
    using assms by (auto simp: owned_handler_def to_str_def)
  then have "is_owned_handler h" by (rule owned_handler_owned)
  with h show ?thesis
    by (intro that) (auto simp: managed_groups_def owned_def handlers_of_def group_handlers_def)
qed

lemma merge_hook_config_Inr:
  assumes "merge_hook_config parse pretty is_symlink canonicalize files path provider events executable action
      = Inr (report, files')"
    and "action \<noteq> Doctor" "resolve_config_link is_symlink canonicalize path = Inr target"
    and "parse (unwrap_or (files target) ''{}'') = Some root"
  obtains root' where "merge_root (managed_groups action provider executable) events root = Inr root'"
    "files' = files(target \<mapsto> pretty root')"
  using assms by (auto simp: merge_hook_config_def result_bind_Inr Let_def split: if_splits option.splits)

text \<open>
  (C29) Installing or removing the managed hooks leaves the rest of the user's configuration as it
  was: other files, other settings, and the handlers of others under every event, in their order.
  After an installation every managed event has exactly the one managed handler and no other event
  has any; after a removal none is left, also of an earlier version's events.
\<close>

theorem managed_hooks_beside_foreign:
  assumes merged: "merge_hook_config parse pretty is_symlink canonicalize files path provider events executable action
      = Inr (report, files')"
    and action: "action \<noteq> Doctor" and events: "distinct events" and exe: "valid_utf8 executable"
    and target: "resolve_config_link is_symlink canonicalize path = Inr target"
    and root: "parse (unwrap_or (files target) ''{}'') = Some root"
    and readable: "\<forall>v. merge_root (managed_groups action provider executable) events root = Inr v \<longrightarrow>
      parse (pretty v) = Some v"
  shows "\<exists>root' handler. Option.bind (files' target) parse = Some root'
    \<and> owned_handler provider executable = Inr handler
    \<and> (\<forall>p. p \<noteq> target \<longrightarrow> files' p = files p)
    \<and> (\<forall>k. k \<noteq> ''hooks'' \<longrightarrow> get k root' = get k root)
    \<and> (\<forall>e. foreign (event_groups root' e) = foreign (event_groups root e))
    \<and> (\<forall>e. owned (event_groups root' e) = (if action = Ensure \<and> e \<in> set events then [handler] else []))"
proof -
  obtain root' where r: "merge_root (managed_groups action provider executable) events root = Inr root'"
      "files' = files(target \<mapsto> pretty root')"
    using merge_hook_config_Inr [OF merged action target root] by blast
  obtain h where h: "owned_handler provider executable = Inr h"
      "managed_groups action provider executable =
       Inr (if action = Remove then [] else [JObject [(''hooks'', JArray [h])]])"
      "owned (if action = Remove then [] else [JObject [(''hooks'', JArray [h])]]) = (if action = Remove then [] else [h])"
    using managed_groups_Inr [OF exe] by metis
  note merge = r(1) [unfolded h(2)]
  note effect = merge_root_effect [OF merge events managed_groups_managed [OF h(2)]]
  have "action = Ensure \<longleftrightarrow> action \<noteq> Remove" using action by (cases action) auto
  then have "owned (event_groups root' e) = (if action = Ensure \<and> e \<in> set events then [h] else [])" for e
    using effect(2) [of e] h(3) by auto
  moreover have "Option.bind (files' target) parse = Some root'"
    using r readable by simp
  ultimately show ?thesis
    using effect(1,3) h(1) r(2) by (intro exI [of _ root'] exI [of _ h]) simp
qed

text \<open>
  Installing the hooks again changes nothing and says so, and the doctor finds them healthy.
\<close>

theorem installation_is_idempotent:
  assumes merged: "merge_hook_config parse pretty is_symlink canonicalize files path provider events executable Ensure
      = Inr (report, files')"
    and events: "distinct events" and exe: "valid_utf8 executable"
    and target: "resolve_config_link is_symlink canonicalize path = Inr target"
    and root: "parse (unwrap_or (files target) ''{}'') = Some root"
    and keys: "distinct (map fst (hooks_of root))"
    and readable: "\<forall>v. merge_root (managed_groups Ensure provider executable) events root = Inr v \<longrightarrow>
      parse (pretty v) = Some v \<and> valid_utf8 (pretty v)"
  shows "merge_hook_config parse pretty is_symlink canonicalize files' path provider events executable Ensure
      = Inr (\<lparr>rp_changed = False, rp_healthy = True, rp_message = ''managed hooks installed''\<rparr>, files')
    \<and> merge_hook_config parse pretty is_symlink canonicalize files' path provider events executable Doctor
      = Inr (\<lparr>rp_changed = False, rp_healthy = True, rp_message = ''managed hooks healthy''\<rparr>, files')"
proof -
  obtain root' where r: "merge_root (managed_groups Ensure provider executable) events root = Inr root'"
      "files' = files(target \<mapsto> pretty root')"
    using merge_hook_config_Inr [OF merged _ target root] by auto
  obtain handler where "owned_handler provider executable = Inr handler"
    using exe by (auto simp: owned_handler_def to_str_def)
  then have h: "managed_groups action provider executable =
       Inr (if action = Remove then [] else [JObject [(''hooks'', JArray [handler])]])" for action
    by (simp add: managed_groups_def)
  have "merge_root (managed_groups Ensure provider executable) events root' = Inr root'"
    using merge_root_idem [OF r(1) [unfolded h] events managed_groups_managed [OF h] keys] by (simp add: h)
  moreover have "managed_groups Doctor provider executable = managed_groups Ensure provider executable"
    by (simp add: h)
  ultimately show ?thesis
    using r readable target by (auto simp: merge_hook_config_def Let_def)
qed

text \<open>A configuration with one foreign handler, and the codec that reads and writes it.\<close>

definition sample_foreign :: Json where
  "sample_foreign = JObject [(''command'', JString ''notify-send'')]"

definition sample_settings :: Json where
  "sample_settings = JObject [(''hooks'', JObject
     [(''Stop'', JArray [JObject [(''hooks'', JArray [sample_foreign])]])]), (''theme'', JString ''dark'')]"

definition sample_merged :: Json where
  "sample_merged = projr (merge_root (managed_groups Ensure ''p'' ''/s'') [''Stop''] sample_settings)"

definition sample_parse :: "string \<Rightarrow> Json option" where
  "sample_parse s = (if s = ''old'' then Some sample_settings else if s = ''new'' then Some sample_merged else None)"

definition sample_files :: files where
  "sample_files p = (if p = ''/c'' then Some ''old'' else None)"

lemma sample_merge_ok:
  "merge_root (managed_groups Ensure ''p'' ''/s'') [''Stop''] sample_settings = Inr sample_merged"
  by (simp add: sample_merged_def merge_root_def sample_settings_def managed_groups_def owned_handler_def
      to_str_def valid_utf8_ascii ascii_def byte_def add_event_def)

lemma sample_install:
  "merge_hook_config sample_parse (\<lambda>_. ''new'') (\<lambda>_. False) Some sample_files ''/c'' ''p'' [''Stop''] ''/s'' Ensure
     = Inr (\<lparr>rp_changed = True, rp_healthy = True, rp_message = ''managed hooks installed''\<rparr>,
            sample_files(''/c'' \<mapsto> ''new''))"
  by (simp add: merge_hook_config_def resolve_config_link_def sample_files_def sample_parse_def
      sample_merge_ok valid_utf8_ascii ascii_def byte_def)

lemma sample_link: "resolve_config_link (\<lambda>_. False) Some ''/c'' = Inr ''/c''"
  by (simp add: resolve_config_link_def)

theorem managed_hooks_beside_foreign_witness:
  "\<exists>root' handler. sample_parse ''new'' = Some root' \<and> owned_handler ''p'' ''/s'' = Inr handler
    \<and> foreign (event_groups root' ''Stop'') = [sample_foreign] \<and> owned (event_groups root' ''Stop'') = [handler]"
proof -
  have "sample_parse (unwrap_or (sample_files ''/c'') ''{}'') = Some sample_settings"
    by (simp add: sample_files_def sample_parse_def)
  moreover have "foreign (event_groups sample_settings ''Stop'') = [sample_foreign]"
    by (simp add: foreign_def event_groups_def groups_of_def hooks_of_def sample_settings_def handlers_of_def
        group_handlers_def sample_foreign_def is_owned_handler_def get_str_def)
  moreover have "\<forall>v. merge_root (managed_groups Ensure ''p'' ''/s'') [''Stop''] sample_settings = Inr v \<longrightarrow>
      sample_parse ''new'' = Some v"
    by (simp add: sample_merge_ok sample_parse_def)
  ultimately show ?thesis
    using managed_hooks_beside_foreign [OF sample_install _ _ _ sample_link, of sample_settings]
    by (fastforce simp: valid_utf8_ascii ascii_def byte_def)
qed

theorem installation_is_idempotent_witness:
  "merge_hook_config sample_parse (\<lambda>_. ''new'') (\<lambda>_. False) Some (sample_files(''/c'' \<mapsto> ''new'')) ''/c'' ''p''
     [''Stop''] ''/s'' Ensure
   = Inr (\<lparr>rp_changed = False, rp_healthy = True, rp_message = ''managed hooks installed''\<rparr>,
          sample_files(''/c'' \<mapsto> ''new''))"
proof -
  have "sample_parse (unwrap_or (sample_files ''/c'') ''{}'') = Some sample_settings"
    by (simp add: sample_files_def sample_parse_def)
  moreover have "distinct (map fst (hooks_of sample_settings))"
    by (simp add: hooks_of_def sample_settings_def)
  moreover have "\<forall>v. merge_root (managed_groups Ensure ''p'' ''/s'') [''Stop''] sample_settings = Inr v \<longrightarrow>
      sample_parse ''new'' = Some v \<and> valid_utf8 ''new''"
    by (simp add: sample_merge_ok sample_parse_def valid_utf8_ascii ascii_def byte_def)
  ultimately show ?thesis
    using installation_is_idempotent [OF sample_install _ _ sample_link, of sample_settings]
    by (simp add: valid_utf8_ascii ascii_def byte_def)
qed

end
