(* ===== verification/Side_Channel.thy ===== *)
theory Side_Channel
  imports Antigravity
begin

text \<open>
  The Qwen side channel: \<open>QwenJsonlTail\<close> and \<open>prepare_launch\<close> of \<^verbatim>\<open>sessiontap-adapters/src/qwen.rs\<close>,
  the adapter registry of \<^verbatim>\<open>lib.rs\<close> and the launcher's loop over the channel in
  \<^verbatim>\<open>sessiontap/src/main.rs\<close>. A poll sees the file as it is at that moment; \<open>feed\<close> is the reference:
  the records of a stream of bytes cut at its newlines.
\<close>

section \<open>The tail\<close>

record QwenJsonlTail =
  qt_path :: string
  qt_offset :: nat
  qt_pending :: string
  qt_max_line :: nat
  qt_identity :: "(u64 \<times> u64) option"

definition QwenJsonlTail_new :: "string \<Rightarrow> nat \<Rightarrow> QwenJsonlTail" where
  "QwenJsonlTail_new path max_line =
     \<lparr>qt_path = path, qt_offset = 0, qt_pending = [], qt_max_line = max_line, qt_identity = None\<rparr>"

datatype Opened = NotFound | OpenFailed string | Opened "u64 \<times> u64" string

definition trim_end :: "string \<Rightarrow> string" where
  "trim_end s = utf8 (rev (dropWhile is_whitespace (rev (chars s))))"

fun tail_lines ::
    "(string \<Rightarrow> Json option) \<Rightarrow> QwenJsonlTail \<Rightarrow> Json list \<Rightarrow> string list \<Rightarrow> QwenJsonlTail \<times> (string + Json list)" where
  "tail_lines parse st out [] = (st, Inr out)"
| "tail_lines parse st out (line # rest) =
     (if \<not> valid_utf8 line then (st, Inl ''stream did not contain valid UTF-8'')
      else let st = st\<lparr>qt_offset := qt_offset st + length line, qt_pending := qt_pending st @ line\<rparr>
        in if qt_max_line st < length (qt_pending st) then (st, Inl ''side-channel line exceeds limit'')
           else if ends_with (qt_pending st) [newline]
           then (case parse (trim_end (qt_pending st)) of
                   None \<Rightarrow> (st, Inl ''malformed side-channel record'')
                 | Some v \<Rightarrow> tail_lines parse (st\<lparr>qt_pending := []\<rparr>) (out @ [v]) rest)
           else tail_lines parse st out rest)"

definition poll ::
    "(string \<Rightarrow> Json option) \<Rightarrow> QwenJsonlTail \<Rightarrow> Opened \<Rightarrow> QwenJsonlTail \<times> (string + Json list)" where
  "poll parse st opened =
     (case opened of
        NotFound \<Rightarrow> (st, Inr [])
      | OpenFailed error \<Rightarrow> (st, Inl error)
      | Opened identity bytes \<Rightarrow>
          let st = (if length bytes < qt_offset st \<or> is_some_and (\<lambda>old. old \<noteq> identity) (qt_identity st)
                    then st\<lparr>qt_offset := 0, qt_pending := []\<rparr> else st);
              st = st\<lparr>qt_identity := Some identity\<rparr>
          in tail_lines parse st [] (read_lines (drop (qt_offset st) bytes)))"

definition qwen_has_user_side_channel :: "string list \<Rightarrow> bool" where
  "qwen_has_user_side_channel args =
     list_ex (\<lambda>a. a = ''--json-file'' \<or> a = ''--json-fd'' \<or> starts_with a ''--json-file=''
       \<or> starts_with a ''--json-fd='') args"

record LaunchPreparation =
  lp_extra_args :: "string list"
  lp_environment :: "(string \<times> string) list"
  lp_side_channel :: "QwenJsonlTail option"

definition LaunchPreparation_default :: LaunchPreparation where
  "LaunchPreparation_default = \<lparr>lp_extra_args = [], lp_environment = [], lp_side_channel = None\<rparr>"

definition SIDE_CHANNEL_MAX_LINE :: nat where "SIDE_CHANNEL_MAX_LINE = 64 * 1024"

text \<open>\<open>probe\<close> tells whether the help of the executable names the option.\<close>

definition Qwen_prepare_launch :: "(string \<Rightarrow> bool) \<Rightarrow> string list \<Rightarrow> string \<Rightarrow> string \<Rightarrow> LaunchPreparation" where
  "Qwen_prepare_launch probe args private_dir executable =
     (if qwen_has_user_side_channel args \<or> \<not> probe executable then LaunchPreparation_default
      else let path = path_join private_dir ''qwen-events.jsonl''
        in \<lparr>lp_extra_args = [''--json-file'', path], lp_environment = [],
            lp_side_channel = Some (QwenJsonlTail_new path SIDE_CHANNEL_MAX_LINE)\<rparr>)"

section \<open>The registry\<close>

record AdapterRegistry =
  rg_aliases :: "(string \<times> ProviderId \<times> string) list"

definition AdapterRegistry_new :: "(string \<times> string \<times> string) list \<Rightarrow> AdapterRegistry" where
  "AdapterRegistry_new adapters =
     \<lparr>rg_aliases = List.map_filter (\<lambda>(name, inherits, executable).
        case ProviderId_from_str inherits of Inl _ \<Rightarrow> None | Inr p \<Rightarrow> Some (name, p, executable)) adapters\<rparr>"

definition dialect_of :: "Platform \<Rightarrow> ProviderId \<Rightarrow> HookDialect" where
  "dialect_of pf p = (case p of Claude \<Rightarrow> ClaudeDialect pf | Codex \<Rightarrow> CodexDialect pf
     | Qwen \<Rightarrow> QwenDialect pf | Pi \<Rightarrow> PiDialect pf | Agy \<Rightarrow> AgyDialect pf)"

definition resolve :: "AdapterRegistry \<Rightarrow> string \<Rightarrow> (ProviderId \<times> string) option" where
  "resolve registry provider =
     (case ProviderId_from_str provider of
        Inr p \<Rightarrow> Some (p, provider)
      | Inl _ \<Rightarrow> map_of (rg_aliases registry) provider)"

definition provider_names :: "AdapterRegistry \<Rightarrow> string list" where
  "provider_names registry =
     map ProviderId_as_str ProviderId_ALL @
     filter (\<lambda>name. isl (ProviderId_from_str name)) (map fst (rg_aliases registry))"

section \<open>The launcher's loop\<close>

text \<open>One successful poll: the events sent for its records, and the next sequence number.\<close>

definition side_channel_evidence :: "InvocationId \<Rightarrow> u64 \<Rightarrow> EventEvidence" where
  "side_channel_evidence invocation sequence =
     \<lparr>ee_channel = SideChannel, ee_trust = LocalObservation,
      ee_collector_revision = Some ADAPTER_API_VERSION, ee_collector_instance_id = Some invocation,
      ee_source_sequence = Some sequence\<rparr>"

fun tail_events ::
    "HookDialect \<Rightarrow> string \<Rightarrow> InvocationId \<Rightarrow> string \<Rightarrow> timestamp \<Rightarrow> string \<Rightarrow> u64 \<Rightarrow> Json list
     \<Rightarrow> NormalizedAdapterEvent list \<times> u64" where
  "tail_events dialect provider invocation workspace now uuid sequence [] = ([], sequence)"
| "tail_events dialect provider invocation workspace now uuid sequence (v # vs) =
     (let sequence = saturating_add sequence 1;
          outcome = normalize_with_evidence dialect now uuid invocation v
            (side_channel_evidence invocation sequence) \<lparr>nc_workspace = Some workspace\<rparr>;
          (events, final) = tail_events dialect provider invocation workspace now uuid sequence vs
      in case AdapterOutcome_into_event outcome of
           None \<Rightarrow> (events, final)
         | Some e \<Rightarrow> (e\<lparr>na_event := (na_event e)\<lparr>ev_provider := provider\<rparr>\<rparr> # events, final))"

section \<open>The reference: records between newlines\<close>

fun feed :: "string \<Rightarrow> string \<Rightarrow> string list \<times> string" where
  "feed pending [] = ([], pending)"
| "feed pending (c # s) =
     (if c = newline then (let (lines, rest) = feed [] s in ((pending @ [newline]) # lines, rest))
      else feed (pending @ [c]) s)"

lemma feed_append:
  "feed p (a @ b) = (let (l1, p1) = feed p a; (l2, p2) = feed p1 b in (l1 @ l2, p2))"
  by (induction p a rule: feed.induct) (auto simp: Let_def split: prod.splits)

lemma feed_word: "newline \<notin> set w \<Longrightarrow> feed p w = ([], p @ w)"
  by (induction w arbitrary: p) auto

lemma feed_line:
  "newline \<notin> set w \<Longrightarrow> feed p (w @ newline # s) =
     (let (lines, rest) = feed [] s in ((p @ w @ [newline]) # lines, rest))"
  by (induction w arbitrary: p) (auto simp: Let_def split: prod.splits)

lemma feed_pending: "newline \<notin> set p \<Longrightarrow> newline \<notin> set (snd (feed p s))"
  by (induction p s rule: feed.induct) (auto simp: Let_def split: prod.splits)

lemma ends_with_last: "ends_with s [c] \<longleftrightarrow> s \<noteq> [] \<and> last s = c"
  by (cases s rule: rev_cases) (auto simp: ends_with_def starts_with_def)

text \<open>What is pending begins the next record, or stays in what is pending.\<close>

lemma feed_prefix:
  "length p \<le> length (case fst (feed p s) of [] \<Rightarrow> snd (feed p s) | line # _ \<Rightarrow> line)"
  by (induction p s rule: feed.induct) (auto simp: Let_def split: prod.splits list.splits)

definition within :: "nat \<Rightarrow> string list \<times> string \<Rightarrow> bool" where
  "within m f \<longleftrightarrow> list_all (\<lambda>line. length line \<le> m) (fst f) \<and> length (snd f) \<le> m"

lemma within_pending: "within m (feed p s) \<Longrightarrow> length p \<le> m"
  using feed_prefix [of p s] by (cases "fst (feed p s)") (auto simp: within_def)

lemma within_prefix: "within m (feed p (a @ b)) \<Longrightarrow> within m (feed p a)"
  using within_pending [of m "snd (feed p a)" b]
  by (auto simp: feed_append Let_def within_def split: prod.splits)

definition records :: "(string \<Rightarrow> Json option) \<Rightarrow> string list \<Rightarrow> Json list" where
  "records parse lines = map (\<lambda>line. the (parse (trim_end line))) lines"

definition readable :: "(string \<Rightarrow> Json option) \<Rightarrow> string list \<Rightarrow> bool" where
  "readable parse lines = list_all (\<lambda>line. parse (trim_end line) \<noteq> None) lines"

lemma tail_lines_feed:
  assumes "newline \<notin> set (qt_pending st)" "list_all valid_utf8 (read_lines s)"
    and "within (qt_max_line st) (feed (qt_pending st) s)" "readable parse (fst (feed (qt_pending st) s))"
  shows "tail_lines parse st out (read_lines s) =
    (st\<lparr>qt_offset := qt_offset st + length s, qt_pending := snd (feed (qt_pending st) s)\<rparr>,
     Inr (out @ records parse (fst (feed (qt_pending st) s))))"
  using assms
proof (induction s arbitrary: st out rule: read_lines.induct)
  case (1 s)
  show ?case
  proof (cases "s = []")
    case True
    then show ?thesis by (simp add: read_lines.simps records_def)
  next
    case nonempty: False
    show ?thesis
    proof (cases "split_once newline s")
      case None
      then have s: "newline \<notin> set s" by (simp add: split_once_None)
      then have "\<not> ends_with (qt_pending st @ s) [newline]"
        using nonempty by (metis ends_with_last last_appendR last_in_set)
      with None s nonempty 1(3,4,5) show ?thesis
        by (simp add: read_lines.simps [of s] feed_word within_def records_def)
    next
      case (Some lr)
      obtain line rest where lr: "lr = (line, rest)" by (cases lr)
      have s: "s = line @ newline # rest" "newline \<notin> set line"
        using split_once_Some [of newline s line rest] Some lr by simp_all
      obtain lines pending where f: "feed [] rest = (lines, pending)" by (cases "feed [] rest")
      have feed: "feed (qt_pending st) s = ((qt_pending st @ line @ [newline]) # lines, pending)"
        using s f by (simp add: feed_line)
      have rl: "read_lines s = (line @ [newline]) # read_lines rest"
        using Some nonempty lr by (simp add: read_lines.simps [of s])
      let ?st = "st\<lparr>qt_offset := qt_offset st + length (line @ [newline]), qt_pending := []\<rparr>"
      obtain v where v: "parse (trim_end (qt_pending st @ line @ [newline])) = Some v"
        using 1(5) feed by (auto simp: readable_def)
      have "tail_lines parse ?st (out @ [v]) (read_lines rest) =
          (?st\<lparr>qt_offset := qt_offset ?st + length rest, qt_pending := pending\<rparr>,
           Inr ((out @ [v]) @ records parse lines))"
        using "1.IH" [OF nonempty Some lr [symmetric], of ?st "out @ [v]"] f feed rl 1(3,4,5)
        by (simp add: within_def readable_def)
      then show ?thesis
        using 1(3,4) feed rl v s
        by (simp add: within_def ends_with_def starts_with_def records_def)
    qed
  qed
qed

section \<open>Polling a growing file\<close>

text \<open>The file grows by a piece before every poll.\<close>

fun poll_all ::
    "(string \<Rightarrow> Json option) \<Rightarrow> u64 \<times> u64 \<Rightarrow> QwenJsonlTail \<Rightarrow> string \<Rightarrow> string list \<Rightarrow> string + Json list" where
  "poll_all parse identity st content [] = Inr []"
| "poll_all parse identity st content (piece # pieces) =
     (case poll parse st (Opened identity (content @ piece)) of
        (st, Inl e) \<Rightarrow> Inl e
      | (st, Inr vs) \<Rightarrow>
          result_bind (poll_all parse identity st (content @ piece) pieces) (\<lambda>ws. Inr (vs @ ws)))"

lemma poll_all_feed:
  assumes "qt_offset st = length content" "newline \<notin> set (qt_pending st)"
    and "qt_identity st = None \<or> qt_identity st = Some identity"
    and "list_all (\<lambda>piece. list_all valid_utf8 (read_lines piece)) pieces"
    and "within (qt_max_line st) (feed (qt_pending st) (concat pieces))"
    and "readable parse (fst (feed (qt_pending st) (concat pieces)))"
  shows "poll_all parse identity st content pieces
    = Inr (records parse (fst (feed (qt_pending st) (concat pieces))))"
  using assms
proof (induction pieces arbitrary: st content)
  case (Cons piece pieces)
  let ?s = "st\<lparr>qt_identity := Some identity\<rparr>"
  obtain lines pending where f: "feed (qt_pending st) piece = (lines, pending)"
    by (cases "feed (qt_pending st) piece")
  obtain lines' pending' where g: "feed pending (concat pieces) = (lines', pending')"
    by (cases "feed pending (concat pieces)")
  have all: "feed (qt_pending st) (concat (piece # pieces)) = (lines @ lines', pending')"
    using f g by (simp add: feed_append)
  have tail: "tail_lines parse ?s [] (read_lines piece)
      = (?s\<lparr>qt_offset := qt_offset ?s + length piece, qt_pending := pending\<rparr>, Inr ([] @ records parse lines))"
    using tail_lines_feed [of ?s piece parse "[]"] Cons.prems f all within_prefix [of _ "qt_pending st" piece "concat pieces"]
    by (simp add: readable_def)
  let ?t = "?s\<lparr>qt_offset := qt_offset ?s + length piece, qt_pending := pending\<rparr>"
  have "poll parse st (Opened identity (content @ piece)) = (?t, Inr (records parse lines))"
    using Cons.prems(1,3) tail by (auto simp: poll_def Let_def)
  moreover have "poll_all parse identity ?t (content @ piece) pieces = Inr (records parse lines')"
    using Cons.IH [of ?t "content @ piece"] Cons.prems g all feed_pending [of "qt_pending st" piece] f
    by (simp add: within_def readable_def)
  ultimately show ?case using all by (simp add: records_def)
qed (simp add: records_def)


definition torn_pieces :: "string list" where
  "torn_pieces = [''{'', ''}'' @ [newline], ''{}'' @ [newline] @ ''{'']"


text \<open>
  A poll that finds the file cut inside a character fails, and the launcher gives the channel up
  on the first failure: the rest of the session has no side channel, although the next piece would
  have completed the character.
\<close>

theorem side_channel_lost_inside_character:
  "(\<exists>st. poll parse (QwenJsonlTail_new path max_line) (Opened identity [CHR 0xC3])
      = (st, Inl ''stream did not contain valid UTF-8''))
   \<and> valid_utf8 ([CHR 0xC3] @ [CHR 0xA9, newline])"
proof
  have "\<not> valid_utf8 [CHR 0xC3]"
    by (simp add: valid_utf8_def char_width_def lead_bits_def byte_def utf8_def encode_utf8_def char_of_def)
  then show "\<exists>st. poll parse (QwenJsonlTail_new path max_line) (Opened identity [CHR 0xC3])
      = (st, Inl ''stream did not contain valid UTF-8'')"
    by (simp add: poll_def QwenJsonlTail_new_def read_lines.simps newline_def)
  show "valid_utf8 ([CHR 0xC3] @ [CHR 0xA9, newline])"
    by (simp add: valid_utf8_def char_width_def lead_bits_def low6_def byte_def utf8_def encode_utf8_def
        newline_def scalar_def char_of_def bit_Suc_0_iff)
qed

end
