(* ===== verification/Hub_Config.thy ===== *)
theory Hub_Config
  imports Validation Paths
begin

text \<open>
  The hub's configuration, \<^verbatim>\<open>sessiontap-hub/src/config.rs\<close>: its defaults, the two passes of its
  parser, its validation and how the remote listener binds. Decoding YAML and the text of a socket
  address are arguments. A \<open>BTreeMap\<close> is the list of its entries in key order; an error message is
  a constructor with the values the message names.
\<close>

section \<open>Data\<close>

record SocketAddr =
  sa_ip :: IpAddr
  sa_port :: u16

fun is_unspecified :: "IpAddr \<Rightarrow> bool" where
  "is_unspecified (V4 a) = (a = 0)"
| "is_unspecified (V6 a) = (a = 0)"

record SourceAuth =
  sh_token_file :: string

record RemoteConfig =
  rm_name :: "string option"
  rm_listen :: "string list"
  rm_advertise :: "string list"
  rm_control :: bool
  rm_discovery :: bool

datatype ListenMode = Explicit "SocketAddr list" | Wildcard SocketAddr

record MatchCriteria =
  mc_sources :: "string list"
  mc_providers :: "string list"
  mc_statuses :: "PublicStatus list"
  mc_reasons :: "PublicReasonKind list"
  mc_repositories :: "string list"

record Subscription =
  sb_name :: "string option"
  sb_match_criteria :: MatchCriteria
  sb_changes :: "PublicField list"
  sb_commands :: "string list list"

record HubConfig =
  hc_version :: u32
  hc_listen :: string
  hc_sources :: "(string \<times> SourceAuth) list"
  hc_retention_days :: u64
  hc_max_body_bytes :: nat
  hc_max_concurrent_commands :: nat
  hc_command_timeout_secs :: u64
  hc_subscriptions :: "Subscription list"
  hc_remote :: "RemoteConfig option"

definition default_listen :: string where
  "default_listen = ''127.0.0.1:8931''"

definition default_max_body :: nat where
  "default_max_body = 1024 * 1024"

definition HubConfig_default :: HubConfig where
  "HubConfig_default =
     \<lparr>hc_version = 1, hc_listen = default_listen, hc_sources = [], hc_retention_days = 7,
      hc_max_body_bytes = default_max_body, hc_max_concurrent_commands = 4,
      hc_command_timeout_secs = 30, hc_subscriptions = [], hc_remote = None\<rparr>"

section \<open>The remote listener\<close>

fun ListenMode_addresses :: "ListenMode \<Rightarrow> SocketAddr list" where
  "ListenMode_addresses (Explicit addresses) = addresses"
| "ListenMode_addresses (Wildcard address) = [address]"

definition listen_mode :: "(string \<Rightarrow> SocketAddr option) \<Rightarrow> RemoteConfig \<Rightarrow> ListenMode" where
  "listen_mode parse_addr remote =
     (let addresses = List.map_filter parse_addr (rm_listen remote)
      in case addresses of
           [address] \<Rightarrow> if is_unspecified (sa_ip address) then Wildcard address else Explicit addresses
         | _ \<Rightarrow> Explicit addresses)"

text \<open>\<open>host_name\<close>: the first of the two files that can be read, trimmed.\<close>

definition host_name :: "string option \<Rightarrow> string option \<Rightarrow> string" where
  "host_name kernel_hostname etc_hostname =
     (case map_option trim (or_else kernel_hostname etc_hostname) of
        Some name \<Rightarrow> if name = [] then ''sessiontap-hub'' else name
      | None \<Rightarrow> ''sessiontap-hub'')"

definition display_name :: "string option \<Rightarrow> string option \<Rightarrow> RemoteConfig \<Rightarrow> string" where
  "display_name kernel_hostname etc_hostname remote =
     unwrap_or (rm_name remote) (host_name kernel_hostname etc_hostname)"

datatype RemoteConfigError = RemoteListenEmpty | RemoteListenInvalid string | RemoteWildcardNotAlone string
  | DiscoveryNeedsWildcard | RemoteAdvertiseInvalid string | RemoteNameEmpty

fun validate_listen ::
    "(string \<Rightarrow> SocketAddr option) \<Rightarrow> nat \<Rightarrow> string list \<Rightarrow> RemoteConfigError + unit" where
  "validate_listen parse_addr entries [] = Inr ()"
| "validate_listen parse_addr entries (entry # rest) =
     (case parse_addr entry of
        None \<Rightarrow> Inl (RemoteListenInvalid entry)
      | Some address \<Rightarrow>
          if is_unspecified (sa_ip address) \<and> entries > 1 then Inl (RemoteWildcardNotAlone entry)
          else validate_listen parse_addr entries rest)"

definition RemoteConfig_validate ::
    "(string \<Rightarrow> SocketAddr option) \<Rightarrow> RemoteConfig \<Rightarrow> RemoteConfigError + unit" where
  "RemoteConfig_validate parse_addr remote =
     (if rm_listen remote = [] then Inl RemoteListenEmpty
      else result_bind (validate_listen parse_addr (length (rm_listen remote)) (rm_listen remote)) (\<lambda>_.
        if rm_discovery remote \<and> (case listen_mode parse_addr remote of Wildcard _ \<Rightarrow> False | Explicit _ \<Rightarrow> True)
        then Inl DiscoveryNeedsWildcard
        else case List.find (\<lambda>entry. trim entry = []) (rm_advertise remote) of
          Some entry \<Rightarrow> Inl (RemoteAdvertiseInvalid entry)
        | None \<Rightarrow>
            if is_some_and (\<lambda>name. trim name = []) (rm_name remote) then Inl RemoteNameEmpty else Inr ()))"

section \<open>Validation\<close>

datatype HubConfigError = UnsupportedHubVersion u32 | InvalidListen string | EmptySourceId
  | EmptyTokenFile string | OpenBeyondLoopback string | NoConcurrentCommands | NoCommandTimeout
  | RemoteInvalid RemoteConfigError | NoCommands nat | EmptyCommand nat nat

fun validate_sources :: "(string \<times> SourceAuth) list \<Rightarrow> HubConfigError + unit" where
  "validate_sources [] = Inr ()"
| "validate_sources ((source, auth) # rest) =
     (if trim source = [] then Inl EmptySourceId
      else if trim (sh_token_file auth) = [] then Inl (EmptyTokenFile source)
      else validate_sources rest)"

fun validate_commands :: "nat \<Rightarrow> nat \<Rightarrow> string list list \<Rightarrow> HubConfigError + unit" where
  "validate_commands index command_index [] = Inr ()"
| "validate_commands index command_index (command # rest) =
     (if command = [] then Inl (EmptyCommand index command_index)
      else validate_commands index (Suc command_index) rest)"

fun validate_subscriptions :: "nat \<Rightarrow> Subscription list \<Rightarrow> HubConfigError + unit" where
  "validate_subscriptions index [] = Inr ()"
| "validate_subscriptions index (subscription # rest) =
     (if sb_commands subscription = [] then Inl (NoCommands index)
      else result_bind (validate_commands index 0 (sb_commands subscription)) (\<lambda>_.
             validate_subscriptions (Suc index) rest))"

definition HubConfig_validate ::
    "(string \<Rightarrow> SocketAddr option) \<Rightarrow> HubConfig \<Rightarrow> HubConfigError + unit" where
  "HubConfig_validate parse_addr config =
     (if hc_version config \<noteq> 1 then Inl (UnsupportedHubVersion (hc_version config))
      else case parse_addr (hc_listen config) of
        None \<Rightarrow> Inl (InvalidListen (hc_listen config))
      | Some listen \<Rightarrow>
          result_bind (validate_sources (hc_sources config)) (\<lambda>_.
            if \<not> is_loopback (sa_ip listen) \<and> hc_sources config = []
            then Inl (OpenBeyondLoopback (hc_listen config))
            else if hc_max_concurrent_commands config = 0 then Inl NoConcurrentCommands
            else if hc_command_timeout_secs config = 0 then Inl NoCommandTimeout
            else result_bind
                   (case hc_remote config of
                      None \<Rightarrow> Inr ()
                    | Some remote \<Rightarrow>
                        (case RemoteConfig_validate parse_addr remote of
                           Inl e \<Rightarrow> Inl (RemoteInvalid e) | Inr u \<Rightarrow> Inr u)) (\<lambda>_.
                 validate_subscriptions 0 (hc_subscriptions config))))"

section \<open>Parsing\<close>

text \<open>
  \<open>serde_yaml::Value\<close>. Parsing takes the subscriptions out of the document and decodes them one by
  one, so that an error names its subscription; the three decoders are serde's.
\<close>

datatype Yaml = YNull | YBool bool | YNumber string | YString string | YSequence "Yaml list"
  | YMapping "(Yaml \<times> Yaml) list" | YTagged string Yaml

datatype HubParseError = YamlError string | SubscriptionsNotList | SubscriptionError nat string

fun take_subscriptions :: "Yaml \<Rightarrow> Yaml \<times> Yaml option" where
  "take_subscriptions (YMapping entries) =
     (YMapping (filter (\<lambda>(k, _). k \<noteq> YString ''subscriptions'') entries),
      map_of entries (YString ''subscriptions''))"
| "take_subscriptions document = (document, None)"

fun parse_subscriptions ::
    "(Yaml \<Rightarrow> string + Subscription) \<Rightarrow> nat \<Rightarrow> Yaml list \<Rightarrow> HubParseError + Subscription list" where
  "parse_subscriptions decode index [] = Inr []"
| "parse_subscriptions decode index (item # items) =
     (case decode item of
        Inl e \<Rightarrow> Inl (SubscriptionError index e)
      | Inr s \<Rightarrow> result_bind (parse_subscriptions decode (Suc index) items) (\<lambda>ss. Inr (s # ss)))"

definition HubConfig_parse ::
    "(string \<Rightarrow> string + Yaml) \<Rightarrow> (Yaml \<Rightarrow> string + HubConfig) \<Rightarrow> (Yaml \<Rightarrow> string + Subscription)
     \<Rightarrow> string \<Rightarrow> HubParseError + HubConfig" where
  "HubConfig_parse from_str decode_config decode_subscription raw =
     (case from_str raw of
        Inl e \<Rightarrow> Inl (YamlError e)
      | Inr document \<Rightarrow>
          (case take_subscriptions document of
             (rest, subscriptions) \<Rightarrow>
               (case decode_config rest of
                  Inl e \<Rightarrow> Inl (YamlError e)
                | Inr config \<Rightarrow>
                    (case subscriptions of
                       None \<Rightarrow> Inr config
                     | Some (YSequence items) \<Rightarrow>
                         result_bind (parse_subscriptions decode_subscription 0 items) (\<lambda>ss.
                           Inr (config\<lparr>hc_subscriptions := ss\<rparr>))
                     | Some _ \<Rightarrow> Inl SubscriptionsNotList))))"

section \<open>What a valid configuration promises\<close>

lemma validate_listen_ok:
  "validate_listen parse_addr n entries = Inr () \<longleftrightarrow>
     (\<forall>entry\<in>set entries. \<exists>a. parse_addr entry = Some a \<and> \<not> (is_unspecified (sa_ip a) \<and> n > 1))"
  by (induction entries) (auto split: option.splits)

lemma map_filter_all: "\<forall>x\<in>set xs. f x \<noteq> None \<Longrightarrow> List.map_filter f xs = map (the \<circ> f) xs"
  by (induction xs) (auto simp: map_filter_simps)

text \<open>The listener binds every configured address, and a wildcard only alone.\<close>

lemma valid_remote_binds_all:
  assumes "RemoteConfig_validate parse_addr remote = Inr ()"
  shows "map Some (ListenMode_addresses (listen_mode parse_addr remote)) = map parse_addr (rm_listen remote)
    \<and> rm_listen remote \<noteq> []
    \<and> (\<forall>a\<in>set (ListenMode_addresses (listen_mode parse_addr remote)). is_unspecified (sa_ip a) \<longrightarrow>
         listen_mode parse_addr remote = Wildcard a)
    \<and> (rm_discovery remote \<longrightarrow> (\<exists>a. listen_mode parse_addr remote = Wildcard a \<and> is_unspecified (sa_ip a)))"
proof -
  have ok: "validate_listen parse_addr (length (rm_listen remote)) (rm_listen remote) = Inr ()"
      "rm_listen remote \<noteq> []"
      "rm_discovery remote \<longrightarrow> (\<exists>a. listen_mode parse_addr remote = Wildcard a)"
    using assms by (auto simp: RemoteConfig_validate_def result_bind_Inr split: if_splits ListenMode.splits)
  then have all: "\<forall>entry\<in>set (rm_listen remote). parse_addr entry \<noteq> None"
    unfolding validate_listen_ok by fastforce
  let ?as = "map (the \<circ> parse_addr) (rm_listen remote)"
  have m: "List.map_filter parse_addr (rm_listen remote) = ?as" using map_filter_all [OF all] .
  have addrs: "ListenMode_addresses (listen_mode parse_addr remote) = ?as"
    unfolding listen_mode_def m Let_def by (auto split: list.split)
  have wild: "listen_mode parse_addr remote = Wildcard a" if a: "a \<in> set ?as" "is_unspecified (sa_ip a)" for a
  proof -
    from a ok(1) all have "\<not> length (rm_listen remote) > 1" unfolding validate_listen_ok by fastforce
    then obtain e where "rm_listen remote = [e]" using ok(2) by (cases "rm_listen remote") (auto simp: not_less)
    with a show ?thesis unfolding listen_mode_def m Let_def by simp
  qed
  have unspec: "is_unspecified (sa_ip a)" if "listen_mode parse_addr remote = Wildcard a" for a
    using that unfolding listen_mode_def m Let_def by (auto split: list.splits if_splits)
  have "map Some ?as = map parse_addr (rm_listen remote)" using all by auto
  with addrs wild unspec ok(2,3) show ?thesis by metis
qed

lemma validated_config:
  assumes "HubConfig_validate parse_addr config = Inr ()"
  obtains listen where "parse_addr (hc_listen config) = Some listen"
    "hc_sources config = [] \<Longrightarrow> is_loopback (sa_ip listen)"
    "validate_sources (hc_sources config) = Inr ()" "validate_subscriptions 0 (hc_subscriptions config) = Inr ()"
    "hc_max_concurrent_commands config \<noteq> 0"
    "\<And>remote. hc_remote config = Some remote \<Longrightarrow> RemoteConfig_validate parse_addr remote = Inr ()"
  using assms by (auto simp: HubConfig_validate_def result_bind_Inr split: if_splits option.splits sum.splits)

lemma validate_commands_ok: "validate_commands i j cs = Inr () \<longleftrightarrow> [] \<notin> set cs"
  by (induction i j cs rule: validate_commands.induct) auto

lemma validate_subscriptions_ok:
  "validate_subscriptions i ss = Inr () \<longleftrightarrow> (\<forall>s\<in>set ss. sb_commands s \<noteq> [] \<and> [] \<notin> set (sb_commands s))"
  by (induction i ss rule: validate_subscriptions.induct) (auto simp: result_bind_Inr validate_commands_ok)

text \<open>Parsing keeps every subscription in its place, and an error names the first one that fails.\<close>

lemma parse_subscriptions_ok:
  "parse_subscriptions decode i items = Inr ss \<longleftrightarrow> map decode items = map Inr ss"
  by (induction i items arbitrary: ss rule: parse_subscriptions.induct)
    (auto simp: result_bind_Inr split: sum.splits)

lemma parse_subscriptions_error:
  "parse_subscriptions decode i items = Inl e \<Longrightarrow>
   \<exists>k msg. e = SubscriptionError (i + k) msg \<and> k < length items \<and> decode (items ! k) = Inl msg
     \<and> (\<forall>j<k. \<exists>s. decode (items ! j) = Inr s)"
proof (induction i items rule: parse_subscriptions.induct)
  case (2 decode index item items)
  show ?case
  proof (cases "decode item")
    case (Inl msg)
    with 2(2) show ?thesis by (intro exI [of _ 0]) simp
  next
    case (Inr s)
    with 2(2) have "parse_subscriptions decode (Suc index) items = Inl e"
      by (cases "parse_subscriptions decode (Suc index) items") auto
    from 2(1) [OF Inr this] obtain k msg where "e = SubscriptionError (Suc index + k) msg" "k < length items"
      "decode (items ! k) = Inl msg" "\<forall>j<k. \<exists>s. decode (items ! j) = Inr s" by blast
    with Inr show ?thesis by (intro exI [of _ "Suc k"]) (auto simp: less_Suc_eq_0_disj)
  qed
qed simp

end
