(* ===== verification/Http.thy ===== *)
theory Http
  imports Paths
begin

text \<open>
  The HTTP request reader, \<^verbatim>\<open>sessiontap-infra/src/http.rs\<close>. What a connection delivers is the list of
  results of its \<open>read\<close> calls; the end of the list is the end of the stream, as is a read of no
  bytes. Bytes are characters.
\<close>

section \<open>Requests\<close>

record HttpLimits =
  hl_max_header_bytes :: nat
  hl_max_body_bytes :: nat

record HttpRequest =
  hq_method :: string
  hq_path :: string
  hq_headers :: "(string \<times> string) list"
  hq_body :: string

datatype HttpReadError = MalformedRequest string | LengthRequired | HeadersTooLarge | BodyTooLarge
  | ReadFailed string

datatype ReadResult = ReadBytes string | ReadError string

definition eq_ignore_ascii_case :: "string \<Rightarrow> string \<Rightarrow> bool" where
  "eq_ignore_ascii_case a b \<longleftrightarrow> to_ascii_lowercase a = to_ascii_lowercase b"

definition header :: "HttpRequest \<Rightarrow> string \<Rightarrow> string option" where
  "header request name =
     map_option snd (List.find (\<lambda>(key, _). eq_ignore_ascii_case key name) (hq_headers request))"

section \<open>Scanning\<close>

definition crlf :: string where
  "crlf = [CHR 0x0D, CHR 0x0A]"

text \<open>\<open>windows(4).position\<close> of the blank line that ends the headers.\<close>

fun head_end :: "string \<Rightarrow> nat option" where
  "head_end [] = None"
| "head_end (c # s) = (if starts_with (c # s) (crlf @ crlf) then Some 0 else map_option Suc (head_end s))"

fun split_crlf :: "string \<Rightarrow> string list" where
  "split_crlf [] = [[]]"
| "split_crlf [c] = [[c]]"
| "split_crlf (c # d # s) =
     (if [c, d] = crlf then [] # split_crlf s
      else (case split_crlf (d # s) of [] \<Rightarrow> [[c]] | w # ws \<Rightarrow> (c # w) # ws))"

definition digit_value :: "char \<Rightarrow> nat option" where
  "digit_value c = (if is_ascii_digit (byte c) then Some (byte c - 48) else None)"

text \<open>\<open>usize::from_str\<close>: an optional plus sign, at least one digit, no overflow of 64 bits.\<close>

fun digits_value :: "nat \<Rightarrow> string \<Rightarrow> nat option" where
  "digits_value acc [] = Some acc"
| "digits_value acc (c # s) =
     (case digit_value c of
        None \<Rightarrow> None
      | Some d \<Rightarrow> if acc * 10 + d < 2 ^ 64 then digits_value (acc * 10 + d) s else None)"

definition parse_usize :: "string \<Rightarrow> nat option" where
  "parse_usize raw =
     (let digits = (case raw of [] \<Rightarrow> [] | c # s \<Rightarrow> if c = CHR ''+'' then s else raw)
      in if digits = [] then None else digits_value 0 digits)"

section \<open>Reading\<close>

text \<open>The loop that reads until the blank line: the bytes so far, the end of the head, and what is left.\<close>

fun read_head ::
    "nat \<Rightarrow> string \<Rightarrow> ReadResult list \<Rightarrow> HttpReadError + string \<times> nat \<times> ReadResult list" where
  "read_head limit bytes [] =
     (case head_end bytes of
        Some end_pos \<Rightarrow> if end_pos > limit then Inl HeadersTooLarge else Inr (bytes, end_pos + 4, [])
      | None \<Rightarrow>
          if length bytes > limit then Inl HeadersTooLarge
          else Inl (MalformedRequest ''connection closed before headers''))"
| "read_head limit bytes (r # reads) =
     (case head_end bytes of
        Some end_pos \<Rightarrow> if end_pos > limit then Inl HeadersTooLarge else Inr (bytes, end_pos + 4, r # reads)
      | None \<Rightarrow>
          if length bytes > limit then Inl HeadersTooLarge
          else (case r of
                  ReadError e \<Rightarrow> Inl (ReadFailed e)
                | ReadBytes [] \<Rightarrow> Inl (MalformedRequest ''connection closed before headers'')
                | ReadBytes chunk \<Rightarrow> read_head limit (bytes @ chunk) reads))"

text \<open>The loop that reads the declared body; \<open>read\<close> holds what follows the head so far.\<close>

fun read_body :: "nat \<Rightarrow> string \<Rightarrow> ReadResult list \<Rightarrow> HttpReadError + string" where
  "read_body content_length got [] =
     (if length got < content_length then Inl (MalformedRequest ''connection closed before body'')
      else Inr (take content_length got))"
| "read_body content_length got (r # reads) =
     (if length got < content_length
      then (case r of
              ReadError e \<Rightarrow> Inl (ReadFailed e)
            | ReadBytes [] \<Rightarrow> Inl (MalformedRequest ''connection closed before body'')
            | ReadBytes chunk \<Rightarrow> read_body content_length (got @ chunk) reads)
      else Inr (take content_length got))"

fun parse_headers :: "string list \<Rightarrow> HttpReadError + (string \<times> string) list" where
  "parse_headers [] = Inr []"
| "parse_headers (line # lines) =
     (case split_once (CHR '':'') line of
        None \<Rightarrow> Inl (MalformedRequest ''invalid header line'')
      | Some (name, v) \<Rightarrow>
          if trim name = [] then Inl (MalformedRequest ''empty header name'')
          else result_bind (parse_headers lines) (\<lambda>headers. Inr ((trim name, trim v) # headers)))"

text \<open>From the text of the head to a request without its body.\<close>

definition parse_head :: "string \<Rightarrow> HttpReadError + HttpRequest" where
  "parse_head head =
     (let lines = split_crlf head
      in case split_on (CHR '' '') (hd lines) of
           [meth, path, version] \<Rightarrow>
             if meth = [] \<or> path = [] \<or> \<not> starts_with version ''HTTP/''
             then Inl (MalformedRequest ''invalid request line'')
             else result_bind (parse_headers (tl lines)) (\<lambda>headers.
                    Inr \<lparr>hq_method = meth, hq_path = path, hq_headers = headers, hq_body = []\<rparr>)
         | _ \<Rightarrow> Inl (MalformedRequest ''invalid request line''))"

definition content_length :: "HttpRequest \<Rightarrow> HttpReadError + nat" where
  "content_length request =
     (case header request ''content-length'' of
        Some raw \<Rightarrow> (case parse_usize raw of None \<Rightarrow> Inl LengthRequired | Some n \<Rightarrow> Inr n)
      | None \<Rightarrow>
          if hq_method request = ''GET'' \<or> hq_method request = ''HEAD'' then Inr 0 else Inl LengthRequired)"

definition read_http_request :: "HttpLimits \<Rightarrow> ReadResult list \<Rightarrow> HttpReadError + HttpRequest" where
  "read_http_request limits reads =
     result_bind (read_head (hl_max_header_bytes limits) [] reads) (\<lambda>(bytes, header_end, reads').
       let head = take (header_end - 4) bytes
       in if \<not> valid_utf8 head then Inl (MalformedRequest ''headers are not UTF-8'')
          else result_bind (parse_head head) (\<lambda>request.
               result_bind (content_length request) (\<lambda>n.
                 if n > hl_max_body_bytes limits then Inl BodyTooLarge
                 else result_bind (read_body n (drop header_end bytes) reads') (\<lambda>body.
                        Inr (request\<lparr>hq_body := body\<rparr>)))))"

section \<open>The end of the head\<close>

lemma starts_with_append: "length p \<le> length s \<Longrightarrow> starts_with (s @ r) p = starts_with s p"
  by (simp add: starts_with_def)

lemma starts_with_length: "starts_with s p \<Longrightarrow> length p \<le> length s"
  by (auto simp: starts_with_iff)

lemma head_end_length: "head_end a = Some e \<Longrightarrow> e + 4 \<le> length a"
proof (induction a arbitrary: e)
  case (Cons c a)
  then show ?case using starts_with_length [of "c # a" "crlf @ crlf"] by (auto simp: crlf_def split: if_splits)
qed simp

lemma head_end_append: "head_end a = Some e \<Longrightarrow> head_end (a @ b) = Some e"
proof (induction a arbitrary: e)
  case (Cons c a)
  from head_end_length [OF Cons.prems] have "starts_with ((c # a) @ b) (crlf @ crlf) = starts_with (c # a) (crlf @ crlf)"
    by (intro starts_with_append) (simp add: crlf_def)
  with Cons show ?case by (auto split: if_splits)
qed simp

text \<open>A prefix without the blank line reaches at most three bytes into it.\<close>

lemma head_end_prefix: "head_end a = None \<Longrightarrow> head_end (a @ b) = Some e \<Longrightarrow> length a \<le> e + 3"
proof (induction a arbitrary: e)
  case (Cons c a)
  show ?case
  proof (cases "starts_with (c # a @ b) (crlf @ crlf)")
    case True
    then have "\<not> 4 \<le> length (c # a)"
      using Cons.prems(1) by (auto simp: starts_with_def crlf_def split: if_splits)
    then show ?thesis by simp
  next
    case False
    with Cons show ?thesis by (fastforce split: if_splits)
  qed
qed simp

section \<open>Reads are only pieces\<close>

definition arrive :: "string list \<Rightarrow> ReadResult list" where
  "arrive pieces = map ReadBytes pieces"

definition pieces_ok :: "string list \<Rightarrow> bool" where
  "pieces_ok pieces \<longleftrightarrow> [] \<notin> set pieces"

lemma read_head_found:
  assumes "head_end (acc @ concat pieces) = Some e" and "e + 3 \<le> limit" and "pieces_ok pieces"
  shows "\<exists>bytes rest. read_head limit acc (arrive pieces) = Inr (bytes, e + 4, arrive rest)
    \<and> bytes @ concat rest = acc @ concat pieces \<and> head_end bytes = Some e \<and> pieces_ok rest"
  using assms
proof (induction pieces arbitrary: acc)
  case Nil
  then show ?case by (auto simp: arrive_def intro!: exI [of _ "[]"])
next
  case (Cons p ps)
  show ?case
  proof (cases "head_end acc")
    case None
    then have "length acc \<le> limit" using head_end_prefix [of acc "concat (p # ps)"] Cons.prems by fastforce
    with None Cons.prems Cons.IH [of "acc @ p"] show ?thesis
      by (auto simp: arrive_def pieces_ok_def split: list.split)
  next
    case (Some e')
    then have "e' = e" using head_end_append [of acc e'] Cons.prems by fastforce
    with Some Cons.prems show ?thesis
      by (intro exI [of _ acc] exI [of _ "p # ps"]) (simp add: arrive_def)
  qed
qed

lemma read_head_refused:
  assumes "case head_end (acc @ concat pieces) of None \<Rightarrow> True | Some e \<Rightarrow> limit < e" and "pieces_ok pieces"
  shows "read_head limit acc (arrive pieces) =
    (if limit < length (acc @ concat pieces) then Inl HeadersTooLarge
     else Inl (MalformedRequest ''connection closed before headers''))"
  using assms
proof (induction pieces arbitrary: acc)
  case Nil
  then show ?case by (auto simp: arrive_def split: option.splits dest: head_end_length)
next
  case (Cons p ps)
  show ?case
  proof (cases "head_end acc")
    case None
    with Cons.prems Cons.IH [of "acc @ p"] show ?thesis
      by (auto simp: arrive_def pieces_ok_def split: list.split)
  next
    case (Some e)
    with Cons.prems head_end_append [OF Some, of "concat (p # ps)"] head_end_length [OF Some]
    show ?thesis by (simp add: arrive_def)
  qed
qed

lemma read_body_pieces:
  "pieces_ok pieces \<Longrightarrow> read_body n got (arrive pieces) =
     (if length (got @ concat pieces) < n then Inl (MalformedRequest ''connection closed before body'')
      else Inr (take n (got @ concat pieces)))"
proof (induction pieces arbitrary: got)
  case Nil
  then show ?case by (simp add: arrive_def)
next
  case (Cons p ps)
  from Cons.prems obtain c q where p: "p = c # q" by (cases p) (auto simp: pieces_ok_def)
  show ?case
  proof (cases "length got < n")
    case True
    with Cons.IH [of "got @ p"] Cons.prems show ?thesis by (simp add: arrive_def p pieces_ok_def)
  next
    case False
    then show ?thesis by (simp add: arrive_def)
  qed
qed

text \<open>What a request means, read off all its bytes at once.\<close>

definition request_of :: "HttpLimits \<Rightarrow> string \<Rightarrow> HttpReadError + HttpRequest" where
  "request_of limits bytes =
     (case head_end bytes of
        None \<Rightarrow> if hl_max_header_bytes limits < length bytes then Inl HeadersTooLarge
                else Inl (MalformedRequest ''connection closed before headers'')
      | Some e \<Rightarrow>
          if hl_max_header_bytes limits < e then Inl HeadersTooLarge
          else if \<not> valid_utf8 (take e bytes) then Inl (MalformedRequest ''headers are not UTF-8'')
          else result_bind (parse_head (take e bytes)) (\<lambda>request.
               result_bind (content_length request) (\<lambda>n.
                 if n > hl_max_body_bytes limits then Inl BodyTooLarge
                 else if length bytes < e + 4 + n
                 then Inl (MalformedRequest ''connection closed before body'')
                 else Inr (request\<lparr>hq_body := take n (drop (e + 4) bytes)\<rparr>))))"

lemma read_is_request_of:
  assumes "pieces_ok pieces"
    and "\<forall>e. head_end (concat pieces) = Some e \<and> e \<le> hl_max_header_bytes limits
           \<longrightarrow> e + 3 \<le> hl_max_header_bytes limits"
  shows "read_http_request limits (arrive pieces) = request_of limits (concat pieces)"
proof (cases "\<exists>e. head_end (concat pieces) = Some e \<and> e \<le> hl_max_header_bytes limits")
  case True
  then obtain e where e: "head_end (concat pieces) = Some e" "e + 3 \<le> hl_max_header_bytes limits"
    using assms(2) by blast
  obtain bytes rest where r: "read_head (hl_max_header_bytes limits) [] (arrive pieces) = Inr (bytes, e + 4, arrive rest)"
      "bytes @ concat rest = concat pieces" "head_end bytes = Some e" "pieces_ok rest"
    using read_head_found [of "[]" pieces e "hl_max_header_bytes limits"] e assms(1) by auto
  have len: "e + 4 \<le> length bytes" using head_end_length [OF r(3)] .
  have t: "take e bytes = take e (concat pieces)" "drop (e + 4) bytes @ concat rest = drop (e + 4) (concat pieces)"
    using len by (simp_all flip: r(2))
  have l: "length (concat pieces) < e + 4 + n \<longleftrightarrow> length (drop (e + 4) (concat pieces)) < n" for n
    using len by (auto simp flip: r(2))
  show ?thesis
    using e by (simp add: read_http_request_def request_of_def r(1) Let_def read_body_pieces [OF r(4)] t l
        del: length_drop length_concat cong: if_cong)
      (auto intro!: arg_cong [where f = "result_bind _"] ext split: if_split)
next
  case False
  then have c: "case head_end ([] @ concat pieces) of None \<Rightarrow> True | Some e \<Rightarrow> hl_max_header_bytes limits < e"
    by (auto split: option.split)
  show ?thesis
    using c head_end_length [of "concat pieces"] unfolding read_http_request_def read_head_refused [OF c assms(1)] request_of_def
    by (force split: option.split)
qed

section \<open>What the reader promises\<close>

lemma read_body_length: "read_body n got reads = Inr body \<Longrightarrow> length body = n"
  by (induction n got reads rule: read_body.induct) (auto split: if_splits ReadResult.splits list.splits)

lemma parse_head_named:
  "parse_head head = Inr request \<Longrightarrow> hq_method request \<noteq> [] \<and> hq_path request \<noteq> []"
  by (auto simp: parse_head_def Let_def result_bind_Inr split: list.splits if_splits)

lemma trim_matches_map: "trim_matches p (map f s) = map f (trim_matches (p \<circ> f) s)"
  by (simp add: trim_matches_def dropWhile_map rev_map)

lemma trim_ascii:
  assumes "ascii s"
  shows "trim s = trim_matches (is_whitespace \<circ> byte) s"
proof -
  have "ascii (trim_matches (is_whitespace \<circ> byte) s)"
    using assms set_trim_matches [of "is_whitespace \<circ> byte" s] by (auto simp: ascii_def list_all_iff)
  then show ?thesis unfolding trim_def chars_ascii [OF assms] trim_matches_map by (rule utf8_ascii)
qed

lemma header_body [simp]: "header (request\<lparr>hq_body := body\<rparr>) name = header request name"
  by (simp add: header_def)

text \<open>
  (C38) A request does not depend on how the network cuts it up: any two ways of delivering the same
  bytes in non-empty reads give the same request or the same error, the one that \<open>request_of\<close>
  reads off all the bytes. The exception is a head that ends within three bytes of its limit.
\<close>

theorem request_independent_of_reads:
  assumes "pieces_ok pieces"
    and "\<forall>e. head_end (concat pieces) = Some e \<and> e \<le> hl_max_header_bytes limits
           \<longrightarrow> e + 3 \<le> hl_max_header_bytes limits"
  shows "read_http_request limits (arrive pieces) = request_of limits (concat pieces)
    \<and> (\<forall>others. pieces_ok others \<and> concat others = concat pieces
         \<longrightarrow> read_http_request limits (arrive others) = read_http_request limits (arrive pieces))"
  using read_is_request_of [OF assms] read_is_request_of [of _ limits] assms(2) by metis

definition sample_pieces :: "string list" where
  "sample_pieces = [''POST /x HTTP/1.1'' @ [CHR 0x0D], [CHR 0x0A] @ ''Content-Length: 3'' @ crlf @ [CHR 0x0D],
     [CHR 0x0A] @ ''ab'', ''cd'']"

definition sample_limits :: HttpLimits where
  "sample_limits = \<lparr>hl_max_header_bytes = 64, hl_max_body_bytes = 16\<rparr>"

theorem request_independent_of_reads_witness:
  "read_http_request sample_limits (arrive sample_pieces) = request_of sample_limits (concat sample_pieces)"
proof -
  have "head_end (concat sample_pieces) = Some 35"
    by (simp add: sample_pieces_def crlf_def starts_with_def)
  then show ?thesis
    by (intro conjunct1 [OF request_independent_of_reads])
      (auto simp: pieces_ok_def sample_pieces_def sample_limits_def crlf_def)
qed

text \<open>
  An accepted request keeps to its limits: the body has exactly the declared length, which is
  at most the limit, a request that carries no length is a GET or a HEAD with an empty body, and the
  method and the path are not empty.
\<close>

theorem accepted_request_within_limits:
  assumes "read_http_request limits reads = Inr request"
  shows "length (hq_body request) \<le> hl_max_body_bytes limits
    \<and> hq_method request \<noteq> [] \<and> hq_path request \<noteq> []
    \<and> (case header request ''content-length'' of
         Some raw \<Rightarrow> parse_usize raw = Some (length (hq_body request))
       | None \<Rightarrow> hq_method request \<in> {''GET'', ''HEAD''} \<and> hq_body request = [])"
proof -
  from assms obtain head r n body where r: "parse_head head = Inr r" "content_length r = Inr n"
    "n \<le> hl_max_body_bytes limits" "length body = n" "request = r\<lparr>hq_body := body\<rparr>"
    by (auto simp: read_http_request_def result_bind_Inr Let_def not_less dest: read_body_length split: if_splits)
  show ?thesis
    using r(2-5) parse_head_named [OF r(1)] by (auto simp: content_length_def split: option.splits if_splits)
qed

lemma sample_head:
  "parse_head (take 35 (concat sample_pieces)) =
     Inr \<lparr>hq_method = ''POST'', hq_path = ''/x'', hq_headers = [(''Content-Length'', ''3'')], hq_body = []\<rparr>"
proof -
  have "split_crlf (take 35 (concat sample_pieces)) = [''POST /x HTTP/1.1'', ''Content-Length: 3'']"
    by (simp add: sample_pieces_def crlf_def)
  moreover have "trim ''Content-Length'' = ''Content-Length''" "trim '' 3'' = ''3''"
    by (simp_all add: trim_ascii ascii_def byte_def trim_matches_def is_whitespace_def)
  ultimately show ?thesis by (simp add: parse_head_def starts_with_def)
qed

theorem accepted_request_within_limits_witness:
  "\<exists>request. read_http_request sample_limits (arrive sample_pieces) = Inr request
     \<and> hq_body request = ''abc'' \<and> length (hq_body request) \<le> 16"
proof -
  have "head_end (concat sample_pieces) = Some 35"
    by (simp add: sample_pieces_def crlf_def starts_with_def)
  moreover have "eq_ignore_ascii_case ''Content-Length'' ''content-length''" by code_simp
  moreover have "valid_utf8 (take 35 (concat sample_pieces))"
    by (intro valid_utf8_ascii) (simp add: ascii_def sample_pieces_def crlf_def byte_def)
  moreover have "parse_usize ''3'' = Some 3"
    by (simp add: parse_usize_def digit_value_def is_ascii_digit_def byte_def)
  moreover have "read_http_request sample_limits (arrive sample_pieces) = request_of sample_limits (concat sample_pieces)"
    by (rule read_is_request_of)
      (use calculation(1) in \<open>auto simp: pieces_ok_def sample_pieces_def sample_limits_def crlf_def\<close>)
  ultimately have "read_http_request sample_limits (arrive sample_pieces) = Inr
      \<lparr>hq_method = ''POST'', hq_path = ''/x'', hq_headers = [(''Content-Length'', ''3'')], hq_body = ''abc''\<rparr>"
    by (simp add: request_of_def sample_head content_length_def header_def sample_limits_def)
      (simp add: sample_pieces_def crlf_def)
  from accepted_request_within_limits [OF this] this show ?thesis
    by (simp add: sample_limits_def)
qed

text \<open>The three bytes around the limit: the same bytes, accepted in one piece and refused in two.\<close>

lemma head_limit_depends_on_reads:
  "read_http_request \<lparr>hl_max_header_bytes = 14, hl_max_body_bytes = 0\<rparr>
     (arrive [''GET / HTTP/1.1'' @ crlf @ crlf]) =
     Inr \<lparr>hq_method = ''GET'', hq_path = ''/'', hq_headers = [], hq_body = []\<rparr>"
  "read_http_request \<lparr>hl_max_header_bytes = 14, hl_max_body_bytes = 0\<rparr>
     (arrive [''GET / HTTP/1.1'' @ [CHR 0x0D], [CHR 0x0A] @ crlf]) = Inl HeadersTooLarge"
  by (simp_all add: read_http_request_def arrive_def crlf_def starts_with_def parse_head_def
      content_length_def header_def valid_utf8_ascii ascii_def byte_def)

end
