(* ===== verification/Hub_Ingest.thy ===== *)
theory Hub_Ingest
  imports Hub_Props Hub_Config Http Sinks
begin

text \<open>
  The front of the hub's store: \<^verbatim>\<open>sessiontap-hub/src/ingest.rs\<close> with the token files of
  \<^verbatim>\<open>sessiontap-infra/src/token.rs\<close>. A connection is the list of its reads; serving it returns the new
  store, what was answered and what is to be published. Arguments: the file system (\<open>files\<close>), the
  decoder of an envelope (\<open>from_slice\<close>, with the text of its error) and the text of a storage
  error (\<open>describe\<close>).
\<close>

section \<open>Token files\<close>

record FileState =
  fi_symlink :: bool
  fi_mode :: u32
  fi_text :: "string option"

datatype TokenError = TokenIo | TokenNotPrivate

definition read_private_token :: "(string \<Rightarrow> FileState option) \<Rightarrow> string \<Rightarrow> TokenError + string" where
  "read_private_token files path =
     (case files path of
        None \<Rightarrow> Inl TokenIo
      | Some meta \<Rightarrow>
          if fi_symlink meta \<or> fi_mode meta AND 0x3F \<noteq> 0 then Inl TokenNotPrivate
          else (case fi_text meta of None \<Rightarrow> Inl TokenIo | Some t \<Rightarrow> Inr (trim t)))"

section \<open>Data\<close>

record AcceptedUpdate =
  acu_hub_revision :: nat
  acu_source_id :: string
  acu_delivery_id :: string
  acu_source_revision :: nat
  acu_view :: PublicAgentView
  acu_changed :: "PublicField set"
  acu_first_seen :: bool

datatype HubPublication = PublishUpdate AcceptedUpdate | PublishSnapshot nat

record IngestOutcome =
  io_status :: nat
  io_body :: Json
  io_publication :: "HubPublication option"

record IngestedRequest =
  ir_method :: string
  ir_path :: string
  ir_bearer :: "string option"
  ir_body :: string

record IngestAuth =
  ia_sources :: "(string \<times> string) list"

definition MAX_HEADER_BYTES :: nat where
  "MAX_HEADER_BYTES = 64 * 1024"

definition CONTROL_PATH :: string where
  "CONTROL_PATH = ''/control''"

section \<open>Reading a request\<close>

definition read_upgradable ::
    "nat \<Rightarrow> ReadResult list \<Rightarrow> HttpReadError + IngestedRequest \<times> string option" where
  "read_upgradable max_body_bytes reads =
     result_bind (read_http_request
         \<lparr>hl_max_header_bytes = MAX_HEADER_BYTES, hl_max_body_bytes = max_body_bytes\<rparr> reads) (\<lambda>request.
       Inr (\<lparr>ir_method = hq_method request, ir_path = hq_path request,
             ir_bearer = Option.bind (header request ''authorization'') (strip_prefix ''Bearer ''),
             ir_body = hq_body request\<rparr>,
            if is_some_and (\<lambda>v. eq_ignore_ascii_case v ''websocket'') (header request ''upgrade'')
            then header request ''sec-websocket-key'' else None))"

definition read_request :: "nat \<Rightarrow> ReadResult list \<Rightarrow> HttpReadError + IngestedRequest" where
  "read_request max_body_bytes reads =
     result_bind (read_upgradable max_body_bytes reads) (\<lambda>(request, _). Inr request)"

section \<open>Authorization\<close>

definition IngestAuth_new :: "(string \<times> SourceAuth) list \<Rightarrow> IngestAuth" where
  "IngestAuth_new sources = \<lparr>ia_sources = map (\<lambda>(id, auth). (id, sh_token_file auth)) sources\<rparr>"

definition is_open :: "IngestAuth \<Rightarrow> bool" where
  "is_open auth \<longleftrightarrow> ia_sources auth = []"

definition token_matches :: "(string \<Rightarrow> FileState option) \<Rightarrow> string \<Rightarrow> string \<Rightarrow> bool" where
  "token_matches files bearer path =
     (case read_private_token files path of
        Inl _ \<Rightarrow> False
      | Inr expected \<Rightarrow> constant_time_eq (as_bytes bearer) (as_bytes expected) \<and> bearer \<noteq> [])"

definition permitted ::
    "(string \<Rightarrow> FileState option) \<Rightarrow> IngestAuth \<Rightarrow> string option \<Rightarrow> string set option" where
  "permitted files auth bearer =
     (let granted = set (map fst (filter (\<lambda>(_, path). token_matches files (unwrap_or bearer []) path)
                                   (ia_sources auth)))
      in if granted = {} then None else Some granted)"

section \<open>Handling\<close>

definition outcome :: "nat \<Rightarrow> Json \<Rightarrow> HubPublication option \<Rightarrow> IngestOutcome" where
  "outcome status body publication = \<lparr>io_status = status, io_body = body, io_publication = publication\<rparr>"

definition error_body :: "string \<Rightarrow> Json" where
  "error_body code = JObject [(''error'', JString code)]"

definition status_body :: "string \<Rightarrow> Json" where
  "status_body s = JObject [(''status'', JString s)]"

definition applied_body :: "nat \<Rightarrow> Json" where
  "applied_body hub_revision =
     JObject [(''status'', JString ''applied''), (''hub_revision'', JNumber (PosInt (of_nat hub_revision)))]"

fun reject_outcome :: "(HubError \<Rightarrow> string) \<Rightarrow> Reject \<Rightarrow> IngestOutcome" where
  "reject_outcome describe SnapshotRequired = outcome 409 (error_body ''snapshot_required'') None"
| "reject_outcome describe (UnsupportedVersion version) =
     outcome 400 (JObject [(''error'', JString ''unsupported_schema_version''),
       (''version'', JNumber (PosInt (ucast version))),
       (''detail'', JString (''unsupported schema version '' @ show_nat (unat version)))]) None"
| "reject_outcome describe (Malformed reason) =
     outcome 400 (JObject [(''error'', JString ''malformed_envelope''), (''detail'', JString reason)]) None"
| "reject_outcome describe (MalformedStorage e) =
     outcome 400 (JObject [(''error'', JString ''malformed_envelope''), (''detail'', JString (describe e))]) None"

fun envelope_source :: "SourceEnvelope \<Rightarrow> string" where
  "envelope_source (SourceEnvelopeSnapshot s) = si_id (ss_source s)"
| "envelope_source (SourceEnvelopeUpdate u) = su_source_id u"

definition ingest_envelope ::
    "(HubError \<Rightarrow> string) \<Rightarrow> HubDb \<Rightarrow> SourceEnvelope \<Rightarrow> timestamp \<Rightarrow> HubDb \<times> IngestOutcome" where
  "ingest_envelope describe db envelope now =
     (case envelope of
        SourceEnvelopeSnapshot _ \<Rightarrow>
          (case ingest_snapshot db envelope now of
             Inl reject \<Rightarrow> (db, reject_outcome describe reject)
           | Inr (db', SnapshotApplied hub_revision) \<Rightarrow>
               (db', outcome 200 (applied_body hub_revision) (Some (PublishSnapshot hub_revision)))
           | Inr (db', SnapshotStale) \<Rightarrow> (db', outcome 200 (status_body ''stale'') None))
      | SourceEnvelopeUpdate u \<Rightarrow>
          (case ingest_update db envelope now of
             Inl reject \<Rightarrow> (db, reject_outcome describe reject)
           | Inr (db', UpdateApplied hub_revision changed first_seen) \<Rightarrow>
               (db', outcome 200 (applied_body hub_revision) (Some (PublishUpdate
                  \<lparr>acu_hub_revision = hub_revision, acu_source_id = su_source_id u,
                   acu_delivery_id = su_delivery_id u, acu_source_revision = su_revision u,
                   acu_view = su_view u, acu_changed = changed, acu_first_seen = first_seen\<rparr>)))
           | Inr (db', UpdateDuplicate) \<Rightarrow> (db', outcome 200 (status_body ''duplicate'') None)
           | Inr (db', UpdateStale) \<Rightarrow> (db', outcome 200 (status_body ''stale'') None)
           | Inr (db', UpdateSuppressed) \<Rightarrow> (db', outcome 200 (status_body ''suppressed'') None)))"

definition handle_ingest ::
    "(string \<Rightarrow> FileState option) \<Rightarrow> (string \<Rightarrow> string + SourceEnvelope) \<Rightarrow> (HubError \<Rightarrow> string)
     \<Rightarrow> HubDb \<Rightarrow> IngestAuth \<Rightarrow> IngestedRequest \<Rightarrow> timestamp \<Rightarrow> HubDb \<times> IngestOutcome" where
  "handle_ingest files from_slice describe db auth request now =
     (if ir_method request = ''GET'' \<and> ir_path request = ''/health''
      then (db, outcome 200 (status_body ''ok'') None)
      else if ir_method request \<noteq> ''POST''
      then (db, outcome 405 (error_body ''method_not_allowed'') None)
      else if \<not> is_open auth \<and> permitted files auth (ir_bearer request) = None
      then (db, outcome 401 (error_body ''unauthorized'') None)
      else case from_slice (ir_body request) of
        Inl e \<Rightarrow> (db, reject_outcome describe (Malformed e))
      | Inr envelope \<Rightarrow>
          if \<not> is_open auth
             \<and> is_some_and (\<lambda>granted. envelope_source envelope \<notin> granted)
                 (permitted files auth (ir_bearer request))
          then (db, outcome 403 (error_body ''source_not_permitted'') None)
          else ingest_envelope describe db envelope now)"

fun transport_rejection :: "HttpReadError \<Rightarrow> IngestOutcome" where
  "transport_rejection (MalformedRequest _) = outcome 400 (error_body ''malformed_request'') None"
| "transport_rejection (ReadFailed _) = outcome 400 (error_body ''malformed_request'') None"
| "transport_rejection LengthRequired = outcome 411 (error_body ''length_required'') None"
| "transport_rejection BodyTooLarge = outcome 413 (error_body ''payload_too_large'') None"
| "transport_rejection HeadersTooLarge = outcome 431 (error_body ''headers_too_large'') None"

definition reason_phrase :: "nat \<Rightarrow> string" where
  "reason_phrase status =
     unwrap_or (map_of [(200, ''OK''), (400, ''Bad Request''), (401, ''Unauthorized''), (403, ''Forbidden''),
        (405, ''Method Not Allowed''), (409, ''Conflict''), (411, ''Length Required''),
        (413, ''Payload Too Large''), (431, ''Request Header Fields Too Large'')] status) ''Error''"

text \<open>The bytes \<open>write_response\<close> sends; \<open>to_vec\<close> prints the body.\<close>

definition write_response :: "(Json \<Rightarrow> string) \<Rightarrow> IngestOutcome \<Rightarrow> string" where
  "write_response to_vec out =
     (let body = to_vec (io_body out)
      in ''HTTP/1.1 '' @ show_nat (io_status out) @ '' '' @ reason_phrase (io_status out) @ crlf @
         ''content-type: application/json'' @ crlf @ ''content-length: '' @ show_nat (length body) @ crlf @
         ''connection: close'' @ crlf @ crlf @ body)"

text \<open>
  What a connection ends in: nothing, a response, or a control channel with its key and the
  sources it may announce (\<open>None\<close> without tokens).
\<close>

datatype Served = ServedNothing | ServedResponse IngestOutcome | ServedChannel string "string set option"

definition serve_connection ::
    "(string \<Rightarrow> FileState option) \<Rightarrow> (string \<Rightarrow> string + SourceEnvelope) \<Rightarrow> (HubError \<Rightarrow> string)
     \<Rightarrow> HubDb \<Rightarrow> IngestAuth \<Rightarrow> nat \<Rightarrow> ReadResult list \<Rightarrow> timestamp
     \<Rightarrow> HubDb \<times> Served \<times> HubPublication option" where
  "serve_connection files from_slice describe db auth max_body_bytes reads now =
     (case read_upgradable max_body_bytes reads of
        Inl (ReadFailed _) \<Rightarrow> (db, ServedNothing, None)
      | Inl e \<Rightarrow> (db, ServedResponse (transport_rejection e), None)
      | Inr (request, websocket_key) \<Rightarrow>
          if ir_method request = ''GET'' \<and> ir_path request = CONTROL_PATH
          then
            if \<not> is_open auth \<and> permitted files auth (ir_bearer request) = None
            then (db, ServedResponse (outcome 401 (error_body ''unauthorized'') None), None)
            else
              (case websocket_key of
                 None \<Rightarrow> (db, ServedResponse (outcome 400 (error_body ''websocket_upgrade_required'') None), None)
               | Some key \<Rightarrow>
                   (db, ServedChannel key (if is_open auth then None
                          else permitted files auth (ir_bearer request)), None))
          else
            (case handle_ingest files from_slice describe db auth request now of
               (db', result) \<Rightarrow> (db', ServedResponse result, io_publication result)))"

section \<open>What an envelope does\<close>

lemma reject_outcome_silent [simp]:
  "io_publication (reject_outcome describe r) = None" "io_status (reject_outcome describe r) \<noteq> 200"
  by (cases r; simp add: outcome_def)+

lemma transport_rejection_silent [simp]: "io_status (transport_rejection e) \<noteq> 200"
  by (cases e) (simp_all add: outcome_def)

lemma ingest_envelope_cases:
  assumes "ingest_envelope describe db e now = (db', out)"
  obtains (unchanged) "db' = db" "io_publication out = None"
  | (suppressed) u where "e = SourceEnvelopeUpdate u" "ingest_update db e now = Inr (db', UpdateSuppressed)"
      "io_publication out = None" "io_status out = 200"
  | (snapshot) s n where "e = SourceEnvelopeSnapshot s" "ingest_snapshot db e now = Inr (db', SnapshotApplied n)"
      "io_publication out = Some (PublishSnapshot n)" "io_status out = 200"
  | (update) u n ch fresh where "e = SourceEnvelopeUpdate u"
      "ingest_update db e now = Inr (db', UpdateApplied n ch fresh)" "io_status out = 200"
      "io_publication out = Some (PublishUpdate
        \<lparr>acu_hub_revision = n, acu_source_id = su_source_id u, acu_delivery_id = su_delivery_id u,
         acu_source_revision = su_revision u, acu_view = su_view u, acu_changed = ch, acu_first_seen = fresh\<rparr>)"
proof (cases e)
  case (SourceEnvelopeSnapshot s)
  show thesis
  proof (cases "ingest_snapshot db e now")
    case (Inl r)
    with assms SourceEnvelopeSnapshot unchanged show thesis by (auto simp: ingest_envelope_def)
  next
    case (Inr v)
    obtain db1 a where v: "v = (db1, a)" by fastforce
    show thesis
    proof (cases a)
      case (SnapshotApplied n)
      with Inr v assms SourceEnvelopeSnapshot show thesis
        by (intro snapshot [of s n]) (auto simp: ingest_envelope_def outcome_def)
    next
      case SnapshotStale
      then have "db1 = db" using Inr v unfolding SourceEnvelopeSnapshot by (auto elim: ingest_snapshot_cases)
      with SnapshotStale Inr v assms SourceEnvelopeSnapshot unchanged show thesis
        by (auto simp: ingest_envelope_def outcome_def)
    qed
  qed
next
  case (SourceEnvelopeUpdate u)
  show thesis
  proof (cases "ingest_update db e now")
    case (Inl r)
    with assms SourceEnvelopeUpdate unchanged show thesis by (auto simp: ingest_envelope_def)
  next
    case (Inr v)
    obtain db1 a where v: "v = (db1, a)" by fastforce
    have same: "db1 = db" if "a = UpdateDuplicate \<or> a = UpdateStale"
      using Inr v that unfolding SourceEnvelopeUpdate by (auto elim: ingest_update_cases)
    show thesis
    proof (cases a)
      case (UpdateApplied n ch fresh)
      with Inr v assms SourceEnvelopeUpdate show thesis
        by (intro update [of u n ch fresh]) (auto simp: ingest_envelope_def outcome_def)
    next
      case UpdateSuppressed
      with Inr v assms SourceEnvelopeUpdate show thesis
        by (intro suppressed [of u]) (auto simp: ingest_envelope_def outcome_def)
    qed (use same Inr v assms SourceEnvelopeUpdate unchanged in \<open>auto simp: ingest_envelope_def outcome_def\<close>)
  qed
qed

text \<open>Only the source of the envelope is touched.\<close>

definition source_kept :: "HubDb \<Rightarrow> HubDb \<Rightarrow> string \<Rightarrow> bool" where
  "source_kept db db' s \<longleftrightarrow> (\<forall>i. hub_view db' s i = hub_view db s i) \<and> source_revision db' s = source_revision db s"

lemma update_frame:
  assumes wf: "wf_hub db" and ok: "ingest_update db (SourceEnvelopeUpdate u) now = Inr (db', a)"
  shows "s \<noteq> su_source_id u \<Longrightarrow> source_kept db db' s" "hd_devices db' = hd_devices db"
    "a = UpdateSuppressed \<Longrightarrow> hub_view db' = hub_view db \<and> hd_revision db' = hd_revision db"
    "\<exists>n ch fresh. a = UpdateApplied n ch fresh \<Longrightarrow> hd_revision db' = hd_revision db + 1"
  using ok
  by (cases rule: ingest_update_cases;
      simp add: source_kept_def source_revision_def lookup_record_in hub_view_def tbl_lookup_put fun_eq_iff)+

lemma snapshot_frame:
  assumes wf: "wf_hub db" and ok: "ingest_snapshot db (SourceEnvelopeSnapshot x) now = Inr (db', SnapshotApplied n)"
  shows "s \<noteq> si_id (ss_source x) \<Longrightarrow> source_kept db db' s" "hd_devices db' = hd_devices db"
    "hd_revision db' = hd_revision db + 1 \<and> n = hd_revision db + 1"
proof -
  have db': "db' = (load_views (cleared db x now) (si_id (ss_source x)) (ss_views x) now)
      \<lparr>hd_revision := hd_revision db + 1\<rparr>" and n: "n = hd_revision db + 1"
    using ok by (cases rule: ingest_snapshot_cases; simp)+
  show "hd_devices db' = hd_devices db" "hd_revision db' = hd_revision db + 1 \<and> n = hd_revision db + 1"
    unfolding db' n by (simp_all add: load_views_frame cleared_def)
  show "source_kept db db' s" if "s \<noteq> si_id (ss_source x)"
    unfolding source_kept_def using applied_snapshot_views(1) [OF wf ok] that
    by (auto simp: db' source_revision_def load_views_frame cleared_def tbl_lookup_put)
qed

lemma ingest_envelope_frame:
  assumes wf: "wf_hub db" and ok: "ingest_envelope describe db e now = (db', out)"
  shows "s \<noteq> envelope_source e \<Longrightarrow> source_kept db db' s" "hd_devices db' = hd_devices db"
    "hd_forgotten db' = hd_forgotten db"
proof -
  show "source_kept db db' s" if "s \<noteq> envelope_source e"
    using ok by (cases rule: ingest_envelope_cases)
      (use that update_frame(1) [OF wf] snapshot_frame(1) [OF wf] in \<open>auto simp: source_kept_def\<close>)
  show "hd_devices db' = hd_devices db" using ok
    by (cases rule: ingest_envelope_cases) (use update_frame(2) [OF wf] snapshot_frame(2) [OF wf] in auto)
  show "hd_forgotten db' = hd_forgotten db" using ok
    by (cases rule: ingest_envelope_cases) (auto simp: ingest_frame)
qed

section \<open>What a request does\<close>

lemma token_matches_iff:
  "token_matches files bearer path \<longleftrightarrow> bearer \<noteq> [] \<and> read_private_token files path = Inr bearer"
  by (auto simp: token_matches_def constant_time_eq_iff split: sum.splits)

lemma permitted_Some:
  "permitted files auth bearer = Some granted \<Longrightarrow> source \<in> granted \<Longrightarrow>
   \<exists>path token. bearer = Some token \<and> token \<noteq> [] \<and> (source, path) \<in> set (ia_sources auth)
     \<and> read_private_token files path = Inr token"
  by (cases bearer) (auto simp: permitted_def Let_def token_matches_iff split: if_splits)

lemma serve_connection_cases:
  assumes "serve_connection files from_slice describe db auth max_body reads now = (db', served, p)"
  obtains (silent) "db' = db" "p = None" "\<forall>out. served = ServedResponse out \<longrightarrow> io_publication out = None"
  | (envelope) request key e out where "read_upgradable max_body reads = Inr (request, key)"
      "served = ServedResponse out" "p = io_publication out" "ir_method request = ''POST''"
      "is_open auth \<or> (\<exists>granted. permitted files auth (ir_bearer request) = Some granted \<and> envelope_source e \<in> granted)"
      "from_slice (ir_body request) = Inr e" "ingest_envelope describe db e now = (db', out)"
proof (cases "read_upgradable max_body reads")
  case (Inl e)
  with assms silent show thesis
    by (cases e) (auto simp: serve_connection_def outcome_def)
next
  case (Inr v)
  obtain request key where v: "v = (request, key)" by fastforce
  show thesis
  proof (cases "\<exists>e. ir_method request = ''POST'' \<and> from_slice (ir_body request) = Inr e
      \<and> (is_open auth \<or> (\<exists>granted. permitted files auth (ir_bearer request) = Some granted \<and> envelope_source e \<in> granted))")
    case True
    then obtain e where e: "ir_method request = ''POST''" "from_slice (ir_body request) = Inr e"
      "is_open auth \<or> (\<exists>granted. permitted files auth (ir_bearer request) = Some granted \<and> envelope_source e \<in> granted)"
      by blast
    obtain db1 out where o: "ingest_envelope describe db e now = (db1, out)" by fastforce
    have "db1 = db'" "served = ServedResponse out" "p = io_publication out"
      using assms Inr v e o by (auto simp: serve_connection_def handle_ingest_def)
    with envelope [OF Inr [unfolded v]] e o show thesis by blast
  next
    case False
    then have "handle_ingest files from_slice describe db auth request now =
        (db, snd (handle_ingest files from_slice describe db auth request now))
      \<and> io_publication (snd (handle_ingest files from_slice describe db auth request now)) = None"
      by (auto simp: handle_ingest_def outcome_def split: sum.splits)
    with assms Inr v show thesis
      by (intro silent) (auto simp: serve_connection_def outcome_def split: if_splits option.splits prod.splits)
  qed
qed

lemma serve_connection_wf:
  assumes wf: "wf_hub db" and "serve_connection files from_slice describe db auth max_body reads now = (db', served, p)"
  shows "wf_hub db'"
  using assms(2)
proof (cases rule: serve_connection_cases)
  case (envelope request key e out)
  from envelope(7) show ?thesis
    by (cases rule: ingest_envelope_cases) (use wf in \<open>auto intro: ingest_update_wf ingest_snapshot_wf\<close>)
qed (use wf in simp)

section \<open>A sample request\<close>

definition sample_post :: string where
  "sample_post = ''POST / HTTP/1.1'' @ crlf @ ''Authorization: Bearer k'' @ crlf @ ''Content-Length: 0'' @ crlf @ crlf"

definition sample_http_request :: HttpRequest where
  "sample_http_request = \<lparr>hq_method = ''POST'', hq_path = ''/'',
     hq_headers = [(''Authorization'', ''Bearer k''), (''Content-Length'', ''0'')], hq_body = []\<rparr>"

definition sample_token_files :: "string \<Rightarrow> FileState option" where
  "sample_token_files path = (if path = ''/k'' then Some \<lparr>fi_symlink = False, fi_mode = 0x180, fi_text = Some ''k''\<rparr> else None)"

definition sample_hub_config :: HubConfig where
  "sample_hub_config = HubConfig_default\<lparr>hc_listen := ''lan'', hc_sources := [(''host'', \<lparr>sh_token_file = ''/k''\<rparr>)]\<rparr>"

definition sample_addr :: "string \<Rightarrow> SocketAddr option" where
  "sample_addr entry = (if entry = ''lan'' then Some \<lparr>sa_ip = V4 0xC0A80005, sa_port = 8931\<rparr> else None)"

lemma sample_trims:
  "trim ''Authorization'' = ''Authorization''" "trim '' Bearer k'' = ''Bearer k''" "trim '' 0'' = ''0''"
  "trim ''Content-Length'' = ''Content-Length''" "trim ''k'' = ''k''" "trim ''host'' = ''host''" "trim ''/k'' = ''/k''"
  by (simp_all add: trim_ascii ascii_def byte_def trim_matches_def is_whitespace_def)

lemma sample_names:
  "eq_ignore_ascii_case ''Authorization'' ''authorization''" "eq_ignore_ascii_case ''Content-Length'' ''content-length''"
  "\<not> eq_ignore_ascii_case ''Authorization'' ''content-length''"
  "\<not> eq_ignore_ascii_case ''Authorization'' ''upgrade''" "\<not> eq_ignore_ascii_case ''Content-Length'' ''upgrade''"
  by code_simp+

lemma sample_read: "read_upgradable default_max_body (arrive [sample_post]) =
  Inr (\<lparr>ir_method = ''POST'', ir_path = ''/'', ir_bearer = Some ''k'', ir_body = []\<rparr>, None)"
proof -
  have e: "head_end sample_post = Some 59" "length sample_post = 63"
    by (simp_all add: sample_post_def crlf_def starts_with_def)
  have "split_crlf (take 59 sample_post) = [''POST / HTTP/1.1'', ''Authorization: Bearer k'', ''Content-Length: 0'']"
    by (simp add: sample_post_def crlf_def)
  then have p: "parse_head (take 59 sample_post) = Inr sample_http_request"
    by (simp add: parse_head_def starts_with_def sample_trims sample_http_request_def)
  have b: "sample_http_request\<lparr>hq_body := []\<rparr> = sample_http_request" by (simp add: sample_http_request_def)
  have v: "valid_utf8 (take 59 sample_post)"
    by (intro valid_utf8_ascii) (simp add: ascii_def sample_post_def crlf_def byte_def)
  have "parse_usize ''0'' = Some 0" by (simp add: parse_usize_def digit_value_def is_ascii_digit_def byte_def)
  then have c: "content_length sample_http_request = Inr 0"
    by (simp add: content_length_def header_def sample_http_request_def sample_names)
  have "read_http_request \<lparr>hl_max_header_bytes = MAX_HEADER_BYTES, hl_max_body_bytes = default_max_body\<rparr>
      (arrive [sample_post]) = Inr sample_http_request"
  proof (subst read_is_request_of)
    show "pieces_ok [sample_post]" by (simp add: pieces_ok_def sample_post_def)
  qed (simp_all add: MAX_HEADER_BYTES_def request_of_def e p v c b)
  then show ?thesis
    by (simp add: read_upgradable_def header_def sample_http_request_def sample_names strip_prefix_def)
qed

section \<open>Properties\<close>

text \<open>
  (C18) Writing to the hub takes the right: when serving a connection of a hub with a valid
  configuration changes the store, then either no tokens are configured and the hub listens on a
  loopback address, or the request carried the non-empty contents of a private token file of the
  source it changed. Every other source, the devices and the tombstones stay as they were.
\<close>

theorem hub_writes_are_authorized:
  assumes wf: "wf_hub db" and valid: "HubConfig_validate parse_addr config = Inr ()"
    and serve: "serve_connection files from_slice describe db (IngestAuth_new (hc_sources config))
      (hc_max_body_bytes config) reads now = (db', served, p)"
    and changed: "db' \<noteq> db"
  shows "\<exists>source. (\<forall>s. s \<noteq> source \<longrightarrow> source_kept db db' s)
    \<and> hd_devices db' = hd_devices db \<and> hd_forgotten db' = hd_forgotten db
    \<and> (hc_sources config = [] \<and> is_some_and (\<lambda>a. is_loopback (sa_ip a)) (parse_addr (hc_listen config))
       \<or> (\<exists>auth token request key. (source, auth) \<in> set (hc_sources config) \<and> token \<noteq> []
            \<and> read_private_token files (sh_token_file auth) = Inr token
            \<and> read_upgradable (hc_max_body_bytes config) reads = Inr (request, key)
            \<and> ir_bearer request = Some token))"
  using serve
proof (cases rule: serve_connection_cases)
  case (envelope request key e out)
  note frame = ingest_envelope_frame [OF wf envelope(7)]
  show ?thesis
  proof (cases "hc_sources config = []")
    case True
    with valid have "is_some_and (\<lambda>a. is_loopback (sa_ip a)) (parse_addr (hc_listen config))"
      by (auto elim: validated_config)
    with True frame show ?thesis by blast
  next
    case False
    then have "\<not> is_open (IngestAuth_new (hc_sources config))" by (simp add: is_open_def IngestAuth_new_def)
    then obtain granted where g: "permitted files (IngestAuth_new (hc_sources config)) (ir_bearer request) = Some granted"
        "envelope_source e \<in> granted" using envelope(5) by blast
    from permitted_Some [OF g] obtain auth token where "(envelope_source e, auth) \<in> set (hc_sources config)"
        "token \<noteq> []" "read_private_token files (sh_token_file auth) = Inr token" "ir_bearer request = Some token"
      by (auto simp: IngestAuth_new_def)
    with frame envelope(1) show ?thesis by blast
  qed
qed (use changed in simp)

lemma sample_permitted:
  "permitted sample_token_files (IngestAuth_new (hc_sources sample_hub_config)) (Some ''k'') = Some {''host''}"
  by (simp add: permitted_def IngestAuth_new_def sample_hub_config_def token_matches_iff read_private_token_def
      sample_token_files_def sample_trims Let_def)

lemma sample_serve:
  "serve_connection sample_token_files (\<lambda>_. Inr (SourceEnvelopeSnapshot sample_source_snapshot)) (\<lambda>_. []) HubDb_empty
     (IngestAuth_new (hc_sources sample_hub_config)) (hc_max_body_bytes sample_hub_config) (arrive [sample_post]) 5 =
   (sample_hub, ServedResponse (outcome 200 (applied_body 1) (Some (PublishSnapshot 1))), Some (PublishSnapshot 1))"
proof -
  have m: "hc_max_body_bytes sample_hub_config = default_max_body"
    by (simp add: sample_hub_config_def HubConfig_default_def)
  show ?thesis
    unfolding m
    by (simp add: serve_connection_def sample_read handle_ingest_def sample_permitted ingest_envelope_def
        sample_snapshot_applies outcome_def)
      (simp add: sample_source_snapshot_def)
qed

theorem hub_writes_are_authorized_witness:
  "\<exists>source auth. (source, auth) \<in> set (hc_sources sample_hub_config)
     \<and> read_private_token sample_token_files (sh_token_file auth) = Inr ''k''"
proof -
  have "HubConfig_validate sample_addr sample_hub_config = Inr ()"
    by (simp add: HubConfig_validate_def sample_hub_config_def HubConfig_default_def sample_addr_def sample_trims)
  moreover have "sample_hub \<noteq> HubDb_empty" by (simp add: sample_hub_def HubDb_empty_def)
  moreover have "hc_sources sample_hub_config \<noteq> []" "hc_max_body_bytes sample_hub_config = default_max_body"
    by (simp_all add: sample_hub_config_def HubConfig_default_def)
  ultimately show ?thesis
    using hub_writes_are_authorized [OF wf_HubDb_empty _ sample_serve] sample_read by fastforce
qed

lemma serve_publication:
  assumes wf: "wf_hub db"
    and serve: "serve_connection files from_slice describe db auth max_body reads now = (db', served, p)"
  shows "case p of
      None \<Rightarrow> hub_view db' = hub_view db \<and> hd_revision db' = hd_revision db
    | Some (PublishSnapshot n) \<Rightarrow> n = hd_revision db + 1 \<and> hd_revision db' = n
    | Some (PublishUpdate u) \<Rightarrow> acu_hub_revision u = hd_revision db + 1 \<and> hd_revision db' = hd_revision db + 1
        \<and> (\<forall>s i. hub_view db' s i = (if s = acu_source_id u \<and> i = pv_invocation_id (acu_view u)
             then Some (acu_view u) else hub_view db s i))
        \<and> acu_changed u = changed_public_fields (hub_view db (acu_source_id u) (pv_invocation_id (acu_view u))) (acu_view u)
        \<and> acu_changed u \<noteq> {}"
  using serve
proof (cases rule: serve_connection_cases)
  case (envelope request key e out)
  from envelope(7) show ?thesis
  proof (cases rule: ingest_envelope_cases)
    case (suppressed u)
    with update_frame(3) [OF wf] envelope(3) show ?thesis by fastforce
  next
    case (snapshot s n)
    with snapshot_frame(3) [OF wf] envelope(3) show ?thesis by fastforce
  next
    case (update u n ch fresh)
    with envelope(3) applied_update_views [OF wf update(2) [unfolded update(1)]]
      update_frame(4) [OF wf update(2) [unfolded update(1)]]
    show ?thesis by auto
  qed (use envelope(3) in simp)
qed simp

text \<open>
  A publication announces a commit: without one the hub shows what it showed and its revision
  stands; with one the revision is the next one and is announced, and an announced update is the
  view the hub now shows, with the fields in which it differs from before.
\<close>

theorem publication_announces_commit:
  assumes wf: "wf_hub db"
    and serve: "serve_connection files from_slice describe db auth max_body reads now = (db', served, p)"
  shows "case p of
      None \<Rightarrow> hub_view db' = hub_view db \<and> hd_revision db' = hd_revision db
    | Some (PublishSnapshot n) \<Rightarrow> n = hd_revision db + 1 \<and> hd_revision db' = n
    | Some (PublishUpdate u) \<Rightarrow> acu_hub_revision u = hd_revision db + 1 \<and> hd_revision db' = hd_revision db + 1
        \<and> (\<forall>s i. hub_view db' s i = (if s = acu_source_id u \<and> i = pv_invocation_id (acu_view u)
             then Some (acu_view u) else hub_view db s i))
        \<and> acu_changed u = changed_public_fields (hub_view db (acu_source_id u) (pv_invocation_id (acu_view u))) (acu_view u)
        \<and> acu_changed u \<noteq> {}"
  using serve_publication [OF assms] .

theorem publication_announces_commit_witness: "hd_revision sample_hub = hd_revision HubDb_empty + 1"
  using publication_announces_commit [OF wf_HubDb_empty sample_serve] by simp

end
