(* ===== verification/Hub_Routing.thy ===== *)
theory Hub_Routing
  imports Hub_Ingest
begin

text \<open>
  Subscriptions of the hub, \<^verbatim>\<open>sessiontap-hub/src/routing.rs\<close>, and the task that feeds them,
  \<open>route_updates\<close> of \<^verbatim>\<open>main.rs\<close>. A dispatched update is a task: the list of its commands in order.
  Tasks share the permits of one semaphore; starting and finishing a command are steps of a
  transition system, in which tasks interleave freely. What a command does is outside.
\<close>

section \<open>Matching\<close>

definition matches :: "Subscription \<Rightarrow> AcceptedUpdate \<Rightarrow> bool" where
  "matches subscription update =
     (let criteria = sb_match_criteria subscription; view = acu_view update
      in if mc_sources criteria \<noteq> [] \<and> acu_source_id update \<notin> set (mc_sources criteria) then False
         else if mc_providers criteria \<noteq> [] \<and> pv_provider view \<notin> set (mc_providers criteria) then False
         else if mc_statuses criteria \<noteq> [] \<and> pv_status view \<notin> set (mc_statuses criteria) then False
         else if mc_reasons criteria \<noteq> []
              \<and> is_none_or (\<lambda>reason. pr_kind reason \<notin> set (mc_reasons criteria)) (pv_reason view) then False
         else if mc_repositories criteria \<noteq> []
              \<and> is_none_or (\<lambda>root. \<not> list_ex (\<lambda>candidate. candidate = root) (mc_repositories criteria))
                  (map_option rp_root (pv_repository view)) then False
         else sb_changes subscription = []
              \<or> list_ex (\<lambda>field. field \<in> acu_changed update) (sb_changes subscription))"

definition canonical_envelope :: "AcceptedUpdate \<Rightarrow> SourceEnvelope" where
  "canonical_envelope update = SourceEnvelopeUpdate
     \<lparr>su_schema_version = HUB_SCHEMA_VERSION, su_source_id = acu_source_id update,
      su_delivery_id = acu_delivery_id update, su_revision = acu_source_revision update,
      su_changed = acu_changed update, su_view = acu_view update\<rparr>"

definition environment :: "AcceptedUpdate \<Rightarrow> (string \<times> string) list" where
  "environment update =
     (let view = acu_view update
      in [(''SESSIONTAP_SOURCE'', acu_source_id update),
          (''SESSIONTAP_DELIVERY_ID'', acu_delivery_id update),
          (''SESSIONTAP_HUB_REVISION'', show_nat (acu_hub_revision update)),
          (''SESSIONTAP_SOURCE_REVISION'', show_nat (acu_source_revision update)),
          (''SESSIONTAP_PROVIDER'', pv_provider view),
          (''SESSIONTAP_STATUS'', PublicStatus_as_str (pv_status view)),
          (''SESSIONTAP_INVOCATION_ID'', pv_invocation_id view),
          (''SESSIONTAP_CHANGED'',
            join '','' (map PublicField_as_str (sorted_list_of_set (acu_changed update))))]
         @ (case pv_session view of
              None \<Rightarrow> []
            | Some session \<Rightarrow>
                (''SESSIONTAP_SESSION_ID'', pps_id session) #
                (case pps_name session of None \<Rightarrow> [] | Some name \<Rightarrow> [(''SESSIONTAP_SESSION_NAME'', name)]))
         @ (case pv_repository view of
              None \<Rightarrow> []
            | Some repository \<Rightarrow>
                (''SESSIONTAP_REPOSITORY_ROOT'', rp_root repository) #
                (case rp_branch repository of
                   None \<Rightarrow> [] | Some branch \<Rightarrow> [(''SESSIONTAP_REPOSITORY_BRANCH'', branch)]))
         @ (case pv_reason view of
              None \<Rightarrow> []
            | Some reason \<Rightarrow>
                [(''SESSIONTAP_REASON_KIND'', PublicReasonKind_as_str (pr_kind reason)),
                 (''SESSIONTAP_REASON_SUMMARY'', pr_summary reason)]))"

section \<open>Running commands\<close>

record CommandLimits =
  cl_permits :: nat
  cl_timeout_secs :: u64

definition CommandLimits_new :: "nat \<Rightarrow> u64 \<Rightarrow> CommandLimits" where
  "CommandLimits_new max_concurrent timeout_secs =
     \<lparr>cl_permits = max max_concurrent 1, cl_timeout_secs = timeout_secs\<rparr>"

definition CommandLimits_from_config :: "HubConfig \<Rightarrow> CommandLimits" where
  "CommandLimits_from_config config =
     CommandLimits_new (hc_max_concurrent_commands config) (hc_command_timeout_secs config)"

text \<open>One child process as \<open>execute\<close> starts it: program, arguments, what is written to it, environment.\<close>

record Exec =
  ex_program :: string
  ex_args :: "string list"
  ex_stdin :: SourceEnvelope
  ex_envs :: "(string \<times> string) list"

text \<open>\<open>None\<close> is the panic of \<open>split_first().expect\<close>, which ends the task.\<close>

fun execute :: "string list \<Rightarrow> AcceptedUpdate \<Rightarrow> Exec option" where
  "execute [] update = None"
| "execute (program # args) update =
     Some \<lparr>ex_program = program, ex_args = args, ex_stdin = canonical_envelope update,
           ex_envs = environment update\<rparr>"

fun run_commands :: "string list list \<Rightarrow> AcceptedUpdate \<Rightarrow> Exec list \<times> bool" where
  "run_commands [] update = ([], True)"
| "run_commands (command # commands) update =
     (case execute command update of
        None \<Rightarrow> ([], False)
      | Some run \<Rightarrow> (case run_commands commands update of (runs, complete) \<Rightarrow> (run # runs, complete)))"

text \<open>The loops of \<open>dispatch\<close>: the processes of one update in order, and whether the task runs to its end.\<close>

definition dispatch :: "Subscription list \<Rightarrow> AcceptedUpdate \<Rightarrow> Exec list \<times> bool" where
  "dispatch subscriptions update =
     run_commands (concat (map sb_commands (filter (\<lambda>s. matches s update) subscriptions))) update"

section \<open>Tasks\<close>

record Task =
  tk_done :: "Exec list"
  tk_running :: "Exec option"
  tk_queue :: "Exec list"

record Routing =
  rt_permits :: nat
  rt_tasks :: "Task list"

definition new_task :: "Exec list \<Rightarrow> Task" where
  "new_task runs = \<lparr>tk_done = [], tk_running = None, tk_queue = runs\<rparr>"

text \<open>\<open>route_updates\<close>: an update starts a task, a snapshot does not.\<close>

fun route_update :: "Subscription list \<Rightarrow> HubPublication \<Rightarrow> Routing \<Rightarrow> Routing" where
  "route_update subscriptions (PublishUpdate update) r =
     (if subscriptions = [] then r
      else r\<lparr>rt_tasks := rt_tasks r @ [new_task (fst (dispatch subscriptions update))]\<rparr>)"
| "route_update subscriptions (PublishSnapshot _) r = r"

definition Routing_new :: "CommandLimits \<Rightarrow> Routing" where
  "Routing_new limits = \<lparr>rt_permits = cl_permits limits, rt_tasks = []\<rparr>"

inductive routing_step :: "Subscription list \<Rightarrow> Routing \<Rightarrow> Routing \<Rightarrow> bool" for subscriptions where
  routing_receive: "routing_step subscriptions r (route_update subscriptions p r)"
| routing_start: "i < length (rt_tasks r) \<Longrightarrow> tk_running (rt_tasks r ! i) = None \<Longrightarrow>
    tk_queue (rt_tasks r ! i) = run # runs \<Longrightarrow> rt_permits r > 0 \<Longrightarrow>
    routing_step subscriptions r (r\<lparr>rt_permits := rt_permits r - 1,
      rt_tasks := (rt_tasks r)[i := (rt_tasks r ! i)\<lparr>tk_running := Some run, tk_queue := runs\<rparr>]\<rparr>)"
| routing_finish: "i < length (rt_tasks r) \<Longrightarrow> tk_running (rt_tasks r ! i) = Some run \<Longrightarrow>
    routing_step subscriptions r (r\<lparr>rt_permits := rt_permits r + 1,
      rt_tasks := (rt_tasks r)[i := (rt_tasks r ! i)\<lparr>tk_done := tk_done (rt_tasks r ! i) @ [run],
        tk_running := None\<rparr>]\<rparr>)"

inductive_cases routing_stepE: "routing_step subscriptions r r'"

definition routing_reachable :: "Subscription list \<Rightarrow> Routing \<Rightarrow> Routing \<Rightarrow> bool" where
  "routing_reachable subscriptions = (routing_step subscriptions)\<^sup>*\<^sup>*"

definition busy :: "Task \<Rightarrow> nat" where
  "busy t = (if tk_running t = None then 0 else 1)"

definition running_count :: "Task list \<Rightarrow> nat" where
  "running_count tasks = sum_list (map busy tasks)"

definition routing_work :: "Routing \<Rightarrow> nat" where
  "routing_work r = sum_list (map (\<lambda>t. 2 * length (tk_queue t) + busy t) (rt_tasks r))"

definition task_over :: "Task \<Rightarrow> bool" where
  "task_over t \<longleftrightarrow> tk_running t = None \<and> tk_queue t = []"

definition task_commands :: "Task \<Rightarrow> Exec list" where
  "task_commands t = tk_done t @ (case tk_running t of None \<Rightarrow> [] | Some run \<Rightarrow> [run]) @ tk_queue t"

section \<open>Lemmas\<close>

lemma run_commands_all:
  "[] \<notin> set commands \<Longrightarrow> run_commands commands update = (List.map_filter (\<lambda>c. execute c update) commands, True)"
proof (induction commands)
  case (Cons c cs)
  then show ?case by (cases c) (auto simp: map_filter_simps)
qed (simp add: map_filter_simps)

lemma sum_list_map_update:
  "i < length xs \<Longrightarrow> sum_list (map f (xs[i := x])) + f (xs ! i) = sum_list (map f xs) + (f x :: nat)"
proof (induction xs arbitrary: i)
  case (Cons y ys)
  then show ?case by (cases i) auto
qed simp

definition routing_inv :: "nat \<Rightarrow> Routing \<Rightarrow> bool" where
  "routing_inv n r \<longleftrightarrow> rt_permits r + running_count (rt_tasks r) = n"

lemma routing_inv_step: "routing_step subscriptions r r' \<Longrightarrow> routing_inv n r \<Longrightarrow> routing_inv n r'"
proof (induction rule: routing_step.induct)
  case (routing_receive r p)
  then show ?case by (cases p) (auto simp: routing_inv_def running_count_def new_task_def busy_def)
next
  case (routing_start i r run runs)
  then show ?case
    using sum_list_map_update [of i "rt_tasks r" busy "(rt_tasks r ! i)\<lparr>tk_running := Some run, tk_queue := runs\<rparr>"]
    by (simp add: routing_inv_def running_count_def busy_def)
next
  case (routing_finish i r run)
  then show ?case
    using sum_list_map_update [of i "rt_tasks r" busy "(rt_tasks r ! i)\<lparr>tk_done := tk_done (rt_tasks r ! i) @ [run],
      tk_running := None\<rparr>"]
    by (simp add: routing_inv_def running_count_def busy_def)
qed

text \<open>A task keeps its commands in order; only their state moves from waiting to running to done.\<close>

lemma commands_start:
  "i < length ts \<Longrightarrow> tk_running (ts ! i) = None \<Longrightarrow> tk_queue (ts ! i) = run # runs \<Longrightarrow>
   map task_commands (ts[i := (ts ! i)\<lparr>tk_running := Some run, tk_queue := runs\<rparr>]) = map task_commands ts"
  by (simp add: map_update task_commands_def list_update_same_conv)

lemma commands_finish:
  "i < length ts \<Longrightarrow> tk_running (ts ! i) = Some run \<Longrightarrow>
   map task_commands (ts[i := (ts ! i)\<lparr>tk_done := tk_done (ts ! i) @ [run], tk_running := None\<rparr>]) = map task_commands ts"
  by (simp add: map_update task_commands_def list_update_same_conv)

definition dispatched :: "Subscription list \<Rightarrow> Exec list \<Rightarrow> bool" where
  "dispatched subscriptions runs \<longleftrightarrow> (\<exists>update. runs =
     List.map_filter (\<lambda>c. execute c update)
       (concat (map sb_commands (filter (\<lambda>s. matches s update) subscriptions))))"

lemma dispatched_step:
  assumes "routing_step subscriptions r r'" and "\<forall>s\<in>set subscriptions. [] \<notin> set (sb_commands s)"
    and "\<forall>runs\<in>set (map task_commands (rt_tasks r)). dispatched subscriptions runs"
  shows "\<forall>runs\<in>set (map task_commands (rt_tasks r')). dispatched subscriptions runs"
  using assms(1)
proof cases
  case (routing_receive p)
  show ?thesis
  proof (cases p)
    case (PublishUpdate update)
    have "[] \<notin> set (concat (map sb_commands (filter (\<lambda>s. matches s update) subscriptions)))"
      using assms(2) by auto
    from run_commands_all [OF this] have "dispatched subscriptions (fst (dispatch subscriptions update))"
      unfolding dispatched_def dispatch_def by auto
    with assms(3) routing_receive PublishUpdate show ?thesis by (auto simp: task_commands_def new_task_def)
  qed (use assms(3) routing_receive in simp)
next
  case (routing_start i run runs)
  with assms(3) show ?thesis by (simp add: commands_start del: set_map)
next
  case (routing_finish i run)
  with assms(3) show ?thesis by (simp add: commands_finish del: set_map)
qed

lemma routing_progress:
  assumes "i < length (rt_tasks r)" and "\<not> task_over (rt_tasks r ! i)" and "routing_inv n r" and "n > 0"
  shows "\<exists>r'. routing_step subscriptions r r' \<and> routing_work r' < routing_work r"
proof (cases "\<exists>j < length (rt_tasks r). tk_running (rt_tasks r ! j) \<noteq> None")
  case True
  then obtain j run where j: "j < length (rt_tasks r)" "tk_running (rt_tasks r ! j) = Some run" by auto
  let ?t = "(rt_tasks r ! j)\<lparr>tk_done := tk_done (rt_tasks r ! j) @ [run], tk_running := None\<rparr>"
  show ?thesis
    using routing_finish [OF j, of subscriptions] sum_list_map_update [OF j(1), of "\<lambda>t. 2 * length (tk_queue t) + busy t" ?t] j
    by (intro exI conjI) (auto simp: routing_work_def busy_def)
next
  case False
  then have "running_count (rt_tasks r) = 0"
    by (auto simp: running_count_def busy_def in_set_conv_nth)
  then have p: "rt_permits r > 0" using assms(3,4) by (simp add: routing_inv_def)
  from False assms(1,2) obtain run runs where i: "tk_running (rt_tasks r ! i) = None" "tk_queue (rt_tasks r ! i) = run # runs"
    by (auto simp: task_over_def neq_Nil_conv)
  let ?t = "(rt_tasks r ! i)\<lparr>tk_running := Some run, tk_queue := runs\<rparr>"
  show ?thesis
    using routing_start [OF assms(1) i p, of subscriptions]
      sum_list_map_update [OF assms(1), of "\<lambda>t. 2 * length (tk_queue t) + busy t" ?t] i
    by (intro exI conjI) (auto simp: routing_work_def busy_def)
qed

section \<open>Properties\<close>

text \<open>
  (C36) Commands of subscriptions, under a valid configuration and however their tasks interleave:
  never more run at once than configured; every task has exactly the commands of the subscriptions
  its update matches, in configuration order; and as long as a task is not over some command can
  start or finish, which brings all of them closer to their end.
\<close>

theorem commands_bounded_ordered_and_finishing:
  assumes valid: "HubConfig_validate parse_addr config = Inr ()"
    and reach: "routing_reachable (hc_subscriptions config) (Routing_new (CommandLimits_from_config config)) r"
  shows "running_count (rt_tasks r) \<le> hc_max_concurrent_commands config
    \<and> (\<forall>t\<in>set (rt_tasks r). dispatched (hc_subscriptions config) (task_commands t))
    \<and> ((\<exists>t\<in>set (rt_tasks r). \<not> task_over t) \<longrightarrow>
         (\<exists>r'. routing_step (hc_subscriptions config) r r' \<and> routing_work r' < routing_work r))"
proof -
  let ?n = "hc_max_concurrent_commands config" and ?s = "hc_subscriptions config"
  have n: "?n > 0" and s: "\<forall>s\<in>set ?s. [] \<notin> set (sb_commands s)"
    using valid by (auto elim!: validated_config simp: validate_subscriptions_ok)
  have "routing_inv ?n r \<and> (\<forall>runs\<in>set (map task_commands (rt_tasks r)). dispatched ?s runs)"
    using reach unfolding routing_reachable_def
  proof (induction rule: rtranclp_induct)
    case base
    then show ?case using n
      by (simp add: routing_inv_def running_count_def Routing_new_def CommandLimits_from_config_def CommandLimits_new_def)
  next
    case (step r r')
    then show ?case using routing_inv_step dispatched_step [OF _ s] by blast
  qed
  then have inv: "routing_inv ?n r" and d: "\<forall>runs\<in>set (map task_commands (rt_tasks r)). dispatched ?s runs" by auto
  have "\<exists>r'. routing_step ?s r r' \<and> routing_work r' < routing_work r"
    if "t \<in> set (rt_tasks r)" "\<not> task_over t" for t
    using routing_progress [OF _ _ inv n] that by (metis in_set_conv_nth)
  then show ?thesis using inv d by (auto simp: routing_inv_def)
qed

definition sample_subscription :: Subscription where
  "sample_subscription = \<lparr>sb_name = None, sb_match_criteria = \<lparr>mc_sources = [''host''], mc_providers = [],
     mc_statuses = [], mc_reasons = [], mc_repositories = []\<rparr>, sb_changes = [FStatus],
     sb_commands = [[''notify'', ''now''], [''log'']]\<rparr>"

definition sample_accepted :: AcceptedUpdate where
  "sample_accepted = \<lparr>acu_hub_revision = 2, acu_source_id = ''host'', acu_delivery_id = ''d1'',
     acu_source_revision = 4, acu_view = sample_view, acu_changed = {FStatus}, acu_first_seen = False\<rparr>"

definition sample_routing_config :: HubConfig where
  "sample_routing_config = sample_hub_config\<lparr>hc_subscriptions := [sample_subscription]\<rparr>"

theorem commands_bounded_ordered_and_finishing_witness:
  "\<exists>r r'. routing_reachable [sample_subscription] (Routing_new (CommandLimits_from_config sample_routing_config)) r
     \<and> map (map ex_program \<circ> task_commands) (rt_tasks r) = [[''notify'', ''log'']]
     \<and> routing_step [sample_subscription] r r' \<and> routing_work r' < routing_work r"
proof -
  let ?c = sample_routing_config
  let ?start = "Routing_new (CommandLimits_from_config ?c)"
  let ?r = "route_update [sample_subscription] (PublishUpdate sample_accepted) ?start"
  have v: "HubConfig_validate sample_addr ?c = Inr ()" and s: "hc_subscriptions ?c = [sample_subscription]"
    by (simp_all add: HubConfig_validate_def sample_routing_config_def sample_hub_config_def HubConfig_default_def
        sample_addr_def sample_trims sample_subscription_def)
  have reach: "routing_reachable [sample_subscription] ?start ?r"
    unfolding routing_reachable_def by (blast intro: routing_receive)
  have m: "matches sample_subscription sample_accepted"
    by (simp add: matches_def sample_subscription_def sample_accepted_def)
  have c: "map (map ex_program \<circ> task_commands) (rt_tasks ?r) = [[''notify'', ''log'']]"
    using m by (simp add: Routing_new_def dispatch_def new_task_def task_commands_def)
      (simp add: sample_subscription_def)
  then have "\<exists>t\<in>set (rt_tasks ?r). \<not> task_over t"
    using m by (simp add: Routing_new_def dispatch_def new_task_def task_over_def)
      (simp add: sample_subscription_def)
  then obtain r' where "routing_step [sample_subscription] ?r r'" "routing_work r' < routing_work ?r"
    using commands_bounded_ordered_and_finishing [OF v, unfolded s, OF reach] by blast
  with reach c show ?thesis by (intro exI [of _ ?r] exI [of _ r']) simp
qed

end
