(* ===== verification/Hub_Listen.thy ===== *)
theory Hub_Listen
  imports Hub_Ingest
begin

text \<open>
  The merged stream of the hub, \<^verbatim>\<open>sessiontap-hub/src/listen.rs\<close>: its envelopes, the requests and
  responses of the Unix socket, and the loop \<open>stream_merged\<close>, one received publication at a time. A
  consumer that keeps the baseline and applies the updates is \<open>consumer\<close>.
\<close>

section \<open>Envelopes, requests, responses\<close>

datatype HubStreamEnvelope = HubStreamSnapshot nat "SourceView list" "MergedAgent list"
  | HubStreamUpdate nat string string nat "PublicField set" PublicAgentView

datatype HubRequest = HubListen | HubPair "string list" | HubAccept bool | HubDevices | HubRevoke string
  | HubForget string string

datatype HubResponse = HubDevicesAre "Device list" bool | HubRevoked Device | HubForgotten nat
  | PairWindow string int | PairConfirm string string | PairDone string string | PairFailed string
  | HubErrorResponse string string "Device list"

definition HubResponse_error :: "string \<Rightarrow> string \<Rightarrow> HubResponse" where
  "HubResponse_error code message = HubErrorResponse code message []"

section \<open>The stream\<close>

definition send_baseline :: "HubDb \<Rightarrow> HubError + nat \<times> HubStreamEnvelope" where
  "send_baseline db =
     result_bind (merged db) (\<lambda>(hub_revision, sources, agents).
       Inr (hub_revision, HubStreamSnapshot hub_revision sources agents))"

text \<open>What \<open>receiver.recv()\<close> yields.\<close>

datatype Received = Received HubPublication | RecvLagged nat | RecvClosed

text \<open>One turn of the loop: the new \<open>since\<close> and what is sent, or \<open>None\<close> to leave it.\<close>

definition stream_receive ::
    "HubDb \<Rightarrow> nat \<Rightarrow> Received \<Rightarrow> HubError + (nat \<times> HubStreamEnvelope list) option" where
  "stream_receive db since received =
     (let rebaseline = result_bind (send_baseline db) (\<lambda>(n, e). Inr (Some (n, [e])))
      in case received of
           Received (PublishUpdate u) \<Rightarrow>
             if acu_hub_revision u > since
             then Inr (Some (acu_hub_revision u,
                    [HubStreamUpdate (acu_hub_revision u) (acu_source_id u) (acu_delivery_id u)
                       (acu_source_revision u) (acu_changed u) (acu_view u)]))
             else Inr (Some (since, []))
         | Received (PublishSnapshot hub_revision) \<Rightarrow>
             if hub_revision > since then rebaseline else Inr (Some (since, []))
         | RecvLagged _ \<Rightarrow> rebaseline
         | RecvClosed \<Rightarrow> Inr None)"

text \<open>\<open>Hub::forget\<close> of \<^verbatim>\<open>service.rs\<close>: the outcome and the publication that re-baselines every listener.\<close>

definition Hub_forget ::
    "HubDb \<Rightarrow> string \<Rightarrow> string \<Rightarrow> timestamp \<Rightarrow> HubError + HubDb \<times> ForgetOutcome \<times> HubPublication option" where
  "Hub_forget db source_id i now =
     result_bind (forget db source_id i now) (\<lambda>(db', result).
       Inr (db', result,
            case result of Forgotten hub_revision \<Rightarrow> Some (PublishSnapshot hub_revision) | _ \<Rightarrow> None))"

section \<open>The consumer\<close>

type_synonym Views = "string \<Rightarrow> InvocationId \<Rightarrow> PublicAgentView option"

fun consume :: "HubStreamEnvelope \<Rightarrow> Views \<Rightarrow> Views" where
  "consume (HubStreamSnapshot _ _ agents) views =
     (\<lambda>source i. map_option ma_view
        (List.find (\<lambda>a. ma_source_id a = source \<and> pv_invocation_id (ma_view a) = i) agents))"
| "consume (HubStreamUpdate _ source _ _ _ view) views =
     (\<lambda>s i. if s = source \<and> i = pv_invocation_id view then Some view else views s i)"

definition consumer :: "HubStreamEnvelope list \<Rightarrow> Views" where
  "consumer sent = fold consume sent (\<lambda>_ _. None)"

lemma consumer_append [simp]: "consumer (sent @ later) = fold consume later (consumer sent)"
  by (simp add: consumer_def)

section \<open>The baseline\<close>

lemma collect_agents_total:
  "\<forall>r\<in>set rows. ag_view_json r \<noteq> None \<Longrightarrow>
   collect_agents rows = Inr (map (\<lambda>r. \<lparr>ma_source_id = ag_source_id r, ma_view = the (ag_view_json r)\<rparr>) rows)"
  by (induction rows) (auto simp: agent_view_def)

lemma find_tbl_lookup:
  "\<forall>r\<in>set rows. \<exists>v. ag_view_json r = Some v \<and> pv_invocation_id v = ag_invocation_id r \<Longrightarrow>
   map_option ma_view (List.find (\<lambda>a. ma_source_id a = source \<and> pv_invocation_id (ma_view a) = i)
     (map (\<lambda>r. \<lparr>ma_source_id = ag_source_id r, ma_view = the (ag_view_json r)\<rparr>) rows)) =
   Option.bind (tbl_lookup agent_key (source, i) rows) ag_view_json"
proof (induction rows)
  case (Cons r rows)
  then obtain v where v: "ag_view_json r = Some v" "pv_invocation_id v = ag_invocation_id r" by auto
  show ?case
  proof (cases "agent_key r = (source, i)")
    case True
    with v show ?thesis by (simp add: agent_key_def)
  next
    case False
    with v Cons show ?thesis by (auto simp: agent_key_def)
  qed
qed simp

lemma tbl_lookup_sort_key:
  assumes "tbl_wf key rows"
  shows "tbl_lookup key k (sort_key f rows) = tbl_lookup key k rows"
proof (cases "tbl_lookup key k rows")
  case None
  moreover from None have "tbl_lookup key k (sort_key f rows) = None" by (simp add: tbl_lookup_None_iff)
  ultimately show ?thesis by simp
next
  case (Some r)
  have "tbl_wf key (sort_key f rows)" using assms by (simp add: distinct_map)
  moreover have "r \<in> set (sort_key f rows)" "key r = k" using tbl_lookup_SomeD [OF Some] by simp_all
  ultimately show ?thesis using Some tbl_lookup_in [of key "sort_key f rows" r] by simp
qed

text \<open>A baseline of a hub in good order always exists and shows exactly what the hub shows.\<close>

lemma baseline_shows_hub:
  assumes "wf_hub db"
  shows "\<exists>sources agents. send_baseline db = Inr (hd_revision db, HubStreamSnapshot (hd_revision db) sources agents)
    \<and> consume (HubStreamSnapshot (hd_revision db) sources agents) views = hub_view db"
proof -
  let ?rows = "sort_key agent_key (hd_agents db)"
  have rows: "\<forall>r\<in>set ?rows. \<exists>v. ag_view_json r = Some v \<and> pv_invocation_id v = ag_invocation_id r"
    using assms by (auto simp: wf_hub_def wf_agent_def)
  then have c: "collect_agents ?rows =
      Inr (map (\<lambda>r. \<lparr>ma_source_id = ag_source_id r, ma_view = the (ag_view_json r)\<rparr>) ?rows)"
    by (intro collect_agents_total) auto
  have "tbl_lookup agent_key k ?rows = tbl_lookup agent_key k (hd_agents db)" for k
    using assms by (intro tbl_lookup_sort_key) (simp add: wf_hub_def)
  with c find_tbl_lookup [OF rows] show ?thesis
    by (auto simp: send_baseline_def merged_def hub_view_def fun_eq_iff)
qed

section \<open>Hub and listener together\<close>

text \<open>
  One listener beside the hub. A commit and its publication are two steps: between them the
  publication is in flight (\<open>lv_inflight\<close>, in commit order), after the send it is pending in the
  listener's receiver. Sends happen in commit order. The receiver may lose any oldest part of what
  is pending, which it reports as lag before anything else.
\<close>

record Live =
  lv_db :: HubDb
  lv_inflight :: "HubPublication list"
  lv_pending :: "HubPublication list"
  lv_lagged :: bool
  lv_since :: nat
  lv_sent :: "HubStreamEnvelope list"

definition opt_list :: "'a option \<Rightarrow> 'a list" where
  "opt_list x = (case x of None \<Rightarrow> [] | Some v \<Rightarrow> [v])"

inductive live_step :: "Live \<Rightarrow> Live \<Rightarrow> bool" where
  live_serve: "serve_connection files from_slice describe (lv_db s) auth max_body reads now = (db', served, p) \<Longrightarrow>
    live_step s (s\<lparr>lv_db := db', lv_inflight := lv_inflight s @ opt_list p\<rparr>)"
| live_forget: "Hub_forget (lv_db s) source i now = Inr (db', result, p) \<Longrightarrow>
    live_step s (s\<lparr>lv_db := db', lv_inflight := lv_inflight s @ opt_list p\<rparr>)"
| live_pair: "upsert_device (lv_db s) i spki name scopes now = Inr (db', d) \<Longrightarrow> live_step s (s\<lparr>lv_db := db'\<rparr>)"
| live_revoke: "delete_device (lv_db s) prefix = (db', l) \<Longrightarrow> live_step s (s\<lparr>lv_db := db'\<rparr>)"
| live_touch: "live_step s (s\<lparr>lv_db := touch_device (lv_db s) i now\<rparr>)"
| live_send: "lv_inflight s = p # rest \<Longrightarrow> live_step s (s\<lparr>lv_inflight := rest, lv_pending := lv_pending s @ [p]\<rparr>)"
| live_lose: "lv_pending s = lost @ kept \<Longrightarrow> lost \<noteq> [] \<Longrightarrow> live_step s (s\<lparr>lv_pending := kept, lv_lagged := True\<rparr>)"
| live_receive: "\<not> lv_lagged s \<Longrightarrow> lv_pending s = p # rest \<Longrightarrow>
    stream_receive (lv_db s) (lv_since s) (Received p) = Inr (Some (n, out)) \<Longrightarrow>
    live_step s (s\<lparr>lv_pending := rest, lv_since := n, lv_sent := lv_sent s @ out\<rparr>)"
| live_lag: "lv_lagged s \<Longrightarrow> stream_receive (lv_db s) (lv_since s) (RecvLagged k) = Inr (Some (n, out)) \<Longrightarrow>
    live_step s (s\<lparr>lv_lagged := False, lv_since := n, lv_sent := lv_sent s @ out\<rparr>)"

text \<open>A listener that has just subscribed and sent its baseline.\<close>

definition live_start :: "HubDb \<Rightarrow> Live \<Rightarrow> bool" where
  "live_start db s \<longleftrightarrow> (\<exists>n e. send_baseline db = Inr (n, e) \<and>
     s = \<lparr>lv_db = db, lv_inflight = [], lv_pending = [], lv_lagged = False, lv_since = n, lv_sent = [e]\<rparr>)"

fun published_revision :: "HubPublication \<Rightarrow> nat" where
  "published_revision (PublishUpdate u) = acu_hub_revision u"
| "published_revision (PublishSnapshot n) = n"

fun is_snapshot :: "HubPublication \<Rightarrow> bool" where
  "is_snapshot (PublishUpdate _) = False"
| "is_snapshot (PublishSnapshot _) = True"

fun show_publication :: "HubPublication \<Rightarrow> Views \<Rightarrow> Views" where
  "show_publication (PublishUpdate u) views =
     (\<lambda>s i. if s = acu_source_id u \<and> i = pv_invocation_id (acu_view u) then Some (acu_view u) else views s i)"
| "show_publication (PublishSnapshot _) views = views"

text \<open>What the listener has not seen yet, oldest first.\<close>

definition unseen :: "Live \<Rightarrow> HubPublication list" where
  "unseen s = filter (\<lambda>p. lv_since s < published_revision p) (lv_pending s @ lv_inflight s)"

definition live_inv :: "Live \<Rightarrow> bool" where
  "live_inv s \<longleftrightarrow> wf_hub (lv_db s) \<and> lv_since s \<le> hd_revision (lv_db s)
     \<and> sorted_wrt (\<lambda>p q. published_revision p < published_revision q) (lv_pending s @ lv_inflight s)
     \<and> (\<forall>p\<in>set (lv_pending s @ lv_inflight s). published_revision p \<le> hd_revision (lv_db s))
     \<and> (\<not> lv_lagged s \<and> \<not> list_ex is_snapshot (unseen s)
          \<longrightarrow> fold show_publication (unseen s) (consumer (lv_sent s)) = hub_view (lv_db s))"

section \<open>What publishes\<close>

text \<open>
  The contract of every operation of the hub towards its listeners: it keeps the store in good
  order; without a publication nothing visible changes; a publication carries the next revision;
  and an update shows what it announces. It is enough to keep a listener in step.
\<close>

locale hub_publisher =
  fixes oper :: "HubDb \<Rightarrow> HubDb \<Rightarrow> HubPublication option \<Rightarrow> bool"
  assumes keeps: "wf_hub db \<Longrightarrow> oper db db' p \<Longrightarrow> wf_hub db'"
    and silent: "wf_hub db \<Longrightarrow> oper db db' None \<Longrightarrow> hub_view db' = hub_view db \<and> hd_revision db' = hd_revision db"
    and announced: "wf_hub db \<Longrightarrow> oper db db' (Some q) \<Longrightarrow>
      published_revision q = hd_revision db + 1 \<and> hd_revision db' = hd_revision db + 1"
    and shown: "wf_hub db \<Longrightarrow> oper db db' (Some (PublishUpdate u)) \<Longrightarrow>
      hub_view db' = show_publication (PublishUpdate u) (hub_view db)"
begin

lemma commit_keeps_inv:
  assumes inv: "live_inv s" and op: "oper (lv_db s) db' p"
  shows "live_inv (s\<lparr>lv_db := db', lv_inflight := lv_inflight s @ opt_list p\<rparr>)"
proof (cases p)
  case None
  with op silent [of "lv_db s" db'] keeps [of "lv_db s" db'] inv show ?thesis
    by (auto simp: live_inv_def opt_list_def unseen_def)
next
  case (Some q)
  have wf: "wf_hub (lv_db s)" and wf': "wf_hub db'" using inv op keeps by (auto simp: live_inv_def)
  have rev: "published_revision q = hd_revision (lv_db s) + 1" "hd_revision db' = hd_revision (lv_db s) + 1"
    using announced [OF wf] op Some by auto
  let ?s = "s\<lparr>lv_db := db', lv_inflight := lv_inflight s @ opt_list p\<rparr>"
  have u: "unseen ?s = unseen s @ [q]"
    using rev inv by (auto simp: unseen_def Some opt_list_def live_inv_def)
  have "sorted_wrt (\<lambda>p q. published_revision p < published_revision q) (lv_pending ?s @ lv_inflight ?s)"
    using inv rev by (auto simp: live_inv_def Some opt_list_def sorted_wrt_append less_Suc_eq_le)
  moreover have "\<forall>r\<in>set (lv_pending ?s @ lv_inflight ?s). published_revision r \<le> hd_revision db'"
    using inv rev by (auto simp: live_inv_def Some opt_list_def le_SucI)
  moreover have "fold show_publication (unseen ?s) (consumer (lv_sent s)) = hub_view db'"
    if "\<not> lv_lagged s" "\<not> list_ex is_snapshot (unseen ?s)"
  proof (cases q)
    case (PublishUpdate v)
    then have "fold show_publication (unseen s) (consumer (lv_sent s)) = hub_view (lv_db s)"
      using inv that unfolding live_inv_def u by simp
    then show ?thesis unfolding u using shown [OF wf, of db' v] op Some PublishUpdate by simp
  qed (use that u in simp)
  ultimately show ?thesis using inv rev wf' by (auto simp: live_inv_def)
qed

end

interpretation serving: hub_publisher "\<lambda>db db' p. \<exists>files from_slice describe auth max_body reads now served.
    serve_connection files from_slice describe db auth max_body reads now = (db', served, p)"
proof unfold_locales
  fix db db' p q u
  assume wf: "wf_hub db"
  show "wf_hub db'" if "\<exists>files from_slice describe auth max_body reads now served.
      serve_connection files from_slice describe db auth max_body reads now = (db', served, p)"
    using that serve_connection_wf [OF wf] by blast
  show "hub_view db' = hub_view db \<and> hd_revision db' = hd_revision db"
    if "\<exists>files from_slice describe auth max_body reads now served.
      serve_connection files from_slice describe db auth max_body reads now = (db', served, None)"
    using that serve_publication [OF wf] by fastforce
  show "published_revision q = hd_revision db + 1 \<and> hd_revision db' = hd_revision db + 1"
    if "\<exists>files from_slice describe auth max_body reads now served.
      serve_connection files from_slice describe db auth max_body reads now = (db', served, Some q)"
    using that serve_publication [OF wf] by (cases q) fastforce+
  show "hub_view db' = show_publication (PublishUpdate u) (hub_view db)"
    if "\<exists>files from_slice describe auth max_body reads now served.
      serve_connection files from_slice describe db auth max_body reads now = (db', served, Some (PublishUpdate u))"
    using that serve_publication [OF wf] by (fastforce simp: fun_eq_iff)
qed

lemma Hub_forget_Inr:
  "Hub_forget db source i now = Inr (db', result, p) \<longleftrightarrow> forget db source i now = Inr (db', result)
     \<and> p = (case result of Forgotten n \<Rightarrow> Some (PublishSnapshot n) | _ \<Rightarrow> None)"
  by (auto simp: Hub_forget_def result_bind_Inr)

interpretation forgetting: hub_publisher "\<lambda>db db' p. \<exists>source i now result.
    Hub_forget db source i now = Inr (db', result, p)"
proof unfold_locales
  fix db db' p q u
  assume wf: "wf_hub db"
  show "wf_hub db'" if "\<exists>source i now result. Hub_forget db source i now = Inr (db', result, p)"
    using that forget_wf [OF wf] by (auto simp: Hub_forget_Inr)
  show "hub_view db' = hub_view db \<and> hd_revision db' = hd_revision db"
    if "\<exists>source i now result. Hub_forget db source i now = Inr (db', result, None)"
    using that by (auto simp: Hub_forget_Inr elim!: forget_cases)
  show "published_revision q = hd_revision db + 1 \<and> hd_revision db' = hd_revision db + 1"
    if "\<exists>source i now result. Hub_forget db source i now = Inr (db', result, Some q)"
    using that by (auto simp: Hub_forget_Inr elim!: forget_cases)
  show "hub_view db' = show_publication (PublishUpdate u) (hub_view db)"
    if "\<exists>source i now result. Hub_forget db source i now = Inr (db', result, Some (PublishUpdate u))"
  proof -
    from that obtain result where "Some (PublishUpdate u) = (case result of Forgotten n \<Rightarrow> Some (PublishSnapshot n) | _ \<Rightarrow> None)"
      by (auto simp: Hub_forget_Inr)
    then show ?thesis by (cases result) simp_all
  qed
qed

lemma devices_silent:
  "upsert_device db i spki name scopes now = Inr (db', d) \<Longrightarrow> hub_view db' = hub_view db \<and> hd_revision db' = hd_revision db"
  "delete_device db prefix = (db', l) \<Longrightarrow> hub_view db' = hub_view db \<and> hd_revision db' = hd_revision db"
  "hub_view (touch_device db i now) = hub_view db \<and> hd_revision (touch_device db i now) = hd_revision db"
  by (auto simp: upsert_device_def delete_device_def touch_device_def Let_def hub_view_def fun_eq_iff
      split: option.splits if_splits DeviceLookup.splits)

interpretation devices: hub_publisher "\<lambda>db db' p. p = None \<and>
    ((\<exists>i spki name scopes now d. upsert_device db i spki name scopes now = Inr (db', d))
     \<or> (\<exists>prefix l. delete_device db prefix = (db', l)) \<or> (\<exists>i now. db' = touch_device db i now))"
  by unfold_locales
    (auto simp: devices_silent(3) dest: devices_silent(1,2) intro: upsert_device_wf delete_device_wf touch_device_wf)

section \<open>What the listener does\<close>

lemma rebaseline_inv:
  assumes inv: "live_inv s" and r: "stream_receive (lv_db s) since r = Inr (Some (n, out))"
    and reb: "stream_receive (lv_db s) since r = result_bind (send_baseline (lv_db s)) (\<lambda>(n, e). Inr (Some (n, [e])))"
    and rest: "\<exists>before. lv_pending s = before @ rest"
  shows "live_inv (s\<lparr>lv_pending := rest, lv_lagged := False, lv_since := n, lv_sent := lv_sent s @ out\<rparr>)"
proof -
  have wf: "wf_hub (lv_db s)" using inv by (simp add: live_inv_def)
  obtain sources agents where b: "send_baseline (lv_db s) =
      Inr (hd_revision (lv_db s), HubStreamSnapshot (hd_revision (lv_db s)) sources agents)"
      "consume (HubStreamSnapshot (hd_revision (lv_db s)) sources agents) (consumer (lv_sent s)) = hub_view (lv_db s)"
    using baseline_shows_hub [OF wf, of "consumer (lv_sent s)"] by blast
  then have n: "n = hd_revision (lv_db s)" "out = [HubStreamSnapshot (hd_revision (lv_db s)) sources agents]"
    using r reb by auto
  have le: "\<forall>p\<in>set (rest @ lv_inflight s). published_revision p \<le> hd_revision (lv_db s)"
    using inv rest by (auto simp: live_inv_def)
  then have "filter (\<lambda>p. hd_revision (lv_db s) < published_revision p) (rest @ lv_inflight s) = []"
    by (auto simp: filter_empty_conv not_less)
  moreover have "sorted_wrt (\<lambda>p q. published_revision p < published_revision q) (rest @ lv_inflight s)"
    using inv rest by (auto simp: live_inv_def sorted_wrt_append)
  ultimately show ?thesis using wf le b(2) n by (auto simp: live_inv_def unseen_def)
qed

lemma receive_inv:
  assumes inv: "live_inv s" and p: "\<not> lv_lagged s" "lv_pending s = p # rest"
    and r: "stream_receive (lv_db s) (lv_since s) (Received p) = Inr (Some (n, out))"
  shows "live_inv (s\<lparr>lv_pending := rest, lv_since := n, lv_sent := lv_sent s @ out\<rparr>)"
proof (cases "lv_since s < published_revision p")
  case False
  then have "n = lv_since s" "out = []" using r by (cases p; simp add: stream_receive_def)+
  with False p(2) inv show ?thesis by (auto simp: live_inv_def unseen_def)
next
  case True
  show ?thesis
  proof (cases p)
    case (PublishUpdate u)
    then have n: "n = acu_hub_revision u" "out = [HubStreamUpdate (acu_hub_revision u) (acu_source_id u)
        (acu_delivery_id u) (acu_source_revision u) (acu_changed u) (acu_view u)]"
      using r True by (auto simp: stream_receive_def)
    have later: "\<forall>q\<in>set (rest @ lv_inflight s). published_revision p < published_revision q"
      using inv p(2) by (auto simp: live_inv_def)
    let ?s = "s\<lparr>lv_pending := rest, lv_since := n, lv_sent := lv_sent s @ out\<rparr>"
    have "filter (\<lambda>q. n < published_revision q) (rest @ lv_inflight s) = rest @ lv_inflight s"
        "filter (\<lambda>q. lv_since s < published_revision q) (rest @ lv_inflight s) = rest @ lv_inflight s"
      using later True n(1) PublishUpdate by (intro filter_True; fastforce)+
    then have u: "unseen ?s = rest @ lv_inflight s" "unseen s = p # unseen ?s"
      using True p(2) by (simp_all add: unseen_def)
    have c: "consumer (lv_sent ?s) = show_publication p (consumer (lv_sent s))"
      using n(2) PublishUpdate by (simp add: fun_eq_iff)
    have "fold show_publication (unseen ?s) (consumer (lv_sent ?s)) = hub_view (lv_db s)"
      if "\<not> list_ex is_snapshot (unseen ?s)"
      using inv p(1) that PublishUpdate unfolding live_inv_def c u(2) by simp
    moreover have "n \<le> hd_revision (lv_db s)" using inv p(2) n(1) PublishUpdate by (auto simp: live_inv_def)
    ultimately show ?thesis using inv p by (auto simp: live_inv_def)
  next
    case (PublishSnapshot m)
    have "live_inv (s\<lparr>lv_pending := rest, lv_lagged := False, lv_since := n, lv_sent := lv_sent s @ out\<rparr>)"
      by (rule rebaseline_inv [OF inv r]) (use PublishSnapshot True p(2) in \<open>auto simp: stream_receive_def\<close>)
    moreover have "s\<lparr>lv_pending := rest, lv_lagged := False, lv_since := n, lv_sent := lv_sent s @ out\<rparr> =
        s\<lparr>lv_pending := rest, lv_since := n, lv_sent := lv_sent s @ out\<rparr>" using p(1) by (cases s) simp
    ultimately show ?thesis by simp
  qed
qed

lemma live_step_inv: "live_step s s' \<Longrightarrow> live_inv s \<Longrightarrow> live_inv s'"
proof (induction rule: live_step.induct)
  case (live_serve files from_slice describe s auth max_body reads now db' served p)
  then show ?case by (intro serving.commit_keeps_inv) blast+
next
  case (live_forget s source i now db' result p)
  then show ?case by (intro forgetting.commit_keeps_inv) blast+
next
  case (live_pair s i spki name scopes now db' d)
  then show ?case using devices.commit_keeps_inv [where s = s and db' = db' and p = None]
    unfolding opt_list_def by simp blast
next
  case (live_revoke s prefix db' l)
  then show ?case using devices.commit_keeps_inv [where s = s and db' = db' and p = None]
    unfolding opt_list_def by simp blast
next
  case (live_touch s i now)
  then show ?case using devices.commit_keeps_inv [where s = s and db' = "touch_device (lv_db s) i now" and p = None]
    unfolding opt_list_def by simp blast
next
  case (live_send s p rest)
  then show ?case by (simp add: live_inv_def unseen_def)
next
  case (live_lose s lost kept)
  then show ?case by (auto simp: live_inv_def sorted_wrt_append)
next
  case (live_receive s p rest n out)
  then show ?case by (intro receive_inv)
next
  case (live_lag s k n out)
  then have "live_inv (s\<lparr>lv_pending := lv_pending s, lv_lagged := False, lv_since := n, lv_sent := lv_sent s @ out\<rparr>)"
    by (intro rebaseline_inv [where r = "RecvLagged k"]) (auto simp: stream_receive_def)
  then show ?case by simp
qed

lemma live_start_inv:
  assumes "wf_hub db" and "live_start db s"
  shows "live_inv s"
  using assms baseline_shows_hub [OF assms(1), of "\<lambda>_ _. None"]
  by (auto simp: live_start_def live_inv_def unseen_def consumer_def)

section \<open>Catching up\<close>

text \<open>The steps that need no one else: sending what is in flight and receiving what is pending.\<close>

inductive quiet_step :: "Live \<Rightarrow> Live \<Rightarrow> bool" where
  quiet: "live_step s s' \<Longrightarrow> lv_db s' = lv_db s \<Longrightarrow>
    2 * length (lv_inflight s') + length (lv_pending s') + (if lv_lagged s' then 1 else 0)
      < 2 * length (lv_inflight s) + length (lv_pending s) + (if lv_lagged s then 1 else 0) \<Longrightarrow> quiet_step s s'"

definition backlog :: "Live \<Rightarrow> nat" where
  "backlog s = 2 * length (lv_inflight s) + length (lv_pending s) + (if lv_lagged s then 1 else 0)"

lemma receive_total:
  assumes "wf_hub db" and "r \<noteq> RecvClosed"
  shows "\<exists>n out. stream_receive db since r = Inr (Some (n, out))"
proof -
  obtain n e where "send_baseline db = Inr (n, e)" using baseline_shows_hub [OF assms(1)] by blast
  with assms(2) show ?thesis
    by (cases r) (auto simp: stream_receive_def split: HubPublication.split)
qed

lemma quiet_progress:
  assumes "live_inv s" and "backlog s > 0"
  shows "\<exists>s'. quiet_step s s'"
proof -
  have wf: "wf_hub (lv_db s)" using assms(1) by (simp add: live_inv_def)
  consider (lag) "lv_lagged s" | (pending) p rest where "\<not> lv_lagged s" "lv_pending s = p # rest"
    | (inflight) p rest where "lv_inflight s = p # rest"
    using assms(2) by (cases "lv_pending s"; cases "lv_inflight s") (auto simp: backlog_def split: if_splits)
  then show ?thesis
  proof cases
    case lag
    obtain n out where "stream_receive (lv_db s) (lv_since s) (RecvLagged 0) = Inr (Some (n, out))"
      using receive_total [OF wf] by blast
    from quiet [OF live_lag [OF lag this]] lag show ?thesis by auto
  next
    case pending
    obtain n out where "stream_receive (lv_db s) (lv_since s) (Received p) = Inr (Some (n, out))"
      using receive_total [OF wf] by blast
    from quiet [OF live_receive [OF pending this]] pending show ?thesis by auto
  next
    case inflight
    from quiet [OF live_send [OF inflight]] inflight show ?thesis by auto
  qed
qed

lemma quiet_catches_up:
  assumes "live_inv s"
  shows "\<exists>s'. quiet_step\<^sup>*\<^sup>* s s' \<and> backlog s' = 0 \<and> lv_db s' = lv_db s \<and> live_inv s'"
  using assms
proof (induction "backlog s" arbitrary: s rule: less_induct)
  case less
  show ?case
  proof (cases "backlog s = 0")
    case False
    then obtain s1 where s1: "quiet_step s s1" using quiet_progress [OF less.prems] by auto
    then have "backlog s1 < backlog s" "lv_db s1 = lv_db s" "live_inv s1"
      using less.prems by (auto elim!: quiet_step.cases simp: backlog_def intro: live_step_inv)
    with less.hyps [of s1] s1 show ?thesis by (metis converse_rtranclp_into_rtranclp)
  qed (use less.prems in blast)
qed

section \<open>Properties\<close>


definition sample_live :: Live where
  "sample_live = \<lparr>lv_db = HubDb_empty, lv_inflight = [], lv_pending = [], lv_lagged = False, lv_since = 0,
     lv_sent = [HubStreamSnapshot 0 [] []]\<rparr>"


text \<open>
  Publications out of order are lost: when the later of two updates is sent first, the listener
  drops the earlier one, and its consumer does not show the agent of the earlier update although the
  hub does, until some later publication makes it start over.
\<close>

theorem overtaken_publication_lost:
  assumes "acu_hub_revision u = since + 1" and "acu_hub_revision v = since + 2"
    and "(acu_source_id u, pv_invocation_id (acu_view u)) \<noteq> (acu_source_id v, pv_invocation_id (acu_view v))"
  shows "\<exists>out. stream_receive db since (Received (PublishUpdate v)) = Inr (Some (since + 2, out))
    \<and> stream_receive db (since + 2) (Received (PublishUpdate u)) = Inr (Some (since + 2, []))
    \<and> consumer (sent @ out) (acu_source_id u) (pv_invocation_id (acu_view u)) =
        consumer sent (acu_source_id u) (pv_invocation_id (acu_view u))"
  using assms by (auto simp: stream_receive_def)

definition sample_overtaken :: AcceptedUpdate where
  "sample_overtaken = \<lparr>acu_hub_revision = 1, acu_source_id = ''a'', acu_delivery_id = ''d1'',
     acu_source_revision = 4, acu_view = sample_view, acu_changed = {FStatus}, acu_first_seen = False\<rparr>"

theorem overtaken_publication_lost_witness:
  "stream_receive HubDb_empty 2 (Received (PublishUpdate sample_overtaken)) = Inr (Some (2, []))"
proof -
  let ?v = "sample_overtaken\<lparr>acu_hub_revision := 2, acu_source_id := ''b''\<rparr>"
  have "acu_hub_revision sample_overtaken = 0 + 1" "acu_hub_revision ?v = 0 + 2"
    "(acu_source_id sample_overtaken, pv_invocation_id (acu_view sample_overtaken)) \<noteq>
     (acu_source_id ?v, pv_invocation_id (acu_view ?v))"
    by (simp_all add: sample_overtaken_def)
  from overtaken_publication_lost [OF this, of HubDb_empty "[]"] show ?thesis by (auto simp: numeral_2_eq_2)
qed

end
