(* ===== verification/Hub_Relay.thy ===== *)
theory Hub_Relay
  imports Protocol Tables
begin

text \<open>
  The terminal relay of the hub, \<^verbatim>\<open>sessiontap-hub/src/relay.rs\<close>: one control channel per source and
  the streams of devices multiplexed over it. All operations run under one mutex, so each is one
  function on the state. A hash map is a keyed table; where the source iterates over one, the model
  goes through the table in order, which fixes an order the source leaves open.

  Queues are part of the state: \<open>rl_room\<close> is the free room in the bounded outbound queue of a device
  connection (\<open>None\<close> when it is closed), \<open>rl_out\<close> what has been put into these queues, \<open>rl_requests\<close>
  what has been sent to the channels, and \<open>rl_answers\<close> the answers handed to waiters.
\<close>

section \<open>State\<close>

definition OPENING_BUFFER :: nat where
  "OPENING_BUFFER = 256"

definition MAX_OUTPUT_CHUNK :: nat where
  "MAX_OUTPUT_CHUNK = 32 * 1024"

datatype Answer = AnswerOpened | AnswerInput "string option" | AnswerError string string

record RelayError =
  re_code :: string
  re_message :: string

definition RelayError_new :: "string \<Rightarrow> string \<Rightarrow> RelayError" where
  "RelayError_new code message = \<lparr>re_code = code, re_message = message\<rparr>"

record Pending =
  pd_source :: string
  pd_channel :: u64
  pd_req :: u64
  pd_stream :: u64

record Channel =
  ch_source :: string
  ch_id :: u64
  ch_pending :: "u64 list"

record Stream =
  sm_id :: u64
  sm_source :: string
  sm_channel :: u64
  sm_owner :: u64
  sm_opening :: "TerminalFrame list option"
  sm_lagging :: bool
  sm_ended :: bool

record Relay =
  rl_channels :: "Channel list"
  rl_streams :: "Stream list"
  rl_next_id :: u64
  rl_room :: "u64 \<Rightarrow> nat option"
  rl_out :: "(u64 \<times> u64 \<times> TerminalFrame) list"
  rl_requests :: "(u64 \<times> RelayRequest) list"
  rl_answers :: "(u64 \<times> Answer) list"

definition Relay_new :: "(u64 \<Rightarrow> nat option) \<Rightarrow> Relay" where
  "Relay_new room = \<lparr>rl_channels = [], rl_streams = [], rl_next_id = 0, rl_room = room,
     rl_out = [], rl_requests = [], rl_answers = []\<rparr>"

definition State_next :: "Relay \<Rightarrow> Relay \<times> u64" where
  "State_next r = (r\<lparr>rl_next_id := rl_next_id r + 1\<rparr>, rl_next_id r + 1)"

definition the_channel :: "Relay \<Rightarrow> string \<Rightarrow> u64 \<Rightarrow> Channel option" where
  "the_channel r source i =
     (case tbl_lookup ch_source source (rl_channels r) of
        Some channel \<Rightarrow> if ch_id channel = i then Some channel else None
      | None \<Rightarrow> None)"

definition channel_of :: "Relay \<Rightarrow> Stream \<Rightarrow> Channel option" where
  "channel_of r stream = the_channel r (sm_source stream) (sm_channel stream)"

definition State_send :: "Relay \<Rightarrow> Stream \<Rightarrow> RelayRequest \<Rightarrow> Relay" where
  "State_send r stream request =
     (case channel_of r stream of
        None \<Rightarrow> r
      | Some channel \<Rightarrow> r\<lparr>rl_requests := rl_requests r @ [(ch_id channel, request)]\<rparr>)"

definition put_stream :: "Relay \<Rightarrow> Stream \<Rightarrow> Relay" where
  "put_stream r stream = r\<lparr>rl_streams := tbl_put sm_id stream (rl_streams r)\<rparr>"

definition put_channel :: "Relay \<Rightarrow> Channel \<Rightarrow> Relay" where
  "put_channel r channel = r\<lparr>rl_channels := tbl_put ch_source channel (rl_channels r)\<rparr>"

section \<open>Frames to a device\<close>

function chunks_of :: "nat \<Rightarrow> 'a list \<Rightarrow> 'a list list" where
  "chunks_of n xs =
     (if xs = [] then [] else if n = 0 then [xs] else take n xs # chunks_of n (drop n xs))"
  by pat_completeness auto

termination
  by (relation "measure (\<lambda>(_, xs). length xs)") auto

declare chunks_of.simps [simp del]

text \<open>\<open>device_messages\<close>: a message is the stream with one frame.\<close>

fun device_frames :: "TerminalFrame \<Rightarrow> TerminalFrame list" where
  "device_frames (FrameOutput seq data) =
     (if length data > MAX_OUTPUT_CHUNK then map (FrameOutput seq) (chunks_of MAX_OUTPUT_CHUNK data)
      else [FrameOutput seq data])"
| "device_frames frame = [frame]"

fun is_ended :: "TerminalFrame \<Rightarrow> bool" where
  "is_ended (FrameEnded _) = True"
| "is_ended _ = False"

fun is_snapshot_frame :: "TerminalFrame \<Rightarrow> bool" where
  "is_snapshot_frame (FrameSnapshot _ _ _ _ _ _ _) = True"
| "is_snapshot_frame _ = False"

text \<open>\<open>try_send\<close>: the second value says that the queue was full.\<close>

definition try_send :: "Relay \<Rightarrow> u64 \<Rightarrow> u64 \<Rightarrow> TerminalFrame \<Rightarrow> Relay \<times> bool" where
  "try_send r owner stream frame =
     (case rl_room r owner of
        None \<Rightarrow> (r, False)
      | Some 0 \<Rightarrow> (r, True)
      | Some (Suc n) \<Rightarrow>
          (r\<lparr>rl_room := (rl_room r)(owner := Some n), rl_out := rl_out r @ [(owner, stream, frame)]\<rparr>, False))"

fun try_sends :: "Relay \<Rightarrow> u64 \<Rightarrow> u64 \<Rightarrow> TerminalFrame list \<Rightarrow> Relay \<times> bool" where
  "try_sends r owner stream [] = (r, False)"
| "try_sends r owner stream (frame # frames) =
     (case try_send r owner stream frame of
        (r', full) \<Rightarrow> if full then (r', True) else try_sends r' owner stream frames)"

definition resync :: "Relay \<Rightarrow> u64 \<Rightarrow> Relay" where
  "resync r stream_id =
     (case tbl_lookup sm_id stream_id (rl_streams r) of
        None \<Rightarrow> r
      | Some stream \<Rightarrow> State_send r stream (RelayResync stream_id))"

definition push :: "Relay \<Rightarrow> u64 \<Rightarrow> TerminalFrame \<Rightarrow> Relay" where
  "push r stream_id frame =
     (case tbl_lookup sm_id stream_id (rl_streams r) of
        None \<Rightarrow> r
      | Some stream \<Rightarrow>
          if sm_ended stream then r
          else
            (case sm_opening stream of
               Some buffer \<Rightarrow>
                 if is_ended frame then put_stream r (stream\<lparr>sm_opening := Some [frame]\<rparr>)
                 else if length buffer \<ge> OPENING_BUFFER
                 then resync (put_stream r (stream\<lparr>sm_opening := Some [], sm_lagging := True\<rparr>)) stream_id
                 else put_stream r (stream\<lparr>sm_opening := Some (buffer @ [frame])\<rparr>)
             | None \<Rightarrow>
                 if sm_lagging stream \<and> \<not> is_snapshot_frame frame \<and> \<not> is_ended frame then r
                 else
                   (case try_sends (put_stream r (stream\<lparr>sm_lagging := False, sm_ended := is_ended frame\<rparr>))
                           (sm_owner stream) stream_id (device_frames frame) of
                      (r', full) \<Rightarrow>
                        if full \<and> \<not> is_ended frame
                        then resync (put_stream r' (stream\<lparr>sm_lagging := True, sm_ended := False\<rparr>)) stream_id
                        else r')))"

definition end_channel :: "Relay \<Rightarrow> u64 \<Rightarrow> EndReason \<Rightarrow> Relay" where
  "end_channel r i reason =
     fold (\<lambda>stream_id r. push r stream_id (FrameEnded reason))
       (map sm_id (filter (\<lambda>s. sm_channel s = i \<and> \<not> sm_ended s) (rl_streams r))) r"

section \<open>Operations\<close>

definition Relay_attach :: "Relay \<Rightarrow> string \<Rightarrow> Relay \<times> u64" where
  "Relay_attach r source =
     (case State_next r of
        (r1, i) \<Rightarrow>
          let previous = tbl_lookup ch_source source (rl_channels r1);
              r2 = put_channel r1 \<lparr>ch_source = source, ch_id = i, ch_pending = []\<rparr>
          in (case previous of
                None \<Rightarrow> r2
              | Some channel \<Rightarrow> end_channel r2 (ch_id channel) SourceUnavailable, i))"

definition Relay_detach :: "Relay \<Rightarrow> string \<Rightarrow> u64 \<Rightarrow> Relay" where
  "Relay_detach r source i =
     end_channel (if the_channel r source i \<noteq> None
                  then r\<lparr>rl_channels := tbl_delete ch_source source (rl_channels r)\<rparr> else r)
       i SourceUnavailable"

definition has_channel :: "Relay \<Rightarrow> string \<Rightarrow> bool" where
  "has_channel r source \<longleftrightarrow> tbl_lookup ch_source source (rl_channels r) \<noteq> None"

text \<open>An error leaves the state with the two identifiers it has drawn.\<close>

definition Relay_open :: "Relay \<Rightarrow> u64 \<Rightarrow> string \<Rightarrow> string \<Rightarrow> Relay \<times> (RelayError + Pending)" where
  "Relay_open r owner source invocation_id =
     (case State_next r of
        (r1, stream) \<Rightarrow>
          (case State_next r1 of
             (r2, req) \<Rightarrow>
               (case tbl_lookup ch_source source (rl_channels r2) of
                  None \<Rightarrow>
                    (r2, Inl (RelayError_new SOURCE_DISALLOWS_CONTROL
                           (''source '' @ [CHR 0x27] @ source @ [CHR 0x27] @ '' has no control channel'')))
                | Some channel \<Rightarrow>
                    let r3 = put_channel r2 (channel\<lparr>ch_pending := req # ch_pending channel\<rparr>);
                        r4 = r3\<lparr>rl_requests := rl_requests r3 @ [(ch_id channel, RelayOpen req stream invocation_id)]\<rparr>;
                        r5 = put_stream r4 \<lparr>sm_id = stream, sm_source = source, sm_channel = ch_id channel,
                               sm_owner = owner, sm_opening = Some [], sm_lagging = False, sm_ended = False\<rparr>
                    in (r5, Inr \<lparr>pd_source = source, pd_channel = ch_id channel, pd_req = req,
                                  pd_stream = stream\<rparr>))))"

definition unknown_stream :: "u64 \<Rightarrow> RelayError" where
  "unknown_stream stream_id =
     RelayError_new BAD_REQUEST (''unknown stream '' @ show_nat (unat stream_id))"

definition foreign_stream :: RelayError where
  "foreign_stream = RelayError_new ''forbidden'' ''the stream belongs to another connection''"

definition channel_gone :: RelayError where
  "channel_gone = RelayError_new SOURCE_UNAVAILABLE (''the source'' @ [CHR 0x27] @ ''s control channel closed'')"

definition Relay_input ::
    "Relay \<Rightarrow> u64 \<Rightarrow> u64 \<Rightarrow> TerminalInput \<Rightarrow> Relay \<times> (RelayError + Pending)" where
  "Relay_input r owner stream_id input =
     (case State_next r of
        (r1, req) \<Rightarrow>
          (case tbl_lookup sm_id stream_id (rl_streams r1) of
             None \<Rightarrow> (r1, Inl (unknown_stream stream_id))
           | Some stream \<Rightarrow>
               if sm_owner stream \<noteq> owner then (r1, Inl foreign_stream)
               else if sm_ended stream
               then (r1, Inl (RelayError_new TERMINAL_ENDED ''terminal stream ended''))
               else
                 (case channel_of r1 stream of
                    None \<Rightarrow> (r1, Inl channel_gone)
                  | Some channel \<Rightarrow>
                      let r2 = put_channel r1 (channel\<lparr>ch_pending := req # ch_pending channel\<rparr>)
                      in (r2\<lparr>rl_requests := rl_requests r2 @ [(ch_id channel, RelayInput req stream_id input)]\<rparr>,
                          Inr \<lparr>pd_source = sm_source stream, pd_channel = ch_id channel, pd_req = req,
                               pd_stream = stream_id\<rparr>))))"

text \<open>
  Waiting for an answer ends in one of three ways: it came, its sender was dropped with the
  channel, or the time is up.
\<close>

datatype Waited = WaitedAnswer Answer | WaitedDropped | WaitedTimeout

definition Relay_answer :: "Relay \<Rightarrow> Pending \<Rightarrow> Waited \<Rightarrow> Relay \<times> (RelayError + Answer)" where
  "Relay_answer r pending waited =
     (case waited of
        WaitedAnswer answer \<Rightarrow> (r, Inr answer)
      | WaitedDropped \<Rightarrow> (r, Inl channel_gone)
      | WaitedTimeout \<Rightarrow>
          (case the_channel r (pd_source pending) (pd_channel pending) of
             None \<Rightarrow> r
           | Some channel \<Rightarrow>
               put_channel r (channel\<lparr>ch_pending := filter (\<lambda>q. q \<noteq> pd_req pending) (ch_pending channel)\<rparr>),
           Inl (RelayError_new SOURCE_UNAVAILABLE ''the source did not answer in time'')))"

definition Relay_activate :: "Relay \<Rightarrow> u64 \<Rightarrow> Relay" where
  "Relay_activate r stream_id =
     (case tbl_lookup sm_id stream_id (rl_streams r) of
        None \<Rightarrow> r
      | Some stream \<Rightarrow>
          (case sm_opening stream of
             None \<Rightarrow> r
           | Some buffer \<Rightarrow>
               fold (\<lambda>frame r. push r stream_id frame) buffer
                 (put_stream r (stream\<lparr>sm_opening := None\<rparr>))))"

definition remove_stream :: "Relay \<Rightarrow> u64 \<Rightarrow> Relay" where
  "remove_stream r stream_id =
     (case tbl_lookup sm_id stream_id (rl_streams r) of
        None \<Rightarrow> r
      | Some stream \<Rightarrow>
          State_send (r\<lparr>rl_streams := tbl_delete sm_id stream_id (rl_streams r)\<rparr>) stream (RelayClose stream_id))"

definition Relay_abandon :: "Relay \<Rightarrow> u64 \<Rightarrow> Relay" where
  "Relay_abandon r stream_id = remove_stream r stream_id"

definition Relay_close :: "Relay \<Rightarrow> u64 \<Rightarrow> u64 \<Rightarrow> Relay \<times> (RelayError + unit)" where
  "Relay_close r owner stream_id =
     (case tbl_lookup sm_id stream_id (rl_streams r) of
        None \<Rightarrow> (r, Inl (unknown_stream stream_id))
      | Some stream \<Rightarrow>
          if sm_owner stream \<noteq> owner then (r, Inl foreign_stream)
          else
            let r1 = put_stream r (stream\<lparr>sm_opening := None, sm_lagging := False\<rparr>)
            in (remove_stream (push r1 stream_id (FrameEnded Closed)) stream_id, Inr ()))"

definition release_owner :: "Relay \<Rightarrow> u64 \<Rightarrow> Relay" where
  "release_owner r owner =
     fold (\<lambda>stream_id r. remove_stream r stream_id)
       (map sm_id (filter (\<lambda>s. sm_owner s = owner) (rl_streams r))) r"

definition answer_request :: "Relay \<Rightarrow> string \<Rightarrow> u64 \<Rightarrow> u64 \<Rightarrow> Answer \<Rightarrow> Relay" where
  "answer_request r source i req answer =
     (case the_channel r source i of
        None \<Rightarrow> r
      | Some channel \<Rightarrow>
          if req \<in> set (ch_pending channel)
          then (put_channel r (channel\<lparr>ch_pending := filter (\<lambda>q. q \<noteq> req) (ch_pending channel)\<rparr>))
                 \<lparr>rl_answers := rl_answers r @ [(req, answer)]\<rparr>
          else r)"

fun Relay_deliver :: "Relay \<Rightarrow> string \<Rightarrow> u64 \<Rightarrow> RelayMessage \<Rightarrow> Relay" where
  "Relay_deliver r source i (RelayHello _ _) = r"
| "Relay_deliver r source i (RelayFrame stream frame) =
     (if is_some_and (\<lambda>known. sm_channel known = i) (tbl_lookup sm_id stream (rl_streams r))
      then push r stream frame else r)"
| "Relay_deliver r source i (RelayOpened req _) = answer_request r source i req AnswerOpened"
| "Relay_deliver r source i (RelayInputResult req code) = answer_request r source i req (AnswerInput code)"
| "Relay_deliver r source i (RelayError req code message) =
     answer_request r source i req (AnswerError code message)"

text \<open>The greeting of a new channel: the source it is attached to, or the reason it is closed.\<close>

definition channel_source :: "string set option \<Rightarrow> RelayMessage option \<Rightarrow> string + string" where
  "channel_source granted hello =
     (case hello of
        Some (RelayHello source_id _) \<Rightarrow>
          if is_some_and (\<lambda>g. source_id \<notin> g) granted then Inl ''source_not_permitted'' else Inr source_id
      | _ \<Rightarrow> Inl ''expected hello'')"

end
