(* ===== verification/Hub_Relay_Props.thy ===== *)
theory Hub_Relay_Props
  imports Hub_Relay
begin

text \<open>
  What the relay promises. Beside the relay runs a record of what the sources sent on every stream
  and of who opened it; the invariant relates the two, and a device's screen to the source's.
\<close>

section \<open>Screens\<close>

text \<open>What a terminal shows: a snapshot starts over, output is appended, input availability is kept.\<close>

record Screen =
  sc_base :: "(u16 \<times> u16 \<times> Cursor \<times> bool \<times> u8 list) option"
  sc_bytes :: "u8 list"
  sc_input :: "InputState option"

fun draw :: "TerminalFrame \<Rightarrow> Screen \<Rightarrow> Screen" where
  "draw (FrameSnapshot _ cols rows cursor alternate data input) _ =
     \<lparr>sc_base = Some (cols, rows, cursor, alternate, data), sc_bytes = [], sc_input = Some input\<rparr>"
| "draw (FrameOutput _ data) s = s\<lparr>sc_bytes := sc_bytes s @ data\<rparr>"
| "draw (FrameInput input) s = s\<lparr>sc_input := Some input\<rparr>"
| "draw (FrameEnded _) s = s"

definition screen :: "TerminalFrame list \<Rightarrow> Screen" where
  "screen frames = fold draw frames \<lparr>sc_base = None, sc_bytes = [], sc_input = None\<rparr>"

lemma screen_append: "screen (fs @ gs) = fold draw gs (screen fs)"
  by (simp add: screen_def)

lemma concat_chunks_of: "concat (chunks_of n xs) = xs"
  by (induction n xs rule: chunks_of.induct) (subst chunks_of.simps, auto)

lemma fold_draw_outputs: "fold draw (map (FrameOutput seq) ds) s = s\<lparr>sc_bytes := sc_bytes s @ concat ds\<rparr>"
  by (induction ds arbitrary: s) simp_all

text \<open>Splitting an output into chunks draws the same.\<close>

lemma fold_draw_device_frames: "fold draw (device_frames f) s = draw f s"
  by (cases f) (simp_all add: fold_draw_outputs concat_chunks_of)

lemma draw_snapshot: "is_snapshot_frame f \<Longrightarrow> draw f s = draw f t"
  by (cases f) simp_all

lemma device_frames_nonempty: "device_frames f \<noteq> []"
  by (cases f) (auto simp: chunks_of.simps)

section \<open>One push\<close>

definition sent :: "Relay \<Rightarrow> u64 \<Rightarrow> TerminalFrame list" where
  "sent r i = map (snd \<circ> snd) (filter (\<lambda>(_, j, _). j = i) (rl_out r))"

definition open_conn :: "Relay \<Rightarrow> u64 \<Rightarrow> bool" where
  "open_conn r owner \<longleftrightarrow> rl_room r owner \<noteq> None"

text \<open>What an operation on stream \<open>i\<close> leaves alone.\<close>

definition elsewhere :: "u64 \<Rightarrow> Relay \<Rightarrow> Relay \<Rightarrow> bool" where
  "elsewhere i r r' \<longleftrightarrow> rl_channels r' = rl_channels r \<and> rl_next_id r' = rl_next_id r
     \<and> rl_answers r' = rl_answers r \<and> open_conn r' = open_conn r
     \<and> (\<forall>j. j \<noteq> i \<longrightarrow> sent r' j = sent r j)
     \<and> (\<exists>new. rl_requests r' = rl_requests r @ new)"

lemma try_sends_closed: "rl_room r owner = None \<Longrightarrow> try_sends r owner i fs = (r, False)"
  by (induction fs) (simp_all add: try_send_def)

lemma try_sends_effect:
  assumes "try_sends r owner i frames = (r', full)"
  shows "\<exists>k. rl_out r' = rl_out r @ map (\<lambda>f. (owner, i, f)) (take k frames)
      \<and> (\<not> full \<and> open_conn r owner \<longrightarrow> take k frames = frames)"
    and "rl_streams r' = rl_streams r" "elsewhere i r r'" "rl_requests r' = rl_requests r"
proof -
  have "(\<exists>k. rl_out r' = rl_out r @ map (\<lambda>f. (owner, i, f)) (take k frames)
      \<and> (\<not> full \<and> open_conn r owner \<longrightarrow> take k frames = frames))
      \<and> rl_streams r' = rl_streams r \<and> elsewhere i r r' \<and> rl_requests r' = rl_requests r"
    using assms
  proof (induction frames arbitrary: r)
    case Nil
    then show ?case by (simp add: elsewhere_def)
  next
    case (Cons f fs)
    show ?case
    proof (cases "rl_room r owner")
      case None
      with Cons.prems try_sends_closed [OF None] show ?thesis
        by (auto simp: elsewhere_def open_conn_def simp del: try_sends.simps intro!: exI [of _ 0])
    next
      case (Some n)
      show ?thesis
      proof (cases n)
        case 0
        with Some Cons.prems show ?thesis
          by (auto simp: try_send_def elsewhere_def intro!: exI [of _ 0])
      next
        case (Suc m)
        let ?r = "r\<lparr>rl_room := (rl_room r)(owner := Some m), rl_out := rl_out r @ [(owner, i, f)]\<rparr>"
        have "try_sends ?r owner i fs = (r', full)" using Some Suc Cons.prems by (simp add: try_send_def)
        from Cons.IH [OF this] obtain k where
          k: "rl_out r' = rl_out ?r @ map (\<lambda>f. (owner, i, f)) (take k fs)"
             "\<not> full \<and> open_conn ?r owner \<longrightarrow> take k fs = fs" and
          r: "rl_streams r' = rl_streams ?r" "elsewhere i ?r r'" "rl_requests r' = rl_requests ?r" by blast
        have "open_conn ?r = open_conn r" using Some by (auto simp: open_conn_def fun_eq_iff)
        then show ?thesis using k r by (auto simp: elsewhere_def sent_def intro!: exI [of _ "Suc k"])
      qed
    qed
  qed
  then show "\<exists>k. rl_out r' = rl_out r @ map (\<lambda>f. (owner, i, f)) (take k frames)
      \<and> (\<not> full \<and> open_conn r owner \<longrightarrow> take k frames = frames)"
    "rl_streams r' = rl_streams r" "elsewhere i r r'" "rl_requests r' = rl_requests r" by blast+
qed

lemma sent_append:
  "rl_out r' = rl_out r @ map (\<lambda>f. (owner, i, f)) fs \<Longrightarrow> sent r' i = sent r i @ fs"
  by (simp add: sent_def filter_map comp_def)

definition ident :: "Stream \<Rightarrow> u64 \<times> string \<times> u64 \<times> u64" where
  "ident s = (sm_id s, sm_source s, sm_channel s, sm_owner s)"

lemma ident_simps [simp]:
  "ident (s\<lparr>sm_opening := x\<rparr>) = ident s" "ident (s\<lparr>sm_lagging := y\<rparr>) = ident s" "ident (s\<lparr>sm_ended := y\<rparr>) = ident s"
  by (simp_all add: ident_def)

lemma State_send_simps [simp]:
  "rl_streams (State_send r s q) = rl_streams r" "rl_channels (State_send r s q) = rl_channels r"
  "rl_next_id (State_send r s q) = rl_next_id r" "rl_out (State_send r s q) = rl_out r"
  "rl_room (State_send r s q) = rl_room r" "rl_answers (State_send r s q) = rl_answers r"
  by (simp_all add: State_send_def split: option.split)

lemma State_send_requests: "\<exists>new. rl_requests (State_send r s q) = rl_requests r @ new"
  by (auto simp: State_send_def split: option.split)

lemma put_stream_simps [simp]:
  "rl_streams (put_stream r s) = tbl_put sm_id s (rl_streams r)" "rl_channels (put_stream r s) = rl_channels r"
  "rl_next_id (put_stream r s) = rl_next_id r" "rl_out (put_stream r s) = rl_out r"
  "rl_room (put_stream r s) = rl_room r" "rl_answers (put_stream r s) = rl_answers r"
  "rl_requests (put_stream r s) = rl_requests r"
  by (simp_all add: put_stream_def)

lemma elsewhere_refl [simp]: "elsewhere i r r"
  by (simp add: elsewhere_def)

lemma elsewhere_trans: "elsewhere i a b \<Longrightarrow> elsewhere i b c \<Longrightarrow> elsewhere i a c"
  by (auto simp: elsewhere_def)

lemma elsewhere_cong:
  "rl_channels r' = rl_channels r \<Longrightarrow> rl_next_id r' = rl_next_id r \<Longrightarrow> rl_answers r' = rl_answers r \<Longrightarrow>
   rl_room r' = rl_room r \<Longrightarrow> rl_out r' = rl_out r \<Longrightarrow> \<exists>new. rl_requests r' = rl_requests r @ new \<Longrightarrow> elsewhere i r r'"
  by (auto simp: elsewhere_def open_conn_def fun_eq_iff sent_def)

lemma the_channel_cong: "rl_channels r' = rl_channels r \<Longrightarrow> channel_of r' s = channel_of r s"
  by (simp add: channel_of_def the_channel_def)

lemma channel_of_ident: "ident s' = ident s \<Longrightarrow> channel_of r s' = channel_of r s"
  by (simp add: channel_of_def ident_def)

lemma channel_of_Some: "channel_of r s = Some c \<Longrightarrow> ch_id c = sm_channel s"
  by (auto simp: channel_of_def the_channel_def split: option.splits if_splits)

lemma resync_put:
  assumes "sm_id s = i"
  shows "resync (put_stream r s) i = State_send (put_stream r s) s (RelayResync i)"
  using assms by (simp add: resync_def tbl_lookup_put)

text \<open>Every outcome of pushing a frame to a known stream.\<close>

lemma push_cases:
  assumes look: "tbl_lookup sm_id i (rl_streams r) = Some s"
  obtains (ended) "sm_ended s" "push r i f = r"
  | (buffered_end) buf where "\<not> sm_ended s" "sm_opening s = Some buf" "is_ended f"
      "push r i f = put_stream r (s\<lparr>sm_opening := Some [f]\<rparr>)"
  | (overflow) buf where "\<not> sm_ended s" "sm_opening s = Some buf" "\<not> is_ended f"
      "push r i f = State_send (put_stream r (s\<lparr>sm_opening := Some [], sm_lagging := True\<rparr>))
         (s\<lparr>sm_opening := Some [], sm_lagging := True\<rparr>) (RelayResync i)"
  | (buffered) buf where "\<not> sm_ended s" "sm_opening s = Some buf" "\<not> is_ended f"
      "push r i f = put_stream r (s\<lparr>sm_opening := Some (buf @ [f])\<rparr>)"
  | (skipped) "\<not> sm_ended s" "sm_opening s = None" "sm_lagging s" "\<not> is_ended f" "push r i f = r"
  | (sent_all) r' full where "\<not> sm_ended s" "sm_opening s = None" "\<not> full \<or> is_ended f"
      "sm_lagging s \<longrightarrow> is_snapshot_frame f \<or> is_ended f"
      "try_sends (put_stream r (s\<lparr>sm_lagging := False, sm_ended := is_ended f\<rparr>)) (sm_owner s) i (device_frames f) = (r', full)"
      "push r i f = r'"
  | (partial) r' where "\<not> sm_ended s" "sm_opening s = None" "\<not> is_ended f"
      "try_sends (put_stream r (s\<lparr>sm_lagging := False, sm_ended := False\<rparr>)) (sm_owner s) i (device_frames f) = (r', True)"
      "push r i f = State_send (put_stream r' (s\<lparr>sm_lagging := True, sm_ended := False\<rparr>))
         (s\<lparr>sm_lagging := True, sm_ended := False\<rparr>) (RelayResync i)"
proof -
  have i: "sm_id s = i" using tbl_lookup_SomeD [OF look] by simp
  show thesis
  proof (cases "sm_ended s")
    case True
    then show thesis using ended look by (simp add: push_def)
  next
    case False
    show thesis
    proof (cases "sm_opening s")
      case (Some buf)
      note now = push_def look False Some
      consider "is_ended f" | "\<not> is_ended f" "OPENING_BUFFER \<le> length buf"
        | "\<not> is_ended f" "\<not> OPENING_BUFFER \<le> length buf" by blast
      then show thesis
      proof cases
        case 1
        then show thesis using buffered_end [OF False Some] by (simp add: now)
      next
        case 2
        then show thesis using overflow [OF False Some] i by (simp add: now resync_put)
      next
        case 3
        then show thesis using buffered [OF False Some] by (simp add: now)
      qed
    next
      case None
      obtain r' full where t: "try_sends (put_stream r (s\<lparr>sm_lagging := False, sm_ended := is_ended f\<rparr>))
          (sm_owner s) i (device_frames f) = (r', full)" by fastforce
      show thesis
      proof (cases "sm_lagging s \<and> \<not> is_snapshot_frame f \<and> \<not> is_ended f")
        case True
        with False None look skipped show thesis by (simp add: push_def)
      next
        case deliver: False
        show thesis
        proof (cases "full \<and> \<not> is_ended f")
          case True
          have "push r i f = State_send (put_stream r' (s\<lparr>sm_lagging := True, sm_ended := False\<rparr>))
              (s\<lparr>sm_lagging := True, sm_ended := False\<rparr>) (RelayResync i)"
            using t True False None look deliver i by (auto simp: push_def resync_put)
          with t True False None partial show thesis by simp
        next
          case complete: False
          then have "push r i f = r'" using t False None look deliver by (auto simp: push_def)
          with t complete False None deliver sent_all show thesis by blast
        qed
      qed
    qed
  qed
qed

lemma push_unknown: "tbl_lookup sm_id i (rl_streams r) = None \<Longrightarrow> push r i f = r"
  by (simp add: push_def)

lemma push_elsewhere: "elsewhere i r (push r i f)"
proof (cases "tbl_lookup sm_id i (rl_streams r)")
  case (Some s)
  then show ?thesis
  proof (cases rule: push_cases [where f = f])
    case (overflow buf)
    show ?thesis
      unfolding overflow(4) using State_send_requests [of "put_stream r (s\<lparr>sm_opening := Some [], sm_lagging := True\<rparr>)"]
      by (intro elsewhere_cong) auto
  next
    case (sent_all r' full)
    have "elsewhere i r (put_stream r (s\<lparr>sm_lagging := False, sm_ended := is_ended f\<rparr>))" by (rule elsewhere_cong) simp_all
    then show ?thesis using try_sends_effect(3) [OF sent_all(5)] sent_all(6) elsewhere_trans by metis
  next
    case (partial r')
    have "elsewhere i r (put_stream r (s\<lparr>sm_lagging := False, sm_ended := False\<rparr>))" by (rule elsewhere_cong) simp_all
    moreover have "elsewhere i r' (push r i f)"
      unfolding partial(5) using State_send_requests [of "put_stream r' (s\<lparr>sm_lagging := True, sm_ended := False\<rparr>)"]
      by (intro elsewhere_cong) auto
    ultimately show ?thesis using try_sends_effect(3) [OF partial(4)] elsewhere_trans by metis
  qed (auto intro: elsewhere_cong)
qed (simp add: push_unknown)

lemma tbl_put_same: "tbl_lookup key k rows = Some row \<Longrightarrow> tbl_put key row rows = rows"
  by (induction rows) (auto split: if_splits dest: tbl_lookup_SomeD)

lemma tbl_put_put: "key a = key b \<Longrightarrow> tbl_put key b (tbl_put key a rows) = tbl_put key b rows"
  by (induction rows) auto

lemma push_streams:
  assumes "tbl_lookup sm_id i (rl_streams r) = Some s"
  shows "\<exists>s'. rl_streams (push r i f) = tbl_put sm_id s' (rl_streams r) \<and> ident s' = ident s"
proof -
  have same: "tbl_put sm_id s (rl_streams r) = rl_streams r" using tbl_put_same [OF assms] .
  show ?thesis
    using assms
  proof (cases rule: push_cases [where f = f])
    case (sent_all r' full)
    with try_sends_effect(2) [OF sent_all(5)] show ?thesis
      by (intro exI [of _ "s\<lparr>sm_lagging := False, sm_ended := is_ended f\<rparr>"]) simp
  next
    case (partial r')
    with try_sends_effect(2) [OF partial(4)] show ?thesis
      by (intro exI [of _ "s\<lparr>sm_lagging := True, sm_ended := False\<rparr>"]) (simp add: tbl_put_put)
  next
    case (buffered_end buf)
    then show ?thesis by (intro exI [of _ "s\<lparr>sm_opening := Some [f]\<rparr>"]) simp
  next
    case (overflow buf)
    then show ?thesis by (intro exI [of _ "s\<lparr>sm_opening := Some [], sm_lagging := True\<rparr>"]) simp
  next
    case (buffered buf)
    then show ?thesis by (intro exI [of _ "s\<lparr>sm_opening := Some (buf @ [f])\<rparr>"]) simp
  qed (use same in \<open>auto intro!: exI [of _ s]\<close>)
qed

lemma push_lookup_other:
  assumes "j \<noteq> i"
  shows "tbl_lookup sm_id j (rl_streams (push r i f)) = tbl_lookup sm_id j (rl_streams r)"
proof (cases "tbl_lookup sm_id i (rl_streams r)")
  case (Some s)
  with push_streams [OF Some, of f] assms tbl_lookup_SomeD [OF Some] show ?thesis
    by (auto simp: tbl_lookup_put ident_def)
qed (simp add: push_unknown)

section \<open>One stream\<close>

text \<open>
  What is known of a stream with frames \<open>fs\<close> from its source and \<open>out\<close> put into the queue of its
  device: while frames are held back, those before them are out, or an end is among the held back.
\<close>

definition stream_ok :: "TerminalFrame list \<Rightarrow> bool \<Rightarrow> TerminalFrame list \<Rightarrow> Stream \<Rightarrow> bool" where
  "stream_ok out live fs s \<longleftrightarrow> live \<and> \<not> sm_ended s \<longrightarrow>
     (case sm_opening s of
        None \<Rightarrow> \<not> sm_lagging s \<longrightarrow> screen out = screen fs
      | Some buf \<Rightarrow> buf \<noteq> [] \<and> is_ended (hd buf)
          \<or> (\<exists>pre. fs = pre @ buf \<and> (\<not> sm_lagging s \<longrightarrow> screen out = screen pre)))"

lemma draw_ended: "is_ended f \<Longrightarrow> draw f s = s"
  by (cases f) simp_all

lemma ended_not_snapshot: "is_ended f \<Longrightarrow> \<not> is_snapshot_frame f"
  by (cases f) simp_all

lemma push_ok:
  assumes look: "tbl_lookup sm_id i (rl_streams r) = Some s"
    and ok: "stream_ok (sent r i) (open_conn r (sm_owner s)) fs s"
  obtains s' where "tbl_lookup sm_id i (rl_streams (push r i f)) = Some s'" "ident s' = ident s"
    "stream_ok (sent (push r i f) i) (open_conn r (sm_owner s)) (fs @ [f]) s'"
    "is_ended f \<longrightarrow> sm_ended s' \<or> (\<exists>buf. sm_opening s' = Some buf \<and> buf \<noteq> [] \<and> is_ended (hd buf))"
    "sm_ended s \<or> (is_ended f \<and> sm_opening s = None) \<longrightarrow> sm_ended s'"
proof -
  have i: "sm_id s = i" using tbl_lookup_SomeD [OF look] by simp
  show thesis
    using look
  proof (cases rule: push_cases [where f = f])
    case ended
    with that [of s] look show thesis by (simp add: stream_ok_def)
  next
    case (buffered_end buf)
    with that [of "s\<lparr>sm_opening := Some [f]\<rparr>"] i show thesis by (simp add: tbl_lookup_put stream_ok_def)
  next
    case (overflow buf)
    with that [of "s\<lparr>sm_opening := Some [], sm_lagging := True\<rparr>"] i show thesis
      by (simp add: tbl_lookup_put stream_ok_def)
  next
    case (buffered buf)
    moreover have "sent (push r i f) i = sent r i" using buffered(4) by (simp add: sent_def)
    ultimately show thesis
      using that [of "s\<lparr>sm_opening := Some (buf @ [f])\<rparr>"] i ok
      by (auto simp: tbl_lookup_put stream_ok_def hd_append)
  next
    case skipped
    with that [of s] look show thesis by (simp add: stream_ok_def)
  next
    case (sent_all r' full)
    let ?s = "s\<lparr>sm_lagging := False, sm_ended := is_ended f\<rparr>"
    from try_sends_effect(1) [OF sent_all(5)] obtain k where
      out: "rl_out r' = rl_out (put_stream r ?s) @ map (\<lambda>f. (sm_owner s, i, f)) (take k (device_frames f))" and
      whole: "\<not> full \<and> open_conn (put_stream r ?s) (sm_owner s) \<longrightarrow> take k (device_frames f) = device_frames f" by blast
    have "sent (put_stream r ?s) i = sent r i" by (simp add: sent_def)
    with sent_append [OF out] have sent: "sent r' i = sent r i @ take k (device_frames f)" by simp
    have "stream_ok (sent r' i) (open_conn r (sm_owner s)) (fs @ [f]) ?s"
    proof (cases "open_conn r (sm_owner s) \<and> \<not> is_ended f")
      case True
      then have all: "take k (device_frames f) = device_frames f" using whole sent_all(3) by (simp add: open_conn_def)
      have "draw f (screen (sent r i)) = draw f (screen fs)"
      proof (cases "sm_lagging s")
        case True
        then show ?thesis using sent_all(4) \<open>open_conn r (sm_owner s) \<and> \<not> is_ended f\<close> draw_snapshot by blast
      next
        case False
        then show ?thesis using ok True sent_all(1,2) by (simp add: stream_ok_def)
      qed
      then show ?thesis using sent_all(2) sent all by (simp add: stream_ok_def screen_append fold_draw_device_frames)
    qed (auto simp: stream_ok_def)
    moreover have "rl_streams r' = tbl_put sm_id ?s (rl_streams r)" using try_sends_effect(2) [OF sent_all(5)] by simp
    ultimately show thesis using that [of ?s] sent_all(1,6) i by (simp add: tbl_lookup_put)
  next
    case (partial r')
    let ?s = "s\<lparr>sm_lagging := True, sm_ended := False\<rparr>"
    have "rl_streams (push r i f) = tbl_put sm_id ?s (rl_streams r)"
      using try_sends_effect(2) [OF partial(4)] partial(5) by (simp add: tbl_put_put)
    with that [of ?s] partial(1,2,3) i show thesis by (simp add: tbl_lookup_put stream_ok_def)
  qed
qed

lemma push_open_conn: "open_conn (push r i f) = open_conn r"
  using push_elsewhere [of i r f] by (simp add: elsewhere_def)

lemma push_sent_other: "j \<noteq> i \<Longrightarrow> sent (push r i f) j = sent r j"
  using push_elsewhere [of i r f] by (simp add: elsewhere_def)

lemma push_next_id: "rl_next_id (push r i f) = rl_next_id r"
  using push_elsewhere [of i r f] by (simp add: elsewhere_def)

lemma push_channels: "rl_channels (push r i f) = rl_channels r"
  using push_elsewhere [of i r f] by (simp add: elsewhere_def)

lemmas push_keeps = push_open_conn push_sent_other push_next_id push_channels push_lookup_other

lemma push_ended_stream:
  "tbl_lookup sm_id i (rl_streams r) = Some s \<Longrightarrow> sm_ended s \<Longrightarrow> push r i f = r"
  by (simp add: push_def)

lemma fold_push_ended_stream:
  "tbl_lookup sm_id i (rl_streams r) = Some s \<Longrightarrow> sm_ended s \<Longrightarrow> fold (\<lambda>f r. push r i f) fs r = r"
  by (induction fs) (simp_all add: push_ended_stream)

lemma fold_push_ok:
  assumes "tbl_lookup sm_id i (rl_streams r) = Some s" "stream_ok (sent r i) (open_conn r (sm_owner s)) pre s"
  shows "\<exists>s'. tbl_lookup sm_id i (rl_streams (fold (\<lambda>f r. push r i f) fs r)) = Some s' \<and> ident s' = ident s
     \<and> stream_ok (sent (fold (\<lambda>f r. push r i f) fs r) i) (open_conn r (sm_owner s)) (pre @ fs) s'"
  using assms
proof (induction fs arbitrary: r s pre)
  case (Cons f fs)
  from push_ok [OF Cons.prems, of f] obtain s' where
    s': "tbl_lookup sm_id i (rl_streams (push r i f)) = Some s'" "ident s' = ident s"
      "stream_ok (sent (push r i f) i) (open_conn r (sm_owner s)) (pre @ [f]) s'" by blast
  have "sm_owner s' = sm_owner s" using s'(2) by (simp add: ident_def)
  with Cons.IH [OF s'(1), of "pre @ [f]"] s'(2,3) show ?case by (simp add: push_open_conn)
qed auto

lemma fold_push_keeps:
  "open_conn (fold (\<lambda>f r. push r i f) fs r) = open_conn r"
  "j \<noteq> i \<Longrightarrow> sent (fold (\<lambda>f r. push r i f) fs r) j = sent r j"
  "rl_next_id (fold (\<lambda>f r. push r i f) fs r) = rl_next_id r"
  "j \<noteq> i \<Longrightarrow> tbl_lookup sm_id j (rl_streams (fold (\<lambda>f r. push r i f) fs r)) = tbl_lookup sm_id j (rl_streams r)"
  by (induction fs arbitrary: r) (simp_all add: push_keeps)

text \<open>Letting the held back frames go leaves the device where the source is.\<close>

lemma stream_replay:
  assumes look: "tbl_lookup sm_id i (rl_streams r) = Some s"
    and ok: "stream_ok (sent r i) (open_conn r (sm_owner s)) fs s" and buf: "sm_opening s = Some buf"
    and r': "r' = put_stream r (s\<lparr>sm_opening := None\<rparr>)"
  shows "\<exists>s'. tbl_lookup sm_id i (rl_streams (fold (\<lambda>f r. push r i f) buf r')) = Some s' \<and> ident s' = ident s
     \<and> stream_ok (sent (fold (\<lambda>f r. push r i f) buf r') i) (open_conn r (sm_owner s)) fs s'"
proof -
  let ?s = "s\<lparr>sm_opening := None\<rparr>"
  have now: "tbl_lookup sm_id i (rl_streams r') = Some ?s"
    using tbl_lookup_SomeD [OF look] by (simp add: r' tbl_lookup_put)
  have same: "sent r' i = sent r i" "open_conn r' = open_conn r" by (simp_all add: r' sent_def open_conn_def fun_eq_iff)
  consider "\<not> (open_conn r (sm_owner s) \<and> \<not> sm_ended s)" | "buf \<noteq> []" "is_ended (hd buf)"
    | pre where "fs = pre @ buf" "\<not> sm_lagging s \<longrightarrow> screen (sent r i) = screen pre"
    using ok buf by (auto simp: stream_ok_def)
  then show ?thesis
  proof cases
    case 1
    then have idle: "stream_ok (sent r' i) (open_conn r' (sm_owner ?s)) [] ?s" by (auto simp: stream_ok_def same)
    show ?thesis
    proof (cases "sm_ended s")
      case True
      then show ?thesis using now fold_push_ended_stream [OF now] by (simp add: stream_ok_def ident_def)
    next
      case False
      then show ?thesis using fold_push_ok [OF now idle, of buf] 1 by (auto simp: stream_ok_def ident_def)
    qed
  next
    case 2
    then obtain f fs' where split: "buf = f # fs'" "is_ended f" by (cases buf) auto
    have "stream_ok (sent r' i) (open_conn r' (sm_owner ?s)) (sent r' i) ?s" by (simp add: stream_ok_def)
    from push_ok [OF now this, of f] obtain s' where
      s': "tbl_lookup sm_id i (rl_streams (push r' i f)) = Some s'" "ident s' = ident ?s"
        "is_ended f \<and> sm_opening ?s = None \<longrightarrow> sm_ended s'" by blast
    then have "sm_ended s'" using split(2) by simp
    then show ?thesis
      using fold_push_ended_stream [OF s'(1)] s'(1,2) by (simp add: split(1) stream_ok_def)
  next
    case (3 pre)
    then have "stream_ok (sent r' i) (open_conn r' (sm_owner ?s)) pre ?s" by (auto simp: stream_ok_def same)
    from fold_push_ok [OF now this, of buf] 3(1) show ?thesis by (simp add: same)
  qed
qed

section \<open>Runs of the relay\<close>

text \<open>
  Everything that happens to the relay: the calls of the source connections and of the device
  connections, a device connection that drains its queue, and one that hangs up.
\<close>

datatype RelayOp =
  OpAttach string
  | OpDetach string u64
  | OpOpen u64 string string
  | OpInput u64 u64 TerminalInput
  | OpAnswer Pending Waited
  | OpActivate u64
  | OpAbandon u64
  | OpClose u64 u64
  | OpRelease u64
  | OpDeliver string u64 RelayMessage
  | OpDrain u64 nat
  | OpHangUp u64

fun Relay_step :: "RelayOp \<Rightarrow> Relay \<Rightarrow> Relay" where
  "Relay_step (OpAttach source) r = fst (Relay_attach r source)"
| "Relay_step (OpDetach source i) r = Relay_detach r source i"
| "Relay_step (OpOpen owner source invocation_id) r = fst (Relay_open r owner source invocation_id)"
| "Relay_step (OpInput owner stream_id input) r = fst (Relay_input r owner stream_id input)"
| "Relay_step (OpAnswer pending waited) r = fst (Relay_answer r pending waited)"
| "Relay_step (OpActivate stream_id) r = Relay_activate r stream_id"
| "Relay_step (OpAbandon stream_id) r = Relay_abandon r stream_id"
| "Relay_step (OpClose owner stream_id) r = fst (Relay_close r owner stream_id)"
| "Relay_step (OpRelease owner) r = release_owner r owner"
| "Relay_step (OpDeliver source i message) r = Relay_deliver r source i message"
| "Relay_step (OpDrain owner k) r = r\<lparr>rl_room := (rl_room r)(owner := map_option (\<lambda>n. n + k) (rl_room r owner))\<rparr>"
| "Relay_step (OpHangUp owner) r = r\<lparr>rl_room := (rl_room r)(owner := None)\<rparr>"

text \<open>The frames a source has sent on a stream it serves.\<close>

fun fed_step :: "Relay \<Rightarrow> RelayOp \<Rightarrow> (u64 \<Rightarrow> TerminalFrame list) \<Rightarrow> u64 \<Rightarrow> TerminalFrame list" where
  "fed_step r (OpDeliver source i (RelayFrame stream frame)) fed =
     (if is_some_and (\<lambda>known. sm_channel known = i) (tbl_lookup sm_id stream (rl_streams r))
      then fed(stream := fed stream @ [frame]) else fed)"
| "fed_step r _ fed = fed"

fun relay_run :: "RelayOp list \<Rightarrow> Relay \<times> (u64 \<Rightarrow> TerminalFrame list) \<Rightarrow> Relay \<times> (u64 \<Rightarrow> TerminalFrame list)" where
  "relay_run [] w = w"
| "relay_run (a # as) (r, fed) = relay_run as (Relay_step a r, fed_step r a fed)"

definition relay_ok :: "Relay \<Rightarrow> (u64 \<Rightarrow> TerminalFrame list) \<Rightarrow> bool" where
  "relay_ok r fed \<longleftrightarrow>
     (\<forall>i s. tbl_lookup sm_id i (rl_streams r) = Some s \<longrightarrow>
        stream_ok (sent r i) (open_conn r (sm_owner s)) (fed i) s \<and> i \<le> rl_next_id r)
     \<and> (\<forall>i. rl_next_id r < i \<longrightarrow> fed i = [] \<and> sent r i = [])"

lemma relay_ok_fewer:
  assumes "relay_ok r fed"
    and "\<And>i s. tbl_lookup sm_id i (rl_streams r') = Some s \<Longrightarrow>
      tbl_lookup sm_id i (rl_streams r) = Some s \<and> sent r' i = sent r i"
    and "\<And>owner. open_conn r' owner \<Longrightarrow> open_conn r owner" "rl_next_id r \<le> rl_next_id r'"
    and "\<And>i. rl_next_id r < i \<Longrightarrow> sent r' i = sent r i"
  shows "relay_ok r' fed"
  unfolding relay_ok_def
proof (intro conjI allI impI)
  fix i s assume s: "tbl_lookup sm_id i (rl_streams r') = Some s"
  from assms(2) [OF s] assms(1) have "stream_ok (sent r' i) (open_conn r (sm_owner s)) (fed i) s" "i \<le> rl_next_id r"
    by (auto simp: relay_ok_def)
  with assms(3,4) show "stream_ok (sent r' i) (open_conn r' (sm_owner s)) (fed i) s" "i \<le> rl_next_id r'"
    by (auto simp: stream_ok_def)
next
  fix i assume "rl_next_id r' < i"
  with assms(4) have "rl_next_id r < i" by simp
  with assms(1,5) show "fed i = []" "sent r' i = []" by (auto simp: relay_ok_def)
qed

lemma relay_ok_push:
  assumes "relay_ok r fed" and look: "tbl_lookup sm_id i (rl_streams r) = Some s"
    and "fed' = fed(i := fed i @ [f]) \<or> (is_ended f \<and> fed' = fed)"
  shows "relay_ok (push r i f) fed'"
proof -
  have ok: "stream_ok (sent r i) (open_conn r (sm_owner s)) (fed i) s" and i: "i \<le> rl_next_id r"
    using assms(1,2) by (auto simp: relay_ok_def)
  obtain s' where
    s': "tbl_lookup sm_id i (rl_streams (push r i f)) = Some s'" "ident s' = ident s"
      "stream_ok (sent (push r i f) i) (open_conn r (sm_owner s)) (fed i @ [f]) s'"
      "is_ended f \<longrightarrow> sm_ended s' \<or> (\<exists>buf. sm_opening s' = Some buf \<and> buf \<noteq> [] \<and> is_ended (hd buf))"
      "sm_ended s \<or> (is_ended f \<and> sm_opening s = None) \<longrightarrow> sm_ended s'"
    using push_ok [OF look ok, of f] by blast
  have at: "stream_ok (sent (push r i f) i) (open_conn (push r i f) (sm_owner s')) (fed' i) s'"
  proof (cases "is_ended f")
    case True
    with s'(4) show ?thesis by (auto simp: stream_ok_def)
  next
    case False
    with assms(3) have "fed' i = fed i @ [f]" by simp
    with s'(2,3) show ?thesis by (simp add: push_open_conn ident_def)
  qed
  show ?thesis
    unfolding relay_ok_def
  proof (intro conjI allI impI)
    fix j t assume t: "tbl_lookup sm_id j (rl_streams (push r i f)) = Some t"
    have "stream_ok (sent (push r i f) j) (open_conn (push r i f) (sm_owner t)) (fed' j) t \<and> j \<le> rl_next_id r"
    proof (cases "j = i")
      case True
      with t s'(1) at i show ?thesis by simp
    next
      case False
      then have "fed' j = fed j" "tbl_lookup sm_id j (rl_streams r) = Some t"
        using assms(3) t by (auto simp: push_keeps)
      with assms(1) False show ?thesis by (simp add: push_keeps relay_ok_def)
    qed
    then show "stream_ok (sent (push r i f) j) (open_conn (push r i f) (sm_owner t)) (fed' j) t"
      "j \<le> rl_next_id (push r i f)" by (simp_all add: push_keeps)
  next
    fix j assume "rl_next_id (push r i f) < j"
    then have j: "rl_next_id r < j" by (simp add: push_keeps)
    with i have "j \<noteq> i" by auto
    then show "fed' j = []" "sent (push r i f) j = []" using assms(1,3) j by (auto simp: push_keeps relay_ok_def)
  qed
qed

lemma relay_ok_end:
  assumes "relay_ok r fed" "is_ended f"
  shows "relay_ok (push r i f) fed"
proof (cases "tbl_lookup sm_id i (rl_streams r)")
  case (Some s)
  then show ?thesis using relay_ok_push [OF assms(1) Some] assms(2) by blast
qed (use assms in \<open>simp add: push_unknown\<close>)

lemma relay_ok_end_channel: "relay_ok r fed \<Longrightarrow> relay_ok (end_channel r i reason) fed"
proof -
  assume "relay_ok r fed"
  then have "relay_ok (fold (\<lambda>stream_id r. push r stream_id (FrameEnded reason)) ids r) fed" for ids
    by (induction ids arbitrary: r) (simp_all add: relay_ok_end)
  then show ?thesis by (simp add: end_channel_def)
qed

lemma remove_stream_simps [simp]:
  "rl_out (remove_stream r i) = rl_out r" "rl_room (remove_stream r i) = rl_room r"
  "rl_next_id (remove_stream r i) = rl_next_id r" "rl_channels (remove_stream r i) = rl_channels r"
  "tbl_lookup sm_id j (rl_streams (remove_stream r i)) =
     (if j = i then None else tbl_lookup sm_id j (rl_streams r))"
  by (simp_all add: remove_stream_def tbl_lookup_delete split: option.split)

lemma relay_ok_remove: "relay_ok r fed \<Longrightarrow> relay_ok (remove_stream r i) fed"
  by (erule relay_ok_fewer) (auto simp: sent_def open_conn_def split: if_splits)

lemma relay_ok_release: "relay_ok r fed \<Longrightarrow> relay_ok (release_owner r owner) fed"
proof -
  assume "relay_ok r fed"
  then have "relay_ok (fold (\<lambda>stream_id r. remove_stream r stream_id) ids r) fed" for ids
    by (induction ids arbitrary: r) (simp_all add: relay_ok_remove)
  then show ?thesis by (simp add: release_owner_def)
qed

text \<open>A stream that is only known by what is sent on other streams.\<close>

lemma relay_ok_activate:
  assumes "relay_ok r fed"
  shows "relay_ok (Relay_activate r i) fed"
proof (cases "tbl_lookup sm_id i (rl_streams r)")
  case None
  with assms show ?thesis by (simp add: Relay_activate_def)
next
  case look: (Some s)
  show ?thesis
  proof (cases "sm_opening s")
    case None
    with look assms show ?thesis by (simp add: Relay_activate_def)
  next
    case (Some buf)
    let ?s = "s\<lparr>sm_opening := None\<rparr>" and ?r = "put_stream r (s\<lparr>sm_opening := None\<rparr>)"
    let ?e = "fold (\<lambda>f r. push r i f) buf ?r"
    have i: "sm_id s = i" "i \<le> rl_next_id r" using tbl_lookup_SomeD [OF look] assms look by (auto simp: relay_ok_def)
    have now: "tbl_lookup sm_id i (rl_streams ?r) = Some ?s" using i by (simp add: tbl_lookup_put)
    have same: "sent ?r j = sent r j" "open_conn ?r = open_conn r" for j by (simp_all add: sent_def open_conn_def fun_eq_iff)
    have "\<exists>s'. tbl_lookup sm_id i (rl_streams ?e) = Some s' \<and> ident s' = ident s
        \<and> stream_ok (sent ?e i) (open_conn r (sm_owner s)) (fed i) s'"
      by (rule stream_replay [OF look _ Some]) (use assms look in \<open>auto simp: relay_ok_def\<close>)
    then obtain s' where s': "tbl_lookup sm_id i (rl_streams ?e) = Some s'" "ident s' = ident s"
      "stream_ok (sent ?e i) (open_conn r (sm_owner s)) (fed i) s'" by blast
    have "Relay_activate r i = ?e" using look Some by (simp add: Relay_activate_def)
    moreover have "relay_ok ?e fed"
      unfolding relay_ok_def
    proof (intro conjI allI impI)
      fix j t assume t: "tbl_lookup sm_id j (rl_streams ?e) = Some t"
      have "stream_ok (sent ?e j) (open_conn ?e (sm_owner t)) (fed j) t \<and> j \<le> rl_next_id ?e"
      proof (cases "j = i")
        case True
        then show ?thesis using t s' i by (auto simp: fold_push_keeps(1,3) same ident_def)
      next
        case False
        then have "tbl_lookup sm_id j (rl_streams r) = Some t" using t i by (simp add: fold_push_keeps tbl_lookup_put)
        then show ?thesis using assms False by (auto simp: fold_push_keeps same relay_ok_def)
      qed
      then show "stream_ok (sent ?e j) (open_conn ?e (sm_owner t)) (fed j) t" "j \<le> rl_next_id ?e" by auto
    next
      fix j assume "rl_next_id ?e < j"
      then have j: "rl_next_id r < j" by (simp add: fold_push_keeps)
      then have "j \<noteq> i" using i by auto
      then show "fed j = []" "sent ?e j = []" using assms j by (auto simp: fold_push_keeps same relay_ok_def)
    qed
    ultimately show ?thesis by simp
  qed
qed

lemma Relay_close_effect:
  assumes "tbl_lookup sm_id i (rl_streams r) = Some s" "sm_owner s = owner"
  shows "tbl_lookup sm_id j (rl_streams (fst (Relay_close r owner i))) =
      (if j = i then None else tbl_lookup sm_id j (rl_streams r))"
    and "j \<noteq> i \<Longrightarrow> sent (fst (Relay_close r owner i)) j = sent r j"
    and "open_conn (fst (Relay_close r owner i)) = open_conn r"
    and "rl_next_id (fst (Relay_close r owner i)) = rl_next_id r"
proof -
  let ?r = "put_stream r (s\<lparr>sm_opening := None, sm_lagging := False\<rparr>)"
  have close: "fst (Relay_close r owner i) = remove_stream (push ?r i (FrameEnded Closed)) i"
    using assms by (simp add: Relay_close_def Let_def)
  have i: "sm_id s = i" using tbl_lookup_SomeD [OF assms(1)] by simp
  show "tbl_lookup sm_id j (rl_streams (fst (Relay_close r owner i))) =
      (if j = i then None else tbl_lookup sm_id j (rl_streams r))"
    by (simp add: close push_keeps tbl_lookup_put i)
  have room: "open_conn (remove_stream q i) = open_conn q" for q by (simp add: open_conn_def fun_eq_iff)
  have out: "sent (remove_stream q i) j = sent q j" for q by (simp add: sent_def)
  have "sent ?r j = sent r j" "open_conn ?r = open_conn r" by (simp_all add: sent_def open_conn_def fun_eq_iff)
  then show "j \<noteq> i \<Longrightarrow> sent (fst (Relay_close r owner i)) j = sent r j"
    "open_conn (fst (Relay_close r owner i)) = open_conn r"
    "rl_next_id (fst (Relay_close r owner i)) = rl_next_id r"
    by (simp_all add: close room out push_keeps)
qed

lemma Relay_close_refused:
  "\<not> is_some_and (\<lambda>s. sm_owner s = owner) (tbl_lookup sm_id i (rl_streams r)) \<Longrightarrow> fst (Relay_close r owner i) = r"
  by (auto simp: Relay_close_def is_some_and_iff split: option.split)

lemma relay_ok_close:
  assumes "relay_ok r fed"
  shows "relay_ok (fst (Relay_close r owner i)) fed"
proof (cases "is_some_and (\<lambda>s. sm_owner s = owner) (tbl_lookup sm_id i (rl_streams r))")
  case True
  then obtain s where s: "tbl_lookup sm_id i (rl_streams r) = Some s" "sm_owner s = owner"
    by (auto simp: is_some_and_iff)
  have "i \<le> rl_next_id r" using assms s by (auto simp: relay_ok_def)
  then show ?thesis
    by (intro relay_ok_fewer [OF assms])
      (auto simp: Relay_close_effect [OF s] split: if_splits)
qed (use assms in \<open>simp add: Relay_close_refused\<close>)

lemma put_channel_simps [simp]:
  "rl_streams (put_channel r c) = rl_streams r" "rl_out (put_channel r c) = rl_out r"
  "rl_next_id (put_channel r c) = rl_next_id r" "rl_room (put_channel r c) = rl_room r"
  "rl_requests (put_channel r c) = rl_requests r" "rl_answers (put_channel r c) = rl_answers r"
  by (simp_all add: put_channel_def)

lemma relay_ok_same:
  assumes "relay_ok r fed" "rl_streams r' = rl_streams r" "rl_out r' = rl_out r"
    "\<And>owner. open_conn r' owner \<Longrightarrow> open_conn r owner" "rl_next_id r \<le> rl_next_id r'"
  shows "relay_ok r' fed"
  by (rule relay_ok_fewer [OF assms(1)]) (use assms in \<open>auto simp: sent_def\<close>)

lemma word_succ_le: "unat (n :: u64) + 1 < 2 ^ 64 \<Longrightarrow> n < n + 1 \<and> unat (n + 1) = unat n + 1"
  by (simp add: word_less_nat_alt unat_word_ariths)

lemma relay_ok_next:
  assumes "relay_ok r fed" "unat (rl_next_id r) + 1 < 2 ^ 64"
  shows "relay_ok (fst (State_next r)) fed"
  using word_succ_le [OF assms(2)]
  by (intro relay_ok_same [OF assms(1)]) (auto simp: State_next_def open_conn_def)

lemma relay_ok_answer_request: "relay_ok r fed \<Longrightarrow> relay_ok (answer_request r source i req answer) fed"
  by (erule relay_ok_same) (auto simp: answer_request_def open_conn_def split: option.splits if_splits)

lemma relay_ok_deliver:
  assumes "relay_ok r fed"
  shows "relay_ok (Relay_deliver r source i m) (fed_step r (OpDeliver source i m) fed)"
proof (cases m)
  case (RelayFrame j f)
  show ?thesis
  proof (cases "is_some_and (\<lambda>known. sm_channel known = i) (tbl_lookup sm_id j (rl_streams r))")
    case True
    then obtain s where "tbl_lookup sm_id j (rl_streams r) = Some s" by (auto simp: is_some_and_iff)
    from relay_ok_push [OF assms this, of _ f] True RelayFrame show ?thesis by simp
  qed (use assms RelayFrame in simp)
qed (use assms in \<open>simp_all add: relay_ok_answer_request\<close>)

lemma relay_ok_input:
  assumes "relay_ok r fed" "unat (rl_next_id r) + 1 < 2 ^ 64"
  shows "relay_ok (fst (Relay_input r owner i x)) fed"
  by (rule relay_ok_same [OF relay_ok_next [OF assms]])
    (auto simp: Relay_input_def State_next_def open_conn_def Let_def split: option.splits if_splits)

lemma relay_ok_attach:
  assumes "relay_ok r fed" "unat (rl_next_id r) + 1 < 2 ^ 64"
  shows "relay_ok (fst (Relay_attach r source)) fed"
proof -
  have "relay_ok (put_channel (fst (State_next r)) c) fed" for c
    by (rule relay_ok_same [OF relay_ok_next [OF assms]]) (auto simp: open_conn_def)
  then show ?thesis
    by (auto simp: Relay_attach_def State_next_def Let_def relay_ok_end_channel split: option.splits)
qed

lemma relay_ok_detach: "relay_ok r fed \<Longrightarrow> relay_ok (Relay_detach r source i) fed"
  unfolding Relay_detach_def by (intro relay_ok_end_channel, erule relay_ok_same) (auto simp: open_conn_def split: if_splits)

lemma relay_ok_answer: "relay_ok r fed \<Longrightarrow> relay_ok (fst (Relay_answer r pending waited)) fed"
  by (erule relay_ok_same) (auto simp: Relay_answer_def open_conn_def split: Waited.splits option.splits)

lemma relay_ok_open:
  assumes "relay_ok r fed" "unat (rl_next_id r) + 2 < 2 ^ 64"
  shows "relay_ok (fst (Relay_open r owner source inv_id)) fed"
proof -
  let ?i = "rl_next_id r + 1"
  have succ: "rl_next_id r < ?i" "?i < ?i + 1" using assms(2) word_succ_le [of "rl_next_id r"] word_succ_le [of ?i] by auto
  have two: "relay_ok (r\<lparr>rl_next_id := ?i + 1\<rparr>) fed"
    by (rule relay_ok_same [OF assms(1)]) (use succ in \<open>auto simp: open_conn_def\<close>)
  show ?thesis
  proof (cases "tbl_lookup ch_source source (rl_channels r)")
    case None
    with two show ?thesis by (simp add: Relay_open_def State_next_def)
  next
    case (Some c)
    let ?r = "fst (Relay_open r owner source inv_id)"
    have fresh: "fed ?i = []" "sent r ?i = []" using assms(1) succ by (auto simp: relay_ok_def)
    have r: "rl_out ?r = rl_out r" "rl_room ?r = rl_room r" "rl_next_id ?r = ?i + 1"
      "rl_streams ?r = tbl_put sm_id \<lparr>sm_id = ?i, sm_source = source, sm_channel = ch_id c,
         sm_owner = owner, sm_opening = Some [], sm_lagging = False, sm_ended = False\<rparr> (rl_streams r)"
      using Some by (simp_all add: Relay_open_def State_next_def Let_def)
    have same: "sent ?r j = sent r j" "open_conn ?r = open_conn r" for j by (simp_all add: sent_def open_conn_def fun_eq_iff r)
    show ?thesis
      using assms(1) two succ fresh unfolding relay_ok_def
      by (auto simp: same r tbl_lookup_put stream_ok_def split: if_splits)
  qed
qed

lemma relay_ok_step:
  assumes "relay_ok r fed" "unat (rl_next_id r) + 2 < 2 ^ 64"
  shows "relay_ok (Relay_step a r) (fed_step r a fed)"
proof (cases a)
  case (OpDrain owner k)
  then show ?thesis by (auto intro!: relay_ok_same [OF assms(1)] simp: open_conn_def split: if_splits)
next
  case (OpHangUp owner)
  then show ?thesis by (auto intro!: relay_ok_same [OF assms(1)] simp: open_conn_def split: if_splits)
next
  case (OpDeliver source i m)
  then show ?thesis using relay_ok_deliver [OF assms(1), of source i m] by simp
qed (use assms in \<open>simp_all add: relay_ok_attach relay_ok_detach relay_ok_open relay_ok_input
  relay_ok_answer relay_ok_activate relay_ok_remove Relay_abandon_def relay_ok_close relay_ok_release\<close>)

section \<open>Identifiers\<close>

lemma fold_end_next_id: "rl_next_id (fold (\<lambda>i r. push r i f) ids r) = rl_next_id r"
  by (induction ids arbitrary: r) (simp_all add: push_keeps)

lemma fold_remove_next_id: "rl_next_id (fold (\<lambda>i r. remove_stream r i) ids r) = rl_next_id r"
  by (induction ids arbitrary: r) simp_all

lemma Relay_close_next_id: "rl_next_id (fst (Relay_close r owner i)) = rl_next_id r"
proof (cases "is_some_and (\<lambda>s. sm_owner s = owner) (tbl_lookup sm_id i (rl_streams r))")
  case True
  then show ?thesis using Relay_close_effect(4) by (auto simp: is_some_and_iff)
qed (simp add: Relay_close_refused)

lemma step_next_id:
  "rl_next_id (Relay_step a r) = rl_next_id r \<or> rl_next_id (Relay_step a r) = rl_next_id r + 1
   \<or> rl_next_id (Relay_step a r) = rl_next_id r + 2"
proof (cases a)
  case (OpDeliver source i m)
  then show ?thesis
    by (cases m) (auto simp: push_keeps answer_request_def split: option.split)
qed (simp_all add: Relay_attach_def Relay_detach_def Relay_open_def Relay_input_def Relay_answer_def
      Relay_activate_def Relay_abandon_def release_owner_def end_channel_def State_next_def Let_def
      fold_end_next_id fold_remove_next_id fold_push_keeps Relay_close_next_id
    split: option.split Waited.split)

lemma step_next_id_unat: "unat (rl_next_id (Relay_step a r)) \<le> unat (rl_next_id r) + 2"
proof -
  have "unat (n + k) \<le> unat n + unat k" for n k :: u64 by (simp add: unat_word_ariths)
  from this [of "rl_next_id r" 1] this [of "rl_next_id r" 2] step_next_id [of a r] show ?thesis by auto
qed

lemma relay_ok_run:
  assumes "relay_ok r fed" "unat (rl_next_id r) + 2 * length as < 2 ^ 64" "relay_run as (r, fed) = (r', fed')"
  shows "relay_ok r' fed'"
  using assms
proof (induction as arbitrary: r fed)
  case (Cons a as)
  have "unat (rl_next_id (Relay_step a r)) + 2 * length as < 2 ^ 64"
    using Cons.prems(2) step_next_id_unat [of a r] by simp
  with Cons.IH [OF relay_ok_step [OF Cons.prems(1)]] Cons.prems(2,3) show ?case by simp
qed simp

section \<open>The promises\<close>

text \<open>
  (C5) Whatever happens in the hub: as long as a device keeps up, it sees what the source shows.
  For every sequence of calls, drained queues and lost connections that does not exhaust the 64-bit
  identifiers, a stream that has been activated, has not ended, is not marked as lagging and whose
  connection is up has been sent frames that draw exactly the screen the source's frames draw,
  whatever was held back while the stream was opening, skipped after a full queue, or split into
  chunks on the way.
\<close>

theorem device_shows_source:
  assumes "relay_run ops (Relay_new room, \<lambda>_. []) = (r, fed)" "2 * length ops < 2 ^ 64"
    and "tbl_lookup sm_id i (rl_streams r) = Some s" "sm_opening s = None" "\<not> sm_lagging s" "\<not> sm_ended s"
    and "rl_room r (sm_owner s) \<noteq> None"
  shows "screen (sent r i) = screen (fed i)"
proof -
  have "relay_ok (Relay_new room) (\<lambda>_. [])" by (simp add: relay_ok_def Relay_new_def sent_def)
  from relay_ok_run [OF this _ assms(1)] assms(2) have "relay_ok r fed" by (simp add: Relay_new_def)
  with assms(3) have "stream_ok (sent r i) (open_conn r (sm_owner s)) (fed i) s" by (simp add: relay_ok_def)
  with assms(4-7) show ?thesis by (simp add: stream_ok_def open_conn_def)
qed

definition sample_relay_ops :: "RelayOp list" where
  "sample_relay_ops =
     [OpAttach ''host'', OpOpen 7 ''host'' ''inv-1'',
      OpDeliver ''host'' 1 (RelayOpened 3 2),
      OpDeliver ''host'' 1 (RelayFrame 2 (FrameOutput 1 [104])),
      OpActivate 2,
      OpDeliver ''host'' 1 (RelayFrame 2 (FrameOutput 2 [105])),
      OpDeliver ''host'' 1 (RelayFrame 2 (FrameOutput 3 [106])),
      OpDrain 7 2,
      OpDeliver ''host'' 1 (RelayFrame 2 (FrameSnapshot 4 80 24 \<lparr>cur_x = 0, cur_y = 0, cur_visible = True\<rparr>
         False [104, 105, 106] (from_guard None)))]"

definition sample_relay_run :: "Relay \<times> (u64 \<Rightarrow> TerminalFrame list)" where
  "sample_relay_run = relay_run sample_relay_ops (Relay_new (\<lambda>_. Some 2), \<lambda>_. [])"

lemmas relay_eval = Relay_new_def Relay_attach_def Relay_open_def Relay_activate_def State_next_def the_channel_def
  channel_of_def State_send_def put_stream_def put_channel_def try_send_def resync_def push_def answer_request_def
  MAX_OUTPUT_CHUNK_def OPENING_BUFFER_def sent_def

lemma sample_relay_result:
  "rl_streams (fst sample_relay_run) = [\<lparr>sm_id = 2, sm_source = ''host'', sm_channel = 1,
     sm_owner = 7, sm_opening = None, sm_lagging = False, sm_ended = False\<rparr>]"
  "rl_room (fst sample_relay_run) 7 = Some 1"
  "rl_requests (fst sample_relay_run) = [(1, RelayOpen 3 2 ''inv-1''), (1, RelayResync 2)]"
  "length (sent (fst sample_relay_run) 2) = 3" "length (snd sample_relay_run 2) = 4"
  by (simp_all add: sample_relay_run_def sample_relay_ops_def relay_eval)

theorem device_shows_source_witness:
  "screen (sent (fst sample_relay_run) 2) = screen (snd sample_relay_run 2)
   \<and> length (sent (fst sample_relay_run) 2) = 3 \<and> length (snd sample_relay_run 2) = 4
   \<and> rl_requests (fst sample_relay_run) = [(1, RelayOpen 3 2 ''inv-1''), (1, RelayResync 2)]"
  using device_shows_source [of sample_relay_ops "\<lambda>_. Some 2" "fst sample_relay_run" "snd sample_relay_run" 2
    "\<lparr>sm_id = 2, sm_source = ''host'', sm_channel = 1,
     sm_owner = 7, sm_opening = None, sm_lagging = False, sm_ended = False\<rparr>"]
  by (simp add: sample_relay_result sample_relay_run_def [symmetric]) (simp add: sample_relay_ops_def)

end
