(* ===== verification/Hub_Relay_Isolation.thy ===== *)
theory Hub_Relay_Isolation
  imports Hub_Relay_Props
begin

text \<open>
  The relay keeps the devices apart: what an operation may put into which queue, and what it leaves
  of the streams of other connections.
\<close>

section \<open>Devices apart\<close>

fun request_stream :: "RelayRequest \<Rightarrow> u64" where
  "request_stream (RelayOpen _ stream _) = stream"
| "request_stream (RelayInput _ stream _) = stream"
| "request_stream (RelayClose stream) = stream"
| "request_stream (RelayResync stream) = stream"

definition requested :: "Relay \<Rightarrow> u64 \<Rightarrow> (u64 \<times> RelayRequest) list" where
  "requested r i = filter (\<lambda>(_, q). request_stream q = i) (rl_requests r)"

text \<open>The device connection that makes a call.\<close>

fun acts_for :: "RelayOp \<Rightarrow> u64 option" where
  "acts_for (OpOpen owner _ _) = Some owner"
| "acts_for (OpInput owner _ _) = Some owner"
| "acts_for (OpClose owner _) = Some owner"
| "acts_for (OpRelease owner) = Some owner"
| "acts_for _ = None"

text \<open>All that concerns a stream: its row, what was sent on it and what was asked of its source.\<close>

definition stream_view :: "Relay \<Rightarrow> u64 \<Rightarrow> Stream option \<times> TerminalFrame list \<times> (u64 \<times> RelayRequest) list" where
  "stream_view r i = (tbl_lookup sm_id i (rl_streams r), sent r i, requested r i)"

lemma State_send_view: "request_stream q \<noteq> i \<Longrightarrow> stream_view (State_send r s q) i = stream_view r i"
  by (simp add: stream_view_def sent_def) (simp add: State_send_def requested_def split: option.split)

lemma put_stream_view: "sm_id s \<noteq> i \<Longrightarrow> stream_view (put_stream r s) i = stream_view r i"
  by (simp add: stream_view_def sent_def requested_def tbl_lookup_put)

lemma remove_stream_view: "j \<noteq> i \<Longrightarrow> stream_view (remove_stream r j) i = stream_view r i"
  by (auto simp: remove_stream_def State_send_view split: option.split)
    (simp add: stream_view_def sent_def requested_def tbl_lookup_delete)

lemma push_view:
  assumes "j \<noteq> i"
  shows "stream_view (push r j f) i = stream_view r i"
proof (cases "tbl_lookup sm_id j (rl_streams r)")
  case (Some s)
  have j: "sm_id s = j" using tbl_lookup_SomeD [OF Some] by simp
  from Some have "requested (push r j f) i = requested r i"
  proof (cases rule: push_cases [where f = f])
    case (overflow buf)
    then show ?thesis
      using assms State_send_view [of "RelayResync j" i] by (simp add: stream_view_def) (simp add: requested_def)
  next
    case (sent_all r' full)
    with try_sends_effect(4) [OF sent_all(5)] show ?thesis by (simp add: requested_def)
  next
    case (partial r')
    with try_sends_effect(4) [OF partial(4)] assms State_send_view [of "RelayResync j" i]
    show ?thesis by (simp add: stream_view_def) (simp add: requested_def)
  qed (simp_all add: requested_def)
  with assms show ?thesis by (simp add: stream_view_def push_keeps)
qed (simp add: push_unknown)

lemma fold_remove_view:
  "i \<notin> set ids \<Longrightarrow> stream_view (fold (\<lambda>j r. remove_stream r j) ids r) i = stream_view r i"
  by (induction ids arbitrary: r) (auto simp: remove_stream_view)

lemma lookup_in_filter:
  assumes wf: "tbl_wf sm_id rows" and look: "tbl_lookup sm_id i rows = Some s"
  shows "i \<in> set (map sm_id (filter P rows)) \<longleftrightarrow> P s"
proof
  assume "i \<in> set (map sm_id (filter P rows))"
  then obtain t where t: "t \<in> set rows" "P t" "sm_id t = i" by auto
  with tbl_lookup_in [OF wf t(1)] look show "P s" by simp
next
  assume "P s"
  with tbl_lookup_SomeD [OF look] show "i \<in> set (map sm_id (filter P rows))" by auto
qed

text \<open>Stream identifiers stay distinct.\<close>

definition rows_ok :: "Relay \<Rightarrow> bool" where
  "rows_ok r \<longleftrightarrow> tbl_wf sm_id (rl_streams r)"

lemma rows_ok_push: "rows_ok r \<Longrightarrow> rows_ok (push r i f)"
proof (cases "tbl_lookup sm_id i (rl_streams r)")
  case (Some s)
  assume "rows_ok r"
  with push_streams [OF Some, of f] show ?thesis by (auto simp: rows_ok_def tbl_put_wf)
qed (simp add: push_unknown)

lemma rows_ok_remove: "rows_ok r \<Longrightarrow> rows_ok (remove_stream r i)"
  by (simp add: rows_ok_def remove_stream_def tbl_delete_wf split: option.split)

lemma rows_ok_fold_push:
  "rows_ok r \<Longrightarrow> rows_ok (fold (\<lambda>i r. push r i f) ids r)"
  "rows_ok r \<Longrightarrow> rows_ok (fold (\<lambda>f r. push r i f) fs r)"
  "rows_ok r \<Longrightarrow> rows_ok (fold (\<lambda>i r. remove_stream r i) ids r)"
proof -
  assume "rows_ok r"
  then show "rows_ok (fold (\<lambda>i r. push r i f) ids r)" by (induction ids arbitrary: r) (simp_all add: rows_ok_push)
next
  assume "rows_ok r"
  then show "rows_ok (fold (\<lambda>f r. push r i f) fs r)" by (induction fs arbitrary: r) (simp_all add: rows_ok_push)
next
  assume "rows_ok r"
  then show "rows_ok (fold (\<lambda>i r. remove_stream r i) ids r)" by (induction ids arbitrary: r) (simp_all add: rows_ok_remove)
qed

lemma rows_ok_same: "rl_streams r' = rl_streams r \<Longrightarrow> rows_ok r \<Longrightarrow> rows_ok r'"
  by (simp add: rows_ok_def)

lemma rows_ok_put: "rows_ok r \<Longrightarrow> rows_ok (put_stream r s)"
  by (simp add: rows_ok_def tbl_put_wf)

lemmas rows_ok_intros = rows_ok_fold_push rows_ok_put rows_ok_remove rows_ok_push

lemma rows_ok_step: "rows_ok r \<Longrightarrow> rows_ok (Relay_step a r)"
proof (cases a)
  case (OpDeliver source i m)
  assume "rows_ok r"
  with OpDeliver show ?thesis
    by (cases m) (auto simp: rows_ok_push answer_request_def split: option.split intro: rows_ok_same)
next
  case (OpAttach source)
  assume "rows_ok r"
  with OpAttach show ?thesis
    by (auto simp: Relay_attach_def State_next_def Let_def end_channel_def split: option.split
      intro!: rows_ok_fold_push(1) intro: rows_ok_same)
next
  case (OpDetach source i)
  assume "rows_ok r"
  with OpDetach show ?thesis
    by (auto simp: Relay_detach_def end_channel_def intro!: rows_ok_fold_push(1) intro: rows_ok_same)
next
  case (OpActivate i)
  assume "rows_ok r"
  with OpActivate show ?thesis
    by (auto simp: Relay_activate_def intro!: rows_ok_intros split: option.split)
next
  case (OpClose owner i)
  assume "rows_ok r"
  with OpClose show ?thesis
    by (auto simp: Relay_close_def Let_def intro!: rows_ok_intros split: option.split)
next
  case (OpOpen owner source inv_id)
  assume "rows_ok r"
  with OpOpen show ?thesis
    by (auto simp: Relay_open_def State_next_def Let_def rows_ok_def tbl_put_wf split: option.split)
next
  case (OpInput owner i x)
  assume "rows_ok r"
  with OpInput show ?thesis
    by (auto simp: Relay_input_def State_next_def Let_def rows_ok_def split: option.split)
next
  case (OpAnswer pending waited)
  assume "rows_ok r"
  with OpAnswer show ?thesis
    by (auto simp: Relay_answer_def rows_ok_def split: option.split Waited.split)
qed (simp_all add: Relay_abandon_def release_owner_def rows_ok_intros, simp_all add: rows_ok_def)

lemma rows_ok_run: "rows_ok (fst w) \<Longrightarrow> rows_ok (fst (relay_run as w))"
  by (induction as w rule: relay_run.induct) (simp_all add: rows_ok_step)

section \<open>What is queued\<close>

definition may_queue :: "Relay \<Rightarrow> u64 \<times> u64 \<times> TerminalFrame \<Rightarrow> bool" where
  "may_queue r = (\<lambda>(owner, i, f).
     is_some_and (\<lambda>s. sm_owner s = owner \<and> \<not> sm_ended s) (tbl_lookup sm_id i (rl_streams r)))"

definition streams_kept :: "Relay \<Rightarrow> Relay \<Rightarrow> bool" where
  "streams_kept r r' \<longleftrightarrow> (\<forall>i s'. tbl_lookup sm_id i (rl_streams r') = Some s' \<longrightarrow>
     (\<exists>s. tbl_lookup sm_id i (rl_streams r) = Some s \<and> sm_owner s' = sm_owner s \<and> (sm_ended s \<longrightarrow> sm_ended s')))"

definition queues :: "Relay \<Rightarrow> Relay \<Rightarrow> bool" where
  "queues r r' \<longleftrightarrow> (\<exists>new. rl_out r' = rl_out r @ new \<and> list_all (may_queue r) new)"

lemma queues_same: "rl_out r' = rl_out r \<Longrightarrow> queues r r'"
  by (simp add: queues_def)

lemma streams_kept_same: "rl_streams r' = rl_streams r \<Longrightarrow> streams_kept r r'"
  by (simp add: streams_kept_def)

lemma may_queue_kept: "streams_kept r r' \<Longrightarrow> may_queue r' x \<Longrightarrow> may_queue r x"
  by (cases x) (fastforce simp: may_queue_def streams_kept_def is_some_and_iff)

lemma queues_trans:
  assumes "queues a b" "streams_kept a b" "queues b c"
  shows "queues a c"
proof -
  from assms(1,3) obtain x y where "rl_out b = rl_out a @ x" "list_all (may_queue a) x"
    "rl_out c = rl_out b @ y" "list_all (may_queue b) y" by (auto simp: queues_def)
  moreover from this(4) have "list_all (may_queue a) y" using may_queue_kept [OF assms(2)] by (auto simp: list_all_iff)
  ultimately show ?thesis by (auto simp: queues_def)
qed

lemma streams_kept_trans:
  assumes "streams_kept a b" "streams_kept b c"
  shows "streams_kept a c"
  unfolding streams_kept_def
proof (intro allI impI)
  fix i s'' assume "tbl_lookup sm_id i (rl_streams c) = Some s''"
  with assms(2) obtain s' where s': "tbl_lookup sm_id i (rl_streams b) = Some s'" "sm_owner s'' = sm_owner s'"
    "sm_ended s' \<longrightarrow> sm_ended s''" unfolding streams_kept_def by blast
  with assms(1) obtain s where "tbl_lookup sm_id i (rl_streams a) = Some s" "sm_owner s' = sm_owner s"
    "sm_ended s \<longrightarrow> sm_ended s'" unfolding streams_kept_def by blast
  with s' show "\<exists>s. tbl_lookup sm_id i (rl_streams a) = Some s \<and> sm_owner s'' = sm_owner s \<and> (sm_ended s \<longrightarrow> sm_ended s'')"
    by auto
qed

lemma fold_queues:
  assumes "\<And>x r. queues r (g x r)" "\<And>x r. streams_kept r (g x r)"
  shows "queues r (fold g xs r)" "streams_kept r (fold g xs r)"
proof -
  have "queues r (fold g xs r) \<and> streams_kept r (fold g xs r)"
  proof (induction xs arbitrary: r)
    case Nil
    show ?case by (simp add: queues_same streams_kept_same)
  next
    case (Cons x xs)
    have "queues r (g x r)" "streams_kept r (g x r)" by (rule assms)+
    then show ?case using Cons.IH [of "g x r"] queues_trans streams_kept_trans by (metis fold_simps(2))
  qed
  then show "queues r (fold g xs r)" "streams_kept r (fold g xs r)" by auto
qed

lemma streams_kept_put:
  assumes "tbl_lookup sm_id i (rl_streams r) = Some s" "sm_id s' = i" "sm_owner s' = sm_owner s" "sm_ended s \<longrightarrow> sm_ended s'"
  shows "streams_kept r (put_stream r s')"
  using assms by (auto simp: streams_kept_def tbl_lookup_put)

lemma push_kept: "streams_kept r (push r i f)"
proof (cases "tbl_lookup sm_id i (rl_streams r)")
  case (Some s)
  show ?thesis
  proof (cases "sm_ended s")
    case True
    with Some show ?thesis by (simp add: push_ended_stream streams_kept_same)
  next
    case False
    from push_streams [OF Some, of f] obtain s' where
      "rl_streams (push r i f) = tbl_put sm_id s' (rl_streams r)" "ident s' = ident s" by blast
    with Some False tbl_lookup_SomeD [OF Some] show ?thesis
      by (auto simp: streams_kept_def tbl_lookup_put ident_def)
  qed
qed (simp add: push_unknown streams_kept_same)

lemma push_queues: "queues r (push r i f)"
proof (cases "tbl_lookup sm_id i (rl_streams r)")
  case (Some s)
  then show ?thesis
  proof (cases rule: push_cases [where f = f])
    case (sent_all r' full)
    from try_sends_effect(1) [OF sent_all(5)] sent_all(1,6) Some show ?thesis
      by (auto simp: queues_def list_all_iff may_queue_def)
  next
    case (partial r')
    from try_sends_effect(1) [OF partial(4)] partial(1,5) Some show ?thesis
      by (auto simp: queues_def list_all_iff may_queue_def)
  qed (simp_all add: queues_same)
qed (simp add: push_unknown queues_same)

lemma remove_kept: "streams_kept r (remove_stream r i)"
  by (auto simp: streams_kept_def split: if_splits)

lemma end_channel_queues: "queues r (end_channel r i reason)"
  unfolding end_channel_def by (rule fold_queues) (simp_all add: push_queues push_kept)

lemma release_owner_queues: "queues r (release_owner r owner)"
  unfolding release_owner_def by (rule fold_queues) (simp_all add: queues_same remove_kept)

text \<open>A step that first changes neither rows nor queues.\<close>

lemma queues_after:
  "queues b c \<Longrightarrow> rl_out b = rl_out a \<Longrightarrow> streams_kept a b \<Longrightarrow> queues a c"
  using queues_trans queues_same by blast

lemma Relay_activate_queues: "queues r (Relay_activate r i)"
proof (cases "tbl_lookup sm_id i (rl_streams r)")
  case (Some s)
  show ?thesis
  proof (cases "sm_opening s")
    case None
    with Some show ?thesis by (simp add: Relay_activate_def queues_same)
  next
    case held: (Some buf)
    have "streams_kept r (put_stream r (s\<lparr>sm_opening := None\<rparr>))"
      using tbl_lookup_SomeD [OF Some] by (intro streams_kept_put [OF Some]) auto
    moreover have "Relay_activate r i = fold (\<lambda>f r. push r i f) buf (put_stream r (s\<lparr>sm_opening := None\<rparr>))"
      using Some held by (simp add: Relay_activate_def)
    moreover have "queues q (fold (\<lambda>f r. push r i f) buf q)" for q
      by (rule fold_queues) (simp_all add: push_queues push_kept)
    ultimately show ?thesis using queues_after [of "put_stream r (s\<lparr>sm_opening := None\<rparr>)" _ r] by simp
  qed
qed (simp add: Relay_activate_def queues_same)

lemma Relay_close_queues: "queues r (fst (Relay_close r owner i))"
proof (cases "is_some_and (\<lambda>s. sm_owner s = owner) (tbl_lookup sm_id i (rl_streams r))")
  case True
  then obtain s where s: "tbl_lookup sm_id i (rl_streams r) = Some s" "sm_owner s = owner" by (auto simp: is_some_and_iff)
  let ?r = "put_stream r (s\<lparr>sm_opening := None, sm_lagging := False\<rparr>)"
  have "streams_kept r ?r" using tbl_lookup_SomeD [OF s(1)] by (intro streams_kept_put [OF s(1)]) auto
  moreover have "queues ?r (remove_stream (push ?r i (FrameEnded Closed)) i)"
    using push_queues [of ?r] by (simp add: queues_def)
  moreover have "fst (Relay_close r owner i) = remove_stream (push ?r i (FrameEnded Closed)) i"
    using s by (simp add: Relay_close_def Let_def)
  ultimately show ?thesis using queues_after by (metis put_stream_simps(4))
qed (simp add: Relay_close_refused queues_same)

lemma Relay_deliver_queues: "queues r (Relay_deliver r source i m)"
  by (cases m) (auto simp: push_queues queues_same answer_request_def split: option.split)

lemma Relay_attach_queues: "queues r (fst (Relay_attach r source))"
proof (cases "tbl_lookup ch_source source (rl_channels r)")
  case (Some c)
  have "streams_kept r (put_channel (r\<lparr>rl_next_id := k\<rparr>) d)" for k d by (simp add: streams_kept_same)
  from queues_after [OF end_channel_queues _ this] Some show ?thesis
    by (simp add: Relay_attach_def State_next_def Let_def)
qed (simp add: Relay_attach_def State_next_def Let_def queues_same)

lemma Relay_detach_queues: "queues r (Relay_detach r source i)"
  unfolding Relay_detach_def by (rule queues_after [OF end_channel_queues]) (simp_all add: streams_kept_same)

section \<open>Calls of a device\<close>

lemma stream_view_cong:
  "rl_streams r' = rl_streams r \<Longrightarrow> rl_out r' = rl_out r \<Longrightarrow> rl_requests r' = rl_requests r \<Longrightarrow>
   stream_view r' i = stream_view r i"
  by (simp add: stream_view_def sent_def requested_def)

lemma Relay_open_view:
  assumes "rl_next_id r + 1 \<noteq> i"
  shows "stream_view (fst (Relay_open r owner source inv_id)) i = stream_view r i"
  using assms by (simp add: Relay_open_def State_next_def Let_def stream_view_def sent_def requested_def tbl_lookup_put
    split: option.split)

lemma Relay_input_view:
  assumes "tbl_lookup sm_id i (rl_streams r) = Some s" "sm_owner s \<noteq> owner"
  shows "stream_view (fst (Relay_input r owner j x)) i = stream_view r i"
  using assms by (auto simp: Relay_input_def State_next_def Let_def stream_view_def sent_def requested_def
    split: option.split)

lemma Relay_close_view:
  assumes "tbl_lookup sm_id i (rl_streams r) = Some s" "sm_owner s \<noteq> owner"
  shows "stream_view (fst (Relay_close r owner j)) i = stream_view r i"
proof (cases "is_some_and (\<lambda>s. sm_owner s = owner) (tbl_lookup sm_id j (rl_streams r))")
  case True
  then obtain t where t: "tbl_lookup sm_id j (rl_streams r) = Some t" "sm_owner t = owner" by (auto simp: is_some_and_iff)
  with assms have "j \<noteq> i" by auto
  with t tbl_lookup_SomeD [OF t(1)] show ?thesis
    by (simp add: Relay_close_def Let_def remove_stream_view push_view put_stream_view)
qed (simp add: Relay_close_refused)

lemma step_view:
  assumes wf: "tbl_wf sm_id (rl_streams r)" and fresh: "rl_next_id r + 1 \<noteq> i"
    and "acts_for a = Some owner" and look: "tbl_lookup sm_id i (rl_streams r) = Some s" "sm_owner s \<noteq> owner"
  shows "stream_view (Relay_step a r) i = stream_view r i"
proof (cases a)
  case (OpRelease conn)
  have "i \<notin> set (map sm_id (filter (\<lambda>s. sm_owner s = owner) (rl_streams r)))"
    using lookup_in_filter [OF wf look(1), of "\<lambda>s. sm_owner s = owner"] look(2) by simp
  then show ?thesis using OpRelease assms(3) by (simp add: release_owner_def fold_remove_view del: set_map)
qed (use assms in \<open>simp_all add: Relay_open_view Relay_input_view Relay_close_view\<close>)

lemma run_next_id:
  "relay_run as w = (r', fed') \<Longrightarrow> unat (rl_next_id r') \<le> unat (rl_next_id (fst w)) + 2 * length as"
proof (induction as w rule: relay_run.induct)
  case (2 a as r fed)
  from "2.IH" "2.prems" step_next_id_unat [of a r] show ?case by simp
qed simp

section \<open>The promises\<close>

text \<open>
  (C26) Every frame that any operation puts into a queue goes to the connection that opened its
  stream, and to a stream that is known and has not ended before.
\<close>

theorem frames_go_to_their_device:
  "\<exists>new. rl_out (Relay_step a r) = rl_out r @ new \<and>
     list_all (\<lambda>(owner, i, f). is_some_and (\<lambda>s. sm_owner s = owner \<and> \<not> sm_ended s)
       (tbl_lookup sm_id i (rl_streams r))) new"
proof -
  have "queues r (Relay_step a r)"
    by (cases a) (simp_all add: Relay_attach_queues Relay_detach_queues Relay_activate_queues Relay_close_queues
      Relay_deliver_queues release_owner_queues queues_same Relay_abandon_def Relay_open_def Relay_input_def
      Relay_answer_def State_next_def Let_def split: option.split Waited.split)
  then show ?thesis by (simp add: queues_def may_queue_def)
qed

text \<open>
  (C25) A device cannot touch the terminals of another: in every reachable state, an open, an input, a
  close or the end of one connection leaves a stream of another connection as it is, sends nothing
  on it and asks nothing of its source.
\<close>

theorem devices_are_isolated:
  assumes "relay_run ops (Relay_new room, \<lambda>_. []) = (r, fed)" "2 * length ops + 2 < 2 ^ 64"
    and "acts_for a = Some owner" "tbl_lookup sm_id i (rl_streams r) = Some s" "sm_owner s \<noteq> owner"
  shows "stream_view (Relay_step a r) i = stream_view r i"
proof -
  have new: "relay_ok (Relay_new room) (\<lambda>_. [])" "rows_ok (Relay_new room)"
    by (simp_all add: relay_ok_def rows_ok_def Relay_new_def sent_def)
  have wf: "tbl_wf sm_id (rl_streams r)"
    using rows_ok_run [of "(Relay_new room, \<lambda>_. [])" ops] new(2) assms(1) by (simp add: rows_ok_def)
  from relay_ok_run [OF new(1) _ assms(1)] assms(2) have ok: "relay_ok r fed" by (simp add: Relay_new_def)
  have "unat (rl_next_id r) + 2 < 2 ^ 64" using run_next_id [OF assms(1)] assms(2) by (simp add: Relay_new_def)
  then have "rl_next_id r < rl_next_id r + 1" using word_succ_le [of "rl_next_id r"] by simp
  moreover have "i \<le> rl_next_id r" using ok assms(4) by (simp add: relay_ok_def)
  ultimately have fresh: "rl_next_id r + 1 \<noteq> i" by auto
  show ?thesis
    by (rule step_view [OF wf fresh assms(3-5)])
qed

theorem devices_are_isolated_witness:
  "stream_view (Relay_step (OpClose 8 2) (fst sample_relay_run)) 2 = stream_view (fst sample_relay_run) 2
   \<and> snd (Relay_close (fst sample_relay_run) 8 2) = Inl foreign_stream"
proof -
  have "relay_run sample_relay_ops (Relay_new (\<lambda>_. Some 2), \<lambda>_. []) = (fst sample_relay_run, snd sample_relay_run)"
    by (simp add: sample_relay_run_def)
  from devices_are_isolated [OF this, of "OpClose 8 2" 8 2]
  have "stream_view (Relay_step (OpClose 8 2) (fst sample_relay_run)) 2 = stream_view (fst sample_relay_run) 2"
    by (simp add: sample_relay_result sample_relay_ops_def)
  moreover have "snd (Relay_close (fst sample_relay_run) 8 2) = Inl foreign_stream"
    by (simp add: Relay_close_def sample_relay_result)
  ultimately show ?thesis by blast
qed

section \<open>A lost end\<close>

text \<open>
  The end of a stream is not retried: with a full queue the frame is dropped, the stream counts as
  ended, no resynchronisation is requested and later frames are ignored, so the device is never told.
\<close>

lemma end_lost_when_full:
  assumes "tbl_lookup sm_id i (rl_streams r) = Some s" "\<not> sm_ended s" "sm_opening s = None"
    and "rl_room r (sm_owner s) = Some 0" "is_ended f"
  shows "push r i f = put_stream r (s\<lparr>sm_lagging := False, sm_ended := True\<rparr>)"
    and "sent (push r i f) i = sent r i" "push (push r i f) i g = push r i f"
proof -
  let ?r = "put_stream r (s\<lparr>sm_lagging := False, sm_ended := True\<rparr>)"
  have one: "device_frames f = [f]" using assms(5) by (cases f) simp_all
  show push: "push r i f = ?r" using assms one by (simp add: push_def try_send_def)
  show "sent (push r i f) i = sent r i" by (simp add: push sent_def)
  have "tbl_lookup sm_id i (rl_streams ?r) = Some (s\<lparr>sm_lagging := False, sm_ended := True\<rparr>)"
    using tbl_lookup_SomeD [OF assms(1)] by (simp add: tbl_lookup_put)
  then show "push (push r i f) i g = push r i f" unfolding push by (rule push_ended_stream) simp
qed

end
