(* ===== verification/Hub_Endpoints.thy ===== *)
theory Hub_Endpoints
  imports Hub_Config
begin

text \<open>
  Where a device may reach the hub, \<^verbatim>\<open>sessiontap-hub/src/endpoints.rs\<close>, and the groups of peers of
  \<^verbatim>\<open>remote.rs\<close>. The interface list of the host is an argument; the text form of an address is that of
  \<^verbatim>\<open>std::net\<close>.
\<close>

unbundle bit_operations_syntax

section \<open>Addresses of the standard library\<close>

text \<open>\<open>Ipv6Addr::to_ipv4_mapped\<close>, \<open>is_link_local\<close>, \<open>is_unicast_link_local\<close>.\<close>

definition to_ipv4_mapped :: "128 word \<Rightarrow> 32 word option" where
  "to_ipv4_mapped a = (if drop_bit 32 a = 0xffff then Some (ucast a) else None)"

fun is_link_local :: "IpAddr \<Rightarrow> bool" where
  "is_link_local (V4 a) = (drop_bit 16 a = 0xa9fe)"
| "is_link_local (V6 a) = (drop_bit 118 a = 0x3fa)"

definition octets :: "32 word \<Rightarrow> nat list" where
  "octets a = map (\<lambda>k. unat (take_bit 8 (drop_bit (8 * k) a))) [3, 2, 1, 0]"

definition segments :: "128 word \<Rightarrow> nat list" where
  "segments a = map (\<lambda>k. unat (take_bit 16 (drop_bit (16 * k) a))) [7, 6, 5, 4, 3, 2, 1, 0]"

fun show_hex :: "nat \<Rightarrow> string" where
  "show_hex n =
     (let digit = (if n mod 16 < 10 then char_of (48 + n mod 16) else char_of (87 + n mod 16))
      in if n < 16 then [digit] else show_hex (n div 16) @ [digit])"

declare show_hex.simps [simp del]

definition show_ipv4 :: "32 word \<Rightarrow> string" where
  "show_ipv4 a = join ''.'' (map show_nat (octets a))"

text \<open>The longest run of zero segments as start and length, the first one among equals.\<close>

fun longest_zeros :: "nat \<Rightarrow> nat \<times> nat \<Rightarrow> nat \<times> nat \<Rightarrow> nat list \<Rightarrow> nat \<times> nat" where
  "longest_zeros i current longest [] = longest"
| "longest_zeros i (start, len) longest (s # ss) =
     (if s = 0
      then let current = (if len = 0 then i else start, Suc len)
           in longest_zeros (Suc i) current (if snd current > snd longest then current else longest) ss
      else longest_zeros (Suc i) (0, 0) longest ss)"

definition show_ipv6 :: "128 word \<Rightarrow> string" where
  "show_ipv6 a =
     (case to_ipv4_mapped a of
        Some v4 \<Rightarrow> ''::ffff:'' @ show_ipv4 v4
      | None \<Rightarrow>
          (case longest_zeros 0 (0, 0) (0, 0) (segments a) of
             (start, len) \<Rightarrow>
               if len > 1
               then join '':'' (map show_hex (take start (segments a))) @ ''::''
                      @ join '':'' (map show_hex (drop (start + len) (segments a)))
               else join '':'' (map show_hex (segments a))))"

definition show_socket_addr :: "SocketAddr \<Rightarrow> string" where
  "show_socket_addr address =
     (case sa_ip address of V4 a \<Rightarrow> show_ipv4 a | V6 a \<Rightarrow> ''['' @ show_ipv6 a @ '']'')
       @ '':'' @ show_nat (unat (sa_port address))"

section \<open>Groups of peers\<close>

datatype AddressKey = KeyV4 "32 word" | KeyV6 u64

fun AddressKey_from :: "IpAddr \<Rightarrow> AddressKey" where
  "AddressKey_from (V4 v4) = KeyV4 v4"
| "AddressKey_from (V6 v6) =
     (case to_ipv4_mapped v6 of Some v4 \<Rightarrow> KeyV4 v4 | None \<Rightarrow> KeyV6 (ucast (drop_bit 64 v6)))"

section \<open>Endpoint hints\<close>

definition IGNORED_INTERFACE_PREFIXES :: "string list" where
  "IGNORED_INTERFACE_PREFIXES = [''docker'', ''veth'', ''virbr'', ''br-'']"

record InterfaceAddr =
  ia_name :: string
  ia_ip :: IpAddr
  ia_up :: bool

definition ignored_interface :: "string \<Rightarrow> bool" where
  "ignored_interface name \<longleftrightarrow> list_ex (starts_with name) IGNORED_INTERFACE_PREFIXES"

definition usable :: "InterfaceAddr \<Rightarrow> IpAddr \<Rightarrow> bool" where
  "usable i wildcard =
     (if \<not> ia_up i \<or> ignored_interface (ia_name i) then False
      else case (ia_ip i, wildcard) of
             (V4 ip, _) \<Rightarrow> \<not> is_loopback (V4 ip) \<and> \<not> is_link_local (V4 ip) \<and> \<not> is_unspecified (V4 ip)
           | (V6 ip, V6 _) \<Rightarrow> \<not> is_loopback (V6 ip) \<and> \<not> is_link_local (V6 ip) \<and> \<not> is_unspecified (V6 ip)
           | (V6 _, V4 _) \<Rightarrow> False)"

text \<open>The loops \<open>if !known.contains(&x) { known.push(x) }\<close>.\<close>

fun push_new :: "'a list \<Rightarrow> 'a list \<Rightarrow> 'a list" where
  "push_new known [] = known"
| "push_new known (x # xs) = push_new (if x \<in> set known then known else known @ [x]) xs"

definition wildcard_addresses :: "IpAddr \<Rightarrow> InterfaceAddr list \<Rightarrow> IpAddr list" where
  "wildcard_addresses wildcard interfaces =
     push_new [] (map ia_ip (filter (\<lambda>i. usable i wildcard) interfaces))"

definition endpoint_hints ::
    "(string \<Rightarrow> SocketAddr option) \<Rightarrow> RemoteConfig \<Rightarrow> InterfaceAddr list \<Rightarrow> string list" where
  "endpoint_hints parse_addr remote interfaces =
     (let addresses = (case listen_mode parse_addr remote of
            Explicit addresses \<Rightarrow> map show_socket_addr addresses
          | Wildcard wildcard \<Rightarrow>
              map (\<lambda>ip. show_socket_addr \<lparr>sa_ip = ip, sa_port = sa_port wildcard\<rparr>)
                (wildcard_addresses (sa_ip wildcard) interfaces))
      in push_new [] (addresses @ rm_advertise remote))"

definition endpoints_with ::
    "(string \<Rightarrow> SocketAddr option) \<Rightarrow> RemoteConfig \<Rightarrow> InterfaceAddr list \<Rightarrow> string list" where
  "endpoints_with parse_addr remote interfaces =
     (case listen_mode parse_addr remote of
        Explicit _ \<Rightarrow> endpoint_hints parse_addr remote []
      | Wildcard _ \<Rightarrow> endpoint_hints parse_addr remote interfaces)"

text \<open>An entry of \<open>getifaddrs\<close> is a name, an address when it is an IP address, and whether it is up.\<close>

definition system_interfaces :: "(string \<times> IpAddr option \<times> bool) list option \<Rightarrow> InterfaceAddr list" where
  "system_interfaces entries =
     (case entries of
        None \<Rightarrow> []
      | Some addresses \<Rightarrow> List.map_filter (\<lambda>(name, address, up).
          map_option (\<lambda>ip. \<lparr>ia_name = name, ia_ip = ip, ia_up = up\<rparr>) address) addresses)"

section \<open>Lemmas\<close>

lemma push_new_set: "set (push_new known xs) = set known \<union> set xs"
  by (induction known xs rule: push_new.induct) auto

lemma push_new_distinct: "distinct known \<Longrightarrow> distinct (push_new known xs)"
  by (induction known xs rule: push_new.induct) auto

lemma endpoints_with_hints: "endpoints_with parse_addr remote interfaces = endpoint_hints parse_addr remote interfaces"
  by (simp add: endpoints_with_def endpoint_hints_def split: ListenMode.split)

lemma usable_reachable:
  assumes "usable i wildcard"
  shows "ia_up i \<and> \<not> ignored_interface (ia_name i) \<and> \<not> is_loopback (ia_ip i) \<and> \<not> is_link_local (ia_ip i)
    \<and> \<not> is_unspecified (ia_ip i)"
  using assms by (cases "ia_ip i"; cases wildcard) (auto simp: usable_def split: if_splits)

text \<open>
  Hints are distinct; with a wildcard listener each is advertised by the configuration or the
  address of an interface that is up and neither a bridge, loopback, link-local nor unspecified.
\<close>

lemma endpoint_hints_reachable:
  assumes "hint \<in> set (endpoint_hints parse_addr remote interfaces)" "listen_mode parse_addr remote = Wildcard w"
    and "hint \<notin> set (rm_advertise remote)"
  shows "\<exists>i \<in> set interfaces. hint = show_socket_addr \<lparr>sa_ip = ia_ip i, sa_port = sa_port w\<rparr> \<and> ia_up i
    \<and> \<not> ignored_interface (ia_name i) \<and> \<not> is_loopback (ia_ip i) \<and> \<not> is_link_local (ia_ip i)
    \<and> \<not> is_unspecified (ia_ip i)"
  using assms by (auto simp: endpoint_hints_def push_new_set wildcard_addresses_def dest: usable_reachable)

lemma endpoint_hints_distinct: "distinct (endpoint_hints parse_addr remote interfaces)"
  by (simp add: endpoint_hints_def push_new_distinct Let_def)

lemma mapped_peer_is_v4: "to_ipv4_mapped v6 = Some v4 \<Longrightarrow> AddressKey_from (V6 v6) = AddressKey_from (V4 v4)"
  by simp

lemma same_prefix_same_group:
  "to_ipv4_mapped a = None \<Longrightarrow> to_ipv4_mapped b = None \<Longrightarrow> drop_bit 64 a = drop_bit 64 b \<Longrightarrow>
   AddressKey_from (V6 a) = AddressKey_from (V6 b)"
  by simp

text \<open>The text forms of \<^verbatim>\<open>std::net\<close> on the addresses of the tests.\<close>

lemma show_socket_addr_samples:
  "show_socket_addr \<lparr>sa_ip = V4 0xc0a800a5, sa_port = 8932\<rparr> = ''192.168.0.165:8932''"
  "show_socket_addr \<lparr>sa_ip = V6 0x20010db8000000000000000000000005, sa_port = 8932\<rparr> = ''[2001:db8::5]:8932''"
  "AddressKey_from (V6 0x20010db8000100020000000000000009) = KeyV6 0x20010db800010002"
  "AddressKey_from (V6 0xffffc0a80107) = KeyV4 0xc0a80107"
  by (simp_all add: show_socket_addr_def show_ipv4_def show_ipv6_def octets_def segments_def
    to_ipv4_mapped_def show_nat.simps show_hex.simps char_of_def bit_0)

end
