(* ===== verification/Hub_Service.thy ===== *)
theory Hub_Service
  imports Complex_Main Hub_Endpoints Hub_Listen Hub_Relay Hub_Scope Json
begin

text \<open>
  The shared state of the hub, \<^verbatim>\<open>sessiontap-hub/src/service.rs\<close>: the store, the relay, live connections,
  the pairing window with its limits, and the requests of the Unix socket. Each method runs under the
  mutexes it takes, so it is one function on the state.

  A connection handle is shared between the registry and the connection, so handles are rows of
  their own and the registry holds their numbers. Instants are nanoseconds. SHA-256, HMAC, base64,
  hexadecimal, JSON printing and decoding, address parsing and the rounding of \<open>f64\<close> are the record \<open>HubLib\<close>.
\<close>

record HubLib =
  hl_sha256 :: "u8 list \<Rightarrow> u8 list"
  hl_hmac :: "u8 list \<Rightarrow> u8 list \<Rightarrow> u8 list"
  hl_hex :: "u8 list \<Rightarrow> string"
  hl_base64 :: "u8 list \<Rightarrow> string"
  hl_unbase64 :: "string \<Rightarrow> u8 list option"
  hl_print :: "Json \<Rightarrow> string"
  hl_raw_input :: "Json \<Rightarrow> string + RawTerminalInput"
  hl_parse_addr :: "string \<Rightarrow> SocketAddr option"
  hl_round :: "rat \<Rightarrow> rat"

section \<open>Constants\<close>

definition PAIR_LABEL :: "u8 list" where
  "PAIR_LABEL = as_bytes ''sessiontap-pair-v1''"

definition second :: int where
  "second = 1000000000"

definition PAIR_TTL :: int where
  "PAIR_TTL = 120 * second"

definition PAIR_TRIES_PER_CLIENT :: nat where
  "PAIR_TRIES_PER_CLIENT = 3"

definition PAIR_TRIES_PER_ADDRESS :: nat where
  "PAIR_TRIES_PER_ADDRESS = 5"

definition PAIR_TRIES_TOTAL :: nat where
  "PAIR_TRIES_TOTAL = 20"

definition PAIR_RATE_BURST :: nat where
  "PAIR_RATE_BURST = 5"

definition PAIR_RATE_REFILL :: int where
  "PAIR_RATE_REFILL = 2 * second"

definition PAIR_RATE_MAX_ENTRIES :: nat where
  "PAIR_RATE_MAX_ENTRIES = 1024"

section \<open>Rate limit\<close>

record Bucket =
  bk_key :: AddressKey
  bk_tokens :: rat
  bk_updated :: int

record PairRateLimiter =
  prl_burst :: rat
  prl_per_second :: rat
  prl_buckets :: "Bucket list"

definition as_secs_f64 :: "HubLib \<Rightarrow> int \<Rightarrow> rat" where
  "as_secs_f64 lib duration = hl_round lib (of_int duration / of_int second)"

definition PairRateLimiter_new :: "HubLib \<Rightarrow> nat \<Rightarrow> int \<Rightarrow> PairRateLimiter" where
  "PairRateLimiter_new lib burst refill =
     \<lparr>prl_burst = of_nat burst, prl_per_second = hl_round lib (1 / as_secs_f64 lib refill), prl_buckets = []\<rparr>"

definition refilled :: "HubLib \<Rightarrow> PairRateLimiter \<Rightarrow> Bucket \<Rightarrow> int \<Rightarrow> rat" where
  "refilled lib limiter bucket now =
     (let elapsed = as_secs_f64 lib (max 0 (now - bk_updated bucket))
      in min (hl_round lib (bk_tokens bucket + hl_round lib (elapsed * prl_per_second limiter)))
           (prl_burst limiter))"

definition allow_entry :: "HubLib \<Rightarrow> PairRateLimiter \<Rightarrow> AddressKey \<Rightarrow> int \<Rightarrow> PairRateLimiter \<times> bool" where
  "allow_entry lib limiter key now =
     (let bucket = (case tbl_lookup bk_key key (prl_buckets limiter) of
            Some bucket \<Rightarrow> bucket
          | None \<Rightarrow> \<lparr>bk_key = key, bk_tokens = prl_burst limiter, bk_updated = now\<rparr>);
          tokens = refilled lib limiter bucket now;
          allowed = tokens \<ge> 1;
          left = (if allowed then hl_round lib (tokens - 1) else tokens)
      in (limiter\<lparr>prl_buckets := tbl_put bk_key (bucket\<lparr>bk_updated := now, bk_tokens := left\<rparr>) (prl_buckets limiter)\<rparr>,
          allowed))"

definition PairRateLimiter_allow :: "HubLib \<Rightarrow> PairRateLimiter \<Rightarrow> AddressKey \<Rightarrow> int \<Rightarrow> PairRateLimiter \<times> bool" where
  "PairRateLimiter_allow lib limiter key now =
     (if tbl_lookup bk_key key (prl_buckets limiter) = None \<and> length (prl_buckets limiter) \<ge> PAIR_RATE_MAX_ENTRIES
      then let kept = limiter\<lparr>prl_buckets :=
                 filter (\<lambda>bucket. refilled lib limiter bucket now < prl_burst limiter) (prl_buckets limiter)\<rparr>
           in if length (prl_buckets kept) \<ge> PAIR_RATE_MAX_ENTRIES then (kept, False)
              else allow_entry lib kept key now
      else allow_entry lib limiter key now)"

section \<open>State\<close>

record RemoteInfo =
  ri_hub_id :: string
  ri_hub_name :: string
  ri_hub_spki :: "u8 list"
  ri_remote :: RemoteConfig
  ri_interfaces :: "InterfaceAddr list"

definition RemoteInfo_endpoints :: "HubLib \<Rightarrow> RemoteInfo \<Rightarrow> string list" where
  "RemoteInfo_endpoints lib info = endpoints_with (hl_parse_addr lib) (ri_remote info) (ri_interfaces info)"

datatype PairEvent = PairEventConfirm string string string | PairEventFailed string

record PairingWindow =
  pw_generation :: u64
  pw_secret :: "u8 list"
  pw_scopes :: "string list"
  pw_expires :: int

record PairFailures =
  pf_by_spki :: "(u8 list \<times> nat) list"
  pf_by_address :: "(AddressKey \<times> nat) list"
  pf_total :: nat

record PairingState =
  ps_window :: "PairingWindow option"
  ps_failures :: PairFailures

datatype PairAttempt = PairClaimed "string list" u64 | PairClosed | PairAttemptFailed | PairLocked

record ConnectionHandle =
  hn_id :: u64
  hn_revoke :: bool
  hn_withdraw :: bool
  hn_stream_scopes :: "Scope list"

record Hub =
  hb_store :: HubDb
  hb_relay :: Relay
  hb_updates :: "HubPublication list"
  hb_remote :: "RemoteInfo option"
  hb_pair_ttl :: int
  hb_connections :: "(string \<times> u64 list) list"
  hb_handles :: "ConnectionHandle list"
  hb_next_handle :: u64
  hb_pairing :: PairingState
  hb_generation :: u64
  hb_pair_rate :: PairRateLimiter
  hb_pair_events :: "(u64 \<times> PairEvent) list"

definition PairFailures_default :: PairFailures where
  "PairFailures_default = \<lparr>pf_by_spki = [], pf_by_address = [], pf_total = 0\<rparr>"

definition Hub_with_pair_ttl ::
    "HubLib \<Rightarrow> HubDb \<Rightarrow> (u64 \<Rightarrow> nat option) \<Rightarrow> RemoteInfo option \<Rightarrow> int \<Rightarrow> Hub" where
  "Hub_with_pair_ttl lib store room remote pair_ttl =
     \<lparr>hb_store = store, hb_relay = Relay_new room, hb_updates = [], hb_remote = remote, hb_pair_ttl = pair_ttl,
      hb_connections = [], hb_handles = [], hb_next_handle = 1,
      hb_pairing = \<lparr>ps_window = None, ps_failures = PairFailures_default\<rparr>, hb_generation = 0,
      hb_pair_rate = PairRateLimiter_new lib PAIR_RATE_BURST PAIR_RATE_REFILL, hb_pair_events = []\<rparr>"

definition Hub_new :: "HubLib \<Rightarrow> HubDb \<Rightarrow> (u64 \<Rightarrow> nat option) \<Rightarrow> RemoteInfo option \<Rightarrow> Hub" where
  "Hub_new lib store room remote = Hub_with_pair_ttl lib store room remote PAIR_TTL"

section \<open>Connection handles\<close>

definition ConnectionHandle_new :: "Hub \<Rightarrow> Hub \<times> u64" where
  "ConnectionHandle_new hub =
     (hub\<lparr>hb_handles := tbl_put hn_id \<lparr>hn_id = hb_next_handle hub, hn_revoke = False, hn_withdraw = False,
            hn_stream_scopes = []\<rparr> (hb_handles hub),
          hb_next_handle := hb_next_handle hub + 1\<rparr>, hb_next_handle hub)"

definition update_handle :: "Hub \<Rightarrow> u64 \<Rightarrow> (ConnectionHandle \<Rightarrow> ConnectionHandle) \<Rightarrow> Hub" where
  "update_handle hub i f =
     hub\<lparr>hb_handles := map (\<lambda>h. if hn_id h = i then f h else h) (hb_handles hub)\<rparr>"

definition add_stream_scope :: "Hub \<Rightarrow> u64 \<Rightarrow> Scope \<Rightarrow> Hub" where
  "add_stream_scope hub i scope =
     update_handle hub i (\<lambda>h. if scope \<in> set (hn_stream_scopes h) then h
       else h\<lparr>hn_stream_scopes := hn_stream_scopes h @ [scope]\<rparr>)"

text \<open>Cancelling \<open>revoke\<close> cancels its child \<open>withdraw\<close>.\<close>

definition cancel_revoke :: "Hub \<Rightarrow> u64 \<Rightarrow> Hub" where
  "cancel_revoke hub i = update_handle hub i (\<lambda>h. h\<lparr>hn_revoke := True, hn_withdraw := True\<rparr>)"

definition cancel_withdraw :: "Hub \<Rightarrow> u64 \<Rightarrow> Hub" where
  "cancel_withdraw hub i = update_handle hub i (\<lambda>h. h\<lparr>hn_withdraw := True\<rparr>)"

definition is_revoked :: "Hub \<Rightarrow> u64 \<Rightarrow> bool" where
  "is_revoked hub i = is_some_and hn_revoke (tbl_lookup hn_id i (hb_handles hub))"

definition is_withdrawn :: "Hub \<Rightarrow> u64 \<Rightarrow> bool" where
  "is_withdrawn hub i = is_some_and hn_withdraw (tbl_lookup hn_id i (hb_handles hub))"

definition connections_of :: "Hub \<Rightarrow> string \<Rightarrow> u64 list" where
  "connections_of hub device = (case tbl_lookup fst device (hb_connections hub) of Some (_, ids) \<Rightarrow> ids | None \<Rightarrow> [])"

definition register_connection :: "Hub \<Rightarrow> string \<Rightarrow> u64 \<Rightarrow> Hub" where
  "register_connection hub device handle =
     hub\<lparr>hb_connections := tbl_put fst
            (device, filter (\<lambda>i. \<not> is_revoked hub i) (connections_of hub device) @ [handle]) (hb_connections hub)\<rparr>"

definition unregister_connection :: "Hub \<Rightarrow> string \<Rightarrow> Hub" where
  "unregister_connection hub device =
     (case tbl_lookup fst device (hb_connections hub) of
        None \<Rightarrow> hub
      | Some (_, ids) \<Rightarrow>
          let handles = filter (\<lambda>i. \<not> is_revoked hub i) ids
          in hub\<lparr>hb_connections := (if handles = [] then tbl_delete fst device (hb_connections hub)
                 else tbl_put fst (device, handles) (hb_connections hub))\<rparr>)"

section \<open>Devices\<close>

definition hub_forget :: "Hub \<Rightarrow> string \<Rightarrow> string \<Rightarrow> timestamp \<Rightarrow> HubError + Hub \<times> ForgetOutcome" where
  "hub_forget hub source_id invocation_id now =
     result_bind (Hub_forget (hb_store hub) source_id invocation_id now) (\<lambda>(store, result, publication).
       Inr (hub\<lparr>hb_store := store,
                hb_updates := hb_updates hub @ (case publication of Some p \<Rightarrow> [p] | None \<Rightarrow> [])\<rparr>, result))"

text \<open>Ends one connection: its token and its terminal streams.\<close>

definition drop_connection :: "(Hub \<Rightarrow> u64 \<Rightarrow> Hub) \<Rightarrow> u64 \<Rightarrow> Hub \<Rightarrow> Hub" where
  "drop_connection cancel i hub = (let hub1 = cancel hub i in hub1\<lparr>hb_relay := release_owner (hb_relay hub1) i\<rparr>)"

definition Hub_revoke :: "Hub \<Rightarrow> string \<Rightarrow> Hub \<times> DeviceLookup" where
  "Hub_revoke hub prefix =
     (case delete_device (hb_store hub) prefix of
        (store, lookup) \<Rightarrow>
          let hub1 = hub\<lparr>hb_store := store\<rparr>
          in (case lookup of
                DeviceFound device \<Rightarrow>
                  fold (drop_connection cancel_revoke) (connections_of hub1 (de_device_id device))
                    (hub1\<lparr>hb_connections := tbl_delete fst (de_device_id device) (hb_connections hub1)\<rparr>)
              | _ \<Rightarrow> hub1, lookup))"

definition control_enabled :: "Hub \<Rightarrow> bool" where
  "control_enabled hub = is_some_and (\<lambda>remote. rm_control (ri_remote remote)) (hb_remote hub)"

definition effective_scopes :: "Hub \<Rightarrow> Device \<Rightarrow> Scope list" where
  "effective_scopes hub device =
     filter (\<lambda>scope. control_enabled hub \<or> \<not> is_terminal scope) (List.map_filter Scope_parse (de_scopes device))"

definition device_id :: "string \<Rightarrow> string" where
  "device_id spki_sha256 = utf8 (take 16 (chars spki_sha256))"

definition lost_scope :: "Hub \<Rightarrow> Scope list \<Rightarrow> u64 \<Rightarrow> bool" where
  "lost_scope hub effective i =
     is_some_and (\<lambda>h. \<exists>scope \<in> set (hn_stream_scopes h). scope \<notin> set effective) (tbl_lookup hn_id i (hb_handles hub))"

definition pair_device ::
    "Hub \<Rightarrow> string \<Rightarrow> string \<Rightarrow> Scope list \<Rightarrow> timestamp \<Rightarrow> HubError + Hub \<times> Device" where
  "pair_device hub spki_sha256 name scopes now =
     result_bind (upsert_device (hb_store hub) (device_id spki_sha256) spki_sha256 name (Scope_names scopes) now)
       (\<lambda>(store, device).
          let hub1 = hub\<lparr>hb_store := store\<rparr>;
              effective = effective_scopes hub1 device
          in Inr (fold (\<lambda>i hub. if lost_scope hub effective i then drop_connection cancel_withdraw i hub else hub)
                    (connections_of hub1 (de_device_id device)) hub1, device))"

section \<open>Pairing\<close>

definition open_pairing :: "Hub \<Rightarrow> string list \<Rightarrow> u8 list \<Rightarrow> int \<Rightarrow> Hub \<times> u64 \<times> int" where
  "open_pairing hub scopes secret now =
     (let generation = hb_generation hub + 1;
          expires = now + hb_pair_ttl hub;
          previous = ps_window (hb_pairing hub);
          hub1 = hub\<lparr>hb_generation := generation,
            hb_pairing := \<lparr>ps_window = Some \<lparr>pw_generation = generation, pw_secret = secret, pw_scopes = scopes,
                             pw_expires = expires\<rparr>, ps_failures = PairFailures_default\<rparr>\<rparr>
      in (case previous of
            None \<Rightarrow> hub1
          | Some window \<Rightarrow> hub1\<lparr>hb_pair_events := hb_pair_events hub1 @
              [(pw_generation window, PairEventFailed ''replaced by a newer pairing window'')]\<rparr>,
          generation, expires))"

definition close_pairing :: "Hub \<Rightarrow> u64 \<Rightarrow> Hub" where
  "close_pairing hub generation =
     (if is_some_and (\<lambda>window. pw_generation window = generation) (ps_window (hb_pairing hub))
      then hub\<lparr>hb_pairing := (hb_pairing hub)\<lparr>ps_window := None\<rparr>\<rparr> else hub)"

definition pair_message :: "u8 list \<Rightarrow> u8 list \<Rightarrow> u8 list \<Rightarrow> u8 list" where
  "pair_message hub_spki device_spki nonce = concat [PAIR_LABEL, hub_spki, device_spki, nonce]"

definition pair_mac :: "HubLib \<Rightarrow> u8 list \<Rightarrow> u8 list \<Rightarrow> u8 list \<Rightarrow> u8 list \<Rightarrow> u8 list" where
  "pair_mac lib secret hub_spki device_spki nonce = hl_hmac lib secret (pair_message hub_spki device_spki nonce)"

definition verify_pair_mac :: "HubLib \<Rightarrow> u8 list \<Rightarrow> u8 list \<Rightarrow> u8 list \<Rightarrow> u8 list \<Rightarrow> u8 list \<Rightarrow> bool" where
  "verify_pair_mac lib secret hub_spki device_spki nonce provided \<longleftrightarrow>
     pair_mac lib secret hub_spki device_spki nonce = provided"

definition tries :: "'k \<Rightarrow> ('k \<times> nat) list \<Rightarrow> nat" where
  "tries key counts = (case tbl_lookup fst key counts of Some (_, n) \<Rightarrow> n | None \<Rightarrow> 0)"

definition count_failure :: "PairFailures \<Rightarrow> u8 list \<Rightarrow> AddressKey \<Rightarrow> PairFailures" where
  "count_failure failures spki_key address =
     failures\<lparr>pf_by_spki := tbl_put fst (spki_key, tries spki_key (pf_by_spki failures) + 1) (pf_by_spki failures),
              pf_by_address := tbl_put fst (address, tries address (pf_by_address failures) + 1) (pf_by_address failures),
              pf_total := pf_total failures + 1\<rparr>"

definition attempt_pairing ::
    "HubLib \<Rightarrow> Hub \<Rightarrow> u8 list \<Rightarrow> IpAddr \<Rightarrow> u8 list \<Rightarrow> u8 list \<Rightarrow> int \<Rightarrow> Hub \<times> PairAttempt" where
  "attempt_pairing lib hub device_spki peer nonce mac now =
     (case hb_remote hub of
        None \<Rightarrow> (hub, PairClosed)
      | Some remote \<Rightarrow>
          let spki_key = hl_sha256 lib device_spki;
              address = AddressKey_from peer;
              pairing = hb_pairing hub;
              failures = ps_failures pairing;
              no_window = hub\<lparr>hb_pairing := pairing\<lparr>ps_window := None\<rparr>\<rparr>
          in if tries spki_key (pf_by_spki failures) \<ge> PAIR_TRIES_PER_CLIENT
                \<or> tries address (pf_by_address failures) \<ge> PAIR_TRIES_PER_ADDRESS
             then (hub, PairLocked)
             else
               (case ps_window pairing of
                  None \<Rightarrow> (hub, PairClosed)
                | Some window \<Rightarrow>
                    if now \<ge> pw_expires window then (no_window, PairClosed)
                    else if verify_pair_mac lib (pw_secret window) (ri_hub_spki remote) device_spki nonce mac
                    then (no_window, PairClaimed (pw_scopes window) (pw_generation window))
                    else
                      let failures' = count_failure failures spki_key address;
                          counted = hub\<lparr>hb_pairing := pairing\<lparr>ps_failures := failures'\<rparr>\<rparr>
                      in (if pf_total failures' \<ge> PAIR_TRIES_TOTAL
                          then counted\<lparr>hb_pairing := (hb_pairing counted)\<lparr>ps_window := None\<rparr>,
                                 hb_pair_events := hb_pair_events counted @
                                   [(pw_generation window, PairEventFailed ''too many failed pairing attempts'')]\<rparr>
                          else counted, PairAttemptFailed)))"

definition fingerprint :: "HubLib \<Rightarrow> u8 list \<Rightarrow> string" where
  "fingerprint lib device_spki =
     join '' '' (map (hl_hex lib) (chunks_of 4 (take 16 (hl_sha256 lib device_spki))))"

definition allow_pair_call :: "HubLib \<Rightarrow> Hub \<Rightarrow> IpAddr \<Rightarrow> int \<Rightarrow> Hub \<times> bool" where
  "allow_pair_call lib hub peer now =
     (case PairRateLimiter_allow lib (hb_pair_rate hub) (AddressKey_from peer) now of
        (limiter, allowed) \<Rightarrow> (hub\<lparr>hb_pair_rate := limiter\<rparr>, allowed))"

section \<open>Requests of the Unix socket\<close>

definition quoted :: "string \<Rightarrow> string" where
  "quoted s = [CHR 0x27] @ s @ [CHR 0x27]"

definition forget_response :: "Hub \<Rightarrow> string \<Rightarrow> string \<Rightarrow> timestamp \<Rightarrow> HubError + Hub \<times> HubResponse" where
  "forget_response hub source_id invocation_id now =
     result_bind (hub_forget hub source_id invocation_id now) (\<lambda>(hub', result).
       Inr (hub', case result of
          Forgotten hub_revision \<Rightarrow> HubForgotten hub_revision
        | ForgetNotFound \<Rightarrow> HubResponse_error ''not_found'' (''no agent '' @ source_id @ ''/'' @ invocation_id)
        | ForgetNotStopped \<Rightarrow> HubResponse_error ''not_stopped'' ''only stopped agents can be forgotten''))"

text \<open>
  One request: an answer, or one of the two conversations. A line that does not decode is \<open>Inl\<close> with
  the message of the decoder.
\<close>

datatype Served_Unix = UnixAnswer HubResponse | UnixListen | UnixPair "string list"

definition serve_unix :: "Hub \<Rightarrow> string + HubRequest \<Rightarrow> timestamp \<Rightarrow> HubError + Hub \<times> Served_Unix" where
  "serve_unix hub line now =
     (case line of
        Inl error \<Rightarrow> Inr (hub, UnixAnswer (HubResponse_error ''bad_request'' error))
      | Inr HubListen \<Rightarrow> Inr (hub, UnixListen)
      | Inr (HubPair scopes) \<Rightarrow> Inr (hub, UnixPair scopes)
      | Inr (HubAccept _) \<Rightarrow>
          Inr (hub, UnixAnswer (HubResponse_error ''bad_request'' ''no pairing confirmation is pending''))
      | Inr HubDevices \<Rightarrow> Inr (hub, UnixAnswer (HubDevicesAre (devices (hb_store hub)) (control_enabled hub)))
      | Inr (HubRevoke device) \<Rightarrow>
          (case Hub_revoke hub device of
             (hub', lookup) \<Rightarrow> Inr (hub', UnixAnswer (case lookup of
                DeviceFound d \<Rightarrow> HubRevoked d
              | DeviceNotFound \<Rightarrow> HubResponse_error ''not_found'' (''no device matches '' @ quoted device)
              | DeviceAmbiguous matches \<Rightarrow> HubErrorResponse ''ambiguous''
                  (quoted device @ '' matches '' @ show_nat (length matches) @ '' devices'') matches)))
      | Inr (HubForget source_id invocation_id) \<Rightarrow>
          result_bind (forget_response hub source_id invocation_id now) (\<lambda>(hub', response). Inr (hub', UnixAnswer response)))"

section \<open>The pairing conversation\<close>

definition unix_seconds :: "int \<Rightarrow> int \<Rightarrow> int \<Rightarrow> int" where
  "unix_seconds since_epoch now expires =
     min ((since_epoch + max 0 (expires - now)) div second) (2 ^ 63 - 1)"

record PairConversation =
  pc_generation :: u64
  pc_scopes :: "Scope list"

definition pair_payload :: "HubLib \<Rightarrow> RemoteInfo \<Rightarrow> string list \<Rightarrow> string list \<Rightarrow> u8 list \<Rightarrow> int \<Rightarrow> string" where
  "pair_payload lib remote endpoints scope_names secret expires_at =
     hl_print lib (JObject
       [(''ep'', JArray (map JString endpoints)),
        (''exp'', JNumber (if expires_at < 0 then NegInt expires_at else PosInt (of_int expires_at))),
        (''hub'', JString (ri_hub_name remote)),
        (''id'', JString (ri_hub_id remote)),
        (''s'', JString (hl_base64 lib secret)),
        (''sc'', JArray (map JString scope_names)),
        (''v'', JNumber (PosInt 1))])"

text \<open>Up to the window: a refusal, or the window, its payload and what the rest needs.\<close>

definition pair_start ::
    "HubLib \<Rightarrow> Hub \<Rightarrow> string list \<Rightarrow> u8 list \<Rightarrow> int \<Rightarrow> int \<Rightarrow> HubResponse + Hub \<times> HubResponse \<times> PairConversation" where
  "pair_start lib hub requested secret now since_epoch =
     (case hb_remote hub of
        None \<Rightarrow> Inl (HubResponse_error ''remote_disabled''
          ''remote access is not configured; add a remote section to the hub configuration'')
      | Some remote \<Rightarrow>
          (case Scope_parse_request requested of
             Inl message \<Rightarrow> Inl (HubResponse_error ''bad_request'' message)
           | Inr scopes \<Rightarrow>
               (case (if rm_control (ri_remote remote) then None else List.find is_terminal scopes) of
                  Some terminal \<Rightarrow> Inl (HubResponse_error ''control_disabled''
                    (''the '' @ quoted (Scope_as_str terminal) @ '' scope needs remote.control: true in the hub configuration''))
                | None \<Rightarrow>
                    let endpoints = RemoteInfo_endpoints lib remote
                    in if endpoints = [] then Inl (HubResponse_error ''no_endpoints''
                         ''no endpoint hints available; set remote.advertise or use explicit remote.listen addresses'')
                       else (case open_pairing hub (Scope_names scopes) secret now of
                         (hub', generation, expires) \<Rightarrow>
                           let expires_at = unix_seconds since_epoch now expires
                           in Inr (hub', PairWindow
                                (pair_payload lib remote endpoints (Scope_names scopes) secret expires_at) expires_at,
                                \<lparr>pc_generation = generation, pc_scopes = scopes\<rparr>)))))"

text \<open>What ends the wait: the time, an event (none when its sender is gone), or the operator.\<close>

datatype PairWait = PairWaitExpired | PairWaitEvent "PairEvent option" | PairWaitOperatorGone

text \<open>The answer of the operator to a confirmation: a line that decodes, one that does not, or none.\<close>

definition operator_accepts :: "(string + HubRequest) option \<Rightarrow> bool" where
  "operator_accepts line \<longleftrightarrow> line = Some (Inr (HubAccept True))"

text \<open>
  After the window: the hub, what is written, and what the device is told, \<open>None\<close> when there is no
  device to tell.
\<close>

definition pair_finish ::
    "Hub \<Rightarrow> PairConversation \<Rightarrow> PairWait \<Rightarrow> (string + HubRequest) option \<Rightarrow> timestamp \<Rightarrow>
     HubError + Hub \<times> HubResponse list \<times> Device option option" where
  "pair_finish hub conversation waited answer now =
     (let expired = (close_pairing hub (pc_generation conversation), [PairFailed ''pairing expired''], None)
      in case waited of
           PairWaitOperatorGone \<Rightarrow> Inr (close_pairing hub (pc_generation conversation), [], None)
         | PairWaitExpired \<Rightarrow> Inr expired
         | PairWaitEvent None \<Rightarrow> Inr expired
         | PairWaitEvent (Some (PairEventFailed reason)) \<Rightarrow> Inr (hub, [PairFailed reason], None)
         | PairWaitEvent (Some (PairEventConfirm name fp spki_sha256)) \<Rightarrow>
             if operator_accepts answer
             then result_bind (pair_device hub spki_sha256 name (pc_scopes conversation) now) (\<lambda>(hub', device).
                    Inr (hub', [PairConfirm name fp, PairDone (de_device_id device) (de_name device)], Some (Some device)))
             else Inr (hub, [PairConfirm name fp, PairFailed ''pairing rejected''], Some None))"

end
