(* ===== verification/Hub_Pairing.thy ===== *)
theory Hub_Pairing
  imports Hub_Service
begin

text \<open>
  What pairing promises: a window gives away few guesses and at most one device, whoever tries in
  whatever order, and calls are limited per address.
\<close>

section \<open>One attempt\<close>

record Try =
  ty_spki :: "u8 list"
  ty_peer :: IpAddr
  ty_nonce :: "u8 list"
  ty_mac :: "u8 list"
  ty_now :: int

definition attempt :: "HubLib \<Rightarrow> Hub \<Rightarrow> Try \<Rightarrow> Hub \<times> PairAttempt" where
  "attempt lib hub x = attempt_pairing lib hub (ty_spki x) (ty_peer x) (ty_nonce x) (ty_mac x) (ty_now x)"

lemma tries_put: "tries k (tbl_put fst (j, n) counts) = (if k = j then n else tries k counts)"
  by (simp add: tries_def tbl_lookup_put)

abbreviation client_tries :: "Hub \<Rightarrow> u8 list \<Rightarrow> nat" where
  "client_tries hub k \<equiv> tries k (pf_by_spki (ps_failures (hb_pairing hub)))"

abbreviation address_tries :: "Hub \<Rightarrow> AddressKey \<Rightarrow> nat" where
  "address_tries hub k \<equiv> tries k (pf_by_address (ps_failures (hb_pairing hub)))"

abbreviation total_tries :: "Hub \<Rightarrow> nat" where
  "total_tries hub \<equiv> pf_total (ps_failures (hb_pairing hub))"

abbreviation pair_window :: "Hub \<Rightarrow> PairingWindow option" where
  "pair_window hub \<equiv> ps_window (hb_pairing hub)"

text \<open>Every outcome of an attempt.\<close>

lemma attempt_cases:
  obtains (refused) hub' result where "attempt lib hub x = (hub', result)" "result \<noteq> PairAttemptFailed"
      "\<And>scopes g. result \<noteq> PairClaimed scopes g" "ps_failures (hb_pairing hub') = ps_failures (hb_pairing hub)"
      "pair_window hub' = pair_window hub \<or> pair_window hub' = None" "hb_remote hub' = hb_remote hub"
  | (claimed) hub' remote window where "hb_remote hub = Some remote" "pair_window hub = Some window"
      "attempt lib hub x = (hub', PairClaimed (pw_scopes window) (pw_generation window))"
      "ps_failures (hb_pairing hub') = ps_failures (hb_pairing hub)" "pair_window hub' = None" "hb_remote hub' = hb_remote hub"
      "ty_now x < pw_expires window"
      "pair_mac lib (pw_secret window) (ri_hub_spki remote) (ty_spki x) (ty_nonce x) = ty_mac x"
  | (failed) hub' window where "pair_window hub = Some window" "attempt lib hub x = (hub', PairAttemptFailed)"
      "client_tries hub (hl_sha256 lib (ty_spki x)) < PAIR_TRIES_PER_CLIENT"
      "address_tries hub (AddressKey_from (ty_peer x)) < PAIR_TRIES_PER_ADDRESS"
      "ps_failures (hb_pairing hub') =
         count_failure (ps_failures (hb_pairing hub)) (hl_sha256 lib (ty_spki x)) (AddressKey_from (ty_peer x))"
      "pair_window hub' = (if total_tries hub' \<ge> PAIR_TRIES_TOTAL then None else Some window)" "hb_remote hub' = hb_remote hub"
proof (cases "hb_remote hub")
  case None
  then show thesis using refused [of hub PairClosed] by (simp add: attempt_def attempt_pairing_def)
next
  case (Some remote)
  note ev = attempt_def attempt_pairing_def Some Let_def
  show thesis
  proof (cases "client_tries hub (hl_sha256 lib (ty_spki x)) \<ge> PAIR_TRIES_PER_CLIENT
      \<or> address_tries hub (AddressKey_from (ty_peer x)) \<ge> PAIR_TRIES_PER_ADDRESS")
    case True
    then show thesis using refused [of hub PairLocked] by (auto simp: ev)
  next
    case free: False
    show thesis
    proof (cases "pair_window hub")
      case None
      then show thesis using free refused [of hub PairClosed] by (auto simp: ev)
    next
      case window: (Some window)
      let ?closed = "hub\<lparr>hb_pairing := (hb_pairing hub)\<lparr>ps_window := None\<rparr>\<rparr>"
      consider "pw_expires window \<le> ty_now x"
        | "ty_now x < pw_expires window"
          "pair_mac lib (pw_secret window) (ri_hub_spki remote) (ty_spki x) (ty_nonce x) = ty_mac x"
        | "ty_now x < pw_expires window"
          "pair_mac lib (pw_secret window) (ri_hub_spki remote) (ty_spki x) (ty_nonce x) \<noteq> ty_mac x" by linarith
      then show thesis
      proof cases
        case 1
        then show thesis using free window refused [of ?closed PairClosed] by (auto simp: ev)
      next
        case 2
        then show thesis
          using free window Some claimed [of remote window ?closed] by (auto simp: ev verify_pair_mac_def)
      next
        case 3
        then have "\<not> verify_pair_mac lib (pw_secret window) (ri_hub_spki remote) (ty_spki x) (ty_nonce x) (ty_mac x)"
          by (simp add: verify_pair_mac_def)
        with 3(1) free window have "attempt lib hub x = (fst (attempt lib hub x), PairAttemptFailed)
          \<and> ps_failures (hb_pairing (fst (attempt lib hub x))) =
              count_failure (ps_failures (hb_pairing hub)) (hl_sha256 lib (ty_spki x)) (AddressKey_from (ty_peer x))
          \<and> pair_window (fst (attempt lib hub x)) =
              (if total_tries (fst (attempt lib hub x)) \<ge> PAIR_TRIES_TOTAL then None else Some window)
          \<and> hb_remote (fst (attempt lib hub x)) = hb_remote hub"
          by (auto simp: ev)
        then show thesis using failed [of window "fst (attempt lib hub x)"] free window by auto
      qed
    qed
  qed
qed

section \<open>Any number of attempts\<close>

fun attempts :: "HubLib \<Rightarrow> Hub \<Rightarrow> Try list \<Rightarrow> (Try \<times> PairAttempt) list" where
  "attempts lib hub [] = []"
| "attempts lib hub (x # xs) = (case attempt lib hub x of (hub', result) \<Rightarrow> (x, result) # attempts lib hub' xs)"

definition failures :: "(Try \<Rightarrow> bool) \<Rightarrow> (Try \<times> PairAttempt) list \<Rightarrow> nat" where
  "failures P rs = length (filter (\<lambda>(x, result). P x \<and> result = PairAttemptFailed) rs)"

fun is_claimed :: "PairAttempt \<Rightarrow> bool" where
  "is_claimed (PairClaimed _ _) = True"
| "is_claimed _ = False"

definition claims :: "(Try \<times> PairAttempt) list \<Rightarrow> Try list" where
  "claims rs = map fst (filter (\<lambda>(_, result). is_claimed result) rs)"

lemma failures_simps [simp]:
  "failures P [] = 0"
  "failures P ((x, result) # rs) = (if P x \<and> result = PairAttemptFailed then 1 else 0) + failures P rs"
  by (simp_all add: failures_def)

lemma claims_simps [simp]: "claims [] = []" "claims ((x, result) # rs) = (if is_claimed result then [x] else []) @ claims rs"
  by (simp_all add: claims_def)

lemma failures_per_client:
  "client_tries hub k \<le> PAIR_TRIES_PER_CLIENT \<Longrightarrow>
   client_tries hub k + failures (\<lambda>x. hl_sha256 lib (ty_spki x) = k) (attempts lib hub xs) \<le> PAIR_TRIES_PER_CLIENT"
proof (induction xs arbitrary: hub)
  case (Cons x xs)
  show ?case
  proof (cases rule: attempt_cases [of lib hub x])
    case (refused hub' result)
    then show ?thesis using Cons.IH [of hub'] Cons.prems by simp
  next
    case (claimed hub' remote window)
    then show ?thesis using Cons.IH [of hub'] Cons.prems by simp
  next
    case (failed hub' window)
    then show ?thesis using Cons.IH [of hub'] Cons.prems by (auto simp: count_failure_def tries_put split: if_splits)
  qed
qed simp

lemma failures_per_address:
  "address_tries hub k \<le> PAIR_TRIES_PER_ADDRESS \<Longrightarrow>
   address_tries hub k + failures (\<lambda>x. AddressKey_from (ty_peer x) = k) (attempts lib hub xs) \<le> PAIR_TRIES_PER_ADDRESS"
proof (induction xs arbitrary: hub)
  case (Cons x xs)
  show ?case
  proof (cases rule: attempt_cases [of lib hub x])
    case (refused hub' result)
    then show ?thesis using Cons.IH [of hub'] Cons.prems by simp
  next
    case (claimed hub' remote window)
    then show ?thesis using Cons.IH [of hub'] Cons.prems by simp
  next
    case (failed hub' window)
    then show ?thesis using Cons.IH [of hub'] Cons.prems by (auto simp: count_failure_def tries_put split: if_splits)
  qed
qed simp

text \<open>Without a window nothing is guessed and nothing claimed; the total burns the window.\<close>

lemma attempts_closed:
  "pair_window hub = None \<Longrightarrow> failures P (attempts lib hub xs) = 0 \<and> claims (attempts lib hub xs) = []"
proof (induction xs arbitrary: hub)
  case (Cons x xs)
  from Cons.prems obtain hub' result where x: "attempt lib hub x = (hub', result)" "pair_window hub' = None"
    "result \<noteq> PairAttemptFailed" "\<not> is_claimed result"
    by (cases rule: attempt_cases [of lib hub x]) (auto elim!: is_claimed.elims)
  with Cons.IH [OF x(2)] show ?case by simp
qed simp

lemma failures_in_all:
  "total_tries hub < PAIR_TRIES_TOTAL \<Longrightarrow>
   total_tries hub + failures P (attempts lib hub xs) \<le> PAIR_TRIES_TOTAL"
proof (induction xs arbitrary: hub)
  case (Cons x xs)
  show ?case
  proof (cases rule: attempt_cases [of lib hub x])
    case (refused hub' result)
    then show ?thesis using Cons.IH [of hub'] Cons.prems by simp
  next
    case (claimed hub' remote window)
    then show ?thesis using attempts_closed [of hub' P] Cons.prems by simp
  next
    case (failed hub' window)
    have step: "total_tries hub' = total_tries hub + 1" using failed(5) by (simp add: count_failure_def)
    show ?thesis
    proof (cases "total_tries hub' \<ge> PAIR_TRIES_TOTAL")
      case True
      then show ?thesis using failed(2,6) attempts_closed [of hub' P] Cons.prems step by simp
    next
      case False
      then show ?thesis using failed(2) Cons.IH [of hub'] step by simp
    qed
  qed
qed simp

lemma claims_prove_secret:
  "\<exists>proof. claims (attempts lib hub xs) = proof \<and> length proof \<le> 1 \<and>
     (\<forall>x \<in> set proof. \<exists>remote window. hb_remote hub = Some remote \<and> pair_window hub = Some window
        \<and> ty_now x < pw_expires window
        \<and> ty_mac x = hl_hmac lib (pw_secret window) (pair_message (ri_hub_spki remote) (ty_spki x) (ty_nonce x)))"
proof (induction xs arbitrary: hub)
  case (Cons x xs)
  show ?case
  proof (cases rule: attempt_cases [of lib hub x])
    case (refused hub' result)
    then have "\<not> is_claimed result" by (auto elim!: is_claimed.elims)
    with refused(1) have "claims (attempts lib hub (x # xs)) = claims (attempts lib hub' xs)" by simp
    with Cons.IH [of hub'] refused(5,6) show ?thesis by auto
  next
    case (claimed hub' remote window)
    then show ?thesis using attempts_closed [of hub' "\<lambda>_. True" lib xs] by (auto simp: pair_mac_def)
  next
    case (failed hub' window)
    then have "claims (attempts lib hub (x # xs)) = claims (attempts lib hub' xs)" by simp
    with Cons.IH [of hub'] failed(1,6,7) show ?thesis by (auto split: if_splits)
  qed
qed simp

text \<open>
  The parts of the authenticated message cannot be shifted against each other: with nonces of one
  length, equal messages are of the same device and nonce.
\<close>

lemma pair_message_inject:
  assumes "pair_message hub_spki spki nonce = pair_message hub_spki spki' nonce'" "length nonce = length nonce'"
  shows "spki = spki' \<and> nonce = nonce'"
proof -
  have eq: "spki @ nonce = spki' @ nonce'" using assms(1) by (simp add: pair_message_def)
  then have "length spki = length spki'" using assms(2) arg_cong [OF eq, of length] by simp
  with eq show ?thesis by simp
qed

section \<open>The rate limit\<close>

text \<open>What is used of the rounding of \<open>f64\<close>: it is monotone and exact on small integers and on a half.\<close>

definition f64_rounding :: "HubLib \<Rightarrow> bool" where
  "f64_rounding lib \<longleftrightarrow> mono (hl_round lib) \<and> (\<forall>n \<le> 2 ^ 53. hl_round lib (of_nat n) = of_nat n)
     \<and> hl_round lib (1 / 2) = 1 / 2"

lemma round_le: "f64_rounding lib \<Longrightarrow> n \<le> 2 ^ 53 \<Longrightarrow> x \<le> of_nat n \<Longrightarrow> hl_round lib x \<le> of_nat n"
  unfolding f64_rounding_def by (metis monoD)

lemma round_ge: "f64_rounding lib \<Longrightarrow> n \<le> 2 ^ 53 \<Longrightarrow> of_nat n \<le> x \<Longrightarrow> of_nat n \<le> hl_round lib x"
  unfolding f64_rounding_def by (metis monoD)

lemma round_nat: "f64_rounding lib \<Longrightarrow> n \<le> 2 ^ 53 \<Longrightarrow> hl_round lib (of_nat n) = of_nat n"
  by (simp add: f64_rounding_def)

definition limiter_ok :: "HubLib \<Rightarrow> PairRateLimiter \<Rightarrow> bool" where
  "limiter_ok lib limiter \<longleftrightarrow> prl_burst limiter = of_nat PAIR_RATE_BURST \<and> prl_per_second limiter = 1 / 2
     \<and> (\<forall>b \<in> set (prl_buckets limiter). 0 \<le> bk_tokens b \<and> bk_tokens b \<le> of_nat PAIR_RATE_BURST)
     \<and> tbl_wf bk_key (prl_buckets limiter) \<and> length (prl_buckets limiter) \<le> PAIR_RATE_MAX_ENTRIES"

lemma limiter_new_ok:
  assumes "f64_rounding lib"
  shows "limiter_ok lib (PairRateLimiter_new lib PAIR_RATE_BURST PAIR_RATE_REFILL)"
proof -
  have "as_secs_f64 lib PAIR_RATE_REFILL = 2"
    using round_nat [OF assms, of 2] by (simp add: as_secs_f64_def PAIR_RATE_REFILL_def second_def)
  then show ?thesis using assms by (simp add: limiter_ok_def PairRateLimiter_new_def f64_rounding_def)
qed

lemma elapsed_nonneg: "f64_rounding lib \<Longrightarrow> 0 \<le> as_secs_f64 lib (max 0 d)"
  using round_ge [of lib 0] by (simp add: as_secs_f64_def second_def)

lemma refilled_bounds:
  assumes fl: "f64_rounding lib" and "limiter_ok lib limiter" "0 \<le> bk_tokens b"
  shows "0 \<le> refilled lib limiter b now" "refilled lib limiter b now \<le> of_nat PAIR_RATE_BURST"
proof -
  have rate: "prl_burst limiter = of_nat PAIR_RATE_BURST" "prl_per_second limiter = 1 / 2"
    using assms(2) by (auto simp: limiter_ok_def)
  let ?elapsed = "as_secs_f64 lib (max 0 (now - bk_updated b))"
  have "0 \<le> ?elapsed * (1 / 2)" using elapsed_nonneg [OF fl] by simp
  then have "0 \<le> hl_round lib (?elapsed * (1 / 2))" using round_ge [OF fl, of 0] by simp
  then have "0 \<le> hl_round lib (bk_tokens b + hl_round lib (?elapsed * (1 / 2)))"
    using assms(3) round_ge [OF fl, of 0] by simp
  then show "0 \<le> refilled lib limiter b now" "refilled lib limiter b now \<le> of_nat PAIR_RATE_BURST"
    unfolding refilled_def rate Let_def by simp_all
qed

text \<open>What a key can still spend at one instant.\<close>

definition spendable :: "HubLib \<Rightarrow> PairRateLimiter \<Rightarrow> AddressKey \<Rightarrow> int \<Rightarrow> nat \<Rightarrow> bool" where
  "spendable lib limiter key now n \<longleftrightarrow> n \<le> PAIR_RATE_BURST \<and>
     (n = PAIR_RATE_BURST \<or>
      is_some_and (\<lambda>b. bk_updated b = now \<and> bk_tokens b \<le> of_nat n) (tbl_lookup bk_key key (prl_buckets limiter)))"

lemma refilled_now:
  assumes fl: "f64_rounding lib" and "bk_updated b = now" "bk_tokens b \<le> of_nat n" "n \<le> PAIR_RATE_BURST"
  shows "refilled lib limiter b now \<le> of_nat n"
proof -
  have "hl_round lib 0 = 0" using round_nat [OF fl, of 0] by simp
  moreover have "hl_round lib (bk_tokens b) \<le> of_nat n"
    using round_le [OF fl, of n "bk_tokens b"] assms(3,4) by (simp add: PAIR_RATE_BURST_def)
  ultimately show ?thesis using assms(2) by (simp add: refilled_def as_secs_f64_def min_def)
qed

definition bucket_at :: "PairRateLimiter \<Rightarrow> AddressKey \<Rightarrow> int \<Rightarrow> Bucket" where
  "bucket_at limiter key now = (case tbl_lookup bk_key key (prl_buckets limiter) of
     Some bucket \<Rightarrow> bucket
   | None \<Rightarrow> \<lparr>bk_key = key, bk_tokens = prl_burst limiter, bk_updated = now\<rparr>)"

lemma bucket_at_ok:
  assumes "limiter_ok lib limiter"
  shows "bk_key (bucket_at limiter key now) = key" "0 \<le> bk_tokens (bucket_at limiter key now)"
  using assms by (auto simp: bucket_at_def limiter_ok_def PAIR_RATE_BURST_def split: option.split dest: tbl_lookup_SomeD)

lemma allow_entry_effect:
  fixes limiter lib key now
  defines "tokens \<equiv> refilled lib limiter (bucket_at limiter key now) now"
  defines "left \<equiv> (if tokens \<ge> 1 then hl_round lib (tokens - 1) else tokens)"
  shows "allow_entry lib limiter key now =
    (limiter\<lparr>prl_buckets := tbl_put bk_key ((bucket_at limiter key now)\<lparr>bk_updated := now, bk_tokens := left\<rparr>)
       (prl_buckets limiter)\<rparr>, tokens \<ge> 1)"
  unfolding allow_entry_def tokens_def left_def bucket_at_def Let_def by simp

lemma allow_entry_left:
  assumes fl: "f64_rounding lib" and ok: "limiter_ok lib limiter"
    and tokens: "tokens = refilled lib limiter (bucket_at limiter key now) now"
    and left: "left = (if tokens \<ge> 1 then hl_round lib (tokens - 1) else tokens)"
  shows "0 \<le> left" "left \<le> of_nat PAIR_RATE_BURST" "tokens \<le> of_nat (Suc n) \<Longrightarrow> tokens \<ge> 1 \<Longrightarrow> n \<le> PAIR_RATE_BURST \<Longrightarrow> left \<le> of_nat n"
proof -
  have range: "0 \<le> tokens" "tokens \<le> of_nat PAIR_RATE_BURST"
    using refilled_bounds [OF fl ok bucket_at_ok(2) [OF ok]] by (simp_all add: tokens)
  show "0 \<le> left" using range round_ge [OF fl, of 0 "tokens - 1"] by (auto simp: left)
  show "left \<le> of_nat PAIR_RATE_BURST"
    using range round_le [OF fl, of PAIR_RATE_BURST "tokens - 1"] by (auto simp: left PAIR_RATE_BURST_def)
  show "left \<le> of_nat n" if "tokens \<le> of_nat (Suc n)" "tokens \<ge> 1" "n \<le> PAIR_RATE_BURST"
    using that round_le [OF fl, of n "tokens - 1"] by (simp add: left PAIR_RATE_BURST_def)
qed

lemma tbl_put_length: "length (tbl_put key r rows) \<le> Suc (length rows)"
  by (induction rows) auto

lemma tbl_put_length_known: "tbl_lookup key (key r) rows \<noteq> None \<Longrightarrow> length (tbl_put key r rows) = length rows"
  by (induction rows) auto

lemma allow_entry_ok:
  assumes fl: "f64_rounding lib" and ok: "limiter_ok lib limiter"
    and room: "tbl_lookup bk_key key (prl_buckets limiter) \<noteq> None \<or> length (prl_buckets limiter) < PAIR_RATE_MAX_ENTRIES"
  shows "limiter_ok lib (fst (allow_entry lib limiter key now))"
proof -
  let ?tokens = "refilled lib limiter (bucket_at limiter key now) now"
  let ?left = "if ?tokens \<ge> 1 then hl_round lib (?tokens - 1) else ?tokens"
  let ?b = "(bucket_at limiter key now)\<lparr>bk_updated := now, bk_tokens := ?left\<rparr>"
  note left = allow_entry_left [OF fl ok refl refl, of key now]
  have key: "bk_key ?b = key" using bucket_at_ok [OF ok] by simp
  have "length (tbl_put bk_key ?b (prl_buckets limiter)) \<le> PAIR_RATE_MAX_ENTRIES"
    using room key tbl_put_length_known [of bk_key ?b "prl_buckets limiter"] tbl_put_length [of bk_key ?b "prl_buckets limiter"] ok
    by (auto simp: limiter_ok_def)
  moreover have "tbl_wf bk_key (prl_buckets limiter)" using ok by (simp add: limiter_ok_def)
  ultimately show ?thesis
    using ok left(1,2) unfolding allow_entry_effect limiter_ok_def by (auto simp: tbl_put_wf tbl_put_set)
qed

lemma allow_entry_spend:
  assumes fl: "f64_rounding lib" and ok: "limiter_ok lib limiter" and sp: "spendable lib limiter key now n"
    and call: "allow_entry lib limiter k now = (limiter', allowed)"
  shows "if k = key \<and> allowed then n \<noteq> 0 \<and> spendable lib limiter' key now (n - 1) else spendable lib limiter' key now n"
proof (cases "k = key")
  case False
  then show ?thesis
    using call sp bucket_at_ok(1) [OF ok] unfolding allow_entry_effect by (auto simp: spendable_def tbl_lookup_put)
next
  case True
  let ?b = "bucket_at limiter key now" and ?tokens = "refilled lib limiter (bucket_at limiter key now) now"
  have most: "?tokens \<le> of_nat n"
  proof (cases "n = PAIR_RATE_BURST")
    case True
    then show ?thesis using refilled_bounds(2) [OF fl ok bucket_at_ok(2) [OF ok]] by simp
  next
    case False
    then have "bk_updated ?b = now" "bk_tokens ?b \<le> of_nat n" "n \<le> PAIR_RATE_BURST"
      using sp by (auto simp: spendable_def bucket_at_def is_some_and_iff)
    then show ?thesis by (rule refilled_now [OF fl])
  qed
  have n: "n \<le> PAIR_RATE_BURST" using sp by (simp add: spendable_def)
  show ?thesis
  proof (cases allowed)
    case False
    then show ?thesis
      using True call most n bucket_at_ok(1) [OF ok] unfolding allow_entry_effect
      by (auto simp: spendable_def tbl_lookup_put)
  next
    case spent: True
    then have "?tokens \<ge> 1" using True call unfolding allow_entry_effect by auto
    moreover from this most obtain m where m: "n = Suc m" by (cases n) auto
    ultimately have "hl_round lib (?tokens - 1) \<le> of_nat m"
      using allow_entry_left(3) [OF fl ok refl refl, of key now m] most n by simp
    then show ?thesis
      using True call spent n m \<open>?tokens \<ge> 1\<close> bucket_at_ok(1) [OF ok] unfolding allow_entry_effect
      by (auto simp: spendable_def tbl_lookup_put)
  qed
qed

definition prune_full :: "HubLib \<Rightarrow> PairRateLimiter \<Rightarrow> int \<Rightarrow> PairRateLimiter" where
  "prune_full lib limiter now = limiter\<lparr>prl_buckets :=
     filter (\<lambda>bucket. refilled lib limiter bucket now < prl_burst limiter) (prl_buckets limiter)\<rparr>"

lemma prune_full_ok:
  assumes "limiter_ok lib limiter"
  shows "limiter_ok lib (prune_full lib limiter now)"
proof -
  have "length (filter P (prl_buckets limiter)) \<le> PAIR_RATE_MAX_ENTRIES" for P
    using assms length_filter_le [of P "prl_buckets limiter"] unfolding limiter_ok_def by linarith
  then show ?thesis using assms by (simp add: limiter_ok_def prune_full_def tbl_filter_wf)
qed

lemma prune_full_spend:
  assumes fl: "f64_rounding lib" and ok: "limiter_ok lib limiter" and sp: "spendable lib limiter key now n"
  shows "spendable lib (prune_full lib limiter now) key now n"
proof (cases "n = PAIR_RATE_BURST")
  case True
  then show ?thesis by (simp add: spendable_def)
next
  case False
  then obtain b where b: "tbl_lookup bk_key key (prl_buckets limiter) = Some b" "bk_updated b = now"
    "bk_tokens b \<le> of_nat n" and n: "n < PAIR_RATE_BURST" using sp by (auto simp: spendable_def is_some_and_iff)
  have "refilled lib limiter b now \<le> of_nat n" using refilled_now [OF fl b(2,3)] n by simp
  also have "\<dots> < prl_burst limiter" using n ok by (simp add: limiter_ok_def)
  finally have "tbl_lookup bk_key key (prl_buckets (prune_full lib limiter now)) = Some b"
    using b(1) ok by (simp add: prune_full_def tbl_lookup_filter limiter_ok_def)
  with b n show ?thesis by (simp add: spendable_def)
qed

lemma allow_unfold:
  "PairRateLimiter_allow lib limiter key now =
     (if tbl_lookup bk_key key (prl_buckets limiter) = None \<and> length (prl_buckets limiter) \<ge> PAIR_RATE_MAX_ENTRIES
      then if length (prl_buckets (prune_full lib limiter now)) \<ge> PAIR_RATE_MAX_ENTRIES
           then (prune_full lib limiter now, False)
           else allow_entry lib (prune_full lib limiter now) key now
      else allow_entry lib limiter key now)"
  by (simp add: PairRateLimiter_allow_def prune_full_def Let_def)

lemma allow_ok:
  assumes "f64_rounding lib" "limiter_ok lib limiter"
  shows "limiter_ok lib (fst (PairRateLimiter_allow lib limiter key now))"
  using allow_entry_ok [OF assms, of key now] allow_entry_ok [OF assms(1) prune_full_ok [OF assms(2)], of key now now]
    prune_full_ok [OF assms(2), of now]
  by (simp add: allow_unfold not_le)

lemma allow_spend:
  assumes fl: "f64_rounding lib" and ok: "limiter_ok lib limiter" and sp: "spendable lib limiter key now n"
    and call: "PairRateLimiter_allow lib limiter k now = (limiter', allowed)"
  shows "if k = key \<and> allowed then n \<noteq> 0 \<and> spendable lib limiter' key now (n - 1) else spendable lib limiter' key now n"
proof (cases "tbl_lookup bk_key k (prl_buckets limiter) = None \<and> length (prl_buckets limiter) \<ge> PAIR_RATE_MAX_ENTRIES")
  case True
  note pruned = prune_full_ok [OF ok, of now] prune_full_spend [OF fl ok sp]
  show ?thesis
  proof (cases "length (prl_buckets (prune_full lib limiter now)) \<ge> PAIR_RATE_MAX_ENTRIES")
    case True
    with \<open>_ \<and> _\<close> call pruned(2) show ?thesis by (auto simp: allow_unfold)
  next
    case False
    with True call have "allow_entry lib (prune_full lib limiter now) k now = (limiter', allowed)" by (simp add: allow_unfold)
    from allow_entry_spend [OF fl pruned this] show ?thesis .
  qed
next
  case False
  with call have "allow_entry lib limiter k now = (limiter', allowed)" by (auto simp: allow_unfold)
  from allow_entry_spend [OF fl ok sp this] show ?thesis .
qed

text \<open>The addresses of the calls that are allowed, of calls in a sequence.\<close>

fun allowed_calls :: "HubLib \<Rightarrow> PairRateLimiter \<Rightarrow> (AddressKey \<times> int) list \<Rightarrow> (AddressKey \<times> int) list" where
  "allowed_calls lib limiter [] = []"
| "allowed_calls lib limiter ((key, now) # calls) =
     (case PairRateLimiter_allow lib limiter key now of
        (limiter', allowed) \<Rightarrow> (if allowed then [(key, now)] else []) @ allowed_calls lib limiter' calls)"

fun limiter_after :: "HubLib \<Rightarrow> PairRateLimiter \<Rightarrow> (AddressKey \<times> int) list \<Rightarrow> PairRateLimiter" where
  "limiter_after lib limiter [] = limiter"
| "limiter_after lib limiter ((key, now) # calls) =
     limiter_after lib (fst (PairRateLimiter_allow lib limiter key now)) calls"

lemma limiter_after_ok:
  "f64_rounding lib \<Longrightarrow> limiter_ok lib limiter \<Longrightarrow> limiter_ok lib (limiter_after lib limiter calls)"
  by (induction calls arbitrary: limiter) (auto simp: allow_ok)

lemma allowed_at_once:
  assumes "f64_rounding lib" "limiter_ok lib limiter" "spendable lib limiter key now n"
  shows "length (filter (\<lambda>(k, _). k = key) (allowed_calls lib limiter (map (\<lambda>k. (k, now)) keys))) \<le> n"
  using assms(2,3)
proof (induction keys arbitrary: limiter n)
  case (Cons k keys)
  obtain limiter' allowed where call: "PairRateLimiter_allow lib limiter k now = (limiter', allowed)" by fastforce
  have ok: "limiter_ok lib limiter'" using allow_ok [OF assms(1) Cons.prems(1), of k now] call by simp
  note spend = allow_spend [OF assms(1) Cons.prems call]
  show ?case
  proof (cases "k = key \<and> allowed")
    case True
    with spend have "n \<noteq> 0" "spendable lib limiter' key now (n - 1)" by auto
    with Cons.IH [OF ok this(2)] True call show ?thesis by simp
  next
    case False
    with spend have "spendable lib limiter' key now n" by auto
    from Cons.IH [OF ok this] False call show ?thesis by auto
  qed
qed simp

text \<open>Two seconds after its last call an address that is known may call again.\<close>

lemma allowed_after_refill:
  assumes fl: "f64_rounding lib" and ok: "limiter_ok lib limiter"
    and b: "tbl_lookup bk_key key (prl_buckets limiter) = Some b" "bk_updated b + PAIR_RATE_REFILL \<le> now"
  shows "snd (PairRateLimiter_allow lib limiter key now)"
proof -
  have rate: "prl_burst limiter = of_nat PAIR_RATE_BURST" "prl_per_second limiter = 1 / 2" "0 \<le> bk_tokens b"
    using ok tbl_lookup_SomeD [OF b(1)] by (auto simp: limiter_ok_def)
  have "of_int (2 * second) \<le> (of_int (max 0 (now - bk_updated b)) :: rat)"
    using b(2) unfolding of_int_le_iff by (simp add: PAIR_RATE_REFILL_def)
  then have "2 \<le> as_secs_f64 lib (max 0 (now - bk_updated b))"
    using round_ge [OF fl, of 2] by (simp add: as_secs_f64_def second_def field_simps)
  then have "1 \<le> hl_round lib (as_secs_f64 lib (max 0 (now - bk_updated b)) * (1 / 2))"
    using round_ge [OF fl, of 1] by simp
  then have "1 \<le> hl_round lib (bk_tokens b + hl_round lib (as_secs_f64 lib (max 0 (now - bk_updated b)) * (1 / 2)))"
    using rate(3) round_ge [OF fl, of 1] by simp
  then have "1 \<le> refilled lib limiter b now" unfolding refilled_def rate Let_def by (simp add: PAIR_RATE_BURST_def)
  with b(1) show ?thesis by (simp add: allow_unfold allow_entry_effect bucket_at_def)
qed

section \<open>The promises\<close>

definition sample_lib :: HubLib where
  "sample_lib = \<lparr>hl_sha256 = id, hl_hmac = (\<lambda>key message. key @ message), hl_hex = (\<lambda>_. []), hl_base64 = (\<lambda>_. []),
     hl_unbase64 = (\<lambda>_. Some []), hl_print = (\<lambda>_. []),
     hl_raw_input = (\<lambda>_. Inr (RawPaste ''ls'' True)), hl_parse_addr = (\<lambda>_. None), hl_round = id\<rparr>"

definition sample_remote :: RemoteInfo where
  "sample_remote = \<lparr>ri_hub_id = ''id'', ri_hub_name = ''hub'', ri_hub_spki = [7],
     ri_remote = \<lparr>rm_name = None, rm_listen = [], rm_advertise = [''hub.example:8932''], rm_control = True, rm_discovery = False\<rparr>,
     ri_interfaces = []\<rparr>"

definition sample_pair_hub :: Hub where
  "sample_pair_hub = Hub_new sample_lib HubDb_empty (\<lambda>_. Some 8) (Some sample_remote)"

text \<open>
  (C22) A pairing window gives away little. After a window is opened, whatever attempts arrive from
  whatever keys and addresses, at most twenty proofs fail in all, three of one key and five of one
  address group; at most one attempt claims the window, and it does so before the window expires
  with the MAC, under the secret of this window, of the hub key, its own key and its nonce.
\<close>

theorem pairing_window_bounds:
  assumes "open_pairing hub scopes secret now = (hub', generation, expires)"
  shows "failures (\<lambda>_. True) (attempts lib hub' xs) \<le> 20
    \<and> failures (\<lambda>x. hl_sha256 lib (ty_spki x) = k) (attempts lib hub' xs) \<le> 3
    \<and> failures (\<lambda>x. AddressKey_from (ty_peer x) = a) (attempts lib hub' xs) \<le> 5
    \<and> length (claims (attempts lib hub' xs)) \<le> 1
    \<and> (\<forall>x \<in> set (claims (attempts lib hub' xs)). \<exists>remote. hb_remote hub = Some remote
         \<and> ty_now x < now + hb_pair_ttl hub
         \<and> ty_mac x = hl_hmac lib secret (pair_message (ri_hub_spki remote) (ty_spki x) (ty_nonce x)))"
proof -
  have fresh: "ps_failures (hb_pairing hub') = PairFailures_default" "hb_remote hub' = hb_remote hub"
    "pair_window hub' = Some \<lparr>pw_generation = generation, pw_secret = secret, pw_scopes = scopes,
       pw_expires = now + hb_pair_ttl hub\<rparr>"
    using assms by (auto simp: open_pairing_def Let_def split: option.splits)
  have none: "client_tries hub' k = 0" "address_tries hub' a = 0" "total_tries hub' = 0"
    by (simp_all add: fresh PairFailures_default_def tries_def)
  have "failures (\<lambda>_. True) (attempts lib hub' xs) \<le> 20"
    using failures_in_all [of hub' "\<lambda>_. True" lib xs] none by (simp add: PAIR_TRIES_TOTAL_def)
  moreover have "failures (\<lambda>x. hl_sha256 lib (ty_spki x) = k) (attempts lib hub' xs) \<le> 3"
    using failures_per_client [where hub = hub' and k = k and lib = lib and xs = xs] none by (simp add: PAIR_TRIES_PER_CLIENT_def)
  moreover have "failures (\<lambda>x. AddressKey_from (ty_peer x) = a) (attempts lib hub' xs) \<le> 5"
    using failures_per_address [where hub = hub' and k = a and lib = lib and xs = xs] none by (simp add: PAIR_TRIES_PER_ADDRESS_def)
  ultimately show ?thesis using claims_prove_secret [of lib hub' xs] fresh by auto
qed

definition sample_tries :: "Try list" where
  "sample_tries =
     [\<lparr>ty_spki = [1], ty_peer = V4 1, ty_nonce = [2], ty_mac = [], ty_now = 5\<rparr>,
      \<lparr>ty_spki = [1], ty_peer = V4 1, ty_nonce = [2], ty_mac = [9] @ pair_message [7] [1] [2], ty_now = 6\<rparr>,
      \<lparr>ty_spki = [1], ty_peer = V4 1, ty_nonce = [2], ty_mac = [9] @ pair_message [7] [1] [2], ty_now = 7\<rparr>]"

theorem pairing_window_bounds_witness:
  "length (claims (attempts sample_lib (fst (open_pairing sample_pair_hub [''read''] [9] 0)) sample_tries)) \<le> 1
   \<and> map snd (attempts sample_lib (fst (open_pairing sample_pair_hub [''read''] [9] 0)) sample_tries) =
       [PairAttemptFailed, PairClaimed [''read''] 1, PairClosed]"
proof -
  have "open_pairing sample_pair_hub [''read''] [9] 0 =
      (fst (open_pairing sample_pair_hub [''read''] [9] 0), 1, PAIR_TTL)"
    by (simp add: open_pairing_def sample_pair_hub_def Hub_new_def Hub_with_pair_ttl_def)
  from pairing_window_bounds [OF this, of sample_lib sample_tries "[]" "KeyV4 0"]
  have "length (claims (attempts sample_lib (fst (open_pairing sample_pair_hub [''read''] [9] 0)) sample_tries)) \<le> 1" by blast
  moreover have "map snd (attempts sample_lib (fst (open_pairing sample_pair_hub [''read''] [9] 0)) sample_tries) =
       [PairAttemptFailed, PairClaimed [''read''] 1, PairClosed]"
    by (simp add: sample_tries_def attempt_def attempt_pairing_def open_pairing_def sample_pair_hub_def Hub_new_def
      Hub_with_pair_ttl_def sample_lib_def sample_remote_def PairFailures_default_def tries_def verify_pair_mac_def
      pair_mac_def pair_message_def count_failure_def PAIR_TTL_def second_def PAIR_TRIES_PER_CLIENT_def
      PAIR_TRIES_PER_ADDRESS_def PAIR_TRIES_TOTAL_def PAIR_LABEL_def as_bytes_def)
  ultimately show ?thesis by blast
qed

text \<open>
  Pairing calls are limited per address. After any calls of any addresses, at most five calls of
  one address group are allowed at one instant, however they mix with the calls of others and with
  the pruning of full buckets; and an address whose last call is two seconds ago may call again.
\<close>

theorem pair_rate_limit:
  assumes "f64_rounding lib"
    and "limiter = limiter_after lib (PairRateLimiter_new lib PAIR_RATE_BURST PAIR_RATE_REFILL) before"
  shows "length (filter (\<lambda>(k, _). k = key) (allowed_calls lib limiter (map (\<lambda>k. (k, now)) keys))) \<le> 5
    \<and> (is_some_and (\<lambda>b. bk_updated b + PAIR_RATE_REFILL \<le> now) (tbl_lookup bk_key key (prl_buckets limiter)) \<longrightarrow>
         snd (PairRateLimiter_allow lib limiter key now))"
proof -
  have ok: "limiter_ok lib limiter" using limiter_after_ok [OF assms(1) limiter_new_ok [OF assms(1)]] assms(2) by simp
  have "spendable lib limiter key now 5" by (simp add: spendable_def PAIR_RATE_BURST_def)
  from allowed_at_once [OF assms(1) ok this] allowed_after_refill [OF assms(1) ok] show ?thesis
    by (auto simp: is_some_and_iff)
qed

lemma sample_lib_rounding: "f64_rounding sample_lib"
  by (simp add: f64_rounding_def sample_lib_def mono_def)

theorem pair_rate_limit_witness:
  "length (filter (\<lambda>(k, _). k = KeyV4 1) (allowed_calls sample_lib
      (limiter_after sample_lib (PairRateLimiter_new sample_lib PAIR_RATE_BURST PAIR_RATE_REFILL) [(KeyV4 1, 0)])
      (map (\<lambda>k. (k, 1)) [KeyV4 1, KeyV4 2]))) \<le> 5
   \<and> snd (PairRateLimiter_allow sample_lib
      (limiter_after sample_lib (PairRateLimiter_new sample_lib PAIR_RATE_BURST PAIR_RATE_REFILL) [(KeyV4 1, 0)])
      (KeyV4 1) PAIR_RATE_REFILL)"
proof -
  let ?l = "limiter_after sample_lib (PairRateLimiter_new sample_lib PAIR_RATE_BURST PAIR_RATE_REFILL) [(KeyV4 1, 0)]"
  have "is_some_and (\<lambda>b. bk_updated b + PAIR_RATE_REFILL \<le> PAIR_RATE_REFILL) (tbl_lookup bk_key (KeyV4 1) (prl_buckets ?l))"
    by (simp add: allow_unfold allow_entry_def PairRateLimiter_new_def PAIR_RATE_MAX_ENTRIES_def Let_def)
  then show ?thesis
    using pair_rate_limit [OF sample_lib_rounding refl, where key = "KeyV4 1" and now = 1 and before = "[(KeyV4 1, 0)]"
        and keys = "[KeyV4 1, KeyV4 2]"]
      pair_rate_limit [OF sample_lib_rounding refl, where key = "KeyV4 1" and now = PAIR_RATE_REFILL
        and before = "[(KeyV4 1, 0)]" and keys = "[]"]
    by blast
qed

end
