(* ===== verification/Hub_Remote.thy ===== *)
theory Hub_Remote
  imports Hub_Pairing
begin

text \<open>
  Remote devices, \<^verbatim>\<open>sessiontap-hub/src/remote.rs\<close>: the caps on connections, what a connection knows of
  its device, and every request. A handler takes the hub, the gate and the connection (record
  \<open>World\<close>) and gives them back with what it resolved to; a request that waits for a source or for the
  operator is two functions, before and after the wait. TLS and WebSocket are libraries.
\<close>

section \<open>Limits\<close>

definition PROTOCOL_VERSION :: u64 where
  "PROTOCOL_VERSION = 1"

definition CLOSE_REVOKED :: nat where
  "CLOSE_REVOKED = 4401"

definition CLOSE_SCOPE_WITHDRAWN :: nat where
  "CLOSE_SCOPE_WITHDRAWN = 4403"

definition LAST_SEEN_THROTTLE :: int where
  "LAST_SEEN_THROTTLE = 60 * second"

definition OPERATOR_WAIT_RECHECK :: int where
  "OPERATOR_WAIT_RECHECK = second"

record RemoteLimits =
  lim_ping_interval :: int
  lim_handshake_timeout :: int
  lim_unauthenticated_deadline :: int
  lim_max_connections :: nat
  lim_max_unauthenticated :: nat
  lim_max_unauthenticated_per_address :: nat
  lim_max_inflight_requests :: nat
  lim_write_timeout :: int

definition RemoteLimits_default :: RemoteLimits where
  "RemoteLimits_default =
     \<lparr>lim_ping_interval = 60 * second, lim_handshake_timeout = 10 * second,
      lim_unauthenticated_deadline = 30 * second, lim_max_connections = 64, lim_max_unauthenticated = 16,
      lim_max_unauthenticated_per_address = 4, lim_max_inflight_requests = 8, lim_write_timeout = 30 * second\<rparr>"

section \<open>Admission\<close>

text \<open>Free permits of the two semaphores, and the unauthenticated connections of each address.\<close>

record RemoteGate =
  gt_connections :: nat
  gt_unauthenticated :: nat
  gt_per_address :: "(AddressKey \<times> nat) list"
  gt_max_per_address :: nat

definition RemoteGate_new :: "RemoteLimits \<Rightarrow> RemoteGate" where
  "RemoteGate_new limits =
     \<lparr>gt_connections = lim_max_connections limits, gt_unauthenticated = lim_max_unauthenticated limits,
      gt_per_address = [], gt_max_per_address = lim_max_unauthenticated_per_address limits\<rparr>"

text \<open>\<open>UnauthTicket::drop\<close> with the permit it holds.\<close>

definition drop_ticket :: "RemoteGate \<Rightarrow> AddressKey \<Rightarrow> RemoteGate" where
  "drop_ticket gate key =
     (let gate1 = gate\<lparr>gt_unauthenticated := gt_unauthenticated gate + 1\<rparr>
      in case tbl_lookup fst key (gt_per_address gate1) of
           None \<Rightarrow> gate1
         | Some (_, count) \<Rightarrow>
             gate1\<lparr>gt_per_address := (if count - 1 = 0 then tbl_delete fst key (gt_per_address gate1)
                    else tbl_put fst (key, count - 1) (gt_per_address gate1))\<rparr>)"

text \<open>The gate after an attempt, and the key of the ticket when it is admitted.\<close>

definition admit :: "RemoteGate \<Rightarrow> IpAddr \<Rightarrow> RemoteGate \<times> AddressKey option" where
  "admit gate peer =
     (if gt_connections gate = 0 then (gate, None)
      else if gt_unauthenticated gate = 0 then (gate, None)
      else
        let key = AddressKey_from peer; count = tries key (gt_per_address gate)
        in if count \<ge> gt_max_per_address gate
           then (gate\<lparr>gt_per_address := tbl_put fst (key, count) (gt_per_address gate)\<rparr>, None)
           else (gate\<lparr>gt_connections := gt_connections gate - 1, gt_unauthenticated := gt_unauthenticated gate - 1,
                      gt_per_address := tbl_put fst (key, count + 1) (gt_per_address gate)\<rparr>, Some key))"

record Backoff =
  bo_initial :: int
  bo_max :: int

definition BIND_BACKOFF :: Backoff where
  "BIND_BACKOFF = \<lparr>bo_initial = second, bo_max = 30 * second\<rparr>"

definition Backoff_next :: "Backoff \<Rightarrow> int option \<Rightarrow> int" where
  "Backoff_next backoff previous =
     (case previous of None \<Rightarrow> bo_initial backoff | Some previous \<Rightarrow> min (previous * 2) (bo_max backoff))"

section \<open>A connection\<close>

record Connection =
  cn_handle :: u64
  cn_peer :: IpAddr
  cn_device_spki :: "u8 list option"
  cn_device :: "Device option"
  cn_nonce :: "u8 list option"
  cn_streaming :: bool
  cn_authenticated :: bool
  cn_awaiting_operator :: bool
  cn_ticket :: "AddressKey option"
  cn_requests :: nat
  cn_max_inflight_requests :: nat
  cn_kill :: bool

record World =
  wd_hub :: Hub
  wd_gate :: RemoteGate
  wd_conn :: Connection

abbreviation set_conn :: "World \<Rightarrow> Connection \<Rightarrow> World" where
  "set_conn w c \<equiv> w\<lparr>wd_conn := c\<rparr>"

abbreviation set_hub :: "World \<Rightarrow> Hub \<Rightarrow> World" where
  "set_hub w h \<equiv> w\<lparr>wd_hub := h\<rparr>"

definition Connection_new ::
    "RemoteLimits \<Rightarrow> Hub \<Rightarrow> RemoteGate \<Rightarrow> IpAddr \<Rightarrow> AddressKey \<Rightarrow> u8 list option \<Rightarrow> World" where
  "Connection_new limits hub gate peer ticket spki =
     (case ConnectionHandle_new hub of
        (hub', handle) \<Rightarrow>
          \<lparr>wd_hub = hub', wd_gate = gate,
           wd_conn = \<lparr>cn_handle = handle, cn_peer = peer, cn_device_spki = spki, cn_device = None, cn_nonce = None,
             cn_streaming = False, cn_authenticated = False, cn_awaiting_operator = False, cn_ticket = Some ticket,
             cn_requests = 1, cn_max_inflight_requests = lim_max_inflight_requests limits, cn_kill = False\<rparr>\<rparr>)"

text \<open>\<open>try_send\<close>: the queue of the connection is the one the relay sends to.\<close>

definition Connection_try_send :: "World \<Rightarrow> World" where
  "Connection_try_send w =
     (let c = wd_conn w; relay = hb_relay (wd_hub w)
      in case rl_room relay (cn_handle c) of
           None \<Rightarrow> w
         | Some 0 \<Rightarrow> if cn_authenticated c then w else set_conn w (c\<lparr>cn_kill := True\<rparr>)
         | Some (Suc n) \<Rightarrow> set_hub w ((wd_hub w)\<lparr>hb_relay := relay\<lparr>rl_room := (rl_room relay)(cn_handle c := Some n)\<rparr>\<rparr>))"

definition authenticate :: "World \<Rightarrow> Device \<Rightarrow> World" where
  "authenticate w device =
     (let c = (wd_conn w)\<lparr>cn_device := Some device\<rparr>
      in if cn_authenticated c then set_conn w c
         else
           \<lparr>wd_hub = register_connection (wd_hub w) (de_device_id device) (cn_handle c),
            wd_gate = (case cn_ticket c of Some key \<Rightarrow> drop_ticket (wd_gate w) key | None \<Rightarrow> wd_gate w),
            wd_conn = c\<lparr>cn_authenticated := True, cn_ticket := None,
              cn_requests := cn_requests c + (cn_max_inflight_requests c - 1)\<rparr>\<rparr>)"

definition sha256_hex :: "HubLib \<Rightarrow> u8 list \<Rightarrow> string" where
  "sha256_hex lib bytes = hl_hex lib (hl_sha256 lib bytes)"

definition current_device :: "HubLib \<Rightarrow> World \<Rightarrow> World \<times> Device option" where
  "current_device lib w =
     (case cn_device_spki (wd_conn w) of
        None \<Rightarrow> (w, None)
      | Some spki \<Rightarrow>
          (case device_by_spki (hb_store (wd_hub w)) (sha256_hex lib spki) of
             Some device \<Rightarrow> (authenticate w device, Some device)
           | None \<Rightarrow> (set_conn w ((wd_conn w)\<lparr>cn_device := None\<rparr>), None)))"

section \<open>Requests\<close>

definition ok_response :: "Json \<Rightarrow> Json \<Rightarrow> Json" where
  "ok_response i result = JObject [(''id'', i), (''result'', result)]"

definition error_response :: "Json \<Rightarrow> string \<Rightarrow> string \<Rightarrow> Json" where
  "error_response i code message =
     JObject [(''error'', JObject [(''code'', JString code), (''message'', JString message)]), (''id'', i)]"

definition relay_error :: "Json \<Rightarrow> RelayError \<Rightarrow> Json" where
  "relay_error i error = error_response i (re_code error) (re_message error)"

datatype TerminalWait = WaitOpen Pending | WaitInput Pending

datatype Dispatch = Respond Json | DispatchListen Json | DispatchTerminal Json TerminalWait | Silent

abbreviation set_relay :: "World \<Rightarrow> Relay \<Rightarrow> World" where
  "set_relay w r \<equiv> w\<lparr>wd_hub := (wd_hub w)\<lparr>hb_relay := r\<rparr>\<rparr>"

definition terminal_open :: "World \<Rightarrow> Json \<Rightarrow> Json \<Rightarrow> World \<times> Dispatch" where
  "terminal_open w i params =
     (case (get_str ''source_id'' params, get_str ''invocation_id'' params) of
        (Some source_id, Some invocation_id) \<Rightarrow>
          if \<not> has_agent (hb_store (wd_hub w)) source_id invocation_id
          then (w, Respond (error_response i ''not_found'' (''no agent '' @ source_id @ ''/'' @ invocation_id)))
          else
            (case Relay_open (hb_relay (wd_hub w)) (cn_handle (wd_conn w)) source_id invocation_id of
               (relay, Inr pending) \<Rightarrow>
                 (let w1 = set_relay w relay
                  in (set_hub w1 (add_stream_scope (wd_hub w1) (cn_handle (wd_conn w1)) ScopeWatch),
                      DispatchTerminal i (WaitOpen pending)))
             | (relay, Inl error) \<Rightarrow> (set_relay w relay, Respond (relay_error i error)))
      | _ \<Rightarrow> (w, Respond (error_response i ''bad_request'' ''terminal.open needs source_id and invocation_id'')))"

definition stream_param :: "Json \<Rightarrow> u64 option" where
  "stream_param params = Option.bind (get ''stream'' params) as_u64"

definition decode_input :: "HubLib \<Rightarrow> Json \<Rightarrow> string + TerminalInput" where
  "decode_input lib value = result_bind (hl_raw_input lib value) TerminalInput_try_from"

definition terminal_input :: "HubLib \<Rightarrow> World \<Rightarrow> Json \<Rightarrow> Json \<Rightarrow> World \<times> Dispatch" where
  "terminal_input lib w i params =
     (case stream_param params of
        None \<Rightarrow> (w, Respond (error_response i ''bad_request'' ''terminal.input needs a stream''))
      | Some stream \<Rightarrow>
          (case (get ''keys'' params, get ''paste'' params) of
             (None, None) \<Rightarrow> (w, Respond (error_response i ''bad_request''
                ''terminal.input needs exactly one of keys or paste''))
           | (Some _, Some _) \<Rightarrow> (w, Respond (error_response i ''bad_request''
                ''terminal.input needs exactly one of keys or paste''))
           | (keys, paste) \<Rightarrow>
               (case decode_input lib (case keys of
                    Some value \<Rightarrow> JObject [(''keys'', value)]
                  | None \<Rightarrow> JObject [(''paste'', the paste)]) of
                  Inl error \<Rightarrow> (w, Respond (error_response i ''bad_request'' error))
                | Inr input \<Rightarrow>
                    (case Relay_input (hb_relay (wd_hub w)) (cn_handle (wd_conn w)) stream input of
                       (relay, Inr pending) \<Rightarrow> (set_relay w relay, DispatchTerminal i (WaitInput pending))
                     | (relay, Inl error) \<Rightarrow> (set_relay w relay, Respond (relay_error i error))))))"

definition terminal_close :: "World \<Rightarrow> Json \<Rightarrow> Json \<Rightarrow> World \<times> Dispatch" where
  "terminal_close w i params =
     (case stream_param params of
        None \<Rightarrow> (w, Respond (error_response i ''bad_request'' ''terminal.close needs a stream''))
      | Some stream \<Rightarrow>
          (case Relay_close (hb_relay (wd_hub w)) (cn_handle (wd_conn w)) stream of
             (relay, Inr _) \<Rightarrow> (set_relay w relay, Respond (ok_response i (JObject [])))
           | (relay, Inl error) \<Rightarrow> (set_relay w relay, Respond (relay_error i error))))"

text \<open>After the wait: the response and, for an opened stream, its number to activate.\<close>

definition terminal_answer :: "World \<Rightarrow> Json \<Rightarrow> TerminalWait \<Rightarrow> Waited \<Rightarrow> World \<times> Json \<times> u64 option" where
  "terminal_answer w i wait waited =
     (let internal = error_response i ''internal'' ''unexpected source answer'';
          relay = hb_relay (wd_hub w)
      in case wait of
           WaitOpen pending \<Rightarrow>
             (case Relay_answer relay pending waited of
                (relay', answer) \<Rightarrow>
                  let kept = set_relay w relay';
                      abandoned = set_relay w (Relay_abandon relay' (pd_stream pending))
                  in (case answer of
                        Inr AnswerOpened \<Rightarrow>
                          (kept, ok_response i (JObject [(''stream'', JNumber (PosInt (pd_stream pending)))]),
                           Some (pd_stream pending))
                      | Inr (AnswerError code message) \<Rightarrow> (abandoned, error_response i code message, None)
                      | Inr (AnswerInput _) \<Rightarrow> (abandoned, internal, None)
                      | Inl error \<Rightarrow> (abandoned, relay_error i error, None)))
         | WaitInput pending \<Rightarrow>
             (case Relay_answer relay pending waited of
                (relay', answer) \<Rightarrow>
                  (set_relay w relay', case answer of
                      Inr (AnswerInput None) \<Rightarrow> ok_response i (JObject [])
                    | Inr (AnswerInput (Some code)) \<Rightarrow> error_response i code ''input refused by the source''
                    | Inr (AnswerError code _) \<Rightarrow> error_response i code ''input refused by the source''
                    | Inr AnswerOpened \<Rightarrow> internal
                    | Inl error \<Rightarrow> relay_error i error, None)))"

definition hub_info :: "HubLib \<Rightarrow> Hub \<Rightarrow> Json \<Rightarrow> Scope list \<Rightarrow> Json" where
  "hub_info lib hub i scopes =
     (case hb_remote hub of
        None \<Rightarrow> error_response i ''internal'' ''remote access is not configured''
      | Some remote \<Rightarrow> ok_response i (JObject
          [(''endpoints'', JArray (map JString (RemoteInfo_endpoints lib remote))),
           (''hub_id'', JString (ri_hub_id remote)),
           (''hub_name'', JString (ri_hub_name remote)),
           (''protocol'', JNumber (PosInt PROTOCOL_VERSION)),
           (''scopes'', JArray (map JString (Scope_names scopes)))]))"

definition remote_forget :: "World \<Rightarrow> Json \<Rightarrow> Json \<Rightarrow> timestamp \<Rightarrow> (HubError \<Rightarrow> string) \<Rightarrow> World \<times> Json" where
  "remote_forget w i params now show_error =
     (case (get_str ''source_id'' params, get_str ''invocation_id'' params) of
        (Some source_id, Some invocation_id) \<Rightarrow>
          (case hub_forget (wd_hub w) source_id invocation_id now of
             Inr (hub, Forgotten hub_revision) \<Rightarrow>
               (set_hub w hub, ok_response i (JObject [(''hub_revision'', JNumber (PosInt (of_nat hub_revision)))]))
           | Inr (hub, ForgetNotFound) \<Rightarrow>
               (set_hub w hub, error_response i ''not_found'' (''no agent '' @ source_id @ ''/'' @ invocation_id))
           | Inr (hub, ForgetNotStopped) \<Rightarrow>
               (set_hub w hub, error_response i ''not_stopped'' ''only stopped agents can be forgotten'')
           | Inl error \<Rightarrow> (w, error_response i ''internal'' (show_error error)))
      | _ \<Rightarrow> (w, error_response i ''bad_request'' ''forget needs source_id and invocation_id''))"

text \<open>The scope a method needs: none for \<open>hub.info\<close>, and the outer \<open>None\<close> for an unknown method.\<close>

definition required_scope :: "string \<Rightarrow> Scope option option" where
  "required_scope m =
     (if m = ''hub.info'' then Some None
      else if m = ''listen'' then Some (Some ScopeRead)
      else if m = ''forget'' then Some (Some ScopeManage)
      else if m = ''terminal.open'' \<or> m = ''terminal.close'' then Some (Some ScopeWatch)
      else if m = ''terminal.input'' then Some (Some ScopeControl)
      else None)"

definition remote_listen :: "World \<Rightarrow> Json \<Rightarrow> World \<times> Dispatch" where
  "remote_listen w i =
     (let c = wd_conn w; w1 = set_conn w (c\<lparr>cn_streaming := True\<rparr>)
      in if cn_streaming c then (w1, Respond (error_response i ''bad_request'' ''already listening''))
         else (set_hub w1 (add_stream_scope (wd_hub w1) (cn_handle c) ScopeRead), DispatchListen i))"

definition run_method ::
    "HubLib \<Rightarrow> World \<Rightarrow> Json \<Rightarrow> string \<Rightarrow> Json \<Rightarrow> Scope list \<Rightarrow> timestamp \<Rightarrow> (HubError \<Rightarrow> string) \<Rightarrow> World \<times> Dispatch" where
  "run_method lib w i m params effective now show_error =
     (if m = ''hub.info'' then (w, Respond (hub_info lib (wd_hub w) i effective))
      else if m = ''listen'' then remote_listen w i
      else if m = ''terminal.open'' then terminal_open w i params
      else if m = ''terminal.input'' then terminal_input lib w i params
      else if m = ''terminal.close'' then terminal_close w i params
      else (case remote_forget w i params now show_error of (w', response) \<Rightarrow> (w', Respond response)))"

definition device_request ::
    "HubLib \<Rightarrow> World \<Rightarrow> Json \<Rightarrow> string \<Rightarrow> Json \<Rightarrow> timestamp \<Rightarrow> (HubError \<Rightarrow> string) \<Rightarrow> World \<times> Dispatch" where
  "device_request lib w i m params now show_error =
     (if is_withdrawn (wd_hub w) (cn_handle (wd_conn w)) then (w, Silent)
      else
        (case current_device lib w of
           (w1, None) \<Rightarrow> (w1, Respond (error_response i ''unauthorized'' ''this device is not paired''))
         | (w1, Some device) \<Rightarrow>
             (case required_scope m of
                None \<Rightarrow> (w1, Respond (error_response i ''unknown_method'' (''unknown method '' @ quoted m)))
              | Some required \<Rightarrow>
                  let effective = effective_scopes (wd_hub w1) device
                  in (case (case required of Some scope \<Rightarrow> if scope \<in> set effective then None else Some scope
                                           | None \<Rightarrow> None) of
                        Some scope \<Rightarrow> (w1, Respond (error_response i ''forbidden''
                          (quoted m @ '' needs the '' @ quoted (Scope_as_str scope) @ '' scope'')))
                      | None \<Rightarrow> run_method lib w1 i m params effective now show_error))))"

section \<open>Pairing a device\<close>

definition rate_limited :: "Json \<Rightarrow> Json" where
  "rate_limited i = error_response i ''rate_limited'' ''too many pairing calls; slow down''"

definition pair_begin :: "HubLib \<Rightarrow> World \<Rightarrow> Json \<Rightarrow> u8 list \<Rightarrow> int \<Rightarrow> World \<times> Json" where
  "pair_begin lib w i nonce now =
     (case allow_pair_call lib (wd_hub w) (cn_peer (wd_conn w)) now of
        (hub, allowed) \<Rightarrow>
          let w1 = set_hub w hub
          in if \<not> allowed then (w1, rate_limited i)
             else if cn_device_spki (wd_conn w1) = None
             then (w1, error_response i ''pairing_failed'' ''pairing needs a client certificate'')
             else (set_conn w1 ((wd_conn w1)\<lparr>cn_nonce := Some nonce\<rparr>),
                   ok_response i (JObject [(''nonce'', JString (hl_base64 lib nonce))])))"

definition pair_name :: "Json \<Rightarrow> string option" where
  "pair_name params =
     (case map_option trim (get_str ''name'' params) of
        Some name \<Rightarrow> if name \<noteq> [] \<and> length (chars name) \<le> 64 then Some name else None
      | None \<Rightarrow> None)"

text \<open>Up to the confirmation by the operator: a response, or the generation of the claimed window.\<close>

definition pair_claim :: "HubLib \<Rightarrow> World \<Rightarrow> Json \<Rightarrow> Json \<Rightarrow> int \<Rightarrow> World \<times> (Json + u64)" where
  "pair_claim lib w i params now =
     (case allow_pair_call lib (wd_hub w) (cn_peer (wd_conn w)) now of
        (hub, allowed) \<Rightarrow>
          let w1 = set_hub w hub; c = wd_conn w1
          in if \<not> allowed then (w1, Inl (rate_limited i))
             else
               (case cn_device_spki c of
                  None \<Rightarrow> (w1, Inl (error_response i ''pairing_failed'' ''pairing needs a client certificate''))
                | Some device_spki \<Rightarrow>
                    (case (pair_name params, Option.bind (get_str ''mac'' params) (hl_unbase64 lib)) of
                       (Some name, Some mac) \<Rightarrow>
                         (case cn_nonce c of
                            None \<Rightarrow> (w1, Inl (error_response i ''bad_request'' ''call pair.begin first''))
                          | Some nonce \<Rightarrow>
                              let w2 = set_conn w1 (c\<lparr>cn_nonce := None\<rparr>)
                              in (case attempt_pairing lib (wd_hub w2) device_spki (cn_peer c) nonce mac now of
                                    (hub', result) \<Rightarrow>
                                      let w3 = set_hub w2 hub'
                                      in (case result of
                                            PairClaimed _ generation \<Rightarrow>
                                              (w3\<lparr>wd_conn := (wd_conn w3)\<lparr>cn_awaiting_operator := True\<rparr>,
                                                  wd_hub := hub'\<lparr>hb_pair_events := hb_pair_events hub' @
                                                    [(generation, PairEventConfirm name (fingerprint lib device_spki)
                                                        (sha256_hex lib device_spki))]\<rparr>\<rparr>, Inr generation)
                                          | PairClosed \<Rightarrow>
                                              (w3, Inl (error_response i ''pairing_closed'' ''no pairing window is open''))
                                          | PairAttemptFailed \<Rightarrow>
                                              (w3, Inl (error_response i ''pairing_failed'' ''pairing proof did not verify''))
                                          | PairLocked \<Rightarrow>
                                              (w3, Inl (error_response i ''pairing_failed'' ''too many failed pairing attempts'')))))
                     | _ \<Rightarrow> (w1, Inl (error_response i ''bad_request''
                          ''pair.complete needs a name (1-64 characters) and a base64url mac'')))))"

text \<open>
  After it: the command that opened the window is gone, or it decided. A decision is the device, a
  refusal, or lost with its sender.
\<close>

datatype Decision = CommandGone | Decided "Device option" | DecisionLost

definition pair_decided :: "World \<Rightarrow> Json \<Rightarrow> Decision \<Rightarrow> World \<times> Json" where
  "pair_decided w i decision =
     (let rest = (\<lambda>w. set_conn w ((wd_conn w)\<lparr>cn_awaiting_operator := False\<rparr>))
      in case decision of
           CommandGone \<Rightarrow> (rest w, error_response i ''pairing_closed'' ''the pairing command went away'')
         | Decided (Some device) \<Rightarrow>
             (rest (authenticate w device), ok_response i (JObject
                [(''device_id'', JString (de_device_id device)),
                 (''hub_name'', JString (case hb_remote (wd_hub w) of Some remote \<Rightarrow> ri_hub_name remote | None \<Rightarrow> []))]))
         | _ \<Rightarrow> (rest w, error_response i ''pairing_rejected'' ''the operator rejected pairing''))"

section \<open>One request frame\<close>

datatype Handled = HandledSilent | HandledDispatch Dispatch | HandledClaim Json u64

text \<open>\<open>handle_request\<close> up to the first wait; the text is what it decodes to.\<close>

definition handle_request ::
    "HubLib \<Rightarrow> World \<Rightarrow> Json option \<Rightarrow> u8 list \<Rightarrow> int \<Rightarrow> timestamp \<Rightarrow> (HubError \<Rightarrow> string) \<Rightarrow> World \<times> Handled" where
  "handle_request lib w text nonce instant now show_error =
     (if is_revoked (wd_hub w) (cn_handle (wd_conn w)) then (w, HandledSilent)
      else
        (case text of
           None \<Rightarrow> (w, HandledDispatch (Respond (error_response JNull ''bad_request'' ''malformed JSON'')))
         | Some request \<Rightarrow>
             let i = unwrap_or (get ''id'' request) JNull;
                 params = unwrap_or (get ''params'' request) JNull
             in (case (as_u64 i, get_str ''method'' request) of
                   (Some _, Some m) \<Rightarrow>
                     if params \<noteq> JNull \<and> as_object params = None
                     then (w, HandledDispatch (Respond (error_response i ''bad_request'' ''params must be an object'')))
                     else if m = ''pair.begin''
                     then (case pair_begin lib w i nonce instant of (w', response) \<Rightarrow> (w', HandledDispatch (Respond response)))
                     else if m = ''pair.complete''
                     then (case pair_claim lib w i params instant of
                             (w', Inl response) \<Rightarrow> (w', HandledDispatch (Respond response))
                           | (w', Inr generation) \<Rightarrow> (w', HandledClaim i generation))
                     else (case device_request lib w i m params now show_error of
                             (w', dispatch) \<Rightarrow> (w', HandledDispatch dispatch))
                 | _ \<Rightarrow> (w, HandledDispatch (Respond
                     (error_response i ''bad_request'' ''a request needs a numeric id and a method''))))))"

section \<open>The loop of a connection\<close>

record Loop =
  lp_deadline_armed :: bool
  lp_deadline :: int
  lp_awaiting_pong :: bool
  lp_last_touch :: int

datatype WsMessage = WsText "Json option" | WsBinary | WsPong | WsClose | WsOther | WsFailed

datatype LoopEvent = LoopIncoming "WsMessage option" | LoopOutbound bool | LoopPing bool | LoopWoken

datatype LoopResult = LoopContinue | LoopSpawn "Json option" | LoopClose nat string | LoopEnded | LoopFailed

text \<open>A policy violation closes with 1008. Dropped permits and answers to a full budget are the caller's.\<close>

definition on_incoming :: "World \<Rightarrow> Loop \<Rightarrow> WsMessage option \<Rightarrow> int \<Rightarrow> timestamp \<Rightarrow> World \<times> Loop \<times> LoopResult" where
  "on_incoming w loop message instant now =
     (let c = wd_conn w
      in case message of
           Some (WsText text) \<Rightarrow>
             if cn_requests c > 0 then (set_conn w (c\<lparr>cn_requests := cn_requests c - 1\<rparr>), loop, LoopSpawn text)
             else if \<not> cn_authenticated c then (set_conn w (c\<lparr>cn_kill := True\<rparr>), loop, LoopContinue)
             else (Connection_try_send w, loop, LoopContinue)
         | Some WsBinary \<Rightarrow> (Connection_try_send w, loop, LoopContinue)
         | Some WsPong \<Rightarrow>
             let loop1 = loop\<lparr>lp_awaiting_pong := False\<rparr>
             in (case cn_device c of
                   Some device \<Rightarrow>
                     if instant - lp_last_touch loop1 \<ge> LAST_SEEN_THROTTLE
                     then (set_hub w ((wd_hub w)\<lparr>hb_store := touch_device (hb_store (wd_hub w)) (de_device_id device) now\<rparr>),
                           loop1\<lparr>lp_last_touch := instant\<rparr>, LoopContinue)
                     else (w, loop1, LoopContinue)
                 | None \<Rightarrow> (w, loop1, LoopContinue))
         | Some WsClose \<Rightarrow> (w, loop, LoopEnded)
         | None \<Rightarrow> (w, loop, LoopEnded)
         | Some WsOther \<Rightarrow> (w, loop, LoopContinue)
         | Some WsFailed \<Rightarrow> (w, loop, LoopFailed))"

text \<open>One turn; the branches are tried in the order of the biased \<open>select!\<close>.\<close>

definition loop_turn ::
    "World \<Rightarrow> Loop \<Rightarrow> LoopEvent \<Rightarrow> int \<Rightarrow> timestamp \<Rightarrow> World \<times> Loop \<times> LoopResult" where
  "loop_turn w loop event instant now =
     (let c = wd_conn w;
          loop = (if lp_deadline_armed loop \<and> cn_authenticated c then loop\<lparr>lp_deadline_armed := False\<rparr> else loop)
      in if is_revoked (wd_hub w) (cn_handle c)
         then (set_conn w (c\<lparr>cn_device := None\<rparr>), loop, LoopClose CLOSE_REVOKED ''device revoked'')
         else if is_withdrawn (wd_hub w) (cn_handle c)
         then (w, loop, LoopClose CLOSE_SCOPE_WITHDRAWN ''scope withdrawn'')
         else if cn_kill c then (w, loop, LoopClose 1008 ''policy violation'')
         else if lp_deadline_armed loop \<and> instant \<ge> lp_deadline loop
         then if cn_awaiting_operator c
              then (w, loop\<lparr>lp_deadline := instant + OPERATOR_WAIT_RECHECK\<rparr>, LoopContinue)
              else (w, loop, LoopClose 1008 ''not authenticated in time'')
         else (case event of
                 LoopOutbound written \<Rightarrow> (w, loop, if written then LoopContinue else LoopFailed)
               | LoopIncoming message \<Rightarrow> on_incoming w loop message instant now
               | LoopPing written \<Rightarrow>
                   if lp_awaiting_pong loop then (w, loop, LoopEnded)
                   else (w, loop\<lparr>lp_awaiting_pong := True\<rparr>, if written then LoopContinue else LoopFailed)
               | LoopWoken \<Rightarrow> (w, loop, LoopContinue)))"

definition Loop_new :: "RemoteLimits \<Rightarrow> int \<Rightarrow> int \<Rightarrow> Loop" where
  "Loop_new limits accepted_at instant =
     \<lparr>lp_deadline_armed = True, lp_deadline = accepted_at + lim_unauthenticated_deadline limits,
      lp_awaiting_pong = False, lp_last_touch = instant\<rparr>"

text \<open>
  The beginning and the end of \<open>serve_connection\<close>. At the end the ticket, when it is still held, and
  the place in the cap are dropped.
\<close>

definition connection_start ::
    "HubLib \<Rightarrow> RemoteLimits \<Rightarrow> Hub \<Rightarrow> RemoteGate \<Rightarrow> IpAddr \<Rightarrow> AddressKey \<Rightarrow> u8 list option \<Rightarrow> timestamp \<Rightarrow> World" where
  "connection_start lib limits hub gate peer ticket spki now =
     (case current_device lib (Connection_new limits hub gate peer ticket spki) of
        (w, None) \<Rightarrow> w
      | (w, Some device) \<Rightarrow>
          set_hub w ((wd_hub w)\<lparr>hb_store := touch_device (hb_store (wd_hub w)) (de_device_id device) now\<rparr>))"

definition connection_end :: "World \<Rightarrow> World" where
  "connection_end w =
     (let c = wd_conn w;
          revoked = is_revoked (wd_hub w) (cn_handle c);
          hub1 = drop_connection cancel_revoke (cn_handle c) (wd_hub w);
          hub2 = (case cn_device c of
                    Some device \<Rightarrow> if revoked then hub1 else unregister_connection hub1 (de_device_id device)
                  | None \<Rightarrow> hub1);
          gate1 = (case cn_ticket c of Some key \<Rightarrow> drop_ticket (wd_gate w) key | None \<Rightarrow> wd_gate w)
      in \<lparr>wd_hub = hub2, wd_gate = gate1\<lparr>gt_connections := gt_connections gate1 + 1\<rparr>,
          wd_conn = c\<lparr>cn_ticket := None\<rparr>\<rparr>)"

end
