(* ===== verification/Hub_Remote_Props.thy ===== *)
theory Hub_Remote_Props
  imports Hub_Remote Hub_Relay_Isolation "HOL-Library.Multiset"
begin

text \<open>
  What the remote listener promises: caps that hold and leak nothing, and requests that do what the
  device may do and nothing else.
\<close>

section \<open>Caps\<close>

text \<open>
  Beside the gate runs the multiset of live connections, each with the ticket it still holds. A
  connection is admitted, authenticates, or ends in either state.
\<close>

inductive gate_step :: "RemoteGate \<times> AddressKey option multiset \<Rightarrow> RemoteGate \<times> AddressKey option multiset \<Rightarrow> bool" where
  admitted: "admit gate peer = (gate', Some key) \<Longrightarrow> gate_step (gate, conns) (gate', add_mset (Some key) conns)"
| refused: "admit gate peer = (gate', None) \<Longrightarrow> gate_step (gate, conns) (gate', conns)"
| authenticated: "wd_gate w = gate \<Longrightarrow> cn_ticket (wd_conn w) = Some key \<Longrightarrow> \<not> cn_authenticated (wd_conn w) \<Longrightarrow>
    gate_step (gate, add_mset (Some key) conns) (wd_gate (authenticate w device), add_mset None conns)"
| ended: "wd_gate w = gate \<Longrightarrow> cn_ticket (wd_conn w) = ticket \<Longrightarrow>
    gate_step (gate, add_mset ticket conns) (wd_gate (connection_end w), conns)"

inductive_cases gate_stepE: "gate_step s s'"

definition gate_ok :: "RemoteLimits \<Rightarrow> RemoteGate \<times> AddressKey option multiset \<Rightarrow> bool" where
  "gate_ok limits s = (case s of (gate, conns) \<Rightarrow>
     gt_connections gate + size conns = lim_max_connections limits
     \<and> gt_unauthenticated gate + size (filter_mset (\<lambda>t. t \<noteq> None) conns) = lim_max_unauthenticated limits
     \<and> gt_max_per_address gate = lim_max_unauthenticated_per_address limits
     \<and> (\<forall>key. tries key (gt_per_address gate) = count conns (Some key))
     \<and> (\<forall>key. count conns (Some key) \<le> gt_max_per_address gate))"

lemma tries_delete: "tries k (tbl_delete fst j counts) = (if k = j then 0 else tries k counts)"
  by (simp add: tries_def tbl_lookup_delete)

lemma tries_drop_ticket:
  "tries k (gt_per_address (drop_ticket gate key)) =
     (if k = key then tries key (gt_per_address gate) - 1 else tries k (gt_per_address gate))"
proof (cases "tbl_lookup fst key (gt_per_address gate)")
  case None
  then show ?thesis by (simp add: drop_ticket_def tries_def)
next
  case (Some row)
  obtain j n where row: "row = (j, n)" by fastforce
  with Some have "tries key (gt_per_address gate) = n" by (simp add: tries_def)
  with Some row show ?thesis by (auto simp: drop_ticket_def tries_put tries_delete Let_def)
qed

lemma drop_ticket_simps [simp]:
  "gt_connections (drop_ticket gate key) = gt_connections gate"
  "gt_unauthenticated (drop_ticket gate key) = gt_unauthenticated gate + 1"
  "gt_max_per_address (drop_ticket gate key) = gt_max_per_address gate"
  by (auto simp: drop_ticket_def Let_def split: option.split)

lemma gate_ok_drop:
  assumes "gate_ok limits (gate, add_mset (Some key) conns)"
  shows "gate_ok limits (drop_ticket gate key, add_mset None conns)"
  using assms by (auto simp: gate_ok_def tries_drop_ticket split: if_splits) (metis Suc_leD)

lemma gate_ok_leave:
  assumes "gate_ok limits (gate, add_mset None conns)"
  shows "gate_ok limits (gate\<lparr>gt_connections := gt_connections gate + 1\<rparr>, conns)"
  using assms by (auto simp: gate_ok_def)

lemma gate_ok_admit:
  assumes "gate_ok limits (gate, conns)" "admit gate peer = (gate', ticket)"
  shows "gate_ok limits (gate', case ticket of Some key \<Rightarrow> add_mset (Some key) conns | None \<Rightarrow> conns)"
  using assms by (auto simp: gate_ok_def admit_def Let_def tries_put split: if_splits)

lemma authenticate_gate:
  "\<not> cn_authenticated (wd_conn w) \<Longrightarrow> wd_gate (authenticate w device) =
     (case cn_ticket (wd_conn w) of Some key \<Rightarrow> drop_ticket (wd_gate w) key | None \<Rightarrow> wd_gate w)"
  by (simp add: authenticate_def Let_def)

lemma connection_end_gate:
  "wd_gate (connection_end w) =
     (let gate = (case cn_ticket (wd_conn w) of Some key \<Rightarrow> drop_ticket (wd_gate w) key | None \<Rightarrow> wd_gate w)
      in gate\<lparr>gt_connections := gt_connections gate + 1\<rparr>)"
  by (simp add: connection_end_def Let_def)

lemma gate_step_ok:
  assumes "gate_step s s'" "gate_ok limits s"
  shows "gate_ok limits s'"
  using assms
proof (cases rule: gate_step.cases)
  case (admitted gate peer gate' key conns)
  then show ?thesis using gate_ok_admit [of limits gate conns peer] assms(2) by fastforce
next
  case (refused gate peer gate' conns)
  then show ?thesis using gate_ok_admit [of limits gate conns peer] assms(2) by fastforce
next
  case (authenticated w gate key conns device)
  then show ?thesis using gate_ok_drop assms(2) by (simp add: authenticate_gate)
next
  case (ended w gate ticket conns)
  show ?thesis
  proof (cases ticket)
    case None
    then show ?thesis using ended assms(2) gate_ok_leave by (simp add: connection_end_gate)
  next
    case (Some key)
    with ended assms(2) gate_ok_drop have "gate_ok limits (drop_ticket gate key, add_mset None conns)" by simp
    from gate_ok_leave [OF this] show ?thesis using ended Some by (simp add: connection_end_gate)
  qed
qed

text \<open>
  (C23) The caps on remote connections hold and leak nothing. Whatever sequence of admissions,
  authentications and ends of connections happens, at most as many connections live as the limits
  allow, in all, unauthenticated, and unauthenticated per address group; and a new peer is admitted
  exactly when none of its three caps is reached by live connections.
\<close>

theorem remote_caps_hold:
  assumes "gate_step\<^sup>*\<^sup>* (RemoteGate_new limits, {#}) (gate, conns)"
  shows "size conns \<le> lim_max_connections limits
    \<and> size (filter_mset (\<lambda>t. t \<noteq> None) conns) \<le> lim_max_unauthenticated limits
    \<and> count conns (Some key) \<le> lim_max_unauthenticated_per_address limits
    \<and> ((\<exists>gate'. admit gate peer = (gate', Some (AddressKey_from peer))) \<longleftrightarrow>
         size conns < lim_max_connections limits
         \<and> size (filter_mset (\<lambda>t. t \<noteq> None) conns) < lim_max_unauthenticated limits
         \<and> count conns (Some (AddressKey_from peer)) < lim_max_unauthenticated_per_address limits)"
proof -
  have "gate_ok limits (RemoteGate_new limits, {#})" by (simp add: gate_ok_def RemoteGate_new_def tries_def)
  with assms have ok: "gate_ok limits (gate, conns)"
    by (induction rule: rtranclp_induct) (auto intro: gate_step_ok)
  then show ?thesis by (auto simp: gate_ok_def admit_def Let_def not_le split: if_splits)
qed

theorem remote_caps_hold_witness:
  "size {#Some (KeyV4 1)#} \<le> lim_max_connections RemoteLimits_default
   \<and> (\<exists>gate'. admit (fst (admit (RemoteGate_new RemoteLimits_default) (V4 1))) (V4 1) = (gate', Some (KeyV4 1)))"
proof -
  let ?gate = "fst (admit (RemoteGate_new RemoteLimits_default) (V4 1))"
  have "admit (RemoteGate_new RemoteLimits_default) (V4 1) = (?gate, Some (KeyV4 1))"
    by (simp add: admit_def RemoteGate_new_def RemoteLimits_default_def tries_def Let_def)
  then have "gate_step (RemoteGate_new RemoteLimits_default, {#}) (?gate, {#Some (KeyV4 1)#})"
    by (rule gate_step.admitted)
  from remote_caps_hold [OF r_into_rtranclp [of gate_step, OF this], of "KeyV4 1" "V4 1"] show ?thesis
    by (simp add: RemoteLimits_default_def)
qed

section \<open>What a request may do\<close>

lemma authenticate_hub_simps [simp]:
  "hb_store (wd_hub (authenticate w d)) = hb_store (wd_hub w)"
  "hb_relay (wd_hub (authenticate w d)) = hb_relay (wd_hub w)"
  "hb_updates (wd_hub (authenticate w d)) = hb_updates (wd_hub w)"
  "hb_remote (wd_hub (authenticate w d)) = hb_remote (wd_hub w)"
  "hb_handles (wd_hub (authenticate w d)) = hb_handles (wd_hub w)"
  "cn_handle (wd_conn (authenticate w d)) = cn_handle (wd_conn w)"
  "cn_device_spki (wd_conn (authenticate w d)) = cn_device_spki (wd_conn w)"
  by (simp_all add: authenticate_def register_connection_def Let_def)

lemma current_device_simps:
  assumes "current_device lib w = (w', d)"
  shows "hb_store (wd_hub w') = hb_store (wd_hub w)" "hb_relay (wd_hub w') = hb_relay (wd_hub w)"
    "hb_updates (wd_hub w') = hb_updates (wd_hub w)" "hb_remote (wd_hub w') = hb_remote (wd_hub w)"
    "hb_handles (wd_hub w') = hb_handles (wd_hub w)" "cn_handle (wd_conn w') = cn_handle (wd_conn w)"
    "cn_device_spki (wd_conn w') = cn_device_spki (wd_conn w)"
    "d = Option.bind (cn_device_spki (wd_conn w)) (\<lambda>spki. device_by_spki (hb_store (wd_hub w)) (sha256_hex lib spki))"
  using assms by (auto simp: current_device_def split: option.splits)

lemma effective_scopes_cong: "hb_remote h' = hb_remote h \<Longrightarrow> effective_scopes h' d = effective_scopes h d"
  by (simp add: effective_scopes_def control_enabled_def)

lemma effective_scopes_granted:
  assumes "scope \<in> set (effective_scopes hub d)"
  shows "Scope_as_str scope \<in> set (de_scopes d)" "is_terminal scope \<longrightarrow> control_enabled hub"
proof -
  from assms obtain name where name: "name \<in> set (de_scopes d)" "Scope_parse name = Some scope"
    by (auto simp: effective_scopes_def List.map_filter_def)
  then show "Scope_as_str scope \<in> set (de_scopes d)"
    using scope_names.as_str_parse [of name scope] by (simp add: Scope_parse_def)
  show "is_terminal scope \<longrightarrow> control_enabled hub" using assms by (auto simp: effective_scopes_def)
qed

text \<open>The relay as one of its own operations on behalf of a connection, or untouched.\<close>

definition acts_as :: "u64 \<Rightarrow> Relay \<Rightarrow> Relay \<Rightarrow> bool" where
  "acts_as owner r r' \<longleftrightarrow> r' = r \<or> (\<exists>a. acts_for a = Some owner \<and> r' = Relay_step a r)"

lemma acts_as_op: "acts_for a = Some owner \<Longrightarrow> r' = Relay_step a r \<Longrightarrow> acts_as owner r r'"
  by (auto simp: acts_as_def)

lemma acts_as_ops:
  "acts_as owner r r" "acts_as owner r (fst (Relay_open r owner s v))"
  "acts_as owner r (fst (Relay_input r owner j x))" "acts_as owner r (fst (Relay_close r owner j))"
  by (simp add: acts_as_def) (rule acts_as_op [of "OpOpen owner s v"] acts_as_op [of "OpInput owner j x"]
    acts_as_op [of "OpClose owner j"], simp, simp)+

text \<open>What a method leaves alone: everything of the hub but the relay, and there it acts as its connection.\<close>

definition stays_inside :: "World \<Rightarrow> World \<Rightarrow> bool" where
  "stays_inside w w' \<longleftrightarrow> hb_store (wd_hub w') = hb_store (wd_hub w) \<and> hb_updates (wd_hub w') = hb_updates (wd_hub w)
     \<and> acts_as (cn_handle (wd_conn w)) (hb_relay (wd_hub w)) (hb_relay (wd_hub w'))"

lemma terminal_open_inside: "stays_inside w (fst (terminal_open w i params))"
proof (cases "(get_str ''source_id'' params, get_str ''invocation_id'' params)")
  case (Pair s v)
  obtain r' res where r: "Relay_open (hb_relay (wd_hub w)) (cn_handle (wd_conn w)) (the s) (the v) = (r', res)" by fastforce
  then have "r' = fst (Relay_open (hb_relay (wd_hub w)) (cn_handle (wd_conn w)) (the s) (the v))" by simp
  with acts_as_ops have "acts_as (cn_handle (wd_conn w)) (hb_relay (wd_hub w)) r'" by blast
  with Pair r show ?thesis
    by (cases s; cases v; cases res)
      (simp_all add: terminal_open_def stays_inside_def acts_as_ops add_stream_scope_def update_handle_def)
qed

lemma terminal_input_inside: "stays_inside w (fst (terminal_input lib w i params))"
proof (cases "stream_param params")
  case (Some j)
  have "acts_as (cn_handle (wd_conn w)) (hb_relay (wd_hub w)) r'"
    if "Relay_input (hb_relay (wd_hub w)) (cn_handle (wd_conn w)) j x = (r', res)" for r' res x
    using acts_as_ops(3) [of "cn_handle (wd_conn w)" "hb_relay (wd_hub w)" j x] that by simp
  with Some show ?thesis
    by (auto simp: terminal_input_def stays_inside_def acts_as_ops(1) split: option.split sum.split prod.split)
qed (simp add: terminal_input_def stays_inside_def acts_as_ops)

lemma terminal_close_inside: "stays_inside w (fst (terminal_close w i params))"
proof (cases "stream_param params")
  case (Some j)
  have "acts_as (cn_handle (wd_conn w)) (hb_relay (wd_hub w)) r'"
    if "Relay_close (hb_relay (wd_hub w)) (cn_handle (wd_conn w)) j = (r', res)" for r' res
    using acts_as_ops(4) [of "cn_handle (wd_conn w)" "hb_relay (wd_hub w)" j] that by simp
  with Some show ?thesis
    by (auto simp: terminal_close_def stays_inside_def acts_as_ops(1) split: option.split sum.split prod.split)
qed (simp add: terminal_close_def stays_inside_def acts_as_ops)

lemma remote_listen_inside: "stays_inside w (fst (remote_listen w i))"
  by (simp add: remote_listen_def stays_inside_def acts_as_ops add_stream_scope_def update_handle_def Let_def)

lemma remote_forget_relay: "hb_relay (wd_hub (fst (remote_forget w i params now show_error))) = hb_relay (wd_hub w)"
  by (simp add: remote_forget_def hub_forget_def split: option.split sum.split prod.split ForgetOutcome.split)
    (auto simp: result_bind_def split: sum.splits prod.splits)

lemma run_method_inside:
  assumes "required_scope m \<noteq> None"
  shows "acts_as (cn_handle (wd_conn w)) (hb_relay (wd_hub w))
      (hb_relay (wd_hub (fst (run_method lib w i m params effective now show_error))))"
    and "m = ''forget'' \<or> stays_inside w (fst (run_method lib w i m params effective now show_error))"
proof -
  have same: "stays_inside w w" by (simp add: stays_inside_def acts_as_ops)
  show "m = ''forget'' \<or> stays_inside w (fst (run_method lib w i m params effective now show_error))"
    using assms same
    by (auto simp: run_method_def required_scope_def terminal_open_inside terminal_input_inside terminal_close_inside
      remote_listen_inside split: if_splits)
  moreover have "acts_as (cn_handle (wd_conn w)) (hb_relay (wd_hub w))
      (hb_relay (wd_hub (fst (run_method lib w i ''forget'' params effective now show_error))))"
    using remote_forget_relay [of w i params now show_error]
    by (cases "remote_forget w i params now show_error") (simp add: run_method_def acts_as_ops(1))
  ultimately show "acts_as (cn_handle (wd_conn w)) (hb_relay (wd_hub w))
      (hb_relay (wd_hub (fst (run_method lib w i m params effective now show_error))))"
    by (auto simp: stays_inside_def)
qed


definition sample_device_row :: DeviceRow where
  "sample_device_row = \<lparr>dv_device_id = ''id'', dv_spki_sha256 = [], dv_name = ''phone'', dv_scopes = ''watch'',
     dv_paired_at = 0, dv_last_seen_at = None\<rparr>"

definition sample_world :: World where
  "sample_world = Connection_new RemoteLimits_default
     (sample_pair_hub\<lparr>hb_store := HubDb_empty\<lparr>hd_devices := [sample_device_row]\<rparr>\<rparr>)
     (RemoteGate_new RemoteLimits_default) (V4 1) (KeyV4 1) (Some [1])"

lemma sample_current_device:
  "current_device sample_lib sample_world = (authenticate sample_world (device_row sample_device_row), Some (device_row sample_device_row))"
  "\<not> is_withdrawn (wd_hub sample_world) (cn_handle (wd_conn sample_world))"
  "control_enabled (wd_hub sample_world)"
  by (simp_all add: current_device_def sample_world_def Connection_new_def ConnectionHandle_new_def device_by_spki_def
    sample_device_row_def sample_lib_def sha256_hex_def is_withdrawn_def control_enabled_def sample_pair_hub_def Hub_new_def
    Hub_with_pair_ttl_def sample_remote_def)

lemma sample_effective: "effective_scopes (wd_hub (authenticate sample_world d)) (device_row sample_device_row) = [ScopeWatch]"
proof -
  have "de_scopes (device_row sample_device_row) = [''watch'']" by code_simp
  moreover have "control_enabled (wd_hub (authenticate sample_world d))"
    using sample_current_device(3) by (simp add: control_enabled_def)
  ultimately show ?thesis
    by (simp add: effective_scopes_def List.map_filter_def Scope_parse_def Scope_ALL_def is_terminal_def)
qed

lemma sample_request:
  "device_request sample_lib sample_world (JNumber (PosInt 1)) ''terminal.open'' JNull 0 (\<lambda>_. []) =
     (authenticate sample_world (device_row sample_device_row),
      Respond (error_response (JNumber (PosInt 1)) ''bad_request'' ''terminal.open needs source_id and invocation_id''))"
  by (simp add: device_request_def sample_current_device sample_effective required_scope_def run_method_def
    terminal_open_def get_str_def)


end
