(* ===== verification/Hub_Access.thy ===== *)
theory Hub_Access
  imports Hub_Remote_Props
begin

text \<open>
  The remote side as a whole: hub, gate and every live connection, with a step for each thing that
  can happen to them. The invariant says who may have a terminal open.
\<close>

record System =
  sy_hub :: Hub
  sy_gate :: RemoteGate
  sy_conns :: "Connection list"

abbreviation world :: "System \<Rightarrow> Connection \<Rightarrow> World" where
  "world s c \<equiv> \<lparr>wd_hub = sy_hub s, wd_gate = sy_gate s, wd_conn = c\<rparr>"

definition store_world :: "System \<Rightarrow> World \<Rightarrow> System" where
  "store_world s w = s\<lparr>sy_hub := wd_hub w, sy_gate := wd_gate w, sy_conns := tbl_put cn_handle (wd_conn w) (sy_conns s)\<rparr>"

text \<open>
  A step: a new connection, a request frame up to its first wait, the decision of the operator, a turn
  of a loop, the end of a connection; a command on the Unix socket, opening a window, the end of a
  pairing conversation; a change of the store that is not about devices; and every operation of the
  relay that sources, waits and queues make.
\<close>

inductive sys_step :: "HubLib \<Rightarrow> RemoteLimits \<Rightarrow> System \<Rightarrow> System \<Rightarrow> bool" for lib limits where
  connect: "admit (sy_gate s) peer = (gate, Some key) \<Longrightarrow> unat (hb_next_handle (sy_hub s)) + 1 < 2 ^ 64 \<Longrightarrow>
    sys_step lib limits s (store_world s (connection_start lib limits (sy_hub s) gate peer key spki now))"
| request: "tbl_lookup cn_handle h (sy_conns s) = Some c \<Longrightarrow>
    handle_request lib (world s c) frame nonce instant now show_error = (w', handled) \<Longrightarrow>
    sys_step lib limits s (store_world s w')"
| decided: "tbl_lookup cn_handle h (sy_conns s) = Some c \<Longrightarrow> cn_device_spki c = Some spki \<Longrightarrow>
    (\<forall>d. decision = Decided (Some d) \<longrightarrow> de_device_id d = device_id (sha256_hex lib spki)) \<Longrightarrow>
    pair_decided (world s c) i decision = (w', response) \<Longrightarrow>
    sys_step lib limits s (store_world s w')"
| turn: "tbl_lookup cn_handle h (sy_conns s) = Some c \<Longrightarrow>
    loop_turn (world s c) loop event instant now = (w', loop', result) \<Longrightarrow>
    sys_step lib limits s (store_world s w')"
| finish: "tbl_lookup cn_handle h (sy_conns s) = Some c \<Longrightarrow> connection_end (world s c) = w' \<Longrightarrow>
    sys_step lib limits s (s\<lparr>sy_hub := wd_hub w', sy_gate := wd_gate w', sy_conns := tbl_delete cn_handle h (sy_conns s)\<rparr>)"
| command: "serve_unix (sy_hub s) line now = Inr (hub, served) \<Longrightarrow> sys_step lib limits s (s\<lparr>sy_hub := hub\<rparr>)"
| start_pairing: "pair_start lib (sy_hub s) scopes secret instant epoch = Inr (hub, response, conversation) \<Longrightarrow>
    sys_step lib limits s (s\<lparr>sy_hub := hub\<rparr>)"
| finish_pairing: "pair_finish (sy_hub s) conversation waited answer now = Inr (hub, responses, decision) \<Longrightarrow>
    sys_step lib limits s (s\<lparr>sy_hub := hub\<rparr>)"
| ingest: "hd_devices db = hd_devices (hb_store (sy_hub s)) \<Longrightarrow>
    sys_step lib limits s (s\<lparr>sy_hub := (sy_hub s)\<lparr>hb_store := db\<rparr>\<rparr>)"
| relay: "acts_for a = None \<Longrightarrow>
    sys_step lib limits s (s\<lparr>sy_hub := (sy_hub s)\<lparr>hb_relay := Relay_step a (hb_relay (sy_hub s))\<rparr>\<rparr>)"

section \<open>The invariant\<close>

definition watch_allowed :: "Hub \<Rightarrow> string \<Rightarrow> bool" where
  "watch_allowed hub key =
     is_some_and (\<lambda>d. ScopeWatch \<in> set (effective_scopes hub d)) (device_by_spki (hb_store hub) key)"

definition may_watch :: "HubLib \<Rightarrow> Hub \<Rightarrow> Connection \<Rightarrow> bool" where
  "may_watch lib hub c = is_some_and (\<lambda>spki. watch_allowed hub (sha256_hex lib spki)) (cn_device_spki c)"

text \<open>An authenticated connection that is not revoked can be found by revocation.\<close>

definition registered :: "HubLib \<Rightarrow> Hub \<Rightarrow> Connection \<Rightarrow> bool" where
  "registered lib hub c \<longleftrightarrow> cn_authenticated c \<longrightarrow> is_some_and (\<lambda>spki. is_revoked hub (cn_handle c)
     \<or> cn_handle c \<in> set (connections_of hub (device_id (sha256_hex lib spki)))) (cn_device_spki c)"

definition handle_ok :: "ConnectionHandle \<Rightarrow> u64 \<Rightarrow> bool" where
  "handle_ok x bound \<longleftrightarrow> (hn_revoke x \<longrightarrow> hn_withdraw x) \<and> hn_id x < bound"

definition scopes_of :: "Hub \<Rightarrow> u64 \<Rightarrow> Scope list" where
  "scopes_of hub h = (case tbl_lookup hn_id h (hb_handles hub) of Some x \<Rightarrow> hn_stream_scopes x | None \<Rightarrow> [])"

definition stream_allowed :: "HubLib \<Rightarrow> Hub \<Rightarrow> Connection list \<Rightarrow> u64 \<Rightarrow> bool" where
  "stream_allowed lib hub conns h \<longleftrightarrow> \<not> is_withdrawn hub h \<and> ScopeWatch \<in> set (scopes_of hub h)
     \<and> is_some_and (\<lambda>c. cn_authenticated c \<and> may_watch lib hub c) (tbl_lookup cn_handle h conns)"

definition hub_ok :: "Hub \<Rightarrow> bool" where
  "hub_ok hub \<longleftrightarrow> (\<forall>r \<in> set (hd_devices (hb_store hub)). dv_device_id r = device_id (dv_spki_sha256 r))
     \<and> (\<forall>x \<in> set (hb_handles hub). handle_ok x (hb_next_handle hub)) \<and> rows_ok (hb_relay hub)"

definition sys_ok :: "HubLib \<Rightarrow> System \<Rightarrow> bool" where
  "sys_ok lib s \<longleftrightarrow> hub_ok (sy_hub s)
     \<and> (\<forall>h c. tbl_lookup cn_handle h (sy_conns s) = Some c \<longrightarrow>
          registered lib (sy_hub s) c \<and> h < hb_next_handle (sy_hub s) \<and> tbl_lookup hn_id h (hb_handles (sy_hub s)) \<noteq> None)
     \<and> (\<forall>j st. tbl_lookup sm_id j (rl_streams (hb_relay (sy_hub s))) = Some st \<longrightarrow>
          stream_allowed lib (sy_hub s) (sy_conns s) (sm_owner st))"

section \<open>Steps that change nothing that matters\<close>

definition device_view :: "Hub \<Rightarrow> (string \<times> string \<times> string) list" where
  "device_view hub = map (\<lambda>r. (dv_device_id r, dv_spki_sha256 r, dv_scopes r)) (hd_devices (hb_store hub))"

lemma tbl_lookup_map:
  assumes "\<And>r. key' (f r) = key r"
  shows "tbl_lookup key' k (map f rows) = map_option f (tbl_lookup key k rows)"
  by (induction rows) (auto simp: assms)

lemma device_view_lookup:
  "map_option (\<lambda>r. (dv_device_id r, dv_spki_sha256 r, dv_scopes r)) (tbl_lookup dv_spki_sha256 k (hd_devices (hb_store hub))) =
     tbl_lookup (\<lambda>(_, k, _). k) k (device_view hub)"
  unfolding device_view_def by (rule tbl_lookup_map [symmetric]) simp

lemma watch_allowed_view:
  "watch_allowed hub key = is_some_and (\<lambda>(_, _, scopes). ScopeWatch \<in>
      set (filter (\<lambda>scope. control_enabled hub \<or> \<not> is_terminal scope)
        (List.map_filter Scope_parse (Scope_names (Scope_parse_stored scopes)))))
     (tbl_lookup (\<lambda>(_, k, _). k) key (device_view hub))"
  unfolding device_view_lookup [symmetric]
  by (simp add: watch_allowed_def device_by_spki_def effective_scopes_def device_row_def is_some_and_def
    split: option.split)

text \<open>What two hubs have in common that the invariant cannot tell apart.\<close>

definition alike :: "Hub \<Rightarrow> Hub \<Rightarrow> bool" where
  "alike h h' \<longleftrightarrow> device_view h' = device_view h \<and> hb_handles h' = hb_handles h \<and> hb_connections h' = hb_connections h
     \<and> hb_next_handle h' = hb_next_handle h \<and> hb_remote h' = hb_remote h
     \<and> rl_streams (hb_relay h') = rl_streams (hb_relay h)"

lemma alike_facts:
  assumes "alike h h'"
  shows "watch_allowed h' = watch_allowed h" "may_watch lib h' = may_watch lib h" "registered lib h' = registered lib h"
    "scopes_of h' = scopes_of h" "is_withdrawn h' = is_withdrawn h" "is_revoked h' = is_revoked h"
    "stream_allowed lib h' = stream_allowed lib h"
proof -
  have "control_enabled h' = control_enabled h" using assms by (simp add: alike_def control_enabled_def)
  then show watch: "watch_allowed h' = watch_allowed h"
    using assms by (simp add: fun_eq_iff watch_allowed_view alike_def)
  then show may: "may_watch lib h' = may_watch lib h" by (simp add: may_watch_def fun_eq_iff)
  show scopes: "scopes_of h' = scopes_of h" using assms by (simp add: fun_eq_iff scopes_of_def alike_def)
  show withdrawn: "is_withdrawn h' = is_withdrawn h" using assms by (simp add: fun_eq_iff is_withdrawn_def alike_def)
  show revoked: "is_revoked h' = is_revoked h" using assms by (simp add: fun_eq_iff is_revoked_def alike_def)
  show "registered lib h' = registered lib h"
    using assms by (simp add: fun_eq_iff registered_def revoked connections_of_def alike_def)
  show "stream_allowed lib h' = stream_allowed lib h" by (simp add: fun_eq_iff stream_allowed_def scopes withdrawn may)
qed

lemma device_view_ids:
  "(\<forall>r \<in> set (hd_devices (hb_store hub)). dv_device_id r = device_id (dv_spki_sha256 r)) \<longleftrightarrow>
   (\<forall>(i, k, _) \<in> set (device_view hub). i = device_id k)"
  by (auto simp: device_view_def)

lemma alike_hub_ok: "alike h h' \<Longrightarrow> hub_ok h \<Longrightarrow> hub_ok h'"
  unfolding hub_ok_def device_view_ids by (simp add: alike_def rows_ok_def)

lemma alike_refl [simp]: "alike h h"
  by (simp add: alike_def)

lemma alike_trans: "alike a b \<Longrightarrow> alike b c \<Longrightarrow> alike a c"
  by (simp add: alike_def)

lemma device_view_touch: "device_view (hub\<lparr>hb_store := touch_device (hb_store hub) i now\<rparr>) = device_view hub"
  by (simp add: device_view_def touch_device_def comp_def if_distrib cong: if_cong)

lemma sys_ok_alike:
  assumes "sys_ok lib s" "alike (sy_hub s) (sy_hub s')" "sy_conns s' = sy_conns s"
  shows "sys_ok lib s'"
proof -
  note same = alike_facts [OF assms(2)]
  have "hb_next_handle (sy_hub s') = hb_next_handle (sy_hub s)" "hb_handles (sy_hub s') = hb_handles (sy_hub s)"
    "rl_streams (hb_relay (sy_hub s')) = rl_streams (hb_relay (sy_hub s))" using assms(2) by (simp_all add: alike_def)
  with assms alike_hub_ok [OF assms(2)] show ?thesis by (simp add: sys_ok_def same)
qed

text \<open>A connection keeps what the invariant sees of it.\<close>

definition same_conn :: "Connection \<Rightarrow> Connection \<Rightarrow> bool" where
  "same_conn c c' \<longleftrightarrow> cn_handle c' = cn_handle c \<and> cn_device_spki c' = cn_device_spki c
     \<and> cn_authenticated c' = cn_authenticated c"

lemma same_conn_facts:
  "same_conn c c' \<Longrightarrow> may_watch lib h c' = may_watch lib h c" "same_conn c c' \<Longrightarrow> registered lib h c' = registered lib h c"
  by (simp_all add: same_conn_def may_watch_def registered_def)

lemma sys_ok_store_alike:
  assumes ok: "sys_ok lib s" and c: "tbl_lookup cn_handle h (sy_conns s) = Some c"
    and w: "alike (sy_hub s) (wd_hub w)" "same_conn c (wd_conn w)"
  shows "sys_ok lib (store_world s w)"
proof -
  have h: "cn_handle (wd_conn w) = h" using tbl_lookup_SomeD [OF c] w(2) by (simp add: same_conn_def)
  have allowed: "stream_allowed lib hub (tbl_put cn_handle (wd_conn w) (sy_conns s)) j = stream_allowed lib hub (sy_conns s) j"
    for hub j
    using c h same_conn_facts(1) [OF w(2)] w(2) by (simp add: stream_allowed_def tbl_lookup_put same_conn_def)
  have mid: "sys_ok lib (s\<lparr>sy_conns := tbl_put cn_handle (wd_conn w) (sy_conns s)\<rparr>)"
    using ok c h same_conn_facts(2) [OF w(2)] by (auto simp: sys_ok_def tbl_lookup_put allowed)
  show ?thesis by (rule sys_ok_alike [OF mid]) (simp_all add: store_world_def w(1))
qed

section \<open>Fewer streams, more scopes\<close>

lemma is_revoked_withdrawn: "hub_ok h \<Longrightarrow> is_revoked h i \<Longrightarrow> is_withdrawn h i"
  by (auto simp: is_revoked_def is_withdrawn_def is_some_and_iff hub_ok_def handle_ok_def dest: tbl_lookup_SomeD)

definition known_handle :: "Hub \<Rightarrow> u64 \<Rightarrow> bool" where
  "known_handle h i \<longleftrightarrow> tbl_lookup hn_id i (hb_handles h) \<noteq> None"

definition grown :: "Hub \<Rightarrow> Hub \<Rightarrow> bool" where
  "grown h h' \<longleftrightarrow> device_view h' = device_view h \<and> hb_connections h' = hb_connections h
     \<and> hb_next_handle h' = hb_next_handle h \<and> hb_remote h' = hb_remote h
     \<and> is_withdrawn h' = is_withdrawn h \<and> is_revoked h' = is_revoked h \<and> known_handle h' = known_handle h
     \<and> (\<forall>i. set (scopes_of h i) \<subseteq> set (scopes_of h' i))"

lemma grown_watch:
  assumes "grown h h'"
  shows "may_watch lib h' = may_watch lib h" "registered lib h' = registered lib h"
proof -
  have "control_enabled h' = control_enabled h" using assms by (simp add: grown_def control_enabled_def)
  then have "watch_allowed h' = watch_allowed h" using assms by (simp add: fun_eq_iff watch_allowed_view grown_def)
  then show "may_watch lib h' = may_watch lib h" by (simp add: may_watch_def fun_eq_iff)
  show "registered lib h' = registered lib h"
    using assms by (simp add: fun_eq_iff registered_def grown_def connections_of_def)
qed

lemma grown_stream_allowed: "grown h h' \<Longrightarrow> stream_allowed lib h conns i \<Longrightarrow> stream_allowed lib h' conns i"
  using grown_watch(1) [of h h' lib] by (auto simp: stream_allowed_def grown_def)

lemma sys_ok_grown:
  assumes ok: "sys_ok lib s" and g: "grown (sy_hub s) hub" "hub_ok hub"
    and streams: "\<And>j st. tbl_lookup sm_id j (rl_streams (hb_relay hub)) = Some st \<Longrightarrow>
      is_some_and (\<lambda>old. sm_owner old = sm_owner st) (tbl_lookup sm_id j (rl_streams (hb_relay (sy_hub s))))
      \<or> stream_allowed lib hub (sy_conns s) (sm_owner st)"
  shows "sys_ok lib (s\<lparr>sy_hub := hub\<rparr>)"
proof -
  have "stream_allowed lib hub (sy_conns s) (sm_owner st)"
    if "tbl_lookup sm_id j (rl_streams (hb_relay hub)) = Some st" for j st
    using streams [OF that] ok grown_stream_allowed [OF g(1)] by (fastforce simp: sys_ok_def is_some_and_iff)
  moreover have "known_handle hub = known_handle (sy_hub s)" "hb_next_handle hub = hb_next_handle (sy_hub s)"
    using g(1) by (simp_all add: grown_def)
  ultimately show ?thesis
    using ok g(2) grown_watch(2) [OF g(1)] by (auto simp: sys_ok_def known_handle_def fun_eq_iff)
qed

lemma step_streams_kept:
  assumes "\<And>owner source v. a \<noteq> OpOpen owner source v"
  shows "streams_kept r (Relay_step a r)"
proof -
  have ends: "streams_kept q (end_channel q i reason)" for q i reason
    unfolding end_channel_def by (rule fold_queues(2)) (simp_all add: push_queues push_kept)
  have mid: "rl_streams b = rl_streams a \<Longrightarrow> streams_kept b c \<Longrightarrow> streams_kept a c" for a b c
    using streams_kept_trans streams_kept_same by blast
  show ?thesis
  proof (cases a)
    case (OpAttach source)
    have "streams_kept r (end_channel (put_channel (r\<lparr>rl_next_id := k\<rparr>) c) i reason)" for k c i reason
      by (rule mid [OF _ ends]) simp
    then show ?thesis
      using OpAttach by (auto simp: Relay_attach_def State_next_def Let_def streams_kept_same split: option.split)
  next
    case (OpDetach source i)
    then show ?thesis unfolding OpDetach Relay_step.simps Relay_detach_def by (intro mid [OF _ ends]) simp
  next
    case (OpOpen owner source v)
    with assms show ?thesis by blast
  next
    case (OpActivate i)
    have "streams_kept r (fold (\<lambda>f r. push r i f) buf (put_stream r (st\<lparr>sm_opening := None\<rparr>)))"
      if "tbl_lookup sm_id i (rl_streams r) = Some st" for st buf
      using streams_kept_put [OF that, of "st\<lparr>sm_opening := None\<rparr>"] tbl_lookup_SomeD [OF that]
        fold_queues(2) [OF push_queues push_kept] streams_kept_trans by fastforce
    then show ?thesis using OpActivate by (auto simp: Relay_activate_def streams_kept_same split: option.split)
  next
    case (OpClose owner i)
    show ?thesis
    proof (cases "is_some_and (\<lambda>s. sm_owner s = owner) (tbl_lookup sm_id i (rl_streams r))")
      case True
      then obtain st where st: "tbl_lookup sm_id i (rl_streams r) = Some st" "sm_owner st = owner" by (auto simp: is_some_and_iff)
      show ?thesis using OpClose Relay_close_effect(1) [OF st] by (auto simp: streams_kept_def split: if_splits)
    qed (use OpClose in \<open>simp add: Relay_close_refused streams_kept_same\<close>)
  next
    case (OpRelease owner)
    then show ?thesis
      using fold_queues(2) [of "\<lambda>i r. remove_stream r i"] by (simp add: release_owner_def queues_same remove_kept)
  next
    case (OpDeliver source i m)
    then show ?thesis by (cases m) (auto simp: push_kept streams_kept_same answer_request_def split: option.split)
  qed (simp_all add: streams_kept_same Relay_input_def Relay_answer_def State_next_def Let_def Relay_abandon_def
    remove_kept split: option.split Waited.split)
qed

lemma streams_kept_owner:
  "streams_kept r r' \<Longrightarrow> tbl_lookup sm_id j (rl_streams r') = Some st \<Longrightarrow>
   is_some_and (\<lambda>old. sm_owner old = sm_owner st) (tbl_lookup sm_id j (rl_streams r))"
  by (fastforce simp: streams_kept_def is_some_and_iff)

lemma sys_ok_relay:
  assumes ok: "sys_ok lib s" and "\<And>owner source v. a \<noteq> OpOpen owner source v"
  shows "sys_ok lib (s\<lparr>sy_hub := (sy_hub s)\<lparr>hb_relay := Relay_step a (hb_relay (sy_hub s))\<rparr>\<rparr>)"
proof (rule sys_ok_grown [OF ok])
  let ?h = "(sy_hub s)\<lparr>hb_relay := Relay_step a (hb_relay (sy_hub s))\<rparr>"
  show "grown (sy_hub s) ?h"
    by (simp add: grown_def device_view_def is_withdrawn_def is_revoked_def known_handle_def scopes_of_def fun_eq_iff)
  show "hub_ok ?h" using ok by (simp add: sys_ok_def hub_ok_def rows_ok_step)
qed (use streams_kept_owner [OF step_streams_kept [OF assms(2)]] in auto)

section \<open>Ending connections\<close>

lemma fold_remove_lookup:
  "tbl_lookup sm_id j (rl_streams (fold (\<lambda>i r. remove_stream r i) ids r)) =
     (if j \<in> set ids then None else tbl_lookup sm_id j (rl_streams r))"
  by (induction ids arbitrary: r) auto

lemma release_owner_lookup:
  assumes "rows_ok r"
  shows "tbl_lookup sm_id j (rl_streams (release_owner r owner)) = Some st \<longleftrightarrow>
    tbl_lookup sm_id j (rl_streams r) = Some st \<and> sm_owner st \<noteq> owner"
proof (cases "tbl_lookup sm_id j (rl_streams r)")
  case None
  then show ?thesis by (simp add: release_owner_def fold_remove_lookup del: set_map)
next
  case (Some old)
  have "j \<in> set (map sm_id (filter (\<lambda>s. sm_owner s = owner) (rl_streams r))) \<longleftrightarrow> sm_owner old = owner"
    using assms lookup_in_filter [OF _ Some, of "\<lambda>s. sm_owner s = owner"] by (simp add: rows_ok_def)
  with Some show ?thesis by (auto simp: release_owner_def fold_remove_lookup simp del: set_map)
qed

lemma update_handle_lookup:
  assumes "\<And>x. hn_id (f x) = hn_id x"
  shows "tbl_lookup hn_id j (hb_handles (update_handle h i f)) =
     map_option (\<lambda>x. if hn_id x = i then f x else x) (tbl_lookup hn_id j (hb_handles h))"
  unfolding update_handle_def using assms by (simp add: tbl_lookup_map [where key = hn_id])

text \<open>What ending connection \<open>i\<close> leaves, by revocation or by withdrawal.\<close>

definition dropped :: "u64 \<Rightarrow> Hub \<Rightarrow> Hub \<Rightarrow> bool" where
  "dropped i h h' \<longleftrightarrow> hb_store h' = hb_store h \<and> hb_connections h' = hb_connections h
     \<and> hb_next_handle h' = hb_next_handle h \<and> hb_remote h' = hb_remote h
     \<and> (\<forall>j. is_withdrawn h' j \<longleftrightarrow> is_withdrawn h j \<or> (j = i \<and> known_handle h i))
     \<and> (\<forall>j. is_revoked h j \<longrightarrow> is_revoked h' j)
     \<and> known_handle h' = known_handle h \<and> scopes_of h' = scopes_of h
     \<and> (\<forall>j st. tbl_lookup sm_id j (rl_streams (hb_relay h')) = Some st \<longrightarrow>
          tbl_lookup sm_id j (rl_streams (hb_relay h)) = Some st \<and> sm_owner st \<noteq> i)"

lemma drop_connection_dropped:
  assumes "hub_ok h" "cancel = cancel_revoke \<or> cancel = cancel_withdraw"
  shows "dropped i h (drop_connection cancel i h)" "hub_ok (drop_connection cancel i h)"
proof -
  have "\<exists>b. \<forall>g i. cancel g i = update_handle g i (\<lambda>x. x\<lparr>hn_revoke := b \<or> hn_revoke x, hn_withdraw := True\<rparr>)"
    using assms(2)
  proof
    assume "cancel = cancel_revoke"
    then show ?thesis by (intro exI [of _ True]) (simp add: cancel_revoke_def)
  next
    assume "cancel = cancel_withdraw"
    then show ?thesis by (intro exI [of _ False]) (simp add: cancel_withdraw_def)
  qed
  then obtain b where
    cancel: "cancel g i = update_handle g i (\<lambda>x. x\<lparr>hn_revoke := b \<or> hn_revoke x, hn_withdraw := True\<rparr>)" for g i
    by blast
  let ?f = "\<lambda>x. x\<lparr>hn_revoke := b \<or> hn_revoke x, hn_withdraw := True\<rparr>"
  have look: "tbl_lookup hn_id j (hb_handles (cancel h i)) =
      map_option (\<lambda>x. if hn_id x = i then ?f x else x) (tbl_lookup hn_id j (hb_handles h))" for j
    unfolding cancel by (rule update_handle_lookup) simp
  have rest: "hb_relay (cancel h i) = hb_relay h" "hb_store (cancel h i) = hb_store h"
    "hb_connections (cancel h i) = hb_connections h" "hb_next_handle (cancel h i) = hb_next_handle h"
    "hb_remote (cancel h i) = hb_remote h" unfolding cancel by (simp_all add: update_handle_def)
  have rows: "rows_ok (hb_relay h)" using assms(1) by (simp add: hub_ok_def)
  show "dropped i h (drop_connection cancel i h)"
    unfolding dropped_def drop_connection_def Let_def
    by (auto simp: rest release_owner_lookup [OF rows] is_withdrawn_def is_revoked_def known_handle_def scopes_of_def
      look fun_eq_iff is_some_and_def split: option.splits dest: tbl_lookup_SomeD)
  have "\<forall>x \<in> set (hb_handles (cancel h i)). handle_ok x (hb_next_handle h)"
    using assms(1) unfolding cancel by (auto simp: update_handle_def hub_ok_def handle_ok_def)
  moreover have "rows_ok (release_owner (hb_relay h) i)" using rows_ok_step [OF rows, of "OpRelease i"] by simp
  ultimately show "hub_ok (drop_connection cancel i h)"
    using assms(1) by (simp add: drop_connection_def Let_def hub_ok_def rest)
qed

lemma dropped_stream:
  assumes "hub_ok h" "dropped i h h'" "stream_allowed lib h conns o'" "o' \<noteq> i"
  shows "stream_allowed lib h' conns o'"
proof -
  have "watch_allowed h' = watch_allowed h"
    using assms(2) by (simp add: fun_eq_iff watch_allowed_def effective_scopes_def control_enabled_def dropped_def)
  then have "may_watch lib h' = may_watch lib h" by (simp add: may_watch_def fun_eq_iff)
  with assms show ?thesis by (simp add: stream_allowed_def dropped_def)
qed

text \<open>Ending a list of connections.\<close>

lemma fold_drop:
  assumes "hub_ok h" "cancel = cancel_revoke \<or> cancel = cancel_withdraw" "h' = fold (drop_connection cancel) ids h"
  shows "hub_ok h'" "hb_store h' = hb_store h" "hb_connections h' = hb_connections h"
    "hb_next_handle h' = hb_next_handle h" "hb_remote h' = hb_remote h" "known_handle h' = known_handle h"
    "scopes_of h' = scopes_of h" "is_withdrawn h' j \<longleftrightarrow> is_withdrawn h j \<or> (j \<in> set ids \<and> known_handle h j)"
    "is_revoked h j \<Longrightarrow> is_revoked h' j"
    "tbl_lookup sm_id k (rl_streams (hb_relay h')) = Some st \<Longrightarrow>
       tbl_lookup sm_id k (rl_streams (hb_relay h)) = Some st \<and> sm_owner st \<notin> set ids"
proof -
  have "hub_ok h' \<and> hb_store h' = hb_store h \<and> hb_connections h' = hb_connections h
    \<and> hb_next_handle h' = hb_next_handle h \<and> hb_remote h' = hb_remote h \<and> known_handle h' = known_handle h
    \<and> scopes_of h' = scopes_of h \<and> (\<forall>j. is_withdrawn h' j \<longleftrightarrow> is_withdrawn h j \<or> (j \<in> set ids \<and> known_handle h j))
    \<and> (\<forall>j. is_revoked h j \<longrightarrow> is_revoked h' j)
    \<and> (\<forall>k st. tbl_lookup sm_id k (rl_streams (hb_relay h')) = Some st \<longrightarrow>
       tbl_lookup sm_id k (rl_streams (hb_relay h)) = Some st \<and> sm_owner st \<notin> set ids)"
    using assms(1,3)
  proof (induction ids arbitrary: h)
    case (Cons i ids)
    note d = drop_connection_dropped [OF Cons.prems(1) assms(2), of i]
    from Cons.IH [OF d(2)] Cons.prems(2) d(1) show ?case by (auto simp: dropped_def) blast+
  qed simp
  then show "hub_ok h'" "hb_store h' = hb_store h" "hb_connections h' = hb_connections h"
    "hb_next_handle h' = hb_next_handle h" "hb_remote h' = hb_remote h" "known_handle h' = known_handle h"
    "scopes_of h' = scopes_of h" "is_withdrawn h' j \<longleftrightarrow> is_withdrawn h j \<or> (j \<in> set ids \<and> known_handle h j)"
    "is_revoked h j \<Longrightarrow> is_revoked h' j"
    "tbl_lookup sm_id k (rl_streams (hb_relay h')) = Some st \<Longrightarrow>
       tbl_lookup sm_id k (rl_streams (hb_relay h)) = Some st \<and> sm_owner st \<notin> set ids" by blast+
qed

lemma fold_revoke: "j \<in> set ids \<Longrightarrow> known_handle h j \<Longrightarrow> hub_ok h \<Longrightarrow> is_revoked (fold (drop_connection cancel_revoke) ids h) j"
proof (induction ids arbitrary: h)
  case (Cons i ids)
  let ?h = "drop_connection cancel_revoke i h"
  note d = drop_connection_dropped [OF Cons.prems(3), of cancel_revoke i]
  have known: "known_handle ?h j" using d(1) Cons.prems(2) by (simp add: dropped_def)
  show ?case
  proof (cases "j \<in> set ids")
    case True
    then show ?thesis using Cons.IH [OF True known] d(2) by simp
  next
    case False
    then have "j = i" using Cons.prems(1) by simp
    then have "is_revoked ?h j"
      using Cons.prems(2) by (auto simp: drop_connection_def Let_def is_revoked_def cancel_revoke_def update_handle_lookup
        known_handle_def dest: tbl_lookup_SomeD)
    then show ?thesis using fold_drop(9) [of ?h cancel_revoke _ ids j] d(2) by simp
  qed
qed simp

section \<open>Revocation\<close>

lemma device_by_spki_deleted:
  assumes ids: "\<forall>r \<in> set rows. dv_device_id r = device_id (dv_spki_sha256 r)" and "device_id k \<noteq> x"
  shows "tbl_lookup dv_spki_sha256 k (tbl_delete dv_device_id x rows) = tbl_lookup dv_spki_sha256 k rows"
  using assms by (induction rows) (auto simp: tbl_delete_def)

lemma sys_ok_revoke:
  assumes ok: "sys_ok lib s"
  shows "sys_ok lib (s\<lparr>sy_hub := fst (Hub_revoke (sy_hub s) prefix)\<rparr>)"
proof (cases "find_device (hb_store (sy_hub s)) prefix")
  case (DeviceFound d)
  let ?h = "sy_hub s" and ?x = "de_device_id d"
  let ?h1 = "?h\<lparr>hb_store := fst (delete_device (hb_store ?h) prefix), hb_connections := tbl_delete fst ?x (hb_connections ?h)\<rparr>"
  let ?ids = "connections_of ?h ?x"
  have store: "hd_devices (fst (delete_device (hb_store ?h) prefix)) = tbl_delete dv_device_id ?x (hd_devices (hb_store ?h))"
    using DeviceFound by (simp add: delete_device_def)
  have hub: "fst (Hub_revoke ?h prefix) = fold (drop_connection cancel_revoke) ?ids ?h1"
    using DeviceFound by (simp add: Hub_revoke_def delete_device_def connections_of_def Let_def)
  have ok1: "hub_ok ?h1" using ok store by (auto simp: sys_ok_def hub_ok_def tbl_delete_def)
  note f = fold_drop [OF ok1 disjI1 [OF refl] hub]
  note f_revoke = fold_revoke [of _ ?ids ?h1, folded hub]
  have view: "known_handle ?h1 = known_handle ?h" "is_withdrawn ?h1 = is_withdrawn ?h" "is_revoked ?h1 = is_revoked ?h"
    "scopes_of ?h1 = scopes_of ?h"
    by (simp_all add: known_handle_def is_withdrawn_def is_revoked_def scopes_of_def fun_eq_iff)
  have ids: "\<forall>r \<in> set (hd_devices (hb_store ?h)). dv_device_id r = device_id (dv_spki_sha256 r)"
    using ok by (simp add: sys_ok_def hub_ok_def)
  have reg: "registered lib (fst (Hub_revoke ?h prefix)) c"
    if c: "tbl_lookup cn_handle h (sy_conns s) = Some c" for h c
  proof -
    have "registered lib ?h c" "known_handle ?h (cn_handle c)"
      using ok c tbl_lookup_SomeD [OF c] by (auto simp: sys_ok_def known_handle_def)
    moreover have "connections_of (fst (Hub_revoke ?h prefix)) y = (if y = ?x then [] else connections_of ?h y)" for y
      by (simp add: connections_of_def f(3) tbl_lookup_delete)
    ultimately show ?thesis
      using f_revoke [of "cn_handle c"] f(9) ok1 by (auto simp: registered_def is_some_and_iff view)
  qed
  have str: "stream_allowed lib (fst (Hub_revoke ?h prefix)) (sy_conns s) (sm_owner st)"
    if st: "tbl_lookup sm_id j (rl_streams (hb_relay (fst (Hub_revoke ?h prefix)))) = Some st" for j st
  proof -
    have old: "tbl_lookup sm_id j (rl_streams (hb_relay ?h)) = Some st" and out: "sm_owner st \<notin> set ?ids"
      using f(10) [OF st] by simp_all
    have allowed: "stream_allowed lib ?h (sy_conns s) (sm_owner st)" using ok old by (simp add: sys_ok_def)
    then obtain c where c: "tbl_lookup cn_handle (sm_owner st) (sy_conns s) = Some c" "cn_authenticated c" "may_watch lib ?h c"
      by (auto simp: stream_allowed_def is_some_and_iff)
    then obtain spki where spki: "cn_device_spki c = Some spki" "watch_allowed ?h (sha256_hex lib spki)"
      by (auto simp: may_watch_def is_some_and_iff)
    have "registered lib ?h c" using ok c(1) by (auto simp: sys_ok_def)
    moreover have "\<not> is_revoked ?h (sm_owner st)"
      using allowed is_revoked_withdrawn ok by (auto simp: stream_allowed_def sys_ok_def)
    ultimately have "device_id (sha256_hex lib spki) \<noteq> ?x"
      using out c spki(1) tbl_lookup_SomeD [OF c(1)] by (auto simp: registered_def)
    then have "device_by_spki (hb_store (fst (Hub_revoke ?h prefix))) (sha256_hex lib spki) =
        device_by_spki (hb_store ?h) (sha256_hex lib spki)"
      by (simp add: f(2) device_by_spki_def store device_by_spki_deleted [OF ids])
    moreover have "effective_scopes (fst (Hub_revoke ?h prefix)) = effective_scopes ?h"
      by (simp add: fun_eq_iff effective_scopes_def control_enabled_def f(5))
    ultimately have "may_watch lib (fst (Hub_revoke ?h prefix)) c"
      using spki by (simp add: may_watch_def watch_allowed_def)
    with allowed c out show ?thesis by (simp add: stream_allowed_def f(7,8) view)
  qed
  show ?thesis using ok reg str f(1,4,6) view(1) by (auto simp: sys_ok_def known_handle_def fun_eq_iff)
next
  case DeviceNotFound
  then show ?thesis by (intro sys_ok_alike [OF ok]) (simp_all add: Hub_revoke_def delete_device_def)
next
  case (DeviceAmbiguous ds)
  then show ?thesis by (intro sys_ok_alike [OF ok]) (simp_all add: Hub_revoke_def delete_device_def)
qed

section \<open>Pairing again\<close>

lemma lost_scope_known: "lost_scope h effective i \<longleftrightarrow> \<not> set (scopes_of h i) \<subseteq> set effective"
  by (auto simp: lost_scope_def scopes_of_def is_some_and_def split: option.split)

lemma fold_lost:
  assumes "hub_ok h"
  shows "fold (\<lambda>i h. if lost_scope h effective i then drop_connection cancel_withdraw i h else h) ids h =
    fold (drop_connection cancel_withdraw) (filter (lost_scope h effective) ids) h"
  using assms
proof (induction ids arbitrary: h)
  case (Cons i ids)
  note d = drop_connection_dropped [OF Cons.prems, of cancel_withdraw i]
  have "lost_scope (drop_connection cancel_withdraw i h) effective = lost_scope h effective"
    using d(1) by (simp add: fun_eq_iff lost_scope_known dropped_def)
  with Cons.IH [of "drop_connection cancel_withdraw i h"] Cons.IH [of h] d(2) Cons.prems show ?case by simp
qed simp

lemma upsert_device_effect:
  assumes "upsert_device db (device_id spki) spki name scopes now = Inr (db', d)"
    and ids: "\<forall>r \<in> set (hd_devices db). dv_device_id r = device_id (dv_spki_sha256 r)"
  shows "\<forall>r \<in> set (hd_devices db'). dv_device_id r = device_id (dv_spki_sha256 r)"
    "de_device_id d = device_id spki" "device_by_spki db' spki = Some d"
    "k \<noteq> spki \<Longrightarrow> device_by_spki db' k = device_by_spki db k"
proof -
  have "(\<forall>r \<in> set (hd_devices db'). dv_device_id r = device_id (dv_spki_sha256 r)) \<and> de_device_id d = device_id spki
    \<and> device_by_spki db' spki = Some d \<and> (k \<noteq> spki \<longrightarrow> device_by_spki db' k = device_by_spki db k)"
  proof (cases "tbl_lookup dv_spki_sha256 spki (hd_devices db)")
    case (Some r)
    let ?r = "r\<lparr>dv_name := name, dv_scopes := join '','' scopes, dv_paired_at := now\<rparr>"
    have r: "r \<in> set (hd_devices db)" "dv_spki_sha256 r = spki" using tbl_lookup_SomeD [OF Some] by simp_all
    have put: "x \<in> set (tbl_put dv_spki_sha256 ?r rows) \<Longrightarrow> x = ?r \<or> x \<in> set rows" for x rows
      by (induction rows) (auto split: if_splits)
    have db': "hd_devices db' = tbl_put dv_spki_sha256 ?r (hd_devices db)" "d = device_row ?r"
      using assms(1) Some by (auto simp: upsert_device_def Let_def)
    have "dv_device_id r = device_id spki" using ids r by auto
    moreover have "\<forall>x \<in> set (hd_devices db'). dv_device_id x = device_id (dv_spki_sha256 x)"
      using put [of _ "hd_devices db"] ids \<open>dv_device_id r = device_id spki\<close> r(2) unfolding db' by fastforce
    ultimately show ?thesis using r(2) by (simp add: db' device_by_spki_def tbl_lookup_put device_row_def)
  next
    case None
    have app: "tbl_lookup key k (rows @ [x]) = (case tbl_lookup key k rows of Some y \<Rightarrow> Some y
       | None \<Rightarrow> if key x = k then Some x else None)" for key :: "DeviceRow \<Rightarrow> string" and k rows x
      by (induction rows) auto
    show ?thesis
      using assms None by (auto simp: upsert_device_def Let_def device_by_spki_def app device_row_def split: if_splits option.split)
  qed
  then show "\<forall>r \<in> set (hd_devices db'). dv_device_id r = device_id (dv_spki_sha256 r)"
    "de_device_id d = device_id spki" "device_by_spki db' spki = Some d"
    "k \<noteq> spki \<Longrightarrow> device_by_spki db' k = device_by_spki db k" by auto
qed

lemma sys_ok_pair_device:
  assumes ok: "sys_ok lib s" and pair: "pair_device (sy_hub s) key name scopes now = Inr (hub, d)"
  shows "sys_ok lib (s\<lparr>sy_hub := hub\<rparr>)"
proof -
  let ?h = "sy_hub s"
  obtain db where up: "upsert_device (hb_store ?h) (device_id key) key name (Scope_names scopes) now = Inr (db, d)"
    using pair by (auto simp: pair_device_def result_bind_def Let_def split: sum.splits prod.splits)
  let ?h1 = "?h\<lparr>hb_store := db\<rparr>" and ?eff = "effective_scopes (?h\<lparr>hb_store := db\<rparr>) d"
  have ids: "\<forall>r \<in> set (hd_devices (hb_store ?h)). dv_device_id r = device_id (dv_spki_sha256 r)"
    using ok by (simp add: sys_ok_def hub_ok_def)
  note u = upsert_device_effect [OF up ids]
  have ok1: "hub_ok ?h1" using ok u(1) by (simp add: sys_ok_def hub_ok_def)
  let ?ids = "filter (lost_scope ?h1 ?eff) (connections_of ?h1 (device_id key))"
  have hub: "hub = fold (drop_connection cancel_withdraw) ?ids ?h1"
    using pair up u(2) by (simp add: pair_device_def Let_def fold_lost [OF ok1])
  note f = fold_drop [OF ok1 disjI2 [OF refl] hub]
  have view: "known_handle ?h1 = known_handle ?h" "is_withdrawn ?h1 = is_withdrawn ?h" "is_revoked ?h1 = is_revoked ?h"
    "scopes_of ?h1 = scopes_of ?h" "connections_of ?h1 = connections_of ?h" "connections_of hub = connections_of ?h"
    by (simp_all add: known_handle_def is_withdrawn_def is_revoked_def scopes_of_def connections_of_def fun_eq_iff f(3))
  have reg: "registered lib hub c" if "registered lib ?h c" for c
    using that f(9) by (auto simp: registered_def is_some_and_iff view)
  have str: "stream_allowed lib hub (sy_conns s) (sm_owner st)"
    if st: "tbl_lookup sm_id j (rl_streams (hb_relay hub)) = Some st" for j st
  proof -
    have old: "tbl_lookup sm_id j (rl_streams (hb_relay ?h)) = Some st" and out: "sm_owner st \<notin> set ?ids"
      using f(10) [OF st] by simp_all
    have allowed: "stream_allowed lib ?h (sy_conns s) (sm_owner st)" using ok old by (simp add: sys_ok_def)
    then obtain c where c: "tbl_lookup cn_handle (sm_owner st) (sy_conns s) = Some c" "cn_authenticated c" "may_watch lib ?h c"
      by (auto simp: stream_allowed_def is_some_and_iff)
    then obtain spki where spki: "cn_device_spki c = Some spki" "watch_allowed ?h (sha256_hex lib spki)"
      by (auto simp: may_watch_def is_some_and_iff)
    have eff: "effective_scopes hub = effective_scopes ?h" "effective_scopes ?h1 = effective_scopes ?h"
      by (simp_all add: fun_eq_iff effective_scopes_def control_enabled_def f(5))
    have "watch_allowed hub (sha256_hex lib spki)"
    proof (cases "sha256_hex lib spki = key")
      case False
      then show ?thesis using spki(2) u(4) by (simp add: watch_allowed_def f(2) eff)
    next
      case True
      have "registered lib ?h c" using ok c(1) by (auto simp: sys_ok_def)
      moreover have "\<not> is_revoked ?h (sm_owner st)"
        using allowed is_revoked_withdrawn ok by (auto simp: stream_allowed_def sys_ok_def)
      ultimately have "sm_owner st \<in> set (connections_of ?h (device_id key))"
        using c spki(1) True tbl_lookup_SomeD [OF c(1)] by (auto simp: registered_def)
      with out have "set (scopes_of ?h (sm_owner st)) \<subseteq> set ?eff" by (simp add: lost_scope_known view)
      with allowed have "ScopeWatch \<in> set ?eff" by (auto simp: stream_allowed_def)
      then show ?thesis using True u(3) by (simp add: watch_allowed_def f(2) eff)
    qed
    then have "may_watch lib hub c" using spki(1) by (simp add: may_watch_def)
    moreover have "\<not> is_withdrawn hub (sm_owner st)" using allowed out f(8) by (auto simp: stream_allowed_def view)
    ultimately show ?thesis using allowed c by (simp add: stream_allowed_def f(7) view)
  qed
  show ?thesis using ok reg str f(1,4,6) view(1) by (auto simp: sys_ok_def known_handle_def fun_eq_iff)
qed

section \<open>Authentication\<close>

lemma sys_ok_authenticate:
  assumes ok: "sys_ok lib s" and c: "tbl_lookup cn_handle h (sy_conns s) = Some c"
    and spki: "cn_device_spki c = Some spki" "de_device_id d = device_id (sha256_hex lib spki)"
    and w: "w = authenticate \<lparr>wd_hub = sy_hub s, wd_gate = gate, wd_conn = c\<rparr> d"
  shows "sys_ok lib (store_world s w)"
proof (cases "cn_authenticated c")
  case True
  then show ?thesis
    by (intro sys_ok_store_alike [OF ok c]) (simp_all add: w authenticate_def same_conn_def)
next
  case False
  let ?hub = "sy_hub s" and ?id = "device_id (sha256_hex lib spki)"
  let ?hub' = "register_connection ?hub ?id h"
  have h: "cn_handle c = h" using tbl_lookup_SomeD [OF c] by simp
  have conn: "cn_handle (wd_conn w) = h" "cn_device_spki (wd_conn w) = Some spki" "cn_authenticated (wd_conn w)"
    "wd_hub w = ?hub'" using False spki h by (simp_all add: w authenticate_def Let_def)
  have reg: "connections_of ?hub' y =
      (if y = ?id then filter (\<lambda>i. \<not> is_revoked ?hub i) (connections_of ?hub ?id) @ [h] else connections_of ?hub y)" for y
    by (simp add: register_connection_def connections_of_def tbl_lookup_put)
  have same: "hub_ok ?hub' = hub_ok ?hub" "is_revoked ?hub' = is_revoked ?hub" "is_withdrawn ?hub' = is_withdrawn ?hub"
    "scopes_of ?hub' = scopes_of ?hub" "may_watch lib ?hub' = may_watch lib ?hub"
    "hb_next_handle ?hub' = hb_next_handle ?hub" "hb_handles ?hub' = hb_handles ?hub" "hb_relay ?hub' = hb_relay ?hub"
    by (simp_all add: register_connection_def hub_ok_def is_revoked_def is_withdrawn_def scopes_of_def may_watch_def
      watch_allowed_def effective_scopes_def control_enabled_def fun_eq_iff)
  have others: "registered lib ?hub' c'" if "registered lib ?hub c'" for c'
    using that by (auto simp: registered_def is_some_and_iff reg same)
  have mine: "registered lib ?hub' (wd_conn w)" using conn by (simp add: registered_def reg)
  have streams: "stream_allowed lib ?hub' (tbl_put cn_handle (wd_conn w) (sy_conns s)) i"
    if "stream_allowed lib ?hub (sy_conns s) i" for i
    using that c False conn by (auto simp: stream_allowed_def same tbl_lookup_put)
  show ?thesis
    using ok c conn mine others streams unfolding sys_ok_def store_world_def
    by (auto simp: same tbl_lookup_put)
qed

lemma device_by_spki_id:
  assumes "hub_ok h" "device_by_spki (hb_store h) key = Some d"
  shows "de_device_id d = device_id key"
  using assms by (auto simp: hub_ok_def device_by_spki_def device_row_def dest!: tbl_lookup_SomeD)

lemma sys_ok_current_device:
  assumes ok: "sys_ok lib s" and c: "tbl_lookup cn_handle h (sy_conns s) = Some c"
    and w: "current_device lib \<lparr>wd_hub = sy_hub s, wd_gate = gate, wd_conn = c\<rparr> = (w', d)"
  shows "sys_ok lib (store_world s w')"
proof (cases d)
  case None
  with w have "alike (sy_hub s) (wd_hub w')" "same_conn c (wd_conn w')"
    by (auto simp: current_device_def same_conn_def split: option.splits)
  then show ?thesis by (rule sys_ok_store_alike [OF ok c])
next
  case (Some device)
  with w obtain spki where spki: "cn_device_spki c = Some spki"
    "device_by_spki (hb_store (sy_hub s)) (sha256_hex lib spki) = Some device"
    and w': "w' = authenticate \<lparr>wd_hub = sy_hub s, wd_gate = gate, wd_conn = c\<rparr> device"
    by (auto simp: current_device_def split: option.splits)
  have "de_device_id device = device_id (sha256_hex lib spki)"
    using device_by_spki_id [OF _ spki(2)] ok by (simp add: sys_ok_def)
  then show ?thesis by (rule sys_ok_authenticate [OF ok c spki(1) _ w'])
qed

section \<open>Requests\<close>

lemma store_world_again:
  "cn_handle (wd_conn w') = cn_handle (wd_conn w) \<Longrightarrow> store_world (store_world s w) w' = store_world s w'"
  by (simp add: store_world_def tbl_put_put)

lemma store_world_hub:
  "tbl_lookup cn_handle h (sy_conns s) = Some c \<Longrightarrow> wd_conn w = c \<Longrightarrow>
   store_world s w = s\<lparr>sy_hub := wd_hub w, sy_gate := wd_gate w\<rparr>"
  by (simp add: store_world_def tbl_put_same)

lemma sys_ok_gate: "sys_ok lib (s\<lparr>sy_gate := g\<rparr>) = sys_ok lib s"
  by (simp add: sys_ok_def)

lemma forget_devices: "forget db source_id i now = Inr (db', result) \<Longrightarrow> hd_devices db' = hd_devices db"
  by (auto simp: forget_def bump_revision_def result_bind_def Let_def split: option.splits if_splits sum.splits prod.splits)

lemma hub_forget_alike: "hub_forget h source_id i now = Inr (h', result) \<Longrightarrow> alike h h'"
  by (auto simp: hub_forget_def Hub_forget_def result_bind_def alike_def device_view_def split: sum.splits prod.splits
    dest!: forget_devices)

lemma add_stream_scope_grown: "grown h (add_stream_scope h i scope)" "hub_ok h \<Longrightarrow> hub_ok (add_stream_scope h i scope)"
  "known_handle h i \<Longrightarrow> scope \<in> set (scopes_of (add_stream_scope h i scope) i)"
proof -
  let ?f = "\<lambda>x. if scope \<in> set (hn_stream_scopes x) then x else x\<lparr>hn_stream_scopes := hn_stream_scopes x @ [scope]\<rparr>"
  have look: "tbl_lookup hn_id j (hb_handles (add_stream_scope h i scope)) =
      map_option (\<lambda>x. if hn_id x = i then ?f x else x) (tbl_lookup hn_id j (hb_handles h))" for j
    unfolding add_stream_scope_def by (rule update_handle_lookup) simp
  show "grown h (add_stream_scope h i scope)"
    unfolding grown_def is_withdrawn_def is_revoked_def known_handle_def scopes_of_def look fun_eq_iff
    by (auto simp: add_stream_scope_def update_handle_def device_view_def is_some_and_def split: option.split)
  show "hub_ok h \<Longrightarrow> hub_ok (add_stream_scope h i scope)"
    by (auto simp: hub_ok_def handle_ok_def add_stream_scope_def update_handle_def)
  show "known_handle h i \<Longrightarrow> scope \<in> set (scopes_of (add_stream_scope h i scope) i)"
    by (auto simp: known_handle_def scopes_of_def look split: option.split dest: tbl_lookup_SomeD)
qed

lemma sys_ok_add_scope: "sys_ok lib s \<Longrightarrow> sys_ok lib (s\<lparr>sy_hub := add_stream_scope (sy_hub s) i scope\<rparr>)"
proof -
  assume ok: "sys_ok lib s"
  then have hub: "hub_ok (sy_hub s)" by (simp add: sys_ok_def)
  have "rl_streams (hb_relay (add_stream_scope (sy_hub s) i scope)) = rl_streams (hb_relay (sy_hub s))"
    by (simp add: add_stream_scope_def update_handle_def)
  then show ?thesis by (intro sys_ok_grown [OF ok add_stream_scope_grown(1) add_stream_scope_grown(2) [OF hub]]) simp
qed

text \<open>Opening a stream, by a connection that may watch.\<close>

lemma sys_ok_open:
  assumes ok: "sys_ok lib s" and c: "tbl_lookup cn_handle h (sy_conns s) = Some c" "cn_authenticated c"
    and may: "\<not> is_withdrawn (sy_hub s) h" "may_watch lib (sy_hub s) c"
    and r: "r = fst (Relay_open (hb_relay (sy_hub s)) h source v)"
  shows "sys_ok lib (s\<lparr>sy_hub := add_stream_scope ((sy_hub s)\<lparr>hb_relay := r\<rparr>) h ScopeWatch\<rparr>)"
proof -
  let ?h1 = "(sy_hub s)\<lparr>hb_relay := r\<rparr>" and ?h2 = "add_stream_scope ((sy_hub s)\<lparr>hb_relay := r\<rparr>) h ScopeWatch"
  have rows: "rows_ok r" using ok rows_ok_step [of "hb_relay (sy_hub s)" "OpOpen h source v"] r by (simp add: sys_ok_def hub_ok_def)
  have known: "known_handle ?h1 h" using ok c(1) by (auto simp: sys_ok_def known_handle_def)
  have g: "grown (sy_hub s) ?h2"
    using add_stream_scope_grown(1) [of ?h1 h ScopeWatch] unfolding grown_def
    by (simp add: device_view_def is_withdrawn_def is_revoked_def known_handle_def scopes_of_def fun_eq_iff)
  have ok2: "hub_ok ?h2" using ok rows by (intro add_stream_scope_grown(2)) (simp add: sys_ok_def hub_ok_def)
  have mine: "stream_allowed lib ?h2 (sy_conns s) h"
    using c may add_stream_scope_grown(3) [OF known] grown_watch(1) [OF g] g
    by (simp add: stream_allowed_def grown_def)
  have relay: "hb_relay ?h2 = r" by (simp add: add_stream_scope_def update_handle_def)
  show ?thesis
  proof (rule sys_ok_grown [OF ok g ok2])
    fix j st assume "tbl_lookup sm_id j (rl_streams (hb_relay ?h2)) = Some st"
    then have st: "tbl_lookup sm_id j (rl_streams r) = Some st" by (simp add: relay)
    have "sm_owner st = h \<or> tbl_lookup sm_id j (rl_streams (hb_relay (sy_hub s))) = Some st"
      using st unfolding r
      by (auto simp: Relay_open_def State_next_def Let_def tbl_lookup_put split: option.splits if_splits)
    with mine show "is_some_and (\<lambda>old. sm_owner old = sm_owner st) (tbl_lookup sm_id j (rl_streams (hb_relay (sy_hub s))))
      \<or> stream_allowed lib ?h2 (sy_conns s) (sm_owner st)" by auto
  qed
qed

lemma sys_ok_relay_op:
  assumes "sys_ok lib s" "r = Relay_step a (hb_relay (sy_hub s))" "\<And>owner source v. a \<noteq> OpOpen owner source v"
  shows "sys_ok lib (s\<lparr>sy_hub := (sy_hub s)\<lparr>hb_relay := r\<rparr>\<rparr>)"
  using sys_ok_relay [OF assms(1,3)] assms(2) by simp

lemma sys_ok_same_streams:
  assumes "sys_ok lib s" "rl_streams r = rl_streams (hb_relay (sy_hub s))"
  shows "sys_ok lib (s\<lparr>sy_hub := (sy_hub s)\<lparr>hb_relay := r\<rparr>\<rparr>)"
  by (rule sys_ok_alike [OF assms(1)]) (simp_all add: alike_def device_view_def assms(2))

lemma Relay_open_error: "Relay_open r owner source v = (r', Inl e) \<Longrightarrow> rl_streams r' = rl_streams r"
  by (auto simp: Relay_open_def State_next_def Let_def split: option.splits)

lemma sys_ok_terminal_open:
  assumes ok: "sys_ok lib s" and c: "tbl_lookup cn_handle h (sy_conns s) = Some c" "cn_authenticated c"
    and may: "\<not> is_withdrawn (sy_hub s) h" "may_watch lib (sy_hub s) c"
  shows "sys_ok lib (store_world s (fst (terminal_open (world s c) i params)))"
proof -
  have h: "cn_handle c = h" using tbl_lookup_SomeD [OF c(1)] by simp
  note same = store_world_hub [OF c(1)]
  obtain source v where p: "get_str ''source_id'' params = source" "get_str ''invocation_id'' params = v" by blast
  show ?thesis
  proof (cases "source \<noteq> None \<and> v \<noteq> None \<and> has_agent (hb_store (sy_hub s)) (the source) (the v)")
    case False
    then have "fst (terminal_open (world s c) i params) = world s c"
      by (auto simp: terminal_open_def p split: option.split)
    then show ?thesis using same [of "world s c"] ok by simp
  next
    case True
    obtain r' res where r: "Relay_open (hb_relay (sy_hub s)) h (the source) (the v) = (r', res)" by fastforce
    then have r': "r' = fst (Relay_open (hb_relay (sy_hub s)) h (the source) (the v))" by simp
    show ?thesis
    proof (cases res)
      case (Inl e)
      with True r have "fst (terminal_open (world s c) i params) = \<lparr>wd_hub = (sy_hub s)\<lparr>hb_relay := r'\<rparr>, wd_gate = sy_gate s, wd_conn = c\<rparr>"
        by (auto simp: terminal_open_def p h)
      with same show ?thesis using sys_ok_same_streams [OF ok Relay_open_error] r Inl by (simp add: sys_ok_gate)
    next
      case (Inr pending)
      with True r have "fst (terminal_open (world s c) i params) =
          \<lparr>wd_hub = add_stream_scope ((sy_hub s)\<lparr>hb_relay := r'\<rparr>) h ScopeWatch, wd_gate = sy_gate s, wd_conn = c\<rparr>"
        by (auto simp: terminal_open_def p h)
      with same show ?thesis using sys_ok_open [OF ok c may r'] by (simp add: sys_ok_gate)
    qed
  qed
qed

lemma relay_world:
  assumes c: "tbl_lookup cn_handle h (sy_conns s) = Some c" and ok: "sys_ok lib (s\<lparr>sy_hub := (sy_hub s)\<lparr>hb_relay := r\<rparr>\<rparr>)"
  shows "sys_ok lib (store_world s (set_relay (world s c) r))"
  using store_world_hub [OF c, of "set_relay (world s c) r"] ok by (simp add: sys_ok_gate)

lemma same_world: "tbl_lookup cn_handle h (sy_conns s) = Some c \<Longrightarrow> sys_ok lib s \<Longrightarrow> sys_ok lib (store_world s (world s c))"
  using store_world_hub [of h s c "world s c"] by simp

lemma sys_ok_terminal_input:
  assumes ok: "sys_ok lib s" and c: "tbl_lookup cn_handle h (sy_conns s) = Some c"
  shows "sys_ok lib (store_world s (fst (terminal_input lib (world s c) i params)))"
proof -
  have op: "sys_ok lib (store_world s (set_relay (world s c) r'))"
    if "Relay_input (hb_relay (sy_hub s)) (cn_handle c) j x = (r', res)" for r' res j x
    by (rule relay_world [OF c], rule sys_ok_relay_op [OF ok, of _ "OpInput (cn_handle c) j x"]) (use that in simp_all)
  show ?thesis
    by (auto simp: terminal_input_def split: option.split sum.split prod.split intro: same_world [OF c ok] dest: op)
qed

lemma sys_ok_terminal_close:
  assumes ok: "sys_ok lib s" and c: "tbl_lookup cn_handle h (sy_conns s) = Some c"
  shows "sys_ok lib (store_world s (fst (terminal_close (world s c) i params)))"
proof -
  have op: "sys_ok lib (store_world s (set_relay (world s c) r'))"
    if "Relay_close (hb_relay (sy_hub s)) (cn_handle c) j = (r', res)" for r' res j
    by (rule relay_world [OF c], rule sys_ok_relay_op [OF ok, of _ "OpClose (cn_handle c) j"]) (use that in simp_all)
  show ?thesis
    by (auto simp: terminal_close_def split: option.split sum.split prod.split intro: same_world [OF c ok] dest: op)
qed

lemma sys_ok_remote_listen:
  assumes ok: "sys_ok lib s" and c: "tbl_lookup cn_handle h (sy_conns s) = Some c"
  shows "sys_ok lib (store_world s (fst (remote_listen (world s c) i)))"
proof -
  let ?w = "set_conn (world s c) (c\<lparr>cn_streaming := True\<rparr>)"
  have mid: "sys_ok lib (store_world s ?w)"
    by (rule sys_ok_store_alike [OF ok c]) (simp_all add: same_conn_def)
  have "store_world s (fst (remote_listen (world s c) i)) = store_world s ?w
      \<or> store_world s (fst (remote_listen (world s c) i)) =
          (store_world s ?w)\<lparr>sy_hub := add_stream_scope (sy_hub (store_world s ?w)) (cn_handle c) ScopeRead\<rparr>"
    by (simp add: remote_listen_def store_world_def Let_def)
  then show ?thesis using mid sys_ok_add_scope by metis
qed

lemma sys_ok_remote_forget:
  assumes ok: "sys_ok lib s" and c: "tbl_lookup cn_handle h (sy_conns s) = Some c"
  shows "sys_ok lib (store_world s (fst (remote_forget (world s c) i params now show_error)))"
proof -
  have "sys_ok lib (store_world s (set_hub (world s c) hub))"
    if "hub_forget (sy_hub s) a b now = Inr (hub, res)" for hub res a b
    by (rule sys_ok_store_alike [OF ok c]) (use hub_forget_alike [OF that] in \<open>simp_all add: same_conn_def\<close>)
  then show ?thesis
    by (auto simp: remote_forget_def split: option.split sum.split prod.split ForgetOutcome.split intro: same_world [OF c ok])
qed

lemma required_watch: "required_scope m = Some required \<Longrightarrow> m = ''terminal.open'' \<Longrightarrow> required = Some ScopeWatch"
  by (simp add: required_scope_def)

lemma sys_ok_run_method:
  assumes ok: "sys_ok lib s" and c: "tbl_lookup cn_handle h (sy_conns s) = Some c" "cn_authenticated c"
    and may: "\<not> is_withdrawn (sy_hub s) h" "m = ''terminal.open'' \<Longrightarrow> may_watch lib (sy_hub s) c"
  shows "sys_ok lib (store_world s (fst (run_method lib (world s c) i m params effective now show_error)))"
proof (cases "m = ''terminal.open''")
  case True
  from sys_ok_terminal_open [OF ok c may(1) may(2) [OF True]] True show ?thesis by (simp add: run_method_def)
next
  case False
  then show ?thesis
    using sys_ok_terminal_input [OF ok c(1)] sys_ok_terminal_close [OF ok c(1)] sys_ok_remote_listen [OF ok c(1)]
      sys_ok_remote_forget [OF ok c(1), of i params now show_error] same_world [OF c(1) ok]
    by (auto simp: run_method_def split: prod.split)
qed

lemma method_handles:
  "cn_handle (wd_conn (fst (terminal_open w i params))) = cn_handle (wd_conn w)"
  "cn_handle (wd_conn (fst (terminal_input lib w i params))) = cn_handle (wd_conn w)"
  "cn_handle (wd_conn (fst (terminal_close w i params))) = cn_handle (wd_conn w)"
  "cn_handle (wd_conn (fst (remote_forget w i params now show_error))) = cn_handle (wd_conn w)"
  "cn_handle (wd_conn (fst (remote_listen w i))) = cn_handle (wd_conn w)"
  by (simp_all add: terminal_open_def terminal_input_def terminal_close_def remote_forget_def remote_listen_def Let_def
    split: option.split sum.split prod.split ForgetOutcome.split)

lemma run_method_handle: "cn_handle (wd_conn (fst (run_method lib w i m params effective now show_error))) = cn_handle (wd_conn w)"
  using method_handles(4) [of w i params now show_error]
  by (cases "remote_forget w i params now show_error") (simp add: run_method_def method_handles(1-3,5))

lemma current_device_authenticated: "current_device lib w = (w', Some d) \<Longrightarrow> cn_authenticated (wd_conn w')"
  by (auto simp: current_device_def authenticate_def Let_def split: option.splits if_splits)

lemma sys_ok_device_request:
  assumes ok: "sys_ok lib s" and c: "tbl_lookup cn_handle h (sy_conns s) = Some c"
  shows "sys_ok lib (store_world s (fst (device_request lib (world s c) i m params now show_error)))"
proof (cases "is_withdrawn (sy_hub s) (cn_handle c)")
  case True
  then show ?thesis using same_world [OF c ok] by (simp add: device_request_def)
next
  case live: False
  have h: "cn_handle c = h" using tbl_lookup_SomeD [OF c] by simp
  obtain w1 d where d: "current_device lib (world s c) = (w1, d)" by fastforce
  note sim = current_device_simps [OF d, simplified]
  let ?s = "store_world s w1"
  have ok1: "sys_ok lib ?s" by (rule sys_ok_current_device [OF ok c d])
  have c1: "tbl_lookup cn_handle h (sy_conns ?s) = Some (wd_conn w1)" using sim h by (simp add: store_world_def tbl_lookup_put)
  have w1: "world ?s (wd_conn w1) = w1" by (simp add: store_world_def)
  show ?thesis
  proof (cases d)
    case None
    then show ?thesis using live d ok1 by (simp add: device_request_def)
  next
    case (Some device)
    show ?thesis
    proof (cases "\<exists>required. required_scope m = Some required \<and> (\<forall>scope. required = Some scope \<longrightarrow> scope \<in> set (effective_scopes (wd_hub w1) device))")
      case False
      then have "fst (device_request lib (world s c) i m params now show_error) = w1"
        using live d Some by (auto simp: device_request_def Let_def split: option.splits if_splits)
      then show ?thesis using ok1 by simp
    next
      case True
      then obtain required where req: "required_scope m = Some required"
        "\<forall>scope. required = Some scope \<longrightarrow> scope \<in> set (effective_scopes (wd_hub w1) device)" by blast
      let ?w = "fst (run_method lib w1 i m params (effective_scopes (wd_hub w1) device) now show_error)"
      have run: "fst (device_request lib (world s c) i m params now show_error) = ?w"
        using live d Some req by (auto simp: device_request_def Let_def split: option.split)
      have may: "may_watch lib (sy_hub ?s) (wd_conn w1)" if "m = ''terminal.open''"
      proof -
        have "ScopeWatch \<in> set (effective_scopes (wd_hub w1) device)" using req required_watch that by blast
        moreover obtain spki where "cn_device_spki c = Some spki" "device_by_spki (hb_store (sy_hub s)) (sha256_hex lib spki) = Some device"
          using sim(8) Some by (cases "cn_device_spki c") simp_all
        ultimately show ?thesis using sim by (simp add: may_watch_def watch_allowed_def store_world_def)
      qed
      have "\<not> is_withdrawn (sy_hub ?s) h" using live h sim by (simp add: is_withdrawn_def store_world_def)
      from sys_ok_run_method [OF ok1 c1 current_device_authenticated [OF d [unfolded Some]] this may]
      have "sys_ok lib (store_world ?s ?w)" by (simp add: w1)
      moreover have "cn_handle (wd_conn ?w) = cn_handle (wd_conn w1)" by (rule run_method_handle)
      ultimately show ?thesis by (simp add: run store_world_again)
    qed
  qed
qed

section \<open>Every other step\<close>

lemma allow_pair_call_alike: "alike h (fst (allow_pair_call lib h peer now))"
  by (simp add: allow_pair_call_def alike_def device_view_def split: prod.split)

lemma attempt_pairing_alike: "alike h (fst (attempt_pairing lib h spki peer nonce mac now))"
  by (auto simp: attempt_pairing_def alike_def device_view_def Let_def split: option.split)

lemma pair_begin_alike:
  "alike (wd_hub w) (wd_hub (fst (pair_begin lib w i nonce now)))" "same_conn (wd_conn w) (wd_conn (fst (pair_begin lib w i nonce now)))"
  using allow_pair_call_alike [of "wd_hub w" lib "cn_peer (wd_conn w)" now]
  by (cases "allow_pair_call lib (wd_hub w) (cn_peer (wd_conn w)) now"; simp add: pair_begin_def same_conn_def Let_def)+

lemma pair_claim_alike:
  "alike (wd_hub w) (wd_hub (fst (pair_claim lib w i params now))) \<and> same_conn (wd_conn w) (wd_conn (fst (pair_claim lib w i params now)))"
proof -
  obtain h1 allowed where a: "allow_pair_call lib (wd_hub w) (cn_peer (wd_conn w)) now = (h1, allowed)" by fastforce
  have al: "alike (wd_hub w) h1" using allow_pair_call_alike [of "wd_hub w" lib "cn_peer (wd_conn w)" now] a by simp
  have at: "alike (wd_hub w) h2" "alike (wd_hub w) (h2\<lparr>hb_pair_events := evs\<rparr>)"
    if "attempt_pairing lib h1 spki peer nonce mac now = (h2, result)" for h2 result spki peer nonce mac evs
  proof -
    show "alike (wd_hub w) h2" using alike_trans [OF al] attempt_pairing_alike [of h1 lib spki peer nonce mac now] that by simp
    then show "alike (wd_hub w) (h2\<lparr>hb_pair_events := evs\<rparr>)" by (simp add: alike_def device_view_def)
  qed
  show ?thesis
    by (auto simp: pair_claim_def a al same_conn_def Let_def split: prod.split option.split PairAttempt.split dest: at)
qed

lemma sys_ok_handle_request:
  assumes ok: "sys_ok lib s" and c: "tbl_lookup cn_handle h (sy_conns s) = Some c"
  shows "sys_ok lib (store_world s (fst (handle_request lib (world s c) frame nonce instant now show_error)))"
proof -
  note same = same_world [OF c ok]
  have start: "sys_ok lib (store_world s (fst (pair_begin lib (world s c) i nonce instant)))" for i
    by (rule sys_ok_store_alike [OF ok c]) (use pair_begin_alike [of "world s c"] in simp_all)
  have claim: "sys_ok lib (store_world s (fst (pair_claim lib (world s c) i params instant)))" for i params
    by (rule sys_ok_store_alike [OF ok c]) (use pair_claim_alike [of "world s c"] in simp_all)
  have request: "sys_ok lib (store_world s (fst (device_request lib (world s c) i m params now show_error)))" for i m params
    by (rule sys_ok_device_request [OF ok c])
  let ?run = "handle_request lib (world s c) frame nonce instant now show_error"
  show ?thesis
  proof (cases frame)
    case None
    then show ?thesis using same by (simp add: handle_request_def)
  next
    case (Some request)
    define i where "i = unwrap_or (get ''id'' request) JNull"
    define params where "params = unwrap_or (get ''params'' request) JNull"
    define m where "m = the (get_str ''method'' request)"
    obtain w1 r1 where b: "pair_begin lib (world s c) i nonce instant = (w1, r1)" by fastforce
    obtain w2 r2 where k: "pair_claim lib (world s c) i params instant = (w2, r2)" by fastforce
    obtain w3 r3 where d: "device_request lib (world s c) i m params now show_error = (w3, r3)" by fastforce
    have "fst ?run = world s c \<or> fst ?run = w1 \<or> fst ?run = w2 \<or> fst ?run = w3"
    proof (cases "get_str ''method'' request")
      case None
      then show ?thesis
        by (simp add: handle_request_def Some i_def [symmetric] params_def [symmetric] Let_def split: option.split)
    next
      case known: (Some m')
      then have "m' = m" by (simp add: m_def)
      with known show ?thesis
        by (cases r2; cases "params = JNull")
          (use b k d in \<open>auto simp: handle_request_def Some i_def [symmetric] params_def [symmetric] Let_def split: option.split\<close>)
    qed
    then show ?thesis using same start [of i] claim [of i params] request [of i m params] by (auto simp: b k d)
  qed
qed

lemma sys_ok_decided:
  assumes ok: "sys_ok lib s" and c: "tbl_lookup cn_handle h (sy_conns s) = Some c" and spki: "cn_device_spki c = Some spki"
    and d: "\<forall>d. decision = Decided (Some d) \<longrightarrow> de_device_id d = device_id (sha256_hex lib spki)"
  shows "sys_ok lib (store_world s (fst (pair_decided (world s c) i decision)))"
proof (cases "\<exists>d. decision = Decided (Some d)")
  case False
  then have "alike (sy_hub s) (wd_hub (fst (pair_decided (world s c) i decision)))
      \<and> same_conn c (wd_conn (fst (pair_decided (world s c) i decision)))"
    by (auto simp: pair_decided_def same_conn_def Let_def split: Decision.split option.split)
  then show ?thesis using sys_ok_store_alike [OF ok c] by blast
next
  case True
  then obtain device where device: "decision = Decided (Some device)" by blast
  let ?w = "authenticate (world s c) device"
  have mid: "sys_ok lib (store_world s ?w)" using sys_ok_authenticate [OF ok c spki _ refl] d device by blast
  have h: "cn_handle (wd_conn ?w) = h" using tbl_lookup_SomeD [OF c] by simp
  have c': "tbl_lookup cn_handle h (sy_conns (store_world s ?w)) = Some (wd_conn ?w)"
    using h by (simp add: store_world_def tbl_lookup_put)
  let ?w' = "fst (pair_decided (world s c) i decision)"
  have "sys_ok lib (store_world (store_world s ?w) ?w')"
    by (rule sys_ok_store_alike [OF mid c']) (simp_all add: device pair_decided_def same_conn_def store_world_def Let_def)
  moreover have "cn_handle (wd_conn ?w') = cn_handle (wd_conn ?w)" by (simp add: device pair_decided_def Let_def)
  ultimately show ?thesis by (simp add: store_world_again)
qed

lemma try_send_alike: "alike (wd_hub w) (wd_hub (Connection_try_send w)) \<and> same_conn (wd_conn w) (wd_conn (Connection_try_send w))"
  by (simp add: Connection_try_send_def alike_def device_view_def same_conn_def Let_def split: option.split nat.split)

lemma touch_alike: "alike h (h\<lparr>hb_store := touch_device (hb_store h) i now\<rparr>)"
  using device_view_touch [of h i now] by (simp add: alike_def)

lemma on_incoming_alike:
  "alike (wd_hub w) (wd_hub (fst (on_incoming w loop message instant now)))
   \<and> same_conn (wd_conn w) (wd_conn (fst (on_incoming w loop message instant now)))"
  using try_send_alike [of w]
  by (simp add: on_incoming_def Let_def same_conn_def touch_alike split: option.split WsMessage.split)

lemma loop_turn_alike:
  "alike (wd_hub w) (wd_hub (fst (loop_turn w loop event instant now)))
   \<and> same_conn (wd_conn w) (wd_conn (fst (loop_turn w loop event instant now)))"
  using on_incoming_alike [of w]
  by (simp add: loop_turn_def Let_def split: LoopEvent.split) (simp add: same_conn_def)

lemma sys_ok_start:
  assumes ok: "sys_ok lib s" and room: "unat (hb_next_handle (sy_hub s)) + 1 < 2 ^ 64"
  shows "sys_ok lib (store_world s (connection_start lib limits (sy_hub s) gate peer key spki now))"
proof -
  let ?h = "hb_next_handle (sy_hub s)" and ?w = "Connection_new limits (sy_hub s) gate peer key spki"
  let ?hub = "wd_hub (Connection_new limits (sy_hub s) gate peer key spki)"
  have up: "?h < ?h + 1" using word_succ_le [OF room] by simp
  have fresh: "tbl_lookup cn_handle ?h (sy_conns s) = None" using ok by (cases "tbl_lookup cn_handle ?h (sy_conns s)") (auto simp: sys_ok_def)
  have free: "tbl_lookup hn_id ?h (hb_handles (sy_hub s)) = None"
    using ok unfolding tbl_lookup_None_iff by (auto simp: sys_ok_def hub_ok_def handle_ok_def)
  have w: "wd_conn ?w = \<lparr>cn_handle = ?h, cn_peer = peer, cn_device_spki = spki, cn_device = None, cn_nonce = None,
      cn_streaming = False, cn_authenticated = False, cn_awaiting_operator = False, cn_ticket = Some key,
      cn_requests = 1, cn_max_inflight_requests = lim_max_inflight_requests limits, cn_kill = False\<rparr>"
    "hb_next_handle ?hub = ?h + 1" "hb_store ?hub = hb_store (sy_hub s)" "hb_relay ?hub = hb_relay (sy_hub s)"
    "hb_connections ?hub = hb_connections (sy_hub s)" "hb_remote ?hub = hb_remote (sy_hub s)"
    by (simp_all add: Connection_new_def ConnectionHandle_new_def)
  have handles: "tbl_lookup hn_id i (hb_handles ?hub) =
      (if i = ?h then Some \<lparr>hn_id = ?h, hn_revoke = False, hn_withdraw = False, hn_stream_scopes = []\<rparr>
       else tbl_lookup hn_id i (hb_handles (sy_hub s)))" for i
    by (simp add: Connection_new_def ConnectionHandle_new_def tbl_lookup_put)
  have same: "is_revoked ?hub = is_revoked (sy_hub s)" "is_withdrawn ?hub = is_withdrawn (sy_hub s)"
    "scopes_of ?hub = scopes_of (sy_hub s)" "may_watch lib ?hub = may_watch lib (sy_hub s)"
    "connections_of ?hub = connections_of (sy_hub s)"
    using free by (auto simp: fun_eq_iff is_revoked_def is_withdrawn_def scopes_of_def may_watch_def watch_allowed_def
      effective_scopes_def control_enabled_def connections_of_def handles w)
  have reg: "registered lib ?hub c = registered lib (sy_hub s) c" for c by (simp add: registered_def same)
  have streams: "stream_allowed lib ?hub (tbl_put cn_handle (wd_conn ?w) (sy_conns s)) i"
    if "stream_allowed lib (sy_hub s) (sy_conns s) i" for i
    using that fresh by (auto simp: stream_allowed_def same tbl_lookup_put w)
  have hub: "hub_ok ?hub"
  proof -
    have put: "x \<in> set (tbl_put hn_id y rows) \<Longrightarrow> x = y \<or> x \<in> set rows" for x y and rows :: "ConnectionHandle list"
      by (induction rows) (auto split: if_splits)
    have "handle_ok x (?h + 1)" if "x \<in> set (hb_handles ?hub)" for x
      using that put [of x _ "hb_handles (sy_hub s)"] ok up
      by (auto simp: Connection_new_def ConnectionHandle_new_def sys_ok_def hub_ok_def handle_ok_def dest!: put)
    then show ?thesis using ok by (simp add: hub_ok_def w sys_ok_def)
  qed
  have later: "i < ?h + 1" if "i < ?h" for i using that up by (rule less_trans)
  have mid: "sys_ok lib (store_world s ?w)"
    using ok hub streams up unfolding sys_ok_def store_world_def
    by (auto simp: reg w tbl_lookup_put handles same registered_def later split: if_splits)
  obtain w1 d where d: "current_device lib ?w = (w1, d)" by fastforce
  have c1: "tbl_lookup cn_handle ?h (sy_conns (store_world s ?w)) = Some (wd_conn ?w)"
    by (simp add: store_world_def tbl_lookup_put w(1))
  have split: "?w = \<lparr>wd_hub = sy_hub (store_world s ?w), wd_gate = wd_gate ?w, wd_conn = wd_conn ?w\<rparr>"
    by (simp add: store_world_def)
  have "sys_ok lib (store_world (store_world s ?w) w1)"
    by (rule sys_ok_current_device [OF mid c1, of "wd_gate ?w" _ d]) (simp add: split [symmetric] d)
  then have known: "sys_ok lib (store_world s w1)" using current_device_simps(6) [OF d] by (simp add: store_world_again)
  show ?thesis
  proof (cases d)
    case None
    with known d show ?thesis by (simp add: connection_start_def)
  next
    case (Some device)
    with d have "connection_start lib limits (sy_hub s) gate peer key spki now =
        set_hub w1 ((wd_hub w1)\<lparr>hb_store := touch_device (hb_store (wd_hub w1)) (de_device_id device) now\<rparr>)"
      by (simp add: connection_start_def)
    then show ?thesis by (intro sys_ok_alike [OF known]) (simp_all add: store_world_def touch_alike)
  qed
qed

lemma sys_ok_end:
  assumes ok: "sys_ok lib s" and c: "tbl_lookup cn_handle h (sy_conns s) = Some c" and w: "w = connection_end (world s c)"
  shows "sys_ok lib (s\<lparr>sy_hub := wd_hub w, sy_gate := wd_gate w, sy_conns := tbl_delete cn_handle h (sy_conns s)\<rparr>)"
proof -
  have h: "cn_handle c = h" using tbl_lookup_SomeD [OF c] by simp
  let ?hub = "drop_connection cancel_revoke h (sy_hub s)"
  have ok0: "hub_ok (sy_hub s)" using ok by (simp add: sys_ok_def)
  note d = drop_connection_dropped [OF ok0, of cancel_revoke h, simplified]
  have hub: "wd_hub w = ?hub \<or> (\<exists>i. wd_hub w = unregister_connection ?hub i)"
    by (auto simp: w connection_end_def h Let_def split: option.split)
  have un: "hub_ok (unregister_connection g i) = hub_ok g" "is_revoked (unregister_connection g i) = is_revoked g"
    "is_withdrawn (unregister_connection g i) = is_withdrawn g" "scopes_of (unregister_connection g i) = scopes_of g"
    "may_watch lib (unregister_connection g i) = may_watch lib g" "hb_next_handle (unregister_connection g i) = hb_next_handle g"
    "hb_handles (unregister_connection g i) = hb_handles g" "hb_relay (unregister_connection g i) = hb_relay g" for g i
    by (simp_all add: unregister_connection_def hub_ok_def is_revoked_def is_withdrawn_def scopes_of_def may_watch_def
      watch_allowed_def effective_scopes_def control_enabled_def fun_eq_iff Let_def split: option.split)
  have uncon: "set (connections_of (unregister_connection g i) y) \<supseteq> {j \<in> set (connections_of g y). \<not> is_revoked g j}" for g i y
    by (auto simp: unregister_connection_def connections_of_def Let_def tbl_lookup_put tbl_lookup_delete
      filter_empty_conv split: option.split if_splits)
  have same: "hub_ok (wd_hub w)" "is_revoked (wd_hub w) = is_revoked ?hub" "is_withdrawn (wd_hub w) = is_withdrawn ?hub"
    "scopes_of (wd_hub w) = scopes_of ?hub" "may_watch lib (wd_hub w) = may_watch lib ?hub"
    "hb_next_handle (wd_hub w) = hb_next_handle ?hub" "hb_handles (wd_hub w) = hb_handles ?hub" "hb_relay (wd_hub w) = hb_relay ?hub"
    using hub d(2) un by auto
  have con: "j \<in> set (connections_of (wd_hub w) y)"
    if "j \<in> set (connections_of ?hub y)" "\<not> is_revoked ?hub j" for j y
    using hub that subsetD [OF uncon, of j ?hub y] by auto
  have con0: "connections_of ?hub = connections_of (sy_hub s)" using d(1) by (simp add: dropped_def connections_of_def fun_eq_iff)
  have reg: "registered lib (wd_hub w) c'" if "registered lib (sy_hub s) c'" for c'
    using that d(1) con by (auto simp: registered_def is_some_and_iff same con0 dropped_def)
  have str: "stream_allowed lib (wd_hub w) (tbl_delete cn_handle h (sy_conns s)) (sm_owner st)"
    if st: "tbl_lookup sm_id j (rl_streams (hb_relay (wd_hub w))) = Some st" for j st
  proof -
    have old: "tbl_lookup sm_id j (rl_streams (hb_relay (sy_hub s))) = Some st" "sm_owner st \<noteq> h"
      using st d(1) by (auto simp: same dropped_def)
    then have "stream_allowed lib (sy_hub s) (sy_conns s) (sm_owner st)" using ok by (simp add: sys_ok_def)
    from dropped_stream [OF ok0 d(1) this old(2)] old(2) show ?thesis
      by (simp add: stream_allowed_def same tbl_lookup_delete)
  qed
  have "known_handle (wd_hub w) = known_handle (sy_hub s)" "hb_next_handle (wd_hub w) = hb_next_handle (sy_hub s)"
    using d(1) by (simp_all add: dropped_def same known_handle_def fun_eq_iff)
  then show ?thesis
    using ok reg str same(1) by (auto simp: sys_ok_def known_handle_def tbl_lookup_delete fun_eq_iff split: if_splits)
qed

lemma sys_ok_command:
  assumes ok: "sys_ok lib s" and served: "serve_unix (sy_hub s) line now = Inr (hub, served)"
  shows "sys_ok lib (s\<lparr>sy_hub := hub\<rparr>)"
proof (cases "\<exists>device. line = Inr (HubRevoke device)")
  case True
  then obtain device where "line = Inr (HubRevoke device)" by blast
  with served have "hub = fst (Hub_revoke (sy_hub s) device)"
    by (cases "Hub_revoke (sy_hub s) device") (simp add: serve_unix_def)
  then show ?thesis using sys_ok_revoke [OF ok] by simp
next
  case False
  with served have "alike (sy_hub s) hub"
    by (auto simp: serve_unix_def forget_response_def result_bind_def split: sum.splits HubRequest.splits prod.splits
      dest: hub_forget_alike)
  then show ?thesis by (intro sys_ok_alike [OF ok]) simp_all
qed

lemma close_pairing_alike: "alike h (close_pairing h generation)"
  by (simp add: close_pairing_def alike_def device_view_def)

lemma sys_ok_finish_pairing:
  assumes ok: "sys_ok lib s" and p: "pair_finish (sy_hub s) conversation waited answer now = Inr (hub, responses, decision)"
  shows "sys_ok lib (s\<lparr>sy_hub := hub\<rparr>)"
proof (cases "\<exists>key name d. pair_device (sy_hub s) key name (pc_scopes conversation) now = Inr (hub, d)")
  case True
  then show ?thesis using sys_ok_pair_device [OF ok] by blast
next
  case False
  with p have "alike (sy_hub s) hub"
    by (auto simp: pair_finish_def result_bind_def close_pairing_alike Let_def
      split: PairWait.splits option.splits PairEvent.splits if_splits sum.splits prod.splits)
  then show ?thesis by (intro sys_ok_alike [OF ok]) simp_all
qed

lemma pair_start_alike:
  "pair_start lib h scopes secret instant epoch = Inr (h', response, conversation) \<Longrightarrow> alike h h'"
  by (auto simp: pair_start_def open_pairing_def alike_def device_view_def Let_def
    split: option.splits sum.splits if_splits prod.splits)

lemma sys_ok_step: "sys_step lib limits s s' \<Longrightarrow> sys_ok lib s \<Longrightarrow> sys_ok lib s'"
proof (induction rule: sys_step.induct)
  case (connect s peer gate key spki now)
  then show ?case using sys_ok_start by blast
next
  case (request h s c frame nonce instant now show_error w' handled)
  then show ?case using sys_ok_handle_request [of lib s h c frame nonce instant now show_error] by simp
next
  case (decided h s c spki decision i w' response)
  then show ?case using sys_ok_decided [of lib s h c spki decision i] by simp
next
  case (turn h s c loop event instant now w' loop' result)
  then show ?case
    using sys_ok_store_alike [of lib s h c "fst (loop_turn (world s c) loop event instant now)"]
      loop_turn_alike [of "world s c" loop event instant now] by simp
next
  case (finish h s c w')
  then show ?case using sys_ok_end by metis
next
  case (command s line now hub served)
  then show ?case using sys_ok_command by blast
next
  case (start_pairing s scopes secret instant epoch hub response conversation)
  from sys_ok_alike [OF start_pairing(2), of "s\<lparr>sy_hub := hub\<rparr>"] pair_start_alike [OF start_pairing(1)]
  show ?case by simp
next
  case (finish_pairing s conversation waited answer now hub responses decision)
  then show ?case using sys_ok_finish_pairing by blast
next
  case (ingest db s)
  then have "alike (sy_hub s) ((sy_hub s)\<lparr>hb_store := db\<rparr>)" by (simp add: alike_def device_view_def)
  with sys_ok_alike [OF ingest(2), of "s\<lparr>sy_hub := (sy_hub s)\<lparr>hb_store := db\<rparr>\<rparr>"] show ?case by simp
next
  case (relay a s)
  then show ?case by (intro sys_ok_relay) auto
qed


definition sample_store :: HubDb where
  "sample_store = HubDb_empty\<lparr>
     hd_devices := [\<lparr>dv_device_id = [], dv_spki_sha256 = [], dv_name = ''phone'', dv_scopes = ''watch'', dv_paired_at = 0,
        dv_last_seen_at = None\<rparr>],
     hd_agents := [\<lparr>ag_source_id = ''host'', ag_invocation_id = ''inv-1'', ag_view_json = None, ag_updated_at = 0, ag_stopped_at = None\<rparr>]\<rparr>"

definition sample_sys1 :: System where
  "sample_sys1 =
     (let hub = Hub_new sample_lib sample_store (\<lambda>_. Some 8) (Some sample_remote)
      in \<lparr>sy_hub = hub\<lparr>hb_relay := Relay_step (OpAttach ''host'') (hb_relay hub)\<rparr>,
          sy_gate = RemoteGate_new RemoteLimits_default, sy_conns = []\<rparr>)"

definition sample_sys2 :: System where
  "sample_sys2 = store_world sample_sys1 (connection_start sample_lib RemoteLimits_default (sy_hub sample_sys1)
     (fst (admit (sy_gate sample_sys1) (V4 1))) (V4 1) (KeyV4 1) (Some [1]) 0)"

definition sample_frame :: Json where
  "sample_frame = JObject [(''id'', JNumber (PosInt 1)), (''method'', JString ''terminal.open''),
     (''params'', JObject [(''source_id'', JString ''host''), (''invocation_id'', JString ''inv-1'')])]"

definition sample_sys3 :: System where
  "sample_sys3 = store_world sample_sys2 (fst (handle_request sample_lib
     (world sample_sys2 (hd (sy_conns sample_sys2))) (Some sample_frame) [] 0 0 (\<lambda>_. [])))"

lemma sample_sys1_facts:
  "hb_store (sy_hub sample_sys1) = sample_store" "hb_next_handle (sy_hub sample_sys1) = 1"
  "hb_remote (sy_hub sample_sys1) = Some sample_remote" "hb_handles (sy_hub sample_sys1) = []"
  "hb_connections (sy_hub sample_sys1) = []" "sy_conns sample_sys1 = []"
  "sy_gate sample_sys1 = RemoteGate_new RemoteLimits_default" "rl_next_id (hb_relay (sy_hub sample_sys1)) = 1"
  "rl_channels (hb_relay (sy_hub sample_sys1)) = [\<lparr>ch_source = ''host'', ch_id = 1, ch_pending = []\<rparr>]"
  "rl_streams (hb_relay (sy_hub sample_sys1)) = []"
  by (simp_all add: sample_sys1_def Hub_new_def Hub_with_pair_ttl_def Relay_attach_def State_next_def Relay_new_def
    put_channel_def Let_def)

definition sample_device_now :: Device where
  "sample_device_now = device_row (hd (hd_devices sample_store))"

lemma sample_device_now_scopes: "de_scopes sample_device_now = [''watch'']" "de_device_id sample_device_now = []"
  by code_simp+

lemma sample_store_facts:
  "device_by_spki sample_store [] = Some sample_device_now" "has_agent sample_store ''host'' ''inv-1''"
  by (simp_all add: sample_store_def HubDb_empty_def device_by_spki_def sample_device_now_def has_agent_def agent_key_def)

lemma sample_key: "sha256_hex sample_lib spki = []" "device_id [] = []"
  by (simp_all add: sha256_hex_def sample_lib_def device_id_def utf8_def)

lemma touch_store_facts:
  "device_by_spki (touch_device sample_store i now) [] = Some (sample_device_now\<lparr>de_last_seen_at := (if i = [] then Some now else None)\<rparr>)"
  "has_agent (touch_device sample_store i now) ''host'' ''inv-1''"
  by (simp_all add: sample_store_def HubDb_empty_def device_by_spki_def sample_device_now_def has_agent_def agent_key_def
    touch_device_def device_row_def)

lemma sample_gate: "admit (sy_gate sample_sys1) (V4 1) = (fst (admit (sy_gate sample_sys1) (V4 1)), Some (KeyV4 1))"
  by (simp add: sample_sys1_facts admit_def RemoteGate_new_def RemoteLimits_default_def tries_def Let_def)

definition sample_conn :: Connection where
  "sample_conn = \<lparr>cn_handle = 1, cn_peer = V4 1, cn_device_spki = Some [1], cn_device = Some sample_device_now, cn_nonce = None,
      cn_streaming = False, cn_authenticated = True, cn_awaiting_operator = False, cn_ticket = None,
      cn_requests = 8, cn_max_inflight_requests = 8, cn_kill = False\<rparr>"

lemma sample_sys2_facts:
  "hb_store (sy_hub sample_sys2) = touch_device sample_store [] 0"
  "hb_remote (sy_hub sample_sys2) = Some sample_remote"
  "hb_handles (sy_hub sample_sys2) = [\<lparr>hn_id = 1, hn_revoke = False, hn_withdraw = False, hn_stream_scopes = []\<rparr>]"
  "hb_relay (sy_hub sample_sys2) = hb_relay (sy_hub sample_sys1)" "sy_conns sample_sys2 = [sample_conn]"
  by (simp_all add: sample_sys2_def connection_start_def Connection_new_def ConnectionHandle_new_def current_device_def
    sample_sys1_facts sample_key sample_store_facts authenticate_def register_connection_def store_world_def
    sample_device_now_scopes sample_conn_def RemoteLimits_default_def Let_def)

lemma sample_sys3_stream:
  "tbl_lookup sm_id 2 (rl_streams (hb_relay (sy_hub sample_sys3))) = Some \<lparr>sm_id = 2, sm_source = ''host'', sm_channel = 1,
     sm_owner = 1, sm_opening = Some [], sm_lagging = False, sm_ended = False\<rparr>"
proof -
  have eff: "effective_scopes h (sample_device_now\<lparr>de_last_seen_at := x\<rparr>) = [ScopeWatch]" if "hb_remote h = Some sample_remote" for h x
    using sample_device_now_scopes(1) that
    by (simp add: effective_scopes_def control_enabled_def sample_remote_def List.map_filter_def Scope_parse_def Scope_ALL_def is_terminal_def)
  show ?thesis
    by (simp add: sample_sys3_def sample_sys2_facts handle_request_def sample_frame_def get_str_def Let_def
      device_request_def current_device_def sample_conn_def is_revoked_def is_withdrawn_def sample_key touch_store_facts
      authenticate_def required_scope_def eff run_method_def terminal_open_def Relay_open_def State_next_def
      sample_sys1_facts add_stream_scope_def update_handle_def store_world_def tbl_lookup_put)
qed

abbreviation sample_start :: System where
  "sample_start \<equiv> \<lparr>sy_hub = Hub_new sample_lib sample_store (\<lambda>_. Some 8) (Some sample_remote),
     sy_gate = RemoteGate_new RemoteLimits_default, sy_conns = []\<rparr>"

lemma sample_run: "(sys_step sample_lib RemoteLimits_default)\<^sup>*\<^sup>* sample_start sample_sys3"
proof -
  have "sys_step sample_lib RemoteLimits_default sample_start sample_sys1"
    using sys_step.relay [of "OpAttach ''host''" sample_lib RemoteLimits_default sample_start]
    by (simp add: sample_sys1_def Let_def)
  moreover have "sys_step sample_lib RemoteLimits_default sample_sys1 sample_sys2"
    unfolding sample_sys2_def
    by (rule sys_step.connect [OF sample_gate]) (simp add: sample_sys1_facts)
  moreover have "sys_step sample_lib RemoteLimits_default sample_sys2 sample_sys3"
    unfolding sample_sys3_def
    by (rule sys_step.request [OF _ surjective_pairing, where h = 1]) (simp add: sample_sys2_facts sample_conn_def)
  ultimately show ?thesis by (metis converse_rtranclp_into_rtranclp rtranclp.rtrancl_refl)
qed


end
