(* ===== verification/Terminals.thy ===== *)
theory Terminals
  imports Hub_Relay_Props
begin

text \<open>
  Live terminal sessions of the broker, \<^verbatim>\<open>sessiontapd/src/terminal.rs\<close>: one stream of a pane per watched
  invocation, fanned out to its watchers. A session is a numbered object and keeps every frame it
  sent; a receiver of the broadcast channel is a position in them, and the channel holds the last
  \<open>FRAME_BUFFER\<close> frames. Processes and the multiplexer are arguments.
\<close>

definition FRAME_BUFFER :: nat where
  "FRAME_BUFFER = 256"

record TerminalError =
  te_code :: string
  te_message :: string

definition TerminalError_new :: "string \<Rightarrow> string \<Rightarrow> TerminalError" where
  "TerminalError_new code message = \<lparr>te_code = code, te_message = message\<rparr>"

definition TerminalError_fmt :: "TerminalError \<Rightarrow> string" where
  "TerminalError_fmt e = te_code e @ '': '' @ te_message e"

section \<open>The guard\<close>

record PaneState =
  pn_foreground_pgid :: "u32 option"
  pn_in_mode :: bool

record AgentProcess =
  ap_child_pid :: u32
  ap_start_identity :: "string option"

text \<open>The start identity of a process, when it exists.\<close>

definition guard :: "(u32 \<Rightarrow> string option) \<Rightarrow> AgentProcess \<Rightarrow> PaneState \<Rightarrow> InputUnavailable option" where
  "guard identity agent state =
     (let same_process = is_none_or (\<lambda>expected. identity (ap_child_pid agent) = Some expected) (ap_start_identity agent)
      in if pn_foreground_pgid state \<noteq> Some (ap_child_pid agent) \<or> \<not> same_process then Some NotForeground
         else if pn_in_mode state then Some PaneInMode else None)"

text \<open>The foreground part of the guard: what the poll and the first watch compute, \<open>None\<close> for a pane that cannot be read.\<close>

definition foreground_guard :: "(u32 \<Rightarrow> string option) \<Rightarrow> AgentProcess \<Rightarrow> PaneState option \<Rightarrow> InputUnavailable option" where
  "foreground_guard identity agent state =
     (case state of None \<Rightarrow> Some NotForeground | Some state \<Rightarrow> guard identity agent (state\<lparr>pn_in_mode := False\<rparr>))"

section \<open>Sessions\<close>

record TerminalSession =
  tn_id :: nat
  tn_frames :: "TerminalFrame list"
  tn_seq :: u64
  tn_input :: InputState
  tn_foreground :: "InputUnavailable option"
  tn_in_mode :: bool
  tn_ended :: bool
  tn_watchers :: nat
  tn_tasks :: bool

definition TerminalSession_publish :: "(u64 \<Rightarrow> InputState \<Rightarrow> TerminalFrame) \<Rightarrow> TerminalSession \<Rightarrow> TerminalSession" where
  "TerminalSession_publish frame s =
     (if tn_ended s then s
      else s\<lparr>tn_seq := tn_seq s + 1, tn_frames := tn_frames s @ [frame (tn_seq s) (tn_input s)]\<rparr>)"

definition update_input :: "(TerminalSession \<Rightarrow> TerminalSession) \<Rightarrow> TerminalSession \<Rightarrow> TerminalSession" where
  "update_input change s =
     (if tn_ended s then s
      else
        let s1 = change s;
            available = from_guard (or_else (tn_foreground s1) (if tn_in_mode s1 then Some PaneInMode else None))
        in if available \<noteq> tn_input s1
           then s1\<lparr>tn_input := available, tn_frames := tn_frames s1 @ [FrameInput available]\<rparr> else s1)"

definition TerminalSession_end :: "EndReason \<Rightarrow> TerminalSession \<Rightarrow> TerminalSession \<times> bool" where
  "TerminalSession_end reason s =
     (if tn_ended s then (s, False)
      else (s\<lparr>tn_ended := True, tn_frames := tn_frames s @ [FrameEnded reason]\<rparr>, True))"

section \<open>Watchers and all sessions\<close>

record Watcher =
  wt_id :: nat
  wt_invocation :: InvocationId
  wt_session :: nat
  wt_position :: nat
  wt_synced :: bool
  wt_done :: bool

text \<open>
  The map of live sessions, the session objects, the invocations whose stream ended, the watchers, and
  the snapshots asked of each session's pane.
\<close>

record Terminals =
  tm_sessions :: "(InvocationId \<times> nat) list"
  tm_objects :: "TerminalSession list"
  tm_ended :: "InvocationId list"
  tm_watchers :: "Watcher list"
  tm_requests :: "nat list"
  tm_next :: nat

definition Terminals_default :: Terminals where
  "Terminals_default =
     \<lparr>tm_sessions = [], tm_objects = [], tm_ended = [], tm_watchers = [], tm_requests = [], tm_next = 0\<rparr>"

definition has_ended :: "Terminals \<Rightarrow> InvocationId \<Rightarrow> bool" where
  "has_ended tm i \<longleftrightarrow> i \<in> set (tm_ended tm)"

definition session_of :: "Terminals \<Rightarrow> InvocationId \<Rightarrow> TerminalSession option" where
  "session_of tm i = (case tbl_lookup fst i (tm_sessions tm) of None \<Rightarrow> None | Some (_, n) \<Rightarrow> tbl_lookup tn_id n (tm_objects tm))"

definition Terminals_is_open :: "Terminals \<Rightarrow> InvocationId \<Rightarrow> bool" where
  "Terminals_is_open tm i \<longleftrightarrow> tbl_lookup fst i (tm_sessions tm) \<noteq> None"

definition put_terminal :: "Terminals \<Rightarrow> TerminalSession \<Rightarrow> Terminals" where
  "put_terminal tm s = tm\<lparr>tm_objects := tbl_put tn_id s (tm_objects tm)\<rparr>"

definition request_snapshot :: "Terminals \<Rightarrow> nat \<Rightarrow> Terminals" where
  "request_snapshot tm n = tm\<lparr>tm_requests := tm_requests tm @ [n]\<rparr>"

text \<open>\<open>watcher\<close>, with the number of the new watcher.\<close>

definition add_watcher :: "Terminals \<Rightarrow> InvocationId \<Rightarrow> TerminalSession \<Rightarrow> Terminals \<times> nat" where
  "add_watcher tm i s =
     (tm\<lparr>tm_watchers := tm_watchers tm @ [\<lparr>wt_id = tm_next tm, wt_invocation = i, wt_session = tn_id s,
          wt_position = length (tn_frames s), wt_synced = False, wt_done = False\<rparr>], tm_next := tm_next tm + 1\<rparr>, tm_next tm)"

definition TerminalSession_new :: "nat \<Rightarrow> InputUnavailable option \<Rightarrow> TerminalSession" where
  "TerminalSession_new n foreground =
     \<lparr>tn_id = n, tn_frames = [], tn_seq = 0, tn_input = from_guard foreground, tn_foreground = foreground,
      tn_in_mode = False, tn_ended = False, tn_watchers = 1, tn_tasks = True\<rparr>"

text \<open>
  \<open>watch\<close>. The arguments are what the pane says, what opening a stream gives, and what asking a live
  stream for a snapshot gives; an error is its message.
\<close>

definition Terminals_watch ::
    "Terminals \<Rightarrow> InvocationId \<Rightarrow> InputUnavailable option \<Rightarrow> string + unit \<Rightarrow> string + unit \<Rightarrow> Terminals \<times> (string + nat)" where
  "Terminals_watch tm i foreground opened asked =
     (case session_of tm i of
        Some s \<Rightarrow>
          let s1 = s\<lparr>tn_watchers := tn_watchers s + 1\<rparr>; tm1 = put_terminal tm s1
          in (case asked of
                Inl e \<Rightarrow> (tm1, Inl e)
              | Inr _ \<Rightarrow> (case add_watcher (request_snapshot tm1 (tn_id s)) i s1 of (tm2, w) \<Rightarrow> (tm2, Inr w)))
      | None \<Rightarrow>
          (case opened of
             Inl e \<Rightarrow> (tm, Inl e)
           | Inr _ \<Rightarrow>
               let s = TerminalSession_new (tm_next tm) foreground;
                   tm1 = (put_terminal tm s)\<lparr>tm_sessions := tbl_put fst (i, tn_id s) (tm_sessions tm), tm_next := tm_next tm + 1\<rparr>
               in (case add_watcher tm1 i s of (tm2, w) \<Rightarrow> (tm2, Inr w))))"

definition Terminals_end :: "Terminals \<Rightarrow> InvocationId \<Rightarrow> EndReason \<Rightarrow> Terminals" where
  "Terminals_end tm i reason =
     (case session_of tm i of
        None \<Rightarrow> tm
      | Some s \<Rightarrow>
          (case TerminalSession_end reason s of
             (s1, first) \<Rightarrow>
               (put_terminal tm (s1\<lparr>tn_tasks := False\<rparr>))\<lparr>tm_sessions := tbl_delete fst i (tm_sessions tm),
                  tm_ended := (if first then i # tm_ended tm else tm_ended tm)\<rparr>))"

definition end_not_live :: "Terminals \<Rightarrow> (InvocationId \<Rightarrow> bool) \<Rightarrow> Terminals" where
  "end_not_live tm is_not_live =
     fold (\<lambda>i tm. Terminals_end tm i AgentExited) (filter is_not_live (map fst (tm_sessions tm))) tm"

text \<open>\<open>leave\<close>, when a watcher is dropped.\<close>

definition leave :: "Terminals \<Rightarrow> nat \<Rightarrow> Terminals" where
  "leave tm w =
     (case tbl_lookup wt_id w (tm_watchers tm) of
        None \<Rightarrow> tm
      | Some x \<Rightarrow>
          let tm1 = tm\<lparr>tm_watchers := tbl_delete wt_id w (tm_watchers tm)\<rparr>
          in case tbl_lookup tn_id (wt_session x) (tm_objects tm1) of
               None \<Rightarrow> tm1
             | Some s \<Rightarrow>
                 let s1 = s\<lparr>tn_watchers := tn_watchers s - 1\<rparr>
                 in if tn_watchers s1 = 0 \<and> tbl_lookup fst (wt_invocation x) (tm_sessions tm1) = Some (wt_invocation x, tn_id s)
                    then (put_terminal tm1 (s1\<lparr>tn_tasks := False\<rparr>))\<lparr>
                           tm_sessions := tbl_delete fst (wt_invocation x) (tm_sessions tm1)\<rparr>
                    else put_terminal tm1 s1)"

section \<open>The tasks of a session\<close>

record PaneSnapshot =
  pp_cols :: u16
  pp_rows :: u16
  pp_cursor :: Cursor
  pp_alternate_screen :: bool
  pp_in_mode :: bool
  pp_data :: "u8 list"

datatype PaneEvent = PaneShows PaneSnapshot | PaneOutput "u8 list" | PaneResync | PaneResized
  | PaneModeChanged bool | PaneStreamClosed EndReason

text \<open>One event of the pane, taken by the reader of session \<open>n\<close>, which runs while the session's tasks do.\<close>

definition reader_event :: "Terminals \<Rightarrow> InvocationId \<Rightarrow> nat \<Rightarrow> PaneEvent \<Rightarrow> Terminals" where
  "reader_event tm i n event =
     (case tbl_lookup tn_id n (tm_objects tm) of
        None \<Rightarrow> tm
      | Some s \<Rightarrow>
          (case event of
             PaneShows p \<Rightarrow>
               put_terminal tm (TerminalSession_publish
                 (\<lambda>seq input. FrameSnapshot seq (pp_cols p) (pp_rows p) (pp_cursor p) (pp_alternate_screen p) (pp_data p) input)
                 (update_input (\<lambda>s. s\<lparr>tn_in_mode := pp_in_mode p\<rparr>) s))
           | PaneOutput data \<Rightarrow> put_terminal tm (TerminalSession_publish (\<lambda>seq _. FrameOutput seq data) s)
           | PaneResync \<Rightarrow> request_snapshot tm n
           | PaneResized \<Rightarrow> request_snapshot tm n
           | PaneModeChanged in_mode \<Rightarrow> put_terminal tm (update_input (\<lambda>s. s\<lparr>tn_in_mode := in_mode\<rparr>) s)
           | PaneStreamClosed reason \<Rightarrow> Terminals_end tm i reason))"

text \<open>One poll: \<open>None\<close> when the agent is gone, otherwise what the guard says.\<close>

definition poller_turn :: "Terminals \<Rightarrow> InvocationId \<Rightarrow> nat \<Rightarrow> InputUnavailable option option \<Rightarrow> Terminals" where
  "poller_turn tm i n polled =
     (case polled of
        None \<Rightarrow> Terminals_end tm i AgentExited
      | Some foreground \<Rightarrow>
          (case tbl_lookup tn_id n (tm_objects tm) of
             None \<Rightarrow> tm
           | Some s \<Rightarrow> put_terminal tm (update_input (\<lambda>s. s\<lparr>tn_foreground := foreground\<rparr>) s)))"

section \<open>Receiving\<close>

text \<open>
  One \<open>recv\<close> of the broadcast channel: the next frame, or how far the receiver has to skip when the
  channel no longer holds it. \<open>None\<close> waits for a frame; the session a watcher holds keeps the channel open.
\<close>

datatype RecvFrame = GotFrame TerminalFrame | FramesLagged

definition recv_frame :: "TerminalFrame list \<Rightarrow> nat \<Rightarrow> (RecvFrame \<times> nat) option" where
  "recv_frame frames position =
     (if position \<ge> length frames then None
      else if length frames - position > FRAME_BUFFER then Some (FramesLagged, length frames - FRAME_BUFFER)
      else Some (GotFrame (frames ! position), position + 1))"

text \<open>\<open>next\<close> on the frames sent so far: the watcher, the snapshots it asked for, and the frame it returns.\<close>

function next_frame :: "TerminalFrame list \<Rightarrow> Watcher \<Rightarrow> Watcher \<times> nat \<times> TerminalFrame option" where
  "next_frame frames w =
     (if wt_done w then (w, 0, None)
      else case recv_frame frames (wt_position w) of
             None \<Rightarrow> (w, 0, None)
           | Some (FramesLagged, p) \<Rightarrow>
               (case next_frame frames (w\<lparr>wt_position := p, wt_synced := False\<rparr>) of (w', n, f) \<Rightarrow> (w', n + 1, f))
           | Some (GotFrame f, p) \<Rightarrow>
               (case f of
                  FrameEnded _ \<Rightarrow> (w\<lparr>wt_position := p, wt_done := True\<rparr>, 0, Some f)
                | FrameSnapshot _ _ _ _ _ _ _ \<Rightarrow> (w\<lparr>wt_position := p, wt_synced := True\<rparr>, 0, Some f)
                | _ \<Rightarrow> if wt_synced w then (w\<lparr>wt_position := p\<rparr>, 0, Some f) else next_frame frames (w\<lparr>wt_position := p\<rparr>)))"
  by pat_completeness auto
termination
  by (relation "measure (\<lambda>(frames, w). length frames - wt_position w)")
    (auto simp: recv_frame_def FRAME_BUFFER_def split: if_splits)

declare next_frame.simps [simp del]

definition Watcher_resync :: "Terminals \<Rightarrow> Watcher \<Rightarrow> Terminals" where
  "Watcher_resync tm w =
     request_snapshot (tm\<lparr>tm_watchers := tbl_put wt_id (w\<lparr>wt_synced := False\<rparr>) (tm_watchers tm)\<rparr>) (wt_session w)"

end
