(* ===== verification/Terminals_Props.thy ===== *)
theory Terminals_Props
  imports Terminals
begin

text \<open>
  What a watcher sees. Beside the sessions runs a record of the frames every watcher was given; in
  every run they draw the screen of the session, and a watcher that has lost touch is promised a snapshot.
\<close>

section \<open>Runs\<close>

record TerminalRun =
  tr_terminals :: Terminals
  tr_seen :: "nat \<Rightarrow> TerminalFrame list"

definition is_shown :: "PaneEvent \<Rightarrow> bool" where
  "is_shown e = (case e of PaneShows _ \<Rightarrow> True | _ \<Rightarrow> False)"

definition snapshots :: "TerminalFrame list \<Rightarrow> nat" where
  "snapshots frames = length (filter is_snapshot_frame frames)"

text \<open>The snapshots a session was promised: the first event of its stream, and one for every request.\<close>

definition asked :: "Terminals \<Rightarrow> nat \<Rightarrow> nat" where
  "asked tm n = 1 + count_list (tm_requests tm) n"

text \<open>
  A watch request, the end of an agent, the sweep over agents that are not live, a watcher that is
  dropped, asks for the next frame or resynchronises, an event of a pane and a poll. The tasks of a
  session run while it is in the map, and a pane shows itself only when it is asked to.
\<close>

inductive terminal_step :: "TerminalRun \<Rightarrow> TerminalRun \<Rightarrow> bool" where
  watching: "Terminals_watch (tr_terminals r) i foreground opened asks = (tm, result) \<Longrightarrow>
    terminal_step r (r\<lparr>tr_terminals := tm\<rparr>)"
| ending: "terminal_step r (r\<lparr>tr_terminals := Terminals_end (tr_terminals r) i reason\<rparr>)"
| leaving: "terminal_step r (r\<lparr>tr_terminals := leave (tr_terminals r) w\<rparr>)"
| event: "tbl_lookup fst i (tm_sessions (tr_terminals r)) = Some (i, n) \<Longrightarrow>
    tbl_lookup tn_id n (tm_objects (tr_terminals r)) = Some s \<Longrightarrow>
    (is_shown e \<Longrightarrow> snapshots (tn_frames s) < asked (tr_terminals r) n) \<Longrightarrow>
    terminal_step r (r\<lparr>tr_terminals := reader_event (tr_terminals r) i n e\<rparr>)"
| polled: "tbl_lookup fst i (tm_sessions (tr_terminals r)) = Some (i, n) \<Longrightarrow>
    terminal_step r (r\<lparr>tr_terminals := poller_turn (tr_terminals r) i n result\<rparr>)"
| given: "tbl_lookup wt_id w (tm_watchers (tr_terminals r)) = Some x \<Longrightarrow>
    tbl_lookup tn_id (wt_session x) (tm_objects (tr_terminals r)) = Some s \<Longrightarrow>
    next_frame (tn_frames s) x = (x', k, f) \<Longrightarrow>
    terminal_step r (r\<lparr>tr_terminals := (tr_terminals r)\<lparr>tm_watchers := tbl_put wt_id x' (tm_watchers (tr_terminals r)),
        tm_requests := tm_requests (tr_terminals r) @ replicate k (wt_session x)\<rparr>,
      tr_seen := (case f of None \<Rightarrow> tr_seen r | Some f \<Rightarrow> (tr_seen r)(w := tr_seen r w @ [f]))\<rparr>)"
| resynced: "tbl_lookup wt_id w (tm_watchers (tr_terminals r)) = Some x \<Longrightarrow>
    terminal_step r (r\<lparr>tr_terminals := Watcher_resync (tr_terminals r) x\<rparr>)"

section \<open>Sessions\<close>

abbreviation no_end :: "TerminalFrame list \<Rightarrow> bool" where
  "no_end fs \<equiv> list_all (\<lambda>f. \<not> is_ended f) fs"

definition frames_ok :: "TerminalSession \<Rightarrow> bool" where
  "frames_ok s \<longleftrightarrow> (if tn_ended s then \<exists>fs reason. tn_frames s = fs @ [FrameEnded reason] \<and> no_end fs else no_end (tn_frames s))"

text \<open>What an operation on a session does to its frames: it appends some, and none once it ended.\<close>

definition grows :: "TerminalSession \<Rightarrow> TerminalSession \<Rightarrow> bool" where
  "grows s s' \<longleftrightarrow> tn_id s' = tn_id s \<and> (\<exists>new. tn_frames s' = tn_frames s @ new)
     \<and> (tn_ended s \<longrightarrow> tn_ended s' \<and> tn_frames s' = tn_frames s) \<and> (frames_ok s \<longrightarrow> frames_ok s')"

lemma grows_refl [simp]: "grows s s"
  by (simp add: grows_def)

lemma grows_fields [simp]:
  "grows s (s\<lparr>tn_watchers := n\<rparr>)" "grows s (s\<lparr>tn_tasks := b\<rparr>)" "grows s (s\<lparr>tn_watchers := n, tn_tasks := b\<rparr>)"
  by (simp_all add: grows_def frames_ok_def)

lemma grows_trans: "grows s t \<Longrightarrow> grows t u \<Longrightarrow> grows s u"
  by (auto simp: grows_def)

lemma grows_publish: "\<not> is_ended (frame (tn_seq s) (tn_input s)) \<Longrightarrow> grows s (TerminalSession_publish frame s)"
  by (cases "tn_ended s") (simp_all add: grows_def TerminalSession_publish_def frames_ok_def)

lemma grows_update_input:
  assumes "tn_id (change s) = tn_id s" "tn_frames (change s) = tn_frames s" "tn_ended (change s) = tn_ended s"
  shows "grows s (update_input change s)"
  using assms by (cases "tn_ended s") (simp_all add: grows_def update_input_def frames_ok_def Let_def)

lemma grows_end: "TerminalSession_end reason s = (s', first) \<Longrightarrow> grows s s'"
  by (cases "tn_ended s") (auto simp: grows_def TerminalSession_end_def frames_ok_def)

section \<open>One call of next\<close>

definition opt_frames :: "TerminalFrame option \<Rightarrow> TerminalFrame list" where
  "opt_frames f = (case f of None \<Rightarrow> [] | Some f \<Rightarrow> [f])"

text \<open>
  What holds of a watcher that has been given \<open>seen\<close> of \<open>frames\<close>, when its session has been asked for \<open>a\<close> snapshots.
\<close>

definition view_ok :: "TerminalFrame list \<Rightarrow> nat \<Rightarrow> TerminalFrame list \<Rightarrow> Watcher \<Rightarrow> bool" where
  "view_ok frames a seen w \<longleftrightarrow> wt_position w \<le> length frames
     \<and> (wt_synced w \<longrightarrow> screen seen = screen (take (wt_position w) frames))
     \<and> (\<not> wt_synced w \<and> \<not> wt_done w \<longrightarrow> snapshots (take (wt_position w) frames) < a)
     \<and> (if wt_done w then \<exists>fs reason. seen = fs @ [FrameEnded reason] \<and> no_end fs else no_end seen)"

lemma snapshots_append [simp]: "snapshots (fs @ gs) = snapshots fs + snapshots gs"
  by (simp add: snapshots_def)

lemma snapshots_take: "snapshots (take n frames) \<le> snapshots frames"
proof -
  have "snapshots (take n frames @ drop n frames) = snapshots (take n frames) + snapshots (drop n frames)" by (rule snapshots_append)
  then show ?thesis by simp
qed

lemma screen_step: "p < length frames \<Longrightarrow> screen (take (p + 1) frames) = draw (frames ! p) (screen (take p frames))"
  by (simp add: take_Suc_conv_app_nth screen_append)

lemma snapshots_step:
  "p < length frames \<Longrightarrow> \<not> is_snapshot_frame (frames ! p) \<Longrightarrow> snapshots (take (p + 1) frames) = snapshots (take p frames)"
  by (simp add: take_Suc_conv_app_nth) (simp add: snapshots_def)

lemma view_ok_frame:
  assumes ok: "view_ok frames a seen w" and p: "wt_position w < length frames" and alive: "\<not> wt_done w"
    and f: "f = frames ! wt_position w"
  shows "is_ended f \<Longrightarrow> view_ok frames a (seen @ [f]) (w\<lparr>wt_position := wt_position w + 1, wt_done := True\<rparr>)"
    and "is_snapshot_frame f \<Longrightarrow> view_ok frames a (seen @ [f]) (w\<lparr>wt_position := wt_position w + 1, wt_synced := True\<rparr>)"
    and "\<not> is_ended f \<Longrightarrow> wt_synced w \<Longrightarrow> view_ok frames a (seen @ [f]) (w\<lparr>wt_position := wt_position w + 1\<rparr>)"
    and "\<not> is_ended f \<Longrightarrow> \<not> is_snapshot_frame f \<Longrightarrow> \<not> wt_synced w \<Longrightarrow> view_ok frames a seen (w\<lparr>wt_position := wt_position w + 1\<rparr>)"
proof -
  have drawn: "screen (seen @ [f]) = screen (take (wt_position w + 1) frames)" if "wt_synced w \<or> is_snapshot_frame f"
    using ok p f that draw_snapshot [of f] screen_step [OF p]
    by (auto simp: view_ok_def screen_append)
  show "is_ended f \<Longrightarrow> view_ok frames a (seen @ [f]) (w\<lparr>wt_position := wt_position w + 1, wt_done := True\<rparr>)"
    using ok p alive drawn by (cases f) (auto simp: view_ok_def)
  show "is_snapshot_frame f \<Longrightarrow> view_ok frames a (seen @ [f]) (w\<lparr>wt_position := wt_position w + 1, wt_synced := True\<rparr>)"
    using ok p alive drawn by (cases f) (auto simp: view_ok_def)
  show "\<not> is_ended f \<Longrightarrow> wt_synced w \<Longrightarrow> view_ok frames a (seen @ [f]) (w\<lparr>wt_position := wt_position w + 1\<rparr>)"
    using ok p alive drawn by (auto simp: view_ok_def)
  show "\<not> is_ended f \<Longrightarrow> \<not> is_snapshot_frame f \<Longrightarrow> \<not> wt_synced w \<Longrightarrow> view_ok frames a seen (w\<lparr>wt_position := wt_position w + 1\<rparr>)"
    using ok p alive f snapshots_step [OF p] by (auto simp: view_ok_def)
qed

lemma next_frame_ok:
  assumes "next_frame frames w = (w', k, f)" "view_ok frames a seen w" "snapshots frames \<le> a"
  shows "view_ok frames (a + k) (seen @ opt_frames f) w' \<and> wt_id w' = wt_id w \<and> wt_session w' = wt_session w"
  using assms
proof (induction frames w arbitrary: w' k f a rule: next_frame.induct)
  case (1 frames w)
  show ?case
  proof (cases "wt_done w \<or> recv_frame frames (wt_position w) = None")
    case True
    with "1.prems"(1) have "w' = w" "k = 0" "f = None" by (auto simp: next_frame.simps split: if_splits)
    with "1.prems"(2) show ?thesis by (simp add: opt_frames_def)
  next
    case False
    then obtain got p where got: "recv_frame frames (wt_position w) = Some (got, p)" and alive: "\<not> wt_done w" by auto
    show ?thesis
    proof (cases got)
      case FramesLagged
      have p: "p \<le> length frames" using got FramesLagged by (auto simp: recv_frame_def split: if_splits)
      let ?w = "w\<lparr>wt_position := p, wt_synced := False\<rparr>"
      obtain m where m: "next_frame frames ?w = (w', m, f)" "k = m + 1"
        using "1.prems"(1) got FramesLagged alive by (auto simp: next_frame.simps [of frames w] split: prod.splits)
      have "view_ok frames (a + 1) seen ?w"
        using "1.prems"(2,3) p snapshots_take [of p frames] alive by (auto simp: view_ok_def)
      from "1.IH"(3) [OF alive got _ FramesLagged m(1) this] "1.prems"(3) m(2) show ?thesis by simp
    next
      case (GotFrame g)
      then have p: "p = wt_position w + 1" "g = frames ! wt_position w" "wt_position w < length frames"
        using got by (auto simp: recv_frame_def split: if_splits)
      note frame = view_ok_frame [OF "1.prems"(2) p(3) alive p(2)]
      show ?thesis
      proof (cases "is_ended g \<or> is_snapshot_frame g \<or> wt_synced w")
        case True
        with "1.prems"(1) got GotFrame alive frame p(1) show ?thesis
          by (cases g) (auto simp: next_frame.simps [of frames w] opt_frames_def split: if_splits)
      next
        case False
        let ?w = "w\<lparr>wt_position := p\<rparr>"
        have m: "next_frame frames ?w = (w', k, f)"
          using "1.prems"(1) got GotFrame alive False by (cases g) (auto simp: next_frame.simps [of frames w])
        have v: "view_ok frames a seen ?w" using frame(4) False p(1) by simp
        have "view_ok frames (a + k) (seen @ opt_frames f) w' \<and> wt_id w' = wt_id ?w \<and> wt_session w' = wt_session ?w"
        proof (cases g)
          case (FrameOutput seq data)
          show ?thesis using "1.IH"(1) [OF alive got _ GotFrame FrameOutput _ m v] False "1.prems"(3) by simp
        next
          case (FrameInput input)
          show ?thesis using "1.IH"(2) [OF alive got _ GotFrame FrameInput _ m v] False "1.prems"(3) by simp
        qed (use False in simp_all)
        then show ?thesis by simp
      qed
    qed
  qed
qed

section \<open>The invariant\<close>

abbreviation object :: "Terminals \<Rightarrow> nat \<Rightarrow> TerminalSession option" where
  "object tm n \<equiv> tbl_lookup tn_id n (tm_objects tm)"

definition objects_ok :: "Terminals \<Rightarrow> bool" where
  "objects_ok tm \<longleftrightarrow> (\<forall>n s. object tm n = Some s \<longrightarrow> n < tm_next tm \<and> frames_ok s \<and> snapshots (tn_frames s) \<le> asked tm n)"

definition watcher_ok :: "TerminalRun \<Rightarrow> Watcher \<Rightarrow> bool" where
  "watcher_ok r x \<longleftrightarrow> wt_id x < tm_next (tr_terminals r)
     \<and> is_some_and (\<lambda>s. view_ok (tn_frames s) (asked (tr_terminals r) (wt_session x)) (tr_seen r (wt_id x)) x)
         (object (tr_terminals r) (wt_session x))"

definition terminal_inv :: "TerminalRun \<Rightarrow> bool" where
  "terminal_inv r \<longleftrightarrow> objects_ok (tr_terminals r) \<and> tbl_wf wt_id (tm_watchers (tr_terminals r))
     \<and> (\<forall>x \<in> set (tm_watchers (tr_terminals r)). watcher_ok r x) \<and> (\<forall>n \<ge> tm_next (tr_terminals r). tr_seen r n = [])"

text \<open>What every operation does to the session objects.\<close>

definition evolves :: "Terminals \<Rightarrow> Terminals \<Rightarrow> bool" where
  "evolves tm tm' \<longleftrightarrow> tm_next tm \<le> tm_next tm' \<and> (\<forall>n. asked tm n \<le> asked tm' n)
     \<and> (\<forall>n s. object tm n = Some s \<longrightarrow> (\<exists>s'. object tm' n = Some s' \<and> grows s s')) \<and> (objects_ok tm \<longrightarrow> objects_ok tm')"

lemma evolves_refl [simp]: "evolves tm tm"
  by (simp add: evolves_def)

lemma evolves_trans: "evolves a b \<Longrightarrow> evolves b c \<Longrightarrow> evolves a c"
  unfolding evolves_def by (meson grows_trans le_trans)

lemma evolves_fields [simp]:
  "evolves tm (tm'\<lparr>tm_sessions := m\<rparr>) = evolves tm tm'" "evolves tm (tm'\<lparr>tm_ended := e\<rparr>) = evolves tm tm'"
  "evolves tm (tm'\<lparr>tm_watchers := ws\<rparr>) = evolves tm tm'"
  "evolves tm (tm'\<lparr>tm_sessions := m, tm_ended := e\<rparr>) = evolves tm tm'"
  by (simp_all add: evolves_def objects_ok_def asked_def)

lemma asked_request [simp]: "asked (request_snapshot tm n) k = asked tm k + (if k = n then 1 else 0)"
  "asked (put_terminal tm s) k = asked tm k" "tm_next (put_terminal tm s) = tm_next tm"
  by (simp_all add: asked_def request_snapshot_def put_terminal_def)

lemma object_put [simp]: "object (put_terminal tm s) n = (if n = tn_id s then Some s else object tm n)"
  by (simp add: put_terminal_def tbl_lookup_put)

lemma put_terminal_watchers: "put_terminal (tm\<lparr>tm_watchers := ws\<rparr>) s = (put_terminal tm s)\<lparr>tm_watchers := ws\<rparr>"
  by (simp add: put_terminal_def)

lemma object_id: "object tm n = Some s \<Longrightarrow> tn_id s = n"
  by (auto dest: tbl_lookup_SomeD)

lemma evolves_request [simp]: "evolves tm (request_snapshot tm n)"
  by (auto simp: evolves_def objects_ok_def request_snapshot_def asked_def le_SucI)

lemma evolves_put:
  assumes "object tm n = Some s" "grows s s'" "frames_ok s \<Longrightarrow> snapshots (tn_frames s') \<le> max (snapshots (tn_frames s)) (asked tm n)"
  shows "evolves tm (put_terminal tm s')"
proof -
  have n: "tn_id s' = n" using assms(1,2) object_id by (auto simp: grows_def)
  have "objects_ok (put_terminal tm s')" if "objects_ok tm"
    using that assms n by (auto simp: objects_ok_def grows_def)
  with n assms(1,2) show ?thesis by (auto simp: evolves_def)
qed

lemma evolves_put_frames: "object tm n = Some s \<Longrightarrow> grows s s' \<Longrightarrow> tn_frames s' = tn_frames s \<Longrightarrow> evolves tm (put_terminal tm s')"
  by (rule evolves_put) (auto simp: le_max_iff_disj)

lemma snapshots_update_input:
  "tn_frames (change s) = tn_frames s \<Longrightarrow> snapshots (tn_frames (update_input change s)) = snapshots (tn_frames s)"
  by (auto simp: update_input_def Let_def snapshots_def)

lemma evolves_end: "evolves tm (Terminals_end tm i reason)"
proof (cases "session_of tm i")
  case None
  then show ?thesis by (simp add: Terminals_end_def)
next
  case (Some s)
  then obtain n where s: "object tm n = Some s" by (auto simp: session_of_def split: option.splits)
  obtain s1 first where e: "TerminalSession_end reason s = (s1, first)" by fastforce
  have "evolves tm (put_terminal tm (s1\<lparr>tn_tasks := False\<rparr>))"
    using s grows_trans [OF grows_end [OF e] grows_fields(2)] e
    by (intro evolves_put) (auto simp: TerminalSession_end_def snapshots_def split: if_splits)
  with Some e show ?thesis by (simp add: Terminals_end_def)
qed

lemma evolves_event:
  assumes s: "object tm n = Some s" and shown: "is_shown e \<Longrightarrow> snapshots (tn_frames s) < asked tm n"
  shows "evolves tm (reader_event tm i n e)"
proof (cases e)
  case (PaneShows p)
  let ?s = "update_input (\<lambda>s. s\<lparr>tn_in_mode := pp_in_mode p\<rparr>) s"
  have "grows s ?s" by (rule grows_update_input) simp_all
  moreover have "snapshots (tn_frames ?s) < asked tm n"
    using shown PaneShows by (simp add: snapshots_update_input is_shown_def)
  moreover define s' where "s' = TerminalSession_publish
    (\<lambda>seq input. FrameSnapshot seq (pp_cols p) (pp_rows p) (pp_cursor p) (pp_alternate_screen p) (pp_data p) input) ?s"
  moreover have "grows ?s s'" unfolding s'_def by (rule grows_publish) simp
  moreover have "snapshots (tn_frames s') \<le> snapshots (tn_frames ?s) + 1"
    by (auto simp: s'_def TerminalSession_publish_def snapshots_def)
  ultimately have "evolves tm (put_terminal tm s')" using s grows_trans by (intro evolves_put [OF s]) auto
  with s PaneShows show ?thesis by (simp add: reader_event_def s'_def)
next
  case (PaneOutput data)
  define s' where "s' = TerminalSession_publish (\<lambda>seq _. FrameOutput seq data) s"
  have "grows s s'" unfolding s'_def by (rule grows_publish) simp
  moreover have "snapshots (tn_frames s') = snapshots (tn_frames s)"
    by (simp add: s'_def TerminalSession_publish_def snapshots_def)
  ultimately show ?thesis using evolves_put [OF s] PaneOutput s by (simp add: reader_event_def s'_def)
next
  case (PaneModeChanged m)
  then show ?thesis using s
    by (auto simp: reader_event_def snapshots_update_input intro!: evolves_put grows_update_input)
qed (use s in \<open>simp_all add: reader_event_def evolves_end\<close>)

lemma evolves_poll: "evolves tm (poller_turn tm i n result)"
  by (auto simp: poller_turn_def evolves_end snapshots_update_input intro!: evolves_put grows_update_input split: option.split)

lemma evolves_leave: "evolves tm (leave tm w)"
  by (auto simp: leave_def Let_def put_terminal_watchers intro!: evolves_put_frames split: option.split)

lemma view_ok_grows: "view_ok frames a seen w \<Longrightarrow> a \<le> a' \<Longrightarrow> view_ok (frames @ new) a' seen w"
  by (auto simp: view_ok_def)

lemma watcher_ok_evolves:
  assumes "watcher_ok r x" "evolves (tr_terminals r) tm"
  shows "watcher_ok (r\<lparr>tr_terminals := tm\<rparr>) x"
proof -
  obtain s where s: "object (tr_terminals r) (wt_session x) = Some s" "wt_id x < tm_next (tr_terminals r)"
    "view_ok (tn_frames s) (asked (tr_terminals r) (wt_session x)) (tr_seen r (wt_id x)) x"
    using assms(1) by (auto simp: watcher_ok_def is_some_and_iff)
  from assms(2) s(1) obtain s' new where s': "object tm (wt_session x) = Some s'" "tn_frames s' = tn_frames s @ new"
    by (fastforce simp: evolves_def grows_def)
  have "asked (tr_terminals r) (wt_session x) \<le> asked tm (wt_session x)" "tm_next (tr_terminals r) \<le> tm_next tm"
    using assms(2) by (simp_all add: evolves_def)
  with s s' view_ok_grows [OF s(3)] show ?thesis by (simp add: watcher_ok_def)
qed

lemma terminal_inv_evolves:
  assumes inv: "terminal_inv r" and e: "evolves (tr_terminals r) tm"
    and ws: "tm_watchers tm = filter P (tm_watchers (tr_terminals r))"
  shows "terminal_inv (r\<lparr>tr_terminals := tm\<rparr>)"
  using inv e ws watcher_ok_evolves [OF _ e] by (auto simp: terminal_inv_def evolves_def tbl_filter_wf)

lemma leave_watchers: "\<exists>P. tm_watchers (leave tm w) = filter P (tm_watchers tm)"
proof -
  have "tm_watchers (leave tm w) = tm_watchers tm \<or> tm_watchers (leave tm w) = tbl_delete wt_id w (tm_watchers tm)"
    by (auto simp: leave_def Let_def put_terminal_def split: option.split)
  then show ?thesis by (metis filter_True tbl_delete_def)
qed

lemma same_watchers [simp]:
  "tm_watchers (Terminals_end tm i reason) = tm_watchers tm" "tm_watchers (reader_event tm i n e) = tm_watchers tm"
  "tm_watchers (poller_turn tm i n result) = tm_watchers tm"
  by (simp_all add: Terminals_end_def reader_event_def poller_turn_def put_terminal_def request_snapshot_def
    split: option.split PaneEvent.split prod.split)

text \<open>A new watcher starts at the end of the frames, and its session has just been asked for a snapshot.\<close>

lemma terminal_inv_join:
  assumes inv: "terminal_inv r" and e: "evolves (tr_terminals r) tm" and ws: "tm_watchers tm = tm_watchers (tr_terminals r)"
    and s: "object tm (tn_id s) = Some s" "snapshots (tn_frames s) < asked tm (tn_id s)"
    and add: "add_watcher tm i s = (tm', w)" and same: "tm_next tm = tm_next (tr_terminals r) \<or> tr_seen r (tm_next tm) = []"
  shows "terminal_inv (r\<lparr>tr_terminals := tm'\<rparr>)"
proof -
  have step: "evolves tm tm'" using add by (fastforce simp: add_watcher_def evolves_def objects_ok_def asked_def less_Suc_eq)
  have old: "terminal_inv (r\<lparr>tr_terminals := tm\<rparr>)"
    by (rule terminal_inv_evolves [OF inv e, of "\<lambda>_. True"]) (simp add: ws)
  have seen: "tr_seen r (tm_next tm) = []" using inv same by (auto simp: terminal_inv_def)
  have "watcher_ok (r\<lparr>tr_terminals := tm'\<rparr>) x" if "x \<in> set (tm_watchers tm)" for x
    using old that watcher_ok_evolves [of "r\<lparr>tr_terminals := tm\<rparr>" x tm'] step by (simp add: terminal_inv_def)
  moreover have "tm_next tm \<notin> wt_id ` set (tm_watchers tm)" using old by (auto simp: terminal_inv_def watcher_ok_def)
  moreover have "watcher_ok (r\<lparr>tr_terminals := tm'\<rparr>) \<lparr>wt_id = tm_next tm, wt_invocation = i, wt_session = tn_id s,
      wt_position = length (tn_frames s), wt_synced = False, wt_done = False\<rparr>"
    using add s seen by (auto simp: add_watcher_def watcher_ok_def view_ok_def asked_def)
  moreover have "objects_ok tm'" using old step by (simp add: terminal_inv_def evolves_def)
  ultimately show ?thesis using old add unfolding terminal_inv_def by (auto simp: add_watcher_def)
qed

lemma terminal_inv_watch:
  assumes inv: "terminal_inv r" and w: "Terminals_watch (tr_terminals r) i foreground opened asks = (tm, result)"
  shows "terminal_inv (r\<lparr>tr_terminals := tm\<rparr>)"
proof (cases "session_of (tr_terminals r) i")
  case (Some s)
  then obtain n where n: "object (tr_terminals r) n = Some s" by (auto simp: session_of_def split: option.splits)
  let ?s = "s\<lparr>tn_watchers := tn_watchers s + 1\<rparr>"
  have e: "evolves (tr_terminals r) (put_terminal (tr_terminals r) ?s)" by (rule evolves_put_frames [OF n]) simp_all
  show ?thesis
  proof (cases asks)
    case (Inl m)
    with Some w have "tm = put_terminal (tr_terminals r) ?s" by (simp add: Terminals_watch_def Let_def)
    with terminal_inv_evolves [OF inv e, of "\<lambda>_. True"] show ?thesis by (simp add: put_terminal_def)
  next
    case (Inr u)
    let ?tm = "request_snapshot (put_terminal (tr_terminals r) ?s) (tn_id s)"
    obtain k where k: "add_watcher ?tm i ?s = (tm, k)"
      using Some Inr w by (auto simp: Terminals_watch_def Let_def split: prod.splits)
    have "snapshots (tn_frames s) \<le> asked (tr_terminals r) n" using inv n by (auto simp: terminal_inv_def objects_ok_def)
    then show ?thesis using object_id [OF n]
      by (intro terminal_inv_join [OF inv evolves_trans [OF e evolves_request] _ _ _ k])
        (simp_all add: request_snapshot_def put_terminal_def tbl_lookup_put asked_def)
  qed
next
  case None
  show ?thesis
  proof (cases opened)
    case (Inl m)
    with None w have "tm = tr_terminals r" by (simp add: Terminals_watch_def)
    with inv show ?thesis by simp
  next
    case (Inr u)
    let ?s = "TerminalSession_new (tm_next (tr_terminals r)) foreground"
    let ?tm = "(put_terminal (tr_terminals r) ?s)\<lparr>tm_sessions := tbl_put fst (i, tn_id ?s) (tm_sessions (tr_terminals r)),
      tm_next := tm_next (tr_terminals r) + 1\<rparr>"
    obtain k where k: "add_watcher ?tm i ?s = (tm, k)"
      using None Inr w by (auto simp: Terminals_watch_def Let_def split: prod.splits)
    have id: "tn_id ?s = tm_next (tr_terminals r)" "tn_frames ?s = []" "\<not> tn_ended ?s" by (simp_all add: TerminalSession_new_def)
    have "object (tr_terminals r) (tm_next (tr_terminals r)) = None"
      using inv by (cases "object (tr_terminals r) (tm_next (tr_terminals r))") (auto simp: terminal_inv_def objects_ok_def)
    then have "evolves (tr_terminals r) ?tm"
      using id by (auto simp: evolves_def objects_ok_def asked_def put_terminal_def tbl_lookup_put frames_ok_def snapshots_def less_Suc_eq)
    then show ?thesis using id inv
      by (intro terminal_inv_join [OF inv _ _ _ _ k])
        (simp_all add: put_terminal_def tbl_lookup_put asked_def snapshots_def terminal_inv_def)
  qed
qed

lemma count_list_replicate: "count_list (replicate k x) y = (if x = y then k else 0)"
  by (induction k) auto

lemma terminal_inv_next:
  assumes inv: "terminal_inv r" and x: "tbl_lookup wt_id w (tm_watchers (tr_terminals r)) = Some x"
    and s: "object (tr_terminals r) (wt_session x) = Some s" and n: "next_frame (tn_frames s) x = (x', k, f)"
  shows "terminal_inv (r\<lparr>tr_terminals := (tr_terminals r)\<lparr>tm_watchers := tbl_put wt_id x' (tm_watchers (tr_terminals r)),
      tm_requests := tm_requests (tr_terminals r) @ replicate k (wt_session x)\<rparr>,
    tr_seen := (case f of None \<Rightarrow> tr_seen r | Some f \<Rightarrow> (tr_seen r)(w := tr_seen r w @ [f]))\<rparr>)" (is "terminal_inv ?r")
proof -
  let ?tm = "(tr_terminals r)\<lparr>tm_requests := tm_requests (tr_terminals r) @ replicate k (wt_session x)\<rparr>"
  have w: "wt_id x = w" "x \<in> set (tm_watchers (tr_terminals r))" using tbl_lookup_SomeD [OF x] by blast+
  with inv have ok: "watcher_ok r x" "w < tm_next (tr_terminals r)" by (auto simp: terminal_inv_def watcher_ok_def)
  have a: "snapshots (tn_frames s) \<le> asked (tr_terminals r) (wt_session x)"
    using inv s by (auto simp: terminal_inv_def objects_ok_def)
  have v: "view_ok (tn_frames s) (asked (tr_terminals r) (wt_session x)) (tr_seen r w) x"
    using ok(1) s w(1) by (simp add: watcher_ok_def)
  have x': "view_ok (tn_frames s) (asked (tr_terminals r) (wt_session x) + k) (tr_seen r w @ opt_frames f) x'"
    "wt_id x' = w" "wt_session x' = wt_session x" using next_frame_ok [OF n v a] w(1) by simp_all
  have e: "evolves (tr_terminals r) ?tm" by (fastforce simp: evolves_def objects_ok_def asked_def)
  have seen: "tr_seen ?r w = tr_seen r w @ opt_frames f" "\<forall>v. v \<noteq> w \<longrightarrow> tr_seen ?r v = tr_seen r v"
    by (simp_all add: opt_frames_def split: option.split)
  have old: "terminal_inv (r\<lparr>tr_terminals := ?tm\<rparr>)"
    by (rule terminal_inv_evolves [OF inv e, of "\<lambda>_. True"]) simp
  have "watcher_ok ?r y" if y: "y \<in> set (tm_watchers (tr_terminals r))" "wt_id y \<noteq> w" for y
    using old y seen by (simp add: terminal_inv_def watcher_ok_def asked_def)
  moreover have "watcher_ok ?r x'" using x' s ok(2) seen(1) by (simp add: watcher_ok_def asked_def count_list_replicate)
  moreover have wf: "tbl_wf wt_id (tm_watchers (tr_terminals r))" using inv by (simp add: terminal_inv_def)
  ultimately have "\<forall>y \<in> set (tm_watchers (tr_terminals ?r)). watcher_ok ?r y"
    using x'(2) by (auto simp: tbl_put_set)
  moreover have "objects_ok (tr_terminals ?r)" using old by (simp add: terminal_inv_def objects_ok_def asked_def)
  moreover have "\<forall>n \<ge> tm_next (tr_terminals ?r). tr_seen ?r n = []"
    using inv ok(2) seen(2) by (auto simp: terminal_inv_def)
  ultimately show ?thesis using tbl_put_wf [OF wf, of x'] unfolding terminal_inv_def by simp
qed

lemma terminal_inv_resync:
  assumes inv: "terminal_inv r" and x: "tbl_lookup wt_id w (tm_watchers (tr_terminals r)) = Some x"
  shows "terminal_inv (r\<lparr>tr_terminals := Watcher_resync (tr_terminals r) x\<rparr>)" (is "terminal_inv ?r")
proof -
  have w: "wt_id x = w" "x \<in> set (tm_watchers (tr_terminals r))" using tbl_lookup_SomeD [OF x] by blast+
  have e: "evolves (tr_terminals r) (Watcher_resync (tr_terminals r) x)" by (simp add: Watcher_resync_def request_snapshot_def)
    (fastforce simp: evolves_def objects_ok_def asked_def)
  have ok: "watcher_ok ?r y" if "y \<in> set (tm_watchers (tr_terminals r))" for y
    using inv that watcher_ok_evolves [OF _ e] by (simp add: terminal_inv_def)
  obtain s where s: "object (tr_terminals r) (wt_session x) = Some s" using inv w by (auto simp: terminal_inv_def watcher_ok_def is_some_and_iff)
  then have "snapshots (tn_frames s) \<le> asked (tr_terminals r) (wt_session x)" using inv by (auto simp: terminal_inv_def objects_ok_def)
  then have "snapshots (take p (tn_frames s)) \<le> asked (tr_terminals r) (wt_session x)" for p
    using snapshots_take le_trans by blast
  then have "watcher_ok ?r (x\<lparr>wt_synced := False\<rparr>)"
    using ok [OF w(2)] s by (auto simp: watcher_ok_def view_ok_def Watcher_resync_def request_snapshot_def asked_def less_Suc_eq_le)
  with ok w inv e show ?thesis
    by (auto simp: terminal_inv_def evolves_def tbl_put_set tbl_put_wf Watcher_resync_def request_snapshot_def)
qed

lemma terminal_inv_step: "terminal_step r r' \<Longrightarrow> terminal_inv r \<Longrightarrow> terminal_inv r'"
proof (induction rule: terminal_step.induct)
  case (watching r i foreground opened asks tm result)
  then show ?case using terminal_inv_watch by blast
next
  case (leaving r w)
  then show ?case using terminal_inv_evolves [OF _ evolves_leave] leave_watchers by metis
next
  case (event i r n s e)
  then show ?case using terminal_inv_evolves [OF _ evolves_event, of r n s e i "\<lambda>_. True"] by simp
next
  case (polled i r n result)
  then show ?case using terminal_inv_evolves [OF _ evolves_poll, of r _ _ _ "\<lambda>_. True"] by simp
next
  case (ending r i reason)
  then show ?case using terminal_inv_evolves [OF _ evolves_end, of r _ _ "\<lambda>_. True"] by simp
next
  case (given w r x s x' k f)
  then show ?case using terminal_inv_next by blast
next
  case (resynced w r x)
  then show ?case using terminal_inv_resync by blast
qed

abbreviation terminal_start :: TerminalRun where
  "terminal_start \<equiv> \<lparr>tr_terminals = Terminals_default, tr_seen = \<lambda>_. []\<rparr>"

lemma terminal_inv_reachable: "terminal_step\<^sup>*\<^sup>* terminal_start r \<Longrightarrow> terminal_inv r"
proof (induction rule: rtranclp_induct)
  case base
  show ?case by (simp add: terminal_inv_def objects_ok_def Terminals_default_def)
qed (rule terminal_inv_step)

text \<open>
  (C8) A watcher shows the terminal. In every run, whatever watchers join, lag, resynchronise and leave
  and whatever the pane and the guard do: the frames given to a watcher that is in touch draw exactly
  what the frames of its session up to its position draw, although it skipped some; a watcher that
  lost touch has a snapshot ahead of it, or its pane still owes one; and a watcher is given an ended
  frame at most once, as its last.
\<close>

theorem watcher_shows_session:
  assumes "terminal_step\<^sup>*\<^sup>* terminal_start r" and "tbl_lookup wt_id w (tm_watchers (tr_terminals r)) = Some x"
  shows "\<exists>s. tbl_lookup tn_id (wt_session x) (tm_objects (tr_terminals r)) = Some s
    \<and> (wt_synced x \<longrightarrow> screen (tr_seen r w) = screen (take (wt_position x) (tn_frames s)))
    \<and> (\<not> wt_synced x \<and> \<not> wt_done x \<longrightarrow> (\<exists>f \<in> set (drop (wt_position x) (tn_frames s)). is_snapshot_frame f)
         \<or> snapshots (tn_frames s) < asked (tr_terminals r) (wt_session x))
    \<and> (\<forall>fs reason gs. tr_seen r w = fs @ FrameEnded reason # gs \<longrightarrow> gs = [] \<and> wt_done x)"
proof -
  have "wt_id x = w" "x \<in> set (tm_watchers (tr_terminals r))" using tbl_lookup_SomeD [OF assms(2)] by blast+
  then have "watcher_ok r x" using terminal_inv_reachable [OF assms(1)] by (simp add: terminal_inv_def)
  then obtain s where s: "object (tr_terminals r) (wt_session x) = Some s"
    and v: "view_ok (tn_frames s) (asked (tr_terminals r) (wt_session x)) (tr_seen r w) x"
    using \<open>wt_id x = w\<close> by (auto simp: watcher_ok_def is_some_and_iff)
  let ?p = "wt_position x" and ?a = "asked (tr_terminals r) (wt_session x)"
  have "(\<exists>f \<in> set (drop ?p (tn_frames s)). is_snapshot_frame f) \<or> snapshots (tn_frames s) < ?a"
    if "snapshots (take ?p (tn_frames s)) < ?a"
  proof (cases "\<exists>f \<in> set (drop ?p (tn_frames s)). is_snapshot_frame f")
    case False
    then have "snapshots (drop ?p (tn_frames s)) = 0" by (simp add: snapshots_def filter_empty_conv)
    moreover have "snapshots (tn_frames s) = snapshots (take ?p (tn_frames s)) + snapshots (drop ?p (tn_frames s))"
      by (metis append_take_drop_id snapshots_append)
    ultimately show ?thesis using that by simp
  qed simp
  moreover have "gs = [] \<and> wt_done x" if "tr_seen r w = fs @ FrameEnded reason # gs" for fs reason gs
    using v that by (cases gs rule: rev_cases) (auto simp: view_ok_def split: if_splits)
  ultimately show ?thesis using s v by (auto simp: view_ok_def)
qed

section \<open>A run\<close>

definition sample_pane :: PaneSnapshot where
  "sample_pane = \<lparr>pp_cols = 80, pp_rows = 24, pp_cursor = \<lparr>cur_x = 0, cur_y = 0, cur_visible = True\<rparr>,
     pp_alternate_screen = False, pp_in_mode = False, pp_data = [65]\<rparr>"

definition sample_shown :: TerminalFrame where
  "sample_shown = FrameSnapshot 0 80 24 \<lparr>cur_x = 0, cur_y = 0, cur_visible = True\<rparr> False [65] (from_guard None)"

definition sample_terminals :: "TerminalFrame list \<Rightarrow> u64 \<Rightarrow> nat \<Rightarrow> bool \<Rightarrow> Terminals" where
  "sample_terminals frames seq position synced =
     \<lparr>tm_sessions = [(''i'', 0)],
      tm_objects = [(TerminalSession_new 0 None)\<lparr>tn_frames := frames, tn_seq := seq\<rparr>], tm_ended = [],
      tm_watchers = [\<lparr>wt_id = 1, wt_invocation = ''i'', wt_session = 0, wt_position = position, wt_synced = synced, wt_done = False\<rparr>],
      tm_requests = [], tm_next = 2\<rparr>"

lemmas sample_terminal_defs = sample_terminals_def Terminals_watch_def Terminals_default_def session_of_def add_watcher_def
  TerminalSession_new_def put_terminal_def Let_def reader_event_def TerminalSession_publish_def update_input_def
  sample_pane_def sample_shown_def is_shown_def snapshots_def asked_def

lemma sample_watch: "Terminals_watch Terminals_default ''i'' None (Inr ()) (Inr ()) = (sample_terminals [] 0 0 False, Inr 1)"
  by (simp add: sample_terminal_defs)

lemma sample_event: "reader_event (sample_terminals [] 0 0 False) ''i'' 0 (PaneShows sample_pane) = sample_terminals [sample_shown] 1 0 False"
  by (simp add: sample_terminal_defs)

lemma sample_watched:
  "terminal_step\<^sup>*\<^sup>* terminal_start
     \<lparr>tr_terminals = sample_terminals [sample_shown] 1 1 True, tr_seen = (\<lambda>_. [])(1 := [sample_shown])\<rparr>"
proof -
  let ?r1 = "\<lparr>tr_terminals = sample_terminals [] 0 0 False, tr_seen = \<lambda>_. []\<rparr>"
  let ?r2 = "\<lparr>tr_terminals = sample_terminals [sample_shown] 1 0 False, tr_seen = \<lambda>_. []\<rparr>"
  let ?r3 = "\<lparr>tr_terminals = sample_terminals [sample_shown] 1 1 True, tr_seen = (\<lambda>_. [])(1 := [sample_shown])\<rparr>"
  have "terminal_step terminal_start ?r1"
    using terminal_step.watching [of terminal_start "''i''" None "Inr ()" "Inr ()" "sample_terminals [] 0 0 False" "Inr 1"] sample_watch
    by simp
  moreover have "terminal_step ?r1 ?r2"
    using terminal_step.event [of "''i''" ?r1 0 "TerminalSession_new 0 None" "PaneShows sample_pane"] sample_event
    by (simp add: sample_terminal_defs)
  moreover have "terminal_step ?r2 ?r3"
    using terminal_step.given [of 1 ?r2 "hd (tm_watchers (sample_terminals [sample_shown] 1 0 False))"
        "hd (tm_objects (sample_terminals [sample_shown] 1 0 False))" "hd (tm_watchers (sample_terminals [sample_shown] 1 1 True))" 0 "Some sample_shown"]
    by (simp add: sample_terminal_defs next_frame.simps recv_frame_def FRAME_BUFFER_def)
  ultimately show ?thesis by (meson rtranclp.rtrancl_into_rtrancl rtranclp.rtrancl_refl)
qed

theorem watcher_shows_session_witness:
  "screen [sample_shown] = screen (take 1 [sample_shown]) \<and> sample_shown \<noteq> FrameEnded AgentExited"
proof -
  let ?r = "\<lparr>tr_terminals = sample_terminals [sample_shown] 1 1 True, tr_seen = (\<lambda>_. [])(1 := [sample_shown])\<rparr>"
  let ?x = "hd (tm_watchers (sample_terminals [sample_shown] 1 1 True))"
  have "tbl_lookup wt_id 1 (tm_watchers (tr_terminals ?r)) = Some ?x" by (simp add: sample_terminals_def)
  from watcher_shows_session [OF sample_watched this] show ?thesis
    by (auto simp: sample_terminals_def sample_shown_def TerminalSession_new_def)
qed

section \<open>A join that fails\<close>

text \<open>
  A watch request that finds a live session counts its watcher before it asks for a snapshot. When
  asking fails no watcher exists that could leave, so the session stays open after its last watcher.
\<close>

lemma failed_join_keeps_session:
  assumes "tm_watchers tm = [x]" "tbl_lookup fst i (tm_sessions tm) = Some (i, n)" "object tm n = Some s" "tn_watchers s = 1"
    "wt_invocation x = i" "wt_session x = n"
  shows "Terminals_is_open (leave (fst (Terminals_watch tm i foreground opened (Inl e))) (wt_id x)) i"
    and "\<not> Terminals_is_open (leave tm (wt_id x)) i"
  using assms object_id [OF assms(3)]
  by (simp_all add: Terminals_watch_def session_of_def leave_def Terminals_is_open_def put_terminal_def tbl_lookup_put
    tbl_lookup_delete Let_def)

end
