(* ===== verification/Usage.thy ===== *)
theory Usage
  imports Side_Channel Collectors Storage "HOL-Library.Multiset"
begin

text \<open>
  Collecting usage, \<^verbatim>\<open>sessiontapd/src/usage_coordinator.rs\<close>. Hooks schedule a provider session; a worker
  of the session waits for a quiet moment, collects, applies what it found to the invocations bound
  to the session, and goes on while newer hooks arrived. Every section that holds the lock is one
  function on the coordinator. Cancellation tokens are numbers, and a \<open>Notify\<close> is its stored permit.
  Instants are nanoseconds. The applier is an argument, the trait \<open>EnrichmentApplier\<close>.
\<close>

definition DEBOUNCE_QUIET :: int where
  "DEBOUNCE_QUIET = 150 * 1000000"

definition MAX_DEFERRAL :: int where
  "MAX_DEFERRAL = seconds 2"

record CollectionState =
  uk_key :: ProviderSessionKey
  uk_generation :: u64
  uk_locator :: string
  uk_cursor :: "OpaqueCursor option"
  uk_bindings :: "(InvocationId \<times> string) list"
  uk_cancellation :: "nat option"
  uk_notify :: bool
  uk_worker_running :: bool
  uk_first_pending_at :: int
  uk_last_event_at :: int

record UsageCoordinator =
  uc_registry :: AdapterRegistry
  uc_sessions :: "CollectionState list"
  uc_invocation_keys :: "(InvocationId \<times> ProviderSessionKey) list"
  uc_workers :: nat
  uc_cancelled :: "nat list"
  uc_next_token :: nat

definition UsageCoordinator_new :: "AdapterRegistry \<Rightarrow> nat \<Rightarrow> UsageCoordinator" where
  "UsageCoordinator_new registry worker_limit =
     \<lparr>uc_registry = registry, uc_sessions = [], uc_invocation_keys = [], uc_workers = max worker_limit 1,
      uc_cancelled = [], uc_next_token = 0\<rparr>"

definition put_session :: "UsageCoordinator \<Rightarrow> CollectionState \<Rightarrow> UsageCoordinator" where
  "put_session uc s = uc\<lparr>uc_sessions := tbl_put uk_key s (uc_sessions uc)\<rparr>"

definition get_session :: "UsageCoordinator \<Rightarrow> ProviderSessionKey \<Rightarrow> CollectionState option" where
  "get_session uc key = tbl_lookup uk_key key (uc_sessions uc)"

definition cancel_token :: "UsageCoordinator \<Rightarrow> nat option \<Rightarrow> UsageCoordinator" where
  "cancel_token uc token = (case token of None \<Rightarrow> uc | Some t \<Rightarrow> uc\<lparr>uc_cancelled := t # uc_cancelled uc\<rparr>)"

definition is_cancelled :: "UsageCoordinator \<Rightarrow> nat \<Rightarrow> bool" where
  "is_cancelled uc t \<longleftrightarrow> t \<in> set (uc_cancelled uc)"

section \<open>Scheduling\<close>

text \<open>The invocation leaves the session it was bound to before.\<close>

definition rebind :: "UsageCoordinator \<Rightarrow> InvocationId \<Rightarrow> ProviderSessionKey \<Rightarrow> UsageCoordinator" where
  "rebind uc iid key =
     (let uc1 = uc\<lparr>uc_invocation_keys := tbl_put fst (iid, key) (uc_invocation_keys uc)\<rparr>
      in case tbl_lookup fst iid (uc_invocation_keys uc) of
           None \<Rightarrow> uc1
         | Some (_, old_key) \<Rightarrow>
             if old_key = key then uc1
             else case get_session uc1 old_key of
                    None \<Rightarrow> uc1
                  | Some old \<Rightarrow>
                      put_session (cancel_token uc1 (uk_cancellation old))
                        (old\<lparr>uk_bindings := tbl_delete fst iid (uk_bindings old),
                             uk_generation := saturating_add (uk_generation old) 1, uk_notify := True\<rparr>))"

definition fresh_session :: "ProviderSessionKey \<Rightarrow> string \<Rightarrow> int \<Rightarrow> CollectionState" where
  "fresh_session key locator now =
     \<lparr>uk_key = key, uk_generation = 0, uk_locator = locator, uk_cursor = None, uk_bindings = [],
      uk_cancellation = None, uk_notify = False, uk_worker_running = False,
      uk_first_pending_at = now, uk_last_event_at = now\<rparr>"

text \<open>A new generation of the session; the flag says that a worker has to be started.\<close>

definition bump :: "UsageCoordinator \<Rightarrow> ProviderSessionKey \<Rightarrow> string \<Rightarrow> InvocationId \<Rightarrow> string \<Rightarrow> int \<Rightarrow> UsageCoordinator \<times> bool" where
  "bump uc key locator iid credential now =
     (let s = (case get_session uc key of Some s \<Rightarrow> s | None \<Rightarrow> fresh_session key locator now);
          start = (\<not> uk_worker_running s);
          pending = (start \<or> is_some_and (\<lambda>t. \<not> is_cancelled uc t) (uk_cancellation s))
      in (put_session (cancel_token uc (uk_cancellation s))
            (s\<lparr>uk_generation := saturating_add (uk_generation s) 1, uk_locator := locator, uk_last_event_at := now,
               uk_bindings := tbl_put fst (iid, credential) (uk_bindings s),
               uk_first_pending_at := (if pending then now else uk_first_pending_at s),
               uk_notify := True, uk_worker_running := True\<rparr>), start))"

definition session_key :: "AdapterRegistry \<Rightarrow> string \<Rightarrow> ArtifactCollectionContext \<Rightarrow> ProviderSessionKey option" where
  "session_key registry configured_provider context =
     (if trim (ac_provider_session_id context) = []
        \<or> is_none_or (\<lambda>(adapter, _). adapter \<noteq> ac_adapter_identity context) (resolve registry configured_provider)
      then None
      else Some \<lparr>sk_configured_provider = configured_provider, sk_adapter_identity = ac_adapter_identity context,
                 sk_provider_session_id = ac_provider_session_id context\<rparr>)"

text \<open>The coordinator after a hook, and the key of the worker it starts.\<close>

definition schedule ::
    "UsageCoordinator \<Rightarrow> string \<Rightarrow> InvocationId \<Rightarrow> string \<Rightarrow> ArtifactCollectionContext option \<Rightarrow> int
     \<Rightarrow> UsageCoordinator \<times> ProviderSessionKey option" where
  "schedule uc configured_provider iid credential context now =
     (case context of
        None \<Rightarrow> (uc, None)
      | Some context \<Rightarrow>
          (case session_key (uc_registry uc) configured_provider context of
             None \<Rightarrow> (uc, None)
           | Some key \<Rightarrow>
               (case bump (rebind uc iid key) key (ac_locator context) iid credential now of
                  (uc', start) \<Rightarrow> (uc', if start then Some key else None))))"

section \<open>The worker\<close>

definition run_deadline :: "UsageCoordinator \<Rightarrow> ProviderSessionKey \<Rightarrow> int option" where
  "run_deadline uc key =
     map_option (\<lambda>s. min (uk_last_event_at s + DEBOUNCE_QUIET) (uk_first_pending_at s + MAX_DEFERRAL)) (get_session uc key)"

text \<open>Where a worker is: what it waits for, or which section it enters next.\<close>

datatype WorkerPhase =
    AwaitDeadline
  | AwaitPermit u64 nat string "OpaqueCursor option"
  | CollectingNow u64 nat string "OpaqueCursor option"
  | HasOutcome u64 nat CollectionOutcome
  | Settling u64 CollectionOutcome
  | Applying u64 SessionEnrichment OpaqueCursor "(InvocationId \<times> string) list"
  | StoreCursor u64 OpaqueCursor
  | Finishing u64
  | FinishUnbound u64

definition run_begin :: "UsageCoordinator \<Rightarrow> ProviderSessionKey \<Rightarrow> UsageCoordinator \<times> WorkerPhase option" where
  "run_begin uc key =
     (case get_session uc key of
        None \<Rightarrow> (uc, None)
      | Some s \<Rightarrow>
          let token = uc_next_token uc
          in ((put_session uc (s\<lparr>uk_cancellation := Some token\<rparr>))\<lparr>uc_next_token := token + 1\<rparr>,
              Some (if uk_bindings s = [] then FinishUnbound (uk_generation s)
                    else AwaitPermit (uk_generation s) token (uk_locator s) (uk_cursor s))))"

definition run_permit ::
    "UsageCoordinator \<Rightarrow> u64 \<Rightarrow> nat \<Rightarrow> string \<Rightarrow> OpaqueCursor option \<Rightarrow> UsageCoordinator \<times> WorkerPhase" where
  "run_permit uc generation token locator cursor =
     (if is_cancelled uc token then (uc, AwaitDeadline)
      else (uc\<lparr>uc_workers := uc_workers uc - 1\<rparr>, CollectingNow generation token locator cursor))"

definition run_collected ::
    "UsageCoordinator \<Rightarrow> ProviderSessionKey \<Rightarrow> u64 \<Rightarrow> nat \<Rightarrow> CollectionOutcome \<Rightarrow> UsageCoordinator \<times> WorkerPhase option" where
  "run_collected uc key generation token outcome =
     (case get_session uc key of
        None \<Rightarrow> (uc, None)
      | Some s \<Rightarrow>
          (put_session uc (s\<lparr>uk_cancellation := None\<rparr>),
           Some (if uk_generation s = generation \<and> \<not> is_cancelled uc token
                 then Settling generation outcome else AwaitDeadline)))"

text \<open>\<open>settle\<close> up to the lock of \<open>apply_if_current\<close>, which copies the bindings.\<close>

definition run_settle :: "UsageCoordinator \<Rightarrow> ProviderSessionKey \<Rightarrow> u64 \<Rightarrow> CollectionOutcome \<Rightarrow> WorkerPhase" where
  "run_settle uc key generation outcome =
     (case outcome of
        CollectionComplete enrichment cursor \<Rightarrow>
          (case get_session uc key of
             None \<Rightarrow> StoreCursor generation cursor
           | Some s \<Rightarrow> if uk_generation s \<noteq> generation then StoreCursor generation cursor
                       else Applying generation enrichment cursor (uk_bindings s))
      | CollectionUnchanged cursor \<Rightarrow> StoreCursor generation cursor
      | CollectionCancelled \<Rightarrow> AwaitDeadline
      | CollectionUnsupported \<Rightarrow> Finishing generation
      | CollectionFailed _ \<Rightarrow> Finishing generation)"

definition enrichment_event ::
    "ProviderSessionKey \<Rightarrow> u64 \<Rightarrow> SessionEnrichment \<Rightarrow> InvocationId \<Rightarrow> timestamp \<Rightarrow> NormalizedEvent" where
  "enrichment_event key generation enrichment iid now =
     \<lparr>ev_schema_version = SCHEMA_VERSION, ev_event_id = ''collection:'' @ iid @ '':'' @ show_nat (unat generation),
      ev_invocation_id = iid, ev_provider_event_id = None, ev_provider = sk_configured_provider key,
      ev_observed_at = now, ev_received_at = now, ev_evidence = EventEvidence_local ProviderArtifact,
      ev_kind = KEnrichment, ev_provider_session_id = Some (sk_provider_session_id key),
      ev_provider_session_name = se_session_name enrichment, ev_provider_session_start_reason = None,
      ev_provider_metadata = map_option (\<lambda>model. ProviderMetadata_default\<lparr>pm_model := Some model,
        pm_model_label := se_model_label enrichment\<rparr>) (se_model enrichment),
      ev_usage = se_usage enrichment, ev_turn_id = None, ev_tool_activity = None, ev_child_agent = None\<rparr>"

definition run_cursor :: "UsageCoordinator \<Rightarrow> ProviderSessionKey \<Rightarrow> u64 \<Rightarrow> OpaqueCursor \<Rightarrow> UsageCoordinator" where
  "run_cursor uc key generation cursor =
     (case get_session uc key of
        None \<Rightarrow> uc
      | Some s \<Rightarrow> if uk_generation s = generation then put_session uc (s\<lparr>uk_cursor := Some cursor\<rparr>) else uc)"

text \<open>\<open>finish\<close>: true when the worker has to go on. A worker without bindings does not look at the result.\<close>

definition UsageCoordinator_finish :: "UsageCoordinator \<Rightarrow> ProviderSessionKey \<Rightarrow> u64 \<Rightarrow> int \<Rightarrow> UsageCoordinator \<times> bool" where
  "UsageCoordinator_finish uc key generation now =
     (case get_session uc key of
        None \<Rightarrow> (uc, False)
      | Some s \<Rightarrow>
          if uk_generation s \<noteq> generation then (put_session uc (s\<lparr>uk_first_pending_at := now\<rparr>), True)
          else (put_session uc (s\<lparr>uk_worker_running := False\<rparr>), False))"

section \<open>Runs\<close>

text \<open>
  The coordinator with its workers, the state the applier works on, and the history: a hook of a
  session, the start of a collection, and its end with the outcome.
\<close>

datatype UsageEvent = Hooked ProviderSessionKey | Begun ProviderSessionKey | Settled ProviderSessionKey

record 's UsageRun =
  ur_coordinator :: UsageCoordinator
  ur_tasks :: "(ProviderSessionKey \<times> WorkerPhase) multiset"
  ur_store :: 's
  ur_log :: "UsageEvent list"

definition move ::
    "'s UsageRun \<Rightarrow> UsageCoordinator \<Rightarrow> (ProviderSessionKey \<times> WorkerPhase) multiset \<Rightarrow> UsageEvent list \<Rightarrow> 's UsageRun" where
  "move r uc tasks new = r\<lparr>ur_coordinator := uc, ur_tasks := tasks, ur_log := ur_log r @ new\<rparr>"

definition task_of :: "ProviderSessionKey \<Rightarrow> WorkerPhase option \<Rightarrow> (ProviderSessionKey \<times> WorkerPhase) multiset" where
  "task_of key phase = (case phase of None \<Rightarrow> {#} | Some p \<Rightarrow> {#(key, p)#})"

text \<open>
  One step of some worker. A worker wakes when its notification or its deadline comes, and a collection
  that was not cancelled does not report that it was: \<open>check_cancelled\<close> is the only source of that outcome.
\<close>

inductive worker_step ::
    "('s \<Rightarrow> InvocationId \<Rightarrow> string \<Rightarrow> NormalizedEvent \<Rightarrow> 's) \<Rightarrow> 's UsageRun \<Rightarrow> 's UsageRun \<Rightarrow> bool" for apply_enrichment where
  notified: "ur_tasks r = add_mset (key, AwaitDeadline) rest \<Longrightarrow> get_session (ur_coordinator r) key = Some s \<Longrightarrow> uk_notify s \<Longrightarrow>
    worker_step apply_enrichment r
      (move r (put_session (ur_coordinator r) (s\<lparr>uk_notify := False\<rparr>)) (ur_tasks r) [])"
| woken: "ur_tasks r = add_mset (key, AwaitDeadline) rest \<Longrightarrow> is_none_or (\<lambda>deadline. deadline \<le> now) (run_deadline (ur_coordinator r) key) \<Longrightarrow>
    run_begin (ur_coordinator r) key = (uc, phase) \<Longrightarrow>
    worker_step apply_enrichment r (move r uc (task_of key phase + rest) [Begun key])"
| permit: "ur_tasks r = add_mset (key, AwaitPermit g t locator cursor) rest \<Longrightarrow> 0 < uc_workers (ur_coordinator r) \<Longrightarrow>
    run_permit (ur_coordinator r) g t locator cursor = (uc, phase) \<Longrightarrow>
    worker_step apply_enrichment r (move r uc (add_mset (key, phase) rest) [])"
| collected: "ur_tasks r = add_mset (key, CollectingNow g t locator cursor) rest \<Longrightarrow>
    (outcome = CollectionCancelled \<Longrightarrow> is_cancelled (ur_coordinator r) t) \<Longrightarrow>
    worker_step apply_enrichment r
      (move r ((ur_coordinator r)\<lparr>uc_workers := uc_workers (ur_coordinator r) + 1\<rparr>) (add_mset (key, HasOutcome g t outcome) rest) [])"
| checked: "ur_tasks r = add_mset (key, HasOutcome g t outcome) rest \<Longrightarrow>
    run_collected (ur_coordinator r) key g t outcome = (uc, phase) \<Longrightarrow>
    worker_step apply_enrichment r (move r uc (task_of key phase + rest) [])"
| settling: "ur_tasks r = add_mset (key, Settling g outcome) rest \<Longrightarrow>
    worker_step apply_enrichment r
      (move r (ur_coordinator r) (add_mset (key, run_settle (ur_coordinator r) key g outcome) rest) [])"
| applied: "ur_tasks r = add_mset (key, Applying g e cursor ((iid, credential) # bindings)) rest \<Longrightarrow>
    worker_step apply_enrichment r
      ((move r (ur_coordinator r) (add_mset (key, Applying g e cursor bindings) rest) [])\<lparr>
         ur_store := apply_enrichment (ur_store r) iid credential (enrichment_event key g e iid now)\<rparr>)"
| all_applied: "ur_tasks r = add_mset (key, Applying g e cursor []) rest \<Longrightarrow>
    worker_step apply_enrichment r (move r (ur_coordinator r) (add_mset (key, StoreCursor g cursor) rest) [])"
| cursor_stored: "ur_tasks r = add_mset (key, StoreCursor g cursor) rest \<Longrightarrow>
    worker_step apply_enrichment r
      (move r (run_cursor (ur_coordinator r) key g cursor) (add_mset (key, Finishing g) rest) [])"
| finished: "ur_tasks r = add_mset (key, Finishing g) rest \<Longrightarrow>
    UsageCoordinator_finish (ur_coordinator r) key g now = (uc, go_on) \<Longrightarrow>
    worker_step apply_enrichment r
      (move r uc (if go_on then add_mset (key, AwaitDeadline) rest else rest) (if go_on then [] else [Settled key]))"
| unbound: "ur_tasks r = add_mset (key, FinishUnbound g) rest \<Longrightarrow>
    UsageCoordinator_finish (ur_coordinator r) key g now = (uc, go_on) \<Longrightarrow>
    worker_step apply_enrichment r (move r uc rest [Settled key])"

text \<open>Hooks come at any time, and the store changes for other reasons too.\<close>

inductive usage_step ::
    "('s \<Rightarrow> InvocationId \<Rightarrow> string \<Rightarrow> NormalizedEvent \<Rightarrow> 's) \<Rightarrow> 's UsageRun \<Rightarrow> 's UsageRun \<Rightarrow> bool" for apply_enrichment where
  work: "worker_step apply_enrichment r r' \<Longrightarrow> usage_step apply_enrichment r r'"
| hook: "session_key (uc_registry (ur_coordinator r)) provider context = Some key \<Longrightarrow>
    is_none_or (\<lambda>s. unat (uk_generation s) + 2 < 2 ^ 64) (get_session (ur_coordinator r) key) \<Longrightarrow>
    schedule (ur_coordinator r) provider iid credential (Some context) now = (uc, start) \<Longrightarrow>
    usage_step apply_enrichment r (move r uc (task_of key (map_option (\<lambda>_. AwaitDeadline) start) + ur_tasks r) [Hooked key])"
| other: "usage_step apply_enrichment r (r\<lparr>ur_store := store\<rparr>)"

definition usage_start :: "AdapterRegistry \<Rightarrow> nat \<Rightarrow> 's \<Rightarrow> 's UsageRun" where
  "usage_start registry worker_limit store =
     \<lparr>ur_coordinator = UsageCoordinator_new registry worker_limit, ur_tasks = {#}, ur_store = store, ur_log = []\<rparr>"

end
