(* ===== verification/Usage_Props.thy ===== *)
theory Usage_Props
  imports Usage
begin

text \<open>
  What the coordinator promises: one collector per session and no more than the configured number at
  once, and that without further hooks the workers come to an end after collecting what the last hook
  of every session asked for.
\<close>

section \<open>Sessions\<close>

lemma get_put_session: "get_session (put_session uc s) k = (if k = uk_key s then Some s else get_session uc k)"
  by (simp add: get_session_def put_session_def tbl_lookup_put)

lemma get_session_key: "get_session uc k = Some s \<Longrightarrow> uk_key s = k"
  by (auto simp: get_session_def dest: tbl_lookup_SomeD)

lemma put_session_simps [simp]:
  "uc_cancelled (put_session uc s) = uc_cancelled uc" "uc_workers (put_session uc s) = uc_workers uc"
  "uc_next_token (put_session uc s) = uc_next_token uc" "uc_registry (put_session uc s) = uc_registry uc"
  "uc_invocation_keys (put_session uc s) = uc_invocation_keys uc"
  by (simp_all add: put_session_def)

lemma get_session_simps [simp]:
  "get_session (uc\<lparr>uc_workers := n\<rparr>) k = get_session uc k" "get_session (uc\<lparr>uc_cancelled := c\<rparr>) k = get_session uc k"
  "get_session (uc\<lparr>uc_next_token := t\<rparr>) k = get_session uc k"
  "get_session (uc\<lparr>uc_invocation_keys := ks\<rparr>) k = get_session uc k"
  by (simp_all add: get_session_def)

lemma cancel_token_simps [simp]:
  "get_session (cancel_token uc t) k = get_session uc k" "uc_workers (cancel_token uc t) = uc_workers uc"
  "uc_next_token (cancel_token uc t) = uc_next_token uc"
  by (simp_all add: cancel_token_def split: option.split)

lemma is_cancelled_simps [simp]:
  "is_cancelled (put_session uc s) t = is_cancelled uc t" "is_cancelled (uc\<lparr>uc_workers := n\<rparr>) t = is_cancelled uc t"
  "is_cancelled (uc\<lparr>uc_next_token := m\<rparr>) t = is_cancelled uc t"
  by (simp_all add: is_cancelled_def)

lemma move_simps [simp]:
  "ur_coordinator (move r uc tasks new) = uc" "ur_tasks (move r uc tasks new) = tasks"
  "ur_log (move r uc tasks new) = ur_log r @ new" "ur_store (move r uc tasks new) = ur_store r"
  by (simp_all add: move_def)

section \<open>How far a session is\<close>

datatype Progress = Quiet | Waiting | Running

fun advance_run :: "ProviderSessionKey \<Rightarrow> UsageEvent \<Rightarrow> Progress \<Rightarrow> Progress" where
  "advance_run k (Hooked k') p = (if k' = k then Waiting else p)"
| "advance_run k (Begun k') p = (if k' = k then Running else p)"
| "advance_run k (Settled k') p = (if k' = k then Quiet else p)"

definition progress :: "ProviderSessionKey \<Rightarrow> UsageEvent list \<Rightarrow> Progress" where
  "progress k log = fold (advance_run k) log Quiet"

lemma progress_simps [simp]:
  "progress k [] = Quiet" "progress k (log @ [e]) = advance_run k e (progress k log)"
  by (simp_all add: progress_def)

fun event_key :: "UsageEvent \<Rightarrow> ProviderSessionKey" where
  "event_key (Hooked k) = k" | "event_key (Begun k) = k" | "event_key (Settled k) = k"

lemma advance_run_other: "event_key e \<noteq> k \<Longrightarrow> advance_run k e p = p"
  by (cases e) simp_all

lemma progress_other: "\<forall>e \<in> set new. event_key e \<noteq> k \<Longrightarrow> progress k (log @ new) = progress k log"
  by (induction new rule: rev_induct) (simp_all add: advance_run_other flip: append_assoc)

text \<open>A settled session was collected after its last hook, provided that only started collections settle.\<close>

definition settles_begun :: "UsageEvent list \<Rightarrow> bool" where
  "settles_begun log \<longleftrightarrow> (\<forall>a k b. log = a @ Settled k # b \<longrightarrow> progress k a = Running)"

lemma settles_begun_snoc: "settles_begun (log @ [e]) \<longleftrightarrow> settles_begun log \<and> (\<forall>k. e = Settled k \<longrightarrow> progress k log = Running)"
proof
  assume whole: "settles_begun (log @ [e])"
  have "settles_begun log"
    unfolding settles_begun_def
  proof (intro allI impI)
    fix a k b assume "log = a @ Settled k # b"
    then have "log @ [e] = a @ Settled k # (b @ [e])" by simp
    with whole show "progress k a = Running" unfolding settles_begun_def by blast
  qed
  moreover have "progress k log = Running" if "e = Settled k" for k
    using whole that unfolding settles_begun_def by blast
  ultimately show "settles_begun log \<and> (\<forall>k. e = Settled k \<longrightarrow> progress k log = Running)" by blast
next
  assume parts: "settles_begun log \<and> (\<forall>k. e = Settled k \<longrightarrow> progress k log = Running)"
  show "settles_begun (log @ [e])"
    unfolding settles_begun_def
  proof (intro allI impI)
    fix a k b assume split: "log @ [e] = a @ Settled k # b"
    show "progress k a = Running"
    proof (cases b rule: rev_cases)
      case Nil
      with split parts show ?thesis by simp
    next
      case (snoc b' e')
      with split have "log = a @ Settled k # b'" by simp
      with parts show ?thesis unfolding settles_begun_def by blast
    qed
  qed
qed

lemma progress_Running:
  assumes "progress k log = Running"
  shows "\<exists>a b. log = a @ Begun k # b \<and> Hooked k \<notin> set b"
  using assms
proof (induction log rule: rev_induct)
  case (snoc e log)
  show ?case
  proof (cases "e = Begun k")
    case True
    then show ?thesis by (intro exI [of _ log] exI [of _ "[]"]) simp
  next
    case False
    with snoc.prems have "progress k log = Running" "e \<noteq> Hooked k" by (cases e; auto split: if_splits)+
    with snoc.IH obtain a b where "log = a @ Begun k # b" "Hooked k \<notin> set b" by blast
    with \<open>e \<noteq> Hooked k\<close> show ?thesis by (intro exI [of _ a] exI [of _ "b @ [e]"]) simp
  qed
qed simp

lemma progress_Quiet:
  assumes "settles_begun log" "progress k log = Quiet" "Hooked k \<in> set log"
  shows "\<exists>a b c. log = a @ Begun k # b @ Settled k # c \<and> Hooked k \<notin> set b \<and> Hooked k \<notin> set c"
  using assms
proof (induction log rule: rev_induct)
  case (snoc e log)
  have begun: "settles_begun log" "e = Settled k \<Longrightarrow> progress k log = Running"
    using snoc.prems(1) by (simp_all add: settles_begun_snoc)
  show ?case
  proof (cases "e = Settled k")
    case True
    with begun progress_Running obtain a b where "log = a @ Begun k # b" "Hooked k \<notin> set b" by blast
    with True show ?thesis by (intro exI [of _ a] exI [of _ b] exI [of _ "[]"]) simp
  next
    case False
    with snoc.prems(2) have quiet: "progress k log = Quiet" "e \<noteq> Hooked k" by (cases e; auto split: if_splits)+
    with snoc.prems(3) have "Hooked k \<in> set log" by simp
    from snoc.IH [OF begun(1) quiet(1) this] obtain a b c where
      "log = a @ Begun k # b @ Settled k # c" "Hooked k \<notin> set b" "Hooked k \<notin> set c" by blast
    with quiet(2) show ?thesis by (intro exI [of _ a] exI [of _ b] exI [of _ "c @ [e]"]) simp
  qed
qed simp

section \<open>Workers\<close>

text \<open>
  What holds of a worker at each of its phases. Its generation is at most the one of the session; as
  long as they agree, no hook came since it began.
\<close>

fun phase_generation :: "WorkerPhase \<Rightarrow> u64 option" where
  "phase_generation AwaitDeadline = None"
| "phase_generation (AwaitPermit g _ _ _) = Some g"
| "phase_generation (CollectingNow g _ _ _) = Some g"
| "phase_generation (HasOutcome g _ _) = Some g"
| "phase_generation (Settling g _) = Some g"
| "phase_generation (Applying g _ _ _) = Some g"
| "phase_generation (StoreCursor g _) = Some g"
| "phase_generation (Finishing g) = Some g"
| "phase_generation (FinishUnbound g) = Some g"

fun phase_ok :: "UsageCoordinator \<Rightarrow> u64 \<Rightarrow> WorkerPhase \<Rightarrow> bool" where
  "phase_ok uc gen (HasOutcome g t outcome) \<longleftrightarrow> outcome = CollectionCancelled \<longrightarrow> is_cancelled uc t"
| "phase_ok uc gen (Settling g outcome) \<longleftrightarrow> outcome \<noteq> CollectionCancelled"
| "phase_ok uc gen (FinishUnbound g) \<longleftrightarrow> gen = g"
| "phase_ok uc gen _ \<longleftrightarrow> True"

definition task_ok :: "'s UsageRun \<Rightarrow> ProviderSessionKey \<Rightarrow> WorkerPhase \<Rightarrow> bool" where
  "task_ok r k p \<longleftrightarrow> progress k (ur_log r) \<noteq> Quiet \<and>
     is_some_and (\<lambda>s. phase_ok (ur_coordinator r) (uk_generation s) p
       \<and> is_none_or (\<lambda>g. g \<le> uk_generation s \<and> (uk_generation s = g \<longrightarrow> progress k (ur_log r) = Running)) (phase_generation p))
       (get_session (ur_coordinator r) k)"

text \<open>The steps a worker has left at most, with one more turn when a newer generation or a cancellation sends it round.\<close>

fun rank :: "UsageCoordinator \<Rightarrow> CollectionState \<Rightarrow> WorkerPhase \<Rightarrow> nat" where
  "rank uc s AwaitDeadline = 9 + length (uk_bindings s)"
| "rank uc s (AwaitPermit g t _ _) = 8 + length (uk_bindings s) + (if uk_generation s \<noteq> g \<or> is_cancelled uc t then 9 + length (uk_bindings s) else 0)"
| "rank uc s (CollectingNow g t _ _) = 7 + length (uk_bindings s) + (if uk_generation s \<noteq> g \<or> is_cancelled uc t then 9 + length (uk_bindings s) else 0)"
| "rank uc s (HasOutcome g t _) = 6 + length (uk_bindings s) + (if uk_generation s \<noteq> g \<or> is_cancelled uc t then 9 + length (uk_bindings s) else 0)"
| "rank uc s (Settling g _) = 5 + length (uk_bindings s) + (if uk_generation s \<noteq> g then 9 + length (uk_bindings s) else 0)"
| "rank uc s (Applying g _ _ bs) = 3 + length bs + (if uk_generation s \<noteq> g then 9 + length (uk_bindings s) else 0)"
| "rank uc s (StoreCursor g _) = 2 + (if uk_generation s \<noteq> g then 9 + length (uk_bindings s) else 0)"
| "rank uc s (Finishing g) = 1 + (if uk_generation s \<noteq> g then 9 + length (uk_bindings s) else 0)"
| "rank uc s (FinishUnbound g) = 1"

definition task_work :: "UsageCoordinator \<Rightarrow> ProviderSessionKey \<times> WorkerPhase \<Rightarrow> nat" where
  "task_work uc = (\<lambda>(k, p). case get_session uc k of None \<Rightarrow> 1 | Some s \<Rightarrow> rank uc s p + (if uk_notify s then 1 else 0))"

definition usage_work :: "'s UsageRun \<Rightarrow> nat" where
  "usage_work r = (\<Sum>task \<in># ur_tasks r. task_work (ur_coordinator r) task)"

definition tokens_ok :: "UsageCoordinator \<Rightarrow> bool" where
  "tokens_ok uc \<longleftrightarrow> (\<forall>t \<in> set (uc_cancelled uc). t < uc_next_token uc)
     \<and> (\<forall>k s t. get_session uc k = Some s \<and> uk_cancellation s = Some t \<longrightarrow> t < uc_next_token uc)"

definition worker_running :: "UsageCoordinator \<Rightarrow> ProviderSessionKey \<Rightarrow> bool" where
  "worker_running uc k = is_some_and uk_worker_running (get_session uc k)"

section \<open>What a step does\<close>

text \<open>
  Every worker step is a step of one task on its own session: another session, its notification and
  the tokens stay as they are.
\<close>

definition local_step :: "ProviderSessionKey \<Rightarrow> UsageCoordinator \<Rightarrow> UsageCoordinator \<Rightarrow> bool" where
  "local_step key uc uc' \<longleftrightarrow> (\<forall>k. k \<noteq> key \<longrightarrow> get_session uc' k = get_session uc k)
     \<and> uc_cancelled uc' = uc_cancelled uc \<and> uc_next_token uc \<le> uc_next_token uc'
     \<and> map_option uk_generation (get_session uc' key) = map_option uk_generation (get_session uc key)
     \<and> map_option uk_bindings (get_session uc' key) = map_option uk_bindings (get_session uc key)"

definition is_collecting :: "WorkerPhase \<Rightarrow> bool" where
  "is_collecting p = (case p of CollectingNow _ _ _ _ \<Rightarrow> True | _ \<Rightarrow> False)"

definition permits_held :: "WorkerPhase option \<Rightarrow> nat" where
  "permits_held p = (if is_some_and is_collecting p then 1 else 0)"

lemma fresh_token: "tokens_ok uc \<Longrightarrow> \<not> is_cancelled uc (uc_next_token uc)"
  by (auto simp: tokens_ok_def is_cancelled_def)

lemmas worker_defs = worker_running_def task_of_def local_step_def permits_held_def is_collecting_def get_put_session task_ok_def task_work_def
  settles_begun_snoc is_some_and_iff is_none_or_iff

lemma worker_step_local:
  assumes "worker_step f r r'"
  obtains key p rest p' where "ur_tasks r = add_mset (key, p) rest" "ur_tasks r' = task_of key p' + rest"
    "local_step key (ur_coordinator r) (ur_coordinator r')"
    "uc_workers (ur_coordinator r') + permits_held p' = uc_workers (ur_coordinator r) + permits_held (Some p)"
    "\<exists>new. ur_log r' = ur_log r @ new \<and> (\<forall>e \<in> set new. event_key e = key)"
    "is_none_or uk_worker_running (get_session (ur_coordinator r) key) \<Longrightarrow> p' \<noteq> None \<Longrightarrow>
       is_none_or uk_worker_running (get_session (ur_coordinator r') key)"
    "task_ok r key p \<Longrightarrow> (case p' of None \<Rightarrow> progress key (ur_log r') = Quiet \<and> \<not> worker_running (ur_coordinator r') key | Some q \<Rightarrow> task_ok r' key q)"
    "task_ok r key p \<Longrightarrow> settles_begun (ur_log r) \<Longrightarrow> settles_begun (ur_log r')"
    "tokens_ok (ur_coordinator r) \<Longrightarrow> task_ok r key p \<Longrightarrow>
       (\<Sum>task \<in># task_of key p'. task_work (ur_coordinator r') task) < task_work (ur_coordinator r) (key, p)"
  using assms
proof (cases rule: worker_step.cases)
  case (notified key rest s)
  with get_session_key [OF notified(3)] show ?thesis
    by (intro that [of key AwaitDeadline rest "Some AwaitDeadline"]) (auto simp: worker_defs)
next
  case (woken key rest now uc phase)
  show ?thesis
  proof (cases "get_session (ur_coordinator r) key")
    case None
    with woken show ?thesis
      by (intro that [of key AwaitDeadline rest phase]) (auto simp: worker_defs run_begin_def)
  next
    case (Some s)
    with woken get_session_key [OF Some] show ?thesis
      by (intro that [of key AwaitDeadline rest phase])
        (auto simp: worker_defs run_begin_def Let_def fresh_token split: if_splits)
  qed
next
  case (permit key g t locator cursor rest uc phase)
  then show ?thesis
    by (intro that [of key "AwaitPermit g t locator cursor" rest "Some phase"])
      (auto simp: worker_defs run_permit_def split: if_splits)
next
  case (collected key g t locator cursor rest outcome)
  then show ?thesis
    by (intro that [of key "CollectingNow g t locator cursor" rest "Some (HasOutcome g t outcome)"]) (auto simp: worker_defs)
next
  case (checked key g t outcome rest uc phase)
  show ?thesis
  proof (cases "get_session (ur_coordinator r) key")
    case None
    with checked show ?thesis
      by (intro that [of key "HasOutcome g t outcome" rest phase]) (auto simp: worker_defs run_collected_def)
  next
    case (Some s)
    with checked get_session_key [OF Some] show ?thesis
      by (intro that [of key "HasOutcome g t outcome" rest phase]) (auto simp: worker_defs run_collected_def split: if_splits)
  qed
next
  case (settling key g outcome rest)
  show ?thesis
  proof (cases "get_session (ur_coordinator r) key")
    case None
    with settling show ?thesis
      by (intro that [of key "Settling g outcome" rest "Some (run_settle (ur_coordinator r) key g outcome)"])
        (auto simp: worker_defs run_settle_def split: CollectionOutcome.split)
  next
    case (Some s)
    with settling show ?thesis
      by (intro that [of key "Settling g outcome" rest "Some (run_settle (ur_coordinator r) key g outcome)"])
        (auto simp: worker_defs run_settle_def split: CollectionOutcome.split)
  qed
next
  case (applied key g e cursor iid credential bindings rest now)
  then show ?thesis
    by (intro that [of key "Applying g e cursor ((iid, credential) # bindings)" rest "Some (Applying g e cursor bindings)"])
      (auto simp: worker_defs)
next
  case (all_applied key g e cursor rest)
  then show ?thesis
    by (intro that [of key "Applying g e cursor []" rest "Some (StoreCursor g cursor)"]) (auto simp: worker_defs)
next
  case (cursor_stored key g cursor rest)
  show ?thesis
  proof (cases "get_session (ur_coordinator r) key")
    case None
    with cursor_stored show ?thesis
      by (intro that [of key "StoreCursor g cursor" rest "Some (Finishing g)"]) (auto simp: worker_defs run_cursor_def)
  next
    case (Some s)
    with cursor_stored get_session_key [OF Some] show ?thesis
      by (intro that [of key "StoreCursor g cursor" rest "Some (Finishing g)"]) (auto simp: worker_defs run_cursor_def split: if_splits)
  qed
next
  case (finished key g rest now uc go_on)
  show ?thesis
  proof (cases "get_session (ur_coordinator r) key")
    case None
    with finished show ?thesis
      by (intro that [of key "Finishing g" rest "if go_on then Some AwaitDeadline else None"]) (auto simp: worker_defs UsageCoordinator_finish_def)
  next
    case (Some s)
    with finished get_session_key [OF Some] show ?thesis
      by (intro that [of key "Finishing g" rest "if go_on then Some AwaitDeadline else None"]) (auto simp: worker_defs UsageCoordinator_finish_def split: if_splits)
  qed
next
  case (unbound key g rest now uc go_on)
  show ?thesis
  proof (cases "get_session (ur_coordinator r) key")
    case None
    with unbound show ?thesis
      by (intro that [of key "FinishUnbound g" rest None]) (auto simp: worker_defs UsageCoordinator_finish_def)
  next
    case (Some s)
    with unbound get_session_key [OF Some] show ?thesis
      by (intro that [of key "FinishUnbound g" rest None]) (auto simp: worker_defs UsageCoordinator_finish_def split: if_splits)
  qed
qed

section \<open>Hooks\<close>

text \<open>A session that another one of its invocation's hooks left: only its bindings, generation and notification differ.\<close>

definition detached :: "CollectionState \<Rightarrow> CollectionState \<Rightarrow> bool" where
  "detached s s' \<longleftrightarrow> uk_key s' = uk_key s \<and> uk_worker_running s' = uk_worker_running s
     \<and> uk_cancellation s' = uk_cancellation s \<and> uk_generation s \<le> uk_generation s'"

lemma detached_refl [simp]: "detached s s"
  by (simp add: detached_def)

lemma rebind_cases:
  obtains "rebind uc iid key = uc\<lparr>uc_invocation_keys := tbl_put fst (iid, key) (uc_invocation_keys uc)\<rparr>"
  | old bindings where "get_session uc (uk_key old) = Some old" "uk_key old \<noteq> key"
    "rebind uc iid key = put_session (cancel_token (uc\<lparr>uc_invocation_keys := tbl_put fst (iid, key) (uc_invocation_keys uc)\<rparr>)
       (uk_cancellation old)) (old\<lparr>uk_bindings := bindings, uk_generation := saturating_add (uk_generation old) 1, uk_notify := True\<rparr>)"
proof (cases "tbl_lookup fst iid (uc_invocation_keys uc)")
  case None
  then show ?thesis using that(1) by (simp add: rebind_def)
next
  case (Some old_binding)
  obtain old_key where old: "tbl_lookup fst iid (uc_invocation_keys uc) = Some (iid, old_key)"
    using Some tbl_lookup_SomeD [OF Some] by (cases old_binding) auto
  show ?thesis
  proof (cases "old_key = key \<or> get_session uc old_key = None")
    case True
    then show ?thesis using that(1) old by (auto simp: rebind_def Let_def)
  next
    case False
    then obtain s where s: "get_session uc old_key = Some s" "old_key \<noteq> key" by auto
    then show ?thesis using that(2) [of s] old get_session_key [OF s(1)] by (auto simp: rebind_def Let_def)
  qed
qed

lemma rebind_effect:
  assumes "tokens_ok uc"
  shows "\<forall>k s. get_session uc k = Some s \<longrightarrow> (\<exists>s'. get_session (rebind uc iid key) k = Some s' \<and> detached s s')"
    and "\<forall>k. get_session uc k = None \<longrightarrow> get_session (rebind uc iid key) k = None"
    and "get_session (rebind uc iid key) key = get_session uc key"
    and "set (uc_cancelled uc) \<subseteq> set (uc_cancelled (rebind uc iid key))"
    and "uc_workers (rebind uc iid key) = uc_workers uc" "uc_next_token (rebind uc iid key) = uc_next_token uc"
    and "tokens_ok (rebind uc iid key)"
  using assms
  by (cases rule: rebind_cases [of uc iid key];
      auto simp: get_put_session detached_def saturating_add_ge tokens_ok_def cancel_token_def split: option.splits)+

lemma schedule_effect:
  assumes ok: "tokens_ok uc" and key: "session_key (uc_registry uc) provider context = Some key"
    and s: "schedule uc provider iid credential (Some context) now = (uc', start)"
  shows "\<forall>k s. k \<noteq> key \<longrightarrow> get_session uc k = Some s \<longrightarrow> (\<exists>s'. get_session uc' k = Some s' \<and> detached s s')"
    and "\<forall>k. k \<noteq> key \<longrightarrow> get_session uc k = None \<longrightarrow> get_session uc' k = None"
    and "\<exists>s'. get_session uc' key = Some s' \<and> uk_worker_running s'
      \<and> uk_cancellation s' = Option.bind (get_session uc key) uk_cancellation
      \<and> uk_generation s' = saturating_add (case get_session uc key of Some s \<Rightarrow> uk_generation s | None \<Rightarrow> 0) 1"
    and "start = (if worker_running uc key then None else Some key)"
    and "set (uc_cancelled uc) \<subseteq> set (uc_cancelled uc')"
    and "uc_workers uc' = uc_workers uc" "uc_next_token uc' = uc_next_token uc" "tokens_ok uc'"
proof -
  note effect = rebind_effect [OF ok, of iid key]
  obtain start' where b: "bump (rebind uc iid key) key (ac_locator context) iid credential now = (uc', start')"
    "start = (if start' then Some key else None)"
    using s key by (auto simp: schedule_def split: prod.splits)
  define s0 where "s0 = (case get_session uc key of Some s \<Rightarrow> s | None \<Rightarrow> fresh_session key (ac_locator context) now)"
  have s0: "uk_key s0 = key" by (auto simp: s0_def fresh_session_def dest: get_session_key split: option.splits)
  have other: "get_session uc' k = get_session (rebind uc iid key) k" if "k \<noteq> key" for k
    using b(1) that s0 by (auto simp: bump_def Let_def effect(3) s0_def [symmetric] get_put_session)
  show "\<forall>k s. k \<noteq> key \<longrightarrow> get_session uc k = Some s \<longrightarrow> (\<exists>s'. get_session uc' k = Some s' \<and> detached s s')"
    using other effect(1) by simp
  show "\<forall>k. k \<noteq> key \<longrightarrow> get_session uc k = None \<longrightarrow> get_session uc' k = None" using other effect(2) by simp
  show "\<exists>s'. get_session uc' key = Some s' \<and> uk_worker_running s'
      \<and> uk_cancellation s' = Option.bind (get_session uc key) uk_cancellation
      \<and> uk_generation s' = saturating_add (case get_session uc key of Some s \<Rightarrow> uk_generation s | None \<Rightarrow> 0) 1"
    using b(1) by (auto simp: bump_def Let_def effect(3) get_put_session fresh_session_def
      dest: get_session_key split: option.splits)
  show "start = (if worker_running uc key then None else Some key)"
    using b by (auto simp: bump_def Let_def effect(3) worker_running_def fresh_session_def split: option.splits)
  show "set (uc_cancelled uc) \<subseteq> set (uc_cancelled uc')" "uc_workers uc' = uc_workers uc" "uc_next_token uc' = uc_next_token uc"
    using b(1) effect(4,5,6) by (auto simp: bump_def Let_def cancel_token_def split: option.splits)
  have "uk_cancellation s0 = Some t \<Longrightarrow> t < uc_next_token uc" for t
    using ok by (auto simp: s0_def tokens_ok_def fresh_session_def split: option.splits)
  then show "tokens_ok uc'"
    using b(1) effect(6,7) s0
    by (auto simp: tokens_ok_def bump_def Let_def effect(3) s0_def [symmetric] get_put_session cancel_token_def
      split: option.splits if_splits)
qed

lemma schedule_running:
  assumes ok: "tokens_ok uc" and key: "session_key (uc_registry uc) provider context = Some key"
    and s: "schedule uc provider iid credential (Some context) now = (uc', start)" and other: "k \<noteq> key"
  shows "worker_running uc' k = worker_running uc k"
proof (cases "get_session uc k")
  case None
  then show ?thesis using schedule_effect(2) [OF ok key s] other by (simp add: worker_running_def)
next
  case (Some x)
  then obtain y where "get_session uc' k = Some y" "detached x y" using schedule_effect(1) [OF ok key s] other by blast
  with Some show ?thesis by (simp add: worker_running_def detached_def)
qed

section \<open>One collector per session\<close>

abbreviation tasks_of :: "'s UsageRun \<Rightarrow> ProviderSessionKey \<Rightarrow> (ProviderSessionKey \<times> WorkerPhase) multiset" where
  "tasks_of r k \<equiv> filter_mset (\<lambda>(k', _). k' = k) (ur_tasks r)"

abbreviation collectors :: "'s UsageRun \<Rightarrow> (ProviderSessionKey \<times> WorkerPhase) multiset" where
  "collectors r \<equiv> filter_mset (\<lambda>(_, p). is_collecting p) (ur_tasks r)"

definition usage_safe :: "nat \<Rightarrow> 's UsageRun \<Rightarrow> bool" where
  "usage_safe limit r \<longleftrightarrow> tokens_ok (ur_coordinator r)
     \<and> (\<forall>k. size (tasks_of r k) \<le> (if worker_running (ur_coordinator r) k then 1 else 0))
     \<and> uc_workers (ur_coordinator r) + size (collectors r) = max limit 1"

lemma usage_safe_one: "usage_safe limit r \<Longrightarrow> size (tasks_of r k) \<le> 1"
proof -
  assume "usage_safe limit r"
  then have "size (tasks_of r k) \<le> (if worker_running (ur_coordinator r) k then 1 else 0)" by (simp only: usage_safe_def)
  also have "\<dots> \<le> 1" by simp
  finally show ?thesis .
qed

lemma tokens_ok_local:
  "worker_step f r r' \<Longrightarrow> tokens_ok (ur_coordinator r) \<Longrightarrow> tokens_ok (ur_coordinator r')"
proof (induction rule: worker_step.induct)
  case (woken r key rest now uc' phase)
  then show ?case
    by (auto simp: tokens_ok_def run_begin_def Let_def get_put_session less_Suc_eq split: option.splits if_splits)
next
  case (permit r key g t locator cursor rest uc' phase)
  then show ?case by (auto simp: tokens_ok_def run_permit_def split: if_splits)
next
  case (checked r key g t outcome rest uc' phase)
  then show ?case
    by (auto simp: tokens_ok_def run_collected_def get_put_session split: option.splits if_splits)
next
  case (finished r key g rest now uc' go_on)
  then show ?case
    by (auto simp: tokens_ok_def UsageCoordinator_finish_def get_put_session dest: get_session_key split: option.splits if_splits)
next
  case (unbound r key g rest now uc' go_on)
  then show ?case
    by (auto simp: tokens_ok_def UsageCoordinator_finish_def get_put_session dest: get_session_key split: option.splits if_splits)
qed (auto simp: tokens_ok_def run_cursor_def get_put_session dest: get_session_key split: option.splits)

lemma usage_safe_worker:
  assumes safe: "usage_safe limit r" and step: "worker_step f r r'"
  shows "usage_safe limit r'"
proof -
  from step obtain key p rest p' where d: "ur_tasks r = add_mset (key, p) rest" "ur_tasks r' = task_of key p' + rest"
    "local_step key (ur_coordinator r) (ur_coordinator r')"
    "uc_workers (ur_coordinator r') + permits_held p' = uc_workers (ur_coordinator r) + permits_held (Some p)"
    "is_none_or uk_worker_running (get_session (ur_coordinator r) key) \<Longrightarrow> p' \<noteq> None \<Longrightarrow>
       is_none_or uk_worker_running (get_session (ur_coordinator r') key)"
    by (rule worker_step_local) blast
  have one: "size (tasks_of r k) \<le> (if worker_running (ur_coordinator r) k then 1 else 0)" for k
    using safe by (simp add: usage_safe_def)
  have run: "worker_running (ur_coordinator r) key" and none: "filter_mset (\<lambda>(k', _). k' = key) rest = {#}"
    using one [of key] d(1) by (auto split: if_splits)
  have "size (tasks_of r' k) \<le> (if worker_running (ur_coordinator r') k then 1 else 0)" for k
  proof (cases "k = key")
    case True
    have "worker_running (ur_coordinator r') key" if "p' \<noteq> None"
      using run d(3) d(5) that by (auto simp: worker_running_def local_step_def is_none_or_def is_some_and_def split: option.splits)
    moreover have "size (tasks_of r' key) = (if p' = None then 0 else 1)" using none d(2)
      by (cases p') (simp_all add: task_of_def)
    ultimately show ?thesis using True by simp
  next
    case False
    then have "worker_running (ur_coordinator r') k = worker_running (ur_coordinator r) k"
      using d(3) by (simp add: worker_running_def local_step_def)
    moreover have "tasks_of r' k = tasks_of r k" using False d(1,2) by (cases p') (auto simp: task_of_def)
    ultimately show ?thesis using one [of k] by simp
  qed
  moreover have "uc_workers (ur_coordinator r') + size (collectors r') = uc_workers (ur_coordinator r) + size (collectors r)"
    using d(1,2,4) by (cases p') (auto simp: task_of_def permits_held_def split: if_splits)
  moreover have "tokens_ok (ur_coordinator r')" using tokens_ok_local [OF step] safe by (simp add: usage_safe_def)
  ultimately show ?thesis using safe by (simp add: usage_safe_def)
qed

lemma usage_safe_hook:
  assumes safe: "usage_safe limit r" and key: "session_key (uc_registry (ur_coordinator r)) provider context = Some key"
    and s: "schedule (ur_coordinator r) provider iid credential (Some context) now = (uc, start)"
  shows "usage_safe limit (move r uc (task_of key (map_option (\<lambda>_. AwaitDeadline) start) + ur_tasks r) new)"
proof -
  have ok: "tokens_ok (ur_coordinator r)" using safe by (simp add: usage_safe_def)
  note effect = schedule_effect [OF ok key s]
  have one: "size (tasks_of r k) \<le> (if worker_running (ur_coordinator r) k then 1 else 0)" for k
    using safe by (simp add: usage_safe_def)
  have "worker_running uc key" using effect(3) by (auto simp: worker_running_def)
  moreover have "worker_running uc k = worker_running (ur_coordinator r) k" if "k \<noteq> key" for k
    by (rule schedule_running [OF ok key s that])
  ultimately have "size (tasks_of (move r uc (task_of key (map_option (\<lambda>_. AwaitDeadline) start) + ur_tasks r) new) k)
      \<le> (if worker_running uc k then 1 else 0)" for k
    using one [of k] one [of key] effect(4) by (cases "k = key") (simp_all add: task_of_def split: if_splits)
  moreover have "uc_workers uc + size (collectors (move r uc (task_of key (map_option (\<lambda>_. AwaitDeadline) start) + ur_tasks r) new)) = max limit 1"
    using effect(4,6) safe by (simp add: usage_safe_def task_of_def is_collecting_def)
  ultimately show ?thesis using effect(8) by (simp add: usage_safe_def)
qed

lemma usage_safe_step: "usage_step f r r' \<Longrightarrow> usage_safe limit r \<Longrightarrow> usage_safe limit r'"
proof (induction rule: usage_step.induct)
  case (work r r')
  then show ?case using usage_safe_worker by blast
next
  case (hook r provider ctx key iid credential now uc start)
  then show ?case using usage_safe_hook by blast
next
  case (other r store)
  then show ?case by (simp add: usage_safe_def)
qed

lemma usage_safe_reachable: "(usage_step f)\<^sup>*\<^sup>* (usage_start registry limit store) r \<Longrightarrow> usage_safe limit r"
proof (induction rule: rtranclp_induct)
  case base
  show ?case
    by (simp add: usage_start_def UsageCoordinator_new_def usage_safe_def tokens_ok_def get_session_def)
qed (rule usage_safe_step)

section \<open>Workers that are needed\<close>

definition usage_live :: "'s UsageRun \<Rightarrow> bool" where
  "usage_live r \<longleftrightarrow> settles_begun (ur_log r) \<and> (\<forall>(k, p) \<in># ur_tasks r. task_ok r k p)
     \<and> (\<forall>k. progress k (ur_log r) \<noteq> Quiet \<or> worker_running (ur_coordinator r) k \<longrightarrow> tasks_of r k \<noteq> {#})"

text \<open>No hook changes the generation of a session while its worker is about to stop for want of bindings.\<close>

definition undisturbed :: "'s UsageRun \<Rightarrow> 's UsageRun \<Rightarrow> bool" where
  "undisturbed r r' \<longleftrightarrow> (\<forall>(k, p) \<in># ur_tasks r. (\<exists>g. p = FinishUnbound g) \<longrightarrow>
     map_option uk_generation (get_session (ur_coordinator r') k) = map_option uk_generation (get_session (ur_coordinator r) k))"

definition calm_step ::
    "('s \<Rightarrow> InvocationId \<Rightarrow> string \<Rightarrow> NormalizedEvent \<Rightarrow> 's) \<Rightarrow> 's UsageRun \<Rightarrow> 's UsageRun \<Rightarrow> bool" where
  "calm_step f r r' \<longleftrightarrow> usage_step f r r' \<and> undisturbed r r'"

text \<open>The new state of the one task that a step moves decides.\<close>

lemma usage_live_local:
  assumes live: "usage_live r" and safe: "usage_safe limit r"
    and tasks: "ur_tasks r = add_mset (key, p) rest" and tasks': "ur_tasks r' = task_of key p' + rest"
    and local: "local_step key (ur_coordinator r) (ur_coordinator r')"
    and log: "ur_log r' = ur_log r @ new" "\<forall>e \<in> set new. event_key e = key"
    and begun: "settles_begun (ur_log r')"
    and here: "case p' of None \<Rightarrow> progress key (ur_log r') = Quiet \<and> \<not> worker_running (ur_coordinator r') key | Some q \<Rightarrow> task_ok r' key q"
  shows "usage_live r'"
proof -
  have one: "size (tasks_of r key) \<le> 1" by (rule usage_safe_one [OF safe])
  have rest: "k \<noteq> key" if "(k, q) \<in># rest" for k q
    using one tasks that by (auto simp: filter_mset_eq_conv dest!: multi_member_split)
  have other: "progress k (ur_log r') = progress k (ur_log r)" if "k \<noteq> key" for k
    using log that by (auto intro: progress_other)
  have "task_ok r' k q" if q: "(k, q) \<in># rest" for k q
  proof -
    have ok: "task_ok r k q" using live tasks q by (auto simp: usage_live_def)
    have s: "get_session (ur_coordinator r') k = get_session (ur_coordinator r) k"
      and c: "is_cancelled (ur_coordinator r') = is_cancelled (ur_coordinator r)"
      using local rest [OF q] by (auto simp: local_step_def is_cancelled_def)
    have "phase_ok (ur_coordinator r') gen q = phase_ok (ur_coordinator r) gen q" for gen
      by (cases q) (simp_all add: c)
    with ok show ?thesis by (simp add: task_ok_def s other [OF rest [OF q]])
  qed
  moreover have "task_ok r' key q" if "p' = Some q" for q using here that by simp
  moreover have "tasks_of r' k \<noteq> {#}" if "progress k (ur_log r') \<noteq> Quiet \<or> worker_running (ur_coordinator r') k" for k
  proof (cases "k = key")
    case True
    with that here tasks' show ?thesis by (cases p') (auto simp: task_of_def)
  next
    case False
    with that other live local have "tasks_of r k \<noteq> {#}" by (simp add: usage_live_def local_step_def worker_running_def)
    with False tasks tasks' show ?thesis by auto
  qed
  ultimately show ?thesis using tasks' begun by (auto simp: usage_live_def task_of_def split: option.splits)
qed

lemma usage_live_worker:
  assumes live: "usage_live r" and safe: "usage_safe limit r" and step: "worker_step f r r'"
  shows "usage_live r'" and "usage_work r' < usage_work r"
proof -
  from step obtain key p rest p' where d: "ur_tasks r = add_mset (key, p) rest" "ur_tasks r' = task_of key p' + rest"
    "local_step key (ur_coordinator r) (ur_coordinator r')"
    "\<exists>new. ur_log r' = ur_log r @ new \<and> (\<forall>e \<in> set new. event_key e = key)"
    and here: "task_ok r key p \<Longrightarrow> (case p' of None \<Rightarrow> progress key (ur_log r') = Quiet \<and> \<not> worker_running (ur_coordinator r') key | Some q \<Rightarrow> task_ok r' key q)"
    and begun: "task_ok r key p \<Longrightarrow> settles_begun (ur_log r) \<Longrightarrow> settles_begun (ur_log r')"
    and less: "tokens_ok (ur_coordinator r) \<Longrightarrow> task_ok r key p \<Longrightarrow>
       (\<Sum>task \<in># task_of key p'. task_work (ur_coordinator r') task) < task_work (ur_coordinator r) (key, p)"
    by (rule worker_step_local) blast
  have ok: "task_ok r key p" "settles_begun (ur_log r)" using live d(1) by (auto simp: usage_live_def)
  from d(4) obtain new where new: "ur_log r' = ur_log r @ new" "\<forall>e \<in> set new. event_key e = key" by blast
  show "usage_live r'"
    by (rule usage_live_local [OF live safe d(1,2,3) new begun [OF ok] here [OF ok(1)]])
  have "k \<noteq> key" if "(k, q) \<in># rest" for k q
    using usage_safe_one [OF safe, of key] d(1) that by (auto simp: filter_mset_eq_conv dest!: multi_member_split)
  then have "task_work (ur_coordinator r') task = task_work (ur_coordinator r) task" if "task \<in># rest" for task
    using d(3) that by (cases task; cases "snd task") (fastforce simp: task_work_def local_step_def is_cancelled_def split: option.splits)+
  then have "(\<Sum>task \<in># rest. task_work (ur_coordinator r') task) = (\<Sum>task \<in># rest. task_work (ur_coordinator r) task)"
    by (intro arg_cong [of _ _ sum_mset] image_mset_cong) simp
  with less ok(1) safe d(1,2) show "usage_work r' < usage_work r" by (simp add: usage_work_def usage_safe_def)
qed

lemma local_generation:
  "local_step key uc uc' \<Longrightarrow> map_option uk_generation (get_session uc' k) = map_option uk_generation (get_session uc k)"
  by (cases "k = key") (simp_all add: local_step_def)

lemma worker_step_undisturbed: "worker_step f r r' \<Longrightarrow> undisturbed r r'"
  by (erule worker_step_local) (auto simp: undisturbed_def local_generation)

lemma usage_live_hook:
  assumes live: "usage_live r" and safe: "usage_safe limit r"
    and key: "session_key (uc_registry (ur_coordinator r)) provider context = Some key"
    and room: "is_none_or (\<lambda>s. unat (uk_generation s) + 2 < 2 ^ 64) (get_session (ur_coordinator r) key)"
    and s: "schedule (ur_coordinator r) provider iid credential (Some context) now = (uc, start)"
    and calm: "undisturbed r (move r uc (task_of key (map_option (\<lambda>_. AwaitDeadline) start) + ur_tasks r) [Hooked key])"
  shows "usage_live (move r uc (task_of key (map_option (\<lambda>_. AwaitDeadline) start) + ur_tasks r) [Hooked key])"
    (is "usage_live ?r")
proof -
  have ok: "tokens_ok (ur_coordinator r)" using safe by (simp add: usage_safe_def)
  note effect = schedule_effect [OF ok key s]
  from effect(3) obtain s' where s': "get_session uc key = Some s'"
    "uk_generation s' = saturating_add (case get_session (ur_coordinator r) key of Some s \<Rightarrow> uk_generation s | None \<Rightarrow> 0) 1" by blast
  have "task_ok ?r k p" if kp: "(k, p) \<in># ur_tasks r" for k p
  proof -
    from live kp have t: "task_ok r k p" by (auto simp: usage_live_def)
    then obtain s where s: "get_session (ur_coordinator r) k = Some s" by (auto simp: task_ok_def is_some_and_iff)
    have cancelled: "is_cancelled (ur_coordinator r) t \<Longrightarrow> is_cancelled uc t" for t
      using effect(5) by (auto simp: is_cancelled_def)
    obtain s2 where s2: "get_session uc k = Some s2" "uk_generation s \<le> uk_generation s2"
      "k = key \<Longrightarrow> uk_generation s < uk_generation s2"
    proof (cases "k = key")
      case True
      with s s' room have "unat (uk_generation s') = unat (uk_generation s) + 1" by (simp add: unat_saturating_add)
      then show ?thesis using that s' True by (simp add: word_le_nat_alt word_less_nat_alt)
    next
      case False
      then show ?thesis using that effect(1) s by (auto simp: detached_def)
    qed
    have "phase_ok uc (uk_generation s2) p"
      using t s cancelled calm kp s2(1) by (cases p) (auto simp: task_ok_def undisturbed_def)
    then show ?thesis using t s s2 by (fastforce simp: task_ok_def is_none_or_iff)
  qed
  moreover have "task_ok ?r key AwaitDeadline" using s' by (simp add: task_ok_def)
  moreover have "tasks_of ?r k \<noteq> {#}" if "progress k (ur_log ?r) \<noteq> Quiet \<or> worker_running uc k" for k
  proof (cases "k = key \<and> \<not> worker_running (ur_coordinator r) key")
    case True
    then show ?thesis using effect(4) by (simp add: task_of_def)
  next
    case False
    have "worker_running uc k = worker_running (ur_coordinator r) k" if other: "k \<noteq> key"
      using schedule_running [OF ok key s other] .
    with False have "tasks_of r k \<noteq> {#}" using live that by (auto simp: usage_live_def split: if_splits)
    then show ?thesis by auto
  qed
  moreover have "settles_begun (ur_log ?r)" using live by (simp add: usage_live_def settles_begun_snoc)
  ultimately show ?thesis by (auto simp: usage_live_def task_of_def split: option.splits)
qed

section \<open>Runs\<close>

lemma calm_reachable:
  "(calm_step f)\<^sup>*\<^sup>* (usage_start registry limit store) r \<Longrightarrow> usage_safe limit r \<and> usage_live r"
proof (induction rule: rtranclp_induct)
  case base
  show ?case using usage_safe_reachable [of f registry limit store]
    by (simp add: usage_live_def usage_start_def settles_begun_def UsageCoordinator_new_def worker_running_def get_session_def)
next
  case (step r r')
  then have u: "usage_step f r r'" "undisturbed r r'" "usage_safe limit r" "usage_live r" by (simp_all add: calm_step_def)
  from u show ?case
  proof (induction rule: usage_step.induct)
    case (work r r')
    then show ?case using usage_safe_worker usage_live_worker(1) by blast
  next
    case (hook r provider ctx key iid credential now uc start)
    show ?case using usage_safe_hook [OF hook(5,1,3)] usage_live_hook [OF hook(6,5,1,2,3,4)] by simp
  next
    case (other r store)
    then show ?case by (simp add: usage_safe_def usage_live_def task_ok_def)
  qed
qed

lemma worker_can_step:
  assumes safe: "usage_safe limit r" and live: "usage_live r" and task: "(k, p) \<in># ur_tasks r"
    and permit: "0 < uc_workers (ur_coordinator r) \<or> is_collecting p"
  shows "\<exists>r'. worker_step f r r'"
proof -
  from task obtain rest where rest: "ur_tasks r = add_mset (k, p) rest" by (auto dest: multi_member_split)
  show ?thesis
  proof (cases p)
    case AwaitDeadline
    then show ?thesis using rest
      by (cases "run_begin (ur_coordinator r) k"; cases "run_deadline (ur_coordinator r) k")
        (auto intro!: exI worker_step.woken)
  next
    case (AwaitPermit g t l c)
    then show ?thesis using rest permit
      by (cases "run_permit (ur_coordinator r) g t l c") (auto simp: is_collecting_def intro!: exI worker_step.permit)
  next
    case (CollectingNow g t l c)
    then show ?thesis using rest by (auto intro!: exI worker_step.collected [where outcome = CollectionUnsupported])
  next
    case (HasOutcome g t outcome)
    then show ?thesis using rest
      by (cases "run_collected (ur_coordinator r) k g t outcome") (auto intro!: exI worker_step.checked)
  next
    case (Settling g outcome)
    then show ?thesis using rest by (auto intro!: exI worker_step.settling)
  next
    case (Applying g e c bs)
    then show ?thesis using rest
      by (cases bs) (auto intro!: exI worker_step.applied exI worker_step.all_applied)
  next
    case (StoreCursor g c)
    then show ?thesis using rest by (auto intro!: exI worker_step.cursor_stored)
  next
    case (Finishing g)
    then show ?thesis using rest
      by (cases "UsageCoordinator_finish (ur_coordinator r) k g 0") (auto intro!: exI worker_step.finished)
  next
    case (FinishUnbound g)
    then show ?thesis using rest
      by (cases "UsageCoordinator_finish (ur_coordinator r) k g 0") (auto intro!: exI worker_step.unbound)
  qed
qed

lemma workers_never_stuck:
  assumes safe: "usage_safe limit r" and live: "usage_live r" and tasks: "ur_tasks r \<noteq> {#}"
  shows "\<exists>r'. worker_step f r r'"
proof (cases "0 < uc_workers (ur_coordinator r)")
  case True
  from tasks obtain k p where "(k, p) \<in># ur_tasks r" by (cases "ur_tasks r") (auto simp: split_paired_all)
  with True worker_can_step [OF safe live] show ?thesis by blast
next
  case False
  then have "size (collectors r) = max limit 1" using safe by (simp add: usage_safe_def)
  then have "0 < size (collectors r)" by linarith
  then obtain task where "task \<in># collectors r" using nonempty_has_size [of "collectors r"] multiset_nonemptyE [of "collectors r"] by blast
  then obtain k p where "(k, p) \<in># ur_tasks r" "is_collecting p" by (cases task) auto
  with worker_can_step [OF safe live] show ?thesis by blast
qed

lemma worker_runs:
  "(worker_step f ^^ n) r r' \<Longrightarrow> usage_safe limit r \<Longrightarrow> usage_live r \<Longrightarrow>
   usage_safe limit r' \<and> usage_live r' \<and> n + usage_work r' \<le> usage_work r"
proof (induction n arbitrary: r')
  case (Suc n)
  then obtain r1 where "(worker_step f ^^ n) r r1" and step: "worker_step f r1 r'" by auto
  with Suc.IH Suc.prems(2,3) have "usage_safe limit r1" "usage_live r1" "n + usage_work r1 \<le> usage_work r" by blast+
  with step show ?case using usage_safe_worker usage_live_worker [of r1 limit f r'] by fastforce
qed simp

text \<open>
  (C24) Collectors are bounded and never doubled. However hooks of any sessions and the workers interleave,
  a provider session has at most one worker, so no two collections of it overlap, and at most
  the configured number of collections runs at once.
\<close>

theorem collectors_are_bounded:
  assumes "(usage_step f)\<^sup>*\<^sup>* (usage_start registry limit store) r"
  shows "size (filter_mset (\<lambda>(k, _). k = key) (ur_tasks r)) \<le> 1
    \<and> size (filter_mset (\<lambda>(_, p). is_collecting p) (ur_tasks r)) \<le> max limit 1"
proof -
  have safe: "usage_safe limit r" by (rule usage_safe_reachable [OF assms])
  then have "uc_workers (ur_coordinator r) + size (collectors r) = max limit 1" by (simp only: usage_safe_def)
  with usage_safe_one [OF safe] show ?thesis by auto
qed


section \<open>A hook that is lost\<close>

text \<open>
  A worker that finds nothing bound to its session stops even when \<open>finish\<close> tells it to go on. A hook
  that comes between the two sections binds the session again and starts no worker, since one seems
  to be running; from then on none ever runs for this session.
\<close>

definition abandoned :: "'s UsageRun \<Rightarrow> ProviderSessionKey \<Rightarrow> bool" where
  "abandoned r k \<longleftrightarrow> worker_running (ur_coordinator r) k \<and> tasks_of r k = {#}"

lemma abandoned_stays:
  assumes safe: "usage_safe limit r" and stuck: "abandoned r k" and step: "usage_step f r r'"
  shows "abandoned r' k"
  using step stuck safe
proof (induction rule: usage_step.induct)
  case (work r r')
  from work(1) obtain key p rest p' where d: "ur_tasks r = add_mset (key, p) rest" "ur_tasks r' = task_of key p' + rest"
    "local_step key (ur_coordinator r) (ur_coordinator r')"
    by (rule worker_step_local) blast
  with work(2) have "k \<noteq> key" by (auto simp: abandoned_def)
  with d work(2) show ?case by (auto simp: abandoned_def task_of_def worker_running_def local_step_def split: option.splits)
next
  case (hook r provider ctx key iid credential now uc start)
  then have ok: "tokens_ok (ur_coordinator r)" by (simp add: usage_safe_def)
  note effect = schedule_effect [OF ok hook(1,3)]
  show ?case
  proof (cases "k = key")
    case True
    with hook(4) effect(3,4) show ?thesis by (auto simp: abandoned_def task_of_def worker_running_def)
  next
    case False
    with hook(4) schedule_running [OF ok hook(1,3) False] show ?thesis
      by (auto simp: abandoned_def task_of_def split: option.splits)
  qed
qed (auto simp: abandoned_def)

lemma hook_lost_while_worker_stops:
  assumes safe: "usage_safe limit r" and task: "ur_tasks r = add_mset (key, FinishUnbound g) rest"
    and s: "get_session (ur_coordinator r) key = Some s" "uk_generation s = g" "unat g + 2 < 2 ^ 64"
    and key: "session_key (uc_registry (ur_coordinator r)) provider context = Some key"
    and hook: "schedule (ur_coordinator r) provider iid credential (Some context) now = (uc, start)"
  shows "\<exists>r1 r2. usage_step f r r1 \<and> usage_step f r1 r2 \<and> (\<forall>r3. (usage_step f)\<^sup>*\<^sup>* r2 r3 \<longrightarrow> abandoned r3 key)"
proof -
  define r1 where "r1 = move r uc (task_of key (map_option (\<lambda>_. AwaitDeadline) start) + ur_tasks r) [Hooked key]"
  have r1: "usage_step f r r1" using usage_step.hook [OF key _ hook, of f] s by (simp add: r1_def)
  have ok: "tokens_ok (ur_coordinator r)" using safe by (simp add: usage_safe_def)
  note effect = schedule_effect [OF ok key hook]
  have one: "size (tasks_of r key) \<le> (if worker_running (ur_coordinator r) key then 1 else 0)" using safe by (simp only: usage_safe_def)
  then have running: "worker_running (ur_coordinator r) key" using task by (auto split: if_splits)
  from one task running have rest: "filter_mset (\<lambda>(k, _). k = key) rest = {#}" by auto
  from effect(3) s obtain s' where s': "get_session uc key = Some s'" "uk_worker_running s'" "uk_generation s' = saturating_add g 1" by auto
  have "unat (saturating_add g 1) = unat g + 1" using s(3) by (simp add: unat_saturating_add)
  with s'(3) have newer: "uk_generation s' \<noteq> g" by auto
  have tasks1: "ur_tasks r1 = add_mset (key, FinishUnbound g) rest"
    using effect(4) running task by (simp add: r1_def task_of_def)
  define r2 where "r2 = move r1 (put_session uc (s'\<lparr>uk_first_pending_at := now\<rparr>)) rest [Settled key]"
  have "worker_step f r1 r2"
    using worker_step.unbound [OF tasks1, of now "put_session uc (s'\<lparr>uk_first_pending_at := now\<rparr>)" True f] s' newer
    by (simp add: r2_def r1_def UsageCoordinator_finish_def)
  then have r2: "usage_step f r1 r2" by (rule usage_step.work)
  have stuck: "abandoned r2 key" using rest s' get_session_key [OF s'(1)]
    by (simp add: abandoned_def r2_def worker_running_def get_put_session)
  have safe2: "usage_safe limit r2" using usage_safe_step r1 r2 safe by blast
  have "abandoned r3 key \<and> usage_safe limit r3" if "(usage_step f)\<^sup>*\<^sup>* r2 r3" for r3
    using that
  proof (induction rule: rtranclp_induct)
    case base
    show ?case using stuck safe2 by blast
  next
    case (step y z)
    then have y: "abandoned y key" "usage_safe limit y" by blast+
    then show ?case using abandoned_stays usage_safe_step step(2) by blast
  qed
  with r1 r2 show ?thesis by blast
qed

section \<open>A run\<close>

definition sample_session_key :: ProviderSessionKey where
  "sample_session_key = \<lparr>sk_configured_provider = ''claude'', sk_adapter_identity = Claude, sk_provider_session_id = ''s''\<rparr>"

definition sample_uc :: "bool \<Rightarrow> nat option \<Rightarrow> bool \<Rightarrow> nat \<Rightarrow> nat \<Rightarrow> UsageCoordinator" where
  "sample_uc notify cancellation running workers token =
     \<lparr>uc_registry = AdapterRegistry_new [],
      uc_sessions = [\<lparr>uk_key = sample_session_key, uk_generation = 1, uk_locator = ''f'', uk_cursor = None,
        uk_bindings = [(''i'', ''c'')], uk_cancellation = cancellation, uk_notify = notify, uk_worker_running = running,
        uk_first_pending_at = 0, uk_last_event_at = 0\<rparr>],
      uc_invocation_keys = [(''i'', sample_session_key)], uc_workers = workers, uc_cancelled = [],
      uc_next_token = token\<rparr>"

abbreviation sample_collection :: ArtifactCollectionContext where
  "sample_collection \<equiv> \<lparr>ac_adapter_identity = Claude, ac_provider_session_id = ''s'', ac_locator = ''f''\<rparr>"

abbreviation sample_state :: "UsageCoordinator \<Rightarrow> WorkerPhase option \<Rightarrow> UsageEvent list \<Rightarrow> unit UsageRun" where
  "sample_state uc phase log \<equiv> \<lparr>ur_coordinator = uc, ur_tasks = task_of sample_session_key phase, ur_store = (), ur_log = log\<rparr>"

lemma sample_resolve: "trim ''s'' \<noteq> []" "resolve (AdapterRegistry_new []) ''claude'' = Some (Claude, ''claude'')"
  by code_simp+

lemma sample_schedule:
  "session_key (AdapterRegistry_new []) ''claude'' sample_collection = Some sample_session_key"
  "schedule (UsageCoordinator_new (AdapterRegistry_new []) 2) ''claude'' ''i'' ''c'' (Some sample_collection) 0 =
     (sample_uc True None True 2 0, Some sample_session_key)"
proof -
  show key: "session_key (AdapterRegistry_new []) ''claude'' sample_collection = Some sample_session_key"
    using sample_resolve by (simp add: session_key_def sample_session_key_def)
  show "schedule (UsageCoordinator_new (AdapterRegistry_new []) 2) ''claude'' ''i'' ''c'' (Some sample_collection) 0 =
      (sample_uc True None True 2 0, Some sample_session_key)"
    using key by (simp add: schedule_def UsageCoordinator_new_def bump_def rebind_def Let_def get_session_def put_session_def
      fresh_session_def cancel_token_def sample_uc_def saturating_add_def)
qed

lemma sample_hook:
  "usage_step (\<lambda>_ _ _ _. ()) (usage_start (AdapterRegistry_new []) 2 ())
     (sample_state (sample_uc True None True 2 0) (Some AwaitDeadline) [Hooked sample_session_key])"
  using usage_step.hook [of "usage_start (AdapterRegistry_new []) 2 ()" "''claude''" sample_collection sample_session_key "''i''" "''c''" 0
      "sample_uc True None True 2 0" "Some sample_session_key" "\<lambda>_ _ _ _. ()"] sample_schedule
  by (simp add: usage_start_def move_def UsageCoordinator_new_def get_session_def)

abbreviation sample_log :: "UsageEvent list" where
  "sample_log \<equiv> [Hooked sample_session_key, Begun sample_session_key]"

lemmas sample_run_defs = task_of_def move_def sample_uc_def put_session_def get_session_def run_begin_def run_deadline_def
  run_permit_def run_collected_def run_settle_def UsageCoordinator_finish_def is_cancelled_def Let_def
  DEBOUNCE_QUIET_def MAX_DEFERRAL_def seconds_def

text \<open>The states of the run, from the hook to the end of the worker.\<close>

definition sample_trace :: "unit UsageRun list" where
  "sample_trace = [sample_state (sample_uc True None True 2 0) (Some AwaitDeadline) [Hooked sample_session_key],
     sample_state (sample_uc False None True 2 0) (Some AwaitDeadline) [Hooked sample_session_key],
     sample_state (sample_uc False (Some 0) True 2 1) (Some (AwaitPermit 1 0 ''f'' None)) sample_log,
     sample_state (sample_uc False (Some 0) True 1 1) (Some (CollectingNow 1 0 ''f'' None)) sample_log,
     sample_state (sample_uc False (Some 0) True 2 1) (Some (HasOutcome 1 0 CollectionUnsupported)) sample_log,
     sample_state (sample_uc False None True 2 1) (Some (Settling 1 CollectionUnsupported)) sample_log,
     sample_state (sample_uc False None True 2 1) (Some (Finishing 1)) sample_log,
     sample_state (sample_uc False None False 2 1) None (sample_log @ [Settled sample_session_key])]"

abbreviation sample_applier :: "unit \<Rightarrow> InvocationId \<Rightarrow> string \<Rightarrow> NormalizedEvent \<Rightarrow> unit" where
  "sample_applier \<equiv> \<lambda>_ _ _ _. ()"

lemma sample_trace_steps:
  "worker_step sample_applier (sample_trace ! 0) (sample_trace ! 1)"
  "worker_step sample_applier (sample_trace ! 1) (sample_trace ! 2)"
  "worker_step sample_applier (sample_trace ! 2) (sample_trace ! 3)"
  "worker_step sample_applier (sample_trace ! 3) (sample_trace ! 4)"
  "worker_step sample_applier (sample_trace ! 4) (sample_trace ! 5)"
  "worker_step sample_applier (sample_trace ! 5) (sample_trace ! 6)"
  "worker_step sample_applier (sample_trace ! 6) (sample_trace ! 7)"
  using worker_step.notified [where r = "sample_trace ! 0" and key = sample_session_key and rest = "{#}" and apply_enrichment = sample_applier
      and s = "hd (uc_sessions (sample_uc True None True 2 0))"]
    worker_step.woken [where r = "sample_trace ! 1" and key = sample_session_key and rest = "{#}" and apply_enrichment = sample_applier
      and now = "seconds 2" and uc = "sample_uc False (Some 0) True 2 1" and phase = "Some (AwaitPermit 1 0 ''f'' None)"]
    worker_step.permit [where r = "sample_trace ! 2" and key = sample_session_key and rest = "{#}" and apply_enrichment = sample_applier
      and g = 1 and t = 0 and locator = "''f''" and cursor = None and uc = "sample_uc False (Some 0) True 1 1" and phase = "CollectingNow 1 0 ''f'' None"]
    worker_step.collected [where r = "sample_trace ! 3" and key = sample_session_key and rest = "{#}" and apply_enrichment = sample_applier
      and g = 1 and t = 0 and locator = "''f''" and cursor = None and outcome = CollectionUnsupported]
    worker_step.checked [where r = "sample_trace ! 4" and key = sample_session_key and rest = "{#}" and apply_enrichment = sample_applier
      and g = 1 and t = 0 and outcome = CollectionUnsupported and uc = "sample_uc False None True 2 1" and phase = "Some (Settling 1 CollectionUnsupported)"]
    worker_step.settling [where r = "sample_trace ! 5" and key = sample_session_key and rest = "{#}" and apply_enrichment = sample_applier
      and g = 1 and outcome = CollectionUnsupported]
    worker_step.finished [where r = "sample_trace ! 6" and key = sample_session_key and rest = "{#}" and apply_enrichment = sample_applier
      and g = 1 and now = 0 and uc = "sample_uc False None False 2 1" and go_on = False]
  by (simp_all add: sample_trace_def sample_run_defs numeral_2_eq_2)

lemma sample_hook_calm:
  "(calm_step sample_applier)\<^sup>*\<^sup>* (usage_start (AdapterRegistry_new []) 2 ()) (sample_trace ! 0)"
  using sample_hook by (intro r_into_rtranclp) (simp add: calm_step_def undisturbed_def sample_trace_def usage_start_def)

lemma sample_trace_run: "(worker_step sample_applier ^^ 7) (sample_trace ! 0) (sample_trace ! 7)"
proof -
  have "(worker_step sample_applier ^^ n) (sample_trace ! 0) (sample_trace ! n)" if "n \<le> 7" for n
    using that
  proof (induction n)
    case (Suc n)
    then have "n \<in> {0, 1, 2, 3, 4, 5, 6}" by auto
    then have "worker_step sample_applier (sample_trace ! n) (sample_trace ! Suc n)"
      using sample_trace_steps by (auto simp: numeral_eq_Suc)
    with Suc show ?case by (auto intro: relcomppI)
  qed simp
  then show ?thesis by simp
qed


theorem collectors_are_bounded_witness:
  "size (filter_mset (\<lambda>(k, _). k = sample_session_key) (ur_tasks (sample_trace ! 3))) \<le> 1
    \<and> size (filter_mset (\<lambda>(_, p). is_collecting p) (ur_tasks (sample_trace ! 3))) \<le> 2"
proof -
  have "(usage_step sample_applier)\<^sup>*\<^sup>* (usage_start (AdapterRegistry_new []) 2 ()) (sample_trace ! 3)"
  proof -
    have "usage_step sample_applier (usage_start (AdapterRegistry_new []) 2 ()) (sample_trace ! 0)"
      using sample_hook by (simp add: sample_trace_def)
    with sample_trace_steps(1-3) show ?thesis
      by (meson usage_step.work rtranclp.rtrancl_into_rtrancl rtranclp.rtrancl_refl)
  qed
  from collectors_are_bounded [OF this, of sample_session_key] show ?thesis by simp
qed

end
