(* ===== verification/Broker.thy ===== *)
theory Broker
  imports Terminals_Props Usage_Props Sync Workers
begin

text \<open>
  The request-level service of the broker, \<^verbatim>\<open>sessiontapd/src/app.rs\<close>, and the dispatch of its socket,
  \<^verbatim>\<open>sessiontapd/src/server.rs\<close>. Every method of \<open>App\<close> is a function on the shared state: the store, what
  was broadcast, the terminal sessions, the usage coordinator and what was written to panes. A
  multiplexer adapter is a record of functions, the trait \<open>MultiplexerAdapter\<close>.
\<close>

section \<open>The state\<close>

record Mux =
  mu_capture :: "MultiplexerMetadata \<Rightarrow> u32 \<Rightarrow> string + string"
  mu_open_stream :: "MultiplexerMetadata \<Rightarrow> u32 \<Rightarrow> string + unit"
  mu_request_snapshot :: "InvocationId \<Rightarrow> string + unit"
  mu_pane_state :: "MultiplexerMetadata \<Rightarrow> u32 \<Rightarrow> string + PaneState"
  mu_send :: "MultiplexerMetadata \<Rightarrow> u32 \<Rightarrow> TerminalInput \<Rightarrow> string + unit"

text \<open>What an \<open>App\<close> is built from: publishing, adapters, multiplexers, and the libraries it calls.\<close>

record AppConfig =
  co_codec :: Codec
  co_platform :: Platform
  co_publish :: Publish
  co_registry :: AdapterRegistry
  co_multiplexers :: "MultiplexerBackend \<Rightarrow> Mux option"
  co_identity :: "u32 \<Rightarrow> string option"

record App =
  app_store :: Db
  app_updates :: "AppliedUpdate list"
  app_terminals :: Terminals
  app_usage :: UsageCoordinator
  app_written :: "(MultiplexerMetadata \<times> u32 \<times> TerminalInput) list"

definition App_new :: "AppConfig \<Rightarrow> Db \<Rightarrow> DaemonConfig \<Rightarrow> App" where
  "App_new co store daemon =
     \<lparr>app_store = store, app_updates = [], app_terminals = Terminals_default,
      app_usage = UsageCoordinator_new (co_registry co) (dc_collection_workers daemon), app_written = []\<rparr>"

datatype AppError = FailedTerminal TerminalError | FailedBackend MultiplexerBackend | FailedStore StorageError | FailedOther string

definition broadcast :: "App \<Rightarrow> AppliedUpdate option \<Rightarrow> App" where
  "broadcast app update = (case update of None \<Rightarrow> app | Some u \<Rightarrow> app\<lparr>app_updates := app_updates app @ [u]\<rparr>)"

text \<open>A store transaction inside a method: an error leaves the method at once.\<close>

definition in_store :: "StorageError + 'a \<Rightarrow> AppError + 'a" where
  "in_store r = map_sum FailedStore id r"

section \<open>Hooks and lifecycle\<close>

definition App_status :: "App \<Rightarrow> AppError + nat \<times> PublicAgentView list" where
  "App_status app = in_store (public_snapshot (app_store app))"

definition App_register :: "AppConfig \<Rightarrow> App \<Rightarrow> InvocationSnapshot \<Rightarrow> string \<Rightarrow> timestamp \<Rightarrow> AppError + App" where
  "App_register co app snap credential wall =
     (let policy = (case resolve (co_registry co) (sn_provider snap) of
            None \<Rightarrow> TerminalPolicy_default
          | Some (adapter, _) \<Rightarrow> hd_terminal_policy (dialect_of (co_platform co) adapter));
          s = snap\<lparr>sn_capabilities := (sn_capabilities snap)\<lparr>cp_terminal_policy := policy\<rparr>\<rparr>
      in result_bind (in_store (register (co_codec co) (app_store app) s credential (Some (co_publish co)) wall))
           (\<lambda>(db, revision).
              let registered = s\<lparr>sn_revision := revision\<rparr>; view = project_public registered None
              in Inr (broadcast (app\<lparr>app_store := db\<rparr>) (Some
                   \<lparr>au_revision = revision,
                    au_delivery_id = synthetic_event_id ''register'' (sn_invocation_id registered) revision,
                    au_view = view, au_changed = changed_public_fields None view\<rparr>))))"

definition App_bind_child ::
    "AppConfig \<Rightarrow> App \<Rightarrow> InvocationId \<Rightarrow> string \<Rightarrow> u32 \<Rightarrow> string option \<Rightarrow> timestamp \<Rightarrow> AppError + App" where
  "App_bind_child co app i credential child_pid start_identity wall =
     result_bind (in_store (bind_child (co_codec co) (app_store app) i credential child_pid start_identity (Some (co_publish co)) wall))
       (\<lambda>(db, update). Inr (broadcast (app\<lparr>app_store := db\<rparr>) update))"

definition lifecycle_exit ::
    "AppConfig \<Rightarrow> App \<Rightarrow> InvocationId \<Rightarrow> string \<Rightarrow> i32 option \<Rightarrow> i32 option \<Rightarrow> timestamp \<Rightarrow> AppError + App" where
  "lifecycle_exit co app i credential exit_code signal wall =
     result_bind (in_store (mark_exit (co_codec co) (app_store app) i credential exit_code signal (Some (co_publish co)) wall))
       (\<lambda>(db, update). Inr (broadcast (app\<lparr>app_store := db, app_terminals := Terminals_end (app_terminals app) i AgentExited\<rparr>) update))"

definition apply_enrichment ::
    "AppConfig \<Rightarrow> App \<Rightarrow> InvocationId \<Rightarrow> string \<Rightarrow> NormalizedEvent \<Rightarrow> timestamp \<Rightarrow> AppError + App" where
  "apply_enrichment co app i credential event wall =
     (if \<not> credential_matches (app_store app) i (ev_provider event) credential then Inr app
      else result_bind (in_store (invocation (app_store app) i)) (\<lambda>snap.
        if sn_provider snap \<noteq> ev_provider event
          \<or> map_option ps_id (sn_provider_session snap) \<noteq> ev_provider_session_id event then Inr app
        else result_bind (in_store (apply_event_with_context (co_codec co) (app_store app) event None (Some (co_publish co)) wall))
               (\<lambda>(db, update). Inr (broadcast (app\<lparr>app_store := db\<rparr>) update))))"

text \<open>The hook's answer does not wait for a collection; the worker to start is part of the result.\<close>

definition ingest_hook ::
    "AppConfig \<Rightarrow> App \<Rightarrow> string \<Rightarrow> InvocationId \<Rightarrow> string \<Rightarrow> NormalizedEvent \<Rightarrow> StatusReasonContext option
     \<Rightarrow> ArtifactCollectionContext option \<Rightarrow> timestamp \<Rightarrow> int \<Rightarrow> AppError + App \<times> ProviderSessionKey option" where
  "ingest_hook co app provider i credential event status_reason context wall instant =
     (if ev_invocation_id event \<noteq> i \<or> ev_provider event \<noteq> provider
         \<or> is_some_and (\<lambda>c. ev_provider_session_id event \<noteq> Some (ac_provider_session_id c)) context
         \<or> \<not> credential_matches (app_store app) i provider credential
      then Inl (FailedOther ''unknown or invalid hook context'')
      else result_bind (in_store (apply_event_with_context (co_codec co) (app_store app) (event\<lparr>ev_received_at := wall\<rparr>) status_reason
               (Some (co_publish co)) wall))
             (\<lambda>(db, update).
                case schedule (app_usage app) provider i credential context instant of
                  (usage, start) \<Rightarrow> Inr (broadcast (app\<lparr>app_store := db, app_usage := usage\<rparr>) update, start)))"

section \<open>Terminals\<close>

definition multiplexer_target :: "App \<Rightarrow> InvocationId \<Rightarrow> AppError + MultiplexerMetadata \<times> u32" where
  "multiplexer_target app i =
     result_bind (in_store (invocation (app_store app) i)) (\<lambda>snap.
       case sn_multiplexer snap of
         None \<Rightarrow> Inl (FailedOther ''invocation is not in a multiplexer'')
       | Some metadata \<Rightarrow>
           (case pc_child_pid (sn_process snap) of
              None \<Rightarrow> Inl (FailedOther ''invocation has no child PID'')
            | Some pid \<Rightarrow> Inr (metadata, pid)))"

definition App_capture :: "AppConfig \<Rightarrow> App \<Rightarrow> InvocationId \<Rightarrow> AppError + string" where
  "App_capture co app i =
     result_bind (multiplexer_target app i) (\<lambda>(metadata, pid).
       case co_multiplexers co (mx_backend metadata) of
         None \<Rightarrow> Inl (FailedBackend (mx_backend metadata))
       | Some mux \<Rightarrow> map_sum FailedOther id (mu_capture mux metadata pid))"

definition UnsupportedBackend_fmt :: "MultiplexerBackend \<Rightarrow> string" where
  "UnsupportedBackend_fmt backend = ''unsupported multiplexer backend '' @ in_quotes (MultiplexerBackend_as_str backend)"

definition terminal_target ::
    "AppConfig \<Rightarrow> App \<Rightarrow> InvocationId \<Rightarrow> AppError + MultiplexerMetadata \<times> AgentProcess \<times> Mux" where
  "terminal_target co app i =
     (case invocation (app_store app) i of
        Inl _ \<Rightarrow> Inl (FailedTerminal (TerminalError_new NOT_FOUND ''unknown invocation''))
      | Inr snap \<Rightarrow>
          if has_ended (app_terminals app) i
          then Inl (FailedTerminal (TerminalError_new TERMINAL_ENDED ''terminal stream ended''))
          else
            (case (sn_multiplexer snap, pc_child_pid (sn_process snap), terminal_live snap) of
               (Some metadata, Some child_pid, True) \<Rightarrow>
                 (case co_multiplexers co (mx_backend metadata) of
                    None \<Rightarrow> Inl (FailedTerminal (TerminalError_new UNSUPPORTED_BACKEND (UnsupportedBackend_fmt (mx_backend metadata))))
                  | Some mux \<Rightarrow>
                      Inr (metadata, \<lparr>ap_child_pid = child_pid, ap_start_identity = pc_start_identity (sn_process snap)\<rparr>, mux))
             | _ \<Rightarrow> Inl (FailedTerminal (TerminalError_new TERMINAL_UNAVAILABLE ''no live terminal for this invocation''))))"

definition terminal_watch :: "AppConfig \<Rightarrow> App \<Rightarrow> InvocationId \<Rightarrow> App \<times> (AppError + nat)" where
  "terminal_watch co app i =
     (case terminal_target co app i of
        Inl e \<Rightarrow> (app, Inl e)
      | Inr (metadata, agent, mux) \<Rightarrow>
          let pid = ap_child_pid agent;
              state = (case mu_pane_state mux metadata pid of Inl _ \<Rightarrow> None | Inr state \<Rightarrow> Some state)
          in (case Terminals_watch (app_terminals app) i (foreground_guard (co_identity co) agent state)
                     (mu_open_stream mux metadata pid) (mu_request_snapshot mux i) of
                (terminals, Inl e) \<Rightarrow>
                  (app\<lparr>app_terminals := terminals\<rparr>,
                   Inl (if session_of (app_terminals app) i = None
                        then FailedTerminal (TerminalError_new TERMINAL_UNAVAILABLE e) else FailedOther e))
              | (terminals, Inr w) \<Rightarrow> (app\<lparr>app_terminals := terminals\<rparr>, Inr w)))"

definition App_terminal_input :: "AppConfig \<Rightarrow> App \<Rightarrow> InvocationId \<Rightarrow> TerminalInput \<Rightarrow> App \<times> (AppError + unit)" where
  "App_terminal_input co app i input =
     (case terminal_target co app i of
        Inl e \<Rightarrow> (app, Inl e)
      | Inr (metadata, agent, mux) \<Rightarrow>
          (case TerminalInput_validate input of
             Inl message \<Rightarrow> (app, Inl (FailedTerminal (TerminalError_new BAD_REQUEST message)))
           | Inr _ \<Rightarrow>
               (case mu_pane_state mux metadata (ap_child_pid agent) of
                  Inl e \<Rightarrow> (app, Inl (FailedTerminal (TerminalError_new TERMINAL_UNAVAILABLE e)))
                | Inr state \<Rightarrow>
                    (case guard (co_identity co) agent state of
                       Some blocked \<Rightarrow>
                         (app, Inl (FailedTerminal (TerminalError_new (InputUnavailable_code blocked) ''input refused by the guard'')))
                     | None \<Rightarrow>
                         (app\<lparr>app_written := app_written app @ [(metadata, ap_child_pid agent, input)]\<rparr>,
                          map_sum FailedOther id (mu_send mux metadata (ap_child_pid agent) input))))))"

section \<open>Sweeps\<close>

definition App_reconcile ::
    "AppConfig \<Rightarrow> (timestamp \<Rightarrow> u64 \<Rightarrow> timestamp option) \<Rightarrow> App \<Rightarrow> (u32 \<Rightarrow> string option \<Rightarrow> bool) \<Rightarrow> u64 \<Rightarrow> timestamp
     \<Rightarrow> App \<times> (AppError + nat)" where
  "App_reconcile co sub_days app is_alive retention_days wall =
     (case reconcile (co_codec co) sub_days (app_store app) is_alive retention_days (Some (co_publish co)) wall of
        (db, Inl e) \<Rightarrow> (app\<lparr>app_store := db\<rparr>, Inl (FailedStore e))
      | (db, Inr changed) \<Rightarrow>
          (app\<lparr>app_store := db,
               app_terminals := end_not_live (app_terminals app)
                 (\<lambda>i. case invocation db i of Inl _ \<Rightarrow> False | Inr s \<Rightarrow> \<not> terminal_live s)\<rparr>, Inr changed))"

definition App_expire_stale_working :: "AppConfig \<Rightarrow> App \<Rightarrow> timestamp \<Rightarrow> timestamp \<Rightarrow> App \<times> (AppError + unit)" where
  "App_expire_stale_working co app now wall =
     (case expire_stale_working_at (co_codec co) (app_store app) now wall (Some (co_publish co)) of
        (db, Inl e) \<Rightarrow> (app\<lparr>app_store := db\<rparr>, Inl (FailedStore e))
      | (db, Inr updates) \<Rightarrow> (fold (\<lambda>u app. broadcast app (Some u)) updates (app\<lparr>app_store := db\<rparr>), Inr ()))"

section \<open>The socket\<close>

definition error_envelope :: "string \<Rightarrow> string \<Rightarrow> Response" where
  "error_envelope code message = RespError \<lparr>er_code = code, er_message = message\<rparr>"

text \<open>The texts of store errors are an argument.\<close>

definition error_to_response :: "(StorageError \<Rightarrow> string) \<Rightarrow> AppError \<Rightarrow> Response" where
  "error_to_response describe error =
     (case error of
        FailedTerminal e \<Rightarrow> error_envelope (te_code e) (te_message e)
      | FailedBackend backend \<Rightarrow> error_envelope UNSUPPORTED_BACKEND (UnsupportedBackend_fmt backend)
      | FailedStore e \<Rightarrow> error_envelope ''request_failed'' (describe e)
      | FailedOther message \<Rightarrow> error_envelope ''request_failed'' message)"

text \<open>The state after a method that changes it only when it succeeds.\<close>

definition answered :: "App \<Rightarrow> AppError + App \<Rightarrow> App \<times> (AppError + Response)" where
  "answered app r = (case r of Inl e \<Rightarrow> (app, Inl e) | Inr app' \<Rightarrow> (app', Inr RespOk))"

definition process ::
    "AppConfig \<Rightarrow> Request \<Rightarrow> App \<Rightarrow> timestamp \<Rightarrow> int \<Rightarrow> App \<times> (AppError + Response)" where
  "process co request app wall instant =
     (case request of
        ReqHealth \<Rightarrow> (app, Inr (RespHealth SCHEMA_VERSION))
      | ReqStatus \<Rightarrow> (app, map_sum id (\<lambda>(revision, views). RespStatus revision views) (App_status app))
      | ReqRegister snap credential \<Rightarrow> answered app (App_register co app snap credential wall)
      | ReqBindChild i credential child_pid start_identity \<Rightarrow>
          answered app (App_bind_child co app i credential child_pid start_identity wall)
      | ReqLifecycleExit i credential exit_code signal \<Rightarrow> answered app (lifecycle_exit co app i credential exit_code signal wall)
      | ReqHookIngest provider i credential event status_reason context \<Rightarrow>
          answered app (map_sum id fst (ingest_hook co app provider i credential event status_reason context wall instant))
      | ReqCapture i \<Rightarrow> (app, map_sum id RespCaptured (App_capture co app i))
      | ReqTerminalInput i input \<Rightarrow>
          (case App_terminal_input co app i input of (app', result) \<Rightarrow> (app', map_sum id (\<lambda>_. RespOk) result))
      | ReqListen \<Rightarrow> (app, Inl (FailedOther ''streaming request on the request path''))
      | ReqTerminalWatch _ \<Rightarrow> (app, Inl (FailedOther ''streaming request on the request path'')))"

text \<open>
  A listener: the revision of its first snapshot, and how much of what was sent on the channel it has
  read. The channel holds the last \<open>capacity\<close> updates.
\<close>

record Listener =
  ls_since :: nat
  ls_position :: nat

definition App_subscribe :: "AppliedUpdate list \<Rightarrow> App \<Rightarrow> AppError + Listener \<times> StreamEnvelope" where
  "App_subscribe channel app =
     result_bind (App_status app) (\<lambda>(revision, views).
       Inr (\<lparr>ls_since = revision, ls_position = length channel\<rparr>, StreamSnapshot SCHEMA_VERSION revision views))"

text \<open>One turn of the listen loop: \<open>None\<close> when the listener waits, or the envelopes written.\<close>

definition listen_turn ::
    "nat \<Rightarrow> AppliedUpdate list \<Rightarrow> App \<Rightarrow> Listener \<Rightarrow> (AppError + Listener \<times> StreamEnvelope list) option" where
  "listen_turn capacity channel app l =
     (let n = length channel
      in if ls_position l \<ge> n then None
         else if n - ls_position l > capacity
         then Some (result_bind (App_status app) (\<lambda>(revision, views).
                Inr (l\<lparr>ls_position := n - capacity\<rparr>, [StreamSnapshot SCHEMA_VERSION revision views])))
         else
           let u = channel ! ls_position l; l' = l\<lparr>ls_position := ls_position l + 1\<rparr>
           in Some (Inr (l', if au_revision u > ls_since l
                then [StreamUpdate SCHEMA_VERSION (au_revision u) (au_delivery_id u) (au_changed u) (au_view u)] else [])))"

end
