(* ===== verification/Control.thy ===== *)
theory Control
  imports Broker
begin

text \<open>
  The control channel of the broker to a hub, \<^verbatim>\<open>sessiontapd/src/control.rs\<close>: its address, the reconnect
  loop, the bridge that maps the hub's requests onto terminal sessions, the task that forwards the
  frames of one stream, and the loop that serves one open channel.
\<close>

section \<open>Reconnecting\<close>

text \<open>Durations in milliseconds.\<close>

record ReconnectBackoff =
  rb_initial :: nat
  rb_max :: nat

definition RECONNECT_BACKOFF :: ReconnectBackoff where
  "RECONNECT_BACKOFF = \<lparr>rb_initial = 1000, rb_max = 30000\<rparr>"

definition ReconnectBackoff_next :: "ReconnectBackoff \<Rightarrow> nat option \<Rightarrow> nat" where
  "ReconnectBackoff_next b previous = (case previous of None \<Rightarrow> rb_initial b | Some p \<Rightarrow> min (p * 2) (rb_max b))"

definition OUTBOUND_CAPACITY :: nat where "OUTBOUND_CAPACITY = 256"

fun split_scheme :: "string \<Rightarrow> (string \<times> string) option" where
  "split_scheme [] = None"
| "split_scheme (c # cs) =
     (if take 3 (c # cs) = ''://'' then Some ([], drop 3 (c # cs))
      else map_option (\<lambda>(scheme, rest). (c # scheme, rest)) (split_scheme cs))"

definition url_parts :: "string \<Rightarrow> string + string \<times> string" where
  "url_parts sink_url =
     (case split_scheme sink_url of
        None \<Rightarrow> Inl ''sink URL has no scheme''
      | Some (scheme, rest) \<Rightarrow>
          result_bind (if scheme = ''http'' then Inr ''ws'' else if scheme = ''https'' then Inr ''wss''
                       else Inl (''unsupported sink URL scheme: '' @ scheme)) (\<lambda>scheme.
            let authority = takeWhile (\<lambda>c. c \<notin> set ''/?#'') rest
            in if authority = [] then Inl ''sink URL has no host'' else Inr (scheme, authority)))"

definition control_url :: "string \<Rightarrow> string + string" where
  "control_url sink_url =
     result_bind (url_parts sink_url) (\<lambda>(scheme, authority). Inr (scheme @ ''://'' @ authority @ ''/control''))"

text \<open>
  One round of \<open>run\<close>: what \<open>connect\<close> and then \<open>serve\<close> give. The round says what it logs and how long
  it sleeps.
\<close>

record ControlLoop =
  lp_delay :: "nat option"
  lp_failing :: bool

datatype ControlLog = ChannelConnected | ChannelClosed string | ChannelUnavailable string

definition ControlLoop_new :: ControlLoop where
  "ControlLoop_new = \<lparr>lp_delay = None, lp_failing = False\<rparr>"

definition run_round :: "ReconnectBackoff \<Rightarrow> bool \<Rightarrow> string + (string + unit) \<Rightarrow> ControlLoop \<Rightarrow> ControlLoop \<times> ControlLog list \<times> nat" where
  "run_round backoff on connected l =
     (if \<not> on then (l, [], rb_max backoff)
      else
        let (l1, logs) =
              (case connected of
                 Inr served \<Rightarrow>
                   (case served of
                      Inl e \<Rightarrow> (\<lparr>lp_delay = None, lp_failing = True\<rparr>,
                                (if lp_failing l then [ChannelConnected] else []) @ [ChannelClosed e])
                    | Inr _ \<Rightarrow> (\<lparr>lp_delay = None, lp_failing = False\<rparr>, if lp_failing l then [ChannelConnected] else []))
               | Inl e \<Rightarrow> (l\<lparr>lp_failing := True\<rparr>, if lp_failing l then [] else [ChannelUnavailable e]));
            wait = ReconnectBackoff_next backoff (lp_delay l1)
        in (l1\<lparr>lp_delay := Some wait\<rparr>, logs, wait))"

section \<open>The bridge\<close>

text \<open>
  A stream of the hub: the watcher its task owns, a resynchronisation asked for, the frame the task has
  taken and waits to send, and whether the task has returned.
\<close>

record ControlStream =
  cs_stream :: u64
  cs_invocation :: InvocationId
  cs_watcher :: nat
  cs_resync :: bool
  cs_held :: "TerminalFrame option"
  cs_finished :: bool

text \<open>The broker is shared with every other task; \<open>br_out\<close> is the queue of messages for the hub.\<close>

record Bridge =
  br_app :: App
  br_out :: "RelayMessage list"
  br_streams :: "ControlStream list"

definition Bridge_new :: "App \<Rightarrow> Bridge" where
  "Bridge_new app = \<lparr>br_app = app, br_out = [], br_streams = []\<rparr>"

text \<open>\<open>send\<close> on the bounded queue: \<open>None\<close> waits for the reader of the queue.\<close>

definition Bridge_send :: "Bridge \<Rightarrow> RelayMessage \<Rightarrow> Bridge option" where
  "Bridge_send b m = (if length (br_out b) < OUTBOUND_CAPACITY then Some (b\<lparr>br_out := br_out b @ [m]\<rparr>) else None)"

definition refusal :: "(StorageError \<Rightarrow> string) \<Rightarrow> AppError \<Rightarrow> string \<times> string" where
  "refusal describe error =
     (case error_to_response describe error of RespError e \<Rightarrow> (er_code e, er_message e) | _ \<Rightarrow> (''request_failed'', []))"

text \<open>Aborting the task of a stream drops its watcher; a task that has returned dropped it before.\<close>

definition abort_task :: "Bridge \<Rightarrow> ControlStream \<Rightarrow> Bridge" where
  "abort_task b s =
     (if cs_finished s then b
      else b\<lparr>br_app := (br_app b)\<lparr>app_terminals := leave (app_terminals (br_app b)) (cs_watcher s)\<rparr>\<rparr>)"

definition Bridge_open ::
    "(StorageError \<Rightarrow> string) \<Rightarrow> AppConfig \<Rightarrow> (string \<Rightarrow> InvocationId option) \<Rightarrow> Bridge \<Rightarrow> u64 \<Rightarrow> u64 \<Rightarrow> string \<Rightarrow> Bridge option" where
  "Bridge_open describe co parse b req stream invocation_id =
     (case parse invocation_id of
        None \<Rightarrow> Bridge_send b (RelayError req NOT_FOUND ''unknown invocation'')
      | Some i \<Rightarrow>
          (case terminal_watch co (br_app b) i of
             (app, Inl e) \<Rightarrow> (case refusal describe e of (code, message) \<Rightarrow> Bridge_send (b\<lparr>br_app := app\<rparr>) (RelayError req code message))
           | (app, Inr w) \<Rightarrow>
               Option.bind (Bridge_send (b\<lparr>br_app := app\<rparr>) (RelayOpened req stream)) (\<lambda>b1.
                 let b2 = (case tbl_lookup cs_stream stream (br_streams b1) of None \<Rightarrow> b1 | Some previous \<Rightarrow> abort_task b1 previous)
                 in Some (b2\<lparr>br_streams := tbl_put cs_stream \<lparr>cs_stream = stream, cs_invocation = i, cs_watcher = w,
                      cs_resync = False, cs_held = None, cs_finished = False\<rparr> (br_streams b2)\<rparr>))))"

definition Bridge_input ::
    "(StorageError \<Rightarrow> string) \<Rightarrow> AppConfig \<Rightarrow> Bridge \<Rightarrow> u64 \<Rightarrow> TerminalInput \<Rightarrow> Bridge \<times> string option" where
  "Bridge_input describe co b stream input =
     (case tbl_lookup cs_stream stream (br_streams b) of
        None \<Rightarrow> (b, Some TERMINAL_ENDED)
      | Some relay \<Rightarrow>
          if cs_finished relay then (b\<lparr>br_streams := tbl_delete cs_stream stream (br_streams b)\<rparr>, Some TERMINAL_ENDED)
          else
            (case App_terminal_input co (br_app b) (cs_invocation relay) input of
               (app, Inr _) \<Rightarrow> (b\<lparr>br_app := app\<rparr>, None)
             | (app, Inl e) \<Rightarrow> (b\<lparr>br_app := app\<rparr>, Some (fst (refusal describe e)))))"

fun end_streams :: "ControlStream list \<Rightarrow> Bridge \<Rightarrow> Bridge option" where
  "end_streams [] b = Some b"
| "end_streams (s # rest) b =
     Option.bind (Bridge_send (abort_task b s) (RelayFrame (cs_stream s) (FrameEnded SourceDisallowsControl))) (end_streams rest)"

definition disallow :: "Bridge \<Rightarrow> Bridge option" where
  "disallow b = end_streams (br_streams b) (b\<lparr>br_streams := []\<rparr>)"

text \<open>
  \<open>handle\<close>, with what \<open>enabled\<close> says now. The flag is false when the channel has to close; \<open>None\<close> waits
  for room in the queue.
\<close>

definition Bridge_handle ::
    "(StorageError \<Rightarrow> string) \<Rightarrow> AppConfig \<Rightarrow> (string \<Rightarrow> InvocationId option) \<Rightarrow> bool \<Rightarrow> Bridge \<Rightarrow> RelayRequest \<Rightarrow> (Bridge \<times> bool) option" where
  "Bridge_handle describe co parse enabled b request =
     (case request of
        RelayOpen req stream invocation_id \<Rightarrow>
          if \<not> enabled then
            Option.bind (Bridge_send b (RelayError req SOURCE_DISALLOWS_CONTROL ''the hub sink does not set control'')) (\<lambda>b1.
              map_option (\<lambda>b2. (b2, False)) (disallow b1))
          else map_option (\<lambda>b1. (b1, True)) (Bridge_open describe co parse b req stream invocation_id)
      | RelayInput req stream input \<Rightarrow>
          if \<not> enabled then
            Option.bind (Bridge_send b (RelayInputResult req (Some SOURCE_DISALLOWS_CONTROL))) (\<lambda>b1.
              map_option (\<lambda>b2. (b2, False)) (disallow b1))
          else
            (case Bridge_input describe co b stream input of
               (b1, code) \<Rightarrow> map_option (\<lambda>b2. (b2, True)) (Bridge_send b1 (RelayInputResult req code)))
      | RelayClose stream \<Rightarrow>
          (case tbl_lookup cs_stream stream (br_streams b) of
             None \<Rightarrow> Some (b, True)
           | Some relay \<Rightarrow> Some (abort_task (b\<lparr>br_streams := tbl_delete cs_stream stream (br_streams b)\<rparr>) relay, True))
      | RelayResync stream \<Rightarrow>
          (case tbl_lookup cs_stream stream (br_streams b) of
             None \<Rightarrow> Some (b, True)
           | Some relay \<Rightarrow>
               Some (if cs_finished relay then b
                     else b\<lparr>br_streams := tbl_put cs_stream (relay\<lparr>cs_resync := True\<rparr>) (br_streams b)\<rparr>, True)))"

definition Bridge_drop :: "Bridge \<Rightarrow> Bridge" where
  "Bridge_drop b = fold (\<lambda>s b. abort_task b s) (br_streams b) (b\<lparr>br_streams := []\<rparr>)"

section \<open>Forwarding one stream\<close>

text \<open>The steps of \<open>forward\<close>: take the next frame of the watcher, send the frame taken, resynchronise.\<close>

definition forward_take :: "Bridge \<Rightarrow> ControlStream \<Rightarrow> Bridge" where
  "forward_take b s =
     (let tm = app_terminals (br_app b)
      in if cs_finished s \<or> cs_held s \<noteq> None then b
         else case tbl_lookup wt_id (cs_watcher s) (tm_watchers tm) of
                None \<Rightarrow> b
              | Some w \<Rightarrow>
                  (case tbl_lookup tn_id (wt_session w) (tm_objects tm) of
                     None \<Rightarrow> b
                   | Some session \<Rightarrow>
                       (case next_frame (tn_frames session) w of
                          (w', n, frame) \<Rightarrow>
                            let tm1 = tm\<lparr>tm_watchers := tbl_put wt_id w' (tm_watchers tm),
                                  tm_requests := tm_requests tm @ replicate n (wt_session w)\<rparr>
                            in if frame = None \<and> wt_done w'
                               then b\<lparr>br_app := (br_app b)\<lparr>app_terminals := leave tm1 (cs_watcher s)\<rparr>,
                                      br_streams := tbl_put cs_stream (s\<lparr>cs_finished := True\<rparr>) (br_streams b)\<rparr>
                               else b\<lparr>br_app := (br_app b)\<lparr>app_terminals := tm1\<rparr>,
                                      br_streams := tbl_put cs_stream (s\<lparr>cs_held := frame\<rparr>) (br_streams b)\<rparr>)))"

definition forward_send :: "Bridge \<Rightarrow> ControlStream \<Rightarrow> Bridge option" where
  "forward_send b s =
     (case cs_held s of
        None \<Rightarrow> Some b
      | Some frame \<Rightarrow>
          map_option (\<lambda>b1.
            if is_ended frame
            then (abort_task b1 s)\<lparr>br_streams := tbl_put cs_stream (s\<lparr>cs_held := None, cs_finished := True\<rparr>) (br_streams b1)\<rparr>
            else b1\<lparr>br_streams := tbl_put cs_stream (s\<lparr>cs_held := None\<rparr>) (br_streams b1)\<rparr>)
            (Bridge_send b (RelayFrame (cs_stream s) frame)))"

definition forward_resync :: "Bridge \<Rightarrow> ControlStream \<Rightarrow> Bridge" where
  "forward_resync b s =
     (if cs_finished s \<or> cs_held s \<noteq> None \<or> \<not> cs_resync s then b
      else case tbl_lookup wt_id (cs_watcher s) (tm_watchers (app_terminals (br_app b))) of
             None \<Rightarrow> b
           | Some w \<Rightarrow> b\<lparr>br_app := (br_app b)\<lparr>app_terminals := Watcher_resync (app_terminals (br_app b)) w\<rparr>,
                br_streams := tbl_put cs_stream (s\<lparr>cs_resync := False\<rparr>) (br_streams b)\<rparr>)"

section \<open>Serving an open channel\<close>

text \<open>
  The state of \<open>serve\<close>: the bridge, what was written to the hub, and how the loop ended. The loop is
  the only reader of the queue, so a request that waits for room waits for good.
\<close>

record Serving =
  sv_bridge :: Bridge
  sv_hub :: "RelayMessage list"
  sv_ended :: "(string + unit) option"

datatype ServeEvent = OutboundReady | HubText "RelayRequest option" | HubCloses "string option" | HubOther | HubFails string

definition serve_start :: "string \<Rightarrow> App \<Rightarrow> Serving" where
  "serve_start source_id app = \<lparr>sv_bridge = Bridge_new app, sv_hub = [RelayHello source_id RELAY_PROTOCOL_VERSION], sv_ended = None\<rparr>"

definition serve_turn ::
    "(StorageError \<Rightarrow> string) \<Rightarrow> AppConfig \<Rightarrow> (string \<Rightarrow> InvocationId option) \<Rightarrow> bool \<Rightarrow> Serving \<Rightarrow> ServeEvent \<Rightarrow> Serving option" where
  "serve_turn describe co parse enabled v event =
     (let b = sv_bridge v
      in case event of
           OutboundReady \<Rightarrow>
             (case br_out b of
                [] \<Rightarrow> Some v
              | m # rest \<Rightarrow> Some (v\<lparr>sv_bridge := b\<lparr>br_out := rest\<rparr>, sv_hub := sv_hub v @ [m]\<rparr>))
         | HubText None \<Rightarrow> Some v
         | HubText (Some request) \<Rightarrow>
             map_option (\<lambda>(b1, goes_on).
               if goes_on then v\<lparr>sv_bridge := b1\<rparr>
               else v\<lparr>sv_bridge := (Bridge_drop b1)\<lparr>br_out := []\<rparr>, sv_hub := sv_hub v @ br_out b1, sv_ended := Some (Inr ())\<rparr>)
               (Bridge_handle describe co parse enabled b request)
         | HubCloses (Some why) \<Rightarrow>
             Some (v\<lparr>sv_bridge := Bridge_drop b,
                sv_ended := Some (Inl (if why \<noteq> [] then ''hub closed the channel: '' @ why else ''hub closed the channel''))\<rparr>)
         | HubCloses None \<Rightarrow> Some (v\<lparr>sv_bridge := Bridge_drop b, sv_ended := Some (Inl ''hub closed the channel'')\<rparr>)
         | HubOther \<Rightarrow> Some v
         | HubFails e \<Rightarrow> Some (v\<lparr>sv_bridge := Bridge_drop b, sv_ended := Some (Inl e)\<rparr>))"

end
