(* ===== verification/Broker_Updates.thy ===== *)
theory Broker_Updates
  imports Broker
begin

text \<open>
  What the broker's methods hand to the channel: the updates of an operation are exactly the change of
  the views it commits, numbered above every revision before it.
\<close>

section \<open>Updates as a change of the views\<close>

definition shown :: "AppliedUpdate list \<Rightarrow> InvocationId \<Rightarrow> PublicAgentView option" where
  "shown us = map_of (rev (map (\<lambda>u. (pv_invocation_id (au_view u), au_view u)) us))"

lemma shown_append: "shown (us @ vs) = shown us ++ shown vs"
  by (simp add: shown_def)

lemma shown_simps [simp]:
  "shown [] = Map.empty" "shown [u] = [pv_invocation_id (au_view u) \<mapsto> au_view u]"
  by (simp_all add: shown_def)

definition option_list :: "'a option \<Rightarrow> 'a list" where
  "option_list x = (case x of None \<Rightarrow> [] | Some y \<Rightarrow> [y])"

lemma option_list_simps [simp]: "option_list None = []" "option_list (Some x) = [x]"
  by (simp_all add: option_list_def)

text \<open>An operation takes a store to another and announces \<open>us\<close>.\<close>

definition advances :: "Db \<Rightarrow> AppliedUpdate list \<Rightarrow> Db \<Rightarrow> bool" where
  "advances db us db' \<longleftrightarrow> wf_db db' \<and> db_revision db \<le> db_revision db' \<and> sorted (map au_revision us)
     \<and> (\<forall>u\<in>set us. db_revision db < au_revision u \<and> au_revision u \<le> db_revision db')
     \<and> view_of db' = view_of db ++ shown us"

lemma advances_refl: "wf_db db \<Longrightarrow> advances db [] db"
  by (simp add: advances_def)

lemma advances_trans: "advances a us b \<Longrightarrow> advances b vs c \<Longrightarrow> advances a (us @ vs) c"
  by (fastforce simp: advances_def sorted_append shown_append)

lemma advances_wf: "advances db us db' \<Longrightarrow> wf_db db'"
  by (simp add: advances_def)

lemma advances_same_views:
  assumes "wf_db db'" "db_invocations db' = db_invocations db" "db_reasons db' = db_reasons db"
    "db_revision db' = db_revision db"
  shows "advances db [] db'"
proof -
  have "view_of db' = view_of db" using assms(2,3) by (intro ext view_of_eqI) (simp_all add: invocation_def)
  with assms show ?thesis by (simp add: advances_def)
qed

text \<open>The shape of every single operation: one invocation's view changes.\<close>

lemma one_update_advances:
  assumes "wf_db db'" "view_of db i = Some v" "view_of db' i = Some w" "db_revision db' = db_revision db + 1"
    "\<And>j. j \<noteq> i \<Longrightarrow> view_of db' j = view_of db j"
    "u = update_of delivery i (db_revision db') (Some v) (Some w)"
  shows "advances db (option_list u) db'"
proof -
  have id: "pv_invocation_id w = i" using view_of_id [OF assms(1,3)] .
  have other: "view_of db' = (view_of db)(i \<mapsto> w)" using assms(3,5) by (intro ext) auto
  show ?thesis
  proof (cases "v = w")
    case True
    then have "view_of db' = view_of db" using other assms(2) by (simp add: fun_upd_idem)
    with True assms show ?thesis by (simp add: advances_def update_of_def)
  next
    case False
    with assms id other show ?thesis by (simp add: advances_def update_of_def)
  qed
qed

section \<open>Operations of the store\<close>

context transition_contract
begin

lemma transition_advances:
  assumes wf: "wf_db db" and ok: "transition cd db i ec delivery publish now wall f = Inr (db', c)"
  shows "advances db (option_list (Option.bind c cm_update)) db'"
proof (cases c)
  case None
  have "db' = db" using ok None apply_transition_None by (auto simp: transition_Inr)
  with None wf show ?thesis by (simp add: advances_refl)
next
  case (Some x)
  then have tr: "apply_transition cd db i ec delivery publish now wall f = Inr (db', Some x)"
    using ok by (auto simp: transition_Inr)
  note wf' = transition_keeps_wf [OF wf ok]
  show ?thesis
    by (rule transition_views [OF wf tr]) (use wf' Some in \<open>auto intro: one_update_advances\<close>)
qed

end

lemma mutate_advances:
  assumes "transition_contract (\<lambda>prior. Inr (Some (local_mutation prior c f)))" and "wf_db db"
    and "mutate_authenticated cd db i cred c f label publish wall = Inr (db', u)"
  shows "advances db (option_list u) db'"
  using assms(3) transition_contract.transition_advances [OF assms(1,2)]
  by (auto simp: mutate_authenticated_def result_bind_Inr)

lemma bind_child_advances:
  "wf_db db \<Longrightarrow> bind_child cd db i cred child_pid start_identity publish wall = Inr (db', u) \<Longrightarrow> advances db (option_list u) db'"
  unfolding bind_child_def by (rule mutate_advances [OF bind.transition_contract_axioms])

lemma mark_exit_advances:
  "wf_db db \<Longrightarrow> mark_exit cd db i cred code sig publish wall = Inr (db', u) \<Longrightarrow> advances db (option_list u) db'"
  unfolding mark_exit_def by (rule mutate_advances [OF exit.transition_contract_axioms])

lemma event_advances:
  assumes wf: "wf_db db" and ok: "apply_event_with_context cd db e r publish wall = Inr (db', u)"
  shows "advances db (option_list u) db'"
proof (cases "ev_event_id e \<in> dd_event_id ` set (db_dedup db)")
  case True
  with ok have "db' = db" "u = None" by (auto elim: apply_event_with_context_cases)
  with wf show ?thesis by (simp add: advances_refl)
next
  case False
  show ?thesis
    by (rule event_views [OF wf False ok]) (use event_wf [OF wf ok] in \<open>auto intro: one_update_advances\<close>)
qed

text \<open>Registration announces the projected snapshot with no reason; a new invocation has none.\<close>

lemma register_advances:
  assumes wf: "wf_db db" "wf_snapshot s" and new: "sn_invocation_id s \<notin> ir_invocation_id ` set (db_invocations db)"
    and ok: "register cd db s cred publish wall = Inr (db', n)"
  shows "advances db [\<lparr>au_revision = n, au_delivery_id = d, au_view = project_public (s\<lparr>sn_revision := n\<rparr>) None,
    au_changed = c\<rparr>] db'"
proof -
  note d = register_Inr [OF ok]
  have none: "reason_of (db_reasons db) (sn_invocation_id s) = None"
  proof -
    have "sn_invocation_id s \<notin> rr_invocation_id ` set (db_reasons db)"
      using wf_dbD(3) [OF wf(1)] new by (auto simp: wf_reasons_def)
    then have "tbl_lookup rr_invocation_id (sn_invocation_id s) (db_reasons db) = None"
      by (simp add: tbl_lookup_None_iff)
    then show ?thesis by (simp add: reason_of_def)
  qed
  have "view_of db' j = ((view_of db)(sn_invocation_id s \<mapsto> project_public (s\<lparr>sn_revision := n\<rparr>) None)) j" for j
    using d none by (simp add: view_of_def invocation_def tbl_lookup_put split: sum.splits)
  then have "view_of db' = (view_of db)(sn_invocation_id s \<mapsto> project_public (s\<lparr>sn_revision := n\<rparr>) None)" by blast
  moreover have "pv_invocation_id (project_public (s\<lparr>sn_revision := n\<rparr>) None) = sn_invocation_id s"
    by (simp add: project_public_def)
  ultimately show ?thesis
    using register_wf [OF wf ok] d by (simp add: advances_def)
qed

lemma expire_loop_advances:
  assumes "wf_db db" "expire_loop cd publish now wall db ss us = (db', Inr us')"
  shows "\<exists>vs. us' = us @ vs \<and> advances db vs db'"
  using assms
proof (induction ss arbitrary: db us)
  case (Cons s ss)
  show ?case
  proof (cases "is_stale s now")
    case False
    with Cons show ?thesis by simp
  next
    case True
    with Cons.prems(2) obtain db1 c where
        t: "transition cd db (sn_invocation_id s) None (DeliverySynthetic ''stale_working'') publish now wall
          (\<lambda>prior. Inr (expire_stale_working prior now)) = Inr (db1, c)"
      and rest: "expire_loop cd publish now wall db1 ss
          (case Option.bind c cm_update of None \<Rightarrow> us | Some u \<Rightarrow> us @ [u]) = (db', Inr us')"
      by (auto simp: commit_def split: sum.splits prod.splits)
    have a: "advances db (option_list (Option.bind c cm_update)) db1"
      by (rule expire.transition_advances [OF Cons.prems(1) t])
    from Cons.IH [OF advances_wf [OF a] rest] obtain vs where
      "us' = (case Option.bind c cm_update of None \<Rightarrow> us | Some u \<Rightarrow> us @ [u]) @ vs" "advances db1 vs db'" by blast
    with advances_trans [OF a] show ?thesis by (cases "Option.bind c cm_update") (auto simp del: bind_eq_None_conv)
  qed
qed (simp add: advances_refl)

lemma expire_sweep_advances:
  assumes "wf_db db" "expire_stale_working_at cd db now wall publish = (db', Inr us)"
  shows "advances db us db'"
  using assms expire_loop_advances [of db cd publish now wall _ "[]" db' us]
  by (auto simp: expire_stale_working_at_def split: sum.splits)

section \<open>Methods of the broker\<close>

definition follows :: "App \<Rightarrow> App \<Rightarrow> bool" where
  "follows app app' \<longleftrightarrow> (\<exists>us. app_updates app' = app_updates app @ us \<and> advances (app_store app) us (app_store app'))"

lemma follows_same: "wf_db (app_store app) \<Longrightarrow> app_store app' = app_store app \<Longrightarrow> app_updates app' = app_updates app \<Longrightarrow> follows app app'"
  by (auto simp: follows_def intro: advances_refl)

lemma broadcast_simps [simp]:
  "app_updates (broadcast app u) = app_updates app @ option_list u" "app_store (broadcast app u) = app_store app"
  by (simp_all add: broadcast_def split: option.splits)

lemma broadcast_follows:
  assumes "advances (app_store app) (option_list u) (app_store app1)" "app_updates app1 = app_updates app"
  shows "follows app (broadcast app1 u)"
  using assms by (auto simp: follows_def)

lemma fold_broadcast:
  "app_updates (fold (\<lambda>u app. broadcast app (Some u)) us app) = app_updates app @ us"
  "app_store (fold (\<lambda>u app. broadcast app (Some u)) us app) = app_store app"
  by (induction us arbitrary: app) simp_all

lemma in_store_Inr [simp]: "in_store r = Inr x \<longleftrightarrow> r = Inr x"
  by (cases r) (simp_all add: in_store_def)

text \<open>A snapshot as the wrapper builds it, for an invocation the store does not have.\<close>

definition new_invocation :: "App \<Rightarrow> InvocationSnapshot \<Rightarrow> bool" where
  "new_invocation app s \<longleftrightarrow> wf_snapshot s \<and> sn_invocation_id s \<notin> ir_invocation_id ` set (db_invocations (app_store app))"

lemma register_follows:
  assumes "wf_db (app_store app)" "new_invocation app s" "App_register co app s credential wall = Inr app'"
  shows "follows app app'"
proof -
  let ?s = "\<lambda>p. s\<lparr>sn_capabilities := (sn_capabilities s)\<lparr>cp_terminal_policy := p\<rparr>\<rparr>"
  have wf: "wf_snapshot (?s p)" for p
    using assms(2) by (simp add: new_invocation_def wf_snapshot_def)
  obtain p db n where r: "register (co_codec co) (app_store app) (?s p) credential (Some (co_publish co)) wall = Inr (db, n)"
    and a: "app_store app' = db" "app_updates app' = app_updates app @
      [\<lparr>au_revision = n, au_delivery_id = synthetic_event_id ''register'' (sn_invocation_id s) n,
        au_view = project_public ((?s p)\<lparr>sn_revision := n\<rparr>) None,
        au_changed = changed_public_fields None (project_public ((?s p)\<lparr>sn_revision := n\<rparr>) None)\<rparr>]"
    using assms(3) by (auto simp: App_register_def Let_def result_bind_Inr)
  have new: "sn_invocation_id (?s p) \<notin> ir_invocation_id ` set (db_invocations (app_store app))"
    using assms(2) by (simp add: new_invocation_def)
  show ?thesis unfolding follows_def a(1)
    using a(2) register_advances [OF assms(1) wf new r] by blast
qed

lemma bind_follows:
  assumes wf: "wf_db (app_store app)"
    and ok: "App_bind_child co app i credential child_pid start_identity wall = Inr app'"
  shows "follows app app'"
proof -
  obtain db u where b: "bind_child (co_codec co) (app_store app) i credential child_pid start_identity (Some (co_publish co)) wall
      = Inr (db, u)" "app' = broadcast (app\<lparr>app_store := db\<rparr>) u"
    using ok by (auto simp: App_bind_child_def result_bind_Inr)
  show ?thesis unfolding b(2) using bind_child_advances [OF wf b(1)] by (intro broadcast_follows) simp_all
qed

lemma exit_follows:
  assumes wf: "wf_db (app_store app)" and ok: "lifecycle_exit co app i credential exit_code signal wall = Inr app'"
  shows "follows app app'"
proof -
  obtain db u where b: "mark_exit (co_codec co) (app_store app) i credential exit_code signal (Some (co_publish co)) wall
      = Inr (db, u)"
    "app' = broadcast (app\<lparr>app_store := db, app_terminals := Terminals_end (app_terminals app) i AgentExited\<rparr>) u"
    using ok by (auto simp: lifecycle_exit_def result_bind_Inr)
  show ?thesis unfolding b(2) using mark_exit_advances [OF wf b(1)] by (intro broadcast_follows) simp_all
qed

lemma hook_follows:
  assumes wf: "wf_db (app_store app)"
    and ok: "ingest_hook co app provider i credential event status_reason collection wall instant = Inr (app', start)"
  shows "follows app app'"
proof -
  obtain db u usage where b: "apply_event_with_context (co_codec co) (app_store app) (event\<lparr>ev_received_at := wall\<rparr>) status_reason
      (Some (co_publish co)) wall = Inr (db, u)" "app' = broadcast (app\<lparr>app_store := db, app_usage := usage\<rparr>) u"
    using ok by (cases "schedule (app_usage app) provider i credential collection instant")
      (auto simp: ingest_hook_def result_bind_Inr split: if_splits)
  show ?thesis unfolding b(2) using event_advances [OF wf b(1)] by (intro broadcast_follows) simp_all
qed

lemma enrichment_follows:
  "wf_db (app_store app) \<Longrightarrow> apply_enrichment co app i credential event wall = Inr app' \<Longrightarrow> follows app app'"
  by (auto simp: apply_enrichment_def result_bind_Inr intro!: broadcast_follows event_advances intro: follows_same
      split: if_splits)

lemma sweep_follows:
  assumes "wf_db (app_store app)" "App_expire_stale_working co app now wall = (app', Inr ())"
  shows "follows app app'"
  using assms by (auto simp: App_expire_stale_working_def follows_def fold_broadcast expire_sweep_advances
      split: prod.splits sum.splits)

lemma answered_Inr: "answered app r = (app', x) \<Longrightarrow> app' = app \<or> r = Inr app'"
  by (auto simp: answered_def split: sum.splits)

lemma request_follows:
  assumes wf: "wf_db (app_store app)" and ok: "process co request app wall instant = (app', r)"
    and new: "\<And>s credential. request = ReqRegister s credential \<Longrightarrow> new_invocation app s"
  shows "follows app app'"
proof (cases request)
  case (ReqRegister s credential)
  then show ?thesis
    using ok answered_Inr register_follows [OF wf new] follows_same [OF wf] by (fastforce simp: process_def)
next
  case (ReqBindChild i credential child_pid start_identity)
  then have "app' = app \<or> App_bind_child co app i credential child_pid start_identity wall = Inr app'"
    using ok answered_Inr by (fastforce simp: process_def)
  then show ?thesis using bind_follows [OF wf] follows_same [OF wf] by blast
next
  case (ReqLifecycleExit i credential exit_code signal)
  then have "app' = app \<or> lifecycle_exit co app i credential exit_code signal wall = Inr app'"
    using ok answered_Inr by (fastforce simp: process_def)
  then show ?thesis using exit_follows [OF wf] follows_same [OF wf] by blast
next
  case (ReqHookIngest provider i credential event status_reason collection)
  then have "app' = app \<or> (\<exists>x. ingest_hook co app provider i credential event status_reason collection wall instant = Inr (app', x))"
    using ok answered_Inr
    by (cases "ingest_hook co app provider i credential event status_reason collection wall instant")
      (fastforce simp: process_def)+
  then show ?thesis using hook_follows [OF wf] follows_same [OF wf] by blast
next
  case (ReqTerminalInput i input)
  have "app_store (fst (App_terminal_input co app i input)) = app_store app"
    "app_updates (fst (App_terminal_input co app i input)) = app_updates app"
    by (simp_all add: App_terminal_input_def split: sum.splits prod.splits option.splits)
  with ReqTerminalInput ok show ?thesis
    by (auto simp: process_def split: prod.splits intro!: follows_same [OF wf])
qed (use ok follows_same [OF wf] in \<open>auto simp: process_def\<close>)

end
