(* ===== verification/Broker_Props.thy ===== *)
theory Broker_Props
  imports Broker_Updates Storage_Props Adapters_Props
begin

text \<open>
  What the broker promises at its socket: a listener that has read the channel holds exactly the views
  of the store, input reaches a pane only past every guard, and only the credential of an invocation
  reports its hooks.
\<close>

section \<open>A listener and its broker\<close>

text \<open>
  A run of the broker with one listening client. An update is committed and handed over in one step
  and sent on the channel in a later one, so that a client may subscribe between the two. The client
  keeps a copy: a snapshot replaces it, an update replaces one entry.
\<close>

record Listening =
  li_app :: App
  li_sent :: nat
  li_listener :: "Listener option"
  li_copy :: "InvocationId \<Rightarrow> PublicAgentView option"

abbreviation sent_updates :: "Listening \<Rightarrow> AppliedUpdate list" where
  "sent_updates l \<equiv> take (li_sent l) (app_updates (li_app l))"

definition receive :: "StreamEnvelope \<Rightarrow> (InvocationId \<Rightarrow> PublicAgentView option) \<Rightarrow> InvocationId \<Rightarrow> PublicAgentView option" where
  "receive envelope copy =
     (case envelope of
        StreamSnapshot _ _ views \<Rightarrow> (\<lambda>i. tbl_lookup pv_invocation_id i views)
      | StreamUpdate _ _ _ _ view \<Rightarrow> copy(pv_invocation_id view \<mapsto> view))"

inductive listening_step :: "AppConfig \<Rightarrow> nat \<Rightarrow> Listening \<Rightarrow> Listening \<Rightarrow> bool" for co capacity where
  listening_request: "process co request (li_app l) wall instant = (app, r) \<Longrightarrow>
    (\<And>s credential. request = ReqRegister s credential \<Longrightarrow> new_invocation (li_app l) s) \<Longrightarrow>
    listening_step co capacity l (l\<lparr>li_app := app\<rparr>)"
| listening_enrichment: "apply_enrichment co (li_app l) i credential event wall = Inr app \<Longrightarrow>
    listening_step co capacity l (l\<lparr>li_app := app\<rparr>)"
| listening_sweep: "App_expire_stale_working co (li_app l) now wall = (app, Inr ()) \<Longrightarrow>
    listening_step co capacity l (l\<lparr>li_app := app\<rparr>)"
| listening_delivery: "db \<in> {acknowledge (app_store (li_app l)) sink event, retry (app_store (li_app l)) sink event attempts wall,
      hub_snapshot_delivered (app_store (li_app l)) sink n, fst (hub_snapshot_due (app_store (li_app l)) sink)} \<Longrightarrow>
    listening_step co capacity l (l\<lparr>li_app := (li_app l)\<lparr>app_store := db\<rparr>\<rparr>)"
| listening_task: "listening_step co capacity l
    (l\<lparr>li_app := (li_app l)\<lparr>app_terminals := terminals, app_usage := usage\<rparr>\<rparr>)"
| listening_send: "li_sent l < length (app_updates (li_app l)) \<Longrightarrow>
    listening_step co capacity l (l\<lparr>li_sent := li_sent l + 1\<rparr>)"
| listening_subscribe: "App_subscribe (sent_updates l) (li_app l) = Inr (x, envelope) \<Longrightarrow>
    listening_step co capacity l (l\<lparr>li_listener := Some x, li_copy := receive envelope (li_copy l)\<rparr>)"
| listening_turn: "li_listener l = Some x \<Longrightarrow> listen_turn capacity (sent_updates l) (li_app l) x = Some (Inr (x', envelopes)) \<Longrightarrow>
    listening_step co capacity l (l\<lparr>li_listener := Some x', li_copy := fold receive envelopes (li_copy l)\<rparr>)"

definition listening_start :: "App \<Rightarrow> Listening" where
  "listening_start app = \<lparr>li_app = app, li_sent = 0, li_listener = None, li_copy = Map.empty\<rparr>"

text \<open>What is still to come to a listener: the unread updates it will not skip.\<close>

definition unread :: "Listener \<Rightarrow> AppliedUpdate list \<Rightarrow> AppliedUpdate list" where
  "unread x us = filter (\<lambda>u. ls_since x < au_revision u) (drop (ls_position x) us)"

definition app_inv :: "App \<Rightarrow> bool" where
  "app_inv app \<longleftrightarrow> wf_db (app_store app) \<and> sorted (map au_revision (app_updates app))
     \<and> (\<forall>u\<in>set (app_updates app). au_revision u \<le> db_revision (app_store app))
     \<and> (\<forall>k. view_of (app_store app) ++ shown (drop k (app_updates app)) = view_of (app_store app))"

definition listening_inv :: "Listening \<Rightarrow> bool" where
  "listening_inv l \<longleftrightarrow> app_inv (li_app l) \<and> li_sent l \<le> length (app_updates (li_app l))
     \<and> (\<forall>x. li_listener l = Some x \<longrightarrow> ls_position x \<le> li_sent l \<and> ls_since x \<le> db_revision (app_store (li_app l))
          \<and> li_copy l ++ shown (unread x (app_updates (li_app l))) = view_of (app_store (li_app l)))"

lemma map_add_absorb:
  assumes "V ++ X = V"
  shows "V ++ U ++ (X ++ U) = V ++ U"
proof (rule ext)
  fix i
  have "(V ++ X) i = V i" using assms by simp
  then show "(V ++ U ++ (X ++ U)) i = (V ++ U) i" by (auto simp: map_add_def split: option.splits)
qed

lemma shown_suffix: "shown us ++ shown (drop k us) = shown us"
proof -
  have "shown us = shown (take k us) ++ shown (drop k us)" by (simp flip: shown_append)
  then show ?thesis by (metis map_add_assoc map_add_subsumed2 map_add_subsumed1 map_le_refl)
qed

lemma app_inv_follows:
  assumes inv: "app_inv app" and f: "follows app app'"
  shows "app_inv app'"
proof -
  obtain us where u: "app_updates app' = app_updates app @ us" and a: "advances (app_store app) us (app_store app')"
    using f by (auto simp: follows_def)
  have v: "view_of (app_store app') = view_of (app_store app) ++ shown us" using a by (simp add: advances_def)
  have "view_of (app_store app') ++ shown (drop k (app_updates app')) = view_of (app_store app')" for k
  proof -
    have "view_of (app_store app) ++ shown us ++ (shown (drop k (app_updates app)) ++ shown us)
        = view_of (app_store app) ++ shown us"
      using inv by (intro map_add_absorb) (simp add: app_inv_def)
    then show ?thesis
      using shown_suffix [of us "k - length (app_updates app)"] unfolding v u
      by (cases "k \<le> length (app_updates app)") (simp_all add: shown_append flip: map_add_assoc)
  qed
  with inv a u show ?thesis
    by (fastforce simp: app_inv_def advances_def sorted_append)
qed

lemma unread_append:
  assumes "ls_position x \<le> length us" "\<And>u. u \<in> set vs \<Longrightarrow> ls_since x < au_revision u"
  shows "unread x (us @ vs) = unread x us @ vs"
  using assms by (simp add: unread_def filter_id_conv)

lemma follows_listening:
  assumes inv: "listening_inv l" and f: "follows (li_app l) app"
  shows "listening_inv (l\<lparr>li_app := app\<rparr>)"
proof -
  obtain us where u: "app_updates app = app_updates (li_app l) @ us"
    and a: "advances (app_store (li_app l)) us (app_store app)"
    using f by (auto simp: follows_def)
  have "li_copy l ++ shown (unread x (app_updates app)) = view_of (app_store app)" if "li_listener l = Some x" for x
  proof -
    have x: "ls_position x \<le> length (app_updates (li_app l))" "ls_since x \<le> db_revision (app_store (li_app l))"
      "li_copy l ++ shown (unread x (app_updates (li_app l))) = view_of (app_store (li_app l))"
      using inv that by (auto simp: listening_inv_def)
    have "unread x (app_updates app) = unread x (app_updates (li_app l)) @ us"
      unfolding u using x a by (intro unread_append) (auto simp: advances_def)
    then show ?thesis using a x(3) by (simp add: advances_def shown_append)
  qed
  moreover have "app_inv app" using app_inv_follows [OF _ f] inv by (simp add: listening_inv_def)
  ultimately show ?thesis
    using inv a u by (auto simp: listening_inv_def advances_def)
qed

text \<open>The updates a listener does not skip are the end of the channel.\<close>

lemma filter_sorted_drop:
  fixes s :: nat
  shows "sorted (map f xs) \<Longrightarrow> \<exists>k. filter (\<lambda>x. s < f x) xs = drop k xs"
proof (induction xs)
  case (Cons a xs)
  show ?case
  proof (cases "s < f a")
    case True
    then have "filter (\<lambda>x. s < f x) (a # xs) = drop 0 (a # xs)" using Cons.prems by (auto simp: filter_id_conv)
    then show ?thesis by blast
  next
    case False
    obtain k where "filter (\<lambda>x. s < f x) xs = drop k xs" using Cons by auto
    with False have "filter (\<lambda>x. s < f x) (a # xs) = drop (Suc k) (a # xs)" by simp
    then show ?thesis by blast
  qed
qed simp

lemma current_copy:
  assumes "app_inv app"
  shows "view_of (app_store app) ++ shown (unread x (app_updates app)) = view_of (app_store app)"
proof -
  have "sorted (map au_revision (drop (ls_position x) (app_updates app)))"
    using assms by (simp add: app_inv_def drop_map [symmetric] sorted_wrt_drop)
  from filter_sorted_drop [OF this, of "ls_since x"] obtain k where
    "unread x (app_updates app) = drop (k + ls_position x) (app_updates app)" by (auto simp: unread_def)
  with assms show ?thesis by (simp add: app_inv_def)
qed

lemma status_views:
  assumes "wf_db (app_store app)"
  obtains vs where "App_status app = Inr (db_revision (app_store app), vs)"
    "(\<lambda>i. tbl_lookup pv_invocation_id i vs) = view_of (app_store app)"
proof (rule public_snapshot_views [OF assms], goal_cases)
  case (1 vs)
  show ?thesis by (rule that [of vs]) (use 1 in \<open>auto simp: App_status_def in_store_def\<close>)
qed

lemma subscribe_listening:
  assumes inv: "listening_inv l" and ok: "App_subscribe (sent_updates l) (li_app l) = Inr (x, envelope)"
  shows "listening_inv (l\<lparr>li_listener := Some x, li_copy := receive envelope (li_copy l)\<rparr>)"
proof -
  have app: "app_inv (li_app l)" "li_sent l \<le> length (app_updates (li_app l))" "wf_db (app_store (li_app l))"
    using inv by (auto simp: listening_inv_def app_inv_def)
  obtain vs where "App_status (li_app l) = Inr (db_revision (app_store (li_app l)), vs)"
    "(\<lambda>i. tbl_lookup pv_invocation_id i vs) = view_of (app_store (li_app l))"
    using status_views [OF app(3)] by blast
  then have "ls_position x = li_sent l" "ls_since x = db_revision (app_store (li_app l))"
    "receive envelope (li_copy l) = view_of (app_store (li_app l))"
    using ok app(2) by (auto simp: App_subscribe_def receive_def min_def)
  with app current_copy [OF app(1), of x] show ?thesis by (simp add: listening_inv_def)
qed

lemma unread_step:
  assumes "ls_position x < length us"
  shows "unread x us = (if ls_since x < au_revision (us ! ls_position x) then [us ! ls_position x] else [])
    @ unread (x\<lparr>ls_position := ls_position x + 1\<rparr>) us"
  using assms by (simp add: unread_def Cons_nth_drop_Suc [symmetric])

lemma turn_cases:
  assumes "listen_turn capacity channel app x = Some r" and wf: "wf_db (app_store app)"
  obtains (lagged) vs where "ls_position x < length channel" "r = Inr (x\<lparr>ls_position := length channel - capacity\<rparr>,
        [StreamSnapshot SCHEMA_VERSION (db_revision (app_store app)) vs])"
      "(\<lambda>i. tbl_lookup pv_invocation_id i vs) = view_of (app_store app)"
    | (read) "ls_position x < length channel" "r = Inr (x\<lparr>ls_position := ls_position x + 1\<rparr>,
        let u = channel ! ls_position x in if ls_since x < au_revision u
        then [StreamUpdate SCHEMA_VERSION (au_revision u) (au_delivery_id u) (au_changed u) (au_view u)] else [])"
proof (cases "length channel - ls_position x > capacity")
  case True
  show thesis
  proof (rule status_views [OF wf])
    fix vs
    assume "App_status app = Inr (db_revision (app_store app), vs)"
      "(\<lambda>i. tbl_lookup pv_invocation_id i vs) = view_of (app_store app)"
    with assms(1) True show thesis by (intro lagged [of vs]) (auto simp: listen_turn_def Let_def split: if_splits)
  qed
next
  case False
  with assms(1) show thesis by (intro read) (auto simp: listen_turn_def Let_def split: if_splits)
qed

lemma turn_listening:
  assumes inv: "listening_inv l" and x: "li_listener l = Some x"
    and ok: "listen_turn capacity (sent_updates l) (li_app l) x = Some (Inr (x', envelopes))"
  shows "listening_inv (l\<lparr>li_listener := Some x', li_copy := fold receive envelopes (li_copy l)\<rparr>)"
proof -
  have l: "app_inv (li_app l)" "li_sent l \<le> length (app_updates (li_app l))" "wf_db (app_store (li_app l))"
    "ls_since x \<le> db_revision (app_store (li_app l))"
    "li_copy l ++ shown (unread x (app_updates (li_app l))) = view_of (app_store (li_app l))"
    using inv x by (auto simp: listening_inv_def app_inv_def)
  from ok l(3) show ?thesis
  proof (cases rule: turn_cases)
    case (lagged vs)
    with l current_copy [OF l(1), of x'] show ?thesis by (auto simp: listening_inv_def receive_def)
  next
    case read
    let ?u = "app_updates (li_app l) ! ls_position x"
    have p: "ls_position x < length (app_updates (li_app l))" "sent_updates l ! ls_position x = ?u"
      using read(1) by auto
    have copy: "fold receive envelopes (li_copy l) = li_copy l ++ shown (if ls_since x < au_revision ?u then [?u] else [])"
      using read p(2) by (auto simp: receive_def Let_def)
    have "fold receive envelopes (li_copy l) ++ shown (unread x' (app_updates (li_app l))) = view_of (app_store (li_app l))"
      unfolding copy using l(5) unread_step [OF p(1)] read(2) by (simp add: shown_append)
    with l read show ?thesis by (simp add: listening_inv_def)
  qed
qed

lemma delivery_follows:
  assumes wf: "wf_db (app_store app)"
    and db: "db \<in> {acknowledge (app_store app) sink event, retry (app_store app) sink event attempts wall,
      hub_snapshot_delivered (app_store app) sink n, fst (hub_snapshot_due (app_store app) sink)}"
  shows "follows app (app\<lparr>app_store := db\<rparr>)"
proof -
  have "wf_db db"
    using db wf hub_snapshot_due_wf [OF wf, of sink] retry_wf [OF wf]
      broker_step_wf [OF step_acknowledge wf] broker_step_wf [OF step_delivered wf]
    by (cases "hub_snapshot_due (app_store app) sink") auto
  moreover have "db_invocations db = db_invocations (app_store app)" "db_reasons db = db_reasons (app_store app)"
    "db_revision db = db_revision (app_store app)"
    using db by (auto simp: acknowledge_def retry_def hub_snapshot_delivered_def hub_snapshot_due_def split: option.splits)
  ultimately have "advances (app_store app) [] db" by (rule advances_same_views)
  then show ?thesis by (auto simp: follows_def)
qed

lemma listening_step_inv: "listening_step co capacity l l' \<Longrightarrow> listening_inv l \<Longrightarrow> listening_inv l'"
proof (induction rule: listening_step.induct)
  case (listening_request request l wall instant app r)
  then have "follows (li_app l) app"
    using request_follows [of "li_app l" co request wall instant app r] by (auto simp: listening_inv_def app_inv_def)
  with listening_request.prems show ?case by (rule follows_listening)
next
  case (listening_enrichment l i credential event wall app)
  then have "follows (li_app l) app" by (auto simp: listening_inv_def app_inv_def intro: enrichment_follows)
  with listening_enrichment.prems show ?case by (rule follows_listening)
next
  case (listening_sweep l now wall app)
  then have "follows (li_app l) app" by (auto simp: listening_inv_def app_inv_def intro: sweep_follows)
  with listening_sweep.prems show ?case by (rule follows_listening)
next
  case (listening_delivery db l sink event attempts wall n)
  then have "follows (li_app l) ((li_app l)\<lparr>app_store := db\<rparr>)"
    by (intro delivery_follows) (auto simp: listening_inv_def app_inv_def)
  with listening_delivery.prems show ?case by (rule follows_listening)
next
  case (listening_task l terminals usage)
  then show ?case by (simp add: listening_inv_def app_inv_def)
next
  case (listening_send l)
  then show ?case by (fastforce simp: listening_inv_def)
qed (auto intro: subscribe_listening turn_listening)

lemma listening_run_inv: "(listening_step co capacity)\<^sup>*\<^sup>* l l' \<Longrightarrow> listening_inv l \<Longrightarrow> listening_inv l'"
  by (induction rule: rtranclp_induct) (auto intro: listening_step_inv)

lemma listening_start_inv: "wf_db (app_store app) \<Longrightarrow> app_updates app = [] \<Longrightarrow> listening_inv (listening_start app)"
  by (simp add: listening_start_def listening_inv_def app_inv_def)

section \<open>Credentials\<close>

definition holds_credential :: "App \<Rightarrow> InvocationId \<Rightarrow> string \<Rightarrow> bool" where
  "holds_credential app i credential \<longleftrightarrow>
     is_some_and (\<lambda>row. ir_credential row = credential) (tbl_lookup ir_invocation_id i (db_invocations (app_store app)))"

definition acts_unauthorized :: "App \<Rightarrow> Request \<Rightarrow> bool" where
  "acts_unauthorized app request =
     (case request of
        ReqBindChild i credential _ _ \<Rightarrow> \<not> holds_credential app i credential
      | ReqLifecycleExit i credential _ _ \<Rightarrow> \<not> holds_credential app i credential
      | ReqHookIngest provider i credential event _ _ \<Rightarrow>
          \<not> holds_credential app i credential \<or> ev_invocation_id event \<noteq> i \<or> ev_provider event \<noteq> provider
      | _ \<Rightarrow> False)"

lemma refused_mutation:
  assumes "\<not> holds_credential app i credential"
  shows "\<exists>e. mutate_authenticated cd (app_store app) i credential c f label publish wall = Inl e"
  using assms
  by (cases "tbl_lookup ir_invocation_id i (db_invocations (app_store app))")
    (auto simp: holds_credential_def is_some_and_def mutate_authenticated_def transition_def apply_transition_def constant_time_eq_iff)

lemma refused_answer: "\<exists>e. r = Inl e \<Longrightarrow> \<exists>e. answered app (result_bind (in_store r) k) = (app, Inl e)"
  by (auto simp: answered_def in_store_def)

lemma refused_credential:
  "\<not> holds_credential app i credential \<Longrightarrow> \<not> credential_matches (app_store app) i provider credential"
  by (auto simp: holds_credential_def credential_matches_def is_some_and_def constant_time_eq_iff split: option.splits)

section \<open>Panes\<close>

lemma guard_None:
  "guard identity_of agent state = None \<longleftrightarrow> pn_foreground_pgid state = Some (ap_child_pid agent) \<and> \<not> pn_in_mode state
     \<and> is_none_or (\<lambda>expected. identity_of (ap_child_pid agent) = Some expected) (ap_start_identity agent)"
  by (auto simp: guard_def Let_def)

lemma terminal_targetE:
  assumes "terminal_target co app i = Inr (metadata, agent, mux)"
  obtains s where "invocation (app_store app) i = Inr s" "terminal_live s" "\<not> has_ended (app_terminals app) i"
    "sn_multiplexer s = Some metadata" "pc_child_pid (sn_process s) = Some (ap_child_pid agent)"
    "ap_start_identity agent = pc_start_identity (sn_process s)" "co_multiplexers co (mx_backend metadata) = Some mux"
  using assms by (auto simp: terminal_target_def split: sum.splits if_splits option.splits bool.splits)

lemma broadcast_written [simp]: "app_written (broadcast app u) = app_written app"
  by (simp add: broadcast_def split: option.splits)

lemma answered_written:
  "answered app r = (app', x) \<Longrightarrow> (\<And>a. r = Inr a \<Longrightarrow> app_written a = app_written app) \<Longrightarrow> app_written app' = app_written app"
  by (auto simp: answered_def split: sum.splits)

text \<open>Every other request leaves the panes alone.\<close>

lemma request_writes:
  assumes ok: "process co request app wall instant = (app', r)" and written: "app_written app' \<noteq> app_written app"
  shows "\<exists>i input. request = ReqTerminalInput i input \<and> fst (App_terminal_input co app i input) = app'"
proof (cases request)
  case (ReqRegister s credential)
  then show ?thesis using ok written answered_written
    by (force simp: process_def App_register_def Let_def result_bind_Inr)
next
  case (ReqBindChild i credential child_pid start_identity)
  then show ?thesis using ok written answered_written
    by (force simp: process_def App_bind_child_def result_bind_Inr)
next
  case (ReqLifecycleExit i credential exit_code signal)
  then show ?thesis using ok written answered_written
    by (force simp: process_def lifecycle_exit_def result_bind_Inr)
next
  case (ReqHookIngest provider i credential event status_reason collection)
  have "app_written a = app_written app"
    if "ingest_hook co app provider i credential event status_reason collection wall instant = Inr (a, x)" for a x
    using that by (cases "schedule (app_usage app) provider i credential collection instant")
      (auto simp: ingest_hook_def result_bind_Inr split: if_splits)
  with ReqHookIngest show ?thesis using ok written answered_written
    by (cases "ingest_hook co app provider i credential event status_reason collection wall instant")
      (force simp: process_def)+
next
  case (ReqTerminalInput i input)
  then show ?thesis using ok by (auto simp: process_def split: prod.splits)
qed (use ok written in \<open>auto simp: process_def\<close>)

section \<open>Samples\<close>

definition sample_target :: MultiplexerMetadata where
  "sample_target = \<lparr>mx_backend = Tmux, mx_socket = ''/tmp/tmux'', mx_server_pid = None, mx_session_id = None,
     mx_session_name = None, mx_window_id = None, mx_window_index = None, mx_pane_id = ''%1'', mx_pane_tty = None,
     mx_pane_pid = None\<rparr>"

definition sample_mux :: Mux where
  "sample_mux = \<lparr>mu_capture = (\<lambda>_ _. Inr ''$''), mu_open_stream = (\<lambda>_ _. Inr ()), mu_request_snapshot = (\<lambda>_. Inr ()),
     mu_pane_state = (\<lambda>_ pid. Inr \<lparr>pn_foreground_pgid = Some pid, pn_in_mode = False\<rparr>), mu_send = (\<lambda>_ _ _. Inr ())\<rparr>"

definition sample_broker :: AppConfig where
  "sample_broker = \<lparr>co_codec = sample_codec, co_platform = sample_platform,
     co_publish = \<lparr>pb_sinks = [], pb_source_id = ''laptop'', pb_source_name = None\<rparr>,
     co_registry = AdapterRegistry_new [], co_multiplexers = (\<lambda>_. Some sample_mux), co_identity = (\<lambda>_. Some ''boot:11'')\<rparr>"

abbreviation sample_app :: "Db \<Rightarrow> App" where
  "sample_app db \<equiv> App_new sample_broker db DaemonConfig_default"

definition sample_live_app :: App where
  "sample_live_app = sample_app (Db_empty\<lparr>db_invocations := [snapshot_row (sample_snapshot\<lparr>sn_multiplexer := Some sample_target,
     sn_capabilities := sample_capabilities\<lparr>cp_terminal := True\<rparr>\<rparr>) ''secret'']\<rparr>)"

lemma sample_registered:
  obtains app u where "process sample_broker (ReqRegister sample_snapshot ''secret'') (sample_app Db_empty) 0 0 = (app, Inr RespOk)"
    "app_updates app = [u]" "au_revision u = 1"
  by (simp add: process_def App_register_def answered_def register_def next_revision_def persist_snapshot_def Db_empty_def
      enqueue_transition_def sample_snapshot_def fits_integer_def Let_def App_new_def sample_broker_def in_store_def
      result_bind_def broadcast_def)

section \<open>Results of collections\<close>

text \<open>
  The id of a collection's event names the invocation and the generation of its session's count, not
  the session. Both start again for another session of the invocation and with the daemon, so the
  result of a later collection with a used generation is answered as applied and dropped.
\<close>

lemma reused_generation_dropped:
  assumes "ev_event_id (enrichment_event key generation enrichment i now) \<in> dd_event_id ` set (db_dedup (app_store app))"
    and "apply_enrichment co app i credential (enrichment_event key' generation enrichment' i now') wall = Inr app'"
  shows "app' = app"
proof -
  have "ev_event_id (enrichment_event key' generation enrichment' i now') = ev_event_id (enrichment_event key generation enrichment i now)"
    by (simp add: enrichment_event_def)
  then have "apply_event_with_context cd (app_store app) (enrichment_event key' generation enrichment' i now') r publish wall = Inr (db, u)
      \<Longrightarrow> db = app_store app \<and> u = None" for cd r publish db u
    using assms(1) by (auto elim!: apply_event_with_context_cases)
  with assms(2) show ?thesis
    by (force simp: apply_enrichment_def result_bind_Inr broadcast_def split: if_splits)
qed

section \<open>Properties\<close>



text \<open>
  (C17) A pane is written to only past every guard: no request writes to a pane but a terminal input,
  and that only to the pane of a known invocation whose agent lives and whose stream has not ended, with
  a valid input, while the agent's own process is in the foreground of the pane and the pane takes input.
\<close>

theorem panes_written_past_guards:
  assumes ok: "process co request app wall instant = (app', r)" and written: "app_written app' \<noteq> app_written app"
  shows "\<exists>i input s metadata pid mux state. request = ReqTerminalInput i input
    \<and> app_written app' = app_written app @ [(metadata, pid, input)] \<and> TerminalInput_validate input = Inr ()
    \<and> invocation (app_store app) i = Inr s \<and> terminal_live s \<and> \<not> has_ended (app_terminals app) i
    \<and> sn_multiplexer s = Some metadata \<and> pc_child_pid (sn_process s) = Some pid
    \<and> co_multiplexers co (mx_backend metadata) = Some mux \<and> mu_pane_state mux metadata pid = Inr state
    \<and> pn_foreground_pgid state = Some pid \<and> \<not> pn_in_mode state
    \<and> is_none_or (\<lambda>expected. co_identity co pid = Some expected) (pc_start_identity (sn_process s))"
proof -
  obtain i input where i: "request = ReqTerminalInput i input" "fst (App_terminal_input co app i input) = app'"
    using request_writes [OF ok written] by blast
  with written have w: "app_written (fst (App_terminal_input co app i input)) \<noteq> app_written app" by simp
  obtain metadata agent mux where target: "terminal_target co app i = Inr (metadata, agent, mux)"
    using w by (auto simp: App_terminal_input_def split: sum.splits)
  obtain state where state: "mu_pane_state mux metadata (ap_child_pid agent) = Inr state" "guard (co_identity co) agent state = None"
    "TerminalInput_validate input = Inr ()"
    "app_written app' = app_written app @ [(metadata, ap_child_pid agent, input)]"
    using w i(2) target by (auto simp: App_terminal_input_def split: sum.splits option.splits)
  from target obtain s where s: "invocation (app_store app) i = Inr s" "terminal_live s" "\<not> has_ended (app_terminals app) i"
    "sn_multiplexer s = Some metadata" "pc_child_pid (sn_process s) = Some (ap_child_pid agent)"
    "ap_start_identity agent = pc_start_identity (sn_process s)" "co_multiplexers co (mx_backend metadata) = Some mux"
    by (rule terminal_targetE)
  show ?thesis using i(1) state s by (auto simp: guard_None)
qed

theorem panes_written_past_guards_witness:
  "app_written (fst (process sample_broker (ReqTerminalInput ''inv-1'' (Paste ''ls'' True)) sample_live_app 0 0))
     = [(sample_target, 11, Paste ''ls'' True)]
   \<and> (\<exists>s. invocation (app_store sample_live_app) ''inv-1'' = Inr s \<and> terminal_live s)"
proof -
  let ?r = "ReqTerminalInput ''inv-1'' (Paste ''ls'' True)"
  have w: "app_written (fst (process sample_broker ?r sample_live_app 0 0)) = [(sample_target, 11, Paste ''ls'' True)]"
    by (simp add: sample_live_app_def process_def App_terminal_input_def terminal_target_def App_new_def invocation_def
        sample_snapshot_def sample_process_def terminal_live_def has_ended_def Terminals_default_def sample_broker_def
        sample_mux_def sample_target_def TerminalInput_validate_def guard_def Let_def)
  obtain app' r where p: "process sample_broker ?r sample_live_app 0 0 = (app', r)" by fastforce
  have "app_written app' \<noteq> app_written sample_live_app" using w p by (simp add: sample_live_app_def App_new_def)
  from panes_written_past_guards [OF p this] w show ?thesis by auto
qed

text \<open>
  (C16) Acting for an invocation takes its credential: binding a process, reporting an exit and reporting
  a hook for an invocation that is unknown or with another credential, or a hook whose event is not of
  the invocation and provider it names, is refused and changes nothing of the broker.
\<close>

theorem requests_need_credential:
  assumes "acts_unauthorized app request"
  shows "\<exists>e. process co request app wall instant = (app, Inl e)"
proof (cases request)
  case (ReqBindChild i credential child_pid start_identity)
  with assms show ?thesis
    by (auto simp: acts_unauthorized_def process_def App_bind_child_def bind_child_def intro!: refused_answer refused_mutation)
next
  case (ReqLifecycleExit i credential exit_code signal)
  with assms show ?thesis
    by (auto simp: acts_unauthorized_def process_def lifecycle_exit_def mark_exit_def intro!: refused_answer refused_mutation)
next
  case (ReqHookIngest provider i credential event status_reason collection)
  with assms show ?thesis
    using refused_credential [of app i credential provider]
    by (auto simp: acts_unauthorized_def process_def ingest_hook_def answered_def)
qed (use assms in \<open>simp_all add: acts_unauthorized_def\<close>)

theorem requests_need_credential_witness:
  "\<exists>e. process sample_broker (ReqBindChild ''inv-1'' ''guess'' 7 None) (sample_app sample_db) 0 0 = (sample_app sample_db, Inl e)"
proof -
  have "acts_unauthorized (sample_app sample_db) (ReqBindChild ''inv-1'' ''guess'' 7 None)"
    by (simp add: acts_unauthorized_def holds_credential_def sample_db_def sample_snapshot_def App_new_def is_some_and_def)
  from requests_need_credential [OF this] show ?thesis .
qed

end
