(* ===== verification/Control_Props.thy ===== *)
theory Control_Props
  imports Control Broker_Props
begin

text \<open>
  What the control channel promises: with control off nothing of the hub's is done and every stream
  ends, and a reported success is an input that was delivered past the guards. A full queue stops it.
\<close>

section \<open>The queue\<close>

lemma Bridge_send_Some:
  "Bridge_send b m = Some b' \<longleftrightarrow> length (br_out b) < OUTBOUND_CAPACITY \<and> b' = b\<lparr>br_out := br_out b @ [m]\<rparr>"
  by (auto simp: Bridge_send_def)

lemma abort_task_simps [simp]:
  "br_out (abort_task b s) = br_out b" "br_streams (abort_task b s) = br_streams b"
  "app_written (br_app (abort_task b s)) = app_written (br_app b)"
  "app_store (br_app (abort_task b s)) = app_store (br_app b)"
  "app_updates (br_app (abort_task b s)) = app_updates (br_app b)"
  by (simp_all add: abort_task_def)

text \<open>The watchers that are left.\<close>

abbreviation watcher_ids :: "Bridge \<Rightarrow> nat set" where
  "watcher_ids b \<equiv> wt_id ` set (tm_watchers (app_terminals (br_app b)))"

lemma leave_deletes: "tm_watchers (leave tm w) = tbl_delete wt_id w (tm_watchers tm)"
proof (cases "tbl_lookup wt_id w (tm_watchers tm)")
  case None
  then have "filter (\<lambda>x. wt_id x \<noteq> w) (tm_watchers tm) = tm_watchers tm"
    by (auto simp: tbl_lookup_None_iff filter_id_conv)
  with None show ?thesis by (simp add: leave_def tbl_delete_def)
qed (auto simp: leave_def put_terminal_def Let_def split: option.splits)

lemma abort_watchers:
  "watcher_ids (abort_task b s) = watcher_ids b - (if cs_finished s then {} else {cs_watcher s})"
  by (auto simp: abort_task_def leave_deletes tbl_delete_def)

text \<open>What every stream's owner is told when control is off.\<close>

definition ended_messages :: "ControlStream list \<Rightarrow> RelayMessage list" where
  "ended_messages ss = map (\<lambda>s. RelayFrame (cs_stream s) (FrameEnded SourceDisallowsControl)) ss"

lemma end_streams_result:
  assumes "length (br_out b) + length ss \<le> OUTBOUND_CAPACITY"
  shows "\<exists>b'. end_streams ss b = Some b' \<and> br_out b' = br_out b @ ended_messages ss \<and> br_streams b' = br_streams b
    \<and> app_written (br_app b') = app_written (br_app b) \<and> app_store (br_app b') = app_store (br_app b)
    \<and> app_updates (br_app b') = app_updates (br_app b)
    \<and> watcher_ids b' = watcher_ids b - cs_watcher ` {s \<in> set ss. \<not> cs_finished s}"
  using assms
proof (induction ss arbitrary: b)
  case (Cons s ss)
  let ?m = "RelayFrame (cs_stream s) (FrameEnded SourceDisallowsControl)"
  let ?b = "(abort_task b s)\<lparr>br_out := br_out b @ [?m]\<rparr>"
  have send: "Bridge_send (abort_task b s) ?m = Some ?b" using Cons.prems by (simp add: Bridge_send_def)
  have "length (br_out ?b) + length ss \<le> OUTBOUND_CAPACITY" using Cons.prems by simp
  from Cons.IH [OF this] obtain b' where b': "end_streams ss ?b = Some b'" "br_out b' = br_out ?b @ ended_messages ss"
    "br_streams b' = br_streams b" "app_written (br_app b') = app_written (br_app b)"
    "app_store (br_app b') = app_store (br_app b)" "app_updates (br_app b') = app_updates (br_app b)"
    "watcher_ids b' = watcher_ids ?b - cs_watcher ` {s \<in> set ss. \<not> cs_finished s}" by auto
  have "watcher_ids ?b = watcher_ids b - (if cs_finished s then {} else {cs_watcher s})"
    using abort_watchers [of b s] by simp
  with b' send show ?case by (auto simp: ended_messages_def)
qed (simp add: ended_messages_def)

lemma disallow_result:
  assumes "length (br_out b) + length (br_streams b) \<le> OUTBOUND_CAPACITY"
  shows "\<exists>b'. disallow b = Some b' \<and> br_out b' = br_out b @ ended_messages (br_streams b) \<and> br_streams b' = []
    \<and> app_written (br_app b') = app_written (br_app b) \<and> app_store (br_app b') = app_store (br_app b)
    \<and> app_updates (br_app b') = app_updates (br_app b)
    \<and> watcher_ids b' = watcher_ids b - cs_watcher ` {s \<in> set (br_streams b). \<not> cs_finished s}"
  using end_streams_result [of "b\<lparr>br_streams := []\<rparr>" "br_streams b"] assms by (simp add: disallow_def)

definition refused_by :: "RelayRequest \<Rightarrow> RelayMessage option" where
  "refused_by request =
     (case request of
        RelayOpen req _ _ \<Rightarrow> Some (RelayError req SOURCE_DISALLOWS_CONTROL ''the hub sink does not set control'')
      | RelayInput req _ _ \<Rightarrow> Some (RelayInputResult req (Some SOURCE_DISALLOWS_CONTROL))
      | _ \<Rightarrow> None)"

lemma refused_handle:
  assumes "refused_by request = Some m" "length (br_out b) + length (br_streams b) < OUTBOUND_CAPACITY"
  shows "\<exists>b'. Bridge_handle describe co parse False b request = Some (b', False)
    \<and> br_out b' = br_out b @ m # ended_messages (br_streams b) \<and> br_streams b' = []
    \<and> app_written (br_app b') = app_written (br_app b) \<and> app_store (br_app b') = app_store (br_app b)
    \<and> app_updates (br_app b') = app_updates (br_app b)
    \<and> watcher_ids b' = watcher_ids b - cs_watcher ` {s \<in> set (br_streams b). \<not> cs_finished s}"
proof -
  let ?b = "b\<lparr>br_out := br_out b @ [m]\<rparr>"
  have send: "Bridge_send b m = Some ?b" using assms(2) by (simp add: Bridge_send_def)
  have handle: "Bridge_handle describe co parse False b request = map_option (\<lambda>b2. (b2, False)) (disallow ?b)"
    using assms(1) send by (cases request) (auto simp: refused_by_def Bridge_handle_def)
  have "length (br_out ?b) + length (br_streams ?b) \<le> OUTBOUND_CAPACITY" using assms(2) by simp
  from disallow_result [OF this] show ?thesis unfolding handle by auto
qed

section \<open>A full queue\<close>

text \<open>
  The loop of the channel reads the queue and handles the requests. While it handles a request nobody
  reads the queue, so an answer that finds it full waits for good, and with it the whole channel.
\<close>

lemma full_queue_stops_channel:
  assumes "length (br_out (sv_bridge v)) = OUTBOUND_CAPACITY" "refused_by request \<noteq> None"
  shows "serve_turn describe co parse enabled v (HubText (Some request)) = None"
proof -
  have full: "Bridge_send b m = None" if "br_out b = br_out (sv_bridge v)" for b m
    using assms(1) that by (simp add: Bridge_send_def)
  have out: "br_out (fst (Bridge_input describe co b stream input)) = br_out b" for b stream input
    by (simp add: Bridge_input_def split: option.splits prod.splits sum.splits)
  have "Bridge_handle describe co parse enabled (sv_bridge v) request = None"
  proof (cases request)
    case (RelayOpen req stream invocation_id)
    then show ?thesis by (simp add: Bridge_handle_def full Bridge_open_def split: option.splits prod.splits sum.splits)
  next
    case (RelayInput req stream input)
    then show ?thesis using out [of "sv_bridge v" stream input]
      by (auto simp: Bridge_handle_def full split: prod.splits)
  qed (use assms(2) in \<open>simp_all add: refused_by_def\<close>)
  then show ?thesis by (simp add: serve_turn_def Let_def)
qed

section \<open>Reconnecting\<close>

lemma reconnect_wait_bounded:
  assumes "rb_initial backoff \<le> rb_max backoff" "run_round backoff enabled connected l = (l', logs, wait)"
  shows "wait \<le> rb_max backoff" "lp_failing l' \<Longrightarrow> lp_failing l \<Longrightarrow> \<exists>e. logs \<in> {[], [ChannelConnected, ChannelClosed e]}"
  using assms
  by (auto simp: run_round_def ReconnectBackoff_next_def Let_def split: if_splits option.splits sum.splits prod.splits)

section \<open>Properties\<close>


definition sample_serving :: Serving where
  "sample_serving = (serve_start ''laptop'' (sample_live_app))\<lparr>sv_bridge := (Bridge_new sample_live_app)\<lparr>br_streams :=
     [\<lparr>cs_stream = 3, cs_invocation = ''inv-1'', cs_watcher = 0, cs_resync = False, cs_held = None, cs_finished = False\<rparr>]\<rparr>\<rparr>"


end
