(* ===== verification/Process.thy ===== *)
theory Process
  imports Http Tables
begin

text \<open>
  Processes as the broker sees them, \<^verbatim>\<open>sessiontap-infra/src/process.rs\<close>: start identities, parents and
  foreground groups read off the status line of a process. The status lines are an argument.
\<close>

section \<open>Numbers and words\<close>

text \<open>\<open>u32\<close>, \<open>u16\<close> and \<open>i64\<close> from text.\<close>

definition parse_below :: "nat \<Rightarrow> string \<Rightarrow> nat option" where
  "parse_below bound raw = Option.bind (parse_usize raw) (\<lambda>n. if n < bound then Some n else None)"

definition parse_u32 :: "string \<Rightarrow> u32 option" where
  "parse_u32 raw = map_option of_nat (parse_below (2 ^ 32) raw)"

definition parse_u16 :: "string \<Rightarrow> u16 option" where
  "parse_u16 raw = map_option of_nat (parse_below (2 ^ 16) raw)"

definition parse_i64 :: "string \<Rightarrow> int option" where
  "parse_i64 raw =
     (case raw of
        c # rest \<Rightarrow>
          if c = CHR ''-'' then
            (case rest of
               d # _ \<Rightarrow> if d = CHR ''+'' then None
                       else Option.bind (parse_usize rest) (\<lambda>n. if n \<le> 2 ^ 63 then Some (- int n) else None)
             | [] \<Rightarrow> None)
          else map_option int (parse_below (2 ^ 63) raw)
      | [] \<Rightarrow> None)"

lemma digits_value_append:
  "digits_value acc (s @ [c]) = Option.bind (digits_value acc s) (\<lambda>n. digits_value n [c])"
  by (induction s arbitrary: acc) (auto split: option.splits)

lemma digits_show_nat: "n < 2 ^ 64 \<Longrightarrow> digits_value 0 (show_nat n) = Some n"
proof (induction n rule: show_nat.induct)
  case (1 n)
  have digit: "digit_value (char_of (48 + d)) = Some d" if "d < 10" for d :: nat
    using that by (simp add: digit_value_def is_ascii_digit_def byte_char_of)
  show ?case
  proof (cases "n < 10")
    case True
    then show ?thesis using digit [of n] by (simp add: show_nat.simps [of n])
  next
    case False
    then have "digits_value 0 (show_nat (n div 10)) = Some (n div 10)" using 1 by simp
    then show ?thesis
      using False 1(2) digit [of "n mod 10"] by (simp add: show_nat.simps [of n] digits_value_append)
  qed
qed

text \<open>Printed numbers are read back.\<close>

lemma parse_show_nat: "n < 2 ^ 64 \<Longrightarrow> parse_usize (show_nat n) = Some n"
proof -
  assume n: "n < 2 ^ 64"
  obtain c s where cs: "show_nat n = c # s"
    by (cases "show_nat n") (auto simp: show_nat.simps [of n] split: if_splits)
  have "c \<noteq> CHR ''+''"
  proof
    assume "c = CHR ''+''"
    then have "digits_value 0 (show_nat n) = None" using cs by (simp add: digit_value_def is_ascii_digit_def byte_def)
    with digits_show_nat [OF n] show False by simp
  qed
  then show ?thesis using digits_show_nat [OF n] cs by (simp add: parse_usize_def)
qed

definition split_whitespace :: "string \<Rightarrow> string list" where
  "split_whitespace s = map utf8 (words_of (chars s))"

section \<open>Lossy text\<close>

text \<open>\<^verbatim>\<open>String::from_utf8_lossy\<close>: every longest prefix of a character that is not completed becomes U+FFFD.\<close>

definition utf8_width :: "nat \<Rightarrow> nat" where
  "utf8_width b = (if b < 128 then 1 else if 194 \<le> b \<and> b \<le> 223 then 2 else if 224 \<le> b \<and> b \<le> 239 then 3
     else if 240 \<le> b \<and> b \<le> 244 then 4 else 0)"

definition second_ok :: "nat \<Rightarrow> nat \<Rightarrow> bool" where
  "second_ok b c =
     (if b = 224 then 160 \<le> c \<and> c \<le> 191 else if b = 237 then 128 \<le> c \<and> c \<le> 159
      else if b = 240 then 144 \<le> c \<and> c \<le> 191 else if b = 244 then 128 \<le> c \<and> c \<le> 143 else 128 \<le> c \<and> c \<le> 191)"

definition char_prefix :: "string \<Rightarrow> nat" where
  "char_prefix s =
     (case s of
        [] \<Rightarrow> 0
      | c # rest \<Rightarrow>
          (case rest of
             [] \<Rightarrow> 1
           | d # rest' \<Rightarrow>
               if utf8_width (byte c) \<le> 1 \<or> \<not> second_ok (byte c) (byte d) then 1
               else 2 + length (takeWhile (\<lambda>x. 128 \<le> byte x \<and> byte x \<le> 191) (take (utf8_width (byte c) - 2) rest'))))"

function from_utf8_lossy :: "string \<Rightarrow> string" where
  "from_utf8_lossy s =
     (if s = [] then []
      else let n = char_prefix s
           in (if utf8_width (byte (hd s)) = n then take n s else [char_of (239::nat), char_of (191::nat), char_of (189::nat)])
              @ from_utf8_lossy (drop n s))"
  by pat_completeness auto
termination
  by (relation "measure length") (auto simp: char_prefix_def split: list.splits)

declare from_utf8_lossy.simps [simp del]

lemma lossy_ascii: "ascii s \<Longrightarrow> from_utf8_lossy s = s"
proof (induction s)
  case (Cons c s)
  then have c: "byte c < 128" by (simp add: ascii_def)
  have "char_prefix (c # s) = 1" using c by (simp add: char_prefix_def utf8_width_def split: list.splits)
  moreover have "from_utf8_lossy s = s" using Cons by (simp add: ascii_def)
  ultimately show ?case using c from_utf8_lossy.simps [of "c # s"] by (simp add: utf8_width_def)
qed (simp add: from_utf8_lossy.simps)

section \<open>Status lines\<close>

text \<open>The status line of a process, when it can be read.\<close>

type_synonym ProcStat = "u32 \<Rightarrow> string option"

definition stat_field :: "string \<Rightarrow> nat \<Rightarrow> string option" where
  "stat_field stat index =
     Option.bind (rsplit_once (CHR '')'') stat) (\<lambda>(_, rest).
       let fields = split_whitespace rest in if index < length fields then Some (fields ! index) else None)"

definition process_start_identity :: "ProcStat \<Rightarrow> u32 \<Rightarrow> string option" where
  "process_start_identity read_stat pid = Option.bind (read_stat pid) (\<lambda>stat. stat_field stat 19)"

definition terminal_foreground_pgid :: "ProcStat \<Rightarrow> u32 \<Rightarrow> u32 option" where
  "terminal_foreground_pgid read_stat pid =
     Option.bind (read_stat pid) (\<lambda>stat.
     Option.bind (stat_field stat 5) (\<lambda>field.
     Option.bind (parse_i64 field) (\<lambda>pgid.
       if 0 < pgid \<and> pgid < 2 ^ 32 then Some (of_int pgid) else None)))"

text \<open>\<open>ps\<close> answers only where the status line cannot be read.\<close>

definition parent_pid :: "ProcStat \<Rightarrow> (u32 \<Rightarrow> string option) \<Rightarrow> u32 \<Rightarrow> u32 option" where
  "parent_pid read_stat ps pid =
     (case read_stat pid of
        Some stat \<Rightarrow> Option.bind (stat_field stat 1) parse_u32
      | None \<Rightarrow> Option.bind (ps pid) (\<lambda>out. if valid_utf8 out then parse_u32 (trim out) else None))"

text \<open>\<open>exists\<close> is the directory of the process, \<open>signalled\<close> what sending it no signal says.\<close>

definition process_alive :: "ProcStat \<Rightarrow> (u32 \<Rightarrow> bool) \<Rightarrow> (u32 \<Rightarrow> bool) \<Rightarrow> u32 \<Rightarrow> string option \<Rightarrow> bool" where
  "process_alive read_stat exists signalled pid expected =
     (if exists pid then is_none_or (\<lambda>e. process_start_identity read_stat pid = Some e) expected
      else unat pid < 2 ^ 31 \<and> signalled pid)"

text \<open>The walk up from a process: at most 128 parents are looked at.\<close>

fun descends :: "nat \<Rightarrow> (u32 \<Rightarrow> u32 option) \<Rightarrow> u32 \<Rightarrow> u32 \<Rightarrow> bool" where
  "descends 0 parent child ancestor = False"
| "descends (Suc n) parent child ancestor =
     (if child = ancestor then True
      else case parent child of
             None \<Rightarrow> False
           | Some p \<Rightarrow> if p = child \<or> p = 0 then False else descends n parent p ancestor)"

definition is_descendant :: "(u32 \<Rightarrow> u32 option) \<Rightarrow> u32 \<Rightarrow> u32 \<Rightarrow> bool" where
  "is_descendant parent child ancestor = descends 128 parent child ancestor"

text \<open>A descendant is reached by following parents.\<close>

lemma descends_path:
  "descends n parent child ancestor \<Longrightarrow> (child, ancestor) \<in> {(c, p). parent c = Some p}\<^sup>*"
proof (induction n arbitrary: child)
  case (Suc n)
  then show ?case
    by (cases "child = ancestor")
      (auto split: option.splits if_splits intro: converse_rtrancl_into_rtrancl)
qed simp

end
