(* ===== verification/Tmux.thy ===== *)
theory Tmux
  imports Process Terminals
begin

text \<open>
  The tmux adapter: the parser of the control-mode protocol, \<^verbatim>\<open>sessiontap-infra/src/multiplexer/control.rs\<close>,
  the output-only client behind a live pane stream, \<^verbatim>\<open>tmux/stream.rs\<close>, and the commands, \<^verbatim>\<open>tmux.rs\<close>. Lines
  of the protocol are byte strings; running tmux is an argument.
\<close>

section \<open>The control-mode protocol\<close>

datatype Notification = NoteOutput string "u8 list" | NotePause string | NotePaneModeChanged string
  | NoteLayoutChange string | NoteSessionChanged string | NoteWindowClose string | NoteUnlinkedWindowClose string
  | NoteExit | NoteOther

datatype TmuxMessage = TmuxNotification Notification | TmuxReply bool bool "string list"

definition is_octal :: "char \<Rightarrow> bool" where
  "is_octal c \<longleftrightarrow> 48 \<le> byte c \<and> byte c \<le> 55"

definition octal_value :: "string \<Rightarrow> nat" where
  "octal_value digits = fold (\<lambda>c acc. acc * 8 + (byte c - 48)) digits 0"

fun decode_octal :: "string \<Rightarrow> u8 list" where
  "decode_octal [] = []"
| "decode_octal (c # rest) =
     (if c = CHR 0x5C \<and> length rest \<ge> 3 \<and> list_all is_octal (take 3 rest)
      then of_nat (octal_value (take 3 rest)) # decode_octal (drop 3 rest)
      else of_nat (byte c) # decode_octal rest)"

definition split_word :: "string \<Rightarrow> string \<times> string" where
  "split_word line = (case split_once (CHR '' '') line of None \<Rightarrow> (line, []) | Some p \<Rightarrow> p)"

text \<open>\<open>%begin|%end|%error <time> <number> <flags>\<close>\<close>

definition block_guard :: "string \<Rightarrow> (string \<times> string \<times> nat) option" where
  "block_guard line =
     (if \<not> valid_utf8 line then None
      else case split_on (CHR '' '') line of
             [kind, time, number, flags] \<Rightarrow>
               if kind \<in> {''%begin'', ''%end'', ''%error''} \<and> parse_usize time \<noteq> None \<and> parse_usize number \<noteq> None
               then map_option (\<lambda>n. (kind, number, n)) (parse_below (2 ^ 32) flags) else None
           | _ \<Rightarrow> None)"

fun after_separator :: "string \<Rightarrow> string option" where
  "after_separator [] = None"
| "after_separator (c # s) = (if take 3 (c # s) = '' : '' then Some (drop 3 (c # s)) else after_separator s)"

definition parse_notification :: "string \<Rightarrow> Notification" where
  "parse_notification line =
     (let (head, rest) = split_word line;
          (arg, tail) = split_word rest;
          arg = from_utf8_lossy arg
      in if head = ''%output'' then NoteOutput arg (decode_octal tail)
         else if head = ''%extended-output'' then
           NoteOutput arg (decode_octal (case after_separator tail of
              Some data \<Rightarrow> data
            | None \<Rightarrow> (case strip_prefix '': '' tail of Some data \<Rightarrow> data | None \<Rightarrow> [])))
         else if head = ''%pause'' then NotePause arg
         else if head = ''%pane-mode-changed'' then NotePaneModeChanged arg
         else if head = ''%layout-change'' then NoteLayoutChange arg
         else if head = ''%session-changed'' then NoteSessionChanged arg
         else if head = ''%window-close'' then NoteWindowClose arg
         else if head = ''%unlinked-window-close'' then NoteUnlinkedWindowClose arg
         else if head = ''%exit'' then NoteExit else NoteOther)"

text \<open>The open reply block: its number, whether it answers this client, and its lines.\<close>

type_synonym TmuxParser = "(string \<times> bool \<times> string list) option"

definition Parser_feed :: "TmuxParser \<Rightarrow> string \<Rightarrow> TmuxParser \<times> TmuxMessage option" where
  "Parser_feed parser line =
     (case parser of
        Some (number, client, lines) \<Rightarrow>
          (case block_guard line of
             Some (kind, n, _) \<Rightarrow>
               if kind \<noteq> ''%begin'' \<and> n = number then (None, Some (TmuxReply client (kind = ''%end'') lines))
               else (Some (number, client, lines @ [line]), None)
           | None \<Rightarrow> (Some (number, client, lines @ [line]), None))
      | None \<Rightarrow>
          (case block_guard line of
             Some (kind, number, flags) \<Rightarrow>
               if kind = ''%begin'' then (Some (number, odd flags, []), None)
               else (None, Some (TmuxNotification (parse_notification line)))
           | None \<Rightarrow> (None, Some (TmuxNotification (parse_notification line)))))"

section \<open>The control client\<close>

datatype PendingReply = PendIgnore | PendCapture | PendSnapshot | PendMode | PendSize

definition PAUSE_AFTER_SECONDS :: nat where "PAUSE_AFTER_SECONDS = 5"

definition SNAPSHOT_SCROLLBACK_LINES :: nat where "SNAPSHOT_SCROLLBACK_LINES = 500"

definition SNAPSHOT_FORMAT :: string where
  "SNAPSHOT_FORMAT = ''#{cursor_x} #{cursor_y} #{cursor_flag} #{alternate_on} #{pane_width} #{pane_height} #{pane_in_mode}''"

definition SIZE_FORMAT :: string where "SIZE_FORMAT = ''#{pane_width} #{pane_height}''"

record TmuxTarget =
  tt_socket :: string
  tt_session :: string
  tt_window :: "string option"
  tt_pane :: string

definition quote_id :: "string \<Rightarrow> string" where
  "quote_id i = [CHR 0x27] @ filter (\<lambda>c. c \<noteq> CHR 0x27) i @ [CHR 0x27]"

definition snapshot_command :: "TmuxTarget \<Rightarrow> string" where
  "snapshot_command t =
     ''capture-pane -p -e -J -S -'' @ show_nat SNAPSHOT_SCROLLBACK_LINES @ '' -t '' @ quote_id (tt_pane t)
     @ '' ; display -p -t '' @ quote_id (tt_pane t) @ '' '' @ [CHR 0x27] @ SNAPSHOT_FORMAT @ [CHR 0x27]"

text \<open>
  The state of a stream: the writer with the replies it expects and the lines written, and the reader.
  \<open>sx_events\<close> are the events sent to the session.
\<close>

record TmuxStream =
  sx_target :: TmuxTarget
  sx_pending :: "PendingReply list"
  sx_written :: "string list"
  sx_captured :: "string list option"
  sx_size :: "(u16 \<times> u16) option"
  sx_snapshot_seen :: bool
  sx_events :: "PaneEvent list"

text \<open>A line is recorded with its replies before it is written; \<open>writable\<close> says whether writing works.\<close>

definition Writer_send :: "bool \<Rightarrow> TmuxStream \<Rightarrow> string \<Rightarrow> PendingReply list \<Rightarrow> TmuxStream \<times> (string + unit)" where
  "Writer_send writable s line replies =
     (let s1 = s\<lparr>sx_pending := sx_pending s @ replies\<rparr>
      in if writable then (s1\<lparr>sx_written := sx_written s @ [line]\<rparr>, Inr ()) else (s1, Inl ''broken pipe''))"

definition Reader_emit :: "bool \<Rightarrow> TmuxStream \<Rightarrow> PaneEvent \<Rightarrow> TmuxStream \<times> (string + unit)" where
  "Reader_emit receiving s event =
     (if receiving then (s\<lparr>sx_events := sx_events s @ [event]\<rparr>, Inr ()) else (s, Inl ''stream receiver dropped''))"

text \<open>Sequencing of steps that may fail.\<close>

definition and_then :: "'s \<times> (string + unit) \<Rightarrow> ('s \<Rightarrow> 's \<times> (string + 'a)) \<Rightarrow> 's \<times> (string + 'a)" where
  "and_then r k = (case r of (s, Inl e) \<Rightarrow> (s, Inl e) | (s, Inr _) \<Rightarrow> k s)"

definition request_snapshot_of :: "bool \<Rightarrow> TmuxStream \<Rightarrow> TmuxStream \<times> (string + unit)" where
  "request_snapshot_of writable s = Writer_send writable s (snapshot_command (sx_target s)) [PendCapture, PendSnapshot]"

text \<open>\<open>open\<close>, once the client runs: the two lines written first.\<close>

definition stream_open :: "bool \<Rightarrow> bool \<Rightarrow> MultiplexerMetadata \<Rightarrow> string + TmuxStream" where
  "stream_open writable writable' current =
     (case mx_session_id current of
        None \<Rightarrow> Inl ''tmux session ID unavailable''
      | Some session \<Rightarrow>
          let s = \<lparr>sx_target = \<lparr>tt_socket = mx_socket current, tt_session = session, tt_window = mx_window_id current,
                     tt_pane = mx_pane_id current\<rparr>, sx_pending = [], sx_written = [], sx_captured = None,
                   sx_size = None, sx_snapshot_seen = False, sx_events = []\<rparr>
          in (case and_then (Writer_send writable s (''refresh-client -f ignore-size,pause-after='' @ show_nat PAUSE_AFTER_SECONDS)
                  [PendIgnore]) (request_snapshot_of writable') of
                (_, Inl e) \<Rightarrow> Inl e
              | (s', Inr _) \<Rightarrow> Inr s'))"

definition ours_window :: "TmuxStream \<Rightarrow> string \<Rightarrow> bool" where
  "ours_window s window \<longleftrightarrow> tt_window (sx_target s) = Some window"

definition build_snapshot :: "string \<Rightarrow> string list \<Rightarrow> PaneSnapshot option" where
  "build_snapshot info lines =
     (case split_whitespace info of
        [x, y, visible, alternate, cols, rows, in_mode] \<Rightarrow>
          Option.bind (parse_u16 cols) (\<lambda>cols.
          Option.bind (parse_u16 rows) (\<lambda>rows.
          Option.bind (parse_u16 x) (\<lambda>x.
          Option.bind (parse_u16 y) (\<lambda>y.
            Some \<lparr>pp_cols = cols, pp_rows = rows, pp_cursor = \<lparr>cur_x = x, cur_y = y, cur_visible = visible \<noteq> ''0''\<rparr>,
                  pp_alternate_screen = alternate \<noteq> ''0'', pp_in_mode = in_mode \<noteq> ''0'',
                  pp_data = as_bytes (join [CHR 0x0D, CHR 0x0A] lines)\<rparr>))))
      | _ \<Rightarrow> None)"

definition handle_notification ::
    "bool \<Rightarrow> bool \<Rightarrow> TmuxStream \<Rightarrow> Notification \<Rightarrow> TmuxStream \<times> (string + EndReason option)" where
  "handle_notification writable receiving s n =
     (let pane = tt_pane (sx_target s); ok = (\<lambda>s. (s, Inr None))
      in case n of
           NoteOutput from data \<Rightarrow>
             if from = pane \<and> sx_snapshot_seen s then and_then (Reader_emit receiving s (PaneOutput data)) ok else ok s
         | NotePause from \<Rightarrow>
             if from = pane then
               and_then (Writer_send writable s (''refresh-client -A '' @ [CHR 0x27] @ pane @ '':continue'' @ [CHR 0x27]) [PendIgnore])
                 (\<lambda>s. and_then (Reader_emit receiving s PaneResync) ok)
             else ok s
         | NotePaneModeChanged from \<Rightarrow>
             if from = pane then
               and_then (Writer_send writable s (''display -p -t '' @ quote_id pane @ '' '' @ [CHR 0x27] @ ''#{pane_in_mode}'' @ [CHR 0x27])
                 [PendMode]) ok
             else ok s
         | NoteLayoutChange window \<Rightarrow>
             if ours_window s window then
               and_then (Writer_send writable s (''display -p -t '' @ quote_id pane @ '' '' @ [CHR 0x27] @ SIZE_FORMAT @ [CHR 0x27])
                 [PendSize]) ok
             else ok s
         | NoteSessionChanged session \<Rightarrow>
             (s, Inr (if session \<noteq> tt_session (sx_target s) then Some SessionClosed else None))
         | NoteWindowClose window \<Rightarrow> (s, Inr (if ours_window s window then Some PaneClosed else None))
         | NoteUnlinkedWindowClose window \<Rightarrow> (s, Inr (if ours_window s window then Some PaneClosed else None))
         | NoteExit \<Rightarrow> ok s
         | NoteOther \<Rightarrow> ok s)"

definition handle_reply :: "bool \<Rightarrow> TmuxStream \<Rightarrow> bool \<Rightarrow> string list \<Rightarrow> TmuxStream \<times> (string + EndReason option)" where
  "handle_reply receiving s0 success lines =
     (let pending = (case sx_pending s0 of [] \<Rightarrow> PendIgnore | p # _ \<Rightarrow> p);
          s = s0\<lparr>sx_pending := drop 1 (sx_pending s0)\<rparr>;
          first = (case lines of [] \<Rightarrow> [] | l # _ \<Rightarrow> from_utf8_lossy l); ok = (\<lambda>s. (s, Inr None))
      in case pending of
           PendIgnore \<Rightarrow> ok s
         | PendCapture \<Rightarrow> if success then ok (s\<lparr>sx_captured := Some lines\<rparr>) else (s, Inr (Some PaneClosed))
         | PendSnapshot \<Rightarrow>
             if \<not> success then (s, Inr (Some PaneClosed))
             else
               let s1 = s\<lparr>sx_captured := None\<rparr>
               in (case build_snapshot first (case sx_captured s of None \<Rightarrow> [] | Some ls \<Rightarrow> ls) of
                     None \<Rightarrow> (s1, Inl ''unexpected tmux snapshot reply'')
                   | Some p \<Rightarrow>
                       and_then (Reader_emit receiving (s1\<lparr>sx_size := Some (pp_cols p, pp_rows p), sx_snapshot_seen := True\<rparr>)
                         (PaneShows p)) ok)
         | PendMode \<Rightarrow> if success then and_then (Reader_emit receiving s (PaneModeChanged (trim first \<noteq> ''0''))) ok else ok s
         | PendSize \<Rightarrow>
             if \<not> success then (s, Inr (Some PaneClosed))
             else (case map parse_u16 (split_whitespace first) of
                     Some cols # Some rows # _ \<Rightarrow>
                       if sx_size s \<noteq> Some (cols, rows)
                       then and_then (Reader_emit receiving (s\<lparr>sx_size := Some (cols, rows)\<rparr>) PaneResized) ok else ok s
                   | _ \<Rightarrow> ok s))"

definition Reader_handle ::
    "bool \<Rightarrow> bool \<Rightarrow> TmuxStream \<Rightarrow> TmuxMessage \<Rightarrow> TmuxStream \<times> (string + EndReason option)" where
  "Reader_handle writable receiving s message =
     (case message of
        TmuxNotification n \<Rightarrow> handle_notification writable receiving s n
      | TmuxReply client success lines \<Rightarrow> if client then handle_reply receiving s success lines else (s, Inr None))"

text \<open>
  \<open>run\<close> on what happens to a stream: a line of the client, with whether writing and sending work then, or
  a snapshot asked for by the session. A reader goes on, has seen a known end, or has failed.
\<close>

datatype StreamInput = ClientLine string bool bool | SnapshotAsked bool

datatype ReaderState = Reading | KnownEnd EndReason | ReaderFailed

definition chomp :: "string \<Rightarrow> string" where
  "chomp line = (if line \<noteq> [] \<and> last line = CHR 0x0D then butlast line else line)"

fun Reader_run :: "TmuxParser \<Rightarrow> TmuxStream \<Rightarrow> StreamInput list \<Rightarrow> TmuxStream \<times> ReaderState" where
  "Reader_run parser s [] = (s, Reading)"
| "Reader_run parser s (SnapshotAsked writable # rest) = Reader_run parser (fst (request_snapshot_of writable s)) rest"
| "Reader_run parser s (ClientLine line writable receiving # rest) =
     (case Parser_feed parser (chomp line) of
        (parser', None) \<Rightarrow> Reader_run parser' s rest
      | (parser', Some message) \<Rightarrow>
          (case Reader_handle writable receiving s message of
             (s', Inr None) \<Rightarrow> Reader_run parser' s' rest
           | (s', Inr (Some e)) \<Rightarrow> (s', KnownEnd e)
           | (s', Inl _) \<Rightarrow> (s', ReaderFailed)))"

definition eof_reason :: "(string \<Rightarrow> string list \<Rightarrow> string + string) \<Rightarrow> TmuxStream \<Rightarrow> EndReason" where
  "eof_reason query s =
     (case query (tt_socket (sx_target s)) [''display-message'', ''-p'', ''#{pid}''] of
        Inl _ \<Rightarrow> MultiplexerStopped
      | Inr _ \<Rightarrow>
          (case query (tt_socket (sx_target s)) [''display-message'', ''-p'', ''-t'', tt_pane (sx_target s), ''#{pane_id}''] of
             Inl _ \<Rightarrow> PaneClosed
           | Inr _ \<Rightarrow> SessionClosed))"

text \<open>The thread of a stream: the last event is the end, unless the stream was dropped before.\<close>

definition stream_thread ::
    "(string \<Rightarrow> string list \<Rightarrow> string + string) \<Rightarrow> bool \<Rightarrow> bool \<Rightarrow> TmuxStream \<Rightarrow> StreamInput list \<Rightarrow> TmuxStream" where
  "stream_thread query closed receiving s inputs =
     (case Reader_run None s inputs of
        (s', outcome) \<Rightarrow>
          if closed then s'
          else fst (Reader_emit receiving s' (PaneStreamClosed (case outcome of KnownEnd e \<Rightarrow> e | _ \<Rightarrow> eof_reason query s'))))"

end
