(* ===== verification/Tmux_Props.thy ===== *)
theory Tmux_Props
  imports Tmux
begin

text \<open>
  What a live pane stream promises: the bytes of the pane survive the protocol, replies are read whole
  and in order, output comes only after a snapshot, and every snapshot asked for comes once.
\<close>

section \<open>Escaped bytes\<close>

text \<open>
  tmux documents that it replaces the backslash and control bytes of a pane's output by a backslash and
  three octal digits. Which other bytes it replaces does not matter; \<open>escaped\<close> says which it does.
\<close>

definition octal_digit :: "nat \<Rightarrow> char" where
  "octal_digit n = char_of (48 + n mod 8)"

definition octal_escape :: "u8 \<Rightarrow> string" where
  "octal_escape b = [CHR 0x5C, octal_digit (unat b div 64), octal_digit (unat b div 8), octal_digit (unat b)]"

definition tmux_escape :: "(u8 \<Rightarrow> bool) \<Rightarrow> u8 list \<Rightarrow> string" where
  "tmux_escape escaped data = concat (map (\<lambda>b. if escaped b then octal_escape b else [char_of (unat b)]) data)"

lemma byte_octal_digit [simp]: "byte (octal_digit n) = 48 + n mod 8"
  by (simp add: octal_digit_def byte_char_of)

lemma octal_digit_octal [simp]: "is_octal (octal_digit n)"
  using mod_less_divisor [of 8 n] by (simp add: is_octal_def del: mod_less_divisor)

lemma unat_byte_bound: "unat (b :: u8) < 256"
  using unsigned_less [of b] by simp

lemma octal_value_digits: "octal_value [octal_digit (n div 64), octal_digit (n div 8), octal_digit n] = n" if "n < 256"
proof -
  have high: "n div 64 mod 8 = n div 8 div 8" using that by (simp add: div_mult2_eq [symmetric])
  have "n div 8 div 8 * 64 + n div 8 mod 8 * 8 + n mod 8 = n"
    using div_mult_mod_eq [of n 8] div_mult_mod_eq [of "n div 8" 8] by linarith
  then have "n div 64 mod 8 * 64 + n div 8 mod 8 * 8 + n mod 8 = n" unfolding high .
  moreover have "n div 64 mod 8 = n div 64" using that by simp
  ultimately show ?thesis by (simp add: octal_value_def algebra_simps)
qed

lemma byte_backslash: "byte (CHR 0x5C) = 92"
  by (simp add: byte_def)

lemma decode_escape:
  assumes "escaped 92"
  shows "decode_octal (tmux_escape escaped data) = data"
proof (induction data)
  case (Cons b data)
  have byte_b: "byte (char_of (unat b)) = unat b" using unat_byte_bound [of b] by (simp add: byte_char_of)
  show ?case
  proof (cases "escaped b")
    case True
    have "octal_value [octal_digit (unat b div 64), octal_digit (unat b div 8), octal_digit (unat b)] = unat b"
      by (rule octal_value_digits [OF unat_byte_bound])
    with True Cons show ?thesis by (simp add: tmux_escape_def octal_escape_def numeral_3_eq_3)
  next
    case False
    then have "b \<noteq> 92" using assms by metis
    then have "unat b \<noteq> 92" by (simp add: word_unat_eq_iff)
    then have "char_of (unat b) \<noteq> CHR 0x5C" using byte_b byte_backslash by metis
    with False Cons byte_b show ?thesis by (simp add: tmux_escape_def)
  qed
qed (simp add: tmux_escape_def)

lemma escape_bytes: "c \<in> set (tmux_escape escaped data) \<Longrightarrow> c = CHR 0x5C \<or> is_octal c \<or> (\<exists>b. \<not> escaped b \<and> c = char_of (unat b))"
  by (auto simp: tmux_escape_def octal_escape_def split: if_splits)

section \<open>A transcript\<close>

text \<open>What tmux prints: output of a pane, or the reply to a command with the lines the command printed.\<close>

datatype TmuxItem = OutputItem string "u8 list" | ReplyItem nat nat nat bool "string list"

definition guard_line :: "string \<Rightarrow> nat \<Rightarrow> nat \<Rightarrow> nat \<Rightarrow> string" where
  "guard_line kind time number flags = kind @ CHR '' '' # show_nat time @ CHR '' '' # show_nat number @ CHR '' '' # show_nat flags"

fun item_lines :: "(u8 \<Rightarrow> bool) \<Rightarrow> TmuxItem \<Rightarrow> string list" where
  "item_lines escaped (OutputItem pane data) = [''%output '' @ pane @ CHR '' '' # tmux_escape escaped data]"
| "item_lines escaped (ReplyItem time number flags ok lines) =
     guard_line ''%begin'' time number flags # lines @ [guard_line (if ok then ''%end'' else ''%error'') time number flags]"

fun item_message :: "TmuxItem \<Rightarrow> TmuxMessage" where
  "item_message (OutputItem pane data) = TmuxNotification (NoteOutput pane data)"
| "item_message (ReplyItem time number flags ok lines) = TmuxReply (odd flags) ok lines"

text \<open>No line a command printed reads as the end of its own reply.\<close>

definition closes_block :: "string \<Rightarrow> string \<Rightarrow> bool" where
  "closes_block number line = is_some_and (\<lambda>(kind, n, _). kind \<noteq> ''%begin'' \<and> n = number) (block_guard line)"

fun item_ok :: "TmuxItem \<Rightarrow> bool" where
  "item_ok (OutputItem pane data) = (ascii pane \<and> CHR '' '' \<notin> set pane)"
| "item_ok (ReplyItem time number flags ok lines) =
     (time < 2 ^ 64 \<and> number < 2 ^ 64 \<and> flags < 2 ^ 32 \<and> list_all (\<lambda>l. \<not> closes_block (show_nat number) l) lines)"

fun feed_all :: "TmuxParser \<Rightarrow> string list \<Rightarrow> TmuxParser \<times> TmuxMessage list" where
  "feed_all parser [] = (parser, [])"
| "feed_all parser (l # ls) =
     (case Parser_feed parser l of
        (parser', m) \<Rightarrow> (case feed_all parser' ls of (p, ms) \<Rightarrow> (p, (case m of None \<Rightarrow> ms | Some x \<Rightarrow> x # ms))))"

lemma feed_all_append:
  "feed_all p (xs @ ys) = (case feed_all p xs of (q, ms) \<Rightarrow> (case feed_all q ys of (r, ns) \<Rightarrow> (r, ms @ ns)))"
  by (induction xs arbitrary: p) (auto split: prod.splits option.splits)

lemma show_nat_ascii: "ascii (show_nat n)" "CHR '' '' \<notin> set (show_nat n)"
proof -
  have "48 \<le> byte c \<and> byte c < 58" if "c \<in> set (show_nat n)" for c n
    using that
  proof (induction n rule: show_nat.induct)
    case (1 n)
    have d: "byte (char_of (48 + m)) = 48 + m" if "m < 10" for m :: nat using that by (simp add: byte_char_of)
    show ?case
    proof (cases "n < 10")
      case True
      with 1(2) d [of n] show ?thesis by (simp add: show_nat.simps [of n])
    next
      case False
      with 1 d [of "n mod 10"] show ?thesis by (auto simp: show_nat.simps [of n])
    qed
  qed
  then show "ascii (show_nat n)" "CHR '' '' \<notin> set (show_nat n)"
    by (fastforce simp: ascii_def list_all_iff byte_def)+
qed

lemma block_guard_line:
  assumes "kind \<in> {''%begin'', ''%end'', ''%error''}" "time < 2 ^ 64" "number < 2 ^ 64" "flags < 2 ^ 32"
  shows "block_guard (guard_line kind time number flags) = Some (kind, show_nat number, flags)"
proof -
  have kind: "ascii kind" "CHR '' '' \<notin> set kind" using assms(1) by (auto simp: ascii_def byte_def)
  have "ascii (guard_line kind time number flags)"
    using kind show_nat_ascii by (simp add: guard_line_def ascii_def byte_def)
  then have v: "valid_utf8 (guard_line kind time number flags)" by (rule valid_utf8_ascii)
  have split: "split_on (CHR '' '') (guard_line kind time number flags) = [kind, show_nat time, show_nat number, show_nat flags]"
    unfolding guard_line_def using kind show_nat_ascii by (simp add: split_on_append split_on_word)
  have "parse_below (2 ^ 32) (show_nat flags) = Some flags"
    using assms(4) parse_show_nat [of flags] by (simp add: parse_below_def)
  with assms v split parse_show_nat show ?thesis by (simp add: block_guard_def)
qed

lemma feed_lines:
  assumes "list_all (\<lambda>l. \<not> closes_block number l) ls"
  shows "feed_all (Some (number, client, acc)) ls = (Some (number, client, acc @ ls), [])"
  using assms
proof (induction ls arbitrary: acc)
  case (Cons l ls)
  have "Parser_feed (Some (number, client, acc)) l = (Some (number, client, acc @ [l]), None)"
    using Cons.prems by (auto simp: Parser_feed_def closes_block_def is_some_and_def split: option.splits)
  then show ?case using Cons by simp
qed simp

lemma feed_output:
  assumes "escaped 92" "ascii pane" "CHR '' '' \<notin> set pane"
  shows "Parser_feed None (''%output '' @ pane @ CHR '' '' # tmux_escape escaped data) = (None, Some (TmuxNotification (NoteOutput pane data)))"
proof -
  let ?line = "''%output '' @ pane @ CHR '' '' # tmux_escape escaped data"
  have word: "split_word ?line = (''%output'', pane @ CHR '' '' # tmux_escape escaped data)"
    using split_once_append [of "CHR '' ''" "''%output''"] by (simp add: split_word_def)
  have rest: "split_word (pane @ CHR '' '' # tmux_escape escaped data) = (pane, tmux_escape escaped data)"
    using split_once_append [OF assms(3)] by (simp add: split_word_def)
  have "split_on (CHR '' '') ?line = ''%output'' # split_on (CHR '' '') (pane @ CHR '' '' # tmux_escape escaped data)"
    using split_on_append [of "CHR '' ''" "''%output''"] by simp
  then have "block_guard ?line = None" by (auto simp: block_guard_def split: list.splits)
  then show ?thesis
    using word rest lossy_ascii [OF assms(2)] decode_escape [of escaped, OF assms(1)] by (simp add: Parser_feed_def parse_notification_def)
qed

lemma feed_item:
  assumes "escaped 92" "item_ok i"
  shows "feed_all None (item_lines escaped i) = (None, [item_message i])"
proof (cases i)
  case (OutputItem pane data)
  with assms show ?thesis using feed_output by simp
next
  case (ReplyItem time number flags ok lines)
  let ?b = "guard_line ''%begin'' time number flags"
  have bounds: "time < 2 ^ 64" "number < 2 ^ 64" "flags < 2 ^ 32" using assms(2) ReplyItem by auto
  have begin_line: "Parser_feed None ?b = (Some (show_nat number, odd flags, []), None)"
    using block_guard_line [OF _ bounds, of "''%begin''"] by (simp add: Parser_feed_def)
  have body: "feed_all (Some (show_nat number, odd flags, [])) lines = (Some (show_nat number, odd flags, lines), [])"
    using feed_lines assms(2) ReplyItem by simp
  have end_line: "Parser_feed (Some (show_nat number, odd flags, lines)) (guard_line (if ok then ''%end'' else ''%error'') time number flags)
      = (None, Some (TmuxReply (odd flags) ok lines))"
    using block_guard_line [OF _ bounds, of "if ok then ''%end'' else ''%error''"] by (simp add: Parser_feed_def)
  show ?thesis using begin_line body end_line ReplyItem by (simp add: feed_all_append)
qed

lemma feed_items:
  assumes "escaped 92" "list_all item_ok items"
  shows "feed_all None (concat (map (item_lines escaped) items)) = (None, map item_message items)"
  using assms(2) by (induction items) (simp_all add: feed_all_append feed_item [of escaped, OF assms(1)])

text \<open>
  A line a program left on the screen can end the reply it is captured in: only the number of the
  reply is compared, not its time.
\<close>

lemma screen_line_ends_reply:
  assumes "number < 2 ^ 64"
  shows "Parser_feed (Some (show_nat number, client, lines)) (guard_line ''%end'' 0 number 0) = (None, Some (TmuxReply client True lines))"
  using block_guard_line [of "''%end''" 0 number 0] assms by (simp add: Parser_feed_def)

section \<open>Order of the events\<close>

fun is_shows :: "PaneEvent \<Rightarrow> bool" where
  "is_shows (PaneShows _) = True"
| "is_shows _ = False"

text \<open>Events that say how the pane changed; they mean something only after a snapshot.\<close>

fun is_change :: "PaneEvent \<Rightarrow> bool" where
  "is_change (PaneOutput _) = True"
| "is_change (PaneModeChanged _) = True"
| "is_change PaneResized = True"
| "is_change _ = False"

definition led :: "PaneEvent list \<Rightarrow> bool" where
  "led es \<longleftrightarrow> (\<forall>xs e ys. es = xs @ e # ys \<and> is_change e \<longrightarrow> list_ex is_shows xs)"

lemma led_Nil [simp]: "led []"
  by (simp add: led_def)

lemma led_snoc: "led (es @ [e]) \<longleftrightarrow> led es \<and> (is_change e \<longrightarrow> list_ex is_shows es)"
proof
  assume l: "led (es @ [e])"
  have "led es" unfolding led_def
  proof (intro allI impI)
    fix xs x ys
    assume "es = xs @ x # ys \<and> is_change x"
    then have "es @ [e] = xs @ x # (ys @ [e]) \<and> is_change x" by simp
    with l show "list_ex is_shows xs" unfolding led_def by blast
  qed
  moreover have "is_change e \<longrightarrow> list_ex is_shows es" using l unfolding led_def by blast
  ultimately show "led es \<and> (is_change e \<longrightarrow> list_ex is_shows es)" ..
next
  assume r: "led es \<and> (is_change e \<longrightarrow> list_ex is_shows es)"
  show "led (es @ [e])" unfolding led_def
  proof (intro allI impI)
    fix xs x ys
    assume x: "es @ [e] = xs @ x # ys \<and> is_change x"
    show "list_ex is_shows xs"
    proof (cases ys rule: rev_cases)
      case Nil
      with x r show ?thesis by simp
    next
      case (snoc zs z)
      with x have "es = xs @ x # zs" by simp
      with x r show ?thesis unfolding led_def by blast
    qed
  qed
qed

definition snapshot_first :: "PendingReply list \<Rightarrow> bool" where
  "snapshot_first ps \<longleftrightarrow> PendSnapshot \<in> set ps \<and> PendMode \<notin> set (takeWhile (\<lambda>p. p \<noteq> PendSnapshot) ps)
     \<and> PendSize \<notin> set (takeWhile (\<lambda>p. p \<noteq> PendSnapshot) ps)"

lemma snapshot_first_append: "snapshot_first ps \<Longrightarrow> snapshot_first (ps @ qs)"
  using takeWhile_append1 [of PendSnapshot ps "\<lambda>p. p \<noteq> PendSnapshot" qs] by (simp add: snapshot_first_def)

text \<open>While a reader reads: \<open>n\<close> snapshots were asked for, each has come or its reply is still expected.\<close>

definition stream_inv :: "nat \<Rightarrow> TmuxStream \<Rightarrow> bool" where
  "stream_inv n s \<longleftrightarrow> led (sx_events s) \<and> (sx_snapshot_seen s \<longrightarrow> list_ex is_shows (sx_events s))
     \<and> (\<not> sx_snapshot_seen s \<longrightarrow> snapshot_first (sx_pending s))
     \<and> length (filter is_shows (sx_events s)) + count_list (sx_pending s) PendSnapshot = n"

lemma count_list_append_pending: "count_list (xs @ ys) (p :: PendingReply) = count_list xs p + count_list ys p"
  by (induction xs) simp_all

lemma Writer_send_inv:
  assumes "stream_inv n s" "PendSnapshot \<notin> set replies"
  shows "stream_inv n (fst (Writer_send w s line replies))"
proof -
  have "count_list replies PendSnapshot = 0" using assms(2) by (simp add: count_list_0_iff)
  with assms(1) show ?thesis
    by (auto simp: stream_inv_def Writer_send_def Let_def count_list_append_pending snapshot_first_append)
qed

lemma request_inv: "stream_inv n s \<Longrightarrow> stream_inv (Suc n) (fst (request_snapshot_of w s))"
  by (auto simp: stream_inv_def request_snapshot_of_def Writer_send_def Let_def count_list_append_pending snapshot_first_append)

lemma Writer_send_events [simp]: "sx_events (fst (Writer_send w s line replies)) = sx_events s"
  by (simp add: Writer_send_def Let_def)

lemma Writer_send_seen [simp]: "sx_snapshot_seen (fst (Writer_send w s line replies)) = sx_snapshot_seen s"
  by (simp add: Writer_send_def Let_def)

text \<open>Emitting an event that is not a snapshot, after one or of a kind that needs none.\<close>

lemma emit_inv:
  assumes "stream_inv n s" "\<not> is_shows e" "is_change e \<Longrightarrow> sx_snapshot_seen s"
  shows "stream_inv n (fst (Reader_emit r s e))"
  using assms by (auto simp: stream_inv_def Reader_emit_def led_snoc)

lemma and_then_inv:
  assumes "stream_inv n (fst r)" "\<And>s. stream_inv n s \<Longrightarrow> stream_inv n (fst (k s))"
  shows "stream_inv n (fst (and_then r k))"
  using assms by (auto simp: and_then_def split: prod.splits sum.splits)

lemma notification_inv:
  assumes inv: "stream_inv n s"
  shows "stream_inv n (fst (handle_notification w r s nt))"
proof (cases nt)
  case (NoteOutput origin data)
  then show ?thesis
    using inv emit_inv [OF inv, of "PaneOutput data" r] by (auto simp: handle_notification_def Let_def intro!: and_then_inv)
next
  case (NotePause origin)
  have resync: "stream_inv n (fst (and_then (Reader_emit r t PaneResync) (\<lambda>s. (s, Inr None))))" if "stream_inv n t" for t
    using emit_inv [OF that, of PaneResync r] by (intro and_then_inv) auto
  show ?thesis
  proof (cases "origin = tt_pane (sx_target s)")
    case True
    then show ?thesis using NotePause Writer_send_inv [OF inv, of "[PendIgnore]"]
      unfolding handle_notification_def Let_def by (simp, intro and_then_inv resync) simp_all
  qed (use inv NotePause in \<open>simp add: handle_notification_def\<close>)
next
  case (NotePaneModeChanged origin)
  then show ?thesis using inv Writer_send_inv [OF inv, of "[PendMode]"]
    by (auto simp: handle_notification_def Let_def intro!: and_then_inv)
next
  case (NoteLayoutChange window)
  then show ?thesis using inv Writer_send_inv [OF inv, of "[PendSize]"]
    by (auto simp: handle_notification_def Let_def intro!: and_then_inv)
qed (use inv in \<open>simp_all add: handle_notification_def\<close>)

lemma popped_inv:
  assumes "stream_inv n s" "sx_pending s = p # ps" "p \<noteq> PendSnapshot"
  shows "stream_inv n (s\<lparr>sx_pending := ps\<rparr>)"
  using assms by (auto simp: stream_inv_def snapshot_first_def)

lemma reply_inv:
  assumes inv: "stream_inv n s" and r: "handle_reply r s success lines = (s', res)"
  shows "led (sx_events s')" and "res = Inr None \<Longrightarrow> stream_inv n s'"
proof -
  have "led (sx_events s') \<and> (res = Inr None \<longrightarrow> stream_inv n s')"
  proof (cases "sx_pending s")
    case Nil
    have "s\<lparr>sx_pending := []\<rparr> = s" using Nil by simp
    with Nil r inv show ?thesis by (auto simp: handle_reply_def Let_def stream_inv_def)
  next
    case (Cons p ps)
    let ?s = "s\<lparr>sx_pending := ps\<rparr>"
    have led: "led (sx_events s)" using inv by (simp add: stream_inv_def)
    show ?thesis
    proof (cases "p = PendSnapshot")
      case True
      with r inv led show ?thesis
        by (auto simp: handle_reply_def Let_def Cons and_then_def Reader_emit_def stream_inv_def led_snoc
            split: option.splits if_splits)
    next
      case False
      note inv' = popped_inv [OF inv Cons False]
      have seen: "sx_snapshot_seen s" if "p = PendMode \<or> p = PendSize"
        using inv Cons that by (auto simp: stream_inv_def snapshot_first_def)
      have emits: "stream_inv n (fst (Reader_emit r (?s\<lparr>sx_size := z\<rparr>) e))" if "p = PendMode \<or> p = PendSize" "\<not> is_shows e" for z e
        using inv' seen that by (intro emit_inv) (auto simp: stream_inv_def)
      have ok: "stream_inv n (fst (and_then (Reader_emit r (?s\<lparr>sx_size := z\<rparr>) e) (\<lambda>s. (s, Inr None))))"
        if "p = PendMode \<or> p = PendSize" "\<not> is_shows e" for z e
        using emits [OF that] by (intro and_then_inv) auto
      have same: "?s\<lparr>sx_size := sx_size s\<rparr> = ?s" by simp
      have captured: "stream_inv n (?s\<lparr>sx_captured := c\<rparr>)" for c using inv' by (simp add: stream_inv_def)
      have "s' = fst (handle_reply r s success lines)" using r by simp
      also have "stream_inv n \<dots>"
      proof (cases p)
        case PendMode
        then have "stream_inv n (fst (and_then (Reader_emit r ?s (PaneModeChanged b)) (\<lambda>s. (s, Inr None))))" for b
          using ok [of "PaneModeChanged b" "sx_size s"] unfolding same by simp
        then show ?thesis using PendMode inv' by (auto simp: handle_reply_def Let_def Cons)
      next
        case PendSize
        then show ?thesis using inv' ok [of PaneResized]
          by (auto simp: handle_reply_def Let_def Cons split: list.splits option.splits)
      qed (use inv' captured False in \<open>simp_all add: handle_reply_def Let_def Cons\<close>)
      finally have "stream_inv n s'" .
      then show ?thesis by (simp add: stream_inv_def)
    qed
  qed
  then show "led (sx_events s')" "res = Inr None \<Longrightarrow> stream_inv n s'" by auto
qed

lemma handle_inv:
  assumes inv: "stream_inv n s" and r: "Reader_handle w r s m = (s', res)"
  shows "led (sx_events s')" and "res = Inr None \<Longrightarrow> stream_inv n s'"
proof -
  have "led (sx_events s') \<and> (res = Inr None \<longrightarrow> stream_inv n s')"
  proof (cases m)
    case (TmuxNotification nt)
    then have "s' = fst (handle_notification w r s nt)" using r by (simp add: Reader_handle_def)
    with notification_inv [OF inv, of w r nt] show ?thesis by (simp add: stream_inv_def)
  next
    case (TmuxReply client success lines)
    show ?thesis
    proof (cases client)
      case True
      then have "handle_reply r s success lines = (s', res)" using r TmuxReply by (simp add: Reader_handle_def)
      from reply_inv [OF inv this] show ?thesis by blast
    next
      case False
      then have "s' = s" using r TmuxReply by (simp add: Reader_handle_def)
      with inv show ?thesis by (simp add: stream_inv_def)
    qed
  qed
  then show "led (sx_events s')" "res = Inr None \<Longrightarrow> stream_inv n s'" by auto
qed

fun is_asked :: "StreamInput \<Rightarrow> bool" where
  "is_asked (SnapshotAsked _) = True"
| "is_asked _ = False"

lemma run_inv:
  assumes "stream_inv n s" "Reader_run parser s inputs = (s', outcome)"
  shows "led (sx_events s') \<and> (outcome = Reading \<longrightarrow> stream_inv (n + length (filter is_asked inputs)) s')"
  using assms
proof (induction parser s inputs arbitrary: n rule: Reader_run.induct)
  case (1 parser s)
  then show ?case by (auto simp: stream_inv_def)
next
  case (2 parser s w rest)
  then show ?case using request_inv [OF 2(2), of w] by fastforce
next
  case (3 parser s line w r rest)
  show ?case
  proof (cases "Parser_feed parser (chomp line)")
    case (Pair parser' message)
    show ?thesis
    proof (cases message)
      case None
      with 3 Pair show ?thesis by simp
    next
      case (Some m)
      obtain t res where t: "Reader_handle w r s m = (t, res)" by fastforce
      note h = handle_inv [OF 3(3) t]
      show ?thesis
      proof (cases "res = Inr None")
        case True
        then show ?thesis using 3(2) [OF Pair [symmetric] Some t [symmetric]] 3(4) h(2) Pair Some t by auto
      next
        case False
        then show ?thesis using 3(4) h(1) Pair Some t by (auto split: sum.splits option.splits)
      qed
    qed
  qed
qed

lemma open_inv: "stream_open w w' current = Inr s \<Longrightarrow> stream_inv 1 s"
  by (auto simp: stream_open_def request_snapshot_of_def Writer_send_def and_then_def Let_def stream_inv_def snapshot_first_def
      split: option.splits if_splits)

section \<open>Properties\<close>



text \<open>
  (C7) A pane stream leads with a snapshot and owes what was asked: whatever tmux prints and whenever the
  session asks for snapshots, no output, change of mode or change of size is reported before a snapshot
  was, and while the stream is read every snapshot asked for has been reported once or is still expected.
\<close>

theorem stream_leads_with_snapshot:
  assumes "stream_open w w' current = Inr s" and "Reader_run None s inputs = (s', outcome)"
  shows "(\<forall>xs e ys. sx_events s' = xs @ e # ys \<and> is_change e \<longrightarrow> list_ex is_shows xs)
    \<and> (outcome = Reading \<longrightarrow> length (filter is_shows (sx_events s')) + count_list (sx_pending s') PendSnapshot
         = 1 + length (filter is_asked inputs))"
proof -
  note r = run_inv [OF open_inv [OF assms(1)] assms(2)]
  then have "led (sx_events s')" by blast
  then show ?thesis using r unfolding led_def by (simp add: stream_inv_def)
qed

definition sample_current :: MultiplexerMetadata where
  "sample_current = \<lparr>mx_backend = Tmux, mx_socket = ''/tmp/tmux'', mx_server_pid = None, mx_session_id = Some ''$0'',
     mx_session_name = None, mx_window_id = None, mx_window_index = None, mx_pane_id = ''%1'', mx_pane_tty = None,
     mx_pane_pid = None\<rparr>"

theorem stream_leads_with_snapshot_witness:
  "\<exists>s s'. stream_open True True sample_current = Inr s \<and> Reader_run None s [SnapshotAsked True, ClientLine ''%exit'' True True] = (s', Reading)
     \<and> length (filter is_shows (sx_events s')) + count_list (sx_pending s') PendSnapshot = 2"
proof -
  obtain s where s: "stream_open True True sample_current = Inr s"
    by (simp add: stream_open_def sample_current_def request_snapshot_of_def Writer_send_def and_then_def Let_def)
  have "split_on (CHR '' '') ''%exit'' = [''%exit'']" by simp
  then have feed: "Parser_feed None (chomp ''%exit'') = (None, Some (TmuxNotification NoteExit))"
    by (simp add: Parser_feed_def chomp_def block_guard_def parse_notification_def split_word_def)
  obtain s' where r: "Reader_run None s [SnapshotAsked True, ClientLine ''%exit'' True True] = (s', Reading)"
    by (simp add: feed Reader_handle_def handle_notification_def Let_def)
  from stream_leads_with_snapshot [OF s r] have "length (filter is_shows (sx_events s')) + count_list (sx_pending s') PendSnapshot = 2"
    by simp
  with s r show ?thesis by blast
qed

end
