(* ===== verification/Tmux_Commands.thy ===== *)
theory Tmux_Commands
  imports Tmux
begin

text \<open>
  The commands of the tmux adapter, \<^verbatim>\<open>sessiontap-infra/src/multiplexer/tmux.rs\<close>: finding a pane, checking that
  it is still the one recorded, capturing it and writing to it. Running tmux is an argument that takes
  the state of the server along.
\<close>

section \<open>Running tmux\<close>

text \<open>
  A run of \<open>tmux -S <socket> <args>\<close> with its standard input: its output, or what it printed as an error.
\<close>

type_synonym 'w TmuxExec = "string \<Rightarrow> string list \<Rightarrow> string \<Rightarrow> 'w \<Rightarrow> (string + string) \<times> 'w"

definition try_then :: "(string + 'a) \<times> 'w \<Rightarrow> ('a \<Rightarrow> 'w \<Rightarrow> (string + 'b) \<times> 'w) \<Rightarrow> (string + 'b) \<times> 'w" where
  "try_then r k = (case r of (Inl e, w) \<Rightarrow> (Inl e, w) | (Inr x, w) \<Rightarrow> k x w)"

definition str_trim_end :: "string \<Rightarrow> string" where
  "str_trim_end s = utf8 (rev (dropWhile is_whitespace (rev (chars s))))"

definition tmux_query :: "'w TmuxExec \<Rightarrow> string \<Rightarrow> string list \<Rightarrow> 'w \<Rightarrow> (string + string) \<times> 'w" where
  "tmux_query exec socket args w =
     (case exec socket args [] w of
        (Inl _, w') \<Rightarrow> (Inl ''tmux query failed'', w')
      | (Inr out, w') \<Rightarrow> (if valid_utf8 out then Inr (str_trim_end out) else Inl ''invalid utf-8 sequence'', w'))"

definition tmux_run :: "'w TmuxExec \<Rightarrow> string \<Rightarrow> string list \<Rightarrow> 'w \<Rightarrow> (string + unit) \<times> 'w" where
  "tmux_run exec socket args w =
     (case exec socket args [] w of
        (Inl err, w') \<Rightarrow>
          (Inl (''tmux '' @ (case args of [] \<Rightarrow> [] | a # _ \<Rightarrow> a) @ '' failed: '' @ trim (from_utf8_lossy err)), w')
      | (Inr _, w') \<Rightarrow> (Inr (), w'))"

section \<open>The pane\<close>

definition PANE_FORMAT :: string where
  "PANE_FORMAT = join [CHR 0x09] [''#{pid}'', ''#{session_id}'', ''#{session_name}'', ''#{window_id}'', ''#{window_index}'',
     ''#{pane_id}'', ''#{pane_tty}'', ''#{pane_pid}'']"

definition current_of :: "string \<Rightarrow> string \<Rightarrow> string + MultiplexerMetadata" where
  "current_of socket raw =
     (case split_on (CHR 0x09) raw of
        [pid, session_id, session_name, window_id, window_index, pane_id, pane_tty, pane_pid] \<Rightarrow>
          Inr \<lparr>mx_backend = Tmux, mx_socket = socket, mx_server_pid = parse_u32 pid, mx_session_id = Some session_id,
               mx_session_name = Some session_name, mx_window_id = Some window_id, mx_window_index = parse_u32 window_index,
               mx_pane_id = pane_id, mx_pane_tty = Some pane_tty, mx_pane_pid = parse_u32 pane_pid\<rparr>
      | _ \<Rightarrow> Inl ''unexpected tmux metadata'')"

definition tmux_current :: "'w TmuxExec \<Rightarrow> string \<Rightarrow> string \<Rightarrow> 'w \<Rightarrow> (string + MultiplexerMetadata) \<times> 'w" where
  "tmux_current exec socket pane w =
     try_then (tmux_query exec socket [''display-message'', ''-p'', ''-t'', pane, PANE_FORMAT] w) (\<lambda>raw w. (current_of socket raw, w))"

text \<open>\<open>parent\<close> is the parent of a process.\<close>

definition same_pane :: "(u32 \<Rightarrow> u32 option) \<Rightarrow> MultiplexerMetadata \<Rightarrow> u32 \<Rightarrow> MultiplexerMetadata \<Rightarrow> string + unit" where
  "same_pane parent expected process_pid current =
     (if mx_server_pid current \<noteq> mx_server_pid expected \<or> mx_pane_id current \<noteq> mx_pane_id expected
         \<or> mx_pane_tty current \<noteq> mx_pane_tty expected \<or> mx_pane_pid current \<noteq> mx_pane_pid expected
      then Inl ''tmux server or pane identity changed''
      else case mx_pane_pid current of
             None \<Rightarrow> Inl ''tmux pane PID unavailable''
           | Some pane_pid \<Rightarrow>
               if is_descendant parent process_pid pane_pid then Inr ()
               else Inl ''tracked process no longer belongs to the tmux pane'')"

definition tmux_validate ::
    "'w TmuxExec \<Rightarrow> (u32 \<Rightarrow> u32 option) \<Rightarrow> MultiplexerMetadata \<Rightarrow> u32 \<Rightarrow> 'w \<Rightarrow> (string + unit) \<times> 'w" where
  "tmux_validate exec parent expected process_pid w =
     try_then (tmux_current exec (mx_socket expected) (mx_pane_id expected) w)
       (\<lambda>current w. (same_pane parent expected process_pid current, w))"

text \<open>The two variables of the environment a process in tmux has.\<close>

definition tmux_inspect ::
    "'w TmuxExec \<Rightarrow> string option \<Rightarrow> string option \<Rightarrow> 'w \<Rightarrow> (string + MultiplexerMetadata option) \<times> 'w" where
  "tmux_inspect exec tmux_var pane_var w =
     (case tmux_var of
        None \<Rightarrow> (Inr None, w)
      | Some tmux \<Rightarrow>
          (case pane_var of
             None \<Rightarrow> (Inl ''TMUX_PANE missing'', w)
           | Some pane \<Rightarrow>
               let socket = hd (split_on (CHR '','') (from_utf8_lossy tmux))
               in if \<not> is_absolute socket then (Inl ''invalid TMUX socket'', w)
                  else try_then (tmux_current exec socket pane w) (\<lambda>m w. (Inr (Some m), w))))"

definition tmux_capture ::
    "'w TmuxExec \<Rightarrow> (u32 \<Rightarrow> u32 option) \<Rightarrow> MultiplexerMetadata \<Rightarrow> u32 \<Rightarrow> 'w \<Rightarrow> (string + string) \<times> 'w" where
  "tmux_capture exec parent expected process_pid w =
     try_then (tmux_validate exec parent expected process_pid w)
       (\<lambda>_. tmux_query exec (mx_socket expected) [''capture-pane'', ''-p'', ''-J'', ''-t'', mx_pane_id expected])"

section \<open>Versions\<close>

definition parse_version :: "string \<Rightarrow> (u32 \<times> u32) option" where
  "parse_version raw =
     (let digits = dropWhile (\<lambda>c. \<not> is_ascii_digit (byte c)) raw
      in Option.bind (split_once (CHR ''.'') digits) (\<lambda>(major, rest).
         Option.bind (parse_u32 major) (\<lambda>major.
         Option.bind (parse_u32 (takeWhile (\<lambda>c. is_ascii_digit (byte c)) rest)) (\<lambda>minor. Some (major, minor)))))"

definition require_version :: "'w TmuxExec \<Rightarrow> string \<Rightarrow> 'w \<Rightarrow> (string + unit) \<times> 'w" where
  "require_version exec socket w =
     (case tmux_query exec socket [''-V''] w of
        (r, w') \<Rightarrow>
          let raw = (case r of Inl _ \<Rightarrow> [] | Inr out \<Rightarrow> out)
          in (case parse_version raw of
                Some (major, minor) \<Rightarrow>
                  if major < 3 \<or> major = 3 \<and> minor < 2
                  then (Inl (''live terminal requires tmux 3.2 or newer, found '' @ [CHR 0x27] @ raw @ [CHR 0x27]), w')
                  else (Inr (), w')
              | None \<Rightarrow> (Inr (), w')))"

text \<open>\<open>open_stream\<close> up to the start of the control client: the pane it is opened on.\<close>

definition tmux_stream_target ::
    "'w TmuxExec \<Rightarrow> (u32 \<Rightarrow> u32 option) \<Rightarrow> MultiplexerMetadata \<Rightarrow> u32 \<Rightarrow> 'w \<Rightarrow> (string + MultiplexerMetadata) \<times> 'w" where
  "tmux_stream_target exec parent expected process_pid w =
     try_then (require_version exec (mx_socket expected) w) (\<lambda>_ w.
     try_then (tmux_validate exec parent expected process_pid w) (\<lambda>_.
       tmux_current exec (mx_socket expected) (mx_pane_id expected)))"

section \<open>Input\<close>

fun key_name :: "NamedKey \<Rightarrow> string" where
  "key_name Up = ''Up''"
| "key_name Down = ''Down''"
| "key_name Left = ''Left''"
| "key_name Right = ''Right''"
| "key_name Escape = ''Escape''"
| "key_name Tab = ''Tab''"
| "key_name BackTab = ''BTab''"
| "key_name Enter = ''Enter''"
| "key_name Space = ''Space''"
| "key_name Backspace = ''BSpace''"
| "key_name CtrlC = ''C-c''"
| "key_name Home = ''Home''"
| "key_name End = ''End''"
| "key_name PageUp = ''PPage''"
| "key_name PageDown = ''NPage''"
| "key_name Delete = ''DC''"
| "key_name (F n) = ''F'' @ show_nat (unat n)"

definition tmux_key :: "Key \<Rightarrow> string" where
  "tmux_key key =
     (if mod_ctrl (key_mods key) then ''C-'' else []) @ (if mod_alt (key_mods key) then ''M-'' else [])
     @ (case key_base key of
          Named named \<Rightarrow> key_name named
        | Char c \<Rightarrow> if c = 59 then [CHR 0x5C, CHR '';''] else encode_utf8 c)"

definition key_args :: "MultiplexerMetadata \<Rightarrow> Key \<Rightarrow> string list" where
  "key_args expected key =
     [''send-keys''] @ (if key_mods key = Mods_default \<and> (case key_base key of Char _ \<Rightarrow> True | Named _ \<Rightarrow> False) then [''-l''] else [])
     @ [''-t'', mx_pane_id expected, ''--'', tmux_key key]"

fun send_each :: "'w TmuxExec \<Rightarrow> MultiplexerMetadata \<Rightarrow> Key list \<Rightarrow> 'w \<Rightarrow> (string + unit) \<times> 'w" where
  "send_each exec expected [] w = (Inr (), w)"
| "send_each exec expected (key # keys) w =
     try_then (tmux_run exec (mx_socket expected) (key_args expected key) w) (\<lambda>_. send_each exec expected keys)"

definition tmux_send_keys ::
    "'w TmuxExec \<Rightarrow> (u32 \<Rightarrow> u32 option) \<Rightarrow> MultiplexerMetadata \<Rightarrow> u32 \<Rightarrow> Key list \<Rightarrow> 'w \<Rightarrow> (string + unit) \<times> 'w" where
  "tmux_send_keys exec parent expected process_pid keys w =
     try_then (tmux_validate exec parent expected process_pid w) (\<lambda>_. send_each exec expected keys)"

text \<open>Pasting in its two parts: filling the buffer named after the daemon's process, and pasting it.\<close>

definition buffer_name :: "u32 \<Rightarrow> string" where
  "buffer_name daemon = ''sessiontap-'' @ show_nat (unat daemon)"

definition paste_load ::
    "'w TmuxExec \<Rightarrow> (u32 \<Rightarrow> u32 option) \<Rightarrow> u32 \<Rightarrow> MultiplexerMetadata \<Rightarrow> u32 \<Rightarrow> string \<Rightarrow> 'w \<Rightarrow> (string + unit) \<times> 'w" where
  "paste_load exec parent daemon expected process_pid text w =
     try_then (tmux_validate exec parent expected process_pid w) (\<lambda>_ w.
       case exec (mx_socket expected) [''load-buffer'', ''-b'', buffer_name daemon, ''-''] text w of
         (Inl _, w') \<Rightarrow> (Inl ''tmux load-buffer failed'', w')
       | (Inr _, w') \<Rightarrow> (Inr (), w'))"

definition paste_insert :: "'w TmuxExec \<Rightarrow> u32 \<Rightarrow> MultiplexerMetadata \<Rightarrow> bool \<Rightarrow> 'w \<Rightarrow> (string + unit) \<times> 'w" where
  "paste_insert exec daemon expected enter w =
     try_then (tmux_run exec (mx_socket expected)
        [''paste-buffer'', ''-p'', ''-d'', ''-b'', buffer_name daemon, ''-t'', mx_pane_id expected] w) (\<lambda>_ w.
       if enter then tmux_run exec (mx_socket expected) [''send-keys'', ''-t'', mx_pane_id expected, ''Enter''] w else (Inr (), w))"

definition tmux_paste ::
    "'w TmuxExec \<Rightarrow> (u32 \<Rightarrow> u32 option) \<Rightarrow> u32 \<Rightarrow> MultiplexerMetadata \<Rightarrow> u32 \<Rightarrow> string \<Rightarrow> bool \<Rightarrow> 'w \<Rightarrow> (string + unit) \<times> 'w" where
  "tmux_paste exec parent daemon expected process_pid text enter w =
     try_then (paste_load exec parent daemon expected process_pid text w) (\<lambda>_. paste_insert exec daemon expected enter)"

definition tmux_pane_state ::
    "'w TmuxExec \<Rightarrow> (u32 \<Rightarrow> u32 option) \<Rightarrow> ProcStat \<Rightarrow> MultiplexerMetadata \<Rightarrow> u32 \<Rightarrow> 'w \<Rightarrow> (string + PaneState) \<times> 'w" where
  "tmux_pane_state exec parent read_stat expected process_pid w =
     try_then (tmux_validate exec parent expected process_pid w) (\<lambda>_ w.
       case mx_pane_pid expected of
         None \<Rightarrow> (Inl ''tmux pane PID unavailable'', w)
       | Some pane_pid \<Rightarrow>
           try_then (tmux_query exec (mx_socket expected) [''display-message'', ''-p'', ''-t'', mx_pane_id expected, ''#{pane_in_mode}''] w)
             (\<lambda>in_mode w. (Inr \<lparr>pn_foreground_pgid = terminal_foreground_pgid read_stat pane_pid, pn_in_mode = in_mode \<noteq> ''0''\<rparr>, w)))"

section \<open>What validation shows\<close>

lemma try_then_Inr: "try_then r k = (Inr x, w) \<longleftrightarrow> (\<exists>y w'. r = (Inr y, w') \<and> k y w' = (Inr x, w))"
  by (auto simp: try_then_def split: prod.splits sum.splits)

text \<open>
  A pane that validates is the recorded one: the server answered with the recorded server, pane,
  terminal and process, and the tracked process descends from the pane's.
\<close>

lemma validated_pane:
  assumes "tmux_validate exec parent expected process_pid w = (Inr (), w')"
  obtains current pane_pid where "tmux_current exec (mx_socket expected) (mx_pane_id expected) w = (Inr current, w')"
    "mx_server_pid current = mx_server_pid expected" "mx_pane_id current = mx_pane_id expected"
    "mx_pane_tty current = mx_pane_tty expected" "mx_pane_pid current = Some pane_pid" "mx_pane_pid expected = Some pane_pid"
    "(process_pid, pane_pid) \<in> {(c, p). parent c = Some p}\<^sup>*"
  using assms descends_path
  by (auto simp: tmux_validate_def try_then_Inr same_pane_def is_descendant_def split: if_splits option.splits)

text \<open>A pane that does not validate is not written to.\<close>

lemma unvalidated_not_written:
  assumes "tmux_validate exec parent expected process_pid w = (Inl e, w')"
  shows "tmux_send_keys exec parent expected process_pid keys w = (Inl e, w')"
    and "tmux_paste exec parent daemon expected process_pid text enter w = (Inl e, w')"
  using assms by (simp_all add: tmux_send_keys_def tmux_paste_def paste_load_def try_then_def)

section \<open>Two pastes at once\<close>

text \<open>
  The buffer is named after the daemon, not after the paste. tmux documents that \<open>load-buffer\<close> sets the
  named buffer and \<open>paste-buffer -d\<close> inserts and deletes it. When the daemon loads a second paste before
  it inserts the first, the pane of the first gets the text of the second.
\<close>

lemma concurrent_pastes_mix:
  fixes buffers :: "'w \<Rightarrow> string \<Rightarrow> string option" and inserted :: "'w \<Rightarrow> (string \<times> string) list"
  assumes load: "\<And>socket name text w. \<exists>out w'. exec socket [''load-buffer'', ''-b'', name, ''-''] text w = (Inr out, w')
      \<and> buffers w' name = Some text \<and> inserted w' = inserted w"
    and paste: "\<And>socket name pane w text. buffers w name = Some text \<Longrightarrow>
      \<exists>out w'. exec socket [''paste-buffer'', ''-p'', ''-d'', ''-b'', name, ''-t'', pane] [] w = (Inr out, w')
        \<and> inserted w' = inserted w @ [(pane, text)] \<and> buffers w' name = None"
    and valid: "\<And>w. \<exists>w'. tmux_validate exec parent first p w = (Inr (), w') \<and> inserted w' = inserted w"
      "\<And>w. \<exists>w'. tmux_validate exec parent second q w = (Inr (), w') \<and> inserted w' = inserted w"
  shows "\<exists>w1 w2 w3. paste_load exec parent daemon first p text w = (Inr (), w1)
    \<and> paste_load exec parent daemon second q text' w1 = (Inr (), w2)
    \<and> paste_insert exec daemon first False w2 = (Inr (), w3) \<and> inserted w3 = inserted w @ [(mx_pane_id first, text')]"
proof -
  have loaded: "\<exists>w'. paste_load exec parent daemon m pid t v = (Inr (), w') \<and> buffers w' (buffer_name daemon) = Some t
      \<and> inserted w' = inserted v" if ok: "\<And>v. \<exists>w'. tmux_validate exec parent m pid v = (Inr (), w') \<and> inserted w' = inserted v" for m pid t v
  proof -
    obtain v1 where v1: "tmux_validate exec parent m pid v = (Inr (), v1)" "inserted v1 = inserted v" using ok by blast
    obtain out w' where "exec (mx_socket m) [''load-buffer'', ''-b'', buffer_name daemon, ''-''] t v1 = (Inr out, w')"
      "buffers w' (buffer_name daemon) = Some t" "inserted w' = inserted v1" using load by blast
    with v1 show ?thesis by (simp add: paste_load_def try_then_def)
  qed
  obtain w1 where w1: "paste_load exec parent daemon first p text w = (Inr (), w1)" "inserted w1 = inserted w"
    using loaded [OF valid(1)] by blast
  obtain w2 where w2: "paste_load exec parent daemon second q text' w1 = (Inr (), w2)"
    "buffers w2 (buffer_name daemon) = Some text'" "inserted w2 = inserted w1"
    using loaded [OF valid(2)] by blast
  obtain out w3 where w3: "exec (mx_socket first) [''paste-buffer'', ''-p'', ''-d'', ''-b'', buffer_name daemon, ''-t'', mx_pane_id first] [] w2
      = (Inr out, w3)" "inserted w3 = inserted w2 @ [(mx_pane_id first, text')]" using paste [OF w2(2)] by blast
  have "paste_insert exec daemon first False w2 = (Inr (), w3)" using w3 by (simp add: paste_insert_def tmux_run_def try_then_def)
  with w1 w2 w3 show ?thesis by auto
qed

end
