(* ===== verification/Wrapper.thy ===== *)
theory Wrapper
  imports Broker Hooks Process
begin

text \<open>
  The command \<^verbatim>\<open>sessiontap\<close>, \<^verbatim>\<open>sessiontap/src/main.rs\<close>, and the directories all programs share,
  \<^verbatim>\<open>sessiontap-core/src/paths.rs\<close>: the command line, launching an agent under the broker's eyes, reporting a
  hook, inspecting hooks, and removing all state. What the broker answers is data.
\<close>

section \<open>Directories\<close>

type_synonym env = "string \<Rightarrow> string option"

record AppPaths =
  pt_config_dir :: string
  pt_state_dir :: string
  pt_data_dir :: string
  pt_runtime_dir :: string

definition runtime_of :: "env \<Rightarrow> string \<Rightarrow> string" where
  "runtime_of env state =
     (case env ''XDG_RUNTIME_DIR'' of
        Some p \<Rightarrow> if is_absolute p then p else path_join state ''runtime''
      | None \<Rightarrow> path_join state ''runtime'')"

definition AppPaths_from_env :: "env \<Rightarrow> string + AppPaths" where
  "AppPaths_from_env env =
     (case env ''HOME'' of
        None \<Rightarrow> Inl ''HOME is not set''
      | Some home \<Rightarrow>
          let config = unwrap_or (env ''XDG_CONFIG_HOME'') (path_join home ''.config'');
              state = unwrap_or (env ''XDG_STATE_HOME'') (path_join home ''.local/state'');
              data = unwrap_or (env ''XDG_DATA_HOME'') (path_join home ''.local/share'')
          in Inr \<lparr>pt_config_dir = path_join config ''sessiontap'', pt_state_dir = path_join state ''sessiontap'',
                  pt_data_dir = path_join data ''sessiontap'', pt_runtime_dir = path_join (runtime_of env state) ''sessiontap''\<rparr>)"

definition AppPaths_config_file :: "AppPaths \<Rightarrow> string" where
  "AppPaths_config_file p = path_join (pt_config_dir p) ''config.toml''"

definition AppPaths_database :: "AppPaths \<Rightarrow> string" where
  "AppPaths_database p = path_join (pt_state_dir p) ''sessiontap.sqlite3''"

definition AppPaths_socket :: "AppPaths \<Rightarrow> string" where
  "AppPaths_socket p = path_join (pt_runtime_dir p) ''sessiontap.sock''"

definition AppPaths_lock :: "AppPaths \<Rightarrow> string" where
  "AppPaths_lock p = path_join (pt_runtime_dir p) ''sessiontap.lock''"

definition hook_inspection_socket :: "AppPaths \<Rightarrow> string" where
  "hook_inspection_socket p = path_join (pt_runtime_dir p) ''hook-inspection.sock''"

definition hook_inspection_lock :: "AppPaths \<Rightarrow> string" where
  "hook_inspection_lock p = path_join (pt_runtime_dir p) ''hook-inspection.lock''"

record HubPaths =
  hp_config_dir :: string
  hp_state_dir :: string
  hp_runtime_dir :: string

definition HubPaths_from_env :: "env \<Rightarrow> string + HubPaths" where
  "HubPaths_from_env env =
     (case env ''HOME'' of
        None \<Rightarrow> Inl ''HOME is not set''
      | Some home \<Rightarrow>
          let config = unwrap_or (env ''XDG_CONFIG_HOME'') (path_join home ''.config'');
              state = unwrap_or (env ''XDG_STATE_HOME'') (path_join home ''.local/state'')
          in Inr \<lparr>hp_config_dir = path_join config ''sessiontap-hub'', hp_state_dir = path_join state ''sessiontap-hub'',
                  hp_runtime_dir = path_join (runtime_of env state) ''sessiontap-hub''\<rparr>)"

definition HubPaths_config_file :: "HubPaths \<Rightarrow> string" where
  "HubPaths_config_file p = path_join (hp_config_dir p) ''config.yaml''"

definition HubPaths_database :: "HubPaths \<Rightarrow> string" where
  "HubPaths_database p = path_join (hp_state_dir p) ''hub.sqlite3''"

definition HubPaths_socket :: "HubPaths \<Rightarrow> string" where
  "HubPaths_socket p = path_join (hp_runtime_dir p) ''sessiontap-hub.sock''"

definition HubPaths_lock :: "HubPaths \<Rightarrow> string" where
  "HubPaths_lock p = path_join (hp_runtime_dir p) ''sessiontap-hub.lock''"

section \<open>The command line\<close>

datatype Cli = CliStatus | CliListen | CliInspectHooks | CliSetup "string option" SetupAction
  | CliHookEmit string "string option" | CliCompletions "string option" | CliTerminalWatch string
  | CliTerminalSend string TerminalInput | CliNuke bool bool | CliLaunch string "string list"

definition usage :: "string \<Rightarrow> string" where
  "usage provider_args =
     ''usage: sessiontap <'' @ join ''|'' (map ProviderId_as_str ProviderId_ALL) @ ''> ['' @ provider_args
     @ ''] | status | listen | inspect-hooks | setup | doctor | hooks remove | terminal | nuke | completions <shell>''"

definition NUKE_USAGE :: string where "NUKE_USAGE = ''usage: sessiontap nuke [--yes] [--dry-run]''"

definition TERMINAL_USAGE :: string where
  "TERMINAL_USAGE = ''usage: sessiontap terminal watch <id> | terminal send <id> (--key <key>)... | --text <text> [--enter]'' @ [CHR 0x0A]
     @ ''  <key>: [ctrl+][alt+](up|down|left|right|escape|tab|back_tab|enter|space|backspace|ctrl_c|home|end|page_up|page_down|delete|f1..f12|<char>)''"

fun nuke_flags :: "bool \<Rightarrow> bool \<Rightarrow> string list \<Rightarrow> string + Cli" where
  "nuke_flags yes dry_run [] = Inr (CliNuke yes dry_run)"
| "nuke_flags yes dry_run (arg # args) =
     (if arg = ''--yes'' \<or> arg = ''-y'' then nuke_flags True dry_run args
      else if arg = ''--dry-run'' then nuke_flags yes True args
      else Inl (''unknown nuke argument '' @ in_quotes arg @ ''; '' @ NUKE_USAGE))"

definition parse_nuke :: "string list \<Rightarrow> string + Cli" where
  "parse_nuke args = nuke_flags False False args"

text \<open>The flags of \<open>terminal send\<close>: the keys, the text and whether to press enter.\<close>

fun send_flags :: "Key list \<Rightarrow> string option \<Rightarrow> bool \<Rightarrow> string list \<Rightarrow> string + Key list \<times> string option \<times> bool" where
  "send_flags keys text enter [] = Inr (keys, text, enter)"
| "send_flags keys text enter [flag] = (if flag = ''--enter'' then Inr (keys, text, True) else Inl TERMINAL_USAGE)"
| "send_flags keys text enter (flag # v # args) =
     (if flag = ''--key'' then result_bind (Key_from_str v) (\<lambda>key. send_flags (keys @ [key]) text enter args)
      else if flag = ''--text'' \<and> text = None then send_flags keys (Some v) enter args
      else if flag = ''--enter'' then send_flags keys text True (v # args)
      else Inl TERMINAL_USAGE)"

definition parse_terminal :: "string list \<Rightarrow> string + Cli" where
  "parse_terminal args =
     (case args of
        command # i # rest \<Rightarrow>
          if command = ''watch'' \<and> rest = [] then Inr (CliTerminalWatch i)
          else if command = ''send'' then
            result_bind (send_flags [] None False rest) (\<lambda>(keys, text, enter).
            result_bind (case (keys = [], text) of
                (False, None) \<Rightarrow> if \<not> enter then Inr (Keys keys) else Inl TERMINAL_USAGE
              | (True, Some text) \<Rightarrow> Inr (Paste text enter)
              | _ \<Rightarrow> Inl TERMINAL_USAGE) (\<lambda>input.
            result_bind (TerminalInput_validate input) (\<lambda>_. Inr (CliTerminalSend i input))))
          else Inl TERMINAL_USAGE
      | _ \<Rightarrow> Inl TERMINAL_USAGE)"

definition first_arg :: "string list \<Rightarrow> string option" where
  "first_arg args = (case args of [] \<Rightarrow> None | a # _ \<Rightarrow> Some a)"

text \<open>A guard that looks at the next argument has taken it, also when it fails.\<close>

definition parse_cli :: "string list \<Rightarrow> string + Cli" where
  "parse_cli args =
     (case args of
        [] \<Rightarrow> Inl (usage ''args...'')
      | first # rest \<Rightarrow>
          if first = ''--status'' \<or> first = ''status'' then Inr CliStatus
          else if first = ''--listen'' \<or> first = ''listen'' then Inr CliListen
          else if first = ''inspect-hooks'' then Inr CliInspectHooks
          else if first = ''setup'' then Inr (CliSetup (first_arg rest) Ensure)
          else if first = ''doctor'' then Inr (CliSetup (first_arg rest) Doctor)
          else if first = ''hooks'' then
            (if first_arg rest = Some ''remove'' then Inr (CliSetup (first_arg (drop 1 rest)) Remove)
             else Inr (CliLaunch first (drop 1 rest)))
          else if first = ''hook'' then
            (if first_arg rest = Some ''emit''
             then (case drop 1 rest of
                     [] \<Rightarrow> Inl ''missing provider''
                   | provider # more_args \<Rightarrow> Inr (CliHookEmit provider (first_arg more_args)))
             else Inr (CliLaunch first (drop 1 rest)))
          else if first = ''completions'' then Inr (CliCompletions (first_arg rest))
          else if first = ''nuke'' then parse_nuke rest
          else if first = ''terminal'' then parse_terminal rest
          else if first = ''--help'' \<or> first = ''-h'' then Inl (usage ''provider arguments...'')
          else Inr (CliLaunch first rest))"

definition unknown_provider :: "AdapterRegistry \<Rightarrow> string \<Rightarrow> string" where
  "unknown_provider registry provider =
     ''unknown provider '' @ in_quotes provider @ ''; expected one of '' @ join '', '' (provider_names registry)"

section \<open>Removing all state\<close>

definition nuke_targets :: "AppPaths \<Rightarrow> HubPaths \<Rightarrow> string list" where
  "nuke_targets app hub = [pt_state_dir app, hp_state_dir hub, pt_runtime_dir app, hp_runtime_dir hub]"

text \<open>What taking a lock gives: \<open>None\<close> when there is no lock file.\<close>

datatype LockProbe = LockMissing | LockFree | LockHeld | LockError string

fun probe_locks :: "(string \<Rightarrow> LockProbe) \<Rightarrow> (string \<times> string) list \<Rightarrow> string + unit" where
  "probe_locks lock [] = Inr ()"
| "probe_locks lock ((name, path) # rest) =
     (case lock path of
        LockHeld \<Rightarrow> Inl (name @ '' is running (holds '' @ path @ ''); stop it first'')
      | LockError e \<Rightarrow> Inl (''probing '' @ path @ '': '' @ e)
      | _ \<Rightarrow> probe_locks lock rest)"

definition nuke_probe_locks :: "(string \<Rightarrow> LockProbe) \<Rightarrow> AppPaths \<Rightarrow> HubPaths \<Rightarrow> string + unit" where
  "nuke_probe_locks lock app hub =
     probe_locks lock [(''sessiontapd'', AppPaths_lock app), (''hook-inspection listener'', hook_inspection_lock app),
       (''sessiontap-hub'', HubPaths_lock hub)]"

record NukeOptions =
  nk_yes :: bool
  nk_dry_run :: bool
  nk_interactive :: bool

text \<open>Removing stops at the first directory that cannot be removed; the result names the removed ones.\<close>

fun remove_all :: "(string \<Rightarrow> bool) \<Rightarrow> string list \<Rightarrow> string list \<times> (string + unit)" where
  "remove_all removable [] = ([], Inr ())"
| "remove_all removable (t # ts) =
     (if removable t then (case remove_all removable ts of (rs, r) \<Rightarrow> (t # rs, r))
      else ([], Inl (''failed to remove '' @ t)))"

datatype NukeResult = NothingToRemove | WouldRemove "string list" | NukeAborted | NukeRemoved "string list"

definition nuke ::
    "(string \<Rightarrow> bool) \<Rightarrow> (string \<Rightarrow> LockProbe) \<Rightarrow> (string \<Rightarrow> bool) \<Rightarrow> AppPaths \<Rightarrow> HubPaths \<Rightarrow> NukeOptions \<Rightarrow> string
     \<Rightarrow> string list \<times> (string + NukeResult)" where
  "nuke exists lock removable app hub options answer =
     (let targets = filter exists (nuke_targets app hub)
      in if targets = [] then ([], Inr NothingToRemove)
         else case nuke_probe_locks lock app hub of
                Inl e \<Rightarrow> ([], Inl e)
              | Inr _ \<Rightarrow>
                  if nk_dry_run options then ([], Inr (WouldRemove targets))
                  else if \<not> nk_yes options \<and> \<not> nk_interactive options
                  then ([], Inl ''stdin is not a terminal; pass --yes to confirm'')
                  else if \<not> nk_yes options \<and> to_ascii_lowercase (trim answer) \<notin> {''y'', ''yes''} then ([], Inr NukeAborted)
                  else case remove_all removable targets of
                         (removed, Inl e) \<Rightarrow> (removed, Inl e)
                       | (removed, Inr _) \<Rightarrow> (removed, Inr (NukeRemoved removed)))"

section \<open>Naming an invocation\<close>

text \<open>\<open>parse\<close> reads a full identifier; \<open>status\<close> is what the broker answers.\<close>

definition resolve_invocation :: "(string \<Rightarrow> InvocationId option) \<Rightarrow> string + Response \<Rightarrow> string \<Rightarrow> string + InvocationId" where
  "resolve_invocation parse status prefix =
     (case parse prefix of
        Some i \<Rightarrow> Inr i
      | None \<Rightarrow>
          (case status of
             Inl e \<Rightarrow> Inl e
           | Inr (RespStatus _ views) \<Rightarrow>
               (case filter (\<lambda>i. starts_with i prefix) (map pv_invocation_id views) of
                  [i] \<Rightarrow> Inr i
                | [] \<Rightarrow> Inl ''not_found''
                | _ \<Rightarrow> Inl (''ambiguous invocation prefix '' @ in_quotes prefix))
           | Inr _ \<Rightarrow> Inl ''unexpected broker response''))"

section \<open>Launching\<close>

definition mux_capabilities :: "bool \<Rightarrow> Capabilities" where
  "mux_capabilities present =
     \<lparr>cp_capture = present, cp_send_input = present, cp_usage = False, cp_terminal = False,
      cp_terminal_policy = TerminalPolicy_default\<rparr>"

definition launch_capabilities :: "Capabilities \<Rightarrow> bool \<Rightarrow> bool \<Rightarrow> Capabilities" where
  "launch_capabilities capabilities interactive in_multiplexer =
     capabilities\<lparr>cp_terminal := interactive \<and> in_multiplexer\<rparr>"

text \<open>What the wrapper knows when it launches an agent.\<close>

record LaunchContext =
  lc_id :: InvocationId
  lc_credential :: string
  lc_provider :: string
  lc_executable :: string
  lc_args :: "string list"
  lc_cwd :: string
  lc_wrapper_pid :: u32
  lc_now :: timestamp
  lc_repository :: "Repository option"
  lc_multiplexer :: "MultiplexerMetadata option"
  lc_interactive :: bool

definition launch_snapshot :: "LaunchContext \<Rightarrow> InvocationSnapshot" where
  "launch_snapshot c =
     \<lparr>sn_schema_version = SCHEMA_VERSION, sn_revision = 0, sn_invocation_id = lc_id c, sn_provider = lc_provider c,
      sn_executable = lc_executable c, sn_args = redact_args (lc_args c), sn_cwd = from_utf8_lossy (lc_cwd c),
      sn_process = \<lparr>pc_wrapper_pid = lc_wrapper_pid c, pc_child_pid = None, pc_start_identity = None,
                    pc_exit_code = None, pc_signal = None\<rparr>,
      sn_created_at = lc_now c, sn_updated_at = lc_now c, sn_lifecycle = Starting, sn_activity = Unknown,
      sn_state_started_at = lc_now c, sn_last_state_asserted_at = None, sn_activity_confirmation = Live,
      sn_last_evidence = None, sn_source_ordering = [], sn_current_tool_activity = None,
      sn_status = derive_status Starting Unknown, sn_provider_session = None, sn_provider_metadata = None,
      sn_usage = None, sn_repository = lc_repository c, sn_multiplexer = lc_multiplexer c,
      sn_capabilities = launch_capabilities (mux_capabilities (lc_multiplexer c \<noteq> None)) (lc_interactive c)
        (lc_multiplexer c \<noteq> None),
      sn_children = [], sn_turn_generation = 0, sn_completed_generation = None\<rparr>"

datatype LaunchLog = BrokerNotRunning | HooksUnavailable string | TrackingUnavailable string

text \<open>
  Whether the launch is tracked: the broker is healthy, the hooks are set up (\<open>None\<close> without a home), and
  the registration was answered. The registration is sent only then. A directory or an adapter that cannot
  be prepared (\<open>prepared\<close>) ends the launch.
\<close>

definition launch_track ::
    "bool \<Rightarrow> (string + unit) option \<Rightarrow> string + Response \<Rightarrow> string + LaunchPreparation \<Rightarrow> LaunchContext
     \<Rightarrow> string + bool \<times> LaunchPreparation \<times> Request list \<times> LaunchLog list" where
  "launch_track healthy hooks reply prepared c =
     (let logs = (if healthy then [] else [BrokerNotRunning])
                 @ (if healthy then (case hooks of Some (Inl e) \<Rightarrow> [HooksUnavailable e] | _ \<Rightarrow> []) else []);
          sent = [ReqRegister (launch_snapshot c) (lc_credential c)];
          untracked = (\<lambda>e. (False, LaunchPreparation_default, sent, logs @ [TrackingUnavailable e]))
      in if \<not> (healthy \<and> hooks = Some (Inr ())) then Inr (False, LaunchPreparation_default, [], logs)
         else result_bind prepared (\<lambda>prep.
                Inr (case reply of
                       Inr RespOk \<Rightarrow> (True, prep, sent, logs)
                     | Inr (RespError e) \<Rightarrow> untracked (er_message e)
                     | Inr _ \<Rightarrow> untracked ''unexpected broker response''
                     | Inl e \<Rightarrow> untracked e)))"

definition TRACKING_KEYS :: "string list" where
  "TRACKING_KEYS = [''SESSIONTAP_INVOCATION_ID'', ''SESSIONTAP_CREDENTIAL'', ''SESSIONTAP_PROVIDER'', ''SESSIONTAP_WORKSPACE'']"

definition launch_env :: "bool \<Rightarrow> LaunchContext \<Rightarrow> LaunchPreparation \<Rightarrow> env \<Rightarrow> env" where
  "launch_env tracked c prep inherited =
     (let base = (if tracked
            then inherited(''SESSIONTAP_INVOCATION_ID'' \<mapsto> lc_id c, ''SESSIONTAP_CREDENTIAL'' \<mapsto> lc_credential c,
                   ''SESSIONTAP_PROVIDER'' \<mapsto> lc_provider c, ''SESSIONTAP_WORKSPACE'' \<mapsto> lc_cwd c)
            else (\<lambda>k. if k \<in> set TRACKING_KEYS then None else inherited k))
      in fold (\<lambda>(k, v) e. e(k \<mapsto> v)) (lp_environment prep) base)"

definition launch_args :: "LaunchContext \<Rightarrow> LaunchPreparation \<Rightarrow> string list" where
  "launch_args c prep = lc_args c @ lp_extra_args prep"

definition launch_bound :: "bool \<Rightarrow> LaunchContext \<Rightarrow> ProcStat \<Rightarrow> u32 \<Rightarrow> Request list" where
  "launch_bound tracked c read_stat pid =
     (if tracked then [ReqBindChild (lc_id c) (lc_credential c) pid (process_start_identity read_stat pid)] else [])"

definition launch_exited :: "bool \<Rightarrow> LaunchContext \<Rightarrow> i32 option \<Rightarrow> i32 option \<Rightarrow> Request list" where
  "launch_exited tracked c code signal =
     (if tracked then [ReqLifecycleExit (lc_id c) (lc_credential c) code signal] else [])"

definition launch_exit_code :: "i32 option \<Rightarrow> i32 option \<Rightarrow> i32" where
  "launch_exit_code code signal = (case code of Some c \<Rightarrow> c | None \<Rightarrow> 128 + unwrap_or signal 1)"

section \<open>Hooks\<close>

definition INSPECTION_MAX_INPUT_BYTES :: nat where "INSPECTION_MAX_INPUT_BYTES = 32 * 1024"

text \<open>The codec of \<^verbatim>\<open>serde_json\<close> for byte slices.\<close>

record SliceCodec =
  sl_from_slice :: "string \<Rightarrow> Json option"
  sl_to_vec :: "Json \<Rightarrow> string"

definition prepare_hook_payload :: "SliceCodec \<Rightarrow> string \<Rightarrow> string option \<Rightarrow> string \<times> Json option" where
  "prepare_hook_payload sl raw event =
     (if length raw > INSPECTION_MAX_INPUT_BYTES then (raw, None)
      else case sl_from_slice sl raw of
             None \<Rightarrow> (raw, None)
           | Some v \<Rightarrow>
               (case (event, v) of
                  (Some event_name, JObject members) \<Rightarrow>
                    if map_of members ''hook_event_name'' \<noteq> None then (raw, Some v)
                    else let v' = JObject (obj_insert ''hook_event_name'' (JString event_name) members)
                         in (sl_to_vec sl v', Some v')
                | _ \<Rightarrow> (raw, Some v)))"

definition hook_type :: "Json \<Rightarrow> string option" where
  "hook_type v = Option.bind (or_else (get ''hook_event_name'' v) (or_else (get ''event_name'' v) (get ''type'' v))) as_str"

text \<open>\<open>hex\<close> is the encoding of \<^verbatim>\<open>hex::encode\<close>.\<close>

definition inspection_record :: "SliceCodec \<Rightarrow> (string \<Rightarrow> string) \<Rightarrow> string \<Rightarrow> string \<Rightarrow> string" where
  "inspection_record sl hex provider raw =
     (let (kind, payload) =
            (if length raw > INSPECTION_MAX_INPUT_BYTES
             then (None, JObject [(''at_least_bytes'', JNumber (PosInt (of_nat (length raw)))),
                    (''inspection_error'', JString ''oversized_input''),
                    (''maximum_bytes'', JNumber (PosInt (of_nat INSPECTION_MAX_INPUT_BYTES)))])
             else case sl_from_slice sl raw of
                    Some v \<Rightarrow> (hook_type v, v)
                  | None \<Rightarrow> (None, JObject [(''bytes'', JString (hex raw)), (''encoding'', JString ''hex''),
                      (''inspection_error'', JString ''invalid_json'')]))
      in sl_to_vec sl (JObject [(''hook_type'', case kind of None \<Rightarrow> JNull | Some k \<Rightarrow> JString k), (''payload'', payload),
           (''provider'', JString provider)]))"

definition valid_inspection_record :: "SliceCodec \<Rightarrow> string \<Rightarrow> bool" where
  "valid_inspection_record sl record =
     (case sl_from_slice sl record of
        Some (JObject members) \<Rightarrow>
          length members = 3
          \<and> is_some_and (\<lambda>v. as_str v \<noteq> None) (map_of members ''provider'')
          \<and> is_some_and (\<lambda>v. v = JNull \<or> as_str v \<noteq> None) (map_of members ''hook_type'')
          \<and> map_of members ''payload'' \<noteq> None
      | _ \<Rightarrow> False)"

text \<open>
  \<open>hook emit\<close>: the record for the inspector and the request for the broker. \<open>fresh\<close> is the random
  identifier an event without one gets.
\<close>

definition hook_emit ::
    "Platform \<Rightarrow> SliceCodec \<Rightarrow> (string \<Rightarrow> string) \<Rightarrow> (string \<Rightarrow> InvocationId option) \<Rightarrow> AdapterRegistry \<Rightarrow> env \<Rightarrow> timestamp \<Rightarrow> string
     \<Rightarrow> string \<Rightarrow> string option \<Rightarrow> string \<Rightarrow> string option \<times> Request option" where
  "hook_emit pf sl hex uuid_parse registry env now fresh provider event stdin =
     (case prepare_hook_payload sl (take (INSPECTION_MAX_INPUT_BYTES + 1) stdin) event of
        (raw, v) \<Rightarrow>
          (case (env ''SESSIONTAP_INVOCATION_ID'', env ''SESSIONTAP_CREDENTIAL'') of
             (Some i, Some credential) \<Rightarrow>
               if env ''SESSIONTAP_PROVIDER'' \<noteq> Some provider then (None, None)
               else (case (uuid_parse i, resolve registry provider) of
                       (Some uuid, Some (adapter, _)) \<Rightarrow>
                         let record = Some (inspection_record sl hex provider raw)
                         in (case v of
                               None \<Rightarrow> (record, None)
                             | Some v \<Rightarrow>
                                 (case AdapterOutcome_into_event (normalize_with_evidence (dialect_of pf adapter) now fresh uuid v
                                     (EventEvidence_managed_hook ADAPTER_API_VERSION) \<lparr>nc_workspace = env ''SESSIONTAP_WORKSPACE''\<rparr>) of
                                    None \<Rightarrow> (record, None)
                                  | Some e \<Rightarrow>
                                      (record, Some (ReqHookIngest provider uuid credential ((na_event e)\<lparr>ev_provider := provider\<rparr>)
                                         (na_status_reason e) (na_collection_context e)))))
                     | _ \<Rightarrow> (None, None))
           | _ \<Rightarrow> (None, None)))"

end
