(* ===== verification/Wrapper_Props.thy ===== *)
theory Wrapper_Props
  imports Wrapper Broker_Props
begin

text \<open>
  From a hook to the store: what the wrapper registers is well-formed, what it reports for an agent it
  launched is accepted and recorded by the broker, and an agent it does not track knows no credential.
\<close>

section \<open>Launching\<close>

lemma wf_launch_snapshot: "wf_snapshot (launch_snapshot c)"
  by (simp add: launch_snapshot_def wf_snapshot_def wf_children_def wf_cursors_def ended_def)

text \<open>The broker knows the agent: its row has the provider and the credential of the launch.\<close>

definition launched :: "App \<Rightarrow> LaunchContext \<Rightarrow> bool" where
  "launched app c =
     is_some_and (\<lambda>row. ir_provider row = lc_provider c \<and> ir_credential row = lc_credential c)
       (tbl_lookup ir_invocation_id (lc_id c) (db_invocations (app_store app)))"

lemma registered_launched:
  assumes "process co (ReqRegister (launch_snapshot c) (lc_credential c)) app wall instant = (app', Inr RespOk)"
  shows "launched app' c"
proof -
  obtain p db n where r: "register (co_codec co) (app_store app)
      ((launch_snapshot c)\<lparr>sn_capabilities := (sn_capabilities (launch_snapshot c))\<lparr>cp_terminal_policy := p\<rparr>\<rparr>)
      (lc_credential c) (Some (co_publish co)) wall = Inr (db, n)" "app_store app' = db"
    using assms by (auto simp: process_def answered_def App_register_def Let_def result_bind_Inr split: sum.splits)
  show ?thesis
    using register_Inr [OF r(1)] r(2)
    by (simp add: launched_def tbl_lookup_put is_some_and_def launch_snapshot_def snapshot_row_def)
qed

text \<open>An agent that is not tracked finds no credential in its environment.\<close>

lemma untracked_has_no_credential:
  assumes "launch_track healthy hooks reply prepared c = Inr (False, prep, reqs, logs)"
  shows "launch_env False c prep inherited ''SESSIONTAP_CREDENTIAL'' = None"
proof -
  have "prep = LaunchPreparation_default"
  proof (cases "healthy \<and> hooks = Some (Inr ())")
    case True
    with assms show ?thesis
      by (cases prepared; cases reply) (auto simp: launch_track_def Let_def split: Response.splits)
  next
    case False
    with assms show ?thesis by (simp add: launch_track_def Let_def)
  qed
  then show ?thesis by (simp add: launch_env_def TRACKING_KEYS_def LaunchPreparation_default_def)
qed

lemma tracked_env:
  assumes "lp_environment prep = []"
  shows "launch_env True c prep inherited ''SESSIONTAP_INVOCATION_ID'' = Some (lc_id c)"
    "launch_env True c prep inherited ''SESSIONTAP_CREDENTIAL'' = Some (lc_credential c)"
    "launch_env True c prep inherited ''SESSIONTAP_PROVIDER'' = Some (lc_provider c)"
  using assms by (simp_all add: launch_env_def)

section \<open>Removing state\<close>

lemma remove_all_subset: "set (fst (remove_all removable ts)) \<subseteq> set ts"
  by (induction ts) (auto split: prod.splits)

lemma probe_locks_held: "probe_locks lock ps = Inr () \<Longrightarrow> list_all (\<lambda>(_, path). lock path \<noteq> LockHeld) ps"
  by (induction ps) (auto split: LockProbe.splits)

text \<open>
  Something is removed only when it was asked for and confirmed, while no broker, inspector or hub holds its
  lock, and only the state and runtime directories: configuration is never removed.
\<close>

lemma nuke_removes:
  assumes "nuke exists lock removable app hub options answer = (removed, result)" "removed \<noteq> []"
  shows "\<not> nk_dry_run options" "nk_yes options \<or> nk_interactive options \<and> to_ascii_lowercase (trim answer) \<in> {''y'', ''yes''}"
    "lock (AppPaths_lock app) \<noteq> LockHeld" "lock (hook_inspection_lock app) \<noteq> LockHeld" "lock (HubPaths_lock hub) \<noteq> LockHeld"
    "set removed \<subseteq> set (nuke_targets app hub)"
proof -
  let ?targets = "filter exists (nuke_targets app hub)"
  have guards: "\<not> nk_dry_run options" "nk_yes options \<or> nk_interactive options \<and> to_ascii_lowercase (trim answer) \<in> {''y'', ''yes''}"
      "nuke_probe_locks lock app hub = Inr ()" "removed = fst (remove_all removable ?targets)"
    using assms by (auto simp: nuke_def Let_def split: sum.splits if_splits prod.splits)
  then show "\<not> nk_dry_run options" "nk_yes options \<or> nk_interactive options \<and> to_ascii_lowercase (trim answer) \<in> {''y'', ''yes''}"
    by simp_all
  show "lock (AppPaths_lock app) \<noteq> LockHeld" "lock (hook_inspection_lock app) \<noteq> LockHeld" "lock (HubPaths_lock hub) \<noteq> LockHeld"
    using probe_locks_held [OF guards(3) [unfolded nuke_probe_locks_def]] by simp_all
  show "set removed \<subseteq> set (nuke_targets app hub)"
    using remove_all_subset [of removable ?targets] guards(4) by auto
qed

section \<open>Records of the inspector\<close>

text \<open>Every record the wrapper sends is one the inspector accepts.\<close>

lemma inspection_record_valid:
  assumes "\<And>v. sl_from_slice sl (sl_to_vec sl v) = Some v"
  shows "valid_inspection_record sl (inspection_record sl hex provider raw)"
  by (simp add: inspection_record_def valid_inspection_record_def assms Let_def is_some_and_def split: prod.splits option.splits)

section \<open>Payloads\<close>

text \<open>
  The driver takes the session of an event as the payload has it, and the session of its collection
  without surrounding space.
\<close>

definition unpadded :: "Json \<Rightarrow> bool" where
  "unpadded v \<longleftrightarrow> is_none_or (\<lambda>s. trim s = s) (get_str ''session_id'' v)"

lemma hook_context_session:
  assumes "unpadded raw" "hook_collection_context p raw = Some x"
  shows "get_str ''session_id'' raw = Some (ac_provider_session_id x)"
  using assms
  by (auto simp: unpadded_def hook_collection_context_def filter_opt_def is_none_or_iff bind_eq_Some_conv split: option.splits if_splits)

lemma context_session:
  assumes "unpadded raw" "hd_collection_context (dialect_of pf p) raw = Some x"
  shows "hd_provider_session_id (dialect_of pf p) raw = Some (ac_provider_session_id x)"
proof (cases p)
  case Agy
  with assms(2) show ?thesis
    by (auto simp: dialect_of_def AgyDialect_def Agy_collection_context_def filter_opt_def bind_eq_Some_conv split: option.splits if_splits)
qed (use assms hook_context_session in \<open>auto simp: dialect_of_def ClaudeDialect_def CodexDialect_def QwenDialect_def PiDialect_def
    default_provider_session_id_def default_collection_context_def\<close>)

lemma normalized_fields:
  assumes "normalize_with_evidence d now fresh i raw evidence ctx = OutcomeEvent e"
  shows "ev_invocation_id (na_event e) = i" "ev_provider_session_id (na_event e) = hd_provider_session_id d raw"
    "na_collection_context e = Some x \<Longrightarrow> hd_collection_context d raw = Some x"
  using assms by (auto simp: normalize_with_evidence_def build_def Let_def only_root_def split: option.splits if_splits)

definition payload_accepted :: "ProviderId \<Rightarrow> Json \<Rightarrow> bool" where
  "payload_accepted p v \<longleftrightarrow> json_valid v \<and> unpadded v \<and> (p = Agy \<longrightarrow> step_ok v)"

lemma normalized_event_accepted:
  assumes "platform_ok pf" "payload_accepted p v" "validate_evidence evidence = Inr ()"
    and n: "normalize_with_evidence (dialect_of pf p) now fresh i v evidence ctx = OutcomeEvent e"
  shows "validate_event (na_event e) (na_status_reason e) = Inr ()"
proof (cases p)
  case Agy
  with assms show ?thesis using agy.normalized_accepted by (auto simp: dialect_of_def payload_ok_def payload_accepted_def)
qed (use assms claude.normalized_accepted codex.normalized_accepted qwen.normalized_accepted pi.normalized_accepted
    in \<open>auto simp: dialect_of_def payload_ok_def payload_accepted_def\<close>)

lemma validate_event_cong:
  "validate_event (e\<lparr>ev_provider := p, ev_received_at := t\<rparr>) r = validate_event e r"
  by (simp add: validate_event_def validate_tool_activity_def validate_child_agent_def)

section \<open>From the hook to the store\<close>

text \<open>A hook of a tracked agent reports an event that the reducer accepts, about that agent.\<close>

lemma hook_emit_request:
  assumes "hook_emit pf sl hex uuid_parse registry env now fresh provider event stdin =
      (insp, Some (ReqHookIngest p i credential e r ctx))"
    and "prepare_hook_payload sl (take (INSPECTION_MAX_INPUT_BYTES + 1) stdin) event = (raw, Some v)"
    and "resolve registry provider = Some (adapter, alias)"
  obtains uuid n where "normalize_with_evidence (dialect_of pf adapter) now fresh i v
      (EventEvidence_managed_hook ADAPTER_API_VERSION) \<lparr>nc_workspace = env ''SESSIONTAP_WORKSPACE''\<rparr> = OutcomeEvent n"
    "e = (na_event n)\<lparr>ev_provider := provider\<rparr>" "r = na_status_reason n" "ctx = na_collection_context n" "p = provider"
    "env ''SESSIONTAP_INVOCATION_ID'' = Some uuid" "uuid_parse uuid = Some i" "env ''SESSIONTAP_CREDENTIAL'' = Some credential"
proof -
  obtain uuid where env: "env ''SESSIONTAP_INVOCATION_ID'' = Some uuid" "uuid_parse uuid = Some i"
      "env ''SESSIONTAP_CREDENTIAL'' = Some credential" "p = provider"
    using assms by (simp add: hook_emit_def Let_def split: option.splits if_splits)
  obtain n where n: "normalize_with_evidence (dialect_of pf adapter) now fresh i v
      (EventEvidence_managed_hook ADAPTER_API_VERSION) \<lparr>nc_workspace = env ''SESSIONTAP_WORKSPACE''\<rparr> = OutcomeEvent n"
      "e = (na_event n)\<lparr>ev_provider := provider\<rparr>" "r = na_status_reason n" "ctx = na_collection_context n"
    using assms env
    by (cases "normalize_with_evidence (dialect_of pf adapter) now fresh i v
      (EventEvidence_managed_hook ADAPTER_API_VERSION) \<lparr>nc_workspace = env ''SESSIONTAP_WORKSPACE''\<rparr>")
      (simp_all add: hook_emit_def Let_def split: if_splits)
  show ?thesis by (rule that [OF n env(4,1-3)])
qed

lemma launched_credential:
  assumes "launched app c"
  shows "credential_matches (app_store app) (lc_id c) (lc_provider c) (lc_credential c)"
  using assms by (auto simp: launched_def credential_matches_def is_some_and_iff constant_time_eq_correct)

lemma accepted_hook:
  assumes "ev_invocation_id e = i" "ev_provider e = p"
    "is_none_or (\<lambda>c. ev_provider_session_id e = Some (ac_provider_session_id c)) ctx"
    "credential_matches (app_store app) i p credential"
    and commits: "apply_event_with_context (co_codec co) (app_store app) (e\<lparr>ev_received_at := wall\<rparr>) r (Some (co_publish co)) wall
      = Inr (db, u)"
  shows "\<exists>app'. process co (ReqHookIngest p i credential e r ctx) app wall instant = (app', Inr RespOk) \<and> app_store app' = db"
  using assms
  by (auto simp: process_def answered_def ingest_hook_def in_store_def is_some_and_iff is_none_or_iff broadcast_def split: prod.splits option.splits)


text \<open>
  Padding is not harmless: the collection of a padded session is keyed by the trimmed identifier, the event
  carries the identifier as it is, and the broker refuses the whole hook because the two differ.
\<close>

lemma padded_session_refused:
  assumes "normalize_with_evidence (ClaudeDialect pf) now fresh i v evidence w = OutcomeEvent n"
    and "na_collection_context n \<noteq> None" and "\<not> unpadded v"
  shows "process co (ReqHookIngest p i credential ((na_event n)\<lparr>ev_provider := p\<rparr>) r (na_collection_context n)) app wall instant =
    (app, Inl (FailedOther ''unknown or invalid hook context''))"
proof -
  obtain x where x: "na_collection_context n = Some x" using assms(2) by blast
  have "hook_collection_context Claude v = Some x" "ev_provider_session_id (na_event n) = get_str ''session_id'' v"
    using normalized_fields(2,3) [OF assms(1)] x by (simp_all add: ClaudeDialect_def default_provider_session_id_def)
  then have "ev_provider_session_id (na_event n) \<noteq> Some (ac_provider_session_id x)"
    using assms(3)
    by (cases x) (auto simp: unpadded_def hook_collection_context_def filter_opt_def bind_eq_Some_conv is_none_or_iff split: if_splits)
  then show ?thesis by (simp add: process_def ingest_hook_def answered_def x)
qed

definition sample_launch :: LaunchContext where
  "sample_launch = \<lparr>lc_id = ''inv-1'', lc_credential = ''secret'', lc_provider = ''claude'', lc_executable = ''claude'', lc_args = [],
     lc_cwd = ''/work'', lc_wrapper_pid = 1, lc_now = 0, lc_repository = None, lc_multiplexer = None, lc_interactive = True\<rparr>"

definition sample_slice :: "Json \<Rightarrow> SliceCodec" where
  "sample_slice v = \<lparr>sl_from_slice = (\<lambda>_. Some v), sl_to_vec = (\<lambda>_. ''{}'')\<rparr>"

abbreviation sample_hook_run :: "Json \<Rightarrow> string option \<times> Request option" where
  "sample_hook_run v \<equiv> hook_emit sample_platform (sample_slice v) (\<lambda>s. s) Some (AdapterRegistry_new [])
     (launch_env True sample_launch LaunchPreparation_default (\<lambda>_. None)) 5 ''u'' (lc_provider sample_launch) None ''{}''"

lemma sample_payload: "prepare_hook_payload (sample_slice v) (take (INSPECTION_MAX_INPUT_BYTES + 1) ''{}'') None = (''{}'', Some v)"
  by (simp add: prepare_hook_payload_def sample_slice_def INSPECTION_MAX_INPUT_BYTES_def)

lemma sample_resolved: "resolve (AdapterRegistry_new []) (lc_provider sample_launch) = Some (Claude, ''claude'')"
  by (simp add: resolve_def sample_launch_def ProviderId_from_str_def ProviderId_ALL_def)

text \<open>The start of a turn, which carries no reason.\<close>

definition sample_prompt :: Json where
  "sample_prompt = JObject [(''hook_event_name'', JString ''UserPromptSubmit''), (''session_id'', JString ''s1'')]"

lemma sample_id_unpadded: "trim ''s1'' = ''s1''"
proof -
  have "chars ''s1'' = [115, 49]" using chars_ascii [of "''s1''"] by (simp add: ascii_def byte_def)
  moreover have "utf8 [115, 49] = ''s1''" using utf8_ascii [of "''s1''"] by (simp add: ascii_def byte_def)
  ultimately show ?thesis by (simp add: trim_def trim_matches_def is_whitespace_def)
qed

lemma sample_request_emitted:
  obtains insp p i credential e ctx where "sample_hook_run sample_prompt = (insp, Some (ReqHookIngest p i credential e None ctx))"
proof -
  obtain n where "normalize_with_evidence (ClaudeDialect sample_platform) 5 ''u'' ''inv-1'' sample_prompt
      (EventEvidence_managed_hook ADAPTER_API_VERSION) \<lparr>nc_workspace = Some ''/work''\<rparr> = OutcomeEvent n" "na_status_reason n = None"
    by (simp add: normalize_with_evidence_def ClaudeDialect_def Claude_classify_def sample_prompt_def
        Claude_is_subagent_payload_def Claude_classify_root_def asks_user_def get_str_def Let_def build_def)
  then show ?thesis
    using that sample_resolved unfolding hook_emit_def sample_payload
    by (auto simp: launch_env_def LaunchPreparation_default_def sample_launch_def dialect_of_def)
qed


end
