(* ===== verification/Spec2Isabelle.thy ===== *)
theory Spec2Isabelle
  imports Reducer_Props Sync Workers_Props Adapters_Props Hooks_Props Side_Channel Hub_Routing Hub_Listen Hub_Relay_Isolation Hub_Access Control_Props Tmux_Props Tmux_Commands Wrapper_Props
begin

text \<open>
  A verification development of sessiontap, a local service that follows coding agents.

  \<^bold>\<open>The program.\<close> Hooks of a coding agent (Claude Code, Codex, Qwen, pi, Antigravity) report what the
  agent does. An adapter (\<^verbatim>\<open>crates/sessiontap-adapters\<close>) turns the provider's payload into a
  normalized event. The broker (\<^verbatim>\<open>crates/sessiontapd\<close>) runs the event through the reducer
  (\<^verbatim>\<open>crates/sessiontap-core/src/reducer.rs\<close>), which holds the state machine of an invocation, and
  commits the outcome to its store (\<^verbatim>\<open>crates/sessiontap-storage\<close>) together with the updates of its
  sinks. A delivery worker sends them on, to an HTTP receiver or to the hub
  (\<^verbatim>\<open>crates/sessiontap-hub\<close>), which merges the agents of several brokers and serves devices.

  \<^bold>\<open>Theories and sources.\<close> One theory per component. Names of definitions are those of the source;
  a method \<open>T::m\<close> is \<open>T_m\<close> where \<open>m\<close> alone would clash.

  \<^item> \<open>Prelude\<close>, \<open>Tables\<close>: machine integers, instants, UTF-8 text, results, keyed tables. Locales
    \<open>keyed_store\<close> (what a read returns after an upsert or a delete), with interpretations on every
    table of the broker and the hub, and \<open>text_enum\<close> (enums with a text form).
  \<^item> \<open>Provider\<close>, \<open>Terminal\<close>, \<open>Domain\<close>, \<open>Protocol\<close>: the data of \<^verbatim>\<open>sessiontap-core\<close> (\<^verbatim>\<open>provider.rs\<close>,
    \<^verbatim>\<open>terminal.rs\<close>, \<^verbatim>\<open>domain.rs\<close>, \<^verbatim>\<open>protocol.rs\<close>) with its parsers, projections and views.
  \<^item> \<open>Reducer\<close>, \<open>Reducer_Lemmas\<close>, \<open>Reducer_Props\<close>: \<^verbatim>\<open>reducer.rs\<close>, stage by stage. A snapshot in, a
    snapshot and a report out, errors as values. The lemmas bring each stage into the form of one
    record update; the properties are the invariant of a snapshot and what each kind of event may
    change. \<open>Samples\<close> holds the inputs of the witnesses.
  \<^item> \<open>Storage\<close>, \<open>Storage_Lemmas\<close>, \<open>Storage_Sweeps\<close>, \<open>Storage_Props\<close>: the broker's SQLite store as a
    record of tables; each function is a transaction on it, and an error is a rollback. The step
    relation \<open>broker_step\<close> has one rule per operation.
  \<^item> \<open>Config\<close>, \<open>Validation\<close>: \<^verbatim>\<open>config.rs\<close>, the broker's configuration and its validation.
  \<^item> \<open>Sinks\<close>, \<open>Workers\<close>, \<open>Workers_Props\<close>: \<^verbatim>\<open>sessiontapd/src/sinks\<close> and \<^verbatim>\<open>workers.rs\<close>, building the
    sinks, selecting fields, reading replies, baselines with backoff and outbox rounds.
  \<^item> \<open>Hub_Scope\<close>, \<open>Hub_Store\<close>, \<open>Hub_Props\<close>: \<^verbatim>\<open>scope.rs\<close> and \<^verbatim>\<open>store.rs\<close> of the hub, with its own
    step relation.
  \<^item> \<open>Http\<close>: the HTTP request reader of \<^verbatim>\<open>sessiontap-infra/src/http.rs\<close> on the list of results of its
    reads, and the request as it is read off all bytes at once.
  \<^item> \<open>Hub_Config\<close>, \<open>Hub_Ingest\<close>, \<open>Hub_Routing\<close>: \<^verbatim>\<open>config.rs\<close>, \<^verbatim>\<open>ingest.rs\<close> and \<^verbatim>\<open>routing.rs\<close> of the
    hub. A connection is its reads; serving it gives the new store, the answer and the publication.
    Commands of subscriptions are tasks that share permits, a step relation with free interleaving.
  \<^item> \<open>Hub_Listen\<close>: \<^verbatim>\<open>listen.rs\<close>, the merged stream with a consumer of it. The locale \<open>hub_publisher\<close>
    states what every writer of the hub promises about what it publishes; serving a connection,
    forgetting and device changes interpret it.
  \<^item> \<open>Hub_Relay\<close>, \<open>Hub_Relay_Props\<close>, \<open>Hub_Relay_Isolation\<close>: \<^verbatim>\<open>relay.rs\<close>, the terminal streams of
    devices over the control channels of the sources; runs are sequences of its operations.
  \<^item> \<open>Hub_Endpoints\<close>, \<open>Hub_Service\<close>, \<open>Hub_Pairing\<close>: \<^verbatim>\<open>endpoints.rs\<close> and \<^verbatim>\<open>service.rs\<close>, the hub that all
    connections share: endpoint hints, revocation, scopes, pairing windows with their MAC, tries and
    rate limit, the requests of the Unix socket and the conversation with the operator.
  \<^item> \<open>Hub_Remote\<close>, \<open>Hub_Remote_Props\<close>, \<open>Hub_Access\<close>: \<^verbatim>\<open>remote.rs\<close>, the caps on connections, every request
    of a device and the loop of its connection; then hub, gate and all connections as one step
    relation \<open>sys_step\<close>, with the invariant on who may have a terminal open.
  \<^item> \<open>Usage\<close>, \<open>Usage_Props\<close>: \<^verbatim>\<open>sessiontapd/src/usage_coordinator.rs\<close>, the collection of session data after
    hooks. The locked sections are functions; one worker per session goes through them, and
    \<open>usage_step\<close> interleaves hooks and workers.
  \<^item> \<open>Terminals\<close>, \<open>Terminals_Props\<close>: \<^verbatim>\<open>terminal.rs\<close>, the terminal sessions with their reader and poller and
    the watchers on a bounded channel; \<open>terminal_step\<close> interleaves them.
  \<^item> \<open>Broker\<close>, \<open>Broker_Updates\<close>, \<open>Broker_Props\<close>: \<^verbatim>\<open>app.rs\<close> and the dispatch and listen loop of \<^verbatim>\<open>server.rs\<close>. Every
    method is a function on the shared state; what an operation announces is related to what it
    commits (\<open>advances\<close>), and \<open>listening_step\<close> runs the broker with a client.
  \<^item> \<open>Control\<close>, \<open>Control_Props\<close>: \<^verbatim>\<open>control.rs\<close>, the channel on which a hub opens terminals and types.
  \<^item> \<open>Process\<close>, \<open>Tmux\<close>, \<open>Tmux_Commands\<close>, \<open>Tmux_Props\<close>: \<^verbatim>\<open>process.rs\<close> and \<^verbatim>\<open>multiplexer/\<close> of \<^verbatim>\<open>sessiontap-infra\<close>, status
    lines of processes, the control-mode protocol, the stream of a pane and the commands of the adapter.
  \<^item> \<open>Wrapper\<close>, \<open>Wrapper_Props\<close>: \<^verbatim>\<open>sessiontap/src/main.rs\<close> and \<^verbatim>\<open>sessiontap-core/src/paths.rs\<close>, the command that launches
    agents, reports their hooks, and removes all state, and the directories of all programs.
  \<^item> \<open>Sync\<close> and this theory: broker and hub together, the simulation between their stores.
  \<^item> \<open>Json\<close>, \<open>Text\<close>, \<open>Paths\<close>: the parts of \<^verbatim>\<open>serde_json\<close>, \<^verbatim>\<open>str\<close> and \<^verbatim>\<open>std::path\<close> the adapters use.
  \<^item> \<open>Adapters\<close>, \<open>Adapters_Lemmas\<close>, \<open>Dialect\<close>, \<open>Dialects\<close>, \<open>Antigravity\<close>, \<open>Antigravity_Lemmas\<close>:
    the shared functions of \<^verbatim>\<open>sessiontap-adapters/src/lib.rs\<close>, the driver (\<^verbatim>\<open>driver.rs\<close>) over a record
    of functions that stands for the trait \<open>HookDialect\<close> (\<^verbatim>\<open>dialect.rs\<close>), and the five dialects. The
    locale \<open>bounded_dialect\<close> states what the driver relies on; each dialect is an interpretation.
  \<^item> \<open>Collectors\<close>, \<open>Collectors_Lemmas\<close>: \<^verbatim>\<open>artifact.rs\<close> and the scans of session files. The locale
    \<open>token_ledger\<close> counts each record once; the Claude and Antigravity counters interpret it.
  \<^item> \<open>Hooks\<close>, \<open>Hooks_Props\<close>, \<open>Side_Channel\<close>, \<open>Adapters_Props\<close>: installing managed hooks beside the
    user's own, tailing Qwen's event file, and the properties of the adapters.

  \<^bold>\<open>What the theorems show.\<close>
  Reducer: an invariant kept by every event; an ended turn and an ended invocation stay ended; a
  replayed sequence changes nothing; passive channels have no authority; child events touch only
  their child. Store: its invariant in every reachable state; an event is applied once; a wrong
  credential is refused; an update describes exactly the visible change; the sweeps leave nothing
  behind; the outbox stays bounded. Delivery: a record leaves the queue only delivered or repaired by
  a baseline, and the queue drains. Broker: a listener that has read the channel holds exactly the
  views of the store; acting for an invocation takes its credential; a pane is written to only past
  every guard, and with control off not at all; a watcher of a terminal shows what its session shows;
  collections are bounded, never overlap and come to an end after the last hook. Wrapper: a hook of an agent
  it launched ends up in the store; state is removed only when confirmed and unused. tmux: its protocol is
  read back whole, and a pane stream leads with a snapshot and delivers the ones asked for. Hub: its invariant, tombstones that hold, snapshots that
  replace one source, redelivery without effect. Together: a snapshot brings the hub in step with
  the broker, and an event that is delivered keeps it there; a listener of the hub catches up with it
  whatever it misses. Relay: a device that keeps up shows the source's screen, and devices cannot
  touch each other's terminals. Remote access: a request is carried out only for a device that is
  paired now and holds its scope; no terminal stays open for a device that is revoked or lost its
  scope; a pairing window gives away a bounded number of guesses and at most one claim; the caps on
  connections hold and nothing leaks. Adapters: what they normalize, the
  reducer accepts; a subagent's payload is never taken for the session; secrets are removed from
  shown arguments; tokens are counted once; foreign hooks survive installation and removal.

  \<^bold>\<open>Parameters.\<close> Code outside the repository is an argument of the definitions that use it: the
  serde codecs of stored events and reasons, TOML, URL and address parsing, the JSON parser and
  printer, the Unicode tables and the file system (record \<open>Platform\<close> and the argument of the
  collectors), the HTTP client (the reply is data), the clock, the calendar arithmetic and the
  liveness probe of processes; for the hub (record \<open>HubLib\<close>) SHA-256, HMAC, base64 and hex, JSON
  decoding and the rounding of \<open>f64\<close>; for the broker (records \<open>Mux\<close> and \<open>AppConfig\<close>) the multiplexer
  adapter and the start identities of processes; running tmux and the status lines of processes; while random secrets and nonces are inputs. Hypotheses on them (\<open>platform_ok\<close>, round trips of a codec) are named
  and instantiated in the witnesses.

  \<^bold>\<open>Choices.\<close> \<open>turn_generation\<close> is an unsigned 64-bit word and wraps, as it does in the release build; counters that SQLite keeps in signed 64-bit columns are natural numbers with the
  conversion errors written out, so theorems about them bound the counter by \<open>2 ^ 63\<close>. Instants are
  integers; the store compares their fixed-width texts, which orders them the same way. A table
  without an \<open>ORDER BY\<close> is read in rowid order. \<open>tool_arg\<close> decodes nested JSON text with fuel, the
  length of the text: each decoding drops the quotes, and \<open>tool_arg_fuel\<close> shows more fuel changes
  nothing. What the tasks of the broker do under one lock is one step, a task's abort takes effect at
  once, and a broadcast channel is the list of all that was sent with a position per reader. All other loops are structural or have a termination proof.

  \<^bold>\<open>Not modelled.\<close> What only moves bytes or starts processes: sockets, file locking, process
  start, the command line of the hub and the example receiver; and the JSON, TOML and YAML encodings, which are
  serde's. TLS, WebSocket framing and multicast DNS are libraries.
  Of the wrapper, the terminal modes and signals of the child and what is printed are left out.
\<close>

section \<open>A broker and a hub\<close>

definition sample_publish :: Publish where
  "sample_publish = \<lparr>pb_sinks = [], pb_source_id = ''host'', pb_source_name = None\<rparr>"

lemma sample_reasons: "valid_reasons (db_reasons sample_db)"
  by (simp add: valid_reasons_def sample_db_def Db_empty_def)

lemma sample_in_step: obtains hub where "hub_reachable HubDb_empty hub" "hd_revision hub = 1"
  "hd_deliveries hub = []" "in_step ''host'' sample_db hub"
proof -
  obtain vs hub where s: "ingest_snapshot HubDb_empty (snapshot_envelope ''host'' None (db_revision sample_db) vs) 5 =
      Inr (hub, SnapshotApplied (hd_revision HubDb_empty + 1))" and i: "in_step ''host'' sample_db hub"
    by (rule baseline_in_step [OF wf_sample_db sample_reasons wf_HubDb_empty, of "''host''"])
      (auto simp: source_revision_def HubDb_empty_def sample_event_facts)
  have "hub_reachable HubDb_empty hub"
    unfolding hub_reachable_def using s by (blast intro: hub_snapshot)
  moreover have "hd_revision hub = 1" "hd_deliveries hub = []"
    using s unfolding snapshot_envelope_def
    by (cases rule: ingest_snapshot_cases; simp add: load_views_frame cleared_def HubDb_empty_def)+
  ultimately show thesis using that i by blast
qed

text \<open>
  Whatever a broker shows, the hub accepts: in every state the broker can reach, the reason of
  every view is bounded, free of control characters and fits the status, as the hub demands.
\<close>

theorem broker_views_pass_hub_validation:
  assumes "broker_reachable cd Db_empty db" and "view_of db i = Some v"
  shows "valid_public_reason v \<and> pv_invocation_id v = i"
  using broker_reachable_reasons [OF assms(1)] view_of_valid view_of_id assms(2) by blast

theorem broker_views_pass_hub_validation_witness:
  "\<exists>v. view_of sample_db ''inv-1'' = Some v \<and> valid_public_reason v"
proof -
  obtain v where "view_of sample_db ''inv-1'' = Some v" by (simp add: view_of_def sample_invocation)
  with broker_views_pass_hub_validation [OF sample_db_reachable this] show ?thesis by blast
qed

text \<open>
  (C4) A baseline brings the hub in step: the snapshot a broker takes is never refused or found
  stale, and afterwards the hub shows exactly the broker's agents, less the forgotten ones. The
  hub must not have seen a later revision of the source, and the counters stay in their 63 bits.
\<close>

theorem snapshot_brings_hub_in_step:
  assumes "broker_reachable cd Db_empty db" and "hub_reachable HubDb_empty hub" and "source \<noteq> []"
    and "\<forall>n. source_revision hub source = Some n \<longrightarrow> n \<le> db_revision db"
    and "db_revision db < 2 ^ 63" and "hd_revision hub + 1 < 2 ^ 63"
  shows "\<exists>vs hub'. public_snapshot db = Inr (db_revision db, vs)
    \<and> ingest_snapshot hub (snapshot_envelope source name (db_revision db) vs) now =
        Inr (hub', SnapshotApplied (hd_revision hub + 1))
    \<and> in_step source db hub'"
proof -
  note db = broker_reachable_reasons [OF assms(1)]
  show ?thesis
    by (rule baseline_in_step [OF conjunct1 [OF db] conjunct2 [OF db]
          hub_reachable_wf [OF assms(2) wf_HubDb_empty] assms(3) _ assms(5,6)])
      (use assms(4) in blast)+
qed

theorem snapshot_brings_hub_in_step_witness:
  "\<exists>vs hub'. ingest_snapshot HubDb_empty (snapshot_envelope ''host'' None 1 vs) 5 = Inr (hub', SnapshotApplied 1)
     \<and> in_step ''host'' sample_db hub'"
proof -
  have "hub_reachable HubDb_empty HubDb_empty" by (simp add: hub_reachable_def)
  from snapshot_brings_hub_in_step [OF sample_db_reachable this, of "''host''" None 5] show ?thesis
    by (auto simp: source_revision_def HubDb_empty_def sample_event_facts)
qed

text \<open>
  (C1) Updates keep the hub in step: when the broker commits an event, either nothing visible
  changed and the hub still shows the broker's agents, or the update the broker announces is
  accepted by a hub that was in step (never stale, a duplicate or malformed), after which the hub
  shows the broker's agents again.
\<close>

theorem event_keeps_hub_in_step:
  assumes db: "broker_reachable cd Db_empty db" and hub: "hub_reachable HubDb_empty hub"
    and step: "in_step source db hub"
    and ok: "apply_event_with_context cd db e r publish wall = Inr (db', u)"
    and ids: "source \<noteq> []" "pb_source_id p = source" "ev_event_id e \<noteq> []"
    and new: "(source, ev_event_id e) \<notin> delivery_key ` set (hd_deliveries hub)"
    and range: "hd_revision hub + 1 < 2 ^ 63"
  shows "case u of
      None \<Rightarrow> in_step source db' hub
    | Some up \<Rightarrow> \<exists>hub' a. ingest_update hub (update_envelope p (au_view up) (au_delivery_id up)
          (au_revision up) (au_changed up)) now = Inr (hub', a)
        \<and> a \<notin> {UpdateStale, UpdateDuplicate} \<and> in_step source db' hub'"
proof (cases "ev_event_id e \<in> dd_event_id ` set (db_dedup db)")
  case True
  from ok have "u = None \<and> db' = db" by (cases rule: apply_event_with_context_cases) (use True in auto)
  with step show ?thesis by simp
next
  case False
  note wf = broker_reachable_reasons [OF db]
  have wf': "wf_db db'" "valid_reasons (db_reasons db')"
    using event_wf [OF _ ok] event_reasons [OF _ _ ok] wf by auto
  obtain v w where vw: "view_of db (ev_invocation_id e) = Some v" "view_of db' (ev_invocation_id e) = Some w"
      "u = update_of (DeliveryEvent (ev_event_id e)) (ev_invocation_id e) (db_revision db') (Some v) (Some w)"
      "db_revision db' = db_revision db + 1" "db_revision db' < 2 ^ 63"
      "\<And>j. j \<noteq> ev_invocation_id e \<Longrightarrow> view_of db' j = view_of db j"
    using event_views [OF conjunct1 [OF wf] False ok] by blast
  show ?thesis
  proof (cases "v = w")
    case True
    have "view_of db' i = view_of db i" for i using vw(1,2,6) True by (cases "i = ev_invocation_id e") auto
    with vw True show ?thesis by (simp add: update_of_def unchanged_in_step [OF step])
  next
    case False
    show ?thesis
      by (rule update_in_step [OF hub_reachable_wf [OF hub wf_HubDb_empty] step vw(1,2) False vw(6)
            view_of_valid [OF wf'(2) vw(2)] view_of_id [OF wf'(1) vw(2)] vw(4,5) range ids(1,3) new refl, of now])
        (use False ids in \<open>auto simp: vw(3) update_of_def delivery_id_of_def update_envelope_def
           split: if_splits\<close>)
  qed
qed

theorem event_keeps_hub_in_step_witness:
  "\<exists>hub db' u. in_step ''host'' sample_db hub
     \<and> apply_event_with_context sample_codec sample_db (sample_event ''a'' KWorking) None None 5 = Inr (db', u)
     \<and> (case u of
          None \<Rightarrow> in_step ''host'' db' hub
        | Some up \<Rightarrow> \<exists>hub' a. ingest_update hub (update_envelope sample_publish (au_view up) (au_delivery_id up)
              (au_revision up) (au_changed up)) 9 = Inr (hub', a)
            \<and> a \<notin> {UpdateStale, UpdateDuplicate} \<and> in_step ''host'' db' hub')"
proof -
  obtain hub where hub: "hub_reachable HubDb_empty hub" "hd_revision hub = 1" "hd_deliveries hub = []"
      "in_step ''host'' sample_db hub" using sample_in_step .
  obtain db' u where ok: "apply_event_with_context sample_codec sample_db (sample_event ''a'' KWorking)
      None None 5 = Inr (db', u)" using sample_first by blast
  have "case u of
      None \<Rightarrow> in_step ''host'' db' hub
    | Some up \<Rightarrow> \<exists>hub' a. ingest_update hub (update_envelope sample_publish (au_view up) (au_delivery_id up)
          (au_revision up) (au_changed up)) 9 = Inr (hub', a)
        \<and> a \<notin> {UpdateStale, UpdateDuplicate} \<and> in_step ''host'' db' hub'"
    using event_keeps_hub_in_step [OF sample_db_reachable hub(1,4) ok, of sample_publish 9] hub(2,3)
    by (simp add: sample_event_facts sample_publish_def)
  with hub(4) ok show ?thesis by blast
qed

text \<open>
  (C39) Order matters: when a later update of a source is accepted first, an earlier one that comes
  after it is answered as stale, which the sender takes for delivered, and the agent it was about
  keeps its old view. An update put back for a retry is overtaken this way by the next one.
\<close>

theorem late_update_lost:
  assumes later: "ingest_update hub (SourceEnvelopeUpdate u2) now = Inr (hub2, a)"
      "a \<notin> {UpdateStale, UpdateDuplicate}"
    and order: "su_source_id u1 = su_source_id u2" "su_revision u1 < su_revision u2"
      "pv_invocation_id (su_view u1) \<noteq> pv_invocation_id (su_view u2)"
    and sound: "su_schema_version u1 = HUB_SCHEMA_VERSION" "su_delivery_id u1 \<noteq> []" "su_changed u1 \<noteq> {}"
      "valid_public_reason (su_view u1)"
    and new: "su_delivery_id u1 \<noteq> su_delivery_id u2"
      "(su_source_id u1, su_delivery_id u1) \<notin> delivery_key ` set (hd_deliveries hub)"
  shows "ingest_update hub2 (SourceEnvelopeUpdate u1) now' = Inr (hub2, UpdateStale)
    \<and> hub_view hub2 (su_source_id u1) (pv_invocation_id (su_view u1)) =
        hub_view hub (su_source_id u1) (pv_invocation_id (su_view u1))"
proof -
  have src: "su_source_id u2 \<noteq> []"
    using later(1) by (auto simp: ingest_update_def result_bind_Inr split: if_splits)
  from later(1) obtain n where n: "source_revision hub (su_source_id u2) = Some n"
    and s: "hd_sources hub2 = record_in (su_source_id u2) (su_revision u2) now (hd_sources hub)"
    and d: "delivery_key ` set (hd_deliveries hub2) =
        insert (su_source_id u2, su_delivery_id u2) (delivery_key ` set (hd_deliveries hub))"
    and v: "hub_view hub2 (su_source_id u1) (pv_invocation_id (su_view u1)) =
        hub_view hub (su_source_id u1) (pv_invocation_id (su_view u1))"
    by (cases rule: ingest_update_cases)
      (use later(2) order(3) in \<open>auto simp: delivery_key_def hub_view_def tbl_lookup_put\<close>)
  from n s have "map_option sr_source_revision (tbl_lookup sr_source_id (su_source_id u2) (hd_sources hub2)) =
      Some (su_revision u2)"
    by (auto simp: source_revision_def lookup_record_in)
  with v src order sound new d show ?thesis
    by (auto simp: ingest_update_def validate_version_def tbl_lookup_None_iff)
qed

definition late_update :: SourceUpdate where
  "late_update = sample_update\<lparr>su_delivery_id := ''d0'', su_revision := 3,
     su_view := sample_view\<lparr>pv_invocation_id := ''inv-2''\<rparr>\<rparr>"

theorem late_update_lost_witness:
  "\<exists>hub a. ingest_update sample_hub (SourceEnvelopeUpdate sample_update) 6 = Inr (hub, a)
     \<and> ingest_update hub (SourceEnvelopeUpdate late_update) 7 = Inr (hub, UpdateStale)"
proof -
  obtain hub ch where u: "ingest_update sample_hub (SourceEnvelopeUpdate sample_update) 6 =
      Inr (hub, UpdateApplied 2 ch False)" using sample_update_applies by blast
  have "ingest_update hub (SourceEnvelopeUpdate late_update) 7 = Inr (hub, UpdateStale)"
    using late_update_lost [OF u, of late_update 7]
    by (simp add: late_update_def sample_update_def HUB_SCHEMA_VERSION_def valid_public_reason_def sample_hub_def
        HubDb_empty_def)
  with u show ?thesis by blast
qed

end
